(* ===== verification/Prelude.thy ===== *)
theory Prelude
  imports
    Main
    "HOL-Library.Word"
    "HOL-Library.Char_ord"
    "HOL-Library.List_Lexorder"
    "HOL-Library.Product_Lexorder"
begin

text \<open>
  The shared vocabulary of the development: Rust's string operations on byte
  strings, unsigned integers with their saturating arithmetic, decimal
  printing and parsing, and the generic lemmas on lists and options that the
  component theories use.

  A Rust \<open>str\<close> or byte slice is an Isabelle \<open>string\<close>, the list of its
  bytes; lengths are therefore byte lengths as \<open>str::len\<close> has them.
  \<open>str::trim\<close> is modelled for ASCII white space, which is exact for every
  header value (\<open>HeaderValue::to_str\<close> only returns visible ASCII) and for
  ASCII configuration text.  A \<open>u64\<close>, \<open>u32\<close> or \<open>usize\<close> is a \<open>nat\<close> with the
  width's bound written out wherever the code can reach it, and a \<open>word\<close>
  where the code wraps or works on bits.
\<close>

named_theorems str_simps \<open>characterisations of the string operations\<close>
named_theorems hm_simps \<open>header map equations\<close>

section \<open>Strings\<close>

definition str_starts_with :: "string \<Rightarrow> string \<Rightarrow> bool" where
  "str_starts_with s p \<longleftrightarrow> take (length p) s = p"

definition str_ends_with :: "string \<Rightarrow> string \<Rightarrow> bool" where
  "str_ends_with s p \<longleftrightarrow> length p \<le> length s \<and> drop (length s - length p) s = p"

definition strip_prefix :: "string \<Rightarrow> string \<Rightarrow> string option" where
  "strip_prefix s p = (if str_starts_with s p then Some (drop (length p) s) else None)"

definition strip_suffix :: "string \<Rightarrow> string \<Rightarrow> string option" where
  "strip_suffix s p =
     (if str_ends_with s p then Some (take (length s - length p) s) else None)"

text \<open>\<open>str::split(c)\<close>: the pieces between the separators, never an empty list.\<close>

fun str_split :: "char \<Rightarrow> string \<Rightarrow> string list" where
  "str_split c [] = [[]]"
| "str_split c (x # xs) =
     (if x = c then [] # str_split c xs
      else (case str_split c xs of [] \<Rightarrow> [[x]] | p # ps \<Rightarrow> (x # p) # ps))"

fun split_once :: "char \<Rightarrow> string \<Rightarrow> (string \<times> string) option" where
  "split_once c [] = None"
| "split_once c (x # xs) =
     (if x = c then Some ([], xs)
      else map_option (\<lambda>(a, b). (x # a, b)) (split_once c xs))"

definition is_ws :: "char \<Rightarrow> bool" where
  "is_ws c \<longleftrightarrow> c \<in> {CHR 0x09, CHR 0x0A, CHR 0x0B, CHR 0x0C, CHR 0x0D, CHR '' ''}"

definition str_trim :: "string \<Rightarrow> string" where
  "str_trim s = rev (dropWhile is_ws (rev (dropWhile is_ws s)))"

definition trim_matches :: "char \<Rightarrow> string \<Rightarrow> string" where
  "trim_matches c s = rev (dropWhile (\<lambda>x. x = c) (rev (dropWhile (\<lambda>x. x = c) s)))"

definition ascii_lower :: "char \<Rightarrow> char" where
  "ascii_lower c =
     (if 65 \<le> (of_char c :: nat) \<and> (of_char c :: nat) \<le> 90
      then char_of ((of_char c :: nat) + 32) else c)"

definition to_ascii_lowercase :: "string \<Rightarrow> string" where
  "to_ascii_lowercase s = map ascii_lower s"

definition eq_ignore_ascii_case :: "string \<Rightarrow> string \<Rightarrow> bool" where
  "eq_ignore_ascii_case a b \<longleftrightarrow> to_ascii_lowercase a = to_ascii_lowercase b"

text \<open>\<open>[&str]::join(sep)\<close>.\<close>

fun str_join :: "string \<Rightarrow> string list \<Rightarrow> string" where
  "str_join sep [] = []"
| "str_join sep [x] = x"
| "str_join sep (x # y # zs) = x @ sep @ str_join sep (y # zs)"

lemma str_starts_with_iff [str_simps]: "str_starts_with s p \<longleftrightarrow> (\<exists>r. s = p @ r)"
  unfolding str_starts_with_def by (metis append_eq_conv_conj append_take_drop_id)

lemma str_ends_with_iff [str_simps]: "str_ends_with s p \<longleftrightarrow> (\<exists>r. s = r @ p)"
proof
  assume "str_ends_with s p"
  then have "s = take (length s - length p) s @ p"
    unfolding str_ends_with_def by (metis append_take_drop_id)
  then show "\<exists>r. s = r @ p" by blast
next
  assume "\<exists>r. s = r @ p"
  then show "str_ends_with s p" by (auto simp: str_ends_with_def)
qed

lemma strip_prefix_Some [str_simps]: "strip_prefix s p = Some r \<longleftrightarrow> s = p @ r"
  unfolding strip_prefix_def str_starts_with_def
  by (auto, metis append_take_drop_id)

lemma strip_prefix_None [str_simps]: "strip_prefix s p = None \<longleftrightarrow> (\<nexists>r. s = p @ r)"
  by (auto simp: strip_prefix_def str_starts_with_iff)

lemma strip_prefix_append [simp]: "strip_prefix (p @ r) p = Some r"
  by (simp add: strip_prefix_Some)

lemma strip_suffix_Some [str_simps]: "strip_suffix s p = Some r \<longleftrightarrow> s = r @ p"
proof
  assume "strip_suffix s p = Some r"
  then have "str_ends_with s p" and r: "r = take (length s - length p) s"
    by (auto simp: strip_suffix_def split: if_splits)
  then obtain q where "s = q @ p" by (auto simp: str_ends_with_iff)
  with r show "s = r @ p" by simp
qed (auto simp: strip_suffix_def str_ends_with_iff)

lemma strip_suffix_None [str_simps]: "strip_suffix s p = None \<longleftrightarrow> (\<nexists>r. s = r @ p)"
  by (auto simp: strip_suffix_def str_ends_with_iff)

lemma str_split_not_Nil [simp]: "str_split c s \<noteq> []"
  by (induction s) (auto split: list.splits)

lemma str_split_no_sep: "c \<notin> set s \<Longrightarrow> str_split c s = [s]"
  by (induction s) auto

lemma str_split_pieces: "p \<in> set (str_split c s) \<Longrightarrow> c \<notin> set p"
proof (induction s arbitrary: p)
  case (Cons x xs)
  then show ?case by (cases "str_split c xs") (auto split: if_splits)
qed simp

lemma str_split_append_sep:
  "c \<notin> set p \<Longrightarrow> str_split c (p @ c # r) = p # str_split c r"
  by (induction p) auto

lemma hd_str_split_no_sep: "c \<notin> set p \<Longrightarrow> hd (str_split c (p @ c # r)) = p"
  by (simp add: str_split_append_sep)

lemma split_once_Some:
  "split_once c s = Some (a, b) \<longleftrightarrow> s = a @ c # b \<and> c \<notin> set a"
proof (induction s arbitrary: a)
  case (Cons x xs)
  show ?case
  proof (cases a)
    case Nil
    then show ?thesis by auto
  next
    case (Cons y ys)
    with Cons.IH [of ys] show ?thesis by auto
  qed
qed simp

lemma split_once_None: "split_once c s = None \<longleftrightarrow> c \<notin> set s"
  by (induction s) auto

lemma split_once_append [simp]: "c \<notin> set a \<Longrightarrow> split_once c (a @ c # b) = Some (a, b)"
  by (simp add: split_once_Some)

lemma ascii_lower_idem [simp]: "ascii_lower (ascii_lower c) = ascii_lower c"
  unfolding ascii_lower_def by (auto simp: of_char_of)

lemma ascii_lower_nonletter:
  assumes "ascii_lower c = d" and "\<not> (97 \<le> (of_char d :: nat) \<and> (of_char d :: nat) \<le> 122)"
  shows "c = d"
proof (cases "65 \<le> (of_char c :: nat) \<and> (of_char c :: nat) \<le> 90")
  case True
  with assms(1) have "(of_char d :: nat) = of_char c + 32"
    by (auto simp: ascii_lower_def of_char_of)
  with True assms(2) show ?thesis by auto
qed (use assms(1) in \<open>auto simp: ascii_lower_def\<close>)

lemma to_ascii_lowercase_nonletter:
  assumes "\<not> (97 \<le> (of_char d :: nat) \<and> (of_char d :: nat) \<le> 122)"
    and "d \<in> set (to_ascii_lowercase s)"
  shows "d \<in> set s"
proof -
  from assms(2) obtain c where "c \<in> set s" "ascii_lower c = d"
    by (auto simp: to_ascii_lowercase_def)
  with ascii_lower_nonletter [of c d] assms(1) show ?thesis by simp
qed

lemma to_ascii_lowercase_idem [simp]:
  "to_ascii_lowercase (to_ascii_lowercase s) = to_ascii_lowercase s"
  by (simp add: to_ascii_lowercase_def)

lemma to_ascii_lowercase_append [simp]:
  "to_ascii_lowercase (a @ b) = to_ascii_lowercase a @ to_ascii_lowercase b"
  by (simp add: to_ascii_lowercase_def)

lemma length_to_ascii_lowercase [simp]: "length (to_ascii_lowercase s) = length s"
  by (simp add: to_ascii_lowercase_def)

lemma str_trim_Nil [simp]: "str_trim [] = []"
  by (simp add: str_trim_def)

lemma str_trim_space: "str_trim (CHR '' '' # s) = str_trim s"
  by (simp add: str_trim_def is_ws_def)

lemma dropWhile_hd_id: "xs = [] \<or> \<not> P (hd xs) \<Longrightarrow> dropWhile P xs = xs"
  by (cases xs) auto

lemma str_trim_id: "\<not> is_ws (hd s) \<Longrightarrow> \<not> is_ws (last s) \<Longrightarrow> str_trim s = s"
  by (cases "s = []") (simp_all add: str_trim_def dropWhile_hd_id hd_rev)

lemma map_filter_set: "set (List.map_filter f xs) = {y. \<exists>x \<in> set xs. f x = Some y}"
  by (induction xs) (auto simp: List.map_filter_simps split: option.splits)

lemma map_filter_Nil: "List.map_filter f xs = [] \<longleftrightarrow> (\<forall>x \<in> set xs. f x = None)"
  by (induction xs) (auto simp: List.map_filter_simps split: option.splits)

text \<open>
  \<open>str::split_whitespace\<close>: the maximal runs of other characters.  A white space
  character is ASCII or one of the encoded U+0085, U+00A0, U+1680, U+2000 to
  U+200A, U+2028, U+2029, U+202F, U+205F, U+3000; \<open>ws_len\<close> is the number of
  bytes of the one a string begins with.
\<close>

definition byte_in :: "nat \<Rightarrow> nat \<Rightarrow> char \<Rightarrow> bool" where
  "byte_in lo hi c \<longleftrightarrow> lo \<le> (of_char c :: nat) \<and> (of_char c :: nat) \<le> hi"

definition is_ws2 :: "char \<Rightarrow> char \<Rightarrow> bool" where
  "is_ws2 a b \<longleftrightarrow> a = CHR 0xC2 \<and> (b = CHR 0x85 \<or> b = CHR 0xA0)"

definition is_ws3 :: "char \<Rightarrow> char \<Rightarrow> char \<Rightarrow> bool" where
  "is_ws3 a b c \<longleftrightarrow>
     (a = CHR 0xE1 \<and> b = CHR 0x9A \<and> c = CHR 0x80)
     \<or> (a = CHR 0xE2 \<and> b = CHR 0x80 \<and>
         (byte_in 0x80 0x8A c \<or> c = CHR 0xA8 \<or> c = CHR 0xA9 \<or> c = CHR 0xAF))
     \<or> (a = CHR 0xE2 \<and> b = CHR 0x81 \<and> c = CHR 0x9F)
     \<or> (a = CHR 0xE3 \<and> b = CHR 0x80 \<and> c = CHR 0x80)"

definition ws_len :: "string \<Rightarrow> nat" where
  "ws_len s =
     (case s of [] \<Rightarrow> 0 | a # s1 \<Rightarrow>
        if is_ws a then 1
        else case s1 of [] \<Rightarrow> 0 | b # s2 \<Rightarrow>
          if is_ws2 a b then 2
          else case s2 of [] \<Rightarrow> 0 | c # _ \<Rightarrow> if is_ws3 a b c then 3 else 0)"

function split_ws_acc :: "string \<Rightarrow> string \<Rightarrow> string list" where
  "split_ws_acc acc s =
     (case s of [] \<Rightarrow> if acc = [] then [] else [rev acc]
      | c # cs \<Rightarrow>
          if ws_len s = 0 then split_ws_acc (c # acc) cs
          else (if acc = [] then [] else [rev acc]) @ split_ws_acc [] (drop (ws_len s) s))"
  by pat_completeness auto
termination by (relation "measure (\<lambda>(_, s). length s)") auto

declare split_ws_acc.simps [simp del]

definition split_whitespace :: "string \<Rightarrow> string list" where
  "split_whitespace s = split_ws_acc [] s"

definition word_char :: "char \<Rightarrow> bool" where
  "word_char c \<longleftrightarrow> \<not> is_ws c \<and> (of_char c :: nat) < 0xC2"

lemma ws_len_word: "word_char c \<Longrightarrow> ws_len (c # cs) = 0"
proof -
  assume w: "word_char c"
  then have "c \<noteq> CHR 0xC2" "c \<noteq> CHR 0xE1" "c \<noteq> CHR 0xE2" "c \<noteq> CHR 0xE3" "\<not> is_ws c"
    by (auto simp: word_char_def)
  then have "\<not> is_ws c" "\<And>b. \<not> is_ws2 c b" "\<And>b d. \<not> is_ws3 c b d"
    by (simp_all only: is_ws2_def is_ws3_def simp_thms)
  then show ?thesis by (simp add: ws_len_def split: list.split)
qed

lemma ws_len_space: "ws_len (CHR '' '' # s) = 1"
  by (simp add: ws_len_def is_ws_def)

lemma split_ws_acc_word:
  "list_all word_char w \<Longrightarrow> split_ws_acc acc (w @ s) = split_ws_acc (rev w @ acc) s"
  by (induction w arbitrary: acc) (simp_all add: split_ws_acc.simps [of _ "_ # _"] ws_len_word)

lemma split_whitespace_word:
  "list_all word_char w \<Longrightarrow> w \<noteq> [] \<Longrightarrow> split_whitespace (w @ CHR '' '' # s) = w # split_whitespace s"
  by (simp add: split_whitespace_def split_ws_acc_word)
     (simp add: split_ws_acc.simps [of _ "_ # _"] ws_len_space)

lemma split_whitespace_last: "list_all word_char w \<Longrightarrow> w \<noteq> [] \<Longrightarrow> split_whitespace w = [w]"
  using split_ws_acc_word [of w "[]" "[]"] by (simp add: split_whitespace_def split_ws_acc.simps [of _ "[]"])

text \<open>\<open>std::str::from_utf8\<close> accepts exactly the well-formed byte sequences.\<close>

fun utf8_valid :: "string \<Rightarrow> bool" where
  "utf8_valid [] = True"
| "utf8_valid (a # s) =
     (if byte_in 0 127 a then utf8_valid s
      else case s of [] \<Rightarrow> False | b # s1 \<Rightarrow>
        if byte_in 0xC2 0xDF a then byte_in 0x80 0xBF b \<and> utf8_valid s1
        else case s1 of [] \<Rightarrow> False | c # s2 \<Rightarrow>
          if byte_in 0xE0 0xEF a then
            byte_in (if byte_in 0xE0 0xE0 a then 0xA0 else 0x80)
                    (if byte_in 0xED 0xED a then 0x9F else 0xBF) b
            \<and> byte_in 0x80 0xBF c \<and> utf8_valid s2
          else case s2 of [] \<Rightarrow> False | d # s3 \<Rightarrow>
            byte_in 0xF0 0xF4 a
            \<and> byte_in (if byte_in 0xF0 0xF0 a then 0x90 else 0x80)
                      (if byte_in 0xF4 0xF4 a then 0x8F else 0xBF) b
            \<and> byte_in 0x80 0xBF c \<and> byte_in 0x80 0xBF d \<and> utf8_valid s3)"

declare utf8_valid.simps(2) [simp del]

lemma utf8_valid_ascii: "list_all (byte_in 0 127) s \<Longrightarrow> utf8_valid s"
  by (induction s) (simp_all add: utf8_valid.simps(2))

section \<open>Unsigned integers\<close>

definition u64_max :: nat where "u64_max = 18446744073709551615"
definition u32_max :: nat where "u32_max = 4294967295"

definition sat_add_u64 :: "nat \<Rightarrow> nat \<Rightarrow> nat" where
  "sat_add_u64 a b = min u64_max (a + b)"

lemma sat_add_u64_le: "sat_add_u64 a b \<le> u64_max"
  by (simp add: sat_add_u64_def)

lemma sat_add_u64_ge: "a \<le> u64_max \<Longrightarrow> a \<le> sat_add_u64 a b"
  by (simp add: sat_add_u64_def)

lemma sat_add_u64_mono: "a \<le> a' \<Longrightarrow> b \<le> b' \<Longrightarrow> sat_add_u64 a b \<le> sat_add_u64 a' b'"
  by (auto simp: sat_add_u64_def)

text \<open>The wrapping addition of an atomic 64 bit counter.\<close>

definition bump :: "nat \<Rightarrow> nat \<Rightarrow> nat" where "bump counter n = (counter + n) mod 2 ^ 64"

lemma bump_no_wrap: "x + n < 2 ^ 64 \<Longrightarrow> bump x n = x + n"
  by (simp add: bump_def)

definition is_digit :: "char \<Rightarrow> bool" where
  "is_digit c \<longleftrightarrow> 48 \<le> (of_char c :: nat) \<and> (of_char c :: nat) \<le> 57"

definition digit_val :: "char \<Rightarrow> nat" where
  "digit_val c = (of_char c :: nat) - 48"

definition digits_val :: "string \<Rightarrow> nat" where
  "digits_val ds = foldl (\<lambda>n c. 10 * n + digit_val c) 0 ds"

text \<open>
  \<open>str::parse::<u64>\<close> and its kin: an optional plus sign, at least one digit,
  nothing else, and a value within the type.
\<close>

definition parse_uint :: "nat \<Rightarrow> string \<Rightarrow> nat option" where
  "parse_uint bound s =
     (let ds = (case s of [] \<Rightarrow> [] | c # cs \<Rightarrow> if c = CHR ''+'' then cs else s)
      in if ds = [] \<or> \<not> list_all is_digit ds then None
         else if digits_val ds \<le> bound then Some (digits_val ds) else None)"

definition digit_char :: "nat \<Rightarrow> char" where
  "digit_char d = char_of (48 + d)"

fun show_nat :: "nat \<Rightarrow> string" where
  "show_nat n = (if n < 10 then [digit_char n] else show_nat (n div 10) @ [digit_char (n mod 10)])"

declare show_nat.simps [simp del]

lemma digit_char_digit: "d < 10 \<Longrightarrow> is_digit (digit_char d) \<and> digit_val (digit_char d) = d"
  by (simp add: digit_char_def is_digit_def digit_val_def)

lemma show_nat_digits: "list_all is_digit (show_nat n) \<and> show_nat n \<noteq> []"
proof (induction n rule: show_nat.induct)
  case (1 n)
  then show ?case
    by (cases "n < 10") (auto simp: show_nat.simps [of n] digit_char_digit)
qed

lemma digits_val_show_nat: "digits_val (show_nat n) = n"
proof (induction n rule: show_nat.induct)
  case (1 n)
  then show ?case
    by (cases "n < 10")
       (auto simp: show_nat.simps [of n] digits_val_def digit_char_digit)
qed

lemma is_digit_not_plus: "is_digit c \<Longrightarrow> c \<noteq> CHR ''+''"
  by (auto simp: is_digit_def)

lemma parse_uint_show_nat [simp]: "n \<le> bound \<Longrightarrow> parse_uint bound (show_nat n) = Some n"
  using show_nat_digits [of n] is_digit_not_plus digits_val_show_nat [of n]
  by (cases "show_nat n") (auto simp: parse_uint_def Let_def)

lemma parse_uint_bound: "parse_uint bound s = Some n \<Longrightarrow> n \<le> bound"
  by (auto simp: parse_uint_def Let_def split: if_splits)

lemma show_nat_inj: "show_nat a = show_nat b \<Longrightarrow> a = b"
  by (metis digits_val_show_nat)

lemma show_nat_no: "\<not> is_digit c \<Longrightarrow> c \<notin> set (show_nat n)"
  using show_nat_digits [of n] by (auto simp: list_all_iff)

section \<open>First maximal element\<close>

text \<open>
  The selections of the router and of the virtual hosts run through a list
  and replace the current candidate only by a strictly better one.  Their
  abstract specification is the earliest element of maximal rank.
\<close>

fun first_max :: "('a \<Rightarrow> 'k::linorder) \<Rightarrow> 'a list \<Rightarrow> 'a option" where
  "first_max k [] = None"
| "first_max k (x # xs) =
     (case first_max k xs of None \<Rightarrow> Some x
      | Some y \<Rightarrow> if k x < k y then Some y else Some x)"

lemma first_max_None [simp]: "first_max k xs = None \<longleftrightarrow> xs = []"
  by (cases xs) (auto split: option.splits)

lemma first_max_maximal:
  "first_max k xs = Some m \<Longrightarrow> m \<in> set xs \<and> (\<forall>x \<in> set xs. k x \<le> k m)"
proof (induction xs arbitrary: m)
  case (Cons x xs)
  show ?case
  proof (cases "first_max k xs")
    case None
    with Cons.prems show ?thesis by auto
  next
    case (Some y)
    with Cons.prems Cons.IH [OF Some] show ?thesis by (force split: if_splits)
  qed
qed simp

lemma first_max_first:
  "first_max k xs = Some m \<Longrightarrow>
    \<exists>pre post. xs = pre @ m # post \<and> (\<forall>x \<in> set pre. k x < k m)"
proof (induction xs arbitrary: m)
  case (Cons x xs)
  show ?case
  proof (cases "first_max k xs")
    case None
    with Cons.prems have "x # xs = [] @ m # []" by simp
    then show ?thesis by (metis empty_iff empty_set)
  next
    case (Some y)
    show ?thesis
    proof (cases "k x < k y")
      case True
      with Some Cons.prems have m: "m = y" by simp
      from Cons.IH [OF Some] obtain pre post where
        "xs = pre @ y # post" "\<forall>z \<in> set pre. k z < k y" by blast
      with True m have "x # xs = (x # pre) @ m # post \<and> (\<forall>z \<in> set (x # pre). k z < k m)"
        by simp
      then show ?thesis by blast
    next
      case False
      with Some Cons.prems have "x # xs = [] @ m # xs" by simp
      then show ?thesis by (metis empty_iff empty_set)
    qed
  qed
qed simp

lemma first_max_unique_rank:
  assumes "first_max k xs = Some m" and "x \<in> set xs" and "k m < k x"
  shows False
  using first_max_maximal [OF assms(1)] assms(2,3) by auto

lemma first_max_snoc:
  "first_max k (xs @ [x]) =
     (case first_max k xs of None \<Rightarrow> Some x | Some y \<Rightarrow> if k y < k x then Some x else Some y)"
proof (induction xs)
  case (Cons a xs)
  then show ?case by (cases "first_max k xs") (auto split: if_splits)
qed simp

text \<open>
  The interface of such a selection: a step that keeps the current candidate
  unless the new one ranks strictly higher.  Every loop built from such a
  step computes \<open>first_max\<close>.
\<close>

locale ranked_choice =
  fixes rank :: "'a \<Rightarrow> 'k::linorder"
    and step :: "'a option \<Rightarrow> 'a \<Rightarrow> 'a option"
  assumes step_None: "step None c = Some c"
    and step_better: "rank e < rank c \<Longrightarrow> step (Some e) c = Some c"
    and step_keep: "rank c \<le> rank e \<Longrightarrow> step (Some e) c = Some e"
begin

lemma step_eq:
  "step cur c = (case cur of None \<Rightarrow> Some c | Some e \<Rightarrow> if rank e < rank c then Some c else Some e)"
  by (auto simp: step_None step_better step_keep not_less split: option.splits)

lemma foldl_first_max: "foldl step None xs = first_max rank xs"
  by (induction xs rule: rev_induct) (auto simp: first_max_snoc step_eq)

lemma foldl_sound: "foldl step None xs = Some m \<Longrightarrow> m \<in> set xs \<and> (\<forall>x \<in> set xs. rank x \<le> rank m)"
  unfolding foldl_first_max by (rule first_max_maximal)

lemma foldl_None: "foldl step None xs = None \<longleftrightarrow> xs = []"
  by (simp add: foldl_first_max)

end

section \<open>Errors as values\<close>

text \<open>The kinds of \<open>std::io::Error\<close> the program makes.\<close>

datatype io_error =
    IoNotFound | IoInvalidInput | IoInvalidData | IoOutOfMemory | IoUnexpectedEof | IoOther

text \<open>The \<open>?\<close> operator on \<open>Result\<close>.\<close>

definition bind_res :: "'e + 'a \<Rightarrow> ('a \<Rightarrow> 'e + 'b) \<Rightarrow> 'e + 'b" where
  "bind_res r f = (case r of Inl e \<Rightarrow> Inl e | Inr x \<Rightarrow> f x)"

lemma bind_res_simps [simp]:
  "bind_res (Inl e) f = Inl e"
  "bind_res (Inr x) f = f x"
  by (simp_all add: bind_res_def)

lemma bind_res_Inr: "bind_res r f = Inr y \<longleftrightarrow> (\<exists>x. r = Inr x \<and> f x = Inr y)"
  by (cases r) auto

section \<open>Templates with braces\<close>

text \<open>
  The parsers of the cache key templates and of the proxy header templates
  share their loop: doubled braces are literal, a variable stands between
  single braces, the pending literal is flushed before a variable and at the
  end.  The locale states the equations of such a loop; its lemma is that every
  printed sequence of parts parses to parts with the same text.
\<close>

definition escape_braces :: "string \<Rightarrow> string" where
  "escape_braces s = concat (map (\<lambda>c. if c = CHR ''{'' then ''{{'' else if c = CHR ''}'' then ''}}'' else [c]) s)"

locale brace_template =
  fixes parse :: "string \<Rightarrow> string \<Rightarrow> 'p list \<Rightarrow> 'e + 'p list"
    and lit :: "string \<Rightarrow> 'p"
    and var :: "'v \<Rightarrow> 'p"
    and var_name :: "'v \<Rightarrow> string"
    and print_part :: "'p \<Rightarrow> string"
    and printable :: "'p \<Rightarrow> bool"
    and part_text_of :: "'c \<Rightarrow> 'p \<Rightarrow> string"
  assumes parse_end: "parse [] l ps = Inr (if l \<noteq> [] then ps @ [lit l] else ps)"
    and parse_open: "parse (CHR ''{'' # CHR ''{'' # r) l ps = parse r (l @ ''{'') ps"
    and parse_close: "parse (CHR ''}'' # CHR ''}'' # r) l ps = parse r (l @ ''}'') ps"
    and parse_plain: "c \<noteq> CHR ''{'' \<Longrightarrow> c \<noteq> CHR ''}'' \<Longrightarrow> parse (c # r) l ps = parse r (l @ [c]) ps"
    and parse_var: "printable (var v) \<Longrightarrow>
       parse (CHR ''{'' # var_name v @ CHR ''}'' # r) l ps = parse r [] ((if l \<noteq> [] then ps @ [lit l] else ps) @ [var v])"
    and part_cases: "(\<exists>s. p = lit s) \<or> (\<exists>v. p = var v)"
    and print_lit: "print_part (lit s) = escape_braces s"
    and print_var: "print_part (var v) = CHR ''{'' # var_name v @ ''}''"
    and text_lit: "part_text_of ctx (lit s) = s"
begin

lemma parse_escape: "parse (escape_braces s @ r) l ps = parse r (l @ s) ps"
proof (induction s arbitrary: l)
  case (Cons c s)
  consider "c = CHR ''{''" | "c = CHR ''}''" | "c \<noteq> CHR ''{''" "c \<noteq> CHR ''}''" by blast
  then show ?case
    using Cons [of "l @ [c]"] by cases (simp_all add: escape_braces_def parse_open parse_close parse_plain)
qed (simp add: escape_braces_def)

lemma parse_print:
  assumes "list_all printable xs"
  shows "\<exists>out. parse (concat (map print_part xs)) l ps = Inr out \<and>
     (\<forall>ctx. concat (map (part_text_of ctx) out) = concat (map (part_text_of ctx) ps) @ l @ concat (map (part_text_of ctx) xs))"
  using assms
proof (induction xs arbitrary: l ps)
  case Nil
  show ?case by (simp add: parse_end text_lit)
next
  case (Cons x xs)
  from part_cases [of x] show ?case
  proof (elim disjE exE)
    fix s assume x: "x = lit s"
    from Cons.IH [of "l @ s" ps] Cons.prems show ?thesis by (simp add: x print_lit text_lit parse_escape)
  next
    fix v assume x: "x = var v"
    from Cons.IH [of "[]" "(if l \<noteq> [] then ps @ [lit l] else ps) @ [var v]"] Cons.prems show ?thesis
      by (cases "l = []") (simp_all add: x print_var parse_var text_lit)
  qed
qed

end

end
