(* ===== verification/Net_Addr.thy ===== *)
theory Net_Addr
  imports Prelude
begin

text \<open>
  \<open>std::net\<close> addresses as the program uses them: \<open>IpAddr\<close> with its octets,
  order, \<open>Display\<close> and \<open>FromStr\<close>, \<open>SocketAddr\<close>, and the network type of the
  access lists.  The text forms follow the standard library: dotted decimal
  without leading zeros, and IPv6 groups in lower-case hexadecimal with the
  first longest run of two or more zero groups written as a double colon.
\<close>

unbundle bit_operations_syntax

datatype ip_addr = V4 "32 word" | V6 "128 word"

type_synonym socket_addr = "ip_addr \<times> nat"

definition sock_ip :: "socket_addr \<Rightarrow> ip_addr" where "sock_ip a = fst a"
definition sock_port :: "socket_addr \<Rightarrow> nat" where "sock_port a = snd a"

text \<open>An \<open>ipnet::IpNet\<close>: containment is the crate's, an argument of its users.\<close>

record ip_net =
  net_addr :: ip_addr
  net_prefix_len :: nat

definition octet :: "'a::len word \<Rightarrow> nat \<Rightarrow> 8 word" where
  "octet w i = ucast (drop_bit (8 * i) w)"

fun ip_octets :: "ip_addr \<Rightarrow> 8 word list" where
  "ip_octets (V4 w) = map (octet w) [3, 2, 1, 0]"
| "ip_octets (V6 w) = map (octet w) [15, 14, 13, 12, 11, 10, 9, 8, 7, 6, 5, 4, 3, 2, 1, 0]"

fun is_ipv6 :: "ip_addr \<Rightarrow> bool" where
  "is_ipv6 (V4 _) = False"
| "is_ipv6 (V6 _) = True"

text \<open>The derived order: every IPv4 address before every IPv6 address, then by value.\<close>

instantiation ip_addr :: linorder
begin

fun less_eq_ip_addr :: "ip_addr \<Rightarrow> ip_addr \<Rightarrow> bool" where
  "less_eq_ip_addr (V4 a) (V4 b) = (a \<le> b)"
| "less_eq_ip_addr (V4 a) (V6 b) = True"
| "less_eq_ip_addr (V6 a) (V4 b) = False"
| "less_eq_ip_addr (V6 a) (V6 b) = (a \<le> b)"

definition less_ip_addr :: "ip_addr \<Rightarrow> ip_addr \<Rightarrow> bool" where
  "less_ip_addr x y \<longleftrightarrow> x \<le> y \<and> \<not> y \<le> (x::ip_addr)"

instance
proof
  fix x y z :: ip_addr
  show "x < y \<longleftrightarrow> x \<le> y \<and> \<not> y \<le> x" by (simp add: less_ip_addr_def)
  show "x \<le> x" by (cases x) auto
  show "x \<le> y \<Longrightarrow> y \<le> z \<Longrightarrow> x \<le> z" by (cases x; cases y; cases z) auto
  show "x \<le> y \<Longrightarrow> y \<le> x \<Longrightarrow> x = y" by (cases x; cases y) auto
  show "x \<le> y \<or> y \<le> x" by (cases x; cases y) auto
qed

end

section \<open>Printing\<close>

definition show_ipv4 :: "32 word \<Rightarrow> string" where
  "show_ipv4 w = str_join ''.'' (map (\<lambda>b. show_nat (unat b)) (ip_octets (V4 w)))"

definition hex_char :: "nat \<Rightarrow> char" where
  "hex_char d = (if d < 10 then char_of (48 + d) else char_of (87 + d))"

fun show_hex :: "nat \<Rightarrow> string" where
  "show_hex n = (if n < 16 then [hex_char n] else show_hex (n div 16) @ [hex_char (n mod 16)])"

declare show_hex.simps [simp del]

definition ipv6_segments :: "128 word \<Rightarrow> nat list" where
  "ipv6_segments w = map (\<lambda>i. unat (drop_bit (16 * i) w) mod 65536) [7, 6, 5, 4, 3, 2, 1, 0]"

text \<open>The first longest run of zero groups, as its start and its length.\<close>

fun zero_run :: "nat list \<Rightarrow> nat \<Rightarrow> nat \<times> nat \<Rightarrow> nat \<times> nat \<Rightarrow> nat \<times> nat" where
  "zero_run [] i cur best = best"
| "zero_run (x # xs) i cur best =
     (if x = 0 then
        (let cur' = (if snd cur = 0 then (i, 1) else (fst cur, snd cur + 1));
             best' = (if snd best < snd cur' then cur' else best)
         in zero_run xs (Suc i) cur' best')
      else zero_run xs (Suc i) (0, 0) best)"

definition show_ipv6 :: "128 word \<Rightarrow> string" where
  "show_ipv6 w =
     (let segs = ipv6_segments w;
          grp = (\<lambda>xs. str_join '':'' (map show_hex xs))
      in if take 5 segs = [0, 0, 0, 0, 0] \<and> segs ! 5 = 65535
         then ''::ffff:'' @ show_ipv4 (ucast w)
         else (case zero_run segs 0 (0, 0) (0, 0) of (start, len) \<Rightarrow>
           if 1 < len then grp (take start segs) @ ''::'' @ grp (drop (start + len) segs)
           else grp segs))"

fun show_ip :: "ip_addr \<Rightarrow> string" where
  "show_ip (V4 w) = show_ipv4 w"
| "show_ip (V6 w) = show_ipv6 w"

text \<open>\<open>Display\<close> of a \<open>SocketAddr\<close>, brackets around an IPv6 address.\<close>

fun show_socket_addr :: "socket_addr \<Rightarrow> string" where
  "show_socket_addr (V4 w, p) = show_ipv4 w @ '':'' @ show_nat p"
| "show_socket_addr (V6 w, p) = ''['' @ show_ipv6 w @ '']:'' @ show_nat p"

section \<open>Parsing\<close>

text \<open>
  The standard library's address parser reads numbers of a bounded digit
  count from the front of the input.  A reader returns the value and the rest
  of the input; \<open>None\<close> leaves the input untouched.
\<close>

definition hex_val :: "char \<Rightarrow> nat option" where
  "hex_val c =
     (let n = (of_char c :: nat) in
      if 48 \<le> n \<and> n \<le> 57 then Some (n - 48)
      else if 97 \<le> n \<and> n \<le> 102 then Some (n - 87)
      else if 65 \<le> n \<and> n \<le> 70 then Some (n - 55) else None)"

definition dec_val :: "char \<Rightarrow> nat option" where
  "dec_val c = (if is_digit c then Some (digit_val c) else None)"

text \<open>At most \<open>k\<close> digits; a further digit is an error.\<close>

fun read_digits ::
  "(char \<Rightarrow> nat option) \<Rightarrow> nat \<Rightarrow> nat \<Rightarrow> nat \<Rightarrow> string \<Rightarrow> (nat \<times> nat \<times> string) option" where
  "read_digits val radix k n [] = Some (n, k, [])"
| "read_digits val radix k n (c # cs) =
     (case val c of
        None \<Rightarrow> Some (n, k, c # cs)
      | Some d \<Rightarrow> (case k of 0 \<Rightarrow> None | Suc k' \<Rightarrow> read_digits val radix k' (radix * n + d) cs))"

definition read_octet :: "string \<Rightarrow> (nat \<times> string) option" where
  "read_octet s =
     (case read_digits dec_val 10 3 0 s of
        None \<Rightarrow> None
      | Some (n, k, rest) \<Rightarrow>
          if k = 3 \<or> 255 < n \<or> (k < 2 \<and> take 1 s = ''0'') then None else Some (n, rest))"

definition read_group :: "string \<Rightarrow> (nat \<times> string) option" where
  "read_group s =
     (case read_digits hex_val 16 4 0 s of
        None \<Rightarrow> None
      | Some (n, k, rest) \<Rightarrow> if k = 4 then None else Some (n, rest))"

definition read_char :: "char \<Rightarrow> string \<Rightarrow> string option" where
  "read_char c s = strip_prefix s [c]"

definition read_ipv4 :: "string \<Rightarrow> (nat list \<times> string) option" where
  "read_ipv4 s =
     Option.bind (read_octet s) (\<lambda>(a, s1). Option.bind (read_char (CHR ''.'') s1) (\<lambda>s2.
     Option.bind (read_octet s2) (\<lambda>(b, s3). Option.bind (read_char (CHR ''.'') s3) (\<lambda>s4.
     Option.bind (read_octet s4) (\<lambda>(c, s5). Option.bind (read_char (CHR ''.'') s5) (\<lambda>s6.
     Option.bind (read_octet s6) (\<lambda>(d, s7). Some ([a, b, c, d], s7))))))))"

definition word_of_octets :: "nat list \<Rightarrow> nat" where
  "word_of_octets bs = foldl (\<lambda>n b. 256 * n + b) 0 bs"

text \<open>
  \<open>read_groups limit i acc s\<close> reads IPv6 groups from position \<open>i\<close>: each but
  the first after a colon, and while two groups remain, a trailing dotted
  IPv4 address that fills two groups.
\<close>

fun read_groups :: "nat \<Rightarrow> nat \<Rightarrow> nat list \<Rightarrow> string \<Rightarrow> nat list \<times> bool \<times> string" where
  "read_groups 0 i acc s = (acc, False, s)"
| "read_groups (Suc left) i acc s =
     (let body = (if i = 0 then Some s else read_char (CHR '':'') s);
          v4 = (if left = 0 then None else Option.bind body read_ipv4)
      in case v4 of
           Some (bs, rest) \<Rightarrow>
             (acc @ [word_of_octets (take 2 bs), word_of_octets (drop 2 bs)], True, rest)
         | None \<Rightarrow>
             (case Option.bind body read_group of
                None \<Rightarrow> (acc, False, s)
              | Some (g, rest) \<Rightarrow> read_groups left (Suc i) (acc @ [g]) rest))"

definition word_of_groups :: "nat list \<Rightarrow> nat" where
  "word_of_groups gs = foldl (\<lambda>n g. 65536 * n + g) 0 gs"

definition read_ipv6 :: "string \<Rightarrow> (nat \<times> string) option" where
  "read_ipv6 s =
     (case read_groups 8 0 [] s of (head, head_ipv4, s1) \<Rightarrow>
        if length head = 8 then Some (word_of_groups head, s1)
        else if head_ipv4 then None
        else (case strip_prefix s1 ''::'' of
                None \<Rightarrow> None
              | Some s2 \<Rightarrow>
                  (case read_groups (8 - (length head + 1)) 0 [] s2 of (tail, _, s3) \<Rightarrow>
                     Some (word_of_groups
                             (head @ replicate (8 - length head - length tail) 0 @ tail), s3))))"

definition parse_ip :: "string \<Rightarrow> ip_addr option" where
  "parse_ip s =
     (case read_ipv4 s of
        Some (bs, []) \<Rightarrow> Some (V4 (of_nat (word_of_octets bs)))
      | _ \<Rightarrow> (case read_ipv6 s of
                Some (n, []) \<Rightarrow> Some (V6 (of_nat n))
              | _ \<Rightarrow> None))"

text \<open>
  A port is a decimal \<open>u16\<close> of any length; an IPv6 socket address may carry
  a numeric scope after a percent sign, which the address part drops.
\<close>

definition read_bounded :: "nat \<Rightarrow> string \<Rightarrow> (nat \<times> string) option" where
  "read_bounded bound s =
     (let ds = takeWhile is_digit s
      in if ds = [] \<or> bound < digits_val ds then None
         else Some (digits_val ds, dropWhile is_digit s))"

definition parse_socket_addr :: "string \<Rightarrow> socket_addr option" where
  "parse_socket_addr s =
     (case Option.bind (read_ipv4 s) (\<lambda>(bs, s1).
             Option.bind (read_char (CHR '':'') s1) (\<lambda>s2.
             Option.bind (read_bounded 65535 s2) (\<lambda>(p, s3).
               if s3 = [] then Some (V4 (of_nat (word_of_octets bs)), p) else None))) of
        Some a \<Rightarrow> Some a
      | None \<Rightarrow>
          Option.bind (read_char (CHR ''['') s) (\<lambda>s1.
          Option.bind (read_ipv6 s1) (\<lambda>(n, s2).
          Option.bind (case read_char (CHR ''%'') s2 of
                         None \<Rightarrow> Some s2
                       | Some s3 \<Rightarrow> map_option snd (read_bounded u32_max s3)) (\<lambda>s4.
          Option.bind (read_char (CHR '']'') s4) (\<lambda>s5.
          Option.bind (read_char (CHR '':'') s5) (\<lambda>s6.
          Option.bind (read_bounded 65535 s6) (\<lambda>(p, s7).
            if s7 = [] then Some (V6 (of_nat n), p) else None)))))))"

section \<open>Round trip of dotted decimal\<close>

lemma octet_bound: "unat (octet w i) \<le> 255"
proof -
  have "unat (octet w i) < 2 ^ LENGTH(8)" by (rule unsigned_less)
  then show ?thesis by simp
qed

lemma unat_octet:
  assumes "8 * i + 8 \<le> LENGTH('a)"
  shows "unat (octet (w :: 'a::len word) i) = unat w div 2 ^ (8 * i) mod 256"
proof -
  have "unat (octet w i) = unat (drop_bit (8 * i) w) mod 256"
    by (simp add: octet_def unsigned_ucast_eq take_bit_eq_mod)
  moreover have "unat (drop_bit (8 * i) w) = unat w div 2 ^ (8 * i)"
    by (simp add: unsigned_drop_bit_eq take_bit_nat_eq_self [OF unsigned_less] flip: drop_bit_eq_div)
  ultimately show ?thesis by simp
qed

lemma ip_octets_length: "length (ip_octets (V4 w)) = 4" "length (ip_octets (V6 v)) = 16"
  by simp_all

lemma show_nat_1: "n < 10 \<Longrightarrow> show_nat n = [digit_char n]"
  by (simp add: show_nat.simps)

lemma show_nat_2:
  "10 \<le> n \<Longrightarrow> n < 100 \<Longrightarrow> show_nat n = [digit_char (n div 10), digit_char (n mod 10)]"
  by (subst show_nat.simps) (simp add: show_nat_1)

lemma show_nat_3:
  "100 \<le> n \<Longrightarrow> n < 1000 \<Longrightarrow>
     show_nat n = [digit_char (n div 100), digit_char (n div 10 mod 10), digit_char (n mod 10)]"
  by (subst show_nat.simps) (simp add: show_nat_2 div_mult2_eq [symmetric])

lemmas show_nat_small = show_nat_1 show_nat_2 show_nat_3

lemma dec_val_digit_char: "d < 10 \<Longrightarrow> dec_val (digit_char d) = Some d"
  using digit_char_digit [of d] by (simp add: dec_val_def)

lemma digit_char_zero:
  assumes "d < 10"
  shows "digit_char d = CHR ''0'' \<longleftrightarrow> d = 0"
proof
  assume "digit_char d = CHR ''0''"
  with assms have "digit_val (CHR ''0'') = d" using digit_char_digit [of d] by simp
  then show "d = 0" by (simp add: digit_val_def)
qed (simp add: digit_char_def char_of_eq_iff)

lemma read_octet_show_nat:
  assumes "n \<le> 255" and "rest = [] \<or> \<not> is_digit (hd rest)"
  shows "read_octet (show_nat n @ rest) = Some (n, rest)"
proof -
  have rest: "read_digits dec_val 10 k m rest = Some (m, k, rest)" for k m
    using assms(2) by (cases rest) (auto simp: dec_val_def)
  consider "n < 10" | "10 \<le> n" "n < 100" | "100 \<le> n" "n < 1000" using assms(1) by linarith
  then show ?thesis
  proof cases
    case 1
    then show ?thesis
      by (simp add: show_nat_small read_octet_def dec_val_digit_char rest numeral_3_eq_3)
  next
    case 2
    then show ?thesis
      by (simp add: show_nat_small read_octet_def dec_val_digit_char rest numeral_3_eq_3
          digit_char_zero)
  next
    case 3
    then have val: "10 * (10 * (n div 100) + n div 10 mod 10) + n mod 10 = n"
      using div_mult2_eq [of n 10 10] mult_div_mod_eq [of 10 "n div 10"] by simp
    have "n div 100 < 10" "n div 100 \<noteq> 0" using 3 by auto
    with assms(1) 3 val show ?thesis
      by (simp add: show_nat_small read_octet_def dec_val_digit_char rest numeral_3_eq_3
          digit_char_zero)
  qed
qed

lemma word_of_octets_V4: "word_of_octets (map unat (ip_octets (V4 w))) = unat w"
proof -
  let ?n = "unat w"
  have "?n < 2 ^ LENGTH(32)" by (rule unsigned_less)
  then have "?n div 16777216 mod 256 = ?n div 16777216" by simp
  moreover have "256 * (?n div 16777216) + ?n div 65536 mod 256 = ?n div 65536"
    using div_mult2_eq [of ?n 65536 256] mult_div_mod_eq [of 256 "?n div 65536"] by simp
  moreover have "256 * (?n div 65536) + ?n div 256 mod 256 = ?n div 256"
    using div_mult2_eq [of ?n 256 256] mult_div_mod_eq [of 256 "?n div 256"] by simp
  moreover have "256 * (?n div 256) + ?n mod 256 = ?n"
    using mult_div_mod_eq [of 256 ?n] by simp
  ultimately show ?thesis by (simp add: word_of_octets_def unat_octet)
qed

theorem parse_show_ipv4: "parse_ip (show_ip (V4 w)) = Some (V4 w)"
proof -
  have dot: "\<not> is_digit (CHR ''.'')" by (simp add: is_digit_def)
  have "read_ipv4 (show_ipv4 w) = Some (map unat (ip_octets (V4 w)), [])"
    using read_octet_show_nat [OF octet_bound [of w 0], of "[]"]
    by (simp add: show_ipv4_def read_ipv4_def read_octet_show_nat octet_bound dot
        read_char_def strip_prefix_def str_starts_with_def)
  then show ?thesis using word_of_octets_V4 [of w] by (simp add: parse_ip_def)
qed

end
