(* ===== verification/Headers.thy ===== *)
theory Headers
  imports Prelude
begin

text \<open>
  The header multimap that requests and responses carry, with the operations
  of \<open>http::HeaderMap\<close> the program calls and their documented behaviour:
  names are lower case, a name may have several values, \<open>insert\<close> replaces
  all values of a name, \<open>append\<close> adds one, \<open>get\<close> returns the first.  The
  laws the clients rely on form the locale \<open>header_store\<close>.  The parser of
  header names is the crate's and stays an argument of its users.
\<close>

type_synonym header_map = "(string \<times> string) list"

definition hm_get_all :: "header_map \<Rightarrow> string \<Rightarrow> string list" where
  "hm_get_all h n = map snd (filter (\<lambda>(k, _). k = n) h)"

definition hm_get :: "header_map \<Rightarrow> string \<Rightarrow> string option" where
  "hm_get h n = (case hm_get_all h n of [] \<Rightarrow> None | v # _ \<Rightarrow> Some v)"

definition hm_contains :: "header_map \<Rightarrow> string \<Rightarrow> bool" where
  "hm_contains h n \<longleftrightarrow> hm_get_all h n \<noteq> []"

definition hm_remove :: "header_map \<Rightarrow> string \<Rightarrow> header_map" where
  "hm_remove h n = filter (\<lambda>(k, _). k \<noteq> n) h"

definition hm_append :: "header_map \<Rightarrow> string \<Rightarrow> string \<Rightarrow> header_map" where
  "hm_append h n v = h @ [(n, v)]"

definition hm_insert :: "header_map \<Rightarrow> string \<Rightarrow> string \<Rightarrow> header_map" where
  "hm_insert h n v = hm_append (hm_remove h n) n v"

text \<open>The names in order of first insertion, each once (\<open>HeaderMap::keys\<close>).\<close>

definition hm_keys :: "header_map \<Rightarrow> string list" where
  "hm_keys h = rev (remdups (rev (map fst h)))"

text \<open>\<open>HeaderValue::to_str\<close>: visible ASCII and tab only.\<close>

definition header_visible :: "char \<Rightarrow> bool" where
  "header_visible c \<longleftrightarrow>
     (32 \<le> (of_char c :: nat) \<and> (of_char c :: nat) < 127) \<or> c = CHR 0x09"

definition to_str :: "string \<Rightarrow> string option" where
  "to_str v = (if list_all header_visible v then Some v else None)"

text \<open>\<open>HeaderValue::from_bytes\<close> and \<open>from_str\<close>: no control byte but tab.\<close>

definition header_value_byte :: "char \<Rightarrow> bool" where
  "header_value_byte c \<longleftrightarrow>
     (32 \<le> (of_char c :: nat) \<and> (of_char c :: nat) \<noteq> 127) \<or> c = CHR 0x09"

definition header_value_of :: "string \<Rightarrow> string option" where
  "header_value_of s = (if list_all header_value_byte s then Some s else None)"

lemma hm_get_conv: "hm_get h n = (case hm_get_all h n of [] \<Rightarrow> None | v # _ \<Rightarrow> Some v)"
  by (simp add: hm_get_def)

lemma hm_contains_get: "hm_contains h n \<longleftrightarrow> hm_get h n \<noteq> None"
  by (auto simp: hm_contains_def hm_get_def split: list.splits)

lemma to_str_Some [simp]: "to_str v = Some s \<longleftrightarrow> s = v \<and> list_all header_visible v"
  by (auto simp: to_str_def)

locale header_store =
  fixes get_all :: "'m \<Rightarrow> string \<Rightarrow> string list"
    and remove :: "'m \<Rightarrow> string \<Rightarrow> 'm"
    and append :: "'m \<Rightarrow> string \<Rightarrow> string \<Rightarrow> 'm"
    and insert :: "'m \<Rightarrow> string \<Rightarrow> string \<Rightarrow> 'm"
    and empty :: 'm
  assumes get_all_empty: "get_all empty n = []"
    and get_all_remove: "get_all (remove h n) m = (if m = n then [] else get_all h m)"
    and get_all_append: "get_all (append h n v) m = get_all h m @ (if m = n then [v] else [])"
    and insert_def: "insert h n v = append (remove h n) n v"
begin

lemma get_all_insert: "get_all (insert h n v) m = (if m = n then [v] else get_all h m)"
  by (simp add: insert_def get_all_append get_all_remove)

lemma get_all_append_list:
  "get_all (foldl (\<lambda>acc v. append acc n v) h vs) m = get_all h m @ (if m = n then vs else [])"
  by (induction vs arbitrary: h) (simp_all add: get_all_append)

end

interpretation hm: header_store hm_get_all hm_remove hm_append hm_insert "[]"
proof
  fix h :: header_map and n m v :: string
  show "hm_get_all [] n = []" by (simp add: hm_get_all_def)
  show "hm_get_all (hm_remove h n) m = (if m = n then [] else hm_get_all h m)"
    by (induction h) (auto simp: hm_get_all_def hm_remove_def)
  show "hm_get_all (hm_append h n v) m = hm_get_all h m @ (if m = n then [v] else [])"
    by (simp add: hm_get_all_def hm_append_def)
  show "hm_insert h n v = hm_append (hm_remove h n) n v" by (simp add: hm_insert_def)
qed

lemmas [hm_simps] = hm.get_all_empty hm.get_all_remove hm.get_all_append hm.get_all_insert

lemma hm_get_insert [hm_simps]: "hm_get (hm_insert h n v) m = (if m = n then Some v else hm_get h m)"
  by (simp add: hm_get_def hm_simps)

lemma hm_get_remove [hm_simps]: "hm_get (hm_remove h n) m = (if m = n then None else hm_get h m)"
  by (simp add: hm_get_def hm_simps)

lemma hm_contains_insert [hm_simps]: "hm_contains (hm_insert h n v) m \<longleftrightarrow> m = n \<or> hm_contains h m"
  by (simp add: hm_contains_get hm_get_insert)

lemma set_hm_keys [simp]: "set (hm_keys h) = fst ` set h"
  by (simp add: hm_keys_def)

lemma distinct_hm_keys [simp]: "distinct (hm_keys h)"
  by (simp add: hm_keys_def)

lemma hm_get_all_in_keys: "n \<notin> set (hm_keys h) \<Longrightarrow> hm_get_all h n = []"
  by (force simp: hm_get_all_def filter_empty_conv)

end
