(* ===== verification/Access_Log.thy ===== *)
theory Access_Log
  imports Prelude
begin

text \<open>
  The access log format (\<open>crates/rginx-core/src/config/access_log.rs\<close> with
  \<open>access_log/variables.rs\<close> and \<open>access_log/helpers.rs\<close>): a template with
  \<open>$name\<close> and \<open>${name}\<close> variables is parsed into segments once and rendered for
  every request.
\<close>

datatype access_log_variable =
    AlRequestId
  | AlRemoteAddr
  | AlPeerAddr
  | AlMethod
  | AlHost
  | AlPath
  | AlRequest
  | AlStatus
  | AlBodyBytesSent
  | AlElapsedMs
  | AlClientIpSource
  | AlVhost
  | AlRoute
  | AlScheme
  | AlHttpVersion
  | AlTlsVersion
  | AlTlsAlpn
  | AlUserAgent
  | AlReferer
  | AlTlsClientAuthenticated
  | AlTlsClientSubject
  | AlTlsClientIssuer
  | AlTlsClientSerial
  | AlTlsClientSanDnsNames
  | AlTlsClientChainLength
  | AlTlsClientChainSubjects
  | AlGrpcProtocol
  | AlGrpcService
  | AlGrpcMethod
  | AlGrpcStatus
  | AlGrpcMessage
  | AlCacheStatus
  | AlUpstreamName
  | AlUpstreamAddr
  | AlUpstreamStatus
  | AlUpstreamResponseTimeMs

datatype access_log_segment = AlLiteral string | AlVariable access_log_variable

record access_log_format =
  al_template :: string
  al_segments :: "access_log_segment list"

record access_log_values =
  alv_request_id :: string
  alv_remote_addr :: string
  alv_peer_addr :: string
  alv_method :: string
  alv_host :: string
  alv_path :: string
  alv_request :: string
  alv_status :: nat
  alv_body_bytes_sent :: "nat option"
  alv_elapsed_ms :: nat
  alv_client_ip_source :: string
  alv_vhost :: string
  alv_route :: string
  alv_scheme :: string
  alv_http_version :: string
  alv_tls_version :: "string option"
  alv_tls_alpn :: "string option"
  alv_user_agent :: "string option"
  alv_referer :: "string option"
  alv_tls_client_authenticated :: bool
  alv_tls_client_subject :: "string option"
  alv_tls_client_issuer :: "string option"
  alv_tls_client_serial :: "string option"
  alv_tls_client_san_dns_names :: "string option"
  alv_tls_client_chain_length :: "nat option"
  alv_tls_client_chain_subjects :: "string option"
  alv_grpc_protocol :: "string option"
  alv_grpc_service :: "string option"
  alv_grpc_method :: "string option"
  alv_grpc_status :: "string option"
  alv_grpc_message :: "string option"
  alv_cache_status :: "string option"
  alv_upstream_name :: "string option"
  alv_upstream_addr :: "string option"
  alv_upstream_status :: "nat option"
  alv_upstream_response_time_ms :: "nat option"

datatype access_log_error = UnterminatedVariable | UnsupportedVariable string

definition parse_access_log_variable :: "string \<Rightarrow> access_log_error + access_log_variable" where
  "parse_access_log_variable name =
     (if name = ''request_id'' then Inr AlRequestId
      else if name = ''remote_addr'' \<or> name = ''client_ip'' then Inr AlRemoteAddr
      else if name = ''peer_addr'' then Inr AlPeerAddr
      else if name = ''method'' \<or> name = ''request_method'' then Inr AlMethod
      else if name = ''host'' then Inr AlHost
      else if name = ''path'' \<or> name = ''request_uri'' then Inr AlPath
      else if name = ''request'' then Inr AlRequest
      else if name = ''status'' then Inr AlStatus
      else if name = ''body_bytes_sent'' \<or> name = ''bytes_sent'' then Inr AlBodyBytesSent
      else if name = ''request_time_ms'' \<or> name = ''elapsed_ms'' then Inr AlElapsedMs
      else if name = ''client_ip_source'' then Inr AlClientIpSource
      else if name = ''vhost'' \<or> name = ''server_name'' then Inr AlVhost
      else if name = ''route'' then Inr AlRoute
      else if name = ''scheme'' then Inr AlScheme
      else if name = ''http_version'' \<or> name = ''server_protocol'' then Inr AlHttpVersion
      else if name = ''tls_version'' \<or> name = ''ssl_protocol'' then Inr AlTlsVersion
      else if name = ''tls_alpn'' then Inr AlTlsAlpn
      else if name = ''http_user_agent'' \<or> name = ''user_agent'' then Inr AlUserAgent
      else if name = ''http_referer'' \<or> name = ''referer'' then Inr AlReferer
      else if name = ''tls_client_authenticated'' then Inr AlTlsClientAuthenticated
      else if name = ''tls_client_subject'' then Inr AlTlsClientSubject
      else if name = ''tls_client_issuer'' then Inr AlTlsClientIssuer
      else if name = ''tls_client_serial'' then Inr AlTlsClientSerial
      else if name = ''tls_client_san_dns_names'' then Inr AlTlsClientSanDnsNames
      else if name = ''tls_client_chain_length'' then Inr AlTlsClientChainLength
      else if name = ''tls_client_chain_subjects'' then Inr AlTlsClientChainSubjects
      else if name = ''grpc_protocol'' then Inr AlGrpcProtocol
      else if name = ''grpc_service'' then Inr AlGrpcService
      else if name = ''grpc_method'' then Inr AlGrpcMethod
      else if name = ''grpc_status'' then Inr AlGrpcStatus
      else if name = ''grpc_message'' then Inr AlGrpcMessage
      else if name = ''cache_status'' \<or> name = ''upstream_cache_status'' then Inr AlCacheStatus
      else if name = ''upstream_name'' then Inr AlUpstreamName
      else if name = ''upstream_addr'' then Inr AlUpstreamAddr
      else if name = ''upstream_status'' then Inr AlUpstreamStatus
      else if name = ''upstream_response_time_ms'' then Inr AlUpstreamResponseTimeMs
      else Inl (UnsupportedVariable name))"

definition is_access_log_variable_char :: "char \<Rightarrow> bool" where
  "is_access_log_variable_char c \<longleftrightarrow>
     byte_in 48 57 c \<or> byte_in 65 90 c \<or> byte_in 97 122 c \<or> c = CHR ''_''"

definition fallback_access_log_value :: "string \<Rightarrow> string" where
  "fallback_access_log_value v = (if v = [] then ''-'' else v)"

definition fallback_access_log_option :: "string option \<Rightarrow> string" where
  "fallback_access_log_option v =
     (case v of None \<Rightarrow> ''-'' | Some s \<Rightarrow> if s = [] then ''-'' else s)"

text \<open>Pushing the literal that is pending before a dollar sign.\<close>

definition flush_literal :: "access_log_segment list \<Rightarrow> string \<Rightarrow> access_log_segment list" where
  "flush_literal segs lit = (if lit = [] then segs else segs @ [AlLiteral lit])"

text \<open>
  The scan of the template: the rest of the bytes, the literal since
  \<open>literal_start\<close> and the segments so far.
\<close>

function al_parse ::
    "string \<Rightarrow> string \<Rightarrow> access_log_segment list \<Rightarrow> access_log_error + access_log_segment list" where
  "al_parse [] lit segs = Inr (flush_literal segs lit)"
| "al_parse (c # cs) lit segs =
     (if c \<noteq> CHR ''$'' then al_parse cs (lit @ [c]) segs
      else let segs1 = flush_literal segs lit
      in if cs \<noteq> [] \<and> hd cs = CHR ''$'' then al_parse (tl cs) [] (segs1 @ [AlLiteral ''$''])
         else if cs \<noteq> [] \<and> hd cs = CHR ''{'' then
           (case split_once (CHR ''}'') (tl cs) of
              None \<Rightarrow> Inl UnterminatedVariable
            | Some (name, rest) \<Rightarrow>
                (case parse_access_log_variable name of
                   Inl e \<Rightarrow> Inl e
                 | Inr v \<Rightarrow> al_parse rest [] (segs1 @ [AlVariable v])))
         else
           (let name = takeWhile is_access_log_variable_char cs
            in if name = [] then al_parse cs [] (segs1 @ [AlLiteral ''$''])
               else (case parse_access_log_variable name of
                       Inl e \<Rightarrow> Inl e
                     | Inr v \<Rightarrow> al_parse (dropWhile is_access_log_variable_char cs) [] (segs1 @ [AlVariable v]))))"
  by pat_completeness auto
termination
  by (relation "measure (\<lambda>(s, _, _). length s)")
     (auto simp: split_once_Some Let_def length_dropWhile_le less_Suc_eq_le neq_Nil_conv)

definition access_log_parse :: "string \<Rightarrow> access_log_error + access_log_format" where
  "access_log_parse template =
     bind_res (al_parse template [] []) (\<lambda>segs. Inr \<lparr> al_template = template, al_segments = segs \<rparr>)"

definition show_nat_option :: "nat option \<Rightarrow> string" where
  "show_nat_option v = (case v of Some n \<Rightarrow> show_nat n | None \<Rightarrow> ''-'')"

fun render_variable :: "access_log_values \<Rightarrow> access_log_variable \<Rightarrow> string" where
  "render_variable v AlRequestId = alv_request_id v"
| "render_variable v AlRemoteAddr = alv_remote_addr v"
| "render_variable v AlPeerAddr = alv_peer_addr v"
| "render_variable v AlMethod = alv_method v"
| "render_variable v AlHost = fallback_access_log_value (alv_host v)"
| "render_variable v AlPath = alv_path v"
| "render_variable v AlRequest = alv_request v"
| "render_variable v AlStatus = show_nat (alv_status v)"
| "render_variable v AlBodyBytesSent = show_nat_option (alv_body_bytes_sent v)"
| "render_variable v AlElapsedMs = show_nat (alv_elapsed_ms v)"
| "render_variable v AlClientIpSource = alv_client_ip_source v"
| "render_variable v AlVhost = alv_vhost v"
| "render_variable v AlRoute = alv_route v"
| "render_variable v AlScheme = alv_scheme v"
| "render_variable v AlHttpVersion = alv_http_version v"
| "render_variable v AlTlsVersion = fallback_access_log_option (alv_tls_version v)"
| "render_variable v AlTlsAlpn = fallback_access_log_option (alv_tls_alpn v)"
| "render_variable v AlUserAgent = fallback_access_log_option (alv_user_agent v)"
| "render_variable v AlReferer = fallback_access_log_option (alv_referer v)"
| "render_variable v AlTlsClientAuthenticated = (if alv_tls_client_authenticated v then ''true'' else ''false'')"
| "render_variable v AlTlsClientSubject = fallback_access_log_option (alv_tls_client_subject v)"
| "render_variable v AlTlsClientIssuer = fallback_access_log_option (alv_tls_client_issuer v)"
| "render_variable v AlTlsClientSerial = fallback_access_log_option (alv_tls_client_serial v)"
| "render_variable v AlTlsClientSanDnsNames = fallback_access_log_option (alv_tls_client_san_dns_names v)"
| "render_variable v AlTlsClientChainLength = show_nat_option (alv_tls_client_chain_length v)"
| "render_variable v AlTlsClientChainSubjects = fallback_access_log_option (alv_tls_client_chain_subjects v)"
| "render_variable v AlGrpcProtocol = fallback_access_log_option (alv_grpc_protocol v)"
| "render_variable v AlGrpcService = fallback_access_log_option (alv_grpc_service v)"
| "render_variable v AlGrpcMethod = fallback_access_log_option (alv_grpc_method v)"
| "render_variable v AlGrpcStatus = fallback_access_log_option (alv_grpc_status v)"
| "render_variable v AlGrpcMessage = fallback_access_log_option (alv_grpc_message v)"
| "render_variable v AlCacheStatus = fallback_access_log_option (alv_cache_status v)"
| "render_variable v AlUpstreamName = fallback_access_log_option (alv_upstream_name v)"
| "render_variable v AlUpstreamAddr = fallback_access_log_option (alv_upstream_addr v)"
| "render_variable v AlUpstreamStatus = show_nat_option (alv_upstream_status v)"
| "render_variable v AlUpstreamResponseTimeMs = show_nat_option (alv_upstream_response_time_ms v)"

fun render_segment :: "access_log_values \<Rightarrow> access_log_segment \<Rightarrow> string" where
  "render_segment v (AlLiteral s) = s"
| "render_segment v (AlVariable x) = render_variable v x"

definition access_log_render :: "access_log_format \<Rightarrow> access_log_values \<Rightarrow> string" where
  "access_log_render fmt v = foldl (\<lambda>rendered seg. rendered @ render_segment v seg) [] (al_segments fmt)"

section \<open>Printing a format\<close>

text \<open>The template that stands for given segments: dollar signs doubled, variables in braces.\<close>

fun variable_name :: "access_log_variable \<Rightarrow> string" where
  "variable_name AlRequestId = ''request_id''"
| "variable_name AlRemoteAddr = ''remote_addr''"
| "variable_name AlPeerAddr = ''peer_addr''"
| "variable_name AlMethod = ''method''"
| "variable_name AlHost = ''host''"
| "variable_name AlPath = ''path''"
| "variable_name AlRequest = ''request''"
| "variable_name AlStatus = ''status''"
| "variable_name AlBodyBytesSent = ''body_bytes_sent''"
| "variable_name AlElapsedMs = ''request_time_ms''"
| "variable_name AlClientIpSource = ''client_ip_source''"
| "variable_name AlVhost = ''vhost''"
| "variable_name AlRoute = ''route''"
| "variable_name AlScheme = ''scheme''"
| "variable_name AlHttpVersion = ''http_version''"
| "variable_name AlTlsVersion = ''tls_version''"
| "variable_name AlTlsAlpn = ''tls_alpn''"
| "variable_name AlUserAgent = ''http_user_agent''"
| "variable_name AlReferer = ''http_referer''"
| "variable_name AlTlsClientAuthenticated = ''tls_client_authenticated''"
| "variable_name AlTlsClientSubject = ''tls_client_subject''"
| "variable_name AlTlsClientIssuer = ''tls_client_issuer''"
| "variable_name AlTlsClientSerial = ''tls_client_serial''"
| "variable_name AlTlsClientSanDnsNames = ''tls_client_san_dns_names''"
| "variable_name AlTlsClientChainLength = ''tls_client_chain_length''"
| "variable_name AlTlsClientChainSubjects = ''tls_client_chain_subjects''"
| "variable_name AlGrpcProtocol = ''grpc_protocol''"
| "variable_name AlGrpcService = ''grpc_service''"
| "variable_name AlGrpcMethod = ''grpc_method''"
| "variable_name AlGrpcStatus = ''grpc_status''"
| "variable_name AlGrpcMessage = ''grpc_message''"
| "variable_name AlCacheStatus = ''cache_status''"
| "variable_name AlUpstreamName = ''upstream_name''"
| "variable_name AlUpstreamAddr = ''upstream_addr''"
| "variable_name AlUpstreamStatus = ''upstream_status''"
| "variable_name AlUpstreamResponseTimeMs = ''upstream_response_time_ms''"

definition escape_literal :: "string \<Rightarrow> string" where
  "escape_literal s = concat (map (\<lambda>c. if c = CHR ''$'' then ''$$'' else [c]) s)"

fun print_segment :: "access_log_segment \<Rightarrow> string" where
  "print_segment (AlLiteral s) = escape_literal s"
| "print_segment (AlVariable x) = ''${'' @ variable_name x @ ''}''"

lemma parse_variable_name: "parse_access_log_variable (variable_name x) = Inr x"
  by (cases x) (simp_all add: parse_access_log_variable_def)

lemma variable_name_no_brace: "CHR ''}'' \<notin> set (variable_name x)"
  by (cases x) simp_all

lemma foldl_render: "foldl (\<lambda>acc x. acc @ f x) a xs = a @ concat (map f xs)"
  by (induction xs arbitrary: a) simp_all

lemma render_concat: "access_log_render fmt v = concat (map (render_segment v) (al_segments fmt))"
  by (simp add: access_log_render_def foldl_render)

text \<open>What a parser state stands for.\<close>

abbreviation rendered_segs :: "access_log_values \<Rightarrow> access_log_segment list \<Rightarrow> string" where
  "rendered_segs v segs \<equiv> concat (map (render_segment v) segs)"

lemma rendered_flush [simp]: "rendered_segs v (flush_literal segs lit) = rendered_segs v segs @ lit"
  by (simp add: flush_literal_def)

lemma al_parse_escape:
  "\<exists>lit' segs'. al_parse (escape_literal s @ rest) lit segs = al_parse rest lit' segs' \<and>
     rendered_segs v segs' @ lit' = rendered_segs v segs @ lit @ s"
proof (induction s arbitrary: lit segs)
  case (Cons c s)
  show ?case
  proof (cases "c = CHR ''$''")
    case True
    from Cons [of "[]" "flush_literal segs lit @ [AlLiteral ''$'']"] True show ?thesis
      by (simp add: escape_literal_def Let_def)
  next
    case False
    from Cons [of "lit @ [c]" segs] False show ?thesis by (simp add: escape_literal_def)
  qed
qed (auto simp: escape_literal_def)

lemma al_parse_print:
  "\<exists>out. al_parse (concat (map print_segment xs)) lit segs = Inr out \<and>
     rendered_segs v out = rendered_segs v segs @ lit @ rendered_segs v xs"
proof (induction xs arbitrary: lit segs)
  case (Cons x xs)
  show ?case
  proof (cases x)
    case (AlLiteral s)
    obtain lit' segs' where
      "al_parse (escape_literal s @ concat (map print_segment xs)) lit segs
         = al_parse (concat (map print_segment xs)) lit' segs'"
      "rendered_segs v segs' @ lit' = rendered_segs v segs @ lit @ s"
      using al_parse_escape by blast
    with Cons [of lit' segs'] AlLiteral show ?thesis by (metis append.assoc concat.simps(2) list.map(2)
          print_segment.simps(1) render_segment.simps(1))
  next
    case (AlVariable y)
    from Cons [of "[]" "flush_literal segs lit @ [AlVariable y]"] AlVariable show ?thesis
      by (simp add: Let_def parse_variable_name variable_name_no_brace)
  qed
qed simp

section \<open>Properties\<close>

text \<open>Every sequence of literals and variables has a template: printing it with doubled dollar
  signs and braced variable names gives a template that parses, and the parsed format renders as
  the sequence does.\<close>

theorem access_log_print_parse:
  "\<exists>fmt. access_log_parse (concat (map print_segment segs)) = Inr fmt \<and>
     access_log_render fmt v = concat (map (render_segment v) segs)"
proof -
  obtain out where "al_parse (concat (map print_segment segs)) [] [] = Inr out"
    "rendered_segs v out = rendered_segs v segs"
    using al_parse_print [of segs "[]" "[]" v] by auto
  then show ?thesis by (simp add: access_log_parse_def render_concat)
qed

end
