(* ===== verification/Core_Config.thy ===== *)
theory Core_Config
  imports Net_Addr Headers Access_Log
begin

text \<open>
  The compiled configuration of \<open>crates/rginx-core/src/config\<close>: the types the
  request path reads (routes, virtual hosts, upstreams, cache policies, TLS
  settings, listeners) with the source's constructors and fields.  Field names
  carry a short prefix because Isabelle's record fields are global.  A
  \<open>Duration\<close> is a number of nanoseconds, a \<open>StatusCode\<close> its number, a
  \<open>Method\<close> and a \<open>PathBuf\<close> their text.  The upstreams of a snapshot, a hash map
  in the source, are the list of its entries in iteration order.
\<close>

type_synonym duration = nat
type_synonym http_method = string
type_synonym status_code = nat
type_synonym path_buf = string

definition from_secs :: "nat \<Rightarrow> duration" where "from_secs s = s * 1000000000"
definition from_millis :: "nat \<Rightarrow> duration" where "from_millis m = m * 1000000"
definition as_millis :: "duration \<Rightarrow> nat" where "as_millis d = d div 1000000"

section \<open>TLS\<close>

datatype ocsp_nonce_mode = NonceDisabled | NoncePreferred | NonceRequired
datatype ocsp_responder_policy = IssuerOnly | IssuerOrDelegated

record ocsp_config =
  ocsp_nonce :: ocsp_nonce_mode
  ocsp_responder :: ocsp_responder_policy

record server_certificate_bundle =
  scb_cert_path :: path_buf
  scb_key_path :: path_buf
  scb_ocsp_staple_path :: "path_buf option"
  scb_ocsp :: ocsp_config

datatype tls_version = Tls12 | Tls13

record client_identity =
  ci_cert_path :: path_buf
  ci_key_path :: path_buf

datatype tls_cipher_suite =
    Tls13Aes256GcmSha384 | Tls13Aes128GcmSha256 | Tls13Chacha20Poly1305Sha256
  | TlsEcdheEcdsaWithAes256GcmSha384 | TlsEcdheEcdsaWithAes128GcmSha256
  | TlsEcdheEcdsaWithChacha20Poly1305Sha256 | TlsEcdheRsaWithAes256GcmSha384
  | TlsEcdheRsaWithAes128GcmSha256 | TlsEcdheRsaWithChacha20Poly1305Sha256

datatype tls_key_exchange_group =
    X25519 | Secp256r1 | Secp384r1 | X25519Mlkem768 | Secp256r1Mlkem768 | Mlkem768 | Mlkem1024

datatype server_client_auth_mode = ClientAuthOptional | ClientAuthRequired

record server_client_auth_policy =
  sca_mode :: server_client_auth_mode
  sca_ca_cert_path :: path_buf
  sca_verify_depth :: "nat option"
  sca_crl_path :: "path_buf option"

record virtual_host_tls =
  vht_cert_path :: path_buf
  vht_key_path :: path_buf
  vht_additional_certificates :: "server_certificate_bundle list"
  vht_ocsp_staple_path :: "path_buf option"
  vht_ocsp :: ocsp_config

record server_tls =
  st_cert_path :: path_buf
  st_key_path :: path_buf
  st_additional_certificates :: "server_certificate_bundle list"
  st_versions :: "tls_version list option"
  st_cipher_suites :: "tls_cipher_suite list option"
  st_key_exchange_groups :: "tls_key_exchange_group list option"
  st_alpn_protocols :: "string list option"
  st_ocsp_staple_path :: "path_buf option"
  st_ocsp :: ocsp_config
  st_session_resumption :: "bool option"
  st_session_tickets :: "bool option"
  st_session_cache_size :: "nat option"
  st_session_ticket_count :: "nat option"
  st_client_auth :: "server_client_auth_policy option"

section \<open>Upstreams\<close>

record active_health_check =
  ahc_path :: string
  ahc_grpc_service :: "string option"
  ahc_interval :: duration
  ahc_timeout :: duration
  ahc_healthy_successes_required :: nat

datatype upstream_protocol = ProtoAuto | ProtoHttp1 | ProtoHttp2 | ProtoH2c | ProtoHttp3

fun upstream_protocol_as_str :: "upstream_protocol \<Rightarrow> string" where
  "upstream_protocol_as_str ProtoAuto = ''auto''"
| "upstream_protocol_as_str ProtoHttp1 = ''http1''"
| "upstream_protocol_as_str ProtoHttp2 = ''http2''"
| "upstream_protocol_as_str ProtoH2c = ''h2c''"
| "upstream_protocol_as_str ProtoHttp3 = ''http3''"

datatype upstream_load_balance = RoundRobin | IpHash | LeastConn

fun upstream_load_balance_as_str :: "upstream_load_balance \<Rightarrow> string" where
  "upstream_load_balance_as_str RoundRobin = ''round_robin''"
| "upstream_load_balance_as_str IpHash = ''ip_hash''"
| "upstream_load_balance_as_str LeastConn = ''least_conn''"

record upstream_dns_policy =
  dns_resolver_addrs :: "socket_addr list"
  dns_min_ttl :: duration
  dns_max_ttl :: duration
  dns_negative_ttl :: duration
  dns_stale_if_error :: duration
  dns_refresh_before_expiry :: duration
  dns_prefer_ipv4 :: bool
  dns_prefer_ipv6 :: bool

definition default_upstream_dns_policy :: upstream_dns_policy where
  "default_upstream_dns_policy =
     \<lparr> dns_resolver_addrs = [], dns_min_ttl = from_secs 5, dns_max_ttl = from_secs 300,
       dns_negative_ttl = from_secs 30, dns_stale_if_error = from_secs 60,
       dns_refresh_before_expiry = from_secs 10, dns_prefer_ipv4 = False,
       dns_prefer_ipv6 = False \<rparr>"

datatype upstream_tls = NativeRoots | CustomCa path_buf | Insecure

record upstream_peer =
  peer_url :: string
  peer_scheme :: string
  peer_authority :: string
  peer_weight :: nat
  peer_backup :: bool
  peer_max_conns :: "nat option"

record upstream_settings =
  up_protocol :: upstream_protocol
  up_load_balance :: upstream_load_balance
  up_dns :: upstream_dns_policy
  up_server_name :: bool
  up_server_name_override :: "string option"
  up_tls_versions :: "tls_version list option"
  up_server_verify_depth :: "nat option"
  up_server_crl_path :: "path_buf option"
  up_client_identity :: "client_identity option"
  up_request_timeout :: duration
  up_connect_timeout :: duration
  up_write_timeout :: duration
  up_idle_timeout :: duration
  up_pool_idle_timeout :: "duration option"
  up_pool_max_idle_per_host :: nat
  up_tcp_keepalive :: "duration option"
  up_tcp_nodelay :: bool
  up_http2_keep_alive_interval :: "duration option"
  up_http2_keep_alive_timeout :: duration
  up_http2_keep_alive_while_idle :: bool
  up_max_replayable_request_body_bytes :: nat
  up_unhealthy_after_failures :: nat
  up_unhealthy_cooldown :: duration
  up_active_health_check :: "active_health_check option"

text \<open>
  \<open>Upstream\<close> has every field of \<open>UpstreamSettings\<close> and four of its own; the
  cursor is the \<open>AtomicUsize\<close> of the round robin.
\<close>

record upstream = upstream_settings +
  up_name :: string
  up_peers :: "upstream_peer list"
  up_tls :: upstream_tls
  up_cursor :: "64 word"

section \<open>Caching\<close>

record cache_zone =
  cz_name :: string
  cz_path :: path_buf
  cz_max_size_bytes :: "nat option"
  cz_inactive :: duration
  cz_default_ttl :: duration
  cz_max_entry_bytes :: nat
  cz_path_levels :: "nat list"
  cz_loader_batch_entries :: nat
  cz_loader_sleep :: duration
  cz_manager_batch_entries :: nat
  cz_manager_sleep :: duration
  cz_inactive_cleanup_interval :: duration
  cz_shared_index :: bool

record cache_status_ttl_rule =
  rule_statuses :: "status_code list"
  rule_ttl :: duration

datatype cache_predicate =
    PAny "cache_predicate list"
  | PAll "cache_predicate list"
  | PNot cache_predicate
  | PMethod http_method
  | PHeaderExists string
  | PHeaderEquals string string
  | PQueryExists string
  | PQueryEquals string string
  | PCookieExists string
  | PCookieEquals string string
  | PStatus "status_code list"

datatype cache_use_stale_condition =
    StaleError | StaleTimeout | StaleUpdating | StaleHttp403 | StaleHttp404
  | StaleHttp429 | StaleHttp500 | StaleHttp502 | StaleHttp503 | StaleHttp504

datatype cache_ignore_header =
    IgnoreXAccelExpires | IgnoreExpires | IgnoreCacheControl | IgnoreSetCookie | IgnoreVary

datatype cache_range_request_policy = RangeBypass | RangeCache

datatype cache_key_variable =
    KScheme | KHost | KUri | KMethod | KHeader string | KQuery string | KCookie string

datatype cache_key_template_part = KLiteral string | KVariable cache_key_variable

record cache_key_template =
  kt_raw :: string
  kt_parts :: "cache_key_template_part list"

record route_cache_policy =
  cp_zone :: string
  cp_methods :: "http_method list"
  cp_statuses :: "status_code list"
  cp_ttl_by_status :: "cache_status_ttl_rule list"
  cp_key :: cache_key_template
  cp_cache_bypass :: "cache_predicate option"
  cp_no_cache :: "cache_predicate option"
  cp_stale_if_error :: "duration option"
  cp_grace :: "duration option"
  cp_keep :: "duration option"
  cp_pass_ttl :: "duration option"
  cp_use_stale :: "cache_use_stale_condition list"
  cp_background_update :: bool
  cp_lock_timeout :: duration
  cp_lock_age :: duration
  cp_min_uses :: nat
  cp_ignore_headers :: "cache_ignore_header list"
  cp_range_requests :: cache_range_request_policy
  cp_slice_size_bytes :: "nat option"
  cp_convert_head :: bool

section \<open>Routes and virtual hosts\<close>

record route_regex_matcher =
  rx_pattern :: string
  rx_case_insensitive :: bool

datatype route_matcher =
    MExact string
  | MPreferredPrefix string
  | MPrefix string
  | MRegex route_regex_matcher

record grpc_route_match =
  gm_service :: "string option"
  gm_method :: "string option"

record route_access_control =
  ac_allow_cidrs :: "ip_net list"
  ac_deny_cidrs :: "ip_net list"

record route_rate_limit =
  rl_requests_per_sec :: nat
  rl_burst :: nat

datatype route_buffering_policy = BufAuto | BufOn | BufOff
datatype route_compression_policy = ComprOff | ComprAuto | ComprForce

datatype proxy_header_variable =
    VHost | VScheme | VClientIp | VRemoteAddr | VPeerAddr | VForwardedFor | VRequestHeader string

datatype proxy_header_template_part = PLiteral string | PVariable proxy_header_variable

record proxy_header_template =
  pt_raw :: string
  pt_parts :: "proxy_header_template_part list"

datatype proxy_header_value =
    PhStatic string | PhHost | PhScheme | PhClientIp | PhRemoteAddr | PhPeerAddr
  | PhForwardedFor | PhRequestHeader string | PhTemplate proxy_header_template | PhRemove

record proxy_target =
  pt_upstream_name :: string
  pt_upstream :: upstream
  pt_preserve_host :: bool
  pt_strip_prefix :: "string option"
  pt_proxy_set_headers :: "(string \<times> proxy_header_value) list"

record return_action =
  ra_status :: status_code
  ra_location :: string
  ra_body :: "string option"

datatype route_action = Proxy proxy_target | Return return_action

record route =
  route_id :: string
  route_matcher_of :: route_matcher
  route_grpc_match :: "grpc_route_match option"
  route_action_of :: route_action
  route_access :: route_access_control
  route_rate :: "route_rate_limit option"
  route_allow_early_data :: bool
  route_request_buffering :: route_buffering_policy
  route_response_buffering :: route_buffering_policy
  route_compression :: route_compression_policy
  route_compression_min_bytes :: "nat option"
  route_compression_content_types :: "string list"
  route_streaming_response_idle_timeout :: "duration option"
  route_cache :: "route_cache_policy option"

record virtual_host =
  vh_id :: string
  vh_server_names :: "string list"
  vh_routes :: "route list"
  vh_tls :: "virtual_host_tls option"

section \<open>Servers, listeners and the snapshot\<close>

record runtime_settings =
  rt_shutdown_timeout :: duration
  rt_worker_threads :: "nat option"
  rt_accept_workers :: nat

record server =
  srv_listen_addr :: socket_addr
  srv_server_header :: string
  srv_default_certificate :: "string option"
  srv_trusted_proxies :: "ip_net list"
  srv_client_ip_header :: "string option"
  srv_keep_alive :: bool
  srv_max_headers :: "nat option"
  srv_max_request_body_bytes :: "nat option"
  srv_max_connections :: "nat option"
  srv_header_read_timeout :: "duration option"
  srv_request_body_read_timeout :: "duration option"
  srv_response_write_timeout :: "duration option"
  srv_access_log_format :: "access_log_format option"
  srv_tls :: "server_tls option"

definition default_server_header :: string where
  "default_server_header = ''rginx''"

definition is_trusted_proxy :: "(ip_net \<Rightarrow> ip_addr \<Rightarrow> bool) \<Rightarrow> server \<Rightarrow> ip_addr \<Rightarrow> bool" where
  "is_trusted_proxy cidr_contains s ip =
     list_ex (\<lambda>cidr. cidr_contains cidr ip) (srv_trusted_proxies s)"

definition access_allows :: "(ip_net \<Rightarrow> ip_addr \<Rightarrow> bool) \<Rightarrow> route_access_control \<Rightarrow> ip_addr \<Rightarrow> bool" where
  "access_allows cidr_contains ac ip =
     (if list_ex (\<lambda>cidr. cidr_contains cidr ip) (ac_deny_cidrs ac) then False
      else ac_allow_cidrs ac = [] \<or> list_ex (\<lambda>cidr. cidr_contains cidr ip) (ac_allow_cidrs ac))"

datatype listener_transport_kind = TransportTcp | TransportUdp

fun listener_transport_kind_as_str :: "listener_transport_kind \<Rightarrow> string" where
  "listener_transport_kind_as_str TransportTcp = ''tcp''"
| "listener_transport_kind_as_str TransportUdp = ''udp''"

datatype listener_application_protocol = AppHttp1 | AppHttp2 | AppHttp3

fun listener_application_protocol_as_str :: "listener_application_protocol \<Rightarrow> string" where
  "listener_application_protocol_as_str AppHttp1 = ''http1''"
| "listener_application_protocol_as_str AppHttp2 = ''http2''"
| "listener_application_protocol_as_str AppHttp3 = ''http3''"

record listener_http3 =
  h3_listen_addr :: socket_addr
  h3_advertise_alt_svc :: bool
  h3_alt_svc_max_age :: duration
  h3_max_concurrent_streams :: nat
  h3_stream_buffer_size :: nat
  h3_active_connection_id_limit :: nat
  h3_retry :: bool
  h3_host_key_path :: "path_buf option"
  h3_gso :: bool
  h3_early_data_enabled :: bool

record listener_transport_binding =
  ltb_name :: string
  ltb_kind :: listener_transport_kind
  ltb_listen_addr :: socket_addr
  ltb_protocols :: "listener_application_protocol list"
  ltb_advertise_alt_svc :: bool
  ltb_alt_svc_max_age :: "duration option"
  ltb_http3_max_concurrent_streams :: "nat option"
  ltb_http3_stream_buffer_size :: "nat option"
  ltb_http3_active_connection_id_limit :: "nat option"
  ltb_http3_retry :: "bool option"
  ltb_http3_host_key_path :: "path_buf option"
  ltb_http3_gso :: "bool option"
  ltb_http3_early_data_enabled :: "bool option"

record listener =
  lst_id :: string
  lst_name :: string
  lst_server :: server
  lst_tls_termination_enabled :: bool
  lst_proxy_protocol_enabled :: bool
  lst_http3 :: "listener_http3 option"

definition listener_tls_enabled :: "listener \<Rightarrow> bool" where
  "listener_tls_enabled l = lst_tls_termination_enabled l"

definition listener_http3_enabled :: "listener \<Rightarrow> bool" where
  "listener_http3_enabled l = (lst_http3 l \<noteq> None)"

definition binding_count :: "listener \<Rightarrow> nat" where
  "binding_count l = 1 + (if lst_http3 l \<noteq> None then 1 else 0)"

definition transport_bindings :: "listener \<Rightarrow> listener_transport_binding list" where
  "transport_bindings l =
     \<lparr> ltb_name = ''tcp'', ltb_kind = TransportTcp, ltb_listen_addr = srv_listen_addr (lst_server l),
       ltb_protocols = (if listener_tls_enabled l then [AppHttp1, AppHttp2] else [AppHttp1]),
       ltb_advertise_alt_svc = False, ltb_alt_svc_max_age = None,
       ltb_http3_max_concurrent_streams = None, ltb_http3_stream_buffer_size = None,
       ltb_http3_active_connection_id_limit = None, ltb_http3_retry = None,
       ltb_http3_host_key_path = None, ltb_http3_gso = None, ltb_http3_early_data_enabled = None \<rparr> #
     (case lst_http3 l of None \<Rightarrow> []
      | Some h3 \<Rightarrow>
          [\<lparr> ltb_name = ''udp'', ltb_kind = TransportUdp, ltb_listen_addr = h3_listen_addr h3,
             ltb_protocols = [AppHttp3], ltb_advertise_alt_svc = h3_advertise_alt_svc h3,
             ltb_alt_svc_max_age = Some (h3_alt_svc_max_age h3),
             ltb_http3_max_concurrent_streams = Some (h3_max_concurrent_streams h3),
             ltb_http3_stream_buffer_size = Some (h3_stream_buffer_size h3),
             ltb_http3_active_connection_id_limit = Some (h3_active_connection_id_limit h3),
             ltb_http3_retry = Some (h3_retry h3), ltb_http3_host_key_path = h3_host_key_path h3,
             ltb_http3_gso = Some (h3_gso h3),
             ltb_http3_early_data_enabled = Some (h3_early_data_enabled h3) \<rparr>])"

datatype acme_challenge_type = Http01

fun acme_challenge_type_as_str :: "acme_challenge_type \<Rightarrow> string" where
  "acme_challenge_type_as_str Http01 = ''http-01''"

record acme_settings =
  acme_directory_url :: string
  acme_contacts :: "string list"
  acme_state_dir :: path_buf
  acme_renew_before :: duration
  acme_poll_interval :: duration

record managed_certificate_spec =
  mc_scope :: string
  mc_domains :: "string list"
  mc_cert_path :: path_buf
  mc_key_path :: path_buf
  mc_challenge :: acme_challenge_type

record config_snapshot =
  cs_runtime :: runtime_settings
  cs_acme :: "acme_settings option"
  cs_managed_certificates :: "managed_certificate_spec list"
  cs_listeners :: "listener list"
  cs_default_vhost :: virtual_host
  cs_vhosts :: "virtual_host list"
  cs_cache_zones :: "(string \<times> cache_zone) list"
  cs_upstreams :: "(string \<times> upstream) list"

definition total_route_count :: "config_snapshot \<Rightarrow> nat" where
  "total_route_count c = length (vh_routes (cs_default_vhost c)) +
     sum_list (map (\<lambda>v. length (vh_routes v)) (cs_vhosts c))"

definition total_vhost_count :: "config_snapshot \<Rightarrow> nat" where
  "total_vhost_count c = 1 + length (cs_vhosts c)"

definition total_listener_count :: "config_snapshot \<Rightarrow> nat" where
  "total_listener_count c = length (cs_listeners c)"

definition total_listener_binding_count :: "config_snapshot \<Rightarrow> nat" where
  "total_listener_binding_count c = sum_list (map binding_count (cs_listeners c))"

definition snapshot_tls_enabled :: "config_snapshot \<Rightarrow> bool" where
  "snapshot_tls_enabled c = list_ex listener_tls_enabled (cs_listeners c)"

definition snapshot_http3_enabled :: "config_snapshot \<Rightarrow> bool" where
  "snapshot_http3_enabled c = list_ex listener_http3_enabled (cs_listeners c)"

definition snapshot_listener :: "config_snapshot \<Rightarrow> string \<Rightarrow> listener option" where
  "snapshot_listener c i = find (\<lambda>l. lst_id l = i) (cs_listeners c)"

lemma length_transport_bindings: "length (transport_bindings l) = binding_count l"
  by (simp add: transport_bindings_def binding_count_def split: option.split)

lemma total_binding_count_is_sum:
  "total_listener_binding_count c = length (concat (map transport_bindings (cs_listeners c)))"
  by (simp add: total_listener_binding_count_def length_concat length_transport_bindings comp_def)

end
