(* ===== verification/Server_Name.thy ===== *)
theory Server_Name
  imports Core_Config
begin

text \<open>
  Host names against the \<open>server_name\<close> patterns of a virtual host
  (\<open>crates/rginx-core/src/config/server_name.rs\<close> and \<open>virtual_host.rs\<close>): exact
  names, \<open>.suffix\<close>, \<open>*.suffix\<close> and \<open>prefix.*\<close>, and the choice of the best
  pattern of a host.
\<close>

section \<open>Model\<close>

datatype server_name_match =
    SnExact
  | DotWildcard nat
  | LeadingWildcard nat
  | TrailingWildcard nat

fun sn_priority :: "server_name_match \<Rightarrow> nat \<times> nat" where
  "sn_priority SnExact = (4, 0)"
| "sn_priority (DotWildcard suffix_len) = (2, suffix_len)"
| "sn_priority (LeadingWildcard suffix_len) = (2, suffix_len)"
| "sn_priority (TrailingWildcard prefix_len) = (1, prefix_len)"

definition normalize_host_for_match :: "string \<Rightarrow> string" where
  "normalize_host_for_match host =
     (case Option.bind (strip_prefix host ''['') (split_once (CHR '']'')) of
        Some (addr, _) \<Rightarrow> to_ascii_lowercase addr
      | None \<Rightarrow> to_ascii_lowercase (hd (str_split (CHR '':'') host)))"

definition match_server_name :: "string \<Rightarrow> string \<Rightarrow> server_name_match option" where
  "match_server_name pattern0 host =
     (let hostname = normalize_host_for_match host;
          pattern = to_ascii_lowercase (str_trim pattern0)
      in if pattern = [] then None
         else case strip_prefix pattern ''.'' of
           Some suffix \<Rightarrow>
             if suffix = [] then None
             else if hostname = suffix \<or> str_ends_with hostname (''.'' @ suffix)
             then Some (DotWildcard (length suffix))
             else None
         | None \<Rightarrow>
         (case strip_prefix pattern ''*.'' of
           Some suffix \<Rightarrow>
             if suffix = [] \<or> hostname = suffix then None
             else if str_ends_with hostname (''.'' @ suffix)
             then Some (LeadingWildcard (length suffix))
             else None
         | None \<Rightarrow>
         (case strip_suffix pattern ''.*'' of
           Some prefix \<Rightarrow>
             if prefix = [] \<or> hostname = prefix then None
             else (case strip_prefix hostname prefix of
                     Some remainder \<Rightarrow>
                       if str_starts_with remainder ''.'' \<and> 1 < length remainder
                       then Some (TrailingWildcard (length prefix)) else None
                   | None \<Rightarrow> None)
         | None \<Rightarrow> if hostname = pattern then Some SnExact else None)))"

text \<open>
  \<open>Iterator::max_by\<close> keeps the later of two equal elements; the comparison is
  the priority first and then the reverse order of the pattern text.
\<close>

definition sn_greater :: "string \<times> server_name_match \<Rightarrow> string \<times> server_name_match \<Rightarrow> bool" where
  "sn_greater left right \<longleftrightarrow>
     sn_priority (snd right) < sn_priority (snd left)
     \<or> sn_priority (snd right) = sn_priority (snd left) \<and> fst left < fst right"

definition sn_max_step ::
  "(string \<times> server_name_match) option \<Rightarrow> string \<times> server_name_match
     \<Rightarrow> (string \<times> server_name_match) option" where
  "sn_max_step cur y = (case cur of None \<Rightarrow> Some y | Some x \<Rightarrow> if sn_greater x y then Some x else Some y)"

definition best_matching_server_name_pattern ::
  "string list \<Rightarrow> string \<Rightarrow> (string \<times> server_name_match) option" where
  "best_matching_server_name_pattern patterns host =
     foldl sn_max_step None
       (List.map_filter (\<lambda>p. map_option (\<lambda>m. (p, m)) (match_server_name p host)) patterns)"

definition best_server_name_match :: "virtual_host \<Rightarrow> string \<Rightarrow> server_name_match option" where
  "best_server_name_match vh host =
     map_option snd (best_matching_server_name_pattern (vh_server_names vh) host)"

definition matches_host :: "virtual_host \<Rightarrow> string \<Rightarrow> bool" where
  "matches_host vh host \<longleftrightarrow> vh_server_names vh = [] \<or> best_server_name_match vh host \<noteq> None"

section \<open>Hosts\<close>

lemma normalize_host_port:
  assumes "CHR '':'' \<notin> set h" and "\<not> str_starts_with h ''[''"
  shows "normalize_host_for_match (h @ '':'' @ port) = to_ascii_lowercase h"
proof (cases h)
  case Nil
  then show ?thesis by (simp add: normalize_host_for_match_def strip_prefix_def str_starts_with_def)
next
  case (Cons c cs)
  with assms(2) have "strip_prefix (h @ '':'' @ port) ''['' = None"
    by (auto simp: strip_prefix_def str_starts_with_def)
  with assms(1) show ?thesis
    by (simp add: normalize_host_for_match_def str_split_append_sep)
qed

lemma normalize_host_plain:
  assumes "CHR '':'' \<notin> set h" and "\<not> str_starts_with h ''[''"
  shows "normalize_host_for_match h = to_ascii_lowercase h"
  using assms
  by (auto simp: normalize_host_for_match_def strip_prefix_def str_split_no_sep)

lemma match_server_name_host_cong:
  "normalize_host_for_match h = normalize_host_for_match h' \<Longrightarrow>
     match_server_name p h = match_server_name p h'"
  by (simp add: match_server_name_def)

text \<open>What each kind of match says about the host.\<close>

lemma match_server_name_shape:
  assumes "match_server_name p host = Some m"
  defines "h \<equiv> normalize_host_for_match host" and "q \<equiv> to_ascii_lowercase (str_trim p)"
  shows "case m of
           SnExact \<Rightarrow> h = q
         | DotWildcard n \<Rightarrow> \<exists>suffix. q = ''.'' @ suffix \<and> length suffix = n \<and>
                              (h = suffix \<or> (\<exists>sub. h = sub @ ''.'' @ suffix))
         | LeadingWildcard n \<Rightarrow> \<exists>suffix sub. q = ''*.'' @ suffix \<and> length suffix = n \<and>
                              h = sub @ ''.'' @ suffix
         | TrailingWildcard n \<Rightarrow> \<exists>pre rest. q = pre @ ''.*'' \<and> length pre = n \<and> rest \<noteq> [] \<and>
                              h = pre @ ''.'' @ rest"
proof -
  have dot: "strip_prefix q ''.'' = Some s \<Longrightarrow> q = ''.'' @ s" for s by (simp add: strip_prefix_Some)
  have star: "strip_prefix q ''*.'' = Some s \<Longrightarrow> q = ''*.'' @ s" for s by (simp add: strip_prefix_Some)
  have trail: "strip_suffix q ''.*'' = Some s \<Longrightarrow> q = s @ ''.*''" for s by (simp add: strip_suffix_Some)
  from assms(1) show ?thesis
    unfolding match_server_name_def Let_def h_def [symmetric] q_def [symmetric]
    by (auto simp: str_simps length_Suc_conv neq_Nil_conv
             split: if_splits option.splits dest!: dot star trail)
qed

section \<open>The best pattern\<close>

definition sn_below :: "string \<times> server_name_match \<Rightarrow> string \<times> server_name_match \<Rightarrow> bool" where
  "sn_below x b \<longleftrightarrow> sn_priority (snd x) < sn_priority (snd b)
     \<or> sn_priority (snd x) = sn_priority (snd b) \<and> fst b \<le> fst x"

lemma sn_below_trans: "sn_below x y \<Longrightarrow> sn_below y z \<Longrightarrow> sn_below x z"
  unfolding sn_below_def by (elim disjE conjE) (auto dest: order.strict_trans)

lemma sn_not_greater_below: "\<not> sn_greater x y \<Longrightarrow> sn_below x y"
  unfolding sn_greater_def sn_below_def by (auto simp: not_less order.order_iff_strict)

lemma sn_greater_below: "sn_greater x y \<Longrightarrow> sn_below y x"
  unfolding sn_greater_def sn_below_def by auto

lemma sn_max_foldl:
  "case foldl sn_max_step None xs of
     None \<Rightarrow> xs = []
   | Some b \<Rightarrow> b \<in> set xs \<and> (\<forall>x \<in> set xs. sn_below x b)"
proof (induction xs rule: rev_induct)
  case (snoc y xs)
  show ?case
  proof (cases "foldl sn_max_step None xs")
    case None
    then have "foldl sn_max_step None (xs @ [y]) = Some y"
      by (simp add: sn_max_step_def)
    with None snoc show ?thesis by (simp add: sn_below_def)
  next
    case (Some b)
    with snoc have b: "b \<in> set xs" "\<forall>x \<in> set xs. sn_below x b" by simp_all
    have "foldl sn_max_step None (xs @ [y]) = Some (if sn_greater b y then b else y)"
      by (simp add: Some sn_max_step_def)
    moreover have "sn_below x (if sn_greater b y then b else y)" if "x \<in> set (xs @ [y])" for x
      using that b sn_not_greater_below [of b y] sn_greater_below [of b y]
      by (auto simp: sn_below_def [of y y] intro: sn_below_trans [of x b y])
    ultimately show ?thesis using b(1) by simp
  qed
qed simp

abbreviation sn_matches :: "string list \<Rightarrow> string \<Rightarrow> (string \<times> server_name_match) list" where
  "sn_matches ps host \<equiv>
     List.map_filter (\<lambda>p. map_option (\<lambda>m. (p, m)) (match_server_name p host)) ps"

lemma best_pattern_None:
  "best_matching_server_name_pattern ps host = None \<longleftrightarrow>
     (\<forall>p \<in> set ps. match_server_name p host = None)"
proof -
  have "best_matching_server_name_pattern ps host = None \<longleftrightarrow> sn_matches ps host = []"
    using sn_max_foldl [of "sn_matches ps host"]
    by (auto simp: best_matching_server_name_pattern_def split: option.splits)
  then show ?thesis by (simp add: map_filter_Nil)
qed

lemma best_pattern_Some:
  assumes "best_matching_server_name_pattern ps host = Some (p, m)"
  shows "p \<in> set ps \<and> match_server_name p host = Some m \<and>
     (\<forall>q \<in> set ps. \<forall>n. match_server_name q host = Some n \<longrightarrow>
        sn_priority n < sn_priority m \<or> sn_priority n = sn_priority m \<and> p \<le> q)"
proof -
  from assms sn_max_foldl [of "sn_matches ps host"]
  have "(p, m) \<in> set (sn_matches ps host)" and le: "\<forall>x \<in> set (sn_matches ps host). sn_below x (p, m)"
    by (simp_all add: best_matching_server_name_pattern_def)
  then have "p \<in> set ps" "match_server_name p host = Some m" by (auto simp: map_filter_set)
  moreover have "sn_below (q, n) (p, m)" if "q \<in> set ps" "match_server_name q host = Some n" for q n
    using that le by (auto simp: map_filter_set)
  ultimately show ?thesis by (simp add: sn_below_def)
qed

text \<open>
  The priority of a match decides between kinds before lengths.
\<close>

lemma sn_priority_exact_top: "sn_priority m \<le> sn_priority SnExact"
  by (cases m) auto

lemma best_server_name_match_None:
  "best_server_name_match vh host = None \<longleftrightarrow>
     (\<forall>p \<in> set (vh_server_names vh). match_server_name p host = None)"
  by (simp add: best_server_name_match_def best_pattern_None)

lemma best_server_name_match_Some:
  assumes "best_server_name_match vh host = Some m"
  shows "(\<exists>p \<in> set (vh_server_names vh). match_server_name p host = Some m) \<and>
     (\<forall>q \<in> set (vh_server_names vh). \<forall>n. match_server_name q host = Some n \<longrightarrow>
        sn_priority n \<le> sn_priority m)"
proof -
  from assms obtain p where
    "best_matching_server_name_pattern (vh_server_names vh) host = Some (p, m)"
    by (auto simp: best_server_name_match_def)
  from best_pattern_Some [OF this] show ?thesis by (auto simp: order.order_iff_strict)
qed

section \<open>Properties\<close>

text \<open>Matching a host against a server name ignores the port and the case of the host.\<close>

theorem match_ignores_port_and_case:
  assumes "CHR '':'' \<notin> set h" and "\<not> str_starts_with h ''[''"
  shows "match_server_name p (h @ '':'' @ port) = match_server_name p h \<and>
         match_server_name p (to_ascii_lowercase h) = match_server_name p h"
proof
  show "match_server_name p (h @ '':'' @ port) = match_server_name p h"
    by (rule match_server_name_host_cong)
       (simp only: normalize_host_port [OF assms] normalize_host_plain [OF assms])
  have "CHR '':'' \<notin> set (to_ascii_lowercase h)"
    using assms(1) to_ascii_lowercase_nonletter [of "CHR '':''" h] by auto
  moreover have "\<not> str_starts_with (to_ascii_lowercase h) ''[''"
  proof
    assume "str_starts_with (to_ascii_lowercase h) ''[''"
    then obtain c cs where "h = c # cs" "ascii_lower c = CHR ''[''"
      by (cases h) (auto simp: str_starts_with_def to_ascii_lowercase_def)
    with ascii_lower_nonletter [of c "CHR ''[''"] assms(2) show False
      by (auto simp: str_starts_with_def)
  qed
  ultimately show "match_server_name p (to_ascii_lowercase h) = match_server_name p h"
    by (intro match_server_name_host_cong) (simp add: normalize_host_plain assms)
qed

theorem match_ignores_port_and_case_witness:
  "match_server_name ''*.example.com'' (''API.Example.COM'' @ '':'' @ ''8443'') = Some (LeadingWildcard 11) \<and>
   match_server_name ''*.example.com'' (to_ascii_lowercase ''API.Example.COM'') = Some (LeadingWildcard 11)"
proof -
  have "match_server_name ''*.example.com'' ''API.Example.COM'' = Some (LeadingWildcard 11)" by code_simp
  moreover have "CHR '':'' \<notin> set ''API.Example.COM''" "\<not> str_starts_with ''API.Example.COM'' ''[''"
    by (simp_all add: str_starts_with_def)
  ultimately show ?thesis
    using match_ignores_port_and_case [of "''API.Example.COM''" "''*.example.com''" "''8443''"] by metis
qed

end
