(* ===== verification/Router.thy ===== *)
theory Router
  imports Server_Name
begin

text \<open>
  Virtual host and route selection (\<open>crates/rginx-http/src/router.rs\<close>, with
  the matchers of \<open>crates/rginx-core/src/config/route.rs\<close> and the request host
  of \<open>handler/dispatch/select.rs\<close>).  The matcher of the \<open>regex\<close> crate is the
  argument \<open>re\<close>.  The loops are proved equal to a declarative selection: the
  earliest candidate of highest rank, in nginx's order of location kinds.
\<close>

section \<open>Matchers\<close>

definition prefix_matches :: "string \<Rightarrow> string \<Rightarrow> bool" where
  "prefix_matches pre path =
     (if pre = ''/'' then True
      else if path = pre then True
      else (case strip_prefix path pre of
              None \<Rightarrow> False
            | Some remainder \<Rightarrow>
                if str_ends_with pre ''/'' then True else str_starts_with remainder ''/''))"

fun matcher_matches :: "(route_regex_matcher \<Rightarrow> string \<Rightarrow> bool) \<Rightarrow> route_matcher \<Rightarrow> string \<Rightarrow> bool" where
  "matcher_matches re (MExact expected) path = (path = expected)"
| "matcher_matches re (MPreferredPrefix pre) path = prefix_matches pre path"
| "matcher_matches re (MPrefix pre) path = prefix_matches pre path"
| "matcher_matches re (MRegex rx) path = re rx path"

fun matcher_priority :: "route_matcher \<Rightarrow> nat \<times> nat" where
  "matcher_priority (MExact path) = (4, length path)"
| "matcher_priority (MPreferredPrefix path) = (3, length path)"
| "matcher_priority (MRegex _) = (2, 0)"
| "matcher_priority (MPrefix path) = (1, length path)"

fun matcher_id_fragment :: "route_matcher \<Rightarrow> string" where
  "matcher_id_fragment (MExact path) = ''exact:'' @ path"
| "matcher_id_fragment (MPreferredPrefix path) = ''preferred_prefix:'' @ path"
| "matcher_id_fragment (MPrefix path) = ''prefix:'' @ path"
| "matcher_id_fragment (MRegex rx) =
     (if rx_case_insensitive rx then ''regex:i:'' @ rx_pattern rx else ''regex:'' @ rx_pattern rx)"

definition grpc_match_matches :: "grpc_route_match \<Rightarrow> string \<Rightarrow> string \<Rightarrow> bool" where
  "grpc_match_matches g service method \<longleftrightarrow>
     (case gm_service g of None \<Rightarrow> True | Some expected \<Rightarrow> expected = service)
     \<and> (case gm_method g of None \<Rightarrow> True | Some expected \<Rightarrow> expected = method)"

definition grpc_match_priority :: "grpc_route_match \<Rightarrow> nat" where
  "grpc_match_priority g = of_bool (gm_service g \<noteq> None) + of_bool (gm_method g \<noteq> None)"

definition grpc_match_id_fragment :: "grpc_route_match \<Rightarrow> string" where
  "grpc_match_id_fragment g =
     ''grpc:'' @ str_join '',''
       ((case gm_service g of None \<Rightarrow> [] | Some s \<Rightarrow> [''service='' @ s])
        @ (case gm_method g of None \<Rightarrow> [] | Some m \<Rightarrow> [''method='' @ m]))"

definition route_grpc_rank :: "route \<Rightarrow> nat" where
  "route_grpc_rank r = (case route_grpc_match r of None \<Rightarrow> 0 | Some g \<Rightarrow> grpc_match_priority g)"

definition route_priority :: "route \<Rightarrow> nat \<times> nat \<times> nat" where
  "route_priority r =
     (case matcher_priority (route_matcher_of r) of (rank, len) \<Rightarrow> (rank, len, route_grpc_rank r))"

section \<open>Route selection\<close>

record grpc_request_match =
  gr_service :: string
  gr_method :: string

record route_match_context =
  ctx_path :: string
  ctx_grpc :: "grpc_request_match option"

definition context_new :: "string \<Rightarrow> route_match_context" where
  "context_new path = \<lparr> ctx_path = path, ctx_grpc = None \<rparr>"

definition context_with_grpc :: "string \<Rightarrow> string \<Rightarrow> string \<Rightarrow> route_match_context" where
  "context_with_grpc path service method =
     \<lparr> ctx_path = path, ctx_grpc = Some \<lparr> gr_service = service, gr_method = method \<rparr> \<rparr>"

definition route_matches ::
  "(route_regex_matcher \<Rightarrow> string \<Rightarrow> bool) \<Rightarrow> route \<Rightarrow> route_match_context \<Rightarrow> bool" where
  "route_matches re r ctx =
     (if \<not> matcher_matches re (route_matcher_of r) (ctx_path ctx) then False
      else (case route_grpc_match r of
              None \<Rightarrow> True
            | Some g \<Rightarrow> (case ctx_grpc ctx of
                           None \<Rightarrow> False
                         | Some q \<Rightarrow> grpc_match_matches g (gr_service q) (gr_method q))))"

record candidate =
  cand_index :: nat
  cand_route :: route
  cand_match_len :: nat
  cand_grpc_rank :: nat
  cand_preferred_prefix :: bool

definition candidate_new :: "nat \<Rightarrow> route \<Rightarrow> nat \<Rightarrow> bool \<Rightarrow> candidate" where
  "candidate_new index r match_len preferred =
     \<lparr> cand_index = index, cand_route = r, cand_match_len = match_len,
       cand_grpc_rank = route_grpc_rank r, cand_preferred_prefix = preferred \<rparr>"

definition select_more_specific :: "candidate option \<Rightarrow> candidate \<Rightarrow> candidate option" where
  "select_more_specific current c =
     (case current of
        None \<Rightarrow> Some c
      | Some e \<Rightarrow>
          if cand_match_len e < cand_match_len c then Some c
          else if cand_match_len c < cand_match_len e then Some e
          else if cand_preferred_prefix c \<and> \<not> cand_preferred_prefix e then Some c
          else if \<not> cand_preferred_prefix c \<and> cand_preferred_prefix e then Some e
          else if cand_grpc_rank e < cand_grpc_rank c then Some c
          else if cand_grpc_rank c < cand_grpc_rank e then Some e
          else if cand_index c < cand_index e then Some c
          else Some e)"

text \<open>One iteration of the scan over the enumerated routes, and the scan.\<close>

definition scan_step ::
  "(route_regex_matcher \<Rightarrow> string \<Rightarrow> bool) \<Rightarrow> route_match_context \<Rightarrow>
     candidate option \<times> candidate option \<Rightarrow> nat \<times> route \<Rightarrow> candidate option \<times> candidate option" where
  "scan_step re ctx acc ir =
     (case acc of (exact, pre) \<Rightarrow> case ir of (index, r) \<Rightarrow>
        if \<not> route_matches re r ctx then (exact, pre)
        else (case route_matcher_of r of
                MExact path \<Rightarrow>
                  (select_more_specific exact (candidate_new index r (length path) False), pre)
              | MPreferredPrefix path \<Rightarrow>
                  (exact, select_more_specific pre (candidate_new index r (length path) True))
              | MPrefix path \<Rightarrow>
                  (exact, select_more_specific pre (candidate_new index r (length path) False))
              | MRegex _ \<Rightarrow> (exact, pre)))"

fun is_regex :: "route_matcher \<Rightarrow> bool" where
  "is_regex (MRegex _) = True"
| "is_regex _ = False"

definition select_route_with_context ::
  "(route_regex_matcher \<Rightarrow> string \<Rightarrow> bool) \<Rightarrow> route list \<Rightarrow> route_match_context \<Rightarrow> route option" where
  "select_route_with_context re routes ctx =
     (case foldl (scan_step re ctx) (None, None) (enumerate 0 routes) of (exact, pre) \<Rightarrow>
        case exact of
          Some c \<Rightarrow> Some (cand_route c)
        | None \<Rightarrow>
            (case pre of
               Some c \<Rightarrow>
                 if cand_preferred_prefix c then Some (cand_route c)
                 else (case find (\<lambda>r. is_regex (route_matcher_of r) \<and> route_matches re r ctx) routes of
                         Some r \<Rightarrow> Some r
                       | None \<Rightarrow> Some (cand_route c))
             | None \<Rightarrow> find (\<lambda>r. is_regex (route_matcher_of r) \<and> route_matches re r ctx) routes))"

definition select_route ::
  "(route_regex_matcher \<Rightarrow> string \<Rightarrow> bool) \<Rightarrow> route list \<Rightarrow> string \<Rightarrow> route option" where
  "select_route re routes path = select_route_with_context re routes (context_new path)"

section \<open>Virtual host selection\<close>

type_synonym ranked_vhost = "(nat \<times> nat) \<times> virtual_host"

definition vhost_step :: "ranked_vhost option \<Rightarrow> ranked_vhost \<Rightarrow> ranked_vhost option" where
  "vhost_step selected c =
     (case selected of
        None \<Rightarrow> Some c
      | Some (current_priority, v) \<Rightarrow>
          if current_priority < fst c then Some c else Some (current_priority, v))"

definition vhost_scan :: "string \<Rightarrow> ranked_vhost option \<Rightarrow> virtual_host \<Rightarrow> ranked_vhost option" where
  "vhost_scan host selected vh =
     (case best_server_name_match vh host of
        None \<Rightarrow> selected
      | Some m \<Rightarrow> vhost_step selected (sn_priority m, vh))"

definition select_vhost :: "virtual_host list \<Rightarrow> virtual_host \<Rightarrow> string \<Rightarrow> virtual_host" where
  "select_vhost vhosts default_vhost host =
     (case foldl (vhost_scan host) None vhosts of None \<Rightarrow> default_vhost | Some (_, vh) \<Rightarrow> vh)"

definition select_route_in_vhost ::
  "(route_regex_matcher \<Rightarrow> string \<Rightarrow> bool) \<Rightarrow> virtual_host \<Rightarrow> string \<Rightarrow> route option" where
  "select_route_in_vhost re vh path = select_route re (vh_routes vh) path"

definition select_route_in_vhost_with_context ::
  "(route_regex_matcher \<Rightarrow> string \<Rightarrow> bool) \<Rightarrow> virtual_host \<Rightarrow> route_match_context \<Rightarrow> route option" where
  "select_route_in_vhost_with_context re vh ctx = select_route_with_context re (vh_routes vh) ctx"

definition select_route_by_host ::
  "(route_regex_matcher \<Rightarrow> string \<Rightarrow> bool) \<Rightarrow> virtual_host \<Rightarrow> virtual_host list \<Rightarrow> string \<Rightarrow> string
     \<Rightarrow> (virtual_host \<times> route) option" where
  "select_route_by_host re default_vhost vhosts host path =
     (let vh = select_vhost vhosts default_vhost host
      in map_option (\<lambda>r. (vh, r)) (select_route_in_vhost re vh path))"

definition select_route_by_host_with_context ::
  "(route_regex_matcher \<Rightarrow> string \<Rightarrow> bool) \<Rightarrow> virtual_host \<Rightarrow> virtual_host list \<Rightarrow> string
     \<Rightarrow> route_match_context \<Rightarrow> (virtual_host \<times> route) option" where
  "select_route_by_host_with_context re default_vhost vhosts host ctx =
     (let vh = select_vhost vhosts default_vhost host
      in map_option (\<lambda>r. (vh, r)) (select_route_in_vhost_with_context re vh ctx))"

text \<open>The host of a request: the \<open>Host\<close> header if it is text, else the URI's authority.\<close>

definition request_host :: "header_map \<Rightarrow> string option \<Rightarrow> string" where
  "request_host headers authority =
     (case Option.bind (hm_get headers ''host'') to_str of
        Some h \<Rightarrow> h
      | None \<Rightarrow> (case authority of Some a \<Rightarrow> a | None \<Rightarrow> []))"

definition select_vhost_for_request ::
  "virtual_host list \<Rightarrow> virtual_host \<Rightarrow> header_map \<Rightarrow> string option \<Rightarrow> virtual_host" where
  "select_vhost_for_request vhosts default_vhost headers authority =
     select_vhost vhosts default_vhost (request_host headers authority)"

section \<open>Prefixes end at path segments\<close>

lemma prefix_matches_iff:
  "prefix_matches pre path \<longleftrightarrow>
     pre = ''/'' \<or> path = pre \<or> (\<exists>rest. path = pre @ rest \<and> (str_ends_with pre ''/'' \<or> str_starts_with rest ''/''))"
  by (auto simp: prefix_matches_def strip_prefix_Some strip_prefix_None split: option.splits)

section \<open>The scan computes ranked choices\<close>

type_synonym cand_rank = "nat \<times> bool \<times> nat \<times> int"

definition cand_rank :: "candidate \<Rightarrow> cand_rank" where
  "cand_rank c =
     (cand_match_len c, cand_preferred_prefix c, cand_grpc_rank c, - int (cand_index c))"

interpretation route_choice: ranked_choice cand_rank select_more_specific
proof
  fix c e :: candidate
  show "select_more_specific None c = Some c" by (simp add: select_more_specific_def)
  show "cand_rank e < cand_rank c \<Longrightarrow> select_more_specific (Some e) c = Some c"
    by (auto simp: select_more_specific_def cand_rank_def)
  show "cand_rank c \<le> cand_rank e \<Longrightarrow> select_more_specific (Some e) c = Some e"
    by (auto simp: select_more_specific_def cand_rank_def)
qed

interpretation vhost_choice: ranked_choice "fst :: ranked_vhost \<Rightarrow> nat \<times> nat" vhost_step
proof
  fix c e :: ranked_vhost
  show "vhost_step None c = Some c" by (simp add: vhost_step_def)
  show "fst e < fst c \<Longrightarrow> vhost_step (Some e) c = Some c"
    by (auto simp: vhost_step_def split: prod.splits)
  show "fst c \<le> fst e \<Longrightarrow> vhost_step (Some e) c = Some e"
    by (auto simp: vhost_step_def not_less [symmetric] split: prod.splits)
qed

text \<open>The exact and the prefix candidates among the enumerated routes.\<close>

definition exact_candidate ::
  "(route_regex_matcher \<Rightarrow> string \<Rightarrow> bool) \<Rightarrow> route_match_context \<Rightarrow> nat \<times> route \<Rightarrow> candidate option" where
  "exact_candidate re ctx ir =
     (case ir of (i, r) \<Rightarrow>
        if \<not> route_matches re r ctx then None
        else (case route_matcher_of r of
                MExact path \<Rightarrow> Some (candidate_new i r (length path) False) | _ \<Rightarrow> None))"

definition prefix_candidate ::
  "(route_regex_matcher \<Rightarrow> string \<Rightarrow> bool) \<Rightarrow> route_match_context \<Rightarrow> nat \<times> route \<Rightarrow> candidate option" where
  "prefix_candidate re ctx ir =
     (case ir of (i, r) \<Rightarrow>
        if \<not> route_matches re r ctx then None
        else (case route_matcher_of r of
                MPreferredPrefix path \<Rightarrow> Some (candidate_new i r (length path) True)
              | MPrefix path \<Rightarrow> Some (candidate_new i r (length path) False) | _ \<Rightarrow> None))"

lemma scan_foldl:
  "foldl (scan_step re ctx) (e, p) irs =
     (foldl select_more_specific e (List.map_filter (exact_candidate re ctx) irs),
      foldl select_more_specific p (List.map_filter (prefix_candidate re ctx) irs))"
proof (induction irs arbitrary: e p)
  case (Cons ir irs)
  obtain i r where "ir = (i, r)" by (cases ir)
  with Cons show ?case
    by (cases "route_matcher_of r")
       (auto simp: scan_step_def exact_candidate_def prefix_candidate_def List.map_filter_simps)
qed (simp add: List.map_filter_simps)

text \<open>
  The specification of route selection: the best exact candidate, else the
  best prefix candidate if it is a preferred prefix, else the first matching
  regular expression, else the best prefix candidate.
\<close>

definition select_route_spec ::
  "(route_regex_matcher \<Rightarrow> string \<Rightarrow> bool) \<Rightarrow> route list \<Rightarrow> route_match_context \<Rightarrow> route option" where
  "select_route_spec re routes ctx =
     (let exact = first_max cand_rank (List.map_filter (exact_candidate re ctx) (enumerate 0 routes));
          pre = first_max cand_rank (List.map_filter (prefix_candidate re ctx) (enumerate 0 routes));
          regex = List.find (\<lambda>r. is_regex (route_matcher_of r) \<and> route_matches re r ctx) routes
      in if exact \<noteq> None then map_option cand_route exact
         else if (\<exists>c. pre = Some c \<and> cand_preferred_prefix c) then map_option cand_route pre
         else if regex \<noteq> None then regex
         else map_option cand_route pre)"

lemma select_route_refines: "select_route_with_context re routes ctx = select_route_spec re routes ctx"
  unfolding select_route_with_context_def select_route_spec_def scan_foldl
    route_choice.foldl_first_max Let_def
  by (auto split: option.splits)

section \<open>What the chosen route guarantees\<close>

text \<open>The length and the preference of a prefix route, and the exact routes.\<close>

fun prefix_info :: "route_matcher \<Rightarrow> (nat \<times> bool) option" where
  "prefix_info (MPreferredPrefix p) = Some (length p, True)"
| "prefix_info (MPrefix p) = Some (length p, False)"
| "prefix_info _ = None"

fun is_exact :: "route_matcher \<Rightarrow> bool" where
  "is_exact (MExact _) = True"
| "is_exact _ = False"

lemma prefix_candidate_Some:
  "prefix_candidate re ctx (i, r) = Some c \<longleftrightarrow>
     route_matches re r ctx \<and>
     (\<exists>len pref. prefix_info (route_matcher_of r) = Some (len, pref) \<and> c = candidate_new i r len pref)"
  by (cases "route_matcher_of r") (auto simp: prefix_candidate_def)

lemma exact_candidate_Some:
  "exact_candidate re ctx (i, r) = Some c \<longleftrightarrow>
     route_matches re r ctx \<and> (\<exists>path. route_matcher_of r = MExact path \<and> c = candidate_new i r (length path) False)"
  by (cases "route_matcher_of r") (auto simp: exact_candidate_def)

lemma snd_set_enumerate: "snd ` set (enumerate n xs) = set xs"
  by (metis list.set_map map_snd_enumerate)

lemma in_set_enumerate_route: "r \<in> set routes \<Longrightarrow> \<exists>i. (i, r) \<in> set (enumerate n routes)"
  using snd_set_enumerate [of n routes] by force

lemma ball_enumerate: "(\<forall>ir \<in> set (enumerate n xs). P (snd ir)) \<longleftrightarrow> (\<forall>r \<in> set xs. P r)"
  by (simp flip: snd_set_enumerate [of n xs])

lemma enumerate_route: "(i, r) \<in> set (enumerate n routes) \<Longrightarrow> r \<in> set routes"
  by (auto simp: in_set_enumerate_eq)

lemmas cand_of_new [simp] = candidate_new_def

lemma exact_candidates_iff:
  "List.map_filter (exact_candidate re ctx) (enumerate 0 routes) = [] \<longleftrightarrow>
     (\<forall>r \<in> set routes. route_matches re r ctx \<longrightarrow> \<not> is_exact (route_matcher_of r))"
proof -
  have "exact_candidate re ctx ir = None \<longleftrightarrow>
      (route_matches re (snd ir) ctx \<longrightarrow> \<not> is_exact (route_matcher_of (snd ir)))" for ir
    by (cases ir; cases "route_matcher_of (snd ir)") (auto simp: exact_candidate_def)
  then show ?thesis
    by (simp only: map_filter_Nil
        ball_enumerate [of _ _ "\<lambda>r. route_matches re r ctx \<longrightarrow> \<not> is_exact (route_matcher_of r)"])
qed

lemma prefix_candidates_iff:
  "List.map_filter (prefix_candidate re ctx) (enumerate 0 routes) = [] \<longleftrightarrow>
     (\<forall>r \<in> set routes. route_matches re r ctx \<longrightarrow> prefix_info (route_matcher_of r) = None)"
proof -
  have "prefix_candidate re ctx ir = None \<longleftrightarrow>
      (route_matches re (snd ir) ctx \<longrightarrow> prefix_info (route_matcher_of (snd ir)) = None)" for ir
    by (cases ir; cases "route_matcher_of (snd ir)") (auto simp: prefix_candidate_def)
  then show ?thesis
    by (simp only: map_filter_Nil
        ball_enumerate [of _ _ "\<lambda>r. route_matches re r ctx \<longrightarrow> prefix_info (route_matcher_of r) = None"])
qed

lemma best_exact_candidate:
  assumes "first_max cand_rank (List.map_filter (exact_candidate re ctx) (enumerate 0 routes)) = Some c"
  shows "cand_route c \<in> set routes \<and> route_matches re (cand_route c) ctx \<and>
     route_matcher_of (cand_route c) = MExact (ctx_path ctx) \<and>
     (\<forall>q \<in> set routes. route_matches re q ctx \<and> is_exact (route_matcher_of q) \<longrightarrow>
        route_grpc_rank q \<le> route_grpc_rank (cand_route c))"
proof -
  note max = first_max_maximal [OF assms]
  from max obtain i r path where ir: "(i, r) \<in> set (enumerate 0 routes)"
    and r: "route_matches re r ctx" "route_matcher_of r = MExact path"
      "c = candidate_new i r (length path) False"
    by (fastforce simp: map_filter_set exact_candidate_Some)
  have path: "path = ctx_path ctx" using r(1,2) by (simp add: route_matches_def split: if_splits)
  have "route_grpc_rank q \<le> route_grpc_rank r"
    if q: "q \<in> set routes" "route_matches re q ctx" "is_exact (route_matcher_of q)" for q
  proof -
    from q(3) obtain p where p: "route_matcher_of q = MExact p" by (cases "route_matcher_of q") auto
    with q(2) have "p = ctx_path ctx" by (simp add: route_matches_def split: if_splits)
    from in_set_enumerate_route [OF q(1)] obtain j where "(j, q) \<in> set (enumerate 0 routes)" by blast
    with p q(2) have "candidate_new j q (length p) False
        \<in> set (List.map_filter (exact_candidate re ctx) (enumerate 0 routes))"
      by (force simp: map_filter_set exact_candidate_Some)
    with max have "cand_rank (candidate_new j q (length p) False) \<le> cand_rank c" by blast
    with r(3) path \<open>p = ctx_path ctx\<close> show ?thesis by (auto simp: cand_rank_def)
  qed
  with r path enumerate_route [OF ir] show ?thesis by simp
qed

lemma best_prefix_candidate:
  assumes "first_max cand_rank (List.map_filter (prefix_candidate re ctx) (enumerate 0 routes)) = Some c"
  shows "cand_route c \<in> set routes \<and> route_matches re (cand_route c) ctx \<and>
     prefix_info (route_matcher_of (cand_route c)) = Some (cand_match_len c, cand_preferred_prefix c) \<and>
     (\<forall>q \<in> set routes. \<forall>len pref. route_matches re q ctx \<and>
        prefix_info (route_matcher_of q) = Some (len, pref) \<longrightarrow>
        len < cand_match_len c \<or> len = cand_match_len c \<and> (pref \<longrightarrow> cand_preferred_prefix c))"
proof -
  note max = first_max_maximal [OF assms]
  from max obtain i r len pref where ir: "(i, r) \<in> set (enumerate 0 routes)"
    and r: "route_matches re r ctx" "prefix_info (route_matcher_of r) = Some (len, pref)"
      "c = candidate_new i r len pref"
    by (fastforce simp: map_filter_set prefix_candidate_Some)
  have "l < len \<or> l = len \<and> (b \<longrightarrow> pref)"
    if q: "q \<in> set routes" "route_matches re q ctx" "prefix_info (route_matcher_of q) = Some (l, b)" for q l b
  proof -
    from in_set_enumerate_route [OF q(1)] obtain j where "(j, q) \<in> set (enumerate 0 routes)" by blast
    with q(2,3) have "candidate_new j q l b
        \<in> set (List.map_filter (prefix_candidate re ctx) (enumerate 0 routes))"
      by (force simp: map_filter_set prefix_candidate_Some)
    with max have "cand_rank (candidate_new j q l b) \<le> cand_rank c" by blast
    with r(3) show ?thesis by (auto simp: cand_rank_def less_eq_prod_def less_prod_def)
  qed
  with r enumerate_route [OF ir] show ?thesis by auto
qed

text \<open>The four ways a selection can end.\<close>

lemma select_route_cases:
  fixes re routes ctx
  defines "regex \<equiv> List.find (\<lambda>r. is_regex (route_matcher_of r) \<and> route_matches re r ctx) routes"
    and "exact \<equiv> first_max cand_rank (List.map_filter (exact_candidate re ctx) (enumerate 0 routes))"
    and "pre \<equiv> first_max cand_rank (List.map_filter (prefix_candidate re ctx) (enumerate 0 routes))"
  obtains
    (exact) c where "exact = Some c" "select_route_with_context re routes ctx = Some (cand_route c)"
  | (preferred) c where "exact = None" "pre = Some c" "cand_preferred_prefix c"
      "select_route_with_context re routes ctx = Some (cand_route c)"
  | (regex) r where "exact = None" "\<And>c. pre = Some c \<Longrightarrow> \<not> cand_preferred_prefix c"
      "regex = Some r" "select_route_with_context re routes ctx = Some r"
  | (plain) c where "exact = None" "pre = Some c" "\<not> cand_preferred_prefix c" "regex = None"
      "select_route_with_context re routes ctx = Some (cand_route c)"
  | (none) "exact = None" "pre = None" "regex = None" "select_route_with_context re routes ctx = None"
  unfolding select_route_refines select_route_spec_def Let_def
    regex_def [symmetric] exact_def [symmetric] pre_def [symmetric]
  by (cases exact; cases pre; cases regex) fastforce+

lemma find_route_Some:
  assumes "List.find P routes = Some r"
  shows "r \<in> set routes \<and> P r \<and> (\<exists>before after. routes = before @ r # after \<and> (\<forall>q \<in> set before. \<not> P q))"
proof -
  from assms obtain i where i: "i < length routes" "P (routes ! i)" "r = routes ! i"
    "\<forall>j < i. \<not> P (routes ! j)" by (auto simp: find_Some_iff)
  have "routes = take i routes @ r # drop (Suc i) routes" using i by (simp add: id_take_nth_drop)
  moreover have "\<forall>q \<in> set (take i routes). \<not> P q" using i by (auto simp: in_set_conv_nth)
  ultimately show ?thesis using i by (metis nth_mem)
qed

lemma prefix_info_iff:
  "prefix_info m = Some (l, True) \<longleftrightarrow> (\<exists>p. m = MPreferredPrefix p \<and> l = length p)"
  "prefix_info m = Some (l, False) \<longleftrightarrow> (\<exists>p. m = MPrefix p \<and> l = length p)"
  by (cases m; auto)+

lemma matcher_kinds: "is_exact m \<or> is_regex m \<or> prefix_info m \<noteq> None"
  by (cases m) auto

definition sample_route :: "string \<Rightarrow> route_matcher \<Rightarrow> route" where
  "sample_route name m =
     \<lparr> route_id = name, route_matcher_of = m, route_grpc_match = None,
       route_action_of = Return \<lparr> ra_status = 200, ra_location = [], ra_body = None \<rparr>,
       route_access = \<lparr> ac_allow_cidrs = [], ac_deny_cidrs = [] \<rparr>, route_rate = None,
       route_allow_early_data = False, route_request_buffering = BufAuto,
       route_response_buffering = BufAuto, route_compression = ComprAuto,
       route_compression_min_bytes = None, route_compression_content_types = [],
       route_streaming_response_idle_timeout = None, route_cache = None \<rparr>"

abbreviation sample_routes :: "route list" where
  "sample_routes \<equiv> [sample_route ''root'' (MPrefix ''/''), sample_route ''api'' (MPrefix ''/api''),
     sample_route ''rx'' (MRegex \<lparr> rx_pattern = ''x'', rx_case_insensitive = False \<rparr>)]"

section \<open>Properties\<close>

text \<open>C1. Route selection finds a route exactly when one matches the request, and the route it
  returns is one of the virtual host's and matches.\<close>

theorem select_route_sound_complete:
  "(select_route_with_context re routes ctx = None \<longleftrightarrow> (\<forall>r \<in> set routes. \<not> route_matches re r ctx)) \<and>
   (\<forall>r. select_route_with_context re routes ctx = Some r \<longrightarrow> r \<in> set routes \<and> route_matches re r ctx)"
proof (cases rule: select_route_cases [of re ctx routes])
  case (exact c)
  with best_exact_candidate [OF exact(1)] show ?thesis by auto
next
  case (preferred c)
  with best_prefix_candidate [OF preferred(2)] show ?thesis by auto
next
  case (regex r)
  with find_route_Some [OF regex(3)] show ?thesis by auto
next
  case (plain c)
  with best_prefix_candidate [OF plain(2)] show ?thesis by auto
next
  case none
  have "\<not> route_matches re r ctx" if "r \<in> set routes" for r
    using none(1-3) that matcher_kinds [of "route_matcher_of r"]
    by (auto simp: exact_candidates_iff prefix_candidates_iff find_None_iff)
  with none(4) show ?thesis by auto
qed

theorem select_route_sound_complete_witness:
  "select_route_with_context (\<lambda>_ _. False) sample_routes (context_new ''/api/v1'')
     = Some (sample_routes ! 1) \<and> route_matches (\<lambda>_ _. False) (sample_routes ! 1) (context_new ''/api/v1'')"
proof -
  have "select_route_with_context (\<lambda>_ _. False) sample_routes (context_new ''/api/v1'')
      = Some (sample_routes ! 1)" by code_simp
  with select_route_sound_complete [of "\<lambda>_ _. False" sample_routes "context_new ''/api/v1''"]
  show ?thesis by blast
qed



lemma vhost_scan_foldl:
  "foldl (vhost_scan host) sel vhosts =
     foldl vhost_step sel (List.map_filter
       (\<lambda>vh. map_option (\<lambda>m. (sn_priority m, vh)) (best_server_name_match vh host)) vhosts)"
  by (induction vhosts arbitrary: sel)
     (auto simp: vhost_scan_def List.map_filter_simps split: option.splits)

text \<open>Virtual host selection: when no virtual host has a server name that matches the host,
  the default one answers; otherwise the answer is a configured virtual host with a matching name,
  and no virtual host has a matching name of higher priority.\<close>

theorem select_vhost_best:
  "(if \<forall>vh \<in> set vhosts. best_server_name_match vh host = None
    then select_vhost vhosts default_vhost host = default_vhost
    else \<exists>m. select_vhost vhosts default_vhost host \<in> set vhosts \<and>
      best_server_name_match (select_vhost vhosts default_vhost host) host = Some m \<and>
      (\<forall>vh \<in> set vhosts. \<forall>p \<in> set (vh_server_names vh). \<forall>n.
         match_server_name p host = Some n \<longrightarrow> sn_priority n \<le> sn_priority m))"
proof -
  let ?xs = "List.map_filter
       (\<lambda>vh. map_option (\<lambda>m. (sn_priority m, vh)) (best_server_name_match vh host)) vhosts"
  have sel: "select_vhost vhosts default_vhost host =
      (case first_max fst ?xs of None \<Rightarrow> default_vhost | Some (_, vh) \<Rightarrow> vh)"
    by (simp add: select_vhost_def vhost_scan_foldl vhost_choice.foldl_first_max)
  show ?thesis
  proof (cases "first_max fst ?xs")
    case None
    then have "\<forall>vh \<in> set vhosts. best_server_name_match vh host = None" by (simp add: map_filter_Nil)
    moreover have "select_vhost vhosts default_vhost host = default_vhost" by (simp add: sel None)
    ultimately show ?thesis by simp
  next
    case (Some b)
    from first_max_maximal [OF Some] obtain vh m where b: "b = (sn_priority m, vh)" "vh \<in> set vhosts"
      "best_server_name_match vh host = Some m" by (auto simp: map_filter_set)
    have "sn_priority n \<le> sn_priority m"
      if n: "v \<in> set vhosts" "p \<in> set (vh_server_names v)" "match_server_name p host = Some n" for v p n
    proof -
      obtain k where k: "best_server_name_match v host = Some k"
        using n(2,3) by (cases "best_server_name_match v host") (auto simp: best_server_name_match_None)
      with n have "sn_priority n \<le> sn_priority k" using best_server_name_match_Some [OF k] by blast
      moreover have "sn_priority k \<le> sn_priority m"
      proof -
        have "(sn_priority k, v) \<in> set ?xs" using n(1) k by (force simp: map_filter_set)
        with first_max_maximal [OF Some] b(1) show ?thesis by fastforce
      qed
      ultimately show ?thesis by simp
    qed
    with b Some show ?thesis by (auto simp: sel)
  qed
qed

theorem select_vhost_best_witness:
  "select_vhost
     [\<lparr> vh_id = ''w'', vh_server_names = [''*.example.com''], vh_routes = [], vh_tls = None \<rparr>,
      \<lparr> vh_id = ''e'', vh_server_names = [''api.example.com''], vh_routes = [], vh_tls = None \<rparr>]
     \<lparr> vh_id = ''d'', vh_server_names = [], vh_routes = [], vh_tls = None \<rparr> ''API.example.com:443''
   = \<lparr> vh_id = ''e'', vh_server_names = [''api.example.com''], vh_routes = [], vh_tls = None \<rparr>"
  (is "select_vhost ?vs ?d ?h = ?e")
proof -
  have "best_server_name_match ?e ?h = Some SnExact" by code_simp
  then have some: "\<not> (\<forall>vh \<in> set ?vs. best_server_name_match vh ?h = None)" by auto
  from select_vhost_best [of ?vs ?h ?d] obtain m where
    in_vs: "select_vhost ?vs ?d ?h \<in> set ?vs" and
    m: "best_server_name_match (select_vhost ?vs ?d ?h) ?h = Some m" and
    best: "\<And>vh p n. vh \<in> set ?vs \<Longrightarrow> p \<in> set (vh_server_names vh) \<Longrightarrow>
      match_server_name p ?h = Some n \<Longrightarrow> sn_priority n \<le> sn_priority m"
    unfolding if_not_P [OF some] by blast
  have "match_server_name ''api.example.com'' ?h = Some SnExact" by code_simp
  with best [of ?e "''api.example.com''" SnExact] have "sn_priority SnExact \<le> sn_priority m" by simp
  moreover have "best_server_name_match (?vs ! 0) ?h = Some (LeadingWildcard 11)" by code_simp
  ultimately show ?thesis using in_vs m by auto
qed

end
