(* ===== verification/Request_Target.thy ===== *)
theory Request_Target
  imports Prelude
begin

text \<open>
  Normalisation of the request path before routing
  (\<open>crates/rginx-http/src/request_target.rs\<close>): empty and dot segments are
  dropped, a double-dot segment removes its predecessor and a path that climbs
  above the root becomes the root.
\<close>

record normalized_request_target =
  nrt_path :: string
  nrt_path_and_query :: string

text \<open>
  The loop over the segments, with the collected segments as a stack; \<open>None\<close>
  is the early return when a double dot finds the stack empty.
\<close>

fun normalize_segments :: "string list \<Rightarrow> string list \<Rightarrow> string list option" where
  "normalize_segments stack [] = Some stack"
| "normalize_segments stack (seg # segs) =
     (if seg = [] \<or> seg = ''.'' then normalize_segments stack segs
      else if seg = ''..'' then
        (if stack = [] then None else normalize_segments (butlast stack) segs)
      else normalize_segments (stack @ [seg]) segs)"

definition normalize_request_path :: "string \<Rightarrow> string" where
  "normalize_request_path path0 =
     (if path0 = ''*'' then ''*''
      else
        let path = (if path0 = [] then ''/'' else path0);
            absolute = str_starts_with path ''/'';
            trailing_slash = str_ends_with path ''/''
        in case normalize_segments [] (str_split (CHR ''/'') path) of
             None \<Rightarrow> ''/''
           | Some segs \<Rightarrow>
               let n0 = (if absolute then ''/'' else []) @ str_join ''/'' segs;
                   n1 = (if n0 = [] then ''/'' else n0);
                   n2 = (if trailing_slash \<and> n1 \<noteq> ''/'' \<and> \<not> str_ends_with n1 ''/''
                         then n1 @ ''/'' else n1)
               in if \<not> str_starts_with n2 ''/'' then ''/'' @ n2 else n2)"

text \<open>The URI as its path and its query.\<close>

definition normalize_request_target :: "string \<Rightarrow> string option \<Rightarrow> normalized_request_target" where
  "normalize_request_target uri_path uri_query =
     (let path = normalize_request_path uri_path
      in \<lparr> nrt_path = path,
           nrt_path_and_query =
             (case uri_query of Some q \<Rightarrow> path @ ''?'' @ q | None \<Rightarrow> path) \<rparr>)"

definition raw_request_target :: "string \<Rightarrow> string option \<Rightarrow> string" where
  "raw_request_target uri_path path_and_query =
     (case path_and_query of Some v \<Rightarrow> v | None \<Rightarrow> uri_path)"

section \<open>Clean segments\<close>

definition clean_segment :: "string \<Rightarrow> bool" where
  "clean_segment s \<longleftrightarrow> s \<noteq> [] \<and> s \<noteq> ''.'' \<and> s \<noteq> ''..'' \<and> CHR ''/'' \<notin> set s"

lemma normalize_segments_clean:
  "list_all clean_segment stack \<Longrightarrow> \<forall>s \<in> set segs. CHR ''/'' \<notin> set s \<Longrightarrow>
     normalize_segments stack segs = Some out \<Longrightarrow> list_all clean_segment out"
proof (induction stack segs rule: normalize_segments.induct)
  case (2 stack seg segs)
  have rest: "\<forall>s \<in> set segs. CHR ''/'' \<notin> set s" and seg: "CHR ''/'' \<notin> set seg"
    using "2.prems"(2) by simp_all
  consider (skip) "seg = [] \<or> seg = ''.''" | (up) "seg = ''..''"
    | (push) "seg \<noteq> [] \<and> seg \<noteq> ''.'' \<and> seg \<noteq> ''..''" by blast
  then show ?case
  proof cases
    case skip
    with "2.IH"(1) "2.prems"(1,3) rest show ?thesis by simp
  next
    case up
    with "2.prems"(3) have ne: "stack \<noteq> []" and eq: "normalize_segments (butlast stack) segs = Some out"
      by (auto split: if_splits)
    have "list_all clean_segment (butlast stack)"
      using "2.prems"(1) by (auto simp: list_all_iff dest: in_set_butlastD)
    with "2.IH"(2) up ne eq rest show ?thesis by simp
  next
    case push
    with seg have "clean_segment seg" by (simp add: clean_segment_def)
    with "2.IH"(3) "2.prems"(1,3) push rest show ?thesis by simp
  qed
qed simp

lemma normalize_segments_id:
  "list_all clean_segment segs \<Longrightarrow> normalize_segments stack segs = Some (stack @ segs)"
  by (induction segs arbitrary: stack) (auto simp: clean_segment_def)

lemma normalize_segments_append_empty:
  "normalize_segments stack (segs @ [[]]) = normalize_segments stack segs"
  by (induction stack segs rule: normalize_segments.induct) auto

lemma str_split_join:
  "list_all (\<lambda>s. c \<notin> set s) segs \<Longrightarrow> segs \<noteq> [] \<Longrightarrow> str_split c (str_join [c] segs) = segs"
proof (induction segs)
  case (Cons x xs)
  then show ?case
    by (cases xs) (simp_all add: str_split_no_sep str_split_append_sep)
qed simp

lemma str_split_snoc: "str_split c (s @ [c]) = str_split c s @ [[]]"
  by (induction s) (auto split: list.splits)

text \<open>
  The shape of a normalised path: a slash, the clean segments joined by
  slashes, and a final slash only after a segment.
\<close>

definition normal_path :: "string list \<Rightarrow> bool \<Rightarrow> string" where
  "normal_path segs slash =
     ''/'' @ str_join ''/'' segs @ (if slash \<and> segs \<noteq> [] then ''/'' else [])"

lemma str_join_last:
  "segs \<noteq> [] \<Longrightarrow> last segs \<noteq> [] \<Longrightarrow> str_join sep segs \<noteq> [] \<and> last (str_join sep segs) = last (last segs)"
  by (induction sep segs rule: str_join.induct) auto

lemma str_join_hd:
  "segs \<noteq> [] \<Longrightarrow> hd segs \<noteq> [] \<Longrightarrow> str_join sep segs \<noteq> [] \<and> hd (str_join sep segs) = hd (hd segs)"
  by (induction sep segs rule: str_join.induct) auto

lemma clean_segment_not_slash: "clean_segment s \<Longrightarrow> hd s \<noteq> CHR ''/'' \<and> last s \<noteq> CHR ''/''"
  by (metis clean_segment_def hd_in_set last_in_set)

lemma ends_with_char: "str_ends_with s [c] \<longleftrightarrow> s \<noteq> [] \<and> last s = c"
  by (cases s rule: rev_cases) (auto simp: str_ends_with_iff)

lemma starts_with_char: "str_starts_with s [c] \<longleftrightarrow> s \<noteq> [] \<and> hd s = c"
  by (cases s) (auto simp: str_starts_with_def)

lemma normalize_request_path_form:
  assumes "path \<noteq> ''*''"
  obtains segs slash where "list_all clean_segment segs"
    "normalize_request_path path = normal_path segs slash"
proof -
  let ?p = "if path = [] then ''/'' else path"
  show thesis
  proof (cases "normalize_segments [] (str_split (CHR ''/'') ?p)")
    case None
    with assms have "normalize_request_path path = normal_path [] False"
      by (simp add: normalize_request_path_def normal_path_def)
    then show thesis using that [of "[]" False] by simp
  next
    case (Some segs)
    then have clean: "list_all clean_segment segs"
      using normalize_segments_clean [of "[]" _ segs] str_split_pieces by fastforce
    have "normalize_request_path path = normal_path segs (str_ends_with ?p ''/'')"
    proof (cases "segs = []")
      case True
      with assms Some show ?thesis
        by (simp add: normalize_request_path_def normal_path_def Let_def str_starts_with_def)
    next
      case False
      with clean have "clean_segment (hd segs)" "clean_segment (last segs)" by (auto simp: list_all_iff)
      then have "str_join ''/'' segs \<noteq> []" "hd (str_join ''/'' segs) \<noteq> CHR ''/''"
        "last (str_join ''/'' segs) \<noteq> CHR ''/''"
        using str_join_hd [OF False, of "''/''"] str_join_last [OF False, of "''/''"]
          clean_segment_not_slash by (auto simp: clean_segment_def)
      with assms Some False show ?thesis
        by (auto simp: normalize_request_path_def normal_path_def Let_def ends_with_char starts_with_char)
    qed
    with clean show thesis by (rule that)
  qed
qed

lemma split_normal_path:
  assumes "list_all clean_segment segs"
  shows "str_split (CHR ''/'') (normal_path segs slash) =
     [] # (if segs = [] then [[]] else segs @ (if slash then [[]] else []))"
proof (cases "segs = []")
  case False
  have "list_all (\<lambda>s. CHR ''/'' \<notin> set s) segs" using assms by (simp add: list_all_iff clean_segment_def)
  with False show ?thesis
    using str_split_join [of "CHR ''/''" segs] str_split_snoc [of "CHR ''/''" "str_join ''/'' segs"]
    by (auto simp: normal_path_def)
qed (simp add: normal_path_def)

lemma normalize_normal_path:
  assumes "list_all clean_segment segs"
  shows "normalize_request_path (normal_path segs slash) = normal_path segs slash"
proof -
  have segs: "normalize_segments [] (str_split (CHR ''/'') (normal_path segs slash)) = Some segs"
    using assms
    by (auto simp: split_normal_path normalize_segments_append_empty normalize_segments_id
        simp flip: append.simps)
  show ?thesis
  proof (cases "segs = []")
    case True
    then show ?thesis by (simp add: normal_path_def normalize_request_path_def Let_def str_starts_with_def)
  next
    case False
    with assms have "clean_segment (hd segs)" "clean_segment (last segs)" by (auto simp: list_all_iff)
    then have j: "str_join ''/'' segs \<noteq> []" "last (str_join ''/'' segs) \<noteq> CHR ''/''"
      using str_join_last [OF False, of "''/''"] clean_segment_not_slash by (auto simp: clean_segment_def)
    then have ends: "str_ends_with (normal_path segs slash) ''/'' \<longleftrightarrow> slash"
      using False by (auto simp: ends_with_char normal_path_def)
    have "normal_path segs slash \<noteq> ''*''" "normal_path segs slash \<noteq> []"
      "str_starts_with (normal_path segs slash) ''/''"
      by (auto simp: normal_path_def str_starts_with_def)
    with segs ends j False show ?thesis
      by (auto simp: normalize_request_path_def Let_def normal_path_def ends_with_char starts_with_char)
  qed
qed

section \<open>Properties\<close>

text \<open>C8. A normalised request path is absolute and none of its segments is a dot or a
  double dot, or empty but for what follows a final slash: a request cannot climb out of the location it is matched
  against.\<close>

theorem normalized_path_has_no_dot_segments:
  assumes "path \<noteq> ''*''"
  shows "str_starts_with (normalize_request_path path) ''/'' \<and>
     (\<forall>seg \<in> set (str_split (CHR ''/'') (normalize_request_path path)). seg \<noteq> ''.'' \<and> seg \<noteq> ''..'') \<and>
     (\<forall>seg \<in> set (butlast (tl (str_split (CHR ''/'') (normalize_request_path path)))). seg \<noteq> [])"
proof -
  obtain segs slash where "list_all clean_segment segs"
    "normalize_request_path path = normal_path segs slash"
    using normalize_request_path_form [OF assms] .
  moreover have "str_starts_with (normal_path segs slash) ''/''"
    by (simp add: normal_path_def str_starts_with_def)
  moreover have "\<forall>seg \<in> set segs. seg \<noteq> ''.'' \<and> seg \<noteq> ''..'' \<and> seg \<noteq> []"
    using calculation(1) by (simp add: list_all_iff clean_segment_def)
  ultimately show ?thesis
    by (auto simp: split_normal_path ball_Un butlast_append dest: in_set_butlastD)
qed

theorem normalized_path_has_no_dot_segments_witness:
  "normalize_request_path ''/a/./b//../../../etc/passwd'' = ''/'' \<and>
   str_starts_with (normalize_request_path ''/a/./b//../c'') ''/''"
proof
  show "normalize_request_path ''/a/./b//../../../etc/passwd'' = ''/''" by code_simp
  show "str_starts_with (normalize_request_path ''/a/./b//../c'') ''/''"
    using normalized_path_has_no_dot_segments [of "''/a/./b//../c''"] by simp
qed

text \<open>Normalising a request path twice is the same as normalising it once.\<close>

theorem normalize_request_path_idempotent:
  "normalize_request_path (normalize_request_path path) = normalize_request_path path"
proof (cases "path = ''*''")
  case True
  then show ?thesis by (simp add: normalize_request_path_def)
next
  case False
  then obtain segs slash where "list_all clean_segment segs"
    "normalize_request_path path = normal_path segs slash"
    using normalize_request_path_form by blast
  then show ?thesis by (simp add: normalize_normal_path)
qed

end
