(* ===== verification/Client_Ip.thy ===== *)
theory Client_Ip
  imports Core_Config
begin

text \<open>
  Where a request comes from: the PROXY protocol header read at the start of a
  connection (\<open>crates/rginx-http/src/server/proxy_protocol.rs\<close> and the part of
  \<open>server/connection.rs\<close> that calls it) and the client address resolved from
  the connection and the request headers (\<open>crates/rginx-http/src/client_ip.rs\<close>).

  Membership of an address in a network is \<open>IpNet::contains\<close> of the crate
  \<open>ipnet\<close>, the argument \<open>cidr_contains\<close>.  A TCP stream is the list of the
  bytes the peer sends before it closes.
\<close>

section \<open>The PROXY protocol header\<close>

definition MAX_PROXY_PROTOCOL_HEADER_BYTES :: nat where
  "MAX_PROXY_PROTOCOL_HEADER_BYTES = 108"

definition crlf :: string where
  "crlf = [CHR 0x0D, CHR 0x0A]"

datatype proxy_protocol_error =
    HeaderTooLong | UnexpectedEof | NotUtf8 | InvalidHeader
  | MissingSourceAddress | InvalidSourceAddress | MissingSourcePort | InvalidSourcePort
  | UnsupportedTransport

text \<open>The byte loop: the header read so far and the rest of the stream.\<close>

fun read_proxy_loop :: "string \<Rightarrow> string \<Rightarrow> proxy_protocol_error + string \<times> string" where
  "read_proxy_loop header [] =
     (if MAX_PROXY_PROTOCOL_HEADER_BYTES \<le> length header then Inl HeaderTooLong
      else Inl UnexpectedEof)"
| "read_proxy_loop header (byte # rest) =
     (if MAX_PROXY_PROTOCOL_HEADER_BYTES \<le> length header then Inl HeaderTooLong
      else if str_ends_with (header @ [byte]) crlf then Inr (header @ [byte], rest)
      else read_proxy_loop (header @ [byte]) rest)"

text \<open>\<open>str::trim_end_matches\<close> with a string pattern.\<close>

function trim_end_matches :: "string \<Rightarrow> string \<Rightarrow> string" where
  "trim_end_matches p s =
     (if p \<noteq> [] \<and> str_ends_with s p then trim_end_matches p (take (length s - length p) s) else s)"
  by pat_completeness auto
termination by (relation "measure (\<lambda>(_, s). length s)") (auto simp: str_ends_with_iff)

declare trim_end_matches.simps [simp del]

definition nth_part :: "string list \<Rightarrow> nat \<Rightarrow> string option" where
  "nth_part parts i = (if i < length parts then Some (parts ! i) else None)"

definition ok_or :: "'a option \<Rightarrow> 'e \<Rightarrow> 'e + 'a" where
  "ok_or x e = (case x of None \<Rightarrow> Inl e | Some y \<Rightarrow> Inr y)"

definition parse_proxy_protocol_v1 ::
    "string \<Rightarrow> socket_addr \<Rightarrow> bool \<Rightarrow> proxy_protocol_error + socket_addr option" where
  "parse_proxy_protocol_v1 header0 remote_addr trust_remote_addr =
     (let header = trim_end_matches crlf header0
      in if header = ''PROXY UNKNOWN'' then Inr None
         else let parts = split_whitespace header
         in if nth_part parts 0 \<noteq> Some ''PROXY'' \<or> nth_part parts 6 \<noteq> None
            then Inl InvalidHeader
            else
              bind_res
                (if nth_part parts 1 = Some ''TCP4'' \<or> nth_part parts 1 = Some ''TCP6'' then
                   bind_res (ok_or (nth_part parts 2) MissingSourceAddress) (\<lambda>addr.
                   bind_res (ok_or (parse_ip addr) InvalidSourceAddress) (\<lambda>ip.
                   bind_res (ok_or (nth_part parts 4) MissingSourcePort) (\<lambda>p.
                   bind_res (ok_or (parse_uint 65535 p) InvalidSourcePort) (\<lambda>port.
                   Inr (Some (ip, port))))))
                 else Inl UnsupportedTransport)
                (\<lambda>source. if \<not> trust_remote_addr then Inr None else Inr source))"

definition read_proxy_protocol_source_addr ::
    "string \<Rightarrow> socket_addr \<Rightarrow> bool \<Rightarrow> proxy_protocol_error + socket_addr option \<times> string" where
  "read_proxy_protocol_source_addr stream remote_addr trust_remote_addr =
     bind_res (read_proxy_loop [] stream) (\<lambda>(header, rest).
       if utf8_valid header
       then bind_res (parse_proxy_protocol_v1 header remote_addr trust_remote_addr)
              (\<lambda>source. Inr (source, rest))
       else Inl NotUtf8)"

section \<open>The client address\<close>

datatype client_ip_source = SocketPeer | XForwardedFor | ClientIpHeader

fun client_ip_source_as_str :: "client_ip_source \<Rightarrow> string" where
  "client_ip_source_as_str SocketPeer = ''socket_peer''"
| "client_ip_source_as_str XForwardedFor = ''x_forwarded_for''"
| "client_ip_source_as_str ClientIpHeader = ''client_ip_header''"

record client_address =
  ca_peer_addr :: socket_addr
  ca_client_ip :: ip_addr
  ca_forwarded_for :: string
  ca_source :: client_ip_source

record tls_client_identity =
  tci_subject :: "string option"
  tci_issuer :: "string option"
  tci_serial_number :: "string option"
  tci_san_dns_names :: "string list"
  tci_chain_length :: nat
  tci_chain_subjects :: "string list"

record connection_peer_addrs =
  cpa_socket_peer_addr :: socket_addr
  cpa_proxy_protocol_source_addr :: "socket_addr option"
  cpa_tls_client_identity :: "tls_client_identity option"
  cpa_tls_version :: "string option"
  cpa_tls_alpn :: "string option"
  cpa_early_data :: bool

text \<open>
  The first step of \<open>serve_connection\<close>: the PROXY header, where the listener
  expects one, trusted only if the socket peer is a trusted proxy.  An error
  closes the connection.
\<close>

definition accept_peer_addrs ::
    "(ip_net \<Rightarrow> ip_addr \<Rightarrow> bool) \<Rightarrow> server \<Rightarrow> bool \<Rightarrow> socket_addr \<Rightarrow> string \<Rightarrow>
     proxy_protocol_error + connection_peer_addrs \<times> string" where
  "accept_peer_addrs cidr_contains server proxy_protocol_enabled remote_addr stream =
     bind_res
       (if proxy_protocol_enabled
        then read_proxy_protocol_source_addr stream remote_addr
               (is_trusted_proxy cidr_contains server (sock_ip remote_addr))
        else Inr (None, stream))
       (\<lambda>(source, rest).
         Inr (\<lparr> cpa_socket_peer_addr = remote_addr, cpa_proxy_protocol_source_addr = source,
                cpa_tls_client_identity = None, cpa_tls_version = None, cpa_tls_alpn = None,
                cpa_early_data = False \<rparr>, rest))"

definition parse_forwarded_ip :: "string \<Rightarrow> ip_addr option" where
  "parse_forwarded_ip token =
     (case parse_ip token of Some ip \<Rightarrow> Some ip
      | None \<Rightarrow> map_option sock_ip (parse_socket_addr token))"

definition parse_client_ip_header :: "header_map \<Rightarrow> string \<Rightarrow> ip_addr option" where
  "parse_client_ip_header headers header_name =
     Option.bind (Option.bind (hm_get headers header_name) to_str) (\<lambda>v.
       Option.bind (find (\<lambda>token. token \<noteq> [])
           (map str_trim (str_split (CHR '','') (str_trim v))))
         parse_forwarded_ip)"

definition direct_peer :: "socket_addr \<Rightarrow> client_address" where
  "direct_peer peer_addr =
     \<lparr> ca_peer_addr = peer_addr, ca_client_ip = sock_ip peer_addr,
       ca_forwarded_for = show_ip (sock_ip peer_addr), ca_source = SocketPeer \<rparr>"

definition proxied_peer :: "socket_addr \<Rightarrow> ip_addr \<Rightarrow> client_address" where
  "proxied_peer peer_addr client_ip =
     \<lparr> ca_peer_addr = peer_addr, ca_client_ip = client_ip,
       ca_forwarded_for = show_ip client_ip, ca_source = SocketPeer \<rparr>"

text \<open>The two nested loops over the values and their tokens.\<close>

fun xff_tokens :: "string list \<Rightarrow> ip_addr list \<Rightarrow> ip_addr list option" where
  "xff_tokens [] chain = Some chain"
| "xff_tokens (t # ts) chain =
     (let token = str_trim t
      in if token = [] then None
         else case parse_forwarded_ip token of
                None \<Rightarrow> None
              | Some ip \<Rightarrow> xff_tokens ts (chain @ [ip]))"

fun xff_values :: "string list \<Rightarrow> ip_addr list \<Rightarrow> ip_addr list option" where
  "xff_values [] chain = Some chain"
| "xff_values (v # vs) chain =
     (case to_str v of None \<Rightarrow> None
      | Some s \<Rightarrow> Option.bind (xff_tokens (str_split (CHR '','') s) chain) (xff_values vs))"

definition parse_x_forwarded_for :: "header_map \<Rightarrow> ip_addr list option" where
  "parse_x_forwarded_for headers =
     (case xff_values (hm_get_all headers ''x-forwarded-for'') [] of
        None \<Rightarrow> None
      | Some chain \<Rightarrow> if chain = [] then None else Some chain)"

definition select_client_ip_with_immediate_peer ::
    "(ip_net \<Rightarrow> ip_addr \<Rightarrow> bool) \<Rightarrow> ip_addr list \<Rightarrow> ip_addr \<Rightarrow> server \<Rightarrow> ip_addr" where
  "select_client_ip_with_immediate_peer cidr_contains chain immediate_peer server =
     (case find (\<lambda>ip. \<not> is_trusted_proxy cidr_contains server ip) (rev chain @ [immediate_peer]) of
        Some ip \<Rightarrow> ip
      | None \<Rightarrow> hd chain)"

definition resolve_client_address ::
    "(ip_net \<Rightarrow> ip_addr \<Rightarrow> bool) \<Rightarrow> header_map \<Rightarrow> server \<Rightarrow> connection_peer_addrs \<Rightarrow> client_address" where
  "resolve_client_address cidr_contains headers server conn =
     (if \<not> is_trusted_proxy cidr_contains server (sock_ip (cpa_socket_peer_addr conn))
      then direct_peer (cpa_socket_peer_addr conn)
      else
        let immediate_peer = (case cpa_proxy_protocol_source_addr conn of
               Some a \<Rightarrow> a | None \<Rightarrow> cpa_socket_peer_addr conn)
        in case Option.bind (srv_client_ip_header server) (parse_client_ip_header headers) of
             Some client_ip \<Rightarrow>
               \<lparr> ca_peer_addr = cpa_socket_peer_addr conn, ca_client_ip = client_ip,
                 ca_forwarded_for = show_ip client_ip @ '', '' @ show_ip (sock_ip immediate_peer),
                 ca_source = ClientIpHeader \<rparr>
           | None \<Rightarrow>
               (case parse_x_forwarded_for headers of
                  None \<Rightarrow> proxied_peer (cpa_socket_peer_addr conn) (sock_ip immediate_peer)
                | Some chain \<Rightarrow>
                    \<lparr> ca_peer_addr = cpa_socket_peer_addr conn,
                      ca_client_ip = select_client_ip_with_immediate_peer cidr_contains chain
                                       (sock_ip immediate_peer) server,
                      ca_forwarded_for = str_join '', '' (map show_ip chain) @ '', '' @
                                         show_ip (sock_ip immediate_peer),
                      ca_source = XForwardedFor \<rparr>))"

section \<open>Lemmas on the PROXY header\<close>

text \<open>\<open>stops_at header t\<close>: reading \<open>t\<close> after \<open>header\<close> meets its first CRLF at the end of \<open>t\<close>.\<close>

fun stops_at :: "string \<Rightarrow> string \<Rightarrow> bool" where
  "stops_at header [] = False"
| "stops_at header (b # t) =
     (if str_ends_with (header @ [b]) crlf then t = [] else stops_at (header @ [b]) t)"

lemma read_proxy_loop_sound:
  "read_proxy_loop header stream = Inr (h, rest) \<Longrightarrow>
     length h \<le> MAX_PROXY_PROTOCOL_HEADER_BYTES \<and>
     (\<exists>t. h = header @ t \<and> stream = t @ rest \<and> stops_at header t)"
proof (induction header stream rule: read_proxy_loop.induct)
  case (2 header byte stream)
  show ?case
  proof (cases "str_ends_with (header @ [byte]) crlf")
    case True
    with "2.prems" have "h = header @ [byte]" "rest = stream"
      "length header < MAX_PROXY_PROTOCOL_HEADER_BYTES" by (auto split: if_splits)
    moreover have "stops_at header [byte]" using True by simp
    ultimately show ?thesis by auto
  next
    case False
    with "2.prems" have "read_proxy_loop (header @ [byte]) stream = Inr (h, rest)"
      "\<not> MAX_PROXY_PROTOCOL_HEADER_BYTES \<le> length header" by (auto split: if_splits)
    with "2.IH" False obtain t where "length h \<le> MAX_PROXY_PROTOCOL_HEADER_BYTES"
      "h = (header @ [byte]) @ t" "stream = t @ rest" "stops_at (header @ [byte]) t" by blast
    with False have "h = header @ byte # t" "byte # stream = (byte # t) @ rest"
      "stops_at header (byte # t)" by auto
    with \<open>length h \<le> MAX_PROXY_PROTOCOL_HEADER_BYTES\<close> show ?thesis by blast
  qed
qed (auto split: if_splits)

lemma read_proxy_loop_complete:
  "stops_at header t \<Longrightarrow> length header + length t \<le> MAX_PROXY_PROTOCOL_HEADER_BYTES \<Longrightarrow>
     read_proxy_loop header (t @ rest) = Inr (header @ t, rest)"
  by (induction header t rule: stops_at.induct) (auto split: if_splits)

lemma stops_at_iff:
  "stops_at header t \<longleftrightarrow> t \<noteq> [] \<and> str_ends_with (header @ t) crlf \<and>
     (\<forall>p q. t = p @ q \<and> p \<noteq> [] \<and> q \<noteq> [] \<longrightarrow> \<not> str_ends_with (header @ p) crlf)"
proof (induction header t rule: stops_at.induct)
  case (2 header b t)
  have split: "(\<forall>p q. b # t = p @ q \<and> p \<noteq> [] \<and> q \<noteq> [] \<longrightarrow> Q p) \<longleftrightarrow>
      (t \<noteq> [] \<longrightarrow> Q [b]) \<and> (\<forall>p q. t = p @ q \<and> p \<noteq> [] \<and> q \<noteq> [] \<longrightarrow> Q (b # p))" for Q
    by (auto simp: Cons_eq_append_conv)
  show ?case unfolding split using "2.IH" by (cases "t = []") auto
qed simp

lemma trim_end_matches_crlf: "last h \<noteq> CHR 0x0A \<Longrightarrow> trim_end_matches crlf (h @ crlf) = h"
proof -
  assume "last h \<noteq> CHR 0x0A"
  then have "\<not> str_ends_with h crlf"
    by (auto simp: str_ends_with_iff crlf_def)
  then have "trim_end_matches crlf h = h" by (simp add: trim_end_matches.simps [of crlf h])
  moreover have "trim_end_matches crlf (h @ crlf) = trim_end_matches crlf h"
    by (subst trim_end_matches.simps) (simp add: str_ends_with_iff, simp add: crlf_def)
  ultimately show ?thesis by simp
qed

lemma parse_untrusted_None:
  "parse_proxy_protocol_v1 header remote False = Inr source \<Longrightarrow> source = None"
  by (auto simp: parse_proxy_protocol_v1_def Let_def bind_res_Inr split: if_splits)

lemma nth_part_simps [simp]:
  "nth_part [] i = None"
  "nth_part (x # xs) 0 = Some x"
  "nth_part (x # xs) (Suc i) = nth_part xs i"
  "nth_part (x # xs) (numeral k) = nth_part xs (pred_numeral k)"
  by (simp_all add: nth_part_def numeral_eq_Suc)

lemma ok_or_simps [simp]: "ok_or None e = Inl e" "ok_or (Some x) e = Inr x"
  by (simp_all add: ok_or_def)

lemma word_char_show_nat: "list_all word_char (show_nat n)"
proof -
  have "is_digit c \<Longrightarrow> word_char c" for c by (auto simp: is_digit_def word_char_def is_ws_def)
  with show_nat_digits [of n] show ?thesis by (auto simp: list_all_iff)
qed

lemma show_ipv4_chars: "c \<in> set (show_ipv4 w) \<Longrightarrow> is_digit c \<or> c = CHR ''.''"
  using show_nat_digits by (auto simp: show_ipv4_def list_all_iff)

lemma word_char_show_ipv4: "list_all word_char (show_ipv4 w) \<and> show_ipv4 w \<noteq> []"
proof
  have "word_char c" if "c \<in> set (show_ipv4 w)" for c
    using show_ipv4_chars [OF that] by (auto simp: word_char_def is_ws_def is_digit_def)
  then show "list_all word_char (show_ipv4 w)" by (simp add: list_all_iff)
qed (simp add: show_ipv4_def)

lemma show_ipv4_token:
  "list_all header_visible (show_ipv4 w)" "CHR '','' \<notin> set (show_ipv4 w)"
  "str_trim (show_ipv4 w) = show_ipv4 w"
proof -
  have vis: "header_visible c" "c \<noteq> CHR '',''" "\<not> is_ws c" if "c \<in> set (show_ipv4 w)" for c
    using show_ipv4_chars [OF that] by (auto simp: header_visible_def is_ws_def is_digit_def)
  then show "list_all header_visible (show_ipv4 w)" "CHR '','' \<notin> set (show_ipv4 w)"
    by (auto simp: list_all_iff)
  show "str_trim (show_ipv4 w) = show_ipv4 w"
    using vis(3) word_char_show_ipv4 [of w] by (simp add: str_trim_id)
qed

lemma str_split_join_comma:
  "list_all (\<lambda>x. CHR '','' \<notin> set x) xs \<Longrightarrow> CHR '','' \<notin> set x \<Longrightarrow>
     str_split (CHR '','') (str_join '', '' (x # xs)) = x # map (\<lambda>y. CHR '' '' # y) xs"
proof (induction xs arbitrary: x)
  case (Cons y ys)
  then have "str_split (CHR '','') (CHR '' '' # str_join '', '' (y # ys))
      = (CHR '' '' # y) # map (\<lambda>z. CHR '' '' # z) ys" by simp
  with Cons.prems show ?case
    using str_split_append_sep [of "CHR '',''" x "CHR '' '' # str_join '', '' (y # ys)"] by simp
qed (simp add: str_split_no_sep)

lemma xff_tokens_show:
  "xff_tokens (map (\<lambda>y. CHR '' '' # y) (map show_ipv4 ws)) chain = Some (chain @ map V4 ws)"
proof (induction ws arbitrary: chain)
  case (Cons w ws)
  then show ?case
    using parse_show_ipv4 [of w] show_ipv4_token [of w] word_char_show_ipv4 [of w]
    by (simp add: str_trim_space parse_forwarded_ip_def)
qed simp

lemma visible_join:
  "list_all (list_all header_visible) xs \<Longrightarrow> list_all header_visible (str_join '', '' xs)"
  by (induction "'', ''" xs rule: str_join.induct) (simp_all add: header_visible_def)

lemma parse_x_forwarded_for_value:
  "list_all header_visible v \<Longrightarrow> xff_tokens (str_split (CHR '','') v) [] = Some chain \<Longrightarrow> chain \<noteq> [] \<Longrightarrow>
     parse_x_forwarded_for [(''x-forwarded-for'', v)] = Some chain"
  by (simp add: parse_x_forwarded_for_def hm_get_all_def to_str_def)

text \<open>The chain as a proxy writes it into the header is the chain the next proxy reads.\<close>

lemma parse_x_forwarded_for_show:
  "parse_x_forwarded_for [(''x-forwarded-for'', str_join '', '' (map show_ip (V4 w # map V4 ws)))]
     = Some (V4 w # map V4 ws)"
proof -
  let ?v = "str_join '', '' (show_ipv4 w # map show_ipv4 ws)"
  have split: "str_split (CHR '','') ?v = show_ipv4 w # map (\<lambda>y. CHR '' '' # y) (map show_ipv4 ws)"
    using show_ipv4_token(2) by (intro str_split_join_comma) (simp_all add: list_all_iff)
  have vis: "list_all header_visible ?v"
    using show_ipv4_token(1) by (intro visible_join) (simp add: list_all_iff)
  have "xff_tokens (str_split (CHR '','') ?v) [] = Some (V4 w # map V4 ws)"
    unfolding split
    using parse_show_ipv4 [of w] show_ipv4_token [of w] word_char_show_ipv4 [of w]
      xff_tokens_show [of ws "[V4 w]"] by (simp add: parse_forwarded_ip_def)
  moreover have "map show_ip (V4 w # map V4 ws) = show_ipv4 w # map show_ipv4 ws" by simp
  ultimately show ?thesis using vis parse_x_forwarded_for_value [of ?v] by (metis list.distinct(1))
qed

section \<open>Properties\<close>

text \<open>The byte loop accepts a header exactly when the stream starts with it, it has at most
  108 bytes and its first CRLF is its end; the bytes after it are left for the next layer.\<close>

theorem read_proxy_loop_exact:
  "read_proxy_loop [] stream = Inr (h, rest) \<longleftrightarrow>
     stream = h @ rest \<and> length h \<le> 108 \<and> str_ends_with h crlf \<and>
     (\<forall>p q. h = p @ q \<and> q \<noteq> [] \<longrightarrow> \<not> str_ends_with p crlf)"
proof -
  have "\<not> str_ends_with [] crlf" by (simp add: str_ends_with_iff crlf_def)
  moreover have "str_ends_with h crlf \<Longrightarrow> h \<noteq> []" by (auto simp: str_ends_with_iff crlf_def)
  ultimately have stop: "stops_at [] h \<longleftrightarrow> str_ends_with h crlf \<and>
      (\<forall>p q. h = p @ q \<and> q \<noteq> [] \<longrightarrow> \<not> str_ends_with p crlf)"
    unfolding stops_at_iff by (metis append_Nil)
  have "read_proxy_loop [] stream = Inr (h, rest) \<longleftrightarrow> stream = h @ rest \<and> length h \<le> 108 \<and> stops_at [] h"
    using read_proxy_loop_sound [of "[]" stream h rest] read_proxy_loop_complete [of "[]" h rest]
    by (auto simp: MAX_PROXY_PROTOCOL_HEADER_BYTES_def)
  then show ?thesis using stop by blast
qed

theorem read_proxy_loop_exact_witness:
  "read_proxy_loop [] (''PROXY UNKNOWN'' @ crlf @ ''GET /'') = Inr (''PROXY UNKNOWN'' @ crlf, ''GET /'') \<and>
   str_ends_with (''PROXY UNKNOWN'' @ crlf) crlf"
proof
  show eq: "read_proxy_loop [] (''PROXY UNKNOWN'' @ crlf @ ''GET /'')
      = Inr (''PROXY UNKNOWN'' @ crlf, ''GET /'')" by code_simp
  show "str_ends_with (''PROXY UNKNOWN'' @ crlf) crlf"
    using eq read_proxy_loop_exact by blast
qed

text \<open>A version 1 header that carries an IPv4 source address and port is read back as that
  address when the socket peer is trusted, and as no address when it is not.\<close>

theorem parse_proxy_protocol_v1_round_trip:
  assumes "port \<le> 65535"
    and "list_all word_char dst" and "dst \<noteq> []"
    and "list_all word_char dport" and "dport \<noteq> []"
  shows "parse_proxy_protocol_v1
      (''PROXY TCP4 '' @ show_ip (V4 w) @ '' '' @ dst @ '' '' @ show_nat port @ '' '' @ dport @ crlf)
      remote trusted = Inr (if trusted then Some (V4 w, port) else None)"
proof -
  let ?h = "''PROXY'' @ CHR '' '' # ''TCP4'' @ CHR '' '' # show_ipv4 w @ CHR '' '' # dst @
    CHR '' '' # show_nat port @ CHR '' '' # dport"
  have lit: "list_all word_char ''PROXY''" "list_all word_char ''TCP4''"
    by (simp_all add: word_char_def is_ws_def)
  have "word_char (last dport)" using assms(4,5) by (auto simp: list_all_iff)
  then have "last ?h \<noteq> CHR 0x0A" using assms(5) by (auto simp: word_char_def is_ws_def)
  then have trim: "trim_end_matches crlf (?h @ crlf) = ?h" by (rule trim_end_matches_crlf)
  have parts: "split_whitespace ?h = [''PROXY'', ''TCP4'', show_ipv4 w, dst, show_nat port, dport]"
    using assms lit word_char_show_ipv4 [of w] word_char_show_nat [of port] show_nat_digits [of port]
    by (simp only: split_whitespace_word split_whitespace_last not_Cons_self2 list.distinct simp_thms)
  have "?h \<noteq> ''PROXY UNKNOWN''" by simp
  then have "parse_proxy_protocol_v1 (?h @ crlf) remote trusted
      = Inr (if trusted then Some (V4 w, port) else None)"
    using assms(1) parse_show_ipv4 [of w]
    by (simp only: parse_proxy_protocol_v1_def trim parts Let_def if_False) simp
  then show ?thesis by simp
qed

theorem parse_proxy_protocol_v1_round_trip_witness:
  "parse_proxy_protocol_v1
      (''PROXY TCP4 '' @ show_ip (V4 1) @ '' '' @ ''10.0.0.1'' @ '' '' @ show_nat 4711 @ '' '' @ ''443'' @ crlf)
      (V4 2, 80) True = Inr (Some (V4 1, 4711))"
  using parse_proxy_protocol_v1_round_trip [of 4711 "''10.0.0.1''" "''443''" 1 "(V4 2, 80)" True]
  by (simp add: word_char_def is_ws_def)

text \<open>C3. A client that is not a trusted proxy cannot choose its own address: whatever PROXY
  header it sends and whatever forwarding headers its requests carry, the client address is the
  address of the socket peer.\<close>

theorem untrusted_peer_cannot_choose_client_ip:
  assumes "\<not> is_trusted_proxy cidr_contains server (sock_ip remote)"
    and "accept_peer_addrs cidr_contains server enabled remote stream = Inr (conn, rest)"
  shows "cpa_proxy_protocol_source_addr conn = None \<and>
     resolve_client_address cidr_contains headers server conn =
       \<lparr> ca_peer_addr = remote, ca_client_ip = sock_ip remote,
         ca_forwarded_for = show_ip (sock_ip remote), ca_source = SocketPeer \<rparr>"
proof -
  from assms(2) have peer: "cpa_socket_peer_addr conn = remote"
    and src: "cpa_proxy_protocol_source_addr conn = None"
    using assms(1)
    by (auto simp: accept_peer_addrs_def bind_res_Inr read_proxy_protocol_source_addr_def
        split: if_splits dest: parse_untrusted_None)
  with assms(1) show ?thesis by (simp add: resolve_client_address_def direct_peer_def)
qed

definition sample_server :: server where
  "sample_server = \<lparr> srv_listen_addr = (V4 0, 80), srv_server_header = default_server_header,
     srv_default_certificate = None,
     srv_trusted_proxies = [\<lparr> net_addr = V4 7, net_prefix_len = 32 \<rparr>], srv_client_ip_header = None,
     srv_keep_alive = True, srv_max_headers = None, srv_max_request_body_bytes = None,
     srv_max_connections = None, srv_header_read_timeout = None, srv_request_body_read_timeout = None,
     srv_response_write_timeout = None, srv_access_log_format = None, srv_tls = None \<rparr>"

definition sample_contains :: "ip_net \<Rightarrow> ip_addr \<Rightarrow> bool" where
  "sample_contains n ip \<longleftrightarrow> net_addr n = ip"

theorem untrusted_peer_cannot_choose_client_ip_witness:
  "ca_client_ip (resolve_client_address sample_contains [(''x-forwarded-for'', ''10.0.0.1'')] sample_server
     \<lparr> cpa_socket_peer_addr = (V4 9, 1), cpa_proxy_protocol_source_addr = None,
       cpa_tls_client_identity = None, cpa_tls_version = None, cpa_tls_alpn = None,
       cpa_early_data = False \<rparr>) = V4 9"
proof -
  let ?c = "\<lparr> cpa_socket_peer_addr = (V4 9, 1), cpa_proxy_protocol_source_addr = None,
       cpa_tls_client_identity = None, cpa_tls_version = None, cpa_tls_alpn = None,
       cpa_early_data = False \<rparr>"
  have "\<not> is_trusted_proxy sample_contains sample_server (sock_ip (V4 9, 1))"
    by (simp add: is_trusted_proxy_def sample_contains_def sample_server_def sock_ip_def)
  moreover have "accept_peer_addrs sample_contains sample_server False (V4 9, 1) [] = Inr (?c, [])"
    by (simp add: accept_peer_addrs_def)
  ultimately show ?thesis
    using untrusted_peer_cannot_choose_client_ip [of sample_contains sample_server "(V4 9, 1)" False "[]" ?c]
    by (simp add: sock_ip_def)
qed

text \<open>The choice from the chain: its rightmost entry that is not a trusted proxy.\<close>

lemma find_rev_rightmost:
  "\<not> P x \<Longrightarrow> (\<And>y. y \<in> set post \<Longrightarrow> P y) \<Longrightarrow>
     find (\<lambda>y. \<not> P y) (rev (pre @ x # post) @ rest) = Some x"
proof -
  assume x: "\<not> P x" and post: "\<And>y. y \<in> set post \<Longrightarrow> P y"
  have "\<forall>y \<in> set zs. P y \<Longrightarrow> find (\<lambda>y. \<not> P y) (zs @ ws) = find (\<lambda>y. \<not> P y) ws" for zs ws
    by (induction zs) auto
  from this [of "rev post"] x post show ?thesis by simp
qed

lemma find_rev_none:
  "(\<And>y. y \<in> set chain \<Longrightarrow> P y) \<Longrightarrow>
     find (\<lambda>y. \<not> P y) (rev chain @ [z]) = (if P z then None else Some z)"
proof -
  assume "\<And>y. y \<in> set chain \<Longrightarrow> P y"
  moreover have "\<forall>y \<in> set zs. P y \<Longrightarrow> find (\<lambda>y. \<not> P y) (zs @ ws) = find (\<lambda>y. \<not> P y) ws" for zs ws
    by (induction zs) auto
  ultimately show ?thesis by simp
qed



text \<open>
  Where a trusted peer announces an untrusted source by the PROXY protocol, the
  chain that this source wrote is still examined before the source itself: any
  address it puts into X-Forwarded-For becomes the client address.
\<close>

theorem proxy_source_chooses_client_ip:
  assumes "is_trusted_proxy cidr_contains server (sock_ip (cpa_socket_peer_addr conn))"
    and "srv_client_ip_header server = None"
    and "cpa_proxy_protocol_source_addr conn = Some source"
    and "\<not> is_trusted_proxy cidr_contains server (sock_ip source)"
    and "\<not> is_trusted_proxy cidr_contains server (V4 w)"
  shows "ca_client_ip (resolve_client_address cidr_contains
      [(''x-forwarded-for'', show_ip (V4 w))] server conn) = V4 w"
  using assms find_rev_rightmost [of "is_trusted_proxy cidr_contains server" "V4 w" "[]" "[]"]
    parse_x_forwarded_for_show [of w "[]"]
  by (simp add: resolve_client_address_def select_client_ip_with_immediate_peer_def Let_def)

end
