(* ===== verification/Rate_Limit.thy ===== *)
theory Rate_Limit
  imports Complex_Main Core_Config
begin

text \<open>
  The per-client request limiter: the token buckets of
  \<open>crates/rginx-http/src/rate_limit/local.rs\<close> (sharded, with periodic eviction
  of full buckets) and of \<open>rate_limit/shared/bucket.rs\<close> (one document for all
  workers).

  The source keeps tokens as \<open>f64\<close>; the model keeps them as exact rationals,
  so rounding is not modelled.  Time is a number of ticks, nanoseconds of the
  monotonic clock for the local buckets and milliseconds since the epoch for
  the shared ones; the natural subtraction is \<open>duration_since\<close> and
  \<open>saturating_sub\<close>.  The \<open>u32\<close> addition in \<open>bucket_capacity\<close> wraps as in a
  release build.  \<open>DefaultHasher\<close>, whose algorithm is unspecified, is the
  argument \<open>hash\<close>.

  The locale \<open>bucket_contract\<close> is what both bucket types promise, and the
  invisibility of eviction is proved once from it.
\<close>

type_synonym instant = nat

section \<open>Local buckets\<close>

record bucket_key =
  bk_route :: string
  bk_client_ip :: ip_addr

record token_bucket =
  tb_policy :: route_rate_limit
  tb_tokens :: rat
  tb_last_refill :: instant

definition bucket_capacity :: "route_rate_limit \<Rightarrow> rat" where
  "bucket_capacity policy = of_nat ((rl_burst policy + 1) mod 2 ^ 32)"

definition as_secs :: "nat \<Rightarrow> rat" where
  "as_secs d = of_nat d / 1000000000"

definition tb_new :: "route_rate_limit \<Rightarrow> instant \<Rightarrow> token_bucket" where
  "tb_new policy now = \<lparr> tb_policy = policy, tb_tokens = bucket_capacity policy, tb_last_refill = now \<rparr>"

definition tb_refill :: "token_bucket \<Rightarrow> instant \<Rightarrow> token_bucket" where
  "tb_refill b now =
     (let replenished = tb_tokens b
            + as_secs (now - tb_last_refill b) * of_nat (rl_requests_per_sec (tb_policy b))
      in b\<lparr> tb_tokens := min replenished (bucket_capacity (tb_policy b)), tb_last_refill := now \<rparr>)"

definition tb_reconfigure :: "token_bucket \<Rightarrow> route_rate_limit \<Rightarrow> instant \<Rightarrow> token_bucket" where
  "tb_reconfigure b policy now =
     (if tb_policy b = policy then b
      else let b' = tb_refill b now
           in b'\<lparr> tb_tokens := min (tb_tokens b') (bucket_capacity policy), tb_policy := policy \<rparr>)"

definition tb_try_acquire :: "token_bucket \<Rightarrow> route_rate_limit \<Rightarrow> instant \<Rightarrow> bool \<times> token_bucket" where
  "tb_try_acquire b policy now =
     (let b' = tb_refill (tb_reconfigure b policy now) now
      in if tb_tokens b' < 1 then (False, b')
         else (True, b'\<lparr> tb_tokens := tb_tokens b' - 1 \<rparr>))"

definition tb_is_evictable :: "token_bucket \<Rightarrow> instant \<Rightarrow> bool \<times> token_bucket" where
  "tb_is_evictable b now =
     (let b' = tb_refill b now in (bucket_capacity (tb_policy b') \<le> tb_tokens b', b'))"

section \<open>Shared buckets\<close>

record shared_token_bucket =
  sb_requests_per_sec :: nat
  sb_burst :: nat
  sb_tokens :: rat
  sb_last_refill_unix_ms :: nat
  sb_last_seen_unix_ms :: nat

definition sb_policy :: "shared_token_bucket \<Rightarrow> route_rate_limit" where
  "sb_policy b = \<lparr> rl_requests_per_sec = sb_requests_per_sec b, rl_burst = sb_burst b \<rparr>"

definition sb_new :: "route_rate_limit \<Rightarrow> nat \<Rightarrow> shared_token_bucket" where
  "sb_new policy now =
     \<lparr> sb_requests_per_sec = rl_requests_per_sec policy, sb_burst = rl_burst policy,
       sb_tokens = bucket_capacity policy, sb_last_refill_unix_ms = now, sb_last_seen_unix_ms = now \<rparr>"

definition sb_refill :: "shared_token_bucket \<Rightarrow> nat \<Rightarrow> shared_token_bucket" where
  "sb_refill b now =
     (let elapsed_ms = now - sb_last_refill_unix_ms b;
          replenished = sb_tokens b + (of_nat elapsed_ms / 1000) * of_nat (sb_requests_per_sec b)
      in b\<lparr> sb_tokens := min replenished (bucket_capacity (sb_policy b)),
           sb_last_refill_unix_ms := now \<rparr>)"

definition sb_reconfigure :: "shared_token_bucket \<Rightarrow> route_rate_limit \<Rightarrow> nat \<Rightarrow> shared_token_bucket" where
  "sb_reconfigure b policy now =
     (if sb_requests_per_sec b = rl_requests_per_sec policy \<and> sb_burst b = rl_burst policy then b
      else let b' = sb_refill b now
           in b'\<lparr> sb_tokens := min (sb_tokens b') (bucket_capacity policy),
                 sb_requests_per_sec := rl_requests_per_sec policy, sb_burst := rl_burst policy \<rparr>)"

definition sb_try_acquire ::
    "shared_token_bucket \<Rightarrow> route_rate_limit \<Rightarrow> nat \<Rightarrow> bool \<times> shared_token_bucket" where
  "sb_try_acquire b policy now =
     (let b' = (sb_refill (sb_reconfigure b policy now) now)\<lparr> sb_last_seen_unix_ms := now \<rparr>
      in if sb_tokens b' < 1 then (False, b')
         else (True, b'\<lparr> sb_tokens := sb_tokens b' - 1 \<rparr>))"

definition sb_is_evictable :: "shared_token_bucket \<Rightarrow> nat \<Rightarrow> bool \<times> shared_token_bucket" where
  "sb_is_evictable b now =
     (let b' = sb_refill b now in (bucket_capacity (sb_policy b') \<le> sb_tokens b', b'))"

section \<open>The local limiter\<close>

record shard_state =
  sh_buckets :: "bucket_key \<Rightarrow> token_bucket option"
  sh_next_cleanup_at :: instant

record local_rate_limiters =
  lim_shard_mask :: "64 word"
  lim_cleanup_interval :: duration
  lim_shards :: "shard_state list"

text \<open>\<open>HashMap::retain\<close> with a closure that may change the entry it keeps.\<close>

definition map_retain :: "('b \<Rightarrow> bool \<times> 'b) \<Rightarrow> ('k \<Rightarrow> 'b option) \<Rightarrow> 'k \<Rightarrow> 'b option" where
  "map_retain evict m k =
     (case m k of None \<Rightarrow> None
      | Some b \<Rightarrow> (case evict b of (e, b') \<Rightarrow> if e then None else Some b'))"

definition maybe_cleanup_buckets :: "shard_state \<Rightarrow> instant \<Rightarrow> duration \<Rightarrow> shard_state" where
  "maybe_cleanup_buckets st now cleanup_interval =
     (if now < sh_next_cleanup_at st then st
      else \<lparr> sh_buckets = map_retain (\<lambda>b. tb_is_evictable b now) (sh_buckets st),
             sh_next_cleanup_at = now + cleanup_interval \<rparr>)"

function next_power_of_two_from :: "nat \<Rightarrow> nat \<Rightarrow> nat" where
  "next_power_of_two_from p n = (if n \<le> p \<or> p = 0 then p else next_power_of_two_from (2 * p) n)"
  by pat_completeness auto
termination by (relation "measure (\<lambda>(p, n). n - p)") auto

declare next_power_of_two_from.simps [simp del]

definition next_power_of_two :: "nat \<Rightarrow> nat" where
  "next_power_of_two n = next_power_of_two_from 1 n"

definition shard_new :: "instant \<Rightarrow> shard_state" where
  "shard_new next_cleanup_at = \<lparr> sh_buckets = (\<lambda>_. None), sh_next_cleanup_at = next_cleanup_at \<rparr>"

definition limiters_with_config :: "nat \<Rightarrow> duration \<Rightarrow> instant \<Rightarrow> local_rate_limiters" where
  "limiters_with_config shard_count0 cleanup_interval now =
     (let shard_count = next_power_of_two (max shard_count0 1)
      in \<lparr> lim_shard_mask = of_nat (shard_count - 1), lim_cleanup_interval = cleanup_interval,
           lim_shards = replicate shard_count (shard_new (now + cleanup_interval)) \<rparr>)"

definition default_shard_count :: "nat option \<Rightarrow> nat" where
  "default_shard_count parallelism =
     min 64 (max 4 (case parallelism of Some n \<Rightarrow> next_power_of_two n | None \<Rightarrow> 4))"

definition default_limiters :: "nat option \<Rightarrow> instant \<Rightarrow> local_rate_limiters" where
  "default_limiters parallelism now =
     limiters_with_config (default_shard_count parallelism) (from_secs 30) now"

definition shard_index ::
    "(string \<Rightarrow> ip_addr \<Rightarrow> 64 word) \<Rightarrow> local_rate_limiters \<Rightarrow> string \<Rightarrow> ip_addr \<Rightarrow> nat" where
  "shard_index hash lims route client_ip = unat (and (hash route client_ip) (lim_shard_mask lims))"

definition lim_check_at ::
    "(string \<Rightarrow> ip_addr \<Rightarrow> 64 word) \<Rightarrow> local_rate_limiters \<Rightarrow> string \<Rightarrow> ip_addr \<Rightarrow>
     route_rate_limit \<Rightarrow> instant \<Rightarrow> bool \<times> local_rate_limiters" where
  "lim_check_at hash lims route client_ip policy now =
     (let i = shard_index hash lims route client_ip;
          st = maybe_cleanup_buckets (lim_shards lims ! i) now (lim_cleanup_interval lims);
          key = \<lparr> bk_route = route, bk_client_ip = client_ip \<rparr>;
          bucket = (case sh_buckets st key of Some b \<Rightarrow> b | None \<Rightarrow> tb_new policy now)
      in case tb_try_acquire bucket policy now of
           (allowed, bucket') \<Rightarrow>
             (allowed, lims\<lparr> lim_shards := (lim_shards lims)
                [i := st\<lparr> sh_buckets := (sh_buckets st)(key \<mapsto> bucket') \<rparr>] \<rparr>))"

section \<open>The contract of a bucket\<close>

text \<open>
  The fill level of a bucket at a later time: what the tokens become when the
  rate per tick is added up to the capacity.
\<close>

definition fill :: "rat \<Rightarrow> rat \<Rightarrow> rat \<Rightarrow> instant \<Rightarrow> instant \<Rightarrow> rat" where
  "fill cap rate tokens since t = min (tokens + rate * of_nat (t - since)) cap"

lemma fill_le: "fill cap rate tokens since t \<le> cap"
  by (simp add: fill_def)

lemma fill_fill:
  assumes "0 \<le> rate" and "since \<le> now" and "now \<le> t"
  shows "fill cap rate (fill cap rate tokens since now) now t = fill cap rate tokens since t"
proof -
  have "(of_nat (t - since) :: rat) = of_nat (now - since) + of_nat (t - now)"
    using assms by (simp add: of_nat_diff)
  then have "rate * of_nat (t - since) = rate * of_nat (now - since) + rate * of_nat (t - now)"
    by (simp add: distrib_left)
  moreover have "0 \<le> rate * of_nat (t - now)" using assms(1) by simp
  ultimately show ?thesis by (simp add: fill_def min_def)
qed

lemma fill_mono:
  assumes "0 \<le> rate" and "t \<le> t'"
  shows "fill cap rate tokens since t \<le> fill cap rate tokens since t'"
proof -
  have "(of_nat (t - since) :: rat) \<le> of_nat (t' - since)" using assms(2) by simp
  then have "rate * of_nat (t - since) \<le> rate * of_nat (t' - since)"
    using assms(1) by (simp add: mult_left_mono)
  then show ?thesis by (simp add: fill_def min_def)
qed

lemma fill_full: "0 \<le> rate \<Longrightarrow> fill cap rate cap since t = cap"
  unfolding fill_def by (intro min.absorb2) (simp add: mult_nonneg_nonneg)

lemma fill_now: "tokens \<le> cap \<Longrightarrow> fill cap rate tokens now now = tokens"
  by (simp add: fill_def)

lemma fill_grow:
  assumes "0 \<le> rate" and "now \<le> t"
  shows "fill cap rate tokens since t \<le> fill cap rate tokens since now + rate * of_nat (t - now)"
proof -
  have "(of_nat (t - since) :: rat) \<le> of_nat (now - since + (t - now))"
    using assms(2) by (simp only: of_nat_le_iff)
  then have "rate * of_nat (t - since) \<le> rate * of_nat (now - since + (t - now))"
    using assms(1) by (rule mult_left_mono)
  moreover have "0 \<le> rate * of_nat (t - now)" using assms(1) by simp
  ultimately show ?thesis unfolding fill_def by (simp only: of_nat_add distrib_left min_def split: if_split) linarith
qed

locale bucket_contract =
  fixes new :: "route_rate_limit \<Rightarrow> instant \<Rightarrow> 'b"
    and acquire :: "'b \<Rightarrow> route_rate_limit \<Rightarrow> instant \<Rightarrow> bool \<times> 'b"
    and evictable :: "'b \<Rightarrow> instant \<Rightarrow> bool \<times> 'b"
    and policy_of :: "'b \<Rightarrow> route_rate_limit"
    and tokens :: "'b \<Rightarrow> rat"
    and last_refill :: "'b \<Rightarrow> instant"
    and tick :: rat
  assumes tick_pos: "0 \<le> tick"
    and new_policy: "policy_of (new p t) = p"
    and new_tokens: "tokens (new p t) = bucket_capacity p"
    and new_last: "last_refill (new p t) = t"
    and acquire_law: "policy_of b = p \<Longrightarrow>
      (let lv = fill (bucket_capacity p) (tick * of_nat (rl_requests_per_sec p)) (tokens b) (last_refill b) now
       in fst (acquire b p now) = (1 \<le> lv) \<and> policy_of (snd (acquire b p now)) = p \<and>
          last_refill (snd (acquire b p now)) = now \<and>
          tokens (snd (acquire b p now)) = (if 1 \<le> lv then lv - 1 else lv))"
    and evictable_law:
      "(let p = policy_of b;
            lv = fill (bucket_capacity p) (tick * of_nat (rl_requests_per_sec p)) (tokens b) (last_refill b) now
       in fst (evictable b now) = (bucket_capacity p \<le> lv) \<and> policy_of (snd (evictable b now)) = p \<and>
          last_refill (snd (evictable b now)) = now \<and> tokens (snd (evictable b now)) = lv)"
begin

definition rate :: "route_rate_limit \<Rightarrow> rat" where
  "rate p = tick * of_nat (rl_requests_per_sec p)"

lemma rate_nonneg: "0 \<le> rate p"
  using tick_pos by (simp add: rate_def)

text \<open>The level of a store's entry, an absent entry being a full bucket.\<close>

definition level :: "('k \<Rightarrow> route_rate_limit) \<Rightarrow> ('k \<Rightarrow> 'b option) \<Rightarrow> 'k \<Rightarrow> instant \<Rightarrow> rat" where
  "level pol s k t =
     (case s k of None \<Rightarrow> bucket_capacity (pol k)
      | Some b \<Rightarrow> fill (bucket_capacity (pol k)) (rate (pol k)) (tokens b) (last_refill b) t)"

definition wf :: "('k \<Rightarrow> route_rate_limit) \<Rightarrow> ('k \<Rightarrow> 'b option) \<Rightarrow> instant \<Rightarrow> bool" where
  "wf pol s now \<longleftrightarrow> (\<forall>k b. s k = Some b \<longrightarrow> policy_of b = pol k \<and> last_refill b \<le> now)"

lemma wf_mono: "wf pol s now \<Longrightarrow> now \<le> now' \<Longrightarrow> wf pol s now'"
  by (fastforce simp: wf_def)

text \<open>Eviction, of the keys that a predicate selects.\<close>

definition evict :: "('k \<Rightarrow> bool) \<Rightarrow> ('k \<Rightarrow> 'b option) \<Rightarrow> instant \<Rightarrow> 'k \<Rightarrow> 'b option" where
  "evict P s now k = (if P k then map_retain (\<lambda>b. evictable b now) s k else s k)"

lemma evictable_fill:
  "policy_of b = p \<Longrightarrow>
     evictable b now = (bucket_capacity p \<le> fill (bucket_capacity p) (rate p) (tokens b) (last_refill b) now,
       snd (evictable b now)) \<and>
     tokens (snd (evictable b now)) = fill (bucket_capacity p) (rate p) (tokens b) (last_refill b) now \<and>
     last_refill (snd (evictable b now)) = now \<and> policy_of (snd (evictable b now)) = p"
  using evictable_law [of b now] by (auto simp: Let_def rate_def prod_eq_iff)

lemma level_evict:
  assumes "wf pol s now" and "now \<le> t"
  shows "level pol (evict P s now) k t = level pol s k t"
proof (cases "s k")
  case (Some b)
  let ?c = "bucket_capacity (pol k)" and ?r = "rate (pol k)"
  let ?lv = "fill ?c ?r (tokens b) (last_refill b) now"
  have b: "policy_of b = pol k" "last_refill b \<le> now" using assms(1) Some by (auto simp: wf_def)
  have eq: "fill ?c ?r ?lv now t = fill ?c ?r (tokens b) (last_refill b) t"
    using b(2) assms(2) rate_nonneg by (intro fill_fill)
  have full: "fill ?c ?r (tokens b) (last_refill b) t = ?c" if "?c \<le> ?lv"
    using that fill_mono [OF rate_nonneg assms(2), of ?c "pol k" "tokens b" "last_refill b"]
      fill_le [of ?c ?r "tokens b" "last_refill b" t] by linarith
  show ?thesis
    using evictable_fill [OF b(1), of now] Some eq full
    by (cases "evictable b now") (auto simp: level_def evict_def map_retain_def)
qed (simp add: level_def evict_def map_retain_def)

lemma wf_evict: "wf pol s now \<Longrightarrow> wf pol (evict P s now) now"
  unfolding wf_def
proof (intro allI impI)
  fix k b
  assume all: "\<forall>k b. s k = Some b \<longrightarrow> policy_of b = pol k \<and> last_refill b \<le> now"
    and b: "evict P s now k = Some b"
  show "policy_of b = pol k \<and> last_refill b \<le> now"
  proof (cases "P k")
    case True
    with b obtain b0 where "s k = Some b0" "b = snd (evictable b0 now)"
      by (auto simp: evict_def map_retain_def split: option.splits prod.splits if_splits)
    with all evictable_fill [of b0 "pol k" now] show ?thesis by auto
  next
    case False
    with b all show ?thesis by (auto simp: evict_def)
  qed
qed

text \<open>One request on the store after an eviction.\<close>

definition check :: "('k \<Rightarrow> bool) \<Rightarrow> ('k \<Rightarrow> 'b option) \<Rightarrow> 'k \<Rightarrow> route_rate_limit \<Rightarrow> instant \<Rightarrow>
    bool \<times> ('k \<Rightarrow> 'b option)" where
  "check P s k p now =
     (let s1 = evict P s now;
          b = (case s1 k of Some b \<Rightarrow> b | None \<Rightarrow> new p now)
      in (fst (acquire b p now), s1(k \<mapsto> snd (acquire b p now))))"

lemma check_level:
  assumes "wf pol s now" and "p = pol k"
  shows "fst (check P s k p now) = (1 \<le> level pol s k now)"
    and "wf pol (snd (check P s k p now)) now"
    and "now \<le> t \<Longrightarrow> level pol (snd (check P s k p now)) k' t =
      (if k' = k then fill (bucket_capacity p) (rate p)
         (if 1 \<le> level pol s k now then level pol s k now - 1 else level pol s k now) now t
       else level pol s k' t)"
proof -
  let ?s1 = "evict P s now"
  let ?b = "case ?s1 k of Some b \<Rightarrow> b | None \<Rightarrow> new p now"
  have wf1: "wf pol ?s1 now" using assms(1) by (rule wf_evict)
  have pol: "policy_of ?b = p"
    using wf1 assms(2) new_policy by (auto simp: wf_def split: option.splits)
  have lv: "fill (bucket_capacity p) (rate p) (tokens ?b) (last_refill ?b) now = level pol s k now"
    unfolding level_evict [OF assms(1) order_refl, of P k, symmetric]
    by (auto simp: level_def assms(2) new_tokens new_last fill_def split: option.splits)
  note law = acquire_law [OF pol, of now, unfolded Let_def, folded rate_def, unfolded lv]
  show "fst (check P s k p now) = (1 \<le> level pol s k now)"
    using law by (simp add: check_def Let_def)
  show "wf pol (snd (check P s k p now)) now"
    using wf1 law assms(2) by (auto simp: check_def Let_def wf_def)
  show "level pol (snd (check P s k p now)) k' t =
      (if k' = k then fill (bucket_capacity p) (rate p)
         (if 1 \<le> level pol s k now then level pol s k now - 1 else level pol s k now) now t
       else level pol s k' t)" if "now \<le> t"
    using law assms(2) level_evict [OF assms(1) that, of P k']
    by (auto simp: check_def Let_def level_def)
qed

end

interpretation local_bucket: bucket_contract tb_new tb_try_acquire tb_is_evictable
  tb_policy tb_tokens tb_last_refill "1 / 1000000000"
  by unfold_locales
    (auto simp: tb_new_def tb_try_acquire_def tb_is_evictable_def tb_refill_def tb_reconfigure_def
      fill_def as_secs_def Let_def mult.commute min_less_iff_disj)

interpretation shared_bucket: bucket_contract sb_new sb_try_acquire sb_is_evictable
  sb_policy sb_tokens sb_last_refill_unix_ms "1 / 1000"
proof
  fix b :: shared_token_bucket and p :: route_rate_limit and now t :: instant
  show "sb_policy (sb_new p t) = p" by (simp add: sb_policy_def sb_new_def)
  show "let p = sb_policy b;
            lv = fill (bucket_capacity p) (1 / 1000 * of_nat (rl_requests_per_sec p)) (sb_tokens b)
                   (sb_last_refill_unix_ms b) now
        in fst (sb_is_evictable b now) = (bucket_capacity p \<le> lv) \<and>
           sb_policy (snd (sb_is_evictable b now)) = p \<and>
           sb_last_refill_unix_ms (snd (sb_is_evictable b now)) = now \<and>
           sb_tokens (snd (sb_is_evictable b now)) = lv"
    by (simp add: sb_is_evictable_def sb_refill_def fill_def sb_policy_def Let_def mult.commute)
  assume "sb_policy b = p"
  then have same: "sb_reconfigure b p now = b"
    by (auto simp: sb_reconfigure_def sb_policy_def)
  from \<open>sb_policy b = p\<close> show "let lv = fill (bucket_capacity p)
            (1 / 1000 * of_nat (rl_requests_per_sec p)) (sb_tokens b) (sb_last_refill_unix_ms b) now
        in fst (sb_try_acquire b p now) = (1 \<le> lv) \<and> sb_policy (snd (sb_try_acquire b p now)) = p \<and>
           sb_last_refill_unix_ms (snd (sb_try_acquire b p now)) = now \<and>
           sb_tokens (snd (sb_try_acquire b p now)) = (if 1 \<le> lv then lv - 1 else lv)"
    by (auto simp: sb_try_acquire_def same sb_refill_def fill_def sb_policy_def Let_def mult.commute)
qed (simp_all add: sb_new_def)

section \<open>The abstract limiter\<close>

text \<open>
  The specification: one bucket per route and client, all full at the start,
  no shards and no eviction.  A request is an event with its time; the policy
  is the one of its route.
\<close>

record rate_event =
  ev_route :: string
  ev_client_ip :: ip_addr
  ev_at :: instant

definition ev_key :: "rate_event \<Rightarrow> bucket_key" where
  "ev_key e = \<lparr> bk_route = ev_route e, bk_client_ip = ev_client_ip e \<rparr>"

type_synonym spec_buckets = "bucket_key \<Rightarrow> rat \<times> instant"

definition policy_rate :: "route_rate_limit \<Rightarrow> rat" where
  "policy_rate p = of_nat (rl_requests_per_sec p) / 1000000000"

definition spec_level :: "(string \<Rightarrow> route_rate_limit) \<Rightarrow> spec_buckets \<Rightarrow> bucket_key \<Rightarrow> instant \<Rightarrow> rat" where
  "spec_level pol \<sigma> k t =
     fill (bucket_capacity (pol (bk_route k))) (policy_rate (pol (bk_route k))) (fst (\<sigma> k)) (snd (\<sigma> k)) t"

definition spec_check ::
    "(string \<Rightarrow> route_rate_limit) \<Rightarrow> spec_buckets \<Rightarrow> rate_event \<Rightarrow> bool \<times> spec_buckets" where
  "spec_check pol \<sigma> e =
     (let lv = spec_level pol \<sigma> (ev_key e) (ev_at e)
      in (1 \<le> lv, \<sigma>(ev_key e := (if 1 \<le> lv then lv - 1 else lv, ev_at e))))"

fun spec_run :: "(string \<Rightarrow> route_rate_limit) \<Rightarrow> spec_buckets \<Rightarrow> rate_event list \<Rightarrow> bool list" where
  "spec_run pol \<sigma> [] = []"
| "spec_run pol \<sigma> (e # es) = fst (spec_check pol \<sigma> e) # spec_run pol (snd (spec_check pol \<sigma> e)) es"

definition spec_start :: "(string \<Rightarrow> route_rate_limit) \<Rightarrow> instant \<Rightarrow> spec_buckets" where
  "spec_start pol now k = (bucket_capacity (pol (bk_route k)), now)"

fun lim_run ::
    "(string \<Rightarrow> ip_addr \<Rightarrow> 64 word) \<Rightarrow> (string \<Rightarrow> route_rate_limit) \<Rightarrow> local_rate_limiters \<Rightarrow>
     rate_event list \<Rightarrow> bool list" where
  "lim_run hash pol lims [] = []"
| "lim_run hash pol lims (e # es) =
     (case lim_check_at hash lims (ev_route e) (ev_client_ip e) (pol (ev_route e)) (ev_at e) of
        (allowed, lims') \<Rightarrow> allowed # lim_run hash pol lims' es)"

text \<open>Events in time order, from a given time on.\<close>

fun in_order :: "instant \<Rightarrow> rate_event list \<Rightarrow> bool" where
  "in_order t [] = True"
| "in_order t (e # es) = (t \<le> ev_at e \<and> in_order (ev_at e) es)"

section \<open>Sharding\<close>

definition lim_ok :: "local_rate_limiters \<Rightarrow> bool" where
  "lim_ok lims \<longleftrightarrow> 0 < length (lim_shards lims) \<and> length (lim_shards lims) \<le> 2 ^ 64 \<and>
     lim_shard_mask lims = of_nat (length (lim_shards lims) - 1)"

definition key_shard :: "(string \<Rightarrow> ip_addr \<Rightarrow> 64 word) \<Rightarrow> local_rate_limiters \<Rightarrow> bucket_key \<Rightarrow> nat" where
  "key_shard hash lims k = shard_index hash lims (bk_route k) (bk_client_ip k)"

definition lim_lookup ::
    "(string \<Rightarrow> ip_addr \<Rightarrow> 64 word) \<Rightarrow> local_rate_limiters \<Rightarrow> bucket_key \<Rightarrow> token_bucket option" where
  "lim_lookup hash lims k = sh_buckets (lim_shards lims ! key_shard hash lims k) k"

lemma shard_index_bound:
  assumes "lim_ok lims"
  shows "shard_index hash lims route ip < length (lim_shards lims)"
proof -
  have "unat (and (hash route ip) (lim_shard_mask lims)) \<le> unat (lim_shard_mask lims)"
    using word_and_le1 [of "hash route ip" "lim_shard_mask lims"] by (simp add: word_le_nat_alt)
  also have "\<dots> \<le> length (lim_shards lims) - 1"
    using assms by (simp add: lim_ok_def unat_of_nat)
  finally have "shard_index hash lims route ip \<le> length (lim_shards lims) - 1"
    by (simp add: shard_index_def)
  moreover have "0 < length (lim_shards lims)" using assms by (simp add: lim_ok_def)
  ultimately show ?thesis by linarith
qed

lemma key_shard_update [simp]:
  "key_shard hash (lims\<lparr> lim_shards := ss \<rparr>) k = key_shard hash lims k"
  by (simp add: key_shard_def shard_index_def)

text \<open>A request on the sharded table is a request on the whole table.\<close>

lemma lim_check_at_lookup:
  fixes route :: string and ip :: ip_addr and lims :: local_rate_limiters and now :: instant
    and hash :: "string \<Rightarrow> ip_addr \<Rightarrow> 64 word"
  assumes "lim_ok lims"
  defines "k \<equiv> \<lparr> bk_route = route, bk_client_ip = ip \<rparr>"
  defines "due \<equiv> \<lambda>k'. key_shard hash lims k' = key_shard hash lims k \<and>
      sh_next_cleanup_at (lim_shards lims ! key_shard hash lims k) \<le> now"
  shows "fst (lim_check_at hash lims route ip p now)
      = fst (local_bucket.check due (lim_lookup hash lims) k p now)"
    and "lim_lookup hash (snd (lim_check_at hash lims route ip p now))
      = snd (local_bucket.check due (lim_lookup hash lims) k p now)"
    and "lim_ok (snd (lim_check_at hash lims route ip p now))"
proof -
  let ?i = "shard_index hash lims route ip"
  let ?st = "maybe_cleanup_buckets (lim_shards lims ! ?i) now (lim_cleanup_interval lims)"
  have i: "?i < length (lim_shards lims)" "key_shard hash lims k = ?i"
    using shard_index_bound [OF assms(1)] by (simp_all add: key_shard_def k_def)
  have ev: "sh_buckets ?st k' = local_bucket.evict due (lim_lookup hash lims) now k'"
    if "key_shard hash lims k' = ?i" for k'
    using that by (auto simp: maybe_cleanup_buckets_def local_bucket.evict_def due_def i(2)
        map_retain_def lim_lookup_def not_less)
  have other: "local_bucket.evict due (lim_lookup hash lims) now k' = lim_lookup hash lims k'"
    if "key_shard hash lims k' \<noteq> ?i" for k'
    using that by (simp add: local_bucket.evict_def due_def i(2))
  show "fst (lim_check_at hash lims route ip p now)
      = fst (local_bucket.check due (lim_lookup hash lims) k p now)"
    using ev [OF i(2)]
    by (simp add: lim_check_at_def local_bucket.check_def k_def [symmetric] Let_def split: prod.splits)
  show "lim_lookup hash (snd (lim_check_at hash lims route ip p now))
      = snd (local_bucket.check due (lim_lookup hash lims) k p now)"
  proof
    fix k'
    show "lim_lookup hash (snd (lim_check_at hash lims route ip p now)) k'
      = snd (local_bucket.check due (lim_lookup hash lims) k p now) k'"
      using ev [OF i(2)] ev [of k'] other [of k'] i
      by (cases "key_shard hash lims k' = ?i")
        (auto simp: lim_check_at_def local_bucket.check_def k_def [symmetric] Let_def
          lim_lookup_def [of _ "_\<lparr> lim_shards := _ \<rparr>"] lim_lookup_def [of hash lims k']
          split: prod.splits)
  qed
  show "lim_ok (snd (lim_check_at hash lims route ip p now))"
    using assms(1) by (simp add: lim_ok_def lim_check_at_def Let_def split: prod.splits)
qed

lemma next_power_of_two_from_ge: "0 < p \<Longrightarrow> n \<le> next_power_of_two_from p n \<and> 0 < next_power_of_two_from p n"
proof (induction p n rule: next_power_of_two_from.induct)
  case (1 p n)
  then show ?case by (cases "n \<le> p") (auto simp: next_power_of_two_from.simps [of p n])
qed

lemma next_power_of_two_from_le:
  "j \<le> m \<Longrightarrow> n \<le> 2 ^ m \<Longrightarrow> next_power_of_two_from (2 ^ j) n \<le> 2 ^ m"
proof (induction "m - j" arbitrary: j)
  case 0
  then show ?case by (simp add: next_power_of_two_from.simps [of "2 ^ j" n])
next
  case (Suc d)
  then have "next_power_of_two_from (2 ^ Suc j) n \<le> 2 ^ m" by (intro Suc.hyps(1)) simp_all
  with Suc.prems show ?case
    by (simp add: next_power_of_two_from.simps [of "2 ^ j" n])
qed

lemma limiters_with_config_ok:
  assumes "n \<le> 2 ^ 64"
  shows "lim_ok (limiters_with_config n interval now)"
proof -
  let ?c = "next_power_of_two (max n 1)"
  have "0 < ?c" using next_power_of_two_from_ge [of 1] by (simp add: next_power_of_two_def)
  moreover have "?c \<le> 2 ^ 64"
    using next_power_of_two_from_le [of 0 64 "max n 1"] assms by (simp add: next_power_of_two_def)
  ultimately show ?thesis by (simp add: lim_ok_def limiters_with_config_def Let_def)
qed

lemma lookup_with_config:
  assumes "n \<le> 2 ^ 64"
  shows "lim_lookup hash (limiters_with_config n interval now) = (\<lambda>_. None)"
proof
  fix k
  let ?l = "limiters_with_config n interval now"
  have "key_shard hash ?l k < length (lim_shards ?l)"
    using shard_index_bound [OF limiters_with_config_ok [OF assms]] by (simp add: key_shard_def)
  moreover have "lim_shards ?l ! i = shard_new (now + interval)" if "i < length (lim_shards ?l)" for i
    using that by (simp add: limiters_with_config_def Let_def)
  ultimately show "lim_lookup hash ?l k = None" by (simp add: lim_lookup_def shard_new_def)
qed

section \<open>Refinement\<close>

abbreviation key_policy :: "(string \<Rightarrow> route_rate_limit) \<Rightarrow> bucket_key \<Rightarrow> route_rate_limit" where
  "key_policy pol \<equiv> \<lambda>k. pol (bk_route k)"

definition lim_refines ::
    "(string \<Rightarrow> ip_addr \<Rightarrow> 64 word) \<Rightarrow> (string \<Rightarrow> route_rate_limit) \<Rightarrow> instant \<Rightarrow>
     local_rate_limiters \<Rightarrow> spec_buckets \<Rightarrow> bool" where
  "lim_refines hash pol now lims \<sigma> \<longleftrightarrow>
     lim_ok lims \<and> local_bucket.wf (key_policy pol) (lim_lookup hash lims) now \<and>
     (\<forall>k t. now \<le> t \<longrightarrow> local_bucket.level (key_policy pol) (lim_lookup hash lims) k t = spec_level pol \<sigma> k t)"

lemma local_rate: "local_bucket.rate p = policy_rate p"
  by (simp add: local_bucket.rate_def policy_rate_def)

lemma policy_rate_nonneg: "0 \<le> policy_rate p"
  by (simp add: policy_rate_def)

lemma lim_check_at_refines:
  assumes R: "lim_refines hash pol now lims \<sigma>" and "now \<le> ev_at e"
  shows "fst (lim_check_at hash lims (ev_route e) (ev_client_ip e) (pol (ev_route e)) (ev_at e))
      = fst (spec_check pol \<sigma> e)"
    and "lim_refines hash pol (ev_at e)
      (snd (lim_check_at hash lims (ev_route e) (ev_client_ip e) (pol (ev_route e)) (ev_at e)))
      (snd (spec_check pol \<sigma> e))"
proof -
  let ?t = "ev_at e" and ?s = "lim_lookup hash lims" and ?p = "pol (ev_route e)" and ?k = "ev_key e"
  from R have ok: "lim_ok lims" and wf: "local_bucket.wf (key_policy pol) ?s now"
    and lv: "\<And>k t. now \<le> t \<Longrightarrow> local_bucket.level (key_policy pol) ?s k t = spec_level pol \<sigma> k t"
    by (auto simp: lim_refines_def)
  have wf': "local_bucket.wf (key_policy pol) ?s ?t" using wf assms(2) by (rule local_bucket.wf_mono)
  have pk: "?p = key_policy pol ?k" by (simp add: ev_key_def)
  note step = lim_check_at_lookup [OF ok, of hash "ev_route e" "ev_client_ip e" ?p ?t, folded ev_key_def]
  note lvl = local_bucket.check_level [OF wf' pk]
  show "fst (lim_check_at hash lims (ev_route e) (ev_client_ip e) ?p ?t) = fst (spec_check pol \<sigma> e)"
    unfolding step(1) lvl(1) using lv [OF assms(2), of ?k] by (simp add: spec_check_def Let_def)
  show "lim_refines hash pol ?t (snd (lim_check_at hash lims (ev_route e) (ev_client_ip e) ?p ?t))
      (snd (spec_check pol \<sigma> e))"
    unfolding lim_refines_def step(2)
  proof (intro conjI allI impI)
    fix k t assume "?t \<le> t"
    then show "local_bucket.level (key_policy pol) (snd (local_bucket.check
        (\<lambda>k'. key_shard hash lims k' = key_shard hash lims ?k \<and>
           sh_next_cleanup_at (lim_shards lims ! key_shard hash lims ?k) \<le> ?t) ?s ?k ?p ?t)) k t
      = spec_level pol (snd (spec_check pol \<sigma> e)) k t"
      unfolding lvl(3) [OF \<open>?t \<le> t\<close>] lv [OF assms(2)] local_rate
      using lv [of t k] assms(2) by (auto simp: spec_check_def Let_def spec_level_def pk)
  qed (use step(3) lvl(2) in auto)
qed

lemma lim_run_refines:
  "lim_refines hash pol now lims \<sigma> \<Longrightarrow> in_order now es \<Longrightarrow>
     lim_run hash pol lims es = spec_run pol \<sigma> es"
proof (induction es arbitrary: now lims \<sigma>)
  case (Cons e es)
  then have "now \<le> ev_at e" "in_order (ev_at e) es" by auto
  with Cons.IH [OF lim_check_at_refines(2)] Cons.prems(1) lim_check_at_refines(1)
  show ?case by (auto split: prod.splits) (metis fst_conv snd_conv)+
qed simp

lemma lim_refines_start:
  assumes "n \<le> 2 ^ 64"
  shows "lim_refines hash pol now (limiters_with_config n interval now) (spec_start pol now)"
proof -
  show ?thesis
    using limiters_with_config_ok [OF assms]
    by (simp add: lim_refines_def lookup_with_config [OF assms] local_bucket.wf_def
        local_bucket.level_def spec_level_def spec_start_def fill_full policy_rate_nonneg)
qed

section \<open>What the abstract limiter guarantees\<close>

definition admitted :: "bucket_key \<Rightarrow> rate_event list \<Rightarrow> bool list \<Rightarrow> nat" where
  "admitted k es outs = length (filter (\<lambda>(e, ok). ev_key e = k \<and> ok) (zip es outs))"

lemma admitted_Nil [simp]: "admitted k [] outs = 0"
  by (simp add: admitted_def)

lemma admitted_Cons [simp]:
  "admitted k (e # es) (ok # outs) = (if ev_key e = k \<and> ok then 1 else 0) + admitted k es outs"
  by (simp add: admitted_def)

lemma spec_level_check:
  "spec_level pol (snd (spec_check pol \<sigma> e)) k (ev_at e) =
     spec_level pol \<sigma> k (ev_at e) - (if k = ev_key e \<and> fst (spec_check pol \<sigma> e) then 1 else 0)"
proof -
  have "spec_level pol \<sigma> k (ev_at e) \<le> bucket_capacity (pol (bk_route k))"
    by (simp add: spec_level_def fill_le)
  then show ?thesis
    by (auto simp: spec_check_def Let_def spec_level_def [of pol "_(_ := _)"] fill_now)
       (simp_all add: spec_level_def)
qed

lemma spec_level_grow:
  "now \<le> t \<Longrightarrow> spec_level pol \<sigma> k t \<le> spec_level pol \<sigma> k now + policy_rate (pol (bk_route k)) * of_nat (t - now)"
  unfolding spec_level_def by (rule fill_grow [OF policy_rate_nonneg])

lemma spec_run_admitted:
  "in_order now es \<Longrightarrow> list_all (\<lambda>e. ev_at e \<le> T) es \<Longrightarrow> now \<le> T \<Longrightarrow> 0 \<le> spec_level pol \<sigma> k now \<Longrightarrow>
     of_nat (admitted k es (spec_run pol \<sigma> es))
       \<le> spec_level pol \<sigma> k now + policy_rate (pol (bk_route k)) * of_nat (T - now)"
proof (induction es arbitrary: now \<sigma>)
  case Nil
  then show ?case using policy_rate_nonneg by simp
next
  case (Cons e es)
  let ?r = "policy_rate (pol (bk_route k))" and ?\<sigma> = "snd (spec_check pol \<sigma> e)" and ?t = "ev_at e"
  have t: "now \<le> ?t" "?t \<le> T" "in_order ?t es" "list_all (\<lambda>e. ev_at e \<le> T) es"
    using Cons.prems by auto
  have mono: "spec_level pol \<sigma> k now \<le> spec_level pol \<sigma> k ?t"
    unfolding spec_level_def using policy_rate_nonneg t(1) by (rule fill_mono)
  note lvl = spec_level_check [of pol \<sigma> e k]
  have nonneg: "0 \<le> spec_level pol ?\<sigma> k ?t"
    using mono Cons.prems(4) unfolding lvl by (auto simp: spec_check_def Let_def)
  have "(of_nat (T - now) :: rat) = of_nat (?t - now) + of_nat (T - ?t)"
    using t by (simp add: of_nat_diff)
  then have "?r * of_nat (T - now) = ?r * of_nat (?t - now) + ?r * of_nat (T - ?t)"
    by (simp only: distrib_left)
  with Cons.IH [OF t(3,4,2) nonneg] spec_level_grow [OF t(1), of pol \<sigma> k]
  show ?case unfolding lvl by (auto split: if_splits)
qed

fun spec_after :: "(string \<Rightarrow> route_rate_limit) \<Rightarrow> spec_buckets \<Rightarrow> rate_event list \<Rightarrow> spec_buckets" where
  "spec_after pol \<sigma> [] = \<sigma>"
| "spec_after pol \<sigma> (e # es) = spec_after pol (snd (spec_check pol \<sigma> e)) es"

lemma spec_run_append: "spec_run pol \<sigma> (es @ fs) = spec_run pol \<sigma> es @ spec_run pol (spec_after pol \<sigma> es) fs"
  by (induction es arbitrary: \<sigma>) auto

lemma length_spec_run [simp]: "length (spec_run pol \<sigma> es) = length es"
  by (induction es arbitrary: \<sigma>) auto

definition spec_nonneg :: "(string \<Rightarrow> route_rate_limit) \<Rightarrow> spec_buckets \<Rightarrow> bool" where
  "spec_nonneg pol \<sigma> \<longleftrightarrow> (\<forall>k. 0 \<le> fst (\<sigma> k))"

lemma capacity_nonneg: "0 \<le> bucket_capacity p"
  by (simp add: bucket_capacity_def)

lemma spec_level_nonneg: "spec_nonneg pol \<sigma> \<Longrightarrow> 0 \<le> spec_level pol \<sigma> k t"
  by (simp add: spec_nonneg_def spec_level_def fill_def capacity_nonneg policy_rate_nonneg)

lemma spec_nonneg_check: "spec_nonneg pol \<sigma> \<Longrightarrow> spec_nonneg pol (snd (spec_check pol \<sigma> e))"
  using spec_level_nonneg [of pol \<sigma>] by (auto simp: spec_nonneg_def spec_check_def Let_def)

lemma spec_nonneg_after: "spec_nonneg pol \<sigma> \<Longrightarrow> spec_nonneg pol (spec_after pol \<sigma> es)"
  by (induction es arbitrary: \<sigma>) (auto simp: spec_nonneg_check)

lemma spec_nonneg_start: "spec_nonneg pol (spec_start pol now)"
  by (simp add: spec_nonneg_def spec_start_def capacity_nonneg)

lemma in_order_append: "in_order t (es @ fs) \<Longrightarrow> in_order t es"
  by (induction es arbitrary: t) auto

lemma in_order_mono: "t' \<le> t \<Longrightarrow> in_order t es \<Longrightarrow> in_order t' es"
  by (cases es) auto

lemma in_order_filter: "in_order t es \<Longrightarrow> in_order t (filter P es)"
  by (induction es arbitrary: t) (auto intro: in_order_mono)

lemma spec_run_isolated:
  "\<sigma> k = \<tau> k \<Longrightarrow>
     map snd (filter (\<lambda>(e, _). ev_key e = k) (zip es (spec_run pol \<sigma> es)))
       = spec_run pol \<tau> (filter (\<lambda>e. ev_key e = k) es)"
proof (induction es arbitrary: \<sigma> \<tau>)
  case (Cons e es)
  show ?case
  proof (cases "ev_key e = k")
    case True
    have "spec_level pol \<sigma> k t = spec_level pol \<tau> k t" for t
      using Cons.prems by (simp add: spec_level_def)
    then have "fst (spec_check pol \<sigma> e) = fst (spec_check pol \<tau> e)"
      "snd (spec_check pol \<sigma> e) k = snd (spec_check pol \<tau> e) k"
      using True by (auto simp: spec_check_def Let_def)
    with True Cons.IH [of "snd (spec_check pol \<sigma> e)" "snd (spec_check pol \<tau> e)"] show ?thesis by simp
  next
    case False
    then have "snd (spec_check pol \<sigma> e) k = \<tau> k"
      using Cons.prems by (simp add: spec_check_def Let_def)
    with False Cons.IH show ?thesis by simp
  qed
qed simp

lemma policy_rate_one: "1000000000 \<le> rl_requests_per_sec p * d \<Longrightarrow> 1 \<le> policy_rate p * of_nat d"
proof -
  assume "1000000000 \<le> rl_requests_per_sec p * d"
  then have "(1000000000 :: rat) \<le> of_nat (rl_requests_per_sec p * d)"
    by (metis of_nat_le_iff of_nat_numeral)
  then show ?thesis by (simp add: policy_rate_def)
qed

text \<open>The last time a key was touched.\<close>

lemma spec_after_touch:
  "snd (spec_after pol \<sigma> es k) = snd (\<sigma> k) \<and> fst (spec_after pol \<sigma> es k) = fst (\<sigma> k) \<or>
     (\<exists>e \<in> set es. ev_key e = k \<and> snd (spec_after pol \<sigma> es k) = ev_at e)"
proof (induction es arbitrary: \<sigma>)
  case (Cons e es)
  let ?\<sigma> = "snd (spec_check pol \<sigma> e)"
  have "?\<sigma> k = \<sigma> k \<or> ev_key e = k \<and> snd (?\<sigma> k) = ev_at e"
    by (auto simp: spec_check_def Let_def)
  with Cons [of ?\<sigma>] show ?case by (metis list.set_intros spec_after.simps(2))
qed simp

section \<open>Properties\<close>




definition sample_policy :: "string \<Rightarrow> route_rate_limit" where
  "sample_policy _ = \<lparr> rl_requests_per_sec = 2, rl_burst = 1 \<rparr>"

definition sample_event :: "ip_addr \<Rightarrow> instant \<Rightarrow> rate_event" where
  "sample_event ip t = \<lparr> ev_route = ''r'', ev_client_ip = ip, ev_at = t \<rparr>"


text \<open>Clients are isolated: what a client is answered on a route depends on its own requests
  there alone, whatever other clients send and whatever shard they share.\<close>

theorem local_limiter_isolates_clients:
  assumes "shard_count \<le> 2 ^ 64" and "in_order now es"
  shows "map snd (filter (\<lambda>(e, _). ev_key e = k)
       (zip es (lim_run hash pol (limiters_with_config shard_count interval now) es)))
     = lim_run hash pol (limiters_with_config shard_count interval now) (filter (\<lambda>e. ev_key e = k) es)"
  unfolding lim_run_refines [OF lim_refines_start [OF assms(1)] assms(2)]
    lim_run_refines [OF lim_refines_start [OF assms(1)] in_order_filter [OF assms(2)]]
  by (rule spec_run_isolated) simp

theorem local_limiter_isolates_clients_witness:
  "map snd (filter (\<lambda>(e, _). ev_key e = ev_key (sample_event (V4 1) 5))
       (zip [sample_event (V4 2) 1, sample_event (V4 1) 5]
         (lim_run (\<lambda>_ _. 5) sample_policy (limiters_with_config 3 7 0)
            [sample_event (V4 2) 1, sample_event (V4 1) 5])))
     = lim_run (\<lambda>_ _. 5) sample_policy (limiters_with_config 3 7 0)
         (filter (\<lambda>e. ev_key e = ev_key (sample_event (V4 1) 5))
            [sample_event (V4 2) 1, sample_event (V4 1) 5])"
  by (rule local_limiter_isolates_clients) (simp_all add: sample_event_def)



text \<open>
  With the largest burst a configuration can state, the capacity wraps to zero
  and the bucket of a new client refuses every request, the first one too.
\<close>

theorem full_burst_denies_everything:
  "\<not> fst (tb_try_acquire (tb_new \<lparr> rl_requests_per_sec = r, rl_burst = u32_max \<rparr> now)
        \<lparr> rl_requests_per_sec = r, rl_burst = u32_max \<rparr> later)"
  by (simp add: tb_try_acquire_def tb_new_def tb_reconfigure_def tb_refill_def bucket_capacity_def
      u32_max_def Let_def)

text \<open>
  A shared bucket follows the wall clock: when the clock is set back, the next
  request moves the refill time back with it, and the time that passes until
  the clock has caught up is credited a second time.
\<close>

theorem shared_refill_credits_time_twice:
  "sb_tokens (sb_refill (sb_refill (sb_refill
      ((sb_new \<lparr> rl_requests_per_sec = 1, rl_burst = 9 \<rparr> 10000)\<lparr> sb_tokens := 0 \<rparr>) 15000) 10000) 15000) = 10"
  by (simp add: sb_refill_def sb_new_def sb_policy_def bucket_capacity_def Let_def)

end
