(* ===== verification/Shared_Memory.thy ===== *)
theory Shared_Memory
  imports Net_Addr
begin

text \<open>
  POSIX shared memory segments as
  \<open>crates/rginx-http/src/cache/shared/memory.rs\<close> uses them: a header that
  identifies the zone and its geometry, and a payload of bytes.  The operating
  system's name space of segments is a map from names to objects; \<open>shm_open\<close>
  fails only for a missing name, and mapping a segment does not fail.  The clock
  behind \<open>current_store_epoch\<close> is an argument.
\<close>

unbundle bit_operations_syntax

definition SHM_MAGIC :: nat where "SHM_MAGIC = 0x4d4853584e494752"
definition SHM_ABI_VERSION :: nat where "SHM_ABI_VERSION = 1"
definition DEFAULT_HASH_BUCKET_COUNT :: nat where "DEFAULT_HASH_BUCKET_COUNT = 1024"
definition DEFAULT_OPERATION_RING_CAPACITY :: nat where "DEFAULT_OPERATION_RING_CAPACITY = 4096"
definition SHM_NAME_PREFIX :: string where "SHM_NAME_PREFIX = ''/rginx-cache-''"

record shared_memory_header =
  shm_magic :: nat
  shm_abi_version :: nat
  shm_header_len :: nat
  shm_zone_name_hash :: nat
  shm_capacity_bytes :: nat
  shm_generation :: nat
  shm_store_epoch :: nat
  shm_operation_seq :: nat
  shm_entry_count :: nat
  shm_current_size_bytes :: nat
  shm_hash_bucket_count :: nat
  shm_operation_ring_capacity :: nat
  shm_allocator_free_head :: nat
  shm_flags :: nat

text \<open>\<open>size_of::<SharedMemoryHeader>()\<close>: twelve \<open>u64\<close> fields and two \<open>u32\<close> fields.\<close>

definition header_size :: nat where "header_size = 12 * 8 + 2 * 4"

record segment_config =
  sc_name :: string
  sc_zone_name_hash :: nat
  sc_capacity_bytes :: nat
  sc_hash_bucket_count :: nat
  sc_operation_ring_capacity :: nat
  sc_flags :: nat

text \<open>The 64-bit FNV-1a hash.\<close>

definition stable_hash :: "string \<Rightarrow> 64 word" where
  "stable_hash bytes =
     foldl (\<lambda>hash byte. (hash XOR of_nat (of_char byte)) * 0x100000001b3) 0xcbf29ce484222325 bytes"

definition show_hex16 :: "nat \<Rightarrow> string" where
  "show_hex16 n = (let h = show_hex n in replicate (16 - length h) (CHR ''0'') @ h)"

definition segment_config_new :: "string \<Rightarrow> nat \<Rightarrow> nat \<Rightarrow> segment_config" where
  "segment_config_new name zone_name_hash capacity_bytes =
     \<lparr> sc_name = name, sc_zone_name_hash = zone_name_hash, sc_capacity_bytes = capacity_bytes,
       sc_hash_bucket_count = DEFAULT_HASH_BUCKET_COUNT,
       sc_operation_ring_capacity = DEFAULT_OPERATION_RING_CAPACITY, sc_flags = 0 \<rparr>"

definition segment_config_for_identity :: "string \<Rightarrow> nat \<Rightarrow> segment_config" where
  "segment_config_for_identity identity capacity_bytes =
     (let h = unat (stable_hash identity)
      in segment_config_new (SHM_NAME_PREFIX @ show_hex16 h) h capacity_bytes)"

definition segment_config_for_zone :: "string \<Rightarrow> nat \<Rightarrow> segment_config" where
  "segment_config_for_zone zone_name capacity_bytes =
     (let h = unat (stable_hash zone_name)
      in segment_config_new (SHM_NAME_PREFIX @ show_hex16 h) h capacity_bytes)"

definition with_hash_bucket_count :: "segment_config \<Rightarrow> nat \<Rightarrow> segment_config" where
  "with_hash_bucket_count cfg n = cfg\<lparr> sc_hash_bucket_count := n \<rparr>"

definition with_operation_ring_capacity :: "segment_config \<Rightarrow> nat \<Rightarrow> segment_config" where
  "with_operation_ring_capacity cfg n = cfg\<lparr> sc_operation_ring_capacity := n \<rparr>"

definition shm_name :: "segment_config \<Rightarrow> io_error + string" where
  "shm_name cfg =
     (if \<not> str_starts_with (sc_name cfg) ''/'' then Inl IoInvalidInput
      else if CHR 0x00 \<in> set (sc_name cfg) then Inl IoInvalidInput
      else Inr (sc_name cfg))"

definition validate_capacity :: "segment_config \<Rightarrow> io_error + unit" where
  "validate_capacity cfg =
     (if sc_capacity_bytes cfg < header_size then Inl IoInvalidInput
      else if 2 ^ 63 \<le> sc_capacity_bytes cfg then Inl IoInvalidInput
      else Inr ())"

definition initial_header :: "segment_config \<Rightarrow> nat \<Rightarrow> shared_memory_header" where
  "initial_header cfg store_epoch =
     \<lparr> shm_magic = SHM_MAGIC, shm_abi_version = SHM_ABI_VERSION, shm_header_len = header_size,
       shm_zone_name_hash = sc_zone_name_hash cfg, shm_capacity_bytes = sc_capacity_bytes cfg,
       shm_generation = 1, shm_store_epoch = store_epoch, shm_operation_seq = 0,
       shm_entry_count = 0, shm_current_size_bytes = 0,
       shm_hash_bucket_count = sc_hash_bucket_count cfg,
       shm_operation_ring_capacity = sc_operation_ring_capacity cfg,
       shm_allocator_free_head = 0, shm_flags = sc_flags cfg \<rparr>"

definition current_store_epoch :: "nat \<Rightarrow> nat" where
  "current_store_epoch unix_nanos = max (min unix_nanos u64_max) 1"

text \<open>An object of the name space: its size, its header and the bytes after the header.\<close>

record shm_object =
  so_size :: nat
  so_header :: shared_memory_header
  so_payload :: string

type_synonym shm_space = "string \<Rightarrow> shm_object option"

text \<open>A mapped segment, by the name of the object it maps.\<close>

record segment =
  seg_name :: string
  seg_capacity_bytes :: nat

definition create_or_reset ::
    "segment_config \<Rightarrow> nat \<Rightarrow> shm_space \<Rightarrow> (io_error + segment) \<times> shm_space" where
  "create_or_reset cfg unix_nanos space =
     (case bind_res (validate_capacity cfg) (\<lambda>_. shm_name cfg) of
        Inl e \<Rightarrow> (Inl e, space)
      | Inr name \<Rightarrow>
          (Inr \<lparr> seg_name = name, seg_capacity_bytes = sc_capacity_bytes cfg \<rparr>,
           space(name \<mapsto>
             \<lparr> so_size = sc_capacity_bytes cfg,
               so_header = initial_header cfg (current_store_epoch unix_nanos),
               so_payload = replicate (sc_capacity_bytes cfg - header_size) (CHR 0x00) \<rparr>)))"

definition validate_header :: "shared_memory_header \<Rightarrow> segment_config \<Rightarrow> io_error + unit" where
  "validate_header h cfg =
     (if shm_magic h \<noteq> SHM_MAGIC then Inl IoInvalidData
      else if shm_abi_version h \<noteq> SHM_ABI_VERSION then Inl IoInvalidData
      else if shm_header_len h \<noteq> header_size then Inl IoInvalidData
      else if shm_zone_name_hash h \<noteq> sc_zone_name_hash cfg then Inl IoInvalidData
      else if shm_capacity_bytes h \<noteq> sc_capacity_bytes cfg then Inl IoInvalidData
      else if shm_hash_bucket_count h \<noteq> sc_hash_bucket_count cfg then Inl IoInvalidData
      else if shm_operation_ring_capacity h \<noteq> sc_operation_ring_capacity cfg then Inl IoInvalidData
      else if shm_flags h \<noteq> sc_flags cfg then Inl IoInvalidData
      else Inr ())"

definition attach :: "segment_config \<Rightarrow> shm_space \<Rightarrow> io_error + segment" where
  "attach cfg space =
     bind_res (validate_capacity cfg) (\<lambda>_.
     bind_res (shm_name cfg) (\<lambda>name.
       case space name of
         None \<Rightarrow> Inl IoNotFound
       | Some obj \<Rightarrow>
           if so_size obj \<noteq> sc_capacity_bytes cfg then Inl IoInvalidData
           else bind_res (validate_header (so_header obj) cfg) (\<lambda>_.
             Inr \<lparr> seg_name = name, seg_capacity_bytes = sc_capacity_bytes cfg \<rparr>)))"

definition unlink :: "segment_config \<Rightarrow> shm_space \<Rightarrow> (io_error + unit) \<times> shm_space" where
  "unlink cfg space =
     (case shm_name cfg of
        Inl e \<Rightarrow> (Inl e, space)
      | Inr name \<Rightarrow> (Inr (), space(name := None)))"

definition payload_capacity :: "segment \<Rightarrow> nat" where
  "payload_capacity seg = seg_capacity_bytes seg - header_size"

definition validate_payload_range :: "segment \<Rightarrow> nat \<Rightarrow> nat \<Rightarrow> io_error + unit" where
  "validate_payload_range seg off len =
     (if u64_max < off + len then Inl IoInvalidInput
      else if payload_capacity seg < off + len then Inl IoInvalidInput
      else Inr ())"

definition payload_of :: "shm_space \<Rightarrow> segment \<Rightarrow> string" where
  "payload_of space seg = (case space (seg_name seg) of None \<Rightarrow> [] | Some obj \<Rightarrow> so_payload obj)"

definition read_payload :: "shm_space \<Rightarrow> segment \<Rightarrow> nat \<Rightarrow> nat \<Rightarrow> io_error + string" where
  "read_payload space seg off len =
     bind_res (validate_payload_range seg off len) (\<lambda>_.
       Inr (take len (drop off (payload_of space seg))))"

definition write_payload ::
    "shm_space \<Rightarrow> segment \<Rightarrow> nat \<Rightarrow> string \<Rightarrow> (io_error + unit) \<times> shm_space" where
  "write_payload space seg off bytes =
     (case validate_payload_range seg off (length bytes) of
        Inl e \<Rightarrow> (Inl e, space)
      | Inr _ \<Rightarrow>
          (Inr (), space(seg_name seg := map_option
             (\<lambda>obj. obj\<lparr> so_payload := take off (so_payload obj) @ bytes @
                          drop (off + length bytes) (so_payload obj) \<rparr>)
             (space (seg_name seg)))))"

definition header :: "shm_space \<Rightarrow> segment \<Rightarrow> shared_memory_header option" where
  "header space seg = map_option so_header (space (seg_name seg))"

definition write_header :: "shm_space \<Rightarrow> segment \<Rightarrow> shared_memory_header \<Rightarrow> shm_space" where
  "write_header space seg h =
     space(seg_name seg := map_option (\<lambda>obj. obj\<lparr> so_header := h \<rparr>) (space (seg_name seg)))"

section \<open>Segments that are mapped\<close>

text \<open>A segment is mapped when its object is there with the size the segment expects.\<close>

definition mapped :: "shm_space \<Rightarrow> segment \<Rightarrow> bool" where
  "mapped space seg \<longleftrightarrow> seg_capacity_bytes seg < 2 ^ 63 \<and>
     (\<exists>obj. space (seg_name seg) = Some obj \<and> length (so_payload obj) = payload_capacity seg)"

lemma validate_payload_range_Inr:
  "mapped space seg \<Longrightarrow> validate_payload_range seg off len = Inr () \<longleftrightarrow> off + len \<le> payload_capacity seg"
  by (auto simp: validate_payload_range_def mapped_def payload_capacity_def u64_max_def)

lemma length_payload_of: "mapped space seg \<Longrightarrow> length (payload_of space seg) = payload_capacity seg"
  by (auto simp: mapped_def payload_of_def)

lemma write_payload_ok:
  assumes "mapped space seg" and "off + length bytes \<le> payload_capacity seg"
  obtains space' where "write_payload space seg off bytes = (Inr (), space')" "mapped space' seg"
    "payload_of space' seg = take off (payload_of space seg) @ bytes @ drop (off + length bytes) (payload_of space seg)"
    "\<forall>n. n \<noteq> seg_name seg \<longrightarrow> space' n = space n"
    "header space' seg = header space seg"
proof -
  from assms(1) obtain obj where obj: "space (seg_name seg) = Some obj"
    "length (so_payload obj) = payload_capacity seg" "seg_capacity_bytes seg < 2 ^ 63"
    by (auto simp: mapped_def)
  have "validate_payload_range seg off (length bytes) = Inr ()"
    using assms by (simp add: validate_payload_range_Inr)
  with obj assms(2) that show thesis
    by (simp add: write_payload_def mapped_def payload_of_def header_def)
qed

lemma write_payload_err:
  assumes "mapped space seg" and "payload_capacity seg < off + length bytes"
  shows "write_payload space seg off bytes = (Inl IoInvalidInput, space)"
proof -
  have "validate_payload_range seg off (length bytes) = Inl IoInvalidInput"
    using assms(2) by (simp add: validate_payload_range_def)
  then show ?thesis by (simp add: write_payload_def)
qed

lemma create_attach:
  assumes "create_or_reset cfg t space = (Inr seg, space')"
  shows "attach cfg space' = Inr seg \<and> mapped space' seg \<and> seg_capacity_bytes seg = sc_capacity_bytes cfg"
proof -
  from assms have ok: "validate_capacity cfg = Inr ()" and name: "shm_name cfg = Inr (seg_name seg)"
    and seg: "seg = \<lparr> seg_name = seg_name seg, seg_capacity_bytes = sc_capacity_bytes cfg \<rparr>"
    by (auto simp: create_or_reset_def bind_res_def split: sum.splits)
  from ok have cap: "header_size \<le> sc_capacity_bytes cfg" "sc_capacity_bytes cfg < 2 ^ 63"
    by (auto simp: validate_capacity_def split: if_splits)
  from assms ok name have space': "space' (seg_name seg) = Some
      \<lparr> so_size = sc_capacity_bytes cfg, so_header = initial_header cfg (current_store_epoch t),
        so_payload = replicate (sc_capacity_bytes cfg - header_size) (CHR 0x00) \<rparr>"
    by (auto simp: create_or_reset_def)
  have "validate_header (initial_header cfg (current_store_epoch t)) cfg = Inr ()"
    by (simp add: validate_header_def initial_header_def)
  with ok name space' seg cap show ?thesis
    by (simp add: attach_def mapped_def payload_capacity_def) (metis segment.select_convs(2))
qed

lemma attach_write_payload: "attach cfg (snd (write_payload space seg off bytes)) = attach cfg space"
proof -
  let ?s = "snd (write_payload space seg off bytes)"
  have same: "map_option so_size (?s n) = map_option so_size (space n)"
    "map_option so_header (?s n) = map_option so_header (space n)" for n
    by (auto simp: write_payload_def option.map_comp comp_def split: sum.splits)
  have "attach cfg space' =
     bind_res (validate_capacity cfg) (\<lambda>_. bind_res (shm_name cfg) (\<lambda>name.
       case map_option so_size (space' name) of None \<Rightarrow> Inl IoNotFound
       | Some sz \<Rightarrow> if sz \<noteq> sc_capacity_bytes cfg then Inl IoInvalidData
           else bind_res (validate_header (the (map_option so_header (space' name))) cfg) (\<lambda>_.
             Inr \<lparr> seg_name = name, seg_capacity_bytes = sc_capacity_bytes cfg \<rparr>)))" for space'
    unfolding attach_def by (rule arg_cong2 [of _ _ _ _ bind_res], simp, rule ext,
        rule arg_cong2 [of _ _ _ _ bind_res], simp, rule ext) (simp split: option.split)
  then show ?thesis by (simp only: same)
qed

lemma read_write_payload:
  assumes "mapped space seg" and "off + length bytes \<le> payload_capacity seg"
    and "payload_of space' seg = take off (payload_of space seg) @ bytes @ drop (off + length bytes) (payload_of space seg)"
    and "mapped space' seg"
  shows "read_payload space' seg off (length bytes) = Inr bytes"
proof -
  have "validate_payload_range seg off (length bytes) = Inr ()"
    using assms(2,4) by (simp add: validate_payload_range_Inr)
  with assms(2,3) length_payload_of [OF assms(1)] show ?thesis by (simp add: read_payload_def)
qed

section \<open>Length-prefixed payloads\<close>

text \<open>\<open>u64::to_le_bytes\<close> and \<open>u64::from_le_bytes\<close>.\<close>

fun to_le :: "nat \<Rightarrow> nat \<Rightarrow> string" where
  "to_le 0 n = []"
| "to_le (Suc k) n = char_of (n mod 256) # to_le k (n div 256)"

fun from_le :: "string \<Rightarrow> nat" where
  "from_le [] = 0"
| "from_le (c # cs) = of_char c + 256 * from_le cs"

lemma length_to_le [simp]: "length (to_le k n) = k"
  by (induction k arbitrary: n) auto

lemma from_le_to_le: "n < 256 ^ k \<Longrightarrow> from_le (to_le k n) = n"
proof (induction k arbitrary: n)
  case (Suc k)
  then have "n div 256 < 256 ^ k" by (simp add: div_less_iff_less_mult mult.commute)
  with Suc.IH show ?case by (simp add: mult.commute)
qed simp

text \<open>Both shared documents are framed alike: eight bytes of length, then the text.\<close>

lemma write_framed_ok:
  assumes "mapped space seg" and "length bytes + 8 \<le> payload_capacity seg"
  obtains s1 s2 where "write_payload space seg 0 (to_le 8 (length bytes)) = (Inr (), s1)"
    "write_payload s1 seg 8 bytes = (Inr (), s2)" "mapped s2 seg"
    "read_payload s2 seg 0 8 = Inr (to_le 8 (length bytes))" "read_payload s2 seg 8 (length bytes) = Inr bytes"
    "from_le (to_le 8 (length bytes)) = length bytes" "length bytes \<le> u64_max"
    "\<And>cfg. attach cfg s2 = attach cfg space" "header s2 seg = header space seg"
proof -
  have cap: "payload_capacity seg < 2 ^ 63" using assms(1) by (auto simp: mapped_def payload_capacity_def)
  have len: "length bytes < 256 ^ 8" "length bytes \<le> u64_max" using cap assms(2) by (simp_all add: u64_max_def)
  let ?h = "to_le 8 (length bytes)"
  have "0 + length ?h \<le> payload_capacity seg" using assms(2) by simp
  then obtain s1 where w1: "write_payload space seg 0 ?h = (Inr (), s1)" "mapped s1 seg"
    and p1: "payload_of s1 seg = ?h @ drop 8 (payload_of space seg)" and h1: "header s1 seg = header space seg"
    using write_payload_ok [OF assms(1), of 0 ?h] by (metis add_0 append_Nil length_to_le take0)
  obtain s2 where w2: "write_payload s1 seg 8 bytes = (Inr (), s2)" "mapped s2 seg"
    and p2: "payload_of s2 seg = ?h @ bytes @ drop (8 + length bytes) (payload_of s1 seg)" and h2: "header s2 seg = header s1 seg"
    using write_payload_ok [OF w1(2), of 8 bytes] assms(2) p1
    by (metis add.commute append_eq_conv_conj length_to_le)
  have r: "read_payload s2 seg 0 8 = Inr ?h" "read_payload s2 seg 8 (length bytes) = Inr bytes"
    using assms(2) validate_payload_range_Inr [OF w2(2)] by (auto simp: read_payload_def p2 bind_res_Inr)
  have "attach cfg s2 = attach cfg space" for cfg
    using attach_write_payload [of cfg space seg 0 ?h] attach_write_payload [of cfg s1 seg 8 bytes] w1(1) w2(1) by simp
  with that [OF w1(1) w2 r from_le_to_le [OF len(1)] len(2)] h1 h2 show thesis by simp
qed

section \<open>Properties\<close>

text \<open>A created segment can be attached with the configuration that created it, and what is
  written to its payload within the capacity is read back there, the other bytes unchanged.\<close>

theorem segment_payload_round_trip:
  assumes "create_or_reset cfg t space = (Inr seg, space1)"
    and "off + length bytes \<le> sc_capacity_bytes cfg - header_size"
  shows "attach cfg space1 = Inr seg \<and>
     (\<exists>space2. write_payload space1 seg off bytes = (Inr (), space2) \<and>
        attach cfg space2 = Inr seg \<and>
        read_payload space2 seg off (length bytes) = Inr bytes \<and>
        (\<forall>i. i < off \<or> off + length bytes \<le> i \<longrightarrow> payload_of space2 seg ! i = payload_of space1 seg ! i))"
proof -
  have seg: "attach cfg space1 = Inr seg" "mapped space1 seg" "off + length bytes \<le> payload_capacity seg"
    using create_attach [OF assms(1)] assms(2) by (simp_all add: payload_capacity_def)
  obtain space2 where w: "write_payload space1 seg off bytes = (Inr (), space2)" "mapped space2 seg"
    and p: "payload_of space2 seg =
      take off (payload_of space1 seg) @ bytes @ drop (off + length bytes) (payload_of space1 seg)"
    using write_payload_ok [OF seg(2,3)] by metis
  have "attach cfg space2 = Inr seg"
    using attach_write_payload [of cfg space1 seg off bytes] w(1) seg(1) by simp
  moreover have "read_payload space2 seg off (length bytes) = Inr bytes"
    using read_write_payload [OF seg(2,3) p w(2)] .
  moreover have "payload_of space2 seg ! i = payload_of space1 seg ! i"
    if "i < off \<or> off + length bytes \<le> i" for i
    unfolding p using that seg(3) length_payload_of [OF seg(2)] by (auto simp: nth_append)
  ultimately show ?thesis using seg(1) w(1) by blast
qed

definition sample_segment_config :: segment_config where
  "sample_segment_config = segment_config_new ''/rginx-cache-1'' 1 256"

theorem segment_payload_round_trip_witness:
  "\<exists>seg space1 space2. create_or_reset sample_segment_config 7 (\<lambda>_. None) = (Inr seg, space1) \<and>
     write_payload space1 seg 8 ''abc'' = (Inr (), space2) \<and> read_payload space2 seg 8 (length ''abc'') = Inr ''abc''"
proof -
  obtain seg space1 where c: "create_or_reset sample_segment_config 7 (\<lambda>_. None) = (Inr seg, space1)"
    by (simp add: create_or_reset_def validate_capacity_def shm_name_def header_size_def
        sample_segment_config_def segment_config_new_def str_starts_with_def)
  have "8 + length ''abc'' \<le> sc_capacity_bytes sample_segment_config - header_size"
    by (simp add: sample_segment_config_def segment_config_new_def header_size_def)
  from segment_payload_round_trip [OF c this] c show ?thesis by blast
qed

end
