(* ===== verification/Rate_Limit_Shared.thy ===== *)
theory Rate_Limit_Shared
  imports Rate_Limit Shared_Memory
begin

text \<open>
  The limiter that all workers share
  (\<open>crates/rginx-http/src/rate_limit/shared/mod.rs\<close>, \<open>shared/document.rs\<close>, the
  cleanup of \<open>shared/bucket.rs\<close>, and the front \<open>rate_limit/mod.rs\<close>): a JSON
  document of buckets in a shared memory segment, read and written whole under
  a file lock for every request.

  The JSON encoder and decoder of \<open>serde_json\<close> are the arguments \<open>enc\<close> and
  \<open>dec\<close>, the outcome of taking the file lock is the argument \<open>lock\<close>; the lock is
  held for the whole of \<open>check_at\<close>, so a request is one step on the name space
  of segments.
\<close>

definition DOCUMENT_LEN_BYTES :: nat where "DOCUMENT_LEN_BYTES = 8"
definition DOCUMENT_VERSION :: nat where "DOCUMENT_VERSION = 1"
definition CLEANUP_INTERVAL_MS :: nat where "CLEANUP_INTERVAL_MS = 30000"

record rate_document =
  doc_version :: nat
  doc_next_cleanup_unix_ms :: nat
  doc_buckets :: "string \<Rightarrow> shared_token_bucket option"

definition default_document :: rate_document where
  "default_document = \<lparr> doc_version = DOCUMENT_VERSION, doc_next_cleanup_unix_ms = 0, doc_buckets = (\<lambda>_. None) \<rparr>"

type_synonym doc_encoder = "rate_document \<Rightarrow> string option"
type_synonym doc_decoder = "string \<Rightarrow> rate_document option"

definition read_document :: "doc_decoder \<Rightarrow> shm_space \<Rightarrow> segment \<Rightarrow> io_error + rate_document" where
  "read_document dec space seg =
     (if payload_capacity seg < DOCUMENT_LEN_BYTES then Inl IoInvalidData
      else bind_res (read_payload space seg 0 DOCUMENT_LEN_BYTES) (\<lambda>len_bytes.
        let len = from_le len_bytes
        in if len = 0 then Inr default_document
           else if payload_capacity seg - DOCUMENT_LEN_BYTES < len then Inl IoInvalidData
           else bind_res (read_payload space seg DOCUMENT_LEN_BYTES len) (\<lambda>bytes.
             case dec bytes of None \<Rightarrow> Inl IoInvalidData
             | Some document \<Rightarrow>
                 if doc_version document \<noteq> DOCUMENT_VERSION then Inl IoInvalidData
                 else Inr document)))"

definition write_document ::
    "doc_encoder \<Rightarrow> shm_space \<Rightarrow> segment \<Rightarrow> rate_document \<Rightarrow> (io_error + unit) \<times> shm_space" where
  "write_document enc space seg document =
     (case enc document of None \<Rightarrow> (Inl IoInvalidData, space)
      | Some bytes \<Rightarrow>
          if payload_capacity seg - DOCUMENT_LEN_BYTES < length bytes then (Inl IoOutOfMemory, space)
          else if u64_max < length bytes then (Inl IoInvalidData, space)
          else (case write_payload space seg 0 (to_le 8 (length bytes)) of
                  (Inl e, space1) \<Rightarrow> (Inl e, space1)
                | (Inr _, space1) \<Rightarrow> write_payload space1 seg DOCUMENT_LEN_BYTES bytes))"

definition shared_bucket_key :: "string \<Rightarrow> ip_addr \<Rightarrow> string" where
  "shared_bucket_key route client_ip = route @ [CHR 0x00] @ show_ip client_ip"

definition maybe_cleanup_document :: "rate_document \<Rightarrow> nat \<Rightarrow> rate_document" where
  "maybe_cleanup_document document now_unix_ms =
     (if now_unix_ms < doc_next_cleanup_unix_ms document then document
      else document\<lparr> doc_buckets := map_retain (\<lambda>b. sb_is_evictable b now_unix_ms) (doc_buckets document),
                     doc_next_cleanup_unix_ms := sat_add_u64 now_unix_ms CLEANUP_INTERVAL_MS \<rparr>)"

definition unix_time_ms :: "nat \<Rightarrow> nat" where
  "unix_time_ms ms_since_epoch = min ms_since_epoch u64_max"

definition shm_capacity_bytes_of :: "string option \<Rightarrow> nat" where
  "shm_capacity_bytes_of env_value =
     (case Option.bind env_value (parse_uint u64_max) of
        Some capacity \<Rightarrow> if 4 * 1024 \<le> capacity then capacity else 4 * 1024 * 1024
      | None \<Rightarrow> 4 * 1024 * 1024)"

text \<open>The store: its segment configuration and the path of its lock file.\<close>

record shared_rate_limit_store =
  srs_segment_config :: segment_config
  srs_lock_path :: path_buf

definition shared_store_from_identity :: "path_buf \<Rightarrow> string option \<Rightarrow> string \<Rightarrow> shared_rate_limit_store" where
  "shared_store_from_identity temp_dir env_value identity =
     \<lparr> srs_segment_config = segment_config_for_identity identity (shm_capacity_bytes_of env_value),
       srs_lock_path = temp_dir @ ''/rginx-rate-limit-'' @
         show_hex16 (unat (stable_hash identity)) @ ''.lock'' \<rparr>"

definition shared_store_new :: "path_buf \<Rightarrow> string option \<Rightarrow> path_buf \<Rightarrow> shared_rate_limit_store" where
  "shared_store_new temp_dir env_value config_path =
     shared_store_from_identity temp_dir env_value (''rate-limit:'' @ config_path)"

definition create_with_default ::
    "doc_encoder \<Rightarrow> segment_config \<Rightarrow> nat \<Rightarrow> shm_space \<Rightarrow> (io_error + segment) \<times> shm_space" where
  "create_with_default enc cfg unix_nanos space =
     (case create_or_reset cfg unix_nanos space of
        (Inl e, space1) \<Rightarrow> (Inl e, space1)
      | (Inr seg, space1) \<Rightarrow>
          (case write_document enc space1 seg default_document of
             (Inl e, space2) \<Rightarrow> (Inl e, space2)
           | (Inr _, space2) \<Rightarrow> (Inr seg, space2)))"

definition open_or_create_segment ::
    "doc_encoder \<Rightarrow> segment_config \<Rightarrow> nat \<Rightarrow> shm_space \<Rightarrow> (io_error + segment) \<times> shm_space" where
  "open_or_create_segment enc cfg unix_nanos space =
     (case attach cfg space of
        Inr seg \<Rightarrow> (Inr seg, space)
      | Inl error \<Rightarrow>
          if error = IoNotFound then create_with_default enc cfg unix_nanos space
          else if error = IoInvalidData then
            create_with_default enc cfg unix_nanos (snd (unlink cfg space))
          else (Inl error, space))"

text \<open>The change a request makes to the document.\<close>

definition document_check ::
    "rate_document \<Rightarrow> string \<Rightarrow> ip_addr \<Rightarrow> route_rate_limit \<Rightarrow> nat \<Rightarrow> bool \<times> rate_document" where
  "document_check document0 route client_ip policy now_unix_ms =
     (let document = maybe_cleanup_document document0 now_unix_ms;
          key = shared_bucket_key route client_ip;
          bucket = (case doc_buckets document key of Some b \<Rightarrow> b | None \<Rightarrow> sb_new policy now_unix_ms)
      in case sb_try_acquire bucket policy now_unix_ms of
           (allowed, bucket') \<Rightarrow>
             (allowed, document\<lparr> doc_buckets := (doc_buckets document)(key \<mapsto> bucket') \<rparr>))"

definition shared_check_at ::
    "doc_encoder \<Rightarrow> doc_decoder \<Rightarrow> io_error + unit \<Rightarrow> shared_rate_limit_store \<Rightarrow> nat \<Rightarrow> shm_space \<Rightarrow>
     string \<Rightarrow> ip_addr \<Rightarrow> route_rate_limit \<Rightarrow> nat \<Rightarrow> (io_error + bool) \<times> shm_space" where
  "shared_check_at enc dec lock store unix_nanos space route client_ip policy now_unix_ms =
     (case lock of
        Inl e \<Rightarrow> (Inl e, space)
      | Inr _ \<Rightarrow>
          (case open_or_create_segment enc (srs_segment_config store) unix_nanos space of
             (Inl e, space1) \<Rightarrow> (Inl e, space1)
           | (Inr seg, space1) \<Rightarrow>
               (case read_document dec space1 seg of
                  Inl e \<Rightarrow> (Inl e, space1)
                | Inr document0 \<Rightarrow>
                    (case document_check document0 route client_ip policy now_unix_ms of
                       (allowed, document) \<Rightarrow>
                         (case write_document enc space1 seg document of
                            (Inl e, space2) \<Rightarrow> (Inl e, space2)
                          | (Inr _, space2) \<Rightarrow> (Inr allowed, space2))))))"

text \<open>
  \<open>RateLimiters\<close>: no policy admits; with a shared store an error denies; the
  local limiter otherwise.
\<close>

record rate_limiters =
  rls_local :: local_rate_limiters
  rls_shared :: "shared_rate_limit_store option"

definition rate_limiters_check ::
    "(string \<Rightarrow> ip_addr \<Rightarrow> 64 word) \<Rightarrow> doc_encoder \<Rightarrow> doc_decoder \<Rightarrow> io_error + unit \<Rightarrow> rate_limiters \<Rightarrow> shm_space \<Rightarrow>
     instant \<Rightarrow> nat \<Rightarrow> string \<Rightarrow> ip_addr \<Rightarrow> route_rate_limit option \<Rightarrow> bool \<times> rate_limiters \<times> shm_space" where
  "rate_limiters_check hash enc dec lock rls space now unix_nanos route client_ip policy =
     (case policy of
        None \<Rightarrow> (True, rls, space)
      | Some p \<Rightarrow>
          (case rls_shared rls of
             Some store \<Rightarrow>
               (case shared_check_at enc dec lock store unix_nanos space route client_ip p
                       (unix_time_ms (unix_nanos div 1000000)) of
                  (Inr allowed, space1) \<Rightarrow> (allowed, rls, space1)
                | (Inl _, space1) \<Rightarrow> (False, rls, space1))
           | None \<Rightarrow>
               (case lim_check_at hash (rls_local rls) route client_ip p now of
                  (allowed, lims') \<Rightarrow> (allowed, rls\<lparr> rls_local := lims' \<rparr>, space))))"

section \<open>The document in the segment\<close>

text \<open>\<open>stored\<close>: the segment holds a document that a reader accepts.\<close>

definition stored :: "doc_decoder \<Rightarrow> segment_config \<Rightarrow> shm_space \<Rightarrow> rate_document \<Rightarrow> bool" where
  "stored dec cfg space document \<longleftrightarrow>
     (\<exists>seg. attach cfg space = Inr seg \<and> mapped space seg \<and> read_document dec space seg = Inr document)"

lemma write_document_ok:
  assumes codec: "\<And>d b. enc d = Some b \<Longrightarrow> b \<noteq> [] \<and> dec b = Some d"
    and "mapped space seg" and "enc document = Some bytes"
    and "length bytes + DOCUMENT_LEN_BYTES \<le> payload_capacity seg"
    and "doc_version document = DOCUMENT_VERSION"
  obtains space' where "write_document enc space seg document = (Inr (), space')" "mapped space' seg"
    "read_document dec space' seg = Inr document" "\<And>cfg. attach cfg space' = attach cfg space"
proof -
  from assms(4) have "length bytes + 8 \<le> payload_capacity seg" by (simp add: DOCUMENT_LEN_BYTES_def)
  then obtain s1 s2 where w: "write_payload space seg 0 (to_le 8 (length bytes)) = (Inr (), s1)"
      "write_payload s1 seg 8 bytes = (Inr (), s2)" "mapped s2 seg"
    and r: "read_payload s2 seg 0 8 = Inr (to_le 8 (length bytes))" "read_payload s2 seg 8 (length bytes) = Inr bytes"
    and len: "from_le (to_le 8 (length bytes)) = length bytes" "length bytes \<le> u64_max"
    and att: "\<And>cfg. attach cfg s2 = attach cfg space"
    using write_framed_ok [OF assms(2)] by metis
  have "read_document dec s2 seg = Inr document"
    using codec [OF assms(3)] assms(4,5) r len(1) by (simp add: read_document_def DOCUMENT_LEN_BYTES_def Let_def)
  moreover have "write_document enc space seg document = (Inr (), s2)"
    using w assms(3,4) len(2) by (simp add: write_document_def DOCUMENT_LEN_BYTES_def)
  ultimately show thesis using that w(3) att by blast
qed

section \<open>The keys of the document\<close>

definition key_route :: "string \<Rightarrow> string" where
  "key_route key = rev (tl (dropWhile (\<lambda>c. c \<noteq> CHR 0x00) (rev key)))"

lemma hex_char_not_nul: "d < 16 \<Longrightarrow> hex_char d \<noteq> CHR 0x00"
proof
  assume d: "d < 16" and nul: "hex_char d = CHR 0x00"
  have "(of_char (hex_char d) :: nat) = (if d < 10 then 48 + d else 87 + d)"
    using d by (simp add: hex_char_def)
  with nul show False by (simp split: if_splits)
qed

lemma show_hex_chars: "c \<in> set (show_hex n) \<Longrightarrow> c \<noteq> CHR 0x00"
proof (induction n rule: show_hex.induct)
  case (1 n)
  then show ?case
    using hex_char_not_nul [of n] hex_char_not_nul [of "n mod 16"]
    by (cases "n < 16") (auto simp: show_hex.simps [of n])
qed

lemma set_str_join: "c \<in> set (str_join sep xs) \<Longrightarrow> c \<in> set sep \<or> (\<exists>x \<in> set xs. c \<in> set x)"
  by (induction sep xs rule: str_join.induct) auto

lemma show_ipv4_no_nul: "CHR 0x00 \<notin> set (show_ipv4 w)"
  using show_nat_no [of "CHR 0x00"] by (auto simp: show_ipv4_def is_digit_def dest!: set_str_join)

lemma show_ip_no_nul: "CHR 0x00 \<notin> set (show_ip ip)"
proof (cases ip)
  case (V6 w)
  have "CHR 0x00 \<notin> set (str_join '':'' (map show_hex xs))" for xs
    by (auto dest!: set_str_join dest: show_hex_chars)
  with V6 show_ipv4_no_nul show ?thesis by (simp add: show_ipv6_def Let_def split: prod.split)
qed (simp add: show_ipv4_no_nul)

lemma show_ipv4_inj: "show_ipv4 a = show_ipv4 b \<Longrightarrow> a = b"
  using parse_show_ipv4 [of a] parse_show_ipv4 [of b] by simp

lemma key_route_key [simp]: "key_route (shared_bucket_key route ip) = route"
proof -
  have "dropWhile (\<lambda>c. c \<noteq> CHR 0x00) (rev (show_ip ip)) = []"
    using show_ip_no_nul [of ip] by (auto simp: dropWhile_eq_Nil_conv)
  then show ?thesis by (simp add: key_route_def shared_bucket_key_def dropWhile_append)
qed

lemma shared_bucket_key_eq:
  "shared_bucket_key r a = shared_bucket_key r' b \<longleftrightarrow> r = r' \<and> show_ip a = show_ip b"
proof
  assume eq: "shared_bucket_key r a = shared_bucket_key r' b"
  then have "r = r'" by (metis key_route_key)
  with eq show "r = r' \<and> show_ip a = show_ip b" by (simp add: shared_bucket_key_def)
qed (simp add: shared_bucket_key_def)

section \<open>The document refines the abstract limiter\<close>

fun doc_run :: "(string \<Rightarrow> route_rate_limit) \<Rightarrow> rate_document \<Rightarrow> rate_event list \<Rightarrow> bool list" where
  "doc_run pol document [] = []"
| "doc_run pol document (e # es) =
     (case document_check document (ev_route e) (ev_client_ip e) (pol (ev_route e)) (ev_at e) of
        (allowed, document') \<Rightarrow> allowed # doc_run pol document' es)"

definition ms_event :: "rate_event \<Rightarrow> rate_event" where
  "ms_event e = e\<lparr> ev_at := ev_at e * 1000000 \<rparr>"

abbreviation string_policy :: "(string \<Rightarrow> route_rate_limit) \<Rightarrow> string \<Rightarrow> route_rate_limit" where
  "string_policy pol \<equiv> \<lambda>key. pol (key_route key)"

abbreviation doc_level :: "(string \<Rightarrow> route_rate_limit) \<Rightarrow> rate_document \<Rightarrow> bucket_key \<Rightarrow> nat \<Rightarrow> rat" where
  "doc_level pol document k t \<equiv> shared_bucket.level (string_policy pol) (doc_buckets document)
     (shared_bucket_key (bk_route k) (bk_client_ip k)) t"

definition doc_refines ::
    "(string \<Rightarrow> route_rate_limit) \<Rightarrow> ip_addr set \<Rightarrow> nat \<Rightarrow> rate_document \<Rightarrow> spec_buckets \<Rightarrow> bool" where
  "doc_refines pol C now document \<sigma> \<longleftrightarrow>
     shared_bucket.wf (string_policy pol) (doc_buckets document) now \<and>
     (\<forall>k t. bk_client_ip k \<in> C \<and> now \<le> t \<longrightarrow> doc_level pol document k t = spec_level pol \<sigma> k (t * 1000000))"

lemma document_check_buckets:
  defines "due doc now \<equiv> \<lambda>_. doc_next_cleanup_unix_ms doc \<le> now"
  shows "fst (document_check doc route ip p now)
      = fst (shared_bucket.check (due doc now) (doc_buckets doc) (shared_bucket_key route ip) p now)"
    and "doc_buckets (snd (document_check doc route ip p now))
      = snd (shared_bucket.check (due doc now) (doc_buckets doc) (shared_bucket_key route ip) p now)"
proof -
  have "doc_buckets (maybe_cleanup_document doc now) = shared_bucket.evict (due doc now) (doc_buckets doc) now"
    by (auto simp: maybe_cleanup_document_def shared_bucket.evict_def due_def)
  then show "fst (document_check doc route ip p now)
      = fst (shared_bucket.check (due doc now) (doc_buckets doc) (shared_bucket_key route ip) p now)"
    and "doc_buckets (snd (document_check doc route ip p now))
      = snd (shared_bucket.check (due doc now) (doc_buckets doc) (shared_bucket_key route ip) p now)"
    by (simp_all add: document_check_def shared_bucket.check_def Let_def split: prod.splits)
qed

lemma fill_ms:
  "fill cap (shared_bucket.rate p) tokens s t = fill cap (policy_rate p) tokens (s * 1000000) (t * 1000000)"
proof -
  have "(of_nat (t * 1000000 - s * 1000000) :: rat) = 1000000 * of_nat (t - s)"
    by (metis diff_mult_distrib mult.commute of_nat_mult of_nat_numeral)
  then show ?thesis by (simp add: fill_def shared_bucket.rate_def policy_rate_def del: of_nat_diff)
qed

lemma document_check_refines:
  assumes R: "doc_refines pol C now doc \<sigma>" and t: "now \<le> ev_at e"
    and C: "ev_client_ip e \<in> C" "inj_on show_ip C"
  shows "fst (document_check doc (ev_route e) (ev_client_ip e) (pol (ev_route e)) (ev_at e))
      = fst (spec_check pol \<sigma> (ms_event e))"
    and "doc_refines pol C (ev_at e)
      (snd (document_check doc (ev_route e) (ev_client_ip e) (pol (ev_route e)) (ev_at e)))
      (snd (spec_check pol \<sigma> (ms_event e)))"
proof -
  let ?t = "ev_at e" and ?s = "doc_buckets doc" and ?p = "pol (ev_route e)" and ?k = "ev_key e"
  let ?key = "shared_bucket_key (ev_route e) (ev_client_ip e)"
  have wf: "shared_bucket.wf (string_policy pol) ?s ?t"
    using R t shared_bucket.wf_mono by (auto simp: doc_refines_def)
  have lv: "doc_level pol doc k t' = spec_level pol \<sigma> k (t' * 1000000)"
    if "bk_client_ip k \<in> C" "now \<le> t'" for k t' using R that by (simp add: doc_refines_def)
  have k: "ev_key (ms_event e) = ?k" "ev_at (ms_event e) = ?t * 1000000" "bk_route ?k = ev_route e"
    "bk_client_ip ?k = ev_client_ip e" by (simp_all add: ms_event_def ev_key_def)
  have here: "shared_bucket.level (string_policy pol) ?s ?key ?t = spec_level pol \<sigma> ?k (?t * 1000000)"
    using lv [of ?k ?t] C(1) t by (simp add: k)
  have pk: "?p = string_policy pol ?key" by simp
  note lvl = shared_bucket.check_level [OF wf pk, unfolded here]
  show "fst (document_check doc (ev_route e) (ev_client_ip e) ?p ?t) = fst (spec_check pol \<sigma> (ms_event e))"
    unfolding document_check_buckets lvl(1) by (simp add: spec_check_def Let_def k)
  show "doc_refines pol C ?t (snd (document_check doc (ev_route e) (ev_client_ip e) ?p ?t))
      (snd (spec_check pol \<sigma> (ms_event e)))"
    unfolding doc_refines_def document_check_buckets
  proof (intro conjI allI impI)
    fix k :: bucket_key and t' assume kt: "bk_client_ip k \<in> C \<and> ?t \<le> t'"
    have same: "shared_bucket_key (bk_route k) (bk_client_ip k) = ?key \<longleftrightarrow> k = ?k"
      using kt C by (auto simp: shared_bucket_key_eq ev_key_def dest: inj_onD)
    show "shared_bucket.level (string_policy pol)
        (snd (shared_bucket.check (\<lambda>_. doc_next_cleanup_unix_ms doc \<le> ?t) ?s ?key ?p ?t))
        (shared_bucket_key (bk_route k) (bk_client_ip k)) t'
      = spec_level pol (snd (spec_check pol \<sigma> (ms_event e))) k (t' * 1000000)"
      unfolding lvl(3) [OF conjunct2 [OF kt]] same fill_ms using lv [of k t'] kt t
      by (auto simp: spec_check_def Let_def k spec_level_def)
  qed (use lvl(2) in auto)
qed

lemma doc_run_refines:
  "doc_refines pol C now doc \<sigma> \<Longrightarrow> in_order now es \<Longrightarrow> ev_client_ip ` set es \<subseteq> C \<Longrightarrow> inj_on show_ip C \<Longrightarrow>
     doc_run pol doc es = spec_run pol \<sigma> (map ms_event es)"
proof (induction es arbitrary: now doc \<sigma>)
  case (Cons e es)
  have "now \<le> ev_at e" "ev_client_ip e \<in> C" using Cons.prems by auto
  note step = document_check_refines [OF Cons.prems(1) this Cons.prems(4)]
  from Cons.IH [OF step(2)] Cons.prems step(1) show ?case by (auto split: prod.splits)
qed simp

lemma doc_refines_start: "doc_refines pol C now default_document (spec_start pol 0)"
  by (simp add: doc_refines_def default_document_def shared_bucket.wf_def shared_bucket.level_def
      spec_level_def spec_start_def fill_full policy_rate_nonneg)

section \<open>Properties\<close>

text \<open>A request on the shared store reads the document from the segment, applies the bucket
  operation and writes the document back: the answer is the one computed from the stored document,
  and the next request finds the updated document.  When the updated document does not fit, the
  request fails and the segment keeps the document it had.\<close>

theorem shared_check_at_updates_document:
  assumes codec: "\<And>d b. enc d = Some b \<Longrightarrow> b \<noteq> [] \<and> dec b = Some d"
    and stored: "stored dec (srs_segment_config store) space document0"
    and check: "document_check document0 route client_ip policy now = (allowed, document)"
    and bytes: "enc document = Some bytes"
    and vsn: "doc_version document0 = DOCUMENT_VERSION"
  shows "if length bytes + DOCUMENT_LEN_BYTES \<le> sc_capacity_bytes (srs_segment_config store) - header_size
     then \<exists>space'. shared_check_at enc dec (Inr ()) store t space route client_ip policy now = (Inr allowed, space') \<and>
            stored dec (srs_segment_config store) space' document
     else shared_check_at enc dec (Inr ()) store t space route client_ip policy now = (Inl IoOutOfMemory, space)"
proof -
  let ?cfg = "srs_segment_config store"
  from stored obtain seg where seg: "attach ?cfg space = Inr seg" "mapped space seg"
    "read_document dec space seg = Inr document0" by (auto simp: stored_def)
  have cap: "payload_capacity seg = sc_capacity_bytes ?cfg - header_size"
    using seg(1) by (auto simp: attach_def bind_res_Inr payload_capacity_def split: option.splits if_splits)
  have version: "doc_version document = DOCUMENT_VERSION"
    using check vsn by (auto simp: document_check_def Let_def maybe_cleanup_document_def split: prod.splits)
  have start: "shared_check_at enc dec (Inr ()) store t space route client_ip policy now =
      (case write_document enc space seg document of
         (Inl e, space2) \<Rightarrow> (Inl e, space2) | (Inr _, space2) \<Rightarrow> (Inr allowed, space2))"
    using seg check by (simp add: shared_check_at_def open_or_create_segment_def)
  show ?thesis
  proof (cases "length bytes + DOCUMENT_LEN_BYTES \<le> sc_capacity_bytes ?cfg - header_size")
    case True
    then obtain space' where "write_document enc space seg document = (Inr (), space')" "mapped space' seg"
      "read_document dec space' seg = Inr document" "attach ?cfg space' = attach ?cfg space"
      using write_document_ok [of enc dec space seg document bytes] codec seg(2) bytes version cap by metis
    then show ?thesis using True start seg(1) by (auto simp: stored_def)
  next
    case False
    have "DOCUMENT_LEN_BYTES \<le> payload_capacity seg"
      using seg(3) by (auto simp: read_document_def split: if_splits)
    with False have "write_document enc space seg document = (Inl IoOutOfMemory, space)"
      using bytes cap by (simp add: write_document_def) linarith
    then show ?thesis using False start by simp
  qed
qed

text \<open>A codec that knows the document one request makes of the empty one.\<close>

definition sample_document :: rate_document where
  "sample_document = snd (document_check default_document ''r'' (V4 1) (sample_policy ''r'') 5)"

definition sample_enc :: doc_encoder where
  "sample_enc d = (if d = sample_document then Some ''{}'' else None)"

definition sample_dec :: doc_decoder where
  "sample_dec b = (if b = ''{}'' then Some sample_document else None)"

definition sample_store :: shared_rate_limit_store where
  "sample_store = \<lparr> srs_segment_config = sample_segment_config, srs_lock_path = ''/tmp/l'' \<rparr>"

lemma sample_space_stored:
  "stored sample_dec sample_segment_config
     (snd (create_or_reset sample_segment_config 7 (\<lambda>_. None))) default_document"
proof -
  obtain seg space where c: "create_or_reset sample_segment_config 7 (\<lambda>_. None) = (Inr seg, space)"
    and p: "payload_of space seg = replicate 152 (CHR 0x00)" "payload_capacity seg = 152"
    by (simp add: create_or_reset_def validate_capacity_def shm_name_def header_size_def payload_of_def
        sample_segment_config_def segment_config_new_def str_starts_with_def payload_capacity_def)
  have zeros: "from_le (replicate n (CHR 0x00)) = 0" for n by (induction n) simp_all
  have "read_document sample_dec space seg = Inr default_document"
    by (simp add: read_document_def p DOCUMENT_LEN_BYTES_def read_payload_def validate_payload_range_def
        u64_max_def zeros)
  with create_attach [OF c] c show ?thesis by (auto simp: stored_def)
qed

theorem shared_check_at_updates_document_witness:
  "\<exists>space'. shared_check_at sample_enc sample_dec (Inr ()) sample_store 7
      (snd (create_or_reset sample_segment_config 7 (\<lambda>_. None))) ''r'' (V4 1) (sample_policy ''r'') 5
      = (Inr True, space') \<and> stored sample_dec sample_segment_config space' sample_document"
proof -
  have codec: "b \<noteq> [] \<and> sample_dec b = Some d" if "sample_enc d = Some b" for d b
    using that by (auto simp: sample_enc_def sample_dec_def split: if_splits)
  have check: "document_check default_document ''r'' (V4 1) (sample_policy ''r'') 5 = (True, sample_document)"
    by (simp add: sample_document_def document_check_def Let_def default_document_def
        maybe_cleanup_document_def map_retain_def sb_new_def sb_try_acquire_def sb_reconfigure_def
        sb_refill_def sb_policy_def bucket_capacity_def sample_policy_def)
  have "sample_enc sample_document = Some ''{}''" by (simp add: sample_enc_def)
  from shared_check_at_updates_document [of sample_enc sample_dec sample_store, OF codec _ check this, of _ 7]
    sample_space_stored show ?thesis
    by (simp add: sample_store_def default_document_def sample_segment_config_def segment_config_new_def
        header_size_def DOCUMENT_LEN_BYTES_def)
qed



end
