(* ===== verification/Upstream_Select.thy ===== *)
theory Upstream_Select
  imports Core_Config
begin

text \<open>
  The order in which the peers of an upstream are tried
  (\<open>crates/rginx-core/src/config/upstream/selection.rs\<close>): weighted round robin
  with a shared cursor and the stable hash of the client address, over the
  primary or the backup pool.  The atomic cursor is a 64-bit word that the
  operations return updated; it wraps as \<open>fetch_add\<close> does.
\<close>

unbundle bit_operations_syntax

definition upstream_new ::
    "string \<Rightarrow> upstream_peer list \<Rightarrow> upstream_tls \<Rightarrow> upstream_settings \<Rightarrow> upstream" where
  "upstream_new name peers tls settings =
     upstream_settings.extend settings (upstream.fields name peers tls 0)"

definition has_primary_peers :: "upstream \<Rightarrow> bool" where
  "has_primary_peers u = list_ex (\<lambda>p. \<not> peer_backup p) (up_peers u)"

definition peer_indices_for_pool :: "upstream \<Rightarrow> bool \<Rightarrow> nat list" where
  "peer_indices_for_pool u backup =
     List.map_filter (\<lambda>(i, p). if peer_backup p = backup then Some i else None)
       (zip [0..<length (up_peers u)] (up_peers u))"

definition total_weight_for_indices :: "upstream \<Rightarrow> nat list \<Rightarrow> nat" where
  "total_weight_for_indices u indices = sum_list (map (\<lambda>i. peer_weight (up_peers u ! i)) indices)"

fun slot_position :: "upstream \<Rightarrow> nat list \<Rightarrow> nat \<Rightarrow> nat \<Rightarrow> nat \<Rightarrow> nat option" where
  "slot_position u [] pos offset slot = None"
| "slot_position u (i # is) pos offset slot =
     (let offset' = offset + peer_weight (up_peers u ! i)
      in if slot < offset' then Some pos else slot_position u is (Suc pos) offset' slot)"

definition peer_position_for_weighted_slot :: "upstream \<Rightarrow> nat list \<Rightarrow> nat \<Rightarrow> nat option" where
  "peer_position_for_weighted_slot u indices slot = slot_position u indices 0 0 slot"

fun weighted_loop ::
    "upstream \<Rightarrow> nat list \<Rightarrow> nat \<Rightarrow> nat \<Rightarrow> nat \<Rightarrow> nat list \<Rightarrow> bool list \<Rightarrow> upstream_peer list \<Rightarrow>
     upstream_peer list" where
  "weighted_loop u indices tw start cnt [] seen selected = selected"
| "weighted_loop u indices tw start cnt (offset # offsets) seen selected =
     (case peer_position_for_weighted_slot u indices ((start + offset) mod tw) of
        None \<Rightarrow> weighted_loop u indices tw start cnt offsets seen selected
      | Some position \<Rightarrow>
          if seen ! position then weighted_loop u indices tw start cnt offsets seen selected
          else
            let selected' = selected @ [up_peers u ! (indices ! position)]
            in if length selected' = cnt then selected'
               else weighted_loop u indices tw start cnt offsets (seen[position := True]) selected')"

definition weighted_peers_from_indices :: "upstream \<Rightarrow> nat list \<Rightarrow> nat \<Rightarrow> nat \<Rightarrow> upstream_peer list" where
  "weighted_peers_from_indices u indices start limit =
     (let total_weight = total_weight_for_indices u indices
      in if total_weight = 0 then []
         else weighted_loop u indices total_weight start (min limit (length indices))
                [0..<total_weight] (replicate (length indices) False) [])"

definition next_peers_in_pool :: "upstream \<Rightarrow> nat \<Rightarrow> bool \<Rightarrow> upstream_peer list \<times> upstream" where
  "next_peers_in_pool u limit backup =
     (let indices = peer_indices_for_pool u backup
      in if indices = [] \<or> limit = 0 then ([], u)
         else let total_weight = total_weight_for_indices u indices
         in if total_weight = 0 then (map (\<lambda>i. up_peers u ! i) (take limit indices), u)
            else let start = unat (up_cursor u) mod total_weight
            in (weighted_peers_from_indices u indices start limit, u\<lparr> up_cursor := up_cursor u + 1 \<rparr>))"

definition next_peers :: "upstream \<Rightarrow> nat \<Rightarrow> upstream_peer list \<times> upstream" where
  "next_peers u limit =
     (case next_peers_in_pool u limit False of
        (primary, u') \<Rightarrow> if primary = [] then next_peers_in_pool u' limit True else (primary, u'))"

definition next_peer :: "upstream \<Rightarrow> upstream_peer option \<times> upstream" where
  "next_peer u = (case next_peers u 1 of (ps, u') \<Rightarrow> (case ps of [] \<Rightarrow> None | p # _ \<Rightarrow> Some p, u'))"

definition primary_next_peers :: "upstream \<Rightarrow> nat \<Rightarrow> upstream_peer list \<times> upstream" where
  "primary_next_peers u limit = next_peers_in_pool u limit False"

definition backup_next_peers :: "upstream \<Rightarrow> nat \<Rightarrow> upstream_peer list \<times> upstream" where
  "backup_next_peers u limit = next_peers_in_pool u limit True"

definition stable_ip_hash :: "ip_addr \<Rightarrow> 64 word" where
  "stable_ip_hash client_ip =
     foldl (\<lambda>hash byte. (hash XOR ucast byte) * 0x100000001b3) 0xcbf29ce484222325 (ip_octets client_ip)"

definition ip_hash_peers_in_pool :: "upstream \<Rightarrow> ip_addr \<Rightarrow> nat \<Rightarrow> nat list \<Rightarrow> upstream_peer list" where
  "ip_hash_peers_in_pool u client_ip limit indices =
     (if indices = [] \<or> limit = 0 then []
      else let total_weight = total_weight_for_indices u indices
      in if total_weight = 0 then map (\<lambda>i. up_peers u ! i) (take limit indices)
         else weighted_peers_from_indices u indices
                (unat (stable_ip_hash client_ip) mod total_weight) limit)"

definition peers_for_client_ip_in_pool ::
    "upstream \<Rightarrow> ip_addr \<Rightarrow> nat \<Rightarrow> bool \<Rightarrow> upstream_peer list \<times> upstream" where
  "peers_for_client_ip_in_pool u client_ip limit backup =
     (let indices = peer_indices_for_pool u backup
      in if indices = [] \<or> limit = 0 then ([], u)
         else case up_load_balance u of
                RoundRobin \<Rightarrow> next_peers_in_pool u limit backup
              | IpHash \<Rightarrow> (ip_hash_peers_in_pool u client_ip limit indices, u)
              | LeastConn \<Rightarrow> next_peers_in_pool u limit backup)"

definition peers_for_client_ip :: "upstream \<Rightarrow> ip_addr \<Rightarrow> nat \<Rightarrow> upstream_peer list \<times> upstream" where
  "peers_for_client_ip u client_ip limit =
     (case peers_for_client_ip_in_pool u client_ip limit False of
        (primary, u') \<Rightarrow>
          if primary = [] then peers_for_client_ip_in_pool u' client_ip limit True else (primary, u'))"

definition primary_peers_for_client_ip :: "upstream \<Rightarrow> ip_addr \<Rightarrow> nat \<Rightarrow> upstream_peer list \<times> upstream" where
  "primary_peers_for_client_ip u client_ip limit = peers_for_client_ip_in_pool u client_ip limit False"

definition backup_peers_for_client_ip :: "upstream \<Rightarrow> ip_addr \<Rightarrow> nat \<Rightarrow> upstream_peer list \<times> upstream" where
  "backup_peers_for_client_ip u client_ip limit = peers_for_client_ip_in_pool u client_ip limit True"

section \<open>Weighted slots\<close>

text \<open>The slots of the positions: position \<open>i\<close> owns as many consecutive slots as its weight.\<close>

fun owner :: "nat list \<Rightarrow> nat \<Rightarrow> nat" where
  "owner [] slot = 0"
| "owner (w # ws) slot = (if slot < w then 0 else Suc (owner ws (slot - w)))"

abbreviation weights :: "upstream \<Rightarrow> nat list \<Rightarrow> nat list" where
  "weights u indices \<equiv> map (\<lambda>i. peer_weight (up_peers u ! i)) indices"

lemma slot_position_owner:
  "offset \<le> slot \<Longrightarrow> slot < offset + sum_list (weights u indices) \<Longrightarrow>
     slot_position u indices pos offset slot = Some (pos + owner (weights u indices) (slot - offset))"
proof (induction indices arbitrary: pos offset)
  case (Cons i indices)
  let ?w = "peer_weight (up_peers u ! i)"
  show ?case
  proof (cases "slot < offset + ?w")
    case True
    with Cons.prems show ?thesis by (simp add: less_diff_conv2 add.commute)
  next
    case False
    then have "slot_position u indices (Suc pos) (offset + ?w) slot =
        Some (Suc pos + owner (weights u indices) (slot - (offset + ?w)))"
      using Cons.prems by (intro Cons.IH) simp_all
    with False Cons.prems show ?thesis by (simp add: less_diff_conv2 add.commute)
  qed
qed simp

lemma peer_position_owner:
  "slot < total_weight_for_indices u indices \<Longrightarrow>
     peer_position_for_weighted_slot u indices slot = Some (owner (weights u indices) slot)"
  using slot_position_owner [of 0 slot u indices 0]
  by (simp add: peer_position_for_weighted_slot_def total_weight_for_indices_def)

lemma owner_bound: "slot < sum_list ws \<Longrightarrow> owner ws slot < length ws \<and> 0 < ws ! owner ws slot"
  by (induction ws arbitrary: slot) auto

text \<open>How many slots a position owns.\<close>

lemma owner_count:
  "i < length ws \<Longrightarrow> length (filter (\<lambda>s. owner ws s = i) [0..<sum_list ws]) = ws ! i"
proof (induction ws arbitrary: i)
  case (Cons w ws)
  have shift: "[w..<w + sum_list ws] = map (\<lambda>s. s + w) [0..<sum_list ws]"
    by (simp add: map_add_upt add.commute)
  have "[0..<sum_list (w # ws)] = [0..<w] @ map (\<lambda>s. s + w) [0..<sum_list ws]"
    using upt_add_eq_append [of 0 w "sum_list ws"] shift by simp
  moreover have "filter (\<lambda>s. owner (w # ws) s = i) [0..<w] = (if i = 0 then [0..<w] else [])"
    by (auto simp: filter_id_conv filter_empty_conv)
  moreover have "length (filter (\<lambda>s. owner (w # ws) s = i) (map (\<lambda>s. s + w) [0..<sum_list ws]))
      = length (filter (\<lambda>s. Suc (owner ws s) = i) [0..<sum_list ws])"
    by (simp add: filter_map comp_def)
  ultimately show ?case using Cons by (cases i) auto
qed simp

lemma owner_surj:
  assumes "i < length ws" and "0 < ws ! i"
  shows "\<exists>s < sum_list ws. owner ws s = i"
proof (rule ccontr)
  assume "\<not> ?thesis"
  then have "filter (\<lambda>s. owner ws s = i) [0..<sum_list ws] = []" by (auto simp: filter_empty_conv)
  with owner_count [OF assms(1)] assms(2) show False by simp
qed

section \<open>The selection loop\<close>

text \<open>The positions of a list that are new, in order.\<close>

fun fresh :: "bool list \<Rightarrow> nat list \<Rightarrow> nat list" where
  "fresh seen [] = []"
| "fresh seen (p # ps) = (if seen ! p then fresh seen ps else p # fresh (seen[p := True]) ps)"

lemma set_fresh: "\<forall>p \<in> set ps. p < length seen \<Longrightarrow> set (fresh seen ps) = {p \<in> set ps. \<not> seen ! p}"
  by (induction seen ps rule: fresh.induct) (auto simp: nth_list_update)

lemma distinct_fresh: "\<forall>p \<in> set ps. p < length seen \<Longrightarrow> distinct (fresh seen ps)"
  by (induction seen ps rule: fresh.induct) (auto simp: set_fresh)

lemma weighted_loop_fresh:
  fixes start :: nat
  assumes "0 < total_weight_for_indices u indices"
  defines "tw \<equiv> total_weight_for_indices u indices"
  defines "pos \<equiv> \<lambda>offset. owner (weights u indices) ((start + offset) mod tw)"
  shows "length selected < cnt \<Longrightarrow>
     weighted_loop u indices tw start cnt offsets seen selected =
       selected @ take (cnt - length selected)
         (map (\<lambda>p. up_peers u ! (indices ! p)) (fresh seen (map pos offsets)))"
proof (induction offsets arbitrary: seen selected)
  case (Cons off offs)
  have pos: "peer_position_for_weighted_slot u indices ((start + off) mod tw) = Some (pos off)"
    using assms(1) by (simp add: peer_position_owner tw_def pos_def)
  show ?case
  proof (cases "seen ! pos off")
    case True
    with pos Cons show ?thesis by simp
  next
    case False
    show ?thesis
    proof (cases "Suc (length selected) = cnt")
      case True
      then have "cnt - length selected = 1" by simp
      with True False pos show ?thesis by simp
    next
      case more: False
      with Cons.prems have "cnt - length selected = Suc (cnt - Suc (length selected))" by simp
      with more False pos Cons.prems
        Cons.IH [of "selected @ [up_peers u ! (indices ! pos off)]" "seen[pos off := True]"]
      show ?thesis by simp
    qed
  qed
qed simp

lemma rotated_slots: "map (\<lambda>k. (c + k) mod n) [0..<n] = rotate (c mod n) [0..<n]"
  by (rule nth_equalityI) (simp_all add: nth_rotate mod_add_left_eq)

lemma length_filter_rotate: "length (filter P (rotate n xs)) = length (filter P xs)"
  unfolding rotate_drop_take
  by (metis add.commute append_take_drop_id filter_append length_append)

definition slot_order :: "upstream \<Rightarrow> nat list \<Rightarrow> nat \<Rightarrow> nat list" where
  "slot_order u indices start =
     fresh (replicate (length indices) False)
       (map (\<lambda>k. owner (weights u indices) ((start + k) mod total_weight_for_indices u indices))
          [0..<total_weight_for_indices u indices])"

lemma slot_order_positions:
  assumes "0 < total_weight_for_indices u indices"
  shows "distinct (slot_order u indices start)"
    and "set (slot_order u indices start) = {p. p < length indices \<and> 0 < peer_weight (up_peers u ! (indices ! p))}"
    and "slot_order u indices start \<noteq> []"
    and "hd (slot_order u indices start) =
      owner (weights u indices) (start mod total_weight_for_indices u indices)"
proof -
  let ?T = "total_weight_for_indices u indices" and ?ws = "weights u indices"
  let ?ps = "map (\<lambda>k. owner ?ws ((start + k) mod ?T)) [0..<?T]"
  have T: "?T = sum_list ?ws" by (simp add: total_weight_for_indices_def)
  have ps: "?ps = map (owner ?ws) (rotate (start mod ?T) [0..<?T])"
    using arg_cong [OF rotated_slots [of start ?T], of "map (owner ?ws)"] by (simp add: comp_def)
  have set_ps: "set ?ps = owner ?ws ` {0..<?T}" unfolding ps by simp
  also have "\<dots> = {p. p < length indices \<and> 0 < ?ws ! p}"
    using owner_bound [of _ ?ws] owner_surj [of _ ?ws] T by (fastforce simp: image_iff)
  finally have set_ps: "set ?ps = {p. p < length indices \<and> 0 < ?ws ! p}" .
  then have bound: "\<forall>p \<in> set ?ps. p < length (replicate (length indices) False)" by simp
  show "distinct (slot_order u indices start)"
    unfolding slot_order_def using bound by (rule distinct_fresh)
  show set_so: "set (slot_order u indices start) = {p. p < length indices \<and> 0 < peer_weight (up_peers u ! (indices ! p))}"
    unfolding slot_order_def set_fresh [OF bound] set_ps by auto
  have "[0..<?T] = 0 # [1..<?T]" using assms by (simp add: upt_conv_Cons)
  then have "hd ?ps = owner ?ws (start mod ?T)" "?ps \<noteq> []" by simp_all
  moreover have "hd (fresh seen qs) = hd qs \<and> fresh seen qs \<noteq> []" if "qs \<noteq> []" "\<not> seen ! hd qs" for seen qs
    using that by (cases qs) auto
  moreover have "\<not> replicate (length indices) False ! hd ?ps"
    using bound \<open>?ps \<noteq> []\<close> by (metis hd_in_set length_replicate nth_replicate)
  ultimately show "slot_order u indices start \<noteq> []"
    "hd (slot_order u indices start) = owner ?ws (start mod ?T)"
    unfolding slot_order_def by auto
qed

lemma length_slot_order:
  assumes "0 < total_weight_for_indices u indices"
  shows "length (slot_order u indices start) \<le> length indices"
proof -
  have "length (slot_order u indices start) = card (set (slot_order u indices start))"
    using slot_order_positions(1) [OF assms] by (simp add: distinct_card)
  also have "\<dots> \<le> card {..<length indices}"
    unfolding slot_order_positions(2) [OF assms] by (intro card_mono) auto
  finally show ?thesis by simp
qed

lemma weighted_peers_slot_order:
  assumes "0 < total_weight_for_indices u indices" and "0 < limit"
  shows "weighted_peers_from_indices u indices start limit =
     take limit (map (\<lambda>p. up_peers u ! (indices ! p)) (slot_order u indices start))"
proof -
  let ?T = "total_weight_for_indices u indices"
  have "indices \<noteq> []" using assms(1) by (auto simp: total_weight_for_indices_def)
  then have "weighted_peers_from_indices u indices start limit =
      take (min limit (length indices)) (map (\<lambda>p. up_peers u ! (indices ! p)) (slot_order u indices start))"
    using weighted_loop_fresh [OF assms(1), of "[]" "min limit (length indices)" start "[0..<?T]"] assms
    by (simp add: weighted_peers_from_indices_def slot_order_def Let_def)
  then show ?thesis using length_slot_order [OF assms(1), of start] by (simp add: take_map min_def)
qed

section \<open>Pools\<close>

lemma pool_indices: "peer_indices_for_pool u backup =
    filter (\<lambda>i. peer_backup (up_peers u ! i) = backup) [0..<length (up_peers u)]"
proof -
  have "List.map_filter (\<lambda>(i, p). if P p then Some i else None) (zip [m..<m + length ps] ps)
      = filter (\<lambda>i. P (ps ! (i - m))) [m..<m + length ps]" for P and ps :: "upstream_peer list" and m
  proof (induction ps arbitrary: m)
    case (Cons p ps)
    have "filter (\<lambda>i. P ((p # ps) ! (i - m))) [Suc m..<Suc m + length ps]
        = filter (\<lambda>i. P (ps ! (i - Suc m))) [Suc m..<Suc m + length ps]"
      by (rule filter_cong) (auto simp: nth_Cons')
    moreover have "[m..<m + length (p # ps)] = m # [Suc m..<Suc m + length ps]"
      by (simp add: upt_conv_Cons del: upt_Suc)
    ultimately show ?case using Cons.IH [of "Suc m"] by (simp add: List.map_filter_simps del: upt_Suc)
  qed (simp add: List.map_filter_simps)
  from this [of "\<lambda>p. peer_backup p = backup" 0 "up_peers u"] show ?thesis
    by (simp add: peer_indices_for_pool_def)
qed

lemma distinct_pool: "distinct (peer_indices_for_pool u backup)"
  by (simp add: pool_indices)

lemma set_pool: "set (peer_indices_for_pool u backup) =
    {i. i < length (up_peers u) \<and> peer_backup (up_peers u ! i) = backup}"
  by (auto simp: pool_indices)

lemma set_order_indices:
  assumes "0 < total_weight_for_indices u indices" and "distinct indices"
  shows "distinct (map ((!) indices) (slot_order u indices start))"
    and "set (map ((!) indices) (slot_order u indices start)) =
      {i \<in> set indices. 0 < peer_weight (up_peers u ! i)}"
proof -
  note so = slot_order_positions(1,2) [OF assms(1), of start]
  have "inj_on ((!) indices) {p. p < length indices}"
    using assms(2) by (auto simp: inj_on_def nth_eq_iff_index_eq)
  then have "inj_on ((!) indices) (set (slot_order u indices start))"
    using so(2) by (auto intro: inj_on_subset)
  then show "distinct (map ((!) indices) (slot_order u indices start))" using so(1) by (simp add: distinct_map)
  show "set (map ((!) indices) (slot_order u indices start)) =
      {i \<in> set indices. 0 < peer_weight (up_peers u ! i)}"
    using so(2) by (auto simp: in_set_conv_nth)
qed

section \<open>Properties\<close>

text \<open>Selecting from a pool of positive weight lists peers of that pool with a positive
  weight, each at most once, and all of them when the limit allows.\<close>

theorem next_peers_in_pool_order:
  assumes "0 < total_weight_for_indices u (peer_indices_for_pool u backup)" and "0 < limit"
  shows "\<exists>order. distinct order \<and>
     set order = {i. i < length (up_peers u) \<and> peer_backup (up_peers u ! i) = backup \<and>
                     0 < peer_weight (up_peers u ! i)} \<and>
     fst (next_peers_in_pool u limit backup) = map ((!) (up_peers u)) (take limit order)"
proof -
  let ?ix = "peer_indices_for_pool u backup"
  let ?o = "map ((!) ?ix) (slot_order u ?ix (unat (up_cursor u) mod total_weight_for_indices u ?ix))"
  have "?ix \<noteq> []" using assms(1) by (auto simp: total_weight_for_indices_def)
  then have "fst (next_peers_in_pool u limit backup) = map ((!) (up_peers u)) (take limit ?o)"
    using assms by (simp add: next_peers_in_pool_def Let_def weighted_peers_slot_order take_map comp_def)
  moreover have "distinct ?o" "set ?o = {i. i < length (up_peers u) \<and>
      peer_backup (up_peers u ! i) = backup \<and> 0 < peer_weight (up_peers u ! i)}"
    using set_order_indices [OF assms(1) distinct_pool] by (auto simp: set_pool)
  ultimately show ?thesis by blast
qed

definition sample_settings :: upstream_settings where
  "sample_settings =
     \<lparr> up_protocol = ProtoAuto, up_load_balance = RoundRobin, up_dns = default_upstream_dns_policy,
       up_server_name = True, up_server_name_override = None, up_tls_versions = None,
       up_server_verify_depth = None, up_server_crl_path = None, up_client_identity = None,
       up_request_timeout = from_secs 30, up_connect_timeout = from_secs 5, up_write_timeout = from_secs 5,
       up_idle_timeout = from_secs 5, up_pool_idle_timeout = None, up_pool_max_idle_per_host = 8,
       up_tcp_keepalive = None, up_tcp_nodelay = True, up_http2_keep_alive_interval = None,
       up_http2_keep_alive_timeout = from_secs 20, up_http2_keep_alive_while_idle = False,
       up_max_replayable_request_body_bytes = 65536, up_unhealthy_after_failures = 2,
       up_unhealthy_cooldown = from_secs 10, up_active_health_check = None \<rparr>"

definition sample_peer :: "string \<Rightarrow> nat \<Rightarrow> bool \<Rightarrow> upstream_peer" where
  "sample_peer url w b = \<lparr> peer_url = url, peer_scheme = ''http'', peer_authority = url, peer_weight = w,
     peer_backup = b, peer_max_conns = None \<rparr>"

definition sample_upstream :: upstream where
  "sample_upstream = upstream_new ''u'' [sample_peer ''a'' 2 False, sample_peer ''b'' 1 False,
     sample_peer ''c'' 1 True] NativeRoots sample_settings"

lemmas sample_upstream_simps = sample_upstream_def upstream_new_def upstream_settings.defs upstream.defs
  sample_settings_def sample_peer_def peer_indices_for_pool_def total_weight_for_indices_def
  List.map_filter_simps upt_rec

theorem next_peers_in_pool_order_witness:
  "\<exists>order. distinct order \<and> set order = {0, 1} \<and>
     fst (next_peers_in_pool sample_upstream 5 False) = map ((!) (up_peers sample_upstream)) (take 5 order)"
proof -
  have pos: "0 < total_weight_for_indices sample_upstream (peer_indices_for_pool sample_upstream False)"
    by (simp add: sample_upstream_simps)
  have "{i. i < length (up_peers sample_upstream) \<and> peer_backup (up_peers sample_upstream ! i) = False \<and>
      0 < peer_weight (up_peers sample_upstream ! i)} = {0, 1}"
    by (auto simp: sample_upstream_simps less_Suc_eq nth_Cons' split: if_splits)
  with next_peers_in_pool_order [OF pos, of 5] show ?thesis by simp
qed

text \<open>The first peers of successive selections.\<close>

fun first_picks :: "nat \<Rightarrow> upstream \<Rightarrow> bool \<Rightarrow> upstream_peer list" where
  "first_picks 0 u backup = []"
| "first_picks (Suc n) u backup =
     (case next_peers_in_pool u 1 backup of (ps, u') \<Rightarrow> take 1 ps @ first_picks n u' backup)"

lemma pool_cursor [simp]:
  "peer_indices_for_pool (u\<lparr> up_cursor := c \<rparr>) backup = peer_indices_for_pool u backup"
  "total_weight_for_indices (u\<lparr> up_cursor := c \<rparr>) indices = total_weight_for_indices u indices"
  by (simp_all add: peer_indices_for_pool_def total_weight_for_indices_def)

lemma next_peers_in_pool_first:
  assumes "0 < total_weight_for_indices u (peer_indices_for_pool u backup)"
  shows "next_peers_in_pool u 1 backup =
     ([up_peers u ! (peer_indices_for_pool u backup !
         owner (weights u (peer_indices_for_pool u backup))
           (unat (up_cursor u) mod total_weight_for_indices u (peer_indices_for_pool u backup)))],
      u\<lparr> up_cursor := up_cursor u + 1 \<rparr>)"
proof -
  let ?ix = "peer_indices_for_pool u backup"
  let ?so = "slot_order u ?ix (unat (up_cursor u) mod total_weight_for_indices u ?ix)"
  have ne: "?ix \<noteq> []" using assms by (auto simp: total_weight_for_indices_def)
  have "?so \<noteq> []" using slot_order_positions(3) [OF assms] .
  then have "take 1 ?so = [hd ?so]" by (cases ?so) auto
  with ne assms slot_order_positions(4) [OF assms] show ?thesis
    by (simp add: next_peers_in_pool_def Let_def weighted_peers_slot_order take_map)
qed

lemma first_picks_slots:
  assumes "0 < total_weight_for_indices u (peer_indices_for_pool u backup)"
  shows "unat (up_cursor u) + n \<le> 2 ^ 64 \<Longrightarrow>
     first_picks n u backup =
       map (\<lambda>k. up_peers u ! (peer_indices_for_pool u backup !
              owner (weights u (peer_indices_for_pool u backup))
                ((unat (up_cursor u) + k) mod total_weight_for_indices u (peer_indices_for_pool u backup))))
         [0..<n]"
  using assms
proof (induction n arbitrary: u)
  case (Suc n)
  let ?u = "u\<lparr> up_cursor := up_cursor u + 1 \<rparr>"
  show ?case
  proof (cases n)
    case 0
    then show ?thesis by (simp add: next_peers_in_pool_first [OF Suc.prems(2)] del: One_nat_def)
  next
    case (Suc m)
    then have "unat (up_cursor u + 1) = Suc (unat (up_cursor u))"
      using Suc.prems(1) by (subst unat_plus_if') simp
    moreover have "map f [0..<Suc n] = f 0 # map (\<lambda>k. f (Suc k)) [0..<n]" for f :: "nat \<Rightarrow> upstream_peer"
      by (simp add: map_upt_Suc del: upt_Suc)
    ultimately show ?thesis
      using Suc.IH [of ?u] Suc.prems by (simp add: next_peers_in_pool_first [OF Suc.prems(2)] del: upt_Suc One_nat_def)
  qed
qed simp

text \<open>Weighted round robin is fair: over one full cycle of selections, as many as the
  weights of the pool, every peer of the pool is picked first exactly as often as its weight,
  from whatever cursor the cycle starts.\<close>

theorem round_robin_fair:
  assumes "0 < total_weight_for_indices u (peer_indices_for_pool u backup)"
    and "unat (up_cursor u) + total_weight_for_indices u (peer_indices_for_pool u backup) \<le> 2 ^ 64"
    and "distinct (up_peers u)" and "p \<in> set (up_peers u)" and "peer_backup p = backup"
  shows "length (filter (\<lambda>q. q = p)
       (first_picks (total_weight_for_indices u (peer_indices_for_pool u backup)) u backup)) = peer_weight p"
proof -
  let ?ix = "peer_indices_for_pool u backup"
  let ?T = "total_weight_for_indices u ?ix" and ?ws = "weights u ?ix"
  obtain i where i: "i < length (up_peers u)" "up_peers u ! i = p"
    using assms(4) by (auto simp: in_set_conv_nth)
  then have "i \<in> set ?ix" using assms(5) by (simp add: set_pool)
  then obtain j where j: "j < length ?ix" "?ix ! j = i" by (auto simp: in_set_conv_nth)
  have pick: "up_peers u ! (?ix ! k) = p \<longleftrightarrow> k = j" if "k < length ?ix" for k
  proof -
    have "?ix ! k < length (up_peers u)" using that nth_mem set_pool by blast
    then have "up_peers u ! (?ix ! k) = p \<longleftrightarrow> ?ix ! k = i"
      using i assms(3) by (metis nth_eq_iff_index_eq)
    also have "\<dots> \<longleftrightarrow> k = j" using that j distinct_pool by (metis nth_eq_iff_index_eq)
    finally show ?thesis .
  qed
  let ?slots = "rotate (unat (up_cursor u) mod ?T) [0..<?T]"
  have "first_picks ?T u backup = map (\<lambda>s. up_peers u ! (?ix ! owner ?ws s)) ?slots"
    using first_picks_slots [OF assms(1,2)] arg_cong [OF rotated_slots [of "unat (up_cursor u)" ?T],
        of "map (\<lambda>s. up_peers u ! (?ix ! owner ?ws s))"] by (simp add: comp_def)
  then have "length (filter (\<lambda>q. q = p) (first_picks ?T u backup))
      = length (filter (\<lambda>s. up_peers u ! (?ix ! owner ?ws s) = p) ?slots)"
    by (simp add: filter_map comp_def)
  also have "\<dots> = length (filter (\<lambda>s. owner ?ws s = j) ?slots)"
    using pick owner_bound [of _ ?ws]
    by (intro arg_cong [of _ _ length] filter_cong) (auto simp: total_weight_for_indices_def)
  also have "\<dots> = length (filter (\<lambda>s. owner ?ws s = j) [0..<?T])"
    by (rule length_filter_rotate)
  also have "\<dots> = peer_weight p"
    using owner_count [of j ?ws] j i by (simp add: total_weight_for_indices_def)
  finally show ?thesis .
qed

theorem round_robin_fair_witness:
  "length (filter (\<lambda>q. q = sample_peer ''a'' 2 False) (first_picks 3 sample_upstream False)) = 2"
proof -
  have T: "total_weight_for_indices sample_upstream (peer_indices_for_pool sample_upstream False) = 3"
    by (simp add: sample_upstream_simps)
  have "unat (up_cursor sample_upstream) = 0" "distinct (up_peers sample_upstream)"
    "sample_peer ''a'' 2 False \<in> set (up_peers sample_upstream)"
    by (simp_all add: sample_upstream_simps)
  with round_robin_fair [of sample_upstream False "sample_peer ''a'' 2 False"] show ?thesis
    by (simp add: T) (simp add: sample_peer_def)
qed

text \<open>With the client address hash, the peers for a client do not depend on the cursor, and
  asking for fewer of them gives the first ones of the same order: a client keeps its peer, and its
  retries go to the same successors.\<close>

theorem ip_hash_order_is_stable:
  assumes "up_load_balance u = IpHash" and "k \<le> n"
  shows "peers_for_client_ip_in_pool (u\<lparr> up_cursor := c \<rparr>) client_ip k backup =
     (take k (fst (peers_for_client_ip_in_pool u client_ip n backup)), u\<lparr> up_cursor := c \<rparr>)"
proof -
  have cursor: "slot_order (u\<lparr> up_cursor := c \<rparr>) ix st = slot_order u ix st" for ix st
    by (simp add: slot_order_def)
  have take: "k \<le> n \<Longrightarrow> min k n = k" by simp
  show ?thesis
    using assms
    by (auto simp: peers_for_client_ip_in_pool_def ip_hash_peers_in_pool_def Let_def
        weighted_peers_slot_order cursor min_def take_map)
qed

theorem ip_hash_order_is_stable_witness:
  "peers_for_client_ip_in_pool
       (sample_upstream\<lparr> up_load_balance := IpHash \<rparr>\<lparr> up_cursor := 7 \<rparr>) (V4 9) 1 False
     = (take 1 (fst (peers_for_client_ip_in_pool (sample_upstream\<lparr> up_load_balance := IpHash \<rparr>) (V4 9) 3 False)),
        sample_upstream\<lparr> up_load_balance := IpHash \<rparr>\<lparr> up_cursor := 7 \<rparr>)"
  by (rule ip_hash_order_is_stable) simp_all

end
