(* ===== verification/Resolver.thy ===== *)
theory Resolver
  imports Core_Config
begin

text \<open>
  The resolver of upstream hostnames
  (\<open>crates/rginx-http/src/proxy/resolver.rs\<close>, \<open>resolver/endpoint.rs\<close>,
  \<open>resolver/runtime.rs\<close>): a cache of addresses with a validity and a stale
  window, refreshed by the DNS library, and the endpoints a peer resolves to.

  The answer of the DNS library is an argument: either an error message or the
  addresses with the instant until which they are valid.  The lock of the cache
  is released during a lookup, so \<open>resolve_host\<close> is two steps, the cache lookup
  and the completion after the answer, which other tasks may come between; its
  counters are unbounded numbers.  The URI parser of the crate \<open>http\<close> is the
  argument \<open>uri_host_port\<close>.
\<close>

section \<open>Endpoints\<close>

record resolved_upstream_peer =
  rp_url :: string
  rp_logical_peer_url :: string
  rp_endpoint_key :: string
  rp_display_url :: string
  rp_scheme :: string
  rp_upstream_authority :: string
  rp_dial_authority :: string
  rp_socket_addr :: socket_addr
  rp_server_name :: string
  rp_weight :: nat
  rp_backup :: bool
  rp_max_conns :: "nat option"

record peer_addressing =
  pa_host :: string
  pa_port :: nat
  pa_scheme :: string
  pa_authority :: string
  pa_logical_peer_url :: string
  pa_weight :: nat
  pa_backup :: bool
  pa_max_conns :: "nat option"

datatype resolve_error = BadPeerUrl string | MissingHostname string | ResolveFailed string string

text \<open>The parse of a URI: no URI, or its host and its port where it has them.\<close>

type_synonym uri_parser = "string \<Rightarrow> (string option \<times> nat option) option"

definition parse_peer_addressing :: "uri_parser \<Rightarrow> upstream_peer \<Rightarrow> resolve_error + peer_addressing" where
  "parse_peer_addressing uri_host_port peer =
     (case uri_host_port (peer_url peer) of
        None \<Rightarrow> Inl (BadPeerUrl (peer_url peer))
      | Some (None, _) \<Rightarrow> Inl (MissingHostname (peer_url peer))
      | Some (Some host, port) \<Rightarrow>
          Inr \<lparr> pa_host = host,
                pa_port = (case port of Some p \<Rightarrow> p
                           | None \<Rightarrow> if peer_scheme peer = ''https'' then 443 else 80),
                pa_scheme = peer_scheme peer, pa_authority = peer_authority peer,
                pa_logical_peer_url = peer_url peer, pa_weight = peer_weight peer,
                pa_backup = peer_backup peer, pa_max_conns = peer_max_conns peer \<rparr>)"

definition socket_addr_authority :: "socket_addr \<Rightarrow> string" where
  "socket_addr_authority a = show_socket_addr a"

definition build_endpoint :: "peer_addressing \<Rightarrow> ip_addr \<Rightarrow> resolved_upstream_peer" where
  "build_endpoint addressing ip =
     (let dial_authority = socket_addr_authority (ip, pa_port addressing);
          endpoint_key = (if pa_authority addressing = dial_authority
                          then pa_logical_peer_url addressing
                          else pa_logical_peer_url addressing @ ''|'' @ dial_authority)
      in \<lparr> rp_url = pa_logical_peer_url addressing,
           rp_logical_peer_url = pa_logical_peer_url addressing,
           rp_endpoint_key = endpoint_key,
           rp_display_url = pa_scheme addressing @ ''://'' @ dial_authority,
           rp_scheme = pa_scheme addressing, rp_upstream_authority = pa_authority addressing,
           rp_dial_authority = dial_authority, rp_socket_addr = (ip, pa_port addressing),
           rp_server_name = pa_host addressing, rp_weight = pa_weight addressing,
           rp_backup = pa_backup addressing, rp_max_conns = pa_max_conns addressing \<rparr>)"

definition clamp_ttl :: "duration \<Rightarrow> duration \<Rightarrow> duration \<Rightarrow> duration" where
  "clamp_ttl v lo hi = min (max v lo) hi"

definition refresh_due :: "nat \<Rightarrow> nat \<Rightarrow> duration \<Rightarrow> bool" where
  "refresh_due now valid_until refresh_before_expiry \<longleftrightarrow>
     valid_until \<le> now \<or> valid_until \<le> now + refresh_before_expiry"

definition order_addresses :: "ip_addr list \<Rightarrow> upstream_dns_policy \<Rightarrow> ip_addr list" where
  "order_addresses addresses policy =
     (if dns_prefer_ipv4 policy then sort_key (\<lambda>ip. (is_ipv6 ip, ip)) addresses
      else if dns_prefer_ipv6 policy then sort_key (\<lambda>ip. (\<not> is_ipv6 ip, ip)) addresses
      else sort addresses)"

definition duration_to_ms :: "duration \<Rightarrow> nat" where
  "duration_to_ms d = min (as_millis d) u64_max"

section \<open>The cache\<close>

record dns_cache_entry =
  de_addresses :: "ip_addr list"
  de_valid_until :: nat
  de_stale_until :: nat
  de_negative :: bool
  de_last_error :: "string option"

record upstream_resolver =
  res_policy :: upstream_dns_policy
  res_cache :: "string \<Rightarrow> dns_cache_entry option"
  res_resolve_requests_total :: nat
  res_cache_hits_total :: nat
  res_cache_misses_total :: nat
  res_refreshes_total :: nat
  res_resolve_errors_total :: nat
  res_stale_answers_total :: nat

definition resolver_new :: "upstream_dns_policy \<Rightarrow> upstream_resolver" where
  "resolver_new policy =
     \<lparr> res_policy = policy, res_cache = (\<lambda>_. None), res_resolve_requests_total = 0,
       res_cache_hits_total = 0, res_cache_misses_total = 0, res_refreshes_total = 0,
       res_resolve_errors_total = 0, res_stale_answers_total = 0 \<rparr>"

text \<open>\<open>lookup_host\<close>: the library's answer, sorted without repetitions, with its time to live.\<close>

type_synonym dns_answer = "string + ip_addr list \<times> nat"

definition lookup_host :: "upstream_resolver \<Rightarrow> nat \<Rightarrow> dns_answer \<Rightarrow> string + ip_addr list \<times> duration" where
  "lookup_host r now answer =
     bind_res answer (\<lambda>(ips, valid_until).
       Inr (remdups_adj (sort ips),
            if now \<le> valid_until then valid_until - now else dns_max_ttl (res_policy r)))"

definition store_negative_and_fail ::
    "upstream_resolver \<Rightarrow> nat \<Rightarrow> string \<Rightarrow> string \<Rightarrow> (resolve_error + ip_addr list) \<times> upstream_resolver" where
  "store_negative_and_fail r now host message =
     (Inl (ResolveFailed host message),
      r\<lparr> res_resolve_errors_total := res_resolve_errors_total r + 1,
         res_cache := (res_cache r)(host \<mapsto>
           \<lparr> de_addresses = [], de_valid_until = now + dns_negative_ttl (res_policy r),
             de_stale_until = now + dns_negative_ttl (res_policy r), de_negative = True,
             de_last_error = Some message \<rparr>) \<rparr>)"

text \<open>The first step of \<open>resolve_host\<close>: the cached answer, or a lookup to be made.\<close>

definition resolve_cached :: "upstream_resolver \<Rightarrow> nat \<Rightarrow> string \<Rightarrow> ip_addr list option \<times> upstream_resolver" where
  "resolve_cached r0 now host =
     (let r = r0\<lparr> res_resolve_requests_total := res_resolve_requests_total r0 + 1 \<rparr>;
          miss = r\<lparr> res_cache_misses_total := res_cache_misses_total r + 1,
                    res_refreshes_total := res_refreshes_total r + 1 \<rparr>
      in case res_cache r host of
           None \<Rightarrow> (None, miss)
         | Some entry \<Rightarrow>
             if \<not> de_negative entry \<and> de_addresses entry \<noteq> [] \<and>
                \<not> refresh_due now (de_valid_until entry) (dns_refresh_before_expiry (res_policy r))
             then (Some (order_addresses (de_addresses entry) (res_policy r)),
                   r\<lparr> res_cache_hits_total := res_cache_hits_total r + 1 \<rparr>)
             else (None, miss))"

text \<open>
  The second step, after the answer: \<open>now\<close> is the instant the request started,
  \<open>later\<close> the instant the answer is there.
\<close>

definition resolve_complete ::
    "upstream_resolver \<Rightarrow> nat \<Rightarrow> nat \<Rightarrow> string \<Rightarrow> dns_answer \<Rightarrow>
     (resolve_error + ip_addr list) \<times> upstream_resolver" where
  "resolve_complete r now later host answer =
     (case lookup_host r later answer of
        Inr (addresses0, ttl0) \<Rightarrow>
          if addresses0 \<noteq> [] then
            let ttl = clamp_ttl ttl0 (dns_min_ttl (res_policy r)) (dns_max_ttl (res_policy r));
                addresses = order_addresses addresses0 (res_policy r)
            in (Inr addresses,
                r\<lparr> res_cache := (res_cache r)(host \<mapsto>
                     \<lparr> de_addresses = addresses, de_valid_until = now + ttl,
                       de_stale_until = now + ttl + dns_stale_if_error (res_policy r),
                       de_negative = False, de_last_error = None \<rparr>) \<rparr>)
          else store_negative_and_fail r later host ''dns lookup returned no addresses''
      | Inl message \<Rightarrow>
          (case res_cache r host of
             Some entry \<Rightarrow>
               if \<not> de_negative entry \<and> de_addresses entry \<noteq> [] \<and> now \<le> de_stale_until entry
               then (Inr (order_addresses (de_addresses entry) (res_policy r)),
                     r\<lparr> res_cache := (res_cache r)(host \<mapsto> entry\<lparr> de_last_error := Some message \<rparr>),
                        res_stale_answers_total := res_stale_answers_total r + 1 \<rparr>)
               else store_negative_and_fail r later host message
           | None \<Rightarrow> store_negative_and_fail r later host message))"

definition resolve_host ::
    "upstream_resolver \<Rightarrow> nat \<Rightarrow> nat \<Rightarrow> string \<Rightarrow> dns_answer \<Rightarrow>
     (resolve_error + ip_addr list) \<times> upstream_resolver" where
  "resolve_host r now later host answer =
     (case resolve_cached r now host of
        (Some addresses, r') \<Rightarrow> (Inr addresses, r')
      | (None, r') \<Rightarrow> resolve_complete r' now later host answer)"

definition resolve_peer ::
    "uri_parser \<Rightarrow> upstream_resolver \<Rightarrow> nat \<Rightarrow> nat \<Rightarrow> dns_answer \<Rightarrow> upstream_peer \<Rightarrow>
     (resolve_error + resolved_upstream_peer list) \<times> upstream_resolver" where
  "resolve_peer uri_host_port r now later answer peer =
     (case parse_peer_addressing uri_host_port peer of
        Inl e \<Rightarrow> (Inl e, r)
      | Inr addressing \<Rightarrow>
          (case parse_ip (pa_host addressing) of
             Some ip \<Rightarrow> (Inr [build_endpoint addressing ip], r)
           | None \<Rightarrow>
               (case resolve_host r now later (pa_host addressing) answer of
                  (Inl e, r') \<Rightarrow> (Inl e, r')
                | (Inr addresses, r') \<Rightarrow> (Inr (map (build_endpoint addressing) addresses), r'))))"

definition cached_peer_endpoints ::
    "uri_parser \<Rightarrow> upstream_resolver \<Rightarrow> nat \<Rightarrow> upstream_peer \<Rightarrow> resolve_error + resolved_upstream_peer list" where
  "cached_peer_endpoints uri_host_port r now peer =
     bind_res (parse_peer_addressing uri_host_port peer) (\<lambda>addressing.
       case parse_ip (pa_host addressing) of
         Some ip \<Rightarrow> Inr [build_endpoint addressing ip]
       | None \<Rightarrow>
           (case res_cache r (pa_host addressing) of
              None \<Rightarrow> Inr []
            | Some entry \<Rightarrow>
                if de_negative entry \<or> de_addresses entry = [] \<or> de_stale_until entry < now then Inr []
                else Inr (map (build_endpoint addressing) (de_addresses entry))))"

record resolver_cache_entry_snapshot =
  rces_hostname :: string
  rces_addresses :: "string list"
  rces_negative :: bool
  rces_valid_for_ms :: "nat option"
  rces_stale_for_ms :: "nat option"
  rces_last_error :: "string option"

definition checked_duration_since :: "nat \<Rightarrow> nat \<Rightarrow> duration option" where
  "checked_duration_since t now = (if now \<le> t then Some (t - now) else None)"

definition cache_entry_snapshot :: "nat \<Rightarrow> string \<Rightarrow> dns_cache_entry \<Rightarrow> resolver_cache_entry_snapshot" where
  "cache_entry_snapshot now hostname entry =
     \<lparr> rces_hostname = hostname, rces_addresses = map show_ip (de_addresses entry),
       rces_negative = de_negative entry,
       rces_valid_for_ms = map_option duration_to_ms (checked_duration_since (de_valid_until entry) now),
       rces_stale_for_ms = map_option duration_to_ms (checked_duration_since (de_stale_until entry) now),
       rces_last_error = de_last_error entry \<rparr>"

section \<open>Lemmas\<close>

lemma set_order_addresses [simp]: "set (order_addresses ips policy) = set ips"
  by (simp add: order_addresses_def)

lemma order_addresses_Nil [simp]: "order_addresses ips policy = [] \<longleftrightarrow> ips = []"
  by (metis set_order_addresses set_empty)

lemma order_addresses_idem [simp]:
  "order_addresses (order_addresses ips policy) policy = order_addresses ips policy"
  by (auto simp: order_addresses_def sort_key_id_if_sorted)

lemma clamp_ttl_bounds: "lo \<le> hi \<Longrightarrow> lo \<le> clamp_ttl v lo hi \<and> clamp_ttl v lo hi \<le> hi"
  by (simp add: clamp_ttl_def)

section \<open>Runs\<close>

record dns_event =
  dv_host :: string
  dv_now :: nat
  dv_later :: nat
  dv_answer :: dns_answer
  dv_forced :: bool

text \<open>
  One step of a run: a cache lookup, or, for \<open>dv_forced\<close>, the completion of a
  lookup that started earlier and may now meet any cache.
\<close>

definition resolver_step :: "upstream_resolver \<Rightarrow> dns_event \<Rightarrow> (resolve_error + ip_addr list) \<times> upstream_resolver" where
  "resolver_step r e =
     (if dv_forced e then resolve_complete r (dv_now e) (dv_later e) (dv_host e) (dv_answer e)
      else resolve_host r (dv_now e) (dv_later e) (dv_host e) (dv_answer e))"

fun resolver_run :: "upstream_resolver \<Rightarrow> dns_event list \<Rightarrow> upstream_resolver" where
  "resolver_run r [] = r"
| "resolver_run r (e # es) = resolver_run (snd (resolver_step r e)) es"

text \<open>The invariant: every positive entry was learned from an answer for its host.\<close>

definition entry_ok :: "upstream_dns_policy \<Rightarrow> dns_event list \<Rightarrow> string \<Rightarrow> dns_cache_entry \<Rightarrow> bool" where
  "entry_ok policy es host entry \<longleftrightarrow>
     (de_negative entry \<longrightarrow> de_addresses entry = []) \<and>
     (\<not> de_negative entry \<longrightarrow> (\<exists>e \<in> set es. \<exists>ips0 t. dv_host e = host \<and> dv_answer e = Inr (ips0, t) \<and> ips0 \<noteq> [] \<and>
        de_addresses entry = order_addresses (remdups_adj (sort ips0)) policy \<and>
        de_valid_until entry \<le> dv_now e + dns_max_ttl policy \<and>
        de_stale_until entry \<le> dv_now e + dns_max_ttl policy + dns_stale_if_error policy))"

definition cache_ok :: "upstream_resolver \<Rightarrow> dns_event list \<Rightarrow> bool" where
  "cache_ok r es \<longleftrightarrow> (\<forall>host entry. res_cache r host = Some entry \<longrightarrow> entry_ok (res_policy r) es host entry)"

lemma entry_ok_mono: "entry_ok policy es host entry \<Longrightarrow> entry_ok policy (e # es) host entry"
  by (auto simp: entry_ok_def)

lemma cache_ok_upd:
  "cache_ok r es \<Longrightarrow> entry_ok (res_policy r) (e # es) host entry \<Longrightarrow> res_policy r' = res_policy r \<Longrightarrow>
     res_cache r' = (res_cache r)(host \<mapsto> entry) \<Longrightarrow> cache_ok r' (e # es)"
  by (auto simp: cache_ok_def entry_ok_mono)

lemma entry_ok_negative: "de_negative entry \<Longrightarrow> de_addresses entry = [] \<Longrightarrow> entry_ok policy es host entry"
  by (simp add: entry_ok_def)

lemma store_negative_ok:
  "cache_ok r es \<Longrightarrow> cache_ok (snd (store_negative_and_fail r later host message)) (e # es)"
  by (rule cache_ok_upd [of r es]) (simp_all add: store_negative_and_fail_def entry_ok_negative)

lemma resolve_cached_ok:
  assumes "cache_ok r es"
  shows "cache_ok (snd (resolve_cached r now host)) es \<and> res_policy (snd (resolve_cached r now host)) = res_policy r
    \<and> res_cache (snd (resolve_cached r now host)) = res_cache r"
  using assms by (auto simp: resolve_cached_def Let_def cache_ok_def split: option.splits)

lemma resolve_complete_ok:
  assumes ok: "cache_ok r es" and e: "dv_host e = host" "dv_now e = now" "dv_answer e = answer"
  shows "cache_ok (snd (resolve_complete r now later host answer)) (e # es)"
proof (cases answer)
  case (Inl message)
  have stale: "entry_ok (res_policy r) (e # es) host (entry\<lparr> de_last_error := Some message \<rparr>)"
    if "res_cache r host = Some entry" for entry
    using ok that entry_ok_mono by (fastforce simp: cache_ok_def entry_ok_def)
  show ?thesis
    using Inl store_negative_ok [OF ok, of later host message e]
      cache_ok_upd [OF ok stale] by (auto simp: resolve_complete_def lookup_host_def split: option.splits)
next
  case (Inr a)
  obtain ips0 t where a: "a = (ips0, t)" by (cases a)
  let ?ttl = "clamp_ttl (if later \<le> t then t - later else dns_max_ttl (res_policy r))
      (dns_min_ttl (res_policy r)) (dns_max_ttl (res_policy r))"
  have ne: "remdups_adj (sort ips0) \<noteq> [] \<longleftrightarrow> ips0 \<noteq> []" by (metis remdups_adj_Nil_iff set_empty set_sort)
  have "entry_ok (res_policy r) (e # es) host
     \<lparr> de_addresses = order_addresses (remdups_adj (sort ips0)) (res_policy r),
       de_valid_until = now + ?ttl, de_stale_until = now + ?ttl + dns_stale_if_error (res_policy r),
       de_negative = False, de_last_error = None \<rparr>" if "ips0 \<noteq> []"
    unfolding entry_ok_def using that Inr a e by (auto simp: clamp_ttl_def intro!: bexI [of _ e])
  with cache_ok_upd [OF ok] store_negative_ok [OF ok] ne Inr a show ?thesis
    by (auto simp: resolve_complete_def lookup_host_def Let_def)
qed

lemma resolver_step_ok:
  assumes "cache_ok r es"
  shows "cache_ok (snd (resolver_step r e)) (e # es) \<and> res_policy (snd (resolver_step r e)) = res_policy r"
proof -
  have policy: "res_policy (snd (resolve_complete r' now later host answer)) = res_policy r'" for r' now later host answer
    by (auto simp: resolve_complete_def Let_def store_negative_and_fail_def split: sum.splits option.splits)
  obtain ans r1 where c: "resolve_cached r (dv_now e) (dv_host e) = (ans, r1)" by fastforce
  then have r1: "cache_ok r1 es" "res_policy r1 = res_policy r"
    using resolve_cached_ok [OF assms, of "dv_now e" "dv_host e"] by auto
  have "cache_ok r1 (e # es)" using r1(1) entry_ok_mono by (auto simp: cache_ok_def)
  then show ?thesis
    using resolve_complete_ok [OF assms] resolve_complete_ok [OF r1(1)] policy r1(2) c
    by (auto simp: resolver_step_def resolve_host_def split: option.splits)
qed

lemma resolver_run_ok:
  "cache_ok r done \<Longrightarrow> cache_ok (resolver_run r es) (rev es @ done) \<and> res_policy (resolver_run r es) = res_policy r"
proof (induction es arbitrary: r "done")
  case (Cons e es)
  with resolver_step_ok [of r "done" e] Cons.IH [of "snd (resolver_step r e)" "e # done"] show ?case by simp
qed simp

text \<open>An answer is the entry of the cache, fresh or within its stale window, or the event's own.\<close>

lemma resolver_step_answer:
  assumes "fst (resolver_step r e) = Inr ips"
  shows "(\<exists>entry. res_cache r (dv_host e) = Some entry \<and> \<not> de_negative entry \<and>
        ips = order_addresses (de_addresses entry) (res_policy r) \<and>
        (dv_now e < de_valid_until entry \<or> dv_now e \<le> de_stale_until entry)) \<or>
     (\<exists>ips0 t. dv_answer e = Inr (ips0, t) \<and> ips0 \<noteq> [] \<and>
        ips = order_addresses (remdups_adj (sort ips0)) (res_policy r))"
proof -
  have ne: "remdups_adj (sort ips0) \<noteq> [] \<longleftrightarrow> ips0 \<noteq> []" for ips0 :: "ip_addr list"
    by (metis remdups_adj_Nil_iff set_empty set_sort)
  have complete: "(\<exists>entry. res_cache r' host = Some entry \<and> \<not> de_negative entry \<and>
        ips = order_addresses (de_addresses entry) (res_policy r') \<and> now \<le> de_stale_until entry) \<or>
     (\<exists>ips0 t. answer = Inr (ips0, t) \<and> ips0 \<noteq> [] \<and>
        ips = order_addresses (remdups_adj (sort ips0)) (res_policy r'))"
    if "fst (resolve_complete r' now later host answer) = Inr ips" for r' now later host answer
    using that ne
    by (cases answer) (auto simp: resolve_complete_def lookup_host_def Let_def store_negative_and_fail_def
        split: option.splits if_splits)
  show ?thesis
  proof (cases "dv_forced e")
    case True
    with assms complete [of r "dv_now e" "dv_later e" "dv_host e" "dv_answer e"] show ?thesis by (auto simp: resolver_step_def)
  next
    case False
    obtain ans r1 where c: "resolve_cached r (dv_now e) (dv_host e) = (ans, r1)" by fastforce
    have r1: "res_cache r1 = res_cache r" "res_policy r1 = res_policy r"
      using c by (auto simp: resolve_cached_def Let_def split: option.splits if_splits)
    show ?thesis
    proof (cases ans)
      case None
      with assms False c complete [of r1 "dv_now e" "dv_later e" "dv_host e" "dv_answer e"] r1 show ?thesis
        by (auto simp: resolver_step_def resolve_host_def)
    next
      case (Some a)
      with assms False c show ?thesis
        by (auto simp: resolver_step_def resolve_host_def resolve_cached_def Let_def refresh_due_def
            split: option.splits if_splits)
    qed
  qed
qed

section \<open>Properties\<close>

text \<open>C19. The resolver never answers with addresses older than it may: in every run, whatever
  lookups fail and however completions interleave, an answer consists of the addresses that the
  DNS library gave for that host in a lookup started at most the maximal time to live and the
  stale window before.\<close>

theorem resolver_answers_are_fresh:
  assumes "fst (resolver_step (resolver_run (resolver_new policy) es) e) = Inr ips"
  shows "\<exists>f ips0 t. f \<in> set (es @ [e]) \<and> dv_host f = dv_host e \<and> dv_answer f = Inr (ips0, t) \<and>
     ips0 \<noteq> [] \<and> ips = order_addresses (remdups_adj (sort ips0)) policy \<and>
     dv_now e \<le> dv_now f + dns_max_ttl policy + dns_stale_if_error policy"
proof -
  let ?r = "resolver_run (resolver_new policy) es"
  have "cache_ok (resolver_new policy) []" by (simp add: cache_ok_def resolver_new_def)
  then have ok: "cache_ok ?r (rev es)" and pol: "res_policy ?r = policy"
    using resolver_run_ok [of "resolver_new policy" "[]" es] by (simp_all add: resolver_new_def)
  from resolver_step_answer [OF assms] show ?thesis
  proof
    assume "\<exists>entry. res_cache ?r (dv_host e) = Some entry \<and> \<not> de_negative entry \<and>
        ips = order_addresses (de_addresses entry) (res_policy ?r) \<and>
        (dv_now e < de_valid_until entry \<or> dv_now e \<le> de_stale_until entry)"
    then obtain entry where entry: "res_cache ?r (dv_host e) = Some entry" "\<not> de_negative entry"
      "ips = order_addresses (de_addresses entry) policy"
      "dv_now e < de_valid_until entry \<or> dv_now e \<le> de_stale_until entry" using pol by auto
    with ok pol have "entry_ok policy (rev es) (dv_host e) entry" by (auto simp: cache_ok_def)
    with entry obtain f ips0 t where "f \<in> set es" "dv_host f = dv_host e" "dv_answer f = Inr (ips0, t)"
      "ips0 \<noteq> []" "ips = order_addresses (remdups_adj (sort ips0)) policy"
      "dv_now e \<le> dv_now f + dns_max_ttl policy + dns_stale_if_error policy"
      by (fastforce simp: entry_ok_def)
    then show ?thesis by auto
  qed (use pol in auto)
qed

definition sample_dns_event :: "nat \<Rightarrow> dns_answer \<Rightarrow> dns_event" where
  "sample_dns_event now answer = \<lparr> dv_host = ''h'', dv_now = now, dv_later = now, dv_answer = answer, dv_forced = False \<rparr>"

theorem resolver_answers_are_fresh_witness:
  "\<exists>ips. fst (resolver_step (resolver_run (resolver_new default_upstream_dns_policy)
      [sample_dns_event 0 (Inr ([V4 1], from_secs 60))]) (sample_dns_event (from_secs 100) (Inl ''timeout''))) = Inr ips \<and>
    (\<exists>f ips0 t. f \<in> set ([sample_dns_event 0 (Inr ([V4 1], from_secs 60))] @
        [sample_dns_event (from_secs 100) (Inl ''timeout'')]) \<and> dv_answer f = Inr (ips0, t) \<and>
      ips = order_addresses (remdups_adj (sort ips0)) default_upstream_dns_policy)"
proof -
  let ?es = "[sample_dns_event 0 (Inr ([V4 1], from_secs 60))]"
  let ?e = "sample_dns_event (from_secs 100) (Inl ''timeout'')"
  have "fst (resolver_step (resolver_run (resolver_new default_upstream_dns_policy) ?es) ?e) = Inr [V4 1]"
    by (simp add: resolver_step_def sample_dns_event_def resolve_host_def resolve_cached_def Let_def
        resolve_complete_def lookup_host_def resolver_new_def default_upstream_dns_policy_def from_secs_def
        clamp_ttl_def refresh_due_def order_addresses_def)
  with resolver_answers_are_fresh [OF this] show ?thesis by blast
qed

text \<open>
  A failed lookup stores a negative entry with its own time to live, but no
  later request is answered from it: whatever its age, the next request for
  the host is a cache miss and a new lookup.
\<close>

theorem negative_entry_never_answers:
  assumes "res_cache r host = Some entry" and "de_negative entry"
  shows "fst (resolve_cached r now host) = None \<and>
     res_refreshes_total (snd (resolve_cached r now host)) = res_refreshes_total r + 1"
  using assms by (simp add: resolve_cached_def Let_def)

end
