(* ===== verification/Health_Registry.thy ===== *)
theory Health_Registry
  imports Upstream_Select Resolver
begin

text \<open>
  The health of upstream peers and the selection that respects it
  (\<open>crates/rginx-http/src/proxy/health/registry\<close>: \<open>mod.rs\<close>, \<open>state.rs\<close>,
  \<open>policy.rs\<close>, \<open>selection.rs\<close>, \<open>guards.rs\<close>, \<open>snapshot.rs\<close>).

  A \<open>PeerHealth\<close> is shared by reference counting between the table of logical
  peers, the table of resolved endpoints and the guards of running requests, so
  the registry has a heap of health states and its tables hold addresses.  Each
  operation locks one state and is one step.  Time is a number of nanoseconds,
  read once per operation.  Counters have the width of the source and wrap.
  Resolution of a peer is the argument \<open>resolve\<close>, a failed resolution being the
  empty list as in the source.
\<close>

section \<open>Health states\<close>

record peer_health_policy =
  php_unhealthy_after_failures :: nat
  php_cooldown :: duration
  php_active_health_enabled :: bool

definition policy_from_upstream :: "upstream \<Rightarrow> peer_health_policy" where
  "policy_from_upstream u =
     \<lparr> php_unhealthy_after_failures = up_unhealthy_after_failures u,
       php_cooldown = up_unhealthy_cooldown u,
       php_active_health_enabled = (up_active_health_check u \<noteq> None) \<rparr>"

record peer_failure_status =
  pfs_consecutive_failures :: nat
  pfs_entered_cooldown :: bool

record passive_health_state =
  ps_consecutive_failures :: nat
  ps_unhealthy_until :: "nat option"
  ps_pending_recovery :: bool

record active_health_state =
  as_unhealthy :: bool
  as_consecutive_successes :: nat

record peer_health_state =
  ph_passive :: passive_health_state
  ph_active :: active_health_state
  ph_active_requests :: nat

record active_probe_status =
  aps_healthy :: bool
  aps_recovered :: bool
  aps_consecutive_successes :: nat

definition default_passive :: passive_health_state where
  "default_passive = \<lparr> ps_consecutive_failures = 0, ps_unhealthy_until = None, ps_pending_recovery = False \<rparr>"

definition default_active :: active_health_state where
  "default_active = \<lparr> as_unhealthy = False, as_consecutive_successes = 0 \<rparr>"

definition default_health :: peer_health_state where
  "default_health = \<lparr> ph_passive = default_passive, ph_active = default_active, ph_active_requests = 0 \<rparr>"

definition ph_is_available :: "peer_health_state \<Rightarrow> nat \<Rightarrow> bool" where
  "ph_is_available st now \<longleftrightarrow>
     (case ps_unhealthy_until (ph_passive st) of None \<Rightarrow> True | Some until \<Rightarrow> until \<le> now)
     \<and> \<not> as_unhealthy (ph_active st)"

definition ph_record_success :: "peer_health_state \<Rightarrow> bool \<times> peer_health_state" where
  "ph_record_success st = (ps_pending_recovery (ph_passive st), st\<lparr> ph_passive := default_passive \<rparr>)"

definition ph_record_failure ::
    "peer_health_state \<Rightarrow> peer_health_policy \<Rightarrow> nat \<Rightarrow> peer_failure_status \<times> peer_health_state" where
  "ph_record_failure st policy now =
     (let p0 = ph_passive st;
          p1 = (case ps_unhealthy_until p0 of
                  Some until \<Rightarrow> if until \<le> now
                    then p0\<lparr> ps_unhealthy_until := None, ps_consecutive_failures := 0 \<rparr> else p0
                | None \<Rightarrow> p0);
          already_in_cooldown = (case ps_unhealthy_until p1 of Some until \<Rightarrow> now < until | None \<Rightarrow> False);
          p2 = p1\<lparr> ps_consecutive_failures := (ps_consecutive_failures p1 + 1) mod 2 ^ 32 \<rparr>;
          entered_cooldown = (\<not> already_in_cooldown \<and>
            php_unhealthy_after_failures policy \<le> ps_consecutive_failures p2);
          p3 = (if entered_cooldown
                then p2\<lparr> ps_unhealthy_until := Some (now + php_cooldown policy), ps_pending_recovery := True \<rparr>
                else if already_in_cooldown
                then p2\<lparr> ps_unhealthy_until := Some (now + php_cooldown policy) \<rparr>
                else p2)
      in (\<lparr> pfs_consecutive_failures = ps_consecutive_failures p3, pfs_entered_cooldown = entered_cooldown \<rparr>,
          st\<lparr> ph_passive := p3 \<rparr>))"

definition ph_record_active_success :: "peer_health_state \<Rightarrow> nat \<Rightarrow> active_probe_status \<times> peer_health_state" where
  "ph_record_active_success st healthy_successes_required =
     (if \<not> as_unhealthy (ph_active st)
      then (\<lparr> aps_healthy = True, aps_recovered = False, aps_consecutive_successes = 0 \<rparr>, st)
      else let n = (as_consecutive_successes (ph_active st) + 1) mod 2 ^ 32;
               recovered = (healthy_successes_required \<le> n)
           in (\<lparr> aps_healthy = recovered, aps_recovered = recovered, aps_consecutive_successes = n \<rparr>,
               st\<lparr> ph_active := (if recovered then default_active
                                 else (ph_active st)\<lparr> as_consecutive_successes := n \<rparr>) \<rparr>))"

definition ph_record_active_failure :: "peer_health_state \<Rightarrow> bool \<times> peer_health_state" where
  "ph_record_active_failure st =
     (\<not> as_unhealthy (ph_active st),
      st\<lparr> ph_active := \<lparr> as_unhealthy = True, as_consecutive_successes = 0 \<rparr> \<rparr>)"

definition ph_increment_active_requests :: "peer_health_state \<Rightarrow> bool \<times> peer_health_state" where
  "ph_increment_active_requests st =
     (ph_active_requests st = 0, st\<lparr> ph_active_requests := (ph_active_requests st + 1) mod 2 ^ 64 \<rparr>)"

definition ph_decrement_active_requests :: "peer_health_state \<Rightarrow> bool \<times> peer_health_state" where
  "ph_decrement_active_requests st =
     (let st' = st\<lparr> ph_active_requests := ph_active_requests st - 1 \<rparr>
      in (0 < ph_active_requests st \<and> ph_active_requests st' = 0, st'))"

section \<open>The registry\<close>

type_synonym addr = nat
type_synonym peer_health_map = "string \<Rightarrow> addr option"

record peer_health_registry =
  reg_policies :: "string \<Rightarrow> peer_health_policy option"
  reg_peers :: "string \<Rightarrow> peer_health_map option"
  reg_endpoint_peers :: "string \<Rightarrow> peer_health_map option"
  reg_has_notifier :: bool
  reg_heap :: "addr \<Rightarrow> peer_health_state"
  reg_next :: addr
  reg_notified :: "string list"

text \<open>\<open>from_config_with_notifier\<close>: a fresh state per peer, a later equal key replacing an earlier one.\<close>

fun alloc_peers :: "addr \<Rightarrow> upstream_peer list \<Rightarrow> peer_health_map \<Rightarrow> peer_health_map \<times> addr" where
  "alloc_peers a [] m = (m, a)"
| "alloc_peers a (p # ps) m = alloc_peers (a + 1) ps (m(peer_url p \<mapsto> a))"

fun alloc_upstreams ::
    "addr \<Rightarrow> (string \<times> upstream) list \<Rightarrow> (string \<Rightarrow> peer_health_map option) \<Rightarrow>
     (string \<Rightarrow> peer_health_map option) \<times> addr" where
  "alloc_upstreams a [] m = (m, a)"
| "alloc_upstreams a ((name, u) # us) m =
     (case alloc_peers a (up_peers u) (\<lambda>_. None) of (pm, a') \<Rightarrow> alloc_upstreams a' us (m(name \<mapsto> pm)))"

definition registry_from_config_with_notifier :: "config_snapshot \<Rightarrow> bool \<Rightarrow> peer_health_registry" where
  "registry_from_config_with_notifier config notifier =
     (case alloc_upstreams 0 (cs_upstreams config) (\<lambda>_. None) of (peers, next) \<Rightarrow>
       \<lparr> reg_policies = map_of (rev (map (\<lambda>(n, u). (n, policy_from_upstream u)) (cs_upstreams config))),
         reg_peers = peers,
         reg_endpoint_peers = map_of (map (\<lambda>(n, _). (n, \<lambda>_. None)) (cs_upstreams config)),
         reg_has_notifier = notifier,
         reg_heap = (\<lambda>_. default_health), reg_next = next, reg_notified = [] \<rparr>)"

definition registry_from_config :: "config_snapshot \<Rightarrow> peer_health_registry" where
  "registry_from_config config = registry_from_config_with_notifier config False"

definition get_logical_peer :: "peer_health_registry \<Rightarrow> string \<Rightarrow> string \<Rightarrow> addr option" where
  "get_logical_peer reg upstream_name peer_url' =
     Option.bind (reg_peers reg upstream_name) (\<lambda>m. m peer_url')"

definition get_endpoint :: "peer_health_registry \<Rightarrow> string \<Rightarrow> string \<Rightarrow> addr option" where
  "get_endpoint reg upstream_name key = Option.bind (reg_endpoint_peers reg upstream_name) (\<lambda>m. m key)"

definition get_health :: "peer_health_registry \<Rightarrow> string \<Rightarrow> string \<Rightarrow> addr option" where
  "get_health reg upstream_name key =
     (case get_endpoint reg upstream_name key of Some a \<Rightarrow> Some a
      | None \<Rightarrow> get_logical_peer reg upstream_name key)"

definition notify_change :: "peer_health_registry \<Rightarrow> string \<Rightarrow> peer_health_registry" where
  "notify_change reg upstream_name =
     (if reg_has_notifier reg then reg\<lparr> reg_notified := reg_notified reg @ [upstream_name] \<rparr> else reg)"

definition set_health :: "peer_health_registry \<Rightarrow> addr \<Rightarrow> peer_health_state \<Rightarrow> peer_health_registry" where
  "set_health reg a st = reg\<lparr> reg_heap := (reg_heap reg)(a := st) \<rparr>"

definition record_success :: "peer_health_registry \<Rightarrow> string \<Rightarrow> string \<Rightarrow> bool \<times> peer_health_registry" where
  "record_success reg upstream_name key =
     (case get_health reg upstream_name key of
        None \<Rightarrow> (False, reg)
      | Some a \<Rightarrow> (case ph_record_success (reg_heap reg a) of (recovered, st) \<Rightarrow>
          (recovered, notify_change (set_health reg a st) upstream_name)))"

definition record_failure ::
    "peer_health_registry \<Rightarrow> string \<Rightarrow> string \<Rightarrow> nat \<Rightarrow> peer_failure_status \<times> peer_health_registry" where
  "record_failure reg upstream_name key now =
     (let none = \<lparr> pfs_consecutive_failures = 0, pfs_entered_cooldown = False \<rparr>
      in case reg_policies reg upstream_name of
           None \<Rightarrow> (none, reg)
         | Some policy \<Rightarrow>
             (case get_health reg upstream_name key of
                None \<Rightarrow> (none, reg)
              | Some a \<Rightarrow> (case ph_record_failure (reg_heap reg a) policy now of (status, st) \<Rightarrow>
                  (status, notify_change (set_health reg a st) upstream_name))))"

definition reg_is_available :: "peer_health_registry \<Rightarrow> string \<Rightarrow> string \<Rightarrow> nat \<Rightarrow> bool" where
  "reg_is_available reg upstream_name key now =
     (case get_health reg upstream_name key of None \<Rightarrow> True | Some a \<Rightarrow> ph_is_available (reg_heap reg a) now)"

definition record_active_success ::
    "peer_health_registry \<Rightarrow> string \<Rightarrow> string \<Rightarrow> nat \<Rightarrow> active_probe_status \<times> peer_health_registry" where
  "record_active_success reg upstream_name key healthy_successes_required =
     (case get_health reg upstream_name key of
        None \<Rightarrow> (\<lparr> aps_healthy = True, aps_recovered = False, aps_consecutive_successes = 0 \<rparr>, reg)
      | Some a \<Rightarrow> (case ph_record_active_success (reg_heap reg a) healthy_successes_required of (status, st) \<Rightarrow>
          (status, notify_change (set_health reg a st) upstream_name)))"

definition record_active_failure ::
    "peer_health_registry \<Rightarrow> string \<Rightarrow> string \<Rightarrow> bool \<times> peer_health_registry" where
  "record_active_failure reg upstream_name key =
     (case get_health reg upstream_name key of
        None \<Rightarrow> (False, reg)
      | Some a \<Rightarrow> (case ph_record_active_failure (reg_heap reg a) of (changed, st) \<Rightarrow>
          (changed, notify_change (set_health reg a st) upstream_name)))"

text \<open>A guard holds the address of the state it counts in.\<close>

record active_peer_guard =
  apg_peer :: "addr option"
  apg_upstream_name :: string

definition track_active_request ::
    "peer_health_registry \<Rightarrow> string \<Rightarrow> string \<Rightarrow> active_peer_guard \<times> peer_health_registry" where
  "track_active_request reg upstream_name key =
     (case get_health reg upstream_name key of
        None \<Rightarrow> (\<lparr> apg_peer = None, apg_upstream_name = upstream_name \<rparr>, reg)
      | Some a \<Rightarrow> (case ph_increment_active_requests (reg_heap reg a) of (from_idle, st) \<Rightarrow>
          (\<lparr> apg_peer = Some a, apg_upstream_name = upstream_name \<rparr>,
           if from_idle then notify_change (set_health reg a st) upstream_name else set_health reg a st)))"

definition drop_guard :: "peer_health_registry \<Rightarrow> active_peer_guard \<Rightarrow> peer_health_registry" where
  "drop_guard reg guard =
     (case apg_peer guard of
        None \<Rightarrow> reg
      | Some a \<Rightarrow> (case ph_decrement_active_requests (reg_heap reg a) of (to_idle, st) \<Rightarrow>
          if to_idle then notify_change (set_health reg a st) (apg_upstream_name guard)
          else set_health reg a st))"

definition active_requests :: "peer_health_registry \<Rightarrow> string \<Rightarrow> string \<Rightarrow> nat" where
  "active_requests reg upstream_name key =
     (case get_health reg upstream_name key of None \<Rightarrow> 0 | Some a \<Rightarrow> ph_active_requests (reg_heap reg a))"

definition ensure_endpoint ::
    "peer_health_registry \<Rightarrow> string \<Rightarrow> string \<Rightarrow> string \<Rightarrow> peer_health_registry" where
  "ensure_endpoint reg upstream_name endpoint_key logical_peer_url =
     (let endpoints = (case reg_endpoint_peers reg upstream_name of Some m \<Rightarrow> m | None \<Rightarrow> (\<lambda>_. None))
      in case endpoints endpoint_key of
           Some _ \<Rightarrow> reg\<lparr> reg_endpoint_peers := (reg_endpoint_peers reg)(upstream_name \<mapsto> endpoints) \<rparr>
         | None \<Rightarrow>
             (case get_logical_peer reg upstream_name logical_peer_url of
                Some a \<Rightarrow> reg\<lparr> reg_endpoint_peers :=
                  (reg_endpoint_peers reg)(upstream_name \<mapsto> endpoints(endpoint_key \<mapsto> a)) \<rparr>
              | None \<Rightarrow> reg\<lparr> reg_endpoint_peers :=
                  (reg_endpoint_peers reg)(upstream_name \<mapsto> endpoints(endpoint_key \<mapsto> reg_next reg)),
                  reg_heap := (reg_heap reg)(reg_next reg := default_health),
                  reg_next := reg_next reg + 1 \<rparr>))"

section \<open>Selection\<close>

record selected_peers =
  sp_peers :: "resolved_upstream_peer list"
  sp_skipped_unhealthy :: nat

definition no_peers :: selected_peers where
  "no_peers = \<lparr> sp_peers = [], sp_skipped_unhealthy = 0 \<rparr>"

definition endpoint_is_selectable ::
    "peer_health_registry \<Rightarrow> string \<Rightarrow> resolved_upstream_peer \<Rightarrow> nat \<Rightarrow> nat \<Rightarrow> bool" where
  "endpoint_is_selectable reg upstream_name endpoint active now =
     (if \<not> reg_is_available reg upstream_name (rp_endpoint_key endpoint) now then False
      else (case rp_max_conns endpoint of None \<Rightarrow> True | Some max_conns \<Rightarrow> active < max_conns))"

definition merge_selected_peers :: "selected_peers \<Rightarrow> selected_peers \<Rightarrow> selected_peers" where
  "merge_selected_peers primary secondary =
     \<lparr> sp_peers = sp_peers primary @ sp_peers secondary,
       sp_skipped_unhealthy = sp_skipped_unhealthy primary + sp_skipped_unhealthy secondary \<rparr>"

definition ensure_all ::
    "peer_health_registry \<Rightarrow> string \<Rightarrow> resolved_upstream_peer list \<Rightarrow> peer_health_registry" where
  "ensure_all reg upstream_name endpoints =
     foldl (\<lambda>r e. ensure_endpoint r upstream_name (rp_endpoint_key e) (rp_logical_peer_url e)) reg endpoints"

text \<open>The filter over the endpoints of one peer, with the count of the skipped ones.\<close>

fun filter_endpoints ::
    "string \<Rightarrow> nat \<Rightarrow> resolved_upstream_peer list \<Rightarrow> peer_health_registry \<Rightarrow>
     resolved_upstream_peer list \<times> nat \<times> peer_health_registry" where
  "filter_endpoints upstream_name now [] reg = ([], 0, reg)"
| "filter_endpoints upstream_name now (e # es) reg =
     (let reg1 = ensure_endpoint reg upstream_name (rp_endpoint_key e) (rp_logical_peer_url e);
          active = active_requests reg1 upstream_name (rp_logical_peer_url e)
      in case filter_endpoints upstream_name now es reg1 of (avail, skipped, reg2) \<Rightarrow>
           if endpoint_is_selectable reg1 upstream_name e active now then (e # avail, skipped, reg2)
           else (avail, skipped + 1, reg2))"

definition sort_endpoints ::
    "peer_health_registry \<Rightarrow> string \<Rightarrow> resolved_upstream_peer list \<Rightarrow> resolved_upstream_peer list" where
  "sort_endpoints reg upstream_name endpoints =
     sort_key (\<lambda>e. (active_requests reg upstream_name (rp_logical_peer_url e), rp_dial_authority e)) endpoints"

fun collect_batches ::
    "(upstream_peer \<Rightarrow> resolved_upstream_peer list) \<Rightarrow> string \<Rightarrow> nat \<Rightarrow> upstream_peer list \<Rightarrow>
     peer_health_registry \<Rightarrow> resolved_upstream_peer list list \<times> nat \<times> peer_health_registry" where
  "collect_batches resolve upstream_name now [] reg = ([], 0, reg)"
| "collect_batches resolve upstream_name now (p # ps) reg =
     (let reg1 = ensure_all reg upstream_name (resolve p);
          endpoints = sort_endpoints reg1 upstream_name (resolve p)
      in case filter_endpoints upstream_name now endpoints reg1 of (available, skipped, reg2) \<Rightarrow>
           (case collect_batches resolve upstream_name now ps reg2 of (batches, skipped', reg3) \<Rightarrow>
              (if available \<noteq> [] then available # batches else batches, skipped + skipped', reg3)))"

text \<open>
  The interleaving of the batches: the endpoints at one depth, one per batch
  that is long enough, then the next depth, until the limit is reached or a
  depth adds nothing.
\<close>

fun take_depth ::
    "nat \<Rightarrow> nat \<Rightarrow> 'a list list \<Rightarrow> 'a list \<Rightarrow> 'a list" where
  "take_depth limit depth [] selected = selected"
| "take_depth limit depth (b # bs) selected =
     (if depth < length b then
        (let selected' = selected @ [b ! depth]
         in if length selected' = limit then selected' else take_depth limit depth bs selected')
      else take_depth limit depth bs selected)"

lemma take_depth_grows: "length selected \<le> length (take_depth limit depth bs selected)"
proof (induction bs arbitrary: selected)
  case (Cons b bs)
  have "length selected \<le> length (take_depth limit depth bs (selected @ [b ! depth]))"
    using Cons.IH [of "selected @ [b ! depth]"] by simp
  with Cons.IH [of selected] show ?case by (simp add: Let_def)
qed simp

function interleave :: "nat \<Rightarrow> nat \<Rightarrow> 'a list list \<Rightarrow> 'a list \<Rightarrow> 'a list" where
  "interleave limit depth batches selected =
     (if length selected < limit then
        (let selected' = take_depth limit depth batches selected
         in if length selected' = length selected then selected'
            else interleave limit (Suc depth) batches selected')
      else selected)"
  by pat_completeness auto
termination
proof (relation "measure (\<lambda>(limit, _, _, selected). limit - length selected)")
  fix limit depth :: nat and batches :: "'a list list" and selected x :: "'a list"
  assume "length selected < limit" and x: "x = take_depth limit depth batches selected"
    and "length x \<noteq> length selected"
  then show "((limit, Suc depth, batches, x), limit, depth, batches, selected)
      \<in> measure (\<lambda>(limit, _, _, selected). limit - length selected)"
    using take_depth_grows [of selected limit depth batches] by simp
qed simp

declare interleave.simps [simp del]

definition select_available_peers ::
    "(upstream_peer \<Rightarrow> resolved_upstream_peer list) \<Rightarrow> peer_health_registry \<Rightarrow> upstream \<Rightarrow> nat \<Rightarrow>
     upstream_peer list \<Rightarrow> nat \<Rightarrow> selected_peers \<times> peer_health_registry" where
  "select_available_peers resolve reg u now ordered limit =
     (if limit = 0 then (no_peers, reg)
      else case collect_batches resolve (up_name u) now ordered reg of (batches, skipped, reg') \<Rightarrow>
        (\<lparr> sp_peers = interleave limit 0 batches [], sp_skipped_unhealthy = skipped \<rparr>, reg'))"

definition select_peers_in_pool ::
    "(upstream_peer \<Rightarrow> resolved_upstream_peer list) \<Rightarrow> peer_health_registry \<Rightarrow> upstream \<Rightarrow> nat \<Rightarrow>
     ip_addr \<Rightarrow> nat \<Rightarrow> bool \<Rightarrow> selected_peers \<times> peer_health_registry \<times> upstream" where
  "select_peers_in_pool resolve reg u now client_ip limit backup =
     (case (if backup then backup_peers_for_client_ip u client_ip (length (up_peers u))
            else primary_peers_for_client_ip u client_ip (length (up_peers u))) of (ordered, u') \<Rightarrow>
        (case select_available_peers resolve reg u' now ordered limit of (sel, reg') \<Rightarrow> (sel, reg', u')))"

text \<open>The least connection order: the load a request would add, per weight.\<close>

definition sat_succ_u64 :: "nat \<Rightarrow> nat" where
  "sat_succ_u64 n = sat_add_u64 n 1"

definition projected_load_le :: "nat \<Rightarrow> nat \<Rightarrow> nat \<Rightarrow> nat \<Rightarrow> bool \<times> bool" where
  "projected_load_le left_active left_weight right_active right_weight =
     (let left = sat_succ_u64 left_active * max right_weight 1;
          right = sat_succ_u64 right_active * max left_weight 1
      in (left < right, left = right))"

type_synonym conn_candidate = "nat \<times> nat \<times> resolved_upstream_peer"

definition least_conn_le :: "conn_candidate \<Rightarrow> conn_candidate \<Rightarrow> bool" where
  "least_conn_le l r =
     (case (l, r) of ((la, lo, le), (ra, ro, re)) \<Rightarrow>
        (case projected_load_le la (rp_weight le) ra (rp_weight re) of (lower, same) \<Rightarrow>
           lower \<or> same \<and>
             (rp_weight re < rp_weight le \<or> rp_weight re = rp_weight le \<and>
                (lo < ro \<or> lo = ro \<and> rp_dial_authority le \<le> rp_dial_authority re))))"

text \<open>\<open>slice::sort_by\<close>: a stable sort by a comparison.\<close>

fun insert_by :: "('a \<Rightarrow> 'a \<Rightarrow> bool) \<Rightarrow> 'a \<Rightarrow> 'a list \<Rightarrow> 'a list" where
  "insert_by le x [] = [x]"
| "insert_by le x (y # ys) = (if le x y then x # y # ys else y # insert_by le x ys)"

definition stable_sort_by :: "('a \<Rightarrow> 'a \<Rightarrow> bool) \<Rightarrow> 'a list \<Rightarrow> 'a list" where
  "stable_sort_by le xs = foldr (insert_by le) xs []"

fun filter_candidates ::
    "string \<Rightarrow> nat \<Rightarrow> nat \<Rightarrow> resolved_upstream_peer list \<Rightarrow> peer_health_registry \<Rightarrow>
     conn_candidate list \<times> nat \<times> peer_health_registry" where
  "filter_candidates upstream_name now order [] reg = ([], 0, reg)"
| "filter_candidates upstream_name now order (e # es) reg =
     (let reg1 = ensure_endpoint reg upstream_name (rp_endpoint_key e) (rp_logical_peer_url e);
          active = active_requests reg1 upstream_name (rp_logical_peer_url e)
      in case filter_candidates upstream_name now order es reg1 of (avail, skipped, reg2) \<Rightarrow>
           if endpoint_is_selectable reg1 upstream_name e active now
           then ((active, order, e) # avail, skipped, reg2)
           else (avail, skipped + 1, reg2))"

fun collect_candidates ::
    "(upstream_peer \<Rightarrow> resolved_upstream_peer list) \<Rightarrow> string \<Rightarrow> nat \<Rightarrow> bool \<Rightarrow>
     (nat \<times> upstream_peer) list \<Rightarrow> peer_health_registry \<Rightarrow> conn_candidate list \<times> nat \<times> peer_health_registry" where
  "collect_candidates resolve upstream_name now backup [] reg = ([], 0, reg)"
| "collect_candidates resolve upstream_name now backup ((order, p) # ps) reg =
     (if peer_backup p \<noteq> backup then collect_candidates resolve upstream_name now backup ps reg
      else case filter_candidates upstream_name now order (resolve p) reg of (avail, skipped, reg1) \<Rightarrow>
        (case collect_candidates resolve upstream_name now backup ps reg1 of (avail', skipped', reg2) \<Rightarrow>
           (avail @ avail', skipped + skipped', reg2)))"

definition select_peers_by_least_conn_in_pool ::
    "(upstream_peer \<Rightarrow> resolved_upstream_peer list) \<Rightarrow> peer_health_registry \<Rightarrow> upstream \<Rightarrow> nat \<Rightarrow>
     nat \<Rightarrow> bool \<Rightarrow> selected_peers \<times> peer_health_registry" where
  "select_peers_by_least_conn_in_pool resolve reg u now limit backup =
     (case collect_candidates resolve (up_name u) now backup
             (zip [0..<length (up_peers u)] (up_peers u)) reg of (available, skipped, reg') \<Rightarrow>
        (\<lparr> sp_peers = map (\<lambda>(_, _, peer). peer) (take limit (stable_sort_by least_conn_le available)),
           sp_skipped_unhealthy = skipped \<rparr>, reg'))"

definition select_peers_by_least_conn ::
    "(upstream_peer \<Rightarrow> resolved_upstream_peer list) \<Rightarrow> peer_health_registry \<Rightarrow> upstream \<Rightarrow> nat \<Rightarrow>
     nat \<Rightarrow> selected_peers \<times> peer_health_registry" where
  "select_peers_by_least_conn resolve reg u now limit =
     (if limit = 0 then (no_peers, reg)
      else if \<not> has_primary_peers u then select_peers_by_least_conn_in_pool resolve reg u now limit True
      else case select_peers_by_least_conn_in_pool resolve reg u now limit False of (primary, reg1) \<Rightarrow>
        if sp_peers primary = [] then
          (case select_peers_by_least_conn_in_pool resolve reg1 u now limit True of (backup, reg2) \<Rightarrow>
             (merge_selected_peers primary backup, reg2))
        else if length (sp_peers primary) = limit then (primary, reg1)
        else
          (case select_peers_by_least_conn_in_pool resolve reg1 u now (limit - length (sp_peers primary)) True of
             (backup, reg2) \<Rightarrow> (merge_selected_peers primary backup, reg2)))"

definition select_peers ::
    "(upstream_peer \<Rightarrow> resolved_upstream_peer list) \<Rightarrow> peer_health_registry \<Rightarrow> upstream \<Rightarrow> nat \<Rightarrow>
     ip_addr \<Rightarrow> nat \<Rightarrow> selected_peers \<times> peer_health_registry \<times> upstream" where
  "select_peers resolve reg u now client_ip limit =
     (if up_load_balance u = LeastConn then
        (case select_peers_by_least_conn resolve reg u now limit of (sel, reg') \<Rightarrow> (sel, reg', u))
      else if \<not> has_primary_peers u then select_peers_in_pool resolve reg u now client_ip limit True
      else case select_peers_in_pool resolve reg u now client_ip limit False of (primary, reg1, u1) \<Rightarrow>
        if limit = 0 then (no_peers, reg1, u1)
        else if sp_peers primary = [] then
          (case select_peers_in_pool resolve reg1 u1 now client_ip limit True of (backup, reg2, u2) \<Rightarrow>
             (merge_selected_peers primary backup, reg2, u2))
        else if length (sp_peers primary) = limit then (primary, reg1, u1)
        else
          (case select_peers_in_pool resolve reg1 u1 now client_ip (limit - length (sp_peers primary)) True of
             (backup, reg2, u2) \<Rightarrow> (merge_selected_peers primary backup, reg2, u2)))"

end
