(* ===== verification/Health_Proofs.thy ===== *)
theory Health_Proofs
  imports Complex_Main Health_Registry
begin

text \<open>
  What the health registry guarantees: the passive cooldown, the recovery by
  active probes, the count of running requests in every reachable state, the
  soundness of peer selection, and the order of the least connection choice.
\<close>

section \<open>Passive cooldown\<close>

definition fail_all :: "peer_health_state \<Rightarrow> peer_health_policy \<Rightarrow> nat list \<Rightarrow> peer_health_state" where
  "fail_all st policy ts = foldl (\<lambda>s t. snd (ph_record_failure s policy t)) st ts"

lemma fail_all_simps [simp]:
  "fail_all st policy [] = st"
  "fail_all st policy (ts @ [t]) = snd (ph_record_failure (fail_all st policy ts) policy t)"
  by (simp_all add: fail_all_def)

lemma fail_all_below:
  assumes "php_unhealthy_after_failures policy < 2 ^ 32" and "ph_passive st = default_passive"
  shows "length ts < php_unhealthy_after_failures policy \<Longrightarrow>
     ph_passive (fail_all st policy ts) =
       \<lparr> ps_consecutive_failures = length ts, ps_unhealthy_until = None, ps_pending_recovery = False \<rparr> \<and>
     ph_active (fail_all st policy ts) = ph_active st"
proof (induction ts rule: rev_induct)
  case Nil
  then show ?case using assms(2) by (simp add: default_passive_def)
next
  case (snoc t ts)
  then show ?case using assms(1) by (simp add: ph_record_failure_def Let_def)
qed

text \<open>A healthy peer stays available through fewer failures in a row than the configured
  number; with that failure it becomes unavailable, and it is available again exactly when the
  cooldown has passed since.\<close>

theorem cooldown_after_threshold:
  assumes "0 < php_unhealthy_after_failures policy" and "php_unhealthy_after_failures policy < 2 ^ 32"
    and "length ts = php_unhealthy_after_failures policy"
    and "ph_passive st = default_passive" and "\<not> as_unhealthy (ph_active st)"
  shows "(\<forall>n t. n < length ts \<longrightarrow> ph_is_available (fail_all st policy (take n ts)) t) \<and>
     (\<forall>t. ph_is_available (fail_all st policy ts) t \<longleftrightarrow> last ts + php_cooldown policy \<le> t)"
proof (intro conjI allI impI)
  fix n t assume "n < length ts"
  then show "ph_is_available (fail_all st policy (take n ts)) t"
    using fail_all_below [OF assms(2,4), of "take n ts"] assms(3,5) by (simp add: ph_is_available_def)
next
  fix t
  obtain us x where ts: "ts = us @ [x]" using assms(1,3) by (cases ts rule: rev_cases) auto
  have below: "length us < php_unhealthy_after_failures policy" using assms(3) ts by simp
  have "Suc (length us) = php_unhealthy_after_failures policy" using assms(3) ts by simp
  then show "ph_is_available (fail_all st policy ts) t \<longleftrightarrow> last ts + php_cooldown policy \<le> t"
    using fail_all_below [OF assms(2,4) below] assms(2,5) ts
    by (simp add: ph_record_failure_def Let_def ph_is_available_def)
qed

definition sample_health_policy :: peer_health_policy where
  "sample_health_policy = \<lparr> php_unhealthy_after_failures = 2, php_cooldown = 10, php_active_health_enabled = False \<rparr>"

theorem cooldown_after_threshold_witness:
  "ph_is_available (fail_all default_health sample_health_policy (take 1 [3, 5])) 6 \<and>
   \<not> ph_is_available (fail_all default_health sample_health_policy [3, 5]) 14 \<and>
   ph_is_available (fail_all default_health sample_health_policy [3, 5]) 15"
proof -
  have all: "(\<forall>n t. n < length [3, 5 :: nat] \<longrightarrow>
        ph_is_available (fail_all default_health sample_health_policy (take n [3, 5])) t) \<and>
      (\<forall>t. ph_is_available (fail_all default_health sample_health_policy [3, 5]) t \<longleftrightarrow>
        last [3, 5] + php_cooldown sample_health_policy \<le> t)"
    by (rule cooldown_after_threshold)
      (simp_all add: sample_health_policy_def default_health_def default_active_def)
  then have "ph_is_available (fail_all default_health sample_health_policy (take 1 [3, 5])) 6"
    by (metis One_nat_def length_Cons lessI list.size(3) not_less_eq zero_less_Suc)
  with all show ?thesis by (simp add: sample_health_policy_def)
qed

section \<open>Active probes\<close>

definition probe_all :: "peer_health_state \<Rightarrow> nat \<Rightarrow> nat \<Rightarrow> peer_health_state" where
  "probe_all st required n = ((\<lambda>s. snd (ph_record_active_success s required)) ^^ n) st"

lemma probe_below:
  assumes "required < 2 ^ 32" and "ph_active st = \<lparr> as_unhealthy = True, as_consecutive_successes = 0 \<rparr>"
  shows "n < required \<Longrightarrow>
     ph_active (probe_all st required n) = \<lparr> as_unhealthy = True, as_consecutive_successes = n \<rparr> \<and>
     ph_passive (probe_all st required n) = ph_passive st"
proof (induction n)
  case 0
  then show ?case using assms(2) by (simp add: probe_all_def)
next
  case (Suc n)
  then show ?case
    using assms(1) by (simp add: probe_all_def ph_record_active_success_def Let_def)
qed

text \<open>A peer that a probe has found unhealthy becomes healthy again with the required number
  of successful probes in a row and not before.\<close>

theorem probes_recover:
  assumes "0 < required" and "required < 2 ^ 32"
  shows "(\<forall>n < required. as_unhealthy (ph_active (probe_all (snd (ph_record_active_failure st)) required n))) \<and>
     ph_active (probe_all (snd (ph_record_active_failure st)) required required) = default_active"
proof -
  let ?st = "snd (ph_record_active_failure st)"
  have down: "ph_active ?st = \<lparr> as_unhealthy = True, as_consecutive_successes = 0 \<rparr>"
    by (simp add: ph_record_active_failure_def)
  obtain m where m: "required = Suc m" using assms(1) by (cases required) auto
  have "ph_active (probe_all ?st required m) = \<lparr> as_unhealthy = True, as_consecutive_successes = m \<rparr>"
    using probe_below [OF assms(2) down, of m] m by simp
  then have "ph_active (probe_all ?st required required) = default_active"
    using assms(2) m by (simp add: probe_all_def ph_record_active_success_def Let_def)
  with probe_below [OF assms(2) down] show ?thesis by simp
qed

theorem probes_recover_witness:
  "as_unhealthy (ph_active (probe_all (snd (ph_record_active_failure default_health)) 2 1)) \<and>
   ph_active (probe_all (snd (ph_record_active_failure default_health)) 2 2) = default_active"
  using probes_recover [of 2 default_health] by simp

section \<open>Running requests\<close>

inductive reg_step ::
    "peer_health_registry \<times> active_peer_guard list \<Rightarrow> peer_health_registry \<times> active_peer_guard list \<Rightarrow> bool" where
  track: "track_active_request reg name key = (guard, reg') \<Longrightarrow> reg_step (reg, gs) (reg', guard # gs)"
| drop: "reg_step (reg, gs @ guard # gs') (drop_guard reg guard, gs @ gs')"
| success: "reg_step (reg, gs) (snd (record_success reg name key), gs)"
| failure: "reg_step (reg, gs) (snd (record_failure reg name key now), gs)"
| probe_success: "reg_step (reg, gs) (snd (record_active_success reg name key required), gs)"
| probe_failure: "reg_step (reg, gs) (snd (record_active_failure reg name key), gs)"
| ensure: "reg_step (reg, gs) (ensure_endpoint reg name key logical, gs)"

inductive reg_reachable ::
    "config_snapshot \<Rightarrow> bool \<Rightarrow> peer_health_registry \<times> active_peer_guard list \<Rightarrow> bool" for config notifier where
  start: "reg_reachable config notifier (registry_from_config_with_notifier config notifier, [])"
| step: "reg_reachable config notifier s \<Longrightarrow> reg_step s s' \<Longrightarrow> length (snd s') < 2 ^ 64 \<Longrightarrow>
    reg_reachable config notifier s'"

definition guards_at :: "active_peer_guard list \<Rightarrow> addr \<Rightarrow> nat" where
  "guards_at gs a = length (filter (\<lambda>g. apg_peer g = Some a) gs)"

lemma guards_at_simps [simp]:
  "guards_at [] a = 0"
  "guards_at (g # gs) a = (if apg_peer g = Some a then 1 else 0) + guards_at gs a"
  "guards_at (gs @ gs') a = guards_at gs a + guards_at gs' a"
  by (simp_all add: guards_at_def)

lemma guards_at_le: "guards_at gs a \<le> length gs"
  by (simp add: guards_at_def)

text \<open>The addresses in use are allocated, and every state counts the guards that refer to it.\<close>

definition reg_inv :: "peer_health_registry \<times> active_peer_guard list \<Rightarrow> bool" where
  "reg_inv s \<longleftrightarrow> (case s of (reg, gs) \<Rightarrow>
     (\<forall>name key a. get_logical_peer reg name key = Some a \<longrightarrow> a < reg_next reg) \<and>
     (\<forall>name key a. get_endpoint reg name key = Some a \<longrightarrow> a < reg_next reg) \<and>
     (\<forall>g a. g \<in> set gs \<and> apg_peer g = Some a \<longrightarrow> a < reg_next reg) \<and>
     (\<forall>a. ph_active_requests (reg_heap reg a) = guards_at gs a))"

lemma notify_simps [simp]:
  "reg_heap (notify_change reg n) = reg_heap reg" "reg_next (notify_change reg n) = reg_next reg"
  "get_logical_peer (notify_change reg n) = get_logical_peer reg"
  "get_endpoint (notify_change reg n) = get_endpoint reg"
  by (auto simp: notify_change_def get_logical_peer_def get_endpoint_def fun_eq_iff)

lemma set_health_simps [simp]:
  "reg_heap (set_health reg a st) = (reg_heap reg)(a := st)" "reg_next (set_health reg a st) = reg_next reg"
  "get_logical_peer (set_health reg a st) = get_logical_peer reg"
  "get_endpoint (set_health reg a st) = get_endpoint reg"
  by (auto simp: set_health_def get_logical_peer_def get_endpoint_def fun_eq_iff)

lemma get_health_alloc: "reg_inv (reg, gs) \<Longrightarrow> get_health reg name key = Some a \<Longrightarrow> a < reg_next reg"
  by (auto simp: reg_inv_def get_health_def split: option.splits)

lemma ph_active_requests_same [simp]:
  "ph_active_requests (snd (ph_record_success st)) = ph_active_requests st"
  "ph_active_requests (snd (ph_record_failure st policy now)) = ph_active_requests st"
  "ph_active_requests (snd (ph_record_active_success st required)) = ph_active_requests st"
  "ph_active_requests (snd (ph_record_active_failure st)) = ph_active_requests st"
  by (simp_all add: ph_record_success_def ph_record_failure_def ph_record_active_success_def
      ph_record_active_failure_def Let_def)

text \<open>A change of a state that keeps its count, seen or not by the notifier.\<close>

lemma reg_inv_set_health:
  "reg_inv (reg, gs) \<Longrightarrow> ph_active_requests st = ph_active_requests (reg_heap reg a) \<Longrightarrow>
     reg_inv (set_health reg a st, gs) \<and> reg_inv (notify_change (set_health reg a st) n, gs)"
  by (auto simp: reg_inv_def)

lemma reg_inv_records:
  assumes "reg_inv (reg, gs)"
  shows "reg_inv (snd (record_success reg name key), gs)"
    and "reg_inv (snd (record_failure reg name key now), gs)"
    and "reg_inv (snd (record_active_success reg name key required), gs)"
    and "reg_inv (snd (record_active_failure reg name key), gs)"
proof -
  have same: "reg_inv (notify_change (set_health reg a (snd (f (reg_heap reg a)))) name, gs)"
    if "\<And>st. ph_active_requests (snd (f st)) = ph_active_requests st" for a and f :: "_ \<Rightarrow> 'x \<times> _"
    using reg_inv_set_health [OF assms] that by blast
  show "reg_inv (snd (record_success reg name key), gs)"
    using assms same [of ph_record_success]
    by (auto simp: record_success_def split: option.splits prod.splits) (metis snd_conv)
  show "reg_inv (snd (record_failure reg name key now), gs)"
    using assms same [of "\<lambda>st. ph_record_failure st _ now"]
    by (auto simp: record_failure_def Let_def split: option.splits prod.splits) (metis snd_conv)
  show "reg_inv (snd (record_active_success reg name key required), gs)"
    using assms same [of "\<lambda>st. ph_record_active_success st required"]
    by (auto simp: record_active_success_def split: option.splits prod.splits) (metis snd_conv)
  show "reg_inv (snd (record_active_failure reg name key), gs)"
    using assms same [of ph_record_active_failure]
    by (auto simp: record_active_failure_def split: option.splits prod.splits) (metis snd_conv)
qed

lemma get_endpoint_ensure:
  "get_endpoint (ensure_endpoint reg name key logical) name' key' =
     (if name' = name \<and> key' = key \<and> get_endpoint reg name key = None
      then Some (case get_logical_peer reg name logical of Some a \<Rightarrow> a | None \<Rightarrow> reg_next reg)
      else get_endpoint reg name' key')"
  by (auto simp: ensure_endpoint_def get_endpoint_def Let_def split: option.splits)

lemma get_logical_ensure [simp]:
  "get_logical_peer (ensure_endpoint reg name key logical) = get_logical_peer reg"
  by (auto simp: ensure_endpoint_def get_logical_peer_def Let_def fun_eq_iff split: option.splits)

lemma heap_ensure: "a \<noteq> reg_next reg \<Longrightarrow> reg_heap (ensure_endpoint reg name key logical) a = reg_heap reg a"
  by (auto simp: ensure_endpoint_def Let_def split: option.splits)

lemma heap_ensure_next:
  "reg_heap (ensure_endpoint reg name key logical) (reg_next reg) \<in> {reg_heap reg (reg_next reg), default_health}"
  by (auto simp: ensure_endpoint_def Let_def split: option.splits)

lemma next_ensure:
  "reg_next reg \<le> reg_next (ensure_endpoint reg name key logical)"
  "get_endpoint reg name key = None \<Longrightarrow> get_logical_peer reg name logical = None \<Longrightarrow>
     reg_next (ensure_endpoint reg name key logical) = Suc (reg_next reg)"
  by (auto simp: ensure_endpoint_def get_endpoint_def Let_def split: option.splits)

lemma guards_fresh: "reg_inv (reg, gs) \<Longrightarrow> guards_at gs (reg_next reg) = 0"
  by (auto simp: reg_inv_def guards_at_def filter_empty_conv)

lemma reg_inv_ensure:
  assumes inv: "reg_inv (reg, gs)"
  shows "reg_inv (ensure_endpoint reg name key logical, gs)"
proof -
  let ?r = "ensure_endpoint reg name key logical"
  have le: "reg_next reg \<le> reg_next ?r" by (rule next_ensure)
  have "a < reg_next ?r" if "get_endpoint ?r n k = Some a" for n k a
  proof (cases "n = name \<and> k = key \<and> get_endpoint reg name key = None")
    case True
    show ?thesis
    proof (cases "get_logical_peer reg name logical")
      case None
      with True that next_ensure(2) [of reg name key logical] show ?thesis
        by (simp add: get_endpoint_ensure)
    next
      case (Some b)
      with True that have "get_logical_peer reg name logical = Some a" by (simp add: get_endpoint_ensure)
      then have "a < reg_next reg" using inv by (auto simp: reg_inv_def)
      with le show ?thesis by simp
    qed
  next
    case False
    then have "get_endpoint reg n k = Some a" using that by (auto simp: get_endpoint_ensure)
    then have "a < reg_next reg" using inv by (auto simp: reg_inv_def)
    with le show ?thesis by simp
  qed
  moreover have "ph_active_requests (reg_heap ?r a) = guards_at gs a" for a
  proof (cases "a = reg_next reg")
    case True
    have "ph_active_requests (reg_heap reg (reg_next reg)) = 0"
      using inv guards_fresh [OF inv] by (auto simp: reg_inv_def)
    with True heap_ensure_next [of reg name key logical] guards_fresh [OF inv] show ?thesis
      by (auto simp: default_health_def)
  next
    case False
    with inv show ?thesis by (simp add: heap_ensure reg_inv_def)
  qed
  moreover have "\<forall>n k a. get_logical_peer ?r n k = Some a \<longrightarrow> a < reg_next ?r"
    "\<forall>g a. g \<in> set gs \<and> apg_peer g = Some a \<longrightarrow> a < reg_next ?r"
    using inv le by (force simp: reg_inv_def)+
  ultimately show ?thesis by (simp add: reg_inv_def)
qed

lemma reg_inv_notify [simp]: "reg_inv (notify_change reg n, gs) = reg_inv (reg, gs)"
  by (simp add: reg_inv_def)

lemma reg_inv_track:
  assumes inv: "reg_inv (reg, gs)" and "track_active_request reg name key = (guard, reg')"
    and len: "length gs + 1 < 2 ^ 64"
  shows "reg_inv (reg', guard # gs)"
proof (cases "get_health reg name key")
  case None
  with assms show ?thesis by (auto simp: track_active_request_def reg_inv_def)
next
  case (Some a)
  let ?st = "(reg_heap reg a)\<lparr> ph_active_requests := (ph_active_requests (reg_heap reg a) + 1) mod 2 ^ 64 \<rparr>"
  have alloc: "a < reg_next reg" using get_health_alloc [OF inv Some] .
  have "ph_active_requests (reg_heap reg a) = guards_at gs a" using inv by (simp add: reg_inv_def)
  then have cnt: "ph_active_requests ?st = guards_at gs a + 1"
    using len guards_at_le [of gs a] by simp
  have "guard = \<lparr> apg_peer = Some a, apg_upstream_name = name \<rparr>"
    and "reg' = notify_change (set_health reg a ?st) name \<or> reg' = set_health reg a ?st"
    using assms(2) Some by (auto simp: track_active_request_def ph_increment_active_requests_def split: if_splits)
  moreover have "reg_inv (set_health reg a ?st, \<lparr> apg_peer = Some a, apg_upstream_name = name \<rparr> # gs)"
    using inv cnt alloc by (auto simp: reg_inv_def)
  ultimately show ?thesis by (metis reg_inv_notify)
qed

lemma reg_inv_drop:
  assumes inv: "reg_inv (reg, gs @ guard # gs')"
  shows "reg_inv (drop_guard reg guard, gs @ gs')"
proof (cases "apg_peer guard")
  case None
  with inv show ?thesis by (auto simp: drop_guard_def reg_inv_def)
next
  case (Some a)
  let ?st = "(reg_heap reg a)\<lparr> ph_active_requests := ph_active_requests (reg_heap reg a) - 1 \<rparr>"
  have "drop_guard reg guard = set_health reg a ?st \<or>
      drop_guard reg guard = notify_change (set_health reg a ?st) (apg_upstream_name guard)"
    using Some by (auto simp: drop_guard_def ph_decrement_active_requests_def Let_def)
  moreover have "reg_inv (set_health reg a ?st, gs @ gs')"
    using inv Some by (auto simp: reg_inv_def)
  ultimately show ?thesis by (metis reg_inv_notify)
qed

lemma reg_inv_step: "reg_step s s' \<Longrightarrow> reg_inv s \<Longrightarrow> length (snd s') < 2 ^ 64 \<Longrightarrow> reg_inv s'"
  by (induction rule: reg_step.induct)
     (auto intro: reg_inv_track reg_inv_drop reg_inv_records reg_inv_ensure)

lemma alloc_peers_bound:
  "alloc_peers a ps m = (m', a') \<Longrightarrow> (\<forall>k b. m k = Some b \<longrightarrow> b < a) \<Longrightarrow>
     a \<le> a' \<and> (\<forall>k b. m' k = Some b \<longrightarrow> b < a')"
proof (induction a ps m rule: alloc_peers.induct)
  case (2 a p ps m)
  have "\<forall>k b. (m(peer_url p \<mapsto> a)) k = Some b \<longrightarrow> b < a + 1"
    using "2.prems"(2) by (auto simp: less_Suc_eq)
  with "2.IH" "2.prems"(1) show ?case by fastforce
qed auto

lemma alloc_upstreams_bound:
  "alloc_upstreams a us m = (m', a') \<Longrightarrow> (\<forall>n pm k b. m n = Some pm \<and> pm k = Some b \<longrightarrow> b < a) \<Longrightarrow>
     a \<le> a' \<and> (\<forall>n pm k b. m' n = Some pm \<and> pm k = Some b \<longrightarrow> b < a')"
proof (induction a us m rule: alloc_upstreams.induct)
  case (2 a name u us m)
  obtain pm a1 where alloc: "alloc_peers a (up_peers u) (\<lambda>_. None) = (pm, a1)" by fastforce
  note bound = alloc_peers_bound [OF alloc]
  have "\<forall>n pm' k b. (m(name \<mapsto> pm)) n = Some pm' \<and> pm' k = Some b \<longrightarrow> b < a1"
    using bound "2.prems"(2) by (fastforce split: if_splits)
  with "2.IH" [OF alloc [symmetric]] "2.prems"(1) alloc bound show ?case by fastforce
qed auto

lemma reg_inv_start: "reg_inv (registry_from_config_with_notifier config notifier, [])"
proof -
  obtain peers next' where alloc: "alloc_upstreams 0 (cs_upstreams config) (\<lambda>_. None) = (peers, next')"
    by fastforce
  then have "\<forall>n pm k b. peers n = Some pm \<and> pm k = Some b \<longrightarrow> b < next'"
    using alloc_upstreams_bound by fastforce
  moreover have "map_of (map (\<lambda>(n, _). (n, \<lambda>_. None)) us) n = Some m \<Longrightarrow> m k = None"
    for us :: "(string \<times> upstream) list" and n m and k :: string
    by (induction us) (auto split: if_splits)
  ultimately show ?thesis
    using alloc by (fastforce simp: reg_inv_def registry_from_config_with_notifier_def get_logical_peer_def
        get_endpoint_def default_health_def bind_eq_Some_conv)
qed

lemma reachable_inv: "reg_reachable config notifier s \<Longrightarrow> reg_inv s"
  by (induction rule: reg_reachable.induct) (auto intro: reg_inv_start reg_inv_step)

text \<open>In every reachable state of the registry the number of running requests recorded for a
  peer is the number of guards that are alive for it: however requests, health reports, probes and
  resolutions interleave, no request is lost or counted twice.\<close>

theorem active_requests_count_guards:
  assumes "reg_reachable config notifier (reg, guards)"
    and "get_health reg name key = Some a"
  shows "active_requests reg name key = length (filter (\<lambda>g. apg_peer g = Some a) guards)"
  using reachable_inv [OF assms(1)] assms(2) by (simp add: active_requests_def reg_inv_def guards_at_def)

definition sample_vhost :: virtual_host where
  "sample_vhost = \<lparr> vh_id = ''server'', vh_server_names = [], vh_routes = [], vh_tls = None \<rparr>"

definition sample_config :: config_snapshot where
  "sample_config =
     \<lparr> cs_runtime = \<lparr> rt_shutdown_timeout = from_secs 10, rt_worker_threads = None, rt_accept_workers = 1 \<rparr>,
       cs_acme = None, cs_managed_certificates = [], cs_listeners = [], cs_default_vhost = sample_vhost,
       cs_vhosts = [], cs_cache_zones = [], cs_upstreams = [(''u'', sample_upstream)] \<rparr>"

lemma sample_registry_health:
  "get_health (registry_from_config_with_notifier sample_config b) ''u'' ''a'' = Some 0"
  by (simp add: registry_from_config_with_notifier_def sample_config_def sample_upstream_simps
      get_health_def get_endpoint_def get_logical_peer_def)

theorem active_requests_count_guards_witness:
  "\<exists>reg guards. reg_reachable sample_config True (reg, guards) \<and> length guards = 1 \<and>
     active_requests reg ''u'' ''a'' = length (filter (\<lambda>g. apg_peer g = Some 0) guards)"
proof -
  let ?r = "registry_from_config_with_notifier sample_config True"
  obtain guard reg where t: "track_active_request ?r ''u'' ''a'' = (guard, reg)" by fastforce
  have "reg_step (?r, []) (reg, [guard])" using t by (rule track)
  then have reach: "reg_reachable sample_config True (reg, [guard])"
    by (rule step [OF start]) simp
  have "get_health reg ''u'' ''a'' = get_health ?r ''u'' ''a''"
    using t by (auto simp: track_active_request_def get_health_def split: option.splits prod.splits if_splits)
  then have "get_health reg ''u'' ''a'' = Some 0" by (simp add: sample_registry_health)
  from active_requests_count_guards [OF reach this] reach show ?thesis
    by (intro exI [of _ reg] exI [of _ "[guard]"]) simp
qed

section \<open>Selection\<close>

text \<open>
  Tables of a registry that agree: addresses are allocated, and an endpoint
  whose key is the URL of a logical peer has that peer's state.
\<close>

definition reg_wf :: "peer_health_registry \<Rightarrow> bool" where
  "reg_wf reg \<longleftrightarrow>
     (\<forall>name key a b. get_endpoint reg name key = Some a \<and> get_logical_peer reg name key = Some b \<longrightarrow> a = b)"

text \<open>
  Endpoints as \<open>build_endpoint\<close> makes them for a configured peer: the peer is
  known, and the key is the peer's URL or no peer's URL.
\<close>

definition endpoint_ok :: "peer_health_registry \<Rightarrow> string \<Rightarrow> resolved_upstream_peer \<Rightarrow> bool" where
  "endpoint_ok reg name e \<longleftrightarrow> get_logical_peer reg name (rp_logical_peer_url e) \<noteq> None \<and>
     (rp_endpoint_key e = rp_logical_peer_url e \<or> get_logical_peer reg name (rp_endpoint_key e) = None)"

text \<open>What a step of a selection keeps.\<close>

definition reg_keeps :: "string \<Rightarrow> peer_health_registry \<Rightarrow> peer_health_registry \<Rightarrow> bool" where
  "reg_keeps name reg reg' \<longleftrightarrow> reg_wf reg' \<and> reg_heap reg' = reg_heap reg \<and>
     get_logical_peer reg' = get_logical_peer reg \<and>
     (\<forall>key a. get_endpoint reg name key = Some a \<longrightarrow> get_endpoint reg' name key = Some a)"

lemma reg_keeps_refl: "reg_wf reg \<Longrightarrow> reg_keeps name reg reg"
  by (simp add: reg_keeps_def)

lemma reg_keeps_trans: "reg_keeps name a b \<Longrightarrow> reg_keeps name b c \<Longrightarrow> reg_keeps name a c"
  by (simp add: reg_keeps_def)

lemma endpoint_ok_keeps: "reg_keeps name reg reg' \<Longrightarrow> endpoint_ok reg' name e = endpoint_ok reg name e"
  by (simp add: reg_keeps_def endpoint_ok_def)

definition known :: "peer_health_registry \<Rightarrow> string \<Rightarrow> resolved_upstream_peer \<Rightarrow> bool" where
  "known reg name e \<longleftrightarrow> endpoint_ok reg name e \<and> get_endpoint reg name (rp_endpoint_key e) \<noteq> None"

lemma known_keeps: "reg_keeps name reg reg' \<Longrightarrow> known reg name e \<Longrightarrow> known reg' name e"
  by (auto simp: known_def endpoint_ok_keeps) (auto simp: reg_keeps_def)

definition selectable :: "peer_health_registry \<Rightarrow> string \<Rightarrow> nat \<Rightarrow> resolved_upstream_peer \<Rightarrow> bool" where
  "selectable reg name now e =
     endpoint_is_selectable reg name e (active_requests reg name (rp_logical_peer_url e)) now"

lemma active_requests_logical:
  "reg_wf reg \<Longrightarrow> get_logical_peer reg name url = Some a \<Longrightarrow>
     active_requests reg name url = ph_active_requests (reg_heap reg a)"
  by (auto simp: active_requests_def get_health_def reg_wf_def split: option.splits)

lemma selectable_keeps:
  assumes "reg_wf reg" and "reg_keeps name reg reg'" and "known reg name e"
  shows "selectable reg' name now e = selectable reg name now e"
proof -
  obtain a b where a: "get_logical_peer reg name (rp_logical_peer_url e) = Some a"
    and b: "get_endpoint reg name (rp_endpoint_key e) = Some b"
    using assms(3) by (auto simp: known_def endpoint_ok_def)
  have "active_requests reg' name (rp_logical_peer_url e) = active_requests reg name (rp_logical_peer_url e)"
    using active_requests_logical [OF assms(1) a] active_requests_logical [of reg'] assms(2) a
    by (simp add: reg_keeps_def)
  moreover have "reg_is_available reg' name (rp_endpoint_key e) now = reg_is_available reg name (rp_endpoint_key e) now"
    using assms(2) b by (simp add: reg_is_available_def get_health_def reg_keeps_def)
  ultimately show ?thesis by (simp add: selectable_def endpoint_is_selectable_def)
qed

lemma ensure_keeps:
  assumes "reg_wf reg" and "endpoint_ok reg name e"
  defines "reg' \<equiv> ensure_endpoint reg name (rp_endpoint_key e) (rp_logical_peer_url e)"
  shows "reg_keeps name reg reg'" and "known reg' name e"
proof -
  obtain a where a: "get_logical_peer reg name (rp_logical_peer_url e) = Some a"
    using assms(2) by (auto simp: endpoint_ok_def)
  have heap: "reg_heap reg' = reg_heap reg"
    using a by (auto simp: reg'_def ensure_endpoint_def Let_def split: option.splits)
  have "reg_wf reg'"
    using assms(1,2) a by (auto simp: reg_wf_def reg'_def get_endpoint_ensure endpoint_ok_def split: if_splits)
  then show keeps: "reg_keeps name reg reg'"
    using heap by (auto simp: reg_keeps_def reg'_def get_endpoint_ensure)
  show "known reg' name e"
    using assms(2) endpoint_ok_keeps [OF keeps] a by (auto simp: known_def reg'_def get_endpoint_ensure)
qed

lemma ensure_all_keeps:
  "reg_wf reg \<Longrightarrow> \<forall>e \<in> set es. endpoint_ok reg name e \<Longrightarrow> reg_keeps name reg (ensure_all reg name es)"
proof (induction es arbitrary: reg)
  case (Cons e es)
  let ?r = "ensure_endpoint reg name (rp_endpoint_key e) (rp_logical_peer_url e)"
  have k: "reg_keeps name reg ?r" using Cons.prems by (simp add: ensure_keeps)
  then have "reg_keeps name ?r (ensure_all ?r name es)"
    using Cons.prems(2) by (intro Cons.IH) (auto simp: reg_keeps_def endpoint_ok_keeps [OF k])
  with k show ?case by (simp add: ensure_all_def reg_keeps_trans)
qed (simp add: ensure_all_def reg_keeps_refl)

text \<open>The interface of the two filters: what a pass over a list of endpoints delivers.\<close>

locale endpoint_pass =
  fixes pass :: "string \<Rightarrow> nat \<Rightarrow> resolved_upstream_peer list \<Rightarrow> peer_health_registry \<Rightarrow>
      'c list \<times> nat \<times> peer_health_registry"
    and entry :: "nat \<Rightarrow> resolved_upstream_peer \<Rightarrow> 'c"
    and endpoint_of :: "'c \<Rightarrow> resolved_upstream_peer"
  assumes endpoint_entry: "endpoint_of (entry active e) = e"
    and pass_Nil: "pass name now [] reg = ([], 0, reg)"
    and pass_Cons: "pass name now (e # es) reg =
      (let reg1 = ensure_endpoint reg name (rp_endpoint_key e) (rp_logical_peer_url e);
           active = active_requests reg1 name (rp_logical_peer_url e)
       in case pass name now es reg1 of (avail, skipped, reg2) \<Rightarrow>
            if endpoint_is_selectable reg1 name e active now then (entry active e # avail, skipped, reg2)
            else (avail, skipped + 1, reg2))"
begin

lemma pass_spec:
  assumes "reg_wf reg" and "\<forall>e \<in> set es. endpoint_ok reg name e"
    and "pass name now es reg = (avail, skipped, reg')"
  shows "reg_keeps name reg reg' \<and> map endpoint_of avail = filter (selectable reg' name now) es \<and>
     (\<forall>e \<in> set es. known reg' name e)"
  using assms
proof (induction es arbitrary: reg avail skipped)
  case Nil
  then show ?case by (auto simp: pass_Nil reg_keeps_refl)
next
  case (Cons e es)
  let ?r = "ensure_endpoint reg name (rp_endpoint_key e) (rp_logical_peer_url e)"
  obtain avail1 skipped1 where rest: "pass name now es ?r = (avail1, skipped1, reg')"
    using Cons.prems(3) by (auto simp: pass_Cons Let_def split: prod.splits if_splits)
  have k: "reg_keeps name reg ?r" "known ?r name e"
    using Cons.prems(1,2) by (simp_all add: ensure_keeps)
  have wf: "reg_wf ?r" using k(1) by (simp add: reg_keeps_def)
  have IH: "reg_keeps name ?r reg' \<and> map endpoint_of avail1 = filter (selectable reg' name now) es \<and>
      (\<forall>e \<in> set es. known reg' name e)"
    using Cons.prems(2) rest wf by (intro Cons.IH) (auto simp: endpoint_ok_keeps [OF k(1)])
  have "selectable reg' name now e = selectable ?r name now e"
    using selectable_keeps [OF wf _ k(2)] IH by blast
  moreover have "known reg' name e" using known_keeps IH k(2) by blast
  moreover have "reg_keeps name reg reg'" using IH k(1) reg_keeps_trans by blast
  moreover have "avail = (if selectable ?r name now e
      then entry (active_requests ?r name (rp_logical_peer_url e)) e # avail1 else avail1)"
    using Cons.prems(3) rest by (auto simp: pass_Cons Let_def selectable_def split: if_splits)
  ultimately show ?case using IH by (auto simp: endpoint_entry)
qed

end

interpretation batch_pass: endpoint_pass filter_endpoints "\<lambda>_ e. e" "\<lambda>e. e"
  by unfold_locales simp_all

interpretation conn_pass: endpoint_pass "\<lambda>name now. filter_candidates name now order"
  "\<lambda>active e. (active, order, e)" "\<lambda>(_, _, e). e" for order
  by unfold_locales simp_all

text \<open>What a selection over some peers delivers: a registry that keeps the rest, and endpoints of
  those peers that may be used, none only if none may be used.\<close>

definition delivers ::
    "(upstream_peer \<Rightarrow> resolved_upstream_peer list) \<Rightarrow> string \<Rightarrow> nat \<Rightarrow> upstream_peer set \<Rightarrow>
     peer_health_registry \<Rightarrow> resolved_upstream_peer list \<Rightarrow> peer_health_registry \<Rightarrow> bool" where
  "delivers resolve name now P reg es reg' \<longleftrightarrow> reg_keeps name reg reg' \<and>
     (\<forall>p \<in> P. \<forall>e \<in> set (resolve p). known reg' name e) \<and>
     (\<forall>e \<in> set es. selectable reg' name now e \<and> (\<exists>p \<in> P. e \<in> set (resolve p))) \<and>
     (es = [] \<longrightarrow> (\<forall>p \<in> P. \<forall>e \<in> set (resolve p). \<not> selectable reg' name now e))"

lemma delivers_trans:
  assumes "delivers resolve name now P reg es reg1" and "delivers resolve name now Q reg1 fs reg2"
  shows "delivers resolve name now (P \<union> Q) reg (es @ fs) reg2"
proof -
  have k: "reg_keeps name reg reg1" "reg_keeps name reg1 reg2" "reg_wf reg1"
    using assms by (auto simp: delivers_def reg_keeps_def)
  have sel: "selectable reg2 name now e = selectable reg1 name now e" if "p \<in> P" "e \<in> set (resolve p)" for p e
    using assms(1) that selectable_keeps [OF k(3,2)] by (auto simp: delivers_def)
  have "known reg2 name e" if "p \<in> P" "e \<in> set (resolve p)" for p e
    using assms(1) that known_keeps [OF k(2)] by (auto simp: delivers_def)
  with assms sel reg_keeps_trans [OF k(1,2)] show ?thesis
    unfolding delivers_def by (fastforce simp: ball_Un)
qed

lemma delivers_known_peers:
  "delivers resolve name now P reg es reg' \<Longrightarrow> \<forall>e. endpoint_ok reg' name e = endpoint_ok reg name e"
  by (auto simp: delivers_def endpoint_ok_keeps)

abbreviation resolves :: "(upstream_peer \<Rightarrow> resolved_upstream_peer list) \<Rightarrow> string \<Rightarrow>
    upstream_peer set \<Rightarrow> peer_health_registry \<Rightarrow> bool" where
  "resolves resolve name P reg \<equiv> reg_wf reg \<and> (\<forall>p \<in> P. \<forall>e \<in> set (resolve p). endpoint_ok reg name e)"

lemma delivers_resolves:
  "delivers resolve name now P reg es reg' \<Longrightarrow> resolves resolve name Q reg \<Longrightarrow> resolves resolve name Q reg'"
  by (auto simp: delivers_def endpoint_ok_keeps) (auto simp: reg_keeps_def)

lemma collect_batches_delivers:
  "collect_batches resolve name now ps reg = (batches, skipped, reg') \<Longrightarrow>
     resolves resolve name (set ps) reg \<Longrightarrow>
     [] \<notin> set batches \<and> delivers resolve name now (set ps) reg (concat batches) reg'"
proof (induction ps arbitrary: reg batches skipped)
  case Nil
  then show ?case by (simp add: delivers_def reg_keeps_refl)
next
  case (Cons p ps)
  let ?r1 = "ensure_all reg name (resolve p)"
  let ?es = "sort_endpoints ?r1 name (resolve p)"
  obtain avail s1 r2 where f: "filter_endpoints name now ?es ?r1 = (avail, s1, r2)" by (metis prod_cases3)
  obtain bs s2 where c: "collect_batches resolve name now ps r2 = (bs, s2, reg')"
    and batches: "batches = (if avail \<noteq> [] then avail # bs else bs)"
    using Cons.prems(1) f by (auto simp: Let_def split: prod.splits)
  have k1: "reg_keeps name reg ?r1" using Cons.prems(2) by (intro ensure_all_keeps) auto
  have "reg_keeps name ?r1 r2 \<and> map (\<lambda>e. e) avail = filter (selectable r2 name now) ?es \<and>
      (\<forall>e \<in> set ?es. known r2 name e)"
    using Cons.prems(2) k1 f
    by (intro batch_pass.pass_spec) (auto simp: sort_endpoints_def endpoint_ok_keeps [OF k1] reg_keeps_def)
  then have "delivers resolve name now {p} reg avail r2"
    using reg_keeps_trans [OF k1] by (auto simp: delivers_def sort_endpoints_def filter_empty_conv)
  moreover from this have "[] \<notin> set bs \<and> delivers resolve name now (set ps) r2 (concat bs) reg'"
    using Cons.IH [OF c] delivers_resolves Cons.prems(2) by auto
  ultimately show ?case
    using delivers_trans [of resolve name now "{p}" reg avail r2 "set ps" "concat bs" reg'] batches by auto
qed

lemma take_depth_bound: "length selected < limit \<Longrightarrow> length (take_depth limit depth bs selected) \<le> limit"
proof (induction bs arbitrary: selected)
  case (Cons b bs)
  show ?case
  proof (cases "depth < length b \<and> Suc (length selected) \<noteq> limit")
    case True
    with Cons.IH [of "selected @ [b ! depth]"] Cons.prems show ?thesis by simp
  next
    case False
    with Cons.IH [of selected] Cons.prems show ?thesis by (auto simp: Let_def)
  qed
qed simp

lemma take_depth_set: "set (take_depth limit depth bs selected) \<subseteq> set selected \<union> set (concat bs)"
proof (induction bs arbitrary: selected)
  case (Cons b bs)
  from Cons [of selected] Cons [of "selected @ [b ! depth]"] show ?case by (auto simp: Let_def)
qed simp

lemma interleave_bound: "length selected \<le> limit \<Longrightarrow> length (interleave limit depth bs selected) \<le> limit"
proof (induction limit depth bs selected rule: interleave.induct)
  case (1 limit depth bs selected)
  then show ?case
    using take_depth_bound [of selected limit depth bs]
    by (subst interleave.simps) (auto simp: Let_def)
qed

lemma interleave_set: "set (interleave limit depth bs selected) \<subseteq> set selected \<union> set (concat bs)"
proof (induction limit depth bs selected rule: interleave.induct)
  case (1 limit depth bs selected)
  then show ?case
    using take_depth_set [of limit depth bs selected]
    by (subst interleave.simps) (auto simp: Let_def)
qed

lemma interleave_grows: "length selected \<le> length (interleave limit depth bs selected)"
proof (induction limit depth bs selected rule: interleave.induct)
  case (1 limit depth bs selected)
  then show ?case
    using take_depth_grows [of selected limit depth bs]
    by (subst interleave.simps) (auto simp: Let_def)
qed

lemma interleave_empty:
  assumes "0 < limit" and "[] \<notin> set bs" and "interleave limit 0 bs [] = []"
  shows "bs = []"
proof (rule ccontr)
  assume "bs \<noteq> []"
  then obtain b cs where bs: "bs = b # cs" by (cases bs) auto
  have b: "b \<noteq> []" using assms(2) bs by auto
  have "1 \<le> length (take_depth limit 0 bs [])"
    using bs b take_depth_grows [of "[b ! 0]" limit 0 cs] by (simp add: Let_def)
  moreover have "length (take_depth limit 0 bs []) \<le> length (interleave limit 0 bs [])"
    using assms(1) interleave_grows [of "take_depth limit 0 bs []" limit 1 bs]
    by (simp add: interleave.simps [of limit 0 bs "[]"] Let_def)
  ultimately show False using assms(3) by simp
qed

lemma select_available_delivers:
  assumes "select_available_peers resolve reg u now ordered limit = (sel, reg')" and "0 < limit"
    and "resolves resolve (up_name u) (set ordered) reg"
  shows "length (sp_peers sel) \<le> limit \<and> delivers resolve (up_name u) now (set ordered) reg (sp_peers sel) reg'"
proof -
  obtain batches skipped where c: "collect_batches resolve (up_name u) now ordered reg = (batches, skipped, reg')"
    and sel: "sp_peers sel = interleave limit 0 batches []"
    using assms(1,2) by (auto simp: select_available_peers_def split: prod.splits)
  note d = collect_batches_delivers [OF c assms(3)]
  have "set (interleave limit 0 batches []) \<subseteq> set (concat batches)" using interleave_set [of limit 0 batches "[]"] by simp
  moreover have "interleave limit 0 batches [] = [] \<Longrightarrow> concat batches = []"
    using interleave_empty [OF assms(2), of batches] d by auto
  ultimately show ?thesis using d sel interleave_bound [of "[]" limit 0 batches] by (auto simp: delivers_def)
qed

section \<open>Pools\<close>

definition pool :: "upstream \<Rightarrow> bool \<Rightarrow> upstream_peer set" where
  "pool u backup = {p \<in> set (up_peers u). peer_backup p = backup}"

lemma pool_Un: "pool u False \<union> pool u True = set (up_peers u)"
  by (auto simp: pool_def)

text \<open>With positive weights the order of a pool lists the whole pool.\<close>

lemma weighted_pool:
  assumes "\<forall>p \<in> set (up_peers u). 0 < peer_weight p" and "peer_indices_for_pool u backup \<noteq> []"
  shows "0 < total_weight_for_indices u (peer_indices_for_pool u backup)"
    and "set (weighted_peers_from_indices u (peer_indices_for_pool u backup) start (length (up_peers u)))
      = pool u backup"
proof -
  let ?ix = "peer_indices_for_pool u backup"
  have w: "0 < peer_weight (up_peers u ! i)" if "i \<in> set ?ix" for i
    using that assms(1) by (auto simp: set_pool)
  have "hd ?ix \<in> set ?ix" using assms(2) by simp
  then have "0 < peer_weight (up_peers u ! hd ?ix)" by (rule w)
  then show T: "0 < total_weight_for_indices u ?ix"
    using assms(2) by (cases ?ix) (auto simp: total_weight_for_indices_def)
  have "length ?ix \<le> length (up_peers u)" by (metis pool_indices diff_zero length_filter_le length_upt)
  moreover have "length (slot_order u ?ix start) \<le> length ?ix" by (rule length_slot_order [OF T])
  moreover have "0 < length (up_peers u)" using assms(2) by (auto simp: pool_indices)
  ultimately have "weighted_peers_from_indices u ?ix start (length (up_peers u))
      = map ((!) (up_peers u)) (map ((!) ?ix) (slot_order u ?ix start))"
    using weighted_peers_slot_order [OF T] by simp
  moreover have "set (map ((!) ?ix) (slot_order u ?ix start)) = set ?ix"
    using set_order_indices(2) [OF T distinct_pool] w by auto
  moreover have "(!) (up_peers u) ` set ?ix = pool u backup"
    by (auto simp: pool_def set_pool in_set_conv_nth image_iff)
  ultimately show "set (weighted_peers_from_indices u ?ix start (length (up_peers u))) = pool u backup"
    by (simp only: set_map)
qed

lemma pool_empty: "peer_indices_for_pool u backup = [] \<Longrightarrow> pool u backup = {}"
  by (auto simp: pool_def pool_indices filter_empty_conv in_set_conv_nth)

lemma peers_for_client_ip_pool:
  assumes "\<forall>p \<in> set (up_peers u). 0 < peer_weight p"
    and "peers_for_client_ip_in_pool u ip (length (up_peers u)) backup = (ordered, u')"
  shows "set ordered = pool u backup \<and> up_peers u' = up_peers u \<and> up_name u' = up_name u"
proof (cases "peer_indices_for_pool u backup = []")
  case True
  with assms(2) pool_empty [OF True] show ?thesis by (auto simp: peers_for_client_ip_in_pool_def)
next
  case False
  have "length (up_peers u) \<noteq> 0" using False by (auto simp: pool_indices)
  with assms(2) weighted_pool [OF assms(1) False] False show ?thesis
    by (cases "up_load_balance u")
      (auto simp: peers_for_client_ip_in_pool_def next_peers_in_pool_def ip_hash_peers_in_pool_def Let_def)
qed

lemma select_pool_delivers:
  assumes "select_peers_in_pool resolve reg u now ip limit backup = (sel, reg', u')" and "0 < limit"
    and "\<forall>p \<in> set (up_peers u). 0 < peer_weight p"
    and "resolves resolve (up_name u) (set (up_peers u)) reg"
  shows "length (sp_peers sel) \<le> limit \<and> delivers resolve (up_name u) now (pool u backup) reg (sp_peers sel) reg' \<and>
     up_peers u' = up_peers u \<and> up_name u' = up_name u"
proof -
  obtain ordered where o: "peers_for_client_ip_in_pool u ip (length (up_peers u)) backup = (ordered, u')"
    and s: "select_available_peers resolve reg u' now ordered limit = (sel, reg')"
    using assms(1)
    by (auto simp: select_peers_in_pool_def backup_peers_for_client_ip_def primary_peers_for_client_ip_def
        split: prod.splits if_splits)
  note p = peers_for_client_ip_pool [OF assms(3) o]
  have "resolves resolve (up_name u') (set ordered) reg"
    using assms(4) p by (auto simp: pool_def)
  from select_available_delivers [OF s assms(2) this] p show ?thesis by simp
qed

text \<open>The same for the least connection order.\<close>

lemma set_insert_by [simp]: "set (insert_by le x xs) = insert x (set xs)"
  by (induction xs) auto

lemma set_stable_sort_by [simp]: "set (stable_sort_by le xs) = set xs"
  by (induction xs) (auto simp: stable_sort_by_def)

lemma collect_candidates_delivers:
  "collect_candidates resolve name now backup ps reg = (avail, skipped, reg') \<Longrightarrow>
     resolves resolve name (set (map snd ps)) reg \<Longrightarrow>
     delivers resolve name now {p \<in> set (map snd ps). peer_backup p = backup} reg
       (map (\<lambda>(_, _, e). e) avail) reg'"
proof (induction ps arbitrary: reg avail skipped)
  case Nil
  then show ?case by (simp add: delivers_def reg_keeps_refl)
next
  case (Cons op ps)
  obtain order p where op: "op = (order, p)" by (cases op)
  let ?S = "{p \<in> set (map snd ps). peer_backup p = backup}"
  have split: "{p \<in> set (map snd (op # ps)). peer_backup p = backup}
      = (if peer_backup p = backup then {p} \<union> ?S else ?S)" using op by auto
  show ?case
  proof (cases "peer_backup p = backup")
    case False
    have "delivers resolve name now ?S reg (map (\<lambda>(_, _, e). e) avail) reg'"
      using Cons.prems op False by (intro Cons.IH) auto
    with False show ?thesis by (simp only: split if_False)
  next
    case True
    obtain a1 s1 r1 where f: "filter_candidates name now order (resolve p) reg = (a1, s1, r1)" by (metis prod_cases3)
    obtain a2 s2 where c: "collect_candidates resolve name now backup ps r1 = (a2, s2, reg')"
      and avail: "avail = a1 @ a2" using Cons.prems(1) f True op by (auto split: prod.splits)
    have "reg_keeps name reg r1 \<and> map (\<lambda>(_, _, e). e) a1 = filter (selectable r1 name now) (resolve p) \<and>
        (\<forall>e \<in> set (resolve p). known r1 name e)"
      using Cons.prems(2) f op by (intro conn_pass.pass_spec) auto
    then have d: "delivers resolve name now {p} reg (map (\<lambda>(_, _, e). e) a1) r1"
      by (auto simp: delivers_def filter_empty_conv)
    have "delivers resolve name now {p \<in> set (map snd ps). peer_backup p = backup} r1
        (map (\<lambda>(_, _, e). e) a2) reg'"
      using delivers_resolves [OF d, of "set (map snd ps)"] Cons.prems(2) op by (intro Cons.IH [OF c]) auto
    from delivers_trans [OF d this] True show ?thesis by (simp only: split if_True avail map_append simp_thms)
  qed
qed

lemma least_conn_pool_delivers:
  assumes "select_peers_by_least_conn_in_pool resolve reg u now limit backup = (sel, reg')" and "0 < limit"
    and "resolves resolve (up_name u) (set (up_peers u)) reg"
  shows "length (sp_peers sel) \<le> limit \<and> delivers resolve (up_name u) now (pool u backup) reg (sp_peers sel) reg'"
proof -
  let ?ps = "zip [0..<length (up_peers u)] (up_peers u)"
  obtain avail skipped where c: "collect_candidates resolve (up_name u) now backup ?ps reg = (avail, skipped, reg')"
    and sel: "sp_peers sel = map (\<lambda>(_, _, e). e) (take limit (stable_sort_by least_conn_le avail))"
    using assms(1) by (auto simp: select_peers_by_least_conn_in_pool_def split: prod.splits)
  have P: "{p \<in> set (map snd ?ps). peer_backup p = backup} = pool u backup" by (simp add: pool_def)
  have d: "delivers resolve (up_name u) now (pool u backup) reg (map (\<lambda>(_, _, e). e) avail) reg'"
    using collect_candidates_delivers [OF c] assms(3) unfolding P by simp
  have "set (sp_peers sel) \<subseteq> set (map (\<lambda>(_, _, e). e) avail)"
    unfolding sel using set_take_subset [of limit "stable_sort_by least_conn_le avail"]
    by (simp only: set_map set_stable_sort_by image_mono)
  moreover have "sp_peers sel = [] \<Longrightarrow> map (\<lambda>(_, _, e). e) avail = []"
    unfolding sel using assms(2) set_stable_sort_by [of least_conn_le avail] by auto
  ultimately show ?thesis using d sel by (auto simp: delivers_def)
qed

lemma delivers_empty_union:
  "delivers resolve name now P reg [] reg1 \<Longrightarrow> delivers resolve name now Q reg1 es reg2 \<Longrightarrow>
     delivers resolve name now (P \<union> Q) reg es reg2"
  using delivers_trans [of resolve name now P reg "[]"] by simp

lemma no_primary: "\<not> has_primary_peers u \<Longrightarrow> pool u True = set (up_peers u)"
  by (auto simp: has_primary_peers_def pool_def list_ex_iff)

text \<open>The full selection: some part \<open>P\<close> of the peers is tried, all of them if nothing is found.\<close>

definition selection_ok ::
    "(upstream_peer \<Rightarrow> resolved_upstream_peer list) \<Rightarrow> peer_health_registry \<Rightarrow> upstream \<Rightarrow> nat \<Rightarrow> nat \<Rightarrow>
     resolved_upstream_peer list \<Rightarrow> peer_health_registry \<Rightarrow> bool" where
  "selection_ok resolve reg u now limit es reg' \<longleftrightarrow> length es \<le> limit \<and>
     (\<exists>P \<subseteq> set (up_peers u). (es = [] \<longrightarrow> P = set (up_peers u)) \<and> delivers resolve (up_name u) now P reg es reg')"

text \<open>Both selections try the primary pool and complete it from the backup pool.\<close>

lemma primary_then_backup:
  assumes d1: "length (sp_peers s1) \<le> limit" "delivers resolve (up_name u) now (pool u False) reg (sp_peers s1) r1"
    and d2: "sp_peers s1 \<noteq> [] \<Longrightarrow> length (sp_peers s1) \<noteq> limit \<Longrightarrow>
        length (sp_peers s2) \<le> limit - length (sp_peers s1) \<and>
        delivers resolve (up_name u) now (pool u True) r1 (sp_peers s2) r2"
    and d2': "sp_peers s1 = [] \<Longrightarrow> length (sp_peers s2) \<le> limit \<and>
        delivers resolve (up_name u) now (pool u True) r1 (sp_peers s2) r2"
    and sel: "(sel, reg') = (if sp_peers s1 = [] then (merge_selected_peers s1 s2, r2)
        else if length (sp_peers s1) = limit then (s1, r1) else (merge_selected_peers s1 s2, r2))"
  shows "selection_ok resolve reg u now limit (sp_peers sel) reg'"
proof -
  have sub: "pool u False \<subseteq> set (up_peers u)" by (auto simp: pool_def)
  consider "sp_peers s1 \<noteq> []" "length (sp_peers s1) = limit" | "sp_peers s1 = []"
    | "sp_peers s1 \<noteq> []" "length (sp_peers s1) \<noteq> limit" by blast
  then show ?thesis
  proof cases
    case 1
    with sel d1 sub show ?thesis by (auto simp: selection_ok_def)
  next
    case 2
    with d2' d1(2) have "delivers resolve (up_name u) now (pool u False \<union> pool u True) reg (sp_peers s2) r2"
      using delivers_empty_union by fastforce
    with 2 sel d2' show ?thesis by (auto simp: selection_ok_def pool_Un merge_selected_peers_def)
  next
    case 3
    with d2 d1(2) have "delivers resolve (up_name u) now (pool u False \<union> pool u True) reg (sp_peers s1 @ sp_peers s2) r2"
      using delivers_trans by fastforce
    with 3 sel d2 d1(1) show ?thesis by (auto simp: selection_ok_def pool_Un merge_selected_peers_def)
  qed
qed

lemma select_peers_ok:
  assumes sel: "select_peers resolve reg u now ip limit = (sel, reg', u')" and limit: "0 < limit"
    and w: "\<forall>p \<in> set (up_peers u). 0 < peer_weight p"
    and res: "resolves resolve (up_name u) (set (up_peers u)) reg"
  shows "selection_ok resolve reg u now limit (sp_peers sel) reg'"
proof (cases "up_load_balance u = LeastConn")
  case True
  then have lc: "select_peers_by_least_conn resolve reg u now limit = (sel, reg')"
    using sel by (auto simp: select_peers_def split: prod.splits)
  show ?thesis
  proof (cases "has_primary_peers u")
    case False
    with lc limit least_conn_pool_delivers [of resolve reg u now limit True sel reg', OF _ limit res] show ?thesis
      by (auto simp: select_peers_by_least_conn_def selection_ok_def no_primary)
  next
    case prim: True
    obtain s1 r1 where s1: "select_peers_by_least_conn_in_pool resolve reg u now limit False = (s1, r1)" by fastforce
    note d1 = least_conn_pool_delivers [OF s1 limit res]
    have res1: "resolves resolve (up_name u) (set (up_peers u)) r1" using delivers_resolves d1 res by blast
    let ?n = "if sp_peers s1 = [] then limit else limit - length (sp_peers s1)"
    obtain s2 r2 where s2: "select_peers_by_least_conn_in_pool resolve r1 u now ?n True = (s2, r2)" by fastforce
    have d2: "0 < ?n \<Longrightarrow> length (sp_peers s2) \<le> ?n \<and> delivers resolve (up_name u) now (pool u True) r1 (sp_peers s2) r2"
      using least_conn_pool_delivers [OF s2 _ res1] .
    show ?thesis
      by (rule primary_then_backup [of s1 limit resolve u now reg r1 s2 r2])
        (use d1 d2 limit lc prim s1 s2 in \<open>auto simp: select_peers_by_least_conn_def split: if_splits\<close>)
  qed
next
  case rr: False
  show ?thesis
  proof (cases "has_primary_peers u")
    case False
    with sel rr select_pool_delivers [OF _ limit w res, of now ip True sel reg' u'] show ?thesis
      by (auto simp: select_peers_def selection_ok_def no_primary)
  next
    case prim: True
    obtain s1 r1 u1 where s1: "select_peers_in_pool resolve reg u now ip limit False = (s1, r1, u1)" by (metis prod_cases3)
    note d1 = select_pool_delivers [OF s1 limit w res]
    have res1: "resolves resolve (up_name u1) (set (up_peers u1)) r1" using delivers_resolves d1 res by metis
    let ?n = "if sp_peers s1 = [] then limit else limit - length (sp_peers s1)"
    obtain s2 r2 u2 where s2: "select_peers_in_pool resolve r1 u1 now ip ?n True = (s2, r2, u2)" by (metis prod_cases3)
    have "pool u1 True = pool u True" using d1 by (simp add: pool_def)
    then have d2: "0 < ?n \<Longrightarrow> length (sp_peers s2) \<le> ?n \<and> delivers resolve (up_name u) now (pool u True) r1 (sp_peers s2) r2"
      using select_pool_delivers [OF s2 _ _ res1] w d1 by metis
    show ?thesis
      by (rule primary_then_backup [of s1 limit resolve u now reg r1 s2 r2])
        (use d1 d2 limit sel rr prim s1 s2 in \<open>auto simp: select_peers_def split: if_splits prod.splits\<close>)
  qed
qed

text \<open>What the operator means by a usable endpoint: available, and below its limit of connections.\<close>

definition endpoint_usable :: "peer_health_registry \<Rightarrow> string \<Rightarrow> nat \<Rightarrow> resolved_upstream_peer \<Rightarrow> bool" where
  "endpoint_usable reg name now e \<longleftrightarrow> reg_is_available reg name (rp_endpoint_key e) now \<and>
     (\<forall>m. rp_max_conns e = Some m \<longrightarrow> active_requests reg name (rp_logical_peer_url e) < m)"

lemma endpoint_is_selectable_usable:
  "endpoint_is_selectable reg name e (active_requests reg name (rp_logical_peer_url e)) now
     \<longleftrightarrow> endpoint_usable reg name now e"
  by (simp add: endpoint_is_selectable_def endpoint_usable_def split: option.split)

text \<open>C5. Peer selection returns at most the number of endpoints asked for, every one of them an
  endpoint of a peer of the upstream that is available and below its connection limit, and it
  comes back empty-handed only if no endpoint of any peer, primary or backup, may be used.\<close>

theorem select_peers_sound_and_live:
  assumes "select_peers resolve reg u now ip limit = (sel, reg', u')" and "0 < limit"
    and "\<forall>p \<in> set (up_peers u). 0 < peer_weight p"
    and "reg_wf reg" and "\<forall>p \<in> set (up_peers u). \<forall>e \<in> set (resolve p). endpoint_ok reg (up_name u) e"
  shows "length (sp_peers sel) \<le> limit \<and>
     (\<forall>e \<in> set (sp_peers sel). (\<exists>p \<in> set (up_peers u). e \<in> set (resolve p)) \<and>
        endpoint_usable reg' (up_name u) now e) \<and>
     (sp_peers sel = [] \<longrightarrow> (\<forall>p \<in> set (up_peers u). \<forall>e \<in> set (resolve p).
        \<not> endpoint_usable reg' (up_name u) now e))"
proof -
  from select_peers_ok [OF assms(1,2,3)] assms(4,5)
  have "selection_ok resolve reg u now limit (sp_peers sel) reg'" by blast
  then obtain P where "length (sp_peers sel) \<le> limit" "P \<subseteq> set (up_peers u)"
    "sp_peers sel = [] \<longrightarrow> P = set (up_peers u)" "delivers resolve (up_name u) now P reg (sp_peers sel) reg'"
    by (auto simp: selection_ok_def)
  then show ?thesis unfolding delivers_def selectable_def endpoint_is_selectable_usable by blast
qed

definition sample_endpoint :: "upstream_peer \<Rightarrow> resolved_upstream_peer" where
  "sample_endpoint p =
     \<lparr> rp_url = peer_url p, rp_logical_peer_url = peer_url p, rp_endpoint_key = peer_url p,
       rp_display_url = peer_url p, rp_scheme = peer_scheme p, rp_upstream_authority = peer_authority p,
       rp_dial_authority = peer_authority p, rp_socket_addr = (V4 1, 80), rp_server_name = peer_authority p,
       rp_weight = peer_weight p, rp_backup = peer_backup p, rp_max_conns = peer_max_conns p \<rparr>"

theorem select_peers_sound_and_live_witness:
  "\<exists>sel reg' u'. select_peers (\<lambda>p. [sample_endpoint p]) (registry_from_config sample_config) sample_upstream 5 (V4 9) 2
      = (sel, reg', u') \<and> length (sp_peers sel) \<le> 2"
proof -
  let ?reg = "registry_from_config sample_config"
  obtain sel reg' u' where s: "select_peers (\<lambda>p. [sample_endpoint p]) ?reg sample_upstream 5 (V4 9) 2 = (sel, reg', u')"
    by (metis prod_cases3)
  have w: "\<forall>p \<in> set (up_peers sample_upstream). 0 < peer_weight p" by (simp add: sample_upstream_simps)
  have wf: "reg_wf ?reg"
    by (simp add: reg_wf_def registry_from_config_def registry_from_config_with_notifier_def sample_config_def
        get_endpoint_def bind_eq_Some_conv split: prod.split)
  have ok: "\<forall>p \<in> set (up_peers sample_upstream). \<forall>e \<in> set [sample_endpoint p]. endpoint_ok ?reg (up_name sample_upstream) e"
    by (simp add: endpoint_ok_def sample_endpoint_def registry_from_config_def registry_from_config_with_notifier_def
        sample_config_def sample_upstream_simps get_logical_peer_def)
  from select_peers_sound_and_live [OF s _ w wf ok] s show ?thesis by auto
qed

section \<open>The least connection order\<close>

text \<open>The key the comparison stands for: projected load per weight, heavier first, then the
  configuration order and the address.\<close>

definition least_conn_key :: "conn_candidate \<Rightarrow> rat \<times> int \<times> nat \<times> string" where
  "least_conn_key c = (case c of (active, order, e) \<Rightarrow>
     (of_nat (sat_succ_u64 active) / of_nat (max (rp_weight e) 1), - int (rp_weight e), order, rp_dial_authority e))"

lemma frac_compare:
  fixes a b v w :: nat
  assumes "0 < v" and "0 < w"
  shows "(of_nat a / of_nat v < (of_nat b / of_nat w :: rat)) = (a * w < b * v)"
    and "(of_nat a / of_nat v = (of_nat b / of_nat w :: rat)) = (a * w = b * v)"
proof -
  have "(of_nat a / of_nat v < (of_nat b / of_nat w :: rat)) = ((of_nat (a * w) :: rat) < of_nat (b * v))"
    using assms by (simp add: divide_simps)
  then show "(of_nat a / of_nat v < (of_nat b / of_nat w :: rat)) = (a * w < b * v)" by (simp only: of_nat_less_iff)
  have "(of_nat a / of_nat v = (of_nat b / of_nat w :: rat)) = ((of_nat (a * w) :: rat) = of_nat (b * v))"
    using assms by (simp add: divide_simps)
  then show "(of_nat a / of_nat v = (of_nat b / of_nat w :: rat)) = (a * w = b * v)" by (simp only: of_nat_eq_iff)
qed

lemma least_conn_le_key: "least_conn_le l r \<longleftrightarrow> least_conn_key l \<le> least_conn_key r"
proof -
  obtain la lo le ra ro re where l: "l = (la, lo, le)" and r: "r = (ra, ro, re)" by (metis prod_cases3)
  have pos: "0 < max (rp_weight le) 1" "0 < max (rp_weight re) 1" by simp_all
  show ?thesis
    unfolding l r least_conn_le_def least_conn_key_def projected_load_le_def prod.case Let_def less_eq_prod_def
      fst_conv snd_conv frac_compare [OF pos] order_le_less [of "_ / _"]
    by (auto simp: frac_compare [OF pos])
qed

lemma insert_by_key: "(\<And>x y. le x y = (f x \<le> f y)) \<Longrightarrow> insert_by le x ys = insort_key f x ys"
  by (induction ys) auto

text \<open>The comparison that orders the least connection candidates is a consistent total order:
  sorting by it sorts by the load that the request would add per unit of weight, then by weight,
  configuration order and address.\<close>

theorem least_conn_sort_by_key:
  "stable_sort_by least_conn_le candidates = sort_key least_conn_key candidates"
proof -
  have "insert_by least_conn_le x ys = insort_key least_conn_key x ys" for x ys
    by (rule insert_by_key) (rule least_conn_le_key)
  then have "foldr (insert_by least_conn_le) cs [] = foldr (insort_key least_conn_key) cs []" for cs
    by (induction cs) simp_all
  then show ?thesis by (simp add: stable_sort_by_def sort_key_def)
qed

section \<open>Endpoints of one peer share their health\<close>

text \<open>
  Endpoints that a selection has registered for the same logical peer have the
  same state, whatever their addresses: a failure recorded for one of them is a
  failure of all.
\<close>

theorem endpoints_share_health:
  assumes "get_logical_peer reg name url = Some a"
    and "get_endpoint reg name k1 = None" and "get_endpoint reg name k2 = None" and "k1 \<noteq> k2"
    and "reg_policies reg name = Some policy" and "php_unhealthy_after_failures policy = 1"
    and "0 < php_cooldown policy" and "reg_heap reg a = default_health"
  shows "\<not> reg_is_available (snd (record_failure
       (ensure_endpoint (ensure_endpoint reg name k1 url) name k2 url) name k1 now)) name k2 now"
proof -
  let ?r = "ensure_endpoint (ensure_endpoint reg name k1 url) name k2 url"
  have ends: "get_endpoint ?r name k1 = Some a" "get_endpoint ?r name k2 = Some a"
    using assms by (simp_all add: get_endpoint_ensure)
  have policies: "reg_policies (ensure_endpoint r n k l) = reg_policies r" for r n k l
    by (auto simp: ensure_endpoint_def Let_def split: option.splits)
  have heap: "reg_heap ?r a = default_health"
    using assms(1,8) by (auto simp: ensure_endpoint_def Let_def get_logical_peer_def split: option.splits)
  show ?thesis
    using ends assms(5-7) heap
    by (simp add: record_failure_def policies get_health_def ph_record_failure_def default_health_def
        default_passive_def Let_def reg_is_available_def ph_is_available_def)
qed

end
