(* ===== verification/Health_Snapshot.thy ===== *)
theory Health_Snapshot
  imports Health_Registry
begin

text \<open>
  The view of the health registry for operators
  (\<open>crates/rginx-http/src/proxy/health/registry/snapshot.rs\<close> and the snapshot
  types of \<open>registry/mod.rs\<close>): one line per resolved endpoint and one per
  configured peer, the latter aggregated from its endpoints where it has any.
\<close>

record peer_health_snapshot =
  phs_peer_url :: string
  phs_backup :: bool
  phs_weight :: nat
  phs_available :: bool
  phs_passive_consecutive_failures :: nat
  phs_passive_cooldown_remaining_ms :: "nat option"
  phs_passive_pending_recovery :: bool
  phs_active_unhealthy :: bool
  phs_active_consecutive_successes :: nat
  phs_active_requests :: nat

record endpoint_health_snapshot =
  ehs_endpoint_key :: string
  ehs_logical_peer_url :: string
  ehs_display_url :: string
  ehs_dial_addr :: string
  ehs_server_name :: string
  ehs_backup :: bool
  ehs_weight :: nat
  ehs_available :: bool
  ehs_passive_consecutive_failures :: nat
  ehs_passive_cooldown_remaining_ms :: "nat option"
  ehs_passive_pending_recovery :: bool
  ehs_active_unhealthy :: bool
  ehs_active_consecutive_successes :: nat
  ehs_active_requests :: nat

record resolver_runtime_snapshot =
  rrs_resolve_requests_total :: nat
  rrs_cache_hits_total :: nat
  rrs_cache_misses_total :: nat
  rrs_refreshes_total :: nat
  rrs_resolve_errors_total :: nat
  rrs_stale_answers_total :: nat
  rrs_cache_entries :: "resolver_cache_entry_snapshot list"

record upstream_health_snapshot =
  uhs_upstream_name :: string
  uhs_unhealthy_after_failures :: nat
  uhs_cooldown_ms :: nat
  uhs_active_health_enabled :: bool
  uhs_resolver :: resolver_runtime_snapshot
  uhs_peers :: "peer_health_snapshot list"
  uhs_endpoints :: "endpoint_health_snapshot list"

definition cooldown_remaining_ms :: "peer_health_state \<Rightarrow> nat \<Rightarrow> nat option" where
  "cooldown_remaining_ms st now =
     map_option duration_to_ms
       (Option.bind (ps_unhealthy_until (ph_passive st)) (\<lambda>until. checked_duration_since until now))"

definition ph_snapshot :: "peer_health_state \<Rightarrow> nat \<Rightarrow> upstream_peer \<Rightarrow> peer_health_snapshot" where
  "ph_snapshot st now peer =
     \<lparr> phs_peer_url = peer_url peer, phs_backup = peer_backup peer, phs_weight = peer_weight peer,
       phs_available = ((case ps_unhealthy_until (ph_passive st) of None \<Rightarrow> True | Some until \<Rightarrow> until \<le> now)
         \<and> \<not> as_unhealthy (ph_active st)),
       phs_passive_consecutive_failures = ps_consecutive_failures (ph_passive st),
       phs_passive_cooldown_remaining_ms = cooldown_remaining_ms st now,
       phs_passive_pending_recovery = ps_pending_recovery (ph_passive st),
       phs_active_unhealthy = as_unhealthy (ph_active st),
       phs_active_consecutive_successes = as_consecutive_successes (ph_active st),
       phs_active_requests = ph_active_requests st \<rparr>"

definition ph_snapshot_endpoint ::
    "peer_health_state \<Rightarrow> nat \<Rightarrow> resolved_upstream_peer \<Rightarrow> endpoint_health_snapshot" where
  "ph_snapshot_endpoint st now endpoint =
     \<lparr> ehs_endpoint_key = rp_endpoint_key endpoint, ehs_logical_peer_url = rp_logical_peer_url endpoint,
       ehs_display_url = rp_display_url endpoint, ehs_dial_addr = show_socket_addr (rp_socket_addr endpoint),
       ehs_server_name = rp_server_name endpoint, ehs_backup = rp_backup endpoint,
       ehs_weight = rp_weight endpoint,
       ehs_available = ((case ps_unhealthy_until (ph_passive st) of None \<Rightarrow> True | Some until \<Rightarrow> until \<le> now)
         \<and> \<not> as_unhealthy (ph_active st)),
       ehs_passive_consecutive_failures = ps_consecutive_failures (ph_passive st),
       ehs_passive_cooldown_remaining_ms = cooldown_remaining_ms st now,
       ehs_passive_pending_recovery = ps_pending_recovery (ph_passive st),
       ehs_active_unhealthy = as_unhealthy (ph_active st),
       ehs_active_consecutive_successes = as_consecutive_successes (ph_active st),
       ehs_active_requests = ph_active_requests st \<rparr>"

definition default_peer_snapshot :: "upstream_peer \<Rightarrow> bool \<Rightarrow> peer_health_snapshot" where
  "default_peer_snapshot peer available =
     \<lparr> phs_peer_url = peer_url peer, phs_backup = peer_backup peer, phs_weight = peer_weight peer,
       phs_available = available, phs_passive_consecutive_failures = 0,
       phs_passive_cooldown_remaining_ms = None, phs_passive_pending_recovery = False,
       phs_active_unhealthy = False, phs_active_consecutive_successes = 0, phs_active_requests = 0 \<rparr>"

definition default_endpoint_snapshot :: "resolved_upstream_peer \<Rightarrow> endpoint_health_snapshot" where
  "default_endpoint_snapshot endpoint =
     \<lparr> ehs_endpoint_key = rp_endpoint_key endpoint, ehs_logical_peer_url = rp_logical_peer_url endpoint,
       ehs_display_url = rp_display_url endpoint, ehs_dial_addr = show_socket_addr (rp_socket_addr endpoint),
       ehs_server_name = rp_server_name endpoint, ehs_backup = rp_backup endpoint,
       ehs_weight = rp_weight endpoint, ehs_available = True, ehs_passive_consecutive_failures = 0,
       ehs_passive_cooldown_remaining_ms = None, ehs_passive_pending_recovery = False,
       ehs_active_unhealthy = False, ehs_active_consecutive_successes = 0, ehs_active_requests = 0 \<rparr>"

text \<open>\<open>Iterator::max\<close>.\<close>

definition max_option :: "nat list \<Rightarrow> nat option" where
  "max_option xs = (if xs = [] then None else Some (foldl max 0 xs))"

definition aggregate_peer_snapshot ::
    "upstream_peer \<Rightarrow> endpoint_health_snapshot list \<Rightarrow> peer_health_snapshot" where
  "aggregate_peer_snapshot peer endpoints =
     \<lparr> phs_peer_url = peer_url peer, phs_backup = peer_backup peer, phs_weight = peer_weight peer,
       phs_available = list_ex ehs_available endpoints,
       phs_passive_consecutive_failures =
         (case max_option (map ehs_passive_consecutive_failures endpoints) of Some n \<Rightarrow> n | None \<Rightarrow> 0),
       phs_passive_cooldown_remaining_ms =
         max_option (List.map_filter ehs_passive_cooldown_remaining_ms endpoints),
       phs_passive_pending_recovery = list_ex ehs_passive_pending_recovery endpoints,
       phs_active_unhealthy = list_all ehs_active_unhealthy endpoints,
       phs_active_consecutive_successes =
         (case max_option (map ehs_active_consecutive_successes endpoints) of Some n \<Rightarrow> n | None \<Rightarrow> 0),
       phs_active_requests = sum_list (map ehs_active_requests endpoints) mod 2 ^ 64 \<rparr>"

definition peer_is_hostname :: "uri_parser \<Rightarrow> upstream_peer \<Rightarrow> bool" where
  "peer_is_hostname uri_host_port peer =
     (case Option.bind (uri_host_port (peer_url peer)) fst of
        None \<Rightarrow> False
      | Some host \<Rightarrow> parse_ip host = None)"

definition snapshot_for_upstream ::
    "uri_parser \<Rightarrow> peer_health_registry \<Rightarrow> nat \<Rightarrow> upstream \<Rightarrow> resolver_runtime_snapshot \<Rightarrow>
     resolved_upstream_peer list \<Rightarrow> upstream_health_snapshot" where
  "snapshot_for_upstream uri_host_port reg now u resolver endpoints =
     (let policy = (case reg_policies reg (up_name u) of Some p \<Rightarrow> p | None \<Rightarrow> policy_from_upstream u);
          endpoint_snapshots = map (\<lambda>endpoint.
            case get_health reg (up_name u) (rp_endpoint_key endpoint) of
              Some a \<Rightarrow> ph_snapshot_endpoint (reg_heap reg a) now endpoint
            | None \<Rightarrow> default_endpoint_snapshot endpoint) endpoints;
          peer_snapshots = map (\<lambda>peer.
            let peer_endpoints = filter (\<lambda>e. ehs_logical_peer_url e = peer_url peer) endpoint_snapshots
            in if peer_endpoints \<noteq> [] then aggregate_peer_snapshot peer peer_endpoints
               else case get_logical_peer reg (up_name u) (peer_url peer) of
                      Some a \<Rightarrow> ph_snapshot (reg_heap reg a) now peer
                    | None \<Rightarrow> default_peer_snapshot peer (\<not> peer_is_hostname uri_host_port peer)) (up_peers u)
      in \<lparr> uhs_upstream_name = up_name u,
           uhs_unhealthy_after_failures = php_unhealthy_after_failures policy,
           uhs_cooldown_ms = min (as_millis (php_cooldown policy)) u64_max,
           uhs_active_health_enabled = php_active_health_enabled policy,
           uhs_resolver = resolver, uhs_peers = peer_snapshots, uhs_endpoints = endpoint_snapshots \<rparr>)"

definition resolver_snapshot :: "upstream_resolver \<Rightarrow> nat \<Rightarrow> string list \<Rightarrow> resolver_runtime_snapshot" where
  "resolver_snapshot r now hosts =
     \<lparr> rrs_resolve_requests_total = res_resolve_requests_total r, rrs_cache_hits_total = res_cache_hits_total r,
       rrs_cache_misses_total = res_cache_misses_total r, rrs_refreshes_total = res_refreshes_total r,
       rrs_resolve_errors_total = res_resolve_errors_total r, rrs_stale_answers_total = res_stale_answers_total r,
       rrs_cache_entries = sort_key rces_hostname
         (List.map_filter (\<lambda>h. map_option (cache_entry_snapshot now h) (res_cache r h)) hosts) \<rparr>"

section \<open>What the snapshot reports\<close>

lemma ph_snapshot_available [simp]: "phs_available (ph_snapshot st now peer) = ph_is_available st now"
  by (simp add: ph_snapshot_def ph_is_available_def)

lemma ehs_available_iff [simp]: "ehs_available (ph_snapshot_endpoint st now e) = ph_is_available st now"
  by (simp add: ph_snapshot_endpoint_def ph_is_available_def)


text \<open>
  The endpoints of a peer share one state, and the aggregation adds up what they
  report: a peer with two resolved endpoints is reported with twice its running
  requests.
\<close>

theorem aggregate_counts_shared_requests_twice:
  assumes "get_health reg (up_name u) (rp_endpoint_key e1) = Some a"
    and "get_health reg (up_name u) (rp_endpoint_key e2) = Some a"
    and "rp_logical_peer_url e1 = peer_url peer" and "rp_logical_peer_url e2 = peer_url peer"
    and "up_peers u = [peer]" and "2 * ph_active_requests (reg_heap reg a) < 2 ^ 64"
  shows "map phs_active_requests (uhs_peers (snapshot_for_upstream uri_host_port reg now u resolver [e1, e2]))
     = [2 * ph_active_requests (reg_heap reg a)]"
  using assms
  by (simp add: snapshot_for_upstream_def Let_def ph_snapshot_endpoint_def aggregate_peer_snapshot_def)

end
