(* ===== verification/Cache_Key.thy ===== *)
theory Cache_Key
  imports Core_Config
begin

text \<open>
  Cache key templates and cache predicates
  (\<open>crates/rginx-core/src/config/cache/key_template.rs\<close> and
  \<open>cache/predicate.rs\<close>).  The parser of header names of the crate \<open>http\<close> is the
  argument \<open>header_name\<close>, which returns the name in lower case or \<open>None\<close>.
\<close>

section \<open>Predicates\<close>

record cache_predicate_request_context =
  pr_method :: http_method
  pr_uri :: string
  pr_headers :: header_map

definition pair_of :: "string \<Rightarrow> string \<times> string" where
  "pair_of s = (case split_once (CHR ''='') s of Some nv \<Rightarrow> nv | None \<Rightarrow> (s, []))"

definition query_pairs :: "string \<Rightarrow> (string \<times> string) list" where
  "query_pairs uri =
     (case split_once (CHR ''?'') uri of
        None \<Rightarrow> []
      | Some (_, query) \<Rightarrow> map pair_of (filter (\<lambda>pair. pair \<noteq> []) (str_split (CHR ''&'') query)))"

definition cookie_pairs :: "header_map \<Rightarrow> (string \<times> string) list" where
  "cookie_pairs headers =
     map (\<lambda>cookie. case pair_of cookie of (name, value) \<Rightarrow> (str_trim name, str_trim value))
       (filter (\<lambda>cookie. cookie \<noteq> [])
         (map str_trim
           (concat (map (str_split (CHR '';'')) (List.map_filter to_str (hm_get_all headers ''cookie''))))))"

fun matches_request :: "cache_predicate_request_context \<Rightarrow> cache_predicate \<Rightarrow> bool" where
  "matches_request request (PAny conditions) = list_ex (matches_request request) conditions"
| "matches_request request (PAll conditions) = list_all (matches_request request) conditions"
| "matches_request request (PNot condition) = (\<not> matches_request request condition)"
| "matches_request request (PMethod method) = (method = pr_method request)"
| "matches_request request (PHeaderExists name) = hm_contains (pr_headers request) name"
| "matches_request request (PHeaderEquals name value) =
     list_ex (\<lambda>header. header = value) (List.map_filter to_str (hm_get_all (pr_headers request) name))"
| "matches_request request (PQueryExists name) =
     list_ex (\<lambda>(key, _). key = name) (query_pairs (pr_uri request))"
| "matches_request request (PQueryEquals name value) =
     list_ex (\<lambda>(key, candidate). key = name \<and> candidate = value) (query_pairs (pr_uri request))"
| "matches_request request (PCookieExists name) =
     list_ex (\<lambda>(key, _). key = name) (cookie_pairs (pr_headers request))"
| "matches_request request (PCookieEquals name value) =
     list_ex (\<lambda>(key, candidate). key = name \<and> candidate = value) (cookie_pairs (pr_headers request))"
| "matches_request request (PStatus _) = False"

fun matches_response :: "cache_predicate_request_context \<Rightarrow> status_code \<Rightarrow> cache_predicate \<Rightarrow> bool" where
  "matches_response request status (PAny conditions) = list_ex (matches_response request status) conditions"
| "matches_response request status (PAll conditions) = list_all (matches_response request status) conditions"
| "matches_response request status (PNot condition) = (\<not> matches_response request status condition)"
| "matches_response request status (PStatus statuses) = (status \<in> set statuses)"
| "matches_response request status predicate = matches_request request predicate"

section \<open>Key templates\<close>

datatype cache_key_template_error =
    UnclosedKeyVariable string
  | UnescapedClose string
  | EmptyKeyVariable string
  | UnknownKeyVariable string
  | InvalidRequestHeader string
  | EmptyVariableArgument string

definition parse_cache_key_variable ::
    "(string \<Rightarrow> string option) \<Rightarrow> string \<Rightarrow> cache_key_template_error + cache_key_variable" where
  "parse_cache_key_variable header_name name =
     (if name = ''scheme'' then Inr KScheme
      else if name = ''host'' then Inr KHost
      else if name = ''uri'' then Inr KUri
      else if name = ''method'' then Inr KMethod
      else case strip_prefix name ''header:'' of
        Some h \<Rightarrow>
          (let header = str_trim h
           in if header = [] then Inl (EmptyVariableArgument name)
              else (case header_name header of
                      None \<Rightarrow> Inl (InvalidRequestHeader header)
                    | Some n \<Rightarrow> Inr (KHeader n)))
      | None \<Rightarrow>
          (case strip_prefix name ''query:'' of
             Some q \<Rightarrow> (if str_trim q = [] then Inl (EmptyVariableArgument name) else Inr (KQuery (str_trim q)))
           | None \<Rightarrow>
               (case strip_prefix name ''cookie:'' of
                  Some c \<Rightarrow> (if str_trim c = [] then Inl (EmptyVariableArgument name)
                             else Inr (KCookie (str_trim c)))
                | None \<Rightarrow> Inl (UnknownKeyVariable name))))"

definition flush_key_literal ::
    "string \<Rightarrow> cache_key_template_part list \<Rightarrow> cache_key_template_part list" where
  "flush_key_literal literal parts = (if literal \<noteq> [] then parts @ [KLiteral literal] else parts)"

text \<open>
  The loop, on what is left of the template.  It advances by bytes where the
  source advances by characters; both copy every byte outside of braces.
\<close>

function key_parse ::
    "(string \<Rightarrow> string option) \<Rightarrow> string \<Rightarrow> string \<Rightarrow> string \<Rightarrow> cache_key_template_part list
       \<Rightarrow> cache_key_template_error + cache_key_template_part list" where
  "key_parse header_name raw rest literal parts =
     (case rest of
        [] \<Rightarrow> Inr (flush_key_literal literal parts)
      | ch # after_start \<Rightarrow>
          if str_starts_with rest ''{{'' then
            key_parse header_name raw (drop 2 rest) (literal @ ''{'') parts
          else if str_starts_with rest ''}}'' then
            key_parse header_name raw (drop 2 rest) (literal @ ''}'') parts
          else if ch = CHR ''{'' then
            (case split_once (CHR ''}'') after_start of
               None \<Rightarrow> Inl (UnclosedKeyVariable raw)
             | Some (body, rest') \<Rightarrow>
                 (let variable = str_trim body
                  in if variable = [] then Inl (EmptyKeyVariable raw)
                     else bind_res (parse_cache_key_variable header_name variable)
                       (\<lambda>v. key_parse header_name raw rest' []
                              (flush_key_literal literal parts @ [KVariable v]))))
          else if ch = CHR ''}'' then Inl (UnescapedClose raw)
          else key_parse header_name raw after_start (literal @ [ch]) parts)"
  by pat_completeness auto
termination
proof (relation "measure (\<lambda>(_, _, rest, _, _). length rest)", goal_cases)
  case (4 header_name raw rest literal parts ch after_start p body rest')
  then show ?case by (auto simp: split_once_Some)
qed auto

declare key_parse.simps [simp del]

definition cache_key_template_parse ::
    "(string \<Rightarrow> string option) \<Rightarrow> string \<Rightarrow> cache_key_template_error + cache_key_template" where
  "cache_key_template_parse header_name raw =
     bind_res (key_parse header_name raw raw [] [])
       (\<lambda>parts. Inr \<lparr> kt_raw = raw, kt_parts = parts \<rparr>)"

record cache_key_render_context =
  kc_scheme :: string
  kc_host :: string
  kc_uri :: string
  kc_method :: string
  kc_headers :: header_map

definition append_joined_header_values :: "string \<Rightarrow> header_map \<Rightarrow> string \<Rightarrow> string" where
  "append_joined_header_values rendered headers name =
     rendered @ str_join '','' (List.map_filter to_str (hm_get_all headers name))"

definition first_value :: "string \<Rightarrow> (string \<times> string) list \<Rightarrow> string" where
  "first_value name pairs = (case find (\<lambda>(key, _). key = name) pairs of Some (_, v) \<Rightarrow> v | None \<Rightarrow> [])"

fun render_key_part :: "cache_key_render_context \<Rightarrow> string \<Rightarrow> cache_key_template_part \<Rightarrow> string" where
  "render_key_part ctx rendered (KLiteral value) = rendered @ value"
| "render_key_part ctx rendered (KVariable KScheme) = rendered @ kc_scheme ctx"
| "render_key_part ctx rendered (KVariable KHost) = rendered @ kc_host ctx"
| "render_key_part ctx rendered (KVariable KUri) = rendered @ kc_uri ctx"
| "render_key_part ctx rendered (KVariable KMethod) = rendered @ kc_method ctx"
| "render_key_part ctx rendered (KVariable (KHeader name)) =
     append_joined_header_values rendered (kc_headers ctx) name"
| "render_key_part ctx rendered (KVariable (KQuery name)) =
     rendered @ first_value name (query_pairs (kc_uri ctx))"
| "render_key_part ctx rendered (KVariable (KCookie name)) =
     rendered @ first_value name (cookie_pairs (kc_headers ctx))"

definition template_render :: "cache_key_template \<Rightarrow> cache_key_render_context \<Rightarrow> string" where
  "template_render t ctx = foldl (render_key_part ctx) [] (kt_parts t)"

definition references_method :: "cache_key_template \<Rightarrow> bool" where
  "references_method t = list_ex (\<lambda>p. p = KVariable KMethod) (kt_parts t)"

section \<open>Lemmas\<close>

text \<open>The text one part contributes.\<close>

abbreviation part_text :: "cache_key_render_context \<Rightarrow> cache_key_template_part \<Rightarrow> string" where
  "part_text ctx p \<equiv> render_key_part ctx [] p"

lemma render_key_part_append: "render_key_part ctx r p = r @ part_text ctx p"
  by (cases "(ctx, r, p)" rule: render_key_part.cases) (simp_all add: append_joined_header_values_def)

lemma foldl_render_key: "foldl (render_key_part ctx) r ps = r @ concat (map (part_text ctx) ps)"
proof (induction ps arbitrary: r)
  case (Cons p ps)
  from Cons [of "r @ part_text ctx p"] show ?case by (simp add: render_key_part_append [of _ r])
qed simp

lemma template_render_concat: "template_render t ctx = concat (map (part_text ctx) (kt_parts t))"
  by (simp add: template_render_def foldl_render_key)

abbreviation parts_text :: "cache_key_render_context \<Rightarrow> cache_key_template_part list \<Rightarrow> string" where
  "parts_text ctx ps \<equiv> concat (map (part_text ctx) ps)"

lemma parts_text_flush [simp]: "parts_text ctx (flush_key_literal lit ps) = parts_text ctx ps @ lit"
  by (simp add: flush_key_literal_def)

text \<open>A predicate that mentions no status answers for a response as for the request.\<close>

fun mentions_status :: "cache_predicate \<Rightarrow> bool" where
  "mentions_status (PAny cs) = list_ex mentions_status cs"
| "mentions_status (PAll cs) = list_ex mentions_status cs"
| "mentions_status (PNot c) = mentions_status c"
| "mentions_status (PStatus _) = True"
| "mentions_status _ = False"

lemma matches_response_without_status:
  "\<not> mentions_status p \<Longrightarrow> matches_response r st p = matches_request r p"
  by (induction p) (auto simp: list_ex_iff list_all_iff)

section \<open>Printing a template\<close>

fun key_variable_name :: "cache_key_variable \<Rightarrow> string" where
  "key_variable_name KScheme = ''scheme''"
| "key_variable_name KHost = ''host''"
| "key_variable_name KUri = ''uri''"
| "key_variable_name KMethod = ''method''"
| "key_variable_name (KHeader n) = ''header:'' @ n"
| "key_variable_name (KQuery n) = ''query:'' @ n"
| "key_variable_name (KCookie n) = ''cookie:'' @ n"

fun print_key_part :: "cache_key_template_part \<Rightarrow> string" where
  "print_key_part (KLiteral s) = escape_braces s"
| "print_key_part (KVariable v) = ''{'' @ key_variable_name v @ ''}''"

definition printable_name :: "string \<Rightarrow> bool" where
  "printable_name n \<longleftrightarrow> n \<noteq> [] \<and> CHR ''}'' \<notin> set n \<and> \<not> is_ws (hd n) \<and> \<not> is_ws (last n)"

fun printable_part :: "(string \<Rightarrow> string option) \<Rightarrow> cache_key_template_part \<Rightarrow> bool" where
  "printable_part header_name (KVariable (KHeader n)) = (printable_name n \<and> header_name n = Some n)"
| "printable_part header_name (KVariable (KQuery n)) = printable_name n"
| "printable_part header_name (KVariable (KCookie n)) = printable_name n"
| "printable_part header_name _ = True"

lemma parse_key_variable_name:
  assumes "printable_part header_name (KVariable v)"
  shows "parse_cache_key_variable header_name (key_variable_name v) = Inr v"
    and "str_trim (key_variable_name v) = key_variable_name v"
    and "CHR ''}'' \<notin> set (key_variable_name v)" and "key_variable_name v \<noteq> []"
    and "hd (key_variable_name v) \<noteq> CHR ''{''"
proof -
  have trim: "printable_name n \<Longrightarrow> str_trim n = n" for n by (simp add: printable_name_def str_trim_id)
  show "parse_cache_key_variable header_name (key_variable_name v) = Inr v"
    using assms by (cases v)
      (auto simp: parse_cache_key_variable_def trim printable_name_def strip_prefix_def str_starts_with_def Let_def)
  show "str_trim (key_variable_name v) = key_variable_name v"
    using assms by (cases v) (auto intro!: str_trim_id simp: is_ws_def printable_name_def)
  show "CHR ''}'' \<notin> set (key_variable_name v)" "key_variable_name v \<noteq> []" "hd (key_variable_name v) \<noteq> CHR ''{''"
    using assms by (cases v; simp add: printable_name_def)+
qed

lemma key_parse_variable:
  assumes "printable_part hn (KVariable v)"
  shows "key_parse hn raw (''{'' @ key_variable_name v @ ''}'' @ rest) lit parts =
     key_parse hn raw rest [] (flush_key_literal lit parts @ [KVariable v])"
proof -
  note v = parse_key_variable_name [OF assms]
  obtain c n where n: "key_variable_name v = c # n" and c: "c \<noteq> CHR ''{''"
    using v(4,5) by (cases "key_variable_name v") auto
  have "split_once (CHR ''}'') (key_variable_name v @ ''}'' @ rest) = Some (key_variable_name v, rest)"
    using v(3) by simp
  then show ?thesis using v(1,2,4) c
    by (simp add: key_parse.simps [of _ _ "_ # _"] str_starts_with_def n Let_def)
qed

interpretation key_template: brace_template "key_parse hn raw" KLiteral KVariable key_variable_name print_key_part "printable_part hn" part_text
  for hn raw
proof
  show "key_parse hn raw [] l ps = Inr (if l \<noteq> [] then ps @ [KLiteral l] else ps)" for l ps
    by (simp add: key_parse.simps [of _ _ "[]"] flush_key_literal_def)
  show "printable_part hn (KVariable v) \<Longrightarrow> key_parse hn raw (CHR ''{'' # key_variable_name v @ CHR ''}'' # r) l ps =
      key_parse hn raw r [] ((if l \<noteq> [] then ps @ [KLiteral l] else ps) @ [KVariable v])" for v r l ps
    using key_parse_variable [of hn v raw r l ps] by (simp add: flush_key_literal_def)
  show "(\<exists>s. p = KLiteral s) \<or> (\<exists>v. p = KVariable v)" for p by (cases p) auto
qed (simp_all add: key_parse.simps [of _ _ "_ # _"] str_starts_with_def)

text \<open>Every sequence of literals and variables is a cache key template: printed with doubled
  braces it parses, and the parsed template renders every request as the sequence does.\<close>

theorem cache_key_print_parse:
  assumes "list_all (printable_part header_name) parts"
  shows "\<exists>t. cache_key_template_parse header_name (concat (map print_key_part parts)) = Inr t \<and>
     (\<forall>ctx. template_render t ctx = concat (map (render_key_part ctx []) parts))"
  using key_template.parse_print [OF assms, of "concat (map print_key_part parts)" "[]" "[]"]
  by (auto simp: cache_key_template_parse_def template_render_concat)

theorem cache_key_print_parse_witness:
  "\<exists>t. cache_key_template_parse Some ''k={{{host}}}{header:x-a}'' = Inr t \<and>
     (\<forall>ctx. template_render t ctx = ''k={'' @ kc_host ctx @ ''}'' @
        str_join '','' (List.map_filter to_str (hm_get_all (kc_headers ctx) ''x-a'')))"
  using cache_key_print_parse [of Some "[KLiteral ''k={'', KVariable KHost, KLiteral ''}'', KVariable (KHeader ''x-a'')]"]
  by (simp add: printable_name_def is_ws_def escape_braces_def append_joined_header_values_def)

end
