(* ===== verification/Cache_Directives.thy ===== *)
theory Cache_Directives
  imports Core_Config
begin

text \<open>
  The headers that steer the cache: \<open>Cache-Control\<close>, \<open>Pragma\<close>, \<open>Expires\<close> and
  \<open>X-Accel-Expires\<close> (\<open>crates/rginx-http/src/cache/policy/directives.rs\<close>) and
  the request headers that select a variant (\<open>cache/vary.rs\<close>).  The current time
  in nanoseconds since the epoch is the argument \<open>now_ns\<close>, the parser of the crate
  \<open>httpdate\<close> the argument \<open>http_date\<close>.
\<close>

section \<open>Directives\<close>

text \<open>The directives of all \<open>Cache-Control\<close> headers in the order of the nested loops.\<close>

definition cache_control_values :: "header_map \<Rightarrow> string list" where
  "cache_control_values headers = List.map_filter to_str (hm_get_all headers ''cache-control'')"

definition directive_list :: "header_map \<Rightarrow> string list" where
  "directive_list headers = concat (map (str_split (CHR '','')) (cache_control_values headers))"

definition directive_seconds :: "string \<Rightarrow> nat option" where
  "directive_seconds value = parse_uint u64_max (trim_matches (CHR 0x22) (str_trim value))"

fun max_age_loop :: "duration option \<Rightarrow> string list \<Rightarrow> duration option" where
  "max_age_loop max_age [] = max_age"
| "max_age_loop max_age (directive # rest) =
     (case split_once (CHR ''='') (str_trim directive) of
        None \<Rightarrow> max_age_loop max_age rest
      | Some (name, value) \<Rightarrow>
          if eq_ignore_ascii_case (str_trim name) ''s-maxage'' \<or> eq_ignore_ascii_case (str_trim name) ''max-age''
          then (case directive_seconds value of
                  None \<Rightarrow> max_age_loop max_age rest
                | Some seconds \<Rightarrow>
                    if eq_ignore_ascii_case (str_trim name) ''s-maxage'' then Some (from_secs seconds)
                    else max_age_loop (if max_age = None then Some (from_secs seconds) else max_age) rest)
          else max_age_loop max_age rest)"

definition cache_control_max_age :: "header_map \<Rightarrow> duration option" where
  "cache_control_max_age headers = max_age_loop None (directive_list headers)"

definition expires_ttl :: "(string \<Rightarrow> nat option) \<Rightarrow> nat \<Rightarrow> header_map \<Rightarrow> duration option" where
  "expires_ttl http_date now_ns headers =
     Option.bind (hm_get headers ''expires'') (\<lambda>v.
     Option.bind (to_str v) (\<lambda>s.
     Option.bind (http_date s) (\<lambda>expires. Some (expires - now_ns))))"

definition directive_name :: "string \<Rightarrow> string" where
  "directive_name directive =
     str_trim (case split_once (CHR ''='') directive of None \<Rightarrow> directive | Some (name, _) \<Rightarrow> name)"

definition cache_control_contains :: "header_map \<Rightarrow> string list \<Rightarrow> bool" where
  "cache_control_contains headers directives =
     list_ex (\<lambda>value. case to_str value of
        None \<Rightarrow> False
      | Some v \<Rightarrow> list_ex (\<lambda>directive.
            list_ex (eq_ignore_ascii_case (directive_name directive)) directives) (str_split (CHR '','') v))
       (hm_get_all headers ''cache-control'')"

definition pragma_contains :: "header_map \<Rightarrow> string \<Rightarrow> bool" where
  "pragma_contains headers directive =
     list_ex (\<lambda>value. case to_str value of
        None \<Rightarrow> False
      | Some v \<Rightarrow> list_ex (\<lambda>token. eq_ignore_ascii_case (str_trim token) directive) (str_split (CHR '','') v))
       (hm_get_all headers ''pragma'')"

fun duration_loop :: "string \<Rightarrow> string list \<Rightarrow> duration option" where
  "duration_loop wanted [] = None"
| "duration_loop wanted (directive # rest) =
     (case split_once (CHR ''='') (str_trim directive) of
        None \<Rightarrow> duration_loop wanted rest
      | Some (name, value) \<Rightarrow>
          if \<not> eq_ignore_ascii_case (str_trim name) wanted then duration_loop wanted rest
          else (case directive_seconds value of
                  None \<Rightarrow> duration_loop wanted rest
                | Some seconds \<Rightarrow> Some (from_secs seconds)))"

definition cache_control_duration :: "header_map \<Rightarrow> string \<Rightarrow> duration option" where
  "cache_control_duration headers wanted = duration_loop wanted (directive_list headers)"

text \<open>\<open>SystemTime\<close> counts signed 64-bit seconds, so \<open>checked_add\<close> fails above.\<close>

definition max_system_secs :: nat where "max_system_secs = 9223372036854775807"

definition x_accel_expires_ttl :: "nat \<Rightarrow> header_map \<Rightarrow> duration option" where
  "x_accel_expires_ttl now_ns headers =
     Option.bind (hm_get headers ''x-accel-expires'') (\<lambda>raw.
     Option.bind (to_str raw) (\<lambda>untrimmed.
       let value = str_trim untrimmed
       in if value = ''0'' then Some 0
          else case strip_prefix value ''@'' of
            Some v \<Rightarrow>
              Option.bind (parse_uint u64_max v) (\<lambda>seconds.
                if seconds \<le> max_system_secs then Some (from_secs seconds - now_ns) else None)
          | None \<Rightarrow> map_option from_secs (parse_uint u64_max value)))"

section \<open>Variants\<close>

record cached_vary_header_value =
  vh_name :: string
  vh_value :: "string option"

definition normalized_accept_encoding :: "header_map \<Rightarrow> string option" where
  "normalized_accept_encoding headers =
     (let values = hm_get_all headers ''accept-encoding''
      in if list_ex (\<lambda>v. to_str v = None) values then None
         else let tokens = filter (\<lambda>t. t \<noteq> []) (map str_trim (concat (map (str_split (CHR '','')) values)))
              in if tokens = [] then None else Some (to_ascii_lowercase (str_join '','' tokens)))"

definition normalized_request_header_values :: "header_map \<Rightarrow> string \<Rightarrow> string option" where
  "normalized_request_header_values headers name =
     (if name = ''accept-encoding'' then normalized_accept_encoding headers
      else let values = List.map_filter to_str (hm_get_all headers name)
           in if values = [] then None else Some (str_join '','' (map str_trim values)))"

text \<open>\<open>Option::cmp\<close> puts \<open>None\<close> first, as the order of a flag and the value does.\<close>

definition vary_key :: "cached_vary_header_value \<Rightarrow> string \<times> bool \<times> string" where
  "vary_key h = (vh_name h, vh_value h \<noteq> None, case vh_value h of None \<Rightarrow> [] | Some v \<Rightarrow> v)"

definition canonical_vary_headers :: "cached_vary_header_value list \<Rightarrow> cached_vary_header_value list" where
  "canonical_vary_headers vary = sort_key vary_key vary"

definition sorted_vary_dimension_names :: "cached_vary_header_value list \<Rightarrow> string list" where
  "sorted_vary_dimension_names vary = sort (map vh_name vary)"

section \<open>Lemmas\<close>

text \<open>What the loops compute: the first usable directive of a name.\<close>

definition directive_value :: "string \<Rightarrow> string \<Rightarrow> duration option" where
  "directive_value wanted directive =
     (case split_once (CHR ''='') (str_trim directive) of
        None \<Rightarrow> None
      | Some (name, value) \<Rightarrow>
          if eq_ignore_ascii_case (str_trim name) wanted then map_option from_secs (directive_seconds value) else None)"

definition first_directive :: "string \<Rightarrow> string list \<Rightarrow> duration option" where
  "first_directive wanted ds =
     (case List.map_filter (directive_value wanted) ds of [] \<Rightarrow> None | x # _ \<Rightarrow> Some x)"

lemma first_directive_simps [simp]:
  "first_directive w [] = None"
  "first_directive w (d # ds) = (case directive_value w d of None \<Rightarrow> first_directive w ds | Some x \<Rightarrow> Some x)"
  by (simp_all add: first_directive_def List.map_filter_simps split: option.split)

lemma duration_loop_first: "duration_loop w ds = first_directive w ds"
  by (induction ds) (auto simp: directive_value_def split: option.splits prod.splits)

lemma max_age_names_distinct:
  "eq_ignore_ascii_case n ''s-maxage'' \<Longrightarrow> \<not> eq_ignore_ascii_case n ''max-age''"
  by (auto simp: eq_ignore_ascii_case_def to_ascii_lowercase_def ascii_lower_def)

lemma max_age_loop_first:
  "max_age_loop m ds =
     (case first_directive ''s-maxage'' ds of Some x \<Rightarrow> Some x
      | None \<Rightarrow> (case m of Some x \<Rightarrow> Some x | None \<Rightarrow> first_directive ''max-age'' ds))"
proof (induction ds arbitrary: m)
  case (Cons d ds)
  show ?case
  proof (cases "split_once (CHR ''='') (str_trim d)")
    case None
    with Cons [of m] show ?thesis by (auto simp: directive_value_def split: option.splits)
  next
    case (Some nv)
    obtain n v where nv: "nv = (n, v)" by force
    show ?thesis
      using Cons [of m] Cons [of "Some (from_secs (the (directive_seconds v)))"] Some nv
        max_age_names_distinct [of "str_trim n"]
      by (cases "directive_seconds v") (auto simp: directive_value_def split: option.splits)
  qed
qed (simp split: option.split)

lemma cache_control_max_age_first:
  "cache_control_max_age headers =
     (case first_directive ''s-maxage'' (directive_list headers) of Some x \<Rightarrow> Some x
      | None \<Rightarrow> first_directive ''max-age'' (directive_list headers))"
  by (simp add: cache_control_max_age_def max_age_loop_first split: option.split)

lemma cache_control_contains_iff:
  "cache_control_contains headers names \<longleftrightarrow>
     (\<exists>d \<in> set (directive_list headers). \<exists>n \<in> set names. eq_ignore_ascii_case (directive_name d) n)"
proof -
  have "set (directive_list headers) =
      {d. \<exists>v \<in> set (hm_get_all headers ''cache-control''). to_str v \<noteq> None \<and> d \<in> set (str_split (CHR '','') v)}"
    by (auto simp: directive_list_def cache_control_values_def map_filter_set to_str_def split: if_splits)
  then show ?thesis
    by (auto simp: cache_control_contains_def list_ex_iff to_str_def split: if_splits option.splits)
qed

end
