(* ===== verification/Cache_Request.thy ===== *)
theory Cache_Request
  imports Cache_Key Cache_Directives
begin

text \<open>
  What a request asks of the cache (\<open>crates/rginx-http/src/cache/request.rs\<close>, the
  variant key of \<open>entry/signature.rs\<close> and the match of \<open>vary.rs\<close>): whether it
  bypasses the cache, its key, and the byte range or slice it is served from.
  SHA-256 in hexadecimal is the argument \<open>sha\<close>.  Validation rejects a slice size of
  zero, for which the source would divide by zero.
\<close>

section \<open>Requests\<close>

record http_uri =
  uri_path_and_query :: "string option"
  uri_authority :: "string option"

record cache_request =
  cr_method :: http_method
  cr_uri :: http_uri
  cr_headers :: header_map

definition uri_text :: "http_uri \<Rightarrow> string" where
  "uri_text uri = (case uri_path_and_query uri of Some s \<Rightarrow> s | None \<Rightarrow> ''/'')"

definition request_uri :: "cache_request \<Rightarrow> string" where
  "request_uri request = uri_text (cr_uri request)"

definition cache_key_method :: "http_method \<Rightarrow> route_cache_policy \<Rightarrow> http_method" where
  "cache_key_method method policy = (if method = ''HEAD'' \<and> cp_convert_head policy then ''GET'' else method)"

definition upstream_cache_request_method :: "http_method \<Rightarrow> route_cache_policy \<Rightarrow> http_method" where
  "upstream_cache_request_method method policy = cache_key_method method policy"

section \<open>Ranges\<close>

record byte_range_request =
  request_start :: nat
  request_end :: nat
  cache_start :: nat
  cache_end :: nat

definition parse_single_bounded_byte_range :: "string \<Rightarrow> byte_range_request option" where
  "parse_single_bounded_byte_range value0 =
     Option.bind (strip_prefix (str_trim value0) ''bytes='') (\<lambda>untrimmed.
       let value = str_trim untrimmed
       in if CHR '','' \<in> set value then None
          else Option.bind (split_once (CHR ''-'') value) (\<lambda>(start, end).
            if str_trim start = [] \<or> str_trim end = [] then None
            else Option.bind (parse_uint u64_max (str_trim start)) (\<lambda>start.
                 Option.bind (parse_uint u64_max (str_trim end)) (\<lambda>end.
                   if start \<le> end
                   then Some \<lparr> request_start = start, request_end = end, cache_start = start, cache_end = end \<rparr>
                   else None))))"

definition cacheable_range_request_for_policy ::
    "byte_range_request \<Rightarrow> route_cache_policy \<Rightarrow> byte_range_request option" where
  "cacheable_range_request_for_policy request policy =
     (case cp_slice_size_bytes policy of
        None \<Rightarrow> Some request
      | Some slice_size \<Rightarrow>
          let slice_start = request_start request div slice_size * slice_size;
              slice_end = sat_add_u64 slice_start (slice_size - 1)
          in if request_end request \<le> slice_end
             then Some (request\<lparr> cache_start := slice_start, cache_end := slice_end \<rparr>)
             else None)"

definition cacheable_range_request_from_parts ::
    "http_method \<Rightarrow> header_map \<Rightarrow> route_cache_policy \<Rightarrow> byte_range_request option" where
  "cacheable_range_request_from_parts method headers policy =
     (if cp_range_requests policy \<noteq> RangeCache \<or> method \<notin> {''GET'', ''HEAD''} then None
      else case hm_get_all headers ''range'' of
        [] \<Rightarrow> None
      | v # others \<Rightarrow>
          Option.bind (to_str v) (\<lambda>value.
            if others \<noteq> [] then None
            else Option.bind (parse_single_bounded_byte_range value)
                   (\<lambda>r. cacheable_range_request_for_policy r policy)))"

definition cacheable_range_request ::
    "cache_request \<Rightarrow> route_cache_policy \<Rightarrow> byte_range_request option" where
  "cacheable_range_request request policy =
     cacheable_range_request_from_parts (cache_key_method (cr_method request) policy) (cr_headers request) policy"

definition upstream_header_value :: "byte_range_request \<Rightarrow> string" where
  "upstream_header_value r = ''bytes='' @ show_nat (cache_start r) @ ''-'' @ show_nat (cache_end r)"

definition needs_downstream_trimming :: "byte_range_request \<Rightarrow> bool" where
  "needs_downstream_trimming r \<longleftrightarrow> request_start r \<noteq> cache_start r \<or> request_end r \<noteq> cache_end r"

definition apply_upstream_range_headers ::
    "http_method \<Rightarrow> header_map \<Rightarrow> route_cache_policy \<Rightarrow> header_map" where
  "apply_upstream_range_headers method headers policy =
     (case cacheable_range_request_from_parts (cache_key_method method policy) headers policy of
        None \<Rightarrow> headers
      | Some rng \<Rightarrow> hm_insert (hm_remove headers ''range'') ''range'' (upstream_header_value rng))"

definition content_range_matches :: "byte_range_request \<Rightarrow> string \<Rightarrow> bool" where
  "content_range_matches expected raw =
     (case strip_prefix (str_trim raw) ''bytes '' of
        None \<Rightarrow> False
      | Some value \<Rightarrow>
          (case split_once (CHR ''/'') value of
             None \<Rightarrow> False
           | Some (rng, _) \<Rightarrow>
               (case split_once (CHR ''-'') rng of
                  None \<Rightarrow> False
                | Some (s, e) \<Rightarrow>
                    (case (parse_uint u64_max (str_trim s), parse_uint u64_max (str_trim e)) of
                       (Some start, Some end) \<Rightarrow>
                         start = cache_start expected \<and> request_end expected \<le> end \<and> end \<le> cache_end expected
                     | _ \<Rightarrow> False))))"

definition response_content_range_matches_request ::
    "cache_request \<Rightarrow> route_cache_policy \<Rightarrow> header_map \<Rightarrow> bool" where
  "response_content_range_matches_request request policy headers =
     (case cacheable_range_request request policy of
        None \<Rightarrow> False
      | Some expected \<Rightarrow>
          (case hm_get headers ''content-range'' of
             None \<Rightarrow> False
           | Some v \<Rightarrow> (case to_str v of None \<Rightarrow> False | Some value \<Rightarrow> content_range_matches expected value)))"

section \<open>Bypass and keys\<close>

definition mime_type :: "string \<Rightarrow> string" where
  "mime_type content_type = to_ascii_lowercase (str_trim (hd (str_split (CHR '';'') content_type)))"

definition is_grpc_content :: "header_map \<Rightarrow> bool" where
  "is_grpc_content headers =
     (case Option.bind (hm_get headers ''content-type'') to_str of
        None \<Rightarrow> False
      | Some content_type \<Rightarrow>
          (let mime = mime_type content_type
           in mime = ''application/grpc'' \<or> str_starts_with mime ''application/grpc+''
              \<or> str_starts_with mime ''application/grpc-web''))"

definition predicate_context :: "cache_request \<Rightarrow> cache_predicate_request_context" where
  "predicate_context request =
     \<lparr> pr_method = cr_method request, pr_uri = request_uri request, pr_headers = cr_headers request \<rparr>"

definition cache_request_bypass :: "cache_request \<Rightarrow> route_cache_policy \<Rightarrow> bool" where
  "cache_request_bypass request policy =
     (if cache_key_method (cr_method request) policy \<notin> set (cp_methods policy) then True
      else if cr_method request \<notin> {''GET'', ''HEAD''} then True
      else if hm_contains (cr_headers request) ''authorization'' then True
      else if cache_control_contains (cr_headers request) [''no-store''] then True
      else if cr_method request = ''GET'' \<and> hm_contains (cr_headers request) ''if-range''
              \<and> hm_contains (cr_headers request) ''range'' then True
      else if hm_contains (cr_headers request) ''range'' \<and> cacheable_range_request request policy = None then True
      else is_grpc_content (cr_headers request) \<or>
           (case cp_cache_bypass policy of
              None \<Rightarrow> False
            | Some predicate \<Rightarrow> matches_request (predicate_context request) predicate))"

definition key_host :: "http_uri \<Rightarrow> header_map \<Rightarrow> string" where
  "key_host uri headers =
     (case Option.bind (Option.bind (hm_get headers ''host'') to_str)
             (\<lambda>v. if str_trim v \<noteq> [] then Some v else None) of
        Some host \<Rightarrow> host
      | None \<Rightarrow> (case uri_authority uri of Some authority \<Rightarrow> authority | None \<Rightarrow> ''-''))"

definition render_cache_key ::
    "http_method \<Rightarrow> http_uri \<Rightarrow> header_map \<Rightarrow> string \<Rightarrow> route_cache_policy \<Rightarrow> string" where
  "render_cache_key method uri headers scheme policy =
     (let cache_method = cache_key_method method policy;
          rendered = template_render (cp_key policy)
            \<lparr> kc_scheme = scheme, kc_host = key_host uri headers, kc_uri = uri_text uri,
              kc_method = cache_method, kc_headers = headers \<rparr>;
          with_method =
            (if \<not> cp_convert_head policy \<and> \<not> references_method (cp_key policy)
             then rendered @ ''|cache-method:'' @ cache_method else rendered);
          with_encoding =
            (case normalized_accept_encoding headers of
               Some accept_encoding \<Rightarrow> with_method @ ''|ae:'' @ accept_encoding
             | None \<Rightarrow> with_method)
      in case cacheable_range_request_from_parts cache_method headers policy of
           Some rng \<Rightarrow> with_encoding @ ''|range:'' @ show_nat (cache_start rng) @ ''-'' @ show_nat (cache_end rng)
         | None \<Rightarrow> with_encoding)"

definition matches_vary_headers :: "cache_request \<Rightarrow> cached_vary_header_value list \<Rightarrow> bool" where
  "matches_vary_headers request vary =
     list_all (\<lambda>header. normalized_request_header_values (cr_headers request) (vh_name header) = vh_value header) vary"

definition vary_signature :: "cached_vary_header_value list \<Rightarrow> string" where
  "vary_signature vary =
     concat (map (\<lambda>header. vh_name header @ [CHR 0x00]
                    @ (case vh_value header of Some value \<Rightarrow> value | None \<Rightarrow> []) @ [CHR 0xFF])
               (canonical_vary_headers vary))"

definition cache_variant_key ::
    "(string \<Rightarrow> string) \<Rightarrow> string \<Rightarrow> cached_vary_header_value list \<Rightarrow> string" where
  "cache_variant_key sha base_key vary =
     (if vary = [] then base_key else base_key @ ''|vary:'' @ sha (vary_signature vary))"

definition cache_key_hash :: "(string \<Rightarrow> string) \<Rightarrow> string \<Rightarrow> string" where
  "cache_key_hash sha key = sha key"

section \<open>Lemmas on ranges\<close>

lemma parse_range_bounds:
  assumes "parse_single_bounded_byte_range v = Some r"
  shows "request_start r \<le> request_end r" "request_end r \<le> u64_max"
    "cache_start r = request_start r" "cache_end r = request_end r"
  using assms parse_uint_bound
  by (auto simp: parse_single_bounded_byte_range_def Let_def bind_eq_Some_conv split: if_splits)

lemma slice_start_le: "a div s * s \<le> (a :: nat)"
  by simp

lemma slice_contains: "0 < s \<Longrightarrow> (a :: nat) \<le> a div s * s + (s - 1)"
  using mod_less_divisor [of s a] div_mult_mod_eq [of a s] by linarith

lemma from_parts_bounds:
  assumes "cacheable_range_request_from_parts m h policy = Some r"
  shows "cache_start r \<le> request_start r" "request_start r \<le> request_end r"
    "request_end r \<le> cache_end r" "cache_end r \<le> u64_max"
proof -
  from assms obtain v r0 where "parse_single_bounded_byte_range v = Some r0"
    and r: "cacheable_range_request_for_policy r0 policy = Some r"
    by (auto simp: cacheable_range_request_from_parts_def bind_eq_Some_conv split: if_splits list.splits)
  note b = parse_range_bounds [OF this(1)]
  show "cache_start r \<le> request_start r" "request_start r \<le> request_end r"
    "request_end r \<le> cache_end r" "cache_end r \<le> u64_max"
    using r b by (auto simp: cacheable_range_request_for_policy_def Let_def sat_add_u64_le split: option.splits if_splits)
qed

lemma cacheable_range_bounds:
  assumes "cacheable_range_request request policy = Some r"
  shows "cache_start r \<le> request_start r" "request_start r \<le> request_end r"
    "request_end r \<le> cache_end r" "cache_end r \<le> u64_max"
  using from_parts_bounds assms unfolding cacheable_range_request_def by blast+

text \<open>The slice of a request is determined by its number.\<close>

lemma slice_of_request:
  assumes "cacheable_range_request_from_parts m h policy = Some r" and "cp_slice_size_bytes policy = Some s"
  shows "cache_start r = request_start r div s * s \<and> cache_end r = sat_add_u64 (cache_start r) (s - 1)"
  using assms
  by (auto simp: cacheable_range_request_from_parts_def cacheable_range_request_for_policy_def Let_def
      bind_eq_Some_conv split: if_splits list.splits)

lemma show_nat_nonempty [simp]: "show_nat n \<noteq> []"
  using show_nat_digits by blast

lemma show_nat_hd_last [simp]: "\<not> is_ws (hd (show_nat n))" "\<not> is_ws (last (show_nat n))"
proof -
  have digits: "\<And>c. is_digit c \<Longrightarrow> \<not> is_ws c" by (auto simp: is_digit_def is_ws_def)
  show "\<not> is_ws (hd (show_nat n))" "\<not> is_ws (last (show_nat n))"
    using show_nat_digits [of n] digits by (auto simp: list_all_iff)
qed

lemma show_nat_trim [simp]: "str_trim (show_nat n) = show_nat n"
  by (simp add: str_trim_id)

lemma show_nat_visible: "list_all header_visible (show_nat n)"
  using show_nat_digits [of n] by (auto simp: list_all_iff is_digit_def header_visible_def)

lemma parse_range_print:
  assumes "a \<le> b" and "b \<le> u64_max"
  shows "parse_single_bounded_byte_range (''bytes='' @ show_nat a @ ''-'' @ show_nat b) =
    Some \<lparr> request_start = a, request_end = b, cache_start = a, cache_end = b \<rparr>"
proof -
  have t1: "str_trim (''bytes='' @ show_nat a @ ''-'' @ show_nat b) = ''bytes='' @ show_nat a @ ''-'' @ show_nat b"
    by (rule str_trim_id) (simp add: is_ws_def, simp)
  have t2: "str_trim (show_nat a @ ''-'' @ show_nat b) = show_nat a @ ''-'' @ show_nat b"
    by (rule str_trim_id) simp_all
  have no: "CHR '','' \<notin> set (show_nat n)" "CHR ''-'' \<notin> set (show_nat n)" for n
    by (rule show_nat_no, simp add: is_digit_def)+
  show ?thesis
    unfolding parse_single_bounded_byte_range_def t1 strip_prefix_append Option.bind.bind_lunit Let_def t2
    using no assms by simp
qed

lemma upstream_range_cacheable:
  assumes "cacheable_range_request_from_parts m h policy = Some r" and "cp_slice_size_bytes policy \<noteq> Some 0"
  shows "cacheable_range_request_from_parts m (hm_insert (hm_remove h ''range'') ''range'' (upstream_header_value r)) policy
    = Some (r\<lparr> request_start := cache_start r, request_end := cache_end r \<rparr>)"
proof -
  note b = from_parts_bounds [OF assms(1)]
  have vis: "list_all header_visible (upstream_header_value r)"
    using show_nat_visible by (simp add: upstream_header_value_def header_visible_def)
  have parse: "parse_single_bounded_byte_range (upstream_header_value r) =
      Some (r\<lparr> request_start := cache_start r, request_end := cache_end r \<rparr>)"
    unfolding upstream_header_value_def using b by (subst parse_range_print) simp_all
  have "cacheable_range_request_for_policy (r\<lparr> request_start := cache_start r, request_end := cache_end r \<rparr>) policy
      = Some (r\<lparr> request_start := cache_start r, request_end := cache_end r \<rparr>)"
  proof (cases "cp_slice_size_bytes policy")
    case (Some s)
    with slice_of_request [OF assms(1) Some] assms(2) show ?thesis
      by (simp add: cacheable_range_request_for_policy_def Let_def)
  qed (simp add: cacheable_range_request_for_policy_def)
  with parse vis assms(1) show ?thesis
    by (auto simp: cacheable_range_request_from_parts_def hm_simps to_str_def split: if_splits)
qed

section \<open>Lemmas on variants\<close>

definition vary_pair :: "cached_vary_header_value \<Rightarrow> string \<times> string" where
  "vary_pair h = (vh_name h, case vh_value h of Some v \<Rightarrow> v | None \<Rightarrow> [])"

definition vary_clean :: "cached_vary_header_value \<Rightarrow> bool" where
  "vary_clean h \<longleftrightarrow> CHR 0x00 \<notin> set (vh_name h) \<and>
     (case vh_value h of Some v \<Rightarrow> CHR 0xFF \<notin> set v | None \<Rightarrow> True)"

text \<open>Pairs written one after the other, the name ended by one character and the value by another.\<close>

abbreviation encode_pairs :: "char \<Rightarrow> char \<Rightarrow> (string \<times> string) list \<Rightarrow> string" where
  "encode_pairs a b ps \<equiv> concat (map (\<lambda>(n, v). n @ [a] @ v @ [b]) ps)"

lemma split_at_char:
  fixes c :: char
  assumes "a @ c # x = b @ c # y" and "c \<notin> set a" and "c \<notin> set b"
  shows "a = b \<and> x = y"
proof -
  have "split_once c (a @ c # x) = Some (a, x)" "split_once c (b @ c # y) = Some (b, y)"
    using assms(2,3) by simp_all
  with assms(1) have "Some (a, x) = Some (b, y)" by metis
  then show ?thesis by simp
qed

lemma encode_pairs_inj:
  "encode_pairs a b ps = encode_pairs a b qs \<Longrightarrow>
   list_all (\<lambda>(n, v). a \<notin> set n \<and> b \<notin> set v) ps \<Longrightarrow>
   list_all (\<lambda>(n, v). a \<notin> set n \<and> b \<notin> set v) qs \<Longrightarrow> ps = qs"
proof (induction ps arbitrary: qs)
  case Nil
  then show ?case by (cases qs) auto
next
  case (Cons p ps)
  obtain n v where p: "p = (n, v)" by force
  with Cons.prems obtain n' v' qs' where qs: "qs = (n', v') # qs'" by (cases qs) auto
  from Cons.prems(1) have "n @ a # (v @ b # encode_pairs a b ps) =
      n' @ a # (v' @ b # encode_pairs a b qs')" by (simp add: p qs)
  with split_at_char [of n _ _ n'] Cons.prems(2,3) have n: "n = n'" and
    "v @ b # encode_pairs a b ps = v' @ b # encode_pairs a b qs'" by (simp_all add: p qs)
  with split_at_char [of v _ _ v'] Cons.prems(2,3) have "v = v'" "encode_pairs a b ps = encode_pairs a b qs'"
    by (simp_all add: p qs)
  with Cons.IH [of qs'] Cons.prems(2,3) n show ?case by (simp add: p qs)
qed

lemma vary_signature_encode: "vary_signature vary = encode_pairs (CHR 0x00) (CHR 0xFF) (map vary_pair (canonical_vary_headers vary))"
  by (simp add: vary_signature_def vary_pair_def comp_def)

lemma canonical_clean: "list_all vary_clean vary \<Longrightarrow>
  list_all (\<lambda>(n, v). CHR 0x00 \<notin> set n \<and> CHR 0xFF \<notin> set v) (map vary_pair (canonical_vary_headers vary))"
  by (auto simp: list_all_iff vary_pair_def vary_clean_def canonical_vary_headers_def split: option.splits)

section \<open>Properties\<close>

text \<open>The range a request is served from contains the range it asks for, and the request sent
  upstream asks for exactly that range: its own cacheable range is the slice, which it covers
  wholly.\<close>

theorem upstream_range_is_covering_slice:
  assumes "cacheable_range_request_from_parts method headers policy = Some r"
    and "cp_slice_size_bytes policy \<noteq> Some 0"
    and "cache_key_method method policy = method"
  shows "cache_start r \<le> request_start r \<and> request_start r \<le> request_end r \<and> request_end r \<le> cache_end r \<and>
     cacheable_range_request_from_parts method (apply_upstream_range_headers method headers policy) policy
       = Some (r\<lparr> request_start := cache_start r, request_end := cache_end r \<rparr>)"
  using from_parts_bounds [OF assms(1)] upstream_range_cacheable [OF assms(1,2)] assms(1,3)
  by (simp add: apply_upstream_range_headers_def)

definition sample_policy :: route_cache_policy where
  "sample_policy =
     \<lparr> cp_zone = ''z'', cp_methods = [''GET''], cp_statuses = [200], cp_ttl_by_status = [],
       cp_key = \<lparr> kt_raw = ''{uri}'', kt_parts = [KVariable KUri] \<rparr>,
       cp_cache_bypass = None, cp_no_cache = None, cp_stale_if_error = None, cp_grace = None,
       cp_keep = None, cp_pass_ttl = None, cp_use_stale = [], cp_background_update = False,
       cp_lock_timeout = 0, cp_lock_age = 0, cp_min_uses = 1, cp_ignore_headers = [],
       cp_range_requests = RangeCache, cp_slice_size_bytes = Some 100, cp_convert_head = True \<rparr>"

abbreviation sample_range_headers :: header_map where
  "sample_range_headers \<equiv> [(''range'', ''bytes='' @ show_nat 150 @ ''-'' @ show_nat 160)]"

lemma sample_range:
  "cacheable_range_request_from_parts ''GET'' sample_range_headers sample_policy =
     Some \<lparr> request_start = 150, request_end = 160, cache_start = 100, cache_end = 199 \<rparr>"
  using parse_range_print [of 150 160] show_nat_visible
  by (simp add: cacheable_range_request_from_parts_def cacheable_range_request_for_policy_def sample_policy_def
      hm_get_all_def to_str_def header_visible_def sat_add_u64_def u64_max_def Let_def)

theorem upstream_range_is_covering_slice_witness:
  "cacheable_range_request_from_parts ''GET''
     (apply_upstream_range_headers ''GET'' sample_range_headers sample_policy) sample_policy
     = Some \<lparr> request_start = 100, request_end = 199, cache_start = 100, cache_end = 199 \<rparr>"
  using upstream_range_is_covering_slice [OF sample_range]
  by (simp add: sample_policy_def cache_key_method_def)

text \<open>Variants of one resource have different keys: unless the hash collides, equal variant
  keys mean the same headers with the same values, a missing header counting as an empty one.\<close>

theorem cache_variant_key_separates:
  assumes "cache_variant_key sha base v1 = cache_variant_key sha base v2"
    and "v1 \<noteq> []" and "v2 \<noteq> []"
    and "sha (vary_signature v1) = sha (vary_signature v2) \<longrightarrow> vary_signature v1 = vary_signature v2"
    and "list_all vary_clean v1" and "list_all vary_clean v2"
  shows "map vary_pair (canonical_vary_headers v1) = map vary_pair (canonical_vary_headers v2)"
proof -
  from assms(1-4) have "vary_signature v1 = vary_signature v2" by (simp add: cache_variant_key_def)
  then show ?thesis unfolding vary_signature_encode
    by (rule encode_pairs_inj) (rule canonical_clean, rule assms)+
qed

theorem cache_variant_key_separates_witness:
  "map vary_pair (canonical_vary_headers [\<lparr> vh_name = ''b'', vh_value = None \<rparr>, \<lparr> vh_name = ''a'', vh_value = Some ''x'' \<rparr>])
   = map vary_pair (canonical_vary_headers [\<lparr> vh_name = ''a'', vh_value = Some ''x'' \<rparr>, \<lparr> vh_name = ''b'', vh_value = Some [] \<rparr>])"
  by (rule cache_variant_key_separates [where sha = id and base = "''k''"])
    (simp_all add: vary_clean_def cache_variant_key_def vary_signature_def canonical_vary_headers_def vary_key_def)

text \<open>
  The suffixes of a key are not escaped: a path that spells a suffix has the key
  of another request.
\<close>

lemma cache_key_suffix_collision:
  "render_cache_key ''GET'' \<lparr> uri_path_and_query = Some ''/a|ae:gzip'', uri_authority = None \<rparr> [] s sample_policy
   = render_cache_key ''GET'' \<lparr> uri_path_and_query = Some ''/a'', uri_authority = None \<rparr>
       [(''accept-encoding'', ''gzip'')] s sample_policy"
  by (simp add: render_cache_key_def Let_def template_render_def sample_policy_def uri_text_def key_host_def
      references_method_def cacheable_range_request_from_parts_def hm_get_all_def hm_get_def
      normalized_accept_encoding_def to_str_def header_visible_def str_trim_def is_ws_def
      to_ascii_lowercase_def ascii_lower_def cache_key_method_def)

end
