(* ===== verification/Cache_Range.thy ===== *)
theory Cache_Range
  imports Cache_Request
begin

text \<open>
  Serving a byte range from a stored slice
  (\<open>crates/rginx-http/src/cache/entry/response.rs\<close> and \<open>cache/store/range.rs\<close>): the
  plan that trims the response to the requested range, the body that skips and
  truncates the stream of the upstream, and the headers kept with an entry.

  A body is the list of what polling it will return: a frame, an error or
  \<open>Pending\<close>; its end is the end of the stream.  \<open>HeaderName::from_bytes\<close> is the
  argument \<open>header_name\<close>.  On the 64-bit targets of the program \<open>usize::try_from\<close>
  does not fail.
\<close>

section \<open>Bodies\<close>

datatype body_frame = FData string | FTrailers header_map

datatype body_event = EvFrame body_frame | EvError string | EvPending

datatype poll_result = PollPending | PollEnd | PollFrame body_frame | PollError string

record range_trim_state =
  rt_skip_bytes :: nat
  rt_emit_bytes :: nat
  rt_done :: bool

definition truncated_range_error :: string where
  "truncated_range_error =
     ''streamed range response ended before the requested subrange was fully produced''"

fun trim_poll_loop ::
    "range_trim_state \<Rightarrow> body_event list \<Rightarrow> poll_result \<times> range_trim_state \<times> body_event list" where
  "trim_poll_loop st [] =
     (if 0 < rt_skip_bytes st \<or> 0 < rt_emit_bytes st then PollError truncated_range_error else PollEnd,
      st\<lparr> rt_done := True \<rparr>, [])"
| "trim_poll_loop st (EvPending # inner) = (PollPending, st, inner)"
| "trim_poll_loop st (EvError e # inner) = (PollError e, st\<lparr> rt_done := True \<rparr>, inner)"
| "trim_poll_loop st (EvFrame (FTrailers trailers) # inner) =
     (if 0 < rt_skip_bytes st \<or> 0 < rt_emit_bytes st then PollError truncated_range_error
      else PollFrame (FTrailers trailers), st\<lparr> rt_done := True \<rparr>, inner)"
| "trim_poll_loop st (EvFrame (FData data0) # inner) =
     (if length data0 \<le> rt_skip_bytes st
      then trim_poll_loop (st\<lparr> rt_skip_bytes := rt_skip_bytes st - length data0 \<rparr>) inner
      else let data1 = drop (rt_skip_bytes st) data0;
               st1 = st\<lparr> rt_skip_bytes := 0 \<rparr>
           in if rt_emit_bytes st1 = 0 then trim_poll_loop st1 inner
              else let data2 = (if rt_emit_bytes st1 < length data1 then take (rt_emit_bytes st1) data1 else data1);
                       emit = rt_emit_bytes st1 - length data2;
                       st2 = st1\<lparr> rt_emit_bytes := emit, rt_done := (emit = 0 \<or> rt_done st1) \<rparr>
                   in if data2 = [] then trim_poll_loop st2 inner
                      else (PollFrame (FData data2), st2, inner))"

definition trim_poll_frame ::
    "range_trim_state \<Rightarrow> body_event list \<Rightarrow> poll_result \<times> range_trim_state \<times> body_event list" where
  "trim_poll_frame st inner =
     (if rt_done st then (PollEnd, st, inner)
      else if rt_emit_bytes st = 0 then (PollEnd, st\<lparr> rt_done := True \<rparr>, inner)
      else trim_poll_loop st inner)"

section \<open>The plan\<close>

record cached_content_range =
  ccr_start :: nat
  ccr_end :: nat
  ccr_total :: "nat option"

record range_trim_plan =
  tp_headers :: header_map
  tp_skip_bytes :: nat
  tp_emit_bytes :: nat

definition or_invalid :: "'a option \<Rightarrow> io_error + 'a" where
  "or_invalid x = (case x of None \<Rightarrow> Inl IoInvalidData | Some v \<Rightarrow> Inr v)"

definition parse_cached_content_range :: "header_map \<Rightarrow> io_error + cached_content_range" where
  "parse_cached_content_range headers =
     bind_res (or_invalid (hm_get headers ''content-range'')) (\<lambda>raw.
     bind_res (or_invalid (to_str raw)) (\<lambda>text.
     bind_res (or_invalid (strip_prefix (str_trim text) ''bytes '')) (\<lambda>value.
     bind_res (or_invalid (split_once (CHR ''/'') value)) (\<lambda>(rng, tot).
     bind_res (or_invalid (split_once (CHR ''-'') rng)) (\<lambda>(start, end).
     bind_res (or_invalid (parse_uint u64_max (str_trim start))) (\<lambda>start.
     bind_res (or_invalid (parse_uint u64_max (str_trim end))) (\<lambda>end.
     bind_res (if str_trim tot = ''*'' then Inr None
               else bind_res (or_invalid (parse_uint u64_max (str_trim tot))) (\<lambda>n. Inr (Some n))) (\<lambda>tot.
       Inr \<lparr> ccr_start = start, ccr_end = end, ccr_total = tot \<rparr>))))))))"

definition content_range_text :: "nat \<Rightarrow> nat \<Rightarrow> nat option \<Rightarrow> string" where
  "content_range_text response_start response_end tot =
     ''bytes '' @ show_nat response_start @ ''-'' @ show_nat response_end @ ''/'' @
     (case tot of Some value \<Rightarrow> show_nat value | None \<Rightarrow> ''*'')"

definition update_downstream_range_headers ::
    "header_map \<Rightarrow> nat \<Rightarrow> nat \<Rightarrow> nat option \<Rightarrow> nat \<Rightarrow> io_error + header_map" where
  "update_downstream_range_headers headers response_start response_end tot response_len =
     bind_res (or_invalid (header_value_of (show_nat response_len))) (\<lambda>len.
     bind_res (or_invalid (header_value_of (content_range_text response_start response_end tot))) (\<lambda>rng.
       Inr (hm_insert (hm_insert headers ''content-length'' len) ''content-range'' rng)))"

definition downstream_range_trim_plan ::
    "status_code \<Rightarrow> header_map \<Rightarrow> cache_request \<Rightarrow> route_cache_policy \<Rightarrow>
     io_error + range_trim_plan option" where
  "downstream_range_trim_plan status headers request policy =
     (case cacheable_range_request request policy of
        None \<Rightarrow> Inr None
      | Some request_range \<Rightarrow>
          if \<not> needs_downstream_trimming request_range then Inr None
          else if status \<noteq> 206 \<or> \<not> response_content_range_matches_request request policy headers then Inr None
          else bind_res (parse_cached_content_range headers) (\<lambda>cached_range.
            if ccr_start cached_range \<noteq> cache_start request_range then Inl IoInvalidData
            else let response_end = min (request_end request_range) (ccr_end cached_range)
                 in if request_start request_range < ccr_start cached_range
                       \<or> response_end < request_start request_range then Inl IoInvalidData
                    else let skip = request_start request_range - ccr_start cached_range;
                             emit = (response_end - request_start request_range + 1) mod 2 ^ 64
                         in bind_res (update_downstream_range_headers headers (request_start request_range)
                                        response_end (ccr_total cached_range) emit)
                              (\<lambda>trimmed. Inr (Some \<lparr> tp_headers = trimmed, tp_skip_bytes = skip, tp_emit_bytes = emit \<rparr>))))"

section \<open>The response\<close>

datatype response_body = WholeBody "body_event list" | TrimmedBody range_trim_state "body_event list"

record http_response =
  hr_status :: status_code
  hr_headers :: header_map
  hr_body :: response_body

definition trim_body_new :: "body_event list \<Rightarrow> range_trim_plan \<Rightarrow> response_body" where
  "trim_body_new inner plan =
     TrimmedBody \<lparr> rt_skip_bytes = tp_skip_bytes plan, rt_emit_bytes = tp_emit_bytes plan, rt_done = False \<rparr> inner"

definition build_downstream_response ::
    "status_code \<Rightarrow> header_map \<Rightarrow> body_event list \<Rightarrow> range_trim_plan option \<Rightarrow> http_response" where
  "build_downstream_response status headers body trim_plan =
     (case trim_plan of
        Some plan \<Rightarrow> \<lparr> hr_status = 206, hr_headers = tp_headers plan, hr_body = trim_body_new body plan \<rparr>
      | None \<Rightarrow> \<lparr> hr_status = status, hr_headers = headers, hr_body = WholeBody body \<rparr>)"

definition finalize_response_for_request ::
    "status_code \<Rightarrow> header_map \<Rightarrow> body_event list \<Rightarrow> cache_request \<Rightarrow> route_cache_policy \<Rightarrow>
     io_error + http_response" where
  "finalize_response_for_request status headers body request policy =
     bind_res (downstream_range_trim_plan status headers request policy)
       (\<lambda>plan. Inr (build_downstream_response status headers body plan))"

section \<open>Stored headers\<close>

definition connection_tokens :: "(string \<Rightarrow> string option) \<Rightarrow> header_map \<Rightarrow> string list" where
  "connection_tokens header_name headers =
     List.map_filter header_name
       (filter (\<lambda>t. t \<noteq> [])
         (map str_trim (concat (map (str_split (CHR '',''))
            (List.map_filter to_str (hm_get_all headers ''connection''))))))"

definition hop_by_hop_names :: "string list" where
  "hop_by_hop_names =
     [''connection'', ''proxy-authenticate'', ''proxy-authorization'', ''te'', ''trailer'',
      ''transfer-encoding'', ''upgrade'', ''keep-alive'', ''proxy-connection'']"

definition remove_cache_hop_by_hop_headers :: "(string \<Rightarrow> string option) \<Rightarrow> header_map \<Rightarrow> header_map" where
  "remove_cache_hop_by_hop_headers header_name headers =
     foldl hm_remove (foldl hm_remove headers (connection_tokens header_name headers)) hop_by_hop_names"

definition cached_headers :: "(string \<Rightarrow> string option) \<Rightarrow> header_map \<Rightarrow> nat \<Rightarrow> header_map" where
  "cached_headers header_name headers body_size_bytes =
     (let had_content_length = hm_contains headers ''content-length'';
          h = hm_remove (hm_remove (remove_cache_hop_by_hop_headers header_name headers) ''x-cache'') ''content-length''
      in if had_content_length \<or> 0 < body_size_bytes
         then hm_insert h ''content-length'' (show_nat body_size_bytes) else h)"

section \<open>Draining a body\<close>

text \<open>Polling a trimmed body to its end: the bytes received, and whether it ended without an error.\<close>

lemma trim_poll_loop_consumes:
  "trim_poll_loop st inner = (r, st', inner') \<Longrightarrow> (\<forall>e. r \<noteq> PollError e) \<Longrightarrow> r \<noteq> PollEnd \<Longrightarrow>
     length inner' < length inner"
proof (induction st inner rule: trim_poll_loop.induct)
  case (5 st data0 inner)
  show ?case
    using "5.prems"
      "5.IH"(1) "5.IH"(2) [OF _ refl refl] "5.IH"(3) [OF _ refl refl _ refl refl refl]
    by (fastforce simp: Let_def split: if_splits)
qed (auto split: if_splits)

function drain_trim :: "range_trim_state \<Rightarrow> body_event list \<Rightarrow> string \<times> bool" where
  "drain_trim st inner =
     (case trim_poll_frame st inner of
        (PollEnd, _, _) \<Rightarrow> ([], True)
      | (PollError _, _, _) \<Rightarrow> ([], False)
      | (PollPending, st', inner') \<Rightarrow> drain_trim st' inner'
      | (PollFrame (FTrailers _), st', inner') \<Rightarrow> drain_trim st' inner'
      | (PollFrame (FData d), st', inner') \<Rightarrow> (case drain_trim st' inner' of (ds, ok) \<Rightarrow> (d @ ds, ok)))"
  by pat_completeness auto
termination
  by (relation "measure (\<lambda>(_, inner). length inner)")
    (auto simp: trim_poll_frame_def dest!: trim_poll_loop_consumes [OF sym] split: if_splits)

declare drain_trim.simps [simp del]

fun drain_whole :: "body_event list \<Rightarrow> string \<times> bool" where
  "drain_whole [] = ([], True)"
| "drain_whole (EvPending # inner) = drain_whole inner"
| "drain_whole (EvError _ # inner) = ([], False)"
| "drain_whole (EvFrame (FTrailers _) # inner) = drain_whole inner"
| "drain_whole (EvFrame (FData d) # inner) = (case drain_whole inner of (ds, ok) \<Rightarrow> (d @ ds, ok))"

fun drain_body :: "response_body \<Rightarrow> string \<times> bool" where
  "drain_body (WholeBody inner) = drain_whole inner"
| "drain_body (TrimmedBody st inner) = drain_trim st inner"

text \<open>A body that delivers its bytes, in any chunks and with any pauses.\<close>

fun data_events :: "body_event list \<Rightarrow> bool" where
  "data_events [] = True"
| "data_events (EvPending # inner) = data_events inner"
| "data_events (EvFrame (FData d) # inner) = data_events inner"
| "data_events (e # inner) = False"

fun bytes_of :: "body_event list \<Rightarrow> string" where
  "bytes_of [] = []"
| "bytes_of (EvFrame (FData d) # inner) = d @ bytes_of inner"
| "bytes_of (e # inner) = bytes_of inner"

lemma drain_whole_bytes: "data_events inner \<Longrightarrow> drain_whole inner = (bytes_of inner, True)"
  by (induction inner rule: data_events.induct) auto

lemma drain_trim_done: "rt_done st \<or> rt_emit_bytes st = 0 \<Longrightarrow> drain_trim st inner = ([], True)"
  by (auto simp: drain_trim.simps trim_poll_frame_def)

lemma drain_trim_bytes:
  "data_events inner \<Longrightarrow> 0 < emit \<Longrightarrow>
   drain_trim \<lparr> rt_skip_bytes = skip, rt_emit_bytes = emit, rt_done = False \<rparr> inner
     = (take emit (drop skip (bytes_of inner)), skip + emit \<le> length (bytes_of inner))"
proof (induction inner arbitrary: skip emit rule: data_events.induct)
  case 1
  then show ?case by (simp add: drain_trim.simps trim_poll_frame_def)
next
  case (2 inner)
  then show ?case by (simp add: drain_trim.simps [of _ "_ # _"] trim_poll_frame_def)
next
  case (3 d inner)
  let ?st = "\<lparr> rt_skip_bytes = skip, rt_emit_bytes = emit, rt_done = False \<rparr>"
  show ?case
  proof (cases "length d \<le> skip")
    case True
    have "drain_trim ?st (EvFrame (FData d) # inner) =
        drain_trim \<lparr> rt_skip_bytes = skip - length d, rt_emit_bytes = emit, rt_done = False \<rparr> inner"
      using True "3.prems" by (simp add: drain_trim.simps [of _ "_ # _"] drain_trim.simps [of _ inner] trim_poll_frame_def)
    with "3.IH" [of emit "skip - length d"] "3.prems" True show ?thesis by auto
  next
    case False
    let ?d = "take emit (drop skip d)"
    let ?e = "emit - length ?d"
    have d: "?d \<noteq> []" using False "3.prems" by simp
    have poll: "trim_poll_frame ?st (EvFrame (FData d) # inner) =
        (PollFrame (FData ?d), \<lparr> rt_skip_bytes = 0, rt_emit_bytes = ?e, rt_done = (?e = 0) \<rparr>, inner)"
      using False "3.prems" d by (auto simp: trim_poll_frame_def Let_def)
    have rest: "drain_trim \<lparr> rt_skip_bytes = 0, rt_emit_bytes = ?e, rt_done = (?e = 0) \<rparr> inner
        = (take ?e (bytes_of inner), ?e \<le> length (bytes_of inner))"
    proof (cases "?e = 0")
      case True
      then show ?thesis by (simp add: drain_trim_done)
    next
      case e: False
      with "3.IH" [of ?e 0] "3.prems" show ?thesis by simp
    qed
    have "drain_trim ?st (EvFrame (FData d) # inner) = (?d @ take ?e (bytes_of inner), ?e \<le> length (bytes_of inner))"
      using poll rest by (simp add: drain_trim.simps [of _ "_ # _"])
    moreover have "(?e \<le> length (bytes_of inner)) = (skip + emit \<le> length (bytes_of (EvFrame (FData d) # inner)))"
      using False by (auto simp: min_def)
    moreover have "?e = emit + skip - length d" using False by (auto simp: min_def)
    ultimately show ?thesis using False by simp
  qed
qed auto

section \<open>Lemmas on the plan\<close>

lemma or_invalid_simps [simp]: "or_invalid (Some v) = Inr v" "or_invalid None = Inl IoInvalidData"
  by (simp_all add: or_invalid_def)

lemma visible_header_value: "list_all header_visible s \<Longrightarrow> header_value_of s = Some s"
  by (auto simp: header_value_of_def list_all_iff header_visible_def header_value_byte_def)

lemma content_range_text_visible: "list_all header_visible (content_range_text a b t)"
  using show_nat_visible by (auto simp: content_range_text_def header_visible_def split: option.split)

lemma content_range_trim: "str_trim (content_range_text a b t) = content_range_text a b t"
proof (rule str_trim_id)
  show "\<not> is_ws (hd (content_range_text a b t))" by (simp add: content_range_text_def is_ws_def)
  show "\<not> is_ws (last (content_range_text a b t))"
  proof (cases t)
    case None
    then show ?thesis by (simp add: content_range_text_def is_ws_def)
  qed (simp add: content_range_text_def)
qed

lemma content_range_print_parse:
  assumes "a \<le> u64_max" and "b \<le> u64_max" and "\<forall>n. t = Some n \<longrightarrow> n \<le> u64_max"
    and "hm_get headers ''content-range'' = Some (content_range_text a b t)"
  shows "parse_cached_content_range headers = Inr \<lparr> ccr_start = a, ccr_end = b, ccr_total = t \<rparr>"
proof -
  have no: "CHR ''/'' \<notin> set (show_nat n)" "CHR ''-'' \<notin> set (show_nat n)" for n
    by (rule show_nat_no, simp add: is_digit_def)+
  let ?t = "case t of Some value \<Rightarrow> show_nat value | None \<Rightarrow> ''*''"
  have vis: "to_str (content_range_text a b t) = Some (content_range_text a b t)"
    by (simp add: to_str_def content_range_text_visible)
  have pre: "strip_prefix (content_range_text a b t) ''bytes '' = Some ((show_nat a @ CHR ''-'' # show_nat b) @ CHR ''/'' # ?t)"
    unfolding content_range_text_def by (simp add: strip_prefix_Some)
  have sp: "split_once (CHR ''/'') ((show_nat a @ CHR ''-'' # show_nat b) @ CHR ''/'' # ?t) = Some (show_nat a @ CHR ''-'' # show_nat b, ?t)"
    by (rule split_once_append) (simp add: no)
  have star: "show_nat n \<noteq> ''*''" for n
    using show_nat_digits [of n] by (auto simp: is_digit_def)
  have "str_trim ''*'' = ''*''" by (simp add: str_trim_def is_ws_def)
  with star assms(3) have tot: "(if str_trim ?t = ''*'' then Inr None
      else bind_res (or_invalid (parse_uint u64_max (str_trim ?t))) (\<lambda>n. Inr (Some n))) = (Inr t :: io_error + _)"
    by (cases t) simp_all
  show ?thesis
    unfolding parse_cached_content_range_def assms(4) or_invalid_simps bind_res_simps vis content_range_trim pre sp prod.case
    using assms(1,2) tot no by simp
qed

text \<open>What the check of the response's range says about its parsed header.\<close>

lemma content_range_matches_parse:
  assumes "parse_cached_content_range headers = Inr c"
    and "cacheable_range_request request policy = Some r"
  shows "response_content_range_matches_request request policy headers \<longleftrightarrow>
     ccr_start c = cache_start r \<and> request_end r \<le> ccr_end c \<and> ccr_end c \<le> cache_end r"
proof -
  from assms(1) obtain raw value0 rng tot s e where
    "hm_get headers ''content-range'' = Some raw" "to_str raw = Some raw"
    "strip_prefix (str_trim raw) ''bytes '' = Some value0" "split_once (CHR ''/'') value0 = Some (rng, tot)"
    "split_once (CHR ''-'') rng = Some (s, e)" "parse_uint u64_max (str_trim s) = Some (ccr_start c)"
    "parse_uint u64_max (str_trim e) = Some (ccr_end c)"
    by (fastforce simp: parse_cached_content_range_def bind_res_Inr or_invalid_def split: option.splits)
  then show ?thesis
    using assms(2) by (simp add: response_content_range_matches_request_def content_range_matches_def del: to_str_Some)
qed

lemma parsed_total_bound:
  assumes "parse_cached_content_range headers = Inr c" and "ccr_total c = Some n"
  shows "n \<le> u64_max"
  using assms parse_uint_bound
  by (fastforce simp: parse_cached_content_range_def bind_res_Inr or_invalid_def split: option.splits if_splits prod.splits)

lemma trim_plan_matches:
  assumes r: "cacheable_range_request request policy = Some r"
    and c: "parse_cached_content_range headers = Inr c"
    and m: "response_content_range_matches_request request policy headers"
    and t: "needs_downstream_trimming r"
  shows "downstream_range_trim_plan 206 headers request policy =
    (let emit = (request_end r - request_start r + 1) mod 2 ^ 64
     in Inr (Some \<lparr> tp_headers = hm_insert (hm_insert headers ''content-length'' (show_nat emit)) ''content-range''
                      (content_range_text (request_start r) (request_end r) (ccr_total c)),
                    tp_skip_bytes = request_start r - cache_start r, tp_emit_bytes = emit \<rparr>))"
proof -
  from content_range_matches_parse [OF c r] m have "ccr_start c = cache_start r" "request_end r \<le> ccr_end c" by simp_all
  with r c m t cacheable_range_bounds [OF r] show ?thesis
    by (simp add: downstream_range_trim_plan_def update_downstream_range_headers_def Let_def min_absorb1
        visible_header_value show_nat_visible content_range_text_visible del: power_numeral)
qed

section \<open>Properties\<close>

text \<open>C25. A range request answered from a slice receives exactly the bytes it asked for: whatever the
  chunks in which the slice arrives, the response is partial content, its \<open>Content-Range\<close> names the
  requested range, and its body is that range of the resource, complete.\<close>

theorem range_response_is_requested_bytes:
  assumes r: "cacheable_range_request request policy = Some r"
    and c: "parse_cached_content_range headers = Inr c"
    and m: "response_content_range_matches_request request policy headers"
    and body: "data_events body"
    and bytes: "bytes_of body = take (ccr_end c + 1 - ccr_start c) (drop (ccr_start c) resource)"
    and size: "ccr_end c < length resource" "length resource \<le> u64_max"
  shows "\<exists>resp. finalize_response_for_request 206 headers body request policy = Inr resp \<and> hr_status resp = 206 \<and>
     parse_cached_content_range (hr_headers resp) =
       Inr \<lparr> ccr_start = request_start r, ccr_end = request_end r, ccr_total = ccr_total c \<rparr> \<and>
     drain_body (hr_body resp) =
       (take (request_end r + 1 - request_start r) (drop (request_start r) resource), True)"
proof -
  note b = cacheable_range_bounds [OF r]
  from content_range_matches_parse [OF c r] m
  have c1: "ccr_start c = cache_start r" and c2: "request_end r \<le> ccr_end c" and c3: "ccr_end c \<le> cache_end r" by simp_all
  show ?thesis
  proof (cases "needs_downstream_trimming r")
    case False
    with b c1 c2 c3 have eq: "ccr_start c = request_start r" "ccr_end c = request_end r"
      by (simp_all add: needs_downstream_trimming_def)
    from False r have "finalize_response_for_request 206 headers body request policy =
        Inr \<lparr> hr_status = 206, hr_headers = headers, hr_body = WholeBody body \<rparr>"
      by (simp add: finalize_response_for_request_def downstream_range_trim_plan_def build_downstream_response_def)
    with c eq drain_whole_bytes [OF body] bytes show ?thesis by simp
  next
    case True
    let ?emit = "request_end r - request_start r + 1"
    let ?skip = "request_start r - cache_start r"
    from c2 size have emit: "?emit mod 2 ^ 64 = ?emit" by (simp add: u64_max_def)
    let ?h = "hm_insert (hm_insert headers ''content-length'' (show_nat ?emit)) ''content-range''
               (content_range_text (request_start r) (request_end r) (ccr_total c))"
    have fin: "finalize_response_for_request 206 headers body request policy =
        Inr \<lparr> hr_status = 206, hr_headers = ?h,
              hr_body = TrimmedBody \<lparr> rt_skip_bytes = ?skip, rt_emit_bytes = ?emit, rt_done = False \<rparr> body \<rparr>"
      unfolding finalize_response_for_request_def trim_plan_matches [OF r c m True] emit
      by (simp add: Let_def build_downstream_response_def trim_body_new_def)
    have hdr: "parse_cached_content_range ?h =
        Inr \<lparr> ccr_start = request_start r, ccr_end = request_end r, ccr_total = ccr_total c \<rparr>"
      by (rule content_range_print_parse)
        (use c2 size b parsed_total_bound [OF c] in \<open>auto simp: hm_simps u64_max_def\<close>)
    have "drain_trim \<lparr> rt_skip_bytes = ?skip, rt_emit_bytes = ?emit, rt_done = False \<rparr> body
        = (take ?emit (drop ?skip (bytes_of body)), ?skip + ?emit \<le> length (bytes_of body))"
      by (rule drain_trim_bytes [OF body]) simp
    moreover have "take ?emit (drop ?skip (bytes_of body)) = take (request_end r + 1 - request_start r) (drop (request_start r) resource)"
      using b c1 c2 unfolding bytes by (simp add: drop_take Suc_diff_le min_def)
    moreover have "?skip + ?emit \<le> length (bytes_of body)" using b c1 c2 size unfolding bytes by simp
    ultimately show ?thesis using fin hdr by simp
  qed
qed

definition sample_request :: cache_request where
  "sample_request = \<lparr> cr_method = ''GET'', cr_uri = \<lparr> uri_path_and_query = None, uri_authority = None \<rparr>,
     cr_headers = sample_range_headers \<rparr>"

theorem range_response_is_requested_bytes_witness:
  "\<exists>resp. finalize_response_for_request 206 [(''content-range'', content_range_text 100 199 (Some 300))]
       [EvFrame (FData (replicate 60 (CHR ''x''))), EvPending, EvFrame (FData (replicate 40 (CHR ''x'')))]
       sample_request sample_policy = Inr resp \<and>
     drain_body (hr_body resp) = (replicate 11 (CHR ''x''), True)"
proof -
  let ?h = "[(''content-range'', content_range_text 100 199 (Some 300))]"
  let ?b = "[EvFrame (FData (replicate 60 (CHR ''x''))), EvPending, EvFrame (FData (replicate 40 (CHR ''x'')))]"
  let ?c = "\<lparr> ccr_start = 100, ccr_end = 199, ccr_total = Some 300 \<rparr> :: cached_content_range"
  have r: "cacheable_range_request sample_request sample_policy =
      Some \<lparr> request_start = 150, request_end = 160, cache_start = 100, cache_end = 199 \<rparr>"
    using sample_range by (simp add: cacheable_range_request_def sample_request_def cache_key_method_def)
  have c: "parse_cached_content_range ?h = Inr ?c"
    by (rule content_range_print_parse) (simp_all add: u64_max_def hm_get_def hm_get_all_def)
  have m: "response_content_range_matches_request sample_request sample_policy ?h"
    by (simp add: content_range_matches_parse [OF c r])
  have bytes: "bytes_of ?b = take (ccr_end ?c + 1 - ccr_start ?c) (drop (ccr_start ?c) (replicate 300 (CHR ''x'')))"
    by (simp add: replicate_add [symmetric])
  show ?thesis
    using range_response_is_requested_bytes [OF r c m _ bytes]
    by (auto simp: u64_max_def)
qed

text \<open>
  A resource that ends inside the requested range is not trimmed: the slice is
  sent from its start, although the plan computes the end of the shorter range.
\<close>

lemma short_resource_is_not_trimmed:
  assumes "cacheable_range_request request policy = Some r" and "parse_cached_content_range headers = Inr c"
    and "ccr_end c < request_end r"
  shows "finalize_response_for_request 206 headers body request policy =
     Inr \<lparr> hr_status = 206, hr_headers = headers, hr_body = WholeBody body \<rparr>"
proof -
  from content_range_matches_parse [OF assms(2,1)] assms(3)
  have "\<not> response_content_range_matches_request request policy headers" by simp
  with assms(1) show ?thesis
    by (simp add: finalize_response_for_request_def downstream_range_trim_plan_def build_downstream_response_def)
qed

end
