(* ===== verification/Cache_Policy.thy ===== *)
theory Cache_Policy
  imports Cache_Request
begin

text \<open>
  What may be stored, for how long, and when a stored entry may be served:
  \<open>crates/rginx-http/src/cache/policy.rs\<close>, \<open>store/helpers.rs\<close>, \<open>invalidation.rs\<close>, the
  life cycle of \<open>runtime/support.rs\<close> and the stale decision of \<open>runtime/context.rs\<close>,
  on the types of \<open>cache/state.rs\<close>, \<open>cache/mod.rs\<close> and \<open>entry/metadata.rs\<close>.

  The parser of header names is the argument \<open>header_name\<close>, the one of the crate
  \<open>httpdate\<close> the argument \<open>http_date\<close>; times are arguments where the source reads
  the clock.
\<close>

section \<open>Types\<close>

datatype cache_status = CsHit | CsMiss | CsBypass | CsExpired | CsStale | CsUpdating | CsRevalidated

datatype cache_index_entry_kind = ResponseEntry | HitForPass

record cache_index_entry =
  ie_kind :: cache_index_entry_kind
  ie_hash :: string
  ie_base_key :: string
  ie_stored_at_unix_ms :: nat
  ie_vary :: "cached_vary_header_value list"
  ie_tags :: "string list"
  ie_body_size_bytes :: nat
  ie_expires_at_unix_ms :: nat
  ie_grace_until_unix_ms :: "nat option"
  ie_keep_until_unix_ms :: "nat option"
  ie_stale_if_error_until_unix_ms :: "nat option"
  ie_stale_while_revalidate_until_unix_ms :: "nat option"
  ie_requires_revalidation :: bool
  ie_must_revalidate :: bool
  ie_last_access_unix_ms :: nat

definition is_hit_for_pass :: "cache_index_entry \<Rightarrow> bool" where
  "is_hit_for_pass entry \<longleftrightarrow> ie_kind entry = HitForPass"

text \<open>\<open>stable_eq\<close>: equality of all fields but the last access.\<close>

definition stable_eq :: "cache_index_entry \<Rightarrow> cache_index_entry \<Rightarrow> bool" where
  "stable_eq e e' \<longleftrightarrow>
     ie_kind e = ie_kind e' \<and> ie_stored_at_unix_ms e = ie_stored_at_unix_ms e'
     \<and> ie_grace_until_unix_ms e = ie_grace_until_unix_ms e' \<and> ie_keep_until_unix_ms e = ie_keep_until_unix_ms e'
     \<and> ie_hash e = ie_hash e' \<and> ie_base_key e = ie_base_key e' \<and> ie_vary e = ie_vary e' \<and> ie_tags e = ie_tags e'
     \<and> ie_body_size_bytes e = ie_body_size_bytes e' \<and> ie_expires_at_unix_ms e = ie_expires_at_unix_ms e'
     \<and> ie_stale_if_error_until_unix_ms e = ie_stale_if_error_until_unix_ms e'
     \<and> ie_stale_while_revalidate_until_unix_ms e = ie_stale_while_revalidate_until_unix_ms e'
     \<and> ie_requires_revalidation e = ie_requires_revalidation e' \<and> ie_must_revalidate e = ie_must_revalidate e'"

datatype cache_invalidation_selector = InvAll | InvExact string | InvPrefix string | InvTag string

record cache_invalidation_rule =
  ir_selector :: cache_invalidation_selector
  ir_created_at_unix_ms :: nat

record response_freshness =
  rf_ttl :: duration
  rf_stale_if_error :: "duration option"
  rf_stale_while_revalidate :: "duration option"
  rf_requires_revalidation :: bool
  rf_must_revalidate :: bool

record response_body_size =
  bs_exact :: "nat option"
  bs_lower :: nat
  bs_upper :: "nat option"

definition exact_body_size :: "nat \<Rightarrow> response_body_size" where
  "exact_body_size n = \<lparr> bs_exact = Some n, bs_lower = n, bs_upper = Some n \<rparr>"

text \<open>
  The part of \<open>CacheStoreContext\<close> that decisions read: the configuration of the
  zone, the policy, the request, the keys and what was found in the cache.
\<close>

record cache_store_context =
  sc_zone :: cache_zone
  sc_policy :: route_cache_policy
  sc_request :: cache_request
  sc_base_key :: string
  sc_key :: string
  sc_cache_status :: cache_status
  sc_store_response :: bool
  sc_cached_entry :: "cache_index_entry option"
  sc_has_response_head :: bool
  sc_revalidating :: bool
  sc_request_forces_revalidation :: bool
  sc_read_cached_body :: bool

section \<open>Storing\<close>

definition ignores_header :: "cache_store_context \<Rightarrow> cache_ignore_header \<Rightarrow> bool" where
  "ignores_header ctx header \<longleftrightarrow> header \<in> set (cp_ignore_headers (sc_policy ctx))"

definition status_is_cacheable :: "cache_store_context \<Rightarrow> status_code \<Rightarrow> bool \<Rightarrow> bool" where
  "status_is_cacheable ctx status has_cacheable_request_range \<longleftrightarrow>
     status \<in> set (cp_statuses (sc_policy ctx)) \<or> (status = 206 \<and> has_cacheable_request_range)"

definition parse_content_length :: "header_map \<Rightarrow> nat option" where
  "parse_content_length headers =
     Option.bind (Option.bind (hm_get headers ''content-length'') to_str) (parse_uint u64_max)"

definition response_is_grpc :: "header_map \<Rightarrow> bool" where
  "response_is_grpc headers =
     (case Option.bind (hm_get headers ''content-type'') to_str of
        None \<Rightarrow> False
      | Some content_type \<Rightarrow>
          (let mime = mime_type content_type
           in eq_ignore_ascii_case mime ''application/grpc'' \<or> str_starts_with mime ''application/grpc+''
              \<or> str_starts_with mime ''application/grpc-web''))"

fun vary_tokens :: "(string \<Rightarrow> string option) \<Rightarrow> string list \<Rightarrow> string list \<Rightarrow> string list option" where
  "vary_tokens header_name names [] = Some names"
| "vary_tokens header_name names (token # tokens) =
     (if token = ''*'' then None
      else case header_name token of
        None \<Rightarrow> None
      | Some name \<Rightarrow> vary_tokens header_name (if name \<in> set names then names else names @ [name]) tokens)"

fun vary_values :: "(string \<Rightarrow> string option) \<Rightarrow> string list \<Rightarrow> string list \<Rightarrow> string list option" where
  "vary_values header_name names [] = Some names"
| "vary_values header_name names (value # values) =
     Option.bind (to_str value) (\<lambda>text.
     Option.bind (vary_tokens header_name names
                    (filter (\<lambda>t. t \<noteq> []) (map str_trim (str_split (CHR '','') text))))
       (\<lambda>names. vary_values header_name names values))"

definition vary_headers :: "(string \<Rightarrow> string option) \<Rightarrow> header_map \<Rightarrow> string list option" where
  "vary_headers header_name headers = map_option sort (vary_values header_name [] (hm_get_all headers ''vary''))"

definition vary_is_supported :: "(string \<Rightarrow> string option) \<Rightarrow> cache_store_context \<Rightarrow> header_map \<Rightarrow> bool" where
  "vary_is_supported header_name ctx headers \<longleftrightarrow>
     ignores_header ctx IgnoreVary \<or> vary_headers header_name headers \<noteq> None"

definition response_is_storable_with_size ::
    "(string \<Rightarrow> string option) \<Rightarrow> cache_store_context \<Rightarrow> status_code \<Rightarrow> header_map \<Rightarrow> response_body_size \<Rightarrow> bool" where
  "response_is_storable_with_size header_name ctx status headers body_size =
     (let requested_range = cacheable_range_request (sc_request ctx) (sc_policy ctx);
          limit = cz_max_entry_bytes (sc_zone ctx)
      in if \<not> status_is_cacheable ctx status (requested_range \<noteq> None) then False
         else if requested_range \<noteq> None \<and> status \<noteq> 206 then False
         else if (if status = 206
                  then requested_range = None
                       \<or> \<not> response_content_range_matches_request (sc_request ctx) (sc_policy ctx) headers
                  else hm_contains headers ''content-range'') then False
         else if \<not> ignores_header ctx IgnoreSetCookie \<and> hm_contains headers ''set-cookie'' then False
         else if \<not> vary_is_supported header_name ctx headers then False
         else if response_is_grpc headers then False
         else if \<not> ignores_header ctx IgnoreCacheControl
                 \<and> cache_control_contains headers [''no-store'', ''private''] then False
         else if (case parse_content_length headers of Some len \<Rightarrow> limit < len | None \<Rightarrow> False) then False
         else if (case bs_exact body_size of Some exact \<Rightarrow> limit < exact | None \<Rightarrow> False) then False
         else if limit < bs_lower body_size \<or> (case bs_upper body_size of Some upper \<Rightarrow> limit < upper | None \<Rightarrow> False) then False
         else True)"

definition or_else :: "'a option \<Rightarrow> 'a option \<Rightarrow> 'a option" where
  "or_else a b = (case a of Some x \<Rightarrow> Some x | None \<Rightarrow> b)"

definition response_ttl ::
    "(string \<Rightarrow> nat option) \<Rightarrow> nat \<Rightarrow> cache_store_context \<Rightarrow> status_code \<Rightarrow> header_map \<Rightarrow> duration" where
  "response_ttl http_date now_ns ctx status headers =
     (case or_else (if ignores_header ctx IgnoreXAccelExpires then None else x_accel_expires_ttl now_ns headers)
          (or_else (if ignores_header ctx IgnoreCacheControl then None else cache_control_max_age headers)
          (or_else (if ignores_header ctx IgnoreExpires then None else expires_ttl http_date now_ns headers)
             (map_option rule_ttl (find (\<lambda>rule. status \<in> set (rule_statuses rule)) (cp_ttl_by_status (sc_policy ctx)))))) of
        Some ttl \<Rightarrow> ttl
      | None \<Rightarrow> cz_default_ttl (sc_zone ctx))"

definition response_freshness_of ::
    "(string \<Rightarrow> nat option) \<Rightarrow> nat \<Rightarrow> cache_store_context \<Rightarrow> status_code \<Rightarrow> header_map \<Rightarrow> response_freshness" where
  "response_freshness_of http_date now_ns ctx status headers =
     (let cc = \<not> ignores_header ctx IgnoreCacheControl
      in \<lparr> rf_ttl = response_ttl http_date now_ns ctx status headers,
           rf_stale_if_error =
             or_else (if cc then cache_control_duration headers ''stale-if-error'' else None)
               (cp_stale_if_error (sc_policy ctx)),
           rf_stale_while_revalidate =
             (if cc then cache_control_duration headers ''stale-while-revalidate'' else None),
           rf_requires_revalidation = (cc \<and> cache_control_contains headers [''no-cache'']),
           rf_must_revalidate = (cc \<and> cache_control_contains headers [''must-revalidate'', ''proxy-revalidate'']) \<rparr>)"

definition request_requires_revalidation :: "header_map \<Rightarrow> bool" where
  "request_requires_revalidation headers \<longleftrightarrow>
     cache_control_contains headers [''no-cache''] \<or> cache_control_duration headers ''max-age'' = Some 0
     \<or> pragma_contains headers ''no-cache''"

definition response_no_cache :: "cache_store_context \<Rightarrow> status_code \<Rightarrow> bool" where
  "response_no_cache ctx status =
     (case cp_no_cache (sc_policy ctx) of
        None \<Rightarrow> False
      | Some predicate \<Rightarrow> matches_response (predicate_context (sc_request ctx)) status predicate)"

definition freshness_is_cacheable :: "response_freshness \<Rightarrow> bool" where
  "freshness_is_cacheable f \<longleftrightarrow>
     rf_ttl f \<noteq> 0 \<or> rf_requires_revalidation f \<or> rf_must_revalidate f
     \<or> rf_stale_if_error f \<noteq> None \<or> rf_stale_while_revalidate f \<noteq> None"

definition should_remember_hit_for_pass ::
    "(string \<Rightarrow> string option) \<Rightarrow> cache_store_context \<Rightarrow> header_map \<Rightarrow> bool" where
  "should_remember_hit_for_pass header_name ctx headers \<longleftrightarrow>
     cp_pass_ttl (sc_policy ctx) \<noteq> None \<and>
     ((\<not> ignores_header ctx IgnoreCacheControl \<and>
         (case Option.bind (hm_get headers ''cache-control'') to_str of
            None \<Rightarrow> False
          | Some value \<Rightarrow>
              list_ex (\<lambda>token. str_trim token \<in> {''no-store'', ''private''})
                (str_split (CHR '','') (to_ascii_lowercase value))))
      \<or> (\<not> ignores_header ctx IgnoreSetCookie \<and> hm_contains headers ''set-cookie'')
      \<or> (\<not> ignores_header ctx IgnoreVary \<and> vary_headers header_name headers = None)
      \<or> response_is_grpc headers)"

section \<open>Variants and tags\<close>

definition cache_vary_values ::
    "(string \<Rightarrow> string option) \<Rightarrow> cache_store_context \<Rightarrow> cache_request \<Rightarrow> header_map \<Rightarrow> cached_vary_header_value list" where
  "cache_vary_values header_name ctx request headers =
     (if ignores_header ctx IgnoreVary then []
      else sort_key vary_key
        (map (\<lambda>name. \<lparr> vh_name = name, vh_value = normalized_request_header_values (cr_headers request) name \<rparr>)
          (case vary_headers header_name headers of None \<Rightarrow> [] | Some names \<Rightarrow> names)))"

definition normalize_cache_tag :: "string \<Rightarrow> string option" where
  "normalize_cache_tag tag0 =
     (let tag = to_ascii_lowercase (str_trim tag0) in if tag \<noteq> [] then Some tag else None)"

text \<open>\<open>char::is_ascii_whitespace\<close> does not contain the vertical tab.\<close>

definition tag_separator :: "char \<Rightarrow> bool" where
  "tag_separator c \<longleftrightarrow> c = CHR '','' \<or> c \<in> {CHR 0x09, CHR 0x0A, CHR 0x0C, CHR 0x0D, CHR '' ''}"

fun split_tags :: "string \<Rightarrow> string list" where
  "split_tags [] = [[]]"
| "split_tags (x # xs) =
     (if tag_separator x then [] # split_tags xs
      else (case split_tags xs of [] \<Rightarrow> [[x]] | p # ps \<Rightarrow> (x # p) # ps))"

definition cache_tags :: "header_map \<Rightarrow> string list" where
  "cache_tags headers =
     remdups_adj (sort (List.map_filter normalize_cache_tag (concat (map split_tags
       (List.map_filter to_str (concat (map (hm_get_all headers) [''cache-tag'', ''surrogate-key'', ''x-cache-tag''])))))))"

definition cache_final_key_for_response ::
    "(string \<Rightarrow> string option) \<Rightarrow> (string \<Rightarrow> string) \<Rightarrow> cache_store_context \<Rightarrow> cache_request \<Rightarrow> header_map \<Rightarrow>
     string \<times> cached_vary_header_value list \<times> string list" where
  "cache_final_key_for_response header_name sha ctx request headers =
     (let vary = cache_vary_values header_name ctx request headers;
          tags = cache_tags headers;
          final_key = (if ignores_header ctx IgnoreVary \<or> vary_headers header_name headers \<noteq> None
                       then cache_variant_key sha (sc_base_key ctx) vary else sc_base_key ctx)
      in (final_key, vary, tags))"

section \<open>Deadlines\<close>

record cache_metadata_input =
  mi_kind :: cache_index_entry_kind
  mi_base_key :: string
  mi_vary :: "cached_vary_header_value list"
  mi_tags :: "string list"
  mi_stored_at_unix_ms :: nat
  mi_expires_at_unix_ms :: nat
  mi_grace_until_unix_ms :: "nat option"
  mi_keep_until_unix_ms :: "nat option"
  mi_stale_if_error_until_unix_ms :: "nat option"
  mi_stale_while_revalidate_until_unix_ms :: "nat option"
  mi_requires_revalidation :: bool
  mi_must_revalidate :: bool
  mi_body_size_bytes :: nat

definition duration_to_ms :: "duration \<Rightarrow> nat" where
  "duration_to_ms d = min (as_millis d) u64_max"

fun max_deadline :: "nat option \<Rightarrow> nat option \<Rightarrow> nat option" where
  "max_deadline (Some l) (Some r) = Some (max l r)"
| "max_deadline (Some l) None = Some l"
| "max_deadline None r = r"

definition cache_metadata_input_of ::
    "string \<Rightarrow> cached_vary_header_value list \<Rightarrow> string list \<Rightarrow> nat \<Rightarrow> duration option \<Rightarrow> duration option \<Rightarrow>
     response_freshness \<Rightarrow> nat \<Rightarrow> cache_metadata_input" where
  "cache_metadata_input_of base_key vary tags now grace keep freshness body_size_bytes =
     (let expires_at = sat_add_u64 now (duration_to_ms (rf_ttl freshness));
          after = (\<lambda>d. sat_add_u64 expires_at (duration_to_ms d));
          stale_if_error_until = map_option after (rf_stale_if_error freshness);
          stale_while_revalidate_until = map_option after (rf_stale_while_revalidate freshness);
          grace_until = max_deadline (map_option after grace) stale_while_revalidate_until;
          configured_keep_until = map_option after keep;
          keep_until = max_deadline configured_keep_until (max_deadline grace_until stale_if_error_until)
      in \<lparr> mi_kind = ResponseEntry, mi_base_key = base_key, mi_vary = vary, mi_tags = tags,
           mi_stored_at_unix_ms = now, mi_expires_at_unix_ms = expires_at,
           mi_grace_until_unix_ms = grace_until,
           mi_keep_until_unix_ms =
             (if configured_keep_until \<noteq> None \<or> grace_until \<noteq> None \<or> stale_if_error_until \<noteq> None
              then keep_until else None),
           mi_stale_if_error_until_unix_ms = stale_if_error_until,
           mi_stale_while_revalidate_until_unix_ms = stale_while_revalidate_until,
           mi_requires_revalidation = rf_requires_revalidation freshness,
           mi_must_revalidate = rf_must_revalidate freshness,
           mi_body_size_bytes = body_size_bytes \<rparr>)"

text \<open>The index entry of stored metadata.\<close>

definition entry_of_metadata :: "string \<Rightarrow> nat \<Rightarrow> cache_metadata_input \<Rightarrow> cache_index_entry" where
  "entry_of_metadata hash now m =
     \<lparr> ie_kind = mi_kind m, ie_hash = hash, ie_base_key = mi_base_key m,
       ie_stored_at_unix_ms = mi_stored_at_unix_ms m, ie_vary = mi_vary m, ie_tags = mi_tags m,
       ie_body_size_bytes = mi_body_size_bytes m, ie_expires_at_unix_ms = mi_expires_at_unix_ms m,
       ie_grace_until_unix_ms = mi_grace_until_unix_ms m, ie_keep_until_unix_ms = mi_keep_until_unix_ms m,
       ie_stale_if_error_until_unix_ms = mi_stale_if_error_until_unix_ms m,
       ie_stale_while_revalidate_until_unix_ms = mi_stale_while_revalidate_until_unix_ms m,
       ie_requires_revalidation = mi_requires_revalidation m, ie_must_revalidate = mi_must_revalidate m,
       ie_last_access_unix_ms = now \<rparr>"

definition hit_for_pass_entry ::
    "(string \<Rightarrow> string) \<Rightarrow> string \<Rightarrow> string \<Rightarrow> cached_vary_header_value list \<Rightarrow> string list \<Rightarrow> nat \<Rightarrow> duration \<Rightarrow> cache_index_entry" where
  "hit_for_pass_entry sha final_key base_key vary tags now pass_ttl =
     \<lparr> ie_kind = HitForPass, ie_hash = cache_key_hash sha (''pass:'' @ final_key), ie_base_key = base_key,
       ie_stored_at_unix_ms = now, ie_vary = vary, ie_tags = tags, ie_body_size_bytes = 0,
       ie_expires_at_unix_ms = sat_add_u64 now (duration_to_ms pass_ttl), ie_grace_until_unix_ms = None,
       ie_keep_until_unix_ms = Some (sat_add_u64 now (duration_to_ms pass_ttl)),
       ie_stale_if_error_until_unix_ms = None, ie_stale_while_revalidate_until_unix_ms = None,
       ie_requires_revalidation = False, ie_must_revalidate = False, ie_last_access_unix_ms = now \<rparr>"

section \<open>Life cycle\<close>

datatype lifecycle_phase_kind = PhaseFresh | PhaseGrace | PhaseKeep | PhaseDead

definition window_open :: "nat option \<Rightarrow> nat \<Rightarrow> bool" where
  "window_open until now = (case until of Some u \<Rightarrow> now \<le> u | None \<Rightarrow> False)"

definition stale_if_error_window_open :: "cache_index_entry \<Rightarrow> nat \<Rightarrow> bool" where
  "stale_if_error_window_open entry now = window_open (ie_stale_if_error_until_unix_ms entry) now"

definition stale_while_revalidate_window_open :: "cache_index_entry \<Rightarrow> nat \<Rightarrow> bool" where
  "stale_while_revalidate_window_open entry now \<longleftrightarrow>
     window_open (ie_grace_until_unix_ms entry) now
     \<or> window_open (ie_stale_while_revalidate_until_unix_ms entry) now"

definition keep_window_open :: "cache_index_entry \<Rightarrow> nat \<Rightarrow> bool" where
  "keep_window_open entry now = (case ie_keep_until_unix_ms entry of None \<Rightarrow> True | Some until \<Rightarrow> now \<le> until)"

definition lifecycle_phase :: "cache_index_entry \<Rightarrow> nat \<Rightarrow> lifecycle_phase_kind" where
  "lifecycle_phase entry now =
     (if now \<le> ie_expires_at_unix_ms entry then PhaseFresh
      else if stale_while_revalidate_window_open entry now then PhaseGrace
      else if keep_window_open entry now then PhaseKeep
      else PhaseDead)"

definition use_stale_matches_status :: "cache_use_stale_condition list \<Rightarrow> status_code \<Rightarrow> bool" where
  "use_stale_matches_status conditions status =
     (if status = 403 then StaleHttp403 \<in> set conditions
      else if status = 404 then StaleHttp404 \<in> set conditions
      else if status = 429 then StaleHttp429 \<in> set conditions
      else if status = 500 then StaleHttp500 \<in> set conditions
      else if status = 502 then StaleHttp502 \<in> set conditions
      else if status = 503 then StaleHttp503 \<in> set conditions
      else if status = 504 then StaleHttp504 \<in> set conditions
      else False)"

datatype cache_stale_reason = ReasonError | ReasonTimeout | ReasonStatus status_code

definition can_serve_stale :: "cache_store_context \<Rightarrow> cache_stale_reason \<Rightarrow> nat \<Rightarrow> bool" where
  "can_serve_stale ctx reason now =
     (case sc_cached_entry ctx of
        None \<Rightarrow> False
      | Some entry \<Rightarrow>
          if \<not> sc_has_response_head ctx then False
          else if is_hit_for_pass entry then False
          else if sc_request_forces_revalidation ctx \<or> ie_requires_revalidation entry \<or> ie_must_revalidate entry
          then False
          else let phase = lifecycle_phase entry now; conditions = cp_use_stale (sc_policy ctx)
               in if phase = PhaseDead then False
                  else (case reason of
                      ReasonError \<Rightarrow>
                        (phase = PhaseGrace \<and> StaleError \<in> set conditions) \<or> stale_if_error_window_open entry now
                    | ReasonTimeout \<Rightarrow>
                        (phase = PhaseGrace \<and> StaleTimeout \<in> set conditions) \<or> stale_if_error_window_open entry now
                    | ReasonStatus status \<Rightarrow>
                        (phase = PhaseGrace \<and> use_stale_matches_status conditions status)
                        \<or> (500 \<le> status \<and> status < 600 \<and> stale_if_error_window_open entry now)))"

definition should_refresh_from_not_modified :: "cache_store_context \<Rightarrow> status_code \<Rightarrow> bool" where
  "should_refresh_from_not_modified ctx status \<longleftrightarrow> sc_cached_entry ctx \<noteq> None \<and> status = 304"

section \<open>Invalidation and purging\<close>

fun selector_matches_entry :: "cache_invalidation_selector \<Rightarrow> string \<Rightarrow> cache_index_entry \<Rightarrow> bool" where
  "selector_matches_entry InvAll key entry = True"
| "selector_matches_entry (InvExact expected) key entry = (key = expected)"
| "selector_matches_entry (InvPrefix pre) key entry = str_starts_with key pre"
| "selector_matches_entry (InvTag tag) key entry = (tag \<in> set (ie_tags entry))"

definition invalidation_rule_matches_entry :: "cache_invalidation_rule \<Rightarrow> string \<Rightarrow> cache_index_entry \<Rightarrow> bool" where
  "invalidation_rule_matches_entry rule key entry \<longleftrightarrow>
     ie_stored_at_unix_ms entry < ir_created_at_unix_ms rule \<and> selector_matches_entry (ir_selector rule) key entry"

fun invalidation_scope :: "cache_invalidation_selector \<Rightarrow> string" where
  "invalidation_scope InvAll = ''all''"
| "invalidation_scope (InvExact key) = ''key:'' @ key"
| "invalidation_scope (InvPrefix pre) = ''prefix:'' @ pre"
| "invalidation_scope (InvTag tag) = ''tag:'' @ tag"

datatype purge_selector = PurgeAll | PurgeExact string | PurgePrefix string

fun purge_selector_matches :: "purge_selector \<Rightarrow> string \<Rightarrow> bool" where
  "purge_selector_matches PurgeAll key = True"
| "purge_selector_matches (PurgeExact expected) key = (key = expected)"
| "purge_selector_matches (PurgePrefix pre) key = str_starts_with key pre"

fun purge_scope :: "purge_selector \<Rightarrow> string" where
  "purge_scope PurgeAll = ''all''"
| "purge_scope (PurgeExact key) = ''key:'' @ key"
| "purge_scope (PurgePrefix pre) = ''prefix:'' @ pre"

definition merge_not_modified_headers :: "header_map \<Rightarrow> header_map \<Rightarrow> header_map" where
  "merge_not_modified_headers cached not_modified =
     foldl (\<lambda>merged name.
        if name = ''content-length'' then merged
        else foldl (\<lambda>m value. hm_append m name value) (hm_remove merged name) (hm_get_all not_modified name))
       cached (hm_keys not_modified)"

section \<open>Lemmas\<close>

lemma window_open_simps [simp]:
  "window_open None t = False" "window_open (Some u) t = (t \<le> u)"
  by (simp_all add: window_open_def)

lemma window_open_max [simp]: "window_open (max_deadline a b) t \<longleftrightarrow> window_open a t \<or> window_open b t"
  by (cases "(a, b)" rule: max_deadline.cases) auto

lemma max_deadline_None [simp]: "max_deadline a b = None \<longleftrightarrow> a = None \<and> b = None"
  by (cases "(a, b)" rule: max_deadline.cases) auto

lemma keep_window_open_iff: "keep_window_open e t \<longleftrightarrow> ie_keep_until_unix_ms e = None \<or> window_open (ie_keep_until_unix_ms e) t"
  by (simp add: keep_window_open_def split: option.split)

lemma mime_type_lower [simp]: "to_ascii_lowercase (mime_type s) = mime_type s"
  by (simp add: mime_type_def)

text \<open>The two spellings of the test for gRPC agree.\<close>

lemma response_is_grpc_content: "response_is_grpc headers = is_grpc_content headers"
proof -
  have "to_ascii_lowercase ''application/grpc'' = ''application/grpc''"
    by (simp add: to_ascii_lowercase_def ascii_lower_def)
  then show ?thesis
    by (simp add: response_is_grpc_def is_grpc_content_def eq_ignore_ascii_case_def split: option.split)
qed

text \<open>The windows of a response stored at \<open>now\<close>, in the terms of its freshness.\<close>

definition expiry :: "nat \<Rightarrow> response_freshness \<Rightarrow> nat" where
  "expiry now f = sat_add_u64 now (duration_to_ms (rf_ttl f))"

definition within :: "nat \<Rightarrow> response_freshness \<Rightarrow> duration option \<Rightarrow> nat \<Rightarrow> bool" where
  "within now f d t \<longleftrightarrow> (\<exists>x. d = Some x \<and> t \<le> sat_add_u64 (expiry now f) (duration_to_ms x))"

lemma window_open_after:
  "window_open (map_option (\<lambda>d. sat_add_u64 (expiry now f) (duration_to_ms d)) d) t = within now f d t"
  by (cases d) (simp_all add: within_def)

abbreviation stored_entry ::
    "string \<Rightarrow> nat \<Rightarrow> string \<Rightarrow> cached_vary_header_value list \<Rightarrow> string list \<Rightarrow> nat \<Rightarrow> duration option \<Rightarrow>
     duration option \<Rightarrow> response_freshness \<Rightarrow> nat \<Rightarrow> cache_index_entry" where
  "stored_entry hash access base vary tags now grace keep f n \<equiv>
     entry_of_metadata hash access (cache_metadata_input_of base vary tags now grace keep f n)"

lemma stored_windows:
  shows "ie_expires_at_unix_ms (stored_entry hash access base vary tags now grace keep f n) = expiry now f"
    and "stale_while_revalidate_window_open (stored_entry hash access base vary tags now grace keep f n) t \<longleftrightarrow> within now f grace t \<or> within now f (rf_stale_while_revalidate f) t"
    and "stale_if_error_window_open (stored_entry hash access base vary tags now grace keep f n) t \<longleftrightarrow> within now f (rf_stale_if_error f) t"
    and "keep_window_open (stored_entry hash access base vary tags now grace keep f n) t \<longleftrightarrow>
       (keep = None \<and> grace = None \<and> rf_stale_while_revalidate f = None \<and> rf_stale_if_error f = None)
       \<or> within now f keep t \<or> within now f grace t \<or> within now f (rf_stale_while_revalidate f) t
       \<or> within now f (rf_stale_if_error f) t"
  by (auto simp: entry_of_metadata_def cache_metadata_input_of_def Let_def expiry_def [symmetric]
      stale_while_revalidate_window_open_def stale_if_error_window_open_def keep_window_open_iff window_open_after)

lemma stored_flags [simp]:
  "ie_requires_revalidation (entry_of_metadata hash access m) = mi_requires_revalidation m"
  "ie_must_revalidate (entry_of_metadata hash access m) = mi_must_revalidate m"
  "mi_requires_revalidation (cache_metadata_input_of base vary tags now grace keep f n) = rf_requires_revalidation f"
  "mi_must_revalidate (cache_metadata_input_of base vary tags now grace keep f n) = rf_must_revalidate f"
  by (simp_all add: entry_of_metadata_def cache_metadata_input_of_def Let_def)

fun phase_rank :: "lifecycle_phase_kind \<Rightarrow> nat" where
  "phase_rank PhaseFresh = 0"
| "phase_rank PhaseGrace = 1"
| "phase_rank PhaseKeep = 2"
| "phase_rank PhaseDead = 3"

lemma lifecycle_phase_mono:
  assumes "t \<le> t'"
  shows "phase_rank (lifecycle_phase e t) \<le> phase_rank (lifecycle_phase e t')"
proof -
  have w: "window_open u t' \<Longrightarrow> window_open u t" for u using assms by (cases u) auto
  have "stale_while_revalidate_window_open e t' \<Longrightarrow> stale_while_revalidate_window_open e t"
    "keep_window_open e t' \<Longrightarrow> keep_window_open e t"
    using w by (auto simp: stale_while_revalidate_window_open_def keep_window_open_iff)
  then show ?thesis using assms by (simp add: lifecycle_phase_def)
qed

text \<open>The effect of a 304 on the stored headers.\<close>

lemma merge_step_get_all:
  "hm_get_all (foldl (\<lambda>merged name.
        if name = ''content-length'' then merged
        else foldl (\<lambda>m value. hm_append m name value) (hm_remove merged name) (hm_get_all h name)) c names) n
   = (if n \<in> set names \<and> n \<noteq> ''content-length'' then hm_get_all h n else hm_get_all c n)"
  by (induction names arbitrary: c) (auto simp: hm.get_all_append_list hm_simps)

section \<open>Properties\<close>

text \<open>C24. The life of a stored response: fresh up to its time to live, then in grace as long as the
  grace or \<open>stale-while-revalidate\<close> window lasts, and dead only after every window has closed; the
  phases follow each other in time.\<close>

theorem stored_response_lifecycle:
  "(lifecycle_phase (stored_entry hash access base vary tags now grace keep f n) t = PhaseFresh \<longleftrightarrow> t \<le> expiry now f) \<and>
     (lifecycle_phase (stored_entry hash access base vary tags now grace keep f n) t = PhaseGrace \<longleftrightarrow>
        expiry now f < t \<and> (within now f grace t \<or> within now f (rf_stale_while_revalidate f) t)) \<and>
     (lifecycle_phase (stored_entry hash access base vary tags now grace keep f n) t = PhaseDead \<longrightarrow>
        \<not> within now f keep t \<and> \<not> within now f (rf_stale_if_error f) t) \<and>
     (t \<le> t' \<longrightarrow> phase_rank (lifecycle_phase (stored_entry hash access base vary tags now grace keep f n) t) \<le> phase_rank (lifecycle_phase (stored_entry hash access base vary tags now grace keep f n) t'))"
  using lifecycle_phase_mono [of t t' "stored_entry hash access base vary tags now grace keep f n"]
  by (auto simp: lifecycle_phase_def stored_windows)

definition sample_freshness :: response_freshness where
  "sample_freshness = \<lparr> rf_ttl = 60000000000, rf_stale_if_error = Some 30000000000, rf_stale_while_revalidate = None,
     rf_requires_revalidation = False, rf_must_revalidate = False \<rparr>"

lemma sample_expiry: "expiry 1000 sample_freshness = 61000"
  by (simp add: expiry_def sample_freshness_def duration_to_ms_def as_millis_def sat_add_u64_def u64_max_def)

theorem stored_response_lifecycle_witness:
  "lifecycle_phase (entry_of_metadata ''h'' 1000
     (cache_metadata_input_of ''k'' [] [] 1000 None None sample_freshness 5)) 61000 = PhaseFresh \<and>
   phase_rank (lifecycle_phase (entry_of_metadata ''h'' 1000
     (cache_metadata_input_of ''k'' [] [] 1000 None None sample_freshness 5)) 61000) \<le>
   phase_rank (lifecycle_phase (entry_of_metadata ''h'' 1000
     (cache_metadata_input_of ''k'' [] [] 1000 None None sample_freshness 5)) 99000)"
  using stored_response_lifecycle [of "''h''" 1000 "''k''" "[]" "[]" 1000 None None sample_freshness 5 61000 99000]
  by (simp add: sample_expiry)

text \<open>A stale response is served only when nothing forbids it: neither the request nor the response
  demands revalidation, the entry is no pass marker, and at the time the grace, the
  \<open>stale-while-revalidate\<close> or the \<open>stale-if-error\<close> window is open; a status of the upstream below 500
  never opens the last one.\<close>

theorem stale_only_within_windows:
  assumes "can_serve_stale ctx reason t"
    and "sc_cached_entry ctx = Some (stored_entry hash access base vary tags now grace keep f n)"
  shows "\<not> sc_request_forces_revalidation ctx \<and> \<not> rf_requires_revalidation f \<and> \<not> rf_must_revalidate f \<and>
     (within now f grace t \<or> within now f (rf_stale_while_revalidate f) t \<or>
        within now f (rf_stale_if_error f) t \<and> (\<forall>s. reason = ReasonStatus s \<longrightarrow> 500 \<le> s))"
  using assms stored_windows [of hash access base vary tags now grace keep f n]
  by (auto simp: can_serve_stale_def lifecycle_phase_def Let_def split: if_splits cache_stale_reason.splits)

definition sample_zone :: cache_zone where
  "sample_zone = \<lparr> cz_name = ''z'', cz_path = ''/c'', cz_max_size_bytes = Some 1000, cz_inactive = 0,
     cz_default_ttl = 0, cz_max_entry_bytes = 100, cz_path_levels = [2], cz_loader_batch_entries = 1,
     cz_loader_sleep = 0, cz_manager_batch_entries = 1, cz_manager_sleep = 0,
     cz_inactive_cleanup_interval = 0, cz_shared_index = False \<rparr>"

definition sample_context :: cache_store_context where
  "sample_context =
     \<lparr> sc_zone = sample_zone, sc_policy = sample_policy,
       sc_request = \<lparr> cr_method = ''GET'', cr_uri = \<lparr> uri_path_and_query = None, uri_authority = None \<rparr>, cr_headers = [] \<rparr>,
       sc_base_key = ''k'', sc_key = ''k'', sc_cache_status = CsExpired, sc_store_response = True,
       sc_cached_entry = Some (entry_of_metadata ''h'' 1000 (cache_metadata_input_of ''k'' [] [] 1000 None None sample_freshness 5)),
       sc_has_response_head = True, sc_revalidating = True, sc_request_forces_revalidation = False,
       sc_read_cached_body = True \<rparr>"

theorem stale_only_within_windows_witness:
  "can_serve_stale sample_context (ReasonStatus 502) 90000 \<and> within 1000 sample_freshness (Some 30000000000) 90000"
proof -
  have w: "within 1000 sample_freshness (Some 30000000000) 90000"
    by (simp add: within_def sample_expiry duration_to_ms_def as_millis_def sat_add_u64_def u64_max_def)
  have c: "can_serve_stale sample_context (ReasonStatus 502) 90000"
    using w stored_windows [of "''h''" 1000 "''k''" "[]" "[]" 1000 None None sample_freshness 5]
    by (simp add: can_serve_stale_def sample_context_def lifecycle_phase_def is_hit_for_pass_def Let_def
        sample_freshness_def entry_of_metadata_def cache_metadata_input_of_def)
  from stale_only_within_windows [OF c, of "''h''" 1000 "''k''" "[]" "[]" 1000 None None sample_freshness 5] c
  show ?thesis by (simp add: sample_context_def sample_freshness_def within_def)
qed

text \<open>Revalidation by a 304 updates the stored headers to those of the answer and keeps the others;
  the content length stays that of the stored body.\<close>

theorem not_modified_updates_headers:
  "hm_get_all (merge_not_modified_headers cached not_modified) name =
     (if hm_contains not_modified name \<and> name \<noteq> ''content-length''
      then hm_get_all not_modified name else hm_get_all cached name)"
  unfolding merge_not_modified_headers_def merge_step_get_all
  using hm_get_all_in_keys [of name not_modified]
  by (auto simp: hm_contains_def hm_get_all_def filter_empty_conv)

end
