(* ===== verification/Cache_Index.thy ===== *)
theory Cache_Index
  imports Cache_Policy
begin

text \<open>
  The index of a cache zone (\<open>crates/rginx-http/src/cache/index.rs\<close>, the hot state
  and counters of \<open>runtime/zone.rs\<close>) and its maintenance
  (\<open>store/maintenance/index_state.rs\<close>, \<open>store/maintenance/store_update.rs\<close>,
  \<open>store/maintenance/mod.rs\<close>): insertion with eviction, removal, admission,
  inactivity cleanup, purging and invalidation.

  A hash map is a map; where the source iterates over one, the iteration order is
  an argument.  The ordered set of scheduled accesses is a sorted list.  Every
  operation holds the lock of the index and is one step; it returns the operations
  it publishes to the shared index.  File removal is the caller's.
\<close>

section \<open>The index\<close>

type_synonym sched_entry = "nat \<times> nat \<times> string"

record cache_index =
  ix_entries :: "string \<Rightarrow> cache_index_entry option"
  ix_hash_ref_counts :: "string \<Rightarrow> nat option"
  ix_variants :: "string \<Rightarrow> string list option"
  ix_admission_counts :: "string \<Rightarrow> nat option"
  ix_invalidations :: "cache_invalidation_rule list"
  ix_current_size_bytes :: nat
  ix_maintenance_next_ticket :: nat
  ix_access_schedule :: "sched_entry list"
  ix_access_ticket_by_key :: "string \<Rightarrow> (nat \<times> nat) option"

definition default_index :: cache_index where
  "default_index =
     \<lparr> ix_entries = Map.empty, ix_hash_ref_counts = Map.empty, ix_variants = Map.empty,
       ix_admission_counts = Map.empty, ix_invalidations = [], ix_current_size_bytes = 0,
       ix_maintenance_next_ticket = 0, ix_access_schedule = [], ix_access_ticket_by_key = Map.empty \<rparr>"

definition increment_hash_ref :: "(string \<Rightarrow> nat option) \<Rightarrow> string \<Rightarrow> string \<Rightarrow> nat option" where
  "increment_hash_ref counts hash = counts(hash \<mapsto> (case counts hash of None \<Rightarrow> 0 | Some n \<Rightarrow> n) + 1)"

definition decrement_hash_ref :: "(string \<Rightarrow> nat option) \<Rightarrow> string \<Rightarrow> string \<Rightarrow> nat option" where
  "decrement_hash_ref counts hash =
     (case counts hash of
        None \<Rightarrow> counts
      | Some n \<Rightarrow> if n - 1 = 0 then counts(hash := None) else counts(hash \<mapsto> n - 1))"

definition unschedule_entry_access :: "cache_index \<Rightarrow> string \<Rightarrow> cache_index" where
  "unschedule_entry_access ix key =
     (case ix_access_ticket_by_key ix key of
        None \<Rightarrow> ix
      | Some (last_access, ticket) \<Rightarrow>
          ix\<lparr> ix_access_ticket_by_key := (ix_access_ticket_by_key ix)(key := None),
              ix_access_schedule := removeAll (last_access, ticket, key) (ix_access_schedule ix) \<rparr>)"

definition schedule_entry_access :: "cache_index \<Rightarrow> string \<Rightarrow> nat \<Rightarrow> cache_index" where
  "schedule_entry_access ix0 key last_access =
     (let ix = unschedule_entry_access ix0 key; ticket = ix_maintenance_next_ticket ix
      in ix\<lparr> ix_maintenance_next_ticket := sat_add_u64 ticket 1,
             ix_access_schedule := insort_insert (last_access, ticket, key) (ix_access_schedule ix),
             ix_access_ticket_by_key := (ix_access_ticket_by_key ix)(key \<mapsto> (last_access, ticket)) \<rparr>)"

definition insert_entry :: "cache_index \<Rightarrow> string \<Rightarrow> cache_index_entry \<Rightarrow> cache_index_entry option \<times> cache_index" where
  "insert_entry ix key entry =
     (let existing = ix_entries ix key;
          counts = (case existing of Some e \<Rightarrow> decrement_hash_ref (ix_hash_ref_counts ix) (ie_hash e)
                    | None \<Rightarrow> ix_hash_ref_counts ix);
          ix1 = ix\<lparr> ix_entries := (ix_entries ix)(key \<mapsto> entry),
                    ix_hash_ref_counts := increment_hash_ref counts (ie_hash entry) \<rparr>
      in (existing, schedule_entry_access ix1 key (ie_last_access_unix_ms entry)))"

definition remove_entry :: "cache_index \<Rightarrow> string \<Rightarrow> (cache_index_entry \<times> cache_index) option" where
  "remove_entry ix key =
     (case ix_entries ix key of
        None \<Rightarrow> None
      | Some removed \<Rightarrow>
          Some (removed, unschedule_entry_access
            (ix\<lparr> ix_entries := (ix_entries ix)(key := None),
                 ix_hash_ref_counts := decrement_hash_ref (ix_hash_ref_counts ix) (ie_hash removed) \<rparr>) key))"

definition hash_is_referenced :: "cache_index \<Rightarrow> string \<Rightarrow> bool" where
  "hash_is_referenced ix hash \<longleftrightarrow> 0 < (case ix_hash_ref_counts ix hash of None \<Rightarrow> 0 | Some n \<Rightarrow> n)"

definition reschedule_entry_access :: "cache_index \<Rightarrow> string \<Rightarrow> nat \<Rightarrow> cache_index" where
  "reschedule_entry_access ix key last_access =
     (if ix_entries ix key \<noteq> None then schedule_entry_access ix key last_access else ix)"

definition oldest_scheduled_access_unix_ms :: "cache_index \<Rightarrow> nat option" where
  "oldest_scheduled_access_unix_ms ix =
     (case ix_access_schedule ix of [] \<Rightarrow> None | (last_access, _, _) # _ \<Rightarrow> Some last_access)"

definition pop_oldest_scheduled_entry :: "cache_index \<Rightarrow> ((string \<times> nat) \<times> cache_index) option" where
  "pop_oldest_scheduled_entry ix =
     (case ix_access_schedule ix of
        [] \<Rightarrow> None
      | (last_access, _, key) # rest \<Rightarrow>
          Some ((key, last_access),
            ix\<lparr> ix_access_schedule := rest,
                ix_access_ticket_by_key := (ix_access_ticket_by_key ix)(key := None) \<rparr>))"

section \<open>Variants\<close>

definition add_variant_key ::
    "(string \<Rightarrow> string list option) \<Rightarrow> string \<Rightarrow> string \<Rightarrow> string \<Rightarrow> string list option" where
  "add_variant_key variants base_key key =
     (let keys = (case variants base_key of None \<Rightarrow> [] | Some ks \<Rightarrow> ks)
      in variants(base_key \<mapsto> (if key \<in> set keys then keys else keys @ [key])))"

definition remove_variant_key ::
    "(string \<Rightarrow> string list option) \<Rightarrow> string \<Rightarrow> string \<Rightarrow> string \<Rightarrow> string list option" where
  "remove_variant_key variants base_key key =
     (case variants base_key of
        None \<Rightarrow> variants
      | Some keys \<Rightarrow>
          (let kept = filter (\<lambda>candidate. candidate \<noteq> key) keys
           in if kept = [] then variants(base_key := None) else variants(base_key \<mapsto> kept)))"

definition variant_keys_with_different_dimensions ::
    "cache_index \<Rightarrow> cache_index_entry \<Rightarrow> string \<Rightarrow> string list" where
  "variant_keys_with_different_dimensions ix entry key =
     (let expected_names = sorted_vary_dimension_names (ie_vary entry)
      in filter (\<lambda>candidate. candidate \<noteq> key \<and>
           (case ix_entries ix candidate of
              None \<Rightarrow> False
            | Some existing \<Rightarrow> sorted_vary_dimension_names (ie_vary existing) \<noteq> expected_names))
         (case ix_variants ix (ie_base_key entry) of None \<Rightarrow> [] | Some ks \<Rightarrow> ks))"

definition entry_is_logically_invalid :: "cache_index \<Rightarrow> string \<Rightarrow> cache_index_entry \<Rightarrow> bool" where
  "entry_is_logically_invalid ix key entry =
     list_ex (\<lambda>rule. invalidation_rule_matches_entry rule key entry) (ix_invalidations ix)"

section \<open>The zone\<close>

record cache_entry_hot_state =
  hs_last_access_unix_ms :: nat
  hs_shared_touch_published_unix_ms :: nat
  hs_response_head :: "string option"

record cache_zone_stats =
  zs_hit_total :: nat
  zs_miss_total :: nat
  zs_bypass_total :: nat
  zs_expired_total :: nat
  zs_stale_total :: nat
  zs_updating_total :: nat
  zs_revalidated_total :: nat
  zs_write_success_total :: nat
  zs_write_error_total :: nat
  zs_eviction_total :: nat
  zs_purge_total :: nat
  zs_invalidation_total :: nat
  zs_inactive_cleanup_total :: nat

text \<open>The change notifier is called with the zone's name; its calls are counted.\<close>

record cache_zone_runtime =
  zr_config :: cache_zone
  zr_index :: cache_index
  zr_hot_entries :: "string \<Rightarrow> cache_entry_hot_state option"
  zr_last_inactive_cleanup_unix_ms :: nat
  zr_stats :: cache_zone_stats
  zr_notifications :: nat

datatype shared_index_operation =
    UpsertEntry string cache_index_entry
  | RemoveEntry string
  | TouchEntry string nat
  | SetAdmissionCount string nat
  | RemoveAdmissionCount string
  | AddInvalidation cache_invalidation_rule
  | ClearInvalidations

definition hot_entry_for_key :: "cache_zone_runtime \<Rightarrow> string \<Rightarrow> cache_entry_hot_state" where
  "hot_entry_for_key z key =
     (case zr_hot_entries z key of
        Some h \<Rightarrow> h
      | None \<Rightarrow> \<lparr> hs_last_access_unix_ms = 0, hs_shared_touch_published_unix_ms = 0, hs_response_head = None \<rparr>)"

definition record_entry_access :: "cache_zone_runtime \<Rightarrow> string \<Rightarrow> nat \<Rightarrow> cache_zone_runtime" where
  "record_entry_access z key now =
     (let h = hot_entry_for_key z key
      in z\<lparr> zr_hot_entries := (zr_hot_entries z)(key \<mapsto> h\<lparr> hs_last_access_unix_ms := max (hs_last_access_unix_ms h) now \<rparr>) \<rparr>)"

definition SHARED_ACCESS_TOUCH_PUBLISH_INTERVAL_MS :: nat where
  "SHARED_ACCESS_TOUCH_PUBLISH_INTERVAL_MS = 1000"

definition should_publish_shared_entry_access :: "cache_zone_runtime \<Rightarrow> string \<Rightarrow> nat \<Rightarrow> bool \<times> cache_zone_runtime" where
  "should_publish_shared_entry_access z key now =
     (let h = hot_entry_for_key z key; last_published = hs_shared_touch_published_unix_ms h
      in if last_published \<noteq> 0 \<and> now - last_published < SHARED_ACCESS_TOUCH_PUBLISH_INTERVAL_MS
         then (False, z\<lparr> zr_hot_entries := (zr_hot_entries z)(key \<mapsto> h) \<rparr>)
         else (True, z\<lparr> zr_hot_entries := (zr_hot_entries z)(key \<mapsto> h\<lparr> hs_shared_touch_published_unix_ms := now \<rparr>) \<rparr>))"

definition effective_last_access_unix_ms ::
    "(string \<Rightarrow> cache_entry_hot_state option) \<Rightarrow> string \<Rightarrow> cache_index_entry \<Rightarrow> nat" where
  "effective_last_access_unix_ms hot key entry =
     (case hot key of
        None \<Rightarrow> ie_last_access_unix_ms entry
      | Some h \<Rightarrow> max (hs_last_access_unix_ms h) (ie_last_access_unix_ms entry))"

definition prepared_response_head :: "cache_zone_runtime \<Rightarrow> string \<Rightarrow> string \<Rightarrow> string option" where
  "prepared_response_head z key expected_hash =
     Option.bind (zr_hot_entries z key) (\<lambda>h. Option.bind (hs_response_head h)
       (\<lambda>head. if head = expected_hash then Some head else None))"

definition store_prepared_response_head :: "cache_zone_runtime \<Rightarrow> string \<Rightarrow> nat \<Rightarrow> string \<Rightarrow> cache_zone_runtime" where
  "store_prepared_response_head z key last_access head_hash =
     (case ix_entries (zr_index z) key of
        None \<Rightarrow> z
      | Some entry \<Rightarrow>
          if ie_hash entry \<noteq> head_hash then z
          else let h = hot_entry_for_key z key
               in z\<lparr> zr_hot_entries := (zr_hot_entries z)(key \<mapsto>
                      h\<lparr> hs_last_access_unix_ms := max (hs_last_access_unix_ms h) last_access,
                         hs_response_head := Some head_hash \<rparr>) \<rparr>)"

definition remove_hot_entry :: "cache_zone_runtime \<Rightarrow> string \<Rightarrow> cache_zone_runtime" where
  "remove_hot_entry z key = z\<lparr> zr_hot_entries := (zr_hot_entries z)(key := None) \<rparr>"

definition clear_hot_entries :: "cache_zone_runtime \<Rightarrow> cache_zone_runtime" where
  "clear_hot_entries z = z\<lparr> zr_hot_entries := Map.empty \<rparr>"

definition notify_changed :: "cache_zone_runtime \<Rightarrow> cache_zone_runtime" where
  "notify_changed z = z\<lparr> zr_notifications := zr_notifications z + 1 \<rparr>"

definition record_evictions :: "cache_zone_runtime \<Rightarrow> nat \<Rightarrow> cache_zone_runtime" where
  "record_evictions z n = (if 0 < n then z\<lparr> zr_stats := (zr_stats z)\<lparr> zs_eviction_total := bump (zs_eviction_total (zr_stats z)) n \<rparr> \<rparr> else z)"

definition record_purge :: "cache_zone_runtime \<Rightarrow> nat \<Rightarrow> cache_zone_runtime" where
  "record_purge z n = (if 0 < n then z\<lparr> zr_stats := (zr_stats z)\<lparr> zs_purge_total := bump (zs_purge_total (zr_stats z)) n \<rparr> \<rparr> else z)"

definition record_invalidation :: "cache_zone_runtime \<Rightarrow> nat \<Rightarrow> cache_zone_runtime" where
  "record_invalidation z n = (if 0 < n then z\<lparr> zr_stats := (zr_stats z)\<lparr> zs_invalidation_total := bump (zs_invalidation_total (zr_stats z)) n \<rparr> \<rparr> else z)"

definition record_inactive_cleanup :: "cache_zone_runtime \<Rightarrow> nat \<Rightarrow> cache_zone_runtime" where
  "record_inactive_cleanup z n = (if 0 < n then z\<lparr> zr_stats := (zr_stats z)\<lparr> zs_inactive_cleanup_total := bump (zs_inactive_cleanup_total (zr_stats z)) n \<rparr> \<rparr> else z)"

section \<open>Eviction and cleanup\<close>

text \<open>
  The loops terminate because a key is rescheduled at most once: afterwards its
  scheduled access is its effective one.  \<open>stale_schedules\<close> counts the keys still
  to be rescheduled.
\<close>

definition is_stale_schedule ::
    "(string \<Rightarrow> cache_entry_hot_state option) \<Rightarrow> (string \<Rightarrow> cache_index_entry option) \<Rightarrow> sched_entry \<Rightarrow> bool" where
  "is_stale_schedule hot entries x =
     (case x of (t, _, k) \<Rightarrow>
        (case entries k of Some e \<Rightarrow> t < effective_last_access_unix_ms hot k e | None \<Rightarrow> False))"

definition stale_schedules :: "(string \<Rightarrow> cache_entry_hot_state option) \<Rightarrow> cache_index \<Rightarrow> nat" where
  "stale_schedules hot ix = length (filter (is_stale_schedule hot (ix_entries ix)) (ix_access_schedule ix))"

lemma filter_insort_insert:
  "length (filter P (insort_insert x xs)) \<le> length (filter P xs) + (if P x then 1 else 0)"
proof -
  have "length (filter P (insort x xs)) = length (filter P xs) + (if P x then 1 else 0)"
    by (induction xs) auto
  then show ?thesis by (simp add: insort_insert_insort_key insort_insert_key_def)
qed

lemma length_insort_insert: "length (insort_insert x xs) \<le> Suc (length xs)"
  by (simp add: insort_insert_key_def)

lemma pop_simps:
  assumes "pop_oldest_scheduled_entry ix = Some ((key, t), ix1)"
  obtains tk rest where "ix_access_schedule ix = (t, tk, key) # rest"
    "ix1 = ix\<lparr> ix_access_schedule := rest, ix_access_ticket_by_key := (ix_access_ticket_by_key ix)(key := None) \<rparr>"
  using assms by (auto simp: pop_oldest_scheduled_entry_def split: list.splits)

lemma remove_popped:
  assumes "pop_oldest_scheduled_entry ix = Some ((key, t), ix1)" and "remove_entry ix1 key = Some (e, ix2)"
  shows "ix_access_schedule ix2 = ix_access_schedule ix1 \<and> ix_entries ix2 = (ix_entries ix)(key := None)"
  using assms(1)
proof (rule pop_simps)
  fix tk rest
  assume "ix1 = ix\<lparr> ix_access_schedule := rest, ix_access_ticket_by_key := (ix_access_ticket_by_key ix)(key := None) \<rparr>"
  with assms(2) show ?thesis
    by (auto simp: remove_entry_def unschedule_entry_access_def split: option.splits)
qed

lemma stale_after_removal:
  assumes "pop_oldest_scheduled_entry ix = Some ((key, t), ix1)" and "ix_access_schedule ix2 = ix_access_schedule ix1"
    and "ix_entries ix2 = (ix_entries ix)(key := None) \<or> ix_entries ix2 = ix_entries ix"
  shows "stale_schedules hot ix2 \<le> stale_schedules hot ix"
    and "length (ix_access_schedule ix2) < length (ix_access_schedule ix)"
proof -
  from assms(1) obtain tk where sch: "ix_access_schedule ix = (t, tk, key) # ix_access_schedule ix2"
    by (rule pop_simps) (use assms(2) in auto)
  then show "length (ix_access_schedule ix2) < length (ix_access_schedule ix)" by simp
  have mono: "is_stale_schedule hot (ix_entries ix2) x \<Longrightarrow> is_stale_schedule hot (ix_entries ix) x" for x
    using assms(3) by (auto simp: is_stale_schedule_def split: if_splits option.splits)
  have "length (filter (is_stale_schedule hot (ix_entries ix2)) xs) \<le> length (filter (is_stale_schedule hot (ix_entries ix)) xs)" for xs
    by (induction xs) (auto dest: mono simp: le_SucI)
  from le_trans [OF this [of "ix_access_schedule ix2"]] sch
  show "stale_schedules hot ix2 \<le> stale_schedules hot ix" by (simp add: stale_schedules_def)
qed

lemma stale_after_reschedule:
  assumes "pop_oldest_scheduled_entry ix = Some ((key, t), ix1)" and "ix_entries ix1 key = Some e"
    and "t < effective_last_access_unix_ms hot key e"
  shows "stale_schedules hot (reschedule_entry_access ix1 key (effective_last_access_unix_ms hot key e)) < stale_schedules hot ix"
  using assms(1)
proof (rule pop_simps)
  fix tk rest
  assume sch: "ix_access_schedule ix = (t, tk, key) # rest"
    and ix1: "ix1 = ix\<lparr> ix_access_schedule := rest, ix_access_ticket_by_key := (ix_access_ticket_by_key ix)(key := None) \<rparr>"
  let ?eff = "effective_last_access_unix_ms hot key e"
  let ?P = "is_stale_schedule hot (ix_entries ix)"
  have e: "ix_entries ix key = Some e" using assms(2) ix1 by simp
  have "\<not> ?P (?eff, n, key)" for n using e by (simp add: is_stale_schedule_def)
  then have "length (filter ?P (insort_insert (?eff, n, key) rest)) \<le> length (filter ?P rest)" for n
    using filter_insort_insert [of ?P "(?eff, n, key)" rest] by simp
  moreover have "?P (t, tk, key)" using e assms(3) by (simp add: is_stale_schedule_def)
  ultimately show ?thesis using e sch
    by (simp add: stale_schedules_def reschedule_entry_access_def schedule_entry_access_def Let_def
        unschedule_entry_access_def ix1 less_Suc_eq_le)
qed

definition drop_scheduled :: "cache_index \<Rightarrow> string \<Rightarrow> cache_index_entry \<Rightarrow> cache_index" where
  "drop_scheduled ix key removed =
     ix\<lparr> ix_current_size_bytes := ix_current_size_bytes ix - ie_body_size_bytes removed,
         ix_admission_counts := (ix_admission_counts ix)(key := None) \<rparr>"

function evict_loop ::
    "(string \<Rightarrow> cache_entry_hot_state option) \<Rightarrow> nat \<Rightarrow> cache_index \<Rightarrow> (string \<times> cache_index_entry) list \<Rightarrow>
     (string \<times> cache_index_entry) list \<times> cache_index" where
  "evict_loop hot max_size ix evicted =
     (if ix_current_size_bytes ix \<le> max_size then (evicted, ix)
      else case pop_oldest_scheduled_entry ix of
        None \<Rightarrow> (evicted, ix)
      | Some ((key, scheduled), ix1) \<Rightarrow>
          (case ix_entries ix1 key of
             None \<Rightarrow> evict_loop hot max_size ix1 evicted
           | Some entry \<Rightarrow>
               let effective = effective_last_access_unix_ms hot key entry
               in if scheduled < effective
                  then evict_loop hot max_size (reschedule_entry_access ix1 key effective) evicted
                  else case remove_entry ix1 key of
                    None \<Rightarrow> evict_loop hot max_size ix1 evicted
                  | Some (removed, ix2) \<Rightarrow>
                      evict_loop hot max_size (drop_scheduled ix2 key removed) (evicted @ [(key, removed)])))"
  by pat_completeness auto
termination
proof (relation "measures [\<lambda>(hot, _, ix, _). stale_schedules hot ix, \<lambda>(_, _, ix, _). length (ix_access_schedule ix)]", goal_cases)
  case (2 hot max_size ix evicted p kt ix1 key t)
  then show ?case
    using stale_after_removal(1) [of ix key t ix1 ix1 hot] stale_after_removal(2) [of ix key t ix1 ix1] by (auto elim!: pop_simps)
next
  case (3 hot max_size ix evicted p kt ix1 key t e eff)
  then show ?case using stale_after_reschedule [of ix key t ix1 e hot] by auto
next
  case (4 hot max_size ix evicted p kt ix1 key t e eff)
  then show ?case using stale_after_removal(1) [of ix key t ix1 ix1 hot] stale_after_removal(2) [of ix key t ix1 ix1] by (auto elim!: pop_simps)
next
  case (5 hot max_size ix evicted p kt ix1 key t e eff q removed ix2)
  then show ?case
    using remove_popped [of ix key t ix1 removed ix2]
      stale_after_removal(1) [of ix key t ix1 "drop_scheduled ix2 key removed" hot]
      stale_after_removal(2) [of ix key t ix1 "drop_scheduled ix2 key removed"]
    by (auto simp: drop_scheduled_def)
qed simp

declare evict_loop.simps [simp del]

definition eviction_candidates ::
    "(string \<Rightarrow> cache_entry_hot_state option) \<Rightarrow> cache_index \<Rightarrow> nat option \<Rightarrow> (string \<times> cache_index_entry) list \<times> cache_index" where
  "eviction_candidates hot ix max_size_bytes =
     (case max_size_bytes of
        None \<Rightarrow> ([], ix)
      | Some max_size \<Rightarrow> if ix_current_size_bytes ix \<le> max_size then ([], ix) else evict_loop hot max_size ix [])"

function cleanup_loop ::
    "(string \<Rightarrow> cache_entry_hot_state option) \<Rightarrow> nat \<Rightarrow> nat \<Rightarrow> nat \<Rightarrow> cache_index \<Rightarrow>
     (string \<times> cache_index_entry) list \<Rightarrow> (string \<times> cache_index_entry) list \<times> cache_index" where
  "cleanup_loop hot now inactive_ms batch_size ix removed =
     (if batch_size \<le> length removed then (removed, ix)
      else case oldest_scheduled_access_unix_ms ix of
        None \<Rightarrow> (removed, ix)
      | Some oldest \<Rightarrow>
          if now - inactive_ms \<le> oldest then (removed, ix)
          else case pop_oldest_scheduled_entry ix of
            None \<Rightarrow> (removed, ix)
          | Some ((key, scheduled), ix1) \<Rightarrow>
              (case ix_entries ix1 key of
                 None \<Rightarrow> cleanup_loop hot now inactive_ms batch_size ix1 removed
               | Some entry \<Rightarrow>
                   let effective = effective_last_access_unix_ms hot key entry
                   in if scheduled < effective
                      then cleanup_loop hot now inactive_ms batch_size (reschedule_entry_access ix1 key effective) removed
                      else if now - effective \<le> inactive_ms
                      then cleanup_loop hot now inactive_ms batch_size (reschedule_entry_access ix1 key effective) removed
                      else case remove_entry ix1 key of
                        None \<Rightarrow> cleanup_loop hot now inactive_ms batch_size ix1 removed
                      | Some (gone, ix2) \<Rightarrow>
                          cleanup_loop hot now inactive_ms batch_size (drop_scheduled ix2 key gone) (removed @ [(key, gone)])))"
  by pat_completeness auto
termination
proof (relation "measures [\<lambda>(hot, _, _, _, ix, _). stale_schedules hot ix,
          \<lambda>(_, _, _, _, ix, _). length (ix_access_schedule ix)]", goal_cases)
  case (2 hot now inactive_ms batch_size ix removed oldest p kt ix1 key t)
  then show ?case
    using stale_after_removal(1) [of ix key t ix1 ix1 hot] stale_after_removal(2) [of ix key t ix1 ix1]
    by (auto elim!: pop_simps)
next
  case (3 hot now inactive_ms batch_size ix removed oldest p kt ix1 key t e eff)
  then show ?case using stale_after_reschedule [of ix key t ix1 e hot] by auto
next
  case (4 hot now inactive_ms batch_size ix removed oldest p kt ix1 key t e eff)
  then have "pop_oldest_scheduled_entry ix = Some ((key, t), ix1)" by simp
  then obtain tk rest where "ix_access_schedule ix = (t, tk, key) # rest" by (rule pop_simps)
  with 4 show ?case by (simp add: oldest_scheduled_access_unix_ms_def)
next
  case (5 hot now inactive_ms batch_size ix removed oldest p kt ix1 key t e eff)
  then show ?case
    using stale_after_removal(1) [of ix key t ix1 ix1 hot] stale_after_removal(2) [of ix key t ix1 ix1]
    by (auto elim!: pop_simps)
next
  case (6 hot now inactive_ms batch_size ix removed oldest p kt ix1 key t e eff q gone ix2)
  then show ?case
    using remove_popped [of ix key t ix1 gone ix2]
      stale_after_removal(1) [of ix key t ix1 "drop_scheduled ix2 key gone" hot]
      stale_after_removal(2) [of ix key t ix1 "drop_scheduled ix2 key gone"]
    by (auto simp: drop_scheduled_def)
qed simp

declare cleanup_loop.simps [simp del]

definition inactive_cleanup_candidates ::
    "(string \<Rightarrow> cache_entry_hot_state option) \<Rightarrow> cache_index \<Rightarrow> nat \<Rightarrow> nat \<Rightarrow> nat \<Rightarrow>
     (string \<times> cache_index_entry) list \<times> bool \<times> cache_index" where
  "inactive_cleanup_candidates hot ix now inactive_ms batch_size =
     (if batch_size = 0 then ([], False, ix)
      else case cleanup_loop hot now inactive_ms batch_size ix [] of (removed, ix') \<Rightarrow>
        (removed,
         case oldest_scheduled_access_unix_ms ix' of Some t \<Rightarrow> t < now - inactive_ms | None \<Rightarrow> False,
         ix'))"

section \<open>Operations on a zone\<close>

definition record_cache_admission_attempt ::
    "cache_index \<Rightarrow> string \<Rightarrow> nat \<Rightarrow> bool \<times> shared_index_operation list \<times> cache_index" where
  "record_cache_admission_attempt ix key min_uses =
     (let without = ix\<lparr> ix_admission_counts := (ix_admission_counts ix)(key := None) \<rparr>
      in if min_uses \<le> 1 \<or> ix_entries ix key \<noteq> None
         then (True, if ix_admission_counts ix key \<noteq> None then [RemoveAdmissionCount key] else [], without)
         else let uses = sat_add_u64 (case ix_admission_counts ix key of None \<Rightarrow> 0 | Some n \<Rightarrow> n) 1
              in if min_uses \<le> uses then (True, [RemoveAdmissionCount key], without)
                 else (False, [SetAdmissionCount key uses],
                       ix\<lparr> ix_admission_counts := (ix_admission_counts ix)(key \<mapsto> uses) \<rparr>))"

text \<open>What every removal of a key does to the index.\<close>

definition forget_key :: "cache_index \<Rightarrow> string \<Rightarrow> (cache_index_entry \<times> cache_index) option" where
  "forget_key ix key =
     (case remove_entry ix key of
        None \<Rightarrow> None
      | Some (removed, ix1) \<Rightarrow>
          Some (removed, ix1\<lparr> ix_current_size_bytes := ix_current_size_bytes ix1 - ie_body_size_bytes removed,
                              ix_admission_counts := (ix_admission_counts ix1)(key := None),
                              ix_variants := remove_variant_key (ix_variants ix1) (ie_base_key removed) key \<rparr>))"

record removed_index_entry =
  rm_hash :: string
  rm_delete_files :: bool

definition remove_zone_index_entry_if_matches ::
    "cache_zone_runtime \<Rightarrow> string \<Rightarrow> cache_index_entry \<Rightarrow>
     removed_index_entry option \<times> shared_index_operation list \<times> cache_zone_runtime" where
  "remove_zone_index_entry_if_matches z key expected_entry =
     (case ix_entries (zr_index z) key of
        None \<Rightarrow> (None, [], z)
      | Some current \<Rightarrow>
          if \<not> stable_eq current expected_entry then (None, [], z)
          else case forget_key (zr_index z) key of
            None \<Rightarrow> (None, [], z)
          | Some (removed, ix) \<Rightarrow>
              (Some \<lparr> rm_hash = ie_hash removed, rm_delete_files = (\<not> hash_is_referenced ix (ie_hash removed)) \<rparr>,
               [RemoveEntry key, RemoveAdmissionCount key],
               notify_changed (remove_hot_entry (z\<lparr> zr_index := ix \<rparr>) key)))"

record store_acc =
  sa_index :: cache_index
  sa_removed_hashes :: "string set"
  sa_removed_keys :: "string list"
  sa_operations :: "shared_index_operation list"

definition note_hash :: "string \<Rightarrow> cache_index_entry \<Rightarrow> string set \<Rightarrow> string set" where
  "note_hash new_hash removed hashes = (if ie_hash removed \<noteq> new_hash then insert (ie_hash removed) hashes else hashes)"

definition forget_for_store :: "string \<Rightarrow> store_acc \<Rightarrow> string \<Rightarrow> store_acc" where
  "forget_for_store new_hash acc key =
     (case forget_key (sa_index acc) key of
        None \<Rightarrow> acc
      | Some (removed, ix) \<Rightarrow>
          \<lparr> sa_index = ix, sa_removed_hashes = note_hash new_hash removed (sa_removed_hashes acc),
            sa_removed_keys = sa_removed_keys acc @ [key],
            sa_operations = sa_operations acc @ [RemoveEntry key, RemoveAdmissionCount key] \<rparr>)"

definition insert_for_store :: "string \<Rightarrow> cache_index_entry \<Rightarrow> store_acc \<Rightarrow> store_acc" where
  "insert_for_store key entry acc =
     (case insert_entry (sa_index acc) key entry of (existing, ix0) \<Rightarrow>
        let ix1 = (case existing of
               None \<Rightarrow> ix0
             | Some e \<Rightarrow> ix0\<lparr> ix_current_size_bytes := ix_current_size_bytes ix0 - ie_body_size_bytes e,
                             ix_variants := remove_variant_key (ix_variants ix0) (ie_base_key e) key \<rparr>);
            ix2 = ix1\<lparr> ix_admission_counts := (ix_admission_counts ix1)(key := None),
                       ix_variants := add_variant_key (ix_variants ix1) (ie_base_key entry) key,
                       ix_current_size_bytes := sat_add_u64 (ix_current_size_bytes ix1) (ie_body_size_bytes entry) \<rparr>
        in \<lparr> sa_index = ix2,
             sa_removed_hashes = (case existing of None \<Rightarrow> sa_removed_hashes acc
                                  | Some e \<Rightarrow> note_hash (ie_hash entry) e (sa_removed_hashes acc)),
             sa_removed_keys = (case existing of None \<Rightarrow> sa_removed_keys acc | Some _ \<Rightarrow> sa_removed_keys acc @ [key]),
             sa_operations = sa_operations acc @ [UpsertEntry key entry, RemoveAdmissionCount key] \<rparr>)"

definition note_evicted :: "string \<Rightarrow> store_acc \<Rightarrow> string \<times> cache_index_entry \<Rightarrow> store_acc" where
  "note_evicted new_hash acc ke =
     (case ke of (key, evicted) \<Rightarrow>
        \<lparr> sa_index = (sa_index acc)\<lparr> ix_admission_counts := (ix_admission_counts (sa_index acc))(key := None),
             ix_variants := remove_variant_key (ix_variants (sa_index acc)) (ie_base_key evicted) key \<rparr>,
          sa_removed_hashes = note_hash new_hash evicted (sa_removed_hashes acc),
          sa_removed_keys = sa_removed_keys acc @ [key],
          sa_operations = sa_operations acc @ [RemoveEntry key, RemoveAdmissionCount key] \<rparr>)"

definition store_in_index ::
    "cache_zone_runtime \<Rightarrow> string \<Rightarrow> cache_index_entry \<Rightarrow> (string \<times> cache_index_entry) option \<Rightarrow> store_acc \<times> nat" where
  "store_in_index z key entry replaced_entry =
     (let acc0 = \<lparr> sa_index = zr_index z, sa_removed_hashes = {}, sa_removed_keys = [], sa_operations = [] \<rparr>;
          acc1 = (case replaced_entry of
               None \<Rightarrow> acc0
             | Some (replaced_key, expected) \<Rightarrow>
                 (case ix_entries (zr_index z) replaced_key of
                    None \<Rightarrow> acc0
                  | Some current \<Rightarrow>
                      if stable_eq current expected then forget_for_store (ie_hash entry) acc0 replaced_key else acc0));
          acc2 = foldl (forget_for_store (ie_hash entry)) acc1
                   (variant_keys_with_different_dimensions (sa_index acc1) entry key);
          acc3 = insert_for_store key entry acc2
      in case eviction_candidates (zr_hot_entries z) (sa_index acc3) (cz_max_size_bytes (zr_config z)) of (evicted, ix4) \<Rightarrow>
           (foldl (note_evicted (ie_hash entry)) (acc3\<lparr> sa_index := ix4 \<rparr>) evicted, length evicted))"

definition update_index_after_store ::
    "cache_zone_runtime \<Rightarrow> string \<Rightarrow> cache_index_entry \<Rightarrow> (string \<times> cache_index_entry) option \<Rightarrow>
     string set \<times> shared_index_operation list \<times> cache_zone_runtime" where
  "update_index_after_store z key entry replaced_entry =
     (case store_in_index z key entry replaced_entry of (acc, eviction_count) \<Rightarrow>
        (sa_removed_hashes acc, sa_operations acc,
         notify_changed (record_evictions
           (foldl remove_hot_entry (z\<lparr> zr_index := sa_index acc \<rparr>) (sa_removed_keys acc)) eviction_count)))"

text \<open>
  One batch of the inactivity cleanup, and the batches until nothing is due.
  Other tasks may run between batches; the loop below is the zone left alone.
\<close>

definition drop_variants ::
    "(string \<Rightarrow> string list option) \<Rightarrow> (string \<times> cache_index_entry) list \<Rightarrow> string \<Rightarrow> string list option" where
  "drop_variants variants removed = foldl (\<lambda>v (key, e). remove_variant_key v (ie_base_key e) key) variants removed"

definition removal_operations :: "(string \<times> cache_index_entry) list \<Rightarrow> shared_index_operation list" where
  "removal_operations removed = concat (map (\<lambda>(key, _). [RemoveEntry key, RemoveAdmissionCount key]) removed)"

definition cleanup_batch ::
    "cache_zone_runtime \<Rightarrow> nat \<Rightarrow>
     (string \<times> cache_index_entry) list \<times> bool \<times> shared_index_operation list \<times> cache_zone_runtime" where
  "cleanup_batch z now =
     (case inactive_cleanup_candidates (zr_hot_entries z) (zr_index z) now
             (duration_to_ms (cz_inactive (zr_config z))) (max (cz_manager_batch_entries (zr_config z)) 1) of
        (removed, has_more_due, ix) \<Rightarrow>
          (removed, has_more_due, removal_operations removed,
           foldl remove_hot_entry (z\<lparr> zr_index := ix\<lparr> ix_variants := drop_variants (ix_variants ix) removed \<rparr> \<rparr>) (map fst removed)))"

text \<open>
  Both loops repeat one step: take the least recently scheduled key and drop it, or
  reschedule it if it was used since.  What the step keeps, the loops keep.
\<close>

definition lru_next ::
    "(string \<Rightarrow> cache_entry_hot_state option) \<Rightarrow> cache_index \<Rightarrow> (string \<times> cache_index_entry) list \<Rightarrow>
     cache_index \<times> (string \<times> cache_index_entry) list" where
  "lru_next hot ix removed =
     (case pop_oldest_scheduled_entry ix of
        None \<Rightarrow> (ix, removed)
      | Some ((key, t), ix1) \<Rightarrow>
          (case ix_entries ix1 key of
             None \<Rightarrow> (ix1, removed)
           | Some e \<Rightarrow>
               if t < effective_last_access_unix_ms hot key e
               then (reschedule_entry_access ix1 key (effective_last_access_unix_ms hot key e), removed)
               else case remove_entry ix1 key of
                 None \<Rightarrow> (ix1, removed)
               | Some (gone, ix2) \<Rightarrow> (drop_scheduled ix2 key gone, removed @ [(key, gone)])))"

lemma pop_None_iff: "pop_oldest_scheduled_entry ix = None \<longleftrightarrow> ix_access_schedule ix = []"
  by (auto simp: pop_oldest_scheduled_entry_def split: list.splits)

lemma popped_entries: "pop_oldest_scheduled_entry ix = Some ((key, t), ix1) \<Longrightarrow> ix_entries ix1 = ix_entries ix"
  by (erule pop_simps) simp

lemma reschedule_length:
  assumes "pop_oldest_scheduled_entry ix = Some ((key, t), ix1)"
  shows "length (ix_access_schedule (reschedule_entry_access ix1 key u)) \<le> length (ix_access_schedule ix)"
  using assms
proof (rule pop_simps)
  fix tk rest
  assume "ix_access_schedule ix = (t, tk, key) # rest"
    "ix1 = ix\<lparr> ix_access_schedule := rest, ix_access_ticket_by_key := (ix_access_ticket_by_key ix)(key := None) \<rparr>"
  then show ?thesis
    using length_insort_insert [of "(u, ix_maintenance_next_ticket ix, key)" rest]
    by (auto simp: reschedule_entry_access_def schedule_entry_access_def unschedule_entry_access_def Let_def)
qed

lemma lru_next_cases:
  assumes "lru_next hot ix removed = (ix', removed')" and "ix_access_schedule ix \<noteq> []"
  obtains key t ix1 where "pop_oldest_scheduled_entry ix = Some ((key, t), ix1)" "ix_entries ix key = None"
      "ix' = ix1" "removed' = removed"
  | key t ix1 e where "pop_oldest_scheduled_entry ix = Some ((key, t), ix1)" "ix_entries ix key = Some e"
      "t < effective_last_access_unix_ms hot key e"
      "ix' = reschedule_entry_access ix1 key (effective_last_access_unix_ms hot key e)" "removed' = removed"
  | key t ix1 e ix2 where "pop_oldest_scheduled_entry ix = Some ((key, t), ix1)" "ix_entries ix key = Some e"
      "effective_last_access_unix_ms hot key e \<le> t" "remove_entry ix1 key = Some (e, ix2)"
      "ix' = drop_scheduled ix2 key e" "removed' = removed @ [(key, e)]"
proof -
  from assms(2) obtain key t ix1 where p: "pop_oldest_scheduled_entry ix = Some ((key, t), ix1)"
    using pop_None_iff [of ix] by (cases "pop_oldest_scheduled_entry ix") auto
  note ent = popped_entries [OF p]
  show thesis
  proof (cases "ix_entries ix key")
    case None
    with assms(1) p ent that(1) show ?thesis by (simp add: lru_next_def)
  next
    case (Some e)
    then obtain ix2 where r: "remove_entry ix1 key = Some (e, ix2)" using ent by (simp add: remove_entry_def)
    show ?thesis
    proof (cases "t < effective_last_access_unix_ms hot key e")
      case True
      with assms(1) p ent Some that(2) show ?thesis by (simp add: lru_next_def)
    next
      case False
      with assms(1) p ent Some r that(3) show ?thesis by (simp add: lru_next_def)
    qed
  qed
qed

lemma lru_next_decreases:
  assumes "lru_next hot ix removed = (ix', removed')" and "ix_access_schedule ix \<noteq> []"
  shows "(ix', ix) \<in> measures [stale_schedules hot, \<lambda>ix. length (ix_access_schedule ix)]"
    and "length (ix_access_schedule ix') + length removed' \<le> length (ix_access_schedule ix) + length removed"
  using assms
proof (atomize (full), induct rule: lru_next_cases [OF assms])
  case (1 key t ix1)
  then show ?case
    using stale_after_removal(1) [of ix key t ix1 ix1 hot] stale_after_removal(2) [of ix key t ix1 ix1]
    by (auto elim!: pop_simps)
next
  case (2 key t ix1 e)
  then show ?case
    using stale_after_reschedule [of ix key t ix1 e hot] popped_entries [of ix key t ix1] reschedule_length [of ix key t ix1]
    by simp
next
  case (3 key t ix1 e ix2)
  then show ?case
    using remove_popped [of ix key t ix1 e ix2]
      stale_after_removal(1) [of ix key t ix1 "drop_scheduled ix2 key e" hot]
      stale_after_removal(2) [of ix key t ix1 "drop_scheduled ix2 key e"]
    by (auto simp: drop_scheduled_def)
qed

locale lru_loop =
  fixes hot :: "string \<Rightarrow> cache_entry_hot_state option"
    and run :: "cache_index \<Rightarrow> (string \<times> cache_index_entry) list \<Rightarrow> (string \<times> cache_index_entry) list \<times> cache_index"
    and stop :: "cache_index \<Rightarrow> (string \<times> cache_index_entry) list \<Rightarrow> bool"
  assumes run_unfold: "run ix removed =
      (if stop ix removed then (removed, ix) else case lru_next hot ix removed of (ix', removed') \<Rightarrow> run ix' removed')"
    and stop_empty: "ix_access_schedule ix = [] \<Longrightarrow> stop ix removed"
begin

lemma run_invariant:
  assumes step: "\<And>ix r ix' r'. P ix r \<Longrightarrow> \<not> stop ix r \<Longrightarrow> ix_access_schedule ix \<noteq> [] \<Longrightarrow>
      lru_next hot ix r = (ix', r') \<Longrightarrow> P ix' r'"
    and "P ix removed" and "run ix removed = (out, ix')"
  shows "P ix' out \<and> stop ix' out"
proof -
  have "P ix removed \<Longrightarrow> run ix removed = (out, ix') \<Longrightarrow> P ix' out \<and> stop ix' out" for removed
  proof (induction ix arbitrary: removed rule: wf_induct_rule
      [OF wf_measures [of "[stale_schedules hot, \<lambda>ix. length (ix_access_schedule ix)]"]])
    case (1 ix)
    show ?case
    proof (cases "stop ix removed")
      case True
      with "1.prems" run_unfold [of ix removed] show ?thesis by simp
    next
      case False
      then have ne: "ix_access_schedule ix \<noteq> []" using stop_empty by blast
      obtain ix2 r2 where n: "lru_next hot ix removed = (ix2, r2)" by fastforce
      from "1.IH" [OF lru_next_decreases(1) [OF n ne], of r2] step [OF "1.prems"(1) False ne n] "1.prems"(2) False
        run_unfold [of ix removed] n show ?thesis by simp
    qed
  qed
  with assms(2,3) show ?thesis by blast
qed

end

interpretation ev: lru_loop hot "evict_loop hot max_size"
    "\<lambda>ix _. ix_current_size_bytes ix \<le> max_size \<or> ix_access_schedule ix = []" for hot max_size
proof
  fix ix removed
  show "evict_loop hot max_size ix removed =
      (if ix_current_size_bytes ix \<le> max_size \<or> ix_access_schedule ix = [] then (removed, ix)
       else case lru_next hot ix removed of (ix', r') \<Rightarrow> evict_loop hot max_size ix' r')"
    by (subst evict_loop.simps)
      (auto simp: lru_next_def Let_def pop_None_iff [symmetric] split: option.split if_split)
qed simp

interpretation cl: lru_loop hot "cleanup_loop hot now inactive_ms batch_size"
    "\<lambda>ix removed. batch_size \<le> length removed \<or>
       (case oldest_scheduled_access_unix_ms ix of None \<Rightarrow> True | Some t \<Rightarrow> now - inactive_ms \<le> t)"
    for hot now inactive_ms batch_size
proof
  fix ix removed
  have due: "t < now - inactive_ms \<Longrightarrow> \<not> t < eff \<Longrightarrow> \<not> now - eff \<le> inactive_ms" for t eff by linarith
  show "cleanup_loop hot now inactive_ms batch_size ix removed =
      (if batch_size \<le> length removed \<or>
         (case oldest_scheduled_access_unix_ms ix of None \<Rightarrow> True | Some t \<Rightarrow> now - inactive_ms \<le> t) then (removed, ix)
       else case lru_next hot ix removed of (ix', r') \<Rightarrow> cleanup_loop hot now inactive_ms batch_size ix' r')"
  proof (cases "ix_access_schedule ix")
    case Nil
    then show ?thesis
      by (subst cleanup_loop.simps) (simp add: oldest_scheduled_access_unix_ms_def)
  next
    case (Cons x rest)
    obtain t tk key where x: "x = (t, tk, key)" by (cases x) auto
    let ?ix1 = "ix\<lparr> ix_access_schedule := rest, ix_access_ticket_by_key := (ix_access_ticket_by_key ix)(key := None) \<rparr>"
    have o: "oldest_scheduled_access_unix_ms ix = Some t"
      and p: "pop_oldest_scheduled_entry ix = Some ((key, t), ?ix1)"
      using Cons x by (simp_all add: oldest_scheduled_access_unix_ms_def pop_oldest_scheduled_entry_def)
    show ?thesis
      unfolding lru_next_def p
      by (subst cleanup_loop.simps) (auto simp: o p Let_def not_le dest: due split: option.split)
  qed
qed (simp add: oldest_scheduled_access_unix_ms_def)

lemma foldl_remove_hot [simp]:
  "zr_index (foldl remove_hot_entry z ks) = zr_index z"
  "zr_config (foldl remove_hot_entry z ks) = zr_config z"
  by (induction ks arbitrary: z) (simp_all add: remove_hot_entry_def)

lemma cleanup_batch_shrinks:
  assumes "cleanup_batch z now = (removed, True, ops, z')"
  shows "length (ix_access_schedule (zr_index z')) < length (ix_access_schedule (zr_index z))"
proof -
  let ?ms = "duration_to_ms (cz_inactive (zr_config z))" and ?b = "max (cz_manager_batch_entries (zr_config z)) 1"
  from assms obtain ix where run: "cleanup_loop (zr_hot_entries z) now ?ms ?b (zr_index z) [] = (removed, ix)"
    and more: "case oldest_scheduled_access_unix_ms ix of Some t \<Rightarrow> t < now - ?ms | None \<Rightarrow> False"
    and z': "ix_access_schedule (zr_index z') = ix_access_schedule ix"
    by (auto simp: cleanup_batch_def inactive_cleanup_candidates_def split: prod.splits)
  have "length (ix_access_schedule ix) + length removed \<le> length (ix_access_schedule (zr_index z)) \<and>
      (?b \<le> length removed \<or> (case oldest_scheduled_access_unix_ms ix of None \<Rightarrow> True | Some t \<Rightarrow> now - ?ms \<le> t))"
    by (rule cl.run_invariant [OF _ _ run,
          of "\<lambda>ix r. length (ix_access_schedule ix) + length r \<le> length (ix_access_schedule (zr_index z))"])
      (use lru_next_decreases(2) le_trans in blast, simp)
  with more have "length (ix_access_schedule ix) < length (ix_access_schedule (zr_index z))"
    by (auto split: option.splits)
  with z' show ?thesis by simp
qed

function cleanup_batches ::
    "cache_zone_runtime \<Rightarrow> nat \<Rightarrow> (string \<times> cache_index_entry) list \<times> shared_index_operation list \<times> cache_zone_runtime" where
  "cleanup_batches z now =
     (case cleanup_batch z now of (removed, has_more_due, ops, z1) \<Rightarrow>
        if has_more_due
        then (case cleanup_batches z1 now of (removed2, ops2, z2) \<Rightarrow> (removed @ removed2, ops @ ops2, z2))
        else (removed, ops, z1))"
  by pat_completeness auto
termination
  by (relation "measure (\<lambda>(z, _). length (ix_access_schedule (zr_index z)))")
    (auto dest: cleanup_batch_shrinks [OF sym])

declare cleanup_batches.simps [simp del]

definition cleanup_inactive_entries_in_zone ::
    "cache_zone_runtime \<Rightarrow> nat \<Rightarrow> (string \<times> cache_index_entry) list \<times> shared_index_operation list \<times> cache_zone_runtime" where
  "cleanup_inactive_entries_in_zone z now =
     (let last_cleanup = zr_last_inactive_cleanup_unix_ms z
      in if last_cleanup \<noteq> 0 \<and> now - last_cleanup < duration_to_ms (cz_inactive_cleanup_interval (zr_config z))
         then ([], [], z)
         else case cleanup_batches (z\<lparr> zr_last_inactive_cleanup_unix_ms := now \<rparr>) now of (removed, ops, z1) \<Rightarrow>
           (removed, ops,
            if removed \<noteq> [] then notify_changed (record_inactive_cleanup z1 (length removed)) else z1))"

record cache_purge_result =
  pu_scope :: string
  pu_removed_entries :: nat
  pu_removed_bytes :: nat

fun purge_keys ::
    "cache_index \<Rightarrow> string list \<Rightarrow> (string \<times> cache_index_entry) list \<times> cache_index" where
  "purge_keys ix [] = ([], ix)"
| "purge_keys ix (key # keys) =
     (case forget_key ix key of
        None \<Rightarrow> purge_keys ix keys
      | Some (entry, ix1) \<Rightarrow> (case purge_keys ix1 keys of (removed, ix2) \<Rightarrow> ((key, entry) # removed, ix2)))"

definition purge_zone_entries ::
    "cache_zone_runtime \<Rightarrow> purge_selector \<Rightarrow> string list \<Rightarrow>
     cache_purge_result \<times> (string \<times> cache_index_entry) list \<times> shared_index_operation list \<times> cache_zone_runtime" where
  "purge_zone_entries z selector key_order =
     (case purge_keys (zr_index z) (filter (purge_selector_matches selector) key_order) of (removed, ix) \<Rightarrow>
        let z1 = z\<lparr> zr_index := ix \<rparr>
        in (\<lparr> pu_scope = purge_scope selector, pu_removed_entries = length removed,
              pu_removed_bytes = sum_list (map (\<lambda>(_, e). ie_body_size_bytes e) removed) \<rparr>,
            removed, removal_operations removed,
            if removed \<noteq> [] then notify_changed (foldl remove_hot_entry (record_purge z1 (length removed)) (map fst removed))
            else z1))"

record cache_invalidation_result =
  iv_scope :: string
  iv_affected_entries :: nat
  iv_affected_bytes :: nat
  iv_active_rules :: nat

definition affected_keys :: "cache_index \<Rightarrow> string list \<Rightarrow> (string \<Rightarrow> cache_index_entry \<Rightarrow> bool) \<Rightarrow> string list" where
  "affected_keys ix key_order affected =
     filter (\<lambda>k. case ix_entries ix k of Some e \<Rightarrow> affected k e | None \<Rightarrow> False) key_order"

definition affected_bytes :: "cache_index \<Rightarrow> string list \<Rightarrow> nat" where
  "affected_bytes ix keys =
     foldl (\<lambda>n k. sat_add_u64 n (case ix_entries ix k of Some e \<Rightarrow> ie_body_size_bytes e | None \<Rightarrow> 0)) 0 keys"

definition invalidate_zone_entries ::
    "cache_zone_runtime \<Rightarrow> cache_invalidation_selector \<Rightarrow> nat \<Rightarrow> string list \<Rightarrow>
     cache_invalidation_result \<times> shared_index_operation list \<times> cache_zone_runtime" where
  "invalidate_zone_entries z selector now key_order =
     (let rule = \<lparr> ir_selector = selector, ir_created_at_unix_ms = now \<rparr>; ix = zr_index z;
          keys = affected_keys ix key_order (invalidation_rule_matches_entry rule);
          rules = ix_invalidations ix @ [rule];
          z1 = foldl remove_hot_entry (z\<lparr> zr_index := ix\<lparr> ix_invalidations := rules \<rparr> \<rparr>) keys
      in (\<lparr> iv_scope = invalidation_scope selector, iv_affected_entries = length keys,
            iv_affected_bytes = affected_bytes ix keys, iv_active_rules = length rules \<rparr>,
          [AddInvalidation rule], notify_changed (record_invalidation z1 (length keys))))"

definition clear_zone_invalidations ::
    "cache_zone_runtime \<Rightarrow> string list \<Rightarrow> cache_invalidation_result \<times> shared_index_operation list \<times> cache_zone_runtime" where
  "clear_zone_invalidations z key_order =
     (let ix = zr_index z; keys = affected_keys ix key_order (entry_is_logically_invalid ix)
      in (\<lparr> iv_scope = ''clear'', iv_affected_entries = length keys, iv_affected_bytes = affected_bytes ix keys,
            iv_active_rules = 0 \<rparr>,
          [ClearInvalidations],
          notify_changed (foldl remove_hot_entry (z\<lparr> zr_index := ix\<lparr> ix_invalidations := [] \<rparr> \<rparr>) keys)))"

text \<open>An access that moves the entry's last access forward, and is published.\<close>

definition touch_entry :: "cache_index \<Rightarrow> string \<Rightarrow> nat \<Rightarrow> cache_index" where
  "touch_entry ix key last_access =
     (case ix_entries ix key of
        None \<Rightarrow> ix
      | Some entry \<Rightarrow>
          if last_access \<le> ie_last_access_unix_ms entry then ix
          else reschedule_entry_access
                 (ix\<lparr> ix_entries := (ix_entries ix)(key \<mapsto> entry\<lparr> ie_last_access_unix_ms := last_access \<rparr>) \<rparr>) key last_access)"

definition record_zone_shared_entry_access ::
    "cache_zone_runtime \<Rightarrow> string \<Rightarrow> nat \<Rightarrow> shared_index_operation list \<times> cache_zone_runtime" where
  "record_zone_shared_entry_access z key last_access =
     (case should_publish_shared_entry_access (record_entry_access z key last_access) key last_access of (publish, z1) \<Rightarrow>
        if \<not> publish then ([], z1)
        else case ix_entries (zr_index z1) key of
          None \<Rightarrow> ([], z1)
        | Some entry \<Rightarrow>
            if last_access \<le> ie_last_access_unix_ms entry then ([], z1)
            else ([TouchEntry key last_access], z1\<lparr> zr_index := touch_entry (zr_index z1) key last_access \<rparr>))"

end
