(* ===== verification/Cache_Index_Proofs.thy ===== *)
theory Cache_Index_Proofs
  imports Cache_Index
begin

text \<open>
  The invariant of a cache index and the operations that keep it: the reference
  counts of the files, the variants of a key, the schedule of accesses and the
  size always describe the entries.  From it follow the size limit after every
  store and the order of eviction.
\<close>

section \<open>The parts of the invariant\<close>

definition refs :: "(string \<Rightarrow> cache_index_entry option) \<Rightarrow> string \<Rightarrow> nat" where
  "refs entries h = card {k. \<exists>e. entries k = Some e \<and> ie_hash e = h}"

definition refs_ok :: "(string \<Rightarrow> nat option) \<Rightarrow> (string \<Rightarrow> cache_index_entry option) \<Rightarrow> bool" where
  "refs_ok counts entries \<longleftrightarrow>
     finite (dom entries) \<and> (\<forall>h. counts h = (if refs entries h = 0 then None else Some (refs entries h)))"

definition sched_ok :: "cache_index \<Rightarrow> string set \<Rightarrow> bool" where
  "sched_ok ix keys \<longleftrightarrow>
     sorted (ix_access_schedule ix) \<and> distinct (ix_access_schedule ix) \<and>
     (\<forall>t tk k. (t, tk, k) \<in> set (ix_access_schedule ix) \<longleftrightarrow> ix_access_ticket_by_key ix k = Some (t, tk)) \<and>
     dom (ix_access_ticket_by_key ix) = keys"

definition variants_ok :: "(string \<Rightarrow> string list option) \<Rightarrow> (string \<Rightarrow> cache_index_entry option) \<Rightarrow> bool" where
  "variants_ok variants entries \<longleftrightarrow>
     (\<forall>b. case variants b of
        None \<Rightarrow> (\<forall>k e. entries k = Some e \<longrightarrow> ie_base_key e \<noteq> b)
      | Some ks \<Rightarrow> ks \<noteq> [] \<and> distinct ks \<and> set ks = {k. \<exists>e. entries k = Some e \<and> ie_base_key e = b})"

definition total_bytes :: "(string \<Rightarrow> cache_index_entry option) \<Rightarrow> nat" where
  "total_bytes entries = (\<Sum>k \<in> dom entries. ie_body_size_bytes (the (entries k)))"

definition index_core :: "cache_index \<Rightarrow> bool" where
  "index_core ix \<longleftrightarrow>
     refs_ok (ix_hash_ref_counts ix) (ix_entries ix) \<and> sched_ok ix (dom (ix_entries ix)) \<and>
     ix_current_size_bytes ix = total_bytes (ix_entries ix)"

definition index_wf :: "cache_index \<Rightarrow> bool" where
  "index_wf ix \<longleftrightarrow> index_core ix \<and> variants_ok (ix_variants ix) (ix_entries ix)"

lemma default_index_wf: "index_wf default_index"
  by (simp add: index_wf_def index_core_def refs_ok_def refs_def sched_ok_def variants_ok_def total_bytes_def default_index_def)

section \<open>Reference counts\<close>

lemma refs_upd:
  assumes "finite (dom entries)" and "entries k = None"
  shows "refs (entries(k \<mapsto> e)) h = refs entries h + (if ie_hash e = h then 1 else 0)"
proof -
  let ?S = "{j. \<exists>e. entries j = Some e \<and> ie_hash e = h}"
  have fin: "finite ?S" by (rule finite_subset [OF _ assms(1)]) auto
  have "{j. \<exists>e'. (entries(k \<mapsto> e)) j = Some e' \<and> ie_hash e' = h} = (if ie_hash e = h then insert k ?S else ?S)"
    using assms(2) by auto
  with fin assms(2) show ?thesis by (simp add: refs_def)
qed

lemma refs_del:
  assumes "finite (dom entries)" and "entries k = Some e"
  shows "refs entries h = refs (entries(k := None)) h + (if ie_hash e = h then 1 else 0)"
  using refs_upd [of "entries(k := None)" k e h] assms by (simp add: map_upd_triv)

lemma refs_ok_increment:
  assumes "refs_ok counts entries" and "entries k = None"
  shows "refs_ok (increment_hash_ref counts (ie_hash e)) (entries(k \<mapsto> e))"
  using assms refs_upd [of entries k e] by (auto simp: refs_ok_def increment_hash_ref_def)

lemma refs_ok_decrement:
  assumes "refs_ok counts entries" and "entries k = Some e"
  shows "refs_ok (decrement_hash_ref counts (ie_hash e)) (entries(k := None))"
proof -
  have fin: "finite (dom entries)" using assms(1) by (simp add: refs_ok_def)
  note d = refs_del [OF fin assms(2)]
  have "counts (ie_hash e) = Some (refs entries (ie_hash e))" using assms(1) d [of "ie_hash e"] by (simp add: refs_ok_def)
  then show ?thesis using assms(1) d fin by (auto simp: refs_ok_def decrement_hash_ref_def)
qed

lemma hash_is_referenced_iff:
  assumes "refs_ok (ix_hash_ref_counts ix) (ix_entries ix)"
  shows "hash_is_referenced ix h \<longleftrightarrow> (\<exists>k e. ix_entries ix k = Some e \<and> ie_hash e = h)"
proof -
  let ?S = "{k. \<exists>e. ix_entries ix k = Some e \<and> ie_hash e = h}"
  have "finite ?S" by (rule finite_subset [of _ "dom (ix_entries ix)"]) (use assms in \<open>auto simp: refs_ok_def\<close>)
  then have "refs (ix_entries ix) h = 0 \<longleftrightarrow> ?S = {}" by (simp add: refs_def)
  then show ?thesis using assms by (auto simp: hash_is_referenced_def refs_ok_def)
qed

section \<open>Size\<close>

lemma total_upd:
  assumes "finite (dom entries)" and "entries k = None"
  shows "total_bytes (entries(k \<mapsto> e)) = total_bytes entries + ie_body_size_bytes e"
proof -
  have "k \<notin> dom entries" using assms(2) by auto
  then have "(\<Sum>j \<in> dom entries. ie_body_size_bytes (the ((entries(k \<mapsto> e)) j))) = total_bytes entries"
    unfolding total_bytes_def by (intro sum.cong) auto
  with assms show ?thesis by (simp add: total_bytes_def domIff)
qed

lemma total_del:
  assumes "finite (dom entries)" and "entries k = Some e"
  shows "total_bytes (entries(k := None)) + ie_body_size_bytes e = total_bytes entries"
  using total_upd [of "entries(k := None)" k e] assms by (simp add: map_upd_triv)

section \<open>The schedule\<close>

lemma set_insort_insert: "set (insort_insert x xs) = insert x (set xs)"
  by (auto simp: insort_insert_key_def set_insort_key)

lemma sched_ok_unschedule:
  assumes "sched_ok ix keys"
  shows "sched_ok (unschedule_entry_access ix k) (keys - {k})"
proof (cases "ix_access_ticket_by_key ix k")
  case None
  with assms have "k \<notin> keys" by (auto simp: sched_ok_def)
  with None assms show ?thesis by (simp add: unschedule_entry_access_def)
next
  case (Some x)
  obtain t tk where x: "x = (t, tk)" by force
  with Some assms show ?thesis
    by (auto simp: unschedule_entry_access_def sched_ok_def sorted_wrt_filter removeAll_filter_not_eq)
qed

lemma sched_ok_schedule:
  assumes "sched_ok ix keys"
  shows "sched_ok (schedule_entry_access ix k t) (insert k keys)"
proof -
  have u: "sched_ok (unschedule_entry_access ix k) (keys - {k})" by (rule sched_ok_unschedule [OF assms])
  then have none: "ix_access_ticket_by_key (unschedule_entry_access ix k) k = None" by (auto simp: sched_ok_def)
  show ?thesis using u none
    by (auto simp: schedule_entry_access_def Let_def sched_ok_def set_insort_insert sorted_insort_insert
        distinct_insort_insert)
qed

lemma sched_ok_pop:
  assumes "sched_ok ix keys" and "pop_oldest_scheduled_entry ix = Some ((k, t), ix1)"
  shows "sched_ok ix1 (keys - {k})" and "k \<in> keys" and "\<forall>(t', tk, k') \<in> set (ix_access_schedule ix1). t \<le> t'"
proof -
  from assms(2) obtain tk rest where s: "ix_access_schedule ix = (t, tk, k) # rest"
    and ix1: "ix1 = ix\<lparr> ix_access_schedule := rest, ix_access_ticket_by_key := (ix_access_ticket_by_key ix)(k := None) \<rparr>"
    by (rule pop_simps)
  have iff: "(t', tk', k') \<in> set ((t, tk, k) # rest) \<longleftrightarrow> ix_access_ticket_by_key ix k' = Some (t', tk')" for t' tk' k'
    using assms(1) s by (simp add: sched_ok_def)
  have k: "ix_access_ticket_by_key ix k = Some (t, tk)" using iff [of t tk k] by simp
  have d: "(t, tk, k) \<notin> set rest" using assms(1) s by (simp add: sched_ok_def)
  have "(t', tk', k') \<in> set rest \<longleftrightarrow> ((ix_access_ticket_by_key ix)(k := None)) k' = Some (t', tk')" for t' tk' k'
    using iff [of t' tk' k'] k d by auto
  then show "sched_ok ix1 (keys - {k})" using assms(1) s ix1 by (auto simp: sched_ok_def)
  show "k \<in> keys" using assms(1) k by (auto simp: sched_ok_def)
  show "\<forall>(t', tk, k') \<in> set (ix_access_schedule ix1). t \<le> t'"
    using assms(1) s ix1 by (auto simp: sched_ok_def less_eq_prod_def)
qed

lemma sched_ok_cong:
  "ix_access_schedule ix = ix_access_schedule ix' \<Longrightarrow> ix_access_ticket_by_key ix = ix_access_ticket_by_key ix' \<Longrightarrow>
     sched_ok ix keys = sched_ok ix' keys"
  by (simp add: sched_ok_def)

section \<open>Insertion and removal\<close>

lemma unschedule_fields [simp]:
  "ix_entries (unschedule_entry_access ix k) = ix_entries ix"
  "ix_hash_ref_counts (unschedule_entry_access ix k) = ix_hash_ref_counts ix"
  "ix_variants (unschedule_entry_access ix k) = ix_variants ix"
  "ix_admission_counts (unschedule_entry_access ix k) = ix_admission_counts ix"
  "ix_invalidations (unschedule_entry_access ix k) = ix_invalidations ix"
  "ix_current_size_bytes (unschedule_entry_access ix k) = ix_current_size_bytes ix"
  by (simp_all add: unschedule_entry_access_def split: option.split prod.split)

lemma schedule_fields [simp]:
  "ix_entries (schedule_entry_access ix k t) = ix_entries ix"
  "ix_hash_ref_counts (schedule_entry_access ix k t) = ix_hash_ref_counts ix"
  "ix_variants (schedule_entry_access ix k t) = ix_variants ix"
  "ix_admission_counts (schedule_entry_access ix k t) = ix_admission_counts ix"
  "ix_invalidations (schedule_entry_access ix k t) = ix_invalidations ix"
  "ix_current_size_bytes (schedule_entry_access ix k t) = ix_current_size_bytes ix"
  by (simp_all add: schedule_entry_access_def Let_def)

lemma reschedule_fields [simp]:
  "ix_entries (reschedule_entry_access ix k t) = ix_entries ix"
  "ix_hash_ref_counts (reschedule_entry_access ix k t) = ix_hash_ref_counts ix"
  "ix_variants (reschedule_entry_access ix k t) = ix_variants ix"
  "ix_admission_counts (reschedule_entry_access ix k t) = ix_admission_counts ix"
  "ix_invalidations (reschedule_entry_access ix k t) = ix_invalidations ix"
  "ix_current_size_bytes (reschedule_entry_access ix k t) = ix_current_size_bytes ix"
  by (simp_all add: reschedule_entry_access_def)

lemma pop_fields:
  assumes "pop_oldest_scheduled_entry ix = Some ((k, t), ix1)"
  shows "ix_entries ix1 = ix_entries ix" "ix_hash_ref_counts ix1 = ix_hash_ref_counts ix"
    "ix_variants ix1 = ix_variants ix" "ix_admission_counts ix1 = ix_admission_counts ix"
    "ix_invalidations ix1 = ix_invalidations ix" "ix_current_size_bytes ix1 = ix_current_size_bytes ix"
  using assms by (elim pop_simps; simp)+

lemma insert_entry_fields:
  assumes "insert_entry ix k e = (existing, ix')"
  shows "existing = ix_entries ix k" "ix_entries ix' = (ix_entries ix)(k \<mapsto> e)"
    "ix_variants ix' = ix_variants ix" "ix_admission_counts ix' = ix_admission_counts ix"
    "ix_invalidations ix' = ix_invalidations ix" "ix_current_size_bytes ix' = ix_current_size_bytes ix"
  using assms by (auto simp: insert_entry_def Let_def)

lemma remove_entry_fields:
  assumes "remove_entry ix k = Some (e, ix')"
  shows "ix_entries ix k = Some e" "ix_entries ix' = (ix_entries ix)(k := None)"
    "ix_variants ix' = ix_variants ix" "ix_admission_counts ix' = ix_admission_counts ix"
    "ix_invalidations ix' = ix_invalidations ix" "ix_current_size_bytes ix' = ix_current_size_bytes ix"
  using assms by (auto simp: remove_entry_def split: option.splits)

lemma insert_entry_core:
  assumes "refs_ok (ix_hash_ref_counts ix) (ix_entries ix)" and "sched_ok ix (dom (ix_entries ix))"
    and "insert_entry ix k e = (existing, ix')"
  shows "refs_ok (ix_hash_ref_counts ix') (ix_entries ix')" and "sched_ok ix' (dom (ix_entries ix'))"
proof -
  let ?counts = "case ix_entries ix k of Some e' \<Rightarrow> decrement_hash_ref (ix_hash_ref_counts ix) (ie_hash e') | None \<Rightarrow> ix_hash_ref_counts ix"
  have "refs_ok ?counts ((ix_entries ix)(k := None))"
    using assms(1) refs_ok_decrement [OF assms(1), of k]
    by (cases "ix_entries ix k") (simp_all add: fun_upd_idem)
  from refs_ok_increment [OF this, of k e] assms(3)
  show "refs_ok (ix_hash_ref_counts ix') (ix_entries ix')"
    by (auto simp: insert_entry_def Let_def)
  have "sched_ok (ix\<lparr> ix_entries := (ix_entries ix)(k \<mapsto> e), ix_hash_ref_counts := increment_hash_ref ?counts (ie_hash e) \<rparr>) (dom (ix_entries ix))"
    using assms(2) by (simp add: sched_ok_def)
  from sched_ok_schedule [OF this] assms(3) show "sched_ok ix' (dom (ix_entries ix'))"
    by (auto simp: insert_entry_def Let_def)
qed

lemma remove_entry_core:
  assumes "refs_ok (ix_hash_ref_counts ix) (ix_entries ix)" and "sched_ok ix keys"
    and "remove_entry ix k = Some (e, ix')"
  shows "refs_ok (ix_hash_ref_counts ix') (ix_entries ix')" and "sched_ok ix' (keys - {k})"
proof -
  from assms(3) have e: "ix_entries ix k = Some e"
    and ix': "ix' = unschedule_entry_access (ix\<lparr> ix_entries := (ix_entries ix)(k := None),
       ix_hash_ref_counts := decrement_hash_ref (ix_hash_ref_counts ix) (ie_hash e) \<rparr>) k"
    by (auto simp: remove_entry_def split: option.splits)
  from refs_ok_decrement [OF assms(1) e] ix' show "refs_ok (ix_hash_ref_counts ix') (ix_entries ix')" by simp
  have "sched_ok (ix\<lparr> ix_entries := (ix_entries ix)(k := None),
       ix_hash_ref_counts := decrement_hash_ref (ix_hash_ref_counts ix) (ie_hash e) \<rparr>) keys"
    using assms(2) by (simp add: sched_ok_def)
  from sched_ok_unschedule [OF this] ix' show "sched_ok ix' (keys - {k})" by simp
qed

lemma dom_del [simp]: "dom (m(k := None)) = dom m - {k}"
  by auto

section \<open>Variants\<close>

lemma variants_ok_remove:
  assumes "variants_ok variants entries" and "entries k = Some e"
  shows "variants_ok (remove_variant_key variants (ie_base_key e) k) (entries(k := None))"
proof -
  have v: "case variants b of None \<Rightarrow> (\<forall>k e. entries k = Some e \<longrightarrow> ie_base_key e \<noteq> b)
      | Some ks \<Rightarrow> ks \<noteq> [] \<and> distinct ks \<and> set ks = {k. \<exists>e. entries k = Some e \<and> ie_base_key e = b}" for b
    using assms(1) by (simp add: variants_ok_def)
  obtain ks where ks: "variants (ie_base_key e) = Some ks" "distinct ks"
      "set ks = {k'. \<exists>e'. entries k' = Some e' \<and> ie_base_key e' = ie_base_key e}"
    using v [of "ie_base_key e"] assms(2) by (cases "variants (ie_base_key e)") auto
  have "case remove_variant_key variants (ie_base_key e) k b of
      None \<Rightarrow> (\<forall>k' e'. (entries(k := None)) k' = Some e' \<longrightarrow> ie_base_key e' \<noteq> b)
    | Some ks \<Rightarrow> ks \<noteq> [] \<and> distinct ks \<and> set ks = {k'. \<exists>e'. (entries(k := None)) k' = Some e' \<and> ie_base_key e' = b}" for b
  proof (cases "b = ie_base_key e")
    case True
    show ?thesis
    proof (cases "filter (\<lambda>c. c \<noteq> k) ks = []")
      case empty: True
      then have "\<forall>x \<in> set ks. x = k" by (simp add: filter_empty_conv)
      with True empty ks show ?thesis by (auto simp: remove_variant_key_def)
    next
      case False
      with True ks show ?thesis by (auto simp: remove_variant_key_def Let_def)
    qed
  next
    case False
    then have "remove_variant_key variants (ie_base_key e) k b = variants b" by (simp add: remove_variant_key_def ks Let_def)
    with v [of b] False assms(2) show ?thesis by (auto split: option.splits)
  qed
  then show ?thesis by (simp add: variants_ok_def)
qed

lemma variants_ok_add:
  assumes "variants_ok variants entries" and "entries k = None"
  shows "variants_ok (add_variant_key variants (ie_base_key e) k) (entries(k \<mapsto> e))"
proof -
  have v: "case variants b of None \<Rightarrow> (\<forall>k e. entries k = Some e \<longrightarrow> ie_base_key e \<noteq> b)
      | Some ks \<Rightarrow> ks \<noteq> [] \<and> distinct ks \<and> set ks = {k. \<exists>e. entries k = Some e \<and> ie_base_key e = b}" for b
    using assms(1) by (simp add: variants_ok_def)
  have "case add_variant_key variants (ie_base_key e) k b of
      None \<Rightarrow> (\<forall>k' e'. (entries(k \<mapsto> e)) k' = Some e' \<longrightarrow> ie_base_key e' \<noteq> b)
    | Some ks \<Rightarrow> ks \<noteq> [] \<and> distinct ks \<and> set ks = {k'. \<exists>e'. (entries(k \<mapsto> e)) k' = Some e' \<and> ie_base_key e' = b}" for b
    using v [of b] assms(2) by (auto simp: add_variant_key_def Let_def split: option.splits if_splits)
  then show ?thesis by (simp add: variants_ok_def)
qed

section \<open>Removing a key\<close>

lemma index_coreD:
  assumes "index_core ix"
  shows "refs_ok (ix_hash_ref_counts ix) (ix_entries ix)" "sched_ok ix (dom (ix_entries ix))"
    "ix_current_size_bytes ix = total_bytes (ix_entries ix)" "finite (dom (ix_entries ix))"
  using assms by (simp_all add: index_core_def refs_ok_def)

lemma total_mono:
  assumes "m \<subseteq>\<^sub>m m'" and "finite (dom m')"
  shows "total_bytes m \<le> total_bytes m'"
proof -
  have "dom m \<subseteq> dom m'" using assms(1) by (rule map_le_implies_dom_le)
  moreover have "(\<Sum>k \<in> dom m. ie_body_size_bytes (the (m k))) = (\<Sum>k \<in> dom m. ie_body_size_bytes (the (m' k)))"
    using assms(1) by (intro sum.cong) (auto simp: map_le_def)
  ultimately show ?thesis using assms(2) by (simp add: total_bytes_def sum_mono2)
qed

lemma forget_key_wf:
  assumes wf: "index_wf ix" and f: "forget_key ix k = Some (e, ix')"
  shows "index_wf ix'" "ix_entries ix' = (ix_entries ix)(k := None)" "ix_entries ix k = Some e"
    "ix_admission_counts ix' = (ix_admission_counts ix)(k := None)" "ix_invalidations ix' = ix_invalidations ix"
proof -
  from wf have core: "index_core ix" and v: "variants_ok (ix_variants ix) (ix_entries ix)" by (simp_all add: index_wf_def)
  note c = index_coreD [OF core]
  from f obtain ix1 where r: "remove_entry ix k = Some (e, ix1)"
    and ix': "ix' = ix1\<lparr> ix_current_size_bytes := ix_current_size_bytes ix1 - ie_body_size_bytes e,
        ix_admission_counts := (ix_admission_counts ix1)(k := None),
        ix_variants := remove_variant_key (ix_variants ix1) (ie_base_key e) k \<rparr>"
    by (auto simp: forget_key_def split: option.splits)
  note rf = remove_entry_fields [OF r]
  note rc = remove_entry_core [OF c(1,2) r]
  show "ix_entries ix' = (ix_entries ix)(k := None)" "ix_entries ix k = Some e"
    "ix_admission_counts ix' = (ix_admission_counts ix)(k := None)" "ix_invalidations ix' = ix_invalidations ix"
    using ix' rf by simp_all
  have "sched_ok ix' (dom (ix_entries ix'))" using rc(2) ix' rf(2) by (simp add: sched_ok_def)
  moreover have "ix_current_size_bytes ix' = total_bytes (ix_entries ix')"
    using total_del [OF c(4) rf(1)] c(3) ix' rf by simp
  moreover have "variants_ok (ix_variants ix') (ix_entries ix')" using variants_ok_remove [OF v rf(1)] ix' rf by simp
  ultimately show "index_wf ix'" using rc(1) ix' by (simp add: index_wf_def index_core_def)
qed

lemma forget_key_None: "forget_key ix k = None \<longleftrightarrow> ix_entries ix k = None"
  by (auto simp: forget_key_def remove_entry_def split: option.splits)

lemma map_le_del: "m(k := None) \<subseteq>\<^sub>m m"
  by (auto simp: map_le_def)

lemma forget_for_store_wf:
  assumes "index_wf (sa_index acc)"
  shows "index_wf (sa_index (forget_for_store h acc k)) \<and>
     ix_entries (sa_index (forget_for_store h acc k)) \<subseteq>\<^sub>m ix_entries (sa_index acc) \<and>
     ix_invalidations (sa_index (forget_for_store h acc k)) = ix_invalidations (sa_index acc)"
proof (cases "forget_key (sa_index acc) k")
  case (Some r)
  obtain e ix' where r: "r = (e, ix')" by force
  with forget_key_wf [OF assms, of k e ix'] Some show ?thesis
    by (simp add: forget_for_store_def map_le_del)
qed (use assms in \<open>simp add: forget_for_store_def\<close>)

lemma forget_all_wf:
  assumes "index_wf (sa_index acc)"
  shows "index_wf (sa_index (foldl (forget_for_store h) acc ks)) \<and>
     ix_entries (sa_index (foldl (forget_for_store h) acc ks)) \<subseteq>\<^sub>m ix_entries (sa_index acc) \<and>
     ix_invalidations (sa_index (foldl (forget_for_store h) acc ks)) = ix_invalidations (sa_index acc)"
  using assms
proof (induction ks arbitrary: acc)
  case (Cons k ks)
  from forget_for_store_wf [OF Cons.prems, of h k] Cons.IH [of "forget_for_store h acc k"]
  show ?case by (auto intro: map_le_trans)
qed simp

section \<open>Inserting a key\<close>

lemma insert_for_store_wf:
  assumes wf: "index_wf (sa_index acc)"
    and fits: "total_bytes ((ix_entries (sa_index acc))(k := None)) + ie_body_size_bytes e \<le> u64_max"
  defines "acc' \<equiv> insert_for_store k e acc"
  shows "index_wf (sa_index acc')" "ix_entries (sa_index acc') = (ix_entries (sa_index acc))(k \<mapsto> e)"
    "ix_invalidations (sa_index acc') = ix_invalidations (sa_index acc)"
proof -
  let ?ix = "sa_index acc"
  let ?gone = "(ix_entries ?ix)(k := None)"
  from wf have core: "index_core ?ix" and v: "variants_ok (ix_variants ?ix) (ix_entries ?ix)" by (simp_all add: index_wf_def)
  note c = index_coreD [OF core]
  obtain existing ix0 where i: "insert_entry ?ix k e = (existing, ix0)" by force
  note f = insert_entry_fields [OF i] and ic = insert_entry_core [OF c(1,2) i]
  have fin: "finite (dom ?gone)" using c(4) by simp
  let ?v = "case existing of None \<Rightarrow> ix_variants ?ix | Some x \<Rightarrow> remove_variant_key (ix_variants ?ix) (ie_base_key x) k"
  have gone: "variants_ok ?v ?gone"
    using v variants_ok_remove [OF v, of k] f(1) by (cases "ix_entries ?ix k") (simp_all add: fun_upd_idem)
  have vs: "variants_ok (ix_variants (sa_index acc')) ((ix_entries ?ix)(k \<mapsto> e))"
    using variants_ok_add [OF gone, of k e] f(3) i
    by (cases existing) (simp_all add: acc'_def insert_for_store_def Let_def)
  have "ix_current_size_bytes ?ix - (case existing of None \<Rightarrow> 0 | Some x \<Rightarrow> ie_body_size_bytes x) = total_bytes ?gone"
    using c(3) f(1) total_del [OF c(4), of k] by (cases "ix_entries ?ix k") (auto simp: fun_upd_idem)
  then have size: "ix_current_size_bytes (sa_index acc') = total_bytes ((ix_entries ?ix)(k \<mapsto> e))"
    using fits total_upd [OF fin, of k e] f(6) i
    by (cases existing) (simp_all add: acc'_def insert_for_store_def Let_def sat_add_u64_def min_def)
  show ents: "ix_entries (sa_index acc') = (ix_entries ?ix)(k \<mapsto> e)"
    using f(2) i by (cases existing) (simp_all add: acc'_def insert_for_store_def Let_def)
  show "ix_invalidations (sa_index acc') = ix_invalidations ?ix"
    using f(5) i by (cases existing) (simp_all add: acc'_def insert_for_store_def Let_def)
  have "refs_ok (ix_hash_ref_counts (sa_index acc')) (ix_entries (sa_index acc'))"
    "sched_ok (sa_index acc') (dom (ix_entries (sa_index acc')))"
    using ic f(2) i by (cases existing; simp add: acc'_def insert_for_store_def Let_def sched_ok_def)+
  with vs size ents show "index_wf (sa_index acc')" by (simp add: index_wf_def index_core_def)
qed

section \<open>Eviction\<close>

lemma map_le_restrict: "m |` A \<subseteq>\<^sub>m m"
  by (auto simp: map_le_def restrict_map_def)

definition evicting ::
    "(string \<Rightarrow> cache_entry_hot_state option) \<Rightarrow> cache_index \<Rightarrow> cache_index \<Rightarrow> (string \<times> cache_index_entry) list \<Rightarrow> bool" where
  "evicting hot ix0 ix r \<longleftrightarrow>
     index_core ix \<and> ix_variants ix = ix_variants ix0 \<and> ix_invalidations ix = ix_invalidations ix0 \<and>
     distinct (map fst r) \<and> (\<forall>(k, e) \<in> set r. ix_entries ix0 k = Some e) \<and>
     ix_entries ix = ix_entries ix0 |` (- fst ` set r) \<and>
     (\<forall>(k, e) \<in> set r. \<forall>(t, tk, k') \<in> set (ix_access_schedule ix). effective_last_access_unix_ms hot k e \<le> t)"

lemma lru_next_evicting:
  assumes "evicting hot ix0 ix r" and "ix_access_schedule ix \<noteq> []" and "lru_next hot ix r = (ix', r')"
  shows "evicting hot ix0 ix' r'"
  using assms(3,2)
proof (rule lru_next_cases)
  fix key t ix1
  assume p: "pop_oldest_scheduled_entry ix = Some ((key, t), ix1)" and "ix_entries ix key = None"
  moreover have "sched_ok ix (dom (ix_entries ix))" using assms(1) unfolding evicting_def index_core_def by blast
  then have "key \<in> dom (ix_entries ix)" by (rule sched_ok_pop(2) [OF _ p])
  ultimately show ?thesis by auto
next
  fix key t ix1 e
  assume p: "pop_oldest_scheduled_entry ix = Some ((key, t), ix1)" and e: "ix_entries ix key = Some e"
    and newer: "t < effective_last_access_unix_ms hot key e"
    and ix': "ix' = reschedule_entry_access ix1 key (effective_last_access_unix_ms hot key e)" and r': "r' = r"
  have core: "index_core ix" using assms(1) by (simp add: evicting_def)
  note c = index_coreD [OF core] and pf = pop_fields [OF p] and so = sched_ok_pop [OF c(2) p]
  from p obtain tk rest where "ix_access_schedule ix = (t, tk, key) # rest" "ix_access_schedule ix1 = rest"
    by (rule pop_simps) simp
  then have t: "(t, tk, key) \<in> set (ix_access_schedule ix)"
    and sub: "set (ix_access_schedule ix1) \<subseteq> set (ix_access_schedule ix)" by auto
  have res: "ix' = schedule_entry_access ix1 key (effective_last_access_unix_ms hot key e)"
    using ix' e pf(1) by (simp add: reschedule_entry_access_def)
  have "insert key (dom (ix_entries ix) - {key}) = dom (ix_entries ix)" using e by auto
  then have "sched_ok ix' (dom (ix_entries ix'))" using sched_ok_schedule [OF so(1), of key] pf(1) res by simp
  then have "index_core ix'" using c pf res by (simp add: index_core_def)
  moreover have "set (ix_access_schedule ix') \<subseteq>
      insert (effective_last_access_unix_ms hot key e, ix_maintenance_next_ticket (unschedule_entry_access ix1 key), key) (set (ix_access_schedule ix))"
    using sub by (auto simp: res schedule_entry_access_def Let_def set_insort_insert unschedule_entry_access_def split: option.splits)
  ultimately show ?thesis using assms(1) pf res r' t newer unfolding evicting_def by fastforce
next
  fix key t ix1 e ix2
  assume p: "pop_oldest_scheduled_entry ix = Some ((key, t), ix1)" and e: "ix_entries ix key = Some e"
    and old: "effective_last_access_unix_ms hot key e \<le> t" and rm: "remove_entry ix1 key = Some (e, ix2)"
    and ix': "ix' = drop_scheduled ix2 key e" and r': "r' = r @ [(key, e)]"
  have core: "index_core ix" using assms(1) by (simp add: evicting_def)
  note c = index_coreD [OF core] and pf = pop_fields [OF p] and so = sched_ok_pop [OF c(2) p]
  have c1: "refs_ok (ix_hash_ref_counts ix1) (ix_entries ix1)" using c(1) pf by simp
  note rf = remove_entry_fields [OF rm] and rc = remove_entry_core [OF c1 so(1) rm]
  have "sched_ok ix' (dom (ix_entries ix'))" using rc(2) rf(2) pf(1) ix' by (simp add: drop_scheduled_def sched_ok_def)
  moreover have "ix_current_size_bytes ix' = total_bytes (ix_entries ix')"
    using total_del [OF c(4) e] c(3) pf rf ix' by (simp add: drop_scheduled_def)
  ultimately have "index_core ix'" using rc(1) ix' by (simp add: index_core_def drop_scheduled_def)
  moreover have "key \<notin> fst ` set r" using e assms(1) by (auto simp: evicting_def restrict_map_def split: if_splits)
  moreover have "ix_entries ix0 key = Some e" using e assms(1) by (auto simp: evicting_def restrict_map_def split: if_splits)
  moreover have "ix_access_schedule ix' = ix_access_schedule ix1"
    using remove_popped [OF p rm] ix' by (simp add: drop_scheduled_def)
  moreover have "set (ix_access_schedule ix1) \<subseteq> set (ix_access_schedule ix)" using p by (auto elim!: pop_simps)
  moreover have "ix_entries ix' = ix_entries ix0 |` (- fst ` set r')"
    using assms(1) ix' rf pf r' by (auto simp: evicting_def drop_scheduled_def restrict_map_def fun_eq_iff)
  ultimately show ?thesis using assms(1) pf rf ix' r' so(3) old
    unfolding evicting_def by (fastforce simp: drop_scheduled_def)
qed

lemma evicting_start: "index_core ix \<Longrightarrow> evicting hot ix ix []"
  by (simp add: evicting_def restrict_map_def)

lemma empty_schedule_no_entries:
  assumes "index_core ix" and "ix_access_schedule ix = []"
  shows "ix_entries ix = Map.empty"
proof -
  have "ix_access_ticket_by_key ix k = None" for k
    using assms by (cases "ix_access_ticket_by_key ix k") (auto simp: index_core_def sched_ok_def)
  then have "dom (ix_access_ticket_by_key ix) = {}" by auto
  with assms(1) have "dom (ix_entries ix) = {}" unfolding index_core_def sched_ok_def by metis
  then show ?thesis by (simp only: dom_eq_empty_conv)
qed

lemma evicting_size:
  assumes "evicting hot ix0 ix r" and "ix_current_size_bytes ix \<le> m \<or> ix_access_schedule ix = []"
  shows "total_bytes (ix_entries ix) \<le> m"
proof -
  have core: "index_core ix" using assms(1) unfolding evicting_def by blast
  from assms(2) show ?thesis
  proof
    assume "ix_current_size_bytes ix \<le> m"
    with index_coreD(3) [OF core] show ?thesis by (simp only:)
  next
    assume "ix_access_schedule ix = []"
    from empty_schedule_no_entries [OF core this] show ?thesis by (simp add: total_bytes_def)
  qed
qed

lemma drop_variants_ok:
  assumes "variants_ok v entries" and "distinct (map fst r)" and "\<forall>(k, e) \<in> set r. entries k = Some e"
  shows "variants_ok (drop_variants v r) (entries |` (- fst ` set r))"
  using assms
proof (induction r arbitrary: v entries)
  case (Cons x r)
  obtain k e where x: "x = (k, e)" by force
  from Cons.prems x have ok: "variants_ok (remove_variant_key v (ie_base_key e) k) (entries(k := None))"
    by (intro variants_ok_remove) auto
  have rest: "\<forall>(k', e') \<in> set r. (entries(k := None)) k' = Some e'" using Cons.prems x by force
  have "variants_ok (drop_variants (remove_variant_key v (ie_base_key e) k) r) ((entries(k := None)) |` (- fst ` set r))"
    by (rule Cons.IH [OF ok _ rest]) (use Cons.prems(2) in simp)
  moreover have "(entries(k := None)) |` (- fst ` set r) = entries |` (- fst ` set (x # r))"
    by (auto simp: x restrict_map_def fun_eq_iff)
  ultimately show ?case by (simp add: drop_variants_def x)
qed (simp add: drop_variants_def restrict_map_def)

lemma note_evicted_index:
  "ix_entries (sa_index (foldl (note_evicted h) acc r)) = ix_entries (sa_index acc)"
  "ix_hash_ref_counts (sa_index (foldl (note_evicted h) acc r)) = ix_hash_ref_counts (sa_index acc)"
  "ix_access_schedule (sa_index (foldl (note_evicted h) acc r)) = ix_access_schedule (sa_index acc)"
  "ix_access_ticket_by_key (sa_index (foldl (note_evicted h) acc r)) = ix_access_ticket_by_key (sa_index acc)"
  "ix_current_size_bytes (sa_index (foldl (note_evicted h) acc r)) = ix_current_size_bytes (sa_index acc)"
  "ix_invalidations (sa_index (foldl (note_evicted h) acc r)) = ix_invalidations (sa_index acc)"
  "ix_variants (sa_index (foldl (note_evicted h) acc r)) = drop_variants (ix_variants (sa_index acc)) r"
  by (induction r arbitrary: acc) (simp_all add: note_evicted_def drop_variants_def split: prod.split)

lemma eviction_candidates_ok:
  assumes "index_core ix" and "eviction_candidates hot ix max_size = (evicted, ix')"
  shows "evicting hot ix ix' evicted" and "\<forall>m. max_size = Some m \<longrightarrow> total_bytes (ix_entries ix') \<le> m"
    and "(\<forall>m. max_size = Some m \<longrightarrow> total_bytes (ix_entries ix) \<le> m) \<longrightarrow> evicted = []"
proof -
  have size: "ix_current_size_bytes ix = total_bytes (ix_entries ix)" using assms(1) by (simp add: index_core_def)
  have "evicting hot ix ix' evicted \<and> (\<forall>m. max_size = Some m \<longrightarrow> total_bytes (ix_entries ix') \<le> m)"
  proof (cases "\<exists>m. max_size = Some m \<and> m < ix_current_size_bytes ix")
    case False
    with assms(2) have "evicted = []" "ix' = ix" by (auto simp: eviction_candidates_def split: option.splits if_splits)
    with False evicting_start [OF assms(1)] size show ?thesis by (auto simp: not_less)
  next
    case True
    then obtain m where m: "max_size = Some m" "m < ix_current_size_bytes ix" by blast
    with assms(2) have run: "evict_loop hot m ix [] = (evicted, ix')" by (simp add: eviction_candidates_def)
    have "evicting hot ix ix' evicted \<and> (ix_current_size_bytes ix' \<le> m \<or> ix_access_schedule ix' = [])"
      by (rule ev.run_invariant [OF _ _ run, of "evicting hot ix"])
        (use lru_next_evicting evicting_start [OF assms(1)] in blast)+
    with m evicting_size show ?thesis by auto
  qed
  then show "evicting hot ix ix' evicted" "\<forall>m. max_size = Some m \<longrightarrow> total_bytes (ix_entries ix') \<le> m" by blast+
  show "(\<forall>m. max_size = Some m \<longrightarrow> total_bytes (ix_entries ix) \<le> m) \<longrightarrow> evicted = []"
    using assms(2) size by (auto simp: eviction_candidates_def split: option.splits if_splits)
qed

section \<open>Storing\<close>

lemma index_wf_cong:
  assumes "ix_entries ix = ix_entries ix'" "ix_hash_ref_counts ix = ix_hash_ref_counts ix'"
    "ix_access_schedule ix = ix_access_schedule ix'" "ix_access_ticket_by_key ix = ix_access_ticket_by_key ix'"
    "ix_current_size_bytes ix = ix_current_size_bytes ix'" "ix_variants ix = ix_variants ix'"
  shows "index_wf ix = index_wf ix'"
  using assms by (simp add: index_wf_def index_core_def sched_ok_def)

text \<open>What the store of an entry guarantees about the index, and which keys it evicts.\<close>

lemma store_in_index_ok:
  assumes wf: "index_wf (zr_index z)"
    and fits: "total_bytes ((ix_entries (zr_index z))(k := None)) + ie_body_size_bytes e \<le> u64_max"
    and s: "store_in_index z k e replaced = (acc, n)"
  shows "index_wf (sa_index acc)"
    and "ix_entries (sa_index acc) \<subseteq>\<^sub>m (ix_entries (zr_index z))(k \<mapsto> e)"
    and "\<forall>m. cz_max_size_bytes (zr_config z) = Some m \<longrightarrow> total_bytes (ix_entries (sa_index acc)) \<le> m"
    and "(\<forall>m. cz_max_size_bytes (zr_config z) = Some m \<longrightarrow> total_bytes ((ix_entries (zr_index z))(k \<mapsto> e)) \<le> m)
       \<longrightarrow> ix_entries (sa_index acc) k = Some e"
    and "ix_invalidations (sa_index acc) = ix_invalidations (zr_index z)"
proof -
  let ?acc0 = "\<lparr> sa_index = zr_index z, sa_removed_hashes = {}, sa_removed_keys = [], sa_operations = [] \<rparr>"
  let ?max = "cz_max_size_bytes (zr_config z)"
  define acc1 where "acc1 = (case replaced of None \<Rightarrow> ?acc0 | Some (rk, expected) \<Rightarrow>
      (case ix_entries (zr_index z) rk of None \<Rightarrow> ?acc0
       | Some current \<Rightarrow> if stable_eq current expected then forget_for_store (ie_hash e) ?acc0 rk else ?acc0))"
  have acc1: "acc1 = ?acc0 \<or> (\<exists>rk. acc1 = forget_for_store (ie_hash e) ?acc0 rk)"
    by (auto simp: acc1_def split: option.split)
  define acc2 where "acc2 = foldl (forget_for_store (ie_hash e)) acc1 (variant_keys_with_different_dimensions (sa_index acc1) e k)"
  define acc3 where "acc3 = insert_for_store k e acc2"
  obtain evicted ix4 where ev: "eviction_candidates (zr_hot_entries z) (sa_index acc3) ?max = (evicted, ix4)" by force
  have acc': "acc = foldl (note_evicted (ie_hash e)) (acc3\<lparr> sa_index := ix4 \<rparr>) evicted"
    using s ev by (simp add: store_in_index_def acc1_def acc2_def acc3_def Let_def)
  have wf1: "index_wf (sa_index acc1) \<and> ix_entries (sa_index acc1) \<subseteq>\<^sub>m ix_entries (zr_index z) \<and> ix_invalidations (sa_index acc1) = ix_invalidations (zr_index z)"
    using acc1 wf forget_for_store_wf [of ?acc0] by auto
  then have wf2: "index_wf (sa_index acc2)" and le2: "ix_entries (sa_index acc2) \<subseteq>\<^sub>m ix_entries (zr_index z)"
    and inv2: "ix_invalidations (sa_index acc2) = ix_invalidations (zr_index z)"
    using forget_all_wf [of acc1 "ie_hash e"] by (auto simp: acc2_def intro: map_le_trans)
  have fin: "finite (dom (ix_entries (zr_index z)))" using wf by (simp add: index_wf_def index_core_def refs_ok_def)
  have "(ix_entries (sa_index acc2))(k := None) \<subseteq>\<^sub>m (ix_entries (zr_index z))(k := None)"
    using le2 by (auto simp: map_le_def)
  from total_mono [OF this] fin fits have fits2:
    "total_bytes ((ix_entries (sa_index acc2))(k := None)) + ie_body_size_bytes e \<le> u64_max" by simp
  note w3 = insert_for_store_wf [OF wf2 fits2, folded acc3_def]
  have core3: "index_core (sa_index acc3)" and v3: "variants_ok (ix_variants (sa_index acc3)) (ix_entries (sa_index acc3))"
    using w3(1) by (simp_all add: index_wf_def)
  note e4 = eviction_candidates_ok [OF core3 ev]
  have evg: "evicting (zr_hot_entries z) (sa_index acc3) ix4 evicted" by (rule e4(1))
  have le3: "ix_entries (sa_index acc3) \<subseteq>\<^sub>m (ix_entries (zr_index z))(k \<mapsto> e)"
    using le2 w3(2) by (auto simp: map_le_def)
  have ents: "ix_entries (sa_index acc) = ix_entries (sa_index acc3) |` (- fst ` set evicted)"
    using evg acc' note_evicted_index(1) [of "ie_hash e" "acc3\<lparr> sa_index := ix4 \<rparr>" evicted] by (simp add: evicting_def)
  have vars: "variants_ok (ix_variants (sa_index acc)) (ix_entries (sa_index acc))"
    using drop_variants_ok [OF v3, of evicted] evg acc' ents note_evicted_index(7) [of "ie_hash e" "acc3\<lparr> sa_index := ix4 \<rparr>" evicted]
    by (simp add: evicting_def)
  moreover have "index_core ix4" using evg unfolding evicting_def by blast
  then have "index_core (sa_index acc)" by (simp add: acc' index_core_def sched_ok_def note_evicted_index)
  ultimately show "index_wf (sa_index acc)" by (simp add: index_wf_def)
  show "ix_entries (sa_index acc) \<subseteq>\<^sub>m (ix_entries (zr_index z))(k \<mapsto> e)"
    unfolding ents by (rule map_le_trans [OF map_le_restrict le3])
  show "\<forall>m. ?max = Some m \<longrightarrow> total_bytes (ix_entries (sa_index acc)) \<le> m"
    using e4(2) evg acc' note_evicted_index(1) [of "ie_hash e" "acc3\<lparr> sa_index := ix4 \<rparr>" evicted] by simp
  show "(\<forall>m. ?max = Some m \<longrightarrow> total_bytes ((ix_entries (zr_index z))(k \<mapsto> e)) \<le> m) \<longrightarrow> ix_entries (sa_index acc) k = Some e"
  proof
    assume small: "\<forall>m. ?max = Some m \<longrightarrow> total_bytes ((ix_entries (zr_index z))(k \<mapsto> e)) \<le> m"
    have "total_bytes (ix_entries (sa_index acc3)) \<le> total_bytes ((ix_entries (zr_index z))(k \<mapsto> e))"
      using total_mono [OF le3] fin by simp
    with small e4(3) have "evicted = []" by (meson le_trans)
    with ents w3(2) show "ix_entries (sa_index acc) k = Some e" by simp
  qed
  show "ix_invalidations (sa_index acc) = ix_invalidations (zr_index z)"
    using inv2 w3(3) evg acc' note_evicted_index(6) [of "ie_hash e" "acc3\<lparr> sa_index := ix4 \<rparr>" evicted] by (simp add: evicting_def)
qed

end
