(* ===== verification/Cache_Zone.thy ===== *)
theory Cache_Zone
  imports Cache_Index_Proofs
begin

text \<open>
  A cache zone as a state machine.  Every operation of
  \<open>crates/rginx-http/src/cache/store/maintenance\<close> and of \<open>runtime/zone.rs\<close> is a step;
  tasks interleave between steps.  The index stays well formed and within its size
  limit on every run, eviction takes the least recently used entries and stops as
  early as it can, and the inactivity cleanup removes exactly the idle entries.
\<close>

section \<open>The eviction loop\<close>

definition schedule_current :: "(string \<Rightarrow> cache_entry_hot_state option) \<Rightarrow> cache_index \<Rightarrow> bool" where
  "schedule_current hot ix \<longleftrightarrow>
     (\<forall>(t, tk, k) \<in> set (ix_access_schedule ix).
        \<forall>e. ix_entries ix k = Some e \<longrightarrow> t \<le> effective_last_access_unix_ms hot k e)"

lemma lru_next_current:
  assumes "schedule_current hot ix" and "ix_access_schedule ix \<noteq> []" and "lru_next hot ix r = (ix', r')"
  shows "schedule_current hot ix'"
  using assms(3,2)
proof (rule lru_next_cases)
  fix key t ix1
  assume p: "pop_oldest_scheduled_entry ix = Some ((key, t), ix1)" and ix': "ix' = ix1"
  have "set (ix_access_schedule ix1) \<subseteq> set (ix_access_schedule ix)" using p by (auto elim!: pop_simps)
  with assms(1) pop_fields(1) [OF p] ix' show ?thesis unfolding schedule_current_def by fastforce
next
  fix key t ix1 e
  assume p: "pop_oldest_scheduled_entry ix = Some ((key, t), ix1)" and e: "ix_entries ix key = Some e"
    and ix': "ix' = reschedule_entry_access ix1 key (effective_last_access_unix_ms hot key e)"
  have res: "ix' = schedule_entry_access ix1 key (effective_last_access_unix_ms hot key e)"
    using ix' e pop_fields(1) [OF p] by (simp add: reschedule_entry_access_def)
  have "set (ix_access_schedule ix1) \<subseteq> set (ix_access_schedule ix)" using p by (auto elim!: pop_simps)
  then have sub: "set (ix_access_schedule ix') \<subseteq>
      insert (effective_last_access_unix_ms hot key e, ix_maintenance_next_ticket (unschedule_entry_access ix1 key), key) (set (ix_access_schedule ix))"
    by (auto simp: res schedule_entry_access_def Let_def set_insort_insert unschedule_entry_access_def split: option.splits)
  have "ix_entries ix' = ix_entries ix" using pop_fields(1) [OF p] by (simp add: res)
  with sub e assms(1) show ?thesis unfolding schedule_current_def by fastforce
next
  fix key t ix1 e ix2
  assume p: "pop_oldest_scheduled_entry ix = Some ((key, t), ix1)" and rm: "remove_entry ix1 key = Some (e, ix2)"
    and ix': "ix' = drop_scheduled ix2 key e"
  have "set (ix_access_schedule ix1) \<subseteq> set (ix_access_schedule ix)" using p by (auto elim!: pop_simps)
  with remove_popped [OF p rm] ix' assms(1) show ?thesis by (fastforce simp: schedule_current_def drop_scheduled_def)
qed

lemma lru_next_size:
  assumes "index_core ix" and "ix_access_schedule ix \<noteq> []" and "lru_next hot ix r = (ix', r')"
  shows "(r' = r \<and> ix_current_size_bytes ix' = ix_current_size_bytes ix) \<or>
     (\<exists>key e. r' = r @ [(key, e)] \<and> ix_current_size_bytes ix' + ie_body_size_bytes e = ix_current_size_bytes ix)"
  using assms(3,2)
proof (rule lru_next_cases)
  fix key t ix1 e ix2
  assume p: "pop_oldest_scheduled_entry ix = Some ((key, t), ix1)" and e: "ix_entries ix key = Some e"
    and rm: "remove_entry ix1 key = Some (e, ix2)" and res: "ix' = drop_scheduled ix2 key e" "r' = r @ [(key, e)]"
  have "ie_body_size_bytes e \<le> ix_current_size_bytes ix"
    using total_del [OF index_coreD(4) [OF assms(1)] e] index_coreD(3) [OF assms(1)] by simp
  with res pop_fields(6) [OF p] remove_entry_fields(6) [OF rm] show ?thesis by (simp add: drop_scheduled_def)
qed (simp_all add: pop_fields)

lemma evicting_core: "evicting hot ix0 ix r \<Longrightarrow> index_core ix"
  unfolding evicting_def by blast

lemma evict_loop_minimal:
  assumes "index_core ix" and run: "evict_loop hot m ix [] = (out, ix')"
  shows "out \<noteq> [] \<longrightarrow> m < total_bytes (ix_entries ix') + ie_body_size_bytes (snd (last out))"
proof -
  let ?P = "\<lambda>ix2 r. evicting hot ix ix2 r \<and> (r \<noteq> [] \<longrightarrow> m < ix_current_size_bytes ix2 + ie_body_size_bytes (snd (last r)))"
  have "?P ix' out \<and> (ix_current_size_bytes ix' \<le> m \<or> ix_access_schedule ix' = [])"
  proof (rule ev.run_invariant [OF _ _ run, of ?P])
    fix ix1 r ix2 r'
    assume P: "?P ix1 r" and big: "\<not> (ix_current_size_bytes ix1 \<le> m \<or> ix_access_schedule ix1 = [])"
      and ne: "ix_access_schedule ix1 \<noteq> []" and n: "lru_next hot ix1 r = (ix2, r')"
    from P have e1: "evicting hot ix ix1 r" by blast
    have "evicting hot ix ix2 r'" by (rule lru_next_evicting [OF e1 ne n])
    moreover have "r' \<noteq> [] \<longrightarrow> m < ix_current_size_bytes ix2 + ie_body_size_bytes (snd (last r'))"
      using lru_next_size [OF evicting_core [OF e1] ne n] P big by auto
    ultimately show "?P ix2 r'" by blast
  qed (simp add: evicting_start [OF assms(1)])
  then show ?thesis using index_coreD(3) [OF evicting_core] by metis
qed

lemma evict_loop_current:
  assumes "schedule_current hot ix" and run: "evict_loop hot m ix [] = (out, ix')"
  shows "schedule_current hot ix'"
proof -
  have "schedule_current hot ix' \<and> (ix_current_size_bytes ix' \<le> m \<or> ix_access_schedule ix' = [])"
    by (rule ev.run_invariant [OF _ _ run, of "\<lambda>ix _. schedule_current hot ix"]) (use lru_next_current assms(1) in blast)+
  then show ?thesis by blast
qed

lemma kept_is_scheduled:
  assumes "index_core ix" and "ix_entries ix k = Some e"
  obtains t tk where "(t, tk, k) \<in> set (ix_access_schedule ix)"
proof -
  have "k \<in> dom (ix_access_ticket_by_key ix)" using assms by (auto simp: index_core_def sched_ok_def)
  then obtain t tk where "ix_access_ticket_by_key ix k = Some (t, tk)" by auto
  with assms(1) have "(t, tk, k) \<in> set (ix_access_schedule ix)" unfolding index_core_def sched_ok_def by blast
  then show thesis by (rule that)
qed

lemma evicting_lru:
  assumes "evicting hot ix0 ix r" and "schedule_current hot ix" and "(k, e) \<in> set r" and "ix_entries ix k' = Some e'"
  shows "effective_last_access_unix_ms hot k e \<le> effective_last_access_unix_ms hot k' e'"
proof -
  obtain t tk where s: "(t, tk, k') \<in> set (ix_access_schedule ix)"
    using kept_is_scheduled [OF evicting_core [OF assms(1)] assms(4)] .
  have "effective_last_access_unix_ms hot k e \<le> t" using assms(1,3) s unfolding evicting_def by blast
  also have "t \<le> effective_last_access_unix_ms hot k' e'" using assms(2,4) s unfolding schedule_current_def by blast
  finally show ?thesis .
qed

lemma eviction_candidates_current:
  assumes "schedule_current hot ix" and "eviction_candidates hot ix max_size = (evicted, ix')"
  shows "schedule_current hot ix'"
  using assms evict_loop_current [of hot ix] by (auto simp: eviction_candidates_def split: option.splits if_splits)

lemma eviction_candidates_minimal:
  assumes "index_core ix" and "eviction_candidates hot ix (Some m) = (evicted, ix')"
  shows "evicted \<noteq> [] \<longrightarrow> m < total_bytes (ix_entries ix') + ie_body_size_bytes (snd (last evicted))"
  using assms evict_loop_minimal [of ix hot m] by (auto simp: eviction_candidates_def split: if_splits)

section \<open>The inactivity cleanup\<close>

abbreviation idle :: "(string \<Rightarrow> cache_entry_hot_state option) \<Rightarrow> nat \<Rightarrow> nat \<Rightarrow> string \<Rightarrow> cache_index_entry \<Rightarrow> bool" where
  "idle hot now inactive_ms k e \<equiv> effective_last_access_unix_ms hot k e < now - inactive_ms"

lemma lru_next_removes_oldest:
  assumes "oldest_scheduled_access_unix_ms ix = Some t" and "lru_next hot ix r = (ix', r')"
  shows "r' = r \<or> (\<exists>k e. r' = r @ [(k, e)] \<and> effective_last_access_unix_ms hot k e \<le> t)"
proof -
  have "ix_access_schedule ix \<noteq> []" using assms(1) by (auto simp: oldest_scheduled_access_unix_ms_def)
  with assms(2) show ?thesis
  proof (rule lru_next_cases)
    fix key t' ix1 e
    assume "pop_oldest_scheduled_entry ix = Some ((key, t'), ix1)" "effective_last_access_unix_ms hot key e \<le> t'"
      "r' = r @ [(key, e)]"
    with assms(1) show ?thesis by (auto simp: oldest_scheduled_access_unix_ms_def elim!: pop_simps)
  qed simp_all
qed

lemma cleanup_loop_ok:
  assumes core: "index_core ix" and run: "cleanup_loop hot now ms b ix [] = (out, ix')"
  shows "evicting hot ix ix' out" and "\<forall>(k, e) \<in> set out. idle hot now ms k e"
    and "schedule_current hot ix \<longrightarrow> schedule_current hot ix'"
    and "b \<le> length out \<or> (case oldest_scheduled_access_unix_ms ix' of None \<Rightarrow> True | Some t \<Rightarrow> now - ms \<le> t)"
proof -
  let ?stop = "\<lambda>ix removed. b \<le> length removed \<or>
       (case oldest_scheduled_access_unix_ms ix of None \<Rightarrow> True | Some t \<Rightarrow> now - ms \<le> t)"
  let ?P = "\<lambda>ix2 r. evicting hot ix ix2 r \<and> (\<forall>(k, e) \<in> set r. idle hot now ms k e) \<and>
      (schedule_current hot ix \<longrightarrow> schedule_current hot ix2)"
  have "?P ix' out \<and> ?stop ix' out"
  proof (rule cl.run_invariant [OF _ _ run, of ?P])
    fix ix1 r ix2 r'
    assume P: "?P ix1 r" and go: "\<not> ?stop ix1 r" and ne: "ix_access_schedule ix1 \<noteq> []" and n: "lru_next hot ix1 r = (ix2, r')"
    from go obtain t where t: "oldest_scheduled_access_unix_ms ix1 = Some t" "t < now - ms" by (auto split: option.splits)
    have "evicting hot ix ix2 r'" by (rule lru_next_evicting [OF _ ne n]) (use P in blast)
    moreover have "\<forall>(k, e) \<in> set r'. idle hot now ms k e"
      using lru_next_removes_oldest [OF t(1) n] t(2) P by fastforce
    moreover have "schedule_current hot ix \<longrightarrow> schedule_current hot ix2" using lru_next_current [OF _ ne n] P by blast
    ultimately show "?P ix2 r'" by blast
  qed (simp add: evicting_start [OF core])
  then show "evicting hot ix ix' out" "\<forall>(k, e) \<in> set out. idle hot now ms k e"
    "schedule_current hot ix \<longrightarrow> schedule_current hot ix'" "?stop ix' out" by blast+
qed

text \<open>What one batch leaves behind, and what the batches leave behind.\<close>

definition zone_trimmed :: "cache_zone_runtime \<Rightarrow> (string \<times> cache_index_entry) list \<Rightarrow> cache_zone_runtime \<Rightarrow> bool" where
  "zone_trimmed z removed z' \<longleftrightarrow>
     index_wf (zr_index z') \<and> zr_config z' = zr_config z \<and>
     ix_invalidations (zr_index z') = ix_invalidations (zr_index z) \<and>
     (\<forall>(k, e) \<in> set removed. ix_entries (zr_index z) k = Some e) \<and>
     ix_entries (zr_index z') = ix_entries (zr_index z) |` (- fst ` set removed) \<and>
     zr_hot_entries z' = zr_hot_entries z |` (- fst ` set removed)"

lemma foldl_remove_hot_entries: "zr_hot_entries (foldl remove_hot_entry z ks) = zr_hot_entries z |` (- set ks)"
  by (induction ks arbitrary: z) (auto simp: remove_hot_entry_def restrict_map_def fun_eq_iff)

lemma cleanup_batch_ok:
  assumes wf: "index_wf (zr_index z)" and b: "cleanup_batch z now = (removed, has_more_due, ops, z')"
  defines "ms \<equiv> duration_to_ms (cz_inactive (zr_config z))"
  shows "zone_trimmed z removed z'" and "\<forall>(k, e) \<in> set removed. idle (zr_hot_entries z) now ms k e"
    and "schedule_current (zr_hot_entries z) (zr_index z) \<longrightarrow> schedule_current (zr_hot_entries z') (zr_index z')"
    and "\<not> has_more_due \<longrightarrow> (case oldest_scheduled_access_unix_ms (zr_index z') of None \<Rightarrow> True | Some t \<Rightarrow> now - ms \<le> t)"
proof -
  let ?b = "max (cz_manager_batch_entries (zr_config z)) 1"
  from b obtain ix where run: "cleanup_loop (zr_hot_entries z) now ms ?b (zr_index z) [] = (removed, ix)"
    and more: "has_more_due = (case oldest_scheduled_access_unix_ms ix of Some t \<Rightarrow> t < now - ms | None \<Rightarrow> False)"
    and z': "z' = foldl remove_hot_entry (z\<lparr> zr_index := ix\<lparr> ix_variants := drop_variants (ix_variants ix) removed \<rparr> \<rparr>) (map fst removed)"
    unfolding cleanup_batch_def ms_def [symmetric] by (auto simp: inactive_cleanup_candidates_def split: prod.splits)
  from wf have core: "index_core (zr_index z)" and v: "variants_ok (ix_variants (zr_index z)) (ix_entries (zr_index z))"
    by (simp_all add: index_wf_def)
  note ok = cleanup_loop_ok [OF core run]
  note e = ok(1) [unfolded evicting_def]
  have ix': "zr_index z' = ix\<lparr> ix_variants := drop_variants (ix_variants ix) removed \<rparr>" by (simp add: z')
  have ents: "ix_entries ix = ix_entries (zr_index z) |` (- fst ` set removed)" using e by blast
  have hots: "zr_hot_entries z' = zr_hot_entries z |` (- fst ` set removed)" by (simp add: z' foldl_remove_hot_entries)
  have "variants_ok (ix_variants (zr_index z')) (ix_entries (zr_index z'))"
    using drop_variants_ok [OF v, of removed] e ents by (simp add: ix')
  moreover have "index_core (zr_index z')"
    using evicting_core [OF ok(1)] by (simp add: ix' index_core_def sched_ok_def)
  ultimately have "index_wf (zr_index z')" by (simp add: index_wf_def)
  with e ents hots show "zone_trimmed z removed z'" by (auto simp: zone_trimmed_def ix' z')
  show "\<forall>(k, e) \<in> set removed. idle (zr_hot_entries z) now ms k e" by (rule ok(2))
  show "schedule_current (zr_hot_entries z) (zr_index z) \<longrightarrow> schedule_current (zr_hot_entries z') (zr_index z')"
  proof
    assume "schedule_current (zr_hot_entries z) (zr_index z)"
    with ok(3) have cur: "schedule_current (zr_hot_entries z) ix" by blast
    have "effective_last_access_unix_ms (zr_hot_entries z') k x = effective_last_access_unix_ms (zr_hot_entries z) k x"
      if "ix_entries ix k = Some x" for k x
      using that by (simp add: effective_last_access_unix_ms_def hots ents restrict_map_def split: if_splits)
    with cur show "schedule_current (zr_hot_entries z') (zr_index z')" unfolding schedule_current_def ix' by simp
  qed
  show "\<not> has_more_due \<longrightarrow> (case oldest_scheduled_access_unix_ms (zr_index z') of None \<Rightarrow> True | Some t \<Rightarrow> now - ms \<le> t)"
    by (auto simp: more ix' oldest_scheduled_access_unix_ms_def split: option.splits)
qed

lemma zone_trimmed_trans:
  assumes a: "zone_trimmed z r z1" and b: "zone_trimmed z1 r2 z2"
  shows "zone_trimmed z (r @ r2) z2"
proof -
  have "\<forall>(k, e) \<in> set (r @ r2). ix_entries (zr_index z) k = Some e"
    using a b unfolding zone_trimmed_def by (fastforce simp: restrict_map_def split: if_splits)
  with a b show ?thesis unfolding zone_trimmed_def by (simp add: image_Un restrict_restrict)
qed

lemma trimmed_effective:
  assumes "zone_trimmed z r z1" and "ix_entries (zr_index z1) k = Some e"
  shows "effective_last_access_unix_ms (zr_hot_entries z1) k x = effective_last_access_unix_ms (zr_hot_entries z) k x"
  using assms by (auto simp: zone_trimmed_def effective_last_access_unix_ms_def restrict_map_def split: if_splits)

lemma cleanup_batches_ok:
  assumes "index_wf (zr_index z)" and "cleanup_batches z now = (removed, ops, z')"
  defines "ms \<equiv> duration_to_ms (cz_inactive (zr_config z))"
  shows "zone_trimmed z removed z' \<and> (\<forall>(k, e) \<in> set removed. idle (zr_hot_entries z) now ms k e) \<and>
     (schedule_current (zr_hot_entries z) (zr_index z) \<longrightarrow> schedule_current (zr_hot_entries z') (zr_index z')) \<and>
     (case oldest_scheduled_access_unix_ms (zr_index z') of None \<Rightarrow> True | Some t \<Rightarrow> now - ms \<le> t)"
  using assms(1,2) unfolding ms_def
proof (induction z now arbitrary: removed ops z' rule: cleanup_batches.induct)
  case (1 z now)
  obtain r more o1 z1 where b: "cleanup_batch z now = (r, more, o1, z1)" by (cases "cleanup_batch z now") auto
  note ok = cleanup_batch_ok [OF "1.prems"(1) b]
  show ?case
  proof (cases more)
    case False
    then show ?thesis using "1.prems"(2) ok b by (subst (asm) cleanup_batches.simps) simp
  next
    case True
    obtain r2 o2 z2 where rest: "cleanup_batches z1 now = (r2, o2, z2)" by (cases "cleanup_batches z1 now") auto
    have res: "removed = r @ r2" "z' = z2" using "1.prems"(2) b rest True by (subst (asm) cleanup_batches.simps, simp)+
    have t1: "zone_trimmed z r z1" by (rule ok(1))
    then have cfg: "zr_config z1 = zr_config z" and wf1: "index_wf (zr_index z1)" by (simp_all add: zone_trimmed_def)
    note IH = "1.IH" [OF b [symmetric] refl refl True wf1 rest, unfolded cfg]
    have "\<forall>(k, e) \<in> set r2. idle (zr_hot_entries z) now (duration_to_ms (cz_inactive (zr_config z))) k e"
      using IH trimmed_effective [OF t1] unfolding zone_trimmed_def by fastforce
    with ok(2,3) IH zone_trimmed_trans [OF t1] show ?thesis by (simp add: res) (metis (no_types, lifting) case_prodI2 Un_iff)
  qed
qed

lemma oldest_bounds_entries:
  assumes core: "index_core ix" and cur: "schedule_current hot ix" and e: "ix_entries ix k = Some e"
    and old: "case oldest_scheduled_access_unix_ms ix of None \<Rightarrow> True | Some t \<Rightarrow> lim \<le> t"
  shows "lim \<le> effective_last_access_unix_ms hot k e"
proof -
  obtain t tk where s: "(t, tk, k) \<in> set (ix_access_schedule ix)" using kept_is_scheduled [OF core e] .
  obtain t0 tk0 k0 rest where sch: "ix_access_schedule ix = (t0, tk0, k0) # rest" using s by (cases "ix_access_schedule ix") auto
  have "sorted (ix_access_schedule ix)" using core by (simp add: index_core_def sched_ok_def)
  with s sch have "t0 \<le> t" by (auto simp: less_eq_prod_def)
  moreover have "lim \<le> t0" using old sch by (simp add: oldest_scheduled_access_unix_ms_def)
  moreover have "t \<le> effective_last_access_unix_ms hot k e" using cur s e unfolding schedule_current_def by blast
  ultimately show ?thesis by simp
qed

lemma zone_trimmed_exact:
  assumes t: "zone_trimmed z removed z'" and sound: "\<forall>(k, e) \<in> set removed. P k e"
    and complete: "\<forall>k e. ix_entries (zr_index z') k = Some e \<longrightarrow> \<not> P k e"
  shows "ix_entries (zr_index z') k = Some e \<longleftrightarrow> ix_entries (zr_index z) k = Some e \<and> \<not> P k e"
proof
  assume "ix_entries (zr_index z') k = Some e"
  with t complete show "ix_entries (zr_index z) k = Some e \<and> \<not> P k e"
    by (auto simp: zone_trimmed_def restrict_map_def split: if_splits)
next
  assume e: "ix_entries (zr_index z) k = Some e \<and> \<not> P k e"
  have "k \<notin> fst ` set removed"
  proof
    assume "k \<in> fst ` set removed"
    then obtain e' where "(k, e') \<in> set removed" by auto
    with t sound e show False unfolding zone_trimmed_def by fastforce
  qed
  with t e show "ix_entries (zr_index z') k = Some e" by (simp add: zone_trimmed_def)
qed

section \<open>Removal, touch and admission\<close>

lemma purge_keys_ok:
  assumes "index_wf ix" and "purge_keys ix ks = (removed, ix')"
  shows "index_wf ix' \<and> ix_entries ix' = ix_entries ix |` (- set ks) \<and>
     ix_invalidations ix' = ix_invalidations ix \<and> (\<forall>(k, e) \<in> set removed. k \<in> set ks \<and> ix_entries ix k = Some e)"
  using assms
proof (induction ks arbitrary: ix removed ix')
  case (Cons k ks)
  show ?case
  proof (cases "forget_key ix k")
    case None
    then have "ix_entries ix k = None" by (simp add: forget_key_None)
    then have "ix_entries ix |` (- set (k # ks)) = ix_entries ix |` (- set ks)" by (auto simp: restrict_map_def fun_eq_iff)
    moreover have "purge_keys ix ks = (removed, ix')" using Cons.prems(2) None by simp
    from Cons.IH [OF Cons.prems(1) this] have "index_wf ix' \<and> ix_entries ix' = ix_entries ix |` (- set ks) \<and>
      ix_invalidations ix' = ix_invalidations ix \<and> (\<forall>(k, e) \<in> set removed. k \<in> set ks \<and> ix_entries ix k = Some e)" .
    ultimately show ?thesis by (simp only:) auto
  next
    case (Some r)
    obtain e ix1 where r: "r = (e, ix1)" by force
    obtain rs ix2 where rest: "purge_keys ix1 ks = (rs, ix2)" by force
    note f = forget_key_wf [OF Cons.prems(1) Some [unfolded r]]
    have res: "removed = (k, e) # rs" "ix' = ix2" using Cons.prems(2) Some r rest by auto
    have eq: "ix_entries ix1 |` (- set ks) = ix_entries ix |` (- set (k # ks))"
      by (auto simp: f(2) restrict_map_def fun_eq_iff)
    have "\<forall>(k', e') \<in> set rs. (k' = k \<or> k' \<in> set ks) \<and> ix_entries ix k' = Some e'"
      using Cons.IH [OF f(1) rest] unfolding f(2) by (auto split: if_splits)
    then show ?thesis using Cons.IH [OF f(1) rest] f(3,5) unfolding res eq by simp
  qed
qed (simp add: restrict_map_def)

definition same_files :: "(string \<Rightarrow> cache_index_entry option) \<Rightarrow> (string \<Rightarrow> cache_index_entry option) \<Rightarrow> bool" where
  "same_files m m' \<longleftrightarrow> (\<forall>k. map_option (\<lambda>e. (ie_hash e, ie_base_key e, ie_body_size_bytes e)) (m k) =
                              map_option (\<lambda>e. (ie_hash e, ie_base_key e, ie_body_size_bytes e)) (m' k))"

lemma same_filesD:
  assumes "same_files m m'"
  shows "dom m' = dom m" and "m k = Some e \<Longrightarrow> \<exists>e'. m' k = Some e' \<and> ie_hash e' = ie_hash e \<and> ie_base_key e' = ie_base_key e \<and> ie_body_size_bytes e' = ie_body_size_bytes e"
    and "m' k = Some e' \<Longrightarrow> \<exists>e. m k = Some e \<and> ie_hash e = ie_hash e' \<and> ie_base_key e = ie_base_key e' \<and> ie_body_size_bytes e = ie_body_size_bytes e'"
proof -
  have *: "map_option (\<lambda>e. (ie_hash e, ie_base_key e, ie_body_size_bytes e)) (m k) =
      map_option (\<lambda>e. (ie_hash e, ie_base_key e, ie_body_size_bytes e)) (m' k)" for k
    using assms by (simp add: same_files_def)
  have "m' k = None \<longleftrightarrow> m k = None" for k using * [of k] by (cases "m k"; cases "m' k") auto
  then show "dom m' = dom m" by (auto simp: dom_def)
  show "m k = Some e \<Longrightarrow> \<exists>e'. m' k = Some e' \<and> ie_hash e' = ie_hash e \<and> ie_base_key e' = ie_base_key e \<and> ie_body_size_bytes e' = ie_body_size_bytes e"
    using * [of k] by (cases "m' k") auto
  show "m' k = Some e' \<Longrightarrow> \<exists>e. m k = Some e \<and> ie_hash e = ie_hash e' \<and> ie_base_key e = ie_base_key e' \<and> ie_body_size_bytes e = ie_body_size_bytes e'"
    using * [of k] by (cases "m k") auto
qed

lemma same_files_parts:
  assumes "same_files m m'"
  shows "refs_ok counts m' = refs_ok counts m" "variants_ok v m' = variants_ok v m" "total_bytes m' = total_bytes m"
proof -
  note d = same_filesD [OF assms]
  have "{k. \<exists>e. m' k = Some e \<and> ie_hash e = h} = {k. \<exists>e. m k = Some e \<and> ie_hash e = h}" for h
    using d(2,3) by fastforce
  then show "refs_ok counts m' = refs_ok counts m" by (simp add: refs_ok_def refs_def d(1))
  have "{k. \<exists>e. m' k = Some e \<and> ie_base_key e = b} = {k. \<exists>e. m k = Some e \<and> ie_base_key e = b}" for b
    using d(2,3) by fastforce
  moreover have "(\<forall>k e. m' k = Some e \<longrightarrow> ie_base_key e \<noteq> b) = (\<forall>k e. m k = Some e \<longrightarrow> ie_base_key e \<noteq> b)" for b
    using d(2,3) by metis
  ultimately show "variants_ok v m' = variants_ok v m"
    unfolding variants_ok_def by (intro iff_allI) (simp split: option.split)
  have "ie_body_size_bytes (the (m' k)) = ie_body_size_bytes (the (m k))" if "k \<in> dom m" for k
    using that d(2) by fastforce
  then show "total_bytes m' = total_bytes m" unfolding total_bytes_def d(1) by (intro sum.cong) auto
qed

lemma touch_entry_ok:
  assumes "index_wf ix"
  shows "index_wf (touch_entry ix k t) \<and> same_files (ix_entries ix) (ix_entries (touch_entry ix k t)) \<and>
     ix_invalidations (touch_entry ix k t) = ix_invalidations ix"
proof (cases "ix_entries ix k")
  case (Some e)
  let ?m = "(ix_entries ix)(k \<mapsto> e\<lparr> ie_last_access_unix_ms := t \<rparr>)"
  have same: "same_files (ix_entries ix) ?m" using Some by (auto simp: same_files_def)
  have core: "index_core ix" using assms by (simp add: index_wf_def)
  have "sched_ok (ix\<lparr> ix_entries := ?m \<rparr>) (dom (ix_entries ix))"
    using index_coreD(2) [OF core] by (simp add: sched_ok_def)
  from sched_ok_schedule [OF this, of k t] Some
  have "sched_ok (schedule_entry_access (ix\<lparr> ix_entries := ?m \<rparr>) k t) (dom ?m)" by (simp add: insert_absorb domI)
  then have "index_wf (schedule_entry_access (ix\<lparr> ix_entries := ?m \<rparr>) k t)"
    using assms same_files_parts [OF same] by (simp add: index_wf_def index_core_def)
  with Some same assms show ?thesis by (simp add: touch_entry_def reschedule_entry_access_def same_files_def)
qed (use assms in \<open>simp add: touch_entry_def same_files_def\<close>)

lemma admission_index_wf:
  assumes "index_wf ix" and "record_cache_admission_attempt ix k n = (ok, ops, ix')"
  shows "index_wf ix'" and "ix_entries ix' = ix_entries ix" and "ix_invalidations ix' = ix_invalidations ix"
proof -
  from assms(2) have "\<exists>c. ix' = ix\<lparr> ix_admission_counts := c \<rparr>"
    by (auto simp: record_cache_admission_attempt_def Let_def split: if_splits)
  then obtain c where ix': "ix' = ix\<lparr> ix_admission_counts := c \<rparr>" by blast
  have "index_wf ix' = index_wf ix" by (rule index_wf_cong) (simp_all add: ix')
  with assms(1) show "index_wf ix'" by simp
  show "ix_entries ix' = ix_entries ix" "ix_invalidations ix' = ix_invalidations ix" by (simp_all add: ix')
qed

section \<open>The zone as a state machine\<close>

text \<open>
  The sum of all body sizes fits a machine word: the bodies are files of one
  volume.  Without it the saturating addition of the size would lose bytes.
\<close>

inductive zone_step :: "cache_zone_runtime \<Rightarrow> shared_index_operation list \<Rightarrow> cache_zone_runtime \<Rightarrow> bool" where
  store: "update_index_after_store z k e replaced = (hashes, ops, z') \<Longrightarrow>
     total_bytes ((ix_entries (zr_index z))(k := None)) + ie_body_size_bytes e \<le> u64_max \<Longrightarrow> zone_step z ops z'"
| remove: "remove_zone_index_entry_if_matches z k e = (r, ops, z') \<Longrightarrow> zone_step z ops z'"
| admission: "record_cache_admission_attempt (zr_index z) k n = (admitted, ops, ix) \<Longrightarrow> zone_step z ops (z\<lparr> zr_index := ix \<rparr>)"
| cleanup: "cleanup_batch z now = (removed, has_more_due, ops, z') \<Longrightarrow> zone_step z ops z'"
| purge: "purge_zone_entries z selector key_order = (result, removed, ops, z') \<Longrightarrow> zone_step z ops z'"
| invalidate: "invalidate_zone_entries z sel now key_order = (outcome, ops, z') \<Longrightarrow> zone_step z ops z'"
| clear: "clear_zone_invalidations z key_order = (outcome, ops, z') \<Longrightarrow> zone_step z ops z'"
| touch: "record_zone_shared_entry_access z k now = (ops, z') \<Longrightarrow> zone_step z ops z'"
| access: "zone_step z [] (record_entry_access z k now)"
| prepared: "zone_step z [] (store_prepared_response_head z k now head_hash)"

inductive zone_run :: "cache_zone_runtime \<Rightarrow> shared_index_operation list \<Rightarrow> cache_zone_runtime \<Rightarrow> bool" where
  start: "zone_run z [] z"
| step: "zone_run z ops z1 \<Longrightarrow> zone_step z1 ops1 z2 \<Longrightarrow> zone_run z (ops @ ops1) z2"

definition zone_ok :: "cache_zone_runtime \<Rightarrow> bool" where
  "zone_ok z \<longleftrightarrow> index_wf (zr_index z) \<and>
     (\<forall>m. cz_max_size_bytes (zr_config z) = Some m \<longrightarrow> total_bytes (ix_entries (zr_index z)) \<le> m)"

lemma zone_okI:
  assumes "zone_ok z" and "index_wf (zr_index z')" and "zr_config z' = zr_config z"
    and "total_bytes (ix_entries (zr_index z')) \<le> total_bytes (ix_entries (zr_index z))"
  shows "zone_ok z'"
  using assms by (auto simp: zone_ok_def intro: le_trans)

lemma zone_ok_shrink:
  assumes "zone_ok z" and "index_wf (zr_index z')" and "zr_config z' = zr_config z"
    and "ix_entries (zr_index z') \<subseteq>\<^sub>m ix_entries (zr_index z)"
  shows "zone_ok z'"
proof -
  have "finite (dom (ix_entries (zr_index z)))" using assms(1) by (simp add: zone_ok_def index_wf_def index_core_def refs_ok_def)
  with assms show ?thesis by (blast intro: zone_okI total_mono)
qed

lemma zone_ok_same_index:
  assumes "zone_ok z" and "zr_index z' = zr_index z" and "zr_config z' = zr_config z"
  shows "zone_ok z'"
  using assms by (simp add: zone_ok_def)

lemma index_wf_invalidations: "index_wf (ix\<lparr> ix_invalidations := rules \<rparr>) = index_wf ix"
  by (rule index_wf_cong) simp_all

lemma zone_bookkeeping [simp]:
  "zr_index (notify_changed z) = zr_index z" "zr_config (notify_changed z) = zr_config z"
  "zr_index (remove_hot_entry z k) = zr_index z" "zr_config (remove_hot_entry z k) = zr_config z"
  "zr_index (record_evictions z n) = zr_index z" "zr_config (record_evictions z n) = zr_config z"
  "zr_index (record_purge z n) = zr_index z" "zr_config (record_purge z n) = zr_config z"
  "zr_index (record_invalidation z n) = zr_index z" "zr_config (record_invalidation z n) = zr_config z"
  "zr_index (record_entry_access z k now) = zr_index z" "zr_config (record_entry_access z k now) = zr_config z"
  "zr_index (store_prepared_response_head z k now h) = zr_index z" "zr_config (store_prepared_response_head z k now h) = zr_config z"
  by (simp_all add: notify_changed_def remove_hot_entry_def record_evictions_def record_purge_def record_invalidation_def
      record_entry_access_def store_prepared_response_head_def Let_def split: option.split)

lemma publish_keeps_index:
  assumes "should_publish_shared_entry_access z k now = (b, z')"
  shows "zr_index z' = zr_index z" "zr_config z' = zr_config z"
  using assms by (auto simp: should_publish_shared_entry_access_def Let_def split: if_splits)

lemma zone_step_config: "zone_step z ops z' \<Longrightarrow> zr_config z' = zr_config z"
  by (induction rule: zone_step.induct)
    (auto simp: update_index_after_store_def remove_zone_index_entry_if_matches_def cleanup_batch_def purge_zone_entries_def
      invalidate_zone_entries_def clear_zone_invalidations_def record_zone_shared_entry_access_def Let_def
      dest: publish_keeps_index split: prod.splits option.splits if_splits)

lemma touch_zone_ok:
  assumes "zone_ok z" and "record_zone_shared_entry_access z k now = (ops, z')"
  shows "zone_ok z'"
proof -
  obtain b z1 where p: "should_publish_shared_entry_access (record_entry_access z k now) k now = (b, z1)" by force
  have same: "zr_index z1 = zr_index z" "zr_config z1 = zr_config z" using publish_keeps_index [OF p] by simp_all
  have wf: "index_wf (zr_index z)" using assms(1) by (simp add: zone_ok_def)
  have "z' = z1 \<or> z' = z1\<lparr> zr_index := touch_entry (zr_index z1) k now \<rparr>"
    using assms(2) p by (auto simp: record_zone_shared_entry_access_def split: if_splits option.splits)
  then show ?thesis
  proof
    assume "z' = z1"
    with same show ?thesis by (intro zone_ok_same_index [OF assms(1)]) simp_all
  next
    assume z': "z' = z1\<lparr> zr_index := touch_entry (zr_index z1) k now \<rparr>"
    show ?thesis
      by (rule zone_okI [OF assms(1)]) (use touch_entry_ok [OF wf, of k now] same_files_parts(3) same z' in auto)
  qed
qed

lemma zone_step_ok:
  assumes "zone_step z ops z'" and "zone_ok z"
  shows "zone_ok z'"
  using assms
proof (induction rule: zone_step.induct)
  case (store z k e replaced hashes ops z')
  obtain acc n where s: "store_in_index z k e replaced = (acc, n)" by force
  have wf: "index_wf (zr_index z)" using store.prems by (simp add: zone_ok_def)
  note r = store_in_index_ok [OF wf store.hyps(2) s]
  from store.hyps(1) s r(1,3) show ?case by (auto simp: update_index_after_store_def zone_ok_def)
next
  case (remove z k e r ops z')
  have wf: "index_wf (zr_index z)" using remove.prems by (simp add: zone_ok_def)
  from remove.hyps have "z' = z \<or> (\<exists>x ix. forget_key (zr_index z) k = Some (x, ix) \<and> zr_index z' = ix \<and> zr_config z' = zr_config z)"
    by (auto simp: remove_zone_index_entry_if_matches_def split: option.splits if_splits)
  then show ?case
  proof (elim disjE exE conjE)
    fix x ix
    assume f: "forget_key (zr_index z) k = Some (x, ix)" and z': "zr_index z' = ix" "zr_config z' = zr_config z"
    show ?thesis
      by (rule zone_ok_shrink [OF remove.prems]) (simp_all only: z' forget_key_wf(1,2) [OF wf f] map_le_del)
  qed (use remove.prems in simp)
next
  case (admission z k n admitted ops ix)
  have wf: "index_wf (zr_index z)" using admission.prems by (simp add: zone_ok_def)
  show ?case using admission.prems admission_index_wf(1,2) [OF wf admission.hyps] by (simp add: zone_ok_def)
next
  case (cleanup z now removed has_more_due ops z')
  have "zone_trimmed z removed z'" by (rule cleanup_batch_ok(1) [OF _ cleanup.hyps]) (use cleanup.prems in \<open>simp add: zone_ok_def\<close>)
  then have "index_wf (zr_index z')" "zr_config z' = zr_config z"
    "ix_entries (zr_index z') = ix_entries (zr_index z) |` (- fst ` set removed)" unfolding zone_trimmed_def by blast+
  then show ?case by (intro zone_ok_shrink [OF cleanup.prems]) (simp_all only: map_le_restrict)
next
  case (purge z selector key_order result removed ops z')
  obtain r ix where k: "purge_keys (zr_index z) (filter (purge_selector_matches selector) key_order) = (r, ix)" by force
  have "zr_index z' = ix" "zr_config z' = zr_config z"
    using purge.hyps k by (auto simp: purge_zone_entries_def Let_def split: if_splits)
  moreover have "index_wf (zr_index z)" using purge.prems by (simp add: zone_ok_def)
  ultimately show ?case using purge_keys_ok [OF _ k]
    by (intro zone_ok_shrink [OF purge.prems]) (simp_all only: map_le_restrict)
next
  case (invalidate z sel now key_order outcome ops z')
  then show ?case by (auto simp: zone_ok_def invalidate_zone_entries_def Let_def index_wf_invalidations)
next
  case (clear z key_order outcome ops z')
  then show ?case by (auto simp: zone_ok_def clear_zone_invalidations_def Let_def index_wf_invalidations)
next
  case (touch z k now ops z')
  then show ?case by (blast intro: touch_zone_ok)
next
  case (access z k now)
  then show ?case by (rule zone_ok_same_index) simp_all
next
  case (prepared z k now head_hash)
  then show ?case by (rule zone_ok_same_index) simp_all
qed

lemma zone_run_ok:
  assumes "zone_run z ops z'" and "zone_ok z"
  shows "zone_ok z'"
  using assms by (induction rule: zone_run.induct) (blast intro: zone_step_ok)+

section \<open>What a store keeps\<close>

lemma forget_for_store_entries:
  "ix_entries (sa_index (forget_for_store h acc k)) = ix_entries (sa_index acc) |` (- {k})"
proof (cases "forget_key (sa_index acc) k")
  case None
  then have "ix_entries (sa_index acc) k = None" by (simp add: forget_key_None)
  with None show ?thesis by (auto simp: forget_for_store_def restrict_map_def fun_eq_iff)
next
  case (Some r)
  then show ?thesis
    by (auto simp: forget_for_store_def forget_key_def remove_entry_def restrict_map_def fun_eq_iff split: option.splits)
qed

lemma forget_all_entries:
  "ix_entries (sa_index (foldl (forget_for_store h) acc ks)) = ix_entries (sa_index acc) |` (- set ks)"
  by (induction ks arbitrary: acc) (auto simp: forget_for_store_entries restrict_map_def fun_eq_iff)

lemma variants_okD:
  assumes "variants_ok v m"
  shows "v b = None \<Longrightarrow> m k = Some x \<Longrightarrow> ie_base_key x \<noteq> b"
    and "v b = Some ks \<Longrightarrow> set ks = {k. \<exists>e. m k = Some e \<and> ie_base_key e = b}"
proof -
  have "case v b of None \<Rightarrow> (\<forall>k e. m k = Some e \<longrightarrow> ie_base_key e \<noteq> b)
      | Some ks \<Rightarrow> ks \<noteq> [] \<and> distinct ks \<and> set ks = {k. \<exists>e. m k = Some e \<and> ie_base_key e = b}"
    using assms by (simp add: variants_ok_def)
  then show "v b = None \<Longrightarrow> m k = Some x \<Longrightarrow> ie_base_key x \<noteq> b"
    and "v b = Some ks \<Longrightarrow> set ks = {k. \<exists>e. m k = Some e \<and> ie_base_key e = b}" by auto
qed

lemma set_different_dimensions:
  assumes "variants_ok (ix_variants ix) (ix_entries ix)"
  shows "c \<in> set (variant_keys_with_different_dimensions ix e k) \<longleftrightarrow>
     c \<noteq> k \<and> (\<exists>x. ix_entries ix c = Some x \<and> ie_base_key x = ie_base_key e \<and>
       sorted_vary_dimension_names (ie_vary x) \<noteq> sorted_vary_dimension_names (ie_vary e))"
proof (cases "ix_variants ix (ie_base_key e)")
  case None
  with variants_okD(1) [OF assms] show ?thesis by (auto simp: variant_keys_with_different_dimensions_def)
next
  case (Some ks)
  with variants_okD(2) [OF assms Some] show ?thesis by (auto simp: variant_keys_with_different_dimensions_def Let_def split: option.splits)
qed

definition superseded :: "(string \<times> cache_index_entry) option \<Rightarrow> cache_index_entry \<Rightarrow> string \<Rightarrow> cache_index_entry \<Rightarrow> bool" where
  "superseded replaced e k x \<longleftrightarrow>
     (\<exists>expected. replaced = Some (k, expected) \<and> stable_eq x expected) \<or>
     (ie_base_key x = ie_base_key e \<and>
        sorted_vary_dimension_names (ie_vary x) \<noteq> sorted_vary_dimension_names (ie_vary e))"

lemma store_in_index_entries:
  assumes wf: "index_wf (zr_index z)"
    and fits: "total_bytes ((ix_entries (zr_index z))(k := None)) + ie_body_size_bytes e \<le> u64_max"
    and room: "\<forall>m. cz_max_size_bytes (zr_config z) = Some m \<longrightarrow> total_bytes ((ix_entries (zr_index z))(k \<mapsto> e)) \<le> m"
    and s: "store_in_index z k e replaced = (acc, n)"
  shows "ix_entries (sa_index acc) k' =
     (if k' = k then Some e else case ix_entries (zr_index z) k' of None \<Rightarrow> None
      | Some x \<Rightarrow> if superseded replaced e k' x then None else Some x)"
proof -
  let ?m = "ix_entries (zr_index z)"
  let ?acc0 = "\<lparr> sa_index = zr_index z, sa_removed_hashes = {}, sa_removed_keys = [], sa_operations = [] \<rparr>"
  define acc1 where "acc1 = (case replaced of None \<Rightarrow> ?acc0 | Some (rk, expected) \<Rightarrow>
      (case ?m rk of None \<Rightarrow> ?acc0
       | Some current \<Rightarrow> if stable_eq current expected then forget_for_store (ie_hash e) ?acc0 rk else ?acc0))"
  define ks where "ks = variant_keys_with_different_dimensions (sa_index acc1) e k"
  define acc3 where "acc3 = insert_for_store k e (foldl (forget_for_store (ie_hash e)) acc1 ks)"
  obtain evicted ix4 where ev: "eviction_candidates (zr_hot_entries z) (sa_index acc3) (cz_max_size_bytes (zr_config z)) = (evicted, ix4)"
    by force
  have acc': "acc = foldl (note_evicted (ie_hash e)) (acc3\<lparr> sa_index := ix4 \<rparr>) evicted"
    using s ev by (simp add: store_in_index_def acc1_def acc3_def ks_def Let_def)
  have m1: "ix_entries (sa_index acc1) c = (case ?m c of None \<Rightarrow> None
      | Some x \<Rightarrow> if \<exists>expected. replaced = Some (c, expected) \<and> stable_eq x expected then None else Some x)" for c
    by (auto simp: acc1_def forget_for_store_entries restrict_map_def split: option.splits)
  have "acc1 = ?acc0 \<or> (\<exists>rk. acc1 = forget_for_store (ie_hash e) ?acc0 rk)" by (auto simp: acc1_def split: option.split)
  then have wf1: "index_wf (sa_index acc1)" using wf forget_for_store_wf [of ?acc0] by auto
  let ?acc2 = "foldl (forget_for_store (ie_hash e)) acc1 ks"
  have wf2: "index_wf (sa_index ?acc2)" using forget_all_wf [OF wf1] by blast
  have "c \<in> set ks \<longleftrightarrow> c \<noteq> k \<and> (\<exists>x. ix_entries (sa_index acc1) c = Some x \<and> ie_base_key x = ie_base_key e \<and>
       sorted_vary_dimension_names (ie_vary x) \<noteq> sorted_vary_dimension_names (ie_vary e))" for c
    unfolding ks_def by (rule set_different_dimensions) (use wf1 in \<open>simp add: index_wf_def\<close>)
  then have m2: "c \<noteq> k \<Longrightarrow> ix_entries (sa_index ?acc2) c = (case ?m c of None \<Rightarrow> None
      | Some x \<Rightarrow> if superseded replaced e c x then None else Some x)" for c
    by (auto simp: forget_all_entries restrict_map_def m1 superseded_def split: option.splits if_splits)
  have le2: "ix_entries (sa_index ?acc2) \<subseteq>\<^sub>m ?m" by (auto simp: map_le_def forget_all_entries restrict_map_def m1 split: option.splits if_splits)
  have fin: "finite (dom ?m)" using wf by (simp add: index_wf_def index_core_def refs_ok_def)
  have "(ix_entries (sa_index ?acc2))(k := None) \<subseteq>\<^sub>m ?m(k := None)" using le2 by (auto simp: map_le_def)
  from total_mono [OF this] fin fits
  have "total_bytes ((ix_entries (sa_index ?acc2))(k := None)) + ie_body_size_bytes e \<le> u64_max" by simp
  note w3 = insert_for_store_wf [OF wf2 this, folded acc3_def]
  have "ix_entries (sa_index acc3) \<subseteq>\<^sub>m ?m(k \<mapsto> e)" using le2 w3(2) by (auto simp: map_le_def)
  from total_mono [OF this] fin have "total_bytes (ix_entries (sa_index acc3)) \<le> total_bytes (?m(k \<mapsto> e))" by simp
  with room have "\<forall>m. cz_max_size_bytes (zr_config z) = Some m \<longrightarrow> total_bytes (ix_entries (sa_index acc3)) \<le> m" by (meson le_trans)
  moreover have core3: "index_core (sa_index acc3)" using w3(1) by (simp add: index_wf_def)
  ultimately have none: "evicted = []" using eviction_candidates_ok(3) [OF core3 ev] by blast
  have "ix_entries ix4 = ix_entries (sa_index acc3)"
    using eviction_candidates_ok(1) [OF core3 ev] none by (simp add: evicting_def restrict_map_def)
  with acc' none w3(2) m2 show ?thesis by simp
qed

section \<open>Samples\<close>

definition sample_entry :: "string \<Rightarrow> nat \<Rightarrow> nat \<Rightarrow> cache_index_entry" where
  "sample_entry hash len last_access =
     \<lparr> ie_kind = ResponseEntry, ie_hash = hash, ie_base_key = ''k'', ie_stored_at_unix_ms = 1, ie_vary = [], ie_tags = [],
       ie_body_size_bytes = len, ie_expires_at_unix_ms = 9000, ie_grace_until_unix_ms = None, ie_keep_until_unix_ms = None,
       ie_stale_if_error_until_unix_ms = None, ie_stale_while_revalidate_until_unix_ms = None,
       ie_requires_revalidation = False, ie_must_revalidate = False, ie_last_access_unix_ms = last_access \<rparr>"

definition sample_runtime :: cache_zone_runtime where
  "sample_runtime = \<lparr> zr_config = sample_zone, zr_index = default_index, zr_hot_entries = Map.empty,
     zr_last_inactive_cleanup_unix_ms = 0,
     zr_stats = \<lparr> zs_hit_total = 0, zs_miss_total = 0, zs_bypass_total = 0, zs_expired_total = 0, zs_stale_total = 0,
       zs_updating_total = 0, zs_revalidated_total = 0, zs_write_success_total = 0, zs_write_error_total = 0,
       zs_eviction_total = 0, zs_purge_total = 0, zs_invalidation_total = 0, zs_inactive_cleanup_total = 0 \<rparr>,
     zr_notifications = 0 \<rparr>"

definition sample_two :: cache_index where
  "sample_two = sa_index (insert_for_store ''new'' (sample_entry ''h2'' 600 70) (insert_for_store ''old'' (sample_entry ''h1'' 600 50)
     \<lparr> sa_index = default_index, sa_removed_hashes = {}, sa_removed_keys = [], sa_operations = [] \<rparr>))"

lemma total_empty [simp]: "total_bytes Map.empty = 0"
  by (simp add: total_bytes_def)

lemma total_single [simp]: "total_bytes [k \<mapsto> e] = ie_body_size_bytes e"
  by (simp add: total_bytes_def)

lemma sample_runtime_empty: "ix_entries default_index = Map.empty" "zr_index sample_runtime = default_index"
  by (simp_all add: sample_runtime_def default_index_def)

lemma sample_fits: "ie_body_size_bytes (sample_entry h 600 t) \<le> u64_max"
  by (simp add: sample_entry_def u64_max_def)

lemma sample_two_wf: "index_wf sample_two" and sample_two_entries:
  "ix_entries sample_two = [''old'' \<mapsto> sample_entry ''h1'' 600 50, ''new'' \<mapsto> sample_entry ''h2'' 600 70]"
proof -
  let ?a0 = "\<lparr> sa_index = default_index, sa_removed_hashes = {}, sa_removed_keys = [], sa_operations = [] \<rparr>"
  have e0: "ix_entries default_index = Map.empty" by (simp add: default_index_def)
  have "index_wf (sa_index ?a0)" by (simp add: default_index_wf)
  from insert_for_store_wf [OF this, of "''old''" "sample_entry ''h1'' 600 50"]
  have a1: "index_wf (sa_index (insert_for_store ''old'' (sample_entry ''h1'' 600 50) ?a0))"
    and e1: "ix_entries (sa_index (insert_for_store ''old'' (sample_entry ''h1'' 600 50) ?a0)) = [''old'' \<mapsto> sample_entry ''h1'' 600 50]"
    using sample_fits by (simp_all add: e0)
  have "([''old'' \<mapsto> sample_entry ''h1'' 600 50])(''new'' := None) = [''old'' \<mapsto> sample_entry ''h1'' 600 50]" by auto
  then have "total_bytes ((ix_entries (sa_index (insert_for_store ''old'' (sample_entry ''h1'' 600 50) ?a0)))(''new'' := None))
      + ie_body_size_bytes (sample_entry ''h2'' 600 70) \<le> u64_max"
    by (simp add: e1) (simp add: sample_entry_def u64_max_def)
  from insert_for_store_wf [OF a1 this] e1
  show "index_wf sample_two" "ix_entries sample_two = [''old'' \<mapsto> sample_entry ''h1'' 600 50, ''new'' \<mapsto> sample_entry ''h2'' 600 70]"
    by (simp_all add: sample_two_def)
qed

lemma sample_two_current: "schedule_current Map.empty sample_two"
  by (simp add: schedule_current_def sample_two_def insert_for_store_def insert_entry_def schedule_entry_access_def
      unschedule_entry_access_def default_index_def insort_insert_key_def Let_def sample_entry_def less_eq_prod_def
      effective_last_access_unix_ms_def)

section \<open>The properties\<close>

text \<open>
  C23. In every zone reached from an empty one by any interleaving of stores,
  removals, admissions, cleanup batches, purges, invalidations and accesses, the
  reference counts, variants, schedule and size describe the entries, the entries
  fit the configured size, and a file counts as referenced, so that it is not
  deleted, exactly if an entry names it.
\<close>

theorem reachable_zone_consistent:
  assumes "zone_run z ops z'" and "zr_index z = default_index"
  shows "index_wf (zr_index z') \<and>
     (\<forall>m. cz_max_size_bytes (zr_config z') = Some m \<longrightarrow> total_bytes (ix_entries (zr_index z')) \<le> m) \<and>
     (\<forall>h. hash_is_referenced (zr_index z') h \<longleftrightarrow> (\<exists>k e. ix_entries (zr_index z') k = Some e \<and> ie_hash e = h))"
proof -
  have "zone_ok z" using assms(2) default_index_wf by (simp add: zone_ok_def default_index_def total_bytes_def)
  then have ok: "zone_ok z'" by (rule zone_run_ok [OF assms(1)])
  then have "refs_ok (ix_hash_ref_counts (zr_index z')) (ix_entries (zr_index z'))"
    by (simp add: zone_ok_def index_wf_def index_core_def)
  with ok show ?thesis by (simp add: zone_ok_def hash_is_referenced_iff)
qed

theorem reachable_zone_consistent_witness:
  "\<exists>z'. zone_run sample_runtime (fst (snd (update_index_after_store sample_runtime ''k'' (sample_entry ''h'' 600 50) None))) z' \<and>
     ix_entries (zr_index z') ''k'' = Some (sample_entry ''h'' 600 50) \<and> hash_is_referenced (zr_index z') ''h''"
proof -
  let ?e = "sample_entry ''h'' 600 50"
  obtain hashes ops z' where u: "update_index_after_store sample_runtime ''k'' ?e None = (hashes, ops, z')" by (cases "update_index_after_store sample_runtime ''k'' ?e None") auto
  have fits: "total_bytes ((ix_entries (zr_index sample_runtime))(''k'' := None)) + ie_body_size_bytes ?e \<le> u64_max"
    using sample_fits by (simp add: sample_runtime_empty)
  have run: "zone_run sample_runtime ([] @ ops) z'" by (rule zone_run.step [OF zone_run.start zone_step.store [OF u fits]])
  have "ix_entries (zr_index z') ''k'' = Some ?e"
    using u store_in_index_entries [OF _ fits, of None] default_index_wf
    by (auto simp: update_index_after_store_def sample_runtime_empty sample_runtime_def sample_zone_def sample_entry_def split: prod.splits)
  moreover have "ie_hash ?e = ''h''" by (simp add: sample_entry_def)
  moreover have "hash_is_referenced (zr_index z') ''h''"
    using calculation reachable_zone_consistent [OF run sample_runtime_empty(2)] by blast
  ultimately show ?thesis using run u by auto
qed

text \<open>
  Storing an entry that fits the size limit puts it in the index and drops
  exactly the entry it replaces and the entries of the same base key that vary on
  other headers; every other entry stays as it was.
\<close>

theorem store_replaces_only_superseded:
  assumes "index_wf (zr_index z)"
    and "total_bytes ((ix_entries (zr_index z))(k := None)) + ie_body_size_bytes e \<le> u64_max"
    and "\<forall>m. cz_max_size_bytes (zr_config z) = Some m \<longrightarrow> total_bytes ((ix_entries (zr_index z))(k \<mapsto> e)) \<le> m"
    and "update_index_after_store z k e replaced = (hashes, ops, z')"
  shows "ix_entries (zr_index z') k' =
     (if k' = k then Some e else case ix_entries (zr_index z) k' of None \<Rightarrow> None
      | Some x \<Rightarrow> if superseded replaced e k' x then None else Some x)"
proof -
  obtain acc n where s: "store_in_index z k e replaced = (acc, n)" by force
  with assms(4) have "zr_index z' = sa_index acc" by (auto simp: update_index_after_store_def)
  with store_in_index_entries [OF assms(1-3) s] show ?thesis by (simp only:)
qed

theorem store_replaces_only_superseded_witness:
  "ix_entries (zr_index (snd (snd (update_index_after_store sample_runtime ''k'' (sample_entry ''h'' 600 50) None)))) ''k''
     = Some (sample_entry ''h'' 600 50)"
proof -
  let ?e = "sample_entry ''h'' 600 50"
  obtain hashes ops z' where u: "update_index_after_store sample_runtime ''k'' ?e None = (hashes, ops, z')" by (cases "update_index_after_store sample_runtime ''k'' ?e None") auto
  have "ix_entries (zr_index z') ''k'' = Some ?e"
    by (subst store_replaces_only_superseded [OF _ _ _ u])
      (simp_all add: sample_runtime_empty default_index_wf sample_fits,
        simp add: sample_runtime_def sample_zone_def sample_entry_def)
  with u show ?thesis by simp
qed

text \<open>
  Eviction brings the entries within the limit, keeps every entry it does not
  list, never evicts an entry used later than one it keeps, and would be over the
  limit without its last eviction.
\<close>

theorem eviction_is_least_recently_used:
  assumes "index_wf ix" and "schedule_current hot ix" and "eviction_candidates hot ix (Some m) = (evicted, ix')"
  shows "total_bytes (ix_entries ix') \<le> m \<and> ix_entries ix' = ix_entries ix |` (- fst ` set evicted) \<and>
     (\<forall>(k, e) \<in> set evicted. ix_entries ix k = Some e \<and>
        (\<forall>k' e'. ix_entries ix' k' = Some e' \<longrightarrow>
           effective_last_access_unix_ms hot k e \<le> effective_last_access_unix_ms hot k' e')) \<and>
     (evicted \<noteq> [] \<longrightarrow> m < total_bytes (ix_entries ix') + ie_body_size_bytes (snd (last evicted)))"
proof -
  have core: "index_core ix" using assms(1) by (simp add: index_wf_def)
  note c = eviction_candidates_ok [OF core assms(3)]
  have cur: "schedule_current hot ix'" by (rule eviction_candidates_current [OF assms(2,3)])
  have "\<forall>(k, e) \<in> set evicted. ix_entries ix k = Some e"
    and "ix_entries ix' = ix_entries ix |` (- fst ` set evicted)" using c(1) unfolding evicting_def by blast+
  with c(2) evicting_lru [OF c(1) cur] eviction_candidates_minimal [OF core assms(3)] show ?thesis by blast
qed

theorem eviction_is_least_recently_used_witness:
  "total_bytes (ix_entries (snd (eviction_candidates Map.empty sample_two (Some 1000)))) \<le> 1000"
  using eviction_is_least_recently_used [OF sample_two_wf sample_two_current prod.collapse [symmetric]] by blast

text \<open>
  A cleanup that is due terminates and removes exactly the entries that were
  not used for longer than the zone's inactivity time.
\<close>

theorem inactive_cleanup_exact:
  assumes "index_wf (zr_index z)" and "schedule_current (zr_hot_entries z) (zr_index z)"
    and "zr_last_inactive_cleanup_unix_ms z = 0 \<or>
       duration_to_ms (cz_inactive_cleanup_interval (zr_config z)) \<le> now - zr_last_inactive_cleanup_unix_ms z"
    and "cleanup_inactive_entries_in_zone z now = (removed, ops, z')"
  shows "index_wf (zr_index z') \<and>
     (ix_entries (zr_index z') k = Some e \<longleftrightarrow> ix_entries (zr_index z) k = Some e \<and>
        now - effective_last_access_unix_ms (zr_hot_entries z) k e \<le> duration_to_ms (cz_inactive (zr_config z)))"
proof -
  let ?z = "z\<lparr> zr_last_inactive_cleanup_unix_ms := now \<rparr>" and ?ms = "duration_to_ms (cz_inactive (zr_config z))"
  obtain r o1 z1 where run: "cleanup_batches ?z now = (r, o1, z1)" by (cases "cleanup_batches ?z now") auto
  have z': "zr_index z' = zr_index z1" using assms(3,4) run
    by (auto simp: cleanup_inactive_entries_in_zone_def record_inactive_cleanup_def Let_def split: if_splits)
  note ok = cleanup_batches_ok [OF _ run, simplified, OF assms(1)]
  have t: "zone_trimmed ?z r z1" using ok by blast
  then have wf: "index_wf (zr_index z1)" by (simp add: zone_trimmed_def)
  have cur: "schedule_current (zr_hot_entries z1) (zr_index z1)" using ok assms(2) by blast
  have old: "case oldest_scheduled_access_unix_ms (zr_index z1) of None \<Rightarrow> True | Some t \<Rightarrow> now - ?ms \<le> t"
    using ok by (simp split: option.splits)
  have core: "index_core (zr_index z1)" using wf by (simp add: index_wf_def)
  have "\<not> idle (zr_hot_entries z) now ?ms k e" if "ix_entries (zr_index z1) k = Some e" for k e
    using oldest_bounds_entries [OF core cur that old] trimmed_effective [OF t that, of e] by simp
  then have "ix_entries (zr_index z1) k = Some e \<longleftrightarrow> ix_entries (zr_index ?z) k = Some e \<and> \<not> idle (zr_hot_entries z) now ?ms k e"
    using ok by (intro zone_trimmed_exact [OF t]) auto
  moreover have "\<not> idle (zr_hot_entries z) now ?ms k e \<longleftrightarrow> now - effective_last_access_unix_ms (zr_hot_entries z) k e \<le> ?ms" by auto
  ultimately show ?thesis using wf z' by simp
qed

theorem inactive_cleanup_exact_witness:
  "ix_entries (zr_index (snd (snd (cleanup_inactive_entries_in_zone (sample_runtime\<lparr> zr_index := sample_two \<rparr>) 60)))) ''new''
     = Some (sample_entry ''h2'' 600 70) \<and>
   ix_entries (zr_index (snd (snd (cleanup_inactive_entries_in_zone (sample_runtime\<lparr> zr_index := sample_two \<rparr>) 60)))) ''old'' \<noteq>
     Some (sample_entry ''h1'' 600 50)"
proof -
  let ?z = "sample_runtime\<lparr> zr_index := sample_two \<rparr>"
  obtain removed ops z' where c: "cleanup_inactive_entries_in_zone ?z 60 = (removed, ops, z')"
    by (cases "cleanup_inactive_entries_in_zone ?z 60") auto
  have hot: "zr_hot_entries ?z = Map.empty" "zr_last_inactive_cleanup_unix_ms ?z = 0" by (simp_all add: sample_runtime_def)
  have "ix_entries (zr_index z') k = Some e \<longleftrightarrow> ix_entries sample_two k = Some e \<and>
      60 - effective_last_access_unix_ms Map.empty k e \<le> duration_to_ms (cz_inactive sample_zone)" for k e
    using inactive_cleanup_exact [OF _ _ _ c, of k e] sample_two_wf sample_two_current hot by (simp add: sample_runtime_def)
  then show ?thesis
    by (simp add: c sample_two_entries effective_last_access_unix_ms_def duration_to_ms_def sample_zone_def as_millis_def)
      (simp add: sample_entry_def)
qed

end
