(* ===== verification/Cache_Document.thy ===== *)
theory Cache_Document
  imports Cache_Zone Shared_Memory
begin

text \<open>
  The document that all workers of a cache zone share
  (\<open>crates/rginx-http/src/cache/shared/index_file/memory_backend.rs\<close> with
  \<open>memory_backend/document.rs\<close>, \<open>memory_backend/changes.rs\<close> and \<open>codec.rs\<close>): the
  entries of the index, admission counts, invalidations, the ring of recent changes
  and the fill locks, kept as JSON in a shared memory segment and read and
  written whole under a file lock.

  \<open>serde_json\<close> and the header name parser are the record \<open>shared_json\<close>, the
  outcome of the file lock is an argument; every store operation is one step.  A
  \<open>BTreeMap\<close> is an association list sorted by key.
\<close>

section \<open>Records\<close>

record shared_vary_header =
  svh_name :: string
  svh_value :: "string option"

record shared_index_entry_record =
  sr_kind :: cache_index_entry_kind
  sr_hash :: string
  sr_base_key :: string
  sr_stored_at_unix_ms :: nat
  sr_vary :: "shared_vary_header list"
  sr_tags :: "string list"
  sr_body_size_bytes :: nat
  sr_expires_at_unix_ms :: nat
  sr_grace_until_unix_ms :: "nat option"
  sr_keep_until_unix_ms :: "nat option"
  sr_stale_if_error_until_unix_ms :: "nat option"
  sr_stale_while_revalidate_until_unix_ms :: "nat option"
  sr_requires_revalidation :: "bool option"
  sr_must_revalidate :: bool
  sr_last_access_unix_ms :: nat

record shared_memory_change_record =
  ch_seq :: nat
  ch_generation :: nat
  ch_op_kind :: nat
  ch_key :: string
  ch_entry_json :: "string option"
  ch_uses :: "nat option"
  ch_last_access_unix_ms :: "nat option"

record shared_memory_fill_lock_record =
  fl_key_hash :: string
  fl_owner_pid :: nat
  fl_owner_generation :: nat
  fl_nonce :: string
  fl_acquired_at_unix_ms :: nat
  fl_updated_at_unix_ms :: nat
  fl_released :: bool
  fl_state_json :: string

type_synonym 'v btree_map = "(string \<times> 'v) list"

record shared_memory_index_document =
  dc_version :: nat
  dc_generation :: nat
  dc_store_epoch :: nat
  dc_last_change_seq :: nat
  dc_rebuild_total :: nat
  dc_stale_fill_lock_cleanup_total :: nat
  dc_entries :: "string btree_map"
  dc_admission_counts :: "nat btree_map"
  dc_invalidations :: "string list"
  dc_fill_locks :: "shared_memory_fill_lock_record btree_map"
  dc_changes :: "shared_memory_change_record list"

record shared_json =
  sj_entry :: "shared_index_entry_record \<Rightarrow> string option"
  sj_entry_of :: "string \<Rightarrow> shared_index_entry_record option"
  sj_rule :: "cache_invalidation_rule \<Rightarrow> string option"
  sj_rule_of :: "string \<Rightarrow> cache_invalidation_rule option"
  sj_document :: "shared_memory_index_document \<Rightarrow> string option"
  sj_document_of :: "string \<Rightarrow> shared_memory_index_document option"
  sj_header_name :: "string \<Rightarrow> string option"

fun bt_insert :: "string \<Rightarrow> 'v \<Rightarrow> 'v btree_map \<Rightarrow> 'v btree_map" where
  "bt_insert k v [] = [(k, v)]"
| "bt_insert k v ((k', v') # m) =
     (if k < k' then (k, v) # (k', v') # m
      else if k = k' then (k, v) # m
      else (k', v') # bt_insert k v m)"

definition bt_remove :: "string \<Rightarrow> 'v btree_map \<Rightarrow> 'v btree_map" where
  "bt_remove k m = filter (\<lambda>(k', _). k' \<noteq> k) m"

definition empty_document :: "nat \<Rightarrow> shared_memory_index_document" where
  "empty_document store_epoch =
     \<lparr> dc_version = 1, dc_generation = 0, dc_store_epoch = store_epoch, dc_last_change_seq = 0, dc_rebuild_total = 0,
       dc_stale_fill_lock_cleanup_total = 0, dc_entries = [], dc_admission_counts = [], dc_invalidations = [],
       dc_fill_locks = [], dc_changes = [] \<rparr>"

section \<open>The codec\<close>

definition invalid_data :: "'a option \<Rightarrow> io_error + 'a" where
  "invalid_data x = (case x of None \<Rightarrow> Inl IoInvalidData | Some v \<Rightarrow> Inr v)"

fun collect_results :: "(io_error + 'a) list \<Rightarrow> io_error + 'a list" where
  "collect_results [] = Inr []"
| "collect_results (r # rs) = bind_res r (\<lambda>x. bind_res (collect_results rs) (\<lambda>xs. Inr (x # xs)))"

definition record_of_entry :: "cache_index_entry \<Rightarrow> shared_index_entry_record" where
  "record_of_entry e =
     \<lparr> sr_kind = ie_kind e, sr_hash = ie_hash e, sr_base_key = ie_base_key e,
       sr_stored_at_unix_ms = ie_stored_at_unix_ms e,
       sr_vary = map (\<lambda>h. \<lparr> svh_name = vh_name h, svh_value = vh_value h \<rparr>) (ie_vary e),
       sr_tags = ie_tags e, sr_body_size_bytes = ie_body_size_bytes e, sr_expires_at_unix_ms = ie_expires_at_unix_ms e,
       sr_grace_until_unix_ms = ie_grace_until_unix_ms e, sr_keep_until_unix_ms = ie_keep_until_unix_ms e,
       sr_stale_if_error_until_unix_ms = ie_stale_if_error_until_unix_ms e,
       sr_stale_while_revalidate_until_unix_ms = ie_stale_while_revalidate_until_unix_ms e,
       sr_requires_revalidation = Some (ie_requires_revalidation e), sr_must_revalidate = ie_must_revalidate e,
       sr_last_access_unix_ms = ie_last_access_unix_ms e \<rparr>"

definition serialize_entry_record :: "shared_json \<Rightarrow> cache_index_entry \<Rightarrow> io_error + string" where
  "serialize_entry_record json e = invalid_data (sj_entry json (record_of_entry e))"

definition cache_index_entry_from_record :: "shared_json \<Rightarrow> shared_index_entry_record \<Rightarrow> io_error + cache_index_entry" where
  "cache_index_entry_from_record json r =
     bind_res (collect_results (map (\<lambda>h. bind_res (invalid_data (sj_header_name json (svh_name h)))
        (\<lambda>name. Inr \<lparr> vh_name = name, vh_value = svh_value h \<rparr>)) (sr_vary r))) (\<lambda>vary.
     Inr \<lparr> ie_kind = sr_kind r, ie_hash = sr_hash r, ie_base_key = sr_base_key r,
           ie_stored_at_unix_ms = sr_stored_at_unix_ms r, ie_vary = vary, ie_tags = sr_tags r,
           ie_body_size_bytes = sr_body_size_bytes r, ie_expires_at_unix_ms = sr_expires_at_unix_ms r,
           ie_grace_until_unix_ms = sr_grace_until_unix_ms r, ie_keep_until_unix_ms = sr_keep_until_unix_ms r,
           ie_stale_if_error_until_unix_ms = sr_stale_if_error_until_unix_ms r,
           ie_stale_while_revalidate_until_unix_ms = sr_stale_while_revalidate_until_unix_ms r,
           ie_requires_revalidation = (case sr_requires_revalidation r of Some b \<Rightarrow> b | None \<Rightarrow> sr_must_revalidate r),
           ie_must_revalidate = sr_must_revalidate r, ie_last_access_unix_ms = sr_last_access_unix_ms r \<rparr>)"

definition deserialize_entry_record :: "shared_json \<Rightarrow> string \<Rightarrow> io_error + cache_index_entry" where
  "deserialize_entry_record json entry_json =
     bind_res (invalid_data (sj_entry_of json entry_json)) (cache_index_entry_from_record json)"

definition serialize_invalidation_rule :: "shared_json \<Rightarrow> cache_invalidation_rule \<Rightarrow> io_error + string" where
  "serialize_invalidation_rule json rule = invalid_data (sj_rule json rule)"

definition deserialize_invalidation_rule :: "shared_json \<Rightarrow> string \<Rightarrow> io_error + cache_invalidation_rule" where
  "deserialize_invalidation_rule json bytes = invalid_data (sj_rule_of json bytes)"

section \<open>Changes\<close>

fun apply_operation_to_document ::
    "shared_json \<Rightarrow> shared_memory_index_document \<Rightarrow> shared_index_operation \<Rightarrow> io_error + shared_memory_index_document" where
  "apply_operation_to_document json doc (UpsertEntry key entry) =
     bind_res (serialize_entry_record json entry) (\<lambda>bytes. Inr (doc\<lparr> dc_entries := bt_insert key bytes (dc_entries doc) \<rparr>))"
| "apply_operation_to_document json doc (RemoveEntry key) = Inr (doc\<lparr> dc_entries := bt_remove key (dc_entries doc) \<rparr>)"
| "apply_operation_to_document json doc (TouchEntry key last_access) =
     (case map_of (dc_entries doc) key of
        None \<Rightarrow> Inr doc
      | Some entry_json \<Rightarrow>
          bind_res (deserialize_entry_record json entry_json) (\<lambda>entry.
            if ie_last_access_unix_ms entry < last_access
            then bind_res (serialize_entry_record json (entry\<lparr> ie_last_access_unix_ms := last_access \<rparr>))
              (\<lambda>bytes. Inr (doc\<lparr> dc_entries := bt_insert key bytes (dc_entries doc) \<rparr>))
            else Inr doc))"
| "apply_operation_to_document json doc (SetAdmissionCount key uses) =
     Inr (doc\<lparr> dc_admission_counts := bt_insert key uses (dc_admission_counts doc) \<rparr>)"
| "apply_operation_to_document json doc (RemoveAdmissionCount key) =
     Inr (doc\<lparr> dc_admission_counts := bt_remove key (dc_admission_counts doc) \<rparr>)"
| "apply_operation_to_document json doc (AddInvalidation rule) =
     bind_res (serialize_invalidation_rule json rule) (\<lambda>bytes. Inr (doc\<lparr> dc_invalidations := dc_invalidations doc @ [bytes] \<rparr>))"
| "apply_operation_to_document json doc ClearInvalidations = Inr (doc\<lparr> dc_invalidations := [] \<rparr>)"

definition CHANGE_OP_UPSERT_ENTRY :: nat where "CHANGE_OP_UPSERT_ENTRY = 1"
definition CHANGE_OP_REMOVE_ENTRY :: nat where "CHANGE_OP_REMOVE_ENTRY = 2"
definition CHANGE_OP_SET_ADMISSION_COUNT :: nat where "CHANGE_OP_SET_ADMISSION_COUNT = 3"
definition CHANGE_OP_REMOVE_ADMISSION_COUNT :: nat where "CHANGE_OP_REMOVE_ADMISSION_COUNT = 4"
definition CHANGE_OP_ADD_INVALIDATION :: nat where "CHANGE_OP_ADD_INVALIDATION = 5"
definition CHANGE_OP_CLEAR_INVALIDATIONS :: nat where "CHANGE_OP_CLEAR_INVALIDATIONS = 6"
definition CHANGE_OP_TOUCH_ENTRY :: nat where "CHANGE_OP_TOUCH_ENTRY = 7"

lemmas change_op_defs = CHANGE_OP_UPSERT_ENTRY_def CHANGE_OP_REMOVE_ENTRY_def CHANGE_OP_SET_ADMISSION_COUNT_def
  CHANGE_OP_REMOVE_ADMISSION_COUNT_def CHANGE_OP_ADD_INVALIDATION_def CHANGE_OP_CLEAR_INVALIDATIONS_def CHANGE_OP_TOUCH_ENTRY_def

fun change_record_from_operation ::
    "shared_json \<Rightarrow> nat \<Rightarrow> nat \<Rightarrow> shared_index_operation \<Rightarrow> io_error + shared_memory_change_record" where
  "change_record_from_operation json seq gen (UpsertEntry key entry) =
     bind_res (serialize_entry_record json entry) (\<lambda>bytes.
       Inr \<lparr> ch_seq = seq, ch_generation = gen, ch_op_kind = CHANGE_OP_UPSERT_ENTRY, ch_key = key,
             ch_entry_json = Some bytes, ch_uses = None, ch_last_access_unix_ms = None \<rparr>)"
| "change_record_from_operation json seq gen (RemoveEntry key) =
     Inr \<lparr> ch_seq = seq, ch_generation = gen, ch_op_kind = CHANGE_OP_REMOVE_ENTRY, ch_key = key,
           ch_entry_json = None, ch_uses = None, ch_last_access_unix_ms = None \<rparr>"
| "change_record_from_operation json seq gen (TouchEntry key last_access) =
     Inr \<lparr> ch_seq = seq, ch_generation = gen, ch_op_kind = CHANGE_OP_TOUCH_ENTRY, ch_key = key,
           ch_entry_json = None, ch_uses = None, ch_last_access_unix_ms = Some last_access \<rparr>"
| "change_record_from_operation json seq gen (SetAdmissionCount key uses) =
     Inr \<lparr> ch_seq = seq, ch_generation = gen, ch_op_kind = CHANGE_OP_SET_ADMISSION_COUNT, ch_key = key,
           ch_entry_json = None, ch_uses = Some uses, ch_last_access_unix_ms = None \<rparr>"
| "change_record_from_operation json seq gen (RemoveAdmissionCount key) =
     Inr \<lparr> ch_seq = seq, ch_generation = gen, ch_op_kind = CHANGE_OP_REMOVE_ADMISSION_COUNT, ch_key = key,
           ch_entry_json = None, ch_uses = None, ch_last_access_unix_ms = None \<rparr>"
| "change_record_from_operation json seq gen (AddInvalidation rule) =
     bind_res (serialize_invalidation_rule json rule) (\<lambda>bytes.
       Inr \<lparr> ch_seq = seq, ch_generation = gen, ch_op_kind = CHANGE_OP_ADD_INVALIDATION, ch_key = [],
             ch_entry_json = Some bytes, ch_uses = None, ch_last_access_unix_ms = None \<rparr>)"
| "change_record_from_operation json seq gen ClearInvalidations =
     Inr \<lparr> ch_seq = seq, ch_generation = gen, ch_op_kind = CHANGE_OP_CLEAR_INVALIDATIONS, ch_key = [],
           ch_entry_json = None, ch_uses = None, ch_last_access_unix_ms = None \<rparr>"

definition operation_from_change_record ::
    "shared_json \<Rightarrow> shared_memory_change_record \<Rightarrow> io_error + shared_index_operation" where
  "operation_from_change_record json r =
     (if ch_op_kind r = CHANGE_OP_UPSERT_ENTRY then
        bind_res (invalid_data (ch_entry_json r)) (\<lambda>bytes.
        bind_res (deserialize_entry_record json bytes) (\<lambda>entry. Inr (UpsertEntry (ch_key r) entry)))
      else if ch_op_kind r = CHANGE_OP_REMOVE_ENTRY then Inr (RemoveEntry (ch_key r))
      else if ch_op_kind r = CHANGE_OP_TOUCH_ENTRY then
        bind_res (invalid_data (ch_last_access_unix_ms r)) (\<lambda>t. Inr (TouchEntry (ch_key r) t))
      else if ch_op_kind r = CHANGE_OP_SET_ADMISSION_COUNT then
        bind_res (invalid_data (ch_uses r)) (\<lambda>uses. Inr (SetAdmissionCount (ch_key r) uses))
      else if ch_op_kind r = CHANGE_OP_REMOVE_ADMISSION_COUNT then Inr (RemoveAdmissionCount (ch_key r))
      else if ch_op_kind r = CHANGE_OP_ADD_INVALIDATION then
        bind_res (invalid_data (ch_entry_json r)) (\<lambda>bytes.
        bind_res (deserialize_invalidation_rule json bytes) (\<lambda>rule. Inr (AddInvalidation rule)))
      else if ch_op_kind r = CHANGE_OP_CLEAR_INVALIDATIONS then Inr ClearInvalidations
      else Inl IoInvalidData)"

definition operations_since ::
    "shared_json \<Rightarrow> shared_memory_index_document \<Rightarrow> nat \<Rightarrow> io_error + shared_index_operation list" where
  "operations_since json doc after_seq =
     (case dc_changes doc of
        [] \<Rightarrow> Inr []
      | first_change # _ \<Rightarrow>
          if after_seq < ch_seq first_change - 1 then Inr []
          else collect_results (map (operation_from_change_record json)
                 (filter (\<lambda>change. after_seq < ch_seq change) (dc_changes doc))))"

definition trim_change_ring :: "shared_memory_index_document \<Rightarrow> nat \<Rightarrow> shared_memory_index_document" where
  "trim_change_ring doc ring_capacity =
     (if ring_capacity = 0 then doc\<lparr> dc_changes := [] \<rparr>
      else if ring_capacity < length (dc_changes doc)
      then doc\<lparr> dc_changes := drop (length (dc_changes doc) - ring_capacity) (dc_changes doc) \<rparr>
      else doc)"

section \<open>Operations on the document\<close>

definition publish_operation ::
    "shared_json \<Rightarrow> shared_memory_index_document \<Rightarrow> shared_index_operation \<Rightarrow> io_error + shared_memory_index_document" where
  "publish_operation json doc op =
     bind_res (apply_operation_to_document json doc op) (\<lambda>doc1.
       let seq = sat_add_u64 (dc_last_change_seq doc1) 1
       in bind_res (change_record_from_operation json seq (dc_generation doc1) op) (\<lambda>change.
            Inr (doc1\<lparr> dc_last_change_seq := seq, dc_changes := dc_changes doc1 @ [change] \<rparr>)))"

fun publish_operations ::
    "shared_json \<Rightarrow> shared_memory_index_document \<Rightarrow> shared_index_operation list \<Rightarrow> io_error + shared_memory_index_document" where
  "publish_operations json doc [] = Inr doc"
| "publish_operations json doc (op # ops) =
     bind_res (publish_operation json doc op) (\<lambda>doc1. publish_operations json doc1 ops)"

record applied_operations =
  ap_generation :: nat
  ap_store_epoch :: nat
  ap_last_change_seq :: nat

definition applied_of :: "shared_memory_index_document \<Rightarrow> applied_operations" where
  "applied_of doc = \<lparr> ap_generation = dc_generation doc, ap_store_epoch = dc_store_epoch doc, ap_last_change_seq = dc_last_change_seq doc \<rparr>"

text \<open>A document operation returns its result and the document to write, if it writes one.\<close>

definition apply_operations ::
    "shared_json \<Rightarrow> nat \<Rightarrow> shared_index_operation list \<Rightarrow> shared_memory_index_document \<Rightarrow>
     io_error + applied_operations \<times> shared_memory_index_document option" where
  "apply_operations json ring_capacity ops doc =
     (if ops = [] then Inr (applied_of doc, None)
      else bind_res (publish_operations json (doc\<lparr> dc_generation := sat_add_u64 (dc_generation doc) 1 \<rparr>) ops) (\<lambda>doc1.
        let doc2 = trim_change_ring doc1 ring_capacity in Inr (applied_of doc2, Some doc2)))"

record loaded_index =
  ld_index :: cache_index
  ld_generation :: nat
  ld_store_epoch :: nat
  ld_last_change_seq :: nat

definition load_entry :: "cache_index \<Rightarrow> string \<Rightarrow> cache_index_entry \<Rightarrow> cache_index" where
  "load_entry ix key entry =
     (case insert_entry ix key entry of (existing, ix0) \<Rightarrow>
        let ix1 = (case existing of
              None \<Rightarrow> ix0
            | Some e \<Rightarrow> ix0\<lparr> ix_current_size_bytes := ix_current_size_bytes ix0 - ie_body_size_bytes e,
                            ix_variants := remove_variant_key (ix_variants ix0) (ie_base_key e) key \<rparr>)
        in ix1\<lparr> ix_current_size_bytes := sat_add_u64 (ix_current_size_bytes ix1) (ie_body_size_bytes entry),
                ix_variants := add_variant_key (ix_variants ix1) (ie_base_key entry) key \<rparr>)"

fun load_entries :: "shared_json \<Rightarrow> cache_index \<Rightarrow> string btree_map \<Rightarrow> io_error + cache_index" where
  "load_entries json ix [] = Inr ix"
| "load_entries json ix ((key, entry_json) # m) =
     bind_res (deserialize_entry_record json entry_json) (\<lambda>entry. load_entries json (load_entry ix key entry) m)"

definition loaded_index_from_document :: "shared_json \<Rightarrow> shared_memory_index_document \<Rightarrow> io_error + loaded_index" where
  "loaded_index_from_document json doc =
     bind_res (load_entries json default_index (dc_entries doc)) (\<lambda>ix.
     bind_res (collect_results (map (deserialize_invalidation_rule json) (dc_invalidations doc))) (\<lambda>rules.
     Inr \<lparr> ld_index = ix\<lparr> ix_admission_counts := map_of (dc_admission_counts doc), ix_invalidations := rules \<rparr>,
           ld_generation = dc_generation doc, ld_store_epoch = dc_store_epoch doc,
           ld_last_change_seq = dc_last_change_seq doc \<rparr>))"

fun document_current_size_bytes_loop :: "shared_json \<Rightarrow> nat \<Rightarrow> string list \<Rightarrow> io_error + nat" where
  "document_current_size_bytes_loop json bytes [] = Inr bytes"
| "document_current_size_bytes_loop json bytes (entry_json # rest) =
     bind_res (deserialize_entry_record json entry_json) (\<lambda>entry.
       document_current_size_bytes_loop json (sat_add_u64 bytes (ie_body_size_bytes entry)) rest)"

definition document_current_size_bytes :: "shared_json \<Rightarrow> shared_memory_index_document \<Rightarrow> io_error + nat" where
  "document_current_size_bytes json doc = document_current_size_bytes_loop json 0 (map snd (dc_entries doc))"

section \<open>Fill locks of the document\<close>

datatype shared_fill_lock_acquire = LockAcquired | LockBusy
datatype shared_fill_lock_status = LockMissing | LockFresh | LockStale

definition try_acquire_fill_lock ::
    "(string \<Rightarrow> string) \<Rightarrow> nat \<Rightarrow> string \<Rightarrow> nat \<Rightarrow> nat \<Rightarrow> string \<Rightarrow> string \<Rightarrow> shared_memory_index_document \<Rightarrow>
     io_error + shared_fill_lock_acquire \<times> shared_memory_index_document option" where
  "try_acquire_fill_lock sha pid key now lock_age_ms nonce state_json doc =
     (let insert_lock = (\<lambda>d. d\<lparr> dc_fill_locks := bt_insert key
            \<lparr> fl_key_hash = cache_key_hash sha key, fl_owner_pid = pid, fl_owner_generation = dc_generation d,
              fl_nonce = nonce, fl_acquired_at_unix_ms = now, fl_updated_at_unix_ms = now, fl_released = False,
              fl_state_json = state_json \<rparr> (bt_remove key (dc_fill_locks d)) \<rparr>)
      in case map_of (dc_fill_locks doc) key of
           None \<Rightarrow> Inr (LockAcquired, Some (insert_lock doc))
         | Some r \<Rightarrow>
             if fl_released r then Inr (LockAcquired, Some (insert_lock doc))
             else if now - fl_updated_at_unix_ms r \<le> lock_age_ms then Inr (LockBusy, None)
             else Inr (LockAcquired, Some (insert_lock
               (doc\<lparr> dc_stale_fill_lock_cleanup_total := sat_add_u64 (dc_stale_fill_lock_cleanup_total doc) 1 \<rparr>))))"

definition load_fill_lock ::
    "string \<Rightarrow> shared_memory_index_document \<Rightarrow> io_error + (string \<times> string) option \<times> shared_memory_index_document option" where
  "load_fill_lock key doc = Inr (map_option (\<lambda>r. (fl_nonce r, fl_state_json r)) (map_of (dc_fill_locks doc) key), None)"

definition update_fill_lock ::
    "string \<Rightarrow> string \<Rightarrow> nat \<Rightarrow> string \<Rightarrow> shared_memory_index_document \<Rightarrow> io_error + unit \<times> shared_memory_index_document option" where
  "update_fill_lock key nonce updated_at state_json doc =
     (case map_of (dc_fill_locks doc) key of
        None \<Rightarrow> Inl IoNotFound
      | Some r \<Rightarrow>
          if fl_nonce r \<noteq> nonce then Inl IoNotFound
          else Inr ((), Some (doc\<lparr> dc_fill_locks := bt_insert key
                 (r\<lparr> fl_updated_at_unix_ms := updated_at, fl_state_json := state_json \<rparr>) (dc_fill_locks doc) \<rparr>)))"

definition release_fill_lock ::
    "string \<Rightarrow> string \<Rightarrow> shared_memory_index_document \<Rightarrow> io_error + unit \<times> shared_memory_index_document option" where
  "release_fill_lock key nonce doc =
     (case map_of (dc_fill_locks doc) key of
        None \<Rightarrow> Inr ((), None)
      | Some r \<Rightarrow>
          if fl_nonce r \<noteq> nonce then Inr ((), None)
          else Inr ((), Some (doc\<lparr> dc_fill_locks := bt_insert key (r\<lparr> fl_released := True \<rparr>) (dc_fill_locks doc) \<rparr>)))"

definition fill_lock_status ::
    "string \<Rightarrow> nat \<Rightarrow> nat \<Rightarrow> shared_memory_index_document \<Rightarrow>
     io_error + shared_fill_lock_status \<times> shared_memory_index_document option" where
  "fill_lock_status key now lock_age_ms doc =
     Inr (case map_of (dc_fill_locks doc) key of
        None \<Rightarrow> LockMissing
      | Some r \<Rightarrow>
          if fl_released r then LockMissing
          else if lock_age_ms < now - fl_updated_at_unix_ms r then LockStale
          else LockFresh, None)"

definition clear_stale_fill_lock ::
    "string \<Rightarrow> nat \<Rightarrow> nat \<Rightarrow> shared_memory_index_document \<Rightarrow> io_error + bool \<times> shared_memory_index_document option" where
  "clear_stale_fill_lock key now lock_age_ms doc =
     (let without = doc\<lparr> dc_fill_locks := bt_remove key (dc_fill_locks doc) \<rparr>
      in case map_of (dc_fill_locks doc) key of
           None \<Rightarrow> Inr (False, None)
         | Some r \<Rightarrow>
             if fl_released r then Inr (False, Some without)
             else if now - fl_updated_at_unix_ms r \<le> lock_age_ms then Inr (False, None)
             else Inr (True, Some (without\<lparr> dc_stale_fill_lock_cleanup_total :=
                    sat_add_u64 (dc_stale_fill_lock_cleanup_total doc) 1 \<rparr>)))"

section \<open>The document in the segment\<close>

definition PAYLOAD_LEN_BYTES :: nat where "PAYLOAD_LEN_BYTES = 8"

record memory_shared_index_store =
  ms_path :: path_buf
  ms_lock_path :: path_buf
  ms_segment_config :: segment_config
  ms_operation_ring_capacity :: nat

text \<open>\<open>Path::join\<close> with a relative path.\<close>

definition path_join :: "path_buf \<Rightarrow> string \<Rightarrow> path_buf" where
  "path_join base name = (if base = [] \<or> last base = CHR ''/'' then base @ name else base @ ''/'' @ name)"

text \<open>The values of the two environment variables are arguments.\<close>

definition memory_capacity_bytes :: "string option \<Rightarrow> nat" where
  "memory_capacity_bytes env_value =
     (case Option.bind env_value (parse_uint u64_max) of Some n \<Rightarrow> n | None \<Rightarrow> 16 * 1024 * 1024)"

definition memory_operation_ring_capacity :: "string option \<Rightarrow> nat" where
  "memory_operation_ring_capacity env_value =
     (case Option.bind env_value (parse_uint u64_max) of Some n \<Rightarrow> n | None \<Rightarrow> 4096)"

definition memory_store_new :: "string option \<Rightarrow> string option \<Rightarrow> cache_zone \<Rightarrow> memory_shared_index_store" where
  "memory_store_new env_bytes env_changes zone =
     (let ring = memory_operation_ring_capacity env_changes
      in \<lparr> ms_path = path_join (cz_path zone) ''.rginx-index.shm'',
           ms_lock_path = path_join (cz_path zone) ''.rginx-index.shm.lock'',
           ms_segment_config = with_operation_ring_capacity
             (segment_config_for_identity (cz_name zone @ '':'' @ cz_path zone) (memory_capacity_bytes env_bytes)) ring,
           ms_operation_ring_capacity = ring \<rparr>)"

definition header_store_epoch :: "shm_space \<Rightarrow> segment \<Rightarrow> nat" where
  "header_store_epoch space seg = (case header space seg of None \<Rightarrow> 0 | Some h \<Rightarrow> shm_store_epoch h)"

definition index_read_document :: "shared_json \<Rightarrow> shm_space \<Rightarrow> segment \<Rightarrow> io_error + shared_memory_index_document" where
  "index_read_document json space seg =
     (if payload_capacity seg < PAYLOAD_LEN_BYTES then Inl IoInvalidData
      else bind_res (read_payload space seg 0 PAYLOAD_LEN_BYTES) (\<lambda>len_bytes.
        let len = from_le len_bytes
        in if len = 0 then Inr (empty_document (header_store_epoch space seg))
           else if payload_capacity seg - PAYLOAD_LEN_BYTES < len then Inl IoInvalidData
           else bind_res (read_payload space seg PAYLOAD_LEN_BYTES len) (\<lambda>bytes.
             bind_res (invalid_data (sj_document_of json bytes)) (\<lambda>document.
               if dc_version document \<noteq> 1 then Inl IoInvalidData else Inr document))))"

definition index_write_document ::
    "shared_json \<Rightarrow> shm_space \<Rightarrow> segment \<Rightarrow> shared_memory_index_document \<Rightarrow> (io_error + unit) \<times> shm_space" where
  "index_write_document json space seg document =
     (case sj_document json document of
        None \<Rightarrow> (Inl IoInvalidData, space)
      | Some bytes \<Rightarrow>
          if payload_capacity seg - PAYLOAD_LEN_BYTES < length bytes then (Inl IoOutOfMemory, space)
          else if u64_max < length bytes then (Inl IoInvalidData, space)
          else (case write_payload space seg 0 (to_le 8 (length bytes)) of
                  (Inl e, space1) \<Rightarrow> (Inl e, space1)
                | (Inr _, space1) \<Rightarrow>
                    (case write_payload space1 seg PAYLOAD_LEN_BYTES bytes of
                       (Inl e, space2) \<Rightarrow> (Inl e, space2)
                     | (Inr _, space2) \<Rightarrow>
                         (case document_current_size_bytes json document of
                            Inl e \<Rightarrow> (Inl e, space2)
                          | Inr current_size \<Rightarrow>
                              (Inr (), case header space2 seg of
                                 None \<Rightarrow> space2
                               | Some h \<Rightarrow> write_header space2 seg
                                   (h\<lparr> shm_generation := dc_generation document, shm_store_epoch := dc_store_epoch document,
                                      shm_operation_seq := dc_last_change_seq document,
                                      shm_entry_count := length (dc_entries document),
                                      shm_current_size_bytes := current_size \<rparr>))))))"

definition index_create_segment ::
    "shared_json \<Rightarrow> segment_config \<Rightarrow> nat \<Rightarrow> shm_space \<Rightarrow> (io_error + segment) \<times> shm_space" where
  "index_create_segment json cfg unix_nanos space =
     (case create_or_reset cfg unix_nanos space of
        (Inl e, space1) \<Rightarrow> (Inl e, space1)
      | (Inr seg, space1) \<Rightarrow>
          (case index_write_document json space1 seg (empty_document (header_store_epoch space1 seg)) of
             (Inl e, space2) \<Rightarrow> (Inl e, space2)
           | (Inr _, space2) \<Rightarrow> (Inr seg, space2)))"

definition index_open_or_create_segment ::
    "shared_json \<Rightarrow> segment_config \<Rightarrow> nat \<Rightarrow> shm_space \<Rightarrow> (io_error + segment) \<times> shm_space" where
  "index_open_or_create_segment json cfg unix_nanos space =
     (case attach cfg space of
        Inr seg \<Rightarrow> (Inr seg, space)
      | Inl error \<Rightarrow>
          if error = IoNotFound then index_create_segment json cfg unix_nanos space
          else if error = IoInvalidData then index_create_segment json cfg unix_nanos (snd (unlink cfg space))
          else (Inl error, space))"

definition with_document_lock ::
    "shared_json \<Rightarrow> io_error + unit \<Rightarrow> memory_shared_index_store \<Rightarrow> nat \<Rightarrow>
     (shared_memory_index_document \<Rightarrow> io_error + 'a \<times> shared_memory_index_document option) \<Rightarrow> shm_space \<Rightarrow>
     (io_error + 'a) \<times> shm_space" where
  "with_document_lock json lock store unix_nanos operation space =
     (case lock of
        Inl e \<Rightarrow> (Inl e, space)
      | Inr _ \<Rightarrow>
          (case index_open_or_create_segment json (ms_segment_config store) unix_nanos space of
             (Inl e, space1) \<Rightarrow> (Inl e, space1)
           | (Inr seg, space1) \<Rightarrow>
               (case index_read_document json space1 seg of
                  Inl e \<Rightarrow> (Inl e, space1)
                | Inr document \<Rightarrow>
                    (case operation document of
                       Inl e \<Rightarrow> (Inl e, space1)
                     | Inr (result, None) \<Rightarrow> (Inr result, space1)
                     | Inr (result, Some document') \<Rightarrow>
                         (case index_write_document json space1 seg document' of
                            (Inl e, space2) \<Rightarrow> (Inl e, space2)
                          | (Inr _, space2) \<Rightarrow> (Inr result, space2))))))"

definition recreated_document ::
    "shared_json \<Rightarrow> cache_index \<Rightarrow> string list \<Rightarrow> string list \<Rightarrow> nat \<Rightarrow> nat \<Rightarrow> nat \<Rightarrow> io_error + shared_memory_index_document" where
  "recreated_document json ix entry_order count_order gen store_epoch previous_rebuild_total =
     bind_res (collect_results (map (\<lambda>key. bind_res (serialize_entry_record json (the (ix_entries ix key))) (\<lambda>bytes. Inr (key, bytes))) entry_order))
       (\<lambda>entries.
     bind_res (collect_results (map (serialize_invalidation_rule json) (ix_invalidations ix))) (\<lambda>rules.
     Inr ((empty_document store_epoch)\<lparr> dc_generation := gen, dc_rebuild_total := sat_add_u64 previous_rebuild_total 1,
        dc_entries := fold (\<lambda>(k, v) m. bt_insert k v m) entries [],
        dc_admission_counts := fold (\<lambda>k m. bt_insert k (the (ix_admission_counts ix k)) m) count_order [],
        dc_invalidations := rules \<rparr>)))"

definition recreate ::
    "shared_json \<Rightarrow> io_error + unit \<Rightarrow> memory_shared_index_store \<Rightarrow> nat \<Rightarrow> cache_index \<Rightarrow> string list \<Rightarrow> string list \<Rightarrow> nat \<Rightarrow>
     shm_space \<Rightarrow> (io_error + applied_operations) \<times> shm_space" where
  "recreate json lock store unix_nanos ix entry_order count_order gen space =
     (case lock of
        Inl e \<Rightarrow> (Inl e, space)
      | Inr _ \<Rightarrow>
          (case index_open_or_create_segment json (ms_segment_config store) unix_nanos space of
             (Inl e, space1) \<Rightarrow> (Inl e, space1)
           | (Inr seg, space1) \<Rightarrow>
               (case recreated_document json ix entry_order count_order gen (header_store_epoch space1 seg)
                       (case index_read_document json space1 seg of Inl _ \<Rightarrow> 0 | Inr d \<Rightarrow> dc_rebuild_total d) of
                  Inl e \<Rightarrow> (Inl e, space1)
                | Inr document \<Rightarrow>
                    (case index_write_document json space1 seg document of
                       (Inl e, space2) \<Rightarrow> (Inl e, space2)
                     | (Inr _, space2) \<Rightarrow> (Inr (applied_of document), space2)))))"

text \<open>The operations of the store.\<close>

definition store_load where
  "store_load json lock store t = with_document_lock json lock store t (\<lambda>doc. bind_res (loaded_index_from_document json doc) (\<lambda>l. Inr (l, None)))"

definition store_sync_state where
  "store_sync_state json lock store t = with_document_lock json lock store t (\<lambda>doc. Inr ((dc_generation doc, dc_store_epoch doc), None))"

record loaded_changes =
  lc_generation :: nat
  lc_store_epoch :: nat
  lc_last_change_seq :: nat
  lc_operations :: "shared_index_operation list"

definition changes_since :: "shared_json \<Rightarrow> nat \<Rightarrow> shared_memory_index_document \<Rightarrow> io_error + loaded_changes" where
  "changes_since json after_seq doc =
     bind_res (operations_since json doc after_seq) (\<lambda>ops.
       Inr \<lparr> lc_generation = dc_generation doc, lc_store_epoch = dc_store_epoch doc,
             lc_last_change_seq = dc_last_change_seq doc, lc_operations = ops \<rparr>)"

definition store_load_changes_since where
  "store_load_changes_since json lock store t after_seq =
     with_document_lock json lock store t (\<lambda>doc. bind_res (changes_since json after_seq doc) (\<lambda>c. Inr (c, None)))"

definition store_apply_operations where
  "store_apply_operations json lock store t ops =
     with_document_lock json lock store t (apply_operations json (ms_operation_ring_capacity store) ops)"

section \<open>Writing and reading back\<close>

lemma map_of_bt_insert [simp]: "map_of (bt_insert k v m) = (map_of m)(k \<mapsto> v)"
  by (induction k v m rule: bt_insert.induct) (auto simp: fun_eq_iff)

lemma map_of_bt_remove [simp]: "map_of (bt_remove k m) = (map_of m)(k := None)"
  by (induction m) (auto simp: bt_remove_def fun_eq_iff)

definition document_json_ok :: "shared_json \<Rightarrow> bool" where
  "document_json_ok json \<longleftrightarrow> (\<forall>d b. sj_document json d = Some b \<longrightarrow> b \<noteq> [] \<and> sj_document_of json b = Some d)"

definition index_stored :: "shared_json \<Rightarrow> segment_config \<Rightarrow> shm_space \<Rightarrow> shared_memory_index_document \<Rightarrow> bool" where
  "index_stored json cfg space document \<longleftrightarrow>
     (\<exists>seg. attach cfg space = Inr seg \<and> mapped space seg \<and> index_read_document json space seg = Inr document)"

lemma attach_write_header:
  assumes "header space seg = Some h" and "validate_header h' = validate_header h"
  shows "attach cfg (write_header space seg h') = attach cfg space"
proof -
  obtain obj where "space (seg_name seg) = Some obj" "so_header obj = h" using assms(1) by (auto simp: header_def)
  with assms(2) have "(case write_header space seg h' name of None \<Rightarrow> Inl IoNotFound
         | Some obj \<Rightarrow> if so_size obj \<noteq> sc_capacity_bytes cfg then Inl IoInvalidData
             else bind_res (validate_header (so_header obj) cfg) (\<lambda>_. Inr \<lparr> seg_name = name, seg_capacity_bytes = sc_capacity_bytes cfg \<rparr>)) =
      (case space name of None \<Rightarrow> Inl IoNotFound
         | Some obj \<Rightarrow> if so_size obj \<noteq> sc_capacity_bytes cfg then Inl IoInvalidData
             else bind_res (validate_header (so_header obj) cfg) (\<lambda>_. Inr \<lparr> seg_name = name, seg_capacity_bytes = sc_capacity_bytes cfg \<rparr>))" for name
    by (simp add: write_header_def)
  then show ?thesis by (simp add: attach_def)
qed

lemma write_header_payload:
  "payload_of (write_header space seg h) seg' = payload_of space seg'" "mapped (write_header space seg h) seg' = mapped space seg'"
  by (auto simp: write_header_def payload_of_def mapped_def split: option.splits)

lemma index_write_document_ok:
  assumes codec: "document_json_ok json" and m: "mapped space seg"
    and bytes: "sj_document json document = Some bytes" "length bytes + PAYLOAD_LEN_BYTES \<le> payload_capacity seg"
    and v: "dc_version document = 1" and size: "document_current_size_bytes json document = Inr n"
  obtains space' where "index_write_document json space seg document = (Inr (), space')" "mapped space' seg"
    "index_read_document json space' seg = Inr document" "\<And>cfg. attach cfg space' = attach cfg space"
proof -
  from bytes(2) have "length bytes + 8 \<le> payload_capacity seg" by (simp add: PAYLOAD_LEN_BYTES_def)
  then obtain s1 s2 where w: "write_payload space seg 0 (to_le 8 (length bytes)) = (Inr (), s1)"
      "write_payload s1 seg 8 bytes = (Inr (), s2)" "mapped s2 seg"
    and r: "read_payload s2 seg 0 8 = Inr (to_le 8 (length bytes))" "read_payload s2 seg 8 (length bytes) = Inr bytes"
    and len: "from_le (to_le 8 (length bytes)) = length bytes" "length bytes \<le> u64_max"
    and att: "\<And>cfg. attach cfg s2 = attach cfg space"
    using write_framed_ok [OF m] by metis
  obtain h where h: "header s2 seg = Some h" using w(3) by (auto simp: mapped_def header_def)
  let ?h = "h\<lparr> shm_generation := dc_generation document, shm_store_epoch := dc_store_epoch document,
     shm_operation_seq := dc_last_change_seq document, shm_entry_count := length (dc_entries document), shm_current_size_bytes := n \<rparr>"
  let ?s = "write_header s2 seg ?h"
  have wr: "index_write_document json space seg document = (Inr (), ?s)"
    using w bytes len(2) size h by (simp add: index_write_document_def PAYLOAD_LEN_BYTES_def)
  have "index_read_document json ?s seg = Inr document"
    using codec bytes v r len(1)
    by (auto simp: document_json_ok_def index_read_document_def PAYLOAD_LEN_BYTES_def Let_def read_payload_def write_header_payload
        invalid_data_def)
  moreover have "attach cfg ?s = attach cfg space" for cfg
    using attach_write_header [OF h, of ?h] att by (simp add: validate_header_def fun_eq_iff)
  ultimately show thesis using that wr w(3) write_header_payload(2) by blast
qed

lemma with_document_lock_ok:
  assumes "document_json_ok json" and "index_stored json (ms_segment_config store) space document"
    and "operation document = Inr (result, Some document')"
    and "sj_document json document' = Some bytes"
    and "length bytes + PAYLOAD_LEN_BYTES \<le> sc_capacity_bytes (ms_segment_config store) - header_size"
    and "dc_version document' = 1" and "document_current_size_bytes json document' = Inr n"
  shows "\<exists>space'. with_document_lock json (Inr ()) store t operation space = (Inr result, space') \<and>
     index_stored json (ms_segment_config store) space' document'"
proof -
  from assms(2) obtain seg where seg: "attach (ms_segment_config store) space = Inr seg" "mapped space seg"
    "index_read_document json space seg = Inr document" by (auto simp: index_stored_def)
  then have "payload_capacity seg = sc_capacity_bytes (ms_segment_config store) - header_size"
    by (auto simp: attach_def bind_res_def payload_capacity_def split: sum.splits option.splits if_splits)
  with assms obtain space' where w: "index_write_document json space seg document' = (Inr (), space')" "mapped space' seg"
    "index_read_document json space' seg = Inr document'" "\<And>cfg. attach cfg space' = attach cfg space"
    using index_write_document_ok [OF assms(1) seg(2) assms(4) _ assms(6,7)] by metis
  have "with_document_lock json (Inr ()) store t operation space = (Inr result, space')"
    using seg w(1) assms(3) by (simp add: with_document_lock_def index_open_or_create_segment_def)
  moreover have "index_stored json (ms_segment_config store) space' document'"
    using w seg(1) unfolding index_stored_def by auto
  ultimately show ?thesis by blast
qed

lemma with_document_lock_read:
  assumes "index_stored json (ms_segment_config store) space document" and "operation document = Inr (result, None)"
  shows "with_document_lock json (Inr ()) store t operation space = (Inr result, space)"
  using assms by (auto simp: index_stored_def with_document_lock_def index_open_or_create_segment_def)

section \<open>Fill locks exclude each other\<close>

datatype fill_lock_event =
    EvAcquire string nat string string
  | EvUpdate string string nat string
  | EvRelease string string
  | EvClearStale string nat

definition write_back :: "shared_memory_index_document \<Rightarrow> io_error + 'a \<times> shared_memory_index_document option \<Rightarrow> shared_memory_index_document" where
  "write_back doc r = (case r of Inr (_, Some doc') \<Rightarrow> doc' | _ \<Rightarrow> doc)"

fun fill_lock_event_document ::
    "(string \<Rightarrow> string) \<Rightarrow> nat \<Rightarrow> nat \<Rightarrow> shared_memory_index_document \<Rightarrow> fill_lock_event \<Rightarrow> shared_memory_index_document" where
  "fill_lock_event_document sha pid age doc (EvAcquire key now nonce st) = write_back doc (try_acquire_fill_lock sha pid key now age nonce st doc)"
| "fill_lock_event_document sha pid age doc (EvUpdate key nonce now st) = write_back doc (update_fill_lock key nonce now st doc)"
| "fill_lock_event_document sha pid age doc (EvRelease key nonce) = write_back doc (release_fill_lock key nonce doc)"
| "fill_lock_event_document sha pid age doc (EvClearStale key now) = write_back doc (clear_stale_fill_lock key now age doc)"

text \<open>
  The events other workers may cause while a holder keeps the lock: those that
  concern its key come within the age of its last update and carry other nonces;
  the holder itself only updates.
\<close>

fun while_held :: "nat \<Rightarrow> string \<Rightarrow> string \<Rightarrow> nat \<Rightarrow> fill_lock_event list \<Rightarrow> bool" where
  "while_held age key holder upd [] \<longleftrightarrow> True"
| "while_held age key holder upd (EvAcquire k now nonce st # evs) \<longleftrightarrow>
     (k = key \<longrightarrow> nonce \<noteq> holder \<and> now - upd \<le> age) \<and> while_held age key holder upd evs"
| "while_held age key holder upd (EvUpdate k nonce now st # evs) \<longleftrightarrow>
     while_held age key holder (if k = key \<and> nonce = holder then now else upd) evs"
| "while_held age key holder upd (EvRelease k nonce # evs) \<longleftrightarrow>
     (k = key \<longrightarrow> nonce \<noteq> holder) \<and> while_held age key holder upd evs"
| "while_held age key holder upd (EvClearStale k now # evs) \<longleftrightarrow>
     (k = key \<longrightarrow> now - upd \<le> age) \<and> while_held age key holder upd evs"

definition holds :: "string \<Rightarrow> string \<Rightarrow> nat \<Rightarrow> shared_memory_index_document \<Rightarrow> bool" where
  "holds key holder upd doc \<longleftrightarrow>
     (\<exists>r. map_of (dc_fill_locks doc) key = Some r \<and> fl_nonce r = holder \<and> \<not> fl_released r \<and> fl_updated_at_unix_ms r = upd)"

fun event_key :: "fill_lock_event \<Rightarrow> string" where
  "event_key (EvAcquire k _ _ _) = k"
| "event_key (EvUpdate k _ _ _) = k"
| "event_key (EvRelease k _) = k"
| "event_key (EvClearStale k _) = k"

lemma event_other_key:
  assumes "event_key ev \<noteq> key"
  shows "map_of (dc_fill_locks (fill_lock_event_document sha pid age doc ev)) key = map_of (dc_fill_locks doc) key"
  using assms
  by (cases ev)
    (auto simp: write_back_def try_acquire_fill_lock_def update_fill_lock_def release_fill_lock_def clear_stale_fill_lock_def
      Let_def split: option.split)

definition refreshed :: "string \<Rightarrow> string \<Rightarrow> nat \<Rightarrow> fill_lock_event \<Rightarrow> nat" where
  "refreshed key holder upd ev =
     (case ev of EvUpdate k nonce now st \<Rightarrow> if k = key \<and> nonce = holder then now else upd | _ \<Rightarrow> upd)"

lemma while_held_tail: "while_held age key holder upd (ev # evs) \<Longrightarrow> while_held age key holder (refreshed key holder upd ev) evs"
  by (cases ev) (simp_all add: refreshed_def)

lemma holds_event:
  assumes h: "holds key holder upd doc" and w: "while_held age key holder upd (ev # evs)"
  shows "holds key holder (refreshed key holder upd ev) (fill_lock_event_document sha pid age doc ev)"
proof (cases "event_key ev = key")
  case False
  then have "refreshed key holder upd ev = upd" by (cases ev) (auto simp: refreshed_def)
  with h event_other_key [OF False] show ?thesis by (simp add: holds_def)
next
  case True
  from h obtain r where r: "map_of (dc_fill_locks doc) key = Some r" "fl_nonce r = holder" "\<not> fl_released r" "fl_updated_at_unix_ms r = upd"
    by (auto simp: holds_def)
  show ?thesis
    using True w r
    by (cases ev)
      (auto simp: holds_def refreshed_def write_back_def try_acquire_fill_lock_def update_fill_lock_def
        release_fill_lock_def clear_stale_fill_lock_def Let_def)
qed

lemma holds_run:
  assumes "holds key holder upd doc" and "while_held age key holder upd (evs @ evs')"
  shows "\<exists>upd'. holds key holder upd' (foldl (fill_lock_event_document sha pid age) doc evs) \<and> while_held age key holder upd' evs'"
  using assms
proof (induction evs arbitrary: doc upd)
  case (Cons ev evs)
  have w: "while_held age key holder upd (ev # (evs @ evs'))" using Cons.prems(2) by simp
  show ?case
    using Cons.IH [OF holds_event [OF Cons.prems(1) w] while_held_tail [OF w]] by simp
qed auto

lemma acquire_holds:
  assumes "try_acquire_fill_lock sha pid key now age nonce st doc = Inr (LockAcquired, Some doc')"
  shows "holds key nonce now doc'"
  using assms by (auto simp: try_acquire_fill_lock_def holds_def Let_def split: option.splits if_splits)

text \<open>
  Once a worker acquired the fill lock of a key, no other worker acquires it
  before the holder releases it or lets it grow older than the lock age, whatever
  locks are acquired, updated, released or cleared in between.
\<close>

theorem fill_lock_is_exclusive:
  assumes "try_acquire_fill_lock sha pid key t age holder st doc = Inr (LockAcquired, Some doc0)"
    and "while_held age key holder t (evs @ [EvAcquire key now nonce st'])"
  shows "try_acquire_fill_lock sha pid' key now age nonce st' (foldl (fill_lock_event_document sha pid age) doc0 evs) = Inr (LockBusy, None)"
proof -
  obtain upd' where h: "holds key holder upd' (foldl (fill_lock_event_document sha pid age) doc0 evs)"
    and w: "while_held age key holder upd' [EvAcquire key now nonce st']"
    using holds_run [OF acquire_holds [OF assms(1)] assms(2)] by blast
  then show ?thesis by (auto simp: holds_def try_acquire_fill_lock_def Let_def)
qed

theorem fill_lock_is_exclusive_witness:
  "try_acquire_fill_lock id 1 ''k'' 150 100 ''n2'' [] (foldl (fill_lock_event_document id 1 100)
     (the (snd (projr (try_acquire_fill_lock id 1 ''k'' 0 100 ''n1'' [] (empty_document 7))))) [EvUpdate ''k'' ''n1'' 90 ''s'', EvClearStale ''k'' 120])
     = Inr (LockBusy, None)"
proof -
  obtain doc0 where a: "try_acquire_fill_lock id 1 ''k'' 0 100 ''n1'' [] (empty_document 7) = Inr (LockAcquired, Some doc0)"
    by (simp add: try_acquire_fill_lock_def empty_document_def Let_def)
  from fill_lock_is_exclusive [OF a, of "[EvUpdate ''k'' ''n1'' 90 ''s'', EvClearStale ''k'' 120]" 150 "''n2''" "[]" 1]
  show ?thesis unfolding a by simp
qed

end
