(* ===== verification/Cache_Fill.thy ===== *)
theory Cache_Fill
  imports Cache_Document Cache_Range "HOL-Library.Multiset"
begin

text \<open>
  Coordination of the requests that fill one cache entry:
  \<open>cache/runtime/fill_lock.rs\<close>, \<open>cache/fill/shared.rs\<close> and the state half of
  \<open>cache/fill/local.rs\<close>.  Inside a worker a map of fill locks lets one request
  fill a key; between workers the lock is a record of the shared document, with
  the state of the running fill encoded beside it.  A guard gives both back when
  it is dropped.  The notifier of a lock is identified by the lock's generation,
  and the read states, shared by reference in the source, live on a heap.  The
  variant of the shared state that lives in lock files is not modelled: it is
  used only by stores without fill locks, and the store of a zone has them.
\<close>

section \<open>The shared state of a fill\<close>

record shared_fill_header =
  sfh_name :: string
  sfh_value :: string

record shared_fill_response_metadata =
  fm_status :: nat
  fm_headers :: "shared_fill_header list"
  fm_body_tmp_path :: path_buf
  fm_body_path :: path_buf

record shared_fill_state_record =
  fs_nonce :: string
  fs_share_fingerprint :: string
  fs_response :: "shared_fill_response_metadata option"
  fs_upstream_completed :: bool
  fs_finished :: bool
  fs_trailers :: "shared_fill_header list option"
  fs_error :: "string option"

record shared_fill_handle =
  sh_key :: string
  sh_state :: shared_fill_state_record

record external_fill_read_state =
  ef_status :: status_code
  ef_headers :: header_map
  ef_body_tmp_path :: path_buf
  ef_body_path :: path_buf
  ef_key :: string
  ef_nonce :: string

text \<open>
  What a call of the shared store depends on: the store, the outcome of its file
  lock, the clock, the process, the JSON library and the parser of header names.
\<close>

record fill_env =
  fe_json :: shared_json
  fe_lock :: "io_error + unit"
  fe_store :: memory_shared_index_store
  fe_unix_nanos :: nat
  fe_sha :: "string \<Rightarrow> string"
  fe_pid :: nat
  fe_encode :: "shared_fill_state_record \<Rightarrow> string option"
  fe_decode :: "string \<Rightarrow> shared_fill_state_record option"
  fe_header_name :: "string \<Rightarrow> string option"

definition store_call ::
    "fill_env \<Rightarrow> (shared_memory_index_document \<Rightarrow> io_error + 'a \<times> shared_memory_index_document option) \<Rightarrow>
     shm_space \<Rightarrow> (io_error + 'a) \<times> shm_space" where
  "store_call env operation space =
     with_document_lock (fe_json env) (fe_lock env) (fe_store env) (fe_unix_nanos env) operation space"

definition next_shared_fill_nonce :: "nat \<Rightarrow> nat \<Rightarrow> nat \<Rightarrow> string" where
  "next_shared_fill_nonce pid counter now = show_nat now @ ''-'' @ show_nat pid @ ''-'' @ show_nat counter"

definition lock_age_ms :: "duration \<Rightarrow> nat" where
  "lock_age_ms lock_age = as_millis lock_age mod 2 ^ 64"

definition initial_fill_state :: "string \<Rightarrow> string option \<Rightarrow> shared_fill_state_record" where
  "initial_fill_state nonce share_fingerprint =
     \<lparr> fs_nonce = nonce, fs_share_fingerprint = (case share_fingerprint of None \<Rightarrow> [] | Some f \<Rightarrow> f),
       fs_response = None, fs_upstream_completed = False, fs_finished = False, fs_trailers = None, fs_error = None \<rparr>"

definition create_shared_memory ::
    "fill_env \<Rightarrow> string \<Rightarrow> nat \<Rightarrow> duration \<Rightarrow> string option \<Rightarrow> nat \<Rightarrow> shm_space \<Rightarrow>
     (io_error + shared_fill_handle option) \<times> shm_space" where
  "create_shared_memory env key now lock_age share_fingerprint counter space =
     (let state = initial_fill_state (next_shared_fill_nonce (fe_pid env) counter now) share_fingerprint
      in case invalid_data (fe_encode env state) of
           Inl e \<Rightarrow> (Inl e, space)
         | Inr state_json \<Rightarrow>
             (case store_call env (try_acquire_fill_lock (fe_sha env) (fe_pid env) key now (lock_age_ms lock_age)
                     (fs_nonce state) state_json) space of
                (Inl e, space1) \<Rightarrow> (Inl e, space1)
              | (Inr LockAcquired, space1) \<Rightarrow> (Inr (Some \<lparr> sh_key = key, sh_state = state \<rparr>), space1)
              | (Inr LockBusy, space1) \<Rightarrow> (Inr None, space1)))"

definition shared_headers_from_map :: "header_map \<Rightarrow> shared_fill_header list" where
  "shared_headers_from_map headers = map (\<lambda>(name, val). \<lparr> sfh_name = name, sfh_value = val \<rparr>) headers"

text \<open>Headers read back from storage are parsed again, one by one.\<close>

fun append_stored_headers ::
    "(string \<Rightarrow> string option) \<Rightarrow> header_map \<Rightarrow> (string \<times> string) list \<Rightarrow> io_error + header_map" where
  "append_stored_headers header_name acc [] = Inr acc"
| "append_stored_headers header_name acc ((n, v) # hs) =
     bind_res (invalid_data (header_name n)) (\<lambda>name.
     bind_res (invalid_data (header_value_of v)) (\<lambda>val.
       append_stored_headers header_name (hm_append acc name val) hs))"

definition header_map_from_shared_headers ::
    "(string \<Rightarrow> string option) \<Rightarrow> shared_fill_header list \<Rightarrow> io_error + header_map" where
  "header_map_from_shared_headers header_name headers =
     append_stored_headers header_name [] (map (\<lambda>h. (sfh_name h, sfh_value h)) headers)"

text \<open>\<open>StatusCode::from_u16\<close> accepts three digit codes.\<close>

definition status_from_u16 :: "nat \<Rightarrow> status_code option" where
  "status_from_u16 n = (if 100 \<le> n \<and> n < 1000 then Some n else None)"

definition readable_fill_state ::
    "fill_env \<Rightarrow> string \<Rightarrow> string option \<Rightarrow> string \<times> string \<Rightarrow> external_fill_read_state option" where
  "readable_fill_state env key share_fingerprint snapshot =
     Option.bind (fe_decode env (snd snapshot)) (\<lambda>state.
       if fs_nonce state \<noteq> fst snapshot then None
       else if (case share_fingerprint of None \<Rightarrow> False | Some fingerprint \<Rightarrow> fs_share_fingerprint state \<noteq> fingerprint) then None
       else if fs_error state \<noteq> None \<or> fs_upstream_completed state then None
       else Option.bind (fs_response state) (\<lambda>response.
         Option.bind (status_from_u16 (fm_status response)) (\<lambda>status.
           case header_map_from_shared_headers (fe_header_name env) (fm_headers response) of
             Inl _ \<Rightarrow> None
           | Inr headers \<Rightarrow> Some \<lparr> ef_status = status, ef_headers = headers,
               ef_body_tmp_path = fm_body_tmp_path response, ef_body_path = fm_body_path response,
               ef_key = key, ef_nonce = fs_nonce state \<rparr>)))"

definition load_memory_external_fill_state ::
    "fill_env \<Rightarrow> string \<Rightarrow> string option \<Rightarrow> shm_space \<Rightarrow> external_fill_read_state option \<times> shm_space" where
  "load_memory_external_fill_state env key share_fingerprint space =
     (case store_call env (load_fill_lock key) space of
        (Inr (Some snapshot), space1) \<Rightarrow> (readable_fill_state env key share_fingerprint snapshot, space1)
      | (_, space1) \<Rightarrow> (None, space1))"

text \<open>
  Updates of the state by the filling worker.  The local copy changes even when
  the store refuses the update.
\<close>

definition persist_state :: "fill_env \<Rightarrow> nat \<Rightarrow> shared_fill_handle \<Rightarrow> shm_space \<Rightarrow> (io_error + unit) \<times> shm_space" where
  "persist_state env now handle space =
     (case invalid_data (fe_encode env (sh_state handle)) of
        Inl e \<Rightarrow> (Inl e, space)
      | Inr state_json \<Rightarrow> store_call env (update_fill_lock (sh_key handle) (fs_nonce (sh_state handle)) now state_json) space)"

definition update_state ::
    "fill_env \<Rightarrow> nat \<Rightarrow> (shared_fill_state_record \<Rightarrow> shared_fill_state_record) \<Rightarrow> shared_fill_handle \<Rightarrow> shm_space \<Rightarrow>
     (io_error + unit) \<times> shared_fill_handle \<times> shm_space" where
  "update_state env now f handle space =
     (let handle1 = handle\<lparr> sh_state := f (sh_state handle) \<rparr>
      in case persist_state env now handle1 space of (r, space1) \<Rightarrow> (r, handle1, space1))"

definition publish_response where
  "publish_response env now status headers body_tmp_path body_path =
     update_state env now (\<lambda>state. state\<lparr> fs_response := Some
       \<lparr> fm_status = status, fm_headers = shared_headers_from_map headers,
         fm_body_tmp_path = body_tmp_path, fm_body_path = body_path \<rparr> \<rparr>)"

definition external_upstream_complete where
  "external_upstream_complete env now = update_state env now (\<lambda>state. state\<lparr> fs_upstream_completed := True \<rparr>)"

definition external_finish where
  "external_finish env now trailers = update_state env now (\<lambda>state. state\<lparr> fs_upstream_completed := True,
     fs_finished := True, fs_trailers := map_option shared_headers_from_map trailers \<rparr>)"

definition external_fail where
  "external_fail env now error = update_state env now (\<lambda>state. state\<lparr> fs_error := Some error \<rparr>)"

definition heartbeat where
  "heartbeat env now handle space = persist_state env now handle space"

definition release_handle :: "fill_env \<Rightarrow> shared_fill_handle \<Rightarrow> shm_space \<Rightarrow> shm_space" where
  "release_handle env handle space =
     snd (store_call env (release_fill_lock (sh_key handle) (fs_nonce (sh_state handle))) space)"

definition read_external_fill_state_record ::
    "fill_env \<Rightarrow> string \<Rightarrow> string \<Rightarrow> shm_space \<Rightarrow> (io_error + shared_fill_state_record) \<times> shm_space" where
  "read_external_fill_state_record env key nonce space =
     (case store_call env (load_fill_lock key) space of
        (Inl e, space1) \<Rightarrow> (Inl e, space1)
      | (Inr None, space1) \<Rightarrow> (Inl IoNotFound, space1)
      | (Inr (Some snapshot), space1) \<Rightarrow>
          (bind_res (invalid_data (fe_decode env (snd snapshot))) (\<lambda>state.
             if fs_nonce state \<noteq> nonce then Inl IoNotFound else Inr state), space1))"

section \<open>The read state of a local fill\<close>

record cache_fill_read_state =
  rs_status :: status_code
  rs_headers :: header_map
  rs_body_tmp_path :: path_buf
  rs_body_path :: path_buf
  rs_bytes_written :: nat
  rs_finished :: bool
  rs_upstream_completed :: bool
  rs_trailers :: "header_map option"
  rs_error :: "string option"
  rs_external_state :: "shared_fill_handle option"

text \<open>A change of the external state, when there is one; its errors are only logged.\<close>

definition notify_external ::
    "(shared_fill_handle \<Rightarrow> shm_space \<Rightarrow> (io_error + unit) \<times> shared_fill_handle \<times> shm_space) \<Rightarrow>
     cache_fill_read_state \<Rightarrow> shm_space \<Rightarrow> cache_fill_read_state \<times> shm_space" where
  "notify_external f state space =
     (case rs_external_state state of
        None \<Rightarrow> (state, space)
      | Some handle \<Rightarrow> (case f handle space of (_, handle1, space1) \<Rightarrow> (state\<lparr> rs_external_state := Some handle1 \<rparr>, space1)))"

definition fill_read_state_new ::
    "fill_env \<Rightarrow> nat \<Rightarrow> status_code \<Rightarrow> header_map \<Rightarrow> path_buf \<Rightarrow> path_buf \<Rightarrow> shared_fill_handle option \<Rightarrow> shm_space \<Rightarrow>
     cache_fill_read_state \<times> shm_space" where
  "fill_read_state_new env now status headers body_tmp_path body_path external_state space =
     notify_external (publish_response env now status headers body_tmp_path body_path)
       \<lparr> rs_status = status, rs_headers = headers, rs_body_tmp_path = body_tmp_path, rs_body_path = body_path,
         rs_bytes_written = 0, rs_finished = False, rs_upstream_completed = False, rs_trailers = None,
         rs_error = None, rs_external_state = external_state \<rparr> space"

text \<open>The local half of the updates, which the readers of this worker see.\<close>

definition set_bytes_written :: "nat \<Rightarrow> cache_fill_read_state \<Rightarrow> cache_fill_read_state" where
  "set_bytes_written n state = state\<lparr> rs_bytes_written := n \<rparr>"

definition set_finished :: "header_map option \<Rightarrow> cache_fill_read_state \<Rightarrow> cache_fill_read_state" where
  "set_finished trailers state = state\<lparr> rs_trailers := trailers, rs_finished := True \<rparr>"

definition set_error :: "string \<Rightarrow> cache_fill_read_state \<Rightarrow> cache_fill_read_state" where
  "set_error error state = state\<lparr> rs_error := Some error \<rparr>"

definition set_upstream_completed :: "cache_fill_read_state \<Rightarrow> cache_fill_read_state" where
  "set_upstream_completed state = state\<lparr> rs_upstream_completed := True \<rparr>"

definition record_bytes_written where
  "record_bytes_written env now body_size_bytes state =
     notify_external (\<lambda>handle space. case heartbeat env now handle space of (r, space1) \<Rightarrow> (r, handle, space1))
       (set_bytes_written body_size_bytes state)"

definition fill_finish where
  "fill_finish env now trailers state =
     notify_external (external_finish env now trailers) (set_finished trailers state)"

definition fill_fail where
  "fill_fail env now error state = notify_external (external_fail env now error) (set_error error state)"

definition mark_upstream_complete where
  "mark_upstream_complete env now state =
     notify_external (external_upstream_complete env now) (set_upstream_completed state)"

definition can_serve :: "cache_fill_read_state \<Rightarrow> bool" where
  "can_serve state \<longleftrightarrow> rs_error state = None"

definition can_share :: "cache_fill_read_state \<Rightarrow> bool" where
  "can_share state \<longleftrightarrow> can_serve state \<and> \<not> rs_upstream_completed state"

section \<open>Fill locks of a worker\<close>

record cache_fill_lock_state =
  fk_acquired_at_unix_ms :: nat
  fk_generation :: nat
  fk_share_fingerprint :: string
  fk_reader_state :: "nat option"

record cache_fill_guard =
  fg_key :: string
  fg_generation :: nat
  fg_external_state :: "shared_fill_handle option"

datatype fill_lock_decision =
    FillAcquired cache_fill_guard
  | ReadLocal nat
  | ReadExternal external_fill_read_state
  | WaitLocal nat
  | WaitExternal string

text \<open>
  The locks of a zone, the counters of generations and nonces, the heap of read
  states, and whether the zone has a shared store.
\<close>

record fill_locks =
  fz_locks :: "string \<Rightarrow> cache_fill_lock_state option"
  fz_generation :: nat
  fz_nonce_counter :: nat
  fz_read_states :: "nat \<Rightarrow> cache_fill_read_state option"
  fz_shared :: bool

definition insert_fill_lock ::
    "string \<Rightarrow> nat \<Rightarrow> string option \<Rightarrow> shared_fill_handle option \<Rightarrow> fill_locks \<Rightarrow> fill_lock_decision \<times> fill_locks" where
  "insert_fill_lock key now share_fingerprint external_state fz =
     (let generation = (fz_generation fz + 1) mod 2 ^ 64
      in (FillAcquired \<lparr> fg_key = key, fg_generation = generation, fg_external_state = external_state \<rparr>,
          fz\<lparr> fz_generation := generation,
             fz_locks := (fz_locks fz)(key \<mapsto>
               \<lparr> fk_acquired_at_unix_ms = now, fk_generation = generation,
                 fk_share_fingerprint = (case share_fingerprint of None \<Rightarrow> [] | Some f \<Rightarrow> f),
                 fk_reader_state = None \<rparr>) \<rparr>))"

text \<open>The lock of another request of this worker, when it is young enough.\<close>

definition local_fill_decision ::
    "fill_locks \<Rightarrow> string \<Rightarrow> nat \<Rightarrow> duration \<Rightarrow> string option \<Rightarrow> fill_lock_decision option" where
  "local_fill_decision fz key now lock_age share_fingerprint =
     (case fz_locks fz key of
        None \<Rightarrow> None
      | Some lock \<Rightarrow>
          if now - fk_acquired_at_unix_ms lock \<le> lock_age_ms lock_age then
            Some (if share_fingerprint = None \<or> share_fingerprint = Some (fk_share_fingerprint lock)
                  then (case fk_reader_state lock of
                          None \<Rightarrow> WaitLocal (fk_generation lock)
                        | Some a \<Rightarrow> (case fz_read_states fz a of
                              None \<Rightarrow> WaitLocal (fk_generation lock)
                            | Some state \<Rightarrow> if can_share state then ReadLocal a else WaitLocal (fk_generation lock)))
                  else WaitLocal (fk_generation lock))
          else None)"

text \<open>
  The two calls of the store, to acquire the lock and to load the state of its
  holder, see their own environments.
\<close>

definition fill_lock_decision_of ::
    "fill_env \<Rightarrow> fill_env \<Rightarrow> string \<Rightarrow> nat \<Rightarrow> duration \<Rightarrow> string option \<Rightarrow> fill_locks \<Rightarrow> shm_space \<Rightarrow>
     fill_lock_decision \<times> fill_locks \<times> shm_space" where
  "fill_lock_decision_of env env' key now lock_age share_fingerprint fz space =
     (case local_fill_decision fz key now lock_age share_fingerprint of
        Some d \<Rightarrow> (d, fz, space)
      | None \<Rightarrow>
          if fz_shared fz then
            (let fz1 = fz\<lparr> fz_nonce_counter := (fz_nonce_counter fz + 1) mod 2 ^ 64 \<rparr>
             in case create_shared_memory env key now lock_age share_fingerprint (fz_nonce_counter fz) space of
                  (Inr (Some handle), space1) \<Rightarrow>
                    (case insert_fill_lock key now share_fingerprint (Some handle) fz1 of (d, fz2) \<Rightarrow> (d, fz2, space1))
                | (Inr None, space1) \<Rightarrow>
                    (case load_memory_external_fill_state env' key share_fingerprint space1 of
                       (Some state, space2) \<Rightarrow> (ReadExternal state, fz1, space2)
                     | (None, space2) \<Rightarrow> (WaitExternal key, fz1, space2))
                | (Inl _, space1) \<Rightarrow>
                    (case insert_fill_lock key now share_fingerprint None fz1 of (d, fz2) \<Rightarrow> (d, fz2, space1)))
          else (case insert_fill_lock key now share_fingerprint None fz of (d, fz1) \<Rightarrow> (d, fz1, space)))"

definition attach_fill_read_state :: "string \<Rightarrow> nat \<Rightarrow> nat \<Rightarrow> fill_locks \<Rightarrow> nat option \<times> fill_locks" where
  "attach_fill_read_state key generation a fz =
     (case fz_locks fz key of
        None \<Rightarrow> (None, fz)
      | Some lock \<Rightarrow>
          if fk_generation lock \<noteq> generation then (None, fz)
          else (Some a, fz\<lparr> fz_locks := (fz_locks fz)(key \<mapsto> lock\<lparr> fk_reader_state := Some a \<rparr>) \<rparr>))"

text \<open>Dropping a guard removes its own lock, never a later one, and releases the shared lock.\<close>

definition drop_fill_guard :: "fill_env \<Rightarrow> cache_fill_guard \<Rightarrow> fill_locks \<Rightarrow> shm_space \<Rightarrow> fill_locks \<times> shm_space" where
  "drop_fill_guard env guard fz space =
     (case fz_locks fz (fg_key guard) of
        None \<Rightarrow> fz
      | Some lock \<Rightarrow>
          if fk_generation lock = fg_generation guard then fz\<lparr> fz_locks := (fz_locks fz)(fg_key guard := None) \<rparr> else fz,
      case fg_external_state guard of None \<Rightarrow> space | Some handle \<Rightarrow> release_handle env handle space)"

text \<open>
  Waiting for a lock of another worker polls its status.  A poll has its clock,
  the environments of its two calls, the shared memory it finds and whether the
  deadline has passed; no value means that the polls given ran out.
\<close>

record fill_poll =
  po_now :: nat
  po_env :: fill_env
  po_env' :: fill_env
  po_space :: shm_space
  po_expired :: bool

fun wait_for_memory_shared_fill_lock :: "string \<Rightarrow> duration \<Rightarrow> fill_poll list \<Rightarrow> bool option" where
  "wait_for_memory_shared_fill_lock key lock_age [] = None"
| "wait_for_memory_shared_fill_lock key lock_age (p # polls) =
     (let go_on = (if po_expired p then Some False else wait_for_memory_shared_fill_lock key lock_age polls)
      in case store_call (po_env p) (fill_lock_status key (po_now p) (lock_age_ms lock_age)) (po_space p) of
           (Inl _, _) \<Rightarrow> Some False
         | (Inr LockMissing, _) \<Rightarrow> Some True
         | (Inr LockFresh, _) \<Rightarrow> go_on
         | (Inr LockStale, space1) \<Rightarrow>
             (case store_call (po_env' p) (clear_stale_fill_lock key (po_now p) (lock_age_ms lock_age)) space1 of
                (Inr True, _) \<Rightarrow> Some True
              | _ \<Rightarrow> go_on))"

section \<open>The fingerprint of a request\<close>

definition hex_byte :: "char \<Rightarrow> string" where
  "hex_byte c = [hex_char (of_char c div 16), hex_char (of_char c mod 16)]"

definition fingerprint_headers :: "cache_request \<Rightarrow> (string \<times> string) list" where
  "fingerprint_headers request =
     map (\<lambda>(name, val). (to_ascii_lowercase name, val)) (filter (\<lambda>(name, _). name \<noteq> ''range'') (cr_headers request))"

definition fill_share_fingerprint :: "cache_request \<Rightarrow> string" where
  "fill_share_fingerprint request =
     ''method='' @ cr_method request @ [CHR 0x0A]
     @ concat (map (\<lambda>(name, val). name @ [CHR ''=''] @ concat (map hex_byte val) @ [CHR 0x0A])
                (sort (fingerprint_headers request)))"

text \<open>Method and header names are tokens of HTTP: no line end and no equals sign.\<close>

definition request_tokens_ok :: "cache_request \<Rightarrow> bool" where
  "request_tokens_ok request \<longleftrightarrow> CHR 0x0A \<notin> set (cr_method request) \<and>
     list_all (\<lambda>(name, _). CHR ''='' \<notin> set name) (fingerprint_headers request)"

lemma hex_char_inj: "a < 16 \<Longrightarrow> b < 16 \<Longrightarrow> hex_char a = hex_char b \<Longrightarrow> a = b"
  by (auto simp: hex_char_def of_char_eq_iff [symmetric] simp del: of_char_eq_iff split: if_splits)

lemma hex_char_no_newline: "a < 16 \<Longrightarrow> hex_char a \<noteq> CHR 0x0A"
proof -
  assume "a < 16"
  then have "(of_char (hex_char a) :: nat) \<noteq> of_char (CHR 0x0A)" by (auto simp: hex_char_def of_char_of)
  then show ?thesis by metis
qed

lemma nibble: "(of_char c :: nat) div 16 < 16"
  by (rule less_mult_imp_div_less) simp

lemma hex_byte_inj: "hex_byte c = hex_byte d \<Longrightarrow> c = d"
proof -
  assume "hex_byte c = hex_byte d"
  then have "of_char c div 16 = (of_char d div 16 :: nat)" "of_char c mod 16 = (of_char d mod 16 :: nat)"
    using nibble by (auto simp: hex_byte_def intro!: hex_char_inj)
  then have "(of_char c :: nat) = of_char d" by (metis div_mult_mod_eq)
  then show ?thesis by simp
qed

lemma hex_bytes_inj: "concat (map hex_byte v) = concat (map hex_byte w) \<Longrightarrow> v = w"
proof (induction v arbitrary: w)
  case Nil
  then show ?case by (cases w) (auto simp: hex_byte_def)
next
  case (Cons c v)
  then obtain d w' where w: "w = d # w'" by (cases w) (auto simp: hex_byte_def)
  have "length (hex_byte c) = length (hex_byte d)" by (simp add: hex_byte_def)
  with w Cons.prems have "hex_byte c = hex_byte d" "concat (map hex_byte v) = concat (map hex_byte w')"
    by simp_all
  with Cons.IH hex_byte_inj w show ?case by blast
qed

lemma hex_bytes_no_newline: "CHR 0x0A \<notin> set (concat (map hex_byte v))"
proof -
  have "CHR 0x0A \<notin> set (hex_byte c)" for c
    using hex_char_no_newline [OF nibble, of c] hex_char_no_newline [of "of_char c mod 16"]
    by (auto simp: hex_byte_def)
  then show ?thesis by auto
qed

lemma fingerprint_encode:
  "fill_share_fingerprint request = ''method='' @ cr_method request @ CHR 0x0A #
     encode_pairs (CHR ''='') (CHR 0x0A) (map (\<lambda>(n, v). (n, concat (map hex_byte v))) (sort (fingerprint_headers request)))"
  by (simp add: fill_share_fingerprint_def comp_def case_prod_unfold)

lemma fingerprint_inj:
  assumes "fill_share_fingerprint r = fill_share_fingerprint r'" and "request_tokens_ok r" and "request_tokens_ok r'"
  shows "cr_method r = cr_method r' \<and> mset (fingerprint_headers r) = mset (fingerprint_headers r')"
proof -
  let ?e = "\<lambda>r. map (\<lambda>(n, v). (n, concat (map hex_byte v))) (sort (fingerprint_headers r))"
  have m: "cr_method r = cr_method r'" and p: "encode_pairs (CHR ''='') (CHR 0x0A) (?e r) = encode_pairs (CHR ''='') (CHR 0x0A) (?e r')"
    using split_at_char [of "cr_method r" _ _ "cr_method r'"] assms
    by (auto simp only: fingerprint_encode request_tokens_ok_def append_same_eq same_append_eq)
  have clean: "list_all (\<lambda>(n, v). CHR ''='' \<notin> set n \<and> CHR 0x0A \<notin> set v) (?e q)" if "request_tokens_ok q" for q
    using that hex_bytes_no_newline by (auto simp: list_all_iff request_tokens_ok_def)
  have "?e r = ?e r'" by (rule encode_pairs_inj [OF p clean clean]) (rule assms)+
  moreover have "inj (\<lambda>(n, v). (n :: string, concat (map hex_byte v)))"
    by (auto simp: inj_def dest: hex_bytes_inj)
  ultimately have "sort (fingerprint_headers r) = sort (fingerprint_headers r')"
    by (simp add: inj_map_eq_map)
  with m show ?thesis by (metis mset_sort)
qed

section \<open>One fill at a time\<close>

datatype fill_zone_event =
    FzDecide fill_env fill_env string nat duration "string option"
  | FzAttach string nat nat
  | FzReadState nat cache_fill_read_state
  | FzDrop fill_env cache_fill_guard

fun fill_zone_step :: "fill_locks \<times> shm_space \<Rightarrow> fill_zone_event \<Rightarrow> fill_locks \<times> shm_space" where
  "fill_zone_step (fz, space) (FzDecide env env' key now lock_age fp) =
     snd (fill_lock_decision_of env env' key now lock_age fp fz space)"
| "fill_zone_step (fz, space) (FzAttach key generation a) = (snd (attach_fill_read_state key generation a fz), space)"
| "fill_zone_step (fz, space) (FzReadState a state) = (fz\<lparr> fz_read_states := (fz_read_states fz)(a \<mapsto> state) \<rparr>, space)"
| "fill_zone_step (fz, space) (FzDrop env guard) = drop_fill_guard env guard fz space"

text \<open>
  What other requests may do while a fill of \<open>key\<close> runs that began at \<open>t\<close>: ask
  for the same key before the lock is too old, and drop guards of other fills.
\<close>

fun leaves_fill :: "string \<Rightarrow> nat \<Rightarrow> nat \<Rightarrow> fill_zone_event \<Rightarrow> bool" where
  "leaves_fill key generation t (FzDecide env env' k now lock_age fp) \<longleftrightarrow> (k = key \<longrightarrow> now - t \<le> lock_age_ms lock_age)"
| "leaves_fill key generation t (FzDrop env guard) \<longleftrightarrow> (fg_key guard = key \<longrightarrow> fg_generation guard \<noteq> generation)"
| "leaves_fill key generation t _ \<longleftrightarrow> True"

definition filling :: "string \<Rightarrow> nat \<Rightarrow> nat \<Rightarrow> string \<Rightarrow> fill_locks \<Rightarrow> bool" where
  "filling key generation t fp fz \<longleftrightarrow>
     (\<exists>lock. fz_locks fz key = Some lock \<and> fk_acquired_at_unix_ms lock = t \<and> fk_generation lock = generation
             \<and> fk_share_fingerprint lock = fp)"

lemma insert_fill_lock_simps [simp]:
  "fst (insert_fill_lock key now fp ext fz) =
     FillAcquired \<lparr> fg_key = key, fg_generation = (fz_generation fz + 1) mod 2 ^ 64, fg_external_state = ext \<rparr>"
  "fz_locks (snd (insert_fill_lock key now fp ext fz)) = (fz_locks fz)(key \<mapsto>
     \<lparr> fk_acquired_at_unix_ms = now, fk_generation = (fz_generation fz + 1) mod 2 ^ 64,
       fk_share_fingerprint = (case fp of None \<Rightarrow> [] | Some f \<Rightarrow> f), fk_reader_state = None \<rparr>)"
  by (simp_all add: insert_fill_lock_def Let_def)

text \<open>A decision either inserts a lock, or leaves the locks as they are.\<close>

lemma decision_cases:
  assumes "fill_lock_decision_of env env' key now lock_age fp fz space = (d, fz', space')"
  obtains (acquired) g where "d = FillAcquired g" "fg_key g = key" "local_fill_decision fz key now lock_age fp = None"
      "fz_locks fz' = (fz_locks fz)(key \<mapsto>
         \<lparr> fk_acquired_at_unix_ms = now, fk_generation = fg_generation g,
           fk_share_fingerprint = (case fp of None \<Rightarrow> [] | Some f \<Rightarrow> f), fk_reader_state = None \<rparr>)"
  | (local) "local_fill_decision fz key now lock_age fp = Some d" "fz' = fz" "space' = space"
  | (external) "local_fill_decision fz key now lock_age fp = None" "fz_locks fz' = fz_locks fz"
      "(\<exists>st. d = ReadExternal st) \<or> d = WaitExternal key"
proof (cases "local_fill_decision fz key now lock_age fp")
  case (Some d')
  with assms show ?thesis by (intro local) (simp_all add: fill_lock_decision_of_def)
next
  case None
  show ?thesis
  proof (cases "\<exists>g. d = FillAcquired g")
    case True
    then obtain g where "d = FillAcquired g" ..
    then show ?thesis
      using assms None
      by (intro acquired [of g])
        (auto simp: fill_lock_decision_of_def insert_fill_lock_def Let_def split: prod.splits sum.splits option.splits if_splits)
  next
    case False
    then show ?thesis
      using assms None
      by (intro external)
        (auto simp: fill_lock_decision_of_def insert_fill_lock_def Let_def split: prod.splits sum.splits option.splits if_splits)
  qed
qed

lemma local_decision_filling:
  assumes "filling key generation t fp0 fz" and "now - t \<le> lock_age_ms lock_age"
  shows "\<exists>d. local_fill_decision fz key now lock_age fp = Some d \<and>
     (d = WaitLocal generation \<or> (\<exists>a. d = ReadLocal a \<and> (fp = None \<or> fp = Some fp0)))"
  using assms by (auto simp: filling_def local_fill_decision_def split: option.split)

lemma filling_step:
  assumes "filling key generation t fp fz" and "leaves_fill key generation t ev"
  shows "filling key generation t fp (fst (fill_zone_step (fz, space) ev))"
proof (cases ev)
  case (FzDecide env env' k now lock_age fp')
  obtain d fz' space' where r: "fill_lock_decision_of env env' k now lock_age fp' fz space = (d, fz', space')"
    by (metis prod_cases3)
  have "filling key generation t fp fz'"
    using r
  proof (cases rule: decision_cases)
    case (acquired g)
    then have "k \<noteq> key" using local_decision_filling [OF assms(1), of now lock_age fp'] assms(2) FzDecide by auto
    with acquired assms(1) show ?thesis by (simp add: filling_def)
  qed (use assms(1) in \<open>simp_all add: filling_def\<close>)
  with FzDecide r show ?thesis by simp
next
  case (FzAttach k gen a)
  with assms(1) show ?thesis by (auto simp: filling_def attach_fill_read_state_def split: option.split)
next
  case (FzReadState a state)
  with assms(1) show ?thesis by (simp add: filling_def)
next
  case (FzDrop env guard)
  with assms show ?thesis by (auto simp: filling_def drop_fill_guard_def split: option.split)
qed

lemma filling_run:
  "filling key generation t fp (fst st) \<Longrightarrow> list_all (leaves_fill key generation t) evs \<Longrightarrow>
   filling key generation t fp (fst (foldl fill_zone_step st evs))"
proof (induction evs arbitrary: st)
  case (Cons ev evs)
  have "filling key generation t fp (fst (fill_zone_step st ev))"
    using filling_step [of key generation t fp "fst st" ev "snd st"] Cons.prems by simp
  with Cons show ?case by simp
qed simp

lemma acquired_filling:
  assumes "fill_lock_decision_of env env' key t lock_age fp fz space = (FillAcquired g, fz1, space1)"
  shows "filling key (fg_generation g) t (case fp of None \<Rightarrow> [] | Some f \<Rightarrow> f) fz1"
  using assms
  by (cases rule: decision_cases) (auto simp: filling_def local_fill_decision_def split: option.splits if_splits)

lemma decision_while_filling:
  assumes "filling key generation t fp0 fz" and "now - t \<le> lock_age_ms lock_age"
  shows "\<exists>d. fill_lock_decision_of env env' key now lock_age fp fz space = (d, fz, space) \<and>
     (d = WaitLocal generation \<or> (\<exists>a. d = ReadLocal a \<and> (fp = None \<or> fp = Some fp0)))"
  using local_decision_filling [OF assms, of fp] by (auto simp: fill_lock_decision_of_def)

text \<open>
  C27. While a request fills a key, no other request of the worker starts a second
  fill of it before the lock is older than the lock age: it waits for this very
  fill or reads its response, whatever other keys are filled, guards dropped and
  read states attached or changed in between.
\<close>

theorem one_fill_at_a_time:
  assumes "fill_lock_decision_of env env' key t lock_age fp0 fz space = (FillAcquired g, fz1, space1)"
    and "list_all (leaves_fill key (fg_generation g) t) evs"
    and "foldl fill_zone_step (fz1, space1) evs = (fz2, space2)"
    and "now - t \<le> lock_age_ms lock_age2"
  shows "\<exists>d. fill_lock_decision_of e e' key now lock_age2 fp fz2 space2 = (d, fz2, space2)
     \<and> (d = WaitLocal (fg_generation g) \<or> (\<exists>a. d = ReadLocal a))"
proof -
  have "filling key (fg_generation g) t (case fp0 of None \<Rightarrow> [] | Some f \<Rightarrow> f) fz2"
    using filling_run [of _ _ _ _ "(fz1, space1)", OF _ assms(2)] acquired_filling [OF assms(1)] assms(3) by simp
  from decision_while_filling [OF this assms(4)] show ?thesis by blast
qed

definition sample_fill_locks :: fill_locks where
  "sample_fill_locks = \<lparr> fz_locks = Map.empty, fz_generation = 0, fz_nonce_counter = 0, fz_read_states = Map.empty, fz_shared = False \<rparr>"

definition sample_read_state :: cache_fill_read_state where
  "sample_read_state = \<lparr> rs_status = 200, rs_headers = [], rs_body_tmp_path = ''t'', rs_body_path = ''b'',
     rs_bytes_written = 0, rs_finished = False, rs_upstream_completed = False, rs_trailers = None, rs_error = None,
     rs_external_state = None \<rparr>"

definition sample_filling :: "string \<Rightarrow> fill_locks" where
  "sample_filling fp = sample_fill_locks\<lparr> fz_generation := 1, fz_locks := [''k'' \<mapsto>
     \<lparr> fk_acquired_at_unix_ms = 5, fk_generation = 1, fk_share_fingerprint = fp, fk_reader_state = None \<rparr>] \<rparr>"

lemma sample_acquired:
  "fill_lock_decision_of env env' ''k'' 5 lock_age (Some fp) sample_fill_locks space =
     (FillAcquired \<lparr> fg_key = ''k'', fg_generation = 1, fg_external_state = None \<rparr>, sample_filling fp, space)"
  by (simp add: fill_lock_decision_of_def local_fill_decision_def insert_fill_lock_def sample_fill_locks_def
      sample_filling_def Let_def)

definition sample_events :: "fill_zone_event list" where
  "sample_events = [FzReadState 3 sample_read_state, FzAttach ''k'' 1 3]"

definition sample_attached :: "string \<Rightarrow> fill_locks" where
  "sample_attached fp = (sample_filling fp)\<lparr> fz_read_states := [3 \<mapsto> sample_read_state], fz_locks := [''k'' \<mapsto>
     \<lparr> fk_acquired_at_unix_ms = 5, fk_generation = 1, fk_share_fingerprint = fp, fk_reader_state = Some 3 \<rparr>] \<rparr>"

lemma sample_events_run:
  "foldl fill_zone_step (sample_filling fp, space) sample_events = (sample_attached fp, space)"
  by (simp add: sample_events_def attach_fill_read_state_def sample_filling_def sample_fill_locks_def sample_attached_def)

theorem one_fill_at_a_time_witness:
  "\<forall>env. \<exists>d. fill_lock_decision_of env env ''k'' 8 1000000000 None (sample_attached ''f'') Map.empty = (d, sample_attached ''f'', Map.empty)
     \<and> (d = WaitLocal 1 \<or> (\<exists>a. d = ReadLocal a))"
proof
  fix env
  show "\<exists>d. fill_lock_decision_of env env ''k'' 8 1000000000 None (sample_attached ''f'') Map.empty = (d, sample_attached ''f'', Map.empty)
     \<and> (d = WaitLocal 1 \<or> (\<exists>a. d = ReadLocal a))"
    using one_fill_at_a_time [OF sample_acquired [of env env 0 "''f''" Map.empty] _ sample_events_run,
        of 8 1000000000 env env None]
    by (simp add: sample_events_def lock_age_ms_def as_millis_def)
qed

text \<open>
  A request that misses is only given the response of a fill that is still
  running if the request that started the fill had the same method and the same
  headers, up to their order and the range header: the fingerprint by which
  requests are compared determines both.
\<close>

theorem shared_fill_has_same_request:
  assumes "fill_lock_decision_of env env' key t lock_age (Some (fill_share_fingerprint r0)) fz space = (FillAcquired g, fz1, space1)"
    and "list_all (leaves_fill key (fg_generation g) t) evs"
    and "foldl fill_zone_step (fz1, space1) evs = (fz2, space2)"
    and "now - t \<le> lock_age_ms lock_age2"
    and "fst (fill_lock_decision_of e e' key now lock_age2 (Some (fill_share_fingerprint r)) fz2 space2) = ReadLocal a"
    and "request_tokens_ok r0" and "request_tokens_ok r"
  shows "cr_method r = cr_method r0 \<and> mset (fingerprint_headers r) = mset (fingerprint_headers r0)"
proof -
  have "filling key (fg_generation g) t (fill_share_fingerprint r0) fz2"
    using filling_run [of _ _ _ _ "(fz1, space1)", OF _ assms(2)] acquired_filling [OF assms(1)] assms(3) by simp
  from decision_while_filling [OF this assms(4), of e e' "Some (fill_share_fingerprint r)" space2] assms(5)
  have "fill_share_fingerprint r = fill_share_fingerprint r0" by auto
  from fingerprint_inj [OF this assms(7,6)] show ?thesis .
qed

definition sample_fill_request :: cache_request where
  "sample_fill_request = \<lparr> cr_method = ''GET'', cr_uri = \<lparr> uri_path_and_query = None, uri_authority = None \<rparr>,
     cr_headers = [(''accept'', ''x''), (''range'', ''bytes=0-1'')] \<rparr>"

theorem shared_fill_has_same_request_witness:
  "mset (fingerprint_headers sample_fill_request) = mset (fingerprint_headers (sample_fill_request\<lparr> cr_headers := [(''accept'', ''x'')] \<rparr>))"
proof -
  let ?r = "sample_fill_request\<lparr> cr_headers := [(''accept'', ''x'')] \<rparr>"
  have h: "fingerprint_headers sample_fill_request = [(''accept'', ''x'')]" "fingerprint_headers ?r = [(''accept'', ''x'')]"
    by (simp_all add: fingerprint_headers_def sample_fill_request_def to_ascii_lowercase_def ascii_lower_def)
  then have f: "fill_share_fingerprint ?r = fill_share_fingerprint sample_fill_request"
    by (simp add: fill_share_fingerprint_def sample_fill_request_def)
  have ok: "request_tokens_ok sample_fill_request" "request_tokens_ok ?r"
    using h by (simp_all add: request_tokens_ok_def) (simp_all add: sample_fill_request_def)
  have d: "fst (fill_lock_decision_of env env' ''k'' 8 1000000000 (Some (fill_share_fingerprint sample_fill_request))
      (sample_attached (fill_share_fingerprint ?r)) space) = ReadLocal 3" for env env' space
    by (simp add: f fill_lock_decision_of_def local_fill_decision_def sample_attached_def
        sample_read_state_def can_share_def can_serve_def lock_age_ms_def as_millis_def)
  fix env :: fill_env and space :: shm_space
  have "cr_method sample_fill_request = cr_method ?r
     \<and> mset (fingerprint_headers sample_fill_request) = mset (fingerprint_headers ?r)"
    by (rule shared_fill_has_same_request [OF sample_acquired [of env env 0 _ space] _ sample_events_run _ d ok(2,1)])
      (simp_all add: sample_events_def lock_age_ms_def as_millis_def)
  then show ?thesis ..
qed

end
