(* ===== verification/Cache_Stream.thy ===== *)
theory Cache_Stream
  imports Cache_Fill "HOL-Library.Sublist"
begin

text \<open>
  A response on its way into the cache: \<open>cache/store/streaming/body.rs\<close> and the
  writer task of \<open>cache/store/streaming/finalize.rs\<close>, with the readers of a fill
  that is still running (\<open>cache/fill/local.rs\<close>, \<open>cache/fill/external.rs\<close>) and of
  a stored body (\<open>cache/entry/response/body.rs\<close>).  The body handed to the client
  copies every frame into a bounded channel; a writer task appends them to a
  temporary file and announces the bytes to readers; a client that leaves makes a
  task drain the rest.  The steps of the tasks interleave freely.  The external
  half of the announcements is modelled in \<open>Cache_Fill\<close>.
\<close>

section \<open>The channel and its writer\<close>

datatype write_message = WmData string | WmFinish "header_map option" | WmAbort

text \<open>The writer runs, has finished a body of some size, or has removed the file.\<close>

datatype writer_status = Writing | Finished nat | Discarded

text \<open>
  The tasks that may own the sending half after the body gave it up: one that
  waits to send the end of the body (and tells the readers when it cannot, if it
  fills from the origin on its own), one that drains the upstream body, and one
  that fills from the origin.
\<close>

datatype stream_task = TkFinish bool "header_map option" | TkDrain nat | TkOrigin

record stream_fill =
  sf_inner :: "body_event list"
  sf_done :: bool
  sf_dropped :: bool
  sf_cache :: bool
  sf_cached_body_bytes :: nat
  sf_task :: "stream_task option"
  sf_queue :: "write_message list"
  sf_writer :: writer_status
  sf_file :: string
  sf_body_size :: nat
  sf_state :: "cache_fill_read_state option"

definition STREAMING_CACHE_WRITE_QUEUE_DEPTH :: nat where
  "STREAMING_CACHE_WRITE_QUEUE_DEPTH = 8"

abbreviation update_fill_state :: "(cache_fill_read_state \<Rightarrow> cache_fill_read_state) \<Rightarrow> stream_fill \<Rightarrow> stream_fill" where
  "update_fill_state f sf \<equiv> sf\<lparr> sf_state := map_option f (sf_state sf) \<rparr>"

text \<open>\<open>try_send\<close> fails on a full or a closed channel.\<close>

definition can_send :: "stream_fill \<Rightarrow> bool" where
  "can_send sf \<longleftrightarrow> sf_writer sf = Writing \<and> length (sf_queue sf) < STREAMING_CACHE_WRITE_QUEUE_DEPTH"

definition push :: "write_message \<Rightarrow> stream_fill \<Rightarrow> stream_fill" where
  "push m sf = sf\<lparr> sf_queue := sf_queue sf @ [m] \<rparr>"

definition try_send_data :: "string \<Rightarrow> stream_fill \<Rightarrow> bool \<times> stream_fill" where
  "try_send_data bytes sf = (if can_send sf then (True, push (WmData bytes) sf) else (False, sf))"

definition abort :: "string \<Rightarrow> stream_fill \<Rightarrow> stream_fill" where
  "abort reason sf =
     (let sf1 = update_fill_state (set_error reason) sf in if can_send sf1 then push WmAbort sf1 else sf1)"

definition try_finish :: "header_map option \<Rightarrow> stream_fill \<Rightarrow> bool \<times> stream_fill" where
  "try_finish trailers sf =
     (if can_send sf then (True, update_fill_state set_upstream_completed (push (WmFinish trailers) sf)) else (False, sf))"

section \<open>The body handed to the client\<close>

definition disable_cache :: "stream_fill \<Rightarrow> stream_fill" where
  "disable_cache sf =
     (if sf_cache sf
      then abort ''streaming cache entry exceeded maximum entry bytes'' (sf\<lparr> sf_cache := False \<rparr>) else sf)"

text \<open>\<open>rt\<close>: whether the code runs inside a Tokio runtime, where tasks can be spawned.\<close>

definition finish_cache :: "bool \<Rightarrow> header_map option \<Rightarrow> stream_fill \<Rightarrow> stream_fill" where
  "finish_cache rt trailers sf =
     (if sf_cache sf
      then (case try_finish trailers (sf\<lparr> sf_cache := False \<rparr>) of
              (True, sf1) \<Rightarrow> sf1
            | (False, sf1) \<Rightarrow> if rt then sf1\<lparr> sf_task := Some (TkFinish False trailers) \<rparr> else sf1)
      else sf)"

definition cache_frame_data :: "nat \<Rightarrow> string \<Rightarrow> stream_fill \<Rightarrow> stream_fill" where
  "cache_frame_data max_entry_bytes data sf =
     (if data = [] \<or> \<not> sf_cache sf then sf
      else let next_body_size = sat_add_u64 (sf_cached_body_bytes sf) (length data)
           in if max_entry_bytes < next_body_size then disable_cache sf
              else case try_send_data data sf of
                     (False, sf1) \<Rightarrow> disable_cache sf1
                   | (True, sf1) \<Rightarrow> sf1\<lparr> sf_cached_body_bytes := next_body_size \<rparr>)"

text \<open>\<open>hint\<close>: the answer of the inner body's \<open>is_end_stream\<close> after the frame.\<close>

definition stream_poll_frame :: "nat \<Rightarrow> bool \<Rightarrow> bool \<Rightarrow> stream_fill \<Rightarrow> poll_result \<times> stream_fill" where
  "stream_poll_frame max_entry_bytes rt hint sf =
     (if sf_done sf then (PollEnd, sf)
      else case sf_inner sf of
        [] \<Rightarrow> (PollEnd, finish_cache rt None (sf\<lparr> sf_done := True \<rparr>))
      | EvPending # inner \<Rightarrow> (PollPending, sf\<lparr> sf_inner := inner \<rparr>)
      | EvError e # inner \<Rightarrow> (PollError e, disable_cache (sf\<lparr> sf_inner := inner, sf_done := True \<rparr>))
      | EvFrame (FTrailers trailers) # inner \<Rightarrow>
          (PollFrame (FTrailers trailers), finish_cache rt (Some trailers) (sf\<lparr> sf_inner := inner, sf_done := True \<rparr>))
      | EvFrame (FData data) # inner \<Rightarrow>
          (let sf1 = cache_frame_data max_entry_bytes data (sf\<lparr> sf_inner := inner \<rparr>)
           in (PollFrame (FData data), if hint then finish_cache rt None (sf1\<lparr> sf_done := True \<rparr>) else sf1)))"

definition stream_drop :: "bool \<Rightarrow> stream_fill \<Rightarrow> stream_fill" where
  "stream_drop rt sf =
     (let sf1 = sf\<lparr> sf_dropped := True, sf_cache := False \<rparr>
      in if \<not> sf_done sf \<and> sf_cache sf \<and> rt then sf1\<lparr> sf_task := Some (TkDrain (sf_cached_body_bytes sf)) \<rparr> else sf1)"

section \<open>Tasks\<close>

text \<open>
  Sending in a task waits while the channel is full and fails when the writer is
  gone.  \<open>finish_send\<close> is the step of a task that sends the end of the body.
\<close>

definition finish_send :: "bool \<Rightarrow> header_map option \<Rightarrow> stream_fill \<Rightarrow> stream_fill" where
  "finish_send origin trailers sf =
     (if sf_writer sf \<noteq> Writing
      then let sf1 = sf\<lparr> sf_task := None \<rparr>
           in if origin then update_fill_state (set_error ''streaming cache writer channel closed before end-of-stream'') sf1 else sf1
      else if can_send sf then update_fill_state set_upstream_completed (push (WmFinish trailers) (sf\<lparr> sf_task := None \<rparr>))
      else sf)"

text \<open>\<open>drain_remaining_frames\<close>, one frame at a time.\<close>

definition drain_step :: "nat \<Rightarrow> nat \<Rightarrow> stream_fill \<Rightarrow> stream_fill" where
  "drain_step max_entry_bytes cached_body_bytes sf =
     (case sf_inner sf of
        [] \<Rightarrow> sf\<lparr> sf_task := Some (TkFinish False None) \<rparr>
      | EvPending # inner \<Rightarrow> sf\<lparr> sf_inner := inner \<rparr>
      | EvError _ # inner \<Rightarrow> sf\<lparr> sf_inner := inner, sf_task := None \<rparr>
      | EvFrame (FTrailers trailers) # inner \<Rightarrow> sf\<lparr> sf_inner := inner, sf_task := Some (TkFinish False (Some trailers)) \<rparr>
      | EvFrame (FData data) # inner \<Rightarrow>
          if data = [] then sf\<lparr> sf_inner := inner \<rparr>
          else let next_body_size = sat_add_u64 cached_body_bytes (length data)
               in if max_entry_bytes < next_body_size \<or> sf_writer sf \<noteq> Writing then sf\<lparr> sf_inner := inner, sf_task := None \<rparr>
                  else if can_send sf then push (WmData data) (sf\<lparr> sf_inner := inner, sf_task := Some (TkDrain next_body_size) \<rparr>)
                  else sf)"

text \<open>\<open>drive_streaming_origin_fill\<close>, one frame at a time.\<close>

definition origin_step :: "bool \<Rightarrow> stream_fill \<Rightarrow> stream_fill" where
  "origin_step hint sf =
     (case sf_inner sf of
        [] \<Rightarrow> sf\<lparr> sf_task := Some (TkFinish True None) \<rparr>
      | EvPending # inner \<Rightarrow> sf\<lparr> sf_inner := inner \<rparr>
      | EvError _ # inner \<Rightarrow>
          update_fill_state (set_error ''upstream body read failed while filling cache'') (sf\<lparr> sf_inner := inner, sf_task := None \<rparr>)
      | EvFrame (FTrailers trailers) # inner \<Rightarrow> sf\<lparr> sf_inner := inner, sf_task := Some (TkFinish True (Some trailers)) \<rparr>
      | EvFrame (FData data) # inner \<Rightarrow>
          if data = [] then sf\<lparr> sf_inner := inner, sf_task := (if hint then Some (TkFinish True None) else Some TkOrigin) \<rparr>
          else if sf_writer sf \<noteq> Writing
          then update_fill_state (set_error ''streaming cache writer channel closed before EOF'') (sf\<lparr> sf_inner := inner, sf_task := None \<rparr>)
          else if can_send sf
          then push (WmData data) (sf\<lparr> sf_inner := inner, sf_task := (if hint then Some (TkFinish True None) else Some TkOrigin) \<rparr>)
          else sf)"

section \<open>The writer task\<close>

definition sender_alive :: "stream_fill \<Rightarrow> bool" where
  "sender_alive sf \<longleftrightarrow> sf_cache sf \<or> sf_task sf \<noteq> None"

text \<open>
  \<open>failure\<close>: the error of the write or flush, if it failed.  No value: the task
  waits for a message.
\<close>

definition complete_streaming_cache :: "string option \<Rightarrow> stream_fill \<Rightarrow> stream_fill option" where
  "complete_streaming_cache failure sf =
     (case sf_queue sf of
        WmData bytes # queue \<Rightarrow>
          (case failure of
             None \<Rightarrow> let size1 = sat_add_u64 (sf_body_size sf) (length bytes)
                     in Some (update_fill_state (set_bytes_written size1)
                          (sf\<lparr> sf_queue := queue, sf_file := sf_file sf @ bytes, sf_body_size := size1 \<rparr>))
           | Some e \<Rightarrow> Some (update_fill_state (set_error e) (sf\<lparr> sf_queue := queue, sf_writer := Discarded \<rparr>)))
      | WmFinish trailers # queue \<Rightarrow>
          (case failure of
             None \<Rightarrow> Some (update_fill_state (set_finished trailers)
                       (sf\<lparr> sf_queue := queue, sf_writer := Finished (sf_body_size sf) \<rparr>))
           | Some e \<Rightarrow> Some (update_fill_state (set_error e) (sf\<lparr> sf_queue := queue, sf_writer := Discarded \<rparr>)))
      | WmAbort # queue \<Rightarrow> Some (sf\<lparr> sf_queue := queue, sf_writer := Discarded \<rparr>)
      | [] \<Rightarrow>
          if sender_alive sf then None
          else Some (update_fill_state (set_error ''streaming cache writer channel closed before end-of-stream'')
                       (sf\<lparr> sf_writer := Discarded \<rparr>)))"

section \<open>Runs\<close>

text \<open>The bytes of an upstream body up to its end, and whether it ends without an error.\<close>

fun body_data :: "body_event list \<Rightarrow> string \<times> bool" where
  "body_data [] = ([], True)"
| "body_data (EvPending # inner) = body_data inner"
| "body_data (EvError _ # inner) = ([], False)"
| "body_data (EvFrame (FTrailers _) # inner) = ([], True)"
| "body_data (EvFrame (FData d) # inner) = (d @ fst (body_data inner), snd (body_data inner))"

text \<open>
  The tasks in any order.  When the inner body says that it has ended, no bytes
  follow, as the trait \<open>Body\<close> documents.
\<close>

definition hint_ok :: "bool \<Rightarrow> stream_fill \<Rightarrow> bool" where
  "hint_ok hint sf \<longleftrightarrow> (hint \<longrightarrow> body_data (tl (sf_inner sf)) = ([], True))"

inductive stream_step :: "nat \<Rightarrow> stream_fill \<Rightarrow> stream_fill \<Rightarrow> bool" for max_entry_bytes where
  poll: "\<not> sf_dropped sf \<Longrightarrow> hint_ok hint sf \<Longrightarrow>
     stream_step max_entry_bytes sf (snd (stream_poll_frame max_entry_bytes rt hint sf))"
| drop_body: "\<not> sf_dropped sf \<Longrightarrow> stream_step max_entry_bytes sf (stream_drop rt sf)"
| finish: "sf_task sf = Some (TkFinish origin trailers) \<Longrightarrow> stream_step max_entry_bytes sf (finish_send origin trailers sf)"
| drain: "sf_task sf = Some (TkDrain n) \<Longrightarrow> stream_step max_entry_bytes sf (drain_step max_entry_bytes n sf)"
| origin: "sf_task sf = Some TkOrigin \<Longrightarrow> hint_ok hint sf \<Longrightarrow> stream_step max_entry_bytes sf (origin_step hint sf)"
| writer_step: "sf_writer sf = Writing \<Longrightarrow> complete_streaming_cache failure sf = Some sf' \<Longrightarrow> stream_step max_entry_bytes sf sf'"

inductive stream_run :: "nat \<Rightarrow> stream_fill \<Rightarrow> stream_fill \<Rightarrow> bool" for max_entry_bytes where
  start: "stream_run max_entry_bytes sf sf"
| step: "stream_run max_entry_bytes sf sf' \<Longrightarrow> stream_step max_entry_bytes sf' sf'' \<Longrightarrow> stream_run max_entry_bytes sf sf''"

text \<open>A fill starts with the client's body as the sender, or with the task that reads the origin.\<close>

definition stream_start :: "bool \<Rightarrow> body_event list \<Rightarrow> cache_fill_read_state option \<Rightarrow> stream_fill" where
  "stream_start by_task inner state =
     \<lparr> sf_inner = inner, sf_done = False, sf_dropped = by_task, sf_cache = (\<not> by_task), sf_cached_body_bytes = 0,
       sf_task = (if by_task then Some TkOrigin else None), sf_queue = [], sf_writer = Writing, sf_file = [],
       sf_body_size = 0, sf_state = state \<rparr>"

section \<open>Only whole bodies are finished\<close>

fun queue_data :: "write_message list \<Rightarrow> string" where
  "queue_data [] = []"
| "queue_data (WmData d # q) = d @ queue_data q"
| "queue_data (_ # q) = queue_data q"

fun ends_with_finish :: "write_message list \<Rightarrow> bool" where
  "ends_with_finish [] = False"
| "ends_with_finish (WmData d # q) = ends_with_finish q"
| "ends_with_finish (WmFinish t # q) = (q = [])"
| "ends_with_finish (WmAbort # q) = False"

abbreviation data_only :: "write_message list \<Rightarrow> bool" where
  "data_only q \<equiv> list_all (\<lambda>m. \<exists>d. m = WmData d) q"

definition feeding :: "stream_fill \<Rightarrow> bool" where
  "feeding sf \<longleftrightarrow> sf_cache sf \<or> sf_task sf = Some TkOrigin \<or> (\<exists>n. sf_task sf = Some (TkDrain n))"

definition finishing :: "stream_fill \<Rightarrow> bool" where
  "finishing sf \<longleftrightarrow> (\<exists>orig t. sf_task sf = Some (TkFinish orig t))"

definition written :: "string \<times> bool \<Rightarrow> stream_fill \<Rightarrow> bool" where
  "written whole sf \<longleftrightarrow> (sf_file sf @ queue_data (sf_queue sf), True) = whole"

definition on_track :: "string \<times> bool \<Rightarrow> stream_fill \<Rightarrow> bool" where
  "on_track whole sf \<longleftrightarrow>
     (if feeding sf then data_only (sf_queue sf) \<and>
        (sf_file sf @ queue_data (sf_queue sf) @ fst (body_data (sf_inner sf)), snd (body_data (sf_inner sf))) = whole
      else if finishing sf then data_only (sf_queue sf) \<and> written whole sf
      else ends_with_finish (sf_queue sf) \<and> written whole sf
        \<or> (\<forall>t. WmFinish t \<notin> set (sf_queue sf)) \<and> prefix (sf_file sf @ queue_data (sf_queue sf)) (fst whole))"

definition stream_inv :: "string \<times> bool \<Rightarrow> stream_fill \<Rightarrow> bool" where
  "stream_inv whole sf \<longleftrightarrow>
     (sf_cache sf \<longrightarrow> sf_task sf = None \<and> \<not> sf_done sf) \<and>
     (sf_task sf = Some TkOrigin \<or> (\<exists>n. sf_task sf = Some (TkDrain n)) \<longrightarrow> sf_dropped sf) \<and>
     sf_body_size sf = min u64_max (length (sf_file sf)) \<and>
     (case sf_writer sf of
        Discarded \<Rightarrow> prefix (sf_file sf) (fst whole)
      | Finished n \<Rightarrow> (sf_file sf, True) = whole \<and> n = sf_body_size sf
      | Writing \<Rightarrow> on_track whole sf)"

lemma queue_data_append [simp]: "queue_data (q @ q') = queue_data q @ queue_data q'"
  by (induction q rule: queue_data.induct) simp_all

lemma ends_with_finish_push: "data_only q \<Longrightarrow> ends_with_finish (q @ [WmFinish t])"
  by (induction q) auto

lemma queue_data_no_finish: "data_only q \<Longrightarrow> WmFinish t \<notin> set q"
  by (auto simp: list_all_iff)

lemma push_simps [simp]:
  "sf_queue (push m sf) = sf_queue sf @ [m]" "sf_inner (push m sf) = sf_inner sf" "sf_done (push m sf) = sf_done sf"
  "sf_dropped (push m sf) = sf_dropped sf" "sf_cache (push m sf) = sf_cache sf" "sf_task (push m sf) = sf_task sf"
  "sf_writer (push m sf) = sf_writer sf" "sf_file (push m sf) = sf_file sf" "sf_body_size (push m sf) = sf_body_size sf"
  "sf_state (push m sf) = sf_state sf"
  by (simp_all add: push_def)

lemma can_send_writing: "can_send sf \<Longrightarrow> sf_writer sf = Writing"
  by (simp add: can_send_def)

lemmas stream_defs = stream_inv_def on_track_def feeding_def finishing_def written_def

lemma cache_frame_data_inv:
  assumes "stream_inv whole sf" and "sf_inner sf = EvFrame (FData data) # inner" and "\<not> sf_done sf" and "\<not> sf_dropped sf"
  shows "stream_inv whole (cache_frame_data max_entry_bytes data (sf\<lparr> sf_inner := inner \<rparr>))
     \<and> sf_inner (cache_frame_data max_entry_bytes data (sf\<lparr> sf_inner := inner \<rparr>)) = inner
     \<and> \<not> sf_dropped (cache_frame_data max_entry_bytes data (sf\<lparr> sf_inner := inner \<rparr>))"
  using assms
  by (cases "sf_writer sf")
    (auto simp: cache_frame_data_def disable_cache_def abort_def try_send_data_def can_send_def stream_defs Let_def
      queue_data_no_finish split: if_splits)

lemma finish_cache_inv:
  assumes "stream_inv whole sf" and "body_data (sf_inner sf) = ([], True)" and "\<not> sf_dropped sf"
  shows "stream_inv whole (finish_cache rt trailers (sf\<lparr> sf_inner := inner', sf_done := True \<rparr>))"
    and "stream_inv whole (finish_cache rt trailers (sf\<lparr> sf_done := True \<rparr>))"
  using assms
  by (cases "sf_writer sf";
      auto simp: finish_cache_def try_finish_def can_send_def stream_defs Let_def queue_data_no_finish ends_with_finish_push split: if_splits)+

lemma disable_cache_inv:
  assumes "stream_inv whole sf" and "\<not> sf_dropped sf"
  shows "stream_inv whole (disable_cache (sf\<lparr> sf_inner := inner', sf_done := True \<rparr>))"
  using assms
  by (cases "sf_writer sf")
    (auto simp: disable_cache_def abort_def can_send_def stream_defs Let_def queue_data_no_finish ends_with_finish_push split: if_splits)

lemma poll_inv:
  assumes "stream_inv whole sf" and "\<not> sf_dropped sf" and "hint_ok hint sf"
  shows "stream_inv whole (snd (stream_poll_frame max_entry_bytes rt hint sf))"
proof (cases "sf_done sf")
  case False
  show ?thesis
  proof (cases "sf_inner sf" rule: body_data.cases)
    case 1
    with assms False finish_cache_inv(2) [of whole sf] show ?thesis
      by (simp add: stream_poll_frame_def)
  next
    case (2 inner)
    with assms False show ?thesis
      by (cases "sf_writer sf") (auto simp: stream_poll_frame_def stream_defs)
  next
    case (3 e inner)
    with assms False disable_cache_inv [where whole = whole and sf = sf and inner' = inner] show ?thesis by (simp add: stream_poll_frame_def)
  next
    case (4 trailers inner)
    with assms False finish_cache_inv(1) [of whole sf] show ?thesis
      by (simp add: stream_poll_frame_def)
  next
    case (5 data inner)
    let ?sf1 = "cache_frame_data max_entry_bytes data (sf\<lparr> sf_inner := inner \<rparr>)"
    have i: "stream_inv whole ?sf1" "sf_inner ?sf1 = inner" "\<not> sf_dropped ?sf1"
      using cache_frame_data_inv [OF assms(1) 5 False assms(2)] by simp_all
    have "hint \<Longrightarrow> body_data inner = ([], True)" using assms(3) 5 by (simp add: hint_ok_def)
    with i finish_cache_inv(2) [of whole ?sf1] 5 False show ?thesis
      by (auto simp: stream_poll_frame_def Let_def)
  qed
qed (use assms in \<open>simp add: stream_poll_frame_def\<close>)

lemma drop_inv: "stream_inv whole sf \<Longrightarrow> stream_inv whole (stream_drop rt sf)"
  by (cases "sf_writer sf") (auto simp: stream_drop_def stream_defs Let_def queue_data_no_finish ends_with_finish_push split: if_splits)

lemma finish_inv:
  assumes "stream_inv whole sf" and "sf_task sf = Some (TkFinish orig trailers)"
  shows "stream_inv whole (finish_send orig trailers sf)"
  using assms
  by (cases "sf_writer sf") (auto simp: finish_send_def can_send_def stream_defs Let_def ends_with_finish_push split: if_splits)

lemma drain_inv:
  assumes "stream_inv whole sf" and "sf_task sf = Some (TkDrain n)"
  shows "stream_inv whole (drain_step max_entry_bytes n sf)"
  using assms
  by (cases "sf_inner sf" rule: body_data.cases; cases "sf_writer sf")
    (auto simp: drain_step_def can_send_def stream_defs Let_def queue_data_no_finish ends_with_finish_push split: if_splits)

lemma origin_inv:
  assumes "stream_inv whole sf" and "sf_task sf = Some TkOrigin" and "hint_ok hint sf"
  shows "stream_inv whole (origin_step hint sf)"
  using assms
  by (cases "sf_inner sf" rule: body_data.cases; cases "sf_writer sf")
    (auto simp: origin_step_def can_send_def stream_defs hint_ok_def Let_def queue_data_no_finish split: if_splits)

lemma writer_keeps:
  assumes "complete_streaming_cache failure sf = Some sf'"
  shows "sf_inner sf' = sf_inner sf" "sf_task sf' = sf_task sf" "sf_cache sf' = sf_cache sf" "sf_done sf' = sf_done sf"
    "sf_dropped sf' = sf_dropped sf" "feeding sf' = feeding sf" "finishing sf' = finishing sf"
  using assms
  by (auto simp: complete_streaming_cache_def feeding_def finishing_def Let_def
      split: list.splits write_message.splits option.splits if_splits)

lemma writer_data_inv:
  assumes "stream_inv whole sf" and "sf_writer sf = Writing" and "sf_queue sf = WmData d # queue"
  shows "stream_inv whole (update_fill_state f (sf\<lparr> sf_queue := queue, sf_file := sf_file sf @ d,
           sf_body_size := sat_add_u64 (sf_body_size sf) (length d) \<rparr>))"
    and "prefix (sf_file sf) (fst whole)"
  using assms
  by (cases "feeding sf"; cases "finishing sf";
      auto simp: stream_inv_def on_track_def written_def feeding_def finishing_def sat_add_u64_def dest: append_prefixD)+

lemma writer_inv:
  assumes "stream_inv whole sf" and "sf_writer sf = Writing" and "complete_streaming_cache failure sf = Some sf'"
  shows "stream_inv whole sf'"
proof (cases "sf_queue sf")
  case Nil
  with assms show ?thesis
    by (auto simp: complete_streaming_cache_def stream_defs sender_alive_def split: if_splits)
next
  case (Cons m queue)
  note keeps = writer_keeps [OF assms(3)]
  have track: "on_track whole sf" using assms(1,2) by (simp add: stream_inv_def)
  show ?thesis
  proof (cases m)
    case (WmData d)
    show ?thesis
    proof (cases failure)
      case None
      with WmData Cons assms(3) have "sf' = update_fill_state (set_bytes_written (sat_add_u64 (sf_body_size sf) (length d)))
          (sf\<lparr> sf_queue := queue, sf_file := sf_file sf @ d, sf_body_size := sat_add_u64 (sf_body_size sf) (length d) \<rparr>)"
        by (simp add: complete_streaming_cache_def Let_def)
      with writer_data_inv(1) [OF assms(1,2)] WmData Cons show ?thesis by simp
    next
      case (Some e)
      with WmData Cons writer_data_inv(2) [OF assms(1,2)] assms show ?thesis
        by (auto simp: complete_streaming_cache_def stream_inv_def)
    qed
  next
    case (WmFinish t)
    with Cons track have "written whole sf" "queue = []" "sf_writer sf' = Discarded \<or> (\<exists>n. sf_writer sf' = Finished n)"
      using assms(3) by (auto simp: on_track_def complete_streaming_cache_def split: if_splits option.splits)
    with Cons WmFinish assms show ?thesis
      by (auto simp: complete_streaming_cache_def stream_inv_def written_def split: option.splits)
  next
    case WmAbort
    with Cons track have "prefix (sf_file sf @ queue_data queue) (fst whole)"
      by (auto simp: on_track_def split: if_splits)
    with Cons WmAbort assms show ?thesis
      by (auto simp: complete_streaming_cache_def stream_inv_def dest: append_prefixD)
  qed
qed

lemma stream_run_inv: "stream_run max_entry_bytes sf sf' \<Longrightarrow> stream_inv whole sf \<Longrightarrow> stream_inv whole sf'"
proof (induction rule: stream_run.induct)
  case (step sf sf' sf'')
  from step.hyps(2) step.IH [OF step.prems] show ?case
    by cases (auto intro: poll_inv drop_inv finish_inv drain_inv origin_inv writer_inv)
qed

lemma stream_start_inv: "stream_inv (body_data inner) (stream_start by_task inner state)"
  by (simp add: stream_start_def stream_defs u64_max_def)


text \<open>A fill of two bytes: the client reads them, the writer takes the data, then the end.\<close>

definition sample_body :: "body_event list" where
  "sample_body = [EvFrame (FData ''ab'')]"

definition sample_polled :: "cache_fill_read_state option \<Rightarrow> stream_fill" where
  "sample_polled state = (stream_start False sample_body state)\<lparr> sf_inner := [], sf_done := True, sf_cache := False,
     sf_cached_body_bytes := 2, sf_queue := [WmData ''ab'', WmFinish None], sf_state := map_option set_upstream_completed state \<rparr>"

definition sample_written :: "cache_fill_read_state option \<Rightarrow> stream_fill" where
  "sample_written state = update_fill_state (set_bytes_written 2)
     ((sample_polled state)\<lparr> sf_queue := [WmFinish None], sf_file := ''ab'', sf_body_size := 2 \<rparr>)"

definition sample_finished :: "cache_fill_read_state option \<Rightarrow> stream_fill" where
  "sample_finished state = update_fill_state (set_finished None)
     ((sample_written state)\<lparr> sf_queue := [], sf_writer := Finished 2 \<rparr>)"

lemmas sample_fill_defs = sample_body_def sample_polled_def sample_written_def sample_finished_def stream_start_def

lemma sample_fill_steps:
  "stream_step 10 (stream_start False sample_body state) (sample_polled state)"
  "stream_step 10 (sample_polled state) (sample_written state)"
  "stream_step 10 (sample_written state) (sample_finished state)"
proof -
  let ?s = "stream_start False sample_body state"
  have "stream_step 10 ?s (snd (stream_poll_frame 10 True True ?s))"
    by (rule stream_step.poll) (simp_all add: sample_fill_defs hint_ok_def)
  moreover have "snd (stream_poll_frame 10 True True ?s) = sample_polled state"
    by (simp add: stream_poll_frame_def sample_fill_defs cache_frame_data_def try_send_data_def can_send_def
        STREAMING_CACHE_WRITE_QUEUE_DEPTH_def finish_cache_def try_finish_def push_def Let_def sat_add_u64_def u64_max_def)
  ultimately show "stream_step 10 ?s (sample_polled state)" by simp
  show "stream_step 10 (sample_polled state) (sample_written state)"
    by (rule stream_step.writer_step [where failure = None])
      (simp_all add: sample_fill_defs complete_streaming_cache_def Let_def sat_add_u64_def u64_max_def numeral_2_eq_2)
  show "stream_step 10 (sample_written state) (sample_finished state)"
    by (rule stream_step.writer_step [where failure = None])
      (simp_all add: sample_fill_defs complete_streaming_cache_def)
qed


section \<open>Readers of a running fill\<close>

definition IN_FLIGHT_FILL_READ_CHUNK_BYTES :: nat where
  "IN_FLIGHT_FILL_READ_CHUNK_BYTES = 16 * 1024"

text \<open>
  Where a reader is between two accesses to shared state: at the top of its loop,
  after it took its snapshot of the shared record (external readers), after it
  learned how many bytes there are, after it found no new bytes, and after it
  found no error.  It ends with the trailers, or with an error.
\<close>

datatype reader_pc = RdTop | RdSnapshot | RdAvailable nat | RdNoData | RdNoError | RdEnd "header_map option" | RdFailed

record fill_reader =
  rd_offset :: nat
  rd_out :: string
  rd_pc :: reader_pc
  rd_finished :: bool
  rd_error :: bool
  rd_trailers :: "header_map option"

definition reader_start :: fill_reader where
  "reader_start = \<lparr> rd_offset = 0, rd_out = [], rd_pc = RdTop, rd_finished = False, rd_error = False, rd_trailers = None \<rparr>"

text \<open>The announced bytes are in the file, so reading them fills the buffer.\<close>

definition read_chunk :: "nat \<Rightarrow> string \<Rightarrow> fill_reader \<Rightarrow> fill_reader" where
  "read_chunk available file rd =
     (let chunk_len = min (available - rd_offset rd) IN_FLIGHT_FILL_READ_CHUNK_BYTES
      in rd\<lparr> rd_out := rd_out rd @ take chunk_len (drop (rd_offset rd) file),
            rd_offset := sat_add_u64 (rd_offset rd) chunk_len, rd_pc := RdTop \<rparr>)"

definition stream_inflight_fill_body :: "cache_fill_read_state \<Rightarrow> string \<Rightarrow> fill_reader \<Rightarrow> fill_reader" where
  "stream_inflight_fill_body state file rd =
     (case rd_pc rd of
        RdTop \<Rightarrow> rd\<lparr> rd_pc := RdAvailable (rs_bytes_written state) \<rparr>
      | RdAvailable available \<Rightarrow>
          if rd_offset rd < available then read_chunk available file rd else rd\<lparr> rd_pc := RdNoData \<rparr>
      | RdNoData \<Rightarrow> rd\<lparr> rd_pc := (if rs_error state \<noteq> None then RdFailed else RdNoError) \<rparr>
      | RdNoError \<Rightarrow> rd\<lparr> rd_pc := (if rs_finished state then RdEnd (rs_trailers state) else RdTop) \<rparr>
      | _ \<Rightarrow> rd)"

text \<open>
  The reader of another worker sees the shared record and the length of the file.
  The record is what the filling worker last published; a failed read keeps the
  old snapshot.  \<open>visible\<close> is the length that the file system reports.
\<close>

definition stream_external_fill_body :: "shared_fill_state_record option \<Rightarrow> nat \<Rightarrow> string \<Rightarrow> fill_reader \<Rightarrow> fill_reader" where
  "stream_external_fill_body snapshot visible file rd =
     (case rd_pc rd of
        RdTop \<Rightarrow>
          (case snapshot of
             None \<Rightarrow> rd\<lparr> rd_pc := RdSnapshot \<rparr>
           | Some record \<Rightarrow> rd\<lparr> rd_pc := RdSnapshot, rd_finished := fs_finished record, rd_error := (fs_error record \<noteq> None),
               rd_trailers := map_option (map (\<lambda>h. (sfh_name h, sfh_value h))) (fs_trailers record) \<rparr>)
      | RdSnapshot \<Rightarrow> rd\<lparr> rd_pc := RdAvailable visible \<rparr>
      | RdAvailable available \<Rightarrow>
          if rd_offset rd < available then read_chunk available file rd else rd\<lparr> rd_pc := RdNoData \<rparr>
      | RdNoData \<Rightarrow> rd\<lparr> rd_pc := (if rd_error rd then RdFailed else RdNoError) \<rparr>
      | RdNoError \<Rightarrow> rd\<lparr> rd_pc := (if rd_finished rd then RdEnd (rd_trailers rd) else RdTop) \<rparr>
      | _ \<Rightarrow> rd)"

text \<open>A fill with one reader of this worker and one of another, all steps interleaved.\<close>

record read_fill =
  rf_fill :: stream_fill
  rf_local :: fill_reader
  rf_external :: fill_reader

inductive read_step :: "nat \<Rightarrow> read_fill \<Rightarrow> read_fill \<Rightarrow> bool" for max_entry_bytes where
  fill_step: "stream_step max_entry_bytes (rf_fill r) sf \<Longrightarrow> read_step max_entry_bytes r (r\<lparr> rf_fill := sf \<rparr>)"
| local_step: "sf_state (rf_fill r) = Some state \<Longrightarrow>
     read_step max_entry_bytes r (r\<lparr> rf_local := stream_inflight_fill_body state (sf_file (rf_fill r)) (rf_local r) \<rparr>)"
| external_step: "(\<And>record. snapshot = Some record \<Longrightarrow> fs_finished record \<Longrightarrow>
       \<exists>state. sf_state (rf_fill r) = Some state \<and> rs_finished state) \<Longrightarrow>
     read_step max_entry_bytes r
       (r\<lparr> rf_external := stream_external_fill_body snapshot (length (sf_file (rf_fill r))) (sf_file (rf_fill r)) (rf_external r) \<rparr>)"

inductive read_run :: "nat \<Rightarrow> read_fill \<Rightarrow> read_fill \<Rightarrow> bool" for max_entry_bytes where
  start: "read_run max_entry_bytes r r"
| step: "read_run max_entry_bytes r r' \<Longrightarrow> read_step max_entry_bytes r' r'' \<Longrightarrow> read_run max_entry_bytes r r''"

definition read_start :: "bool \<Rightarrow> body_event list \<Rightarrow> cache_fill_read_state \<Rightarrow> read_fill" where
  "read_start by_task inner state =
     \<lparr> rf_fill = stream_start by_task inner (Some state), rf_local = reader_start, rf_external = reader_start \<rparr>"

definition fill_finished :: "stream_fill \<Rightarrow> bool" where
  "fill_finished sf \<longleftrightarrow> (\<exists>n. sf_writer sf = Finished n)"

text \<open>What the read state tells about the writer.\<close>

definition state_ok :: "stream_fill \<Rightarrow> bool" where
  "state_ok sf \<longleftrightarrow> (\<forall>state. sf_state sf = Some state \<longrightarrow>
     rs_bytes_written state \<le> length (sf_file sf) \<and> (rs_finished state \<longrightarrow> fill_finished sf))"

definition reader_ok :: "string \<Rightarrow> fill_reader \<Rightarrow> bool" where
  "reader_ok file rd \<longleftrightarrow> rd_offset rd \<le> length file \<and> rd_out rd = take (rd_offset rd) file
     \<and> (\<forall>n. rd_pc rd = RdAvailable n \<longrightarrow> n \<le> length file)"

definition external_ok :: "stream_fill \<Rightarrow> fill_reader \<Rightarrow> bool" where
  "external_ok sf rd \<longleftrightarrow>
     (rd_finished rd \<longrightarrow> fill_finished sf \<and> (\<forall>n. rd_pc rd = RdAvailable n \<longrightarrow> n = length (sf_file sf))
        \<and> (rd_pc rd = RdNoData \<or> rd_pc rd = RdNoError \<longrightarrow> rd_offset rd = length (sf_file sf)))
     \<and> (\<forall>t. rd_pc rd = RdEnd t \<longrightarrow> fill_finished sf \<and> rd_offset rd = length (sf_file sf))"

definition read_inv :: "string \<times> bool \<Rightarrow> read_fill \<Rightarrow> bool" where
  "read_inv whole r \<longleftrightarrow> stream_inv whole (rf_fill r) \<and> state_ok (rf_fill r) \<and> length (fst whole) \<le> u64_max
     \<and> reader_ok (sf_file (rf_fill r)) (rf_local r) \<and> reader_ok (sf_file (rf_fill r)) (rf_external r)
     \<and> external_ok (rf_fill r) (rf_external r)"

text \<open>The steps of the senders leave the file, the writer and the progress of the read state alone.\<close>

definition progress :: "cache_fill_read_state \<Rightarrow> nat \<times> bool" where
  "progress state = (rs_bytes_written state, rs_finished state)"

definition quiet :: "stream_fill \<Rightarrow> stream_fill \<Rightarrow> bool" where
  "quiet sf sf' \<longleftrightarrow> sf_file sf' = sf_file sf \<and> sf_writer sf' = sf_writer sf
     \<and> map_option progress (sf_state sf') = map_option progress (sf_state sf)"

lemma progress_simps [simp]:
  "progress (set_error e state) = progress state" "progress (set_upstream_completed state) = progress state"
  by (simp_all add: progress_def set_error_def set_upstream_completed_def)

lemma progress_update_simps [simp]:
  "map_option progress (map_option (set_error e) x) = map_option progress x"
  "map_option progress (map_option set_upstream_completed x) = map_option progress x"
  by (simp_all add: option.map_comp comp_def)

lemma sender_quiet:
  "quiet sf (snd (stream_poll_frame max_entry_bytes rt hint sf))"
  "quiet sf (stream_drop rt sf)"
  "quiet sf (finish_send orig trailers sf)"
  "quiet sf (drain_step max_entry_bytes n sf)"
  "quiet sf (origin_step hint sf)"
  by (simp_all add: quiet_def stream_poll_frame_def stream_drop_def finish_send_def drain_step_def origin_step_def
      cache_frame_data_def disable_cache_def abort_def try_send_data_def finish_cache_def try_finish_def Let_def
      split: list.split body_event.split body_frame.split)

lemma quiet_state_ok: "quiet sf sf' \<Longrightarrow> state_ok sf \<Longrightarrow> state_ok sf'"
  by (cases "sf_state sf"; cases "sf_state sf'") (auto simp: quiet_def state_ok_def fill_finished_def progress_def)

lemma writer_state_ok:
  assumes "stream_inv whole sf" and "state_ok sf" and "sf_writer sf = Writing" and "complete_streaming_cache failure sf = Some sf'"
  shows "state_ok sf' \<and> (\<exists>d. sf_file sf' = sf_file sf @ d)"
proof (cases "sf_queue sf")
  case Nil
  with assms show ?thesis
    by (auto simp: complete_streaming_cache_def state_ok_def fill_finished_def set_error_def split: if_splits)
next
  case (Cons m queue)
  with assms show ?thesis
    by (cases m)
      (auto simp: complete_streaming_cache_def state_ok_def fill_finished_def set_error_def set_finished_def set_bytes_written_def
        stream_inv_def Let_def sat_add_u64_def split: option.splits)
qed

lemma stream_step_file:
  assumes "stream_step max_entry_bytes sf sf'" and "stream_inv whole sf" and "state_ok sf"
  shows "stream_inv whole sf' \<and> state_ok sf' \<and> (\<exists>d. sf_file sf' = sf_file sf @ d)
     \<and> (fill_finished sf \<longrightarrow> sf_file sf' = sf_file sf \<and> fill_finished sf')"
proof -
  have inv: "stream_inv whole sf'"
    using assms(1) by (rule stream_run_inv [OF stream_run.step [OF stream_run.start] assms(2)])
  from assms(1) show ?thesis
  proof cases
    case (writer_step failure)
    with inv writer_state_ok [OF assms(2,3)] show ?thesis by (auto simp: fill_finished_def)
  qed (use inv assms(3) sender_quiet quiet_state_ok in \<open>auto simp: quiet_def fill_finished_def\<close>)
qed

lemma reader_ok_grows: "reader_ok file rd \<Longrightarrow> reader_ok (file @ d) rd"
  by (auto simp: reader_ok_def)

lemma read_chunk_ok:
  assumes "reader_ok file rd" and "available \<le> length file" and "length file \<le> u64_max"
  shows "reader_ok file (read_chunk available file rd)"
proof -
  let ?n = "min (available - rd_offset rd) IN_FLIGHT_FILL_READ_CHUNK_BYTES"
  have "sat_add_u64 (rd_offset rd) ?n = rd_offset rd + ?n" "rd_offset rd + ?n \<le> length file"
    using assms by (auto simp: reader_ok_def sat_add_u64_def)
  with assms(1) show ?thesis by (auto simp: reader_ok_def read_chunk_def Let_def take_add)
qed

lemma local_reader_ok:
  assumes "reader_ok file rd" and "rs_bytes_written state \<le> length file" and "length file \<le> u64_max"
  shows "reader_ok file (stream_inflight_fill_body state file rd)"
  using assms read_chunk_ok [OF assms(1) _ assms(3)]
  by (auto simp: stream_inflight_fill_body_def reader_ok_def split: reader_pc.split)

lemma external_reader_ok:
  assumes "reader_ok file rd" and "length file \<le> u64_max"
  shows "reader_ok file (stream_external_fill_body snapshot (length file) file rd)"
  using assms read_chunk_ok [OF assms(1) _ assms(2)]
  by (auto simp: stream_external_fill_body_def reader_ok_def split: reader_pc.split option.split)

lemma external_step_ok:
  assumes "external_ok sf rd" and "reader_ok (sf_file sf) rd"
    and "\<And>record. snapshot = Some record \<Longrightarrow> fs_finished record \<Longrightarrow> fill_finished sf"
  shows "external_ok sf (stream_external_fill_body snapshot (length (sf_file sf)) (sf_file sf) rd)"
  using assms
  by (cases "rd_pc rd")
    (auto simp: stream_external_fill_body_def external_ok_def reader_ok_def read_chunk_def Let_def split: option.splits)

lemma stream_file_bound: "stream_inv whole sf \<Longrightarrow> prefix (sf_file sf) (fst whole)"
  by (cases "sf_writer sf") (auto simp: stream_defs prefix_def split: if_splits)

lemma read_step_inv:
  assumes "read_step max_entry_bytes r r'" and "read_inv whole r"
  shows "read_inv whole r'"
  using assms(1)
proof cases
  case (fill_step sf)
  have s: "stream_inv whole sf \<and> state_ok sf \<and> (\<exists>d. sf_file sf = sf_file (rf_fill r) @ d)
     \<and> (fill_finished (rf_fill r) \<longrightarrow> sf_file sf = sf_file (rf_fill r) \<and> fill_finished sf)"
    by (rule stream_step_file [OF fill_step(2)]) (use assms(2) in \<open>simp_all add: read_inv_def\<close>)
  then have "reader_ok (sf_file sf) (rf_local r)" "reader_ok (sf_file sf) (rf_external r)"
    using assms(2) by (auto simp: read_inv_def intro: reader_ok_grows)
  with s fill_step assms(2) show ?thesis
    by (simp add: read_inv_def external_ok_def)
next
  case (local_step state)
  with assms(2) show ?thesis
    using stream_file_bound [of whole "rf_fill r"]
    by (auto simp: read_inv_def state_ok_def dest!: prefix_length_le intro!: local_reader_ok)
next
  case (external_step snapshot)
  with assms(2) show ?thesis
    using stream_file_bound [of whole "rf_fill r"]
    by (auto simp: read_inv_def state_ok_def dest!: prefix_length_le intro!: external_reader_ok external_step_ok)
qed

lemma read_run_inv: "read_run max_entry_bytes r r' \<Longrightarrow> read_inv whole r \<Longrightarrow> read_inv whole r'"
  by (induction rule: read_run.induct) (auto intro: read_step_inv)

lemma read_start_inv:
  "length (fst (body_data inner)) \<le> u64_max \<Longrightarrow> rs_bytes_written state = 0 \<Longrightarrow> \<not> rs_finished state \<Longrightarrow>
   read_inv (body_data inner) (read_start by_task inner state)"
  using stream_start_inv [of inner by_task "Some state"]
  by (simp add: read_inv_def read_start_def state_ok_def reader_ok_def external_ok_def reader_start_def)
    (simp add: stream_start_def)


text \<open>
  The reader of the filling worker looks at the two in the other order.  When the
  last bytes and the end of the fill are announced between its two looks, it ends
  without an error and without these bytes.
\<close>

definition local_look :: "read_fill \<Rightarrow> read_fill" where
  "local_look r = r\<lparr> rf_local := stream_inflight_fill_body (the (sf_state (rf_fill r))) (sf_file (rf_fill r)) (rf_local r) \<rparr>"

definition external_look :: "shared_fill_state_record \<Rightarrow> read_fill \<Rightarrow> read_fill" where
  "external_look record r =
     r\<lparr> rf_external := stream_external_fill_body (Some record) (length (sf_file (rf_fill r))) (sf_file (rf_fill r)) (rf_external r) \<rparr>"

lemma local_look_run:
  "read_run m r0 r \<Longrightarrow> sf_state (rf_fill r) = Some state \<Longrightarrow> read_run m r0 (local_look r)"
  unfolding local_look_def by (erule read_run.step) (metis option.sel read_step.local_step)

lemma external_look_run:
  "read_run m r0 r \<Longrightarrow> sf_state (rf_fill r) = Some state \<Longrightarrow> fs_finished record \<longrightarrow> rs_finished state \<Longrightarrow>
   read_run m r0 (external_look record r)"
  unfolding external_look_def by (erule read_run.step) (rule read_step.external_step, auto)

lemma fill_run:
  "read_run m r0 r \<Longrightarrow> stream_step m (rf_fill r) sf \<Longrightarrow> read_run m r0 (r\<lparr> rf_fill := sf \<rparr>)"
  by (erule read_run.step) (rule read_step.fill_step)

abbreviation sample_reading :: read_fill where
  "sample_reading \<equiv> read_start False sample_body sample_read_state"

lemma sample_fill_run:
  assumes "read_run 10 sample_reading r" and "rf_fill r = rf_fill sample_reading"
  shows "read_run 10 sample_reading (r\<lparr> rf_fill := sample_finished (Some sample_read_state) \<rparr>)"
  using fill_run [OF fill_run [OF fill_run [OF assms(1), of "sample_polled (Some sample_read_state)"]],
      of "sample_written (Some sample_read_state)" "sample_finished (Some sample_read_state)"]
    sample_fill_steps [of "Some sample_read_state"] assms(2)
  by (simp add: read_start_def)

lemma local_reader_can_miss_the_end:
  "\<exists>r. read_run 10 sample_reading r \<and> rd_pc (rf_local r) = RdEnd None \<and> rd_out (rf_local r) = []
     \<and> sf_file (rf_fill r) = ''ab'' \<and> rs_error (the (sf_state (rf_fill r))) = None"
proof -
  let ?r = "local_look (local_look (local_look sample_reading))"
  have s: "sf_state (rf_fill r) = Some sample_read_state \<Longrightarrow> sf_state (rf_fill (local_look r)) = Some sample_read_state" for r
    by (simp add: local_look_def)
  have "read_run 10 sample_reading ?r"
    by (intro local_look_run [where state = sample_read_state] read_run.start s)
      (simp_all add: read_start_def stream_start_def)
  then have "read_run 10 sample_reading (?r\<lparr> rf_fill := sample_finished (Some sample_read_state) \<rparr>)"
    by (rule sample_fill_run) (simp add: local_look_def)
  then have "read_run 10 sample_reading (local_look (?r\<lparr> rf_fill := sample_finished (Some sample_read_state) \<rparr>))"
    by (rule local_look_run) (simp add: sample_fill_defs)
  then show ?thesis
    by (intro exI [of _ "local_look (?r\<lparr> rf_fill := sample_finished (Some sample_read_state) \<rparr>)"])
      (simp add: local_look_def stream_inflight_fill_body_def read_start_def sample_fill_defs sample_read_state_def reader_start_def
        set_finished_def set_bytes_written_def set_upstream_completed_def)
qed

definition sample_finished_record :: shared_fill_state_record where
  "sample_finished_record = \<lparr> fs_nonce = ''n'', fs_share_fingerprint = [], fs_response = None, fs_upstream_completed = True,
     fs_finished = True, fs_trailers = None, fs_error = None \<rparr>"


end
