(* ===== verification/Cache_Replica.thy ===== *)
theory Cache_Replica
  imports Cache_Document
begin

text \<open>
  The workers' copies of a shared cache index
  (\<open>crates/rginx-http/src/cache/shared.rs\<close>, \<open>shared/delta.rs\<close>).  A worker publishes
  the operations it applied to its own index and, before a lookup, brings its copy
  up to date from the changes of the document or by loading it whole.

  The results of the reads of the document are arguments of the synchronisation:
  each read takes the file lock on its own, and other workers may publish between
  them.  The locale \<open>shared_replica\<close> states what an operation means; the document
  and the worker's index are its two instances.
\<close>

section \<open>The worker\<close>

record cache_replica =
  rp_zone :: cache_zone_runtime
  rp_generation :: nat
  rp_store_epoch :: nat
  rp_change_seq :: nat

definition drop_matching_hot_entries :: "cache_zone_runtime \<Rightarrow> cache_invalidation_rule \<Rightarrow> cache_zone_runtime" where
  "drop_matching_hot_entries z rule =
     z\<lparr> zr_hot_entries := (\<lambda>key. case ix_entries (zr_index z) key of
          Some entry \<Rightarrow> if invalidation_rule_matches_entry rule key entry then None else zr_hot_entries z key
        | None \<Rightarrow> zr_hot_entries z key) \<rparr>"

fun apply_delta_operation :: "cache_zone_runtime \<Rightarrow> shared_index_operation \<Rightarrow> cache_zone_runtime" where
  "apply_delta_operation z (UpsertEntry key entry) =
     (remove_hot_entry z key)\<lparr> zr_index := load_entry (zr_index z) key entry \<rparr>"
| "apply_delta_operation z (RemoveEntry key) =
     (case remove_entry (zr_index z) key of
        None \<Rightarrow> remove_hot_entry z key
      | Some (removed, ix) \<Rightarrow>
          (remove_hot_entry z key)\<lparr> zr_index :=
             ix\<lparr> ix_current_size_bytes := ix_current_size_bytes ix - ie_body_size_bytes removed,
                 ix_variants := remove_variant_key (ix_variants ix) (ie_base_key removed) key \<rparr> \<rparr>)"
| "apply_delta_operation z (TouchEntry key last_access) = z\<lparr> zr_index := touch_entry (zr_index z) key last_access \<rparr>"
| "apply_delta_operation z (SetAdmissionCount key uses) =
     z\<lparr> zr_index := (zr_index z)\<lparr> ix_admission_counts := (ix_admission_counts (zr_index z))(key \<mapsto> uses) \<rparr> \<rparr>"
| "apply_delta_operation z (RemoveAdmissionCount key) =
     z\<lparr> zr_index := (zr_index z)\<lparr> ix_admission_counts := (ix_admission_counts (zr_index z))(key := None) \<rparr> \<rparr>"
| "apply_delta_operation z (AddInvalidation rule) =
     (let ix = zr_index z;
          rules = (if rule \<in> set (ix_invalidations ix) then ix_invalidations ix else ix_invalidations ix @ [rule])
      in drop_matching_hot_entries (z\<lparr> zr_index := ix\<lparr> ix_invalidations := rules \<rparr> \<rparr>) rule)"
| "apply_delta_operation z ClearInvalidations = z\<lparr> zr_index := (zr_index z)\<lparr> ix_invalidations := [] \<rparr> \<rparr>"

definition apply_shared_index_delta :: "cache_zone_runtime \<Rightarrow> shared_index_operation list \<Rightarrow> cache_zone_runtime" where
  "apply_shared_index_delta z ops = foldl apply_delta_operation z ops"

definition reload_zone_shared_index :: "cache_replica \<Rightarrow> io_error + loaded_index \<Rightarrow> cache_replica" where
  "reload_zone_shared_index r loaded =
     (case loaded of
        Inl _ \<Rightarrow> r
      | Inr l \<Rightarrow> r\<lparr> rp_zone := clear_hot_entries ((rp_zone r)\<lparr> zr_index := ld_index l \<rparr>),
                    rp_generation := ld_generation l, rp_store_epoch := ld_store_epoch l,
                    rp_change_seq := ld_last_change_seq l \<rparr>)"

definition up_to_date :: "cache_replica \<Rightarrow> nat \<times> nat \<Rightarrow> bool" where
  "up_to_date r state = (case state of (gen, epoch) \<Rightarrow> epoch = rp_store_epoch r \<and> gen \<le> rp_generation r)"

definition sync_zone_shared_index_if_needed ::
    "cache_replica \<Rightarrow> io_error + nat \<times> nat \<Rightarrow> io_error + nat \<times> nat \<Rightarrow> io_error + loaded_changes \<Rightarrow> io_error + loaded_index \<Rightarrow>
     cache_replica" where
  "sync_zone_shared_index_if_needed r state1 state2 changes loaded =
     (case state1 of
        Inl _ \<Rightarrow> r
      | Inr s1 \<Rightarrow>
          if up_to_date r s1 then r
          else case state2 of
            Inl _ \<Rightarrow> r
          | Inr s2 \<Rightarrow>
              if up_to_date r s2 then r
              else if snd s2 \<noteq> rp_store_epoch r then reload_zone_shared_index r loaded
              else case changes of
                Inl _ \<Rightarrow> reload_zone_shared_index r loaded
              | Inr delta \<Rightarrow>
                  if lc_store_epoch delta = rp_store_epoch r \<and> rp_generation r < lc_generation delta \<and>
                     rp_change_seq r \<le> lc_last_change_seq delta \<and> lc_operations delta \<noteq> []
                  then r\<lparr> rp_zone := apply_shared_index_delta (rp_zone r) (lc_operations delta),
                          rp_generation := lc_generation delta, rp_store_epoch := lc_store_epoch delta,
                          rp_change_seq := lc_last_change_seq delta \<rparr>
                  else reload_zone_shared_index r loaded)"

text \<open>The caller has applied the operations to its own index already.\<close>

definition apply_zone_shared_index_operations_locked ::
    "cache_replica \<Rightarrow> shared_index_operation list \<Rightarrow> io_error + applied_operations \<Rightarrow> cache_replica" where
  "apply_zone_shared_index_operations_locked r ops applied =
     (if ops = [] then r
      else case applied of
        Inl _ \<Rightarrow> r
      | Inr a \<Rightarrow> r\<lparr> rp_generation := ap_generation a, rp_store_epoch := ap_store_epoch a, rp_change_seq := ap_last_change_seq a \<rparr>)"

section \<open>What an operation means\<close>

record shared_view =
  sv_entries :: "string \<Rightarrow> cache_index_entry option"
  sv_admission_counts :: "string \<Rightarrow> nat option"
  sv_rules :: "cache_invalidation_rule set"

definition touched :: "nat \<Rightarrow> cache_index_entry \<Rightarrow> cache_index_entry" where
  "touched t e = (if ie_last_access_unix_ms e < t then e\<lparr> ie_last_access_unix_ms := t \<rparr> else e)"

fun spec_apply :: "shared_index_operation \<Rightarrow> shared_view \<Rightarrow> shared_view" where
  "spec_apply (UpsertEntry k e) v = v\<lparr> sv_entries := (sv_entries v)(k \<mapsto> e) \<rparr>"
| "spec_apply (RemoveEntry k) v = v\<lparr> sv_entries := (sv_entries v)(k := None) \<rparr>"
| "spec_apply (TouchEntry k t) v = v\<lparr> sv_entries := (sv_entries v)(k := map_option (touched t) (sv_entries v k)) \<rparr>"
| "spec_apply (SetAdmissionCount k n) v = v\<lparr> sv_admission_counts := (sv_admission_counts v)(k \<mapsto> n) \<rparr>"
| "spec_apply (RemoveAdmissionCount k) v = v\<lparr> sv_admission_counts := (sv_admission_counts v)(k := None) \<rparr>"
| "spec_apply (AddInvalidation r) v = v\<lparr> sv_rules := insert r (sv_rules v) \<rparr>"
| "spec_apply ClearInvalidations v = v\<lparr> sv_rules := {} \<rparr>"

locale shared_replica =
  fixes inv :: "'s \<Rightarrow> bool" and view :: "'s \<Rightarrow> shared_view"
    and op_ok :: "shared_index_operation \<Rightarrow> bool" and step :: "'s \<Rightarrow> shared_index_operation \<Rightarrow> 's \<Rightarrow> bool"
  assumes step_keeps: "inv s \<Longrightarrow> op_ok op \<Longrightarrow> step s op s' \<Longrightarrow> inv s'"
    and step_view: "inv s \<Longrightarrow> op_ok op \<Longrightarrow> step s op s' \<Longrightarrow> view s' = spec_apply op (view s)"
begin

inductive steps :: "'s \<Rightarrow> shared_index_operation list \<Rightarrow> 's \<Rightarrow> bool" where
  "steps s [] s"
| "step s op s1 \<Longrightarrow> steps s1 ops s2 \<Longrightarrow> steps s (op # ops) s2"

lemma steps_view:
  assumes "steps s ops s'" and "inv s" and "\<forall>op \<in> set ops. op_ok op"
  shows "inv s' \<and> view s' = fold spec_apply ops (view s)"
  using assms
proof (induction rule: steps.induct)
  case (2 s op s1 ops s2)
  then have "inv s1" "view s1 = spec_apply op (view s)" using step_keeps step_view by auto
  with 2 show ?case by simp
qed simp

end

definition zone_view :: "cache_zone_runtime \<Rightarrow> shared_view" where
  "zone_view z = \<lparr> sv_entries = ix_entries (zr_index z), sv_admission_counts = ix_admission_counts (zr_index z),
     sv_rules = set (ix_invalidations (zr_index z)) \<rparr>"

lemma load_entry_fields:
  "ix_entries (load_entry ix k e) = (ix_entries ix)(k \<mapsto> e)" "ix_admission_counts (load_entry ix k e) = ix_admission_counts ix"
  "ix_invalidations (load_entry ix k e) = ix_invalidations ix"
proof -
  obtain x ix0 where i: "insert_entry ix k e = (x, ix0)" by force
  note f = insert_entry_fields [OF i]
  show "ix_entries (load_entry ix k e) = (ix_entries ix)(k \<mapsto> e)" "ix_admission_counts (load_entry ix k e) = ix_admission_counts ix"
    "ix_invalidations (load_entry ix k e) = ix_invalidations ix"
    using i f by (simp_all add: load_entry_def Let_def split: option.split)
qed

lemma touch_entry_fields:
  "ix_entries (touch_entry ix k t) = (ix_entries ix)(k := map_option (touched t) (ix_entries ix k))"
  "ix_admission_counts (touch_entry ix k t) = ix_admission_counts ix" "ix_invalidations (touch_entry ix k t) = ix_invalidations ix"
  by (auto simp: touch_entry_def touched_def fun_eq_iff split: option.split)

lemma delta_operation_view: "zone_view (apply_delta_operation z op) = spec_apply op (zone_view z)"
proof (cases op)
  case (RemoveEntry k)
  then show ?thesis
    by (cases "ix_entries (zr_index z) k")
      (auto simp: zone_view_def remove_entry_def remove_hot_entry_def fun_upd_idem)
qed (auto simp: zone_view_def load_entry_fields touch_entry_fields remove_hot_entry_def drop_matching_hot_entries_def Let_def)

interpretation worker: shared_replica "\<lambda>_. True" zone_view "\<lambda>_. True" "\<lambda>z op z'. z' = apply_delta_operation z op"
  by unfold_locales (simp_all add: delta_operation_view)

lemma worker_steps: "worker.steps z ops (apply_shared_index_delta z ops)"
  by (induction ops arbitrary: z) (auto simp: apply_shared_index_delta_def intro: worker.steps.intros)

lemma delta_view: "zone_view (apply_shared_index_delta z ops) = fold spec_apply ops (zone_view z)"
  using worker.steps_view [OF worker_steps] by simp

section \<open>The codec\<close>

definition shared_json_ok :: "shared_json \<Rightarrow> bool" where
  "shared_json_ok json \<longleftrightarrow>
     (\<forall>r b. sj_entry json r = Some b \<longrightarrow> sj_entry_of json b = Some r) \<and>
     (\<forall>r b. sj_rule json r = Some b \<longrightarrow> sj_rule_of json b = Some r) \<and>
     (\<forall>n m. sj_header_name json n = Some m \<longrightarrow> sj_header_name json m = Some m)"

definition entry_names_ok :: "shared_json \<Rightarrow> cache_index_entry \<Rightarrow> bool" where
  "entry_names_ok json e \<longleftrightarrow> (\<forall>h \<in> set (ie_vary e). sj_header_name json (vh_name h) = Some (vh_name h))"

fun shared_op_ok :: "shared_json \<Rightarrow> shared_index_operation \<Rightarrow> bool" where
  "shared_op_ok json (UpsertEntry k e) = entry_names_ok json e"
| "shared_op_ok json _ = True"

lemma bind_res_Inr_iff: "bind_res r f = Inr y \<longleftrightarrow> (\<exists>x. r = Inr x \<and> f x = Inr y)"
  by (cases r) simp_all

lemma invalid_data_Inr: "invalid_data x = Inr y \<longleftrightarrow> x = Some y"
  by (cases x) (simp_all add: invalid_data_def)

lemma collect_results_Inr: "collect_results rs = Inr xs \<longleftrightarrow> rs = map Inr xs"
  by (induction rs arbitrary: xs) (auto simp: bind_res_Inr_iff)

lemma decode_record:
  assumes "entry_names_ok json e"
  shows "cache_index_entry_from_record json (record_of_entry e) = Inr e"
proof -
  have "map (\<lambda>h. bind_res (invalid_data (sj_header_name json (svh_name h))) (\<lambda>name. Inr \<lparr> vh_name = name, vh_value = svh_value h \<rparr>))
      (sr_vary (record_of_entry e)) = map Inr (ie_vary e)"
    using assms by (auto simp: record_of_entry_def entry_names_ok_def invalid_data_def)
  then have "collect_results (map (\<lambda>h. bind_res (invalid_data (sj_header_name json (svh_name h))) (\<lambda>name. Inr \<lparr> vh_name = name, vh_value = svh_value h \<rparr>))
      (sr_vary (record_of_entry e))) = Inr (ie_vary e)" by (simp only: collect_results_Inr)
  then show ?thesis by (simp add: cache_index_entry_from_record_def) (simp add: record_of_entry_def)
qed

lemma decode_entry:
  assumes "shared_json_ok json" and "entry_names_ok json e" and "serialize_entry_record json e = Inr b"
  shows "deserialize_entry_record json b = Inr e"
proof -
  have "sj_entry_of json b = Some (record_of_entry e)"
    using assms(1,3) by (simp add: shared_json_ok_def serialize_entry_record_def invalid_data_Inr)
  then show ?thesis by (simp add: deserialize_entry_record_def invalid_data_def decode_record [OF assms(2)])
qed

lemma decode_rule:
  assumes "shared_json_ok json" and "serialize_invalidation_rule json r = Inr b"
  shows "deserialize_invalidation_rule json b = Inr r"
  using assms by (simp add: shared_json_ok_def serialize_invalidation_rule_def deserialize_invalidation_rule_def invalid_data_Inr)

lemma decoded_names_ok:
  assumes "shared_json_ok json" and "deserialize_entry_record json b = Inr e"
  shows "entry_names_ok json e"
proof -
  from assms(2) obtain r where r: "cache_index_entry_from_record json r = Inr e"
    by (auto simp: deserialize_entry_record_def bind_res_Inr_iff)
  let ?f = "\<lambda>h :: shared_vary_header. bind_res (invalid_data (sj_header_name json (svh_name h))) (\<lambda>name. Inr \<lparr> vh_name = name, vh_value = svh_value h \<rparr>)"
  from r have "collect_results (map ?f (sr_vary r)) = Inr (ie_vary e)"
    by (auto simp: cache_index_entry_from_record_def bind_res_Inr_iff)
  then have m: "map ?f (sr_vary r) = map Inr (ie_vary e)" by (simp only: collect_results_Inr)
  have "sj_header_name json (vh_name h) = Some (vh_name h)" if "h \<in> set (ie_vary e)" for h
  proof -
    have "Inr h \<in> set (map ?f (sr_vary r))" using that m by simp
    then obtain x where "Inr h = ?f x" unfolding set_map by (elim imageE) blast
    then have "?f x = Inr h" by (rule sym)
    then have "sj_header_name json (svh_name x) = Some (vh_name h)" by (auto simp: bind_res_Inr_iff invalid_data_Inr)
    with assms(1) show ?thesis unfolding shared_json_ok_def by blast
  qed
  then show ?thesis by (simp add: entry_names_ok_def)
qed

section \<open>The document as a replica\<close>

definition entry_of_bytes :: "shared_json \<Rightarrow> string \<Rightarrow> cache_index_entry option" where
  "entry_of_bytes json b = (case deserialize_entry_record json b of Inr e \<Rightarrow> Some e | Inl _ \<Rightarrow> None)"

definition document_view :: "shared_json \<Rightarrow> shared_memory_index_document \<Rightarrow> shared_view" where
  "document_view json doc =
     \<lparr> sv_entries = (\<lambda>k. Option.bind (map_of (dc_entries doc) k) (entry_of_bytes json)),
       sv_admission_counts = map_of (dc_admission_counts doc),
       sv_rules = {r. \<exists>b \<in> set (dc_invalidations doc). deserialize_invalidation_rule json b = Inr r} \<rparr>"

definition document_ok :: "shared_json \<Rightarrow> shared_memory_index_document \<Rightarrow> bool" where
  "document_ok json doc \<longleftrightarrow>
     sorted_wrt (<) (map fst (dc_entries doc)) \<and>
     (\<forall>b \<in> snd ` set (dc_entries doc). \<exists>e. deserialize_entry_record json b = Inr e) \<and>
     (\<forall>b \<in> set (dc_invalidations doc). \<exists>r. deserialize_invalidation_rule json b = Inr r)"

lemma bt_insert_sorted:
  assumes "sorted_wrt (<) (map fst m)"
  shows "sorted_wrt (<) (map fst (bt_insert k v m))" and "set (bt_insert k v m) \<subseteq> insert (k, v) (set m)"
proof -
  show "set (bt_insert k v m) \<subseteq> insert (k, v) (set m)" by (induction k v m rule: bt_insert.induct) auto
  have keys: "set (map fst (bt_insert k v m)) \<subseteq> insert k (set (map fst m))" for k and v :: 'a and m
    by (induction k v m rule: bt_insert.induct) auto
  show "sorted_wrt (<) (map fst (bt_insert k v m))" using assms
  proof (induction k v m rule: bt_insert.induct)
    case (2 k v k' v' m)
    have "k' < x" if "x \<in> fst ` set (bt_insert k v m)" "k' < k" for x
    proof -
      have "x = k \<or> x \<in> fst ` set m" using subsetD [OF keys [of k v m], of x] that(1) by simp
      with "2.prems" that(2) show ?thesis by auto
    qed
    with 2 show ?case by (auto simp: not_less_iff_gr_or_eq)
  qed simp
qed

lemma bt_remove_sorted: "sorted_wrt (<) (map fst m) \<Longrightarrow> sorted_wrt (<) (map fst (bt_remove k m))"
  by (induction m) (auto simp: bt_remove_def)

lemma bt_remove_set: "set (bt_remove k m) \<subseteq> set m"
  by (auto simp: bt_remove_def)

lemma document_operation_ok:
  assumes json: "shared_json_ok json" and ok: "document_ok json doc" and op: "shared_op_ok json op"
    and a: "apply_operation_to_document json doc op = Inr doc'"
  shows "document_ok json doc' \<and> document_view json doc' = spec_apply op (document_view json doc)"
proof -
  have stored: "\<exists>e. deserialize_entry_record json b = Inr e" if "map_of (dc_entries doc) k = Some b" for k b
    using ok map_of_SomeD [OF that] unfolding document_ok_def by force
  have sorted: "sorted_wrt (<) (map fst (dc_entries doc))" using ok by (simp add: document_ok_def)
  have put: "document_ok json (doc\<lparr> dc_entries := bt_insert k b (dc_entries doc) \<rparr>) \<and>
      document_view json (doc\<lparr> dc_entries := bt_insert k b (dc_entries doc) \<rparr>) = spec_apply (UpsertEntry k e) (document_view json doc)"
    if "deserialize_entry_record json b = Inr e" for k b e
  proof -
    have "\<forall>b' \<in> snd ` set (bt_insert k b (dc_entries doc)). \<exists>e. deserialize_entry_record json b' = Inr e"
      using bt_insert_sorted(2) [OF sorted, of k b] ok that unfolding document_ok_def by force
    with bt_insert_sorted(1) [OF sorted] ok that show ?thesis
      by (auto simp: document_ok_def document_view_def entry_of_bytes_def fun_eq_iff)
  qed
  show ?thesis
  proof (cases op)
    case (UpsertEntry k e)
    with a op obtain b where "serialize_entry_record json e = Inr b" "doc' = doc\<lparr> dc_entries := bt_insert k b (dc_entries doc) \<rparr>"
      "entry_names_ok json e" by (auto simp: bind_res_Inr_iff)
    with put [of b e k] decode_entry [OF json] UpsertEntry show ?thesis by blast
  next
    case (RemoveEntry k)
    have "\<forall>b \<in> snd ` set (bt_remove k (dc_entries doc)). \<exists>e. deserialize_entry_record json b = Inr e"
      using bt_remove_set [of k "dc_entries doc"] ok unfolding document_ok_def by force
    with RemoveEntry a ok bt_remove_sorted [OF sorted] show ?thesis
      by (auto simp: document_ok_def document_view_def fun_eq_iff)
  next
    case (TouchEntry k t)
    show ?thesis
    proof (cases "map_of (dc_entries doc) k")
      case None
      with TouchEntry a ok show ?thesis by (simp add: document_view_def fun_upd_idem)
    next
      case (Some b)
      with stored obtain e where e: "deserialize_entry_record json b = Inr e" by blast
      then have view: "sv_entries (document_view json doc) k = Some e" by (simp add: document_view_def Some entry_of_bytes_def)
      show ?thesis
      proof (cases "ie_last_access_unix_ms e < t")
        case True
        with TouchEntry a Some e obtain b' where b': "serialize_entry_record json (e\<lparr> ie_last_access_unix_ms := t \<rparr>) = Inr b'"
          "doc' = doc\<lparr> dc_entries := bt_insert k b' (dc_entries doc) \<rparr>" by (auto simp: bind_res_Inr_iff)
        have "entry_names_ok json (e\<lparr> ie_last_access_unix_ms := t \<rparr>)"
          using decoded_names_ok [OF json e] by (simp add: entry_names_ok_def)
        from put [OF decode_entry [OF json this b'(1)], of k] b'(2) TouchEntry view True
        show ?thesis by (simp add: touched_def)
      next
        case False
        with TouchEntry a Some e have "doc' = doc" by simp
        with False ok TouchEntry view show ?thesis by (simp add: touched_def fun_upd_idem)
      qed
    qed
  next
    case (AddInvalidation r)
    with a obtain b where b: "serialize_invalidation_rule json r = Inr b" "doc' = doc\<lparr> dc_invalidations := dc_invalidations doc @ [b] \<rparr>"
      by (auto simp: bind_res_Inr_iff)
    with decode_rule [OF json b(1)] ok AddInvalidation show ?thesis
      by (auto simp: document_ok_def document_view_def)
  qed (use a ok in \<open>auto simp: document_ok_def document_view_def\<close>)
qed

lemma document_bookkeeping [simp]:
  "document_ok json (doc\<lparr> dc_changes := cs \<rparr>) = document_ok json doc" "document_view json (doc\<lparr> dc_changes := cs \<rparr>) = document_view json doc"
  "document_ok json (doc\<lparr> dc_last_change_seq := n \<rparr>) = document_ok json doc"
  "document_view json (doc\<lparr> dc_last_change_seq := n \<rparr>) = document_view json doc"
  "document_ok json (doc\<lparr> dc_generation := n \<rparr>) = document_ok json doc"
  "document_view json (doc\<lparr> dc_generation := n \<rparr>) = document_view json doc"
  "document_ok json (doc\<lparr> dc_fill_locks := fl \<rparr>) = document_ok json doc"
  "document_view json (doc\<lparr> dc_fill_locks := fl \<rparr>) = document_view json doc"
  "document_ok json (doc\<lparr> dc_stale_fill_lock_cleanup_total := n \<rparr>) = document_ok json doc"
  "document_view json (doc\<lparr> dc_stale_fill_lock_cleanup_total := n \<rparr>) = document_view json doc"
  by (simp_all add: document_ok_def document_view_def)

lemma publish_operation_ok:
  assumes "shared_json_ok json" and "document_ok json doc" and "shared_op_ok json op" and "publish_operation json doc op = Inr doc'"
  shows "document_ok json doc'" and "document_view json doc' = spec_apply op (document_view json doc)"
  using assms(4) document_operation_ok [OF assms(1-3)]
  by (auto simp: publish_operation_def bind_res_Inr_iff Let_def)

text \<open>For a codec that reads back what it wrote, the document is the second replica.\<close>

interpretation shared: shared_replica "\<lambda>doc. shared_json_ok json \<and> document_ok json doc" "document_view json" "shared_op_ok json"
    "\<lambda>doc op doc'. publish_operation json doc op = Inr doc'" for json
  by unfold_locales (auto intro: publish_operation_ok)

lemma shared_steps: "publish_operations json doc ops = Inr doc' \<Longrightarrow> shared.steps json doc ops doc'"
  by (induction ops arbitrary: doc) (auto simp: bind_res_Inr_iff intro: shared.steps.intros)

section \<open>The ring of changes\<close>

definition ring_ok :: "shared_memory_index_document \<Rightarrow> bool" where
  "ring_ok doc \<longleftrightarrow> length (dc_changes doc) \<le> dc_last_change_seq doc \<and>
     map ch_seq (dc_changes doc) = [Suc (dc_last_change_seq doc - length (dc_changes doc)) ..< Suc (dc_last_change_seq doc)]"

lemma change_record_ok:
  assumes "shared_json_ok json" and "shared_op_ok json op" and "change_record_from_operation json seq gen op = Inr c"
  shows "ch_seq c = seq" and "operation_from_change_record json c = Inr op"
proof -
  show "ch_seq c = seq" using assms(3) by (cases op) (auto simp: bind_res_Inr_iff)
  show "operation_from_change_record json c = Inr op"
    using assms(2,3) decode_entry [OF assms(1)] decode_rule [OF assms(1)]
    by (cases op) (auto simp: bind_res_Inr_iff operation_from_change_record_def invalid_data_def change_op_defs)
qed

lemma document_operation_fields:
  assumes "apply_operation_to_document json doc op = Inr doc'"
  shows "dc_changes doc' = dc_changes doc" "dc_last_change_seq doc' = dc_last_change_seq doc"
    "dc_generation doc' = dc_generation doc" "dc_store_epoch doc' = dc_store_epoch doc"
  using assms by (cases op; auto simp: bind_res_Inr_iff split: option.splits if_splits)+

definition appends :: "shared_json \<Rightarrow> shared_memory_index_document \<Rightarrow> shared_index_operation list \<Rightarrow> shared_memory_index_document \<Rightarrow> bool" where
  "appends json doc ops doc' \<longleftrightarrow>
     (\<exists>cs. dc_changes doc' = dc_changes doc @ cs \<and> map ch_seq cs = [Suc (dc_last_change_seq doc) ..< Suc (dc_last_change_seq doc') ] \<and>
        map (operation_from_change_record json) cs = map Inr ops) \<and>
     dc_last_change_seq doc' = dc_last_change_seq doc + length ops \<and>
     dc_generation doc' = dc_generation doc \<and> dc_store_epoch doc' = dc_store_epoch doc"

lemma publish_operation_appends:
  assumes "shared_json_ok json" and "shared_op_ok json op" and "publish_operation json doc op = Inr doc'"
    and "dc_last_change_seq doc < u64_max"
  shows "appends json doc [op] doc'"
proof -
  from assms(3) obtain doc1 c where d: "apply_operation_to_document json doc op = Inr doc1"
    and c: "change_record_from_operation json (sat_add_u64 (dc_last_change_seq doc1) 1) (dc_generation doc1) op = Inr c"
    and doc': "doc' = doc1\<lparr> dc_last_change_seq := sat_add_u64 (dc_last_change_seq doc1) 1, dc_changes := dc_changes doc1 @ [c] \<rparr>"
    by (auto simp: publish_operation_def bind_res_Inr_iff Let_def)
  note f = document_operation_fields [OF d]
  have "sat_add_u64 (dc_last_change_seq doc) 1 = Suc (dc_last_change_seq doc)" using assms(4) by (simp add: sat_add_u64_def)
  with change_record_ok [OF assms(1,2) c] f show ?thesis by (simp add: appends_def doc')
qed

lemma publish_operations_appends:
  assumes "shared_json_ok json" and "\<forall>op \<in> set ops. shared_op_ok json op" and "publish_operations json doc ops = Inr doc'"
    and "dc_last_change_seq doc + length ops \<le> u64_max"
  shows "appends json doc ops doc'"
  using assms(2-4)
proof (induction ops arbitrary: doc)
  case Nil
  then show ?case by (simp add: appends_def)
next
  case (Cons op ops)
  then obtain doc1 where p: "publish_operation json doc op = Inr doc1" and r: "publish_operations json doc1 ops = Inr doc'"
    by (auto simp: bind_res_Inr_iff)
  have a1: "appends json doc [op] doc1" by (rule publish_operation_appends [OF assms(1) _ p]) (use Cons.prems in auto)
  have a2: "appends json doc1 ops doc'" by (rule Cons.IH [OF _ r]) (use Cons.prems a1 in \<open>auto simp: appends_def\<close>)
  obtain cs1 where c1: "dc_changes doc1 = dc_changes doc @ cs1" "map ch_seq cs1 = [Suc (dc_last_change_seq doc) ..< Suc (dc_last_change_seq doc1)]"
    "map (operation_from_change_record json) cs1 = map Inr [op]" using a1 by (auto simp: appends_def)
  obtain cs2 where c2: "dc_changes doc' = dc_changes doc1 @ cs2" "map ch_seq cs2 = [Suc (dc_last_change_seq doc1) ..< Suc (dc_last_change_seq doc')]"
    "map (operation_from_change_record json) cs2 = map Inr ops" using a2 by (auto simp: appends_def)
  have last: "dc_last_change_seq doc1 = Suc (dc_last_change_seq doc)" "dc_last_change_seq doc' = dc_last_change_seq doc1 + length ops"
    using a1 a2 by (simp_all add: appends_def)
  have "map ch_seq (cs1 @ cs2) = [Suc (dc_last_change_seq doc) ..< Suc (dc_last_change_seq doc')]"
    unfolding map_append c1(2) c2(2)
    using last upt_add_eq_append [of "Suc (dc_last_change_seq doc)" "Suc (dc_last_change_seq doc1)" "length ops"] by simp
  moreover have "dc_changes doc' = dc_changes doc @ (cs1 @ cs2)" "map (operation_from_change_record json) (cs1 @ cs2) = map Inr (op # ops)"
    using c1 c2 by simp_all
  moreover have "dc_last_change_seq doc' = dc_last_change_seq doc + length (op # ops)" using last by simp
  moreover have "dc_generation doc' = dc_generation doc" "dc_store_epoch doc' = dc_store_epoch doc" using a1 a2 by (simp_all add: appends_def)
  ultimately show ?case unfolding appends_def by blast
qed

text \<open>
  What other workers do to the document: they publish batches of operations and
  change fill locks.  \<open>published\<close> collects the operations.
\<close>

inductive published ::
    "shared_json \<Rightarrow> nat \<Rightarrow> shared_memory_index_document \<Rightarrow> shared_index_operation list \<Rightarrow> shared_memory_index_document \<Rightarrow> bool"
  for json cap doc where
  start: "published json cap doc [] doc"
| publish: "published json cap doc ops doc1 \<Longrightarrow> apply_operations json cap batch doc1 = Inr (applied, Some doc2) \<Longrightarrow>
     published json cap doc (ops @ batch) doc2"
| fill_locks: "published json cap doc ops doc1 \<Longrightarrow>
     published json cap doc ops (doc1\<lparr> dc_fill_locks := locks, dc_stale_fill_lock_cleanup_total := n \<rparr>)"

definition recent_changes :: "shared_json \<Rightarrow> shared_memory_index_document \<Rightarrow> shared_index_operation list \<Rightarrow> bool" where
  "recent_changes json doc ops \<longleftrightarrow> (length ops \<le> length (dc_changes doc) \<longrightarrow>
     map (operation_from_change_record json) (drop (length (dc_changes doc) - length ops) (dc_changes doc)) = map Inr ops)"

lemma trim_drops:
  obtains j where "j \<le> length (dc_changes doc)" "dc_changes (trim_change_ring doc cap) = drop j (dc_changes doc)"
proof
  show "(if cap = 0 then length (dc_changes doc) else length (dc_changes doc) - cap) \<le> length (dc_changes doc)" by simp
qed (simp add: trim_change_ring_def)

lemma trim_fields [simp]:
  "dc_last_change_seq (trim_change_ring doc cap) = dc_last_change_seq doc" "dc_generation (trim_change_ring doc cap) = dc_generation doc"
  "dc_store_epoch (trim_change_ring doc cap) = dc_store_epoch doc" "document_ok json (trim_change_ring doc cap) = document_ok json doc"
  "document_view json (trim_change_ring doc cap) = document_view json doc"
  by (simp_all add: trim_change_ring_def)

lemma ring_ok_drop:
  assumes "ring_ok doc" and "j \<le> length (dc_changes doc)"
  shows "ring_ok (doc\<lparr> dc_changes := drop j (dc_changes doc) \<rparr>)"
  using assms by (auto simp: ring_ok_def drop_map [symmetric] simp del: upt_Suc)

lemma drop_recent:
  assumes "length xs = n" and "j \<le> length (cs @ xs)" and "m + n \<le> length (drop j (cs @ xs))"
  shows "drop (length (drop j (cs @ xs)) - (m + n)) (drop j (cs @ xs)) = drop (length cs - m) cs @ xs"
proof -
  have "j + m \<le> length cs" using assms by simp
  then have "length cs + n - j - (m + n) + j = length cs - m" by simp
  with assms \<open>j + m \<le> length cs\<close> show ?thesis by (simp add: add.commute)
qed

lemma batch_ok:
  assumes json: "shared_json_ok json" and ops: "\<forall>op \<in> set batch. shared_op_ok json op"
    and a: "apply_operations json cap batch doc1 = Inr (applied, Some doc2)"
    and bound: "dc_last_change_seq doc1 + length batch \<le> u64_max" "dc_generation doc1 < u64_max"
    and ring: "ring_ok doc1" and recent: "recent_changes json doc1 before"
  shows "ring_ok doc2" and "recent_changes json doc2 (before @ batch)"
    and "dc_last_change_seq doc2 = dc_last_change_seq doc1 + length batch" and "dc_generation doc2 = Suc (dc_generation doc1)"
    and "dc_store_epoch doc2 = dc_store_epoch doc1" and "batch \<noteq> []" and "applied = applied_of doc2"
    and "document_ok json doc1 \<Longrightarrow> document_ok json doc2 \<and> document_view json doc2 = fold spec_apply batch (document_view json doc1)"
proof -
  let ?doc = "doc1\<lparr> dc_generation := sat_add_u64 (dc_generation doc1) 1 \<rparr>"
  from a obtain d where d: "publish_operations json ?doc batch = Inr d" and doc2: "doc2 = trim_change_ring d cap" "applied = applied_of doc2"
    and ne: "batch \<noteq> []"
    by (auto simp: apply_operations_def bind_res_Inr_iff Let_def split: if_splits)
  have ap: "appends json ?doc batch d" by (rule publish_operations_appends [OF json ops d]) (use bound(1) in simp)
  then obtain cs where cs: "dc_changes d = dc_changes doc1 @ cs" "map ch_seq cs = [Suc (dc_last_change_seq doc1) ..< Suc (dc_last_change_seq d)]"
    "map (operation_from_change_record json) cs = map Inr batch" by (auto simp: appends_def)
  have last: "dc_last_change_seq d = dc_last_change_seq doc1 + length batch" using ap by (simp add: appends_def)
  have len: "length cs = length batch" using cs(3) by (metis length_map)
  show "batch \<noteq> []" "applied = applied_of doc2" by (fact ne, fact doc2(2))
  show "dc_last_change_seq doc2 = dc_last_change_seq doc1 + length batch" using last doc2 by simp
  show "dc_generation doc2 = Suc (dc_generation doc1)" using ap doc2 bound(2) by (simp add: appends_def sat_add_u64_def)
  show "dc_store_epoch doc2 = dc_store_epoch doc1" using ap doc2 by (simp add: appends_def)
  have "map ch_seq (dc_changes d) = [Suc (dc_last_change_seq d - length (dc_changes d)) ..< Suc (dc_last_change_seq d)]"
    using ring cs(1,2) last len
      upt_add_eq_append [of "Suc (dc_last_change_seq doc1 - length (dc_changes doc1))" "Suc (dc_last_change_seq doc1)" "length batch"]
    by (simp add: ring_ok_def)
  then have rd: "ring_ok d" using ring cs(1) last len by (simp add: ring_ok_def)
  obtain j where j: "j \<le> length (dc_changes d)" "dc_changes doc2 = drop j (dc_changes d)" using trim_drops doc2(1) by metis
  show "ring_ok doc2" using ring_ok_drop [OF rd j(1)] j(2) doc2(1) by (simp add: ring_ok_def)
  show "recent_changes json doc2 (before @ batch)" unfolding recent_changes_def
  proof
    assume le: "length (before @ batch) \<le> length (dc_changes doc2)"
    then have "length before + length cs \<le> length (drop j (dc_changes doc1 @ cs))" using j(2) cs(1) len by simp
    from drop_recent [OF refl _ this] j cs(1) len
    have eq: "drop (length (dc_changes doc2) - length (before @ batch)) (dc_changes doc2) =
        drop (length (dc_changes doc1) - length before) (dc_changes doc1) @ cs" by simp
    have "length before \<le> length (dc_changes doc1)" using le j cs(1) len by simp
    with recent cs(3) show "map (operation_from_change_record json) (drop (length (dc_changes doc2) - length (before @ batch)) (dc_changes doc2)) = map Inr (before @ batch)"
      unfolding eq recent_changes_def by simp
  qed
  assume "document_ok json doc1"
  with shared.steps_view [OF shared_steps [OF d]] json ops doc2 show "document_ok json doc2 \<and> document_view json doc2 = fold spec_apply batch (document_view json doc1)"
    by simp
qed

definition next_of :: "shared_json \<Rightarrow> shared_memory_index_document \<Rightarrow> shared_index_operation list \<Rightarrow> shared_memory_index_document \<Rightarrow> bool" where
  "next_of json doc ops doc' \<longleftrightarrow>
     ring_ok doc' \<and> document_ok json doc' \<and> recent_changes json doc' ops \<and>
     dc_last_change_seq doc' = dc_last_change_seq doc + length ops \<and> dc_store_epoch doc' = dc_store_epoch doc \<and>
     dc_generation doc \<le> dc_generation doc' \<and> (dc_generation doc' = dc_generation doc \<longleftrightarrow> ops = []) \<and>
     dc_generation doc' \<le> dc_generation doc + length ops \<and>
     document_view json doc' = fold spec_apply ops (document_view json doc)"

lemma published_next:
  assumes "published json cap doc ops doc'" and "shared_json_ok json" and "\<forall>op \<in> set ops. shared_op_ok json op"
    and "ring_ok doc" and "document_ok json doc"
    and "dc_last_change_seq doc + length ops \<le> u64_max" and "dc_generation doc + length ops \<le> u64_max"
  shows "next_of json doc ops doc'"
  using assms
proof (induction rule: published.induct)
  case start
  then show ?case by (simp add: next_of_def recent_changes_def)
next
  case (publish ops doc1 batch applied doc2)
  then have n: "next_of json doc ops doc1" by simp
  have ne: "batch \<noteq> []" using publish.hyps(2) by (auto simp: apply_operations_def)
  then have one: "1 \<le> length batch" by (cases batch) auto
  have "dc_last_change_seq doc1 = dc_last_change_seq doc + length ops" "dc_generation doc1 \<le> dc_generation doc + length ops"
    using n by (simp_all add: next_of_def)
  then have bounds: "dc_last_change_seq doc1 + length batch \<le> u64_max" "dc_generation doc1 < u64_max"
    using publish.prems(5,6) one by auto
  have parts: "\<forall>op \<in> set batch. shared_op_ok json op" "ring_ok doc1" "recent_changes json doc1 ops" "document_ok json doc1"
    using n publish.prems by (auto simp: next_of_def)
  note b = batch_ok [OF publish.prems(1) parts(1) publish.hyps(2) bounds parts(2,3)]
  with b n parts(4) ne one show ?case by (auto simp: next_of_def)
next
  case (fill_locks ops doc1 locks n)
  then show ?case by (simp add: next_of_def ring_ok_def recent_changes_def)
qed

lemma filter_recent:
  assumes "ring_ok doc" and "dc_last_change_seq doc = after + n" and "n \<le> length (dc_changes doc)"
  shows "filter (\<lambda>c. after < ch_seq c) (dc_changes doc) = drop (length (dc_changes doc) - n) (dc_changes doc)"
proof -
  let ?cs = "dc_changes doc" and ?k = "length (dc_changes doc) - n"
  have seq: "map ch_seq ?cs = [Suc (dc_last_change_seq doc - length ?cs) ..< Suc (dc_last_change_seq doc)]" and le: "length ?cs \<le> dc_last_change_seq doc"
    using assms(1) by (simp_all add: ring_ok_def)
  have nth: "ch_seq (?cs ! i) = Suc (dc_last_change_seq doc - length ?cs) + i" if "i < length ?cs" for i
    using arg_cong [OF seq, of "\<lambda>xs. xs ! i"] that le by (simp del: upt_Suc)
  have "\<forall>c \<in> set (take ?k ?cs). \<not> after < ch_seq c"
    using assms(2,3) nth le by (auto simp: in_set_conv_nth)
  moreover have "\<forall>c \<in> set (drop ?k ?cs). after < ch_seq c"
    using assms(2,3) nth le by (auto simp: in_set_conv_nth)
  ultimately have "filter (\<lambda>c. after < ch_seq c) (take ?k ?cs @ drop ?k ?cs) = drop ?k ?cs"
    by (subst filter_append) (simp add: filter_id_conv)
  then show ?thesis by simp
qed

lemma operations_since_recent:
  assumes n: "next_of json doc ops doc'"
  shows "operations_since json doc' (dc_last_change_seq doc) = Inr (if length ops \<le> length (dc_changes doc') then ops else [])"
proof (cases "dc_changes doc'")
  case Nil
  then show ?thesis by (simp add: operations_since_def)
next
  case (Cons c cs)
  have ring: "ring_ok doc'" and last: "dc_last_change_seq doc' = dc_last_change_seq doc + length ops" and rc: "recent_changes json doc' ops"
    using n by (simp_all add: next_of_def)
  have "map ch_seq (dc_changes doc') ! 0 = Suc (dc_last_change_seq doc' - length (dc_changes doc'))"
    using ring Cons unfolding ring_ok_def by (simp del: upt_Suc)
  then have first: "ch_seq c - 1 = dc_last_change_seq doc' - length (dc_changes doc')" using Cons by simp
  have "length (dc_changes doc') \<le> dc_last_change_seq doc'" using ring by (simp add: ring_ok_def)
  then have gap: "dc_last_change_seq doc < ch_seq c - 1 \<longleftrightarrow> length (dc_changes doc') < length ops"
    unfolding first last by arith
  show ?thesis
  proof (cases "length ops \<le> length (dc_changes doc')")
    case True
    have "collect_results (map (operation_from_change_record json) (filter (\<lambda>c. dc_last_change_seq doc < ch_seq c) (dc_changes doc'))) = Inr ops"
      unfolding filter_recent [OF ring last True] collect_results_Inr using rc True by (simp add: recent_changes_def)
    with True gap Cons show ?thesis by (simp add: operations_since_def)
  next
    case False
    with gap Cons show ?thesis by (simp add: operations_since_def)
  qed
qed

section \<open>Loading\<close>

lemma load_entries_ok:
  assumes "\<forall>b \<in> snd ` set m. \<exists>e. deserialize_entry_record json b = Inr e" and "distinct (map fst m)"
  shows "\<exists>ix'. load_entries json ix m = Inr ix' \<and> ix_entries ix' = ix_entries ix ++ (\<lambda>k. Option.bind (map_of m k) (entry_of_bytes json))"
  using assms
proof (induction m arbitrary: ix)
  case (Cons x m)
  obtain k b where x: "x = (k, b)" by force
  with Cons.prems obtain e where e: "deserialize_entry_record json b = Inr e" by force
  obtain ix' where ix': "load_entries json (load_entry ix k e) m = Inr ix'"
    "ix_entries ix' = ix_entries (load_entry ix k e) ++ (\<lambda>k. Option.bind (map_of m k) (entry_of_bytes json))"
    using Cons.IH [of "load_entry ix k e"] Cons.prems by auto
  have "map_of m k = None" using Cons.prems(2) x by (simp add: map_of_eq_None_iff)
  then have "ix_entries ix' = ix_entries ix ++ (\<lambda>k'. Option.bind (map_of (x # m) k') (entry_of_bytes json))"
    using ix'(2) e by (auto simp: x load_entry_fields entry_of_bytes_def map_add_def fun_eq_iff split: option.split)
  with ix'(1) e show ?case by (simp add: x)
qed simp

lemma loaded_index_ok:
  assumes "document_ok json doc"
  shows "\<exists>l. loaded_index_from_document json doc = Inr l \<and> ld_generation l = dc_generation doc \<and>
     ld_store_epoch l = dc_store_epoch doc \<and> ld_last_change_seq l = dc_last_change_seq doc \<and>
     zone_view (z\<lparr> zr_index := ld_index l \<rparr>) = document_view json doc"
proof -
  have "distinct (map fst (dc_entries doc))" using assms by (auto simp: document_ok_def strict_sorted_iff)
  then obtain ix where ix: "load_entries json default_index (dc_entries doc) = Inr ix"
    "ix_entries ix = ix_entries default_index ++ (\<lambda>k. Option.bind (map_of (dc_entries doc) k) (entry_of_bytes json))"
    using load_entries_ok [of "dc_entries doc" json default_index] assms by (auto simp: document_ok_def)
  define rules where "rules = map (\<lambda>b. projr (deserialize_invalidation_rule json b)) (dc_invalidations doc)"
  have dec: "deserialize_invalidation_rule json b = Inr (projr (deserialize_invalidation_rule json b))"
    if "b \<in> set (dc_invalidations doc)" for b
  proof -
    from that assms obtain r where "deserialize_invalidation_rule json b = Inr r" unfolding document_ok_def by blast
    then show ?thesis by simp
  qed
  then have "collect_results (map (deserialize_invalidation_rule json) (dc_invalidations doc)) = Inr rules"
    by (simp add: collect_results_Inr rules_def)
  moreover have "set rules = {r. \<exists>b \<in> set (dc_invalidations doc). deserialize_invalidation_rule json b = Inr r}"
    using dec by (force simp: rules_def)
  ultimately show ?thesis using ix
    by (simp add: loaded_index_from_document_def zone_view_def document_view_def default_index_def)
qed

section \<open>Convergence\<close>

definition synced :: "shared_json \<Rightarrow> cache_replica \<Rightarrow> shared_memory_index_document \<Rightarrow> bool" where
  "synced json r doc \<longleftrightarrow> rp_generation r = dc_generation doc \<and> rp_store_epoch r = dc_store_epoch doc \<and>
     rp_change_seq r = dc_last_change_seq doc \<and> zone_view (rp_zone r) = document_view json doc"

lemma reload_synced:
  assumes "document_ok json doc"
  shows "synced json (reload_zone_shared_index r (loaded_index_from_document json doc)) doc"
proof -
  obtain l where "loaded_index_from_document json doc = Inr l" "ld_generation l = dc_generation doc"
    "ld_store_epoch l = dc_store_epoch doc" "ld_last_change_seq l = dc_last_change_seq doc"
    "zone_view ((rp_zone r)\<lparr> zr_index := ld_index l \<rparr>) = document_view json doc" using loaded_index_ok [OF assms] by blast
  then show ?thesis by (simp add: reload_zone_shared_index_def synced_def clear_hot_entries_def zone_view_def)
qed

lemma published_trans:
  assumes "published json cap d ops d1" and "published json cap d1 ops' d2"
  shows "published json cap d (ops @ ops') d2"
  using assms(2,1)
proof (induction rule: published.induct)
  case (publish ops' doc1 batch applied doc2)
  then show ?case using published.publish [of json cap d "ops @ ops'" doc1 batch applied doc2] by simp
qed (auto intro: published.intros)

lemma synced_unchanged:
  assumes "synced json r doc" and "next_of json doc [] doc'"
  shows "synced json r doc'"
  using assms by (simp add: synced_def next_of_def)

lemma synced_delta:
  assumes "synced json r doc" and "next_of json doc ops doc'"
  shows "synced json (r\<lparr> rp_zone := apply_shared_index_delta (rp_zone r) ops, rp_generation := dc_generation doc',
      rp_store_epoch := dc_store_epoch doc', rp_change_seq := dc_last_change_seq doc' \<rparr>) doc'"
  using assms by (simp add: synced_def next_of_def delta_view)

text \<open>The finding: publishing moves the cursor past changes of others that were never applied.\<close>

lemma publish_skips_unsynced_changes:
  fixes r :: cache_replica
  assumes "apply_operations json cap ops doc = Inr (applied, Some doc')"
  defines "r' \<equiv> apply_zone_shared_index_operations_locked r ops (Inr applied)"
  shows "sync_zone_shared_index_if_needed r' (Inr (dc_generation doc', dc_store_epoch doc')) state2 changes loaded = r'"
    and "rp_zone r' = rp_zone r"
proof -
  have "ops \<noteq> []" "applied = applied_of doc'"
    using assms(1) by (auto simp: apply_operations_def bind_res_Inr_iff Let_def split: if_splits)
  then show "sync_zone_shared_index_if_needed r' (Inr (dc_generation doc', dc_store_epoch doc')) state2 changes loaded = r'"
    and "rp_zone r' = rp_zone r"
    by (simp_all add: r'_def apply_zone_shared_index_operations_locked_def sync_zone_shared_index_if_needed_def up_to_date_def applied_of_def)
qed

text \<open>
  C26. A worker whose copy described the document and that published nothing since
  describes the current document again after a synchronisation, whatever the other
  workers published meanwhile, even between its reads and even if the ring of
  changes no longer holds them all.
\<close>

theorem sync_converges:
  assumes json: "shared_json_ok json" and d0: "document_ok json d0" "ring_ok d0" and s: "synced json r d0"
    and p: "published json cap d0 ops1 d1" "published json cap d1 ops2 d2" "published json cap d2 ops3 d3" "published json cap d3 ops4 d4"
    and ok: "\<forall>op \<in> set (ops1 @ ops2 @ ops3 @ ops4). shared_op_ok json op"
    and bound: "dc_last_change_seq d0 + length (ops1 @ ops2 @ ops3 @ ops4) \<le> u64_max"
      "dc_generation d0 + length (ops1 @ ops2 @ ops3 @ ops4) \<le> u64_max"
  defines "r' \<equiv> sync_zone_shared_index_if_needed r (Inr (dc_generation d1, dc_store_epoch d1)) (Inr (dc_generation d2, dc_store_epoch d2))
     (changes_since json (rp_change_seq r) d3) (loaded_index_from_document json d4)"
  shows "synced json r' d1 \<or> synced json r' d2 \<or> synced json r' d3 \<or> synced json r' d4"
proof -
  have n1: "next_of json d0 ops1 d1" and n2: "next_of json d0 (ops1 @ ops2) d2" and n3: "next_of json d0 (ops1 @ ops2 @ ops3) d3"
    and n4: "next_of json d0 (ops1 @ ops2 @ ops3 @ ops4) d4"
    using published_trans p ok bound by (auto intro!: published_next [OF _ json _ d0(2,1), of cap])
  have r: "rp_generation r = dc_generation d0" "rp_store_epoch r = dc_store_epoch d0" "rp_change_seq r = dc_last_change_seq d0"
    using s by (simp_all add: synced_def)
  show ?thesis
  proof (cases "ops1 = [] \<or> ops1 @ ops2 = []")
    case True
    then have "ops1 = []" by auto
    then have "dc_generation d1 \<le> rp_generation r" "dc_store_epoch d1 = rp_store_epoch r" using n1 r by (auto simp: next_of_def)
    then have "r' = r" by (simp add: r'_def sync_zone_shared_index_if_needed_def up_to_date_def)
    with synced_unchanged [OF s] n1 \<open>ops1 = []\<close> show ?thesis by simp
  next
    case False
    have later: "\<not> up_to_date r (dc_generation d1, dc_store_epoch d1)" "\<not> up_to_date r (dc_generation d2, dc_store_epoch d2)"
      "dc_store_epoch d2 = rp_store_epoch r" using False n1 n2 r by (auto simp: next_of_def up_to_date_def)
    let ?ops = "ops1 @ ops2 @ ops3"
    have c: "changes_since json (rp_change_seq r) d3 = Inr \<lparr> lc_generation = dc_generation d3, lc_store_epoch = dc_store_epoch d3,
        lc_last_change_seq = dc_last_change_seq d3, lc_operations = (if length ?ops \<le> length (dc_changes d3) then ?ops else []) \<rparr>"
      using operations_since_recent [OF n3] r(3) by (simp add: changes_since_def)
    have d3: "dc_store_epoch d3 = rp_store_epoch r" "rp_generation r < dc_generation d3" "rp_change_seq r \<le> dc_last_change_seq d3"
      using n3 False r by (auto simp: next_of_def nat_less_le)
    show ?thesis
    proof (cases "length ?ops \<le> length (dc_changes d3)")
      case True
      have "r' = r\<lparr> rp_zone := apply_shared_index_delta (rp_zone r) ?ops, rp_generation := dc_generation d3,
          rp_store_epoch := dc_store_epoch d3, rp_change_seq := dc_last_change_seq d3 \<rparr>"
        using later c d3 True False by (simp add: r'_def sync_zone_shared_index_if_needed_def)
      with synced_delta [OF s n3] show ?thesis by simp
    next
      case gap: False
      have "r' = reload_zone_shared_index r (loaded_index_from_document json d4)"
        using later c gap by (simp add: r'_def sync_zone_shared_index_if_needed_def)
      with reload_synced [of json d4] n4 show ?thesis by (simp add: next_of_def)
    qed
  qed
qed

definition sample_json :: shared_json where
  "sample_json =
     \<lparr> sj_entry = (\<lambda>r. if r = record_of_entry (sample_entry ''h'' 600 50) then Some ''e'' else None),
       sj_entry_of = (\<lambda>b. if b = ''e'' then Some (record_of_entry (sample_entry ''h'' 600 50)) else None),
       sj_rule = (\<lambda>_. None), sj_rule_of = (\<lambda>_. None), sj_document = (\<lambda>_. None), sj_document_of = (\<lambda>_. None),
       sj_header_name = Some \<rparr>"

definition sample_replica :: cache_replica where
  "sample_replica = \<lparr> rp_zone = sample_runtime, rp_generation = 0, rp_store_epoch = 7, rp_change_seq = 0 \<rparr>"

definition sample_published :: shared_memory_index_document where
  "sample_published = (empty_document 7)\<lparr> dc_generation := 1, dc_last_change_seq := 1, dc_entries := [(''k'', ''e'')],
     dc_changes := [\<lparr> ch_seq = 1, ch_generation = 1, ch_op_kind = CHANGE_OP_UPSERT_ENTRY, ch_key = ''k'', ch_entry_json = Some ''e'',
       ch_uses = None, ch_last_access_unix_ms = None \<rparr>] \<rparr>"

theorem sync_converges_witness:
  "published sample_json 16 (empty_document 7) [UpsertEntry ''k'' (sample_entry ''h'' 600 50)] sample_published \<and>
   synced sample_json (sync_zone_shared_index_if_needed sample_replica (Inr (1, 7)) (Inr (1, 7))
     (changes_since sample_json 0 sample_published) (loaded_index_from_document sample_json sample_published)) sample_published"
proof -
  let ?op = "UpsertEntry ''k'' (sample_entry ''h'' 600 50)"
  have "apply_operations sample_json 16 [?op] (empty_document 7) = Inr (applied_of sample_published, Some sample_published)"
    by (simp add: apply_operations_def publish_operation_def serialize_entry_record_def sample_json_def invalid_data_def
        empty_document_def sample_published_def sat_add_u64_def u64_max_def trim_change_ring_def Let_def)
  then have p1: "published sample_json 16 (empty_document 7) [?op] sample_published"
    using published.publish [OF published.start, of sample_json 16 "[?op]"] by simp
  have p0: "published sample_json 16 sample_published [] sample_published" by (rule published.start)
  have d0: "document_ok sample_json (empty_document 7)" "ring_ok (empty_document 7)"
    by (simp_all add: document_ok_def ring_ok_def empty_document_def)
  have s: "synced sample_json sample_replica (empty_document 7)"
    by (simp add: synced_def sample_replica_def empty_document_def zone_view_def document_view_def sample_runtime_def default_index_def)
  have j: "shared_json_ok sample_json" by (simp add: shared_json_ok_def sample_json_def)
  have "entry_names_ok sample_json (sample_entry ''h'' 600 50)" by (simp add: entry_names_ok_def sample_entry_def)
  with sync_converges [OF j d0 s p1 p0 p0 p0] p1
  show ?thesis by (simp add: u64_max_def empty_document_def sample_published_def sample_replica_def)
qed

end
