(* ===== verification/Cache_Files.thy ===== *)
theory Cache_Files
  imports Cache_Stream Cache_Replica
begin

text \<open>
  Cache entries on disk: \<open>cache/entry.rs\<close>, \<open>cache/entry/metadata.rs\<close>,
  \<open>cache/entry/write.rs\<close>, \<open>cache/entry/temp.rs\<close>, \<open>cache/entry/response/body.rs\<close>
  and \<open>cache/load.rs\<close>.  An entry is a metadata file and a body file, named after
  the hash of its key, written under temporary names and moved into place.  The
  file system is a map from paths to contents; which of its operations fail is an
  argument, as are the JSON library and the parser of header names.  Prepared
  response heads, kept in memory by the hot entries, are held beside the files.
\<close>

section \<open>Paths\<close>

record cache_paths =
  pa_dir :: path_buf
  pa_metadata :: path_buf
  pa_body :: path_buf

definition cache_path_segment :: "string \<Rightarrow> nat \<Rightarrow> nat \<Rightarrow> string" where
  "cache_path_segment hash offset level_len =
     (if sat_add_u64 offset level_len \<le> length hash then take level_len (drop offset hash)
      else let rest = drop offset hash in rest @ replicate (level_len - length rest) (CHR ''0''))"

fun level_dirs :: "string \<Rightarrow> path_buf \<Rightarrow> nat \<Rightarrow> nat list \<Rightarrow> path_buf" where
  "level_dirs hash dir offset [] = dir"
| "level_dirs hash dir offset (level # levels) =
     level_dirs hash (path_join dir (cache_path_segment hash offset level)) (sat_add_u64 offset level) levels"

definition cache_paths_with_levels :: "path_buf \<Rightarrow> nat list \<Rightarrow> string \<Rightarrow> cache_paths" where
  "cache_paths_with_levels base levels hash =
     (let dir = level_dirs hash base 0 levels
      in \<lparr> pa_dir = dir, pa_metadata = path_join dir (hash @ ''.meta.json''), pa_body = path_join dir (hash @ ''.body'') \<rparr>)"

definition cache_paths_for_zone :: "cache_zone \<Rightarrow> string \<Rightarrow> cache_paths" where
  "cache_paths_for_zone zone hash = cache_paths_with_levels (cz_path zone) (cz_path_levels zone) hash"

definition next_temp_suffix :: "nat \<Rightarrow> nat \<Rightarrow> string" where
  "next_temp_suffix pid counter = ''.tmp-'' @ show_nat pid @ ''-'' @ show_nat counter"

text \<open>The paths of an entry end in a file name, to which the suffix is appended.\<close>

definition sibling_temp_path :: "path_buf \<Rightarrow> string \<Rightarrow> path_buf" where
  "sibling_temp_path path sfx = path @ sfx"

definition cache_entry_temp_body_path :: "nat \<Rightarrow> nat \<Rightarrow> cache_paths \<Rightarrow> path_buf" where
  "cache_entry_temp_body_path pid counter paths = sibling_temp_path (pa_body paths) (next_temp_suffix pid counter)"

section \<open>Metadata\<close>

record cached_header =
  chd_name :: string
  chd_value :: string

record cached_vary_header =
  cvh_name :: string
  cvh_value :: "string option"

record cache_metadata =
  md_key :: string
  md_base_key :: string
  md_vary :: "cached_vary_header list"
  md_tags :: "string list"
  md_status :: nat
  md_headers :: "cached_header list"
  md_stored_at_unix_ms :: nat
  md_expires_at_unix_ms :: nat
  md_kind :: cache_index_entry_kind
  md_grace_until_unix_ms :: "nat option"
  md_keep_until_unix_ms :: "nat option"
  md_stale_if_error_until_unix_ms :: "nat option"
  md_stale_while_revalidate_until_unix_ms :: "nat option"
  md_requires_revalidation :: bool
  md_must_revalidate :: bool
  md_body_size_bytes :: nat

text \<open>
  The JSON of a metadata file as the readers decode it: two views of one text.
  Both apply the defaults of absent fields; an absent \<open>requires_revalidation\<close>
  stays visible.
\<close>

record raw_cache_metadata =
  rw_metadata :: cache_metadata
  rw_requires_revalidation :: "bool option"

record metadata_json =
  mj_encode :: "cache_metadata \<Rightarrow> string option"
  mj_decode :: "string \<Rightarrow> raw_cache_metadata option"
  mj_header_name :: "string \<Rightarrow> string option"

definition cache_metadata_of ::
    "(string \<Rightarrow> string option) \<Rightarrow> string \<Rightarrow> status_code \<Rightarrow> header_map \<Rightarrow> cache_metadata_input \<Rightarrow> cache_metadata" where
  "cache_metadata_of header_name key status headers input =
     \<lparr> md_key = key, md_base_key = mi_base_key input,
       md_vary = map (\<lambda>h. \<lparr> cvh_name = vh_name h, cvh_value = vh_value h \<rparr>) (mi_vary input),
       md_tags = mi_tags input, md_status = status,
       md_headers = map (\<lambda>(n, v). \<lparr> chd_name = n, chd_value = v \<rparr>) (cached_headers header_name headers (mi_body_size_bytes input)),
       md_stored_at_unix_ms = mi_stored_at_unix_ms input, md_expires_at_unix_ms = mi_expires_at_unix_ms input,
       md_kind = mi_kind input, md_grace_until_unix_ms = mi_grace_until_unix_ms input,
       md_keep_until_unix_ms = mi_keep_until_unix_ms input,
       md_stale_if_error_until_unix_ms = mi_stale_if_error_until_unix_ms input,
       md_stale_while_revalidate_until_unix_ms = mi_stale_while_revalidate_until_unix_ms input,
       md_requires_revalidation = mi_requires_revalidation input, md_must_revalidate = mi_must_revalidate input,
       md_body_size_bytes = mi_body_size_bytes input \<rparr>"

definition headers_map :: "(string \<Rightarrow> string option) \<Rightarrow> cache_metadata \<Rightarrow> io_error + header_map" where
  "headers_map header_name metadata =
     append_stored_headers header_name [] (map (\<lambda>h. (chd_name h, chd_value h)) (md_headers metadata))"

record cache_conditional_headers =
  cc_if_none_match :: "string option"
  cc_if_modified_since :: "string option"

record prepared_cache_response_head =
  pr_hash :: string
  pr_metadata :: cache_metadata
  pr_status :: status_code
  pr_headers :: header_map
  pr_conditional_headers :: "cache_conditional_headers option"

definition build_conditional_headers :: "header_map \<Rightarrow> cache_conditional_headers option" where
  "build_conditional_headers headers =
     (let if_none_match = Option.bind (Option.bind (hm_get headers ''etag'') to_str) header_value_of;
          if_modified_since = Option.bind (Option.bind (hm_get headers ''last-modified'') to_str) header_value_of
      in if if_none_match \<noteq> None \<or> if_modified_since \<noteq> None
         then Some \<lparr> cc_if_none_match = if_none_match, cc_if_modified_since = if_modified_since \<rparr> else None)"

definition prepare_cached_response_head ::
    "(string \<Rightarrow> string option) \<Rightarrow> string \<Rightarrow> cache_metadata \<Rightarrow> io_error + prepared_cache_response_head" where
  "prepare_cached_response_head header_name hash metadata =
     bind_res (headers_map header_name metadata) (\<lambda>headers.
     bind_res (invalid_data (status_from_u16 (md_status metadata))) (\<lambda>status.
       Inr \<lparr> pr_hash = hash, pr_metadata = metadata, pr_status = status, pr_headers = headers,
             pr_conditional_headers = build_conditional_headers headers \<rparr>))"

section \<open>Files\<close>

type_synonym files = "path_buf \<Rightarrow> string option"

definition read_cache_metadata :: "metadata_json \<Rightarrow> files \<Rightarrow> path_buf \<Rightarrow> io_error + cache_metadata" where
  "read_cache_metadata json fs path =
     (case fs path of
        None \<Rightarrow> Inl IoNotFound
      | Some bytes \<Rightarrow> bind_res (invalid_data (mj_decode json bytes)) (\<lambda>raw.
          Inr ((rw_metadata raw)\<lparr> md_requires_revalidation :=
                 (case rw_requires_revalidation raw of None \<Rightarrow> md_must_revalidate (rw_metadata raw) | Some b \<Rightarrow> b) \<rparr>)))"

definition rename :: "path_buf \<Rightarrow> path_buf \<Rightarrow> files \<Rightarrow> files" where
  "rename a b fs = fs(b := fs a, a := None)"

definition cleanup_failed_write :: "cache_paths \<Rightarrow> path_buf \<Rightarrow> path_buf \<Rightarrow> bool \<Rightarrow> files \<Rightarrow> files" where
  "cleanup_failed_write paths body_tmp metadata_tmp remove_final fs =
     (let fs1 = fs(body_tmp := None, metadata_tmp := None)
      in if remove_final then fs1(pa_body paths := None, pa_metadata paths := None) else fs1)"

text \<open>
  The outcomes of the operations on the file system: creating the directory,
  writing the temporary metadata, and the two renames.  A failed write may leave
  part of the text behind.
\<close>

record commit_faults =
  cf_create_dir :: "io_error option"
  cf_write :: "(io_error \<times> string) option"
  cf_rename_body :: "io_error option"
  cf_rename_metadata :: "io_error option"

definition commit_cache_entry_temp_body ::
    "metadata_json \<Rightarrow> commit_faults \<Rightarrow> string \<Rightarrow> cache_paths \<Rightarrow> cache_metadata \<Rightarrow> path_buf \<Rightarrow> files \<Rightarrow>
     (io_error + unit) \<times> files" where
  "commit_cache_entry_temp_body json faults sfx paths metadata body_tmp fs =
     (let metadata_tmp = sibling_temp_path (pa_metadata paths) sfx
      in case cf_create_dir faults of
           Some e \<Rightarrow> (Inl e, fs)
         | None \<Rightarrow>
             (case mj_encode json metadata of
                None \<Rightarrow> (Inl IoOther, fs)
              | Some metadata_bytes \<Rightarrow>
                  (case cf_write faults of
                     Some (e, part) \<Rightarrow> (Inl e, cleanup_failed_write paths body_tmp metadata_tmp False (fs(metadata_tmp \<mapsto> part)))
                   | None \<Rightarrow>
                       let fs1 = fs(metadata_tmp \<mapsto> metadata_bytes)
                       in (case cf_rename_body faults of
                             Some e \<Rightarrow> (Inl e, cleanup_failed_write paths body_tmp metadata_tmp False fs1)
                           | None \<Rightarrow>
                               let fs2 = rename body_tmp (pa_body paths) fs1
                               in (case cf_rename_metadata faults of
                                     Some e \<Rightarrow> (Inl e, cleanup_failed_write paths body_tmp metadata_tmp True fs2)
                                   | None \<Rightarrow> (Inr (), rename metadata_tmp (pa_metadata paths) fs2))))))"

definition write_cache_metadata ::
    "metadata_json \<Rightarrow> commit_faults \<Rightarrow> string \<Rightarrow> cache_paths \<Rightarrow> cache_metadata \<Rightarrow> files \<Rightarrow> (io_error + unit) \<times> files" where
  "write_cache_metadata json faults sfx paths metadata fs =
     (let metadata_tmp = sibling_temp_path (pa_metadata paths) sfx
      in case cf_create_dir faults of
           Some e \<Rightarrow> (Inl e, fs)
         | None \<Rightarrow>
             (case mj_encode json metadata of
                None \<Rightarrow> (Inl IoOther, fs)
              | Some metadata_bytes \<Rightarrow>
                  (case cf_write faults of
                     Some (e, part) \<Rightarrow> (Inl e, fs(metadata_tmp := None))
                   | None \<Rightarrow>
                       (case cf_rename_metadata faults of
                          Some e \<Rightarrow> (Inl e, fs(metadata_tmp := None))
                        | None \<Rightarrow> (Inr (), rename metadata_tmp (pa_metadata paths) (fs(metadata_tmp \<mapsto> metadata_bytes)))))))"

section \<open>Serving a stored response\<close>

definition COMMITTED_CACHE_READ_CHUNK_BYTES :: nat where
  "COMMITTED_CACHE_READ_CHUNK_BYTES = 64 * 1024"

text \<open>The body is read in chunks; a file that ends early ends the body with an error.\<close>

function stream_cached_file_body :: "string \<Rightarrow> nat \<Rightarrow> nat \<Rightarrow> body_event list" where
  "stream_cached_file_body file pos remaining_bytes =
     (if remaining_bytes = 0 then []
      else let chunk_len = min remaining_bytes COMMITTED_CACHE_READ_CHUNK_BYTES
           in if length file < pos + chunk_len
              then [EvError ''cached body ended before the committed metadata body length was read'']
              else EvFrame (FData (take chunk_len (drop pos file)))
                   # stream_cached_file_body file (pos + chunk_len) (remaining_bytes - chunk_len))"
  by pat_completeness auto
termination
  by (relation "measure (\<lambda>(_, _, n). n)") (auto simp: COMMITTED_CACHE_READ_CHUNK_BYTES_def)

declare stream_cached_file_body.simps [simp del]

definition build_cached_response_for_request ::
    "files \<Rightarrow> path_buf \<Rightarrow> prepared_cache_response_head \<Rightarrow> cache_request \<Rightarrow> route_cache_policy \<Rightarrow> bool \<Rightarrow> io_error + http_response" where
  "build_cached_response_for_request fs body_path head request policy read_body =
     (if \<not> read_body then finalize_response_for_request (pr_status head) (pr_headers head) [] request policy
      else case fs body_path of
        None \<Rightarrow> Inl IoNotFound
      | Some file \<Rightarrow>
          if length file \<noteq> md_body_size_bytes (pr_metadata head) then Inl IoInvalidData
          else finalize_response_for_request (pr_status head) (pr_headers head)
                 (stream_cached_file_body file 0 (md_body_size_bytes (pr_metadata head))) request policy)"

text \<open>
  The heads that hot entries hold in memory; the hot state of the index knows them
  by their hash.
\<close>

type_synonym prepared_heads = "string \<Rightarrow> prepared_cache_response_head option"

definition prepared_head :: "cache_zone_runtime \<Rightarrow> prepared_heads \<Rightarrow> string \<Rightarrow> string \<Rightarrow> prepared_cache_response_head option" where
  "prepared_head z heads key hash = (case prepared_response_head z key hash of None \<Rightarrow> None | Some _ \<Rightarrow> heads key)"

definition store_head ::
    "cache_zone_runtime \<Rightarrow> prepared_heads \<Rightarrow> string \<Rightarrow> nat \<Rightarrow> prepared_cache_response_head \<Rightarrow> cache_zone_runtime \<times> prepared_heads" where
  "store_head z heads key last_access head =
     (let z1 = store_prepared_response_head z key last_access (pr_hash head)
      in (z1, case ix_entries (zr_index z) key of
                None \<Rightarrow> heads
              | Some entry \<Rightarrow> if ie_hash entry \<noteq> pr_hash head then heads else heads(key \<mapsto> head)))"

definition load_cached_response_head_locked ::
    "metadata_json \<Rightarrow> files \<Rightarrow> string \<Rightarrow> cache_index_entry \<Rightarrow> cache_zone_runtime \<Rightarrow> prepared_heads \<Rightarrow>
     (io_error + prepared_cache_response_head) \<times> cache_zone_runtime \<times> prepared_heads" where
  "load_cached_response_head_locked json fs key entry z heads =
     (case prepared_head z heads key (ie_hash entry) of
        Some head \<Rightarrow> (Inr head, z, heads)
      | None \<Rightarrow>
          (case bind_res (read_cache_metadata json fs (pa_metadata (cache_paths_for_zone (zr_config z) (ie_hash entry)))) (\<lambda>metadata.
                 if md_key metadata \<noteq> key then Inl IoInvalidData
                 else prepare_cached_response_head (mj_header_name json) (ie_hash entry) metadata) of
             Inl e \<Rightarrow> (Inl e, z, heads)
           | Inr head \<Rightarrow> (Inr head, store_head z heads key (ie_last_access_unix_ms entry) head)))"

definition load_cached_response_head ::
    "metadata_json \<Rightarrow> files \<Rightarrow> string \<Rightarrow> cache_index_entry \<Rightarrow> cache_zone_runtime \<Rightarrow> prepared_heads \<Rightarrow>
     (io_error + prepared_cache_response_head) \<times> cache_zone_runtime \<times> prepared_heads" where
  "load_cached_response_head json fs key entry z heads =
     (if is_hit_for_pass entry then (Inl IoInvalidData, z, heads)
      else case prepared_head z heads key (ie_hash entry) of
        Some head \<Rightarrow> (Inr head, z, heads)
      | None \<Rightarrow> load_cached_response_head_locked json fs key entry z heads)"

definition read_cached_response_for_request ::
    "metadata_json \<Rightarrow> files \<Rightarrow> string \<Rightarrow> cache_index_entry \<Rightarrow> cache_request \<Rightarrow> route_cache_policy \<Rightarrow> bool \<Rightarrow>
     cache_zone_runtime \<Rightarrow> prepared_heads \<Rightarrow> (io_error + http_response) \<times> cache_zone_runtime \<times> prepared_heads" where
  "read_cached_response_for_request json fs key entry request policy read_body z heads =
     (let body = pa_body (cache_paths_for_zone (zr_config z) (ie_hash entry))
      in if is_hit_for_pass entry then (Inl IoInvalidData, z, heads)
         else case prepared_head z heads key (ie_hash entry) of
           Some head \<Rightarrow> (build_cached_response_for_request fs body head request policy read_body, z, heads)
         | None \<Rightarrow>
             (case load_cached_response_head_locked json fs key entry z heads of
                (Inl e, z1, heads1) \<Rightarrow> (Inl e, z1, heads1)
              | (Inr head, z1, heads1) \<Rightarrow> (build_cached_response_for_request fs body head request policy read_body, z1, heads1)))"

section \<open>Loading the index\<close>

definition is_hash :: "string \<Rightarrow> bool" where
  "is_hash name \<longleftrightarrow> length name = 64 \<and> list_all (\<lambda>c. hex_val c \<noteq> None) name"

definition metadata_hash :: "string \<Rightarrow> string option" where
  "metadata_hash name =
     (case strip_suffix name ''.meta.json'' of None \<Rightarrow> None | Some hash \<Rightarrow> if is_hash hash then Some hash else None)"

definition body_hash :: "string \<Rightarrow> string option" where
  "body_hash name =
     (case strip_suffix name ''.body'' of None \<Rightarrow> None | Some hash \<Rightarrow> if is_hash hash then Some hash else None)"

definition remove_cache_files :: "cache_zone \<Rightarrow> string \<Rightarrow> files \<Rightarrow> files" where
  "remove_cache_files zone hash fs =
     (let paths = cache_paths_for_zone zone hash in fs(pa_metadata paths := None, pa_body paths := None))"

fun parse_vary_headers :: "(string \<Rightarrow> string option) \<Rightarrow> cached_vary_header list \<Rightarrow> cached_vary_header_value list option" where
  "parse_vary_headers header_name [] = Some []"
| "parse_vary_headers header_name (h # hs) =
     Option.bind (header_name (cvh_name h)) (\<lambda>name.
       map_option (\<lambda>parsed. \<lparr> vh_name = name, vh_value = cvh_value h \<rparr> # parsed) (parse_vary_headers header_name hs))"

definition scanned_entry :: "string \<Rightarrow> raw_cache_metadata \<Rightarrow> cached_vary_header_value list \<Rightarrow> cache_index_entry" where
  "scanned_entry hash raw vary =
     (let md = rw_metadata raw
      in \<lparr> ie_kind = md_kind md, ie_hash = hash, ie_base_key = (if md_base_key md = [] then md_key md else md_base_key md),
           ie_stored_at_unix_ms = md_stored_at_unix_ms md, ie_vary = vary, ie_tags = md_tags md,
           ie_body_size_bytes = md_body_size_bytes md, ie_expires_at_unix_ms = md_expires_at_unix_ms md,
           ie_grace_until_unix_ms = md_grace_until_unix_ms md, ie_keep_until_unix_ms = md_keep_until_unix_ms md,
           ie_stale_if_error_until_unix_ms = md_stale_if_error_until_unix_ms md,
           ie_stale_while_revalidate_until_unix_ms = md_stale_while_revalidate_until_unix_ms md,
           ie_requires_revalidation =
             (case rw_requires_revalidation raw of None \<Rightarrow> md_must_revalidate md | Some b \<Rightarrow> b),
           ie_must_revalidate = md_must_revalidate md, ie_last_access_unix_ms = md_stored_at_unix_ms md \<rparr>)"

definition load_cache_index_entry ::
    "metadata_json \<Rightarrow> (string \<Rightarrow> string) \<Rightarrow> cache_zone \<Rightarrow> string \<Rightarrow> files \<Rightarrow> (string \<times> cache_index_entry) option \<times> files" where
  "load_cache_index_entry json sha zone hash fs =
     (let paths = cache_paths_for_zone zone hash; drop_entry = (None, remove_cache_files zone hash fs)
      in case Option.bind (fs (pa_metadata paths)) (mj_decode json) of
           None \<Rightarrow> drop_entry
         | Some raw \<Rightarrow>
             let md = rw_metadata raw
             in if md_key md = [] \<or> cache_key_hash sha (md_key md) \<noteq> hash then drop_entry
                else (case fs (pa_body paths) of
                        None \<Rightarrow> drop_entry
                      | Some body \<Rightarrow>
                          if length body \<noteq> md_body_size_bytes md then drop_entry
                          else (case parse_vary_headers (mj_header_name json) (md_vary md) of
                                  None \<Rightarrow> drop_entry
                                | Some vary \<Rightarrow> (Some (md_key md, scanned_entry hash raw vary), fs))))"

text \<open>
  The scan visits the files of the directory tree in some order, here a list of
  file names; directories it cannot read are skipped.  The pauses of the loader
  change nothing but time.
\<close>

definition scan_file ::
    "metadata_json \<Rightarrow> (string \<Rightarrow> string) \<Rightarrow> cache_zone \<Rightarrow> string \<Rightarrow> cache_index \<times> files \<Rightarrow> cache_index \<times> files" where
  "scan_file json sha zone name = (\<lambda>(ix, fs).
     case metadata_hash name of
       None \<Rightarrow>
         (case body_hash name of
            None \<Rightarrow> (ix, fs)
          | Some hash \<Rightarrow>
              if fs (pa_metadata (cache_paths_for_zone zone hash)) = None then (ix, remove_cache_files zone hash fs) else (ix, fs))
     | Some hash \<Rightarrow>
         (case load_cache_index_entry json sha zone hash fs of
            (None, fs1) \<Rightarrow> (ix, fs1)
          | (Some (key, entry), fs1) \<Rightarrow> (load_entry ix key entry, fs1)))"

definition scan_cache_dir ::
    "metadata_json \<Rightarrow> (string \<Rightarrow> string) \<Rightarrow> cache_zone \<Rightarrow> string list \<Rightarrow> cache_index \<times> files \<Rightarrow> cache_index \<times> files" where
  "scan_cache_dir json sha zone names st = fold (scan_file json sha zone) names st"

function trim_loaded_index :: "cache_zone \<Rightarrow> nat \<Rightarrow> cache_index \<Rightarrow> files \<Rightarrow> cache_index \<times> files" where
  "trim_loaded_index zone max_size_bytes ix fs =
     (if ix_current_size_bytes ix \<le> max_size_bytes then (ix, fs)
      else case pop_oldest_scheduled_entry ix of
        None \<Rightarrow> (ix, fs)
      | Some ((key, _), ix1) \<Rightarrow>
          (case remove_entry ix1 key of
             None \<Rightarrow> trim_loaded_index zone max_size_bytes ix1 fs
           | Some (entry, ix2) \<Rightarrow>
               trim_loaded_index zone max_size_bytes
                 (ix2\<lparr> ix_current_size_bytes := ix_current_size_bytes ix2 - ie_body_size_bytes entry,
                      ix_variants := remove_variant_key (ix_variants ix2) (ie_base_key entry) key \<rparr>)
                 (remove_cache_files zone (ie_hash entry) fs)))"
  by pat_completeness auto
termination
proof (relation "measure (\<lambda>(_, _, ix, _). length (ix_access_schedule ix))", goal_cases)
  case (2 zone max_size_bytes ix fs x p ix1 key t)
  then show ?case by (auto elim!: pop_simps)
next
  case (3 zone max_size_bytes ix fs x p ix1 key t r entry ix2)
  then show ?case
    using stale_after_removal(2) [of ix key t ix1 ix2] remove_popped [of ix key t ix1 entry ix2] by simp
qed simp

declare trim_loaded_index.simps [simp del]

definition load_index_from_disk ::
    "metadata_json \<Rightarrow> (string \<Rightarrow> string) \<Rightarrow> cache_zone \<Rightarrow> string list option \<Rightarrow> files \<Rightarrow> cache_index \<times> files" where
  "load_index_from_disk json sha zone listing fs =
     (case listing of
        None \<Rightarrow> (default_index, fs)
      | Some names \<Rightarrow>
          (case scan_cache_dir json sha zone names (default_index, fs) of (ix, fs1) \<Rightarrow>
             (case cz_max_size_bytes zone of
                None \<Rightarrow> (ix, fs1)
              | Some max_size_bytes \<Rightarrow> trim_loaded_index zone max_size_bytes ix fs1)))"

section \<open>The loaded index\<close>

lemma load_entry_wf:
  assumes "index_wf ix" and "total_bytes ((ix_entries ix)(k := None)) + ie_body_size_bytes e \<le> u64_max"
  shows "index_wf (load_entry ix k e)" and "ix_entries (load_entry ix k e) = (ix_entries ix)(k \<mapsto> e)"
proof -
  let ?acc = "\<lparr> sa_index = ix, sa_removed_hashes = {}, sa_removed_keys = [], sa_operations = [] \<rparr>"
  have "index_wf (sa_index (insert_for_store k e ?acc))" "ix_entries (sa_index (insert_for_store k e ?acc)) = (ix_entries ix)(k \<mapsto> e)"
    using insert_for_store_wf [of ?acc k e] assms by simp_all
  moreover have "index_wf (load_entry ix k e) = index_wf (sa_index (insert_for_store k e ?acc))"
    by (rule index_wf_cong)
      (auto simp: load_entry_def insert_for_store_def Let_def split: prod.splits option.splits)
  moreover have "ix_entries (load_entry ix k e) = ix_entries (sa_index (insert_for_store k e ?acc))"
    by (auto simp: load_entry_def insert_for_store_def Let_def split: prod.splits option.splits)
  ultimately show "index_wf (load_entry ix k e)" "ix_entries (load_entry ix k e) = (ix_entries ix)(k \<mapsto> e)" by simp_all
qed

lemma pop_remove_wf:
  assumes "index_wf ix" and p: "pop_oldest_scheduled_entry ix = Some ((key, t), ix1)" and r: "remove_entry ix1 key = Some (entry, ix2)"
  shows "index_wf (ix2\<lparr> ix_current_size_bytes := ix_current_size_bytes ix2 - ie_body_size_bytes entry,
           ix_variants := remove_variant_key (ix_variants ix2) (ie_base_key entry) key \<rparr>)"
    and "ix_entries ix2 = (ix_entries ix)(key := None)" and "ix_entries ix key = Some entry"
proof -
  note f = pop_fields [OF p] and g = remove_entry_fields [OF r]
  from assms(1) have core: "index_core ix" and v: "variants_ok (ix_variants ix) (ix_entries ix)" by (simp_all add: index_wf_def)
  note c = index_coreD [OF core]
  show e: "ix_entries ix2 = (ix_entries ix)(key := None)" "ix_entries ix key = Some entry" using f g by simp_all
  have refs: "refs_ok (ix_hash_ref_counts ix1) (ix_entries ix1)" using c(1) f by simp
  have "refs_ok (ix_hash_ref_counts ix2) (ix_entries ix2)" "sched_ok ix2 (dom (ix_entries ix2))"
    using remove_entry_core [OF refs sched_ok_pop(1) [OF c(2) p] r] e by simp_all
  moreover have "ix_current_size_bytes ix2 - ie_body_size_bytes entry = total_bytes (ix_entries ix2)"
    using f g e c(3) total_del [OF c(4) e(2)] by simp
  moreover have "variants_ok (remove_variant_key (ix_variants ix2) (ie_base_key entry) key) (ix_entries ix2)"
    using variants_ok_remove [OF v e(2)] f g e by simp
  ultimately show "index_wf (ix2\<lparr> ix_current_size_bytes := ix_current_size_bytes ix2 - ie_body_size_bytes entry,
           ix_variants := remove_variant_key (ix_variants ix2) (ie_base_key entry) key \<rparr>)"
    by (simp add: index_wf_def index_core_def sched_ok_def)
qed

lemma popped_is_entry:
  assumes "index_wf ix" and "pop_oldest_scheduled_entry ix = Some ((key, t), ix1)"
  shows "\<exists>entry ix2. remove_entry ix1 key = Some (entry, ix2)"
proof -
  from assms(1) have s: "sched_ok ix (dom (ix_entries ix))" by (simp add: index_wf_def index_core_def)
  from sched_ok_pop(2) [OF s assms(2)] pop_fields(1) [OF assms(2)] show ?thesis
    by (auto simp: remove_entry_def split: option.splits)
qed

lemma trim_loaded_index_ok:
  "index_wf ix \<Longrightarrow> trim_loaded_index zone m ix fs = (ix', fs') \<Longrightarrow>
   index_wf ix' \<and> total_bytes (ix_entries ix') \<le> m \<and> ix_entries ix' \<subseteq>\<^sub>m ix_entries ix"
proof (induction zone m ix fs rule: trim_loaded_index.induct)
  case (1 zone m ix fs)
  have core: "index_core ix" using "1.prems"(1) by (simp add: index_wf_def)
  show ?case
  proof (cases "ix_current_size_bytes ix \<le> m")
    case True
    with "1.prems" core show ?thesis by (simp add: trim_loaded_index.simps [of zone m ix] index_core_def)
  next
    case big: False
    show ?thesis
    proof (cases "pop_oldest_scheduled_entry ix")
      case None
      then have "ix_access_schedule ix = []" by (simp add: pop_None_iff)
      from empty_schedule_no_entries [OF core this] core big show ?thesis by (simp add: index_core_def total_bytes_def)
    next
      case (Some r)
      obtain key t ix1 where r: "r = ((key, t), ix1)" by (metis prod.exhaust)
      with Some have p: "pop_oldest_scheduled_entry ix = Some ((key, t), ix1)" by simp
      obtain entry ix2 where e: "remove_entry ix1 key = Some (entry, ix2)"
        using popped_is_entry [OF "1.prems"(1) p] by blast
      note w = pop_remove_wf [OF "1.prems"(1) p e]
      have "ix_entries ix' \<subseteq>\<^sub>m ix_entries ix2 \<and> index_wf ix' \<and> total_bytes (ix_entries ix') \<le> m"
        using "1.IH"(2) [OF big p refl refl e refl w(1)] "1.prems"(2) big p e
        by (simp add: trim_loaded_index.simps [of zone m ix])
      moreover have "ix_entries ix2 \<subseteq>\<^sub>m ix_entries ix" unfolding w(2) by (rule map_le_del)
      ultimately show ?thesis by (blast intro: map_le_trans)
    qed
  qed
qed

text \<open>The bytes of all bodies the scan meets.\<close>

definition scanned_bytes :: "metadata_json \<Rightarrow> (string \<Rightarrow> string) \<Rightarrow> cache_zone \<Rightarrow> files \<Rightarrow> string \<Rightarrow> nat" where
  "scanned_bytes json sha zone fs name =
     (case metadata_hash name of None \<Rightarrow> 0
      | Some hash \<Rightarrow> (case fs (pa_body (cache_paths_for_zone zone hash)) of None \<Rightarrow> 0 | Some body \<Rightarrow> length body))"

lemma loaded_entry_bytes:
  assumes "load_cache_index_entry json sha zone hash fs = (Some (key, entry), fs1)"
  shows "\<exists>body. fs (pa_body (cache_paths_for_zone zone hash)) = Some body \<and> ie_body_size_bytes entry = length body \<and> fs1 = fs"
  using assms
  by (auto simp: load_cache_index_entry_def scanned_entry_def Let_def split: option.splits if_splits)

lemma scan_file_ok:
  assumes "index_wf ix" and "fs \<subseteq>\<^sub>m fs0" and "total_bytes (ix_entries ix) + scanned_bytes json sha zone fs0 name \<le> u64_max"
    and "scan_file json sha zone name (ix, fs) = (ix', fs')"
  shows "index_wf ix' \<and> fs' \<subseteq>\<^sub>m fs0 \<and>
     total_bytes (ix_entries ix') \<le> total_bytes (ix_entries ix) + scanned_bytes json sha zone fs0 name"
proof -
  have removed: "remove_cache_files zone hash fs \<subseteq>\<^sub>m fs0" for hash
    using assms(2) by (auto simp: remove_cache_files_def Let_def map_le_def)
  show ?thesis
  proof (cases "metadata_hash name")
    case None
    with assms removed show ?thesis by (auto simp: scan_file_def split: option.splits if_splits)
  next
    case (Some hash)
    obtain found fs1 where l: "load_cache_index_entry json sha zone hash fs = (found, fs1)" by force
    show ?thesis
    proof (cases found)
      case None
      with l have "fs1 = fs \<or> fs1 = remove_cache_files zone hash fs"
        by (auto simp: load_cache_index_entry_def Let_def split: option.splits if_splits)
      with None l Some assms removed show ?thesis by (auto simp: scan_file_def)
    next
      case found: (Some ke)
      obtain key entry where ke: "ke = (key, entry)" by force
      from loaded_entry_bytes [of json sha zone hash fs key entry fs1] l found ke
      obtain body where b: "fs (pa_body (cache_paths_for_zone zone hash)) = Some body" "ie_body_size_bytes entry = length body" "fs1 = fs"
        by auto
      with assms(2) have "fs0 (pa_body (cache_paths_for_zone zone hash)) = Some body" by (metis map_le_def domI)
      with Some b have bytes: "scanned_bytes json sha zone fs0 name = ie_body_size_bytes entry" by (simp add: scanned_bytes_def)
      have fin: "finite (dom (ix_entries ix))" using assms(1) by (simp add: index_wf_def index_core_def refs_ok_def)
      let ?gone = "(ix_entries ix)(key := None)"
      have t: "total_bytes ?gone \<le> total_bytes (ix_entries ix)" by (rule total_mono [OF map_le_del fin])
      with bytes assms(3) have fits: "total_bytes ?gone + ie_body_size_bytes entry \<le> u64_max" by simp
      have "total_bytes ((ix_entries ix)(key \<mapsto> entry)) = total_bytes ?gone + ie_body_size_bytes entry"
        using total_upd [of ?gone key entry] fin by simp
      with load_entry_wf [OF assms(1) fits] t bytes found ke l Some assms(2,4) b(3) show ?thesis
        by (auto simp: scan_file_def)
    qed
  qed
qed

lemma scan_cache_dir_ok:
  "index_wf ix \<Longrightarrow> fs \<subseteq>\<^sub>m fs0 \<Longrightarrow> total_bytes (ix_entries ix) + (\<Sum>name \<leftarrow> names. scanned_bytes json sha zone fs0 name) \<le> u64_max \<Longrightarrow>
   scan_cache_dir json sha zone names (ix, fs) = (ix', fs') \<Longrightarrow> index_wf ix'"
proof (induction names arbitrary: ix fs)
  case (Cons name names)
  obtain ix1 fs1 where s: "scan_file json sha zone name (ix, fs) = (ix1, fs1)" by force
  have "index_wf ix1 \<and> fs1 \<subseteq>\<^sub>m fs0 \<and> total_bytes (ix_entries ix1) \<le> total_bytes (ix_entries ix) + scanned_bytes json sha zone fs0 name"
    by (rule scan_file_ok [OF Cons.prems(1,2) _ s]) (use Cons.prems(3) in simp)
  with Cons.IH [of ix1 fs1] Cons.prems(3,4) s show ?case by (simp add: scan_cache_dir_def)
qed (simp add: scan_cache_dir_def)

text \<open>
  C30. The index that a starting worker builds from the cache directory is well
  formed, whatever the files hold and in whatever order they are found: reference
  counts, access schedule, variants and the size total agree with its entries, and
  the total is within the zone's limit.
\<close>

theorem loaded_index_is_well_formed:
  assumes "load_index_from_disk json sha zone (Some names) fs = (ix, fs')"
    and "(\<Sum>name \<leftarrow> names. scanned_bytes json sha zone fs name) \<le> u64_max"
  shows "index_wf ix \<and> (\<forall>m. cz_max_size_bytes zone = Some m \<longrightarrow> total_bytes (ix_entries ix) \<le> m)"
proof -
  obtain ix0 fs0 where s: "scan_cache_dir json sha zone names (default_index, fs) = (ix0, fs0)" by force
  have "index_wf ix0"
    by (rule scan_cache_dir_ok [OF default_index_wf map_le_refl _ s])
      (use assms(2) in \<open>simp add: default_index_def total_bytes_def\<close>)
  with s assms(1) trim_loaded_index_ok [of ix0 zone _ fs0 ix fs'] show ?thesis
    by (auto simp: load_index_from_disk_def split: option.splits)
qed

definition sample_metadata_json :: metadata_json where
  "sample_metadata_json = \<lparr> mj_encode = (\<lambda>_. None), mj_decode = (\<lambda>_. None), mj_header_name = Some \<rparr>"

theorem loaded_index_is_well_formed_witness:
  "index_wf (fst (load_index_from_disk sample_metadata_json id sample_zone (Some [''x'']) Map.empty))"
  using loaded_index_is_well_formed
    [of sample_metadata_json id sample_zone "[''x'']" Map.empty
      "fst (load_index_from_disk sample_metadata_json id sample_zone (Some [''x'']) Map.empty)"
      "snd (load_index_from_disk sample_metadata_json id sample_zone (Some [''x'']) Map.empty)"]
  by (simp add: scanned_bytes_def metadata_hash_def strip_suffix_def str_ends_with_def)

section \<open>Writing and loading again\<close>

text \<open>The files of an entry and their temporary names are all different.\<close>

lemma path_join_prefix: "\<exists>pre. \<forall>name. path_join dir name = pre @ name"
proof (cases "dir = [] \<or> last dir = CHR ''/''")
  case True
  then have "path_join dir name = dir @ name" for name by (auto simp: path_join_def)
  then show ?thesis by blast
next
  case False
  then have "path_join dir name = (dir @ ''/'') @ name" for name by (simp add: path_join_def)
  then show ?thesis by blast
qed

lemma entry_paths:
  obtains pre where "pa_metadata (cache_paths_for_zone zone hash) = pre @ ''.meta.json''"
    and "pa_body (cache_paths_for_zone zone hash) = pre @ ''.body''"
proof -
  obtain p where p: "\<And>name. path_join (level_dirs hash (cz_path zone) 0 (cz_path_levels zone)) name = p @ name"
    using path_join_prefix by blast
  show thesis
    by (rule that [of "p @ hash"]) (simp_all add: cache_paths_for_zone_def cache_paths_with_levels_def Let_def p)
qed

lemma temp_path_distinct:
  fixes pid c c' zone hash
  defines "paths \<equiv> cache_paths_for_zone zone hash"
  defines "mt \<equiv> sibling_temp_path (pa_metadata paths) (next_temp_suffix pid c)"
    and "bt \<equiv> cache_entry_temp_body_path pid c' paths"
  shows "mt \<noteq> bt \<and> mt \<noteq> pa_body paths \<and> mt \<noteq> pa_metadata paths \<and> bt \<noteq> pa_body paths \<and> bt \<noteq> pa_metadata paths
    \<and> pa_body paths \<noteq> pa_metadata paths"
proof -
  obtain pre where pre: "pa_metadata paths = pre @ ''.meta.json''" "pa_body paths = pre @ ''.body''"
    unfolding paths_def by (rule entry_paths)
  show "mt \<noteq> bt \<and> mt \<noteq> pa_body paths \<and> mt \<noteq> pa_metadata paths \<and> bt \<noteq> pa_body paths \<and> bt \<noteq> pa_metadata paths
    \<and> pa_body paths \<noteq> pa_metadata paths"
    unfolding mt_def bt_def sibling_temp_path_def next_temp_suffix_def cache_entry_temp_body_path_def pre
    by simp
qed

definition metadata_json_ok :: "metadata_json \<Rightarrow> bool" where
  "metadata_json_ok json \<longleftrightarrow>
     (\<forall>md bytes. mj_encode json md = Some bytes \<longrightarrow>
        mj_decode json bytes = Some \<lparr> rw_metadata = md, rw_requires_revalidation = Some (md_requires_revalidation md) \<rparr>)"

lemma commit_files:
  fixes zone hash pid c c'
  defines "paths \<equiv> cache_paths_for_zone zone hash"
  assumes "commit_cache_entry_temp_body json faults (next_temp_suffix pid c) paths metadata
      (cache_entry_temp_body_path pid c' paths) fs = (Inr (), fs')"
  shows "\<exists>bytes. mj_encode json metadata = Some bytes \<and> fs' (pa_metadata paths) = Some bytes
     \<and> fs' (pa_body paths) = fs (cache_entry_temp_body_path pid c' paths)"
  using assms(2) temp_path_distinct [of zone hash pid c c', folded paths_def]
  by (auto simp: commit_cache_entry_temp_body_def rename_def Let_def split: option.splits)

lemma parse_vary_round_trip:
  "(\<forall>h \<in> set vary. header_name (vh_name h) = Some (vh_name h)) \<Longrightarrow>
   parse_vary_headers header_name (map (\<lambda>h. \<lparr> cvh_name = vh_name h, cvh_value = vh_value h \<rparr>) vary) = Some vary"
  by (induction vary) simp_all

text \<open>
  C31. An entry committed to disk is found again by a worker that starts later,
  with all its fields: key, variant, tags, deadlines, flags and size are those of
  the entry that the index held when it was stored.
\<close>

theorem committed_entry_survives_restart:
  assumes "metadata_json_ok json"
    and "commit_cache_entry_temp_body json faults (next_temp_suffix pid c) (cache_paths_for_zone zone (cache_key_hash sha key))
           (cache_metadata_of header_name key status headers input)
           (cache_entry_temp_body_path pid c' (cache_paths_for_zone zone (cache_key_hash sha key))) fs = (Inr (), fs')"
    and "fs (cache_entry_temp_body_path pid c' (cache_paths_for_zone zone (cache_key_hash sha key))) = Some body"
    and "length body = mi_body_size_bytes input"
    and "key \<noteq> []" and "mi_base_key input \<noteq> []"
    and "\<forall>h \<in> set (mi_vary input). mj_header_name json (vh_name h) = Some (vh_name h)"
  shows "load_cache_index_entry json sha zone (cache_key_hash sha key) fs' =
     (Some (key, entry_of_metadata (cache_key_hash sha key) (mi_stored_at_unix_ms input) input), fs')"
proof -
  let ?md = "cache_metadata_of header_name key status headers input"
  obtain bytes where b: "mj_encode json ?md = Some bytes"
    "fs' (pa_metadata (cache_paths_for_zone zone (cache_key_hash sha key))) = Some bytes"
    "fs' (pa_body (cache_paths_for_zone zone (cache_key_hash sha key))) = Some body"
    using commit_files [OF assms(2)] assms(3) by auto
  have d: "mj_decode json bytes = Some \<lparr> rw_metadata = ?md, rw_requires_revalidation = Some (md_requires_revalidation ?md) \<rparr>"
    using assms(1) b(1) by (simp add: metadata_json_ok_def)
  have v: "parse_vary_headers (mj_header_name json) (md_vary ?md) = Some (mi_vary input)"
    using parse_vary_round_trip [OF assms(7)] by (simp add: cache_metadata_of_def)
  show ?thesis
    unfolding load_cache_index_entry_def Let_def b d Option.bind.bind_lunit option.case raw_cache_metadata.select_convs v
    using assms(4-6)
    by (simp add: cache_metadata_of_def scanned_entry_def entry_of_metadata_def)
qed

lemma load_entry_cong:
  assumes "fs' (pa_metadata (cache_paths_for_zone zone hash)) = fs (pa_metadata (cache_paths_for_zone zone hash))"
    and "fs' (pa_body (cache_paths_for_zone zone hash)) = fs (pa_body (cache_paths_for_zone zone hash))"
  shows "fst (load_cache_index_entry json sha zone hash fs') = fst (load_cache_index_entry json sha zone hash fs)"
  unfolding load_cache_index_entry_def Let_def assms by (simp split: option.split)

lemma load_entry_none:
  "fs (pa_metadata (cache_paths_for_zone zone hash)) = None \<Longrightarrow> fst (load_cache_index_entry json sha zone hash fs) = None"
  by (simp add: load_cache_index_entry_def Let_def)


definition sample_metadata_input :: cache_metadata_input where
  "sample_metadata_input = cache_metadata_input_of ''k'' [] [] 5 None None sample_freshness 2"

abbreviation sample_metadata :: cache_metadata where
  "sample_metadata \<equiv> cache_metadata_of Some ''k'' 200 [] sample_metadata_input"

definition sample_one_json :: metadata_json where
  "sample_one_json = \<lparr> mj_encode = (\<lambda>md. if md = sample_metadata then Some ''m'' else None),
     mj_decode = (\<lambda>bytes. if bytes = ''m'' then Some \<lparr> rw_metadata = sample_metadata,
        rw_requires_revalidation = Some (md_requires_revalidation sample_metadata) \<rparr> else None), mj_header_name = Some \<rparr>"

definition no_faults :: commit_faults where
  "no_faults = \<lparr> cf_create_dir = None, cf_write = None, cf_rename_body = None, cf_rename_metadata = None \<rparr>"

abbreviation sample_paths :: cache_paths where
  "sample_paths \<equiv> cache_paths_for_zone sample_zone (cache_key_hash id ''k'')"

definition sample_commit :: "commit_faults \<Rightarrow> (io_error + unit) \<times> files" where
  "sample_commit faults = commit_cache_entry_temp_body sample_one_json faults (next_temp_suffix 1 2) sample_paths sample_metadata
     (cache_entry_temp_body_path 1 3 sample_paths) [cache_entry_temp_body_path 1 3 sample_paths \<mapsto> ''ab'']"

theorem committed_entry_survives_restart_witness:
  "fst (load_cache_index_entry sample_one_json id sample_zone (cache_key_hash id ''k'') (snd (sample_commit no_faults))) =
     Some (''k'', entry_of_metadata (cache_key_hash id ''k'') 5 sample_metadata_input)"
proof -
  have c: "sample_commit no_faults = (Inr (), snd (sample_commit no_faults))"
    by (simp add: sample_commit_def commit_cache_entry_temp_body_def no_faults_def sample_one_json_def Let_def)
  have "metadata_json_ok sample_one_json" by (simp add: metadata_json_ok_def sample_one_json_def)
  from committed_entry_survives_restart [OF this c [unfolded sample_commit_def], of "''ab''"] show ?thesis
    by (simp add: sample_commit_def sample_metadata_input_def cache_metadata_input_of_def Let_def)
qed


section \<open>Serving what was stored\<close>

lemma stream_cached_bytes:
  "pos + n \<le> length content \<Longrightarrow>
   data_events (stream_cached_file_body content pos n) \<and> bytes_of (stream_cached_file_body content pos n) = take n (drop pos content)"
proof (induction content pos n rule: stream_cached_file_body.induct)
  case (1 content pos n)
  show ?case
  proof (cases "n = 0")
    case True
    then show ?thesis by (simp add: stream_cached_file_body.simps [of content pos])
  next
    case False
    let ?c = "min n COMMITTED_CACHE_READ_CHUNK_BYTES"
    have step: "stream_cached_file_body content pos n =
        EvFrame (FData (take ?c (drop pos content))) # stream_cached_file_body content (pos + ?c) (n - ?c)"
      using False "1.prems" by (subst stream_cached_file_body.simps) (simp add: Let_def)
    have "take ?c (drop pos content) @ take (n - ?c) (drop (pos + ?c) content) = take (?c + (n - ?c)) (drop pos content)"
      by (simp only: take_add drop_drop add.commute)
    with step "1.IH" [OF False refl] "1.prems" show ?thesis by simp
  qed
qed

lemma append_stored_headers_id:
  "(\<forall>(n, v) \<in> set hs. header_name n = Some n \<and> header_value_of v = Some v) \<Longrightarrow> append_stored_headers header_name acc hs = Inr (acc @ hs)"
proof (induction hs arbitrary: acc)
  case (Cons h hs)
  obtain n v where h: "h = (n, v)" by force
  with Cons show ?case by (simp add: invalid_data_def hm_append_def)
qed simp

text \<open>
  A response that was committed is served back as it came: a later request for
  the whole resource receives the stored status, the stored headers and exactly the
  bytes of the body, read in chunks from the file.
\<close>

theorem committed_response_is_served_back:
  assumes "metadata_json_ok json"
    and "commit_cache_entry_temp_body json faults (next_temp_suffix pid c) (cache_paths_for_zone (zr_config z) hash)
           (cache_metadata_of header_name key status headers input)
           (cache_entry_temp_body_path pid c' (cache_paths_for_zone (zr_config z) hash)) fs = (Inr (), fs')"
    and "fs (cache_entry_temp_body_path pid c' (cache_paths_for_zone (zr_config z) hash)) = Some body"
    and "length body = mi_body_size_bytes input" and "mi_kind input = ResponseEntry" and "100 \<le> status" and "status < 1000"
    and "\<forall>(n, v) \<in> set (cached_headers header_name headers (mi_body_size_bytes input)).
           mj_header_name json n = Some n \<and> header_value_of v = Some v"
    and "prepared_head z heads key hash = None" and "cacheable_range_request request policy = None"
  shows "\<exists>response z' heads'.
     read_cached_response_for_request json fs' key (entry_of_metadata hash t input) request policy True z heads = (Inr response, z', heads')
     \<and> hr_status response = status \<and> hr_headers response = cached_headers header_name headers (mi_body_size_bytes input)
     \<and> drain_body (hr_body response) = (body, True)"
proof -
  let ?md = "cache_metadata_of header_name key status headers input"
  let ?paths = "cache_paths_for_zone (zr_config z) hash"
  let ?hs = "cached_headers header_name headers (mi_body_size_bytes input)"
  obtain bytes where b: "mj_encode json ?md = Some bytes" "fs' (pa_metadata ?paths) = Some bytes" "fs' (pa_body ?paths) = Some body"
    using commit_files [OF assms(2)] assms(3) by auto
  have d: "mj_decode json bytes = Some \<lparr> rw_metadata = ?md, rw_requires_revalidation = Some (md_requires_revalidation ?md) \<rparr>"
    using assms(1) b(1) by (simp add: metadata_json_ok_def)
  have r: "read_cache_metadata json fs' (pa_metadata ?paths) = Inr ?md"
    by (simp add: read_cache_metadata_def b d invalid_data_def)
  have h: "headers_map (mj_header_name json) ?md = Inr ?hs"
    using append_stored_headers_id [OF assms(8)] by (simp add: headers_map_def cache_metadata_of_def comp_def case_prod_unfold)
  let ?head = "\<lparr> pr_hash = hash, pr_metadata = ?md, pr_status = status, pr_headers = ?hs,
      pr_conditional_headers = build_conditional_headers ?hs \<rparr>"
  have p: "prepare_cached_response_head (mj_header_name json) hash ?md = Inr ?head"
    using assms(6,7) by (simp add: prepare_cached_response_head_def h invalid_data_def status_from_u16_def)
      (simp add: cache_metadata_of_def status_from_u16_def)
  have k: "md_key ?md = key" "md_body_size_bytes ?md = length body" using assms(4) by (simp_all add: cache_metadata_of_def)
  have l: "load_cached_response_head_locked json fs' key (entry_of_metadata hash t input) z heads =
      (Inr ?head, store_head z heads key t ?head)"
    using assms(9) r p k by (simp add: load_cached_response_head_locked_def entry_of_metadata_def)
  let ?body = "stream_cached_file_body body 0 (length body)"
  have build: "build_cached_response_for_request fs' (pa_body ?paths) ?head request policy True =
      Inr \<lparr> hr_status = status, hr_headers = ?hs, hr_body = WholeBody ?body \<rparr>"
    using assms(10) k
    by (simp add: build_cached_response_for_request_def b finalize_response_for_request_def downstream_range_trim_plan_def
        build_downstream_response_def)
  have "read_cached_response_for_request json fs' key (entry_of_metadata hash t input) request policy True z heads =
      (Inr \<lparr> hr_status = status, hr_headers = ?hs, hr_body = WholeBody ?body \<rparr>, store_head z heads key t ?head)"
    using assms(5,9) l build
    by (simp add: read_cached_response_for_request_def Let_def entry_of_metadata_def is_hit_for_pass_def split: prod.split)
  moreover have "drain_whole ?body = (body, True)"
    using stream_cached_bytes [of 0 "length body" body] drain_whole_bytes [of ?body] by simp
  ultimately show ?thesis by (cases "store_head z heads key t ?head") simp
qed

lemma sample_cached_headers: "cached_headers Some [] 2 = [(''content-length'', ''2'')]"
  by (simp add: cached_headers_def Let_def hm_contains_def hm_get_all_def remove_cache_hop_by_hop_headers_def connection_tokens_def
      hop_by_hop_names_def hm_remove_def hm_insert_def hm_append_def map_filter_def show_nat.simps digit_char_def char_of_eq_iff)

theorem committed_response_is_served_back_witness:
  "\<exists>response z' heads'.
     read_cached_response_for_request sample_one_json (snd (sample_commit no_faults)) ''k''
       (entry_of_metadata (cache_key_hash id ''k'') 5 sample_metadata_input)
       (sample_fill_request\<lparr> cr_headers := [] \<rparr>) sample_policy True sample_runtime Map.empty = (Inr response, z', heads')
     \<and> hr_status response = 200 \<and> hr_headers response = [(''content-length'', ''2'')] \<and> drain_body (hr_body response) = (''ab'', True)"
proof -
  have z: "zr_config sample_runtime = sample_zone" by (simp add: sample_runtime_def)
  have c: "sample_commit no_faults = (Inr (), snd (sample_commit no_faults))"
    by (simp add: sample_commit_def commit_cache_entry_temp_body_def no_faults_def sample_one_json_def Let_def)
  have j: "metadata_json_ok sample_one_json" by (simp add: metadata_json_ok_def sample_one_json_def)
  have i: "mi_body_size_bytes sample_metadata_input = 2" "mi_kind sample_metadata_input = ResponseEntry"
    by (simp_all add: sample_metadata_input_def cache_metadata_input_of_def Let_def)
  have r: "cacheable_range_request (sample_fill_request\<lparr> cr_headers := [] \<rparr>) sample_policy = None"
    by (simp add: cacheable_range_request_def cacheable_range_request_from_parts_def sample_fill_request_def hm_get_all_def hm_get_def)
  have v: "header_value_of ''2'' = Some ''2''" by (simp add: header_value_of_def header_value_byte_def)
  from committed_response_is_served_back
    [where z = sample_runtime and heads = Map.empty and request = "sample_fill_request\<lparr> cr_headers := [] \<rparr>" and policy = sample_policy
      and t = 5, OF j, unfolded z, OF c [unfolded sample_commit_def], of "''ab''"] r
  show ?thesis
    by (simp add: sample_commit_def i sample_cached_headers v prepared_head_def prepared_response_head_def sample_runtime_def)
      (simp add: sample_one_json_def)
qed

text \<open>
  A crash between the two renames leaves the new body beside the old metadata.
  When both bodies have the same length the next start accepts the pair, and the
  new body is served with the headers of the old response.
\<close>

lemma crash_between_renames_mixes_entries:
  assumes "fst (load_cache_index_entry json sha zone hash fs) = Some (key, entry)"
    and "fs (cache_entry_temp_body_path pid c' (cache_paths_for_zone zone hash)) = Some new_body"
    and "length new_body = ie_body_size_bytes entry"
    and "crashed = rename (cache_entry_temp_body_path pid c' (cache_paths_for_zone zone hash)) (pa_body (cache_paths_for_zone zone hash)) fs"
  shows "fst (load_cache_index_entry json sha zone hash crashed) = Some (key, entry)
     \<and> crashed (pa_body (cache_paths_for_zone zone hash)) = Some new_body"
proof -
  let ?p = "cache_paths_for_zone zone hash"
  have "crashed (pa_metadata ?p) = fs (pa_metadata ?p)" "crashed (pa_body ?p) = Some new_body"
    using assms(2,4) temp_path_distinct [of zone hash pid c c'] by (auto simp: rename_def)
  with assms(1,3) show ?thesis
    by (auto simp: load_cache_index_entry_def scanned_entry_def Let_def split: option.splits if_splits)
qed

end
