(* ===== verification/Cache_Lookup.thy ===== *)
theory Cache_Lookup
  imports Cache_Files
begin

text \<open>
  The lookup of a request in the cache and the commands that act on a zone
  (\<open>crates/rginx-http/src/cache/lookup.rs\<close>, \<open>lookup/helpers.rs\<close>, \<open>manager.rs\<close>,
  \<open>manager/control.rs\<close> and the rest of \<open>runtime/context.rs\<close>).

  A lookup decides under the locks of the zone and then waits, reads files or
  returns, and starts over when an entry turned out to be unusable.  One pass of
  that loop is one function of the worker's state and of a record with what the pass
  meets: clocks, what other tasks did at its waiting points, and the results of the
  shared store.  The loop runs over a list of such records.
\<close>

section \<open>The state of a worker\<close>

text \<open>The worker's copy of the index, the prepared heads, the fill locks, shared memory and the files.\<close>

record cache_worker =
  wk_replica :: cache_replica
  wk_heads :: prepared_heads
  wk_locks :: fill_locks
  wk_shm :: shm_space
  wk_files :: files

abbreviation wk_zone :: "cache_worker \<Rightarrow> cache_zone_runtime" where
  "wk_zone w \<equiv> rp_zone (wk_replica w)"

abbreviation set_zone :: "cache_zone_runtime \<Rightarrow> cache_worker \<Rightarrow> cache_worker" where
  "set_zone z w \<equiv> w\<lparr> wk_replica := (wk_replica w)\<lparr> rp_zone := z \<rparr> \<rparr>"

text \<open>The counters of a zone.\<close>

abbreviation update_stats :: "(cache_zone_stats \<Rightarrow> cache_zone_stats) \<Rightarrow> cache_zone_runtime \<Rightarrow> cache_zone_runtime" where
  "update_stats f z \<equiv> z\<lparr> zr_stats := f (zr_stats z) \<rparr>"

definition record_hit :: "cache_zone_runtime \<Rightarrow> cache_zone_runtime" where
  "record_hit = update_stats (\<lambda>s. s\<lparr> zs_hit_total := bump (zs_hit_total s) 1 \<rparr>)"

definition record_miss :: "cache_zone_runtime \<Rightarrow> cache_zone_runtime" where
  "record_miss = update_stats (\<lambda>s. s\<lparr> zs_miss_total := bump (zs_miss_total s) 1 \<rparr>)"

definition record_bypass :: "cache_zone_runtime \<Rightarrow> cache_zone_runtime" where
  "record_bypass = update_stats (\<lambda>s. s\<lparr> zs_bypass_total := bump (zs_bypass_total s) 1 \<rparr>)"

definition record_expired :: "cache_zone_runtime \<Rightarrow> cache_zone_runtime" where
  "record_expired = update_stats (\<lambda>s. s\<lparr> zs_expired_total := bump (zs_expired_total s) 1 \<rparr>)"

definition record_stale :: "cache_zone_runtime \<Rightarrow> cache_zone_runtime" where
  "record_stale = update_stats (\<lambda>s. s\<lparr> zs_stale_total := bump (zs_stale_total s) 1 \<rparr>)"

definition record_updating :: "cache_zone_runtime \<Rightarrow> cache_zone_runtime" where
  "record_updating = update_stats (\<lambda>s. s\<lparr> zs_updating_total := bump (zs_updating_total s) 1 \<rparr>)"

lemmas record_counters = record_hit_def record_miss_def record_bypass_def record_expired_def record_stale_def
  record_updating_def

fun as_header_value :: "cache_status \<Rightarrow> string" where
  "as_header_value CsHit = ''HIT''"
| "as_header_value CsMiss = ''MISS''"
| "as_header_value CsBypass = ''BYPASS''"
| "as_header_value CsExpired = ''EXPIRED''"
| "as_header_value CsStale = ''STALE''"
| "as_header_value CsUpdating = ''UPDATING''"
| "as_header_value CsRevalidated = ''REVALIDATED''"

definition with_cache_status :: "http_response \<Rightarrow> cache_status \<Rightarrow> http_response" where
  "with_cache_status response status =
     response\<lparr> hr_headers := hm_insert (hr_headers response) ''x-cache'' (as_header_value status) \<rparr>"

section \<open>The decision\<close>

definition matching_variant_key :: "cache_index \<Rightarrow> string \<Rightarrow> cache_request \<Rightarrow> string option" where
  "matching_variant_key ix base_key request =
     (let matches = (\<lambda>key. case ix_entries ix key of
            None \<Rightarrow> False
          | Some entry \<Rightarrow> matches_vary_headers request (ie_vary entry))
      in if ix_variants ix base_key = None \<and> matches base_key then Some base_key
         else find matches (case ix_variants ix base_key of None \<Rightarrow> [] | Some keys \<Rightarrow> keys))"

definition stale_allowed_for_entry :: "route_cache_policy \<Rightarrow> cache_index_entry \<Rightarrow> nat \<Rightarrow> bool \<Rightarrow> bool" where
  "stale_allowed_for_entry policy entry now request_forces_revalidation \<longleftrightarrow>
     lifecycle_phase entry now = PhaseGrace \<and> \<not> is_hit_for_pass entry \<and> \<not> request_forces_revalidation
     \<and> \<not> ie_requires_revalidation entry \<and> \<not> ie_must_revalidate entry
     \<and> (StaleUpdating \<in> set (cp_use_stale policy) \<or> window_open (ie_stale_while_revalidate_until_unix_ms entry) now)"

datatype lookup_wait = LookupWaitLocal nat | LookupWaitExternal string

datatype lookup_decision =
    DecideBypass cache_status
  | DecideDropEntry string cache_index_entry
  | DecideFreshHit string cache_index_entry
  | DecideStale string cache_index_entry cache_status
  | DecideBackgroundUpdate string cache_index_entry cache_fill_guard
  | DecideMiss string string "cache_index_entry option" "cache_fill_guard option" cache_status
  | DecideReadWhileFillLocal nat
  | DecideReadWhileFillExternal external_fill_read_state
  | DecideWait lookup_wait

text \<open>What a request does that found a usable entry which is not simply fresh.\<close>

fun refresh_decision ::
    "route_cache_policy \<Rightarrow> string \<Rightarrow> cache_index_entry \<Rightarrow> bool \<Rightarrow> bool \<Rightarrow> fill_lock_decision \<Rightarrow> lookup_decision" where
  "refresh_decision policy key entry expired stale (FillAcquired fill_guard) =
     (if stale \<and> cp_background_update policy then DecideBackgroundUpdate key entry fill_guard
      else DecideMiss key (ie_base_key entry) (Some entry) (Some fill_guard) (if expired then CsExpired else CsRevalidated))"
| "refresh_decision policy key entry expired stale (ReadLocal state) =
     (if stale then DecideStale key entry CsUpdating else DecideReadWhileFillLocal state)"
| "refresh_decision policy key entry expired stale (ReadExternal state) =
     (if stale then DecideStale key entry CsUpdating else DecideReadWhileFillExternal state)"
| "refresh_decision policy key entry expired stale (WaitLocal waiter) =
     (if stale then DecideStale key entry CsUpdating else DecideWait (LookupWaitLocal waiter))"
| "refresh_decision policy key entry expired stale (WaitExternal external_key) =
     (if stale then DecideStale key entry CsUpdating else DecideWait (LookupWaitExternal external_key))"

fun miss_decision :: "string \<Rightarrow> fill_lock_decision \<Rightarrow> lookup_decision" where
  "miss_decision base_key (FillAcquired fill_guard) = DecideMiss base_key base_key None (Some fill_guard) CsMiss"
| "miss_decision base_key (ReadLocal state) = DecideReadWhileFillLocal state"
| "miss_decision base_key (ReadExternal state) = DecideReadWhileFillExternal state"
| "miss_decision base_key (WaitLocal waiter) = DecideWait (LookupWaitLocal waiter)"
| "miss_decision base_key (WaitExternal key) = DecideWait (LookupWaitExternal key)"

definition lookup_decision_of ::
    "fill_env \<Rightarrow> fill_env \<Rightarrow> cache_request \<Rightarrow> string \<Rightarrow> nat \<Rightarrow> bool \<Rightarrow> route_cache_policy \<Rightarrow>
     cache_zone_runtime \<Rightarrow> fill_locks \<Rightarrow> shm_space \<Rightarrow> lookup_decision \<times> cache_zone_runtime \<times> fill_locks \<times> shm_space" where
  "lookup_decision_of env env' request base_key now request_forces_revalidation policy z fz space =
     (case Option.bind (matching_variant_key (zr_index z) base_key request)
             (\<lambda>key. map_option (\<lambda>entry. (key, entry, entry_is_logically_invalid (zr_index z) key entry)) (ix_entries (zr_index z) key)) of
        Some (key, entry, invalidated) \<Rightarrow>
          let phase = lifecycle_phase entry now
          in if invalidated then (DecideDropEntry key entry, z, fz, space)
             else if is_hit_for_pass entry then
               (if phase = PhaseDead then DecideDropEntry key entry else DecideBypass CsBypass, z, fz, space)
             else if phase = PhaseDead then (DecideDropEntry key entry, z, fz, space)
             else let z1 = record_entry_access z key now
                  in if phase = PhaseFresh \<and> \<not> ie_requires_revalidation entry \<and> \<not> request_forces_revalidation
                     then (DecideFreshHit key entry, z1, fz, space)
                     else let expired = ie_expires_at_unix_ms entry < now;
                              stale = expired \<and> stale_allowed_for_entry policy entry now request_forces_revalidation
                          in (case fill_lock_decision_of env env' key now (cp_lock_age policy) None fz space of
                                (d, fz1, space1) \<Rightarrow> (refresh_decision policy key entry expired stale d, z1, fz1, space1))
      | None \<Rightarrow>
          (case fill_lock_decision_of env env' base_key now (cp_lock_age policy) (Some (fill_share_fingerprint request)) fz space of
             (d, fz1, space1) \<Rightarrow> (miss_decision base_key d, z, fz1, space1)))"

section \<open>One pass of the lookup\<close>

text \<open>The reads of the shared index that a synchronisation makes.\<close>

record sync_reads =
  sy_state1 :: "io_error + nat \<times> nat"
  sy_state2 :: "io_error + nat \<times> nat"
  sy_changes :: "io_error + loaded_changes"
  sy_loaded :: "io_error + loaded_index"

definition sync_worker :: "sync_reads \<Rightarrow> cache_worker \<Rightarrow> cache_worker" where
  "sync_worker sy w =
     w\<lparr> wk_replica := sync_zone_shared_index_if_needed (wk_replica w) (sy_state1 sy) (sy_state2 sy) (sy_changes sy) (sy_loaded sy) \<rparr>"

text \<open>A change of the zone together with the publication of its operations.\<close>

definition publish_zone ::
    "io_error + applied_operations \<Rightarrow> shared_index_operation list \<Rightarrow> cache_zone_runtime \<Rightarrow> cache_worker \<Rightarrow> cache_worker" where
  "publish_zone applied ops z w =
     w\<lparr> wk_replica := apply_zone_shared_index_operations_locked ((wk_replica w)\<lparr> rp_zone := z \<rparr>) ops applied \<rparr>"

definition remove_cache_entry_if_matches ::
    "io_error + applied_operations \<Rightarrow> string \<Rightarrow> cache_index_entry \<Rightarrow> cache_worker \<Rightarrow> bool \<times> cache_worker" where
  "remove_cache_entry_if_matches applied key expected_entry w =
     (case remove_zone_index_entry_if_matches (wk_zone w) key expected_entry of
        (None, ops, z) \<Rightarrow> (False, w)
      | (Some removed, ops, z) \<Rightarrow>
          let w1 = publish_zone applied ops z w
          in (True, if rm_delete_files removed
                    then w1\<lparr> wk_files := remove_cache_files (zr_config z) (rm_hash removed) (wk_files w1) \<rparr> else w1))"

text \<open>
  What a pass meets: the clock of the decision and the one after the read, the two
  calls of the shared store, what other tasks do before the first and the second
  read, whether a local wait ends in time, the polls of a wait for another worker,
  the results of publishing a removal and an access, the synchronisation after a
  wait, and what the body of a running fill delivers.
\<close>

record lookup_turn =
  lt_now :: nat
  lt_later :: nat
  lt_env :: fill_env
  lt_env' :: fill_env
  lt_between :: "cache_worker \<Rightarrow> cache_worker"
  lt_between' :: "cache_worker \<Rightarrow> cache_worker"
  lt_released :: bool
  lt_polls :: "fill_poll list"
  lt_removed :: "io_error + applied_operations"
  lt_touched :: "io_error + applied_operations"
  lt_sync :: sync_reads
  lt_inflight :: "body_event list"

text \<open>The whole store context: what decisions read, the guard of the fill and the head found.\<close>

record lookup_context = cache_store_context +
  sc_fill_guard :: "cache_fill_guard option"
  sc_cached_response_head :: "prepared_cache_response_head option"

datatype cache_lookup =
    LookupHit http_response
  | LookupMiss lookup_context
  | LookupUpdating http_response lookup_context
  | LookupBypass cache_status

definition load_lookup_response_head ::
    "metadata_json \<Rightarrow> lookup_turn \<Rightarrow> string \<Rightarrow> cache_index_entry \<Rightarrow> cache_worker \<Rightarrow>
     prepared_cache_response_head option \<times> cache_worker" where
  "load_lookup_response_head json t key entry w =
     (case load_cached_response_head json (wk_files w) key entry (wk_zone w) (wk_heads w) of
        (Inr head, z, heads) \<Rightarrow> (Some head, (set_zone z w)\<lparr> wk_heads := heads \<rparr>)
      | (Inl _, z, heads) \<Rightarrow>
          (None, snd (remove_cache_entry_if_matches (lt_removed t) key entry ((set_zone z w)\<lparr> wk_heads := heads \<rparr>))))"

definition touch_worker :: "lookup_turn \<Rightarrow> string \<Rightarrow> cache_worker \<Rightarrow> cache_worker" where
  "touch_worker t key w =
     (case record_zone_shared_entry_access (wk_zone w) key (lt_later t) of (ops, z) \<Rightarrow> publish_zone (lt_touched t) ops z w)"

definition stale_response_from_entry ::
    "metadata_json \<Rightarrow> lookup_turn \<Rightarrow> string \<Rightarrow> cache_index_entry \<Rightarrow> cache_request \<Rightarrow> route_cache_policy \<Rightarrow> bool \<Rightarrow> cache_status \<Rightarrow>
     cache_worker \<Rightarrow> http_response option \<times> cache_worker" where
  "stale_response_from_entry json t key entry request policy read_cached_body status w =
     (case load_lookup_response_head json t key entry w of
        (None, w1) \<Rightarrow> (None, w1)
      | (Some head, w1) \<Rightarrow>
          (case build_cached_response_for_request (wk_files w1) (pa_body (cache_paths_for_zone (zr_config (wk_zone w1)) (ie_hash entry)))
                  head request policy read_cached_body of
             Inl _ \<Rightarrow> (None, snd (remove_cache_entry_if_matches (lt_removed t) key entry w1))
           | Inr response \<Rightarrow>
               let w2 = touch_worker t key w1
               in (Some (with_cache_status response status),
                   set_zone (if status = CsUpdating then record_updating (wk_zone w2) else record_stale (wk_zone w2)) w2)))"

definition inflight_response ::
    "status_code \<Rightarrow> header_map \<Rightarrow> body_event list \<Rightarrow> cache_request \<Rightarrow> route_cache_policy \<Rightarrow> bool \<Rightarrow> io_error + http_response" where
  "inflight_response status headers body request policy read_body =
     bind_res (downstream_range_trim_plan status headers request policy)
       (\<lambda>plan. Inr (build_downstream_response status headers (if read_body then body else []) plan))"

definition drop_guard_of :: "lookup_turn \<Rightarrow> cache_fill_guard option \<Rightarrow> cache_worker \<Rightarrow> cache_worker" where
  "drop_guard_of t guard w =
     (case guard of
        None \<Rightarrow> w
      | Some g \<Rightarrow> (case drop_fill_guard (lt_env t) g (wk_locks w) (wk_shm w) of (fz, space) \<Rightarrow> w\<lparr> wk_locks := fz, wk_shm := space \<rparr>))"

text \<open>What stays the same during a lookup.\<close>

record lookup_query =
  lq_request :: cache_request
  lq_base_key :: string
  lq_forces_revalidation :: bool
  lq_policy :: route_cache_policy
  lq_read_cached_body :: bool

definition store_context ::
    "lookup_query \<Rightarrow> cache_zone \<Rightarrow> cache_request \<Rightarrow> string \<Rightarrow> string \<Rightarrow> cache_status \<Rightarrow> bool \<Rightarrow> cache_fill_guard option \<Rightarrow>
     cache_index_entry option \<Rightarrow> prepared_cache_response_head option \<Rightarrow> bool \<Rightarrow> lookup_context" where
  "store_context q zone request base_key key status store guard entry head revalidating =
     \<lparr> sc_zone = zone, sc_policy = lq_policy q, sc_request = request, sc_base_key = base_key, sc_key = key,
       sc_cache_status = status, sc_store_response = store, sc_cached_entry = entry,
       sc_has_response_head = (head \<noteq> None), sc_revalidating = revalidating,
       sc_request_forces_revalidation = lq_forces_revalidation q, sc_read_cached_body = lq_read_cached_body q,
       sc_fill_guard = guard, sc_cached_response_head = head \<rparr>"

text \<open>A request that misses hands on its context, once the head of an old entry is loaded.\<close>

definition miss_context ::
    "lookup_query \<Rightarrow> string \<Rightarrow> string \<Rightarrow> cache_index_entry option \<Rightarrow> cache_fill_guard option \<Rightarrow> cache_status \<Rightarrow>
     prepared_cache_response_head option \<Rightarrow> cache_worker \<Rightarrow> cache_lookup option \<times> cache_worker" where
  "miss_context q key base_key cached_entry fill_guard status head w =
     (let z = (if status = CsMiss then record_miss (wk_zone w) else if status = CsExpired then record_expired (wk_zone w) else wk_zone w);
          meth = cr_method (lq_request q)
      in (Some (LookupMiss (store_context q (zr_config z) (lq_request q) base_key key status
                 (meth = ''GET'' \<or> meth = ''HEAD'' \<and> cp_convert_head (lq_policy q))
                 fill_guard cached_entry head (status = CsRevalidated))),
          set_zone z w))"

definition serve_inflight :: "io_error + http_response \<Rightarrow> cache_worker \<Rightarrow> cache_lookup option \<times> cache_worker" where
  "serve_inflight response w =
     (case response of
        Inl _ \<Rightarrow> (None, w)
      | Inr r \<Rightarrow> (Some (LookupHit (with_cache_status r CsMiss)), set_zone (record_miss (wk_zone w)) w))"

text \<open>Acting on a decision: the result of the lookup, or none when the loop goes on.\<close>

fun lookup_act :: "metadata_json \<Rightarrow> lookup_query \<Rightarrow> lookup_turn \<Rightarrow> lookup_decision \<Rightarrow> cache_worker \<Rightarrow> cache_lookup option \<times> cache_worker" where
  "lookup_act json q t (DecideBypass status) w = (Some (LookupBypass status), set_zone (record_bypass (wk_zone w)) w)"
| "lookup_act json q t (DecideDropEntry key entry) w = (None, snd (remove_cache_entry_if_matches (lt_removed t) key entry w))"
| "lookup_act json q t (DecideFreshHit key entry) w =
     (case read_cached_response_for_request json (wk_files w) key entry (lq_request q) (lq_policy q) (lq_read_cached_body q)
             (wk_zone w) (wk_heads w) of
        (Inr response, z, heads) \<Rightarrow>
          let w1 = touch_worker t key ((set_zone z w)\<lparr> wk_heads := heads \<rparr>)
          in (Some (LookupHit (with_cache_status response CsHit)), set_zone (record_hit (wk_zone w1)) w1)
      | (Inl _, z, heads) \<Rightarrow>
          (None, snd (remove_cache_entry_if_matches (lt_removed t) key entry ((set_zone z w)\<lparr> wk_heads := heads \<rparr>))))"
| "lookup_act json q t (DecideStale key entry status) w =
     (case stale_response_from_entry json t key entry (lq_request q) (lq_policy q) (lq_read_cached_body q) status w of
        (response, w1) \<Rightarrow> (map_option LookupHit response, w1))"
| "lookup_act json q t (DecideWait strategy) w =
     (if (case strategy of
            LookupWaitLocal waiter \<Rightarrow> lt_released t
          | LookupWaitExternal key \<Rightarrow> wait_for_memory_shared_fill_lock key (cp_lock_age (lq_policy q)) (lt_polls t) = Some True)
      then (None, sync_worker (lt_sync t) w)
      else (Some (LookupMiss (store_context q (zr_config (wk_zone w)) (lq_request q) (lq_base_key q) (lq_base_key q) CsBypass
                   False None None None False)),
            set_zone (record_bypass (wk_zone w)) w))"
| "lookup_act json q t (DecideBackgroundUpdate key cached_entry fill_guard) w =
     (case load_lookup_response_head json t key cached_entry w of
        (None, w1) \<Rightarrow> (None, drop_guard_of t (Some fill_guard) w1)
      | (Some head, w1) \<Rightarrow>
          let w2 = set_zone (record_expired (wk_zone w1)) w1;
              ctx = store_context q (zr_config (wk_zone w2)) ((lq_request q)\<lparr> cr_method := ''GET'' \<rparr>) (ie_base_key cached_entry) key
                      CsUpdating True (Some fill_guard) (Some cached_entry) (Some head) True
          in (case stale_response_from_entry json t key cached_entry (lq_request q) (lq_policy q) (lq_read_cached_body q) CsUpdating
                     (lt_between' t w2) of
                (None, w3) \<Rightarrow> (None, drop_guard_of t (Some fill_guard) w3)
              | (Some response, w3) \<Rightarrow> (Some (LookupUpdating response ctx), w3)))"
| "lookup_act json q t (DecideMiss key base_key cached_entry fill_guard status) w =
     (case cached_entry of
        None \<Rightarrow> miss_context q key base_key None fill_guard status None w
      | Some entry \<Rightarrow>
          (case load_lookup_response_head json t key entry w of
             (None, w1) \<Rightarrow> (None, drop_guard_of t fill_guard w1)
           | (Some head, w1) \<Rightarrow> miss_context q key base_key (Some entry) fill_guard status (Some head) w1))"
| "lookup_act json q t (DecideReadWhileFillLocal a) w =
     (case fz_read_states (wk_locks w) a of
        None \<Rightarrow> (None, w)
      | Some state \<Rightarrow> serve_inflight (inflight_response (rs_status state) (rs_headers state) (lt_inflight t) (lq_request q) (lq_policy q)
                         (lq_read_cached_body q)) w)"
| "lookup_act json q t (DecideReadWhileFillExternal state) w =
     serve_inflight (inflight_response (ef_status state) (ef_headers state) (lt_inflight t) (lq_request q) (lq_policy q)
       (lq_read_cached_body q)) w"

definition decide :: "lookup_query \<Rightarrow> lookup_turn \<Rightarrow> cache_worker \<Rightarrow> lookup_decision \<times> cache_worker" where
  "decide q t w =
     (case lookup_decision_of (lt_env t) (lt_env' t) (lq_request q) (lq_base_key q) (lt_now t) (lq_forces_revalidation q) (lq_policy q)
             (wk_zone w) (wk_locks w) (wk_shm w) of
        (d, z, fz, space) \<Rightarrow> (d, (set_zone z w)\<lparr> wk_locks := fz, wk_shm := space \<rparr>))"

definition lookup_pass :: "metadata_json \<Rightarrow> lookup_query \<Rightarrow> lookup_turn \<Rightarrow> cache_worker \<Rightarrow> cache_lookup option \<times> cache_worker" where
  "lookup_pass json q t w = (case decide q t w of (d, w1) \<Rightarrow> lookup_act json q t d (lt_between t w1))"

fun lookup_loop :: "metadata_json \<Rightarrow> lookup_query \<Rightarrow> lookup_turn list \<Rightarrow> cache_worker \<Rightarrow> cache_lookup option \<times> cache_worker" where
  "lookup_loop json q [] w = (None, w)"
| "lookup_loop json q (t # turns) w =
     (case lookup_pass json q t w of
        (Some result, w1) \<Rightarrow> (Some result, w1)
      | (None, w1) \<Rightarrow> lookup_loop json q turns w1)"

section \<open>The manager\<close>

type_synonym cache_manager = "string \<Rightarrow> cache_worker option"

definition lookup_query_of :: "cache_request \<Rightarrow> string \<Rightarrow> route_cache_policy \<Rightarrow> lookup_query" where
  "lookup_query_of request scheme policy =
     \<lparr> lq_request = request,
       lq_base_key = render_cache_key (cr_method request) (cr_uri request) (cr_headers request) scheme policy,
       lq_forces_revalidation = request_requires_revalidation (cr_headers request),
       lq_policy = policy, lq_read_cached_body = (cr_method request \<noteq> ''HEAD'') \<rparr>"

definition lookup ::
    "metadata_json \<Rightarrow> sync_reads \<Rightarrow> lookup_turn list \<Rightarrow> cache_request \<Rightarrow> string \<Rightarrow> route_cache_policy \<Rightarrow> cache_manager \<Rightarrow>
     cache_lookup option \<times> cache_manager" where
  "lookup json sy turns request scheme policy m =
     (case m (cp_zone policy) of
        None \<Rightarrow> (Some (LookupBypass CsBypass), m)
      | Some w \<Rightarrow>
          if cache_request_bypass request policy
          then (Some (LookupBypass CsBypass), m(cp_zone policy \<mapsto> set_zone (record_bypass (wk_zone w)) w))
          else (case lookup_loop json (lookup_query_of request scheme policy) turns (sync_worker sy w) of
                  (result, w1) \<Rightarrow> (result, m(cp_zone policy \<mapsto> w1))))"

text \<open>
  The control commands.  Besides the synchronisation they need the clock, the order
  in which the keys of the index are visited and the result of publishing.
\<close>

record control_env =
  ce_sync :: sync_reads
  ce_now :: nat
  ce_order :: "string list"
  ce_applied :: "io_error + applied_operations"

definition on_zone ::
    "control_env \<Rightarrow> string \<Rightarrow> (cache_worker \<Rightarrow> (string + 'r) \<times> cache_worker) \<Rightarrow> cache_manager \<Rightarrow> (string + 'r) \<times> cache_manager" where
  "on_zone ce zone_name command m =
     (case m zone_name of
        None \<Rightarrow> (Inl (''unknown cache zone `'' @ zone_name @ ''`''), m)
      | Some w \<Rightarrow> (case command (sync_worker (ce_sync ce) w) of (r, w1) \<Rightarrow> (r, m(zone_name \<mapsto> w1))))"

definition remove_files_if_unreferenced :: "cache_zone_runtime \<Rightarrow> files \<Rightarrow> string \<Rightarrow> files" where
  "remove_files_if_unreferenced z fs hash =
     (if hash_is_referenced (zr_index z) hash then fs else remove_cache_files (zr_config z) hash fs)"

definition purge_worker :: "control_env \<Rightarrow> purge_selector \<Rightarrow> cache_worker \<Rightarrow> (string + cache_purge_result) \<times> cache_worker" where
  "purge_worker ce selector w =
     (case purge_zone_entries (wk_zone w) selector (ce_order ce) of (result, removed, ops, z) \<Rightarrow>
        let w1 = publish_zone (ce_applied ce) ops z w
        in (Inr result, w1\<lparr> wk_files := foldl (remove_files_if_unreferenced z) (wk_files w1) (map (\<lambda>(_, e). ie_hash e) removed) \<rparr>))"

definition purge_zone where
  "purge_zone ce zone_name = on_zone ce zone_name (purge_worker ce PurgeAll)"

definition purge_key where
  "purge_key ce zone_name key = on_zone ce zone_name (purge_worker ce (PurgeExact key))"

definition purge_prefix where
  "purge_prefix ce zone_name key_prefix = on_zone ce zone_name (purge_worker ce (PurgePrefix key_prefix))"

definition invalidate_worker ::
    "control_env \<Rightarrow> cache_invalidation_selector \<Rightarrow> cache_worker \<Rightarrow> (string + cache_invalidation_result) \<times> cache_worker" where
  "invalidate_worker ce selector w =
     (case invalidate_zone_entries (wk_zone w) selector (ce_now ce) (ce_order ce) of (result, ops, z) \<Rightarrow>
        (Inr result, publish_zone (ce_applied ce) ops z w))"

definition invalidate_zone where
  "invalidate_zone ce zone_name = on_zone ce zone_name (invalidate_worker ce InvAll)"

definition invalidate_key where
  "invalidate_key ce zone_name key = on_zone ce zone_name (invalidate_worker ce (InvExact key))"

definition invalidate_prefix where
  "invalidate_prefix ce zone_name key_prefix = on_zone ce zone_name (invalidate_worker ce (InvPrefix key_prefix))"

definition invalidate_tag where
  "invalidate_tag ce zone_name tag =
     on_zone ce zone_name (\<lambda>w. case normalize_cache_tag tag of
        None \<Rightarrow> (Inl ''cache invalidation tag must not be empty'', w)
      | Some normalized \<Rightarrow> invalidate_worker ce (InvTag normalized) w)"

definition clear_invalidations where
  "clear_invalidations ce zone_name =
     on_zone ce zone_name (\<lambda>w. case clear_zone_invalidations (wk_zone w) (ce_order ce) of (result, ops, z) \<Rightarrow>
       (Inr result, publish_zone (ce_applied ce) ops z w))"

definition cleanup_worker :: "control_env \<Rightarrow> cache_worker \<Rightarrow> cache_worker" where
  "cleanup_worker ce w =
     (let w0 = sync_worker (ce_sync ce) w
      in case cleanup_inactive_entries_in_zone (wk_zone w0) (ce_now ce) of (removed, ops, z) \<Rightarrow>
           let w1 = publish_zone (ce_applied ce) ops z w0
           in w1\<lparr> wk_files := foldl (remove_files_if_unreferenced z) (wk_files w1) (map (\<lambda>(_, e). ie_hash e) removed) \<rparr>)"

definition record_bypass_for_zone :: "string \<Rightarrow> cache_manager \<Rightarrow> cache_manager" where
  "record_bypass_for_zone zone_name m =
     (case m zone_name of None \<Rightarrow> m | Some w \<Rightarrow> m(zone_name \<mapsto> set_zone (record_bypass (wk_zone w)) w))"

section \<open>The context of a miss\<close>

definition apply_conditional_request_headers :: "lookup_context \<Rightarrow> header_map \<Rightarrow> header_map" where
  "apply_conditional_request_headers ctx headers =
     (case Option.bind (sc_cached_response_head ctx) pr_conditional_headers of
        None \<Rightarrow> headers
      | Some c \<Rightarrow>
          let h1 = (case cc_if_none_match c of None \<Rightarrow> headers | Some v \<Rightarrow> hm_insert headers ''if-none-match'' v)
          in (case cc_if_modified_since c of None \<Rightarrow> h1 | Some v \<Rightarrow> hm_insert h1 ''if-modified-since'' v))"

definition serve_stale ::
    "io_error + applied_operations \<Rightarrow> lookup_context \<Rightarrow> cache_status \<Rightarrow> cache_worker \<Rightarrow> http_response option \<times> cache_worker" where
  "serve_stale applied ctx status w =
     (case (sc_cached_entry ctx, sc_cached_response_head ctx) of
        (Some entry, Some head) \<Rightarrow>
          (case build_cached_response_for_request (wk_files w) (pa_body (cache_paths_for_zone (zr_config (wk_zone w)) (ie_hash entry)))
                  head (sc_request ctx) (sc_policy ctx) (sc_read_cached_body ctx) of
             Inr response \<Rightarrow>
               (Some (with_cache_status response status),
                set_zone (if status = CsUpdating then record_updating (wk_zone w) else record_stale (wk_zone w)) w)
           | Inl _ \<Rightarrow> (None, snd (remove_cache_entry_if_matches applied (sc_key ctx) entry w)))
      | _ \<Rightarrow> (None, w))"

section \<open>What a decision may use\<close>

text \<open>
  An entry may be served to a request: it is in the index, made for the request's
  headers, not invalidated, and either fresh or in its grace time with permission of
  the policy or of the response.
\<close>

definition usable :: "lookup_query \<Rightarrow> nat \<Rightarrow> cache_index \<Rightarrow> string \<Rightarrow> cache_index_entry \<Rightarrow> bool" where
  "usable q now ix key entry \<longleftrightarrow>
     ix_entries ix key = Some entry \<and> matches_vary_headers (lq_request q) (ie_vary entry)
     \<and> (\<forall>rule \<in> set (ix_invalidations ix). \<not> invalidation_rule_matches_entry rule key entry)
     \<and> \<not> is_hit_for_pass entry \<and> \<not> lq_forces_revalidation q \<and> \<not> ie_requires_revalidation entry"

fun served_as :: "lookup_query \<Rightarrow> nat \<Rightarrow> cache_index_entry \<Rightarrow> cache_status \<Rightarrow> bool" where
  "served_as q now entry CsHit \<longleftrightarrow> now \<le> ie_expires_at_unix_ms entry"
| "served_as q now entry CsUpdating \<longleftrightarrow>
     \<not> ie_must_revalidate entry
     \<and> (window_open (ie_grace_until_unix_ms entry) now \<and> StaleUpdating \<in> set (cp_use_stale (lq_policy q))
        \<or> window_open (ie_stale_while_revalidate_until_unix_ms entry) now)"
| "served_as q now entry status \<longleftrightarrow> False"

lemma matching_variant_keyD:
  assumes "matching_variant_key ix base_key request = Some key"
  shows "\<exists>entry. ix_entries ix key = Some entry \<and> matches_vary_headers request (ie_vary entry)"
  using assms unfolding matching_variant_key_def
  by (auto simp: Let_def find_Some_iff split: if_splits option.splits)

lemma stale_allowed_served:
  assumes "stale_allowed_for_entry (lq_policy q) entry now forces"
  shows "served_as q now entry CsUpdating"
  using assms
  by (auto simp: stale_allowed_for_entry_def lifecycle_phase_def stale_while_revalidate_window_open_def split: if_splits)

text \<open>The entry that a decision is about, and how it is to be served.\<close>

fun decision_entry :: "lookup_decision \<Rightarrow> (string \<times> cache_index_entry) option" where
  "decision_entry (DecideDropEntry key entry) = Some (key, entry)"
| "decision_entry (DecideFreshHit key entry) = Some (key, entry)"
| "decision_entry (DecideStale key entry _) = Some (key, entry)"
| "decision_entry (DecideBackgroundUpdate key entry _) = Some (key, entry)"
| "decision_entry (DecideMiss key _ (Some entry) _ _) = Some (key, entry)"
| "decision_entry _ = None"

fun decision_serves :: "lookup_decision \<Rightarrow> (string \<times> cache_index_entry \<times> cache_status) option" where
  "decision_serves (DecideFreshHit key entry) = Some (key, entry, CsHit)"
| "decision_serves (DecideStale key entry status) = Some (key, entry, status)"
| "decision_serves (DecideBackgroundUpdate key entry _) = Some (key, entry, CsUpdating)"
| "decision_serves _ = None"

lemma refresh_decision_serves:
  assumes "decision_serves (refresh_decision policy key entry expired stale d) = Some (k, e, status)"
  shows "k = key \<and> e = entry \<and> status = CsUpdating \<and> stale"
  using assms by (cases d) (auto split: if_splits)

lemma refresh_decision_entry:
  assumes "decision_entry (refresh_decision policy key entry expired stale d) = Some (k, e)"
  shows "k = key \<and> e = entry"
  using assms by (cases d) (auto split: if_splits)

lemma miss_decision_none [simp]:
  "decision_serves (miss_decision base_key d) = None" "decision_entry (miss_decision base_key d) = None"
  by (cases d; simp)+

lemma decide_index:
  assumes "decide q t w = (d, w1)"
  shows "zr_index (wk_zone w1) = zr_index (wk_zone w) \<and> zr_config (wk_zone w1) = zr_config (wk_zone w) \<and> wk_files w1 = wk_files w"
  using assms by (auto simp: decide_def lookup_decision_of_def Let_def split: prod.splits option.splits if_splits)

lemma decide_entry:
  assumes "decide q t w = (d, w1)" and "decision_entry d = Some (key, entry)"
  shows "ix_entries (zr_index (wk_zone w)) key = Some entry"
  using assms
  by (auto simp: decide_def lookup_decision_of_def Let_def bind_eq_Some_conv
      dest!: refresh_decision_entry split: prod.splits option.splits if_splits)

lemma decide_serves:
  assumes "decide q t w = (d, w1)" and "decision_serves d = Some (key, entry, status)"
  shows "usable q (lt_now t) (zr_index (wk_zone w)) key entry \<and> served_as q (lt_now t) entry status"
proof -
  let ?ix = "zr_index (wk_zone w)"
  obtain key' entry' where m: "matching_variant_key ?ix (lq_base_key q) (lq_request q) = Some key'"
    and e: "ix_entries ?ix key' = Some entry'"
    using assms by (auto simp: decide_def lookup_decision_of_def Let_def split: prod.splits option.splits bind_splits)
  have v: "matches_vary_headers (lq_request q) (ie_vary entry')" using matching_variant_keyD [OF m] e by auto
  from assms m e v show ?thesis
    by (auto simp: decide_def lookup_decision_of_def Let_def usable_def entry_is_logically_invalid_def list_ex_iff
        lifecycle_phase_def stale_allowed_for_entry_def dest!: refresh_decision_serves
        intro: stale_allowed_served split: prod.splits if_splits)
qed

section \<open>Passes that do not finish\<close>

lemma publish_zone_zone [simp]: "wk_zone (publish_zone applied ops z w) = z" "wk_files (publish_zone applied ops z w) = wk_files w"
  by (auto simp: publish_zone_def apply_zone_shared_index_operations_locked_def split: sum.splits)

abbreviation wk_entries :: "cache_worker \<Rightarrow> string \<Rightarrow> cache_index_entry option" where
  "wk_entries w \<equiv> ix_entries (zr_index (wk_zone w))"

lemma stable_eq_refl [simp]: "stable_eq e e"
  by (simp add: stable_eq_def)

lemma forget_key_entries:
  assumes "ix_entries ix key = Some entry"
  obtains ix' where "forget_key ix key = Some (entry, ix')" and "ix_entries ix' = (ix_entries ix)(key := None)"
proof (cases "forget_key ix key")
  case None
  with assms show thesis by (simp add: forget_key_None)
next
  case (Some r)
  with assms that show thesis
    by (cases r) (auto simp: forget_key_def remove_entry_def split: option.splits prod.splits)
qed

lemma remove_cache_entry_entries:
  assumes "wk_entries w key = Some entry"
  shows "wk_entries (snd (remove_cache_entry_if_matches applied key entry w)) = (wk_entries w)(key := None)"
  using assms
  by (auto simp: remove_cache_entry_if_matches_def remove_zone_index_entry_if_matches_def Let_def elim!: forget_key_entries)

lemma load_head_locked_index:
  assumes "load_cached_response_head_locked json fs key entry z heads = (r, z', heads')"
  shows "zr_index z' = zr_index z \<and> zr_config z' = zr_config z"
  using assms
  by (auto simp: load_cached_response_head_locked_def store_head_def Let_def split: if_splits option.splits sum.splits)

lemma load_head_index:
  assumes "load_cached_response_head json fs key entry z heads = (r, z', heads')"
  shows "zr_index z' = zr_index z \<and> zr_config z' = zr_config z"
  using assms load_head_locked_index unfolding load_cached_response_head_def
  by (auto split: if_splits option.splits)

lemma read_response_index:
  assumes "read_cached_response_for_request json fs key entry request policy rb z heads = (r, z', heads')"
  shows "zr_index z' = zr_index z \<and> zr_config z' = zr_config z"
proof -
  obtain r1 z1 heads1 where l: "load_cached_response_head_locked json fs key entry z heads = (r1, z1, heads1)"
    by (cases "load_cached_response_head_locked json fs key entry z heads") auto
  with assms have "z' = z \<or> z' = z1"
    unfolding read_cached_response_for_request_def Let_def by (cases r1) (auto split: if_splits option.splits)
  with load_head_locked_index [OF l] show ?thesis by auto
qed

lemma load_lookup_entries:
  assumes "load_lookup_response_head json t key entry w = (r, w1)" and "wk_entries w key = Some entry"
  shows "wk_entries w1 = (if r = None then (wk_entries w)(key := None) else wk_entries w)"
  using assms
  by (auto simp: load_lookup_response_head_def remove_cache_entry_entries dest!: load_head_index split: prod.splits sum.splits)

lemma stale_response_entries:
  assumes "stale_response_from_entry json t key entry request policy rb status w = (None, w1)" and "wk_entries w key = Some entry"
  shows "wk_entries w1 = (wk_entries w)(key := None)"
  using assms
  by (auto simp: stale_response_from_entry_def remove_cache_entry_entries Let_def dest!: load_lookup_entries
      split: prod.splits sum.splits option.splits)

lemma drop_guard_of_entries [simp]: "wk_replica (drop_guard_of t g w) = wk_replica w"
  by (auto simp: drop_guard_of_def split: option.split prod.split)

lemma bypass_counters [simp]:
  "zr_index (record_expired z) = zr_index z" "zr_index (record_bypass z) = zr_index z" "zr_index (record_miss z) = zr_index z"
  "zr_index (record_hit z) = zr_index z" "zr_index (record_stale z) = zr_index z" "zr_index (record_updating z) = zr_index z"
  by (simp_all add: record_counters)

text \<open>A decision about an entry either ends the lookup or takes the entry out of the index.\<close>

lemma lookup_act_progress:
  assumes "lookup_act json q t d w = (None, w1)" and "decision_entry d = Some (key, entry)"
    and "wk_entries w key = Some entry" and "lt_between' t = id"
  shows "wk_entries w1 = (wk_entries w)(key := None)"
proof (cases d)
  case (DecideDropEntry k e)
  with assms show ?thesis by (auto simp: remove_cache_entry_entries)
next
  case (DecideFreshHit k e)
  with assms show ?thesis
    by (auto simp: Let_def remove_cache_entry_entries dest!: read_response_index split: prod.splits sum.splits)
next
  case (DecideStale k e status)
  with assms show ?thesis by (auto dest: stale_response_entries split: prod.splits)
next
  case (DecideBackgroundUpdate k e g)
  with assms show ?thesis
    by (auto simp: Let_def dest!: load_lookup_entries stale_response_entries split: prod.splits option.splits)
next
  case (DecideMiss k b ce g status)
  with assms show ?thesis
    by (cases ce) (auto simp: miss_context_def Let_def dest!: load_lookup_entries split: prod.splits option.splits)
qed (use assms in auto)

fun waits :: "lookup_decision \<Rightarrow> bool" where
  "waits (DecideWait _) = True"
| "waits (DecideReadWhileFillLocal _) = True"
| "waits (DecideReadWhileFillExternal _) = True"
| "waits _ = False"

text \<open>A run in which the request neither waits nor joins another fill, and nothing else happens.\<close>

fun undisturbed :: "metadata_json \<Rightarrow> lookup_query \<Rightarrow> lookup_turn list \<Rightarrow> cache_worker \<Rightarrow> bool" where
  "undisturbed json q [] w = True"
| "undisturbed json q (t # turns) w \<longleftrightarrow>
     lt_between t = id \<and> lt_between' t = id \<and> \<not> waits (fst (decide q t w))
     \<and> (case lookup_pass json q t w of (None, w1) \<Rightarrow> undisturbed json q turns w1 | (Some _, _) \<Rightarrow> True)"

lemma lookup_pass_progress:
  assumes "lookup_pass json q t w = (None, w1)" and "undisturbed json q (t # turns) w"
  obtains key where "key \<in> dom (wk_entries w)" and "wk_entries w1 = (wk_entries w)(key := None)"
proof -
  obtain d w0 where d: "decide q t w = (d, w0)" by fastforce
  from assms d have act: "lookup_act json q t d w0 = (None, w1)" by (simp add: lookup_pass_def)
  from assms d have "\<not> waits d" by simp
  with act have "decision_entry d \<noteq> None"
  proof (cases d)
    case (DecideMiss k b ce g status)
    with act show ?thesis by (cases ce) (simp_all add: miss_context_def Let_def)
  qed simp_all
  then obtain key entry where e: "decision_entry d = Some (key, entry)" by auto
  with decide_entry [OF d] decide_index [OF d] have i: "wk_entries w key = Some entry" "wk_entries w0 = wk_entries w" by auto
  with lookup_act_progress [OF act e] assms(2) that show thesis by auto
qed

lemma lookup_loop_bound:
  assumes "undisturbed json q turns w" and "finite (dom (wk_entries w))" and "card (dom (wk_entries w)) < length turns"
  shows "\<exists>result. fst (lookup_loop json q turns w) = Some result"
  using assms
proof (induction turns arbitrary: w)
  case (Cons t turns)
  obtain r w1 where p: "lookup_pass json q t w = (r, w1)" by fastforce
  show ?case
  proof (cases r)
    case None
    with p obtain key where "key \<in> dom (wk_entries w)" and "wk_entries w1 = (wk_entries w)(key := None)"
      using lookup_pass_progress [OF _ Cons.prems(1)] by blast
    then have "dom (wk_entries w1) = dom (wk_entries w) - {key}" and "key \<in> dom (wk_entries w)" by auto
    then have "finite (dom (wk_entries w1)) \<and> card (dom (wk_entries w1)) < length turns"
      using Cons.prems(2,3) card_Diff1_less [of "dom (wk_entries w)" key] by auto
    with Cons.IH [of w1] Cons.prems(1) p None show ?thesis by simp
  qed (simp add: p)
qed simp

section \<open>The properties\<close>

text \<open>The passes of a lookup, each with the state it starts from.\<close>

fun lookup_states :: "metadata_json \<Rightarrow> lookup_query \<Rightarrow> lookup_turn list \<Rightarrow> cache_worker \<Rightarrow> (lookup_turn \<times> cache_worker) list" where
  "lookup_states json q [] w = []"
| "lookup_states json q (t # turns) w =
     (t, w) # (case lookup_pass json q t w of (None, w1) \<Rightarrow> lookup_states json q turns w1 | (Some _, _) \<Rightarrow> [])"

text \<open>A response that was built from the files of an entry.\<close>

definition response_from :: "metadata_json \<Rightarrow> lookup_query \<Rightarrow> string \<Rightarrow> cache_index_entry \<Rightarrow> http_response \<Rightarrow> bool" where
  "response_from json q key entry r \<longleftrightarrow>
     (\<exists>fs fs' z heads head zone. fst (load_cached_response_head json fs key entry z heads) = Inr head
        \<and> build_cached_response_for_request fs' (pa_body (cache_paths_for_zone zone (ie_hash entry))) head
             (lq_request q) (lq_policy q) (lq_read_cached_body q) = Inr r)"

lemma response_fromI:
  "load_cached_response_head json fs key entry z heads = (Inr head, z', heads') \<Longrightarrow>
   build_cached_response_for_request fs' (pa_body (cache_paths_for_zone zone (ie_hash entry))) head
     (lq_request q) (lq_policy q) (lq_read_cached_body q) = Inr r \<Longrightarrow> response_from json q key entry r"
  unfolding response_from_def by (metis fst_conv)

lemma read_response_from:
  assumes "read_cached_response_for_request json fs key entry (lq_request q) (lq_policy q) (lq_read_cached_body q) z heads = (Inr r, z', heads')"
  shows "response_from json q key entry r"
proof -
  from assms have h: "\<not> is_hit_for_pass entry" by (auto simp: read_cached_response_for_request_def Let_def split: if_splits)
  show ?thesis
  proof (cases "prepared_head z heads key (ie_hash entry)")
    case (Some head)
    with h have "load_cached_response_head json fs key entry z heads = (Inr head, z, heads)" by (simp add: load_cached_response_head_def)
    with assms h Some show ?thesis by (auto simp: read_cached_response_for_request_def Let_def intro: response_fromI)
  next
    case None
    obtain r1 z1 heads1 where l: "load_cached_response_head_locked json fs key entry z heads = (r1, z1, heads1)"
      by (cases "load_cached_response_head_locked json fs key entry z heads") auto
    with h None have "load_cached_response_head json fs key entry z heads = (r1, z1, heads1)" by (simp add: load_cached_response_head_def)
    with assms h None l show ?thesis
      by (cases r1) (auto simp: read_cached_response_for_request_def Let_def intro: response_fromI)
  qed
qed

lemma stale_response_from:
  assumes "stale_response_from_entry json t key entry (lq_request q) (lq_policy q) (lq_read_cached_body q) status w = (Some r, w1)"
  shows "\<exists>r0. response_from json q key entry r0 \<and> r = with_cache_status r0 status"
  using assms
  by (auto simp: stale_response_from_entry_def load_lookup_response_head_def Let_def intro: response_fromI
      split: prod.splits sum.splits option.splits)

fun joins :: "lookup_decision \<Rightarrow> bool" where
  "joins (DecideReadWhileFillLocal _) = True"
| "joins (DecideReadWhileFillExternal _) = True"
| "joins _ = False"

definition response_of :: "cache_lookup \<Rightarrow> http_response option" where
  "response_of result = (case result of LookupHit r \<Rightarrow> Some r | LookupUpdating r _ \<Rightarrow> Some r | _ \<Rightarrow> None)"

lemma lookup_act_serves:
  assumes "lookup_act json q t d w = (Some result, w1)" and "response_of result = Some r"
  shows "(\<exists>key entry status r0. decision_serves d = Some (key, entry, status) \<and> response_from json q key entry r0
       \<and> r = with_cache_status r0 status)
     \<or> joins d \<and> (\<exists>r0. r = with_cache_status r0 CsMiss)"
proof (cases d)
  case (DecideFreshHit key entry)
  with assms show ?thesis
    by (auto simp: Let_def response_of_def dest: read_response_from split: prod.splits sum.splits)
next
  case (DecideStale key entry status)
  with assms show ?thesis
    by (auto simp: response_of_def dest: stale_response_from split: prod.splits)
next
  case (DecideBackgroundUpdate key entry g)
  with assms show ?thesis
    by (auto simp: Let_def response_of_def dest: stale_response_from split: prod.splits option.splits)
next
  case (DecideMiss key base_key ce g status)
  with assms show ?thesis by (auto simp: miss_context_def Let_def response_of_def split: prod.splits option.splits)
qed (use assms in \<open>auto simp: response_of_def serve_inflight_def split: sum.splits option.splits if_splits\<close>)

lemma lookup_loop_last:
  assumes "lookup_loop json q turns w = (Some result, w')"
  shows "\<exists>t w0. (t, w0) \<in> set (lookup_states json q turns w) \<and> lookup_pass json q t w0 = (Some result, w')"
  using assms by (induction turns arbitrary: w) (fastforce split: prod.splits option.splits)+

text \<open>
  C33. The cache only answers a request from an entry that may be served: in the
  index when the decision was made, made for the values of the headers it varies on,
  not covered by an invalidation, neither a pass marker nor bound to be revalidated,
  and either not expired, then marked as a hit, or within its grace time with the
  policy's or the response's permission, then marked as updating.  Any other answer
  comes from a fill that is still running and is marked as a miss.
\<close>

theorem lookup_serves_only_valid_entries:
  assumes "lookup_loop json q turns w = (Some result, w')" and "response_of result = Some r"
  shows "\<exists>t w0. (t, w0) \<in> set (lookup_states json q turns w) \<and>
     ((\<exists>key entry status r0. usable q (lt_now t) (zr_index (wk_zone w0)) key entry \<and> served_as q (lt_now t) entry status
         \<and> response_from json q key entry r0 \<and> r = with_cache_status r0 status)
      \<or> joins (fst (decide q t w0)) \<and> (\<exists>r0. r = with_cache_status r0 CsMiss))"
proof -
  obtain t w0 where t: "(t, w0) \<in> set (lookup_states json q turns w)" "lookup_pass json q t w0 = (Some result, w')"
    using lookup_loop_last [OF assms(1)] by blast
  obtain d w1 where d: "decide q t w0 = (d, w1)" by fastforce
  with t(2) have "lookup_act json q t d (lt_between t w1) = (Some result, w')" by (simp add: lookup_pass_def)
  from lookup_act_serves [OF this assms(2)] decide_serves [OF d] d t(1) show ?thesis by fastforce
qed

definition sample_head :: prepared_cache_response_head where
  "sample_head = \<lparr> pr_hash = ''h'', pr_metadata = sample_metadata, pr_status = 200, pr_headers = [], pr_conditional_headers = None \<rparr>"

definition sample_lookup_zone :: cache_zone_runtime where
  "sample_lookup_zone = sample_runtime\<lparr>
     zr_index := default_index\<lparr> ix_entries := [''k'' \<mapsto> sample_entry ''h'' 2 5], ix_variants := [''k'' \<mapsto> [''k'']] \<rparr>,
     zr_hot_entries := [''k'' \<mapsto> \<lparr> hs_last_access_unix_ms = 0, hs_shared_touch_published_unix_ms = 0, hs_response_head = Some ''h'' \<rparr>] \<rparr>"

definition sample_worker :: cache_worker where
  "sample_worker = \<lparr> wk_replica = sample_replica\<lparr> rp_zone := sample_lookup_zone \<rparr>, wk_heads = [''k'' \<mapsto> sample_head],
     wk_locks = sample_fill_locks, wk_shm = Map.empty, wk_files = Map.empty \<rparr>"

definition sample_query :: lookup_query where
  "sample_query = \<lparr> lq_request = sample_fill_request\<lparr> cr_headers := [] \<rparr>, lq_base_key = ''k'', lq_forces_revalidation = False,
     lq_policy = sample_policy, lq_read_cached_body = False \<rparr>"

definition sample_turn :: "fill_env \<Rightarrow> lookup_turn" where
  "sample_turn env = \<lparr> lt_now = 8, lt_later = 9, lt_env = env, lt_env' = env, lt_between = id, lt_between' = id,
     lt_released = False, lt_polls = [], lt_removed = Inl IoOther, lt_touched = Inl IoOther,
     lt_sync = \<lparr> sy_state1 = Inl IoOther, sy_state2 = Inl IoOther, sy_changes = Inl IoOther, sy_loaded = Inl IoOther \<rparr>,
     lt_inflight = [] \<rparr>"

lemma sample_decide:
  "decide sample_query (sample_turn env) sample_worker =
     (DecideFreshHit ''k'' (sample_entry ''h'' 2 5),
      set_zone (record_entry_access sample_lookup_zone ''k'' 8) sample_worker)"
  by (simp add: decide_def lookup_decision_of_def matching_variant_key_def sample_query_def sample_turn_def sample_worker_def
      sample_lookup_zone_def sample_replica_def default_index_def sample_entry_def matches_vary_headers_def
      entry_is_logically_invalid_def lifecycle_phase_def is_hit_for_pass_def Let_def)

lemma sample_pass:
  "\<exists>w'. lookup_pass json sample_query (sample_turn env) sample_worker =
     (Some (LookupHit \<lparr> hr_status = 200, hr_headers = [(''x-cache'', ''HIT'')], hr_body = WholeBody [] \<rparr>), w')"
proof -
  have r: "cacheable_range_request (sample_fill_request\<lparr> cr_headers := [] \<rparr>) sample_policy = None"
    by (simp add: cacheable_range_request_def cacheable_range_request_from_parts_def sample_fill_request_def hm_get_all_def hm_get_def)
  show ?thesis
    by (simp add: lookup_pass_def sample_decide)
      (simp add: sample_turn_def sample_worker_def sample_lookup_zone_def sample_query_def read_cached_response_for_request_def
        prepared_head_def prepared_response_head_def record_entry_access_def hot_entry_for_key_def sample_entry_def is_hit_for_pass_def
        build_cached_response_for_request_def finalize_response_for_request_def downstream_range_trim_plan_def r sample_head_def
        build_downstream_response_def with_cache_status_def hm_insert_def hm_remove_def hm_append_def Let_def)
qed

theorem lookup_serves_only_valid_entries_witness:
  "\<forall>env json. \<exists>r w'. lookup_loop json sample_query [sample_turn env] sample_worker = (Some (LookupHit r), w') \<and>
     (\<exists>key entry r0. usable sample_query 8 (zr_index sample_lookup_zone) key entry \<and> served_as sample_query 8 entry CsHit
        \<and> response_from json sample_query key entry r0 \<and> r = with_cache_status r0 CsHit)"
proof (intro allI)
  fix env json
  let ?r = "\<lparr> hr_status = 200, hr_headers = [(''x-cache'', ''HIT'')], hr_body = WholeBody [] \<rparr>"
  obtain w' where p: "lookup_pass json sample_query (sample_turn env) sample_worker = (Some (LookupHit ?r), w')"
    using sample_pass by blast
  then have l: "lookup_loop json sample_query [sample_turn env] sample_worker = (Some (LookupHit ?r), w')" by simp
  have h: "status = CsHit" if "?r = with_cache_status r0 status" for r0 status
    using arg_cong [OF that, of hr_headers] by (cases status) (auto simp: with_cache_status_def hm_insert_def hm_append_def)
  have st: "lookup_states json sample_query [sample_turn env] sample_worker = [(sample_turn env, sample_worker)]" by (simp add: p)
  have "response_of (LookupHit ?r) = Some ?r" by (simp add: response_of_def)
  from lookup_serves_only_valid_entries [OF l this] obtain key entry status r0
    where u: "usable sample_query (lt_now (sample_turn env)) (zr_index (wk_zone sample_worker)) key entry"
      "served_as sample_query (lt_now (sample_turn env)) entry status" "response_from json sample_query key entry r0"
      "?r = with_cache_status r0 status"
    unfolding st by (auto simp: sample_decide)
  have "lt_now (sample_turn env) = 8" "wk_zone sample_worker = sample_lookup_zone" by (simp_all add: sample_turn_def sample_worker_def)
  with u h [OF u(4)] l
  show "\<exists>r w'. lookup_loop json sample_query [sample_turn env] sample_worker = (Some (LookupHit r), w') \<and>
     (\<exists>key entry r0. usable sample_query 8 (zr_index sample_lookup_zone) key entry \<and> served_as sample_query 8 entry CsHit
        \<and> response_from json sample_query key entry r0 \<and> r = with_cache_status r0 CsHit)"
    by metis
qed

text \<open>
  C34. A lookup that is left alone ends: each pass that neither waits nor joins a
  running fill returns a result or takes an unusable entry out of the index, so it
  needs at most one pass more than there are entries.
\<close>

theorem lookup_terminates:
  assumes "undisturbed json q turns w" and "finite (dom (wk_entries w))" and "card (dom (wk_entries w)) < length turns"
  shows "\<exists>result. fst (lookup_loop json q turns w) = Some result"
  using assms by (rule lookup_loop_bound)

theorem lookup_terminates_witness:
  "\<forall>env json. \<exists>result. fst (lookup_loop json sample_query [sample_turn env, sample_turn env] sample_worker) = Some result"
proof (intro allI)
  fix env json
  have t: "lt_between (sample_turn env) = id" "lt_between' (sample_turn env) = id" by (simp_all add: sample_turn_def)
  have d: "dom (wk_entries sample_worker) = {''k''}" by (simp add: sample_worker_def sample_lookup_zone_def)
  obtain w' r where "lookup_pass json sample_query (sample_turn env) sample_worker = (Some r, w')"
    using sample_pass by blast
  then have "undisturbed json sample_query [sample_turn env, sample_turn env] sample_worker" by (simp add: sample_decide t)
  from lookup_terminates [OF this]
  show "\<exists>result. fst (lookup_loop json sample_query [sample_turn env, sample_turn env] sample_worker) = Some result"
    by (simp add: d)
qed

lemma foldl_remove_hot_zone [simp]:
  "zr_index (foldl remove_hot_entry z ks) = zr_index z" "zr_config (foldl remove_hot_entry z ks) = zr_config z"
  by (induction ks arbitrary: z) simp_all

lemma zone_step_rules:
  assumes "zone_step z ops z'" and "zone_ok z" and "ClearInvalidations \<notin> set ops"
  shows "set (ix_invalidations (zr_index z)) \<subseteq> set (ix_invalidations (zr_index z'))"
  using assms
proof (induction rule: zone_step.induct)
  case (store z k e replaced hashes ops z')
  obtain acc n where s: "store_in_index z k e replaced = (acc, n)" by force
  have wf: "index_wf (zr_index z)" using store.prems by (simp add: zone_ok_def)
  from store.hyps(1) s store_in_index_ok(5) [OF wf store.hyps(2) s] show ?case by (auto simp: update_index_after_store_def)
next
  case (remove z k e r ops z')
  have wf: "index_wf (zr_index z)" using remove.prems by (simp add: zone_ok_def)
  from remove.hyps show ?case
    by (auto simp: remove_zone_index_entry_if_matches_def forget_key_def split: option.splits if_splits dest: remove_entry_fields(5))
next
  case (admission z k n admitted ops ix)
  have wf: "index_wf (zr_index z)" using admission.prems by (simp add: zone_ok_def)
  show ?case using admission_index_wf(3) [OF wf admission.hyps] by simp
next
  case (cleanup z now removed has_more_due ops z')
  have "zone_trimmed z removed z'" by (rule cleanup_batch_ok(1) [OF _ cleanup.hyps]) (use cleanup.prems in \<open>simp add: zone_ok_def\<close>)
  then show ?case by (simp add: zone_trimmed_def)
next
  case (purge z selector key_order result removed ops z')
  obtain r ix where k: "purge_keys (zr_index z) (filter (purge_selector_matches selector) key_order) = (r, ix)" by force
  have "zr_index z' = ix" using purge.hyps k by (auto simp: purge_zone_entries_def Let_def split: if_splits)
  moreover have "index_wf (zr_index z)" using purge.prems by (simp add: zone_ok_def)
  ultimately show ?case using purge_keys_ok [OF _ k] by simp
next
  case (invalidate z sel now key_order outcome ops z')
  then show ?case by (auto simp: invalidate_zone_entries_def Let_def)
next
  case (touch z k now ops z')
  obtain b z1 where p: "should_publish_shared_entry_access (record_entry_access z k now) k now = (b, z1)" by force
  have "index_wf (zr_index z1)" using touch.prems publish_keeps_index [OF p] by (simp add: zone_ok_def)
  from touch_entry_ok [OF this, of k now] touch.hyps p publish_keeps_index [OF p] show ?case
    by (auto simp: record_zone_shared_entry_access_def split: if_splits option.splits)
qed (auto simp: clear_zone_invalidations_def Let_def)

lemma zone_run_rules:
  assumes "zone_run z ops z'" and "zone_ok z" and "ClearInvalidations \<notin> set ops"
  shows "set (ix_invalidations (zr_index z)) \<subseteq> set (ix_invalidations (zr_index z'))"
  using assms
proof (induction rule: zone_run.induct)
  case (step z ops z1 ops1 z2)
  then have "set (ix_invalidations (zr_index z)) \<subseteq> set (ix_invalidations (zr_index z1))" by simp
  with zone_step_rules [OF step.hyps(2) zone_run_ok [OF step.hyps(1) step.prems(1)]] step.prems(2) show ?case by auto
qed simp

text \<open>
  Once a tag is invalidated, no lookup serves a response with that tag that was
  stored before: not until the rules are cleared, whatever is stored, removed,
  cleaned up, purged or touched in the zone meanwhile.
\<close>

theorem invalidated_tag_is_not_served:
  assumes "invalidate_tag ce zone_name tag m = (Inr outcome, m')" and "normalize_cache_tag tag = Some normalized"
    and "m' zone_name = Some w" and "zone_ok (wk_zone w)" and "zone_run (wk_zone w) ops z" and "ClearInvalidations \<notin> set ops"
    and "wk_zone w' = z" and "decision_serves (fst (decide q t w')) = Some (key, entry, status)"
    and "normalized \<in> set (ie_tags entry)"
  shows "ce_now ce \<le> ie_stored_at_unix_ms entry"
proof -
  let ?rule = "\<lparr> ir_selector = InvTag normalized, ir_created_at_unix_ms = ce_now ce \<rparr>"
  have "?rule \<in> set (ix_invalidations (zr_index (wk_zone w)))"
    using assms(1-3) by (auto simp: invalidate_tag_def on_zone_def invalidate_worker_def invalidate_zone_entries_def Let_def
        split: option.splits prod.splits)
  with zone_run_rules [OF assms(5,4,6)] assms(7) have r: "?rule \<in> set (ix_invalidations (zr_index (wk_zone w')))" by auto
  obtain d w1 where "decide q t w' = (d, w1)" by fastforce
  with decide_serves assms(8) have "usable q (lt_now t) (zr_index (wk_zone w')) key entry" by fastforce
  with r have "\<not> invalidation_rule_matches_entry ?rule key entry" unfolding usable_def by blast
  with assms(9) show ?thesis by (simp add: invalidation_rule_matches_entry_def)
qed

definition sample_tagged_entry :: cache_index_entry where
  "sample_tagged_entry = (sample_entry ''h'' 2 5)\<lparr> ie_tags := [''t''], ie_stored_at_unix_ms := 5 \<rparr>"

definition sample_tagged_zone :: cache_zone_runtime where
  "sample_tagged_zone = sample_runtime\<lparr> zr_index := sa_index (insert_for_store ''k'' sample_tagged_entry
     \<lparr> sa_index = default_index, sa_removed_hashes = {}, sa_removed_keys = [], sa_operations = [] \<rparr>) \<rparr>"

definition sample_tagged_manager :: cache_manager where
  "sample_tagged_manager = [''z'' \<mapsto> set_zone sample_tagged_zone sample_worker]"

definition sample_control :: control_env where
  "sample_control = \<lparr> ce_sync = \<lparr> sy_state1 = Inl IoOther, sy_state2 = Inl IoOther, sy_changes = Inl IoOther, sy_loaded = Inl IoOther \<rparr>,
     ce_now = 3, ce_order = [''k''], ce_applied = Inl IoOther \<rparr>"

lemma sample_tagged_wf:
  "index_wf (zr_index sample_tagged_zone)" "ix_entries (zr_index sample_tagged_zone) = [''k'' \<mapsto> sample_tagged_entry]"
  "ix_variants (zr_index sample_tagged_zone) = [''k'' \<mapsto> [''k'']]" "ix_invalidations (zr_index sample_tagged_zone) = []"
proof -
  let ?a0 = "\<lparr> sa_index = default_index, sa_removed_hashes = {}, sa_removed_keys = [], sa_operations = [] \<rparr>"
  have b: "ie_body_size_bytes sample_tagged_entry \<le> u64_max" "ie_base_key sample_tagged_entry = ''k''"
    by (simp_all add: sample_tagged_entry_def sample_entry_def u64_max_def)
  have e0: "ix_entries default_index = Map.empty" by (simp add: default_index_def)
  have "index_wf (sa_index ?a0)" by (simp add: default_index_wf)
  from insert_for_store_wf [OF this, of "''k''" sample_tagged_entry] b
  show "index_wf (zr_index sample_tagged_zone)" "ix_entries (zr_index sample_tagged_zone) = [''k'' \<mapsto> sample_tagged_entry]"
    by (simp_all add: sample_tagged_zone_def e0)
  show "ix_variants (zr_index sample_tagged_zone) = [''k'' \<mapsto> [''k'']]" "ix_invalidations (zr_index sample_tagged_zone) = []"
    using b by (simp_all add: sample_tagged_zone_def insert_for_store_def insert_entry_def default_index_def add_variant_key_def
        schedule_entry_access_def unschedule_entry_access_def Let_def)
qed

theorem invalidated_tag_is_not_served_witness:
  "\<forall>env. \<exists>outcome m' w. invalidate_tag sample_control ''z'' ''t'' sample_tagged_manager = (Inr outcome, m') \<and> m' ''z'' = Some w
     \<and> decision_serves (fst (decide sample_query (sample_turn env) w)) = Some (''k'', sample_tagged_entry, CsHit)
     \<and> (3::nat) \<le> ie_stored_at_unix_ms sample_tagged_entry"
proof
  fix env
  have sync: "sync_worker (ce_sync sample_control) w = w" for w
    by (simp add: sync_worker_def sample_control_def sync_zone_shared_index_if_needed_def)
  have n: "normalize_cache_tag ''t'' = Some ''t''"
    by (simp add: normalize_cache_tag_def str_trim_def to_ascii_lowercase_def ascii_lower_def is_ws_def is_ws2_def is_ws3_def ws_len_def Let_def)
  obtain outcome w where i: "invalidate_worker sample_control (InvTag ''t'') (set_zone sample_tagged_zone sample_worker) = (Inr outcome, w)"
    and ix: "zr_index (wk_zone w) = (zr_index sample_tagged_zone)\<lparr> ix_invalidations := [\<lparr> ir_selector = InvTag ''t'', ir_created_at_unix_ms = 3 \<rparr>] \<rparr>"
    and cf: "zr_config (wk_zone w) = sample_zone"
    by (simp add: invalidate_worker_def invalidate_zone_entries_def Let_def sample_control_def sample_tagged_wf)
      (simp add: sample_tagged_zone_def sample_runtime_def)
  have inv: "invalidate_tag sample_control ''z'' ''t'' sample_tagged_manager = (Inr outcome, sample_tagged_manager(''z'' \<mapsto> w))"
    by (simp add: invalidate_tag_def on_zone_def sample_tagged_manager_def sync n i)
  have ok: "zone_ok (wk_zone w)"
    by (simp add: zone_ok_def ix index_wf_invalidations sample_tagged_wf cf sample_zone_def) (simp add: sample_tagged_entry_def sample_entry_def)
  have d: "decision_serves (fst (decide sample_query (sample_turn env) w)) = Some (''k'', sample_tagged_entry, CsHit)"
    by (simp add: decide_def lookup_decision_of_def matching_variant_key_def sample_query_def sample_turn_def ix sample_tagged_wf
        sample_tagged_entry_def sample_entry_def matches_vary_headers_def entry_is_logically_invalid_def
        invalidation_rule_matches_entry_def lifecycle_phase_def is_hit_for_pass_def Let_def)
  have "''t'' \<in> set (ie_tags sample_tagged_entry)" by (simp add: sample_tagged_entry_def)
  from invalidated_tag_is_not_served [OF inv n _ ok zone_run.start _ refl d this] inv d
  show "\<exists>outcome m' w. invalidate_tag sample_control ''z'' ''t'' sample_tagged_manager = (Inr outcome, m') \<and> m' ''z'' = Some w
     \<and> decision_serves (fst (decide sample_query (sample_turn env) w)) = Some (''k'', sample_tagged_entry, CsHit)
     \<and> (3::nat) \<le> ie_stored_at_unix_ms sample_tagged_entry"
    by (auto simp: sample_control_def)
qed

end
