(* ===== verification/Grpc_Web.thy ===== *)
theory Grpc_Web
  imports Cache_Range
begin

text \<open>
  The translation between gRPC-Web and gRPC bodies
  (\<open>crates/rginx-http/src/proxy/grpc_web\<close>): the framing of messages and trailers,
  the base64 text variant, and the four bodies that translate a stream while it is
  polled.

  A body is modelled by one round of the loop in its \<open>poll_frame\<close>: the round either
  returns a poll result or goes on.  \<open>run_body\<close> polls a body to its end; its fuel
  bounds the rounds, and the locale \<open>body_machine\<close> shows that the size of what is
  left to read is enough.  The base64 codec and the parser of header names belong to
  other crates and are arguments.
\<close>

section \<open>Polling a body\<close>

datatype body_outcome = BodyDone | BodyFailed string | BodyOutOfFuel

fun run_body :: "('s \<Rightarrow> poll_result option \<times> 's) \<Rightarrow> nat \<Rightarrow> 's \<Rightarrow> body_frame list \<times> body_outcome" where
  "run_body step 0 s = ([], BodyOutOfFuel)"
| "run_body step (Suc n) s =
     (case step s of
        (None, s') \<Rightarrow> run_body step n s'
      | (Some PollPending, s') \<Rightarrow> run_body step n s'
      | (Some PollEnd, s') \<Rightarrow> ([], BodyDone)
      | (Some (PollError e), s') \<Rightarrow> ([], BodyFailed e)
      | (Some (PollFrame f), s') \<Rightarrow> (case run_body step n s' of (fs, out) \<Rightarrow> (f # fs, out)))"

locale body_machine =
  fixes step :: "'s \<Rightarrow> poll_result option \<times> 's" and left :: "'s \<Rightarrow> nat"
  assumes progress: "step s = (r, s') \<Longrightarrow> r = Some PollEnd \<or> (\<exists>e. r = Some (PollError e)) \<or> left s' < left s"
begin

lemma run_fuel:
  assumes "left s < n"
  shows "snd (run_body step n s) \<noteq> BodyOutOfFuel \<and> (\<forall>m > left s. run_body step m s = run_body step n s)"
  using assms
proof (induction n arbitrary: s)
  case (Suc n)
  obtain r s' where st: "step s = (r, s')" by fastforce
  have run: "run_body step (Suc m) s = (case r of
        None \<Rightarrow> run_body step m s'
      | Some PollPending \<Rightarrow> run_body step m s'
      | Some PollEnd \<Rightarrow> ([], BodyDone)
      | Some (PollError e) \<Rightarrow> ([], BodyFailed e)
      | Some (PollFrame f) \<Rightarrow> (case run_body step m s' of (fs, out) \<Rightarrow> (f # fs, out)))" for m
    by (simp add: st split: option.split poll_result.split)
  from progress [OF st] consider (stop) "r = Some PollEnd \<or> (\<exists>e. r = Some (PollError e))" | (on) "left s' < left s" by blast
  then show ?case
  proof cases
    case stop
    have "\<exists>k. m = Suc k" if "left s < m" for m using that by (cases m) simp_all
    with stop run show ?thesis by fastforce
  next
    case on
    with Suc.prems have "left s' < n" by simp
    note IH = Suc.IH [OF this]
    have "run_body step m s = run_body step (Suc n) s" if "left s < m" for m
    proof -
      obtain k where k: "m = Suc k" using \<open>left s < m\<close> by (cases m) simp_all
      with on that have "left s' < k" by simp
      with IH have "run_body step k s' = run_body step n s'" by blast
      then show ?thesis unfolding k run by (simp split: option.split poll_result.split)
    qed
    with IH run [of n] show ?thesis
      by (auto split: option.splits poll_result.splits prod.splits)
  qed
qed simp

end

section \<open>Frames\<close>

datatype parsed_frame = ParsedData string | ParsedTrailers header_map

text \<open>\<open>u32::from_be_bytes\<close> and \<open>to_be_bytes\<close>.\<close>

definition be_nat :: "string \<Rightarrow> nat" where
  "be_nat bs = foldl (\<lambda>n c. n * 256 + of_char c) 0 bs"

definition be_bytes32 :: "nat \<Rightarrow> string" where
  "be_bytes32 n = map char_of [n div 16777216 mod 256, n div 65536 mod 256, n div 256 mod 256, n mod 256]"

text \<open>The pairs of a header map, the values of a name together.\<close>

definition hm_iter :: "header_map \<Rightarrow> (string \<times> string) list" where
  "hm_iter h = concat (map (\<lambda>n. map (Pair n) (hm_get_all h n)) (hm_keys h))"

definition append_header_map :: "header_map \<Rightarrow> header_map \<Rightarrow> header_map" where
  "append_header_map destination source = foldl (\<lambda>acc (n, v). hm_append acc n v) destination (hm_iter source)"

fun decode_trailer_lines :: "(string \<Rightarrow> string option) \<Rightarrow> header_map \<Rightarrow> string list \<Rightarrow> string + header_map" where
  "decode_trailer_lines header_name trailers [] = Inr trailers"
| "decode_trailer_lines header_name trailers (raw # rest) =
     (let line = (case strip_suffix raw [CHR 0x0D] of Some l \<Rightarrow> l | None \<Rightarrow> raw)
      in if line = [] then decode_trailer_lines header_name trailers rest
         else case split_once (CHR '':'') line of
           None \<Rightarrow> Inl (''grpc-web trailer line should contain '' @ [CHR 0x27, CHR '':'', CHR 0x27])
         | Some (name, value) \<Rightarrow>
             (case header_name name of
                None \<Rightarrow> Inl ''grpc-web trailer name should be a valid HTTP header''
              | Some n \<Rightarrow>
                  if \<not> utf8_valid value then Inl ''grpc-web trailer value should be valid utf-8''
                  else (case header_value_of (str_trim value) of
                          None \<Rightarrow> Inl ''grpc-web trailer value should be a valid HTTP header''
                        | Some v \<Rightarrow> decode_trailer_lines header_name (hm_append trailers n v) rest)))"

definition decode_grpc_web_trailer_block :: "(string \<Rightarrow> string option) \<Rightarrow> string \<Rightarrow> string + header_map" where
  "decode_grpc_web_trailer_block header_name payload = decode_trailer_lines header_name [] (str_split (CHR 0x0A) payload)"

text \<open>The frame at the start of the buffer with the rest of the buffer, if it is complete.\<close>

definition decode_grpc_web_request_frame ::
    "(string \<Rightarrow> string option) \<Rightarrow> string \<Rightarrow> bool \<Rightarrow> bool \<Rightarrow> string + (parsed_frame \<times> string) option" where
  "decode_grpc_web_request_frame header_name buffer inner_finished saw_trailers =
     (if buffer = [] then Inr None
      else if saw_trailers then Inl ''grpc-web request trailer frame must be terminal''
      else if length buffer < 5 then
        (if inner_finished then Inl ''incomplete grpc-web request frame header'' else Inr None)
      else let flags = of_char (hd buffer) :: nat;
               frame_len = 5 + be_nat (take 4 (tl buffer))
           in if length buffer < frame_len then
                (if inner_finished then Inl ''incomplete grpc-web request frame payload'' else Inr None)
              else let frame = take frame_len buffer; rest = drop frame_len buffer
                   in if 128 \<le> flags
                      then map_sum id (\<lambda>t. Some (ParsedTrailers t, rest)) (decode_grpc_web_trailer_block header_name (drop 5 frame))
                      else Inr (Some (ParsedData frame, rest)))"

definition encode_grpc_web_trailers :: "header_map \<Rightarrow> string" where
  "encode_grpc_web_trailers trailers =
     (let block = concat (map (\<lambda>(n, v). n @ '': '' @ v @ [CHR 0x0D, CHR 0x0A]) (hm_iter trailers))
      in CHR 0x80 # be_bytes32 (length block) @ block)"

definition extract_grpc_initial_trailers :: "header_map \<Rightarrow> header_map option \<times> header_map" where
  "extract_grpc_initial_trailers headers =
     (let names = [''grpc-status'', ''grpc-message'', ''grpc-status-details-bin''];
          trailers = concat (map (\<lambda>n. case hm_get headers n of None \<Rightarrow> [] | Some v \<Rightarrow> [(n, v)]) names)
      in (if trailers = [] then None else Some trailers, foldl hm_remove headers names))"

section \<open>Base64 text\<close>

text \<open>
  \<open>STANDARD\<close> and \<open>STANDARD_NO_PAD\<close> of the base64 crate: both alphabets agree, and the
  padded one fills the last quantum.
\<close>

record base64 =
  b64_decode :: "string \<Rightarrow> string option"
  b64_encode :: "string \<Rightarrow> string"
  b64_encode_no_pad :: "string \<Rightarrow> string"

text \<open>\<open>u8::is_ascii_whitespace\<close>.\<close>

definition ascii_whitespace :: "char \<Rightarrow> bool" where
  "ascii_whitespace c \<longleftrightarrow> c \<in> {CHR 0x20, CHR 0x09, CHR 0x0A, CHR 0x0C, CHR 0x0D}"

fun decode_quanta :: "base64 \<Rightarrow> string \<Rightarrow> string + string" where
  "decode_quanta b64 (a # b # c # d # rest) =
     (case b64_decode b64 [a, b, c, d] of
        None \<Rightarrow> Inl ''invalid grpc-web-text base64 chunk''
      | Some chunk \<Rightarrow> map_sum id (\<lambda>more. chunk @ more) (decode_quanta b64 rest))"
| "decode_quanta b64 _ = Inr []"

text \<open>The decoded bytes, if any, and the characters carried over to the next chunk.\<close>

definition decode_grpc_web_text_chunk :: "base64 \<Rightarrow> string \<Rightarrow> string \<Rightarrow> (string + string option) \<times> string" where
  "decode_grpc_web_text_chunk b64 carryover data =
     (let buffered = carryover @ filter (\<lambda>c. \<not> ascii_whitespace c) data;
          complete_len = length buffered div 4 * 4
      in if complete_len = 0 then (Inr None, buffered)
         else (map_sum id (\<lambda>decoded. if decoded = [] then None else Some decoded) (decode_quanta b64 (take complete_len buffered)),
               drop complete_len buffered))"

definition decode_grpc_web_text_final :: "base64 \<Rightarrow> string \<Rightarrow> (string + string option) \<times> string" where
  "decode_grpc_web_text_final b64 carryover =
     (if carryover = [] then (Inr None, [])
      else if \<not> 4 dvd length carryover then (Inl ''incomplete grpc-web-text base64 body'', carryover)
      else (map_sum id (\<lambda>decoded. if decoded = [] then None else Some decoded) (decode_quanta b64 carryover), []))"

definition encode_grpc_web_text_chunk :: "base64 \<Rightarrow> string \<Rightarrow> string \<Rightarrow> string option \<times> string" where
  "encode_grpc_web_text_chunk b64 carryover data =
     (let buffered = carryover @ data; complete_len = length buffered div 3 * 3
      in if complete_len = 0 then (None, buffered)
         else (Some (b64_encode_no_pad b64 (take complete_len buffered)), drop complete_len buffered))"

definition flush_grpc_web_text_chunk :: "base64 \<Rightarrow> string \<Rightarrow> string option \<times> string" where
  "flush_grpc_web_text_chunk b64 carryover =
     (if carryover = [] then (None, []) else (Some (b64_encode b64 carryover), []))"

section \<open>The bodies\<close>

record grpc_web_request_body =
  gr_inner :: "body_event list"
  gr_inner_finished :: bool
  gr_inner_trailers :: "header_map option"
  gr_buffer :: string
  gr_saw_trailers :: bool

definition grpc_web_request_new :: "body_event list \<Rightarrow> grpc_web_request_body" where
  "grpc_web_request_new inner =
     \<lparr> gr_inner = inner, gr_inner_finished = False, gr_inner_trailers = None, gr_buffer = [], gr_saw_trailers = False \<rparr>"

text \<open>The rounds that read from the inner body; its pending data and trailers are never set.\<close>

definition request_read :: "grpc_web_request_body \<Rightarrow> poll_result option \<times> grpc_web_request_body" where
  "request_read s =
     (case gr_inner s of
        [] \<Rightarrow> (None, s\<lparr> gr_inner_finished := True \<rparr>)
      | EvPending # inner \<Rightarrow> (Some PollPending, s\<lparr> gr_inner := inner \<rparr>)
      | EvError e # inner \<Rightarrow> (Some (PollError e), s\<lparr> gr_inner := inner, gr_inner_finished := True \<rparr>)
      | EvFrame (FData data) # inner \<Rightarrow>
          if gr_saw_trailers s \<and> data \<noteq> []
          then (Some (PollError ''grpc-web request trailer frame must be terminal''), s\<lparr> gr_inner := inner \<rparr>)
          else (None, s\<lparr> gr_inner := inner, gr_buffer := gr_buffer s @ data \<rparr>)
      | EvFrame (FTrailers trailers) # inner \<Rightarrow>
          (None, s\<lparr> gr_inner := inner, gr_inner_finished := True,
             gr_inner_trailers := Some (case gr_inner_trailers s of None \<Rightarrow> trailers | Some existing \<Rightarrow> append_header_map existing trailers) \<rparr>))"

definition request_step :: "(string \<Rightarrow> string option) \<Rightarrow> grpc_web_request_body \<Rightarrow> poll_result option \<times> grpc_web_request_body" where
  "request_step header_name s =
     (case decode_grpc_web_request_frame header_name (gr_buffer s) (gr_inner_finished s) (gr_saw_trailers s) of
        Inr (Some (ParsedData data, rest)) \<Rightarrow> (Some (PollFrame (FData data)), s\<lparr> gr_buffer := rest \<rparr>)
      | Inr (Some (ParsedTrailers trailers0, rest)) \<Rightarrow>
          let trailers = (case gr_inner_trailers s of None \<Rightarrow> trailers0 | Some t \<Rightarrow> append_header_map trailers0 t);
              s1 = s\<lparr> gr_buffer := rest, gr_saw_trailers := True, gr_inner_trailers := None \<rparr>
          in (if trailers = [] then None else Some (PollFrame (FTrailers trailers)), s1)
      | Inl e \<Rightarrow> (Some (PollError e), s)
      | Inr None \<Rightarrow>
          if gr_inner_finished s then
            (case gr_inner_trailers s of
               Some trailers \<Rightarrow> (Some (PollFrame (FTrailers trailers)), s\<lparr> gr_inner_trailers := None \<rparr>)
             | None \<Rightarrow> (Some PollEnd, s))
          else request_read s)"

record grpc_web_text_body =
  gt_inner :: "body_event list"
  gt_pending_trailers :: "header_map option"
  gt_carryover :: string
  gt_inner_finished :: bool

definition grpc_web_text_new :: "body_event list \<Rightarrow> grpc_web_text_body" where
  "grpc_web_text_new inner = \<lparr> gt_inner = inner, gt_pending_trailers = None, gt_carryover = [], gt_inner_finished = False \<rparr>"

definition text_decode_step :: "base64 \<Rightarrow> grpc_web_text_body \<Rightarrow> poll_result option \<times> grpc_web_text_body" where
  "text_decode_step b64 s =
     (case gt_pending_trailers s of
        Some trailers \<Rightarrow> (Some (PollFrame (FTrailers trailers)), s\<lparr> gt_pending_trailers := None \<rparr>)
      | None \<Rightarrow>
          if gt_inner_finished s then
            (case decode_grpc_web_text_final b64 (gt_carryover s) of
               (Inr (Some data), c) \<Rightarrow> (Some (PollFrame (FData data)), s\<lparr> gt_carryover := c \<rparr>)
             | (Inr None, c) \<Rightarrow> (Some PollEnd, s\<lparr> gt_carryover := c \<rparr>)
             | (Inl e, c) \<Rightarrow> (Some (PollError e), s\<lparr> gt_carryover := c \<rparr>))
          else (case gt_inner s of
             [] \<Rightarrow> (None, s\<lparr> gt_inner_finished := True \<rparr>)
           | EvPending # inner \<Rightarrow> (Some PollPending, s\<lparr> gt_inner := inner \<rparr>)
           | EvError e # inner \<Rightarrow> (Some (PollError e), s\<lparr> gt_inner := inner, gt_inner_finished := True \<rparr>)
           | EvFrame (FData data) # inner \<Rightarrow>
               (case decode_grpc_web_text_chunk b64 (gt_carryover s) data of
                  (Inr (Some decoded), c) \<Rightarrow> (Some (PollFrame (FData decoded)), s\<lparr> gt_inner := inner, gt_carryover := c \<rparr>)
                | (Inr None, c) \<Rightarrow> (None, s\<lparr> gt_inner := inner, gt_carryover := c \<rparr>)
                | (Inl e, c) \<Rightarrow> (Some (PollError e), s\<lparr> gt_inner := inner, gt_carryover := c \<rparr>))
           | EvFrame (FTrailers trailers) # inner \<Rightarrow>
               (case decode_grpc_web_text_final b64 (gt_carryover s) of
                  (Inr (Some decoded), c) \<Rightarrow>
                    (Some (PollFrame (FData decoded)), s\<lparr> gt_inner := inner, gt_carryover := c, gt_pending_trailers := Some trailers \<rparr>)
                | (Inr None, c) \<Rightarrow> (Some (PollFrame (FTrailers trailers)), s\<lparr> gt_inner := inner, gt_carryover := c \<rparr>)
                | (Inl e, c) \<Rightarrow> (Some (PollError e), s\<lparr> gt_inner := inner, gt_carryover := c \<rparr>))))"

definition text_encode_step :: "base64 \<Rightarrow> grpc_web_text_body \<Rightarrow> poll_result option \<times> grpc_web_text_body" where
  "text_encode_step b64 s =
     (if gt_inner_finished s then
        (case flush_grpc_web_text_chunk b64 (gt_carryover s) of
           (Some data, c) \<Rightarrow> (Some (PollFrame (FData data)), s\<lparr> gt_carryover := c \<rparr>)
         | (None, c) \<Rightarrow> (Some PollEnd, s\<lparr> gt_carryover := c \<rparr>))
      else (case gt_inner s of
         [] \<Rightarrow> (None, s\<lparr> gt_inner_finished := True \<rparr>)
       | EvPending # inner \<Rightarrow> (Some PollPending, s\<lparr> gt_inner := inner \<rparr>)
       | EvError e # inner \<Rightarrow> (Some (PollError e), s\<lparr> gt_inner := inner, gt_inner_finished := True \<rparr>)
       | EvFrame frame # inner \<Rightarrow>
           (case encode_grpc_web_text_chunk b64 (gt_carryover s)
                   (case frame of FData data \<Rightarrow> data | FTrailers trailers \<Rightarrow> encode_grpc_web_trailers trailers) of
              (encoded, c) \<Rightarrow> (map_option (\<lambda>e. PollFrame (FData e)) encoded, s\<lparr> gt_inner := inner, gt_carryover := c \<rparr>))))"

record grpc_web_response_body =
  gs_inner :: "body_event list"
  gs_pending_frame :: "string option"
  gs_fallback_trailers :: "header_map option"
  gs_inner_finished :: bool

definition grpc_web_response_new :: "body_event list \<Rightarrow> header_map option \<Rightarrow> grpc_web_response_body" where
  "grpc_web_response_new inner fallback =
     \<lparr> gs_inner = inner, gs_pending_frame = None, gs_fallback_trailers = fallback, gs_inner_finished = False \<rparr>"

definition response_step :: "grpc_web_response_body \<Rightarrow> poll_result option \<times> grpc_web_response_body" where
  "response_step s =
     (case gs_pending_frame s of
        Some frame \<Rightarrow> (Some (PollFrame (FData frame)), s\<lparr> gs_pending_frame := None \<rparr>)
      | None \<Rightarrow>
          if gs_inner_finished s then (Some PollEnd, s)
          else (case gs_inner s of
             [] \<Rightarrow>
               let s1 = s\<lparr> gs_inner_finished := True, gs_fallback_trailers := None \<rparr>
               in (case gs_fallback_trailers s of
                     Some trailers \<Rightarrow>
                       if trailers \<noteq> [] then (None, s1\<lparr> gs_pending_frame := Some (encode_grpc_web_trailers trailers) \<rparr>)
                       else (Some PollEnd, s1)
                   | None \<Rightarrow> (Some PollEnd, s1))
           | EvPending # inner \<Rightarrow> (Some PollPending, s\<lparr> gs_inner := inner \<rparr>)
           | EvError e # inner \<Rightarrow> (Some (PollError e), s\<lparr> gs_inner := inner, gs_inner_finished := True \<rparr>)
           | EvFrame (FData data) # inner \<Rightarrow> (Some (PollFrame (FData data)), s\<lparr> gs_inner := inner \<rparr>)
           | EvFrame (FTrailers trailers) # inner \<Rightarrow>
               (None, s\<lparr> gs_inner := inner, gs_fallback_trailers := None,
                        gs_pending_frame := Some (encode_grpc_web_trailers trailers) \<rparr>)))"

section \<open>Every body ends\<close>

fun event_size :: "body_event \<Rightarrow> nat" where
  "event_size (EvFrame (FData data)) = 1 + length data"
| "event_size (EvFrame (FTrailers _)) = 3"
| "event_size _ = 1"

abbreviation events_size :: "body_event list \<Rightarrow> nat" where
  "events_size evs \<equiv> sum_list (map event_size evs)"

definition request_left :: "grpc_web_request_body \<Rightarrow> nat" where
  "request_left s = events_size (gr_inner s) + length (gr_buffer s) + (if gr_inner_finished s then 0 else 1)
     + (if gr_inner_trailers s = None then 0 else 1)"

lemma map_sum_InrD: "map_sum id f x = Inr y \<Longrightarrow> \<exists>z. x = Inr z \<and> y = f z"
  by (cases x) auto

lemma decode_frame_shrinks:
  assumes "decode_grpc_web_request_frame header_name buffer finished saw = Inr (Some (f, rest))"
  shows "length rest < length buffer"
  using assms by (auto simp: decode_grpc_web_request_frame_def Let_def dest!: map_sum_InrD split: if_splits)

lemma request_read_progress:
  assumes "request_read s = (r, s')" and "\<not> gr_inner_finished s"
  shows "(\<exists>e. r = Some (PollError e)) \<or> request_left s' < request_left s"
  using assms
  by (auto simp: request_read_def request_left_def split: list.splits body_event.splits body_frame.splits if_splits)

interpretation request: body_machine "request_step header_name" request_left for header_name
proof
  fix s r s'
  assume step: "request_step header_name s = (r, s')"
  let ?d = "decode_grpc_web_request_frame header_name (gr_buffer s) (gr_inner_finished s) (gr_saw_trailers s)"
  consider e where "?d = Inl e" | "?d = Inr None" | f rest where "?d = Inr (Some (f, rest))"
    by (metis sum.exhaust option.exhaust surj_pair)
  then show "r = Some PollEnd \<or> (\<exists>e. r = Some (PollError e)) \<or> request_left s' < request_left s"
  proof cases
    case 1
    with step show ?thesis by (auto simp: request_step_def)
  next
    case 2
    with step show ?thesis
    proof (cases "gr_inner_finished s")
      case True
      with step 2 show ?thesis by (auto simp: request_step_def request_left_def split: option.splits)
    next
      case False
      with step 2 request_read_progress show ?thesis by (simp add: request_step_def)
    qed
  next
    case 3
    with step decode_frame_shrinks [OF 3] show ?thesis
      by (auto simp: request_step_def request_left_def Let_def split: parsed_frame.splits)
  qed
qed

definition text_left :: "grpc_web_text_body \<Rightarrow> nat" where
  "text_left s = events_size (gt_inner s) + (if gt_carryover s = [] then 0 else 1) + (if gt_inner_finished s then 0 else 1)
     + (if gt_pending_trailers s = None then 0 else 1)"

lemma text_chunk_carry: "snd (decode_grpc_web_text_final b64 c) \<noteq> [] \<Longrightarrow> \<exists>e. fst (decode_grpc_web_text_final b64 c) = Inl e"
  by (auto simp: decode_grpc_web_text_final_def split: if_splits)

interpretation text_decode: body_machine "text_decode_step b64" text_left for b64
proof
  fix s r s'
  assume "text_decode_step b64 s = (r, s')"
  then show "r = Some PollEnd \<or> (\<exists>e. r = Some (PollError e)) \<or> text_left s' < text_left s"
    by (auto simp: text_decode_step_def text_left_def decode_grpc_web_text_final_def decode_grpc_web_text_chunk_def Let_def
        split: option.splits if_splits list.splits body_event.splits body_frame.splits prod.splits sum.splits)
qed

interpretation text_encode: body_machine "text_encode_step b64" text_left for b64
proof
  fix s r s'
  assume "text_encode_step b64 s = (r, s')"
  then show "r = Some PollEnd \<or> (\<exists>e. r = Some (PollError e)) \<or> text_left s' < text_left s"
    by (auto simp: text_encode_step_def text_left_def encode_grpc_web_text_chunk_def flush_grpc_web_text_chunk_def Let_def
        split: option.splits if_splits list.splits body_event.splits body_frame.splits prod.splits)
qed

definition response_left :: "grpc_web_response_body \<Rightarrow> nat" where
  "response_left s = events_size (gs_inner s) + (if gs_inner_finished s then 0 else 2) + (if gs_pending_frame s = None then 0 else 1)"

interpretation response: body_machine response_step response_left
proof
  fix s r s'
  assume "response_step s = (r, s')"
  then show "r = Some PollEnd \<or> (\<exists>e. r = Some (PollError e)) \<or> response_left s' < response_left s"
    by (auto simp: response_step_def response_left_def Let_def
        split: option.splits if_splits list.splits body_event.splits body_frame.splits)
qed

section \<open>Frames and their printing\<close>

text \<open>A gRPC message as it is framed: a flag below 128, the length, the payload.\<close>

definition grpc_message :: "string \<Rightarrow> bool" where
  "grpc_message m \<longleftrightarrow> 5 \<le> length m \<and> (of_char (hd m) :: nat) < 128 \<and> length m = 5 + be_nat (take 4 (tl m))"

definition grpc_frame :: "nat \<Rightarrow> string \<Rightarrow> string" where
  "grpc_frame flags payload = char_of flags # be_bytes32 (length payload) @ payload"

lemma be_nat_bytes32: "be_nat (be_bytes32 n) = n mod 2 ^ 32"
proof -
  have "n mod (256 * 16777216) = 256 * (n div 256 mod 16777216) + n mod 256"
    "n div 256 mod (256 * 65536) = 256 * (n div 256 div 256 mod 65536) + n div 256 mod 256"
    "n div 256 div 256 mod (256 * 256) = 256 * (n div 256 div 256 div 256 mod 256) + n div 256 div 256 mod 256"
    by (rule mod_mult2_eq)+
  moreover have "n div 256 div 256 = n div 65536" "n div 256 div 256 div 256 = n div 16777216"
    by (simp_all add: div_mult2_eq [symmetric])
  moreover have "be_nat (be_bytes32 n) = ((n div 16777216 mod 256 * 256 + n div 65536 mod 256) * 256 + n div 256 mod 256) * 256 + n mod 256"
    by (simp add: be_nat_def be_bytes32_def)
  ultimately show ?thesis by simp
qed

lemma length_be_bytes32 [simp]: "length (be_bytes32 n) = 4"
  by (simp add: be_bytes32_def)

lemma grpc_frame_message:
  assumes "flags < 128" and "length payload < 2 ^ 32"
  shows "grpc_message (grpc_frame flags payload)"
  using assms by (simp add: grpc_message_def grpc_frame_def be_nat_bytes32)

text \<open>A message at the front of what will arrive: the buffer holds it, or a part of it.\<close>

lemma decode_message:
  assumes "grpc_message m" and "buffer @ coming = m @ later" and "length m \<le> length buffer"
  shows "decode_grpc_web_request_frame header_name buffer finished False = Inr (Some (ParsedData m, drop (length m) buffer))"
proof -
  obtain t where b: "buffer = m @ t" using assms(2,3) by (auto simp: append_eq_append_conv2)
  have m: "5 \<le> length m" "(of_char (hd m) :: nat) < 128" and len: "length m = 5 + be_nat (take 4 (tl m))"
    using assms(1) unfolding grpc_message_def by blast+
  from m(1) have ne: "m \<noteq> []" by auto
  have "take 4 (tl buffer) = take 4 (tl m)" unfolding b using m(1) by (cases m) simp_all
  with len have fl: "5 + be_nat (take 4 (tl buffer)) = length m" by (simp only:)
  show ?thesis unfolding decode_grpc_web_request_frame_def Let_def fl using m ne by (simp add: b)
qed

lemma decode_partial:
  assumes "5 \<le> length f" and "length f = 5 + be_nat (take 4 (tl f))" and "buffer @ coming = f @ later" and "length buffer < length f"
  shows "decode_grpc_web_request_frame header_name buffer False False = Inr None"
proof (cases "length buffer < 5")
  case False
  obtain t where f: "f = buffer @ t" using assms(3,4) by (auto simp: append_eq_append_conv2)
  then have "take 4 (tl f) = take 4 (tl buffer)" using False by (cases buffer) auto
  with assms False show ?thesis by (simp add: decode_grpc_web_request_frame_def Let_def)
qed (simp add: decode_grpc_web_request_frame_def)

text \<open>Trailers that can be printed: names without separators, trimmed values of one line.\<close>

definition printable_trailers :: "(string \<Rightarrow> string option) \<Rightarrow> header_map \<Rightarrow> bool" where
  "printable_trailers header_name t \<longleftrightarrow>
     (\<forall>(n, v) \<in> set (hm_iter t). n \<noteq> [] \<and> header_name n = Some n \<and> CHR '':'' \<notin> set n \<and> CHR 0x0A \<notin> set n
        \<and> str_trim v = v \<and> utf8_valid v \<and> header_value_of v = Some v)
     \<and> length (encode_grpc_web_trailers t) < 2 ^ 32"

lemma utf8_valid_space: "utf8_valid (CHR '' '' # v) = utf8_valid v"
  by (subst utf8_valid.simps(2)) (simp add: byte_in_def)

lemma decode_printed_lines:
  assumes "\<forall>(n, v) \<in> set kvs. n \<noteq> [] \<and> header_name n = Some n \<and> CHR '':'' \<notin> set n \<and> CHR 0x0A \<notin> set n
        \<and> str_trim v = v \<and> utf8_valid v \<and> header_value_of v = Some v"
  shows "decode_trailer_lines header_name acc
     (str_split (CHR 0x0A) (concat (map (\<lambda>(n, v). n @ '': '' @ v @ [CHR 0x0D, CHR 0x0A]) kvs))) = Inr (acc @ kvs)"
  using assms
proof (induction kvs arbitrary: acc)
  case Nil
  show ?case by (simp add: strip_suffix_def str_ends_with_def)
next
  case (Cons kv kvs)
  obtain n v where kv: "kv = (n, v)" by force
  from Cons.prems have p: "n \<noteq> []" "header_name n = Some n" "CHR '':'' \<notin> set n" "CHR 0x0A \<notin> set n" "str_trim v = v" "utf8_valid v"
    and hv: "header_value_of v = Some v" by (simp_all add: kv)
  from hv have vn: "CHR 0x0A \<notin> set v" by (auto simp: header_value_of_def header_value_byte_def list_all_iff split: if_splits)
  let ?line = "n @ '': '' @ v @ [CHR 0x0D]"
  have eq: "concat (map (\<lambda>(n, v). n @ '': '' @ v @ [CHR 0x0D, CHR 0x0A]) (kv # kvs)) =
      ?line @ CHR 0x0A # concat (map (\<lambda>(n, v). n @ '': '' @ v @ [CHR 0x0D, CHR 0x0A]) kvs)" by (simp add: kv)
  have "CHR 0x0A \<notin> set ?line" using p vn by simp
  then have split: "str_split (CHR 0x0A) (concat (map (\<lambda>(n, v). n @ '': '' @ v @ [CHR 0x0D, CHR 0x0A]) (kv # kvs))) =
      ?line # str_split (CHR 0x0A) (concat (map (\<lambda>(n, v). n @ '': '' @ v @ [CHR 0x0D, CHR 0x0A]) kvs))"
    unfolding eq by (rule str_split_append_sep)
  have strip: "strip_suffix (n @ CHR '':'' # CHR '' '' # v @ [CHR 0x0D]) [CHR 0x0D] = Some (n @ CHR '':'' # CHR '' '' # v)"
    by (simp add: strip_suffix_Some)
  have "utf8_valid (CHR '' '' # v)" using p by (simp add: utf8_valid_space)
  then show ?case unfolding split
    using Cons.IH [of "acc @ [(n, v)]"] Cons.prems p hv
    by (simp add: strip str_trim_space hm_append_def kv)
qed

lemma encoded_trailers_frame:
  assumes "printable_trailers header_name t"
  shows "5 \<le> length (encode_grpc_web_trailers t)"
    and "length (encode_grpc_web_trailers t) = 5 + be_nat (take 4 (tl (encode_grpc_web_trailers t)))"
  using assms by (simp_all add: printable_trailers_def encode_grpc_web_trailers_def Let_def be_nat_bytes32)

lemma decode_printed_trailers:
  assumes "printable_trailers header_name t"
  shows "decode_grpc_web_request_frame header_name (encode_grpc_web_trailers t) finished False = Inr (Some (ParsedTrailers (hm_iter t), []))"
  using assms encoded_trailers_frame [OF assms] decode_printed_lines [of "hm_iter t" header_name "[]"]
  by (simp add: decode_grpc_web_request_frame_def decode_grpc_web_trailer_block_def printable_trailers_def
      encode_grpc_web_trailers_def Let_def be_nat_bytes32)

section \<open>The request body\<close>

lemma request_step_cases:
  fixes s :: grpc_web_request_body and header_name
  defines "d \<equiv> decode_grpc_web_request_frame header_name (gr_buffer s) (gr_inner_finished s) (gr_saw_trailers s)"
  shows "d = Inr (Some (ParsedData data, rest)) \<Longrightarrow> request_step header_name s = (Some (PollFrame (FData data)), s\<lparr> gr_buffer := rest \<rparr>)"
    and "d = Inr (Some (ParsedTrailers t, rest)) \<Longrightarrow> gr_inner_trailers s = None \<Longrightarrow> request_step header_name s =
       (if t = [] then None else Some (PollFrame (FTrailers t)), s\<lparr> gr_buffer := rest, gr_saw_trailers := True, gr_inner_trailers := None \<rparr>)"
    and "d = Inr None \<Longrightarrow> \<not> gr_inner_finished s \<Longrightarrow> request_step header_name s = request_read s"
    and "d = Inr None \<Longrightarrow> gr_inner_finished s \<Longrightarrow> gr_inner_trailers s = None \<Longrightarrow> request_step header_name s = (Some PollEnd, s)"
  by (simp_all add: request_step_def d_def)

text \<open>Past the trailers nothing but empty chunks may follow.\<close>

lemma run_after_trailers:
  assumes "data_events inner" and "bytes_of inner = []" and "events_size inner + 1 < n"
  shows "run_body (request_step header_name) n
     \<lparr> gr_inner = inner, gr_inner_finished = False, gr_inner_trailers = None, gr_buffer = [], gr_saw_trailers = True \<rparr> = ([], BodyDone)"
  using assms
proof (induction inner arbitrary: n rule: data_events.induct)
  case 1
  then obtain k where "n = Suc (Suc k)" by (metis add_2_eq_Suc' less_imp_Suc_add One_nat_def Suc_eq_plus1 add.commute list.map(1) sum_list.Nil plus_nat.add_0)
  then show ?case by (simp add: request_step_cases request_read_def decode_grpc_web_request_frame_def)
next
  case (2 inner)
  then obtain k where "n = Suc k" by (cases n) auto
  with 2 show ?case by (simp add: request_step_cases request_read_def decode_grpc_web_request_frame_def)
next
  case (3 d inner)
  then obtain k where "n = Suc k" by (cases n) auto
  with 3 show ?case by (simp add: request_step_cases request_read_def decode_grpc_web_request_frame_def)
qed simp_all

fun trailer_frames :: "header_map option \<Rightarrow> body_frame list" where
  "trailer_frames None = []"
| "trailer_frames (Some t) = (if hm_iter t = [] then [] else [FTrailers (hm_iter t)])"

fun trailer_bytes :: "header_map option \<Rightarrow> string" where
  "trailer_bytes None = []"
| "trailer_bytes (Some t) = encode_grpc_web_trailers t"

text \<open>A round that finds no complete frame reads the next event.\<close>

lemma run_reads:
  assumes "data_events inner"
    and "\<And>more inner'. data_events inner' \<Longrightarrow> bytes_of inner = more @ bytes_of inner' \<Longrightarrow> events_size inner' + length more < events_size inner \<Longrightarrow>
       run_body (request_step header_name) n \<lparr> gr_inner = inner', gr_inner_finished = False, gr_inner_trailers = None,
         gr_buffer = buffer @ more, gr_saw_trailers = False \<rparr> = R"
    and "decode_grpc_web_request_frame header_name buffer False False = Inr None" and "inner \<noteq> []"
  shows "run_body (request_step header_name) (Suc n)
     \<lparr> gr_inner = inner, gr_inner_finished = False, gr_inner_trailers = None, gr_buffer = buffer, gr_saw_trailers = False \<rparr> = R"
  using assms(1) assms(2) [of _ "[]"] assms(2) assms(3,4)
  by (cases inner rule: data_events.cases) (auto simp: request_step_cases request_read_def)

lemma message_front:
  assumes "list_all grpc_message (m # msgs)" and "buffer @ bytes_of inner = concat (m # msgs) @ tb"
  shows "grpc_message m" "buffer @ bytes_of inner = m @ (concat msgs @ tb)"
  using assms by simp_all

lemma run_request:
  assumes "list_all grpc_message msgs" and "\<forall>t. trailers = Some t \<longrightarrow> printable_trailers header_name t"
    and "data_events inner" and "buffer @ bytes_of inner = concat msgs @ trailer_bytes trailers"
    and "events_size inner + length buffer + 1 < n"
  shows "run_body (request_step header_name) n
     \<lparr> gr_inner = inner, gr_inner_finished = False, gr_inner_trailers = None, gr_buffer = buffer, gr_saw_trailers = False \<rparr>
     = (map FData msgs @ trailer_frames trailers, BodyDone)"
  using assms
proof (induction n arbitrary: inner buffer msgs)
  case (Suc n)
  let ?s = "\<lparr> gr_inner = inner, gr_inner_finished = False, gr_inner_trailers = None, gr_buffer = buffer, gr_saw_trailers = False \<rparr>"
  have reads: ?case if d: "decode_grpc_web_request_frame header_name buffer False False = Inr None" and "inner \<noteq> []"
  proof (rule run_reads [OF Suc.prems(3) _ d \<open>inner \<noteq> []\<close>])
    fix more inner'
    assume i: "data_events inner'" "bytes_of inner = more @ bytes_of inner'" "events_size inner' + length more < events_size inner"
    show "run_body (request_step header_name) n \<lparr> gr_inner = inner', gr_inner_finished = False, gr_inner_trailers = None,
         gr_buffer = buffer @ more, gr_saw_trailers = False \<rparr> = (map FData msgs @ trailer_frames trailers, BodyDone)"
      using i Suc.prems by (intro Suc.IH) simp_all
  qed
  show ?case
  proof (cases msgs)
    case (Cons m rest)
    note front = message_front [OF Suc.prems(1) [unfolded Cons] Suc.prems(4) [unfolded Cons]]
    have len5: "5 \<le> length m" and frame: "length m = 5 + be_nat (take 4 (tl m))"
      using front(1) unfolding grpc_message_def by blast+
    show ?thesis
    proof (cases "length m \<le> length buffer")
      case True
      have b: "drop (length m) buffer @ bytes_of inner = concat rest @ trailer_bytes trailers"
        using front(2) True by (metis append_eq_conv_conj drop_append diff_is_0_eq' drop0)
      have "run_body (request_step header_name) n (?s\<lparr> gr_buffer := drop (length m) buffer \<rparr>) =
          (map FData rest @ trailer_frames trailers, BodyDone)"
        using Suc.IH [OF _ Suc.prems(2,3) b] Suc.prems(1,5) True len5 by (simp add: Cons)
      with decode_message [OF front True, of header_name False] show ?thesis by (simp add: request_step_cases Cons)
    next
      case False
      then have "decode_grpc_web_request_frame header_name buffer False False = Inr None"
        by (intro decode_partial [OF len5 frame front(2)]) simp
      moreover have "inner \<noteq> []" using front(2) False by auto
      ultimately show ?thesis by (rule reads)
    qed
  next
    case Nil
    show ?thesis
    proof (cases trailers)
      case None
      with Nil Suc.prems(4) have b: "buffer = []" by simp
      then have d: "decode_grpc_web_request_frame header_name buffer fin False = Inr None" for fin
        by (simp add: decode_grpc_web_request_frame_def)
      show ?thesis
      proof (cases "inner = []")
        case True
        obtain k where "n = Suc k" using Suc.prems(5) by (cases n) simp_all
        with True b Nil None d show ?thesis by (simp add: request_step_cases request_read_def)
      qed (rule reads [OF d])
    next
      case (Some t)
      with Nil Suc.prems(4) have eq: "buffer @ bytes_of inner = encode_grpc_web_trailers t @ []" by simp
      have t: "printable_trailers header_name t" using Suc.prems(2) Some by simp
      show ?thesis
      proof (cases "length buffer < length (encode_grpc_web_trailers t)")
        case True
        have "decode_grpc_web_request_frame header_name buffer False False = Inr None"
          by (rule decode_partial [OF encoded_trailers_frame [OF t] eq True])
        moreover have "inner \<noteq> []" using eq True by auto
        ultimately show ?thesis by (rule reads)
      next
        case False
        moreover have "length buffer + length (bytes_of inner) = length (encode_grpc_web_trailers t)"
          using arg_cong [OF eq, of length] by simp
        ultimately have "length (bytes_of inner) = 0" by linarith
        then have i: "bytes_of inner = []" by simp
        with eq have b: "buffer = encode_grpc_web_trailers t" by simp
        have "5 \<le> length buffer" using encoded_trailers_frame(1) [OF t] b by simp
        then have "run_body (request_step header_name) n
            \<lparr> gr_inner = inner, gr_inner_finished = False, gr_inner_trailers = None, gr_buffer = [], gr_saw_trailers = True \<rparr> = ([], BodyDone)"
          using Suc.prems(3,5) i by (intro run_after_trailers) simp_all
        with decode_printed_trailers [OF t, of False] b Nil Some show ?thesis by (simp add: request_step_cases)
      qed
    qed
  qed
qed simp

section \<open>Base64 text, chunk by chunk\<close>

text \<open>
  What the translation needs of base64: up to three bytes become four characters,
  none of them white space, and are decoded again; without padding, a multiple of
  three bytes is encoded three by three.
\<close>

definition base64_ok :: "base64 \<Rightarrow> bool" where
  "base64_ok b64 \<longleftrightarrow>
     (\<forall>q. q \<noteq> [] \<and> length q \<le> 3 \<longrightarrow>
        length (b64_encode b64 q) = 4 \<and> b64_decode b64 (b64_encode b64 q) = Some q \<and> list_all (\<lambda>c. \<not> ascii_whitespace c) (b64_encode b64 q))
     \<and> b64_encode_no_pad b64 [] = []
     \<and> (\<forall>x y. length x = 3 \<and> 3 dvd length y \<longrightarrow> b64_encode_no_pad b64 (x @ y) = b64_encode b64 x @ b64_encode_no_pad b64 y)"

fun text_of :: "base64 \<Rightarrow> string \<Rightarrow> string" where
  "text_of b64 (a # b # c # rest) = b64_encode b64 [a, b, c] @ text_of b64 rest"
| "text_of b64 [] = []"
| "text_of b64 [a] = b64_encode b64 [a]"
| "text_of b64 [a, b] = b64_encode b64 [a, b]"

lemma base64_quantum:
  assumes "base64_ok b64" and "q \<noteq> []" and "length q \<le> 3"
  obtains a b c d where "b64_encode b64 q = [a, b, c, d]" and "b64_decode b64 [a, b, c, d] = Some q"
proof -
  have e: "length (b64_encode b64 q) = 4" "b64_decode b64 (b64_encode b64 q) = Some q"
    using assms unfolding base64_ok_def by blast+
  then have "length (b64_encode b64 q) = Suc (Suc (Suc (Suc 0)))" by simp
  then obtain a b c d where "b64_encode b64 q = [a, b, c, d]" by (auto simp: length_Suc_conv)
  with e that show thesis by simp
qed

lemma text_prefix:
  assumes "base64_ok b64"
  shows "decode_quanta b64 (take (4 * k) (text_of b64 x)) = Inr (take (3 * k) x) \<and> drop (4 * k) (text_of b64 x) = text_of b64 (drop (3 * k) x)"
  using assms
proof (induction b64 x arbitrary: k rule: text_of.induct)
  case (1 b64 x y z rest)
  obtain a b c d where q: "b64_encode b64 [x, y, z] = [a, b, c, d]" "b64_decode b64 [a, b, c, d] = Some [x, y, z]"
    by (rule base64_quantum [OF "1.prems", of "[x, y, z]"]) auto
  show ?case
  proof (cases k)
    case (Suc j)
    then have k: "4 * k = Suc (Suc (Suc (Suc (4 * j))))" "3 * k = Suc (Suc (Suc (3 * j)))" by simp_all
    show ?thesis unfolding k using "1.IH" [OF "1.prems", of j] q by simp
  qed simp
next
  case (2 b64)
  then show ?case by simp
next
  case (3 b64 v)
  obtain a b c d where q: "b64_encode b64 [v] = [a, b, c, d]" "b64_decode b64 [a, b, c, d] = Some [v]"
    by (rule base64_quantum [OF "3.prems", of "[v]"]) auto
  then show ?case by (cases k) simp_all
next
  case (4 b64 v w)
  obtain a b c d where q: "b64_encode b64 [v, w] = [a, b, c, d]" "b64_decode b64 [a, b, c, d] = Some [v, w]"
    by (rule base64_quantum [OF "4.prems", of "[v, w]"]) auto
  then show ?case by (cases k) simp_all
qed

lemma text_length:
  assumes "base64_ok b64"
  shows "length (text_of b64 x) = 4 * ((length x + 2) div 3)"
  using assms
proof (induction b64 x rule: text_of.induct)
  case (1 b64 x y z rest)
  then have "length (b64_encode b64 [x, y, z]) = 4" by (simp add: base64_ok_def)
  moreover have "(length rest + 5) div 3 = Suc ((length rest + 2) div 3)" by presburger
  ultimately show ?case using 1 by (simp add: add.commute)
qed (simp_all add: base64_ok_def)

lemma text_no_space: "base64_ok b64 \<Longrightarrow> list_all (\<lambda>c. \<not> ascii_whitespace c) (text_of b64 x)"
  by (induction b64 x rule: text_of.induct) (simp_all add: base64_ok_def)

lemma text_append: "3 dvd length x \<Longrightarrow> text_of b64 (x @ y) = text_of b64 x @ text_of b64 y"
proof (induction b64 x rule: text_of.induct)
  case (1 b64 a b c rest)
  then have "3 dvd length rest" by (simp add: dvd_def) presburger
  with 1 show ?case by simp
next
  case (4 b64 v w)
  then have "3 dvd Suc (Suc 0)" by simp
  then show ?case by presburger
qed simp_all

lemma base64_no_pad:
  "base64_ok b64 \<Longrightarrow> length x = 3 \<Longrightarrow> 3 dvd length y \<Longrightarrow> b64_encode_no_pad b64 (x @ y) = b64_encode b64 x @ b64_encode_no_pad b64 y"
  by (simp add: base64_ok_def)

lemma no_pad_text: "base64_ok b64 \<Longrightarrow> 3 dvd length x \<Longrightarrow> b64_encode_no_pad b64 x = text_of b64 x"
proof (induction b64 x rule: text_of.induct)
  case (1 b64 x y z rest)
  have d: "3 dvd length rest" using "1.prems"(2) by (simp add: dvd_def) presburger
  have "b64_encode_no_pad b64 ([x, y, z] @ rest) = b64_encode b64 [x, y, z] @ b64_encode_no_pad b64 rest"
    by (rule base64_no_pad [OF "1.prems"(1) _ d]) simp
  with "1.IH" [OF "1.prems"(1) d] show ?case by simp
next
  case (4 b64 v w)
  then have "3 dvd Suc (Suc 0)" by simp
  then show ?case by presburger
qed (simp_all add: base64_ok_def)

lemma text_short: "q \<noteq> [] \<Longrightarrow> length q \<le> 3 \<Longrightarrow> text_of b64 q = b64_encode b64 q"
  by (cases "(b64, q)" rule: text_of.cases) auto

section \<open>The text bodies\<close>

abbreviation frame_data :: "body_frame list \<Rightarrow> string" where
  "frame_data fs \<equiv> bytes_of (map EvFrame fs)"

abbreviation unspaced :: "string \<Rightarrow> string" where
  "unspaced \<equiv> filter (\<lambda>c. \<not> ascii_whitespace c)"

text \<open>A chunk of the text of some bytes decodes to the first of these bytes.\<close>

lemma decode_text_chunk:
  assumes "base64_ok b64" and "carry @ unspaced data @ later = text_of b64 x"
  shows "\<exists>k. decode_grpc_web_text_chunk b64 carry data =
       (Inr (if take (3 * k) x = [] then None else Some (take (3 * k) x)), drop (4 * k) (carry @ unspaced data))
     \<and> drop (4 * k) (carry @ unspaced data) @ later = text_of b64 (drop (3 * k) x)"
proof -
  let ?buf = "carry @ unspaced data"
  define k where "k = length ?buf div 4"
  have kk: "length ?buf div 4 * 4 = 4 * k" by (simp add: k_def)
  have le: "4 * k \<le> length ?buf" by (simp add: k_def)
  have t: "take (4 * k) ?buf = take (4 * k) (text_of b64 x)" "drop (4 * k) ?buf @ later = drop (4 * k) (text_of b64 x)"
    unfolding assms(2) [symmetric] append_assoc [symmetric] using le by (simp_all only: take_append drop_append) simp_all
  have "decode_grpc_web_text_chunk b64 carry data =
      (Inr (if take (3 * k) x = [] then None else Some (take (3 * k) x)), drop (4 * k) ?buf)"
    using text_prefix [OF assms(1), of k x] unfolding decode_grpc_web_text_chunk_def Let_def kk t(1) by simp
  with t(2) text_prefix [OF assms(1), of k x] show ?thesis by auto
qed

lemma text_of_empty: "base64_ok b64 \<Longrightarrow> text_of b64 x = [] \<Longrightarrow> x = []"
  using text_length [of b64 x] by (cases x) simp_all

lemma decode_text_final:
  assumes "base64_ok b64"
  shows "decode_grpc_web_text_final b64 (text_of b64 x) = (Inr (if x = [] then None else Some x), [])"
proof (cases "x = []")
  case False
  then have "text_of b64 x \<noteq> []" using text_of_empty [OF assms] by blast
  have l: "length (text_of b64 x) = 4 * ((length x + 2) div 3)" by (rule text_length [OF assms])
  have "length x \<le> 3 * ((length x + 2) div 3)" by presburger
  with text_prefix [OF assms, of "(length x + 2) div 3" x] l have "decode_quanta b64 (text_of b64 x) = Inr x" by simp
  with False \<open>text_of b64 x \<noteq> []\<close> l show ?thesis by (simp add: decode_grpc_web_text_final_def)
qed (simp add: decode_grpc_web_text_final_def)

lemma bytes_of_frames_append: "frame_data (fs @ gs) = frame_data fs @ frame_data gs"
proof (induction fs)
  case (Cons f fs)
  then show ?case by (cases f) simp_all
qed simp

abbreviation reading :: "body_event list \<Rightarrow> string \<Rightarrow> grpc_web_text_body" where
  "reading inner carry \<equiv> \<lparr> gt_inner = inner, gt_pending_trailers = None, gt_carryover = carry, gt_inner_finished = False \<rparr>"

lemma text_decode_data:
  "decode_grpc_web_text_chunk b64 carry d = (Inr r, c) \<Longrightarrow>
   text_decode_step b64 (reading (EvFrame (FData d) # inner) carry) = (map_option (\<lambda>x. PollFrame (FData x)) r, reading inner c)"
  by (cases r) (simp_all add: text_decode_step_def)

text \<open>
  The decoding body delivers the bytes whose text it reads, in frames of data only.
  The state is that of a body in the middle of its input.
\<close>

lemma run_text_decode:
  assumes "base64_ok b64" and "data_events inner" and "carry @ unspaced (bytes_of inner) = text_of b64 x" and "text_left (reading inner carry) < n"
  shows "\<exists>ds. run_body (text_decode_step b64) n (reading inner carry)
      = (map FData ds, BodyDone) \<and> concat ds = x"
  using assms(2-4)
proof (induction inner arbitrary: carry x n rule: data_events.induct)
  case 1
  then obtain k where n: "n = Suc (Suc k)" by (cases n; cases "n - 1") (auto simp: text_left_def)
  have c: "carry = text_of b64 x" using "1.prems" by simp
  show ?case
  proof (cases "x = []")
    case True
    then show ?thesis using n c by (auto simp: text_decode_step_def decode_grpc_web_text_final_def)
  next
    case False
    then have "carry \<noteq> []" using c text_of_empty [OF assms(1), of x] by auto
    with "1.prems"(3) n obtain j where "k = Suc j" by (cases k) (auto simp: text_left_def)
    with False n c decode_text_final [OF assms(1), of x] show ?thesis
      by (auto simp: text_decode_step_def decode_grpc_web_text_final_def [of _ "[]"] intro!: exI [of _ "[x]"])
  qed
next
  case (2 inner)
  then obtain k where n: "n = Suc k" by (cases n) auto
  with "2.IH" [of carry x k] "2.prems" show ?case by (simp add: text_decode_step_def text_left_def)
next
  case (3 d inner)
  then obtain m where n: "n = Suc m" by (cases n) auto
  have "carry @ unspaced d @ unspaced (bytes_of inner) = text_of b64 x" using "3.prems"(2) by simp
  from decode_text_chunk [OF assms(1) this] obtain k where
    dc: "decode_grpc_web_text_chunk b64 carry d =
       (Inr (if take (3 * k) x = [] then None else Some (take (3 * k) x)), drop (4 * k) (carry @ unspaced d))"
    and rest: "drop (4 * k) (carry @ unspaced d) @ unspaced (bytes_of inner) = text_of b64 (drop (3 * k) x)" by blast
  let ?c = "drop (4 * k) (carry @ unspaced d)"
  have "?c \<noteq> [] \<longrightarrow> carry \<noteq> [] \<or> d \<noteq> []" by (cases "carry = [] \<and> d = []") auto
  then have "text_left (reading inner ?c) < m"
    using "3.prems"(3) n by (cases d) (auto simp: text_left_def)
  from "3.IH" [OF _ rest this] "3.prems"(1) obtain ds where
    ds: "run_body (text_decode_step b64) m (reading inner ?c)
      = (map FData ds, BodyDone)" "concat ds = drop (3 * k) x" by auto
  note step = text_decode_data [OF dc, of inner]
  show ?case
  proof (cases "take (3 * k) x = []")
    case True
    with ds have "concat ds = x" by (metis append_self_conv2 append_take_drop_id)
    with True step ds(1) n show ?thesis by auto
  next
    case False
    with ds have "concat (take (3 * k) x # ds) = x" by simp
    with False step ds(1) n show ?thesis by (intro exI [of _ "take (3 * k) x # ds"]) simp
  qed
qed simp_all

text \<open>What a response body carries on the wire of gRPC-Web: its data and its trailers as a frame.\<close>

fun response_events :: "body_event list \<Rightarrow> bool" where
  "response_events [] = True"
| "response_events (EvError _ # inner) = False"
| "response_events (_ # inner) = response_events inner"

fun wire_bytes :: "body_frame \<Rightarrow> string" where
  "wire_bytes (FData data) = data"
| "wire_bytes (FTrailers trailers) = encode_grpc_web_trailers trailers"

fun payload :: "body_event list \<Rightarrow> string" where
  "payload [] = []"
| "payload (EvFrame f # inner) = wire_bytes f @ payload inner"
| "payload (EvError e # inner) = payload inner"
| "payload (EvPending # inner) = payload inner"

lemma encode_text_chunk:
  assumes "base64_ok b64"
  shows "\<exists>k. encode_grpc_web_text_chunk b64 carry data =
       (if k = 0 then None else Some (text_of b64 (take (3 * k) (carry @ data))), drop (3 * k) (carry @ data))
     \<and> text_of b64 (carry @ data @ later) = text_of b64 (take (3 * k) (carry @ data)) @ text_of b64 (drop (3 * k) (carry @ data) @ later)
     \<and> length (drop (3 * k) (carry @ data)) < 3"
proof -
  let ?buf = "carry @ data"
  define k where "k = length ?buf div 3"
  have kk: "length ?buf div 3 * 3 = 3 * k" by (simp add: k_def)
  have len: "length (take (3 * k) ?buf) = 3 * k" by (simp add: k_def)
  then have "b64_encode_no_pad b64 (take (3 * k) ?buf) = text_of b64 (take (3 * k) ?buf)" by (intro no_pad_text [OF assms]) (simp only: dvd_triv_left)
  then have "encode_grpc_web_text_chunk b64 carry data =
       (if k = 0 then None else Some (text_of b64 (take (3 * k) ?buf)), drop (3 * k) ?buf)"
    unfolding encode_grpc_web_text_chunk_def Let_def kk by simp
  moreover have "text_of b64 (take (3 * k) ?buf @ drop (3 * k) ?buf @ later) =
      text_of b64 (take (3 * k) ?buf) @ text_of b64 (drop (3 * k) ?buf @ later)"
    by (rule text_append) (simp only: len dvd_triv_left)
  moreover have "take (3 * k) ?buf @ drop (3 * k) ?buf @ later = carry @ data @ later"
    unfolding append_assoc [symmetric] append_take_drop_id ..
  moreover have "length (drop (3 * k) ?buf) < 3" by (simp only: length_drop k_def)
  ultimately show ?thesis by metis
qed

lemma text_encode_frame:
  "encode_grpc_web_text_chunk b64 carry (wire_bytes f) = (r, c) \<Longrightarrow>
   text_encode_step b64 (reading (EvFrame f # inner) carry) = (map_option (\<lambda>x. PollFrame (FData x)) r, reading inner c)"
  by (cases f) (simp_all add: text_encode_step_def)

lemma run_text_encode:
  assumes "base64_ok b64" and "response_events inner" and "length carry < 3" and "events_size inner + length carry + 2 < n"
  shows "\<exists>ds. run_body (text_encode_step b64) n (reading inner carry) = (map FData ds, BodyDone)
     \<and> concat ds = text_of b64 (carry @ payload inner)"
  using assms(2-4)
proof (induction inner arbitrary: carry n rule: payload.induct)
  case 1
  then obtain k where n: "n = Suc (Suc (Suc k))" by (cases n; cases "n - 1"; cases "n - 2") auto
  show ?case
  proof (cases "carry = []")
    case True
    with n show ?thesis by (auto simp: text_encode_step_def flush_grpc_web_text_chunk_def)
  next
    case False
    with n "1.prems"(2) text_short [of carry b64] show ?thesis
      by (auto simp: text_encode_step_def flush_grpc_web_text_chunk_def intro!: exI [of _ "[b64_encode b64 carry]"])
  qed
next
  case (2 f inner)
  then obtain m where n: "n = Suc m" by (cases n) auto
  from encode_text_chunk [OF assms(1), of carry "wire_bytes f" "payload inner"] obtain k where
    ec: "encode_grpc_web_text_chunk b64 carry (wire_bytes f) =
       (if k = 0 then None else Some (text_of b64 (take (3 * k) (carry @ wire_bytes f))), drop (3 * k) (carry @ wire_bytes f))"
    and tx: "text_of b64 (carry @ wire_bytes f @ payload inner) =
       text_of b64 (take (3 * k) (carry @ wire_bytes f)) @ text_of b64 (drop (3 * k) (carry @ wire_bytes f) @ payload inner)"
    and short: "length (drop (3 * k) (carry @ wire_bytes f)) < 3" by blast
  let ?c = "drop (3 * k) (carry @ wire_bytes f)"
  have "length ?c \<le> 2" using short by simp
  moreover have "1 + length ?c \<le> event_size (EvFrame f) + length carry" using short by (cases f) simp_all
  ultimately have "events_size inner + length ?c + 2 < m" using "2.prems"(3) n by simp
  with "2.IH" [OF _ short] "2.prems"(1) obtain ds where
    ds: "run_body (text_encode_step b64) m (reading inner ?c) = (map FData ds, BodyDone)" "concat ds = text_of b64 (?c @ payload inner)"
    by auto
  note step = text_encode_frame [OF ec, of inner]
  show ?case
  proof (cases "k = 0")
    case True
    with step have "text_encode_step b64 (reading (EvFrame f # inner) carry) = (None, reading inner ?c)" by simp
    then have "run_body (text_encode_step b64) n (reading (EvFrame f # inner) carry) = (map FData ds, BodyDone)"
      using ds(1) n by simp
    moreover have "concat ds = text_of b64 (carry @ payload (EvFrame f # inner))"
      using ds(2) unfolding True by (simp only: payload.simps mult_0_right drop_0 append_assoc)
    ultimately show ?thesis by blast
  next
    case False
    let ?t = "text_of b64 (take (3 * k) (carry @ wire_bytes f))"
    from False step have "text_encode_step b64 (reading (EvFrame f # inner) carry) = (Some (PollFrame (FData ?t)), reading inner ?c)" by simp
    then have "run_body (text_encode_step b64) n (reading (EvFrame f # inner) carry) = (map FData (?t # ds), BodyDone)"
      using ds(1) n by simp
    moreover have "concat (?t # ds) = text_of b64 (carry @ payload (EvFrame f # inner))" using ds(2) tx by (simp only: concat.simps payload.simps)
    ultimately show ?thesis by blast
  qed
next
  case (3 e inner)
  then show ?case by simp
next
  case (4 inner)
  then obtain m where n: "n = Suc m" by (cases n) auto
  have "text_encode_step b64 (reading (EvPending # inner) carry) = (Some PollPending, reading inner carry)"
    by (simp add: text_encode_step_def)
  with "4.IH" [of carry m] "4.prems" n show ?case by simp
qed

section \<open>The properties\<close>

text \<open>
  C35. A gRPC-Web text request reaches the upstream as the messages the client framed:
  however the base64 text is cut into chunks, padded with white space and delayed,
  decoding it and splitting it into frames delivers exactly the messages, one frame
  each, and the trailers that the client put in the last frame.
\<close>

theorem grpc_web_request_is_reassembled:
  assumes "base64_ok b64" and "list_all grpc_message msgs" and "\<forall>t. trailers = Some t \<longrightarrow> printable_trailers header_name t"
    and "data_events inner" and "unspaced (bytes_of inner) = text_of b64 (concat msgs @ trailer_bytes trailers)"
  shows "\<exists>ds. (\<forall>n > text_left (grpc_web_text_new inner). run_body (text_decode_step b64) n (grpc_web_text_new inner) = (map FData ds, BodyDone))
     \<and> (\<forall>n > request_left (grpc_web_request_new (map (\<lambda>d. EvFrame (FData d)) ds)).
          run_body (request_step header_name) n (grpc_web_request_new (map (\<lambda>d. EvFrame (FData d)) ds)) =
            (map FData msgs @ trailer_frames trailers, BodyDone))"
proof -
  let ?bytes = "concat msgs @ trailer_bytes trailers" and ?left = "text_left (reading inner [])"
  have t: "[] @ unspaced (bytes_of inner) = text_of b64 ?bytes" using assms(5) by simp
  obtain ds where ds: "run_body (text_decode_step b64) (Suc ?left) (reading inner []) = (map FData ds, BodyDone)" "concat ds = ?bytes"
    using run_text_decode [OF assms(1,4) t, of "Suc ?left"] by blast
  have "run_body (text_decode_step b64) n (reading inner []) = (map FData ds, BodyDone)" if "?left < n" for n
    using text_decode.run_fuel [of "reading inner []" "Suc ?left" b64] that ds(1) by auto
  moreover have "data_events (map (\<lambda>d. EvFrame (FData d)) ds)" "bytes_of (map (\<lambda>d. EvFrame (FData d)) ds) = concat ds"
    by (induction ds) simp_all
  ultimately show ?thesis
    using run_request [OF assms(2,3), of "map (\<lambda>d. EvFrame (FData d)) ds" "[]"] ds(2)
    by (intro exI [of _ ds]) (simp add: grpc_web_text_new_def grpc_web_request_new_def request_left_def)
qed

text \<open>
  A response translated to gRPC-Web text decodes to what the upstream sent: the
  encoded chunks, joined or cut anew in any way, are the text of the upstream's data
  followed by its trailers as a frame.
\<close>

theorem grpc_web_text_response_round_trip:
  assumes "base64_ok b64" and "response_events evs"
  shows "\<exists>ds. (\<forall>n > text_left (grpc_web_text_new evs). run_body (text_encode_step b64) n (grpc_web_text_new evs) = (map FData ds, BodyDone))
     \<and> (\<forall>inner n. data_events inner \<and> unspaced (bytes_of inner) = concat ds \<and> text_left (grpc_web_text_new inner) < n \<longrightarrow>
          (\<exists>es. run_body (text_decode_step b64) n (grpc_web_text_new inner) = (map FData es, BodyDone) \<and> concat es = payload evs))"
proof -
  let ?left = "text_left (reading evs [])"
  obtain ds where ds: "run_body (text_encode_step b64) (events_size evs + 3) (reading evs []) = (map FData ds, BodyDone)"
    "concat ds = text_of b64 (payload evs)"
    using run_text_encode [OF assms, of "[]" "events_size evs + 3"] by auto
  have "run_body (text_encode_step b64) n (reading evs []) = (map FData ds, BodyDone)" if "?left < n" for n
    using text_encode.run_fuel [of "reading evs []" "events_size evs + 3" b64] that ds(1) by (auto simp: text_left_def)
  moreover have "\<exists>es. run_body (text_decode_step b64) n (reading inner []) = (map FData es, BodyDone) \<and> concat es = payload evs"
    if "data_events inner" "unspaced (bytes_of inner) = concat ds" "text_left (reading inner []) < n" for inner n
    using run_text_decode [OF assms(1) that(1), of "[]"] that ds(2) by simp
  ultimately show ?thesis by (auto simp: grpc_web_text_new_def)
qed

section \<open>An instance of base64\<close>

definition b64_alphabet :: string where
  "b64_alphabet = ''ABCDEFGHIJKLMNOPQRSTUVWXYZabcdefghijklmnopqrstuvwxyz0123456789+/''"

definition b64_char :: "nat \<Rightarrow> char" where
  "b64_char n = b64_alphabet ! n"

definition b64_val :: "char \<Rightarrow> nat option" where
  "b64_val c = find (\<lambda>i. b64_char i = c) [0..<64]"

fun rfc_encode :: "string \<Rightarrow> string" where
  "rfc_encode (a # b # c # rest) =
     (let n = of_char a * 65536 + of_char b * 256 + of_char c
      in map b64_char [n div 262144, n div 4096 mod 64, n div 64 mod 64, n mod 64] @ rfc_encode rest)"
| "rfc_encode [a, b] = (let n = of_char a * 1024 + of_char b * 4 in map b64_char [n div 4096, n div 64 mod 64, n mod 64])"
| "rfc_encode [a] = (let n = of_char a * 16 in map b64_char [n div 64, n mod 64])"
| "rfc_encode [] = []"

definition rfc_pad :: "string \<Rightarrow> string" where
  "rfc_pad s = s @ replicate (if length s mod 4 = 0 then 0 else 4 - length s mod 4) (CHR ''='')"

definition rfc_decode :: "string \<Rightarrow> string option" where
  "rfc_decode s =
     (case map b64_val (filter (\<lambda>c. c \<noteq> CHR ''='') s) of
        [Some w, Some x, Some y, Some z] \<Rightarrow>
          let n = w * 262144 + x * 4096 + y * 64 + z in Some (map char_of [n div 65536, n div 256 mod 256, n mod 256])
      | [Some w, Some x, Some y] \<Rightarrow> let n = w * 1024 + x * 16 + y div 4 in Some (map char_of [n div 256 :: nat, n mod 256])
      | [Some w, Some x] \<Rightarrow> Some [char_of (w * 4 + x div 16 :: nat)]
      | _ \<Rightarrow> None)"

definition rfc_base64 :: base64 where
  "rfc_base64 = \<lparr> b64_decode = rfc_decode, b64_encode = (\<lambda>s. rfc_pad (rfc_encode s)), b64_encode_no_pad = rfc_encode \<rparr>"

lemma b64_val_char_all: "list_all (\<lambda>i. b64_val (b64_char i) = Some i \<and> b64_char i \<noteq> CHR ''='' \<and> \<not> ascii_whitespace (b64_char i)) [0..<64]"
  by code_simp

lemma b64_val_char:
  assumes "i < 64"
  shows "b64_val (b64_char i) = Some i" "b64_char i \<noteq> CHR ''=''" "\<not> ascii_whitespace (b64_char i)"
  using b64_val_char_all assms by (auto simp: list_all_iff)

lemma byte_bound: "(of_char c :: nat) < 256"
  by (rule nat_of_char_less_256)

lemma sextets3:
  fixes n :: nat
  shows "n div 4096 * 4096 + n div 64 mod 64 * 64 + n mod 64 = n"
proof -
  have "n div 64 * 64 + n mod 64 = n" by simp
  moreover have "n div 4096 * 64 + n div 64 mod 64 = n div 64"
    using div_mult_mod_eq [of "n div 64" 64] by (simp add: div_mult2_eq [symmetric])
  ultimately show ?thesis by linarith
qed

lemma sextets:
  fixes n :: nat
  shows "n div 262144 * 262144 + n div 4096 mod 64 * 4096 + n div 64 mod 64 * 64 + n mod 64 = n"
proof -
  have "n div 262144 * 64 + n div 4096 mod 64 = n div 4096"
    using div_mult_mod_eq [of "n div 4096" 64] by (simp add: div_mult2_eq [symmetric])
  with sextets3 [of n] show ?thesis by linarith
qed

lemma octets:
  fixes a b c :: nat
  assumes "a < 256" and "b < 256" and "c < 256"
  shows "(a * 65536 + b * 256 + c) div 65536 = a" "(a * 65536 + b * 256 + c) div 256 mod 256 = b" "(a * 65536 + b * 256 + c) mod 256 = c"
proof -
  have "(a * 65536 + b * 256 + c) div 256 = a * 256 + b" using assms(3) by simp
  moreover have "(a * 65536 + b * 256 + c) div 65536 = (a * 65536 + b * 256 + c) div 256 div 256" by (simp add: div_mult2_eq [symmetric])
  ultimately show "(a * 65536 + b * 256 + c) div 65536 = a" "(a * 65536 + b * 256 + c) div 256 mod 256 = b"
    using assms(2) by simp_all
  have "a * 65536 + b * 256 + c = c + (a * 256 + b) * 256" by simp
  then show "(a * 65536 + b * 256 + c) mod 256 = c" using assms(3) by (simp only: mod_mult_self1 mod_less)
qed

lemma rfc_four:
  assumes "w < 64" and "x < 64" and "y < 64" and "z < 64" and "w * 262144 + x * 4096 + y * 64 + z = n"
  shows "rfc_pad (map b64_char [w, x, y, z]) = map b64_char [w, x, y, z]"
    and "rfc_decode (map b64_char [w, x, y, z]) = Some [char_of (n div 65536), char_of (n div 256 mod 256), char_of (n mod 256)]"
    and "list_all (\<lambda>c. \<not> ascii_whitespace c) (map b64_char [w, x, y, z])"
  using assms by (simp_all add: rfc_pad_def rfc_decode_def b64_val_char Let_def)

lemma rfc_quantum:
  assumes "q \<noteq> []" and "length q \<le> 3"
  shows "length (rfc_pad (rfc_encode q)) = 4 \<and> rfc_decode (rfc_pad (rfc_encode q)) = Some q
     \<and> list_all (\<lambda>c. \<not> ascii_whitespace c) (rfc_pad (rfc_encode q))"
proof -
  have pad: "\<not> ascii_whitespace (CHR ''='')" by (simp add: ascii_whitespace_def)
  consider a where "q = [a]" | a b where "q = [a, b]" | a b c where "q = [a, b, c]"
    using assms by (cases "((), q)" rule: prod.exhaust; cases q rule: rfc_encode.cases) auto
  then show ?thesis
  proof cases
    case (1 a)
    let ?n = "of_char a * 16 :: nat"
    have "?n div 64 < 64" using byte_bound [of a] by (intro less_mult_imp_div_less) simp
    then have l: "?n div 64 < 64" "?n mod 64 < 64" by (simp_all only: mod_less_divisor zero_less_numeral)
    have "?n div 64 * 4 + ?n mod 64 div 16 = of_char a" by presburger
    with l show ?thesis by (simp add: 1 rfc_pad_def rfc_decode_def b64_val_char pad Let_def numeral_2_eq_2)
  next
    case (2 a b)
    let ?n = "of_char a * 1024 + of_char b * 4 :: nat"
    have "?n < 64 * 4096" using byte_bound [of a] byte_bound [of b] by linarith
    then have "?n div 4096 < 64" by (rule less_mult_imp_div_less)
    then have l: "?n div 4096 < 64" "?n div 64 mod 64 < 64" "?n mod 64 < 64" by (simp_all only: mod_less_divisor zero_less_numeral)
    have "?n div 4096 * 4096 + ?n div 64 mod 64 * 64 + ?n mod 64 = ?n" by (rule sextets3)
    moreover have "?n mod 64 div 4 * 4 = ?n mod 64" by (intro dvd_div_mult_self dvd_mod) (simp_all add: dvd_add)
    ultimately have e: "?n div 4096 * 1024 + ?n div 64 mod 64 * 16 + ?n mod 64 div 4 = of_char a * 256 + of_char b" by linarith
    have "(of_char a * 256 + of_char b :: nat) div 256 = of_char a" and m: "(of_char a * 256 + of_char b :: nat) mod 256 = of_char b"
      using byte_bound [of b] by auto
    moreover have "char_of (of_char a * 256 + of_char b :: nat) = b"
      using char_of_mod_256 [of "of_char a * 256 + of_char b :: nat"] by (simp only: m char_of_char)
    ultimately show ?thesis using l e by (simp add: 2 rfc_pad_def rfc_decode_def b64_val_char pad Let_def)
  next
    case (3 a b c)
    let ?n = "of_char a * 65536 + of_char b * 256 + of_char c :: nat"
    have "?n < 64 * 262144" using byte_bound [of a] byte_bound [of b] byte_bound [of c] by linarith
    then have "?n div 262144 < 64" by (rule less_mult_imp_div_less)
    then have l: "?n div 262144 < 64" "?n div 4096 mod 64 < 64" "?n div 64 mod 64 < 64" "?n mod 64 < 64"
      by (simp_all only: mod_less_divisor zero_less_numeral)
    have q: "rfc_encode q = map b64_char [?n div 262144, ?n div 4096 mod 64, ?n div 64 mod 64, ?n mod 64]"
      unfolding 3 rfc_encode.simps Let_def by simp
    note four = rfc_four [OF l sextets]
    have "[char_of (?n div 65536), char_of (?n div 256 mod 256), char_of (?n mod 256)] = q"
      by (simp only: octets [OF byte_bound [of a] byte_bound [of b] byte_bound [of c]] char_of_char 3)
    with four show ?thesis unfolding q by (simp only: length_map list.size) simp
  qed
qed

lemma rfc_base64_ok: "base64_ok rfc_base64"
proof -
  have pad0: "rfc_pad (rfc_encode x) = rfc_encode x" if "length x = 3" for x
    using that by (cases x rule: rfc_encode.cases) (auto simp: rfc_pad_def Let_def)
  have "rfc_encode (x @ y) = rfc_encode x @ rfc_encode y" if "length x = 3" for x y
    using that by (cases x rule: rfc_encode.cases) (auto simp: Let_def)
  with pad0 rfc_quantum show ?thesis by (simp add: base64_ok_def rfc_base64_def)
qed

definition sample_message :: string where
  "sample_message = grpc_frame 0 ''hi''"

definition sample_trailers :: header_map where
  "sample_trailers = [(''grpc-status'', ''0'')]"

lemma sample_message_ok: "grpc_message sample_message"
  unfolding sample_message_def by (rule grpc_frame_message) simp_all

lemma sample_trailers_ok: "printable_trailers Some sample_trailers"
  by (simp add: printable_trailers_def sample_trailers_def encode_grpc_web_trailers_def hm_iter_def hm_keys_def hm_get_all_def
      str_trim_def is_ws_def utf8_valid.simps(2) byte_in_def header_value_of_def header_value_byte_def Let_def)

theorem grpc_web_request_is_reassembled_witness:
  "\<exists>ds. run_body (request_step Some) (Suc (request_left (grpc_web_request_new (map (\<lambda>d. EvFrame (FData d)) ds))))
       (grpc_web_request_new (map (\<lambda>d. EvFrame (FData d)) ds)) = ([FData sample_message, FTrailers sample_trailers], BodyDone)"
proof -
  let ?text = "text_of rfc_base64 (concat [sample_message] @ trailer_bytes (Some sample_trailers))"
  let ?inner = "[EvFrame (FData (take 3 ?text)), EvPending, EvFrame (FData ('' '' @ drop 3 ?text))]"
  have "filter (\<lambda>c. \<not> ascii_whitespace c) ?text = ?text"
    using text_no_space [OF rfc_base64_ok] by (simp add: list_all_iff)
  moreover have "unspaced (bytes_of ?inner) = unspaced (take 3 ?text) @ unspaced (drop 3 ?text)" by (simp add: ascii_whitespace_def)
  ultimately have "unspaced (bytes_of ?inner) = ?text" by (metis append_take_drop_id filter_append)
  moreover have "data_events ?inner" by simp
  moreover have "list_all grpc_message [sample_message]" using sample_message_ok by simp
  moreover have "\<forall>t. Some sample_trailers = Some t \<longrightarrow> printable_trailers Some t" using sample_trailers_ok by simp
  ultimately obtain ds where "\<forall>n > request_left (grpc_web_request_new (map (\<lambda>d. EvFrame (FData d)) ds)).
      run_body (request_step Some) n (grpc_web_request_new (map (\<lambda>d. EvFrame (FData d)) ds)) =
        (map FData [sample_message] @ trailer_frames (Some sample_trailers), BodyDone)"
    using grpc_web_request_is_reassembled [OF rfc_base64_ok, of "[sample_message]" "Some sample_trailers" Some ?inner] by blast
  moreover have "map FData [sample_message] @ trailer_frames (Some sample_trailers) = [FData sample_message, FTrailers sample_trailers]"
    by (simp add: hm_iter_def hm_keys_def sample_trailers_def hm_get_all_def)
  ultimately show ?thesis by (metis lessI)
qed

theorem grpc_web_text_response_round_trip_witness:
  "\<exists>ds. run_body (text_encode_step rfc_base64) 99 (grpc_web_text_new [EvFrame (FData ''hello''), EvPending, EvFrame (FTrailers sample_trailers)]) =
       (map FData ds, BodyDone)
     \<and> (\<exists>es. run_body (text_decode_step rfc_base64) (Suc (text_left (grpc_web_text_new [EvFrame (FData (concat ds))])))
          (grpc_web_text_new [EvFrame (FData (concat ds))]) = (map FData es, BodyDone)
        \<and> concat es = ''hello'' @ encode_grpc_web_trailers sample_trailers)"
proof -
  let ?evs = "[EvFrame (FData ''hello''), EvPending, EvFrame (FTrailers sample_trailers)]"
  from grpc_web_text_response_round_trip [OF rfc_base64_ok, of ?evs] obtain ds where
    ds: "\<forall>n > text_left (grpc_web_text_new ?evs). run_body (text_encode_step rfc_base64) n (grpc_web_text_new ?evs) = (map FData ds, BodyDone)"
    and es: "\<forall>inner n. data_events inner \<and> unspaced (bytes_of inner) = concat ds \<and> text_left (grpc_web_text_new inner) < n \<longrightarrow>
          (\<exists>es. run_body (text_decode_step rfc_base64) n (grpc_web_text_new inner) = (map FData es, BodyDone) \<and> concat es = payload ?evs)"
    by auto
  have "text_left (grpc_web_text_new ?evs) < 99" by (simp add: text_left_def grpc_web_text_new_def)
  with ds have run: "run_body (text_encode_step rfc_base64) 99 (grpc_web_text_new ?evs) = (map FData ds, BodyDone)" by blast
  have "run_body (text_encode_step rfc_base64) (events_size ?evs + 3) (reading ?evs []) = (map FData ds, BodyDone)"
    using ds by (simp add: text_left_def grpc_web_text_new_def)
  with run_text_encode [OF rfc_base64_ok, of ?evs "[]" "events_size ?evs + 3"] have "concat ds = text_of rfc_base64 (payload ?evs)"
    by (auto simp: inj_on_def inj_map_eq_map)
  then have "list_all (\<lambda>c. \<not> ascii_whitespace c) (concat ds)" using text_no_space [OF rfc_base64_ok] by metis
  then have "unspaced (bytes_of [EvFrame (FData (concat ds))]) = concat ds" by (simp add: list_all_iff)
  then obtain es where "run_body (text_decode_step rfc_base64) (Suc (text_left (grpc_web_text_new [EvFrame (FData (concat ds))])))
      (grpc_web_text_new [EvFrame (FData (concat ds))]) = (map FData es, BodyDone)" "concat es = payload ?evs"
    using es [rule_format, OF conjI [OF _ conjI [OF _ lessI]], of "[EvFrame (FData (concat ds))]"] by auto
  moreover have "payload ?evs = ''hello'' @ encode_grpc_web_trailers sample_trailers" by simp
  ultimately show ?thesis using run by metis
qed

end
