(* ===== verification/Proxy_Headers.thy ===== *)
theory Proxy_Headers
  imports Request_Target Client_Ip Resolver Grpc_Web
begin

text \<open>
  What the proxy sends upstream instead of what the client sent
  (\<open>proxy/common.rs\<close>, \<open>rginx-core/src/config/route/proxy_header.rs\<close>): the URI
  with the stripped prefix, the headers without the hop-by-hop ones and with
  the forwarding headers of the proxy, and the configured header overrides with
  their templates.  The URI builder and the header-name parser of the crate
  \<open>http\<close> are arguments.
\<close>

section \<open>Header templates\<close>

datatype proxy_header_template_error =
    PhUnclosedVariable string
  | PhUnescapedClose string
  | PhEmptyVariable string
  | PhUnknownVariable string
  | PhInvalidRequestHeader string

definition parse_proxy_header_variable ::
    "(string \<Rightarrow> string option) \<Rightarrow> string \<Rightarrow> proxy_header_template_error + proxy_header_variable" where
  "parse_proxy_header_variable header_name variable =
     (if variable = ''host'' then Inr VHost
      else if variable = ''scheme'' then Inr VScheme
      else if variable = ''client_ip'' then Inr VClientIp
      else if variable = ''remote_addr'' then Inr VRemoteAddr
      else if variable = ''peer_addr'' then Inr VPeerAddr
      else if variable = ''forwarded_for'' then Inr VForwardedFor
      else case strip_prefix variable ''header:'' of
        None \<Rightarrow> Inl (PhUnknownVariable variable)
      | Some h \<Rightarrow> (case header_name h of
                      None \<Rightarrow> Inl (PhInvalidRequestHeader h)
                    | Some n \<Rightarrow> Inr (VRequestHeader n)))"

definition flush_header_literal ::
    "string \<Rightarrow> proxy_header_template_part list \<Rightarrow> proxy_header_template_part list" where
  "flush_header_literal literal parts = (if literal \<noteq> [] then parts @ [PLiteral literal] else parts)"

text \<open>The loop, on what is left of the template, by bytes as in \<open>Cache_Key\<close>.\<close>

function header_template_loop ::
    "(string \<Rightarrow> string option) \<Rightarrow> string \<Rightarrow> string \<Rightarrow> string \<Rightarrow> proxy_header_template_part list
       \<Rightarrow> proxy_header_template_error + proxy_header_template_part list" where
  "header_template_loop header_name raw remainder literal parts =
     (case remainder of
        [] \<Rightarrow> Inr (flush_header_literal literal parts)
      | ch # after_start \<Rightarrow>
          if str_starts_with remainder ''{{'' then
            header_template_loop header_name raw (drop 2 remainder) (literal @ ''{'') parts
          else if str_starts_with remainder ''}}'' then
            header_template_loop header_name raw (drop 2 remainder) (literal @ ''}'') parts
          else if ch = CHR ''{'' then
            (case split_once (CHR ''}'') after_start of
               None \<Rightarrow> Inl (PhUnclosedVariable raw)
             | Some (body, rest') \<Rightarrow>
                 (let variable = str_trim body
                  in if variable = [] then Inl (PhEmptyVariable raw)
                     else bind_res (parse_proxy_header_variable header_name variable)
                       (\<lambda>v. header_template_loop header_name raw rest' []
                              (flush_header_literal literal parts @ [PVariable v]))))
          else if ch = CHR ''}'' then Inl (PhUnescapedClose raw)
          else header_template_loop header_name raw after_start (literal @ [ch]) parts)"
  by pat_completeness auto
termination
proof (relation "measure (\<lambda>(_, _, remainder, _, _). length remainder)", goal_cases)
  case (4 header_name raw remainder literal parts ch after_start p body rest')
  then show ?case by (auto simp: split_once_Some)
qed auto

declare header_template_loop.simps [simp del]

definition proxy_header_template_parse ::
    "(string \<Rightarrow> string option) \<Rightarrow> string \<Rightarrow> proxy_header_template_error + proxy_header_template" where
  "proxy_header_template_parse header_name raw =
     bind_res (header_template_loop header_name raw raw [] [])
       (\<lambda>parts. Inr \<lparr> pt_raw = raw, pt_parts = parts \<rparr>)"

record proxy_header_render_context =
  hc_original_headers :: header_map
  hc_original_host :: "string option"
  hc_upstream_authority :: string
  hc_client_ip :: ip_addr
  hc_peer_addr :: socket_addr
  hc_forwarded_for :: string
  hc_scheme :: string

definition host_value :: "proxy_header_render_context \<Rightarrow> string" where
  "host_value ctx =
     (case Option.bind (hc_original_host ctx) to_str of Some h \<Rightarrow> h | None \<Rightarrow> hc_upstream_authority ctx)"

fun append_variable :: "proxy_header_render_context \<Rightarrow> string \<Rightarrow> proxy_header_variable \<Rightarrow> string" where
  "append_variable ctx rendered VHost = rendered @ host_value ctx"
| "append_variable ctx rendered VScheme = rendered @ hc_scheme ctx"
| "append_variable ctx rendered VClientIp = rendered @ show_ip (hc_client_ip ctx)"
| "append_variable ctx rendered VRemoteAddr = rendered @ show_ip (hc_client_ip ctx)"
| "append_variable ctx rendered VPeerAddr = rendered @ show_socket_addr (hc_peer_addr ctx)"
| "append_variable ctx rendered VForwardedFor = rendered @ hc_forwarded_for ctx"
| "append_variable ctx rendered (VRequestHeader name) =
     (case hm_get (hc_original_headers ctx) name of Some v \<Rightarrow> rendered @ v | None \<Rightarrow> rendered)"

fun render_header_part :: "proxy_header_render_context \<Rightarrow> string \<Rightarrow> proxy_header_template_part \<Rightarrow> string" where
  "render_header_part ctx rendered (PLiteral value) = rendered @ value"
| "render_header_part ctx rendered (PVariable v) = append_variable ctx rendered v"

text \<open>\<open>InvalidHeaderValue\<close> is the only error of a header value.\<close>

datatype invalid_header_value = InvalidHeaderValue

definition header_value_res :: "string \<Rightarrow> invalid_header_value + string" where
  "header_value_res s = (case header_value_of s of Some v \<Rightarrow> Inr v | None \<Rightarrow> Inl InvalidHeaderValue)"

definition header_template_render ::
    "proxy_header_template \<Rightarrow> proxy_header_render_context \<Rightarrow> invalid_header_value + string" where
  "header_template_render t ctx = header_value_res (foldl (render_header_part ctx) [] (pt_parts t))"

fun proxy_header_render ::
    "proxy_header_render_context \<Rightarrow> proxy_header_value \<Rightarrow> invalid_header_value + string option" where
  "proxy_header_render ctx (PhStatic value) = Inr (Some value)"
| "proxy_header_render ctx PhHost = map_sum id Some (header_value_res (host_value ctx))"
| "proxy_header_render ctx PhScheme = map_sum id Some (header_value_res (hc_scheme ctx))"
| "proxy_header_render ctx PhClientIp = map_sum id Some (header_value_res (show_ip (hc_client_ip ctx)))"
| "proxy_header_render ctx PhRemoteAddr = map_sum id Some (header_value_res (show_ip (hc_client_ip ctx)))"
| "proxy_header_render ctx PhPeerAddr = map_sum id Some (header_value_res (show_socket_addr (hc_peer_addr ctx)))"
| "proxy_header_render ctx PhForwardedFor = map_sum id Some (header_value_res (hc_forwarded_for ctx))"
| "proxy_header_render ctx (PhRequestHeader name) = Inr (hm_get (hc_original_headers ctx) name)"
| "proxy_header_render ctx (PhTemplate template) = map_sum id Some (header_template_render template ctx)"
| "proxy_header_render ctx PhRemove = Inr None"

definition removes_header :: "proxy_header_value \<Rightarrow> bool" where
  "removes_header v \<longleftrightarrow> v = PhRemove"

section \<open>The upstream URI\<close>

text \<open>\<open>uri_build scheme authority path_and_query\<close> is the crate's URI builder.\<close>

definition proxied_path_and_query :: "string \<Rightarrow> string option \<Rightarrow> string option \<Rightarrow> string" where
  "proxied_path_and_query uri_path uri_query strip_prefix_opt =
     (let original_path = nrt_path_and_query (normalize_request_target uri_path uri_query)
      in case strip_prefix_opt of
           None \<Rightarrow> original_path
         | Some p \<Rightarrow>
             (case strip_prefix original_path p of
                None \<Rightarrow> original_path
              | Some stripped \<Rightarrow>
                  if stripped = [] \<or> str_starts_with stripped ''?''
                  then (if stripped = [] then ''/'' else stripped)
                  else if str_starts_with stripped ''/'' then stripped
                  else original_path))"

definition build_proxy_uri ::
    "(string \<Rightarrow> string \<Rightarrow> string \<Rightarrow> 'e + 'uri) \<Rightarrow> resolved_upstream_peer \<Rightarrow> string \<Rightarrow> string option \<Rightarrow> string option \<Rightarrow> 'e + 'uri" where
  "build_proxy_uri uri_build peer uri_path uri_query strip_prefix_opt =
     uri_build (rp_scheme peer) (rp_upstream_authority peer) (proxied_path_and_query uri_path uri_query strip_prefix_opt)"

definition split_content_type :: "string \<Rightarrow> string \<times> string" where
  "split_content_type content_type =
     (case split_once (CHR '';'') content_type of
        Some (mime, params) \<Rightarrow> (str_trim mime, str_trim params)
      | None \<Rightarrow> (str_trim content_type, []))"

section \<open>Hop-by-hop headers\<close>

definition connection_header_contains_token :: "header_map \<Rightarrow> string \<Rightarrow> bool" where
  "connection_header_contains_token headers token =
     list_ex (\<lambda>value. case to_str value of
         None \<Rightarrow> False
       | Some v \<Rightarrow> list_ex (\<lambda>item. eq_ignore_ascii_case (str_trim item) token) (str_split (CHR '','') v))
       (hm_get_all headers ''connection'')"

definition extract_upgrade_protocol :: "header_map \<Rightarrow> string option" where
  "extract_upgrade_protocol headers =
     (if connection_header_contains_token headers ''upgrade'' then hm_get headers ''upgrade'' else None)"

datatype http_version = Http11 | Http10 | Http2 | Http3

definition is_upgrade_request :: "http_version \<Rightarrow> header_map \<Rightarrow> bool" where
  "is_upgrade_request version headers \<longleftrightarrow> version = Http11 \<and> extract_upgrade_protocol headers \<noteq> None"

definition is_upgrade_response :: "status_code \<Rightarrow> header_map \<Rightarrow> bool" where
  "is_upgrade_response status headers \<longleftrightarrow> status = 101 \<and> hm_contains headers ''upgrade''"

fun upstream_request_version :: "upstream_protocol \<Rightarrow> http_version" where
  "upstream_request_version ProtoHttp3 = Http3"
| "upstream_request_version ProtoHttp2 = Http2"
| "upstream_request_version ProtoH2c = Http2"
| "upstream_request_version ProtoAuto = Http11"
| "upstream_request_version ProtoHttp1 = Http11"

text \<open>The two loops of \<open>preserved_te_trailers_value\<close>: \<open>None\<close> is the early return.\<close>

fun te_tokens :: "bool \<Rightarrow> string list \<Rightarrow> bool option" where
  "te_tokens saw [] = Some saw"
| "te_tokens saw (token # tokens) =
     (if str_trim token = [] then te_tokens saw tokens
      else if \<not> eq_ignore_ascii_case (str_trim token) ''trailers'' then None
      else te_tokens True tokens)"

fun te_values :: "bool \<Rightarrow> string list \<Rightarrow> bool option" where
  "te_values saw [] = Some saw"
| "te_values saw (value # values) =
     (case to_str value of None \<Rightarrow> None
      | Some v \<Rightarrow> Option.bind (te_tokens saw (str_split (CHR '','') v)) (\<lambda>saw'. te_values saw' values))"

definition preserved_te_trailers_value :: "header_map \<Rightarrow> string option" where
  "preserved_te_trailers_value headers =
     (case te_values False (hm_get_all headers ''te'') of Some True \<Rightarrow> Some ''trailers'' | _ \<Rightarrow> None)"

definition connection_nominated :: "(string \<Rightarrow> string option) \<Rightarrow> header_map \<Rightarrow> string list" where
  "connection_nominated header_name headers =
     concat (map (\<lambda>value. case to_str value of
         None \<Rightarrow> []
       | Some v \<Rightarrow> List.map_filter (\<lambda>item. if str_trim item = [] then None else header_name (str_trim item)) (str_split (CHR '','') v))
       (hm_get_all headers ''connection''))"

definition proxy_hop_by_hop_names :: "string list" where
  "proxy_hop_by_hop_names =
     [''connection'', ''proxy-authenticate'', ''proxy-authorization'', ''te'', ''trailer'', ''transfer-encoding'', ''upgrade'']"

definition remove_hop_by_hop_headers :: "(string \<Rightarrow> string option) \<Rightarrow> header_map \<Rightarrow> bool \<Rightarrow> header_map" where
  "remove_hop_by_hop_headers header_name headers preserve_upgrade =
     (let h1 = foldl (\<lambda>h name. if preserve_upgrade \<and> name = ''upgrade'' then h else hm_remove h name)
                 headers (connection_nominated header_name headers);
          h2 = foldl (\<lambda>h name. if preserve_upgrade \<and> (name = ''connection'' \<or> name = ''upgrade'') then h else hm_remove h name)
                 h1 proxy_hop_by_hop_names
      in hm_remove (hm_remove h2 ''keep-alive'') ''proxy-connection'')"

definition sanitize_response_headers :: "(string \<Rightarrow> string option) \<Rightarrow> header_map \<Rightarrow> bool \<Rightarrow> header_map" where
  "sanitize_response_headers header_name headers preserve_upgrade =
     (let upgrade_protocol = (if preserve_upgrade then hm_get headers ''upgrade'' else None);
          h = remove_hop_by_hop_headers header_name headers preserve_upgrade
      in case upgrade_protocol of
           Some p \<Rightarrow> hm_insert (hm_insert h ''connection'' ''upgrade'') ''upgrade'' p
         | None \<Rightarrow> h)"

section \<open>The request headers\<close>

datatype grpc_web_encoding = GwBinary | GwText

record grpc_web_mode =
  gw_downstream_content_type :: string
  gw_upstream_content_type :: string
  gw_encoding :: grpc_web_encoding

definition is_text :: "grpc_web_mode \<Rightarrow> bool" where
  "is_text mode \<longleftrightarrow> gw_encoding mode = GwText"

datatype proxy_header_override = OverrideSet string string | OverrideRemove string

fun render_overrides ::
    "proxy_header_render_context \<Rightarrow> (string \<times> proxy_header_value) list \<Rightarrow> invalid_header_value + proxy_header_override list" where
  "render_overrides ctx [] = Inr []"
| "render_overrides ctx ((name, value) # rest) =
     (if removes_header value
      then bind_res (render_overrides ctx rest) (\<lambda>os. Inr (OverrideRemove name # os))
      else bind_res (proxy_header_render ctx value)
             (\<lambda>r. bind_res (render_overrides ctx rest)
                (\<lambda>os. Inr (case r of Some v \<Rightarrow> OverrideSet name v # os | None \<Rightarrow> os))))"

definition render_proxy_header_overrides ::
    "header_map \<Rightarrow> string \<Rightarrow> string option \<Rightarrow> client_address \<Rightarrow> string \<Rightarrow> (string \<times> proxy_header_value) list
       \<Rightarrow> invalid_header_value + proxy_header_override list" where
  "render_proxy_header_overrides original_headers authority original_host client_address forwarded_proto proxy_set_headers =
     (if proxy_set_headers = [] then Inr []
      else render_overrides
        \<lparr> hc_original_headers = original_headers, hc_original_host = original_host, hc_upstream_authority = authority,
          hc_client_ip = ca_client_ip client_address, hc_peer_addr = ca_peer_addr client_address,
          hc_forwarded_for = ca_forwarded_for client_address, hc_scheme = forwarded_proto \<rparr> proxy_set_headers)"

fun apply_override :: "header_map \<Rightarrow> proxy_header_override \<Rightarrow> header_map" where
  "apply_override headers (OverrideSet name value) = hm_insert headers name value"
| "apply_override headers (OverrideRemove name) = hm_remove headers name"

definition set_te_header :: "grpc_web_mode option \<Rightarrow> string option \<Rightarrow> header_map \<Rightarrow> header_map" where
  "set_te_header grpc_web te_trailers headers =
     (case grpc_web of
        Some mode \<Rightarrow>
          (let h = hm_remove (hm_remove (hm_insert headers ''content-type'' (gw_upstream_content_type mode)) ''content-length'') ''x-grpc-web''
           in if hm_get h ''te'' = None then hm_insert h ''te'' ''trailers'' else h)
      | None \<Rightarrow>
          (case te_trailers of
             Some te \<Rightarrow> if hm_get headers ''te'' = None then hm_insert headers ''te'' te else headers
           | None \<Rightarrow> headers))"

definition sanitize_request_headers ::
    "(string \<Rightarrow> string option) \<Rightarrow> header_map \<Rightarrow> string \<Rightarrow> string option \<Rightarrow> client_address \<Rightarrow> string \<Rightarrow> bool \<Rightarrow>
     (string \<times> proxy_header_value) list \<Rightarrow> grpc_web_mode option \<Rightarrow> invalid_header_value + header_map" where
  "sanitize_request_headers header_name headers authority original_host client_address forwarded_proto preserve_host
       proxy_set_headers grpc_web =
     bind_res (render_proxy_header_overrides headers authority original_host client_address forwarded_proto proxy_set_headers)
       (\<lambda>overrides.
          let upgrade_protocol = extract_upgrade_protocol headers;
              te_trailers = preserved_te_trailers_value headers;
              h0 = remove_hop_by_hop_headers header_name headers (upgrade_protocol \<noteq> None)
          in bind_res (case (preserve_host, original_host) of
                         (True, Some host) \<Rightarrow> Inr host
                       | _ \<Rightarrow> header_value_res authority)
           (\<lambda>host. bind_res (header_value_res forwarded_proto)
           (\<lambda>proto. bind_res (header_value_res (ca_forwarded_for client_address))
           (\<lambda>forwarded_for.
              let h1 = hm_insert h0 ''host'' host;
                  h2 = hm_insert h1 ''x-forwarded-proto'' proto;
                  h3 = (case original_host of Some oh \<Rightarrow> hm_insert h2 ''x-forwarded-host'' oh | None \<Rightarrow> h2);
                  h4 = hm_insert h3 ''x-forwarded-for'' forwarded_for;
                  h5 = set_te_header grpc_web te_trailers h4;
                  h6 = (case upgrade_protocol of
                          Some p \<Rightarrow> hm_insert (hm_insert h5 ''connection'' ''upgrade'') ''upgrade'' p
                        | None \<Rightarrow> h5)
              in Inr (foldl apply_override h6 overrides)))))"

definition may_use_authority_pseudo_header :: "resolved_upstream_peer \<Rightarrow> upstream_protocol \<Rightarrow> bool" where
  "may_use_authority_pseudo_header peer protocol \<longleftrightarrow>
     protocol = ProtoHttp2 \<or> protocol = ProtoH2c \<or> protocol = ProtoHttp3
     \<or> (protocol = ProtoAuto \<and> rp_scheme peer = ''https'')"

definition remove_redundant_host_header_for_authority_pseudo_header ::
    "header_map \<Rightarrow> resolved_upstream_peer \<Rightarrow> upstream_protocol \<Rightarrow> header_map" where
  "remove_redundant_host_header_for_authority_pseudo_header headers peer protocol =
     (if \<not> may_use_authority_pseudo_header peer protocol then headers
      else case hm_get headers ''host'' of
        None \<Rightarrow> headers
      | Some host \<Rightarrow>
          if eq_ignore_ascii_case host (rp_upstream_authority peer) then hm_remove headers ''host'' else headers)"

section \<open>Lemmas on the headers\<close>

definition hop_by_hop :: "string \<Rightarrow> bool" where
  "hop_by_hop name \<longleftrightarrow> name \<in> set proxy_hop_by_hop_names \<or> name = ''keep-alive'' \<or> name = ''proxy-connection''"

lemma get_all_remove_list:
  "hm_get_all (foldl (\<lambda>h m. if keep m then h else hm_remove h m) h ns) n =
     (if n \<in> set ns \<and> \<not> keep n then [] else hm_get_all h n)"
  by (induction ns arbitrary: h) (auto simp: hm_simps)

lemma get_all_remove_hop_by_hop:
  "hm_get_all (remove_hop_by_hop_headers header_name h keep) n =
     (if keep \<and> n = ''upgrade'' \<or> keep \<and> n = ''connection'' \<and> n \<notin> set (connection_nominated header_name h) then hm_get_all h n
      else if hop_by_hop n \<or> n \<in> set (connection_nominated header_name h) then [] else hm_get_all h n)"
proof -
  have c: "''upgrade'' \<in> set proxy_hop_by_hop_names" "''connection'' \<in> set proxy_hop_by_hop_names" by (simp_all add: proxy_hop_by_hop_names_def)
  have e: "hm_get_all (remove_hop_by_hop_headers header_name h keep) n =
     (if n = ''proxy-connection'' \<or> n = ''keep-alive''
         \<or> n \<in> set proxy_hop_by_hop_names \<and> \<not> (keep \<and> (n = ''connection'' \<or> n = ''upgrade''))
         \<or> n \<in> set (connection_nominated header_name h) \<and> \<not> (keep \<and> n = ''upgrade'') then [] else hm_get_all h n)"
    unfolding remove_hop_by_hop_headers_def Let_def hm.get_all_remove
      get_all_remove_list [where keep = "\<lambda>m. keep \<and> m = ''upgrade''"]
      get_all_remove_list [where keep = "\<lambda>m. keep \<and> (m = ''connection'' \<or> m = ''upgrade'')"]
    by (simp only: if_bool_eq_conj [where P = "_ = _"] if_P if_not_P split: if_split) blast
  consider "n = ''upgrade''" | "n = ''connection''" | "n \<noteq> ''upgrade''" "n \<noteq> ''connection''" by blast
  then show ?thesis unfolding e using c by cases (simp_all add: hop_by_hop_def)
qed

text \<open>An override only changes the header it names.\<close>

fun override_name :: "proxy_header_override \<Rightarrow> string" where
  "override_name (OverrideSet n _) = n"
| "override_name (OverrideRemove n) = n"

lemma render_overrides_names:
  "render_overrides ctx psh = Inr os \<Longrightarrow> o' \<in> set os \<Longrightarrow> override_name o' \<in> fst ` set psh"
  by (induction ctx psh arbitrary: os rule: render_overrides.induct)
     (fastforce simp: bind_res_Inr split: if_splits option.splits)+

lemma foldl_override_other:
  "\<forall>o' \<in> set os. override_name o' \<noteq> n \<Longrightarrow> hm_get_all (foldl apply_override h os) n = hm_get_all h n"
proof (induction os arbitrary: h)
  case (Cons o' os)
  then show ?case by (cases o') (auto simp: hm_simps)
qed simp

lemma header_value_res_Inr [simp]: "header_value_res s = Inr v \<longleftrightarrow> v = s \<and> list_all header_value_byte s"
  by (auto simp: header_value_res_def header_value_of_def)

text \<open>
  The values a header has upstream, for a header without override: the proxy's
  own values for the host and the forwarding headers, the upgrade of the
  connection, \<open>TE: trailers\<close>, the content type of a gRPC-Web request, nothing
  for every other hop-by-hop or nominated header, and the client's values
  otherwise.
\<close>

definition upstream_values ::
    "(string \<Rightarrow> string option) \<Rightarrow> header_map \<Rightarrow> string \<Rightarrow> string option \<Rightarrow> client_address \<Rightarrow> string \<Rightarrow> bool \<Rightarrow>
     grpc_web_mode option \<Rightarrow> string \<Rightarrow> string list" where
  "upstream_values header_name headers authority original_host client_address forwarded_proto preserve_host grpc_web name =
     (if name = ''host'' then [if preserve_host then (case original_host of Some h \<Rightarrow> h | None \<Rightarrow> authority) else authority]
      else if name = ''x-forwarded-proto'' then [forwarded_proto]
      else if name = ''x-forwarded-for'' then [ca_forwarded_for client_address]
      else if name = ''x-forwarded-host'' \<and> original_host \<noteq> None then [the original_host]
      else if name = ''connection'' then (if extract_upgrade_protocol headers = None then [] else [''upgrade''])
      else if name = ''upgrade'' then (case extract_upgrade_protocol headers of None \<Rightarrow> [] | Some p \<Rightarrow> [p])
      else if name = ''te'' then (if grpc_web \<noteq> None \<or> preserved_te_trailers_value headers \<noteq> None then [''trailers''] else [])
      else if name = ''content-type'' \<and> grpc_web \<noteq> None then [gw_upstream_content_type (the grpc_web)]
      else if (name = ''content-length'' \<or> name = ''x-grpc-web'') \<and> grpc_web \<noteq> None then []
      else if hop_by_hop name \<or> name \<in> set (connection_nominated header_name headers) then []
      else hm_get_all headers name)"

lemma preserved_te_value: "preserved_te_trailers_value h = Some te \<Longrightarrow> te = ''trailers''"
  by (auto simp: preserved_te_trailers_value_def split: option.splits bool.splits)

lemma set_te_header_get_all:
  assumes "hm_get_all h ''te'' = []" and "\<forall>t. te = Some t \<longrightarrow> t = ''trailers''"
  shows "hm_get_all (set_te_header grpc_web te h) n =
     (if n = ''te'' then (if grpc_web \<noteq> None \<or> te \<noteq> None then [''trailers''] else [])
      else if n = ''content-type'' \<and> grpc_web \<noteq> None then [gw_upstream_content_type (the grpc_web)]
      else if (n = ''content-length'' \<or> n = ''x-grpc-web'') \<and> grpc_web \<noteq> None then []
      else hm_get_all h n)"
  using assms by (auto simp: set_te_header_def hm_get_def hm_simps Let_def split: option.splits)

section \<open>What reaches the upstream\<close>

text \<open>The headers before the overrides.\<close>

lemma sanitized_get_all:
  assumes "sanitize_request_headers header_name headers authority original_host client_address forwarded_proto preserve_host
       proxy_set_headers grpc_web = Inr out" and "name \<notin> fst ` set proxy_set_headers"
  shows "hm_get_all out name =
     upstream_values header_name headers authority original_host client_address forwarded_proto preserve_host grpc_web name"
proof -
  let ?up = "extract_upgrade_protocol headers" and ?te = "preserved_te_trailers_value headers"
  let ?h0 = "remove_hop_by_hop_headers header_name headers (?up \<noteq> None)"
  let ?host = "if preserve_host then (case original_host of Some h \<Rightarrow> h | None \<Rightarrow> authority) else authority"
  let ?h2 = "hm_insert (hm_insert ?h0 ''host'' ?host) ''x-forwarded-proto'' forwarded_proto"
  let ?h3 = "case original_host of Some oh \<Rightarrow> hm_insert ?h2 ''x-forwarded-host'' oh | None \<Rightarrow> ?h2"
  let ?h4 = "hm_insert ?h3 ''x-forwarded-for'' (ca_forwarded_for client_address)"
  let ?h5 = "set_te_header grpc_web ?te ?h4"
  let ?h6 = "case ?up of Some p \<Rightarrow> hm_insert (hm_insert ?h5 ''connection'' ''upgrade'') ''upgrade'' p | None \<Rightarrow> ?h5"
  from assms(1) obtain os where os: "render_proxy_header_overrides headers authority original_host client_address forwarded_proto
      proxy_set_headers = Inr os" and out: "out = foldl apply_override ?h6 os"
    by (auto simp: sanitize_request_headers_def bind_res_Inr Let_def split: bool.splits option.splits)
  have out_h6: "hm_get_all out name = hm_get_all ?h6 name"
    unfolding out using os render_overrides_names assms(2)
    by (intro foldl_override_other) (fastforce simp: render_proxy_header_overrides_def split: if_splits)
  have te0: "hm_get_all ?h4 ''te'' = []"
    by (simp add: hm_simps get_all_remove_hop_by_hop hop_by_hop_def proxy_hop_by_hop_names_def split: option.split)
  have h5: "hm_get_all ?h5 name =
     (if name = ''te'' then (if grpc_web \<noteq> None \<or> ?te \<noteq> None then [''trailers''] else [])
      else if name = ''content-type'' \<and> grpc_web \<noteq> None then [gw_upstream_content_type (the grpc_web)]
      else if (name = ''content-length'' \<or> name = ''x-grpc-web'') \<and> grpc_web \<noteq> None then []
      else hm_get_all ?h4 name)"
    using set_te_header_get_all [OF te0] preserved_te_value by blast
  have h4: "hm_get_all ?h4 name = (if name = ''x-forwarded-for'' then [ca_forwarded_for client_address]
      else if name = ''x-forwarded-host'' \<and> original_host \<noteq> None then [the original_host]
      else if name = ''x-forwarded-proto'' then [forwarded_proto]
      else if name = ''host'' then [?host] else hm_get_all ?h0 name)"
    by (cases original_host) (simp_all add: hm_simps)
  have h6: "hm_get_all ?h6 name = (if name = ''connection'' \<and> ?up \<noteq> None then [''upgrade'']
      else if name = ''upgrade'' \<and> ?up \<noteq> None then [the ?up] else hm_get_all ?h5 name)"
    by (cases ?up) (simp_all add: hm_simps)
  show ?thesis unfolding out_h6 h6 h5 h4 get_all_remove_hop_by_hop
  proof (cases "name \<in> {''host'', ''x-forwarded-proto'', ''x-forwarded-for'', ''x-forwarded-host'', ''connection'', ''upgrade'', ''te'',
      ''content-type'', ''content-length'', ''x-grpc-web''}", goal_cases)
    case 1
    then show ?case
      by (elim insertE emptyE) (simp_all add: upstream_values_def hop_by_hop_def proxy_hop_by_hop_names_def split: option.split)
  next
    case 2
    then show ?case by (simp add: upstream_values_def)
  qed
qed

text \<open>Every value is one that \<open>HeaderValue\<close> admits: no line breaks, no control bytes.\<close>

definition values_ok :: "header_map \<Rightarrow> bool" where
  "values_ok h \<longleftrightarrow> list_all (\<lambda>(_, v). list_all header_value_byte v) h"

lemma values_ok_simps [simp]:
  "values_ok h \<Longrightarrow> values_ok (hm_remove h n)"
  "values_ok h \<Longrightarrow> list_all header_value_byte v \<Longrightarrow> values_ok (hm_insert h n v)"
  by (auto simp: values_ok_def hm_remove_def hm_insert_def hm_append_def list_all_iff)

lemma values_ok_get: "values_ok h \<Longrightarrow> hm_get h n = Some v \<Longrightarrow> list_all header_value_byte v"
  by (fastforce simp: values_ok_def hm_get_def hm_get_all_def list_all_iff split: list.splits dest: arg_cong [where f = set])

lemma values_ok_foldl:
  "values_ok h \<Longrightarrow> values_ok (foldl (\<lambda>h m. if keep m then h else hm_remove h m) h ns)"
  by (induction ns arbitrary: h) simp_all

lemma values_ok_hop_by_hop: "values_ok h \<Longrightarrow> values_ok (remove_hop_by_hop_headers header_name h keep)"
  by (simp add: remove_hop_by_hop_headers_def values_ok_foldl Let_def)

fun override_ok :: "proxy_header_override \<Rightarrow> bool" where
  "override_ok (OverrideSet _ v) = list_all header_value_byte v"
| "override_ok (OverrideRemove _) = True"

fun static_ok :: "proxy_header_value \<Rightarrow> bool" where
  "static_ok (PhStatic v) = list_all header_value_byte v"
| "static_ok _ = True"

lemma proxy_header_render_ok:
  assumes "values_ok (hc_original_headers ctx)" and "static_ok hv" and "proxy_header_render ctx hv = Inr (Some v)"
  shows "list_all header_value_byte v"
proof (cases hv)
  case (PhRequestHeader x8)
  with assms show ?thesis by (auto intro: values_ok_get)
qed (use assms in \<open>auto simp: header_template_render_def map_sum_def header_value_res_def header_value_of_def split: sum.splits if_splits option.splits\<close>)

lemma render_overrides_ok:
  "values_ok (hc_original_headers ctx) \<Longrightarrow> list_all (static_ok \<circ> snd) psh \<Longrightarrow> render_overrides ctx psh = Inr os \<Longrightarrow> list_all override_ok os"
proof (induction ctx psh arbitrary: os rule: render_overrides.induct)
  case (2 ctx name hv rest)
  then show ?case using proxy_header_render_ok [of ctx hv]
    by (auto simp: bind_res_Inr split: if_splits option.splits)
qed simp

lemma apply_overrides_ok: "values_ok h \<Longrightarrow> list_all override_ok os \<Longrightarrow> values_ok (foldl apply_override h os)"
proof (induction os arbitrary: h)
  case (Cons o' os)
  then show ?case by (cases o') simp_all
qed simp

lemma sanitized_values_ok:
  assumes "sanitize_request_headers header_name headers authority original_host client_address forwarded_proto preserve_host
       proxy_set_headers grpc_web = Inr out"
    and "values_ok headers" and "list_all (static_ok \<circ> snd) proxy_set_headers"
    and "\<forall>h. original_host = Some h \<longrightarrow> list_all header_value_byte h"
    and "\<forall>m. grpc_web = Some m \<longrightarrow> list_all header_value_byte (gw_upstream_content_type m)"
  shows "values_ok out"
proof -
  have up: "list_all header_value_byte p" if "extract_upgrade_protocol headers = Some p" for p
    using that assms(2) by (auto simp: extract_upgrade_protocol_def values_ok_get split: if_splits)
  have b: "list_all header_value_byte ''upgrade''" "list_all header_value_byte ''trailers''" by (simp_all add: header_value_byte_def)
  have te: "values_ok (set_te_header grpc_web (preserved_te_trailers_value headers) h)" if "values_ok h" for h
    using that assms(5) b(2) preserved_te_value [of headers] by (auto simp: set_te_header_def Let_def split: option.splits)
  obtain os where "render_proxy_header_overrides headers authority original_host client_address forwarded_proto proxy_set_headers = Inr os"
    using assms(1) by (auto simp: sanitize_request_headers_def bind_res_Inr)
  moreover from this have "list_all override_ok os"
    using render_overrides_ok [OF _ assms(3), of "\<lparr> hc_original_headers = headers, hc_original_host = original_host, hc_upstream_authority = authority,
          hc_client_ip = ca_client_ip client_address, hc_peer_addr = ca_peer_addr client_address,
          hc_forwarded_for = ca_forwarded_for client_address, hc_scheme = forwarded_proto \<rparr>" os] assms(2)
    by (simp add: render_proxy_header_overrides_def split: if_splits)
  ultimately show ?thesis using assms(1,2,4) up b(1)
    by (auto simp: sanitize_request_headers_def bind_res_Inr Let_def values_ok_hop_by_hop te intro!: apply_overrides_ok
        split: bool.splits option.splits)
qed

text \<open>
  C36.  The proxy sends exactly the headers it means to.  When the headers of a
  request are rewritten for the upstream, every header without a configured
  override has the values of \<open>upstream_values\<close>: the address chain, the protocol
  and the host are the proxy's own whatever the client sent in them or
  nominated in its \<open>Connection\<close> header, no hop-by-hop or nominated header
  passes but the upgrade and \<open>TE: trailers\<close>, and everything else arrives
  unchanged.  No value holds a byte that could end a header line.
\<close>

theorem upstream_request_headers_exact:
  assumes "sanitize_request_headers header_name headers authority original_host client_address forwarded_proto preserve_host
       proxy_set_headers grpc_web = Inr out"
    and "values_ok headers" and "list_all (static_ok \<circ> snd) proxy_set_headers"
    and "\<forall>h. original_host = Some h \<longrightarrow> list_all header_value_byte h"
    and "\<forall>m. grpc_web = Some m \<longrightarrow> list_all header_value_byte (gw_upstream_content_type m)"
  shows "values_ok out \<and> (\<forall>name. name \<notin> fst ` set proxy_set_headers \<longrightarrow>
     hm_get_all out name =
       upstream_values header_name headers authority original_host client_address forwarded_proto preserve_host grpc_web name)"
  using sanitized_values_ok [OF assms] sanitized_get_all [OF assms(1)] by blast

definition sample_client_address :: client_address where
  "sample_client_address = \<lparr> ca_peer_addr = (V4 0x0A000001, 4711), ca_client_ip = V4 0x0A000001,
     ca_forwarded_for = ''10.0.0.1'', ca_source = SocketPeer \<rparr>"

definition sample_client_headers :: header_map where
  "sample_client_headers = [(''host'', ''a.example''), (''connection'', ''close, x-secret, X-Forwarded-For''),
     (''x-secret'', ''s''), (''x-forwarded-for'', ''1.2.3.4''), (''accept'', ''*/*'')]"

theorem upstream_request_headers_exact_witness:
  "\<exists>out. sanitize_request_headers (\<lambda>s. Some (to_ascii_lowercase s)) sample_client_headers ''up:80'' (Some ''a.example'')
       sample_client_address ''http'' False [(''x-real-ip'', PhClientIp)] None = Inr out
     \<and> hm_get_all out ''x-forwarded-for'' = [''10.0.0.1''] \<and> hm_get_all out ''x-secret'' = []
     \<and> hm_get_all out ''accept'' = [''*/*''] \<and> hm_get_all out ''host'' = [''up:80'']"
proof -
  have o: "sanitize_request_headers (\<lambda>s. Some (to_ascii_lowercase s)) sample_client_headers ''up:80'' (Some ''a.example'')
      sample_client_address ''http'' False [(''x-real-ip'', PhClientIp)] None =
      Inr [(''accept'', ''*/*''), (''host'', ''up:80''), (''x-forwarded-proto'', ''http''), (''x-forwarded-host'', ''a.example''),
           (''x-forwarded-for'', ''10.0.0.1''), (''x-real-ip'', ''10.0.0.1'')]" (is "_ = Inr ?out") by code_simp
  have ok: "values_ok sample_client_headers" "list_all (static_ok \<circ> snd) [(''x-real-ip'', PhClientIp)]"
    "list_all header_value_byte ''a.example''" by code_simp+
  let ?v = "upstream_values (\<lambda>s. Some (to_ascii_lowercase s)) sample_client_headers ''up:80'' (Some ''a.example'') sample_client_address ''http'' False None"
  have v: "?v ''x-forwarded-for'' = [''10.0.0.1'']" "?v ''x-secret'' = []" "?v ''accept'' = [''*/*'']" "?v ''host'' = [''up:80'']"
    by code_simp+
  have "hm_get_all ?out name = ?v name" if "name \<noteq> ''x-real-ip''" for name
    using upstream_request_headers_exact [OF o ok(1,2)] ok(3) that by simp
  from this [of "''x-forwarded-for''"] this [of "''x-secret''"] this [of "''accept''"] this [of "''host''"] v o show ?thesis
    by (intro exI [of _ ?out] conjI) simp_all
qed

section \<open>The path that reaches the upstream\<close>

lemma str_split_at: "str_split c (a @ c # b) = str_split c a @ str_split c b"
proof (induction a)
  case (Cons x a)
  then show ?case by (cases "str_split c a") auto
qed simp

lemma str_join_chars: "set (str_join sep segs) \<subseteq> set sep \<union> \<Union> (set ` set segs)"
  by (induction sep segs rule: str_join.induct) auto

lemma normalize_segments_members:
  "normalize_segments stack segs = Some out \<Longrightarrow> set out \<subseteq> set stack \<union> set segs"
proof (induction stack segs rule: normalize_segments.induct)
  case (2 stack seg segs)
  then show ?case by (auto split: if_splits dest: in_set_butlastD)
qed simp

lemma str_split_chars: "s \<in> set (str_split c x) \<Longrightarrow> set s \<subseteq> set x"
proof (induction x arbitrary: s)
  case (Cons a x)
  then show ?case by (cases "str_split c x") (fastforce split: if_splits)+
qed simp

lemma normalize_request_path_chars:
  "set (normalize_request_path p) \<subseteq> insert (CHR ''/'') (set p)"
proof -
  let ?p = "if p = [] then ''/'' else p"
  have sub: "set (str_join ''/'' segs) \<subseteq> insert (CHR ''/'') (set p)"
    if "normalize_segments [] (str_split (CHR ''/'') ?p) = Some segs" for segs
    using str_join_chars [of "''/''" segs] normalize_segments_members [OF that] str_split_chars [of _ "CHR ''/''" ?p]
    by (fastforce split: if_splits)
  show ?thesis
    using sub by (auto simp: normalize_request_path_def Let_def split: option.splits if_splits)
qed

lemma normalized_clean:
  "path \<noteq> ''*'' \<Longrightarrow> seg \<in> set (str_split (CHR ''/'') (normalize_request_path path)) \<Longrightarrow> seg \<noteq> ''.'' \<and> seg \<noteq> ''..''"
proof -
  assume "path \<noteq> ''*''" and seg: "seg \<in> set (str_split (CHR ''/'') (normalize_request_path path))"
  then obtain segs slash where c: "list_all clean_segment segs" and n: "normalize_request_path path = normal_path segs slash"
    using normalize_request_path_form by metis
  have "seg = [] \<or> seg \<in> set segs" using seg unfolding n split_normal_path [OF c] by (auto split: if_splits)
  then show ?thesis using c by (auto simp: list_all_iff clean_segment_def)
qed

text \<open>The path of a target, without its query.\<close>

definition target_path :: "string \<Rightarrow> string" where
  "target_path = takeWhile (\<lambda>c. c \<noteq> CHR ''?'')"

lemma target_path_append: "CHR ''?'' \<notin> set p \<Longrightarrow> target_path (p @ r) = p @ target_path r"
  by (induction p) (auto simp: target_path_def)

lemma target_path_normalized:
  assumes "CHR ''?'' \<notin> set uri_path"
  shows "target_path (nrt_path_and_query (normalize_request_target uri_path q)) = normalize_request_path uri_path"
proof -
  have "CHR ''?'' \<notin> set (normalize_request_path uri_path)" using normalize_request_path_chars [of uri_path] assms by auto
  from target_path_append [OF this] target_path_append [OF this, of "[]"] show ?thesis
    by (cases q) (simp_all add: normalize_request_target_def Let_def target_path_def)
qed

lemma proxied_cases:
  obtains "proxied_path_and_query uri_path q pre = nrt_path_and_query (normalize_request_target uri_path q)"
  | p where "pre = Some p" "nrt_path_and_query (normalize_request_target uri_path q) = p" "proxied_path_and_query uri_path q pre = ''/''"
  | p r c where "pre = Some p" "nrt_path_and_query (normalize_request_target uri_path q) = p @ c # r"
      "proxied_path_and_query uri_path q pre = c # r" "c = CHR ''/'' \<or> c = CHR ''?''"
proof (cases "Option.bind pre (\<lambda>p. map_option (Pair p) (strip_prefix (nrt_path_and_query (normalize_request_target uri_path q)) p))")
  case None
  then show ?thesis
    by (intro that(1)) (auto simp: proxied_path_and_query_def Let_def bind_eq_None_conv split: option.splits)
next
  case (Some ps)
  then obtain p stripped where ps: "pre = Some p" "nrt_path_and_query (normalize_request_target uri_path q) = p @ stripped"
    by (auto simp: bind_eq_Some_conv strip_prefix_Some)
  consider "stripped = []" | c r where "stripped = c # r" "c = CHR ''/'' \<or> c = CHR ''?''" | c r where "stripped = c # r" "c \<noteq> CHR ''/''" "c \<noteq> CHR ''?''"
    by (cases stripped) auto
  then show ?thesis
  proof cases
    case 1
    with ps show ?thesis by (intro that(2)) (simp_all add: proxied_path_and_query_def Let_def strip_prefix_def str_starts_with_def)
  next
    case (2 c r)
    with ps show ?thesis by (intro that(3)) (auto simp: proxied_path_and_query_def Let_def str_starts_with_def)
  next
    case (3 c r)
    with ps show ?thesis by (intro that(1)) (auto simp: proxied_path_and_query_def Let_def str_starts_with_def)
  qed
qed

text \<open>
  C37.  Stripping a prefix keeps the upstream path clean.  The target sent
  upstream is the normalised target of the request or that target without the
  configured prefix, cut only where a segment or the query begins; no
  segment of its path is a dot or a double dot.
\<close>

theorem proxied_path_stays_clean:
  assumes "uri_path \<noteq> ''*''" and "CHR ''?'' \<notin> set uri_path" and "\<forall>p. pre = Some p \<longrightarrow> CHR ''?'' \<notin> set p"
  shows "let original = nrt_path_and_query (normalize_request_target uri_path q); proxied = proxied_path_and_query uri_path q pre
     in (proxied = original \<or> (\<exists>p. pre = Some p \<and> (original = p \<and> proxied = ''/'' \<or> original = p @ proxied \<and> hd proxied \<in> {CHR ''/'', CHR ''?''})))
     \<and> (\<forall>seg \<in> set (str_split (CHR ''/'') (target_path proxied)). seg \<noteq> ''.'' \<and> seg \<noteq> ''..'')"
proof -
  note clean = normalized_clean [OF assms(1)]
  note orig = target_path_normalized [OF assms(2), of q]
  show ?thesis
  proof (cases rule: proxied_cases [of uri_path q pre])
    case 1
    with clean orig show ?thesis unfolding Let_def by simp
  next
    case (2 p)
    then show ?thesis unfolding Let_def by (simp add: target_path_def)
  next
    case (3 p r c)
    have path: "normalize_request_path uri_path = p @ target_path (c # r)"
      using orig 3(2) target_path_append [of p "c # r"] assms(3) 3(1) by simp
    have "seg \<noteq> ''.'' \<and> seg \<noteq> ''..''" if "seg \<in> set (str_split (CHR ''/'') (target_path (c # r)))" for seg
    proof (cases "c = CHR ''/''")
      case True
      with path clean [of seg] that show ?thesis
        by (auto simp: target_path_def str_split_at split: if_splits)
    next
      case False
      with 3(4) that show ?thesis by (auto simp: target_path_def)
    qed
    with 3 show ?thesis unfolding Let_def by auto
  qed
qed

theorem proxied_path_stays_clean_witness:
  "proxied_path_and_query ''/api/../api/./v1'' (Some ''a=1'') (Some ''/api'') = ''/v1?a=1''
   \<and> list_all (\<lambda>seg. seg \<noteq> ''..'') (str_split (CHR ''/'') (target_path (proxied_path_and_query ''/api/../api/./v1'' (Some ''a=1'') (Some ''/api''))))"
proof
  show "proxied_path_and_query ''/api/../api/./v1'' (Some ''a=1'') (Some ''/api'') = ''/v1?a=1''" by code_simp
  show "list_all (\<lambda>seg. seg \<noteq> ''..'') (str_split (CHR ''/'') (target_path (proxied_path_and_query ''/api/../api/./v1'' (Some ''a=1'') (Some ''/api''))))"
    using proxied_path_stays_clean [of "''/api/../api/./v1''" "Some ''/api''" "Some ''a=1''"] by (simp add: Let_def list_all_iff)
qed

text \<open>
  A prefix that ends in a slash is accepted by the validation but never
  stripped from a longer path, for the rest does not begin with a slash.
\<close>

lemma slash_prefix_is_not_stripped:
  "proxied_path_and_query ''/api/v1'' None (Some ''/api/'') = ''/api/v1''"
  "proxied_path_and_query ''/api/v1'' None (Some ''/api'') = ''/v1''"
  by code_simp+

section \<open>Printing a header template\<close>

fun header_variable_name :: "proxy_header_variable \<Rightarrow> string" where
  "header_variable_name VHost = ''host''"
| "header_variable_name VScheme = ''scheme''"
| "header_variable_name VClientIp = ''client_ip''"
| "header_variable_name VRemoteAddr = ''remote_addr''"
| "header_variable_name VPeerAddr = ''peer_addr''"
| "header_variable_name VForwardedFor = ''forwarded_for''"
| "header_variable_name (VRequestHeader n) = ''header:'' @ n"

fun print_header_part :: "proxy_header_template_part \<Rightarrow> string" where
  "print_header_part (PLiteral s) = escape_braces s"
| "print_header_part (PVariable v) = CHR ''{'' # header_variable_name v @ ''}''"

fun header_part_printable :: "(string \<Rightarrow> string option) \<Rightarrow> proxy_header_template_part \<Rightarrow> bool" where
  "header_part_printable header_name (PVariable (VRequestHeader n)) =
     (n \<noteq> [] \<and> CHR ''}'' \<notin> set n \<and> \<not> is_ws (last n) \<and> header_name n = Some n)"
| "header_part_printable header_name _ = True"

abbreviation header_part_text :: "proxy_header_render_context \<Rightarrow> proxy_header_template_part \<Rightarrow> string" where
  "header_part_text ctx p \<equiv> render_header_part ctx [] p"

lemma header_variable_parses:
  assumes "header_part_printable header_name (PVariable v)"
  shows "parse_proxy_header_variable header_name (header_variable_name v) = Inr v"
    and "str_trim (header_variable_name v) = header_variable_name v"
    and "CHR ''}'' \<notin> set (header_variable_name v)" and "header_variable_name v \<noteq> []"
    and "hd (header_variable_name v) \<noteq> CHR ''{''"
proof -
  show "parse_proxy_header_variable header_name (header_variable_name v) = Inr v"
    using assms by (cases v) (auto simp: parse_proxy_header_variable_def strip_prefix_def str_starts_with_def)
  show "str_trim (header_variable_name v) = header_variable_name v"
    using assms by (cases v) (auto intro!: str_trim_id simp: is_ws_def)
  show "CHR ''}'' \<notin> set (header_variable_name v)" "header_variable_name v \<noteq> []" "hd (header_variable_name v) \<noteq> CHR ''{''"
    using assms by (cases v; simp)+
qed

interpretation header_template: brace_template "header_template_loop header_name raw" PLiteral PVariable header_variable_name
    print_header_part "header_part_printable header_name" header_part_text for header_name raw
proof
  fix v r l ps
  assume ok: "header_part_printable header_name (PVariable v)"
  note v = header_variable_parses [OF ok]
  obtain c n where n: "header_variable_name v = c # n" and c: "c \<noteq> CHR ''{''" using v(4,5) by (cases "header_variable_name v") auto
  have "split_once (CHR ''}'') (header_variable_name v @ CHR ''}'' # r) = Some (header_variable_name v, r)" using v(3) by simp
  then show "header_template_loop header_name raw (CHR ''{'' # header_variable_name v @ CHR ''}'' # r) l ps =
      header_template_loop header_name raw r [] ((if l \<noteq> [] then ps @ [PLiteral l] else ps) @ [PVariable v])"
    using v(1,2,4) c by (simp add: header_template_loop.simps [of _ _ "_ # _"] str_starts_with_def n Let_def flush_header_literal_def)
next
  show "header_template_loop header_name raw [] l ps = Inr (if l \<noteq> [] then ps @ [PLiteral l] else ps)" for l ps
    by (simp add: header_template_loop.simps [of _ _ "[]"] flush_header_literal_def)
  show "(\<exists>s. p = PLiteral s) \<or> (\<exists>v. p = PVariable v)" for p by (cases p) auto
qed (simp_all add: header_template_loop.simps [of _ _ "_ # _"] str_starts_with_def)

lemma render_header_part_append: "render_header_part ctx r p = r @ header_part_text ctx p"
proof (cases p)
  case (PVariable v)
  then show ?thesis by (cases v) (simp_all split: option.split)
qed simp

lemma foldl_render_header: "foldl (render_header_part ctx) r ps = r @ concat (map (header_part_text ctx) ps)"
proof (induction ps arbitrary: r)
  case (Cons p ps)
  from Cons [of "r @ header_part_text ctx p"] show ?case by (simp add: render_header_part_append [of _ r])
qed simp

text \<open>Every sequence of literals and variables is a header template: printed with doubled braces it
  parses, and the parsed template renders every request as the sequence does.\<close>

theorem proxy_header_print_parse:
  assumes "list_all (header_part_printable header_name) parts"
  shows "\<exists>t. proxy_header_template_parse header_name (concat (map print_header_part parts)) = Inr t \<and>
     (\<forall>ctx. header_template_render t ctx = header_value_res (concat (map (render_header_part ctx []) parts)))"
  using header_template.parse_print [OF assms, of "concat (map print_header_part parts)" "[]" "[]"]
  by (auto simp: proxy_header_template_parse_def header_template_render_def foldl_render_header)

end
