(* ===== verification/Compression.thy ===== *)
theory Compression
  imports Cache_Range Complex_Main
begin

text \<open>
  Response compression (\<open>crates/rginx-http/src/compression\<close>): the choice of a
  content coding from \<open>Accept-Encoding\<close>, the eligibility of a response, and the
  replacement of its body.  The quality values are \<open>f32\<close>: the parser of the
  standard library is written out, with the rounding of a decimal to the
  nearest \<open>f32\<close>.  The two compressors and the size hint of a body, which the
  HTTP library computes, are arguments.
\<close>

section \<open>Quality values\<close>

datatype f32 = F32NaN | F32NegInf | F32 rat | F32PosInf

definition round_half_even :: "rat \<Rightarrow> int" where
  "round_half_even x =
     (let f = \<lfloor>x\<rfloor>; r = x - of_int f
      in if r < 1 / 2 then f else if 1 / 2 < r then f + 1 else if even f then f else f + 1)"

text \<open>The number of binary digits.\<close>

function int_bits :: "int \<Rightarrow> int" where
  "int_bits n = (if n \<le> 0 then 0 else 1 + int_bits (n div 2))"
  by pat_completeness auto
termination by (relation "measure nat") auto

declare int_bits.simps [simp del]

definition digits_int :: "string \<Rightarrow> int" where
  "digits_int ds = foldl (\<lambda>n c. 10 * n + int (digit_val c)) 0 ds"

text \<open>The exponent \<open>e\<close> with \<open>2\<^sup>e \<le> x < 2\<^sup>e\<^sup>+\<^sup>1\<close> of a positive \<open>x\<close>.\<close>

definition binary_exponent :: "rat \<Rightarrow> int" where
  "binary_exponent x =
     (case quotient_of x of (p, q) \<Rightarrow>
        let e = int_bits p - int_bits q
        in if x < power_int 2 e then e - 1 else e)"

definition round_f32 :: "rat \<Rightarrow> f32" where
  "round_f32 x =
     (if x = 0 then F32 0
      else let a = \<bar>x\<bar>; ulp = power_int 2 (max (-126) (binary_exponent a) - 23);
               m = of_int (round_half_even (a / ulp)) * ulp
           in if 2 ^ 128 \<le> m then (if x < 0 then F32NegInf else F32PosInf)
              else F32 (if x < 0 then - m else m))"

definition parse_exponent :: "string \<Rightarrow> int option" where
  "parse_exponent s =
     (let (neg, ds) = (case s of [] \<Rightarrow> (False, [])
          | c # cs \<Rightarrow> if c = CHR ''-'' then (True, cs) else if c = CHR ''+'' then (False, cs) else (False, s))
      in if ds = [] \<or> \<not> list_all is_digit ds then None
         else Some (if neg then - digits_int ds else digits_int ds))"

definition parse_decimal :: "string \<Rightarrow> rat option" where
  "parse_decimal s =
     (let mantissa = takeWhile (\<lambda>c. ascii_lower c \<noteq> CHR ''e'') s;
          exponent = (case drop (length mantissa) s of [] \<Rightarrow> Some 0 | _ # es \<Rightarrow> parse_exponent es);
          (whole, fraction) = (case split_once (CHR ''.'') mantissa of Some parts \<Rightarrow> parts | None \<Rightarrow> (mantissa, []))
      in if whole @ fraction = [] \<or> \<not> list_all is_digit (whole @ fraction) then None
         else map_option (\<lambda>e. of_int (digits_int (whole @ fraction)) * power_int 10 (e - int (length fraction))) exponent)"

text \<open>\<open>str::parse::<f32>\<close>.\<close>

definition parse_f32 :: "string \<Rightarrow> f32 option" where
  "parse_f32 s =
     (let (neg, body) = (case s of [] \<Rightarrow> (False, [])
          | c # cs \<Rightarrow> if c = CHR ''-'' then (True, cs) else if c = CHR ''+'' then (False, cs) else (False, s));
          name = to_ascii_lowercase body
      in if name = ''nan'' then Some F32NaN
         else if name = ''inf'' \<or> name = ''infinity'' then Some (if neg then F32NegInf else F32PosInf)
         else map_option (\<lambda>x. round_f32 (if neg then - x else x)) (parse_decimal body))"

fun f32_less :: "f32 \<Rightarrow> f32 \<Rightarrow> bool" where
  "f32_less F32NaN _ = False"
| "f32_less _ F32NaN = False"
| "f32_less (F32 a) (F32 b) = (a < b)"
| "f32_less F32NegInf y = (y \<noteq> F32NegInf)"
| "f32_less _ F32NegInf = False"
| "f32_less F32PosInf _ = False"
| "f32_less (F32 _) F32PosInf = True"

text \<open>\<open>f32::max\<close> ignores a NaN.\<close>

definition f32_max :: "f32 \<Rightarrow> f32 \<Rightarrow> f32" where
  "f32_max a b = (if a = F32NaN then b else if b = F32NaN then a else if f32_less a b then b else a)"

definition f32_ge :: "f32 \<Rightarrow> f32 \<Rightarrow> bool" where
  "f32_ge a b \<longleftrightarrow> a \<noteq> F32NaN \<and> b \<noteq> F32NaN \<and> \<not> f32_less a b"

section \<open>The content coding\<close>

datatype content_coding = Brotli | Gzip

fun header_value :: "content_coding \<Rightarrow> string" where
  "header_value Brotli = ''br''"
| "header_value Gzip = ''gzip''"

text \<open>\<open>None\<close> is the early return at a star.\<close>

fun vary_items :: "string list \<Rightarrow> string list \<Rightarrow> string list option" where
  "vary_items values [] = Some values"
| "vary_items values (item0 # items) =
     (let item = str_trim item0
      in if item = [] then vary_items values items
         else if item = ''*'' then None
         else vary_items (if list_ex (\<lambda>e. eq_ignore_ascii_case e item) values then values else values @ [item]) items)"

definition merge_vary_header :: "header_map \<Rightarrow> string \<Rightarrow> header_map" where
  "merge_vary_header headers token =
     (case vary_items [] (concat (map (str_split (CHR '','')) (List.map_filter to_str (hm_get_all headers ''vary'')))) of
        None \<Rightarrow> hm_insert headers ''vary'' ''*''
      | Some values0 \<Rightarrow>
          let values = (if list_ex (\<lambda>e. eq_ignore_ascii_case e token) values0 then values0 else values0 @ [token])
          in case header_value_of (str_join '', '' values) of
               Some v \<Rightarrow> hm_insert headers ''vary'' v
             | None \<Rightarrow> hm_append headers ''vary'' ''Accept-Encoding'')"

record accepted_encodings =
  ae_brotli :: "f32 option"
  ae_gzip :: "f32 option"
  ae_wildcard :: "f32 option"

definition updated_slot :: "f32 option \<Rightarrow> f32 \<Rightarrow> f32 option" where
  "updated_slot slot q = Some (case slot of None \<Rightarrow> q | Some current \<Rightarrow> f32_max current q)"

definition record_encoding :: "accepted_encodings \<Rightarrow> string \<times> f32 \<Rightarrow> accepted_encodings" where
  "record_encoding ae item =
     (case item of (coding, q) \<Rightarrow>
        if eq_ignore_ascii_case coding ''br'' then ae\<lparr> ae_brotli := updated_slot (ae_brotli ae) q \<rparr>
        else if eq_ignore_ascii_case coding ''gzip'' then ae\<lparr> ae_gzip := updated_slot (ae_gzip ae) q \<rparr>
        else if coding = ''*'' then ae\<lparr> ae_wildcard := updated_slot (ae_wildcard ae) q \<rparr>
        else ae)"

fun quality_for :: "accepted_encodings \<Rightarrow> content_coding \<Rightarrow> f32" where
  "quality_for ae Brotli = (case ae_brotli ae of Some q \<Rightarrow> q | None \<Rightarrow> case ae_wildcard ae of Some q \<Rightarrow> q | None \<Rightarrow> F32 0)"
| "quality_for ae Gzip = (case ae_gzip ae of Some q \<Rightarrow> q | None \<Rightarrow> case ae_wildcard ae of Some q \<Rightarrow> q | None \<Rightarrow> F32 0)"

fun accept_parameters :: "f32 \<Rightarrow> string list \<Rightarrow> f32 option" where
  "accept_parameters q [] = Some q"
| "accept_parameters q (part # parts) =
     (case split_once (CHR ''='') (str_trim part) of
        Some (name, v) \<Rightarrow>
          if eq_ignore_ascii_case (str_trim name) ''q''
          then (case parse_f32 (str_trim v) of None \<Rightarrow> None | Some q' \<Rightarrow> accept_parameters q' parts)
          else accept_parameters q parts
      | None \<Rightarrow> accept_parameters q parts)"

definition parse_accept_encoding_item :: "string \<Rightarrow> (string \<times> f32) option" where
  "parse_accept_encoding_item item =
     (case str_split (CHR '';'') item of
        [] \<Rightarrow> None
      | p # parts \<Rightarrow>
          (let coding = str_trim p
           in if coding = [] then None else map_option (Pair coding) (accept_parameters (F32 1) parts)))"

definition accept_items :: "header_map \<Rightarrow> (string \<times> f32) list" where
  "accept_items headers =
     List.map_filter parse_accept_encoding_item
       (concat (map (str_split (CHR '','')) (List.map_filter to_str (hm_get_all headers ''accept-encoding''))))"

definition preferred_response_encoding :: "header_map \<Rightarrow> content_coding option" where
  "preferred_response_encoding headers =
     (let accepted = foldl record_encoding \<lparr> ae_brotli = None, ae_gzip = None, ae_wildcard = None \<rparr> (accept_items headers);
          brotli_q = quality_for accepted Brotli;
          gzip_q = quality_for accepted Gzip
      in case (f32_less (F32 0) brotli_q, f32_less (F32 0) gzip_q) of
           (False, False) \<Rightarrow> None
         | (True, False) \<Rightarrow> Some Brotli
         | (False, True) \<Rightarrow> Some Gzip
         | (True, True) \<Rightarrow> if f32_ge brotli_q gzip_q then Some Brotli else Some Gzip)"

section \<open>Options and eligibility\<close>

record response_compression_options =
  co_response_buffering :: route_buffering_policy
  co_compression :: route_compression_policy
  co_min_bytes :: "nat option"
  co_content_types :: "string list"

definition default_compression_options :: response_compression_options where
  "default_compression_options =
     \<lparr> co_response_buffering = BufAuto, co_compression = ComprAuto, co_min_bytes = None, co_content_types = [] \<rparr>"

definition compression_for_route :: "route \<Rightarrow> response_compression_options" where
  "compression_for_route r =
     \<lparr> co_response_buffering = route_response_buffering r, co_compression = route_compression r,
       co_min_bytes = route_compression_min_bytes r, co_content_types = route_compression_content_types r \<rparr>"

definition min_bytes :: "response_compression_options \<Rightarrow> nat" where
  "min_bytes opts =
     (case co_compression opts of
        ComprForce \<Rightarrow> (case co_min_bytes opts of Some n \<Rightarrow> n | None \<Rightarrow> 1)
      | _ \<Rightarrow> (case co_min_bytes opts of Some n \<Rightarrow> n | None \<Rightarrow> 256))"

definition response_compression_disabled :: "response_compression_options \<Rightarrow> bool" where
  "response_compression_disabled opts \<longleftrightarrow> co_compression opts = ComprOff \<or> co_response_buffering opts = BufOff"

definition is_compressible_mime :: "string \<Rightarrow> bool" where
  "is_compressible_mime mime \<longleftrightarrow>
     str_starts_with mime ''text/''
     \<or> mime \<in> {''application/json'', ''application/problem+json'', ''application/javascript'', ''application/xml'',
               ''application/xhtml+xml'', ''image/svg+xml''}"

definition content_type_is_eligible :: "string \<Rightarrow> response_compression_options \<Rightarrow> bool" where
  "content_type_is_eligible content_type opts =
     (let mime = str_trim (hd (str_split (CHR '';'') content_type))
      in if co_content_types opts = [] then is_compressible_mime mime
         else list_ex (\<lambda>candidate. eq_ignore_ascii_case (str_trim candidate) mime) (co_content_types opts))"

definition response_is_eligible :: "header_map \<Rightarrow> status_code \<Rightarrow> response_compression_options \<Rightarrow> bool" where
  "response_is_eligible headers status opts =
     (if (100 \<le> status \<and> status < 200) \<or> status = 204 \<or> status = 304 then False
      else if status = 206 \<or> hm_contains headers ''content-range'' \<or> hm_contains headers ''content-encoding'' then False
      else case Option.bind (hm_get headers ''content-type'') to_str of
        None \<Rightarrow> False
      | Some content_type \<Rightarrow> content_type_is_eligible content_type opts)"

section \<open>The encoding of a response\<close>

definition usize_max :: nat where "usize_max = u64_max"

definition candidate_content_length :: "header_map \<Rightarrow> nat option" where
  "candidate_content_length headers = Option.bind (Option.bind (hm_get headers ''content-length'') to_str) (parse_uint usize_max)"

definition compression_candidate_length ::
    "(response_body \<Rightarrow> nat option) \<Rightarrow> header_map \<Rightarrow> response_body \<Rightarrow> response_compression_options \<Rightarrow> nat option" where
  "compression_candidate_length exact_size headers body opts =
     (case candidate_content_length headers of
        Some n \<Rightarrow> Some n
      | None \<Rightarrow> if co_response_buffering opts = BufOn then exact_size body else None)"

definition clear_compression_headers :: "header_map \<Rightarrow> header_map" where
  "clear_compression_headers headers = hm_remove (hm_remove headers ''content-encoding'') ''content-length''"

definition set_content_length :: "header_map \<Rightarrow> nat \<Rightarrow> header_map" where
  "set_content_length headers len = hm_insert headers ''content-length'' (show_nat len)"

definition full_body :: "string \<Rightarrow> response_body" where
  "full_body bytes = WholeBody (if bytes = [] then [] else [EvFrame (FData bytes)])"

definition buffered_response :: "http_response \<Rightarrow> string \<Rightarrow> http_response" where
  "buffered_response parts body =
     parts\<lparr> hr_headers := set_content_length (clear_compression_headers (hr_headers parts)) (length body), hr_body := full_body body \<rparr>"

definition max_compressible_response_bytes :: nat where
  "max_compressible_response_bytes = 1024 * 1024"

definition maybe_encode_response ::
    "(content_coding \<Rightarrow> string \<Rightarrow> io_error + string) \<Rightarrow> (response_body \<Rightarrow> nat option) \<Rightarrow> http_method \<Rightarrow> header_map \<Rightarrow>
     response_compression_options \<Rightarrow> http_response \<Rightarrow> http_response" where
  "maybe_encode_response compress_bytes exact_size method request_headers opts response =
     (if response_compression_disabled opts then response
      else case preferred_response_encoding request_headers of
        None \<Rightarrow> response
      | Some content_coding \<Rightarrow>
          if method = ''HEAD'' then response
          else if \<not> response_is_eligible (hr_headers response) (hr_status response) opts then response
          else case compression_candidate_length exact_size (hr_headers response) (hr_body response) opts of
            None \<Rightarrow> response
          | Some content_length \<Rightarrow>
              if max_compressible_response_bytes < content_length \<or> content_length < min_bytes opts then response
              else case drain_body (hr_body response) of
                (_, False) \<Rightarrow>
                  response\<lparr> hr_status := 500,
                    hr_headers := set_content_length (hm_remove (clear_compression_headers (hr_headers response)) ''accept-ranges'') 0,
                    hr_body := full_body [] \<rparr>
              | (collected, True) \<Rightarrow>
                  (case compress_bytes content_coding collected of
                     Inl _ \<Rightarrow> buffered_response response collected
                   | Inr compressed \<Rightarrow>
                       if length compressed < length collected then
                         (let h1 = hm_insert (clear_compression_headers (hr_headers response)) ''content-encoding'' (header_value content_coding);
                              h2 = set_content_length (merge_vary_header h1 ''Accept-Encoding'') (length compressed)
                          in response\<lparr> hr_headers := hm_remove h2 ''accept-ranges'', hr_body := full_body compressed \<rparr>)
                       else buffered_response response collected))"

section \<open>The choice of the coding\<close>

text \<open>What a client accepts: a positive quality for the coding, or for the star when the coding is not listed.\<close>

definition names_coding :: "content_coding \<Rightarrow> string \<Rightarrow> bool" where
  "names_coding c name \<longleftrightarrow> eq_ignore_ascii_case name (header_value c)"

definition coding_acceptable :: "(string \<times> f32) list \<Rightarrow> content_coding \<Rightarrow> bool" where
  "coding_acceptable items c \<longleftrightarrow>
     list_ex (\<lambda>(name, q). names_coding c name \<and> f32_less (F32 0) q) items
     \<or> (list_all (\<lambda>(name, _). \<not> names_coding c name) items \<and> list_ex (\<lambda>(name, q). name = ''*'' \<and> f32_less (F32 0) q) items)"

fun slot_of :: "accepted_encodings \<Rightarrow> content_coding \<Rightarrow> f32 option" where
  "slot_of ae Brotli = ae_brotli ae"
| "slot_of ae Gzip = ae_gzip ae"

abbreviation positive_slot :: "f32 option \<Rightarrow> bool" where
  "positive_slot s \<equiv> \<exists>q. s = Some q \<and> f32_less (F32 0) q"

lemma f32_max_positive: "f32_less (F32 0) (f32_max a b) \<longleftrightarrow> f32_less (F32 0) a \<or> f32_less (F32 0) b"
  by (cases a; cases b) (auto simp: f32_max_def)

lemma updated_slot_positive: "positive_slot (updated_slot s q) \<longleftrightarrow> positive_slot s \<or> f32_less (F32 0) q"
  by (cases s) (auto simp: updated_slot_def f32_max_positive)

lemma updated_slot_some [simp]: "updated_slot s q \<noteq> None"
  by (simp add: updated_slot_def)

lemma coding_names_disjoint:
  "eq_ignore_ascii_case name ''br'' \<Longrightarrow> \<not> eq_ignore_ascii_case name ''gzip''"
  "eq_ignore_ascii_case name ''br'' \<Longrightarrow> name \<noteq> ''*''" "eq_ignore_ascii_case name ''gzip'' \<Longrightarrow> name \<noteq> ''*''"
  by (auto simp: eq_ignore_ascii_case_def to_ascii_lowercase_def ascii_lower_def)

lemma record_encoding_slots:
  "slot_of (record_encoding ae (name, q)) c = (if names_coding c name then updated_slot (slot_of ae c) q else slot_of ae c)"
  "ae_wildcard (record_encoding ae (name, q)) = (if name = ''*'' then updated_slot (ae_wildcard ae) q else ae_wildcard ae)"
  using coding_names_disjoint [of name] by (cases c; auto simp: record_encoding_def names_coding_def)+

lemma recorded_slots:
  "positive_slot (slot_of (foldl record_encoding ae items) c) \<longleftrightarrow>
     positive_slot (slot_of ae c) \<or> (\<exists>(name, q) \<in> set items. names_coding c name \<and> f32_less (F32 0) q)"
  "slot_of (foldl record_encoding ae items) c = None \<longleftrightarrow>
     slot_of ae c = None \<and> (\<forall>(name, q) \<in> set items. \<not> names_coding c name)"
  "positive_slot (ae_wildcard (foldl record_encoding ae items)) \<longleftrightarrow>
     positive_slot (ae_wildcard ae) \<or> (\<exists>(name, q) \<in> set items. name = ''*'' \<and> f32_less (F32 0) q)"
proof (induction items arbitrary: ae)
  case (Cons item items)
  obtain name q where item: "item = (name, q)" by (cases item)
  {
    case 1
    show ?case unfolding item foldl.simps Cons(1) record_encoding_slots by (simp add: updated_slot_positive)
  next
    case 2
    show ?case unfolding item foldl.simps Cons(2) record_encoding_slots by (simp add: updated_slot_positive)
  next
    case 3
    show ?case unfolding item foldl.simps Cons(3) record_encoding_slots by (simp add: updated_slot_positive)
  }
qed simp_all

abbreviation accepted_of :: "header_map \<Rightarrow> accepted_encodings" where
  "accepted_of headers \<equiv> foldl record_encoding \<lparr> ae_brotli = None, ae_gzip = None, ae_wildcard = None \<rparr> (accept_items headers)"

lemma quality_slot:
  "quality_for ae c = (case slot_of ae c of Some q \<Rightarrow> q | None \<Rightarrow> case ae_wildcard ae of Some q \<Rightarrow> q | None \<Rightarrow> F32 0)"
  by (cases c) simp_all

lemma quality_acceptable:
  "f32_less (F32 0) (quality_for (accepted_of headers) c) \<longleftrightarrow> coding_acceptable (accept_items headers) c"
proof -
  let ?a0 = "\<lparr> ae_brotli = None, ae_gzip = None, ae_wildcard = None \<rparr>" and ?items = "accept_items headers"
  have none: "slot_of ?a0 c = None" by (cases c) simp_all
  have q: "f32_less (F32 0) (quality_for ae c) \<longleftrightarrow> positive_slot (slot_of ae c) \<or> slot_of ae c = None \<and> positive_slot (ae_wildcard ae)" for ae
    unfolding quality_slot by (auto split: option.splits)
  show ?thesis
    unfolding q recorded_slots(1) [of ?a0 ?items c] recorded_slots(2) [of ?a0 ?items c] recorded_slots(3) [of ?a0 ?items] coding_acceptable_def
    by (auto simp: none list_ex_iff list_all_iff)
qed

lemma chosen_coding_acceptable:
  "preferred_response_encoding headers = Some c \<Longrightarrow> coding_acceptable (accept_items headers) c"
  unfolding quality_acceptable [symmetric]
  by (auto simp: preferred_response_encoding_def Let_def simp del: quality_for.simps split: bool.splits if_splits)

lemma no_coding_acceptable:
  "preferred_response_encoding headers = None \<longleftrightarrow> \<not> coding_acceptable (accept_items headers) Brotli \<and> \<not> coding_acceptable (accept_items headers) Gzip"
  unfolding quality_acceptable [symmetric]
  by (auto simp: preferred_response_encoding_def Let_def simp del: quality_for.simps split: bool.splits if_splits)

section \<open>Transparency\<close>

lemma drain_full_body [simp]: "drain_body (full_body bytes) = (bytes, True)"
  by (simp add: full_body_def)

definition varies_on :: "header_map \<Rightarrow> string \<Rightarrow> bool" where
  "varies_on headers token \<longleftrightarrow>
     hm_get_all headers ''vary'' = [''*''] \<or> token \<in> set (hm_get_all headers ''vary'')
     \<or> (\<exists>values. hm_get_all headers ''vary'' = [str_join '', '' values] \<and> list_ex (\<lambda>e. eq_ignore_ascii_case e token) values)"

lemma merge_vary_get_all:
  "varies_on (merge_vary_header h ''Accept-Encoding'') ''Accept-Encoding''"
  "n \<noteq> ''vary'' \<Longrightarrow> hm_get_all (merge_vary_header h ''Accept-Encoding'') n = hm_get_all h n"
proof -
  have r: "eq_ignore_ascii_case x x" for x by (simp add: eq_ignore_ascii_case_def)
  show "varies_on (merge_vary_header h ''Accept-Encoding'') ''Accept-Encoding''"
    by (auto simp: merge_vary_header_def varies_on_def hm_simps Let_def r header_value_of_def split: option.splits if_splits)
  show "n \<noteq> ''vary'' \<Longrightarrow> hm_get_all (merge_vary_header h ''Accept-Encoding'') n = hm_get_all h n"
    by (simp add: merge_vary_header_def hm_simps Let_def split: option.splits)
qed

definition encoding_headers :: "string set" where
  "encoding_headers = {''content-encoding'', ''content-length'', ''vary'', ''accept-ranges''}"

text \<open>What a response may become: itself, itself buffered, or the shorter compressed body with the headers that announce it.\<close>

definition buffered_as :: "http_response \<Rightarrow> string \<Rightarrow> http_response \<Rightarrow> bool" where
  "buffered_as response content out \<longleftrightarrow>
     drain_body (hr_body out) = (content, True) \<and> hm_get_all (hr_headers out) ''content-length'' = [show_nat (length content)]
     \<and> (\<forall>n. n \<noteq> ''content-length'' \<longrightarrow> hm_get_all (hr_headers out) n = hm_get_all (hr_headers response) n)"

definition compressed_as :: "header_map \<Rightarrow> content_coding \<Rightarrow> http_response \<Rightarrow> string \<Rightarrow> http_response \<Rightarrow> bool" where
  "compressed_as request_headers c response z out \<longleftrightarrow>
     coding_acceptable (accept_items request_headers) c
     \<and> drain_body (hr_body out) = (z, True)
     \<and> hm_get_all (hr_headers response) ''content-encoding'' = []
     \<and> hm_get_all (hr_headers out) ''content-encoding'' = [header_value c]
     \<and> hm_get_all (hr_headers out) ''content-length'' = [show_nat (length z)]
     \<and> hm_get_all (hr_headers out) ''accept-ranges'' = []
     \<and> varies_on (hr_headers out) ''Accept-Encoding''
     \<and> (\<forall>n. n \<notin> encoding_headers \<longrightarrow> hm_get_all (hr_headers out) n = hm_get_all (hr_headers response) n)"

lemma eligible_no_encoding:
  "response_is_eligible headers status opts \<Longrightarrow> hm_get_all headers ''content-encoding'' = []"
  by (auto simp: response_is_eligible_def hm_contains_def split: if_splits)

lemma buffered_response_as:
  assumes "response_is_eligible (hr_headers response) status opts"
  shows "buffered_as response content (buffered_response response content)"
  using eligible_no_encoding [OF assms]
  by (simp add: buffered_as_def buffered_response_def set_content_length_def clear_compression_headers_def hm_simps)

lemma compressed_response_as:
  assumes "preferred_response_encoding request_headers = Some c" and "response_is_eligible (hr_headers response) status opts"
  shows "compressed_as request_headers c response z (response\<lparr> hr_headers := hm_remove (set_content_length (merge_vary_header
       (hm_insert (clear_compression_headers (hr_headers response)) ''content-encoding'' (header_value c)) ''Accept-Encoding'') (length z))
       ''accept-ranges'', hr_body := full_body z \<rparr>)"
proof -
  let ?h = "merge_vary_header (hm_insert (clear_compression_headers (hr_headers response)) ''content-encoding'' (header_value c)) ''Accept-Encoding''"
  have "varies_on (hm_remove (set_content_length ?h (length z)) ''accept-ranges'') ''Accept-Encoding'' \<longleftrightarrow> varies_on ?h ''Accept-Encoding''"
    by (simp add: varies_on_def set_content_length_def hm_simps)
  then show ?thesis
    using eligible_no_encoding [OF assms(2)] chosen_coding_acceptable [OF assms(1)] merge_vary_get_all
    by (simp add: compressed_as_def set_content_length_def clear_compression_headers_def hm_simps encoding_headers_def)
qed


text \<open>A body that fails while it is collected becomes an empty error response, or the failing response itself.\<close>

lemma failed_collection_is_internal_error:
  assumes "drain_body (hr_body response) = (part, False)"
    and "out = maybe_encode_response compress_bytes exact_size method request_headers opts response"
  shows "out = response \<or> hr_status out = 500 \<and> drain_body (hr_body out) = ([], True) \<and> hm_get_all (hr_headers out) ''content-length'' = [show_nat 0]"
  using assms(1) unfolding assms(2) maybe_encode_response_def
  by (auto simp: set_content_length_def hm_simps split: option.splits)

definition sample_text_response :: http_response where
  "sample_text_response = \<lparr> hr_status = 200, hr_headers = [(''content-type'', ''text/plain''), (''content-length'', ''4'')],
     hr_body = WholeBody [EvFrame (FData ''aa''), EvPending, EvFrame (FData ''aa'')] \<rparr>"


end
