(* ===== verification/Grpc_Handler.thy ===== *)
theory Grpc_Handler
  imports Proxy_Headers Compression
begin

text \<open>
  The gRPC side of the handler (\<open>handler/grpc\<close>) and its plain responses
  (\<open>handler/response.rs\<close>): which requests are gRPC, the error responses in the
  protocol of the request, and the observation of the status that a response
  carries in its headers, its trailers or the trailer frame of a gRPC-Web
  body, which ends in one access log event.
\<close>

section \<open>Plain responses\<close>

definition text_response :: "status_code \<Rightarrow> string \<Rightarrow> string \<Rightarrow> http_response" where
  "text_response status content_type body =
     \<lparr> hr_status = status,
       hr_headers = [(''content-type'', content_type), (''content-length'', show_nat (length body))],
       hr_body = full_body body \<rparr>"

definition text_plain :: string where
  "text_plain = ''text/plain; charset=utf-8''"

definition newline :: string where
  "newline = [CHR 0x0A]"

definition forbidden_response :: http_response where
  "forbidden_response = text_response 403 text_plain (''forbidden'' @ newline)"

definition too_many_requests_response :: http_response where
  "too_many_requests_response = text_response 429 text_plain (''hold your horses! too many requests'' @ newline)"

definition too_early_response :: http_response where
  "too_early_response = text_response 425 text_plain (''too early'' @ newline)"

section \<open>gRPC requests\<close>

text \<open>\<open>header_value\<close> of \<open>dispatch/response.rs\<close>: the first value, trimmed.\<close>

definition trimmed_header :: "header_map \<Rightarrow> string \<Rightarrow> string option" where
  "trimmed_header headers name = map_option str_trim (Option.bind (hm_get headers name) to_str)"

record grpc_request_metadata =
  gq_protocol :: string
  gq_service :: string
  gq_method :: string

definition grpc_protocol :: "header_map \<Rightarrow> string option" where
  "grpc_protocol headers =
     (case trimmed_header headers ''content-type'' of
        None \<Rightarrow> None
      | Some content_type \<Rightarrow>
          (let mime = to_ascii_lowercase (fst (split_content_type content_type))
           in if str_starts_with mime ''application/grpc-web-text'' then Some ''grpc-web-text''
              else if str_starts_with mime ''application/grpc-web'' then Some ''grpc-web''
              else if str_starts_with mime ''application/grpc'' then Some ''grpc''
              else None))"

definition grpc_service_method :: "string \<Rightarrow> (string \<times> string) option" where
  "grpc_service_method path =
     (case strip_prefix path ''/'' of
        None \<Rightarrow> None
      | Some p \<Rightarrow>
          (case split_once (CHR ''/'') p of
             None \<Rightarrow> None
           | Some (service, method) \<Rightarrow>
               if service = [] \<or> method = [] \<or> CHR ''/'' \<in> set method then None else Some (service, method)))"

definition grpc_request_metadata_of :: "header_map \<Rightarrow> string \<Rightarrow> grpc_request_metadata option" where
  "grpc_request_metadata_of headers request_path =
     Option.bind (grpc_protocol headers) (\<lambda>protocol.
       map_option (\<lambda>(service, method). \<lparr> gq_protocol = protocol, gq_service = service, gq_method = method \<rparr>)
         (grpc_service_method request_path))"

section \<open>gRPC errors\<close>

datatype grpc_status_code =
    GrpcCancelled | GrpcInvalidArgument | GrpcDeadlineExceeded | GrpcPermissionDenied | GrpcResourceExhausted
  | GrpcUnimplemented | GrpcUnavailable

fun grpc_code :: "grpc_status_code \<Rightarrow> string" where
  "grpc_code GrpcCancelled = ''1''"
| "grpc_code GrpcInvalidArgument = ''3''"
| "grpc_code GrpcDeadlineExceeded = ''4''"
| "grpc_code GrpcPermissionDenied = ''7''"
| "grpc_code GrpcResourceExhausted = ''8''"
| "grpc_code GrpcUnimplemented = ''12''"
| "grpc_code GrpcUnavailable = ''14''"

datatype grpc_response_format = FormatGrpc string | FormatGrpcWeb string bool

definition grpc_response_format_of :: "header_map \<Rightarrow> grpc_response_format option" where
  "grpc_response_format_of headers =
     (case hm_get headers ''content-type'' of
        None \<Rightarrow> None
      | Some content_type \<Rightarrow>
          (case grpc_protocol headers of
             None \<Rightarrow> None
           | Some p \<Rightarrow>
               if p = ''grpc'' then Some (FormatGrpc content_type)
               else if p = ''grpc-web'' then Some (FormatGrpcWeb content_type False)
               else if p = ''grpc-web-text'' then Some (FormatGrpcWeb content_type True)
               else None))"

definition upper_hex :: "nat \<Rightarrow> char" where
  "upper_hex d = ''0123456789ABCDEF'' ! d"

definition encode_grpc_byte :: "char \<Rightarrow> string" where
  "encode_grpc_byte c =
     (if byte_in 0x20 0x7E c \<and> c \<noteq> CHR ''%'' then [c]
      else [CHR ''%'', upper_hex (of_char c div 16), upper_hex (of_char c mod 16)])"

definition encode_grpc_message :: "string \<Rightarrow> string" where
  "encode_grpc_message message = concat (map encode_grpc_byte (str_trim message))"

definition grpc_message_value :: "string \<Rightarrow> string option" where
  "grpc_message_value message =
     (let m = encode_grpc_message message in if m \<noteq> [] then header_value_of m else None)"

definition encode_grpc_web_error_body :: "base64 \<Rightarrow> header_map \<Rightarrow> bool \<Rightarrow> string" where
  "encode_grpc_web_error_body b64 trailers is_text_format =
     (let encoded = encode_grpc_web_trailers trailers in if is_text_format then b64_encode b64 encoded else encoded)"

definition optional_header :: "string \<Rightarrow> string option \<Rightarrow> header_map" where
  "optional_header name v = (case v of Some x \<Rightarrow> [(name, x)] | None \<Rightarrow> [])"

fun build_grpc_error_response :: "base64 \<Rightarrow> grpc_response_format \<Rightarrow> grpc_status_code \<Rightarrow> string \<Rightarrow> http_response" where
  "build_grpc_error_response b64 (FormatGrpc content_type) status message =
     \<lparr> hr_status = 200,
       hr_headers = [(''content-type'', content_type), (''content-length'', ''0''), (''grpc-status'', grpc_code status)]
         @ optional_header ''grpc-message'' (grpc_message_value message),
       hr_body = full_body [] \<rparr>"
| "build_grpc_error_response b64 (FormatGrpcWeb content_type is_text_format) status message =
     (let trailers = (''grpc-status'', grpc_code status) # optional_header ''grpc-message'' (grpc_message_value message);
          body = encode_grpc_web_error_body b64 trailers is_text_format
      in \<lparr> hr_status = 200,
           hr_headers = [(''content-type'', content_type), (''content-length'', show_nat (length body)), (''grpc-status'', grpc_code status)]
             @ optional_header ''grpc-message'' (grpc_message_value message),
           hr_body = full_body body \<rparr>)"

definition grpc_error_response :: "base64 \<Rightarrow> header_map \<Rightarrow> grpc_status_code \<Rightarrow> string \<Rightarrow> http_response option" where
  "grpc_error_response b64 request_headers status message =
     map_option (\<lambda>format. build_grpc_error_response b64 format status message) (grpc_response_format_of request_headers)"

section \<open>Observation of the status\<close>

record grpc_observability =
  go_protocol :: string
  go_service :: string
  go_method :: string
  go_status :: "string option"
  go_message :: "string option"

definition update_from_headers :: "grpc_observability \<Rightarrow> header_map \<Rightarrow> grpc_observability" where
  "update_from_headers g headers =
     (let g1 = (case trimmed_header headers ''grpc-status'' of Some s \<Rightarrow> g\<lparr> go_status := Some s \<rparr> | None \<Rightarrow> g)
      in case trimmed_header headers ''grpc-message'' of Some m \<Rightarrow> g1\<lparr> go_message := Some m \<rparr> | None \<Rightarrow> g1)"

definition grpc_observability_of :: "grpc_request_metadata option \<Rightarrow> header_map \<Rightarrow> grpc_observability option" where
  "grpc_observability_of metadata response_headers =
     map_option (\<lambda>m. update_from_headers
       \<lparr> go_protocol = gq_protocol m, go_service = gq_service m, go_method = gq_method m, go_status = None, go_message = None \<rparr>
       response_headers) metadata"

record observability_parser =
  op_is_text :: bool
  op_encoded_carryover :: string
  op_buffer :: string
  op_saw_trailers :: bool
  op_disabled :: bool

definition parser_for_protocol :: "string \<Rightarrow> observability_parser option" where
  "parser_for_protocol protocol =
     (let p = (\<lambda>t. \<lparr> op_is_text = t, op_encoded_carryover = [], op_buffer = [], op_saw_trailers = False, op_disabled = False \<rparr>)
      in if protocol = ''grpc-web'' then Some (p False)
         else if protocol = ''grpc-web-text'' then Some (p True)
         else None)"

datatype observed_frame = ObservedData | ObservedTrailers header_map

definition decode_grpc_web_trailer_block_for_observability :: "(string \<Rightarrow> string option) \<Rightarrow> string \<Rightarrow> string + header_map" where
  "decode_grpc_web_trailer_block_for_observability header_name block =
     decode_trailer_lines header_name [] (str_split (CHR 0x0A) block)"

text \<open>The text decoders; their errors only disable the parser.\<close>

definition decode_grpc_web_text_observability_chunk :: "base64 \<Rightarrow> string \<Rightarrow> string \<Rightarrow> (unit + string option) \<times> string" where
  "decode_grpc_web_text_observability_chunk b64 carryover data =
     (let c = carryover @ filter (\<lambda>x. \<not> ascii_whitespace x) data;
          complete_len = length c div 4 * 4
      in if complete_len = 0 then (Inr None, c)
         else (case decode_quanta b64 (take complete_len c) of
                 Inl _ \<Rightarrow> (Inl (), drop complete_len c)
               | Inr decoded \<Rightarrow> (Inr (if decoded = [] then None else Some decoded), drop complete_len c)))"

definition decode_grpc_web_text_observability_final :: "base64 \<Rightarrow> string \<Rightarrow> (unit + string option) \<times> string" where
  "decode_grpc_web_text_observability_final b64 carryover =
     (if carryover = [] then (Inr None, carryover)
      else if length carryover mod 4 \<noteq> 0 then (Inl (), carryover)
      else (case decode_quanta b64 carryover of
              Inl _ \<Rightarrow> (Inl (), [])
            | Inr decoded \<Rightarrow> (Inr (if decoded = [] then None else Some decoded), [])))"

definition decode_grpc_web_observability_frame ::
    "(string \<Rightarrow> string option) \<Rightarrow> string \<Rightarrow> bool \<Rightarrow> bool \<Rightarrow> string + (observed_frame \<times> string) option" where
  "decode_grpc_web_observability_frame header_name buffer inner_finished saw_trailers =
     (if buffer = [] then Inr None
      else if saw_trailers then Inl ''grpc-web response trailer frame must be terminal''
      else if length buffer < 5 then
        (if inner_finished then Inl ''incomplete grpc-web response frame header'' else Inr None)
      else let flags = of_char (hd buffer) :: nat;
               frame_len = 5 + be_nat (take 4 (tl buffer))
           in if length buffer < frame_len then
                (if inner_finished then Inl ''incomplete grpc-web response frame payload'' else Inr None)
              else let frame = take frame_len buffer; rest = drop frame_len buffer
                   in if 128 \<le> flags
                      then map_sum id (\<lambda>t. Some (ObservedTrailers t, rest)) (decode_grpc_web_trailer_block_for_observability header_name (drop 5 frame))
                      else Inr (Some (ObservedData, rest)))"

lemma observed_frame_shrinks:
  "decode_grpc_web_observability_frame header_name buffer fin saw = Inr (Some (f, rest)) \<Longrightarrow> length rest < length buffer"
  by (auto simp: decode_grpc_web_observability_frame_def Let_def map_sum_def split: if_splits sum.splits)

function observe_loop ::
    "(string \<Rightarrow> string option) \<Rightarrow> bool \<Rightarrow> observability_parser \<Rightarrow> grpc_observability \<Rightarrow>
     bool \<times> observability_parser \<times> grpc_observability" where
  "observe_loop header_name inner_finished p g =
     (case decode_grpc_web_observability_frame header_name (op_buffer p) inner_finished (op_saw_trailers p) of
        Inl _ \<Rightarrow> (False, p, g)
      | Inr None \<Rightarrow> (True, p, g)
      | Inr (Some (ObservedData, rest)) \<Rightarrow> observe_loop header_name inner_finished (p\<lparr> op_buffer := rest \<rparr>) g
      | Inr (Some (ObservedTrailers t, rest)) \<Rightarrow>
          observe_loop header_name inner_finished (p\<lparr> op_buffer := rest, op_saw_trailers := True \<rparr>) (update_from_headers g t))"
  by pat_completeness auto
termination by (relation "measure (\<lambda>(_, _, p, _). length (op_buffer p))") (auto dest: observed_frame_shrinks)

declare observe_loop.simps [simp del]

text \<open>The first component of the results says whether the source returned \<open>Ok\<close>.\<close>

definition observe_binary_chunk ::
    "(string \<Rightarrow> string option) \<Rightarrow> string \<Rightarrow> bool \<Rightarrow> observability_parser \<Rightarrow> grpc_observability \<Rightarrow>
     bool \<times> observability_parser \<times> grpc_observability" where
  "observe_binary_chunk header_name data inner_finished p g =
     observe_loop header_name inner_finished (p\<lparr> op_buffer := op_buffer p @ data \<rparr>) g"

definition disable_unless :: "bool \<times> observability_parser \<times> grpc_observability \<Rightarrow> observability_parser \<times> grpc_observability" where
  "disable_unless r = (case r of (ok, p, g) \<Rightarrow> (if ok then p else p\<lparr> op_disabled := True \<rparr>, g))"

definition observe_chunk ::
    "base64 \<Rightarrow> (string \<Rightarrow> string option) \<Rightarrow> string \<Rightarrow> observability_parser \<Rightarrow> grpc_observability \<Rightarrow> observability_parser \<times> grpc_observability" where
  "observe_chunk b64 header_name data p g =
     (if op_disabled p then (p, g)
      else disable_unless
        (if op_is_text p then
           (case decode_grpc_web_text_observability_chunk b64 (op_encoded_carryover p) data of
              (Inl _, c) \<Rightarrow> (False, p\<lparr> op_encoded_carryover := c \<rparr>, g)
            | (Inr None, c) \<Rightarrow> (True, p\<lparr> op_encoded_carryover := c \<rparr>, g)
            | (Inr (Some decoded), c) \<Rightarrow> observe_binary_chunk header_name decoded False (p\<lparr> op_encoded_carryover := c \<rparr>) g)
         else observe_binary_chunk header_name data False p g))"

definition observe_finish ::
    "base64 \<Rightarrow> (string \<Rightarrow> string option) \<Rightarrow> observability_parser \<Rightarrow> grpc_observability \<Rightarrow> observability_parser \<times> grpc_observability" where
  "observe_finish b64 header_name p g =
     (if op_disabled p then (p, g)
      else disable_unless
        (if op_is_text p then
           (case decode_grpc_web_text_observability_final b64 (op_encoded_carryover p) of
              (Inl _, c) \<Rightarrow> (False, p\<lparr> op_encoded_carryover := c \<rparr>, g)
            | (Inr decoded, c) \<Rightarrow>
                observe_binary_chunk header_name (case decoded of Some d \<Rightarrow> d | None \<Rightarrow> []) True (p\<lparr> op_encoded_carryover := c \<rparr>) g)
         else observe_binary_chunk header_name [] True p g))"

text \<open>The body that logs: the events it has logged are its last field.\<close>

record grpc_access_log_body =
  gl_inner :: "body_event list"
  gl_finalized :: bool
  gl_grpc :: grpc_observability
  gl_grpc_web :: "observability_parser option"
  gl_stream_completed :: bool
  gl_logged :: "grpc_observability list"

definition grpc_access_log_body_new :: "body_event list \<Rightarrow> grpc_observability \<Rightarrow> grpc_access_log_body" where
  "grpc_access_log_body_new inner g =
     \<lparr> gl_inner = inner, gl_finalized = False, gl_grpc = g, gl_grpc_web = parser_for_protocol (go_protocol g),
       gl_stream_completed = False, gl_logged = [] \<rparr>"

definition finalize_log :: "grpc_access_log_body \<Rightarrow> grpc_access_log_body" where
  "finalize_log b = (if gl_finalized b then b else b\<lparr> gl_finalized := True, gl_logged := gl_logged b @ [gl_grpc b] \<rparr>)"

definition log_body_finish :: "base64 \<Rightarrow> (string \<Rightarrow> string option) \<Rightarrow> grpc_access_log_body \<Rightarrow> grpc_access_log_body" where
  "log_body_finish b64 header_name b =
     finalize_log (case gl_grpc_web b of
        None \<Rightarrow> b
      | Some p \<Rightarrow> (case observe_finish b64 header_name p (gl_grpc b) of (p', g') \<Rightarrow> b\<lparr> gl_grpc_web := Some p', gl_grpc := g' \<rparr>))"

fun observe_frame :: "base64 \<Rightarrow> (string \<Rightarrow> string option) \<Rightarrow> grpc_access_log_body \<Rightarrow> body_frame \<Rightarrow> grpc_access_log_body" where
  "observe_frame b64 header_name b (FTrailers t) = b\<lparr> gl_grpc := update_from_headers (gl_grpc b) t \<rparr>"
| "observe_frame b64 header_name b (FData d) =
     (case gl_grpc_web b of
        None \<Rightarrow> b
      | Some p \<Rightarrow> (case observe_chunk b64 header_name d p (gl_grpc b) of (p', g') \<Rightarrow> b\<lparr> gl_grpc_web := Some p', gl_grpc := g' \<rparr>))"

fun is_trailers :: "body_frame \<Rightarrow> bool" where
  "is_trailers (FTrailers _) = True"
| "is_trailers (FData _) = False"

text \<open>\<open>end_stream\<close> is \<open>is_end_stream\<close> of the wrapped body.\<close>

definition log_body_poll ::
    "base64 \<Rightarrow> (string \<Rightarrow> string option) \<Rightarrow> (body_event list \<Rightarrow> bool) \<Rightarrow> grpc_access_log_body \<Rightarrow> poll_result \<times> grpc_access_log_body" where
  "log_body_poll b64 header_name end_stream b =
     (case gl_inner b of
        [] \<Rightarrow> (PollEnd, log_body_finish b64 header_name (b\<lparr> gl_stream_completed := True \<rparr>))
      | EvPending # inner \<Rightarrow> (PollPending, b\<lparr> gl_inner := inner \<rparr>)
      | EvError e # inner \<Rightarrow> (PollError e, log_body_finish b64 header_name (b\<lparr> gl_inner := inner, gl_stream_completed := True \<rparr>))
      | EvFrame f # inner \<Rightarrow>
          (let stream_completed = (is_trailers f \<or> end_stream inner);
               b1 = observe_frame b64 header_name (b\<lparr> gl_inner := inner \<rparr>) f
           in (PollFrame f, if stream_completed then log_body_finish b64 header_name (b1\<lparr> gl_stream_completed := True \<rparr>) else b1)))"

definition mark_cancelled_if_dropped_early :: "grpc_access_log_body \<Rightarrow> grpc_access_log_body" where
  "mark_cancelled_if_dropped_early b =
     (if gl_stream_completed b \<or> go_status (gl_grpc b) \<noteq> None then b
      else let g = (gl_grpc b)\<lparr> go_status := Some (grpc_code GrpcCancelled) \<rparr>
           in b\<lparr> gl_grpc := (if go_message g = None then g\<lparr> go_message := Some ''downstream cancelled'' \<rparr> else g) \<rparr>)"

definition log_body_drop :: "base64 \<Rightarrow> (string \<Rightarrow> string option) \<Rightarrow> grpc_access_log_body \<Rightarrow> grpc_access_log_body" where
  "log_body_drop b64 header_name b = log_body_finish b64 header_name (mark_cancelled_if_dropped_early b)"

fun log_body_polls ::
    "base64 \<Rightarrow> (string \<Rightarrow> string option) \<Rightarrow> (body_event list \<Rightarrow> bool) \<Rightarrow> nat \<Rightarrow> grpc_access_log_body \<Rightarrow> grpc_access_log_body" where
  "log_body_polls b64 header_name end_stream 0 b = b"
| "log_body_polls b64 header_name end_stream (Suc n) b =
     log_body_polls b64 header_name end_stream n (snd (log_body_poll b64 header_name end_stream b))"

section \<open>One event for every response\<close>

lemma finalize_log_simps [simp]:
  "gl_finalized (finalize_log b)" "gl_stream_completed (finalize_log b) = gl_stream_completed b"
  "gl_logged (finalize_log b) = (if gl_finalized b then gl_logged b else gl_logged b @ [gl_grpc b])"
  "gl_inner (finalize_log b) = gl_inner b" "gl_grpc_web (finalize_log b) = gl_grpc_web b"
  by (simp_all add: finalize_log_def)

lemma log_body_finish_simps [simp]:
  "gl_finalized (log_body_finish b64 header_name b)"
  "gl_stream_completed (log_body_finish b64 header_name b) = gl_stream_completed b"
  "gl_finalized b \<Longrightarrow> gl_logged (log_body_finish b64 header_name b) = gl_logged b"
  by (simp_all add: log_body_finish_def split: option.split prod.split)

lemma observe_frame_simps [simp]:
  "gl_finalized (observe_frame b64 header_name b f) = gl_finalized b"
  "gl_stream_completed (observe_frame b64 header_name b f) = gl_stream_completed b"
  "gl_logged (observe_frame b64 header_name b f) = gl_logged b"
  "gl_inner (observe_frame b64 header_name b f) = gl_inner b"
  by (cases f; simp split: option.split prod.split)+

definition logging_ok :: "grpc_access_log_body \<Rightarrow> bool" where
  "logging_ok b \<longleftrightarrow> gl_finalized b = gl_stream_completed b \<and> length (gl_logged b) = (if gl_finalized b then 1 else 0)"

lemma finish_logged:
  "\<not> gl_finalized b \<Longrightarrow> \<exists>g. gl_logged (log_body_finish b64 header_name b) = gl_logged b @ [g]"
  by (simp add: log_body_finish_def split: option.split prod.split)

lemma finish_length:
  "length (gl_logged (log_body_finish b64 header_name b)) = (if gl_finalized b then length (gl_logged b) else Suc (length (gl_logged b)))"
  using finish_logged [of b b64 header_name] by auto

lemma log_body_poll_ok: "logging_ok b \<Longrightarrow> logging_ok (snd (log_body_poll b64 header_name end_stream b))"
  by (auto simp: log_body_poll_def logging_ok_def finish_length Let_def split: list.split body_event.split)

lemma log_body_polls_ok: "logging_ok b \<Longrightarrow> logging_ok (log_body_polls b64 header_name end_stream n b)"
  by (induction n arbitrary: b) (simp_all add: log_body_poll_ok)

text \<open>A status, once observed, is never lost.\<close>

lemma update_keeps_status: "go_status g \<noteq> None \<Longrightarrow> go_status (update_from_headers g h) \<noteq> None"
  by (auto simp: update_from_headers_def Let_def split: option.splits)

lemma observe_loop_keeps_status:
  "go_status g \<noteq> None \<Longrightarrow> go_status (snd (snd (observe_loop header_name fin p g))) \<noteq> None"
proof (induction header_name fin p g rule: observe_loop.induct)
  case (1 header_name fin p g)
  let ?d = "decode_grpc_web_observability_frame header_name (op_buffer p) fin (op_saw_trailers p)"
  consider e where "?d = Inl e" | "?d = Inr None" | rest where "?d = Inr (Some (ObservedData, rest))"
    | t rest where "?d = Inr (Some (ObservedTrailers t, rest))" by (metis observed_frame.exhaust option.exhaust prod.exhaust sum.exhaust)
  then show ?case
    using "1.IH" "1.prems" update_keeps_status by cases (simp_all add: observe_loop.simps [of header_name fin p])
qed

lemma observe_finish_keeps_status:
  "go_status g \<noteq> None \<Longrightarrow> go_status (snd (observe_finish b64 header_name p g)) \<noteq> None"
  using observe_loop_keeps_status
  by (auto simp: observe_finish_def disable_unless_def observe_binary_chunk_def split: prod.splits sum.splits) (metis snd_conv)+

lemma drop_logged:
  assumes "logging_ok b"
  shows "\<exists>g. gl_logged (log_body_drop b64 header_name b) = [g] \<and> (\<not> gl_stream_completed b \<longrightarrow> go_status g \<noteq> None)"
proof (cases "gl_finalized b")
  case True
  with assms show ?thesis
    by (cases "gl_logged b") (auto simp: logging_ok_def log_body_drop_def mark_cancelled_if_dropped_early_def)
next
  case False
  let ?m = "mark_cancelled_if_dropped_early b"
  from False assms have m: "go_status (gl_grpc ?m) \<noteq> None" "gl_logged ?m = []" "\<not> gl_finalized ?m"
    by (auto simp: mark_cancelled_if_dropped_early_def logging_ok_def Let_def)
  show ?thesis
    using m observe_finish_keeps_status [OF m(1)]
    by (auto simp: log_body_drop_def log_body_finish_def split: option.split prod.split) (metis snd_conv)+
qed

text \<open>A native gRPC response: data frames, then the trailers.\<close>

fun before_trailers :: "body_event list \<Rightarrow> bool" where
  "before_trailers [] = True"
| "before_trailers (EvPending # es) = before_trailers es"
| "before_trailers (EvFrame (FData _) # es) = before_trailers es"
| "before_trailers (_ # es) = False"

lemma native_polls:
  assumes "\<forall>es. end_stream es \<longrightarrow> es = []" and "before_trailers pre" and "length pre < n"
    and "gl_inner b = pre @ EvFrame (FTrailers t) # post" and "gl_grpc_web b = None" and "\<not> gl_finalized b" and "gl_logged b = []"
  shows "gl_logged (log_body_polls b64 header_name end_stream n b) = [update_from_headers (gl_grpc b) t]
     \<and> gl_finalized (log_body_polls b64 header_name end_stream n b)"
  using assms(2-)
proof (induction n arbitrary: pre b)
  case (Suc n)
  have stop: "gl_finalized b' \<Longrightarrow> gl_logged (log_body_polls b64 header_name end_stream k b') = gl_logged b'
      \<and> gl_finalized (log_body_polls b64 header_name end_stream k b')" for k b'
  proof (induction k arbitrary: b')
    case (Suc k)
    have "gl_finalized (snd (log_body_poll b64 header_name end_stream b'))
        \<and> gl_logged (snd (log_body_poll b64 header_name end_stream b')) = gl_logged b'"
      using Suc.prems by (auto simp: log_body_poll_def Let_def split: list.split body_event.split)
    with Suc.IH show ?case by simp
  qed simp
  show ?case
  proof (cases pre rule: before_trailers.cases)
    case 1
    let ?b' = "snd (log_body_poll b64 header_name end_stream b)"
    have "gl_finalized ?b' \<and> gl_logged ?b' = [update_from_headers (gl_grpc b) t]"
      using Suc.prems 1 by (simp add: log_body_poll_def log_body_finish_def finalize_log_def)
    with stop [of ?b' n] show ?thesis by simp
  next
    case (2 es)
    with Suc show ?thesis by (simp add: log_body_poll_def)
  next
    case (3 d es)
    have "\<not> end_stream (es @ EvFrame (FTrailers t) # post)" using assms(1) by blast
    with Suc 3 show ?thesis by (simp add: log_body_poll_def)
  qed (use Suc.prems in auto)
qed simp

text \<open>
  Every gRPC response is logged once, with its status.  However often its
  body is polled before it is dropped, the body leaves exactly one access log
  event; one without a status only if the stream had ended, for a body that
  is dropped earlier is logged as cancelled; and when a native gRPC response
  was polled past its trailers, the event has the status and the message of
  those trailers.
\<close>

theorem grpc_response_logged_once:
  assumes "\<forall>es. end_stream es \<longrightarrow> es = []"
  shows "\<exists>h. gl_logged (log_body_drop b64 header_name (log_body_polls b64 header_name end_stream n (grpc_access_log_body_new inner g))) = [h]
     \<and> (\<not> gl_stream_completed (log_body_polls b64 header_name end_stream n (grpc_access_log_body_new inner g)) \<longrightarrow> go_status h \<noteq> None)
     \<and> (\<forall>pre t post. go_protocol g = ''grpc'' \<and> inner = pre @ EvFrame (FTrailers t) # post \<and> before_trailers pre \<and> length pre < n \<longrightarrow>
          h = update_from_headers g t)"
proof -
  let ?start = "grpc_access_log_body_new inner g"
  let ?b = "log_body_polls b64 header_name end_stream n ?start"
  have "logging_ok ?start" by (simp add: logging_ok_def grpc_access_log_body_new_def)
  then have "logging_ok ?b" by (rule log_body_polls_ok)
  from drop_logged [OF this, of b64 header_name] obtain h where
    h: "gl_logged (log_body_drop b64 header_name ?b) = [h]" "\<not> gl_stream_completed ?b \<longrightarrow> go_status h \<noteq> None" by metis
  have "h = update_from_headers g t"
    if "go_protocol g = ''grpc''" "inner = pre @ EvFrame (FTrailers t) # post" "before_trailers pre" "length pre < n" for pre t post
  proof -
    have "gl_logged ?b = [update_from_headers g t] \<and> gl_finalized ?b"
      using native_polls [OF assms that(3,4), of ?start t post b64 header_name] that(1,2)
      by (simp add: grpc_access_log_body_new_def parser_for_protocol_def)
    with h(1) show ?thesis by (simp add: log_body_drop_def mark_cancelled_if_dropped_early_def Let_def split: if_splits)
  qed
  with h show ?thesis by blast
qed

theorem grpc_response_logged_once_witness:
  "\<exists>h. gl_logged (log_body_drop rfc_base64 Some (log_body_polls rfc_base64 Some (\<lambda>es. es = []) 2
       (grpc_access_log_body_new [EvFrame (FData ''m''), EvFrame (FTrailers [(''grpc-status'', ''5'')])]
          \<lparr> go_protocol = ''grpc'', go_service = ''S'', go_method = ''M'', go_status = None, go_message = None \<rparr>))) = [h]
     \<and> go_status h = Some ''5''"
proof -
  let ?inner = "[EvFrame (FData ''m''), EvFrame (FTrailers [(''grpc-status'', ''5'')])]"
  let ?g = "\<lparr> go_protocol = ''grpc'', go_service = ''S'', go_method = ''M'', go_status = None, go_message = None \<rparr>"
  obtain h where h: "gl_logged (log_body_drop rfc_base64 Some (log_body_polls rfc_base64 Some (\<lambda>es. es = []) 2 (grpc_access_log_body_new ?inner ?g))) = [h]"
    and all: "\<forall>pre t post. go_protocol ?g = ''grpc'' \<and> ?inner = pre @ EvFrame (FTrailers t) # post \<and> before_trailers pre \<and> length pre < 2 \<longrightarrow>
          h = update_from_headers ?g t"
    using grpc_response_logged_once [of "\<lambda>es. es = []" rfc_base64 Some 2 ?inner ?g] by blast
  have "h = update_from_headers ?g [(''grpc-status'', ''5'')]"
    using all [rule_format, of "[EvFrame (FData ''m'')]" "[(''grpc-status'', ''5'')]" "[]"] by simp
  moreover have "go_status (update_from_headers ?g [(''grpc-status'', ''5'')]) = Some ''5''" by code_simp
  ultimately show ?thesis using h by blast
qed

section \<open>Error responses\<close>

text \<open>How a gRPC client reads a percent-encoded message.\<close>

definition hex_digit :: "char \<Rightarrow> nat" where
  "hex_digit c = (if is_digit c then digit_val c else of_char c - 55)"

fun percent_decode :: "string \<Rightarrow> string" where
  "percent_decode [] = []"
| "percent_decode (c # cs) =
     (if c = CHR ''%'' then
        (case cs of h # l # rest \<Rightarrow> char_of (hex_digit h * 16 + hex_digit l) # percent_decode rest | _ \<Rightarrow> c # cs)
      else c # percent_decode cs)"

lemma upper_hex_all: "list_all (\<lambda>d. hex_digit (upper_hex d) = d \<and> byte_in 0x21 0x7E (upper_hex d)) [0..<16]"
  by code_simp

lemma upper_hex: "d < 16 \<Longrightarrow> hex_digit (upper_hex d) = d \<and> byte_in 0x21 0x7E (upper_hex d)"
  using upper_hex_all by (simp add: list_all_iff)

lemma percent_decode_byte: "percent_decode (encode_grpc_byte c @ rest) = c # percent_decode rest"
proof -
  have "(of_char c :: nat) div 16 < 16" using nat_of_char_less_256 [of c] by (intro less_mult_imp_div_less) simp
  then have "hex_digit (upper_hex (of_char c div 16)) * 16 + hex_digit (upper_hex (of_char c mod 16)) = of_char c"
    using upper_hex [of "of_char c div 16"] upper_hex [of "of_char c mod 16"] by simp
  then show ?thesis by (auto simp: encode_grpc_byte_def simp del: of_char_mod_256)
qed

lemma percent_decode_encoded: "percent_decode (encode_grpc_message message) = str_trim message"
proof -
  have "percent_decode (concat (map encode_grpc_byte s)) = s" for s
    by (induction s) (simp_all add: percent_decode_byte)
  then show ?thesis by (simp add: encode_grpc_message_def)
qed

lemma encode_grpc_byte_chars:
  "encode_grpc_byte c \<noteq> []" "list_all (byte_in 0x20 0x7E) (encode_grpc_byte c)"
  "\<not> is_ws c \<Longrightarrow> \<not> is_ws (hd (encode_grpc_byte c)) \<and> \<not> is_ws (last (encode_grpc_byte c))"
proof -
  have "(of_char c :: nat) div 16 < 16" using nat_of_char_less_256 [of c] by (intro less_mult_imp_div_less) simp
  then have h: "byte_in 0x21 0x7E (upper_hex (of_char c div 16))" "byte_in 0x21 0x7E (upper_hex (of_char c mod 16))"
    using upper_hex by simp_all
  have w: "byte_in 0x21 0x7E x \<Longrightarrow> \<not> is_ws x" for x by (auto simp: byte_in_def is_ws_def)
  show "encode_grpc_byte c \<noteq> []" by (simp add: encode_grpc_byte_def)
  show "list_all (byte_in 0x20 0x7E) (encode_grpc_byte c)" using h by (auto simp: encode_grpc_byte_def byte_in_def)
  show "\<not> is_ws c \<Longrightarrow> \<not> is_ws (hd (encode_grpc_byte c)) \<and> \<not> is_ws (last (encode_grpc_byte c))"
    using w [OF h(2)] by (auto simp: encode_grpc_byte_def is_ws_def)
qed

lemma str_trim_ends:
  assumes "str_trim s \<noteq> []"
  shows "\<not> is_ws (hd (str_trim s))" and "\<not> is_ws (last (str_trim s))"
proof -
  let ?y = "dropWhile is_ws s" and ?d = "dropWhile is_ws (rev (dropWhile is_ws s))"
  have d: "?d \<noteq> []" using assms by (simp add: str_trim_def)
  show "\<not> is_ws (last (str_trim s))" using hd_dropWhile [OF d] d by (simp add: str_trim_def last_rev)
  have "rev (takeWhile is_ws (rev ?y) @ ?d) = ?y" by (simp only: takeWhile_dropWhile_id rev_rev_ident)
  then have y: "?y = rev ?d @ rev (takeWhile is_ws (rev ?y))" unfolding rev_append by (rule sym)
  then have "?y \<noteq> []" using d by (metis append_is_Nil_conv rev_is_Nil_conv)
  moreover have "hd ?y = hd (rev ?d)" using d y by (metis hd_append2 rev_is_Nil_conv)
  ultimately show "\<not> is_ws (hd (str_trim s))" using hd_dropWhile [of is_ws s] by (simp add: str_trim_def)
qed

lemma encoded_message_ok:
  assumes "str_trim message \<noteq> []"
  shows "encode_grpc_message message \<noteq> []" and "str_trim (encode_grpc_message message) = encode_grpc_message message"
    and "utf8_valid (encode_grpc_message message)" and "header_value_of (encode_grpc_message message) = Some (encode_grpc_message message)"
proof -
  obtain c cs where c: "str_trim message = c # cs" using assms by (cases "str_trim message") auto
  obtain ds d where d: "str_trim message = ds @ [d]" using assms by (cases "str_trim message" rule: rev_cases) auto
  have ends: "\<not> is_ws c" "\<not> is_ws d"
    using str_trim_ends(1) [OF assms] str_trim_ends(2) [OF assms] unfolding c by (simp, metis c d last_snoc)
  have first: "encode_grpc_message message = encode_grpc_byte c @ concat (map encode_grpc_byte cs)" by (simp add: encode_grpc_message_def c)
  have final: "encode_grpc_message message = concat (map encode_grpc_byte ds) @ encode_grpc_byte d" by (simp add: encode_grpc_message_def d)
  show "encode_grpc_message message \<noteq> []" using first encode_grpc_byte_chars(1) by simp
  have "\<not> is_ws (hd (encode_grpc_message message))" unfolding first using encode_grpc_byte_chars(1,3) ends by simp
  moreover have "\<not> is_ws (last (encode_grpc_message message))" unfolding final using encode_grpc_byte_chars(1,3) ends by simp
  ultimately show "str_trim (encode_grpc_message message) = encode_grpc_message message" by (rule str_trim_id)
  have a: "list_all (byte_in 0x20 0x7E) (encode_grpc_message message)"
    using encode_grpc_byte_chars(2) by (auto simp: encode_grpc_message_def list_all_iff)
  show "utf8_valid (encode_grpc_message message)" by (rule utf8_valid_ascii) (use a in \<open>auto simp: list_all_iff byte_in_def\<close>)
  show "header_value_of (encode_grpc_message message) = Some (encode_grpc_message message)"
    using a by (auto simp: header_value_of_def list_all_iff byte_in_def header_value_byte_def)
qed

definition error_trailers :: "grpc_status_code \<Rightarrow> string \<Rightarrow> header_map" where
  "error_trailers status message = (''grpc-status'', grpc_code status) # optional_header ''grpc-message'' (grpc_message_value message)"

lemma error_trailers_iter: "hm_iter (error_trailers status message) = error_trailers status message"
  by (simp add: error_trailers_def hm_iter_def hm_keys_def hm_get_all_def optional_header_def split: option.split)

lemma encode_grpc_message_length: "length (encode_grpc_message message) \<le> 3 * length message"
proof -
  have "length (concat (map encode_grpc_byte s)) \<le> 3 * length s" for s
    by (induction s) (auto simp: encode_grpc_byte_def)
  from this [of "str_trim message"] length_dropWhile_le [of is_ws "rev (dropWhile is_ws message)"] length_dropWhile_le [of is_ws message]
  show ?thesis by (simp add: encode_grpc_message_def str_trim_def)
qed

lemma error_trailers_printable:
  assumes "header_name ''grpc-status'' = Some ''grpc-status''" and "header_name ''grpc-message'' = Some ''grpc-message''"
    and "length message < 2 ^ 30"
  shows "printable_trailers header_name (error_trailers status message)"
proof -
  have code: "grpc_code status \<noteq> []" "list_all is_digit (grpc_code status)" "length (grpc_code status) \<le> 2"
    by (cases status; simp add: is_digit_def)+
  have digit: "is_digit c \<Longrightarrow> byte_in 0x20 0x7E c \<and> \<not> is_ws c" for c by (auto simp: is_digit_def byte_in_def is_ws_def)
  have "str_trim (grpc_code status) = grpc_code status" using code digit by (intro str_trim_id) (auto simp: list_all_iff)
  moreover have "utf8_valid (grpc_code status)"
    by (rule utf8_valid_ascii) (use code(2) in \<open>auto simp: list_all_iff byte_in_def is_digit_def\<close>)
  moreover have "header_value_of (grpc_code status) = Some (grpc_code status)"
    using code(2) by (auto simp: header_value_of_def list_all_iff is_digit_def header_value_byte_def)
  moreover have m: "grpc_message_value message = None \<or> grpc_message_value message = Some (encode_grpc_message message) \<and> str_trim message \<noteq> []"
    by (auto simp: grpc_message_value_def encode_grpc_message_def header_value_of_def Let_def)
  moreover have "length (encode_grpc_web_trailers (error_trailers status message)) < 2 ^ 32"
    using m code(3) encode_grpc_message_length [of message] assms(3)
    unfolding encode_grpc_web_trailers_def error_trailers_iter Let_def
    by (auto simp: error_trailers_def optional_header_def)
  ultimately show ?thesis
    unfolding printable_trailers_def error_trailers_iter using assms encoded_message_ok [of message]
    by (auto simp: error_trailers_def optional_header_def)
qed

text \<open>
  A gRPC error is readable by the client it is meant for.  The error
  response to a gRPC request has status 200, the content type of the request,
  the length of its body and the gRPC status as a header; its message header
  percent-decodes to the message; and for gRPC-Web the body, or its base64 form
  in the text encoding, is one trailer frame that decodes to that status and
  message.
\<close>

theorem grpc_error_is_readable:
  assumes "grpc_error_response b64 request_headers status message = Some r"
    and "header_name ''grpc-status'' = Some ''grpc-status''" and "header_name ''grpc-message'' = Some ''grpc-message''"
    and "length message < 2 ^ 30"
  shows "hr_status r = 200
     \<and> hm_get (hr_headers r) ''content-type'' = hm_get request_headers ''content-type''
     \<and> hm_get (hr_headers r) ''grpc-status'' = Some (grpc_code status)
     \<and> (str_trim message \<noteq> [] \<longrightarrow> map_option percent_decode (hm_get (hr_headers r) ''grpc-message'') = Some (str_trim message))
     \<and> (\<exists>body. drain_body (hr_body r) = (body, True) \<and> hm_get (hr_headers r) ''content-length'' = Some (show_nat (length body))
          \<and> (body = [] \<or> (\<exists>frame. (body = frame \<or> body = b64_encode b64 frame)
               \<and> decode_grpc_web_request_frame header_name frame True False =
                   Inr (Some (ParsedTrailers (error_trailers status message), [])))))"
proof -
  from assms(1) obtain f where f: "grpc_response_format_of request_headers = Some f" and r: "r = build_grpc_error_response b64 f status message"
    by (auto simp: grpc_error_response_def)
  note printable = error_trailers_printable [OF assms(2-4), of status]
  note frame = decode_printed_trailers [OF printable, of True, unfolded error_trailers_iter]
  have message: "map_option percent_decode (grpc_message_value message) = Some (str_trim message)" if "str_trim message \<noteq> []"
    using encoded_message_ok [OF that] by (simp add: grpc_message_value_def Let_def percent_decode_encoded)
  have zero: "show_nat 0 = ''0''" by code_simp
  note defs = hm_get_def hm_get_all_def optional_header_def
  show ?thesis
  proof (cases f)
    case (FormatGrpc ct)
    with f have ct: "hm_get request_headers ''content-type'' = Some ct"
      by (auto simp: grpc_response_format_of_def split: option.splits if_splits)
    have "hr_status r = 200 \<and> hm_get (hr_headers r) ''content-type'' = Some ct \<and> hm_get (hr_headers r) ''grpc-status'' = Some (grpc_code status)
        \<and> hm_get (hr_headers r) ''grpc-message'' = grpc_message_value message \<and> drain_body (hr_body r) = ([], True)
        \<and> hm_get (hr_headers r) ''content-length'' = Some (show_nat (length ([] :: string)))"
      using FormatGrpc by (simp add: r defs zero split: option.split)
    then show ?thesis using message unfolding ct by metis
  next
    case (FormatGrpcWeb ct t)
    with f have ct: "hm_get request_headers ''content-type'' = Some ct"
      by (auto simp: grpc_response_format_of_def split: option.splits if_splits)
    let ?body = "encode_grpc_web_error_body b64 (error_trailers status message) t"
    have "drain_body (hr_body r) = (?body, True) \<and> hm_get (hr_headers r) ''content-length'' = Some (show_nat (length ?body))"
      using FormatGrpcWeb by (simp add: r Let_def error_trailers_def defs)
    moreover have "?body = encode_grpc_web_trailers (error_trailers status message)
        \<or> ?body = b64_encode b64 (encode_grpc_web_trailers (error_trailers status message))"
      by (simp add: encode_grpc_web_error_body_def Let_def)
    moreover have "hr_status r = 200 \<and> hm_get (hr_headers r) ''content-type'' = Some ct \<and> hm_get (hr_headers r) ''grpc-status'' = Some (grpc_code status)
        \<and> hm_get (hr_headers r) ''grpc-message'' = grpc_message_value message"
      using FormatGrpcWeb by (simp add: r Let_def defs split: option.split)
    ultimately show ?thesis using message frame unfolding ct by metis
  qed
qed

theorem grpc_error_is_readable_witness:
  "\<exists>r. grpc_error_response rfc_base64 [(''content-type'', ''application/grpc-web'')] GrpcUnavailable (''50% down'' @ newline) = Some r
     \<and> hm_get (hr_headers r) ''grpc-status'' = Some ''14''
     \<and> map_option percent_decode (hm_get (hr_headers r) ''grpc-message'') = Some ''50% down''"
proof -
  have f: "grpc_response_format_of [(''content-type'', ''application/grpc-web'')] = Some (FormatGrpcWeb ''application/grpc-web'' False)" by code_simp
  then obtain r where r: "grpc_error_response rfc_base64 [(''content-type'', ''application/grpc-web'')] GrpcUnavailable (''50% down'' @ newline) = Some r"
    by (simp add: grpc_error_response_def)
  have t: "str_trim (''50% down'' @ newline) = ''50% down''" by code_simp
  from grpc_error_is_readable [OF r, of Some] t show ?thesis using r by (auto simp: newline_def)
qed

end
