(* ===== verification/Timeouts.thy ===== *)
theory Timeouts
  imports Grpc_Handler
begin

text \<open>
  The bodies that bound time and size (\<open>crates/rginx-http/src/timeout\<close>): the
  idle timeout of a body, the deadline of a gRPC response, the limit on the
  bytes of a request, and the write timeout of a connection.  A poll happens
  at a time and consumes the next event of the wrapped body; a timer is the
  time at which it fires.  An error is the chain of errors that
  \<open>Error::source\<close> walks, each with its text, its kind when it is an
  \<open>io::Error\<close> and its limit when it is a \<open>RequestBodyLimitError\<close>.
\<close>

datatype io_kind = KindInvalidData | KindInvalidInput | KindTimedOut | KindBrokenPipe | KindOther

record err_node =
  en_text :: string
  en_kind :: "io_kind option"
  en_limit :: "nat option"

type_synonym box_error = "err_node list"

definition io_error_new :: "io_kind \<Rightarrow> string \<Rightarrow> box_error" where
  "io_error_new kind message = [\<lparr> en_text = message, en_kind = Some kind, en_limit = None \<rparr>]"

datatype req_event = ReqFrame body_frame | ReqError box_error | ReqPending

datatype req_poll = RPending | REnd | RFrame body_frame | RError box_error

section \<open>Timers\<close>

type_synonym idle_timer = "nat option"

definition reset_idle_timer :: "nat \<Rightarrow> idle_timer \<Rightarrow> duration \<Rightarrow> idle_timer" where
  "reset_idle_timer now sleep timeout = Some (now + timeout)"

definition arm_idle_timer :: "nat \<Rightarrow> idle_timer \<Rightarrow> duration \<Rightarrow> idle_timer" where
  "arm_idle_timer now sleep timeout = (if sleep = None then Some (now + timeout) else sleep)"

definition clear_idle_timer :: "idle_timer \<Rightarrow> idle_timer" where
  "clear_idle_timer sleep = None"

definition stalled_error :: "string \<Rightarrow> duration \<Rightarrow> box_error" where
  "stalled_error label timeout = io_error_new KindTimedOut (label @ '' stalled for '' @ show_nat (as_millis timeout) @ '' ms'')"

text \<open>The result is the error when the timer has fired, and none while it is pending.\<close>

definition poll_idle_timer :: "nat \<Rightarrow> idle_timer \<Rightarrow> duration \<Rightarrow> string \<Rightarrow> box_error option \<times> idle_timer" where
  "poll_idle_timer now sleep timeout label =
     (let s = arm_idle_timer now sleep timeout
      in (if the s \<le> now then Some (stalled_error label timeout) else None, s))"

definition poll_write_timeout :: "nat \<Rightarrow> idle_timer \<Rightarrow> duration \<Rightarrow> string \<Rightarrow> string \<Rightarrow> box_error option \<times> idle_timer" where
  "poll_write_timeout now sleep timeout label operation =
     (let s = arm_idle_timer now sleep timeout
      in (if the s \<le> now then Some (stalled_error (label @ '' '' @ operation) timeout) else None, s))"

text \<open>\<open>None\<close> is a pending write; the others are ready.\<close>

definition poll_write_side ::
    "nat \<Rightarrow> (box_error + 'a) option \<Rightarrow> duration option \<Rightarrow> idle_timer \<Rightarrow> string \<Rightarrow> string \<Rightarrow> (box_error + 'a) option \<times> idle_timer" where
  "poll_write_side now result timeout sleep label operation =
     (case result of
        Some r \<Rightarrow> (Some r, clear_idle_timer sleep)
      | None \<Rightarrow>
          (case timeout of
             None \<Rightarrow> (None, sleep)
           | Some t \<Rightarrow> (case poll_write_timeout now sleep t label operation of
                          (Some e, s) \<Rightarrow> (Some (Inl e), s) | (None, s) \<Rightarrow> (None, s))))"

section \<open>The idle timeout\<close>

record idle_timeout_body =
  it_timeout :: duration
  it_label :: string
  it_sleep :: idle_timer
  it_done :: bool

definition idle_timeout_new :: "duration \<Rightarrow> string \<Rightarrow> idle_timeout_body" where
  "idle_timeout_new timeout label = \<lparr> it_timeout = timeout, it_label = label, it_sleep = None, it_done = False \<rparr>"

text \<open>One poll; the event \<open>None\<close> is the end of the wrapped body.\<close>

definition idle_poll :: "nat \<Rightarrow> req_event option \<Rightarrow> idle_timeout_body \<Rightarrow> req_poll \<times> idle_timeout_body" where
  "idle_poll now ev s =
     (if it_done s then (REnd, s)
      else case ev of
        Some (ReqFrame f) \<Rightarrow>
          (RFrame f, s\<lparr> it_done := is_trailers f, it_sleep := reset_idle_timer now (it_sleep s) (it_timeout s) \<rparr>)
      | Some (ReqError e) \<Rightarrow> (RError e, s\<lparr> it_done := True \<rparr>)
      | None \<Rightarrow> (REnd, s\<lparr> it_done := True \<rparr>)
      | Some ReqPending \<Rightarrow>
          (case poll_idle_timer now (it_sleep s) (it_timeout s) (it_label s) of
             (Some e, sleep) \<Rightarrow> (RError e, s\<lparr> it_done := True, it_sleep := sleep \<rparr>)
           | (None, sleep) \<Rightarrow> (RPending, s\<lparr> it_sleep := sleep \<rparr>)))"

fun idle_polls :: "(nat \<times> req_event option) list \<Rightarrow> idle_timeout_body \<Rightarrow> idle_timeout_body" where
  "idle_polls [] s = s"
| "idle_polls ((now, ev) # rest) s = idle_polls rest (snd (idle_poll now ev s))"

section \<open>The deadline of a gRPC response\<close>

definition grpc_deadline_exceeded_trailers :: "string \<Rightarrow> header_map" where
  "grpc_deadline_exceeded_trailers message =
     (''grpc-status'', ''4'') # (if message \<noteq> [] then [(''grpc-message'', message)] else [])"

record grpc_deadline_body =
  gd_deadline :: nat
  gd_timeout_message :: string
  gd_done :: bool

definition deadline_poll :: "nat \<Rightarrow> req_event option \<Rightarrow> grpc_deadline_body \<Rightarrow> req_poll \<times> grpc_deadline_body" where
  "deadline_poll now ev s =
     (if gd_done s then (REnd, s)
      else case ev of
        Some (ReqFrame f) \<Rightarrow> (RFrame f, if is_trailers f then s\<lparr> gd_done := True \<rparr> else s)
      | Some (ReqError e) \<Rightarrow> (RError e, s\<lparr> gd_done := True \<rparr>)
      | None \<Rightarrow> (REnd, s\<lparr> gd_done := True \<rparr>)
      | Some ReqPending \<Rightarrow>
          if gd_deadline s \<le> now
          then (RFrame (FTrailers (grpc_deadline_exceeded_trailers (gd_timeout_message s))), s\<lparr> gd_done := True \<rparr>)
          else (RPending, s))"

section \<open>The limit on a request body\<close>

definition limit_message :: "nat \<Rightarrow> string" where
  "limit_message n = ''request body exceeded configured limit of '' @ show_nat n @ '' bytes''"

definition request_body_limit_error_new :: "nat \<Rightarrow> box_error" where
  "request_body_limit_error_new n = [\<lparr> en_text = limit_message n, en_kind = None, en_limit = Some n \<rparr>]"

record max_bytes_body =
  mb_inner :: "req_event list"
  mb_max :: nat
  mb_bytes_read :: nat
  mb_done :: bool

definition max_bytes_new :: "req_event list \<Rightarrow> nat \<Rightarrow> max_bytes_body" where
  "max_bytes_new inner limit = \<lparr> mb_inner = inner, mb_max = limit, mb_bytes_read = 0, mb_done = False \<rparr>"

definition max_bytes_poll :: "max_bytes_body \<Rightarrow> req_poll \<times> max_bytes_body" where
  "max_bytes_poll s =
     (if mb_done s then (REnd, s)
      else case mb_inner s of
        [] \<Rightarrow> (REnd, s\<lparr> mb_done := True \<rparr>)
      | ReqPending # inner \<Rightarrow> (RPending, s\<lparr> mb_inner := inner \<rparr>)
      | ReqError e # inner \<Rightarrow> (RError e, s\<lparr> mb_inner := inner, mb_done := True \<rparr>)
      | ReqFrame (FTrailers t) # inner \<Rightarrow> (RFrame (FTrailers t), s\<lparr> mb_inner := inner, mb_done := True \<rparr>)
      | ReqFrame (FData d) # inner \<Rightarrow>
          if mb_max s - mb_bytes_read s < length d
          then (RError (request_body_limit_error_new (mb_max s)), s\<lparr> mb_inner := inner, mb_done := True \<rparr>)
          else (RFrame (FData d), s\<lparr> mb_inner := inner, mb_bytes_read := mb_bytes_read s + length d \<rparr>))"

text \<open>\<open>size_hint\<close> from the hint of the wrapped body.\<close>

definition max_bytes_size_hint :: "nat \<times> nat option \<Rightarrow> max_bytes_body \<Rightarrow> nat \<times> nat option" where
  "max_bytes_size_hint hint s =
     (let remaining = mb_max s - mb_bytes_read s
      in (min (fst hint) remaining, Some (case snd hint of None \<Rightarrow> remaining | Some upper \<Rightarrow> min upper remaining)))"

text \<open>What a reader gets that polls until the body ends or fails.\<close>

function drain_limited :: "max_bytes_body \<Rightarrow> body_frame list \<times> box_error option" where
  "drain_limited s =
     (case max_bytes_poll s of
        (REnd, _) \<Rightarrow> ([], None)
      | (RError e, _) \<Rightarrow> ([], Some e)
      | (RPending, s') \<Rightarrow> drain_limited s'
      | (RFrame f, s') \<Rightarrow> (case drain_limited s' of (fs, r) \<Rightarrow> (f # fs, r)))"
  by pat_completeness auto
termination
  by (relation "measure (\<lambda>s. length (mb_inner s))")
     (auto simp: max_bytes_poll_def split: if_splits list.splits req_event.splits body_frame.splits)

declare drain_limited.simps [simp del]

section \<open>The size limit is exact\<close>

fun frames_size :: "body_frame list \<Rightarrow> nat" where
  "frames_size [] = 0"
| "frames_size (FData d # fs) = length d + frames_size fs"
| "frames_size (FTrailers _ # fs) = frames_size fs"

text \<open>The frames of a body up to its trailers, and the error that follows them, without a limit.\<close>

fun unlimited :: "req_event list \<Rightarrow> body_frame list \<times> box_error option" where
  "unlimited [] = ([], None)"
| "unlimited (ReqPending # inner) = unlimited inner"
| "unlimited (ReqError e # inner) = ([], Some e)"
| "unlimited (ReqFrame (FTrailers t) # inner) = ([FTrailers t], None)"
| "unlimited (ReqFrame (FData d) # inner) = (case unlimited inner of (fs, r) \<Rightarrow> (FData d # fs, r))"

lemma drain_limited_done: "mb_done s \<Longrightarrow> drain_limited s = ([], None)"
  by (simp add: drain_limited.simps max_bytes_poll_def)

lemma drain_limited_spec:
  assumes "unlimited inner = (fs, r)" and "n \<le> limit"
  shows "if n + frames_size fs \<le> limit
     then drain_limited \<lparr> mb_inner = inner, mb_max = limit, mb_bytes_read = n, mb_done = False \<rparr> = (fs, r)
     else \<exists>k. drain_limited \<lparr> mb_inner = inner, mb_max = limit, mb_bytes_read = n, mb_done = False \<rparr> =
            (take k fs, Some (request_body_limit_error_new limit)) \<and> n + frames_size (take k fs) \<le> limit"
  using assms
proof (induction inner arbitrary: fs r n rule: unlimited.induct)
  case 1
  then show ?case by (simp add: drain_limited.simps max_bytes_poll_def)
next
  case (2 inner)
  then show ?case by (simp add: drain_limited.simps [of "\<lparr> mb_inner = ReqPending # inner, mb_max = _, mb_bytes_read = _, mb_done = _ \<rparr>"] max_bytes_poll_def)
next
  case (3 e inner)
  then show ?case by (auto simp: drain_limited.simps max_bytes_poll_def)
next
  case (4 t inner)
  then show ?case
    by (auto simp: drain_limited.simps [of "\<lparr> mb_inner = ReqFrame (FTrailers t) # inner, mb_max = _, mb_bytes_read = _, mb_done = _ \<rparr>"]
        max_bytes_poll_def drain_limited_done)
next
  case (5 d inner)
  obtain gs where u: "unlimited inner = (gs, r)" and fs: "fs = FData d # gs" using "5.prems"(1) by (cases "unlimited inner") auto
  let ?s = "\<lparr> mb_inner = ReqFrame (FData d) # inner, mb_max = limit, mb_bytes_read = n, mb_done = False \<rparr>"
  show ?case
  proof (cases "limit - n < length d")
    case True
    then have "drain_limited ?s = (take 0 fs, Some (request_body_limit_error_new limit))"
      by (simp add: drain_limited.simps max_bytes_poll_def)
    with True "5.prems"(2) fs show ?thesis by (auto intro!: exI [of _ 0])
  next
    case False
    with "5.prems"(2) have le: "n + length d \<le> limit" by simp
    let ?s' = "\<lparr> mb_inner = inner, mb_max = limit, mb_bytes_read = n + length d, mb_done = False \<rparr>"
    have step: "drain_limited ?s = (case drain_limited ?s' of (fs, r) \<Rightarrow> (FData d # fs, r))"
      using False by (simp add: drain_limited.simps [of ?s] max_bytes_poll_def)
    from "5.IH" [OF u le] show ?thesis
    proof (cases "n + length d + frames_size gs \<le> limit")
      case True
      with "5.IH" [OF u le] show ?thesis by (simp add: step fs)
    next
      case False
      with "5.IH" [OF u le] obtain k where "drain_limited ?s' = (take k gs, Some (request_body_limit_error_new limit))"
        "n + length d + frames_size (take k gs) \<le> limit" by auto
      with False show ?thesis by (auto simp: step fs intro!: exI [of _ "Suc k"])
    qed
  qed
qed

text \<open>
  The limit on request bodies is exact.  A body of at most the configured
  number of bytes passes unchanged, with its trailers and its own error if it
  has one; a longer body delivers a prefix within the limit and then fails with
  the limit error, which carries the limit.
\<close>

theorem request_body_limit_is_exact:
  "let (fs, r) = unlimited inner; out = drain_limited (max_bytes_new inner limit)
   in frames_size (fst out) \<le> limit
      \<and> (if frames_size fs \<le> limit then out = (fs, r)
         else (\<exists>k. out = (take k fs, Some (request_body_limit_error_new limit))))"
proof -
  obtain fs r where u: "unlimited inner = (fs, r)" by (cases "unlimited inner")
  from drain_limited_spec [OF u, of 0 limit] show ?thesis by (auto simp: u max_bytes_new_def split: if_splits)
qed

section \<open>The idle timeout is exact\<close>

text \<open>When the timer of a body was last started: by the last frame, or by the first pending poll.\<close>

fun idle_since :: "nat option \<Rightarrow> (nat \<times> req_event option) list \<Rightarrow> nat option" where
  "idle_since since [] = since"
| "idle_since since ((now, Some (ReqFrame _)) # rest) = idle_since (Some now) rest"
| "idle_since since ((now, _) # rest) = idle_since (case since of None \<Rightarrow> Some now | Some t \<Rightarrow> Some t) rest"

lemma idle_poll_alive:
  assumes "\<not> it_done (snd (idle_poll now ev s))"
  shows "\<not> it_done s" and "it_timeout (snd (idle_poll now ev s)) = it_timeout s" and "it_label (snd (idle_poll now ev s)) = it_label s"
    and "(\<exists>f. ev = Some (ReqFrame f)) \<and> it_sleep (snd (idle_poll now ev s)) = Some (now + it_timeout s)
       \<or> ev = Some ReqPending \<and> it_sleep (snd (idle_poll now ev s)) = (case it_sleep s of None \<Rightarrow> Some (now + it_timeout s) | Some d \<Rightarrow> Some d)"
  using assms by (auto simp: idle_poll_def poll_idle_timer_def arm_idle_timer_def reset_idle_timer_def Let_def
      split: if_splits option.splits req_event.splits prod.splits)

lemma idle_polls_done: "it_done s \<Longrightarrow> it_done (idle_polls polls s)"
  by (induction polls s rule: idle_polls.induct) (simp_all add: idle_poll_def)

lemma idle_since_split: "idle_since since (p # polls) = idle_since (idle_since since [p]) polls"
  by (cases "(since, [p])" rule: idle_since.cases) auto

lemma idle_polls_alive:
  assumes "\<not> it_done (idle_polls polls s)" and "it_sleep s = map_option (\<lambda>t. t + it_timeout s) since"
  shows "it_timeout (idle_polls polls s) = it_timeout s \<and> it_label (idle_polls polls s) = it_label s
     \<and> it_sleep (idle_polls polls s) = map_option (\<lambda>t. t + it_timeout s) (idle_since since polls)"
  using assms
proof (induction polls arbitrary: s since)
  case (Cons p polls)
  obtain now ev where p: "p = (now, ev)" by (cases p)
  let ?s = "snd (idle_poll now ev s)" and ?since = "idle_since since [(now, ev)]"
  have alive: "\<not> it_done ?s" using Cons.prems(1) idle_polls_done [of ?s polls] by (auto simp: p)
  note step = idle_poll_alive [OF alive]
  have "it_sleep ?s = map_option (\<lambda>t. t + it_timeout ?s) ?since"
    using step(2,4) Cons.prems(2) by (auto split: option.splits)
  with Cons.IH [of ?s ?since] Cons.prems(1) step(2,3) show ?case by (simp add: p idle_since_split [of since "(now, ev)" polls])
qed simp

text \<open>
  The idle timeout fires exactly when a body has been idle for its length.
  While a body is neither finished nor failed, a poll that finds it pending
  fails with the timeout error if the configured time has passed since the
  last frame was delivered, or since the first pending poll when there was no
  frame, and stays pending otherwise.
\<close>

theorem idle_timeout_is_exact:
  assumes "\<not> it_done (idle_polls polls (idle_timeout_new timeout label))"
  shows "fst (idle_poll now (Some ReqPending) (idle_polls polls (idle_timeout_new timeout label))) =
     (if (case idle_since None polls of Some t \<Rightarrow> t | None \<Rightarrow> now) + timeout \<le> now
      then RError (stalled_error label timeout) else RPending)"
proof -
  have "it_sleep (idle_timeout_new timeout label) = map_option (\<lambda>t. t + it_timeout (idle_timeout_new timeout label)) None"
    by (simp add: idle_timeout_new_def)
  note alive = idle_polls_alive [OF assms this]
  have "it_timeout (idle_timeout_new timeout label) = timeout" "it_label (idle_timeout_new timeout label) = label"
    by (simp_all add: idle_timeout_new_def)
  with alive assms show ?thesis
    by (auto simp: idle_poll_def poll_idle_timer_def arm_idle_timer_def Let_def split: option.splits)
qed

theorem idle_timeout_is_exact_witness:
  "fst (idle_poll 12 (Some ReqPending) (idle_polls [(0, Some ReqPending), (3, Some (ReqFrame (FData ''x''))), (7, Some ReqPending)]
      (idle_timeout_new 10 ''body''))) = RPending
   \<and> fst (idle_poll 13 (Some ReqPending) (idle_polls [(0, Some ReqPending), (3, Some (ReqFrame (FData ''x''))), (7, Some ReqPending)]
      (idle_timeout_new 10 ''body''))) = RError (stalled_error ''body'' 10)"
proof -
  have "\<not> it_done (idle_polls [(0, Some ReqPending), (3, Some (ReqFrame (FData ''x''))), (7, Some ReqPending)] (idle_timeout_new 10 ''body''))"
    by code_simp
  note exact = idle_timeout_is_exact [OF this]
  from exact [of 12] exact [of 13] show ?thesis by simp
qed

text \<open>
  The time in which nobody polls counts as idle: after a frame, a reader that
  comes back later than the timeout and finds nothing ready fails at once, even
  if the body had no chance to make progress.
\<close>

lemma slow_reader_times_out:
  assumes "timeout \<le> pause"
  shows "fst (idle_poll (now + pause) (Some ReqPending) (idle_polls [(now, Some (ReqFrame (FData d)))] (idle_timeout_new timeout label))) =
     RError (stalled_error label timeout)"
  using assms by (simp add: idle_poll_def poll_idle_timer_def arm_idle_timer_def reset_idle_timer_def idle_timeout_new_def Let_def)

section \<open>The deadline\<close>

lemma deadline_ends_with_trailers:
  assumes "\<not> gd_done s" and "gd_deadline s \<le> now"
  shows "deadline_poll now (Some ReqPending) s =
     (RFrame (FTrailers (grpc_deadline_exceeded_trailers (gd_timeout_message s))), s\<lparr> gd_done := True \<rparr>)"
    and "fst (deadline_poll later ev (s\<lparr> gd_done := True \<rparr>)) = REnd"
  using assms by (simp_all add: deadline_poll_def)

end
