(* ===== verification/Request_Body.thy ===== *)
theory Request_Body
  imports Timeouts Upstream_Select
begin

text \<open>
  The request body on its way upstream (\<open>proxy/request_body\<close>, the classification
  of its errors in \<open>proxy/forward/error.rs\<close>): it is bounded, kept in memory when
  it may have to be sent twice, or streamed once.  The events of the
  downstream body are those behind the idle timeout; the hints on its size come
  from the HTTP library.
\<close>

section \<open>Errors\<close>

fun str_find :: "string \<Rightarrow> string \<Rightarrow> nat option" where
  "str_find p [] = (if p = [] then Some 0 else None)"
| "str_find p (c # s) = (if str_starts_with (c # s) p then Some 0 else map_option Suc (str_find p s))"

definition str_contains :: "string \<Rightarrow> string \<Rightarrow> bool" where
  "str_contains s p \<longleftrightarrow> str_find p s \<noteq> None"

fun request_body_limit_error :: "box_error \<Rightarrow> nat option" where
  "request_body_limit_error [] = None"
| "request_body_limit_error (c # rest) = (case en_limit c of Some n \<Rightarrow> Some n | None \<Rightarrow> request_body_limit_error rest)"

definition parse_request_body_limit_message :: "string \<Rightarrow> nat option" where
  "parse_request_body_limit_message message =
     (let pre = ''request body exceeded configured limit of ''; suf = '' bytes''
      in Option.bind (str_find pre message)
           (\<lambda>i. let rest = drop (i + length pre) message
                in Option.bind (str_find suf rest) (\<lambda>e. parse_uint usize_max (take e rest))))"

fun downstream_request_body_limit :: "box_error \<Rightarrow> nat option" where
  "downstream_request_body_limit [] = None"
| "downstream_request_body_limit (c # rest) =
     (case request_body_limit_error (c # rest) of
        Some n \<Rightarrow> Some n
      | None \<Rightarrow>
          (case parse_request_body_limit_message (en_text c) of
             Some n \<Rightarrow> Some n
           | None \<Rightarrow> downstream_request_body_limit rest))"

fun invalid_downstream_request_body_error :: "box_error \<Rightarrow> bool" where
  "invalid_downstream_request_body_error [] = False"
| "invalid_downstream_request_body_error (c # rest) =
     (if en_kind c = Some KindInvalidData \<or> en_kind c = Some KindInvalidInput then True
      else if str_contains (en_text c) ''grpc-web''
           \<and> (str_contains (en_text c) ''invalid'' \<or> str_contains (en_text c) ''incomplete'') then True
      else invalid_downstream_request_body_error rest)"

datatype prepare_request_error = PayloadTooLarge nat | PrepareOther box_error

definition prepare_error_boxed :: "box_error \<Rightarrow> prepare_request_error" where
  "prepare_error_boxed e =
     (case request_body_limit_error e of Some n \<Rightarrow> PayloadTooLarge n | None \<Rightarrow> PrepareOther e)"

text \<open>The chain of a \<open>PrepareRequestError\<close>: itself, then what it wraps.\<close>

fun prepare_error_chain :: "prepare_request_error \<Rightarrow> box_error" where
  "prepare_error_chain (PayloadTooLarge n) = [\<lparr> en_text = limit_message n, en_kind = None, en_limit = None \<rparr>]"
| "prepare_error_chain (PrepareOther e) =
     \<lparr> en_text = (case e of [] \<Rightarrow> [] | c # _ \<Rightarrow> en_text c), en_kind = None, en_limit = None \<rparr> # e"

definition clone_box_error :: "box_error \<Rightarrow> box_error" where
  "clone_box_error e =
     (case request_body_limit_error e of
        Some n \<Rightarrow> request_body_limit_error_new n
      | None \<Rightarrow>
          (case e of
             [] \<Rightarrow> io_error_new KindOther []
           | c # _ \<Rightarrow> io_error_new (case en_kind c of Some k \<Rightarrow> k | None \<Rightarrow> KindOther) (en_text c)))"

section \<open>Preparing the body\<close>

datatype prepared_request_body = Replayable string "header_map option" | Streaming "req_event list option"

record prepared_proxy_request =
  pq_method :: http_method
  pq_uri_path :: string
  pq_uri_query :: "string option"
  pq_headers :: header_map
  pq_body :: prepared_request_body
  pq_peer_failover_enabled :: bool
  pq_wait_for_streaming_body :: bool

definition is_idempotent_method :: "http_method \<Rightarrow> bool" where
  "is_idempotent_method m \<longleftrightarrow> m \<in> {''GET'', ''HEAD'', ''PUT'', ''DELETE'', ''OPTIONS'', ''TRACE''}"

fun is_replayable :: "prepared_request_body \<Rightarrow> bool" where
  "is_replayable (Replayable _ _) = True"
| "is_replayable (Streaming _) = False"

definition can_failover :: "prepared_proxy_request \<Rightarrow> bool" where
  "can_failover p \<longleftrightarrow> pq_peer_failover_enabled p \<and> is_idempotent_method (pq_method p) \<and> is_replayable (pq_body p)"

definition can_retry_peer_request :: "prepared_proxy_request \<Rightarrow> nat \<Rightarrow> nat \<Rightarrow> bool" where
  "can_retry_peer_request p peer_count attempt_index \<longleftrightarrow> can_failover p \<and> attempt_index + 1 < peer_count"

text \<open>
  The gRPC-Web adapters on the events of a body, run to their end.  An error
  of the wrapped body passes unchanged, their own errors are \<open>InvalidData\<close>.
\<close>

fun adapter_event :: "req_event \<Rightarrow> body_event" where
  "adapter_event (ReqFrame f) = EvFrame f"
| "adapter_event (ReqError _) = EvError []"
| "adapter_event ReqPending = EvPending"

fun first_error :: "req_event list \<Rightarrow> box_error" where
  "first_error [] = []"
| "first_error (ReqError e # _) = e"
| "first_error (_ # rest) = first_error rest"

definition adapter_run :: "req_event list \<Rightarrow> body_frame list \<times> body_outcome \<Rightarrow> req_event list" where
  "adapter_run inner r =
     (case r of (frames, outcome) \<Rightarrow>
        map ReqFrame frames
        @ (case outcome of
             BodyFailed msg \<Rightarrow> [ReqError (if msg = [] then first_error inner else io_error_new KindInvalidData msg)]
           | _ \<Rightarrow> []))"

definition text_decode_events :: "base64 \<Rightarrow> req_event list \<Rightarrow> req_event list" where
  "text_decode_events b64 inner =
     (let s = grpc_web_text_new (map adapter_event inner)
      in adapter_run inner (run_body (text_decode_step b64) (Suc (text_left s)) s))"

definition grpc_web_events :: "(string \<Rightarrow> string option) \<Rightarrow> req_event list \<Rightarrow> req_event list" where
  "grpc_web_events header_name inner =
     (let s = grpc_web_request_new (map adapter_event inner)
      in adapter_run inner (run_body (request_step header_name) (Suc (request_left s)) s))"

text \<open>A body that is wrapped in the limit, or not; polled as the limit allows.\<close>

datatype downstream_body = UnlimitedBody "req_event list" | LimitedBody max_bytes_body

definition downstream_request_body ::
    "base64 \<Rightarrow> (string \<Rightarrow> string option) \<Rightarrow> grpc_web_mode option \<Rightarrow> nat option \<Rightarrow> req_event list \<Rightarrow> downstream_body" where
  "downstream_request_body b64 header_name mode max_request_body_bytes body =
     (let adapted = (case mode of
          Some m \<Rightarrow> grpc_web_events header_name (if is_text m then text_decode_events b64 body else body)
        | None \<Rightarrow> body)
      in case max_request_body_bytes of
           Some limit \<Rightarrow> LimitedBody (max_bytes_new adapted limit)
         | None \<Rightarrow> UnlimitedBody adapted)"

text \<open>
  \<open>is_end_stream\<close> of the wrapped body before its first poll: the idle timeout
  and the gRPC-Web adapter report the end only after they have seen it.
\<close>

definition idle_body_end_stream :: "idle_timeout_body \<Rightarrow> bool" where
  "idle_body_end_stream s = it_done s"

definition grpc_web_body_end_stream :: "grpc_web_request_body \<Rightarrow> bool" where
  "grpc_web_body_end_stream s \<longleftrightarrow> gr_inner_finished s \<and> gr_inner_trailers s = None \<and> gr_buffer s = []"

definition fresh_body_end_stream :: "grpc_web_mode option \<Rightarrow> duration \<Rightarrow> string \<Rightarrow> bool" where
  "fresh_body_end_stream mode body_timeout label =
     (case mode of
        Some _ \<Rightarrow> grpc_web_body_end_stream (grpc_web_request_new [])
      | None \<Rightarrow> idle_body_end_stream (idle_timeout_new body_timeout label))"

fun drain_downstream :: "downstream_body \<Rightarrow> body_frame list \<times> box_error option" where
  "drain_downstream (LimitedBody s) = drain_limited s"
| "drain_downstream (UnlimitedBody evs) = unlimited evs"

text \<open>Frames collected into one body; the trailers of several frames are joined.\<close>

fun collect_frames :: "body_frame list \<Rightarrow> string \<times> header_map option" where
  "collect_frames [] = ([], None)"
| "collect_frames (FData d # fs) = (case collect_frames fs of (b, t) \<Rightarrow> (d @ b, t))"
| "collect_frames (FTrailers t # fs) =
     (case collect_frames fs of (b, None) \<Rightarrow> (b, Some t) | (b, Some u) \<Rightarrow> (b, Some (append_header_map t u)))"

definition collect_request_body :: "downstream_body \<Rightarrow> prepare_request_error + string \<times> header_map option" where
  "collect_request_body body =
     (case drain_downstream body of
        (frames, None) \<Rightarrow> Inr (collect_frames frames)
      | (_, Some e) \<Rightarrow> Inl (prepare_error_boxed e))"

definition wrapped_upper_hint :: "nat \<times> nat option \<Rightarrow> downstream_body \<Rightarrow> nat option" where
  "wrapped_upper_hint hint body =
     (case body of LimitedBody s \<Rightarrow> snd (max_bytes_size_hint hint s) | UnlimitedBody _ \<Rightarrow> snd hint)"

fun downstream_events :: "downstream_body \<Rightarrow> req_event list" where
  "downstream_events (UnlimitedBody evs) = evs"
| "downstream_events (LimitedBody s) =
     (case drain_limited s of (fs, r) \<Rightarrow> map ReqFrame fs @ (case r of Some e \<Rightarrow> [ReqError e] | None \<Rightarrow> []))"

definition replayable_of :: "prepare_request_error + string \<times> header_map option \<Rightarrow> prepare_request_error + prepared_request_body" where
  "replayable_of r = map_sum id (\<lambda>(b, t). Replayable b t) r"

text \<open>The part of \<open>prepare_request_body\<close> behind the check of the size hint.\<close>

definition prepare_wrapped_body ::
    "http_method \<Rightarrow> bool \<Rightarrow> nat \<Rightarrow> route_buffering_policy \<Rightarrow> grpc_web_mode option \<Rightarrow> bool \<Rightarrow> nat option \<Rightarrow> downstream_body \<Rightarrow>
     prepare_request_error + prepared_request_body" where
  "prepare_wrapped_body method preserves_trailers max_replayable request_buffering mode end_stream upper body =
     (if end_stream then
        Inr (if request_buffering = BufOff then Streaming (Some (downstream_events body)) else Replayable [] None)
      else if mode \<noteq> None then replayable_of (collect_request_body body)
      else case request_buffering of
        BufOff \<Rightarrow> Inr (Streaming (Some (downstream_events body)))
      | BufOn \<Rightarrow>
          if \<not> preserves_trailers then replayable_of (collect_request_body body)
          else Inr (Streaming (Some (downstream_events body)))
      | BufAuto \<Rightarrow>
          if \<not> preserves_trailers \<and> is_idempotent_method method \<and> (case upper of Some u \<Rightarrow> u \<le> max_replayable | None \<Rightarrow> False)
          then replayable_of (collect_request_body body)
          else Inr (Streaming (Some (downstream_events body))))"

definition prepare_request_body ::
    "base64 \<Rightarrow> (string \<Rightarrow> string option) \<Rightarrow> http_method \<Rightarrow> header_map \<Rightarrow> duration \<Rightarrow> string \<Rightarrow> nat \<Rightarrow> nat option \<Rightarrow>
     route_buffering_policy \<Rightarrow> grpc_web_mode option \<Rightarrow> nat \<times> nat option \<Rightarrow> req_event list \<Rightarrow> prepare_request_error + prepared_request_body" where
  "prepare_request_body b64 header_name method headers body_timeout upstream_name max_replayable max_request_body_bytes
       request_buffering mode hint body0 =
     (let label = ''upstream `'' @ upstream_name @ ''` request body'';
          preserves_trailers = (preserved_te_trailers_value headers \<noteq> None);
          body = downstream_request_body b64 header_name mode max_request_body_bytes body0
      in if (case max_request_body_bytes of Some limit \<Rightarrow> limit < fst hint | None \<Rightarrow> False)
         then Inl (PayloadTooLarge (the max_request_body_bytes))
         else prepare_wrapped_body method preserves_trailers max_replayable request_buffering mode
                (fresh_body_end_stream mode body_timeout label) (wrapped_upper_hint hint body) body)"

definition from_request ::
    "base64 \<Rightarrow> (string \<Rightarrow> string option) \<Rightarrow> http_method \<Rightarrow> string \<Rightarrow> string option \<Rightarrow> header_map \<Rightarrow> nat \<times> nat option \<Rightarrow> req_event list \<Rightarrow>
     string \<Rightarrow> duration option \<Rightarrow> duration \<Rightarrow> nat \<Rightarrow> nat option \<Rightarrow> route_buffering_policy \<Rightarrow> grpc_web_mode option \<Rightarrow>
     prepare_request_error + prepared_proxy_request" where
  "from_request b64 header_name method uri_path uri_query headers hint body upstream_name request_body_read_timeout write_timeout
       max_replayable max_request_body_bytes request_buffering mode =
     (let body_timeout = (case request_body_read_timeout of Some t \<Rightarrow> t | None \<Rightarrow> write_timeout)
      in bind_res (prepare_request_body b64 header_name method headers body_timeout upstream_name max_replayable max_request_body_bytes
                     request_buffering mode hint body)
           (\<lambda>prepared. Inr \<lparr> pq_method = method, pq_uri_path = uri_path, pq_uri_query = uri_query, pq_headers = headers,
              pq_body = prepared, pq_peer_failover_enabled = (request_buffering \<noteq> BufOff),
              pq_wait_for_streaming_body = (max_request_body_bytes \<noteq> None) \<rparr>))"

section \<open>Sending the body\<close>

record replayable_request_body =
  rr_body :: "string option"
  rr_trailers :: "header_map option"

definition replay_poll :: "replayable_request_body \<Rightarrow> req_poll \<times> replayable_request_body" where
  "replay_poll s =
     (case rr_body s of
        Some b \<Rightarrow>
          if b \<noteq> [] then (RFrame (FData b), s\<lparr> rr_body := None \<rparr>)
          else (case rr_trailers s of
                  Some t \<Rightarrow> (RFrame (FTrailers t), s\<lparr> rr_body := None, rr_trailers := None \<rparr>)
                | None \<Rightarrow> (REnd, s\<lparr> rr_body := None \<rparr>))
      | None \<Rightarrow>
          (case rr_trailers s of
             Some t \<Rightarrow> (RFrame (FTrailers t), s\<lparr> rr_trailers := None \<rparr>)
           | None \<Rightarrow> (REnd, s)))"

text \<open>The frames of a replayed body, as the polls deliver them.\<close>

definition replay_frames :: "string \<Rightarrow> header_map option \<Rightarrow> body_frame list" where
  "replay_frames b t = (if b \<noteq> [] then [FData b] else []) @ (case t of Some u \<Rightarrow> [FTrailers u] | None \<Rightarrow> [])"

text \<open>
  The relay of a streamed body: every frame goes to the upstream request, the
  completion reports how the body ended.  A failed send is ignored, so the
  body is read to its end whatever becomes of the upstream request.
\<close>

fun relay_loop :: "req_event list \<Rightarrow> req_event list \<times> box_error option" where
  "relay_loop [] = ([], None)"
| "relay_loop (ReqPending # evs) = relay_loop evs"
| "relay_loop (ReqError e # evs) = ([ReqError (clone_box_error e)], Some (clone_box_error e))"
| "relay_loop (ReqFrame (FTrailers t) # evs) = ([ReqFrame (FTrailers t)], None)"
| "relay_loop (ReqFrame (FData d) # evs) = (case relay_loop evs of (sent, r) \<Rightarrow> (ReqFrame (FData d) # sent, r))"

definition relay_streaming_request_body :: "req_event list \<Rightarrow> req_event list \<times> box_error option" where
  "relay_streaming_request_body body = relay_loop body"

record 'uri built_upstream_request =
  bu_method :: http_method
  bu_version :: http_version
  bu_uri :: 'uri
  bu_headers :: header_map
  bu_body :: "req_event list"
  bu_completion :: "box_error option option"

datatype 'e build_error = BuildUri 'e | BuildHeader invalid_header_value | BuildBodyGone

definition take_request_body ::
    "prepared_proxy_request \<Rightarrow> ((req_event list \<times> box_error option option) \<times> prepared_proxy_request) option" where
  "take_request_body p =
     (case pq_body p of
        Replayable b t \<Rightarrow> Some ((map ReqFrame (replay_frames b t), None), p)
      | Streaming None \<Rightarrow> None
      | Streaming (Some evs) \<Rightarrow>
          (let p' = p\<lparr> pq_body := Streaming None \<rparr>
           in if pq_wait_for_streaming_body p
              then (case relay_streaming_request_body evs of (sent, r) \<Rightarrow> Some ((sent, Some r), p'))
              else Some ((evs, None), p')))"

definition build_for_peer ::
    "(string \<Rightarrow> string \<Rightarrow> string \<Rightarrow> 'e + 'uri) \<Rightarrow> (string \<Rightarrow> string option) \<Rightarrow> resolved_upstream_peer \<Rightarrow> proxy_target \<Rightarrow> client_address \<Rightarrow>
     string \<Rightarrow> grpc_web_mode option \<Rightarrow> prepared_proxy_request \<Rightarrow> 'e build_error + 'uri built_upstream_request \<times> prepared_proxy_request" where
  "build_for_peer uri_build header_name peer target client_address forwarded_proto mode p =
     (case build_proxy_uri uri_build peer (pq_uri_path p) (pq_uri_query p) (pt_strip_prefix target) of
        Inl e \<Rightarrow> Inl (BuildUri e)
      | Inr uri \<Rightarrow>
          (case sanitize_request_headers header_name (pq_headers p) (rp_upstream_authority peer) (hm_get (pq_headers p) ''host'')
                  client_address forwarded_proto (pt_preserve_host target) (pt_proxy_set_headers target) mode of
             Inl e \<Rightarrow> Inl (BuildHeader e)
           | Inr headers0 \<Rightarrow>
               (let headers = remove_redundant_host_header_for_authority_pseudo_header headers0 peer (up_protocol (pt_upstream target))
                in case take_request_body p of
                     None \<Rightarrow> Inl BuildBodyGone
                   | Some ((body, completion), p') \<Rightarrow>
                       Inr (\<lparr> bu_method = pq_method p, bu_version = upstream_request_version (up_protocol (pt_upstream target)),
                              bu_uri = uri, bu_headers = headers, bu_body = body, bu_completion = completion \<rparr>, p'))))"

section \<open>The body arrives unchanged\<close>

definition error_events :: "box_error option \<Rightarrow> req_event list" where
  "error_events r = (case r of Some e \<Rightarrow> [ReqError e] | None \<Rightarrow> [])"

text \<open>Trailers end a body, so they are only its last frame.\<close>

definition trailers_last :: "body_frame list \<Rightarrow> bool" where
  "trailers_last fs \<longleftrightarrow> list_all (\<lambda>f. \<not> is_trailers f) (butlast fs)"

lemma unlimited_trailers_last: "unlimited evs = (fs, r) \<Longrightarrow> trailers_last fs \<and> (fs \<noteq> [] \<and> is_trailers (last fs) \<longrightarrow> r = None)"
proof (induction evs arbitrary: fs r rule: unlimited.induct)
  case (5 d inner)
  then show ?case by (cases "unlimited inner") (auto simp: trailers_last_def split: if_splits)
qed (auto simp: trailers_last_def)

lemma unlimited_frames:
  "list_all (\<lambda>f. \<not> is_trailers f) fs \<Longrightarrow> unlimited (map ReqFrame fs @ evs) = (case unlimited evs of (gs, r) \<Rightarrow> (fs @ gs, r))"
proof (induction fs)
  case (Cons f fs)
  then show ?case by (cases f) (simp_all split: prod.split)
qed simp

lemma unlimited_replayed:
  assumes "trailers_last fs" and "fs \<noteq> [] \<and> is_trailers (last fs) \<longrightarrow> r = None"
  shows "unlimited (map ReqFrame fs @ error_events r) = (fs, r)"
proof (cases "fs = [] \<or> \<not> is_trailers (last fs)")
  case True
  then have "list_all (\<lambda>f. \<not> is_trailers f) fs"
    using assms(1) by (cases fs rule: rev_cases) (auto simp: trailers_last_def)
  then show ?thesis using unlimited_frames [of fs "[]"] by (cases r) (simp_all add: unlimited_frames error_events_def)
next
  case False
  then obtain gs t where fs: "fs = gs @ [FTrailers t]" by (cases fs rule: rev_cases; cases "last fs") auto
  with assms False have "list_all (\<lambda>f. \<not> is_trailers f) gs" "r = None" by (simp_all add: trailers_last_def)
  then show ?thesis by (simp add: fs unlimited_frames error_events_def)
qed

lemma drain_limited_shape:
  assumes "drain_limited (max_bytes_new inner limit) = (fs, r)"
  shows "trailers_last fs \<and> (fs \<noteq> [] \<and> is_trailers (last fs) \<longrightarrow> r = None) \<and> frames_size fs \<le> limit"
proof -
  obtain gs q where u: "unlimited inner = (gs, q)" by (cases "unlimited inner")
  note shape = unlimited_trailers_last [OF u]
  show ?thesis
  proof (cases "frames_size gs \<le> limit")
    case True
    then show ?thesis using drain_limited_spec [OF u, of 0 limit] assms shape by (simp add: max_bytes_new_def)
  next
    case False
    then obtain k where k: "fs = take k gs" "frames_size (take k gs) \<le> limit"
      using drain_limited_spec [OF u, of 0 limit] assms by (auto simp: max_bytes_new_def)
    with False have "k < length gs" by (metis not_less take_all)
    then have "take k gs = take k (butlast gs)" by (simp add: take_butlast)
    then have "list_all (\<lambda>f. \<not> is_trailers f) fs"
      using shape k(1) by (auto simp: trailers_last_def list_all_iff dest: in_set_takeD)
    then show ?thesis using k by (auto simp: trailers_last_def list_all_iff dest: in_set_butlastD)
  qed
qed

lemma unlimited_downstream_events:
  "body = LimitedBody (max_bytes_new inner limit) \<or> body = UnlimitedBody inner \<Longrightarrow>
     unlimited (downstream_events body) = drain_downstream body"
proof (elim disjE)
  assume body: "body = LimitedBody (max_bytes_new inner limit)"
  obtain fs r where d: "drain_limited (max_bytes_new inner limit) = (fs, r)" by (cases "drain_limited (max_bytes_new inner limit)")
  with unlimited_replayed [of fs r] drain_limited_shape [OF d] show ?thesis by (simp add: body error_events_def)
qed simp

lemma relay_loop_unlimited:
  "unlimited evs = (fs, r) \<Longrightarrow> relay_loop evs = (map ReqFrame fs @ error_events (map_option clone_box_error r), map_option clone_box_error r)"
proof (induction evs arbitrary: fs r rule: relay_loop.induct)
  case (5 d evs)
  then show ?case by (cases "unlimited evs") (auto simp: error_events_def)
qed (auto simp: error_events_def)

lemma relayed_body:
  assumes "unlimited evs = (fs, r)"
  shows "unlimited (fst (relay_streaming_request_body evs)) = (fs, map_option clone_box_error r)"
    and "snd (relay_streaming_request_body evs) = map_option clone_box_error r"
  using relay_loop_unlimited [OF assms] unlimited_replayed [of fs "map_option clone_box_error r"] unlimited_trailers_last [OF assms]
  by (simp_all add: relay_streaming_request_body_def)

lemma collect_replay: "collect_frames (replay_frames b t) = (b, t)"
  by (simp add: replay_frames_def split: option.split)

lemma collect_size: "collect_frames fs = (b, t) \<Longrightarrow> length b = frames_size fs"
  by (induction fs arbitrary: b t rule: collect_frames.induct) (auto split: prod.splits option.splits)

lemma unlimited_replay_frames: "unlimited (map ReqFrame (replay_frames b t)) = (replay_frames b t, None)"
  by (simp add: replay_frames_def split: option.split)

text \<open>The body as the limit lets it pass.\<close>

definition admitted_body :: "nat option \<Rightarrow> req_event list \<Rightarrow> body_frame list \<times> box_error option" where
  "admitted_body limit body =
     (case limit of Some n \<Rightarrow> drain_limited (max_bytes_new body n) | None \<Rightarrow> unlimited body)"

lemma never_ends_fresh: "fresh_body_end_stream mode t label = False"
  by (simp add: fresh_body_end_stream_def idle_body_end_stream_def idle_timeout_new_def grpc_web_body_end_stream_def
      grpc_web_request_new_def split: option.split)

lemma prepared_cases:
  assumes "from_request b64 header_name method uri_path uri_query headers hint body upstream_name read_timeout write_timeout
       max_replayable limit buffering None = Inr p" and "admitted_body limit body = (fs, r)"
  obtains (streaming) evs where "pq_body p = Streaming (Some evs)" and "unlimited evs = (fs, r)"
  | (replayable) b t where "pq_body p = Replayable b t" and "r = None" and "collect_frames fs = (b, t)"
proof -
  let ?body = "downstream_request_body b64 header_name None limit body"
  have drain: "drain_downstream ?body = (fs, r)" and events: "unlimited (downstream_events ?body) = (fs, r)"
    using assms(2) unlimited_downstream_events [of ?body body]
    by (auto simp: downstream_request_body_def admitted_body_def split: option.splits)
  have "pq_body p = Streaming (Some (downstream_events ?body)) \<or> replayable_of (collect_request_body ?body) = Inr (pq_body p)"
    using assms(1) unfolding from_request_def prepare_request_body_def prepare_wrapped_body_def Let_def never_ends_fresh
    by (auto simp: bind_res_Inr split: if_splits route_buffering_policy.splits)
  then show ?thesis
  proof
    assume "pq_body p = Streaming (Some (downstream_events ?body))"
    then show ?thesis using streaming events by blast
  next
    assume "replayable_of (collect_request_body ?body) = Inr (pq_body p)"
    then obtain b t where "pq_body p = Replayable b t" "collect_request_body ?body = Inr (b, t)"
      by (cases "collect_request_body ?body") (fastforce simp: replayable_of_def split: prod.splits)+
    then show ?thesis using replayable drain by (auto simp: collect_request_body_def split: option.splits)
  qed
qed


definition sample_dialed_peer :: resolved_upstream_peer where
  "sample_dialed_peer =
     \<lparr> rp_url = ''http://up:80'', rp_logical_peer_url = ''http://up:80'', rp_endpoint_key = ''http://up:80'',
       rp_display_url = ''http://up:80'', rp_scheme = ''http'', rp_upstream_authority = ''up:80'',
       rp_dial_authority = ''10.0.0.2:80'', rp_socket_addr = (V4 0x0A000002, 80), rp_server_name = ''up'',
       rp_weight = 1, rp_backup = False, rp_max_conns = None \<rparr>"

definition sample_proxy_target :: proxy_target where
  "sample_proxy_target = \<lparr> pt_upstream_name = ''u'', pt_upstream = sample_upstream, pt_preserve_host = False,
     pt_strip_prefix = None, pt_proxy_set_headers = [] \<rparr>"

definition sample_prepared :: prepared_proxy_request where
  "sample_prepared = \<lparr> pq_method = ''PUT'', pq_uri_path = ''/f'', pq_uri_query = None, pq_headers = [(''host'', ''a.example'')],
     pq_body = Replayable ''abcd'' None, pq_peer_failover_enabled = True, pq_wait_for_streaming_body = True \<rparr>"


section \<open>The limit in the error\<close>

text \<open>
  The limit that stopped a body is read back from the error, whether the error
  is the limit itself or a message of another error that quotes it.
\<close>

lemma limit_is_read_back:
  "downstream_request_body_limit (request_body_limit_error_new n) = Some n"
  "downstream_request_body_limit (clone_box_error (request_body_limit_error_new n)) = Some n"
  by (simp_all add: request_body_limit_error_new_def clone_box_error_def)

text \<open>
  The message decides: an error of the upstream connection that names a host
  with both words is taken for a bad request body of the client.
\<close>

lemma upstream_error_taken_for_client_error:
  "invalid_downstream_request_body_error
     [\<lparr> en_text = ''client error (Connect)'', en_kind = None, en_limit = None \<rparr>,
      \<lparr> en_text = ''invalid peer certificate: not valid for name grpc-web.internal'', en_kind = Some KindOther, en_limit = None \<rparr>]"
  by code_simp

end
