(* ===== verification/Shared_State.thy ===== *)
theory Shared_State
  imports Upstream_Select "HOL-Library.AList"
begin

text \<open>
  The state that every worker of the server shares (\<open>state\<close>): rolling and total
  counters per listener, virtual host, route and upstream, the versions that
  tell a client of the admin socket what has changed, the slots of open
  connections, and the exchange of the configuration at a reload.  Each atomic
  operation is one step; the clock is an argument.  Maps whose keys are listed
  are association lists.
\<close>

section \<open>Rolling counters\<close>

definition recent_window_secs :: nat where "recent_window_secs = 60"
definition max_recent_window_secs :: nat where "max_recent_window_secs = 300"

abbreviation inc :: "nat \<Rightarrow> nat" where "inc x \<equiv> bump x 1"

text \<open>\<open>fetch_sub(1)\<close> on a 64 bit counter.\<close>

definition dec :: "nat \<Rightarrow> nat" where "dec x = (x + (2 ^ 64 - 1)) mod 2 ^ 64"

type_synonym rolling_counter = "(nat \<times> nat) list"

definition window_cutoff :: "nat \<Rightarrow> nat \<Rightarrow> nat" where
  "window_cutoff now_second window_secs = now_second - (window_secs - 1)"

definition trim_old_buckets :: "rolling_counter \<Rightarrow> nat \<Rightarrow> nat \<Rightarrow> rolling_counter" where
  "trim_old_buckets buckets now_second window_secs =
     dropWhile (\<lambda>(second, _). second < window_cutoff now_second window_secs) buckets"

definition increment_at :: "nat \<Rightarrow> rolling_counter \<Rightarrow> rolling_counter" where
  "increment_at second counter =
     (let buckets = trim_old_buckets counter second max_recent_window_secs
      in if buckets \<noteq> [] \<and> second \<le> fst (last buckets)
         then butlast buckets @ [(fst (last buckets), inc (snd (last buckets)))]
         else buckets @ [(second, 1)])"

definition sum_recent :: "rolling_counter \<Rightarrow> nat \<Rightarrow> nat \<Rightarrow> nat \<times> rolling_counter" where
  "sum_recent counter now_second window_secs =
     (let buckets = trim_old_buckets counter now_second max_recent_window_secs
      in (sum_list (map snd (filter (\<lambda>(second, _). window_cutoff now_second window_secs \<le> second) buckets)) mod 2 ^ 64, buckets))"

record recent_traffic_counters =
  rw_requests :: rolling_counter
  rw_responses :: rolling_counter
  rw_2xx :: rolling_counter
  rw_4xx :: rolling_counter
  rw_5xx :: rolling_counter
  rw_grpc :: rolling_counter

record recent_upstream_counters =
  ru_requests :: rolling_counter
  ru_attempts :: rolling_counter
  ru_completed :: rolling_counter
  ru_bad_gateway :: rolling_counter
  ru_gateway_timeout :: rolling_counter
  ru_failovers :: rolling_counter

definition recent_traffic_new :: recent_traffic_counters where
  "recent_traffic_new = \<lparr> rw_requests = [], rw_responses = [], rw_2xx = [], rw_4xx = [], rw_5xx = [], rw_grpc = [] \<rparr>"

definition recent_upstream_new :: recent_upstream_counters where
  "recent_upstream_new = \<lparr> ru_requests = [], ru_attempts = [], ru_completed = [], ru_bad_gateway = [],
     ru_gateway_timeout = [], ru_failovers = [] \<rparr>"

definition recent_downstream_request :: "nat \<Rightarrow> recent_traffic_counters \<Rightarrow> recent_traffic_counters" where
  "recent_downstream_request now c = c\<lparr> rw_requests := increment_at now (rw_requests c) \<rparr>"

definition recent_downstream_response :: "nat \<Rightarrow> status_code \<Rightarrow> recent_traffic_counters \<Rightarrow> recent_traffic_counters" where
  "recent_downstream_response now status c =
     (let c1 = c\<lparr> rw_responses := increment_at now (rw_responses c) \<rparr>
      in if status div 100 = 2 then c1\<lparr> rw_2xx := increment_at now (rw_2xx c1) \<rparr>
         else if status div 100 = 4 then c1\<lparr> rw_4xx := increment_at now (rw_4xx c1) \<rparr>
         else if status div 100 = 5 then c1\<lparr> rw_5xx := increment_at now (rw_5xx c1) \<rparr>
         else c1)"

definition recent_grpc_request :: "nat \<Rightarrow> recent_traffic_counters \<Rightarrow> recent_traffic_counters" where
  "recent_grpc_request now c = c\<lparr> rw_grpc := increment_at now (rw_grpc c) \<rparr>"

section \<open>Traffic counters\<close>

record response_counters =
  rc_total :: nat
  rc_1xx :: nat
  rc_2xx :: nat
  rc_3xx :: nat
  rc_4xx :: nat
  rc_5xx :: nat

definition response_counters_new :: response_counters where
  "response_counters_new = \<lparr> rc_total = 0, rc_1xx = 0, rc_2xx = 0, rc_3xx = 0, rc_4xx = 0, rc_5xx = 0 \<rparr>"

definition response_record :: "status_code \<Rightarrow> response_counters \<Rightarrow> response_counters" where
  "response_record status c0 =
     (let c = c0\<lparr> rc_total := inc (rc_total c0) \<rparr>; k = status div 100
      in if k = 1 then c\<lparr> rc_1xx := inc (rc_1xx c) \<rparr>
         else if k = 2 then c\<lparr> rc_2xx := inc (rc_2xx c) \<rparr>
         else if k = 3 then c\<lparr> rc_3xx := inc (rc_3xx c) \<rparr>
         else if k = 4 then c\<lparr> rc_4xx := inc (rc_4xx c) \<rparr>
         else if k = 5 then c\<lparr> rc_5xx := inc (rc_5xx c) \<rparr>
         else c)"

record grpc_traffic_counters =
  gt_requests :: nat
  gt_protocol_grpc :: nat
  gt_protocol_grpc_web :: nat
  gt_protocol_grpc_web_text :: nat
  gt_status_0 :: nat
  gt_status_1 :: nat
  gt_status_3 :: nat
  gt_status_4 :: nat
  gt_status_7 :: nat
  gt_status_8 :: nat
  gt_status_12 :: nat
  gt_status_14 :: nat
  gt_status_other :: nat

definition grpc_counters_new :: grpc_traffic_counters where
  "grpc_counters_new = \<lparr> gt_requests = 0, gt_protocol_grpc = 0, gt_protocol_grpc_web = 0, gt_protocol_grpc_web_text = 0,
     gt_status_0 = 0, gt_status_1 = 0, gt_status_3 = 0, gt_status_4 = 0, gt_status_7 = 0, gt_status_8 = 0,
     gt_status_12 = 0, gt_status_14 = 0, gt_status_other = 0 \<rparr>"

definition grpc_record_request :: "string \<Rightarrow> grpc_traffic_counters \<Rightarrow> grpc_traffic_counters" where
  "grpc_record_request protocol c0 =
     (let c = c0\<lparr> gt_requests := inc (gt_requests c0) \<rparr>
      in if protocol = ''grpc'' then c\<lparr> gt_protocol_grpc := inc (gt_protocol_grpc c) \<rparr>
         else if protocol = ''grpc-web'' then c\<lparr> gt_protocol_grpc_web := inc (gt_protocol_grpc_web c) \<rparr>
         else if protocol = ''grpc-web-text'' then c\<lparr> gt_protocol_grpc_web_text := inc (gt_protocol_grpc_web_text c) \<rparr>
         else c)"

definition grpc_record_status :: "string option \<Rightarrow> grpc_traffic_counters \<Rightarrow> grpc_traffic_counters" where
  "grpc_record_status status c =
     (if status = Some ''0'' then c\<lparr> gt_status_0 := inc (gt_status_0 c) \<rparr>
      else if status = Some ''1'' then c\<lparr> gt_status_1 := inc (gt_status_1 c) \<rparr>
      else if status = Some ''3'' then c\<lparr> gt_status_3 := inc (gt_status_3 c) \<rparr>
      else if status = Some ''4'' then c\<lparr> gt_status_4 := inc (gt_status_4 c) \<rparr>
      else if status = Some ''7'' then c\<lparr> gt_status_7 := inc (gt_status_7 c) \<rparr>
      else if status = Some ''8'' then c\<lparr> gt_status_8 := inc (gt_status_8 c) \<rparr>
      else if status = Some ''12'' then c\<lparr> gt_status_12 := inc (gt_status_12 c) \<rparr>
      else if status = Some ''14'' then c\<lparr> gt_status_14 := inc (gt_status_14 c) \<rparr>
      else c\<lparr> gt_status_other := inc (gt_status_other c) \<rparr>)"

text \<open>What listeners, virtual hosts and routes count alike.\<close>

record traffic_counters =
  tc_requests :: nat
  tc_responses :: response_counters
  tc_recent :: recent_traffic_counters
  tc_grpc :: grpc_traffic_counters

record vhost_counters = traffic_counters +
  vc_unmatched :: nat

record route_counters = traffic_counters +
  rtc_access_denied :: nat
  rtc_rate_limited :: nat

record tls_failure_counters =
  tf_total :: nat
  tf_missing_client_cert :: nat
  tf_unknown_ca :: nat
  tf_bad_certificate :: nat
  tf_certificate_revoked :: nat
  tf_verify_depth_exceeded :: nat
  tf_other :: nat

record http3_counters =
  h3c_connections :: nat
  h3c_request_streams :: nat
  h3c_retry_issued :: nat
  h3c_retry_failed :: nat
  h3c_accept_errors :: nat
  h3c_resolve_errors :: nat
  h3c_body_stream_errors :: nat
  h3c_response_stream_errors :: nat
  h3c_close_version_mismatch :: nat
  h3c_close_transport_error :: nat
  h3c_close_connection_closed :: nat
  h3c_close_application_closed :: nat
  h3c_close_reset :: nat
  h3c_close_timed_out :: nat
  h3c_close_locally_closed :: nat
  h3c_close_cids_exhausted :: nat

record listener_counters = traffic_counters +
  lc_accepted :: nat
  lc_rejected :: nat
  lc_http3 :: http3_counters
  lc_mtls_connections :: nat
  lc_tls_failures :: tls_failure_counters
  lc_early_accepted :: nat
  lc_early_rejected :: nat
  lc_mtls_requests :: nat
  lc_anonymous_requests :: nat
  lc_unmatched :: nat

definition tls_failures_new :: tls_failure_counters where
  "tls_failures_new = \<lparr> tf_total = 0, tf_missing_client_cert = 0, tf_unknown_ca = 0, tf_bad_certificate = 0,
     tf_certificate_revoked = 0, tf_verify_depth_exceeded = 0, tf_other = 0 \<rparr>"

definition http3_counters_new :: http3_counters where
  "http3_counters_new = \<lparr> h3c_connections = 0, h3c_request_streams = 0, h3c_retry_issued = 0, h3c_retry_failed = 0,
     h3c_accept_errors = 0, h3c_resolve_errors = 0, h3c_body_stream_errors = 0, h3c_response_stream_errors = 0,
     h3c_close_version_mismatch = 0, h3c_close_transport_error = 0, h3c_close_connection_closed = 0,
     h3c_close_application_closed = 0, h3c_close_reset = 0, h3c_close_timed_out = 0, h3c_close_locally_closed = 0,
     h3c_close_cids_exhausted = 0 \<rparr>"

definition vhost_counters_new :: vhost_counters where
  "vhost_counters_new = \<lparr> tc_requests = 0, tc_responses = response_counters_new, tc_recent = recent_traffic_new,
     tc_grpc = grpc_counters_new, vc_unmatched = 0 \<rparr>"

definition route_counters_new :: route_counters where
  "route_counters_new = \<lparr> tc_requests = 0, tc_responses = response_counters_new, tc_recent = recent_traffic_new,
     tc_grpc = grpc_counters_new, rtc_access_denied = 0, rtc_rate_limited = 0 \<rparr>"

definition listener_counters_new :: listener_counters where
  "listener_counters_new = \<lparr> tc_requests = 0, tc_responses = response_counters_new, tc_recent = recent_traffic_new,
     tc_grpc = grpc_counters_new, lc_accepted = 0, lc_rejected = 0, lc_http3 = http3_counters_new, lc_mtls_connections = 0,
     lc_tls_failures = tls_failures_new, lc_early_accepted = 0, lc_early_rejected = 0, lc_mtls_requests = 0,
     lc_anonymous_requests = 0, lc_unmatched = 0 \<rparr>"

text \<open>
  The counters of a listener are shared: a guard of an HTTP/3 connection keeps
  them alive after the listener is gone.  An entry holds the address of its
  counters.
\<close>

record listener_traffic_entry =
  le_name :: string
  le_listen_addr :: socket_addr
  le_http3_enabled :: bool
  le_counters :: nat

record vhost_traffic_entry =
  ve_server_names :: "string list"
  ve_counters :: vhost_counters

record route_traffic_entry =
  re_vhost_id :: string
  re_counters :: route_counters

record traffic_stats_index =
  ti_listeners :: "string \<Rightarrow> listener_traffic_entry option"
  ti_listener_order :: "string list"
  ti_vhosts :: "string \<Rightarrow> vhost_traffic_entry option"
  ti_vhost_order :: "string list"
  ti_routes :: "string \<Rightarrow> route_traffic_entry option"
  ti_route_order :: "string list"

type_synonym versions = "(string \<times> nat) list"

record traffic_component_versions =
  tv_listeners :: versions
  tv_vhosts :: versions
  tv_routes :: versions

record component_versions =
  cv_status :: nat
  cv_counters :: nat
  cv_traffic :: nat
  cv_peer_health :: nat
  cv_upstreams :: nat
  cv_cache :: nat

section \<open>Upstream counters\<close>

record upstream_stats =
  us_requests :: nat
  us_attempts :: nat
  us_successes :: nat
  us_failures :: nat
  us_timeouts :: nat
  us_failovers :: nat
  us_completed :: nat
  us_bad_gateway :: nat
  us_gateway_timeout :: nat
  us_bad_request :: nat
  us_payload_too_large :: nat
  us_unsupported_media_type :: nat
  us_no_healthy_peers :: nat
  us_tls_unknown_ca :: nat
  us_tls_bad_certificate :: nat
  us_tls_certificate_revoked :: nat
  us_tls_verify_depth_exceeded :: nat
  us_recent :: recent_upstream_counters

record upstream_peer_stats =
  ps_attempts :: nat
  ps_successes :: nat
  ps_failures :: nat
  ps_timeouts :: nat

definition upstream_stats_new :: upstream_stats where
  "upstream_stats_new = \<lparr> us_requests = 0, us_attempts = 0, us_successes = 0, us_failures = 0, us_timeouts = 0,
     us_failovers = 0, us_completed = 0, us_bad_gateway = 0, us_gateway_timeout = 0, us_bad_request = 0,
     us_payload_too_large = 0, us_unsupported_media_type = 0, us_no_healthy_peers = 0, us_tls_unknown_ca = 0,
     us_tls_bad_certificate = 0, us_tls_certificate_revoked = 0, us_tls_verify_depth_exceeded = 0,
     us_recent = recent_upstream_new \<rparr>"

definition peer_stats_new :: upstream_peer_stats where
  "peer_stats_new = \<lparr> ps_attempts = 0, ps_successes = 0, ps_failures = 0, ps_timeouts = 0 \<rparr>"

record upstream_stats_entry =
  ue_upstream :: upstream
  ue_counters :: upstream_stats
  ue_peers :: "string \<Rightarrow> upstream_peer_stats option"
  ue_peer_order :: "string list"

definition stats_entry_for ::
    "(string \<Rightarrow> upstream_stats_entry option) option \<Rightarrow> upstream \<Rightarrow> upstream_stats_entry" where
  "stats_entry_for existing u =
     (let current = Option.bind existing (\<lambda>stats. stats (up_name u))
      in \<lparr> ue_upstream = u,
           ue_counters = (case current of Some e \<Rightarrow> ue_counters e | None \<Rightarrow> upstream_stats_new),
           ue_peers = (\<lambda>url. if url \<in> set (map peer_url (up_peers u))
              then Some (case Option.bind current (\<lambda>e. ue_peers e url) of Some p \<Rightarrow> p | None \<Rightarrow> peer_stats_new)
              else None),
           ue_peer_order = map peer_url (up_peers u) \<rparr>)"

definition build_upstream_stats_map ::
    "config_snapshot \<Rightarrow> (string \<Rightarrow> upstream_stats_entry option) option \<Rightarrow> string \<Rightarrow> upstream_stats_entry option" where
  "build_upstream_stats_map config existing =
     map_of (rev (map (\<lambda>(_, u). (up_name u, stats_entry_for existing u)) (cs_upstreams config)))"

definition kept_version :: "versions option \<Rightarrow> string \<Rightarrow> nat" where
  "kept_version existing name = (case Option.bind existing (\<lambda>m. map_of m name) of Some v \<Rightarrow> v | None \<Rightarrow> 0)"

definition build_upstream_name_versions :: "config_snapshot \<Rightarrow> versions option \<Rightarrow> versions" where
  "build_upstream_name_versions config existing =
     map (\<lambda>name. (name, kept_version existing name)) (map fst (cs_upstreams config))"

definition build_cache_zone_versions :: "config_snapshot \<Rightarrow> versions option \<Rightarrow> versions" where
  "build_cache_zone_versions config existing =
     map (\<lambda>name. (name, kept_version existing name)) (map fst (cs_cache_zones config))"

section \<open>The shared state\<close>

record http_counters =
  hc_accepted :: nat
  hc_rejected :: nat
  hc_requests :: nat
  hc_responses :: response_counters
  hc_mtls_connections :: nat
  hc_mtls_requests :: nat
  hc_anonymous_requests :: nat
  hc_tls_failures :: tls_failure_counters
  hc_early_accepted :: nat
  hc_early_rejected :: nat

definition http_counters_new :: http_counters where
  "http_counters_new = \<lparr> hc_accepted = 0, hc_rejected = 0, hc_requests = 0, hc_responses = response_counters_new,
     hc_mtls_connections = 0, hc_mtls_requests = 0, hc_anonymous_requests = 0, hc_tls_failures = tls_failures_new,
     hc_early_accepted = 0, hc_early_rejected = 0 \<rparr>"

datatype reload_outcome = ReloadSuccess nat | ReloadFailure string

record reload_result =
  rr_finished_at_unix_ms :: nat
  rr_outcome :: reload_outcome
  rr_tls_certificate_changes :: "string list"
  rr_active_revision :: nat
  rr_rollback_preserved_revision :: "nat option"

record reload_history =
  rh_attempts :: nat
  rh_successes :: nat
  rh_failures :: nat
  rh_last_result :: "reload_result option"

record ocsp_status_entry =
  oc_last_refresh_unix_ms :: "nat option"
  oc_refreshes :: nat
  oc_failures :: nat
  oc_last_error :: "string option"

record acme_status_entry =
  ac_last_success_unix_ms :: "nat option"
  ac_refreshes :: nat
  ac_failures :: nat
  ac_retry_after_unix_ms :: "nat option"
  ac_last_error :: "string option"

text \<open>
  The count of open connections of a listener lives in a cell that its guards
  share; so do the counters of a listener.  Cells are never freed.
\<close>

record 'acc shared_state =
  ss_revision :: nat
  ss_config :: config_snapshot
  ss_published_revision :: nat
  ss_snapshot_version :: nat
  ss_notifications :: nat
  ss_components :: component_versions
  ss_tls_acceptors :: "string \<Rightarrow> 'acc option option"
  ss_active_of :: "string \<Rightarrow> nat option"
  ss_active_cells :: "nat \<Rightarrow> nat"
  ss_counter_cells :: "nat \<Rightarrow> listener_counters"
  ss_next_cell :: nat
  ss_retired_listeners :: "string \<Rightarrow> listener option"
  ss_active_connections :: nat
  ss_counters :: http_counters
  ss_traffic :: traffic_stats_index
  ss_traffic_versions :: traffic_component_versions
  ss_upstreams :: "string \<Rightarrow> upstream_stats_entry option"
  ss_upstream_versions :: versions
  ss_peer_health_versions :: versions
  ss_cache_versions :: versions
  ss_reload_history :: reload_history
  ss_ocsp :: "string \<Rightarrow> ocsp_status_entry option"
  ss_acme :: "string \<Rightarrow> acme_status_entry option"
  ss_challenges :: "string \<Rightarrow> string option"

section \<open>Versions\<close>

definition mark_component :: "bool \<Rightarrow> nat \<Rightarrow> nat \<Rightarrow> nat" where
  "mark_component changed version old = (if changed then version else old)"

definition mark_snapshot_changed_components_with_cache ::
    "bool \<Rightarrow> bool \<Rightarrow> bool \<Rightarrow> bool \<Rightarrow> bool \<Rightarrow> bool \<Rightarrow> 'acc shared_state \<Rightarrow> nat \<times> 'acc shared_state" where
  "mark_snapshot_changed_components_with_cache status counters traffic peer_health upstreams cache s =
     (let version = inc (ss_snapshot_version s); c = ss_components s
      in (version, s\<lparr> ss_snapshot_version := version,
            ss_components := \<lparr> cv_status = mark_component status version (cv_status c),
              cv_counters = mark_component counters version (cv_counters c),
              cv_traffic = mark_component traffic version (cv_traffic c),
              cv_peer_health = mark_component peer_health version (cv_peer_health c),
              cv_upstreams = mark_component upstreams version (cv_upstreams c),
              cv_cache = mark_component cache version (cv_cache c) \<rparr> \<rparr>))"

definition mark_snapshot_changed_components ::
    "bool \<Rightarrow> bool \<Rightarrow> bool \<Rightarrow> bool \<Rightarrow> bool \<Rightarrow> 'acc shared_state \<Rightarrow> nat \<times> 'acc shared_state" where
  "mark_snapshot_changed_components status counters traffic peer_health upstreams s =
     mark_snapshot_changed_components_with_cache status counters traffic peer_health upstreams False s"

definition mark_named_component_target_changed :: "string \<Rightarrow> nat \<Rightarrow> versions \<Rightarrow> versions" where
  "mark_named_component_target_changed name version vs = AList.update name version vs"

definition changed_named_component_targets_since :: "versions \<Rightarrow> nat \<Rightarrow> string list" where
  "changed_named_component_targets_since vs since_version =
     sort (map fst (filter (\<lambda>(_, version). since_version < version) vs))"

definition mark_if_some :: "nat \<Rightarrow> string option \<Rightarrow> versions \<Rightarrow> versions" where
  "mark_if_some version name vs = (case name of Some n \<Rightarrow> AList.update n version vs | None \<Rightarrow> vs)"

definition mark_traffic_targets_changed ::
    "nat \<Rightarrow> string option \<Rightarrow> string option \<Rightarrow> string option \<Rightarrow> 'acc shared_state \<Rightarrow> 'acc shared_state" where
  "mark_traffic_targets_changed version listener_id vhost_id route_key s =
     (let v = ss_traffic_versions s
      in s\<lparr> ss_traffic_versions := \<lparr> tv_listeners = mark_if_some version listener_id (tv_listeners v),
           tv_vhosts = mark_if_some version vhost_id (tv_vhosts v), tv_routes = mark_if_some version route_key (tv_routes v) \<rparr> \<rparr>)"

definition notify_snapshot_waiters :: "'acc shared_state \<Rightarrow> 'acc shared_state" where
  "notify_snapshot_waiters s = s\<lparr> ss_notifications := Suc (ss_notifications s) \<rparr>"

text \<open>The end of every operation on traffic counters, and of one on upstream counters.\<close>

definition announce_traffic ::
    "bool \<Rightarrow> bool \<Rightarrow> string option \<Rightarrow> string option \<Rightarrow> string option \<Rightarrow> 'acc shared_state \<Rightarrow> 'acc shared_state" where
  "announce_traffic status counters listener_id vhost_id route_key s =
     (case mark_snapshot_changed_components status counters True False False s of
        (version, s1) \<Rightarrow> notify_snapshot_waiters (mark_traffic_targets_changed version listener_id vhost_id route_key s1))"

definition announce_upstream :: "string \<Rightarrow> 'acc shared_state \<Rightarrow> 'acc shared_state" where
  "announce_upstream name s =
     (case mark_snapshot_changed_components False False False False True s of
        (version, s1) \<Rightarrow> notify_snapshot_waiters
          (s1\<lparr> ss_upstream_versions := mark_named_component_target_changed name version (ss_upstream_versions s1) \<rparr>))"

definition announce_status :: "'acc shared_state \<Rightarrow> 'acc shared_state" where
  "announce_status s = notify_snapshot_waiters (snd (mark_snapshot_changed_components True False False False False s))"

definition notify_peer_health :: "string \<Rightarrow> 'acc shared_state \<Rightarrow> 'acc shared_state" where
  "notify_peer_health name s =
     (case mark_snapshot_changed_components False False False True False s of
        (version, s1) \<Rightarrow> notify_snapshot_waiters
          (s1\<lparr> ss_peer_health_versions := mark_named_component_target_changed name version (ss_peer_health_versions s1) \<rparr>))"

definition notify_cache :: "string \<Rightarrow> 'acc shared_state \<Rightarrow> 'acc shared_state" where
  "notify_cache name s =
     (case mark_snapshot_changed_components_with_cache True False False False False True s of
        (version, s1) \<Rightarrow> notify_snapshot_waiters
          (s1\<lparr> ss_cache_versions := mark_named_component_target_changed name version (ss_cache_versions s1) \<rparr>))"

datatype snapshot_module = ModStatus | ModCounters | ModTraffic | ModPeerHealth | ModUpstreams | ModCache

definition snapshot_modules :: "snapshot_module list" where
  "snapshot_modules = [ModStatus, ModCounters, ModTraffic, ModPeerHealth, ModUpstreams, ModCache]"

definition module_normalize :: "snapshot_module list option \<Rightarrow> snapshot_module list" where
  "module_normalize inclusion =
     (let requested = (case inclusion of Some ms \<Rightarrow> ms | None \<Rightarrow> snapshot_modules)
      in filter (\<lambda>m. m \<in> set requested) snapshot_modules)"

record snapshot_delta =
  sd_since_version :: nat
  sd_current_snapshot_version :: nat
  sd_included_modules :: "snapshot_module list"
  sd_recent_window_secs :: "nat option"
  sd_status_version :: "nat option"
  sd_counters_version :: "nat option"
  sd_traffic_version :: "nat option"
  sd_peer_health_version :: "nat option"
  sd_upstreams_version :: "nat option"
  sd_cache_version :: "nat option"
  sd_status_changed :: "bool option"
  sd_counters_changed :: "bool option"
  sd_traffic_changed :: "bool option"
  sd_traffic_recent_changed :: "bool option"
  sd_peer_health_changed :: "bool option"
  sd_upstreams_changed :: "bool option"
  sd_cache_changed :: "bool option"
  sd_upstreams_recent_changed :: "bool option"
  sd_changed_listener_ids :: "string list option"
  sd_changed_vhost_ids :: "string list option"
  sd_changed_route_ids :: "string list option"
  sd_changed_recent_listener_ids :: "string list option"
  sd_changed_recent_vhost_ids :: "string list option"
  sd_changed_recent_route_ids :: "string list option"
  sd_changed_peer_health_upstream_names :: "string list option"
  sd_changed_upstream_names :: "string list option"
  sd_changed_recent_upstream_names :: "string list option"
  sd_changed_cache_zone_names :: "string list option"

definition then_some :: "bool \<Rightarrow> 'a \<Rightarrow> 'a option" where
  "then_some b x = (if b then Some x else None)"

definition changed_traffic_targets_since :: "'acc shared_state \<Rightarrow> nat \<Rightarrow> string list \<times> string list \<times> string list" where
  "changed_traffic_targets_since s since_version =
     (let v = ss_traffic_versions s
      in (changed_named_component_targets_since (tv_listeners v) since_version,
          changed_named_component_targets_since (tv_vhosts v) since_version,
          changed_named_component_targets_since (tv_routes v) since_version))"

definition snapshot_delta_since ::
    "'acc shared_state \<Rightarrow> nat \<Rightarrow> snapshot_module list option \<Rightarrow> nat option \<Rightarrow> snapshot_delta" where
  "snapshot_delta_since s since inclusion window_secs =
     (let modules = module_normalize inclusion; has = (\<lambda>m. m \<in> set modules); recent = (window_secs \<noteq> None);
          c = ss_components s;
          upstream_names = changed_named_component_targets_since (ss_upstream_versions s) since
      in case changed_traffic_targets_since s since of (listeners, vhosts, routes) \<Rightarrow>
        \<lparr> sd_since_version = since, sd_current_snapshot_version = ss_snapshot_version s, sd_included_modules = modules,
          sd_recent_window_secs = window_secs,
          sd_status_version = then_some (has ModStatus) (cv_status c),
          sd_counters_version = then_some (has ModCounters) (cv_counters c),
          sd_traffic_version = then_some (has ModTraffic) (cv_traffic c),
          sd_peer_health_version = then_some (has ModPeerHealth) (cv_peer_health c),
          sd_upstreams_version = then_some (has ModUpstreams) (cv_upstreams c),
          sd_cache_version = then_some (has ModCache) (cv_cache c),
          sd_status_changed = then_some (has ModStatus) (since < cv_status c),
          sd_counters_changed = then_some (has ModCounters) (since < cv_counters c),
          sd_traffic_changed = then_some (has ModTraffic) (since < cv_traffic c),
          sd_traffic_recent_changed = then_some (has ModTraffic \<and> recent) (since < cv_traffic c),
          sd_peer_health_changed = then_some (has ModPeerHealth) (since < cv_peer_health c),
          sd_upstreams_changed = then_some (has ModUpstreams) (since < cv_upstreams c),
          sd_cache_changed = then_some (has ModCache) (since < cv_cache c),
          sd_upstreams_recent_changed = then_some (has ModUpstreams \<and> recent) (since < cv_upstreams c),
          sd_changed_listener_ids = then_some (has ModTraffic) listeners,
          sd_changed_vhost_ids = then_some (has ModTraffic) vhosts,
          sd_changed_route_ids = then_some (has ModTraffic) routes,
          sd_changed_recent_listener_ids = then_some (has ModTraffic \<and> recent) listeners,
          sd_changed_recent_vhost_ids = then_some (has ModTraffic \<and> recent) vhosts,
          sd_changed_recent_route_ids = then_some (has ModTraffic \<and> recent) routes,
          sd_changed_peer_health_upstream_names =
            then_some (has ModPeerHealth) (changed_named_component_targets_since (ss_peer_health_versions s) since),
          sd_changed_upstream_names = then_some (has ModUpstreams) upstream_names,
          sd_changed_recent_upstream_names = then_some (has ModUpstreams \<and> recent) upstream_names,
          sd_changed_cache_zone_names =
            then_some (has ModCache) (changed_named_component_targets_since (ss_cache_versions s) since) \<rparr>)"

section \<open>Recording traffic\<close>

definition on_listener :: "string \<Rightarrow> (listener_counters \<Rightarrow> listener_counters) \<Rightarrow> 'acc shared_state \<Rightarrow> 'acc shared_state" where
  "on_listener listener_id f s =
     (case ti_listeners (ss_traffic s) listener_id of
        Some e \<Rightarrow> s\<lparr> ss_counter_cells := (ss_counter_cells s)(le_counters e := f (ss_counter_cells s (le_counters e))) \<rparr>
      | None \<Rightarrow> s)"

definition on_vhost :: "string \<Rightarrow> (vhost_counters \<Rightarrow> vhost_counters) \<Rightarrow> 'acc shared_state \<Rightarrow> 'acc shared_state" where
  "on_vhost vhost_id f s =
     (case ti_vhosts (ss_traffic s) vhost_id of
        Some e \<Rightarrow> s\<lparr> ss_traffic := (ss_traffic s)
          \<lparr> ti_vhosts := (ti_vhosts (ss_traffic s))(vhost_id \<mapsto> e\<lparr> ve_counters := f (ve_counters e) \<rparr>) \<rparr> \<rparr>
      | None \<Rightarrow> s)"

definition on_route :: "string option \<Rightarrow> (route_counters \<Rightarrow> route_counters) \<Rightarrow> 'acc shared_state \<Rightarrow> 'acc shared_state" where
  "on_route route_key f s =
     (case route_key of
        None \<Rightarrow> s
      | Some r \<Rightarrow>
          (case ti_routes (ss_traffic s) r of
             Some e \<Rightarrow> s\<lparr> ss_traffic := (ss_traffic s)
               \<lparr> ti_routes := (ti_routes (ss_traffic s))(r \<mapsto> e\<lparr> re_counters := f (re_counters e) \<rparr>) \<rparr> \<rparr>
           | None \<Rightarrow> s))"

definition on_counters :: "(http_counters \<Rightarrow> http_counters) \<Rightarrow> 'acc shared_state \<Rightarrow> 'acc shared_state" where
  "on_counters f s = s\<lparr> ss_counters := f (ss_counters s) \<rparr>"

definition count_request :: "nat \<Rightarrow> 'a traffic_counters_scheme \<Rightarrow> 'a traffic_counters_scheme" where
  "count_request now c = c\<lparr> tc_requests := inc (tc_requests c), tc_recent := recent_downstream_request now (tc_recent c) \<rparr>"

definition count_response :: "nat \<Rightarrow> status_code \<Rightarrow> 'a traffic_counters_scheme \<Rightarrow> 'a traffic_counters_scheme" where
  "count_response now status c =
     c\<lparr> tc_responses := response_record status (tc_responses c), tc_recent := recent_downstream_response now status (tc_recent c) \<rparr>"

definition count_grpc_request :: "nat \<Rightarrow> string \<Rightarrow> 'a traffic_counters_scheme \<Rightarrow> 'a traffic_counters_scheme" where
  "count_grpc_request now protocol c =
     c\<lparr> tc_grpc := grpc_record_request protocol (tc_grpc c), tc_recent := recent_grpc_request now (tc_recent c) \<rparr>"

definition count_grpc_status :: "string option \<Rightarrow> 'a traffic_counters_scheme \<Rightarrow> 'a traffic_counters_scheme" where
  "count_grpc_status status c = c\<lparr> tc_grpc := grpc_record_status status (tc_grpc c) \<rparr>"

definition record_downstream_request ::
    "nat \<Rightarrow> string \<Rightarrow> string \<Rightarrow> string option \<Rightarrow> 'acc shared_state \<Rightarrow> 'acc shared_state" where
  "record_downstream_request now listener_id vhost_id route_key s =
     announce_traffic False True (Some listener_id) (Some vhost_id) route_key
       (on_route route_key (count_request now)
         (on_vhost vhost_id (\<lambda>c. let c1 = count_request now c
                                in if route_key = None then c1\<lparr> vc_unmatched := inc (vc_unmatched c1) \<rparr> else c1)
           (on_listener listener_id (\<lambda>c. let c1 = count_request now c
                                        in if route_key = None then c1\<lparr> lc_unmatched := inc (lc_unmatched c1) \<rparr> else c1)
             (on_counters (\<lambda>c. c\<lparr> hc_requests := inc (hc_requests c) \<rparr>) s))))"

definition record_mtls_request :: "string \<Rightarrow> bool \<Rightarrow> 'acc shared_state \<Rightarrow> 'acc shared_state" where
  "record_mtls_request listener_id authenticated s =
     announce_traffic True True (Some listener_id) None None
       (on_listener listener_id
         (\<lambda>c. if authenticated then c\<lparr> lc_mtls_requests := inc (lc_mtls_requests c) \<rparr>
              else c\<lparr> lc_anonymous_requests := inc (lc_anonymous_requests c) \<rparr>)
         (on_counters (\<lambda>c. if authenticated then c\<lparr> hc_mtls_requests := inc (hc_mtls_requests c) \<rparr>
                           else c\<lparr> hc_anonymous_requests := inc (hc_anonymous_requests c) \<rparr>) s))"

definition record_downstream_response ::
    "nat \<Rightarrow> string \<Rightarrow> string \<Rightarrow> string option \<Rightarrow> status_code \<Rightarrow> 'acc shared_state \<Rightarrow> 'acc shared_state" where
  "record_downstream_response now listener_id vhost_id route_key status s =
     announce_traffic False True (Some listener_id) (Some vhost_id) route_key
       (on_route route_key (count_response now status)
         (on_vhost vhost_id (count_response now status)
           (on_listener listener_id (count_response now status)
             (on_counters (\<lambda>c. c\<lparr> hc_responses := response_record status (hc_responses c) \<rparr>) s))))"

definition record_route_access_denied :: "string \<Rightarrow> 'acc shared_state \<Rightarrow> 'acc shared_state" where
  "record_route_access_denied route_key s =
     announce_traffic False False None None (Some route_key)
       (on_route (Some route_key) (\<lambda>c. c\<lparr> rtc_access_denied := inc (rtc_access_denied c) \<rparr>) s)"

definition record_route_rate_limited :: "string \<Rightarrow> 'acc shared_state \<Rightarrow> 'acc shared_state" where
  "record_route_rate_limited route_key s =
     announce_traffic False False None None (Some route_key)
       (on_route (Some route_key) (\<lambda>c. c\<lparr> rtc_rate_limited := inc (rtc_rate_limited c) \<rparr>) s)"

definition record_grpc_request ::
    "nat \<Rightarrow> string \<Rightarrow> string \<Rightarrow> string option \<Rightarrow> string \<Rightarrow> 'acc shared_state \<Rightarrow> 'acc shared_state" where
  "record_grpc_request now listener_id vhost_id route_key protocol s =
     announce_traffic False False (Some listener_id) (Some vhost_id) route_key
       (on_route route_key (count_grpc_request now protocol)
         (on_vhost vhost_id (count_grpc_request now protocol) (on_listener listener_id (count_grpc_request now protocol) s)))"

definition record_grpc_status ::
    "string \<Rightarrow> string \<Rightarrow> string option \<Rightarrow> string option \<Rightarrow> 'acc shared_state \<Rightarrow> 'acc shared_state" where
  "record_grpc_status listener_id vhost_id route_key status s =
     announce_traffic False False (Some listener_id) (Some vhost_id) route_key
       (on_route route_key (count_grpc_status status)
         (on_vhost vhost_id (count_grpc_status status) (on_listener listener_id (count_grpc_status status) s)))"

section \<open>Recording connections\<close>

datatype tls_handshake_failure_reason =
  MissingClientCert | UnknownCa | BadCertificate | CertificateRevoked | VerifyDepthExceeded | OtherFailure

fun tls_failure_as_str :: "tls_handshake_failure_reason \<Rightarrow> string" where
  "tls_failure_as_str MissingClientCert = ''missing_client_cert''"
| "tls_failure_as_str UnknownCa = ''unknown_ca''"
| "tls_failure_as_str BadCertificate = ''bad_certificate''"
| "tls_failure_as_str CertificateRevoked = ''certificate_revoked''"
| "tls_failure_as_str VerifyDepthExceeded = ''verify_depth_exceeded''"
| "tls_failure_as_str OtherFailure = ''other''"

fun count_tls_failure_class :: "tls_handshake_failure_reason \<Rightarrow> tls_failure_counters \<Rightarrow> tls_failure_counters" where
  "count_tls_failure_class MissingClientCert c = c\<lparr> tf_missing_client_cert := inc (tf_missing_client_cert c) \<rparr>"
| "count_tls_failure_class UnknownCa c = c\<lparr> tf_unknown_ca := inc (tf_unknown_ca c) \<rparr>"
| "count_tls_failure_class BadCertificate c = c\<lparr> tf_bad_certificate := inc (tf_bad_certificate c) \<rparr>"
| "count_tls_failure_class CertificateRevoked c = c\<lparr> tf_certificate_revoked := inc (tf_certificate_revoked c) \<rparr>"
| "count_tls_failure_class VerifyDepthExceeded c = c\<lparr> tf_verify_depth_exceeded := inc (tf_verify_depth_exceeded c) \<rparr>"
| "count_tls_failure_class OtherFailure c = c\<lparr> tf_other := inc (tf_other c) \<rparr>"

definition count_tls_failure :: "tls_handshake_failure_reason \<Rightarrow> tls_failure_counters \<Rightarrow> tls_failure_counters" where
  "count_tls_failure reason c = count_tls_failure_class reason (c\<lparr> tf_total := inc (tf_total c) \<rparr>)"

definition record_connection_accepted :: "string \<Rightarrow> 'acc shared_state \<Rightarrow> 'acc shared_state" where
  "record_connection_accepted listener_id s =
     announce_traffic True True (Some listener_id) None None
       (on_listener listener_id (\<lambda>c. c\<lparr> lc_accepted := inc (lc_accepted c) \<rparr>)
         (on_counters (\<lambda>c. c\<lparr> hc_accepted := inc (hc_accepted c) \<rparr>) s))"

definition record_mtls_handshake_success :: "string \<Rightarrow> bool \<Rightarrow> 'acc shared_state \<Rightarrow> 'acc shared_state" where
  "record_mtls_handshake_success listener_id authenticated s =
     (if \<not> authenticated then s
      else announce_traffic True True (Some listener_id) None None
        (on_listener listener_id (\<lambda>c. c\<lparr> lc_mtls_connections := inc (lc_mtls_connections c) \<rparr>)
          (on_counters (\<lambda>c. c\<lparr> hc_mtls_connections := inc (hc_mtls_connections c) \<rparr>) s)))"

definition record_tls_handshake_failure :: "string \<Rightarrow> tls_handshake_failure_reason \<Rightarrow> 'acc shared_state \<Rightarrow> 'acc shared_state" where
  "record_tls_handshake_failure listener_id reason s =
     announce_traffic True True (Some listener_id) None None
       (on_listener listener_id (\<lambda>c. c\<lparr> lc_tls_failures := count_tls_failure reason (lc_tls_failures c) \<rparr>)
         (on_counters (\<lambda>c. c\<lparr> hc_tls_failures := count_tls_failure reason (hc_tls_failures c) \<rparr>) s))"

definition record_connection_rejected :: "string \<Rightarrow> 'acc shared_state \<Rightarrow> 'acc shared_state" where
  "record_connection_rejected listener_id s =
     announce_traffic True True (Some listener_id) None None
       (on_listener listener_id (\<lambda>c. c\<lparr> lc_rejected := inc (lc_rejected c) \<rparr>)
         (on_counters (\<lambda>c. c\<lparr> hc_rejected := inc (hc_rejected c) \<rparr>) s))"

definition record_http3_early_data_accepted_request :: "string \<Rightarrow> 'acc shared_state \<Rightarrow> 'acc shared_state" where
  "record_http3_early_data_accepted_request listener_id s =
     announce_traffic True True (Some listener_id) None None
       (on_listener listener_id (\<lambda>c. c\<lparr> lc_early_accepted := inc (lc_early_accepted c) \<rparr>)
         (on_counters (\<lambda>c. c\<lparr> hc_early_accepted := inc (hc_early_accepted c) \<rparr>) s))"

definition record_http3_early_data_rejected_request :: "string \<Rightarrow> 'acc shared_state \<Rightarrow> 'acc shared_state" where
  "record_http3_early_data_rejected_request listener_id s =
     announce_traffic True True (Some listener_id) None None
       (on_listener listener_id (\<lambda>c. c\<lparr> lc_early_rejected := inc (lc_early_rejected c) \<rparr>)
         (on_counters (\<lambda>c. c\<lparr> hc_early_rejected := inc (hc_early_rejected c) \<rparr>) s))"

text \<open>The operations that count on a listener's HTTP/3 counters only.\<close>

definition record_http3 :: "string \<Rightarrow> (http3_counters \<Rightarrow> http3_counters) \<Rightarrow> 'acc shared_state \<Rightarrow> 'acc shared_state" where
  "record_http3 listener_id f s =
     announce_traffic True False (Some listener_id) None None
       (on_listener listener_id (\<lambda>c. c\<lparr> lc_http3 := f (lc_http3 c) \<rparr>) s)"

definition record_http3_retry_issued :: "string \<Rightarrow> 'acc shared_state \<Rightarrow> 'acc shared_state" where
  "record_http3_retry_issued listener_id = record_http3 listener_id (\<lambda>c. c\<lparr> h3c_retry_issued := inc (h3c_retry_issued c) \<rparr>)"

definition record_http3_retry_failed :: "string \<Rightarrow> 'acc shared_state \<Rightarrow> 'acc shared_state" where
  "record_http3_retry_failed listener_id = record_http3 listener_id (\<lambda>c. c\<lparr> h3c_retry_failed := inc (h3c_retry_failed c) \<rparr>)"

definition record_http3_request_accept_error :: "string \<Rightarrow> 'acc shared_state \<Rightarrow> 'acc shared_state" where
  "record_http3_request_accept_error listener_id = record_http3 listener_id (\<lambda>c. c\<lparr> h3c_accept_errors := inc (h3c_accept_errors c) \<rparr>)"

definition record_http3_request_resolve_error :: "string \<Rightarrow> 'acc shared_state \<Rightarrow> 'acc shared_state" where
  "record_http3_request_resolve_error listener_id = record_http3 listener_id (\<lambda>c. c\<lparr> h3c_resolve_errors := inc (h3c_resolve_errors c) \<rparr>)"

definition record_http3_request_body_stream_error :: "string \<Rightarrow> 'acc shared_state \<Rightarrow> 'acc shared_state" where
  "record_http3_request_body_stream_error listener_id = record_http3 listener_id (\<lambda>c. c\<lparr> h3c_body_stream_errors := inc (h3c_body_stream_errors c) \<rparr>)"

definition record_http3_response_stream_error :: "string \<Rightarrow> 'acc shared_state \<Rightarrow> 'acc shared_state" where
  "record_http3_response_stream_error listener_id = record_http3 listener_id (\<lambda>c. c\<lparr> h3c_response_stream_errors := inc (h3c_response_stream_errors c) \<rparr>)"

datatype quic_close = VersionMismatch | TransportError | ConnectionClosed | ApplicationClosed | QuicReset | QuicTimedOut
  | LocallyClosed | CidsExhausted

fun count_quic_close :: "quic_close \<Rightarrow> http3_counters \<Rightarrow> http3_counters" where
  "count_quic_close VersionMismatch c = c\<lparr> h3c_close_version_mismatch := inc (h3c_close_version_mismatch c) \<rparr>"
| "count_quic_close TransportError c = c\<lparr> h3c_close_transport_error := inc (h3c_close_transport_error c) \<rparr>"
| "count_quic_close ConnectionClosed c = c\<lparr> h3c_close_connection_closed := inc (h3c_close_connection_closed c) \<rparr>"
| "count_quic_close ApplicationClosed c = c\<lparr> h3c_close_application_closed := inc (h3c_close_application_closed c) \<rparr>"
| "count_quic_close QuicReset c = c\<lparr> h3c_close_reset := inc (h3c_close_reset c) \<rparr>"
| "count_quic_close QuicTimedOut c = c\<lparr> h3c_close_timed_out := inc (h3c_close_timed_out c) \<rparr>"
| "count_quic_close LocallyClosed c = c\<lparr> h3c_close_locally_closed := inc (h3c_close_locally_closed c) \<rparr>"
| "count_quic_close CidsExhausted c = c\<lparr> h3c_close_cids_exhausted := inc (h3c_close_cids_exhausted c) \<rparr>"

definition record_http3_connection_close :: "string \<Rightarrow> quic_close \<Rightarrow> 'acc shared_state \<Rightarrow> 'acc shared_state" where
  "record_http3_connection_close listener_id reason = record_http3 listener_id (count_quic_close reason)"

section \<open>Recording upstream events\<close>

definition on_upstream :: "string \<Rightarrow> (upstream_stats \<Rightarrow> upstream_stats) \<Rightarrow> 'acc shared_state \<Rightarrow> 'acc shared_state" where
  "on_upstream upstream_name f s =
     (case ss_upstreams s upstream_name of
        None \<Rightarrow> s
      | Some e \<Rightarrow> announce_upstream upstream_name
          (s\<lparr> ss_upstreams := (ss_upstreams s)(upstream_name \<mapsto> e\<lparr> ue_counters := f (ue_counters e) \<rparr>) \<rparr>))"

definition on_upstream_peer ::
    "string \<Rightarrow> string \<Rightarrow> (upstream_stats \<Rightarrow> upstream_stats) \<Rightarrow> (upstream_peer_stats \<Rightarrow> upstream_peer_stats) \<Rightarrow>
     'acc shared_state \<Rightarrow> 'acc shared_state" where
  "on_upstream_peer upstream_name peer f g s =
     (case ss_upstreams s upstream_name of
        None \<Rightarrow> s
      | Some e \<Rightarrow>
          (case ue_peers e peer of
             None \<Rightarrow> s
           | Some p \<Rightarrow> announce_upstream upstream_name
               (s\<lparr> ss_upstreams := (ss_upstreams s)(upstream_name \<mapsto>
                  e\<lparr> ue_counters := f (ue_counters e), ue_peers := (ue_peers e)(peer \<mapsto> g p) \<rparr>) \<rparr>)))"

definition record_upstream_request :: "nat \<Rightarrow> string \<Rightarrow> 'acc shared_state \<Rightarrow> 'acc shared_state" where
  "record_upstream_request now upstream_name = on_upstream upstream_name
     (\<lambda>c. c\<lparr> us_requests := inc (us_requests c), us_recent := (us_recent c)\<lparr> ru_requests := increment_at now (ru_requests (us_recent c)) \<rparr> \<rparr>)"

definition record_upstream_failover :: "nat \<Rightarrow> string \<Rightarrow> 'acc shared_state \<Rightarrow> 'acc shared_state" where
  "record_upstream_failover now upstream_name = on_upstream upstream_name
     (\<lambda>c. c\<lparr> us_failovers := inc (us_failovers c), us_recent := (us_recent c)\<lparr> ru_failovers := increment_at now (ru_failovers (us_recent c)) \<rparr> \<rparr>)"

definition record_upstream_completed_response :: "nat \<Rightarrow> string \<Rightarrow> 'acc shared_state \<Rightarrow> 'acc shared_state" where
  "record_upstream_completed_response now upstream_name = on_upstream upstream_name
     (\<lambda>c. c\<lparr> us_completed := inc (us_completed c), us_recent := (us_recent c)\<lparr> ru_completed := increment_at now (ru_completed (us_recent c)) \<rparr> \<rparr>)"

definition record_upstream_bad_gateway_response :: "nat \<Rightarrow> string \<Rightarrow> 'acc shared_state \<Rightarrow> 'acc shared_state" where
  "record_upstream_bad_gateway_response now upstream_name = on_upstream upstream_name
     (\<lambda>c. c\<lparr> us_bad_gateway := inc (us_bad_gateway c), us_recent := (us_recent c)\<lparr> ru_bad_gateway := increment_at now (ru_bad_gateway (us_recent c)) \<rparr> \<rparr>)"

definition record_upstream_gateway_timeout_response :: "nat \<Rightarrow> string \<Rightarrow> 'acc shared_state \<Rightarrow> 'acc shared_state" where
  "record_upstream_gateway_timeout_response now upstream_name = on_upstream upstream_name
     (\<lambda>c. c\<lparr> us_gateway_timeout := inc (us_gateway_timeout c), us_recent := (us_recent c)\<lparr> ru_gateway_timeout := increment_at now (ru_gateway_timeout (us_recent c)) \<rparr> \<rparr>)"

definition record_upstream_bad_request_response :: "string \<Rightarrow> 'acc shared_state \<Rightarrow> 'acc shared_state" where
  "record_upstream_bad_request_response upstream_name = on_upstream upstream_name (\<lambda>c. c\<lparr> us_bad_request := inc (us_bad_request c) \<rparr>)"

definition record_upstream_payload_too_large_response :: "string \<Rightarrow> 'acc shared_state \<Rightarrow> 'acc shared_state" where
  "record_upstream_payload_too_large_response upstream_name = on_upstream upstream_name (\<lambda>c. c\<lparr> us_payload_too_large := inc (us_payload_too_large c) \<rparr>)"

definition record_upstream_unsupported_media_type_response :: "string \<Rightarrow> 'acc shared_state \<Rightarrow> 'acc shared_state" where
  "record_upstream_unsupported_media_type_response upstream_name = on_upstream upstream_name (\<lambda>c. c\<lparr> us_unsupported_media_type := inc (us_unsupported_media_type c) \<rparr>)"

definition record_upstream_no_healthy_peers :: "string \<Rightarrow> 'acc shared_state \<Rightarrow> 'acc shared_state" where
  "record_upstream_no_healthy_peers upstream_name = on_upstream upstream_name (\<lambda>c. c\<lparr> us_no_healthy_peers := inc (us_no_healthy_peers c) \<rparr>)"

definition record_upstream_peer_attempt :: "nat \<Rightarrow> string \<Rightarrow> string \<Rightarrow> 'acc shared_state \<Rightarrow> 'acc shared_state" where
  "record_upstream_peer_attempt now upstream_name peer = on_upstream_peer upstream_name peer
     (\<lambda>c. c\<lparr> us_attempts := inc (us_attempts c), us_recent := (us_recent c)\<lparr> ru_attempts := increment_at now (ru_attempts (us_recent c)) \<rparr> \<rparr>)
     (\<lambda>p. p\<lparr> ps_attempts := inc (ps_attempts p) \<rparr>)"

definition record_upstream_peer_success :: "string \<Rightarrow> string \<Rightarrow> 'acc shared_state \<Rightarrow> 'acc shared_state" where
  "record_upstream_peer_success upstream_name peer = on_upstream_peer upstream_name peer
     (\<lambda>c. c\<lparr> us_successes := inc (us_successes c) \<rparr>) (\<lambda>p. p\<lparr> ps_successes := inc (ps_successes p) \<rparr>)"

definition record_upstream_peer_failure :: "string \<Rightarrow> string \<Rightarrow> 'acc shared_state \<Rightarrow> 'acc shared_state" where
  "record_upstream_peer_failure upstream_name peer = on_upstream_peer upstream_name peer
     (\<lambda>c. c\<lparr> us_failures := inc (us_failures c) \<rparr>) (\<lambda>p. p\<lparr> ps_failures := inc (ps_failures p) \<rparr>)"

definition record_upstream_peer_timeout :: "string \<Rightarrow> string \<Rightarrow> 'acc shared_state \<Rightarrow> 'acc shared_state" where
  "record_upstream_peer_timeout upstream_name peer = on_upstream_peer upstream_name peer
     (\<lambda>c. c\<lparr> us_timeouts := inc (us_timeouts c) \<rparr>) (\<lambda>p. p\<lparr> ps_timeouts := inc (ps_timeouts p) \<rparr>)"

definition record_upstream_peer_failure_class :: "string \<Rightarrow> string \<Rightarrow> 'acc shared_state \<Rightarrow> 'acc shared_state" where
  "record_upstream_peer_failure_class upstream_name failure_class s =
     (if failure_class = ''unknown_ca'' then
        on_upstream upstream_name (\<lambda>c. c\<lparr> us_tls_unknown_ca := inc (us_tls_unknown_ca c) \<rparr>) s
      else if failure_class = ''bad_certificate'' then
        on_upstream upstream_name (\<lambda>c. c\<lparr> us_tls_bad_certificate := inc (us_tls_bad_certificate c) \<rparr>) s
      else if failure_class = ''certificate_revoked'' then
        on_upstream upstream_name (\<lambda>c. c\<lparr> us_tls_certificate_revoked := inc (us_tls_certificate_revoked c) \<rparr>) s
      else if failure_class = ''verify_depth_exceeded'' then
        on_upstream upstream_name (\<lambda>c. c\<lparr> us_tls_verify_depth_exceeded := inc (us_tls_verify_depth_exceeded c) \<rparr>) s
      else s)"

section \<open>Connection slots\<close>

record connection_guard =
  cg_cell :: nat
  cg_listener :: string

definition active_connection_count :: "'acc shared_state \<Rightarrow> nat" where
  "active_connection_count s = ss_active_connections s"

definition take_slot :: "nat \<Rightarrow> 'acc shared_state \<Rightarrow> 'acc shared_state" where
  "take_slot cell s = s\<lparr> ss_active_cells := (ss_active_cells s)(cell := inc (ss_active_cells s cell)),
     ss_active_connections := inc (ss_active_connections s) \<rparr>"

definition try_acquire_connection ::
    "string \<Rightarrow> nat option \<Rightarrow> 'acc shared_state \<Rightarrow> connection_guard option \<times> 'acc shared_state" where
  "try_acquire_connection listener_id limit s =
     (case ss_active_of s listener_id of
        None \<Rightarrow> (None, s)
      | Some cell \<Rightarrow>
          if (case limit of Some n \<Rightarrow> n \<le> ss_active_cells s cell | None \<Rightarrow> False) then (None, s)
          else (Some \<lparr> cg_cell = cell, cg_listener = listener_id \<rparr>, take_slot cell s))"

text \<open>The slot of an upgraded connection; a listener that is gone is a panic.\<close>

definition retain_connection_slot :: "string \<Rightarrow> 'acc shared_state \<Rightarrow> (connection_guard \<times> 'acc shared_state) option" where
  "retain_connection_slot listener_id s =
     (case ss_active_of s listener_id of
        None \<Rightarrow> None
      | Some cell \<Rightarrow> Some (\<lparr> cg_cell = cell, cg_listener = listener_id \<rparr>,
          announce_traffic True False (Some listener_id) None None (take_slot cell s)))"

definition drop_connection_guard :: "connection_guard \<Rightarrow> 'acc shared_state \<Rightarrow> 'acc shared_state" where
  "drop_connection_guard g s =
     announce_traffic True False (Some (cg_listener g)) None None
       (s\<lparr> ss_active_connections := dec (ss_active_connections s),
           ss_active_cells := (ss_active_cells s)(cg_cell g := dec (ss_active_cells s (cg_cell g))) \<rparr>)"

text \<open>The guards of HTTP/3 connections and request streams keep the counters of the listener.\<close>

definition on_http3_cell :: "nat \<Rightarrow> (http3_counters \<Rightarrow> http3_counters) \<Rightarrow> 'acc shared_state \<Rightarrow> 'acc shared_state" where
  "on_http3_cell cell f s = s\<lparr> ss_counter_cells := (ss_counter_cells s)
     (cell := (ss_counter_cells s cell)\<lparr> lc_http3 := f (lc_http3 (ss_counter_cells s cell)) \<rparr>) \<rparr>"

definition retain_http3 ::
    "string \<Rightarrow> (http3_counters \<Rightarrow> http3_counters) \<Rightarrow> string \<Rightarrow> 'acc shared_state \<Rightarrow> string + connection_guard \<times> 'acc shared_state" where
  "retain_http3 what f listener_id s =
     (case ti_listeners (ss_traffic s) listener_id of
        None \<Rightarrow> Inl (''listener `'' @ listener_id @ ''` is missing traffic counters for http3 '' @ what)
      | Some e \<Rightarrow> Inr (\<lparr> cg_cell = le_counters e, cg_listener = listener_id \<rparr>,
          announce_traffic True False (Some listener_id) None None (on_http3_cell (le_counters e) f s)))"

definition retain_http3_connection :: "string \<Rightarrow> 'acc shared_state \<Rightarrow> string + connection_guard \<times> 'acc shared_state" where
  "retain_http3_connection = retain_http3 ''connections'' (\<lambda>c. c\<lparr> h3c_connections := inc (h3c_connections c) \<rparr>)"

definition retain_http3_request_stream :: "string \<Rightarrow> 'acc shared_state \<Rightarrow> string + connection_guard \<times> 'acc shared_state" where
  "retain_http3_request_stream = retain_http3 ''request streams'' (\<lambda>c. c\<lparr> h3c_request_streams := inc (h3c_request_streams c) \<rparr>)"

definition drop_http3_connection_guard :: "connection_guard \<Rightarrow> 'acc shared_state \<Rightarrow> 'acc shared_state" where
  "drop_http3_connection_guard g s = announce_traffic True False (Some (cg_listener g)) None None
     (on_http3_cell (cg_cell g) (\<lambda>c. c\<lparr> h3c_connections := dec (h3c_connections c) \<rparr>) s)"

definition drop_http3_request_stream_guard :: "connection_guard \<Rightarrow> 'acc shared_state \<Rightarrow> 'acc shared_state" where
  "drop_http3_request_stream_guard g s = announce_traffic True False (Some (cg_listener g)) None None
     (on_http3_cell (cg_cell g) (\<lambda>c. c\<lparr> h3c_request_streams := dec (h3c_request_streams c) \<rparr>) s)"

section \<open>Reload, OCSP and ACME\<close>

definition record_reload_success :: "nat \<Rightarrow> nat \<Rightarrow> string list \<Rightarrow> 'acc shared_state \<Rightarrow> 'acc shared_state" where
  "record_reload_success now_ms revision changes s =
     (let h = ss_reload_history s
      in announce_status (s\<lparr> ss_reload_history := \<lparr> rh_attempts = inc (rh_attempts h), rh_successes = inc (rh_successes h),
           rh_failures = rh_failures h,
           rh_last_result = Some \<lparr> rr_finished_at_unix_ms = now_ms, rr_outcome = ReloadSuccess revision,
             rr_tls_certificate_changes = changes, rr_active_revision = revision,
             rr_rollback_preserved_revision = None \<rparr> \<rparr> \<rparr>))"

definition record_reload_failure :: "nat \<Rightarrow> string \<Rightarrow> nat \<Rightarrow> 'acc shared_state \<Rightarrow> 'acc shared_state" where
  "record_reload_failure now_ms err active_revision s =
     (let h = ss_reload_history s
      in announce_status (s\<lparr> ss_reload_history := \<lparr> rh_attempts = inc (rh_attempts h), rh_successes = rh_successes h,
           rh_failures = inc (rh_failures h),
           rh_last_result = Some \<lparr> rr_finished_at_unix_ms = now_ms, rr_outcome = ReloadFailure err,
             rr_tls_certificate_changes = [], rr_active_revision = active_revision,
             rr_rollback_preserved_revision = Some active_revision \<rparr> \<rparr> \<rparr>))"

definition ocsp_entry :: "string \<Rightarrow> 'acc shared_state \<Rightarrow> ocsp_status_entry" where
  "ocsp_entry scope s = (case ss_ocsp s scope of Some e \<Rightarrow> e
     | None \<Rightarrow> \<lparr> oc_last_refresh_unix_ms = None, oc_refreshes = 0, oc_failures = 0, oc_last_error = None \<rparr>)"

definition record_ocsp_refresh_success :: "nat \<Rightarrow> string \<Rightarrow> 'acc shared_state \<Rightarrow> 'acc shared_state" where
  "record_ocsp_refresh_success now_ms scope s =
     (let e = ocsp_entry scope s
      in announce_status (s\<lparr> ss_ocsp := (ss_ocsp s)(scope \<mapsto> e\<lparr> oc_last_refresh_unix_ms := Some now_ms,
           oc_refreshes := inc (oc_refreshes e), oc_last_error := None \<rparr>) \<rparr>))"

definition record_ocsp_refresh_failure :: "string \<Rightarrow> string \<Rightarrow> 'acc shared_state \<Rightarrow> 'acc shared_state" where
  "record_ocsp_refresh_failure scope err s =
     (let e = ocsp_entry scope s
      in announce_status (s\<lparr> ss_ocsp := (ss_ocsp s)(scope \<mapsto> e\<lparr> oc_failures := inc (oc_failures e),
           oc_last_error := Some err \<rparr>) \<rparr>))"

definition acme_entry :: "string \<Rightarrow> 'acc shared_state \<Rightarrow> acme_status_entry" where
  "acme_entry scope s = (case ss_acme s scope of Some e \<Rightarrow> e
     | None \<Rightarrow> \<lparr> ac_last_success_unix_ms = None, ac_refreshes = 0, ac_failures = 0, ac_retry_after_unix_ms = None,
         ac_last_error = None \<rparr>)"

definition record_acme_refresh_success :: "nat \<Rightarrow> string \<Rightarrow> 'acc shared_state \<Rightarrow> 'acc shared_state" where
  "record_acme_refresh_success now_ms scope s =
     (let e = acme_entry scope s
      in announce_status (s\<lparr> ss_acme := (ss_acme s)(scope \<mapsto> e\<lparr> ac_last_success_unix_ms := Some now_ms,
           ac_refreshes := inc (ac_refreshes e), ac_retry_after_unix_ms := None, ac_last_error := None \<rparr>) \<rparr>))"

text \<open>The time of the next attempt is an argument: the clock plus the delay, when the sum is a time.\<close>

definition record_acme_refresh_failure :: "string \<Rightarrow> string \<Rightarrow> nat option \<Rightarrow> 'acc shared_state \<Rightarrow> 'acc shared_state" where
  "record_acme_refresh_failure scope err retry_after_unix_ms s =
     (let e = acme_entry scope s
      in announce_status (s\<lparr> ss_acme := (ss_acme s)(scope \<mapsto> e\<lparr> ac_failures := inc (ac_failures e),
           ac_retry_after_unix_ms := retry_after_unix_ms, ac_last_error := Some err \<rparr>) \<rparr>))"

definition sync_acme_statuses :: "config_snapshot \<Rightarrow> 'acc shared_state \<Rightarrow> 'acc shared_state" where
  "sync_acme_statuses config s =
     s\<lparr> ss_acme := (\<lambda>scope. if scope \<in> set (map mc_scope (cs_managed_certificates config)) then ss_acme s scope else None) \<rparr>"

definition register_acme_http01_challenge :: "string \<Rightarrow> string \<Rightarrow> 'acc shared_state \<Rightarrow> 'acc shared_state" where
  "register_acme_http01_challenge token key_authorization s =
     s\<lparr> ss_challenges := (ss_challenges s)(token \<mapsto> key_authorization) \<rparr>"

definition unregister_acme_http01_challenge :: "string \<Rightarrow> 'acc shared_state \<Rightarrow> 'acc shared_state" where
  "unregister_acme_http01_challenge token s = s\<lparr> ss_challenges := (ss_challenges s)(token := None) \<rparr>"

definition acme_http01_response :: "string \<Rightarrow> 'acc shared_state \<Rightarrow> string option" where
  "acme_http01_response token s = ss_challenges s token"

section \<open>Exchanging the configuration\<close>

definition all_vhosts :: "config_snapshot \<Rightarrow> virtual_host list" where
  "all_vhosts config = cs_default_vhost config # cs_vhosts config"

definition all_routes :: "config_snapshot \<Rightarrow> route list" where
  "all_routes config = concat (map vh_routes (all_vhosts config))"

text \<open>The listeners of an index; new counters get new cells.\<close>

fun register_listeners ::
    "(string \<Rightarrow> listener_traffic_entry option) \<Rightarrow> listener list \<Rightarrow> (string \<Rightarrow> listener_traffic_entry option) \<Rightarrow>
     (nat \<Rightarrow> listener_counters) \<Rightarrow> nat \<Rightarrow> (string \<Rightarrow> listener_traffic_entry option) \<times> (nat \<Rightarrow> listener_counters) \<times> nat" where
  "register_listeners existing [] index cells next_cell = (index, cells, next_cell)"
| "register_listeners existing (l # ls) index cells next_cell =
     (let entry = (\<lambda>cell. \<lparr> le_name = lst_name l, le_listen_addr = srv_listen_addr (lst_server l),
            le_http3_enabled = (lst_http3 l \<noteq> None), le_counters = cell \<rparr>)
      in case existing (lst_id l) of
           Some e \<Rightarrow> register_listeners existing ls (index(lst_id l \<mapsto> entry (le_counters e))) cells next_cell
         | None \<Rightarrow> register_listeners existing ls (index(lst_id l \<mapsto> entry next_cell))
             (cells(next_cell := listener_counters_new)) (Suc next_cell))"

definition build_traffic_stats_index ::
    "config_snapshot \<Rightarrow> traffic_stats_index option \<Rightarrow> (nat \<Rightarrow> listener_counters) \<Rightarrow> nat \<Rightarrow>
     traffic_stats_index \<times> (nat \<Rightarrow> listener_counters) \<times> nat" where
  "build_traffic_stats_index config existing cells next_cell =
     (case register_listeners (case existing of Some x \<Rightarrow> ti_listeners x | None \<Rightarrow> (\<lambda>_. None)) (cs_listeners config)
             (\<lambda>_. None) cells next_cell of
        (listeners, cells', next') \<Rightarrow>
          (\<lparr> ti_listeners = listeners, ti_listener_order = map lst_id (cs_listeners config),
             ti_vhosts = map_of (rev (map (\<lambda>v. (vh_id v, \<lparr> ve_server_names = vh_server_names v,
               ve_counters = (case Option.bind existing (\<lambda>x. ti_vhosts x (vh_id v)) of
                 Some e \<Rightarrow> ve_counters e | None \<Rightarrow> vhost_counters_new) \<rparr>)) (all_vhosts config))),
             ti_vhost_order = map vh_id (all_vhosts config),
             ti_routes = map_of (rev (concat (map (\<lambda>v. map (\<lambda>r. (route_id r, \<lparr> re_vhost_id = vh_id v,
               re_counters = (case Option.bind existing (\<lambda>x. ti_routes x (route_id r)) of
                 Some e \<Rightarrow> re_counters e | None \<Rightarrow> route_counters_new) \<rparr>)) (vh_routes v)) (all_vhosts config)))),
             ti_route_order = map route_id (all_routes config) \<rparr>, cells', next'))"

definition kept_versions :: "string list \<Rightarrow> versions option \<Rightarrow> versions" where
  "kept_versions names existing = fold (\<lambda>n vs. AList.update n (kept_version existing n) vs) names []"

definition build_traffic_component_versions ::
    "config_snapshot \<Rightarrow> traffic_component_versions option \<Rightarrow> traffic_component_versions" where
  "build_traffic_component_versions config existing =
     \<lparr> tv_listeners = kept_versions (map lst_id (cs_listeners config)) (map_option tv_listeners existing),
       tv_vhosts = kept_versions (map vh_id (all_vhosts config)) (map_option tv_vhosts existing),
       tv_routes = kept_versions (map route_id (all_routes config)) (map_option tv_routes existing) \<rparr>"

fun sync_active_cells :: "listener list \<Rightarrow> 'acc shared_state \<Rightarrow> 'acc shared_state" where
  "sync_active_cells [] s = s"
| "sync_active_cells (l # ls) s =
     sync_active_cells ls
       (case ss_active_of s (lst_id l) of
          Some _ \<Rightarrow> s
        | None \<Rightarrow> s\<lparr> ss_active_of := (ss_active_of s)(lst_id l \<mapsto> ss_next_cell s),
            ss_active_cells := (ss_active_cells s)(ss_next_cell s := 0), ss_next_cell := Suc (ss_next_cell s) \<rparr>)"

definition sync_listener_active_connections :: "config_snapshot \<Rightarrow> 'acc shared_state \<Rightarrow> 'acc shared_state" where
  "sync_listener_active_connections config = sync_active_cells (cs_listeners config)"

definition sync_traffic_stats :: "config_snapshot \<Rightarrow> 'acc shared_state \<Rightarrow> 'acc shared_state" where
  "sync_traffic_stats config s =
     (case build_traffic_stats_index config (Some (ss_traffic s)) (ss_counter_cells s) (ss_next_cell s) of
        (index, cells, next') \<Rightarrow> s\<lparr> ss_traffic := index, ss_counter_cells := cells, ss_next_cell := next',
          ss_traffic_versions := build_traffic_component_versions config (Some (ss_traffic_versions s)) \<rparr>)"

definition sync_peer_health_versions :: "config_snapshot \<Rightarrow> 'acc shared_state \<Rightarrow> 'acc shared_state" where
  "sync_peer_health_versions config s =
     s\<lparr> ss_peer_health_versions := build_upstream_name_versions config (Some (ss_peer_health_versions s)) \<rparr>"

definition sync_upstream_stats :: "config_snapshot \<Rightarrow> 'acc shared_state \<Rightarrow> 'acc shared_state" where
  "sync_upstream_stats config s =
     s\<lparr> ss_upstreams := build_upstream_stats_map config (Some (ss_upstreams s)),
        ss_upstream_versions := build_upstream_name_versions config (Some (ss_upstream_versions s)) \<rparr>"

definition sync_cache_versions :: "config_snapshot \<Rightarrow> 'acc shared_state \<Rightarrow> 'acc shared_state" where
  "sync_cache_versions config s = s\<lparr> ss_cache_versions := build_cache_zone_versions config (Some (ss_cache_versions s)) \<rparr>"

definition traffic_topology_changed :: "config_snapshot \<Rightarrow> config_snapshot \<Rightarrow> bool" where
  "traffic_topology_changed previous next_config \<longleftrightarrow>
     set (map lst_id (cs_listeners previous)) \<noteq> set (map lst_id (cs_listeners next_config))
     \<or> set (map vh_id (all_vhosts previous)) \<noteq> set (map vh_id (all_vhosts next_config))
     \<or> set (map route_id (all_routes previous)) \<noteq> set (map route_id (all_routes next_config))"

definition upstream_topology_changed :: "config_snapshot \<Rightarrow> config_snapshot \<Rightarrow> bool" where
  "upstream_topology_changed previous next_config \<longleftrightarrow>
     set (map fst (cs_upstreams previous)) \<noteq> set (map fst (cs_upstreams next_config))"

definition mark_all :: "nat \<Rightarrow> string list \<Rightarrow> versions \<Rightarrow> versions" where
  "mark_all version names vs = fold (\<lambda>n. AList.update n version) names vs"

definition mark_all_traffic_targets_changed ::
    "config_snapshot \<Rightarrow> config_snapshot \<Rightarrow> nat \<Rightarrow> 'acc shared_state \<Rightarrow> 'acc shared_state" where
  "mark_all_traffic_targets_changed previous next_config version s =
     (let v = ss_traffic_versions s
      in s\<lparr> ss_traffic_versions :=
           \<lparr> tv_listeners = mark_all version (map lst_id (cs_listeners previous) @ map lst_id (cs_listeners next_config)) (tv_listeners v),
             tv_vhosts = mark_all version (map vh_id (all_vhosts previous) @ map vh_id (all_vhosts next_config)) (tv_vhosts v),
             tv_routes = mark_all version (map route_id (all_routes previous) @ map route_id (all_routes next_config)) (tv_routes v) \<rparr> \<rparr>)"

definition mark_all_upstream_targets_changed ::
    "config_snapshot \<Rightarrow> config_snapshot \<Rightarrow> nat \<Rightarrow> 'acc shared_state \<Rightarrow> 'acc shared_state" where
  "mark_all_upstream_targets_changed previous next_config version s =
     (let names = map fst (cs_upstreams previous) @ map fst (cs_upstreams next_config)
      in s\<lparr> ss_upstream_versions := mark_all version names (ss_upstream_versions s),
           ss_peer_health_versions := mark_all version names (ss_peer_health_versions s) \<rparr>)"

definition mark_all_cache_zones_changed ::
    "config_snapshot \<Rightarrow> config_snapshot \<Rightarrow> nat \<Rightarrow> 'acc shared_state \<Rightarrow> 'acc shared_state" where
  "mark_all_cache_zones_changed previous next_config version s =
     s\<lparr> ss_cache_versions := mark_all version (map fst (cs_cache_zones previous) @ map fst (cs_cache_zones next_config))
       (ss_cache_versions s) \<rparr>"

record 'acc prepared_state =
  pr_config :: config_snapshot
  pr_tls_acceptors :: "string \<Rightarrow> 'acc option option"
  pr_retired_listeners :: "listener list"

definition retired_by :: "config_snapshot \<Rightarrow> config_snapshot \<Rightarrow> listener list" where
  "retired_by current config = filter (\<lambda>l. snapshot_listener config (lst_id l) = None) (cs_listeners current)"

text \<open>
  The part of \<open>commit_prepared\<close> behind the synchronisation: the new snapshot
  is published, then everything that may differ is marked.
\<close>

definition mark_config_changes :: "config_snapshot \<Rightarrow> config_snapshot \<Rightarrow> 'acc shared_state \<Rightarrow> 'acc shared_state" where
  "mark_config_changes previous next_config s =
     (case mark_snapshot_changed_components_with_cache True False True True True True s of (version, s1) \<Rightarrow>
        let s2 = (if traffic_topology_changed previous next_config
                  then mark_all_traffic_targets_changed previous next_config version s1 else s1);
            s3 = (if upstream_topology_changed previous next_config
                  then mark_all_upstream_targets_changed previous next_config version s2 else s2)
        in notify_snapshot_waiters (mark_all_cache_zones_changed previous next_config version s3))"

definition commit_prepared :: "'acc prepared_state \<Rightarrow> 'acc shared_state \<Rightarrow> 'acc shared_state" where
  "commit_prepared p s =
     (let previous = ss_config s; config = pr_config p; retired = pr_retired_listeners p;
          s1 = s\<lparr> ss_retired_listeners := fold (\<lambda>l m. m(lst_id l \<mapsto> l)) retired (ss_retired_listeners s) \<rparr>;
          merged = fold (\<lambda>l m. case ss_tls_acceptors s1 (lst_id l) of Some a \<Rightarrow> m(lst_id l \<mapsto> a) | None \<Rightarrow> m) retired (pr_tls_acceptors p);
          s2 = sync_acme_statuses config (sync_cache_versions config (sync_upstream_stats config
                 (sync_peer_health_versions config (sync_traffic_stats config (sync_listener_active_connections config s1)))));
          revision = inc (ss_revision s2)
      in mark_config_changes previous config
           (s2\<lparr> ss_revision := revision, ss_config := config, ss_tls_acceptors := merged, ss_published_revision := revision \<rparr>))"

text \<open>
  \<open>replace\<close>: a configuration that may not follow the current one, or from which
  no state can be prepared, leaves the state alone.  The TLS acceptors come from
  the TLS library, with the checks of the upstream clients and of the cache.
\<close>

definition prepare_replacement ::
    "(config_snapshot \<Rightarrow> config_snapshot \<Rightarrow> string + unit) \<Rightarrow> (config_snapshot \<Rightarrow> string + (string \<Rightarrow> 'acc option option)) \<Rightarrow>
     config_snapshot \<Rightarrow> 'acc shared_state \<Rightarrow> string + 'acc prepared_state" where
  "prepare_replacement validate_transition prepare config s =
     bind_res (validate_transition (ss_config s) config)
       (\<lambda>_. bind_res (prepare config)
         (\<lambda>acceptors. Inr \<lparr> pr_config = config, pr_tls_acceptors = acceptors,
            pr_retired_listeners = retired_by (ss_config s) config \<rparr>))"

definition replace_config ::
    "(config_snapshot \<Rightarrow> config_snapshot \<Rightarrow> string + unit) \<Rightarrow> (config_snapshot \<Rightarrow> string + (string \<Rightarrow> 'acc option option)) \<Rightarrow>
     config_snapshot \<Rightarrow> 'acc shared_state \<Rightarrow> (string + unit) \<times> 'acc shared_state" where
  "replace_config validate_transition prepare config s =
     (case prepare_replacement validate_transition prepare config s of
        Inl e \<Rightarrow> (Inl e, s)
      | Inr prepared \<Rightarrow> (Inr (), commit_prepared prepared s))"

definition refresh_tls_acceptors_from_current_config ::
    "(config_snapshot \<Rightarrow> string + (string \<Rightarrow> 'acc option option)) \<Rightarrow> 'acc shared_state \<Rightarrow> (string + unit) \<times> 'acc shared_state" where
  "refresh_tls_acceptors_from_current_config prepare s =
     (case prepare (ss_config s) of
        Inl e \<Rightarrow> (Inl e, s)
      | Inr acceptors \<Rightarrow> (Inr (), announce_status (s\<lparr> ss_tls_acceptors := acceptors \<rparr>)))"

definition retire_listener_runtime :: "listener \<Rightarrow> 'acc shared_state \<Rightarrow> 'acc shared_state" where
  "retire_listener_runtime l s = sync_active_cells [l] (s\<lparr> ss_retired_listeners := (ss_retired_listeners s)(lst_id l \<mapsto> l) \<rparr>)"

definition remove_retired_listener_runtime :: "string \<Rightarrow> 'acc shared_state \<Rightarrow> 'acc shared_state" where
  "remove_retired_listener_runtime listener_id s =
     s\<lparr> ss_retired_listeners := (ss_retired_listeners s)(listener_id := None),
        ss_tls_acceptors := (ss_tls_acceptors s)(listener_id := None),
        ss_active_of := (ss_active_of s)(listener_id := None) \<rparr>"

definition current_listener :: "'acc shared_state \<Rightarrow> string \<Rightarrow> listener option" where
  "current_listener s listener_id =
     (case snapshot_listener (ss_config s) listener_id of
        Some l \<Rightarrow> Some l
      | None \<Rightarrow> ss_retired_listeners s listener_id)"

definition tls_acceptor :: "'acc shared_state \<Rightarrow> string \<Rightarrow> 'acc option" where
  "tls_acceptor s listener_id = Option.bind (ss_tls_acceptors s listener_id) id"

definition shared_state_new :: "config_snapshot \<Rightarrow> (string \<Rightarrow> 'acc option option) \<Rightarrow> 'acc shared_state" where
  "shared_state_new config acceptors =
     (case build_traffic_stats_index config None (\<lambda>_. listener_counters_new) 0 of
        (index, cells, next_cell) \<Rightarrow>
          sync_listener_active_connections config
            \<lparr> ss_revision = 0, ss_config = config, ss_published_revision = 0, ss_snapshot_version = 0, ss_notifications = 0,
              ss_components = \<lparr> cv_status = 0, cv_counters = 0, cv_traffic = 0, cv_peer_health = 0, cv_upstreams = 0, cv_cache = 0 \<rparr>,
              ss_tls_acceptors = acceptors, ss_active_of = (\<lambda>_. None), ss_active_cells = (\<lambda>_. 0), ss_counter_cells = cells,
              ss_next_cell = next_cell, ss_retired_listeners = (\<lambda>_. None), ss_active_connections = 0,
              ss_counters = http_counters_new, ss_traffic = index,
              ss_traffic_versions = build_traffic_component_versions config None,
              ss_upstreams = build_upstream_stats_map config None,
              ss_upstream_versions = build_upstream_name_versions config None,
              ss_peer_health_versions = build_upstream_name_versions config None,
              ss_cache_versions = build_cache_zone_versions config None,
              ss_reload_history = \<lparr> rh_attempts = 0, rh_successes = 0, rh_failures = 0, rh_last_result = None \<rparr>,
              ss_ocsp = (\<lambda>_. None), ss_acme = (\<lambda>_. None), ss_challenges = (\<lambda>_. None) \<rparr>)"

end
