(* ===== verification/State_Proofs.thy ===== *)
theory State_Proofs
  imports Shared_State
begin

text \<open>
  What the shared state promises: rolling counters are exact, a delta names
  every change, connection slots are accounted for, and a reload keeps the
  counters of everything that stays.
\<close>

section \<open>Rolling counters are exact\<close>

datatype rolling_op = RollIncrement nat | RollRead nat nat

fun op_time :: "rolling_op \<Rightarrow> nat" where
  "op_time (RollIncrement t) = t"
| "op_time (RollRead t _) = t"

fun roll :: "rolling_op \<Rightarrow> rolling_counter \<Rightarrow> rolling_counter" where
  "roll (RollIncrement t) c = increment_at t c"
| "roll (RollRead t w) c = snd (sum_recent c t w)"

fun increments :: "rolling_op list \<Rightarrow> nat list" where
  "increments [] = []"
| "increments (RollIncrement t # ops) = t # increments ops"
| "increments (RollRead _ _ # ops) = increments ops"

definition counted_since :: "nat \<Rightarrow> rolling_counter \<Rightarrow> nat" where
  "counted_since c b = sum_list (map snd (filter (\<lambda>(second, _). c \<le> second) b))"

definition rolling_ok :: "nat \<Rightarrow> nat list \<Rightarrow> rolling_counter \<Rightarrow> bool" where
  "rolling_ok now ts b \<longleftrightarrow> sorted_wrt (<) (map fst b) \<and> (\<forall>s \<in> set (map fst b). s \<le> now)
     \<and> (\<forall>c \<ge> window_cutoff now max_recent_window_secs. counted_since c b = length (filter (\<lambda>t. c \<le> t) ts))"

lemma trim_is_filter:
  "sorted_wrt (<) (map fst b) \<Longrightarrow> trim_old_buckets b now w = filter (\<lambda>(second, _). window_cutoff now w \<le> second) b"
  unfolding trim_old_buckets_def
proof (induction b)
  case (Cons x b)
  then show ?case by (cases x) (auto simp: filter_id_conv intro!: filter_True [symmetric])
qed simp

lemma window_cutoff_mono: "now \<le> now' \<Longrightarrow> window_cutoff now w \<le> window_cutoff now' w"
  by (simp add: window_cutoff_def)

lemma rolling_ok_trim:
  assumes "rolling_ok now ts b" and "now \<le> now'"
  shows "rolling_ok now' ts (trim_old_buckets b now' max_recent_window_secs)"
proof -
  let ?k = "window_cutoff now' max_recent_window_secs"
  have trim: "trim_old_buckets b now' max_recent_window_secs = filter (\<lambda>(s, _). ?k \<le> s) b"
    using assms(1) by (simp add: trim_is_filter rolling_ok_def)
  have "counted_since c (filter (\<lambda>(s, _). ?k \<le> s) b) = counted_since c b" if "?k \<le> c" for c
    using that unfolding counted_since_def filter_filter by (intro arg_cong [where f = sum_list] arg_cong [where f = "map snd"] filter_cong) auto
  moreover have "sorted_wrt (<) (map fst (filter (\<lambda>(s, _). ?k \<le> s) b))"
    using assms(1) by (auto simp: rolling_ok_def sorted_wrt_map intro!: sorted_wrt_filter)
  ultimately show ?thesis
    using assms window_cutoff_mono [OF assms(2), of max_recent_window_secs]
    unfolding trim rolling_ok_def by fastforce
qed

lemma rolling_ok_last_count:
  assumes "rolling_ok now ts (b @ [(now, n)])"
  shows "n \<le> length ts"
proof -
  have "n \<le> counted_since now (b @ [(now, n)])" by (simp add: counted_since_def)
  also have "\<dots> = length (filter (\<lambda>t. now \<le> t) ts)" using assms by (simp add: rolling_ok_def window_cutoff_def)
  also have "\<dots> \<le> length ts" by simp
  finally show ?thesis .
qed

lemma rolling_ok_increment:
  assumes ok: "rolling_ok now ts b" and le: "now \<le> t" and small: "Suc (length ts) < 2 ^ 64"
  shows "rolling_ok t (ts @ [t]) (increment_at t b)"
proof -
  let ?b = "trim_old_buckets b t max_recent_window_secs"
  have ok': "rolling_ok t ts ?b" using rolling_ok_trim [OF ok le] .
  show ?thesis
  proof (cases "?b \<noteq> [] \<and> t \<le> fst (last ?b)")
    case True
    then obtain b0 s n where b: "?b = b0 @ [(s, n)]" by (metis append_butlast_last_id prod.exhaust_sel)
    with ok' True have "s = t" by (auto simp: rolling_ok_def)
    with b rolling_ok_last_count [of t ts b0 n] ok' have "n \<le> length ts" by simp
    with small have "n + 1 < 2 ^ 64" by linarith
    from bump_no_wrap [OF this] have n: "bump n (Suc 0) = Suc n" by simp
    have "increment_at t b = b0 @ [(t, Suc n)]" using True by (simp add: increment_at_def Let_def b n \<open>s = t\<close>)
    then show ?thesis using ok' b \<open>s = t\<close> by (auto simp: rolling_ok_def counted_since_def)
  next
    case False
    then have inc: "increment_at t b = ?b @ [(t, 1)]" by (auto simp: increment_at_def Let_def)
    have "s < t" if "s \<in> set (map fst ?b)" for s
    proof -
      from that have ne: "?b \<noteq> []" by auto
      then have "s \<le> fst (last ?b)" using ok' that
        by (cases ?b rule: rev_cases) (auto simp: rolling_ok_def sorted_wrt_append less_imp_le)
      with False ne show ?thesis by auto
    qed
    then show ?thesis using ok' unfolding inc by (auto simp: rolling_ok_def counted_since_def sorted_wrt_append)
  qed
qed

lemma rolling_ok_ops:
  assumes "rolling_ok now ts b" and "sorted (now # map op_time ops)" and "length ts + length (increments ops) < 2 ^ 64"
  shows "rolling_ok (last (now # map op_time ops)) (ts @ increments ops) (fold roll ops b)"
  using assms
proof (induction ops arbitrary: now ts b)
  case (Cons op ops)
  show ?case
  proof (cases op)
    case (RollIncrement t)
    with Cons.prems have "rolling_ok t (ts @ [t]) (increment_at t b)" by (intro rolling_ok_increment) auto
    from Cons.IH [OF this] Cons.prems RollIncrement show ?thesis by (auto split: if_splits)
  next
    case (RollRead t w)
    with Cons.prems have "rolling_ok t ts (trim_old_buckets b t max_recent_window_secs)" by (intro rolling_ok_trim) auto
    from Cons.IH [OF this] Cons.prems RollRead show ?thesis by (auto simp: sum_recent_def Let_def split: if_splits)
  qed
qed simp

text \<open>
  A rolling counter tells exactly how many events fell into the window.
  Whatever increments and reads came before, as long as the clock does not run
  backwards and fewer than $2^{64}$ events were counted, a read over a window of
  one second up to the five minutes that are kept returns the number of events
  of the last seconds of that length, the current second included.
\<close>

theorem rolling_counter_is_exact:
  assumes "sorted (map op_time ops @ [now])" and "length (increments ops) < 2 ^ 64" and "0 < window" and "window \<le> 300"
  shows "fst (sum_recent (fold roll ops []) now window) = length (filter (\<lambda>t. now < t + window) (increments ops))"
proof -
  let ?T = "last (0 # map op_time ops)" and ?b = "fold roll ops []"
  have "rolling_ok 0 [] []" by (simp add: rolling_ok_def counted_since_def)
  from rolling_ok_ops [OF this, of ops] assms(1,2) have "rolling_ok ?T (increments ops) ?b" by (simp add: sorted_append)
  moreover have "?T \<le> now" using assms(1) by (cases ops rule: rev_cases) (auto simp: sorted_append)
  ultimately have ok: "rolling_ok now (increments ops) (trim_old_buckets ?b now max_recent_window_secs)" by (rule rolling_ok_trim)
  have "window_cutoff now max_recent_window_secs \<le> window_cutoff now window"
    using assms(4) by (simp add: window_cutoff_def max_recent_window_secs_def)
  with ok have "counted_since (window_cutoff now window) (trim_old_buckets ?b now max_recent_window_secs)
      = length (filter (\<lambda>t. window_cutoff now window \<le> t) (increments ops))" by (simp add: rolling_ok_def)
  moreover have "length (filter P (increments ops)) < 2 ^ 64" for P using assms(2) length_filter_le [of P "increments ops"] by linarith
  moreover have "(window_cutoff now window \<le> t) = (now < t + window)" for t using assms(3) by (auto simp: window_cutoff_def)
  ultimately show ?thesis by (simp add: sum_recent_def counted_since_def Let_def)
qed

theorem rolling_counter_is_exact_witness:
  "fst (sum_recent (fold roll [RollIncrement 10, RollIncrement 10, RollRead 12 5, RollIncrement 65, RollIncrement 70] []) 70 60) = 2"
  using rolling_counter_is_exact [of "[RollIncrement 10, RollIncrement 10, RollRead 12 5, RollIncrement 65, RollIncrement 70]" 70 60]
  by simp

section \<open>A delta names what changed\<close>

lemmas announce_defs = announce_traffic_def announce_upstream_def announce_status_def notify_peer_health_def notify_cache_def
  mark_snapshot_changed_components_def mark_snapshot_changed_components_with_cache_def mark_traffic_targets_changed_def
  notify_snapshot_waiters_def mark_named_component_target_changed_def Let_def

lemmas on_defs = on_listener_def on_vhost_def on_route_def on_counters_def

datatype state_op =
    OpRequest nat string string "string option"
  | OpMtlsRequest string bool
  | OpResponse nat string string "string option" status_code
  | OpAccessDenied string
  | OpRateLimited string
  | OpGrpcRequest nat string string "string option" string
  | OpGrpcStatus string string "string option" "string option"
  | OpAccepted string
  | OpMtlsHandshake string
  | OpTlsFailure string tls_handshake_failure_reason
  | OpRejected string
  | OpEarlyAccepted string
  | OpEarlyRejected string
  | OpHttp3 string "http3_counters \<Rightarrow> http3_counters"
  | OpUpstream string "upstream_stats \<Rightarrow> upstream_stats"
  | OpUpstreamPeer string string "upstream_stats \<Rightarrow> upstream_stats" "upstream_peer_stats \<Rightarrow> upstream_peer_stats"
  | OpPeerHealth string
  | OpCache string

fun apply_op :: "state_op \<Rightarrow> 'acc shared_state \<Rightarrow> 'acc shared_state" where
  "apply_op (OpRequest now l v r) s = record_downstream_request now l v r s"
| "apply_op (OpMtlsRequest l a) s = record_mtls_request l a s"
| "apply_op (OpResponse now l v r status) s = record_downstream_response now l v r status s"
| "apply_op (OpAccessDenied r) s = record_route_access_denied r s"
| "apply_op (OpRateLimited r) s = record_route_rate_limited r s"
| "apply_op (OpGrpcRequest now l v r protocol) s = record_grpc_request now l v r protocol s"
| "apply_op (OpGrpcStatus l v r status) s = record_grpc_status l v r status s"
| "apply_op (OpAccepted l) s = record_connection_accepted l s"
| "apply_op (OpMtlsHandshake l) s = record_mtls_handshake_success l True s"
| "apply_op (OpTlsFailure l reason) s = record_tls_handshake_failure l reason s"
| "apply_op (OpRejected l) s = record_connection_rejected l s"
| "apply_op (OpEarlyAccepted l) s = record_http3_early_data_accepted_request l s"
| "apply_op (OpEarlyRejected l) s = record_http3_early_data_rejected_request l s"
| "apply_op (OpHttp3 l f) s = record_http3 l f s"
| "apply_op (OpUpstream u f) s = on_upstream u f s"
| "apply_op (OpUpstreamPeer u p f g) s = on_upstream_peer u p f g s"
| "apply_op (OpPeerHealth u) s = notify_peer_health u s"
| "apply_op (OpCache z) s = notify_cache z s"

lemmas op_defs = record_downstream_request_def record_mtls_request_def record_downstream_response_def
  record_route_access_denied_def record_route_rate_limited_def record_grpc_request_def record_grpc_status_def
  record_connection_accepted_def record_mtls_handshake_success_def record_tls_handshake_failure_def
  record_connection_rejected_def record_http3_early_data_accepted_request_def
  record_http3_early_data_rejected_request_def record_http3_def

text \<open>The targets an operation touches: a known upstream, or the identifiers it was given.\<close>

datatype target = Listener string | Vhost string | Route string | UpstreamStats string | PeerHealth string | CacheZone string

fun route_target :: "string option \<Rightarrow> target set" where
  "route_target (Some r) = {Route r}"
| "route_target None = {}"

fun op_targets :: "state_op \<Rightarrow> 'acc shared_state \<Rightarrow> target set" where
  "op_targets (OpRequest now l v r) s = {Listener l, Vhost v} \<union> route_target r"
| "op_targets (OpMtlsRequest l a) s = {Listener l}"
| "op_targets (OpResponse now l v r status) s = {Listener l, Vhost v} \<union> route_target r"
| "op_targets (OpAccessDenied r) s = {Route r}"
| "op_targets (OpRateLimited r) s = {Route r}"
| "op_targets (OpGrpcRequest now l v r protocol) s = {Listener l, Vhost v} \<union> route_target r"
| "op_targets (OpGrpcStatus l v r status) s = {Listener l, Vhost v} \<union> route_target r"
| "op_targets (OpAccepted l) s = {Listener l}"
| "op_targets (OpMtlsHandshake l) s = {Listener l}"
| "op_targets (OpTlsFailure l reason) s = {Listener l}"
| "op_targets (OpRejected l) s = {Listener l}"
| "op_targets (OpEarlyAccepted l) s = {Listener l}"
| "op_targets (OpEarlyRejected l) s = {Listener l}"
| "op_targets (OpHttp3 l f) s = {Listener l}"
| "op_targets (OpUpstream u f) s = (if ss_upstreams s u = None then {} else {UpstreamStats u})"
| "op_targets (OpUpstreamPeer u p f g) s =
     (case ss_upstreams s u of None \<Rightarrow> {} | Some e \<Rightarrow> if ue_peers e p = None then {} else {UpstreamStats u})"
| "op_targets (OpPeerHealth u) s = {PeerHealth u}"
| "op_targets (OpCache z) s = {CacheZone z}"

fun version_of :: "'acc shared_state \<Rightarrow> target \<Rightarrow> nat option" where
  "version_of s (Listener l) = map_of (tv_listeners (ss_traffic_versions s)) l"
| "version_of s (Vhost v) = map_of (tv_vhosts (ss_traffic_versions s)) v"
| "version_of s (Route r) = map_of (tv_routes (ss_traffic_versions s)) r"
| "version_of s (UpstreamStats u) = map_of (ss_upstream_versions s) u"
| "version_of s (PeerHealth u) = map_of (ss_peer_health_versions s) u"
| "version_of s (CacheZone z) = map_of (ss_cache_versions s) z"

text \<open>What a snapshot shows of a target.\<close>

fun shown :: "'acc shared_state \<Rightarrow> target \<Rightarrow> (listener_counters option + vhost_traffic_entry option) + (route_traffic_entry option + upstream_stats_entry option)" where
  "shown s (Listener l) = Inl (Inl (map_option (\<lambda>e. ss_counter_cells s (le_counters e)) (ti_listeners (ss_traffic s) l)))"
| "shown s (Vhost v) = Inl (Inr (ti_vhosts (ss_traffic s) v))"
| "shown s (Route r) = Inr (Inl (ti_routes (ss_traffic s) r))"
| "shown s (UpstreamStats u) = Inr (Inr (ss_upstreams s u))"
| "shown s (PeerHealth u) = Inl (Inl None)"
| "shown s (CacheZone z) = Inl (Inl None)"

definition cells_apart :: "'acc shared_state \<Rightarrow> bool" where
  "cells_apart s \<longleftrightarrow> (\<forall>l l' e e'. ti_listeners (ss_traffic s) l = Some e \<longrightarrow> ti_listeners (ss_traffic s) l' = Some e' \<longrightarrow>
     le_counters e = le_counters e' \<longrightarrow> l = l')"

definition tables_distinct :: "'acc shared_state \<Rightarrow> bool" where
  "tables_distinct s \<longleftrightarrow> list_all (\<lambda>vs. distinct (map fst vs))
     [tv_listeners (ss_traffic_versions s), tv_vhosts (ss_traffic_versions s), tv_routes (ss_traffic_versions s),
      ss_upstream_versions s, ss_peer_health_versions s, ss_cache_versions s]"

definition versions_ok :: "'acc shared_state \<Rightarrow> bool" where
  "versions_ok s \<longleftrightarrow> tables_distinct s \<and> cells_apart s \<and> (\<forall>t v. version_of s t = Some v \<longrightarrow> v \<le> ss_snapshot_version s)"

lemma route_target_iff: "t \<in> route_target r \<longleftrightarrow> (\<exists>n. r = Some n \<and> t = Route n)"
  by (cases r) auto

lemma mark_if_some_map: "map_of (mark_if_some version name vs) k = (if name = Some k then Some version else map_of vs k)"
  by (cases name) (auto simp: mark_if_some_def update_conv')

lemma mark_if_some_distinct: "distinct (map fst vs) \<Longrightarrow> distinct (map fst (mark_if_some version name vs))"
  by (cases name) (auto simp: mark_if_some_def distinct_update)

lemma apply_op_frame [simp]:
  "ti_listeners (ss_traffic (apply_op op s)) = ti_listeners (ss_traffic s)"
  "ss_active_of (apply_op op s) = ss_active_of s" "ss_active_cells (apply_op op s) = ss_active_cells s"
  "ss_active_connections (apply_op op s) = ss_active_connections s" "ss_next_cell (apply_op op s) = ss_next_cell s"
  "ss_config (apply_op op s) = ss_config s"
  by (cases op; simp add: op_defs announce_defs on_defs on_upstream_def on_upstream_peer_def split: option.split)+

lemma apply_op_version:
  "ss_snapshot_version (apply_op op s) = (if op_targets op s = {} then ss_snapshot_version s else inc (ss_snapshot_version s))"
  by (cases op) (simp_all add: op_defs announce_defs on_defs on_upstream_def on_upstream_peer_def split: option.split)

lemma apply_op_notifies:
  "ss_notifications (apply_op op s) = (if op_targets op s = {} then ss_notifications s else Suc (ss_notifications s))"
  by (cases op) (simp_all add: op_defs announce_defs on_defs on_upstream_def on_upstream_peer_def split: option.split)

lemma apply_op_tables:
  "version_of (apply_op op s) t = (if t \<in> op_targets op s then Some (inc (ss_snapshot_version s)) else version_of s t)"
  by (cases op; cases t)
    (auto simp: op_defs announce_defs on_defs on_upstream_def on_upstream_peer_def mark_if_some_map route_target_iff
      update_conv' split: option.splits)

lemma apply_op_distinct: "tables_distinct s \<Longrightarrow> tables_distinct (apply_op op s)"
  by (cases op)
    (simp_all add: tables_distinct_def op_defs announce_defs on_defs on_upstream_def on_upstream_peer_def
      mark_if_some_distinct distinct_update split: option.split)

lemma apply_op_shown: "cells_apart s \<Longrightarrow> t \<notin> op_targets op s \<Longrightarrow> shown (apply_op op s) t = shown s t"
  by (cases op; cases t)
    (auto simp: op_defs announce_defs on_defs on_upstream_def on_upstream_peer_def cells_apart_def route_target_iff
      map_option_case fun_upd_def split: option.splits)

fun run_ops :: "state_op list \<Rightarrow> 'acc shared_state \<Rightarrow> 'acc shared_state" where
  "run_ops [] s = s"
| "run_ops (op # ops) s = run_ops ops (apply_op op s)"

fun ops_targets :: "state_op list \<Rightarrow> 'acc shared_state \<Rightarrow> target set" where
  "ops_targets [] s = {}"
| "ops_targets (op # ops) s = op_targets op s \<union> ops_targets ops (apply_op op s)"

lemma versions_ok_op:
  assumes "versions_ok s" and "ss_snapshot_version s + 1 < 2 ^ 64"
  shows "versions_ok (apply_op op s)"
proof -
  have v: "inc (ss_snapshot_version s) = Suc (ss_snapshot_version s)" using bump_no_wrap [OF assms(2)] by simp
  have "ss_snapshot_version s \<le> ss_snapshot_version (apply_op op s)" unfolding apply_op_version v by simp
  moreover have "x \<le> ss_snapshot_version (apply_op op s)" if "version_of (apply_op op s) t = Some x" for t x
  proof (cases "t \<in> op_targets op s")
    case True
    then have "op_targets op s \<noteq> {}" by blast
    with that True show ?thesis by (simp add: apply_op_tables apply_op_version)
  next
    case False
    with that assms(1) have "x \<le> ss_snapshot_version s" by (simp add: apply_op_tables versions_ok_def)
    with calculation show ?thesis by linarith
  qed
  ultimately show ?thesis using assms(1) by (simp add: versions_ok_def apply_op_distinct cells_apart_def)
qed

lemma run_ops_report:
  assumes "versions_ok s" and "ss_snapshot_version s + length ops < 2 ^ 64" and "since \<le> ss_snapshot_version s"
  shows "versions_ok (run_ops ops s)
     \<and> (\<forall>t. (\<exists>v. version_of (run_ops ops s) t = Some v \<and> since < v)
          \<longleftrightarrow> t \<in> ops_targets ops s \<or> (\<exists>v. version_of s t = Some v \<and> since < v))
     \<and> (\<forall>t. t \<notin> ops_targets ops s \<longrightarrow> shown (run_ops ops s) t = shown s t)"
  using assms
proof (induction ops arbitrary: s)
  case (Cons op ops)
  have small: "ss_snapshot_version s + 1 < 2 ^ 64" using Cons.prems(2) by simp
  note v = bump_no_wrap [OF small]
  have ver: "ss_snapshot_version (apply_op op s) \<le> ss_snapshot_version s + 1" "ss_snapshot_version s \<le> ss_snapshot_version (apply_op op s)"
    unfolding apply_op_version v by simp_all
  have ok: "versions_ok (apply_op op s)" by (rule versions_ok_op [OF Cons.prems(1) small])
  have IH: "versions_ok (run_ops ops (apply_op op s))
     \<and> (\<forall>t. (\<exists>v. version_of (run_ops ops (apply_op op s)) t = Some v \<and> since < v)
          \<longleftrightarrow> t \<in> ops_targets ops (apply_op op s) \<or> (\<exists>v. version_of (apply_op op s) t = Some v \<and> since < v))
     \<and> (\<forall>t. t \<notin> ops_targets ops (apply_op op s) \<longrightarrow> shown (run_ops ops (apply_op op s)) t = shown (apply_op op s) t)"
    using Cons.prems(2,3) ver by (intro Cons.IH ok) auto
  have "(\<exists>x. version_of (apply_op op s) t = Some x \<and> since < x) \<longleftrightarrow> t \<in> op_targets op s \<or> (\<exists>x. version_of s t = Some x \<and> since < x)" for t
    using Cons.prems(3) unfolding apply_op_tables v by auto
  moreover have "shown (apply_op op s) t = shown s t" if "t \<notin> op_targets op s" for t
    using Cons.prems(1) that by (simp add: apply_op_shown versions_ok_def)
  ultimately show ?case using IH by auto
qed simp

lemma set_changed_targets:
  "distinct (map fst vs) \<Longrightarrow> n \<in> set (changed_named_component_targets_since vs since) \<longleftrightarrow> (\<exists>v. map_of vs n = Some v \<and> since < v)"
  by (force simp: changed_named_component_targets_since_def map_of_eq_Some_iff)

text \<open>The targets that a delta names.\<close>

fun named_in :: "snapshot_delta \<Rightarrow> target \<Rightarrow> bool" where
  "named_in d (Listener l) \<longleftrightarrow> (\<exists>ns. sd_changed_listener_ids d = Some ns \<and> l \<in> set ns)"
| "named_in d (Vhost v) \<longleftrightarrow> (\<exists>ns. sd_changed_vhost_ids d = Some ns \<and> v \<in> set ns)"
| "named_in d (Route r) \<longleftrightarrow> (\<exists>ns. sd_changed_route_ids d = Some ns \<and> r \<in> set ns)"
| "named_in d (UpstreamStats u) \<longleftrightarrow> (\<exists>ns. sd_changed_upstream_names d = Some ns \<and> u \<in> set ns)"
| "named_in d (PeerHealth u) \<longleftrightarrow> (\<exists>ns. sd_changed_peer_health_upstream_names d = Some ns \<and> u \<in> set ns)"
| "named_in d (CacheZone z) \<longleftrightarrow> (\<exists>ns. sd_changed_cache_zone_names d = Some ns \<and> z \<in> set ns)"

lemma named_in_delta:
  "tables_distinct s \<Longrightarrow> named_in (snapshot_delta_since s since None window) t \<longleftrightarrow> (\<exists>v. version_of s t = Some v \<and> since < v)"
  by (cases t) (simp_all add: snapshot_delta_since_def changed_traffic_targets_since_def module_normalize_def snapshot_modules_def
      then_some_def Let_def tables_distinct_def set_changed_targets)

lemma run_ops_notifies:
  "ss_notifications s \<le> ss_notifications (run_ops ops s)
     \<and> (ss_snapshot_version (run_ops ops s) \<noteq> ss_snapshot_version s \<longrightarrow> ss_notifications s < ss_notifications (run_ops ops s))"
proof (induction ops arbitrary: s)
  case (Cons op ops)
  from Cons.IH [of "apply_op op s"] apply_op_version [of op s] apply_op_notifies [of op s] show ?case by (auto split: if_splits)
qed simp


lemma kept_version_None: "kept_version None n = 0"
  by (simp add: kept_version_def)

lemma kept_versions_map:
  "map_of (fold (\<lambda>n vs. AList.update n (f n) vs) names vs) k = (if k \<in> set names then Some (f k) else map_of vs k)"
  by (induction names arbitrary: vs) (auto simp: update_conv')

lemma kept_versions_distinct: "distinct (map fst vs) \<Longrightarrow> distinct (map fst (fold (\<lambda>n vs. AList.update n (f n) vs) names vs))"
  by (induction names arbitrary: vs) (auto simp: distinct_update)

lemma register_listeners_apart:
  assumes "register_listeners (\<lambda>_. None) ls index cells n = (index', cells', n')"
    and "\<forall>l e. index l = Some e \<longrightarrow> le_counters e < n"
    and "\<forall>l l' e e'. index l = Some e \<longrightarrow> index l' = Some e' \<longrightarrow> le_counters e = le_counters e' \<longrightarrow> l = l'"
  shows "\<forall>l l' e e'. index' l = Some e \<longrightarrow> index' l' = Some e' \<longrightarrow> le_counters e = le_counters e' \<longrightarrow> l = l'"
  using assms
proof (induction ls arbitrary: index cells n)
  case (Cons l ls)
  let ?e = "\<lparr> le_name = lst_name l, le_listen_addr = srv_listen_addr (lst_server l), le_http3_enabled = (lst_http3 l \<noteq> None), le_counters = n \<rparr>"
  have "register_listeners (\<lambda>_. None) ls (index(lst_id l \<mapsto> ?e)) (cells(n := listener_counters_new)) (Suc n) = (index', cells', n')"
    using Cons.prems(1) by (simp add: Let_def)
  moreover have "\<forall>k e. (index(lst_id l \<mapsto> ?e)) k = Some e \<longrightarrow> le_counters e < Suc n"
    using Cons.prems(2) by (auto simp: less_Suc_eq)
  moreover have "\<forall>k k' e e'. (index(lst_id l \<mapsto> ?e)) k = Some e \<longrightarrow> (index(lst_id l \<mapsto> ?e)) k' = Some e' \<longrightarrow> le_counters e = le_counters e' \<longrightarrow> k = k'"
    using Cons.prems(2,3) by (auto split: if_splits)
  ultimately show ?case by (rule Cons.IH)
qed simp

lemma sync_active_cells_frame [simp]:
  "ss_traffic (sync_active_cells ls s) = ss_traffic s" "ss_counter_cells (sync_active_cells ls s) = ss_counter_cells s"
  "ss_traffic_versions (sync_active_cells ls s) = ss_traffic_versions s"
  "ss_upstream_versions (sync_active_cells ls s) = ss_upstream_versions s"
  "ss_peer_health_versions (sync_active_cells ls s) = ss_peer_health_versions s"
  "ss_cache_versions (sync_active_cells ls s) = ss_cache_versions s"
  "ss_snapshot_version (sync_active_cells ls s) = ss_snapshot_version s"
  "ss_upstreams (sync_active_cells ls s) = ss_upstreams s" "ss_active_connections (sync_active_cells ls s) = ss_active_connections s"
  by (induction ls arbitrary: s) (auto split: option.split)

text \<open>The tables of a new state are sound when the names of the configuration are keys of maps.\<close>

lemma versions_ok_new:
  assumes "distinct (map fst (cs_upstreams config))" and "distinct (map fst (cs_cache_zones config))"
  shows "versions_ok (shared_state_new config acceptors)"
proof -
  obtain index cells n where r: "register_listeners (\<lambda>_. None) (cs_listeners config) (\<lambda>_. None) (\<lambda>_. listener_counters_new) 0 = (index, cells, n)"
    by (metis prod_cases3)
  let ?s = "shared_state_new config acceptors"
  have "ti_listeners (ss_traffic ?s) = index"
    by (simp add: shared_state_new_def sync_listener_active_connections_def build_traffic_stats_index_def r)
  with register_listeners_apart [OF r] have "cells_apart ?s" by (simp add: cells_apart_def)
  moreover have "tables_distinct ?s" using assms
    by (simp add: tables_distinct_def shared_state_new_def sync_listener_active_connections_def build_traffic_stats_index_def r
        build_traffic_component_versions_def kept_versions_def kept_versions_distinct build_upstream_name_versions_def
        build_cache_zone_versions_def comp_def)
  moreover have "v = 0" if "version_of ?s t = Some v" for t v
    using that
    by (cases t) (auto simp: shared_state_new_def sync_listener_active_connections_def build_traffic_stats_index_def r
        build_traffic_component_versions_def kept_versions_def kept_versions_map build_upstream_name_versions_def
        build_cache_zone_versions_def kept_version_None split: if_splits dest!: map_of_SomeD)
  ultimately show ?thesis by (auto simp: versions_ok_def)
qed

definition sample_listener :: listener where
  "sample_listener = \<lparr> lst_id = ''http'', lst_name = ''http'',
     lst_server = \<lparr> srv_listen_addr = (V4 0, 80), srv_server_header = default_server_header, srv_default_certificate = None,
       srv_trusted_proxies = [], srv_client_ip_header = None, srv_keep_alive = True, srv_max_headers = None,
       srv_max_request_body_bytes = None, srv_max_connections = Some 1, srv_header_read_timeout = None,
       srv_request_body_read_timeout = None, srv_response_write_timeout = None, srv_access_log_format = None, srv_tls = None \<rparr>,
     lst_tls_termination_enabled = False, lst_proxy_protocol_enabled = False, lst_http3 = None \<rparr>"

definition sample_state_config :: config_snapshot where
  "sample_state_config =
     \<lparr> cs_runtime = \<lparr> rt_shutdown_timeout = from_secs 10, rt_worker_threads = None, rt_accept_workers = 1 \<rparr>,
       cs_acme = None, cs_managed_certificates = [], cs_listeners = [sample_listener],
       cs_default_vhost = \<lparr> vh_id = ''server'', vh_server_names = [], vh_routes = [], vh_tls = None \<rparr>,
       cs_vhosts = [], cs_cache_zones = [], cs_upstreams = [(''u'', sample_upstream)] \<rparr>"

definition sample_state :: "unit shared_state" where
  "sample_state = shared_state_new sample_state_config (\<lambda>_. None)"


section \<open>Connection slots are accounted\<close>

text \<open>
  The life of a server as its slots see it, with the guards that are alive.
  Everything else the server does leaves the slots alone.
\<close>

definition same_slots :: "'acc shared_state \<Rightarrow> 'acc shared_state \<Rightarrow> bool" where
  "same_slots s s' \<longleftrightarrow> ss_active_of s' = ss_active_of s \<and> ss_active_cells s' = ss_active_cells s
     \<and> ss_active_connections s' = ss_active_connections s \<and> ss_next_cell s' = ss_next_cell s"

inductive slots :: "'acc shared_state \<Rightarrow> connection_guard list \<Rightarrow> bool" where
  start: "slots (shared_state_new config acceptors) []"
| acquired: "slots s gs \<Longrightarrow> try_acquire_connection l limit s = (Some g, s') \<Longrightarrow> slots s' (g # gs)"
| retained: "slots s gs \<Longrightarrow> retain_connection_slot l s = Some (g, s') \<Longrightarrow> slots s' (g # gs)"
| dropped: "slots s gs \<Longrightarrow> g \<in> set gs \<Longrightarrow> slots (drop_connection_guard g s) (remove1 g gs)"
| committed: "slots s gs \<Longrightarrow> slots (commit_prepared p s) gs"
| retired: "slots s gs \<Longrightarrow> slots (retire_listener_runtime l s) gs"
| removed: "slots s gs \<Longrightarrow> slots (remove_retired_listener_runtime i s) gs"
| recorded: "slots s gs \<Longrightarrow> slots (apply_op op s) gs"
| unrelated: "slots s gs \<Longrightarrow> same_slots s s' \<Longrightarrow> slots s' gs"

definition guards_of :: "nat \<Rightarrow> connection_guard list \<Rightarrow> nat" where
  "guards_of cell gs = length (filter (\<lambda>g. cg_cell g = cell) gs)"

definition slots_ok :: "'acc shared_state \<Rightarrow> connection_guard list \<Rightarrow> bool" where
  "slots_ok s gs \<longleftrightarrow> ss_active_connections s = length gs mod 2 ^ 64
     \<and> (\<forall>cell < ss_next_cell s. ss_active_cells s cell = guards_of cell gs mod 2 ^ 64 \<or> (\<forall>l. ss_active_of s l \<noteq> Some cell) \<and> guards_of cell gs = 0)
     \<and> (\<forall>l cell. ss_active_of s l = Some cell \<longrightarrow> cell < ss_next_cell s) \<and> (\<forall>g \<in> set gs. cg_cell g < ss_next_cell s)"

lemma inc_mod: "inc (n mod 2 ^ 64) = Suc n mod 2 ^ 64"
  by (simp add: bump_def mod_Suc_eq)

lemma dec_mod: "dec (Suc n mod 2 ^ 64) = n mod 2 ^ 64"
proof -
  have "(Suc n mod 2 ^ 64 + (2 ^ 64 - 1)) mod 2 ^ 64 = (Suc n + (2 ^ 64 - 1)) mod (2 ^ 64 :: nat)" by (rule mod_add_left_eq)
  also have "Suc n + (2 ^ 64 - 1) = n + 2 ^ 64" by simp
  finally show ?thesis by (simp add: dec_def)
qed

lemma guards_of_Cons: "guards_of cell (g # gs) = (if cg_cell g = cell then Suc (guards_of cell gs) else guards_of cell gs)"
  by (simp add: guards_of_def)

lemma guards_of_remove1: "g \<in> set gs \<Longrightarrow> guards_of cell gs = (if cg_cell g = cell then Suc (guards_of cell (remove1 g gs)) else guards_of cell (remove1 g gs))"
  by (induction gs) (auto simp: guards_of_Cons)

lemma slots_ok_take:
  assumes "slots_ok s gs" and "ss_active_of s l = Some cell"
  shows "slots_ok (take_slot cell s) (\<lparr> cg_cell = cell, cg_listener = l \<rparr> # gs)"
proof -
  have lt: "cell < ss_next_cell s" using assms by (simp add: slots_ok_def)
  with assms have "ss_active_cells s cell = guards_of cell gs mod 2 ^ 64" by (auto simp: slots_ok_def)
  with assms lt show ?thesis by (auto simp: slots_ok_def take_slot_def guards_of_Cons inc_mod [simplified])
qed

lemma slots_ok_same: "same_slots s s' \<Longrightarrow> slots_ok s' gs = slots_ok s gs"
  by (simp add: same_slots_def slots_ok_def)

lemma same_slots_announce: "same_slots s (announce_traffic a b l v r s)"
  by (simp add: same_slots_def announce_defs)

lemma slots_ok_drop:
  assumes "slots_ok s gs" and "g \<in> set gs"
  shows "slots_ok (drop_connection_guard g s) (remove1 g gs)"
proof -
  let ?s = "s\<lparr> ss_active_connections := dec (ss_active_connections s), ss_active_cells := (ss_active_cells s)(cg_cell g := dec (ss_active_cells s (cg_cell g))) \<rparr>"
  have len: "length gs = Suc (length (remove1 g gs))" using assms(2) by (simp add: length_remove1) (metis Suc_pred length_pos_if_in_set)
  have "guards_of (cg_cell g) gs \<noteq> 0" using guards_of_remove1 [OF assms(2), of "cg_cell g"] by simp
  with assms have cell: "ss_active_cells s (cg_cell g) = guards_of (cg_cell g) gs mod 2 ^ 64" by (auto simp: slots_ok_def)
  have "slots_ok ?s (remove1 g gs)"
    unfolding slots_ok_def
  proof (intro conjI allI impI ballI)
    show "ss_active_connections ?s = length (remove1 g gs) mod 2 ^ 64"
      using assms(1) dec_mod [of "length (remove1 g gs)"] len by (simp add: slots_ok_def)
  next
    fix cell assume "cell < ss_next_cell ?s"
    then show "ss_active_cells ?s cell = guards_of cell (remove1 g gs) mod 2 ^ 64
        \<or> (\<forall>l. ss_active_of ?s l \<noteq> Some cell) \<and> guards_of cell (remove1 g gs) = 0"
      using assms(1) cell guards_of_remove1 [OF assms(2), of cell] dec_mod [of "guards_of cell (remove1 g gs)"]
      by (auto simp: slots_ok_def)
  next
    fix l cell assume "ss_active_of ?s l = Some cell"
    then show "cell < ss_next_cell ?s" using assms(1) by (simp add: slots_ok_def)
  next
    fix h assume "h \<in> set (remove1 g gs)"
    then show "cg_cell h < ss_next_cell ?s" using assms(1) set_remove1_subset [of g gs] by (auto simp: slots_ok_def)
  qed
  then show ?thesis by (simp add: drop_connection_guard_def slots_ok_same [OF same_slots_announce])
qed

lemma slots_ok_more_cells:
  assumes ok: "slots_ok s gs" and same: "ss_active_of s' = ss_active_of s" "ss_active_cells s' = ss_active_cells s"
      "ss_active_connections s' = ss_active_connections s" and le: "ss_next_cell s \<le> ss_next_cell s'"
  shows "slots_ok s' gs"
proof -
  have "guards_of cell gs = 0" "ss_active_of s l \<noteq> Some cell" if "\<not> cell < ss_next_cell s" for cell l
    using ok that by (auto simp: slots_ok_def guards_of_def filter_empty_conv)
  with ok le show ?thesis unfolding slots_ok_def same by (meson less_le_trans)
qed

lemma register_listeners_next: "register_listeners existing ls index cells n = (index', cells', n') \<Longrightarrow> n \<le> n'"
proof (induction ls arbitrary: index cells n)
  case (Cons l ls)
  then show ?case by (cases "existing (lst_id l)") (auto simp: Let_def dest!: Cons.IH)
qed simp

lemma slots_ok_sync: "slots_ok s gs \<Longrightarrow> slots_ok (sync_active_cells ls s) gs"
proof (induction ls arbitrary: s)
  case (Cons l ls)
  show ?case
  proof (cases "ss_active_of s (lst_id l)")
    case None
    have "guards_of (ss_next_cell s) gs = 0" using Cons.prems by (auto simp: slots_ok_def guards_of_def filter_empty_conv)
    with Cons.prems None have "slots_ok (s\<lparr> ss_active_of := (ss_active_of s)(lst_id l \<mapsto> ss_next_cell s),
            ss_active_cells := (ss_active_cells s)(ss_next_cell s := 0), ss_next_cell := Suc (ss_next_cell s) \<rparr>) gs"
      by (auto simp: slots_ok_def less_Suc_eq)
    then show ?thesis using Cons.IH None by simp
  qed (use Cons in simp)
qed simp

lemma mark_config_changes_same: "same_slots s (mark_config_changes previous config s)"
  by (simp add: same_slots_def mark_config_changes_def announce_defs mark_all_traffic_targets_changed_def
      mark_all_upstream_targets_changed_def mark_all_cache_zones_changed_def)

lemma slots_ok_traffic_sync: "slots_ok s gs \<Longrightarrow> slots_ok (sync_traffic_stats config s) gs"
proof -
  assume ok: "slots_ok s gs"
  obtain index cells n where r: "register_listeners (ti_listeners (ss_traffic s)) (cs_listeners config) (\<lambda>_. None) (ss_counter_cells s) (ss_next_cell s) = (index, cells, n)"
    by (metis prod_cases3)
  from register_listeners_next [OF r] show ?thesis
    by (intro slots_ok_more_cells [OF ok]) (simp_all add: sync_traffic_stats_def build_traffic_stats_index_def r)
qed

lemma slots_ok_commit: "slots_ok s gs \<Longrightarrow> slots_ok (commit_prepared p s) gs"
proof -
  assume "slots_ok s gs"
  then have "slots_ok (s\<lparr> ss_retired_listeners := x \<rparr>) gs" for x by (simp add: slots_ok_def)
  then have ok: "slots_ok (sync_traffic_stats config (sync_active_cells ls (s\<lparr> ss_retired_listeners := x \<rparr>))) gs" for x ls config
    by (intro slots_ok_traffic_sync slots_ok_sync)
  show ?thesis
    unfolding commit_prepared_def Let_def slots_ok_same [OF mark_config_changes_same]
    by (rule slots_ok_more_cells [OF ok [of "pr_config p" "cs_listeners (pr_config p)" "fold (\<lambda>l m. m(lst_id l \<mapsto> l)) (pr_retired_listeners p) (ss_retired_listeners s)"]])
      (simp_all add: sync_acme_statuses_def sync_cache_versions_def sync_upstream_stats_def sync_peer_health_versions_def
        sync_listener_active_connections_def)
qed

lemma slots_are_ok: "slots s gs \<Longrightarrow> slots_ok s gs"
proof (induction rule: slots.induct)
  case (start config acceptors)
  obtain index cells n where r: "build_traffic_stats_index config None (\<lambda>_. listener_counters_new) 0 = (index, cells, n)" by (metis prod_cases3)
  show ?case unfolding shared_state_new_def r sync_listener_active_connections_def
    by (simp, rule slots_ok_sync) (simp add: slots_ok_def guards_of_def)
next
  case (acquired s gs l limit g s')
  then show ?case using slots_ok_take [of s gs l] by (auto simp: try_acquire_connection_def split: option.splits if_splits)
next
  case (retained s gs l g s')
  then show ?case using slots_ok_take [of s gs l]
    by (auto simp: retain_connection_slot_def slots_ok_same [OF same_slots_announce] split: option.splits)
next
  case (retired s gs l)
  then have "slots_ok (s\<lparr> ss_retired_listeners := (ss_retired_listeners s)(lst_id l \<mapsto> l) \<rparr>) gs" by (simp add: slots_ok_def)
  then show ?case unfolding retire_listener_runtime_def by (rule slots_ok_sync)
next
  case (removed s gs i)
  then show ?case by (auto simp: remove_retired_listener_runtime_def slots_ok_def)
next
  case (recorded s gs op)
  then show ?case by (subst slots_ok_same [of s]) (simp_all add: same_slots_def)
qed (simp_all add: slots_ok_drop slots_ok_commit slots_ok_same)

text \<open>
  C15.  Connection slots are counted exactly.  Whatever connections were
  accepted, upgraded and closed, and whatever configurations were exchanged and
  listeners retired in between, the number of open connections is the number of
  guards that are alive, and a listener with a limit hands out a slot only while
  fewer guards of its own are alive than the limit allows.
\<close>

theorem connection_slots_are_exact:
  assumes "slots s gs" and "length gs < 2 ^ 64"
  shows "active_connection_count s = length gs
     \<and> (\<forall>l n. fst (try_acquire_connection l (Some n) s) \<noteq> None \<longleftrightarrow>
          (\<exists>cell. ss_active_of s l = Some cell \<and> guards_of cell gs < n))"
proof -
  have "guards_of cell gs \<le> length gs" for cell by (simp add: guards_of_def)
  then have small: "guards_of cell gs mod 2 ^ 64 = guards_of cell gs" for cell using assms(2) by (meson le_less_trans mod_less)
  have "ss_active_cells s cell = guards_of cell gs" if "ss_active_of s l = Some cell" for l cell
  proof -
    have "ss_active_cells s cell = guards_of cell gs mod 2 ^ 64" using slots_are_ok [OF assms(1)] that unfolding slots_ok_def by blast
    then show ?thesis unfolding small .
  qed
  then have "fst (try_acquire_connection l (Some n) s) \<noteq> None \<longleftrightarrow> (\<exists>cell. ss_active_of s l = Some cell \<and> guards_of cell gs < n)" for l n
    by (auto simp: try_acquire_connection_def split: option.split)
  moreover have "active_connection_count s = length gs"
    using slots_are_ok [OF assms(1)] assms(2) by (simp add: slots_ok_def active_connection_count_def)
  ultimately show ?thesis by blast
qed

theorem connection_slots_are_exact_witness:
  "\<exists>g s. try_acquire_connection ''http'' (Some 1) sample_state = (Some g, s) \<and> active_connection_count s = 1
     \<and> fst (try_acquire_connection ''http'' (Some 1) s) = None"
proof -
  have cell: "\<exists>cell. ss_active_of sample_state ''http'' = Some cell"
    by (simp add: sample_state_def shared_state_new_def sync_listener_active_connections_def sample_state_config_def
        sample_listener_def split: prod.split)
  have start: "slots sample_state []" unfolding sample_state_def by (rule slots.start)
  from cell connection_slots_are_exact [OF start] have "fst (try_acquire_connection ''http'' (Some 1) sample_state) \<noteq> None"
    by (simp add: guards_of_def)
  then obtain g s where g: "try_acquire_connection ''http'' (Some 1) sample_state = (Some g, s)" by (metis fst_conv option.exhaust prod.exhaust)
  note one = connection_slots_are_exact [OF slots.acquired [OF start g]]
  have "ss_active_of s ''http'' = Some (cg_cell g)" using g by (auto simp: try_acquire_connection_def take_slot_def split: option.splits if_splits)
  then have "\<not> (\<exists>cell. ss_active_of s ''http'' = Some cell \<and> guards_of cell [g] < 1)" by (simp add: guards_of_def)
  moreover have "length [g] < 2 ^ 64" by simp
  ultimately have "fst (try_acquire_connection ''http'' (Some 1) s) = None" "active_connection_count s = length [g]" using one by blast+
  with g show ?thesis by auto
qed

section \<open>A reload keeps what it should\<close>

lemma map_of_rev_SomeD: "map_of (rev (map f xs)) k = Some v \<Longrightarrow> \<exists>x \<in> set xs. f x = (k, v)"
  by (metis (no_types, lifting) imageE list.set_map map_of_SomeD set_rev)

lemma kept_upstream_entry:
  assumes "build_upstream_stats_map config (Some existing) n = Some e'" and "existing n = Some e"
  shows "ue_counters e' = ue_counters e \<and> (\<forall>p st st'. ue_peers e p = Some st \<longrightarrow> ue_peers e' p = Some st' \<longrightarrow> st' = st)"
proof -
  obtain u where u: "e' = stats_entry_for (Some existing) u" "n = up_name u"
    using map_of_rev_SomeD [OF assms(1) [unfolded build_upstream_stats_map_def]] by auto
  then show ?thesis using assms(2) by (auto simp: stats_entry_for_def Let_def split: if_splits)
qed

lemma register_listeners_keeps:
  assumes "register_listeners existing ls index cells n = (index', cells', n')"
    and "\<forall>l e. existing l = Some e \<longrightarrow> le_counters e < n"
    and "\<forall>l e0 e. existing l = Some e0 \<longrightarrow> index l = Some e \<longrightarrow> le_counters e = le_counters e0"
  shows "(\<forall>l e0 e. existing l = Some e0 \<longrightarrow> index' l = Some e \<longrightarrow> le_counters e = le_counters e0)
     \<and> (\<forall>c < n. cells' c = cells c)"
  using assms
proof (induction ls arbitrary: index cells n)
  case (Cons l ls)
  show ?case
  proof (cases "existing (lst_id l)")
    case None
    let ?e = "\<lparr> le_name = lst_name l, le_listen_addr = srv_listen_addr (lst_server l), le_http3_enabled = (lst_http3 l \<noteq> None), le_counters = n \<rparr>"
    have "register_listeners existing ls (index(lst_id l \<mapsto> ?e)) (cells(n := listener_counters_new)) (Suc n) = (index', cells', n')"
      using Cons.prems(1) None by (simp add: Let_def)
    moreover have "\<forall>k e. existing k = Some e \<longrightarrow> le_counters e < Suc n" using Cons.prems(2) less_SucI by blast
    moreover have "\<forall>k e0 e. existing k = Some e0 \<longrightarrow> (index(lst_id l \<mapsto> ?e)) k = Some e \<longrightarrow> le_counters e = le_counters e0"
      using Cons.prems(3) None by auto
    ultimately have "(\<forall>l e0 e. existing l = Some e0 \<longrightarrow> index' l = Some e \<longrightarrow> le_counters e = le_counters e0)
        \<and> (\<forall>c < Suc n. cells' c = (cells(n := listener_counters_new)) c)" by (rule Cons.IH)
    then show ?thesis by (metis fun_upd_other less_SucI less_irrefl)
  next
    case (Some e0)
    let ?e = "\<lparr> le_name = lst_name l, le_listen_addr = srv_listen_addr (lst_server l), le_http3_enabled = (lst_http3 l \<noteq> None), le_counters = le_counters e0 \<rparr>"
    have "register_listeners existing ls (index(lst_id l \<mapsto> ?e)) cells n = (index', cells', n')"
      using Cons.prems(1) Some by (simp add: Let_def)
    moreover have "\<forall>k e1 e. existing k = Some e1 \<longrightarrow> (index(lst_id l \<mapsto> ?e)) k = Some e \<longrightarrow> le_counters e = le_counters e1"
      using Cons.prems(3) Some by auto
    ultimately show ?thesis using Cons.prems(2) by (intro Cons.IH)
  qed
qed simp

lemma register_listeners_dom:
  "register_listeners existing ls index cells n = (index', cells', n') \<Longrightarrow> dom index' = dom index \<union> lst_id ` set ls"
proof (induction ls arbitrary: index cells n)
  case (Cons l ls)
  then show ?case by (cases "existing (lst_id l)") (auto simp: Let_def dest!: Cons.IH)
qed simp

lemma sync_active_cells_next: "ss_next_cell s \<le> ss_next_cell (sync_active_cells ls s)"
proof (induction ls arbitrary: s)
  case (Cons l ls)
  show ?case
    using Cons.IH [of s] Cons.IH [of "s\<lparr> ss_active_of := (ss_active_of s)(lst_id l \<mapsto> ss_next_cell s),
      ss_active_cells := (ss_active_cells s)(ss_next_cell s := 0), ss_next_cell := Suc (ss_next_cell s) \<rparr>"]
    by (simp split: option.split)
qed simp

lemma fold_retired:
  "fold (\<lambda>l m. case f (lst_id l) of Some a \<Rightarrow> m(lst_id l \<mapsto> a) | None \<Rightarrow> m) ls m k =
     (if k \<in> lst_id ` set ls \<and> f k \<noteq> None then f k else m k)"
  by (induction ls arbitrary: m) (auto split: option.splits)

lemma fold_insert_stays: "m k \<noteq> None \<Longrightarrow> fold (\<lambda>l m. m(lst_id l \<mapsto> l)) ls m k \<noteq> None"
  by (induction ls arbitrary: m) auto

lemma fold_retired_listeners: "l \<in> set ls \<Longrightarrow> fold (\<lambda>l m. m(lst_id l \<mapsto> l)) ls m (lst_id l) \<noteq> None"
proof (induction ls arbitrary: m)
  case (Cons x ls)
  have "fold (\<lambda>l m. m(lst_id l \<mapsto> l)) ls (m(lst_id x \<mapsto> x)) (lst_id x) \<noteq> None" by (rule fold_insert_stays) simp
  with Cons show ?case by (cases "l = x") (simp_all del: fun_upd_apply)
qed simp

definition counters_allocated :: "'acc shared_state \<Rightarrow> bool" where
  "counters_allocated s \<longleftrightarrow> (\<forall>l e. ti_listeners (ss_traffic s) l = Some e \<longrightarrow> le_counters e < ss_next_cell s)"

text \<open>The parts of a committed state, each read off the synchronisation that sets it.\<close>

lemma mark_config_changes_frame [simp]:
  "ss_config (mark_config_changes a b s) = ss_config s" "ss_revision (mark_config_changes a b s) = ss_revision s"
  "ss_published_revision (mark_config_changes a b s) = ss_published_revision s"
  "ss_tls_acceptors (mark_config_changes a b s) = ss_tls_acceptors s" "ss_traffic (mark_config_changes a b s) = ss_traffic s"
  "ss_counter_cells (mark_config_changes a b s) = ss_counter_cells s" "ss_upstreams (mark_config_changes a b s) = ss_upstreams s"
  "ss_retired_listeners (mark_config_changes a b s) = ss_retired_listeners s"
  by (simp_all add: mark_config_changes_def announce_defs mark_all_traffic_targets_changed_def
      mark_all_upstream_targets_changed_def mark_all_cache_zones_changed_def)

lemma sync_active_cells_retired [simp]: "ss_retired_listeners (sync_active_cells ls s) = ss_retired_listeners s"
  "ss_revision (sync_active_cells ls s) = ss_revision s" "ss_tls_acceptors (sync_active_cells ls s) = ss_tls_acceptors s"
  by (induction ls arbitrary: s) (auto split: option.split)

lemmas sync_defs = sync_acme_statuses_def sync_cache_versions_def sync_upstream_stats_def sync_peer_health_versions_def
  sync_listener_active_connections_def sync_traffic_stats_def

lemma sync_active_cells_cong:
  "ss_active_of s = ss_active_of t \<Longrightarrow> ss_next_cell s = ss_next_cell t \<Longrightarrow>
     ss_next_cell (sync_active_cells ls s) = ss_next_cell (sync_active_cells ls t)"
  by (induction ls arbitrary: s t) (simp_all split: option.split)

lemma sync_active_cells_retire [simp]:
  "ss_next_cell (sync_active_cells ls (s\<lparr> ss_retired_listeners := r \<rparr>)) = ss_next_cell (sync_active_cells ls s)"
  by (rule sync_active_cells_cong) simp_all

lemma kept_index:
  assumes "build_traffic_stats_index config (Some existing) cells n = (index, cells', n')"
  shows "ti_vhosts existing v = Some e \<Longrightarrow> ti_vhosts index v = Some e' \<Longrightarrow> ve_counters e' = ve_counters e"
    and "ti_routes existing k = Some f \<Longrightarrow> ti_routes index k = Some f' \<Longrightarrow> re_counters f' = re_counters f"
  using assms by (auto simp: build_traffic_stats_index_def split: prod.splits dest!: map_of_SomeD)

lemma commit_parts:
  assumes "build_traffic_stats_index (pr_config p) (Some (ss_traffic s)) (ss_counter_cells s)
      (ss_next_cell (sync_active_cells (cs_listeners (pr_config p)) s)) = (index, cells, n)"
  shows "ss_config (commit_prepared p s) = pr_config p" "ss_revision (commit_prepared p s) = inc (ss_revision s)"
    "ss_published_revision (commit_prepared p s) = inc (ss_revision s)"
    "ss_traffic (commit_prepared p s) = index" "ss_counter_cells (commit_prepared p s) = cells"
    "ss_upstreams (commit_prepared p s) = build_upstream_stats_map (pr_config p) (Some (ss_upstreams s))"
    "ss_retired_listeners (commit_prepared p s) = fold (\<lambda>l m. m(lst_id l \<mapsto> l)) (pr_retired_listeners p) (ss_retired_listeners s)"
    "ss_tls_acceptors (commit_prepared p s) k = (if k \<in> lst_id ` set (pr_retired_listeners p) \<and> ss_tls_acceptors s k \<noteq> None
       then ss_tls_acceptors s k else pr_tls_acceptors p k)"
proof -
  let ?r = "fold (\<lambda>l m. m(lst_id l \<mapsto> l)) (pr_retired_listeners p) (ss_retired_listeners s)"
  from assms show "ss_config (commit_prepared p s) = pr_config p" "ss_revision (commit_prepared p s) = inc (ss_revision s)"
    "ss_published_revision (commit_prepared p s) = inc (ss_revision s)"
    "ss_traffic (commit_prepared p s) = index" "ss_counter_cells (commit_prepared p s) = cells"
    "ss_upstreams (commit_prepared p s) = build_upstream_stats_map (pr_config p) (Some (ss_upstreams s))"
    "ss_retired_listeners (commit_prepared p s) = ?r"
    "ss_tls_acceptors (commit_prepared p s) k = (if k \<in> lst_id ` set (pr_retired_listeners p) \<and> ss_tls_acceptors s k \<noteq> None
       then ss_tls_acceptors s k else pr_tls_acceptors p k)"
    by (simp_all add: commit_prepared_def Let_def sync_defs fold_retired)
qed


lemma register_listeners_bound:
  assumes "register_listeners existing ls index cells n = (index', cells', n')"
    and "\<forall>l e. existing l = Some e \<longrightarrow> le_counters e < n" and "\<forall>l e. index l = Some e \<longrightarrow> le_counters e < n"
  shows "\<forall>l e. index' l = Some e \<longrightarrow> le_counters e < n'"
  using assms
proof (induction ls arbitrary: index cells n)
  case (Cons l ls)
  show ?case
  proof (cases "existing (lst_id l)")
    case None
    let ?e = "\<lparr> le_name = lst_name l, le_listen_addr = srv_listen_addr (lst_server l), le_http3_enabled = (lst_http3 l \<noteq> None), le_counters = n \<rparr>"
    have "register_listeners existing ls (index(lst_id l \<mapsto> ?e)) (cells(n := listener_counters_new)) (Suc n) = (index', cells', n')"
      using Cons.prems(1) None by (simp add: Let_def)
    moreover have "\<forall>k e. existing k = Some e \<longrightarrow> le_counters e < Suc n" using Cons.prems(2) less_SucI by blast
    moreover have "\<forall>k e. (index(lst_id l \<mapsto> ?e)) k = Some e \<longrightarrow> le_counters e < Suc n" using Cons.prems(3) by (auto simp: less_Suc_eq)
    ultimately show ?thesis by (rule Cons.IH)
  next
    case (Some e0)
    let ?e = "\<lparr> le_name = lst_name l, le_listen_addr = srv_listen_addr (lst_server l), le_http3_enabled = (lst_http3 l \<noteq> None), le_counters = le_counters e0 \<rparr>"
    have "register_listeners existing ls (index(lst_id l \<mapsto> ?e)) cells n = (index', cells', n')"
      using Cons.prems(1) Some by (simp add: Let_def)
    moreover have "\<forall>k e. (index(lst_id l \<mapsto> ?e)) k = Some e \<longrightarrow> le_counters e < n" using Cons.prems(2,3) Some by auto
    ultimately show ?thesis using Cons.prems(2) by (intro Cons.IH)
  qed
qed simp

lemma counters_allocated_new: "counters_allocated (shared_state_new config acceptors)"
proof -
  obtain index cells n where r: "register_listeners (\<lambda>_. None) (cs_listeners config) (\<lambda>_. None) (\<lambda>_. listener_counters_new) 0 = (index, cells, n)"
    by (metis prod_cases3)
  let ?s = "shared_state_new config acceptors"
  have "ti_listeners (ss_traffic ?s) = index"
    by (simp add: shared_state_new_def sync_listener_active_connections_def build_traffic_stats_index_def r)
  moreover have "n \<le> ss_next_cell ?s"
    unfolding shared_state_new_def sync_listener_active_connections_def build_traffic_stats_index_def
    by (simp add: r) (rule order_trans [OF _ sync_active_cells_next], simp)
  ultimately show ?thesis using register_listeners_bound [OF r] by (fastforce simp: counters_allocated_def)
qed


text \<open>
  While a dropped listener drains, its counters are gone: a new request on one
  of its HTTP/3 connections is refused.
\<close>

lemma draining_http3_listener_refuses_requests:
  assumes "snapshot_listener (pr_config p) l = None"
  shows "retain_http3_request_stream l (commit_prepared p s) = Inl (''listener `'' @ l @ ''` is missing traffic counters for http3 request streams'')"
proof -
  obtain listeners cells n where reg: "register_listeners (ti_listeners (ss_traffic s)) (cs_listeners (pr_config p)) (\<lambda>_. None)
      (ss_counter_cells s) (ss_next_cell (sync_active_cells (cs_listeners (pr_config p)) s)) = (listeners, cells, n)"
    by (metis prod_cases3)
  then obtain index where "build_traffic_stats_index (pr_config p) (Some (ss_traffic s)) (ss_counter_cells s)
      (ss_next_cell (sync_active_cells (cs_listeners (pr_config p)) s)) = (index, cells, n)" "ti_listeners index = listeners"
    by (simp add: build_traffic_stats_index_def)
  moreover have "l \<notin> lst_id ` set (cs_listeners (pr_config p))" using assms by (auto simp: snapshot_listener_def find_None_iff)
  then have "l \<notin> dom listeners" unfolding register_listeners_dom [OF reg] by simp
  then have "listeners l = None" by (simp add: domIff)
  ultimately show ?thesis by (simp add: retain_http3_request_stream_def retain_http3_def commit_parts(4))
qed

text \<open>A reload that only changes the peers of an upstream names no upstream in the delta.\<close>

lemma changed_peers_are_not_named:
  assumes "versions_ok s" and "distinct (map fst (cs_upstreams (pr_config p)))"
    and "set (map fst (cs_upstreams (ss_config s))) = set (map fst (cs_upstreams (pr_config p)))"
  shows "sd_changed_upstream_names (snapshot_delta_since (commit_prepared p s) (ss_snapshot_version s) None window) = Some []"
proof -
  have "ss_upstream_versions (commit_prepared p s) = build_upstream_name_versions (pr_config p) (Some (ss_upstream_versions s))"
    using assms(3)
    by (simp add: commit_prepared_def Let_def mark_config_changes_def announce_defs upstream_topology_changed_def sync_defs
        mark_all_traffic_targets_changed_def mark_all_cache_zones_changed_def split: prod.split)
  moreover have "kept_version (Some (ss_upstream_versions s)) n \<le> ss_snapshot_version s" for n
    using assms(1) unfolding versions_ok_def kept_version_def
    by (metis bind.bind_lunit option.case_eq_if option.collapse version_of.simps(4) zero_le)
  ultimately have "changed_named_component_targets_since (ss_upstream_versions (commit_prepared p s)) (ss_snapshot_version s) = []"
    by (auto simp: changed_named_component_targets_since_def build_upstream_name_versions_def filter_empty_conv not_less)
  then show ?thesis
    by (simp add: snapshot_delta_since_def module_normalize_def snapshot_modules_def then_some_def Let_def split: prod.split)
qed

end
