(* ===== verification/Transition.thy ===== *)
theory Transition
  imports State_Proofs
begin

text \<open>
  Which configurations may follow the current one without a restart
  (\<open>transition.rs\<close>), and what that means for a reload.
\<close>

definition reloadable_fields :: "string list" where
  "reloadable_fields = [''server.tls'', ''server.http3.advertise_alt_svc'', ''server.http3.alt_svc_max_age_secs'',
     ''listeners[].tls'', ''listeners[].http3.advertise_alt_svc'', ''listeners[].http3.alt_svc_max_age_secs'',
     ''servers[].tls'', ''upstreams[].tls'', ''upstreams[].server_name'', ''upstreams[].server_name_override'',
     ''servers[].upstreams[].tls'', ''servers[].upstreams[].server_name'', ''servers[].upstreams[].server_name_override'']"

definition restart_required_fields :: "string list" where
  "restart_required_fields = [''listen'', ''server.http3.listen'', ''listeners[].listen'', ''listeners[].http3.listen'',
     ''servers[].listen'', ''runtime.worker_threads'', ''runtime.accept_workers'']"

datatype config_transition_kind = HotReload | RestartRequired

record config_transition_boundary =
  tb_reloadable_fields :: "string list"
  tb_restart_required_fields :: "string list"

record config_transition_plan =
  tp_kind :: config_transition_kind
  tp_boundary :: config_transition_boundary
  tp_changed_restart_required_fields :: "string list"

definition config_transition_boundary_current :: config_transition_boundary where
  "config_transition_boundary_current =
     \<lparr> tb_reloadable_fields = reloadable_fields, tb_restart_required_fields = restart_required_fields \<rparr>"

definition requires_restart :: "config_transition_plan \<Rightarrow> bool" where
  "requires_restart p \<longleftrightarrow> tp_kind p = RestartRequired"

definition restart_required_message :: "config_transition_plan \<Rightarrow> string option" where
  "restart_required_message p =
     (if requires_restart p
      then Some (''reload requires restart because these startup-boundary fields changed (restart-boundary: ''
        @ str_join '', '' (tb_restart_required_fields (tp_boundary p)) @ ''): ''
        @ str_join ''; '' (tp_changed_restart_required_fields p))
      else None)"

definition show_opt_addr :: "socket_addr option \<Rightarrow> string" where
  "show_opt_addr a = (case a of Some x \<Rightarrow> show_socket_addr x | None \<Rightarrow> ''-'')"

definition show_opt_debug :: "nat option \<Rightarrow> string" where
  "show_opt_debug a = (case a of Some n \<Rightarrow> ''Some('' @ show_nat n @ '')'' | None \<Rightarrow> ''None'')"

definition http3_listen_addr :: "listener \<Rightarrow> socket_addr option" where
  "http3_listen_addr l = map_option h3_listen_addr (lst_http3 l)"

definition listener_changes :: "(string \<Rightarrow> listener option) \<Rightarrow> listener \<Rightarrow> string list" where
  "listener_changes next_by_id current =
     (case next_by_id (lst_id current) of
        None \<Rightarrow> []
      | Some new \<Rightarrow>
          (if srv_listen_addr (lst_server current) \<noteq> srv_listen_addr (lst_server new)
           then [lst_id current @ ''.listen '' @ show_socket_addr (srv_listen_addr (lst_server current)) @ '' -> ''
                 @ show_socket_addr (srv_listen_addr (lst_server new))] else [])
          @ (if http3_listen_addr current \<noteq> http3_listen_addr new
             then [lst_id current @ ''.http3.listen '' @ show_opt_addr (http3_listen_addr current) @ '' -> ''
                   @ show_opt_addr (http3_listen_addr new)] else []))"

definition plan_config_transition :: "config_snapshot \<Rightarrow> config_snapshot \<Rightarrow> config_transition_plan" where
  "plan_config_transition current new =
     (let next_by_id = map_of (rev (map (\<lambda>l. (lst_id l, l)) (cs_listeners new)));
          changes = concat (map (listener_changes next_by_id) (cs_listeners current))
            @ (if rt_worker_threads (cs_runtime current) \<noteq> rt_worker_threads (cs_runtime new)
               then [''runtime.worker_threads '' @ show_opt_debug (rt_worker_threads (cs_runtime current)) @ '' -> ''
                     @ show_opt_debug (rt_worker_threads (cs_runtime new))] else [])
            @ (if rt_accept_workers (cs_runtime current) \<noteq> rt_accept_workers (cs_runtime new)
               then [''runtime.accept_workers '' @ show_nat (rt_accept_workers (cs_runtime current)) @ '' -> ''
                     @ show_nat (rt_accept_workers (cs_runtime new))] else [])
      in \<lparr> tp_kind = (if changes = [] then HotReload else RestartRequired), tp_boundary = config_transition_boundary_current,
           tp_changed_restart_required_fields = changes \<rparr>)"

definition validate_config_transition :: "config_snapshot \<Rightarrow> config_snapshot \<Rightarrow> string + unit" where
  "validate_config_transition current new =
     (case restart_required_message (plan_config_transition current new) of Some m \<Rightarrow> Inl m | None \<Rightarrow> Inr ())"

text \<open>The addresses that a running process has bound, and its workers.\<close>

definition keeps_boundary :: "config_snapshot \<Rightarrow> config_snapshot \<Rightarrow> bool" where
  "keeps_boundary current new \<longleftrightarrow>
     (\<forall>l \<in> set (cs_listeners current). \<forall>l' \<in> set (cs_listeners new). lst_id l = lst_id l' \<longrightarrow>
        srv_listen_addr (lst_server l) = srv_listen_addr (lst_server l') \<and> http3_listen_addr l = http3_listen_addr l')
     \<and> rt_worker_threads (cs_runtime current) = rt_worker_threads (cs_runtime new)
     \<and> rt_accept_workers (cs_runtime current) = rt_accept_workers (cs_runtime new)"

lemma next_by_id_listener:
  assumes "distinct (map lst_id ls)"
  shows "map_of (rev (map (\<lambda>l. (lst_id l, l)) ls)) i = Some l \<longleftrightarrow> l \<in> set ls \<and> lst_id l = i"
proof -
  have "distinct (map fst (rev (map (\<lambda>l. (lst_id l, l)) ls)))" using assms by (simp add: rev_map comp_def distinct_map)
  then show ?thesis by (auto simp: map_of_eq_Some_iff)
qed

lemma validate_config_transition_iff:
  assumes "distinct (map lst_id (cs_listeners new))"
  shows "validate_config_transition current new = Inr () \<longleftrightarrow> keeps_boundary current new"
proof -
  have "listener_changes (map_of (rev (map (\<lambda>l. (lst_id l, l)) (cs_listeners new)))) l = []
      \<longleftrightarrow> (\<forall>l' \<in> set (cs_listeners new). lst_id l = lst_id l' \<longrightarrow>
        srv_listen_addr (lst_server l) = srv_listen_addr (lst_server l') \<and> http3_listen_addr l = http3_listen_addr l')" for l
  proof (cases "map_of (rev (map (\<lambda>l. (lst_id l, l)) (cs_listeners new))) (lst_id l)")
    case None
    then have "\<forall>l' \<in> set (cs_listeners new). lst_id l \<noteq> lst_id l'" using next_by_id_listener [OF assms, of "lst_id l"] by (metis option.distinct(1))
    with None show ?thesis by (simp add: listener_changes_def)
  next
    case (Some a)
    then have "\<forall>l' \<in> set (cs_listeners new). lst_id l = lst_id l' \<longleftrightarrow> l' = a" "a \<in> set (cs_listeners new)"
      using next_by_id_listener [OF assms, of "lst_id l"] by (metis option.inject)+
    with Some show ?thesis by (auto simp: listener_changes_def)
  qed
  then show ?thesis
    by (auto simp: validate_config_transition_def restart_required_message_def requires_restart_def plan_config_transition_def
        keeps_boundary_def Let_def split: option.split)
qed

text \<open>
  C18.  A reload never moves a socket.  When the exchange of the configuration
  succeeds, every listener that both configurations have keeps its address and
  its HTTP/3 address and the numbers of workers stay; a configuration that would
  change one of them is refused with the state unchanged, and no other
  configuration is refused for that reason.
\<close>

theorem reload_keeps_bound_addresses:
  assumes "replace_config validate_config_transition prepare config s = (r, s')" and "distinct (map lst_id (cs_listeners config))"
  shows "(r = Inr () \<longrightarrow> keeps_boundary (ss_config s) (ss_config s'))
     \<and> (\<not> keeps_boundary (ss_config s) config \<longrightarrow> (\<exists>m. r = Inl m) \<and> s' = s)
     \<and> (keeps_boundary (ss_config s) config \<longrightarrow> (r = Inr () \<longleftrightarrow> (\<exists>acceptors. prepare config = Inr acceptors)))"
proof -
  note iff = validate_config_transition_iff [OF assms(2), of "ss_config s"]
  have committed: "ss_config (commit_prepared p s) = pr_config p" for p
  proof -
    obtain index cells n where "build_traffic_stats_index (pr_config p) (Some (ss_traffic s)) (ss_counter_cells s)
        (ss_next_cell (sync_active_cells (cs_listeners (pr_config p)) s)) = (index, cells, n)" by (metis prod_cases3)
    then show ?thesis by (rule commit_parts)
  qed
  show ?thesis
  proof (cases "keeps_boundary (ss_config s) config")
    case True
    with iff assms(1) committed show ?thesis by (auto simp: replace_config_def prepare_replacement_def bind_res_def split: sum.splits)
  next
    case False
    with iff obtain m where "validate_config_transition (ss_config s) config = Inl m"
      by (cases "validate_config_transition (ss_config s) config") auto
    then have "r = Inl m" "s' = s" using assms(1) by (simp_all add: replace_config_def prepare_replacement_def)
    with False show ?thesis by blast
  qed
qed

theorem reload_keeps_bound_addresses_witness:
  "fst (replace_config validate_config_transition (\<lambda>_. Inr (\<lambda>_. None)) sample_state_config sample_state) = Inr ()
   \<and> (let moved = sample_state_config\<lparr> cs_listeners := [sample_listener\<lparr> lst_server := (lst_server sample_listener)\<lparr> srv_listen_addr := (V4 0, 8080) \<rparr> \<rparr>] \<rparr>
      in snd (replace_config validate_config_transition (\<lambda>_. Inr (\<lambda>_. None)) moved sample_state) = sample_state)"
proof -
  have conf: "ss_config sample_state = sample_state_config"
    unfolding sample_state_def shared_state_new_def sync_listener_active_connections_def
    by (simp add: sample_state_config_def split: prod.split)
  let ?moved = "sample_state_config\<lparr> cs_listeners := [sample_listener\<lparr> lst_server := (lst_server sample_listener)\<lparr> srv_listen_addr := (V4 0, 8080) \<rparr> \<rparr>] \<rparr>"
  obtain r s' where r: "replace_config validate_config_transition (\<lambda>_. Inr (\<lambda>_. None)) sample_state_config sample_state = (r, s')" by force
  obtain q t' where q: "replace_config validate_config_transition (\<lambda>_. Inr (\<lambda>_. None)) ?moved sample_state = (q, t')" by force
  have "keeps_boundary (ss_config sample_state) sample_state_config" by (simp add: conf keeps_boundary_def sample_state_config_def)
  moreover have "\<not> keeps_boundary (ss_config sample_state) ?moved"
    by (simp add: conf keeps_boundary_def sample_state_config_def sample_listener_def)
  ultimately show ?thesis
    using reload_keeps_bound_addresses [OF r] reload_keeps_bound_addresses [OF q] r q by (simp add: sample_state_config_def Let_def)
qed

end
