(* ===== verification/Forward.thy ===== *)
theory Forward
  imports Request_Body Transition Health_Proofs Cache_Lookup
begin

text \<open>
  Forwarding a request to an upstream (\<open>proxy/forward\<close>): the cache is asked
  first, the body prepared, peers chosen, and the request sent to one peer after
  another until one answers or none may be tried any more; every failure has
  its response.  The cache is the trait \<open>ForwardCacheBackend\<close>, here a record of
  operations on a state of any type.  What the peers answer is an argument, as
  are the clocks, DNS, and what the timers on a response body let pass.
\<close>

section \<open>gRPC requests\<close>

definition max_failover_attempts :: nat where "max_failover_attempts = 2"
definition max_grpc_timeout_digits :: nat where "max_grpc_timeout_digits = 8"

definition matches_grpc_web_mime :: "string \<Rightarrow> string \<Rightarrow> bool" where
  "matches_grpc_web_mime mime pre \<longleftrightarrow>
     mime = pre \<or> (case strip_prefix mime pre of Some rest \<Rightarrow> str_starts_with rest ''+'' | None \<Rightarrow> False)"

definition replace_first_prefix :: "string \<Rightarrow> string \<Rightarrow> string \<Rightarrow> string" where
  "replace_first_prefix s from new = new @ drop (length from) s"

definition detect_grpc_web_mode :: "header_map \<Rightarrow> string + grpc_web_mode option" where
  "detect_grpc_web_mode headers =
     (case hm_get headers ''content-type'' of
        None \<Rightarrow> Inr None
      | Some content_type \<Rightarrow>
          (case to_str content_type of
             None \<Rightarrow> Inr None
           | Some text \<Rightarrow>
               (case split_content_type text of (mime, params) \<Rightarrow>
                  let normalized = to_ascii_lowercase mime;
                      binary = matches_grpc_web_mime normalized ''application/grpc-web'';
                      is_text = matches_grpc_web_mime normalized ''application/grpc-web-text''
                  in if \<not> binary \<and> \<not> is_text then Inr None
                     else let upstream_mime = (if is_text
                                then replace_first_prefix normalized ''application/grpc-web-text'' ''application/grpc''
                                else replace_first_prefix normalized ''application/grpc-web'' ''application/grpc'');
                              upstream_content_type = (if params = [] then upstream_mime else upstream_mime @ ''; '' @ params)
                          in (case header_value_of upstream_content_type of
                                None \<Rightarrow> Inl ''invalid grpc-web content-type''
                              | Some v \<Rightarrow> Inr (Some \<lparr> gw_downstream_content_type = content_type, gw_upstream_content_type = v,
                                  gw_encoding = (if is_text then GwText else GwBinary) \<rparr>)))))"

definition grpc_protocol_request :: "header_map \<Rightarrow> bool" where
  "grpc_protocol_request headers \<longleftrightarrow>
     (case Option.bind (hm_get headers ''content-type'') to_str of
        None \<Rightarrow> False
      | Some text \<Rightarrow> str_starts_with (to_ascii_lowercase (fst (split_content_type text))) ''application/grpc'')"

definition grpc_timeout_message :: "string \<Rightarrow> duration \<Rightarrow> string" where
  "grpc_timeout_message upstream_name timeout =
     ''upstream `'' @ upstream_name @ ''` timed out after '' @ show_nat (as_millis timeout) @ '' ms''"

record grpc_response_deadline =
  gd_deadline :: nat
  gd_timeout :: duration
  gd_timeout_message :: string

definition grpc_response_deadline_of :: "nat \<Rightarrow> header_map \<Rightarrow> string \<Rightarrow> duration \<Rightarrow> grpc_response_deadline option" where
  "grpc_response_deadline_of now request_headers upstream_name timeout =
     (if grpc_protocol_request request_headers
      then Some \<lparr> gd_deadline = now + timeout, gd_timeout = timeout, gd_timeout_message = grpc_timeout_message upstream_name timeout \<rparr>
      else None)"

definition checked_mul_u64 :: "nat \<Rightarrow> nat \<Rightarrow> nat option" where
  "checked_mul_u64 a b = (if a * b \<le> u64_max then Some (a * b) else None)"

definition grpc_timeout_duration :: "nat \<Rightarrow> string \<Rightarrow> duration option" where
  "grpc_timeout_duration amount unit =
     (if unit = ''H'' then map_option from_secs (checked_mul_u64 amount 3600)
      else if unit = ''M'' then map_option from_secs (checked_mul_u64 amount 60)
      else if unit = ''S'' then Some (from_secs amount)
      else if unit = ''m'' then Some (from_millis amount)
      else if unit = ''u'' then Some (amount * 1000)
      else if unit = ''n'' then Some amount
      else None)"

definition grpc_timeout_syntax_error :: string where
  "grpc_timeout_syntax_error = ''invalid grpc-timeout header: expected 1-8 ASCII digits followed by H/M/S/m/u/n''"

definition parse_grpc_timeout :: "header_map \<Rightarrow> string + duration option" where
  "parse_grpc_timeout headers =
     (if \<not> grpc_protocol_request headers then Inr None
      else case hm_get headers ''grpc-timeout'' of
        None \<Rightarrow> Inr None
      | Some raw \<Rightarrow>
          (case to_str raw of
             None \<Rightarrow> Inl ''invalid grpc-timeout header: expected ASCII''
           | Some text \<Rightarrow>
               let t = str_trim text
               in if length t < 2 then Inl grpc_timeout_syntax_error
                  else let amount = butlast t; unit = [last t]
                       in if amount = [] \<or> max_grpc_timeout_digits < length amount \<or> \<not> list_all is_digit amount
                          then Inl grpc_timeout_syntax_error
                          else (case parse_uint u64_max amount of
                                  None \<Rightarrow> Inl ''invalid grpc-timeout header: timeout value is out of range''
                                | Some n \<Rightarrow>
                                    (case grpc_timeout_duration n unit of
                                       None \<Rightarrow> Inl grpc_timeout_syntax_error
                                     | Some d \<Rightarrow> Inr (Some d)))))"

definition effective_upstream_request_timeout :: "header_map \<Rightarrow> duration \<Rightarrow> string + duration" where
  "effective_upstream_request_timeout headers upstream_timeout =
     bind_res (parse_grpc_timeout headers)
       (\<lambda>t. Inr (case t of None \<Rightarrow> upstream_timeout | Some d \<Rightarrow> min d upstream_timeout))"

section \<open>Error responses\<close>

definition grpc_or_text :: "base64 \<Rightarrow> header_map \<Rightarrow> grpc_status_code \<Rightarrow> status_code \<Rightarrow> string \<Rightarrow> http_response" where
  "grpc_or_text b64 request_headers code status message =
     (case grpc_error_response b64 request_headers code message of
        Some r \<Rightarrow> r
      | None \<Rightarrow> text_response status text_plain message)"

definition gateway_timeout :: "base64 \<Rightarrow> header_map \<Rightarrow> string \<Rightarrow> http_response" where
  "gateway_timeout b64 h message = grpc_or_text b64 h GrpcDeadlineExceeded 504 message"

definition bad_gateway :: "base64 \<Rightarrow> header_map \<Rightarrow> string \<Rightarrow> http_response" where
  "bad_gateway b64 h message = grpc_or_text b64 h GrpcUnavailable 502 message"

definition payload_too_large :: "base64 \<Rightarrow> header_map \<Rightarrow> string \<Rightarrow> http_response" where
  "payload_too_large b64 h message = grpc_or_text b64 h GrpcResourceExhausted 413 message"

definition bad_request :: "base64 \<Rightarrow> header_map \<Rightarrow> string \<Rightarrow> http_response" where
  "bad_request b64 h message = grpc_or_text b64 h GrpcInvalidArgument 400 message"

definition unsupported_media_type :: "base64 \<Rightarrow> header_map \<Rightarrow> string \<Rightarrow> http_response" where
  "unsupported_media_type b64 h message = grpc_or_text b64 h GrpcInvalidArgument 415 message"

definition upstream_tls_verify_label :: "upstream_tls \<Rightarrow> string" where
  "upstream_tls_verify_label tls = (case tls of NativeRoots \<Rightarrow> ''native_roots'' | CustomCa _ \<Rightarrow> ''custom_ca'' | Insecure \<Rightarrow> ''insecure'')"

definition classify_upstream_tls_failure :: "string \<Rightarrow> string" where
  "classify_upstream_tls_failure message =
     (let e = to_ascii_lowercase message
      in if str_contains e ''unknown ca'' \<or> str_contains e ''unknown issuer'' then ''unknown_ca''
         else if str_contains e ''revoked'' then ''certificate_revoked''
         else if str_contains e ''verify_depth'' \<or> str_contains e ''exceeds configured verify_depth'' then ''verify_depth_exceeded''
         else if str_contains e ''certificate verify failed'' \<or> str_contains e ''invalid certificate''
              \<or> str_contains e ''bad certificate'' \<or> str_contains e ''not valid for name'' then ''bad_certificate''
         else ''-'')"

text \<open>\<open>to_string\<close> of an error is the text of its first node.\<close>

definition error_text :: "box_error \<Rightarrow> string" where
  "error_text e = (case e of [] \<Rightarrow> [] | c # _ \<Rightarrow> en_text c)"

section \<open>The state of forwarding\<close>

record 'w cache_backend =
  cb_lookup :: "cache_request \<Rightarrow> string \<Rightarrow> route_cache_policy \<Rightarrow> 'w \<Rightarrow> cache_lookup \<times> 'w"
  cb_record_bypass :: "string \<Rightarrow> 'w \<Rightarrow> 'w"
  cb_store_response :: "lookup_context \<Rightarrow> http_response \<Rightarrow> 'w \<Rightarrow> http_response \<times> 'w"
  cb_complete_not_modified :: "lookup_context \<Rightarrow> http_response \<Rightarrow> 'w \<Rightarrow> (string + http_response) \<times> 'w"
  cb_serve_stale :: "lookup_context \<Rightarrow> cache_status \<Rightarrow> 'w \<Rightarrow> http_response option \<times> 'w"

text \<open>
  The requests that were sent, with their peer, method and body, the guards that bodies and tunnels keep, and
  the refreshes that run in the background are part of the state.
\<close>

record ('acc, 'w) forward_state =
  fw_shared :: "'acc shared_state"
  fw_health :: peer_health_registry
  fw_upstream :: upstream
  fw_cache :: 'w
  fw_sent :: "(resolved_upstream_peer \<times> http_method \<times> req_event list) list"
  fw_guards :: "active_peer_guard list"
  fw_tunnels :: "connection_guard list"
  fw_refreshes :: "lookup_context list"

record ('uri, 'e, 'w) forward_env =
  fe_base64 :: base64
  fe_header_name :: "string \<Rightarrow> string option"
  fe_uri_build :: "string \<Rightarrow> string \<Rightarrow> string \<Rightarrow> 'e + 'uri"
  fe_now_secs :: nat
  fe_now_ms :: nat
  fe_instant :: nat
  fe_resolve :: "upstream_peer \<Rightarrow> resolved_upstream_peer list"
  fe_client_available :: bool
  fe_timed :: "duration \<Rightarrow> string \<Rightarrow> grpc_response_deadline option \<Rightarrow> body_event list \<Rightarrow> body_event list"
  fe_backend :: "'w cache_backend"

record downstream_request =
  dr_method :: http_method
  dr_version :: http_version
  dr_uri :: http_uri
  dr_headers :: header_map
  dr_size_hint :: "nat \<times> nat option"
  dr_body :: "req_event list"

record downstream_options =
  do_request_body_read_timeout :: "duration option"
  do_max_request_body_bytes :: "nat option"
  do_request_buffering :: route_buffering_policy
  do_response_buffering :: route_buffering_policy
  do_streaming_response_idle_timeout :: "duration option"
  do_cache :: "route_cache_policy option"

record downstream_context =
  dc_listener_id :: string
  dc_downstream_proto :: string
  dc_request_id :: string
  dc_options :: downstream_options

definition uri_path_of :: "http_uri \<Rightarrow> string" where
  "uri_path_of uri = (case uri_path_and_query uri of None \<Rightarrow> [] | Some pq \<Rightarrow>
     (case split_once (CHR ''?'') pq of Some (path, _) \<Rightarrow> path | None \<Rightarrow> pq))"

definition uri_query_of :: "http_uri \<Rightarrow> string option" where
  "uri_query_of uri = (case uri_path_and_query uri of None \<Rightarrow> None | Some pq \<Rightarrow> map_option snd (split_once (CHR ''?'') pq))"

definition on_shared :: "('acc shared_state \<Rightarrow> 'acc shared_state) \<Rightarrow> ('acc, 'w) forward_state \<Rightarrow> ('acc, 'w) forward_state" where
  "on_shared f w = w\<lparr> fw_shared := f (fw_shared w) \<rparr>"

section \<open>The cache in front\<close>

record forward_cache_context =
  fc_store :: "lookup_context option"
  fc_status :: "cache_status option"

datatype forward_cache_lookup =
    CacheHit http_response
  | CacheUpdating http_response forward_cache_context
  | CacheProceed forward_cache_context

definition lookup_forward_cache ::
    "'w cache_backend \<Rightarrow> cache_request \<Rightarrow> string \<Rightarrow> route_buffering_policy \<Rightarrow> route_cache_policy option \<Rightarrow> 'w \<Rightarrow>
     forward_cache_lookup \<times> 'w" where
  "lookup_forward_cache backend request scheme response_buffering policy w =
     (case policy of
        None \<Rightarrow> (CacheProceed \<lparr> fc_store = None, fc_status = None \<rparr>, w)
      | Some pol \<Rightarrow>
          if response_buffering = BufOff
          then (CacheProceed \<lparr> fc_store = None, fc_status = Some CsBypass \<rparr>, cb_record_bypass backend (cp_zone pol) w)
          else (case cb_lookup backend request scheme pol w of
             (LookupHit response, w1) \<Rightarrow> (CacheHit response, w1)
           | (LookupUpdating response ctx, w1) \<Rightarrow>
               (CacheUpdating response \<lparr> fc_store = Some ctx, fc_status = Some (sc_cache_status ctx) \<rparr>, w1)
           | (LookupMiss ctx, w1) \<Rightarrow> (CacheProceed \<lparr> fc_store = Some ctx, fc_status = Some (sc_cache_status ctx) \<rparr>, w1)
           | (LookupBypass status, w1) \<Rightarrow> (CacheProceed \<lparr> fc_store = None, fc_status = Some status \<rparr>, w1)))"

definition resolve_forward_cache ::
    "('uri, 'e, 'w) forward_env \<Rightarrow> downstream_context \<Rightarrow> cache_request \<Rightarrow> ('acc, 'w) forward_state \<Rightarrow>
     (http_response + forward_cache_context) \<times> ('acc, 'w) forward_state" where
  "resolve_forward_cache env downstream request w =
     (case lookup_forward_cache (fe_backend env) request (dc_downstream_proto downstream)
             (do_response_buffering (dc_options downstream)) (do_cache (dc_options downstream)) (fw_cache w) of
        (CacheHit response, c) \<Rightarrow> (Inl response, w\<lparr> fw_cache := c \<rparr>)
      | (CacheUpdating response cache, c) \<Rightarrow>
          (Inl response, w\<lparr> fw_cache := c,
             fw_refreshes := fw_refreshes w @ (case fc_store cache of Some ctx \<Rightarrow> [ctx] | None \<Rightarrow> []) \<rparr>)
      | (CacheProceed cache, c) \<Rightarrow> (Inr cache, w\<lparr> fw_cache := c \<rparr>))"

definition mark_response :: "forward_cache_context \<Rightarrow> http_response \<Rightarrow> http_response" where
  "mark_response cache response = (case fc_status cache of Some status \<Rightarrow> with_cache_status response status | None \<Rightarrow> response)"

definition preparing_store :: "forward_cache_context \<Rightarrow> lookup_context option" where
  "preparing_store cache = (case fc_store cache of Some ctx \<Rightarrow> if sc_store_response ctx then Some ctx else None | None \<Rightarrow> None)"

definition apply_upstream_request_method :: "forward_cache_context \<Rightarrow> downstream_request \<Rightarrow> downstream_request" where
  "apply_upstream_request_method cache req =
     (case preparing_store cache of
        Some ctx \<Rightarrow> req\<lparr> dr_method := upstream_cache_request_method (cr_method (sc_request ctx)) (sc_policy ctx) \<rparr>
      | None \<Rightarrow> req)"

definition apply_upstream_request_headers :: "forward_cache_context \<Rightarrow> downstream_request \<Rightarrow> downstream_request" where
  "apply_upstream_request_headers cache req =
     (case preparing_store cache of
        Some ctx \<Rightarrow> req\<lparr> dr_headers := apply_upstream_range_headers (cr_method (sc_request ctx)) (dr_headers req) (sc_policy ctx) \<rparr>
      | None \<Rightarrow> req)"

definition apply_forward_conditional_headers :: "forward_cache_context \<Rightarrow> downstream_request \<Rightarrow> downstream_request" where
  "apply_forward_conditional_headers cache req =
     (case preparing_store cache of
        Some ctx \<Rightarrow> req\<lparr> dr_headers := apply_conditional_request_headers ctx (dr_headers req) \<rparr>
      | None \<Rightarrow> req)"

abbreviation may_serve_stale :: "lookup_context \<Rightarrow> cache_stale_reason \<Rightarrow> nat \<Rightarrow> bool" where
  "may_serve_stale ctx reason now \<equiv> can_serve_stale (cache_store_context.truncate ctx) reason now"

definition serve_stale_for_reason ::
    "('uri, 'e, 'w) forward_env \<Rightarrow> forward_cache_context \<Rightarrow> cache_stale_reason \<Rightarrow> cache_status \<Rightarrow> 'w \<Rightarrow> http_response option \<times> 'w" where
  "serve_stale_for_reason env cache reason status c =
     (case fc_store cache of
        None \<Rightarrow> (None, c)
      | Some ctx \<Rightarrow> if \<not> may_serve_stale ctx reason (fe_now_ms env) then (None, c) else cb_serve_stale (fe_backend env) ctx status c)"

section \<open>Preparing the request\<close>

record prepared_forward_request =
  pf_request_headers :: header_map
  pf_response_idle_timeout :: duration
  pf_grpc_web_mode :: "grpc_web_mode option"
  pf_upstream_request_timeout :: duration
  pf_downstream_upgrade :: bool
  pf_prepared_request :: prepared_proxy_request
  pf_peers :: "resolved_upstream_peer list"

definition limit_exceeded_text :: "nat \<Rightarrow> string" where
  "limit_exceeded_text n = ''request body exceeds server.max_request_body_bytes ('' @ show_nat n @ '' bytes)'' @ newline"

definition invalid_body_text :: "box_error \<Rightarrow> string" where
  "invalid_body_text e = ''invalid downstream request body: '' @ error_text e @ newline"

definition unavailable_text :: "string \<Rightarrow> string" where
  "unavailable_text name = ''upstream `'' @ name @ ''` is unavailable'' @ newline"

text \<open>The selection of peers: a second one only for a request that may be sent twice.\<close>

definition select_forward_peers ::
    "('uri, 'e, 'w) forward_env \<Rightarrow> client_address \<Rightarrow> prepared_proxy_request \<Rightarrow> ('acc, 'w) forward_state \<Rightarrow>
     selected_peers \<times> ('acc, 'w) forward_state" where
  "select_forward_peers env client p w =
     (case select_peers (fe_resolve env) (fw_health w) (fw_upstream w) (fe_instant env) (ca_client_ip client)
             (if can_failover p then max_failover_attempts else 1) of
        (sel, health, u) \<Rightarrow> (sel, w\<lparr> fw_health := health, fw_upstream := u \<rparr>))"

text \<open>What follows the body: the choice of peers.\<close>

definition finish_preparation ::
    "('uri, 'e, 'w) forward_env \<Rightarrow> proxy_target \<Rightarrow> client_address \<Rightarrow> (resolved_upstream_peer list \<Rightarrow> prepared_forward_request) \<Rightarrow>
     header_map \<Rightarrow> prepared_proxy_request \<Rightarrow> ('acc, 'w) forward_state \<Rightarrow> (http_response + prepared_forward_request) \<times> ('acc, 'w) forward_state" where
  "finish_preparation env target client build request_headers p w =
     (case select_forward_peers env client p w of
        (sel, w1) \<Rightarrow>
          if sp_peers sel = []
          then (Inl (bad_gateway (fe_base64 env) request_headers
                  (''upstream `'' @ pt_upstream_name target @ ''` has no healthy peers available'' @ newline)),
                on_shared (record_upstream_bad_gateway_response (fe_now_secs env) (pt_upstream_name target))
                  (on_shared (record_upstream_no_healthy_peers (pt_upstream_name target)) w1))
          else (Inr (build (sp_peers sel)), w1))"

definition prepare_forward_request ::
    "('uri, 'e, 'w) forward_env \<Rightarrow> proxy_target \<Rightarrow> client_address \<Rightarrow> downstream_context \<Rightarrow> downstream_request \<Rightarrow>
     ('acc, 'w) forward_state \<Rightarrow> (http_response + prepared_forward_request) \<times> ('acc, 'w) forward_state" where
  "prepare_forward_request env target client downstream req w0 =
     (let b64 = fe_base64 env; name = pt_upstream_name target; now = fe_now_secs env; headers = dr_headers req; u = pt_upstream target;
          options = dc_options downstream;
          idle = (case do_streaming_response_idle_timeout options of Some t \<Rightarrow> t | None \<Rightarrow> up_idle_timeout u);
          w = on_shared (record_upstream_request now name) w0
      in case detect_grpc_web_mode headers of
           Inl message \<Rightarrow> (Inl (unsupported_media_type b64 headers (message @ newline)),
             on_shared (record_upstream_unsupported_media_type_response name) w)
         | Inr mode \<Rightarrow>
         (case effective_upstream_request_timeout headers (up_request_timeout u) of
            Inl message \<Rightarrow> (Inl (bad_request b64 headers (message @ newline)), on_shared (record_upstream_bad_request_response name) w)
          | Inr timeout \<Rightarrow>
              if \<not> fe_client_available env then
                (Inl (bad_gateway b64 headers (''upstream `'' @ name @ ''` TLS client is unavailable'' @ newline)),
                 on_shared (record_upstream_bad_gateway_response now name) w)
              else let upgrade = is_upgrade_request (dr_version req) headers
              in if upgrade \<and> up_protocol u = ProtoHttp3 then
                (Inl (bad_gateway b64 headers (''upstream `'' @ name @ ''` does not support upgrade over http3'' @ newline)),
                 on_shared (record_upstream_bad_gateway_response now name) w)
              else case from_request b64 (fe_header_name env) (dr_method req) (uri_path_of (dr_uri req)) (uri_query_of (dr_uri req)) headers
                     (dr_size_hint req) (dr_body req) name (do_request_body_read_timeout options) (up_write_timeout u)
                     (up_max_replayable_request_body_bytes u) (do_max_request_body_bytes options) (do_request_buffering options) mode of
                Inl (PayloadTooLarge n) \<Rightarrow>
                  (Inl (payload_too_large b64 headers (limit_exceeded_text n)), on_shared (record_upstream_payload_too_large_response name) w)
              | Inl (PrepareOther e) \<Rightarrow>
                  if invalid_downstream_request_body_error (prepare_error_chain (PrepareOther e))
                  then (Inl (bad_request b64 headers (invalid_body_text (prepare_error_chain (PrepareOther e)))),
                        on_shared (record_upstream_bad_request_response name) w)
                  else (Inl (bad_gateway b64 headers (''failed to prepare upstream request for `'' @ name @ ''`'' @ newline)),
                        on_shared (record_upstream_bad_gateway_response now name) w)
              | Inr p \<Rightarrow>
                  finish_preparation env target client
                    (\<lambda>peers. \<lparr> pf_request_headers = headers, pf_response_idle_timeout = idle, pf_grpc_web_mode = mode,
                       pf_upstream_request_timeout = timeout, pf_downstream_upgrade = upgrade, pf_prepared_request = p, pf_peers = peers \<rparr>)
                    headers p w))"

end
