(* ===== verification/Forward_Attempt.thy ===== *)
theory Forward_Attempt
  imports Forward
begin

text \<open>
  The attempts of a forwarded request (\<open>proxy/forward/attempt\<close>): one peer after
  another is sent the request, every attempt is counted for the upstream, the
  peer and its health, and the answer is turned into the response for the
  client, stored, or replaced by a stale one.  A turn says what one peer does:
  the answer or the failure, the clocks read meanwhile, and whether the task
  that relays a streamed body is gone.  A panic is the answer None.
\<close>

section \<open>The response for the client\<close>

definition adapted_events :: "body_frame list \<times> body_outcome \<Rightarrow> body_event list" where
  "adapted_events r = map EvFrame (fst r) @ (case snd r of BodyFailed e \<Rightarrow> [EvError e] | _ \<Rightarrow> [])"

definition grpc_web_response_events :: "header_map option \<Rightarrow> body_event list \<Rightarrow> body_event list" where
  "grpc_web_response_events fallback inner =
     (let s = grpc_web_response_new inner fallback in adapted_events (run_body response_step (Suc (response_left s)) s))"

definition grpc_web_text_events :: "base64 \<Rightarrow> body_event list \<Rightarrow> body_event list" where
  "grpc_web_text_events b64 inner =
     (let s = grpc_web_text_new inner in adapted_events (run_body (text_encode_step b64) (Suc (text_left s)) s))"

text \<open>
  The response for the client; without a guard of the peer only an upgrade is
  answered, every other answer is a panic.  The entry for the access log that
  the response carries is left out.
\<close>

definition build_proxied_response ::
    "('uri, 'e, 'w) forward_env \<Rightarrow> status_code \<Rightarrow> header_map \<Rightarrow> body_event list \<Rightarrow> string \<Rightarrow> string \<Rightarrow> duration \<Rightarrow>
     grpc_response_deadline option \<Rightarrow> grpc_web_mode option \<Rightarrow> active_peer_guard option \<Rightarrow> http_response option" where
  "build_proxied_response env status headers body upstream_name display_url idle_timeout deadline mode guard =
     (let upgrade = (mode = None \<and> is_upgrade_response status headers);
          headers0 = sanitize_response_headers (fe_header_name env) headers upgrade;
          label = ''upstream `'' @ upstream_name @ ''` response body from `'' @ display_url @ ''`'';
          timed = fe_timed env idle_timeout label deadline body
      in if upgrade then Some \<lparr> hr_status = status, hr_headers = headers0, hr_body = WholeBody [] \<rparr>
         else case mode of
             Some m \<Rightarrow>
               (case extract_grpc_initial_trailers headers0 of (fallback, headers1) \<Rightarrow>
                  let headers2 = hm_remove (hm_insert headers1 ''content-type'' (gw_downstream_content_type m)) ''content-length'';
                      framed = grpc_web_response_events fallback timed
                  in if guard = None then None
                     else Some \<lparr> hr_status = status, hr_headers = headers2,
                       hr_body = WholeBody (if gw_encoding m = GwText then grpc_web_text_events (fe_base64 env) framed else framed) \<rparr>)
           | None \<Rightarrow> if guard = None then None else Some \<lparr> hr_status = status, hr_headers = headers0, hr_body = WholeBody timed \<rparr>)"

section \<open>One attempt\<close>

datatype upstream_answer =
    Responded status_code header_map "body_event list"
  | RequestFailed box_error
  | RequestTimedOut

record upstream_turn =
  ut_started :: nat
  ut_instant :: nat
  ut_answer :: upstream_answer
  ut_relay_gone :: bool

definition fw_record_success :: "proxy_target \<Rightarrow> resolved_upstream_peer \<Rightarrow> ('acc, 'w) forward_state \<Rightarrow> ('acc, 'w) forward_state" where
  "fw_record_success target peer w =
     w\<lparr> fw_health := snd (record_success (fw_health w) (pt_upstream_name target) (rp_endpoint_key peer)) \<rparr>"

definition fw_record_failure :: "upstream_turn \<Rightarrow> proxy_target \<Rightarrow> resolved_upstream_peer \<Rightarrow> ('acc, 'w) forward_state \<Rightarrow> ('acc, 'w) forward_state" where
  "fw_record_failure t target peer w =
     w\<lparr> fw_health := snd (record_failure (fw_health w) (pt_upstream_name target) (rp_endpoint_key peer) (ut_instant t)) \<rparr>"

text \<open>The guard of an attempt leaves with the attempt, or stays with the response body or the tunnel.\<close>

definition fw_drop_guard :: "active_peer_guard \<Rightarrow> ('acc, 'w) forward_state \<Rightarrow> ('acc, 'w) forward_state" where
  "fw_drop_guard guard w = w\<lparr> fw_health := drop_guard (fw_health w) guard \<rparr>"

definition fw_keep_guard :: "active_peer_guard \<Rightarrow> ('acc, 'w) forward_state \<Rightarrow> ('acc, 'w) forward_state" where
  "fw_keep_guard guard w = w\<lparr> fw_guards := guard # fw_guards w \<rparr>"

definition start_attempt ::
    "('uri, 'e, 'w) forward_env \<Rightarrow> proxy_target \<Rightarrow> resolved_upstream_peer \<Rightarrow> http_method \<times> req_event list \<Rightarrow>
     ('acc, 'w) forward_state \<Rightarrow> active_peer_guard \<times> ('acc, 'w) forward_state" where
  "start_attempt env target peer sent w =
     (case track_active_request (fw_health w) (pt_upstream_name target) (rp_endpoint_key peer) of (guard, health) \<Rightarrow>
        (guard, (on_shared (record_upstream_peer_attempt (fe_now_secs env) (pt_upstream_name target) (rp_logical_peer_url peer)) w)
           \<lparr> fw_health := health, fw_sent := fw_sent w @ [(peer, sent)] \<rparr>))"

definition finalize_streaming_request_body ::
    "('uri, 'e, 'w) forward_env \<Rightarrow> upstream_turn \<Rightarrow> box_error option option \<Rightarrow> header_map \<Rightarrow> proxy_target \<Rightarrow>
     ('acc, 'w) forward_state \<Rightarrow> http_response option \<times> ('acc, 'w) forward_state" where
  "finalize_streaming_request_body env t completion request_headers target w =
     (let b64 = fe_base64 env; name = pt_upstream_name target
      in case completion of
           None \<Rightarrow> (None, w)
         | Some result \<Rightarrow>
             if ut_relay_gone t
             then (Some (bad_gateway b64 request_headers
                     (''failed to finalize streamed request body for upstream `'' @ name @ ''`'' @ newline)), w)
             else (case result of
                None \<Rightarrow> (None, w)
              | Some e \<Rightarrow>
                  (case downstream_request_body_limit e of
                     Some n \<Rightarrow> (Some (payload_too_large b64 request_headers (limit_exceeded_text n)),
                       on_shared (record_upstream_payload_too_large_response name) w)
                   | None \<Rightarrow>
                       if invalid_downstream_request_body_error e
                       then (Some (bad_request b64 request_headers (invalid_body_text e)), on_shared (record_upstream_bad_request_response name) w)
                       else (Some (bad_gateway b64 request_headers (unavailable_text name)),
                             on_shared (record_upstream_bad_gateway_response (fe_now_secs env) name) w))))"

definition apply_cache_store ::
    "('uri, 'e, 'w) forward_env \<Rightarrow> lookup_context option \<Rightarrow> cache_status option \<Rightarrow> http_response \<Rightarrow> ('acc, 'w) forward_state \<Rightarrow>
     http_response \<times> ('acc, 'w) forward_state" where
  "apply_cache_store env store status response w =
     (case store of
        Some ctx \<Rightarrow> (case cb_store_response (fe_backend env) ctx response (fw_cache w) of (r, c) \<Rightarrow> (r, w\<lparr> fw_cache := c \<rparr>))
      | None \<Rightarrow> ((case status of Some s \<Rightarrow> with_cache_status response s | None \<Rightarrow> response), w))"

definition stored_if_built ::
    "('uri, 'e, 'w) forward_env \<Rightarrow> lookup_context option \<Rightarrow> cache_status option \<Rightarrow> http_response option \<Rightarrow> ('acc, 'w) forward_state \<Rightarrow>
     http_response option \<times> ('acc, 'w) forward_state" where
  "stored_if_built env store status built w =
     (case built of
        None \<Rightarrow> (None, w)
      | Some response \<Rightarrow> (case apply_cache_store env store status response w of (r, w') \<Rightarrow> (Some r, w')))"

definition not_modified_error_text :: "string \<Rightarrow> string" where
  "not_modified_error_text e = ''failed to refresh cached response from upstream 304: '' @ e @ newline"

text \<open>
  An answer that is passed on.  A tunnel takes a slot of the listener and the
  guard of the peer with it, before the response is built.
\<close>

definition pass_on_response ::
    "('uri, 'e, 'w) forward_env \<Rightarrow> downstream_context \<Rightarrow> proxy_target \<Rightarrow> prepared_forward_request \<Rightarrow> resolved_upstream_peer \<Rightarrow>
     grpc_response_deadline option \<Rightarrow> forward_cache_context \<Rightarrow> active_peer_guard \<Rightarrow> status_code \<Rightarrow> header_map \<Rightarrow> body_event list \<Rightarrow>
     ('acc, 'w) forward_state \<Rightarrow> http_response option \<times> ('acc, 'w) forward_state" where
  "pass_on_response env downstream target pf peer deadline cache guard status headers body w =
     (let build = build_proxied_response env status headers body (pt_upstream_name target) (rp_display_url peer)
            (pf_response_idle_timeout pf) deadline (pf_grpc_web_mode pf)
      in if pf_downstream_upgrade pf \<and> is_upgrade_response status headers
         then (case retain_connection_slot (dc_listener_id downstream) (fw_shared w) of
            None \<Rightarrow> (None, fw_drop_guard guard w)
          | Some (slot, s) \<Rightarrow>
              stored_if_built env None (fc_status cache) (build None)
                (fw_keep_guard guard (w\<lparr> fw_shared := s, fw_tunnels := slot # fw_tunnels w \<rparr>)))
         else stored_if_built env (fc_store cache) (fc_status cache) (build (Some guard)) (fw_keep_guard guard w))"

definition serve_stale_for_status ::
    "('uri, 'e, 'w) forward_env \<Rightarrow> forward_cache_context \<Rightarrow> status_code \<Rightarrow> ('acc, 'w) forward_state \<Rightarrow>
     http_response option \<times> ('acc, 'w) forward_state" where
  "serve_stale_for_status env cache status w =
     (case serve_stale_for_reason env cache (ReasonStatus status) CsStale (fw_cache w) of (r, c) \<Rightarrow> (r, w\<lparr> fw_cache := c \<rparr>))"

definition finalize_upstream_success ::
    "('uri, 'e, 'w) forward_env \<Rightarrow> downstream_context \<Rightarrow> proxy_target \<Rightarrow> prepared_forward_request \<Rightarrow> resolved_upstream_peer \<Rightarrow>
     grpc_response_deadline option \<Rightarrow> forward_cache_context \<Rightarrow> active_peer_guard \<Rightarrow> status_code \<Rightarrow> header_map \<Rightarrow> body_event list \<Rightarrow>
     ('acc, 'w) forward_state \<Rightarrow> http_response option \<times> ('acc, 'w) forward_state" where
  "finalize_upstream_success env downstream target pf peer deadline cache guard status headers body w =
     (case fc_store cache of
        Some ctx \<Rightarrow>
          if should_refresh_from_not_modified (cache_store_context.truncate ctx) status
          then (case cb_complete_not_modified (fe_backend env) ctx
                       \<lparr> hr_status = status, hr_headers = headers, hr_body = WholeBody body \<rparr> (fw_cache w) of
                  (result, c) \<Rightarrow>
                    (Some (case result of Inr response \<Rightarrow> response | Inl e \<Rightarrow> text_response 502 text_plain (not_modified_error_text e)),
                     fw_drop_guard guard (w\<lparr> fw_cache := c \<rparr>)))
          else (case serve_stale_for_status env cache status w of
                  (Some stale, w1) \<Rightarrow> (Some stale, fw_drop_guard guard w1)
                | (None, w1) \<Rightarrow> pass_on_response env downstream target pf peer deadline cache guard status headers body w1)
      | None \<Rightarrow> pass_on_response env downstream target pf peer deadline cache guard status headers body w)"

section \<open>The failure of the last attempt\<close>

definition failed_to_build_request_response ::
    "('uri, 'e, 'w) forward_env \<Rightarrow> header_map \<Rightarrow> proxy_target \<Rightarrow> forward_cache_context \<Rightarrow> ('acc, 'w) forward_state \<Rightarrow>
     http_response \<times> ('acc, 'w) forward_state" where
  "failed_to_build_request_response env request_headers target cache w =
     (mark_response cache (bad_gateway (fe_base64 env) request_headers
        (''failed to build upstream request for `'' @ pt_upstream_name target @ ''`'' @ newline)),
      on_shared (record_upstream_bad_gateway_response (fe_now_secs env) (pt_upstream_name target)) w)"

definition upstream_unavailable_response ::
    "('uri, 'e, 'w) forward_env \<Rightarrow> header_map \<Rightarrow> proxy_target \<Rightarrow> forward_cache_context \<Rightarrow> ('acc, 'w) forward_state \<Rightarrow>
     http_response \<times> ('acc, 'w) forward_state" where
  "upstream_unavailable_response env request_headers target cache w =
     (mark_response cache (bad_gateway (fe_base64 env) request_headers (unavailable_text (pt_upstream_name target))),
      on_shared (record_upstream_bad_gateway_response (fe_now_secs env) (pt_upstream_name target)) w)"

text \<open>A stale response, and otherwise the answer for the failure.\<close>

definition stale_or ::
    "('uri, 'e, 'w) forward_env \<Rightarrow> forward_cache_context \<Rightarrow> cache_stale_reason \<Rightarrow>
     (('acc, 'w) forward_state \<Rightarrow> http_response \<times> ('acc, 'w) forward_state) \<Rightarrow> ('acc, 'w) forward_state \<Rightarrow>
     http_response \<times> ('acc, 'w) forward_state" where
  "stale_or env cache reason fallback w =
     (case serve_stale_for_reason env cache reason CsStale (fw_cache w) of
        (Some stale, c) \<Rightarrow> (stale, w\<lparr> fw_cache := c \<rparr>)
      | (None, c) \<Rightarrow> fallback (w\<lparr> fw_cache := c \<rparr>))"

definition count_request_failure ::
    "proxy_target \<Rightarrow> resolved_upstream_peer \<Rightarrow> box_error \<Rightarrow> ('acc, 'w) forward_state \<Rightarrow> ('acc, 'w) forward_state" where
  "count_request_failure target peer e w =
     (let name = pt_upstream_name target
      in on_shared (record_upstream_peer_failure_class name (classify_upstream_tls_failure (error_text e)))
           (on_shared (record_upstream_peer_failure name (rp_logical_peer_url peer)) w))"

definition last_request_failed ::
    "('uri, 'e, 'w) forward_env \<Rightarrow> upstream_turn \<Rightarrow> proxy_target \<Rightarrow> prepared_forward_request \<Rightarrow> resolved_upstream_peer \<Rightarrow>
     forward_cache_context \<Rightarrow> box_error \<Rightarrow> ('acc, 'w) forward_state \<Rightarrow> http_response \<times> ('acc, 'w) forward_state" where
  "last_request_failed env t target pf peer cache e w =
     (let b64 = fe_base64 env; name = pt_upstream_name target; headers = pf_request_headers pf
      in case downstream_request_body_limit e of
           Some n \<Rightarrow> (mark_response cache (payload_too_large b64 headers (limit_exceeded_text n)),
             on_shared (record_upstream_payload_too_large_response name) w)
         | None \<Rightarrow>
             if invalid_downstream_request_body_error e
             then (mark_response cache (bad_request b64 headers (invalid_body_text e)), on_shared (record_upstream_bad_request_response name) w)
             else stale_or env cache ReasonError (upstream_unavailable_response env headers target cache)
                    (fw_record_failure t target peer (count_request_failure target peer e w)))"

definition gateway_timeout_response ::
    "('uri, 'e, 'w) forward_env \<Rightarrow> header_map \<Rightarrow> proxy_target \<Rightarrow> duration \<Rightarrow> forward_cache_context \<Rightarrow> ('acc, 'w) forward_state \<Rightarrow>
     http_response \<times> ('acc, 'w) forward_state" where
  "gateway_timeout_response env request_headers target timeout cache w =
     (mark_response cache (gateway_timeout (fe_base64 env) request_headers (grpc_timeout_message (pt_upstream_name target) timeout @ newline)),
      on_shared (record_upstream_gateway_timeout_response (fe_now_secs env) (pt_upstream_name target)) w)"

definition last_request_timed_out ::
    "('uri, 'e, 'w) forward_env \<Rightarrow> upstream_turn \<Rightarrow> proxy_target \<Rightarrow> prepared_forward_request \<Rightarrow> resolved_upstream_peer \<Rightarrow>
     forward_cache_context \<Rightarrow> ('acc, 'w) forward_state \<Rightarrow> http_response \<times> ('acc, 'w) forward_state" where
  "last_request_timed_out env t target pf peer cache w =
     stale_or env cache ReasonTimeout (gateway_timeout_response env (pf_request_headers pf) target (pf_upstream_request_timeout pf) cache)
       (fw_record_failure t target peer
          (on_shared (record_upstream_peer_timeout (pt_upstream_name target) (rp_logical_peer_url peer)) w))"

section \<open>The attempts\<close>

definition retry_after_failure ::
    "('uri, 'e, 'w) forward_env \<Rightarrow> upstream_turn \<Rightarrow> proxy_target \<Rightarrow> resolved_upstream_peer \<Rightarrow> box_error \<Rightarrow>
     ('acc, 'w) forward_state \<Rightarrow> ('acc, 'w) forward_state" where
  "retry_after_failure env t target peer e w =
     fw_record_failure t target peer
       (on_shared (record_upstream_failover (fe_now_secs env) (pt_upstream_name target)) (count_request_failure target peer e w))"

definition retry_after_timeout ::
    "('uri, 'e, 'w) forward_env \<Rightarrow> upstream_turn \<Rightarrow> proxy_target \<Rightarrow> resolved_upstream_peer \<Rightarrow>
     ('acc, 'w) forward_state \<Rightarrow> ('acc, 'w) forward_state" where
  "retry_after_timeout env t target peer w =
     fw_record_failure t target peer
       (on_shared (record_upstream_failover (fe_now_secs env) (pt_upstream_name target))
          (on_shared (record_upstream_peer_timeout (pt_upstream_name target) (rp_logical_peer_url peer)) w))"

definition dropping :: "active_peer_guard \<Rightarrow> http_response \<times> ('acc, 'w) forward_state \<Rightarrow> http_response option \<times> ('acc, 'w) forward_state" where
  "dropping guard r = (Some (fst r), fw_drop_guard guard (snd r))"

text \<open>What an answered attempt returns.\<close>

definition attempt_answered ::
    "('uri, 'e, 'w) forward_env \<Rightarrow> upstream_turn \<Rightarrow> downstream_context \<Rightarrow> proxy_target \<Rightarrow> prepared_forward_request \<Rightarrow> resolved_upstream_peer \<Rightarrow>
     grpc_response_deadline option \<Rightarrow> box_error option option \<Rightarrow> forward_cache_context \<Rightarrow> active_peer_guard \<Rightarrow>
     status_code \<Rightarrow> header_map \<Rightarrow> body_event list \<Rightarrow> ('acc, 'w) forward_state \<Rightarrow> http_response option \<times> ('acc, 'w) forward_state" where
  "attempt_answered env t downstream target pf peer deadline completion cache guard status headers body w =
     (case finalize_streaming_request_body env t completion (pf_request_headers pf) target w of
        (Some response, w1) \<Rightarrow> (Some (mark_response cache response), fw_drop_guard guard w1)
      | (None, w1) \<Rightarrow>
          finalize_upstream_success env downstream target pf peer deadline cache guard status headers body
            (fw_record_success target peer
               (on_shared (record_upstream_completed_response (fe_now_secs env) (pt_upstream_name target))
                  (on_shared (record_upstream_peer_success (pt_upstream_name target) (rp_logical_peer_url peer)) w1))))"

fun attempt_peers ::
    "('uri, 'e, 'w) forward_env \<Rightarrow> (nat \<Rightarrow> upstream_turn) \<Rightarrow> downstream_context \<Rightarrow> proxy_target \<Rightarrow> client_address \<Rightarrow> prepared_forward_request \<Rightarrow>
     forward_cache_context \<Rightarrow> nat \<Rightarrow> prepared_proxy_request \<Rightarrow> resolved_upstream_peer list \<Rightarrow> ('acc, 'w) forward_state \<Rightarrow>
     http_response option \<times> ('acc, 'w) forward_state" where
  "attempt_peers env turns downstream target client pf cache i p [] w =
     (case upstream_unavailable_response env (pf_request_headers pf) target cache w of (r, w1) \<Rightarrow> (Some r, w1))"
| "attempt_peers env turns downstream target client pf cache i p (peer # rest) w =
     (let deadline = grpc_response_deadline_of (ut_started (turns i)) (pf_request_headers pf) (pt_upstream_name target) (pf_upstream_request_timeout pf)
      in case build_for_peer (fe_uri_build env) (fe_header_name env) peer target client (dc_downstream_proto downstream) (pf_grpc_web_mode pf) p of
           Inl _ \<Rightarrow> (case failed_to_build_request_response env (pf_request_headers pf) target cache w of (r, w1) \<Rightarrow> (Some r, w1))
         | Inr (req, p1) \<Rightarrow>
             (case start_attempt env target peer (bu_method req, bu_body req) w of (guard, w1) \<Rightarrow>
                case ut_answer (turns i) of
                  Responded status headers body \<Rightarrow>
                    attempt_answered env (turns i) downstream target pf peer deadline (bu_completion req) cache guard status headers body w1
                | RequestFailed e \<Rightarrow>
                    if can_retry_peer_request p1 (length (pf_peers pf)) i
                    then attempt_peers env turns downstream target client pf cache (Suc i) p1 rest
                           (fw_drop_guard guard (retry_after_failure env (turns i) target peer e w1))
                    else dropping guard (last_request_failed env (turns i) target pf peer cache e w1)
                | RequestTimedOut \<Rightarrow>
                    if can_retry_peer_request p1 (length (pf_peers pf)) i
                    then attempt_peers env turns downstream target client pf cache (Suc i) p1 rest
                           (fw_drop_guard guard (retry_after_timeout env (turns i) target peer w1))
                    else dropping guard (last_request_timed_out env (turns i) target pf peer cache w1)))"

definition cache_request_of :: "downstream_request \<Rightarrow> cache_request" where
  "cache_request_of req = \<lparr> cr_method = dr_method req, cr_uri = dr_uri req, cr_headers = dr_headers req \<rparr>"

definition prepared_for_upstream :: "forward_cache_context \<Rightarrow> downstream_request \<Rightarrow> downstream_request" where
  "prepared_for_upstream cache req =
     apply_forward_conditional_headers cache (apply_upstream_request_headers cache (apply_upstream_request_method cache req))"

definition forward_request ::
    "('uri, 'e, 'w) forward_env \<Rightarrow> (nat \<Rightarrow> upstream_turn) \<Rightarrow> proxy_target \<Rightarrow> client_address \<Rightarrow> downstream_context \<Rightarrow> downstream_request \<Rightarrow>
     ('acc, 'w) forward_state \<Rightarrow> http_response option \<times> ('acc, 'w) forward_state" where
  "forward_request env turns target client downstream req w =
     (case resolve_forward_cache env downstream (cache_request_of req) w of
        (Inl response, w1) \<Rightarrow> (Some response, w1)
      | (Inr cache, w1) \<Rightarrow>
          (case prepare_forward_request env target client downstream (prepared_for_upstream cache req) w1 of
             (Inl response, w2) \<Rightarrow> (Some (mark_response cache response), w2)
           | (Inr pf, w2) \<Rightarrow> attempt_peers env turns downstream target client pf cache 0 (pf_prepared_request pf) (pf_peers pf) w2))"

section \<open>The refresh in the background\<close>

definition build_background_request :: "lookup_context \<Rightarrow> downstream_request" where
  "build_background_request ctx =
     (let req = sc_request ctx
      in \<lparr> dr_method = upstream_cache_request_method (cr_method req) (sc_policy ctx), dr_version = Http11, dr_uri = cr_uri req,
           dr_headers = apply_upstream_range_headers (cr_method req) (cr_headers req) (sc_policy ctx),
           dr_size_hint = (0, Some 0), dr_body = [] \<rparr>)"

text \<open>The drained response frees the guard of its peer.\<close>

definition store_refreshed ::
    "('uri, 'e, 'w) forward_env \<Rightarrow> proxy_target \<Rightarrow> prepared_forward_request \<Rightarrow> resolved_upstream_peer \<Rightarrow> grpc_response_deadline option \<Rightarrow>
     lookup_context \<Rightarrow> active_peer_guard \<Rightarrow> status_code \<Rightarrow> header_map \<Rightarrow> body_event list \<Rightarrow> ('acc, 'w) forward_state \<Rightarrow> ('acc, 'w) forward_state" where
  "store_refreshed env target pf peer deadline ctx guard status headers body w =
     (if should_refresh_from_not_modified (cache_store_context.truncate ctx) status
      then fw_drop_guard guard (w\<lparr> fw_cache := snd (cb_complete_not_modified (fe_backend env) ctx
             \<lparr> hr_status = status, hr_headers = headers, hr_body = WholeBody body \<rparr> (fw_cache w)) \<rparr>)
      else (case build_proxied_response env status headers body (pt_upstream_name target) (rp_display_url peer)
                   (pf_response_idle_timeout pf) deadline (pf_grpc_web_mode pf) (Some guard) of
              None \<Rightarrow> fw_drop_guard guard w
            | Some response \<Rightarrow>
                fw_drop_guard guard (w\<lparr> fw_cache := snd (cb_store_response (fe_backend env) ctx response (fw_cache w)) \<rparr>)))"

definition refresh_answered ::
    "('uri, 'e, 'w) forward_env \<Rightarrow> upstream_turn \<Rightarrow> proxy_target \<Rightarrow> prepared_forward_request \<Rightarrow> resolved_upstream_peer \<Rightarrow>
     grpc_response_deadline option \<Rightarrow> box_error option option \<Rightarrow> lookup_context \<Rightarrow> active_peer_guard \<Rightarrow>
     status_code \<Rightarrow> header_map \<Rightarrow> body_event list \<Rightarrow> ('acc, 'w) forward_state \<Rightarrow> ('acc, 'w) forward_state" where
  "refresh_answered env t target pf peer deadline completion ctx guard status headers body w =
     (case finalize_streaming_request_body env t completion (pf_request_headers pf) target w of
        (Some _, w1) \<Rightarrow> fw_drop_guard guard w1
      | (None, w1) \<Rightarrow>
          store_refreshed env target pf peer deadline ctx guard status headers body
            (fw_record_success target peer
               (on_shared (record_upstream_completed_response (fe_now_secs env) (pt_upstream_name target))
                  (on_shared (record_upstream_peer_success (pt_upstream_name target) (rp_logical_peer_url peer)) w1))))"

fun refresh_peers ::
    "('uri, 'e, 'w) forward_env \<Rightarrow> (nat \<Rightarrow> upstream_turn) \<Rightarrow> downstream_context \<Rightarrow> proxy_target \<Rightarrow> client_address \<Rightarrow> prepared_forward_request \<Rightarrow>
     lookup_context \<Rightarrow> nat \<Rightarrow> prepared_proxy_request \<Rightarrow> resolved_upstream_peer list \<Rightarrow> ('acc, 'w) forward_state \<Rightarrow> ('acc, 'w) forward_state" where
  "refresh_peers env turns downstream target client pf ctx i p [] w = w"
| "refresh_peers env turns downstream target client pf ctx i p (peer # rest) w =
     (let deadline = grpc_response_deadline_of (ut_started (turns i)) (pf_request_headers pf) (pt_upstream_name target) (pf_upstream_request_timeout pf)
      in case build_for_peer (fe_uri_build env) (fe_header_name env) peer target client (dc_downstream_proto downstream) (pf_grpc_web_mode pf) p of
           Inl _ \<Rightarrow> w
         | Inr (req, p1) \<Rightarrow>
             (case start_attempt env target peer (bu_method req, bu_body req) w of (guard, w1) \<Rightarrow>
                case ut_answer (turns i) of
                  Responded status headers body \<Rightarrow>
                    refresh_answered env (turns i) target pf peer deadline (bu_completion req) ctx guard status headers body w1
                | RequestFailed e \<Rightarrow>
                    if can_retry_peer_request p1 (length (pf_peers pf)) i
                    then refresh_peers env turns downstream target client pf ctx (Suc i) p1 rest
                           (fw_drop_guard guard (retry_after_failure env (turns i) target peer e w1))
                    else fw_drop_guard guard (fw_record_failure (turns i) target peer (count_request_failure target peer e w1))
                | RequestTimedOut \<Rightarrow>
                    if can_retry_peer_request p1 (length (pf_peers pf)) i
                    then refresh_peers env turns downstream target client pf ctx (Suc i) p1 rest
                           (fw_drop_guard guard (retry_after_timeout env (turns i) target peer w1))
                    else fw_drop_guard guard (fw_record_failure (turns i) target peer
                           (on_shared (record_upstream_peer_timeout (pt_upstream_name target) (rp_logical_peer_url peer)) w1))))"

definition run_background_cache_refresh ::
    "('uri, 'e, 'w) forward_env \<Rightarrow> (nat \<Rightarrow> upstream_turn) \<Rightarrow> proxy_target \<Rightarrow> client_address \<Rightarrow> downstream_context \<Rightarrow> lookup_context \<Rightarrow>
     ('acc, 'w) forward_state \<Rightarrow> ('acc, 'w) forward_state" where
  "run_background_cache_refresh env turns target client downstream0 ctx w =
     (let req0 = build_background_request ctx;
          req = req0\<lparr> dr_headers := apply_conditional_request_headers ctx (dr_headers req0) \<rparr>;
          downstream = downstream0\<lparr> dc_request_id := dc_request_id downstream0 @ '':cache-update'' \<rparr>
      in case prepare_forward_request env target client downstream req w of
           (Inl _, w1) \<Rightarrow> w1
         | (Inr pf, w1) \<Rightarrow> refresh_peers env turns downstream target client pf ctx 0 (pf_prepared_request pf) (pf_peers pf) w1)"

end
