(* ===== verification/Forward_Proofs.thy ===== *)
theory Forward_Proofs
  imports Forward_Attempt
begin

text \<open>
  What forwarding keeps: how often a request may be sent, the running requests
  that the health registry counts, and that every request is answered.
\<close>

named_theorems flow_steps

section \<open>Steps that send nothing\<close>

text \<open>
  Between two attempts counters, health records and the cache change; the sent
  requests, the guards and the listeners stay, and the registry counts the same guards.
\<close>

definition same_flow :: "('acc, 'w) forward_state \<Rightarrow> ('acc, 'w) forward_state \<Rightarrow> bool" where
  "same_flow w w' \<longleftrightarrow> fw_sent w' = fw_sent w \<and> fw_guards w' = fw_guards w \<and> ss_active_of (fw_shared w') = ss_active_of (fw_shared w)
     \<and> ss_counters (fw_shared w') = ss_counters (fw_shared w) \<and> (\<forall>gs. reg_inv (fw_health w, gs) \<longrightarrow> reg_inv (fw_health w', gs))"

lemma same_flow_refl [simp]: "same_flow w w"
  by (simp add: same_flow_def)

lemma same_flow_trans: "same_flow w w1 \<Longrightarrow> same_flow w1 w2 \<Longrightarrow> same_flow w w2"
  by (simp add: same_flow_def)

lemma announce_upstream_keeps [simp]:
  "ss_active_of (announce_upstream name s) = ss_active_of s" "ss_counters (announce_upstream name s) = ss_counters s"
  by (simp_all add: announce_upstream_def mark_snapshot_changed_components_def mark_snapshot_changed_components_with_cache_def
      notify_snapshot_waiters_def Let_def split: prod.split)

lemma on_upstream_keeps [simp]:
  "ss_active_of (on_upstream name f s) = ss_active_of s" "ss_active_of (on_upstream_peer name peer f g s) = ss_active_of s"
  "ss_counters (on_upstream name f s) = ss_counters s" "ss_counters (on_upstream_peer name peer f g s) = ss_counters s"
  by (simp_all add: on_upstream_def on_upstream_peer_def split: option.split)

lemmas upstream_record_defs = record_upstream_request_def record_upstream_failover_def record_upstream_completed_response_def
  record_upstream_bad_gateway_response_def record_upstream_gateway_timeout_response_def record_upstream_bad_request_response_def
  record_upstream_payload_too_large_response_def record_upstream_unsupported_media_type_response_def
  record_upstream_no_healthy_peers_def record_upstream_peer_attempt_def record_upstream_peer_success_def
  record_upstream_peer_failure_def record_upstream_peer_timeout_def record_upstream_peer_failure_class_def

lemma on_shared_sel [simp]:
  "fw_sent (on_shared f w) = fw_sent w" "fw_guards (on_shared f w) = fw_guards w" "fw_health (on_shared f w) = fw_health w"
  "fw_cache (on_shared f w) = fw_cache w" "fw_shared (on_shared f w) = f (fw_shared w)" "fw_upstream (on_shared f w) = fw_upstream w"
  "fw_tunnels (on_shared f w) = fw_tunnels w"
  by (simp_all add: on_shared_def)

lemma on_shared_flow [flow_steps]:
  "same_flow w w' \<Longrightarrow> same_flow w (on_shared (record_upstream_request now name) w')"
  "same_flow w w' \<Longrightarrow> same_flow w (on_shared (record_upstream_failover now name) w')"
  "same_flow w w' \<Longrightarrow> same_flow w (on_shared (record_upstream_completed_response now name) w')"
  "same_flow w w' \<Longrightarrow> same_flow w (on_shared (record_upstream_bad_gateway_response now name) w')"
  "same_flow w w' \<Longrightarrow> same_flow w (on_shared (record_upstream_gateway_timeout_response now name) w')"
  "same_flow w w' \<Longrightarrow> same_flow w (on_shared (record_upstream_bad_request_response name) w')"
  "same_flow w w' \<Longrightarrow> same_flow w (on_shared (record_upstream_payload_too_large_response name) w')"
  "same_flow w w' \<Longrightarrow> same_flow w (on_shared (record_upstream_unsupported_media_type_response name) w')"
  "same_flow w w' \<Longrightarrow> same_flow w (on_shared (record_upstream_no_healthy_peers name) w')"
  "same_flow w w' \<Longrightarrow> same_flow w (on_shared (record_upstream_peer_success name peer) w')"
  "same_flow w w' \<Longrightarrow> same_flow w (on_shared (record_upstream_peer_failure name peer) w')"
  "same_flow w w' \<Longrightarrow> same_flow w (on_shared (record_upstream_peer_timeout name peer) w')"
  "same_flow w w' \<Longrightarrow> same_flow w (on_shared (record_upstream_peer_failure_class name cls) w')"
  by (simp_all add: same_flow_def upstream_record_defs)

lemma record_flow [flow_steps]:
  "same_flow w w' \<Longrightarrow> same_flow w (fw_record_success target peer w')"
  "same_flow w w' \<Longrightarrow> same_flow w (fw_record_failure t target peer w')"
  by (simp_all add: same_flow_def fw_record_success_def fw_record_failure_def reg_inv_records)

lemma cache_flow [flow_steps]:
  "same_flow w w' \<Longrightarrow> same_flow w (w'\<lparr> fw_cache := c \<rparr>)"
  "same_flow w w' \<Longrightarrow> same_flow w (w'\<lparr> fw_cache := c, fw_refreshes := rs \<rparr>)"
  by (simp_all add: same_flow_def)

lemma count_request_failure_flow [flow_steps]: "same_flow w w' \<Longrightarrow> same_flow w (count_request_failure target peer e w')"
  by (simp add: count_request_failure_def Let_def flow_steps)

lemma retry_flow [flow_steps]:
  "same_flow w w' \<Longrightarrow> same_flow w (retry_after_failure env t target peer e w')"
  "same_flow w w' \<Longrightarrow> same_flow w (retry_after_timeout env t target peer w')"
  by (simp_all add: retry_after_failure_def retry_after_timeout_def flow_steps)

lemma stale_or_flow:
  assumes "\<And>w1. same_flow w w1 \<Longrightarrow> same_flow w (snd (fallback w1))" and "same_flow w w0"
  shows "same_flow w (snd (stale_or env cache reason fallback w0))"
  using assms by (auto simp: stale_or_def flow_steps split: prod.split option.split)

lemma failure_response_flow:
  "same_flow w w' \<Longrightarrow> same_flow w (snd (upstream_unavailable_response env h target cache w'))"
  "same_flow w w' \<Longrightarrow> same_flow w (snd (failed_to_build_request_response env h target cache w'))"
  "same_flow w w' \<Longrightarrow> same_flow w (snd (gateway_timeout_response env h target timeout cache w'))"
  by (simp_all add: upstream_unavailable_response_def failed_to_build_request_response_def gateway_timeout_response_def flow_steps)

lemma last_request_flow:
  "same_flow w (snd (last_request_failed env t target pf peer cache e w))"
  "same_flow w (snd (last_request_timed_out env t target pf peer cache w))"
  by (auto simp: last_request_failed_def last_request_timed_out_def Let_def flow_steps failure_response_flow
      intro!: stale_or_flow split: option.split)

lemma finalize_streaming_flow:
  "finalize_streaming_request_body env t completion h target w = (r, w') \<Longrightarrow> same_flow w w'"
  by (auto simp: finalize_streaming_request_body_def Let_def flow_steps split: option.splits if_splits)

section \<open>The guard of an attempt\<close>

definition released :: "active_peer_guard \<Rightarrow> ('acc, 'w) forward_state \<Rightarrow> ('acc, 'w) forward_state \<Rightarrow> bool" where
  "released g w w' \<longleftrightarrow> fw_sent w' = fw_sent w \<and> ss_counters (fw_shared w') = ss_counters (fw_shared w) \<and> fw_guards w' \<in> {fw_guards w, g # fw_guards w}
     \<and> (reg_inv (fw_health w, g # fw_guards w) \<longrightarrow> reg_inv (fw_health w', fw_guards w'))"

lemma dropped_is_released: "same_flow w w' \<Longrightarrow> released g w (fw_drop_guard g w')"
  using reg_inv_drop [of "fw_health w'" "[]" g "fw_guards w'"] by (simp add: released_def same_flow_def fw_drop_guard_def)

lemma kept_is_released: "same_flow w w' \<Longrightarrow> released g w (fw_keep_guard g w')"
  by (simp add: released_def same_flow_def fw_keep_guard_def)

lemma flow_then_released: "same_flow w w1 \<Longrightarrow> released g w1 w2 \<Longrightarrow> released g w w2"
  by (simp add: released_def same_flow_def)

lemma released_cache: "released g w w' \<Longrightarrow> released g w (w'\<lparr> fw_cache := c \<rparr>)"
  by (simp add: released_def)

lemma stored_if_built_released:
  "released g w w' \<Longrightarrow> stored_if_built env store status built w' = (r, w'') \<Longrightarrow> released g w w''"
  by (auto simp: stored_if_built_def apply_cache_store_def released_cache split: option.splits prod.splits)

lemma retain_slot_keeps: "retain_connection_slot lid s = Some (slot, s') \<Longrightarrow> ss_counters s' = ss_counters s"
  by (auto simp: retain_connection_slot_def announce_traffic_def mark_snapshot_changed_components_def
      mark_snapshot_changed_components_with_cache_def notify_snapshot_waiters_def mark_traffic_targets_changed_def take_slot_def Let_def
      split: option.splits prod.splits)

lemma pass_on_released:
  assumes "pass_on_response env downstream target pf peer deadline cache g status headers body w = (r, w')"
  shows "released g w w'"
proof -
  have tunnel: "released g w (fw_keep_guard g (w\<lparr> fw_shared := s, fw_tunnels := ts \<rparr>))" if "ss_counters s = ss_counters (fw_shared w)" for s ts
    using that by (simp add: released_def fw_keep_guard_def)
  show ?thesis
    using assms by (auto simp: pass_on_response_def Let_def split: if_splits option.splits
        dest!: retain_slot_keeps intro: dropped_is_released kept_is_released stored_if_built_released [OF tunnel]
        stored_if_built_released [OF kept_is_released [OF same_flow_refl]])
qed

lemma finalize_success_released:
  assumes "finalize_upstream_success env downstream target pf peer deadline cache g status headers body w = (r, w')"
  shows "released g w w'"
proof -
  have cached: "same_flow w (w\<lparr> fw_cache := c \<rparr>)" for c by (simp add: flow_steps)
  show ?thesis
    using assms
    by (auto simp: finalize_upstream_success_def serve_stale_for_status_def split: option.splits if_splits prod.splits
        intro: dropped_is_released [OF cached] pass_on_released flow_then_released [OF cached pass_on_released])
qed

lemma attempt_answered_released:
  assumes "attempt_answered env t downstream target pf peer deadline completion cache g status headers body w = (r, w')"
  shows "released g w w'"
proof -
  obtain x w1 where f: "finalize_streaming_request_body env t completion (pf_request_headers pf) target w = (x, w1)"
    by (cases "finalize_streaming_request_body env t completion (pf_request_headers pf) target w")
  note flow = finalize_streaming_flow [OF f]
  show ?thesis
  proof (cases x)
    case None
    let ?w2 = "fw_record_success target peer (on_shared (record_upstream_completed_response (fe_now_secs env) (pt_upstream_name target))
      (on_shared (record_upstream_peer_success (pt_upstream_name target) (rp_logical_peer_url peer)) w1))"
    have "same_flow w ?w2" by (intro flow_steps flow)
    moreover have "released g ?w2 w'"
      using assms f None by (intro finalize_success_released) (simp add: attempt_answered_def)
    ultimately show ?thesis by (rule flow_then_released)
  next
    case (Some response)
    with assms f flow show ?thesis by (auto simp: attempt_answered_def dropped_is_released)
  qed
qed

lemma start_attempt_facts:
  assumes "start_attempt env target peer sent w = (g, w1)"
  shows "fw_sent w1 = fw_sent w @ [(peer, sent)]" and "fw_guards w1 = fw_guards w"
    and "ss_active_of (fw_shared w1) = ss_active_of (fw_shared w)"
    and "ss_counters (fw_shared w1) = ss_counters (fw_shared w)"
    and "reg_inv (fw_health w, fw_guards w) \<Longrightarrow> length (fw_guards w) + 1 < 2 ^ 64 \<Longrightarrow> reg_inv (fw_health w1, g # fw_guards w1)"
  using assms reg_inv_track [of "fw_health w" "fw_guards w" "pt_upstream_name target" "rp_endpoint_key peer"]
  by (auto simp: start_attempt_def upstream_record_defs on_shared_def split: prod.splits)

section \<open>The loop\<close>

definition responded :: "upstream_turn \<Rightarrow> bool" where
  "responded t \<longleftrightarrow> (case ut_answer t of Responded _ _ _ \<Rightarrow> True | _ \<Rightarrow> False)"

text \<open>The method and the body an attempt sends; a request that may fail over keeps them.\<close>

definition attempt_request :: "prepared_proxy_request \<Rightarrow> http_method \<times> req_event list" where
  "attempt_request p = (pq_method p, case take_request_body p of Some ((body, _), _) \<Rightarrow> body | None \<Rightarrow> [])"

lemma build_for_peer_body:
  assumes "build_for_peer uri_build header_name peer target client proto mode p = Inr (req, p1)"
  shows "(bu_method req, bu_body req) = attempt_request p" and "can_failover p1 \<Longrightarrow> p1 = p"
  using assms
  by (auto simp: build_for_peer_def attempt_request_def take_request_body_def can_failover_def Let_def
      split: sum.splits option.splits prod.splits prepared_request_body.splits if_splits)

text \<open>The requests of a run: the first peers in order, all with the same body, one failure after another.\<close>

definition sends_in_turn ::
    "(nat \<Rightarrow> upstream_turn) \<Rightarrow> nat \<Rightarrow> prepared_proxy_request \<Rightarrow> resolved_upstream_peer list \<Rightarrow>
     (resolved_upstream_peer \<times> http_method \<times> req_event list) list \<Rightarrow> bool" where
  "sends_in_turn turns i p peers sent \<longleftrightarrow> (\<exists>n \<le> length peers. sent = map (\<lambda>q. (q, attempt_request p)) (take n peers)
     \<and> (1 < n \<longrightarrow> can_failover p) \<and> (\<forall>j. Suc j < n \<longrightarrow> \<not> responded (turns (i + j))))"

lemma sends_nothing: "sends_in_turn turns i p peers []"
  by (auto simp: sends_in_turn_def)

lemma sends_once: "sends_in_turn turns i p (peer # rest) [(peer, attempt_request p)]"
  unfolding sends_in_turn_def by (rule exI [of _ 1]) simp

lemma sends_again:
  assumes "sends_in_turn turns (Suc i) p rest sent" and "can_failover p" and "\<not> responded (turns i)"
  shows "sends_in_turn turns i p (peer # rest) ((peer, attempt_request p) # sent)"
proof -
  obtain n where n: "n \<le> length rest" "sent = map (\<lambda>q. (q, attempt_request p)) (take n rest)"
    "\<forall>j. Suc j < n \<longrightarrow> \<not> responded (turns (Suc i + j))"
    using assms(1) by (auto simp: sends_in_turn_def)
  have "\<not> responded (turns (i + j))" if "j < n" for j
    using that n(3) assms(3) by (cases j) auto
  with n(1,2) assms(2) show ?thesis unfolding sends_in_turn_def by (intro exI [of _ "Suc n"]) auto
qed

definition attempts_inv :: "('acc, 'w) forward_state \<Rightarrow> bool" where
  "attempts_inv w \<longleftrightarrow> reg_inv (fw_health w, fw_guards w) \<and> length (fw_guards w) + 1 < 2 ^ 64"

definition run_ok ::
    "(nat \<Rightarrow> upstream_turn) \<Rightarrow> nat \<Rightarrow> prepared_proxy_request \<Rightarrow> resolved_upstream_peer list \<Rightarrow>
     ('acc, 'w) forward_state \<Rightarrow> ('acc, 'w) forward_state \<Rightarrow> bool" where
  "run_ok turns i p peers w w' \<longleftrightarrow>
     (\<exists>sent. fw_sent w' = fw_sent w @ sent \<and> sends_in_turn turns i p peers sent)
     \<and> ss_counters (fw_shared w') = ss_counters (fw_shared w)
     \<and> (attempts_inv w \<longrightarrow> reg_inv (fw_health w', fw_guards w'))
     \<and> (fw_guards w' = fw_guards w \<or> (\<exists>g. fw_guards w' = g # fw_guards w))"

lemma run_ok_flow: "same_flow w w' \<Longrightarrow> run_ok turns i p peers w w'"
  using sends_nothing by (fastforce simp: run_ok_def same_flow_def attempts_inv_def)

lemma run_ok_released:
  assumes "start_attempt env target peer (attempt_request p) w = (g, w1)" and "released g w1 w'"
  shows "run_ok turns i p (peer # rest) w w'"
  using start_attempt_facts [OF assms(1)] assms(2) sends_once
  by (fastforce simp: run_ok_def released_def attempts_inv_def)

lemma run_ok_retry:
  assumes start: "start_attempt env target peer (attempt_request p) w = (g, w1)" and flow: "same_flow w1 w2"
    and run: "run_ok turns (Suc i) p rest (fw_drop_guard g w2) w'" and "can_failover p" and "\<not> responded (turns i)"
  shows "run_ok turns i p (peer # rest) w w'"
proof -
  note s = start_attempt_facts [OF start]
  have d: "fw_sent (fw_drop_guard g w2) = fw_sent w1" "fw_guards (fw_drop_guard g w2) = fw_guards w1"
    "ss_counters (fw_shared (fw_drop_guard g w2)) = ss_counters (fw_shared w1)"
    using flow by (simp_all add: fw_drop_guard_def same_flow_def)
  have "attempts_inv (fw_drop_guard g w2)" if "attempts_inv w"
  proof -
    have "reg_inv (fw_health w2, [] @ g # fw_guards w1)" using s(5) that flow by (simp add: attempts_inv_def same_flow_def)
    from reg_inv_drop [OF this] d(2) s(2) that show ?thesis by (simp add: attempts_inv_def fw_drop_guard_def)
  qed
  moreover obtain sent where "fw_sent w' = fw_sent w1 @ sent" "sends_in_turn turns (Suc i) p rest sent"
    using run d(1) by (auto simp: run_ok_def)
  ultimately show ?thesis
    using run s(1,2,4) d(2,3) sends_again [of turns i p, OF _ assms(4,5)] by (fastforce simp: run_ok_def)
qed

lemma attempt_peers_run_ok:
  "attempt_peers env turns downstream target client pf cache i p peers w = (r, w') \<Longrightarrow> run_ok turns i p peers w w'"
proof (induction peers arbitrary: i p w)
  case Nil
  then have "w' = snd (upstream_unavailable_response env (pf_request_headers pf) target cache w)" by (auto split: prod.splits)
  then show ?case using failure_response_flow(1) [OF same_flow_refl] run_ok_flow by metis
next
  case (Cons peer rest)
  let ?build = "build_for_peer (fe_uri_build env) (fe_header_name env) peer target client (dc_downstream_proto downstream) (pf_grpc_web_mode pf) p"
  show ?case
  proof (cases ?build)
    case (Inl e)
    then have "w' = snd (failed_to_build_request_response env (pf_request_headers pf) target cache w)"
      using Cons.prems by (auto split: prod.splits)
    then show ?thesis using failure_response_flow(2) [OF same_flow_refl] run_ok_flow by metis
  next
    case (Inr reqp)
    then obtain req p1 where b: "?build = Inr (req, p1)" by (cases reqp) auto
    note body = build_for_peer_body [OF b]
    obtain g w1 where st: "start_attempt env target peer (attempt_request p) w = (g, w1)" by fastforce
    note step = Cons.prems [unfolded attempt_peers.simps Let_def b sum.case prod.case body(1) st]
    have retry: "run_ok turns i p (peer # rest) w w'"
      if "can_retry_peer_request p1 (length (pf_peers pf)) i" "same_flow w1 w2" "\<not> responded (turns i)"
        "attempt_peers env turns downstream target client pf cache (Suc i) p1 rest (fw_drop_guard g w2) = (r, w')" for w2
    proof -
      have "can_failover p1" using that(1) by (simp add: can_retry_peer_request_def)
      then have "p1 = p" by (rule body(2))
      with \<open>can_failover p1\<close> that Cons.IH show ?thesis by (blast intro: run_ok_retry [OF st])
    qed
    have drop: "run_ok turns i p (peer # rest) w w'" if "dropping g x = (r, w')" "same_flow w1 (snd x)" for x
      using that run_ok_released [OF st dropped_is_released] by (auto simp: dropping_def)
    show ?thesis
    proof (cases "ut_answer (turns i)")
      case (Responded status headers body)
      with step show ?thesis by (auto intro: run_ok_released [OF st attempt_answered_released])
    next
      case (RequestFailed e)
      have "same_flow w1 (retry_after_failure env (turns i) target peer e w1)" by (intro flow_steps same_flow_refl)
      with RequestFailed step retry drop [OF _ last_request_flow(1)] show ?thesis
        by (auto simp: responded_def split: if_splits)
    next
      case RequestTimedOut
      have "same_flow w1 (retry_after_timeout env (turns i) target peer w1)" by (intro flow_steps same_flow_refl)
      with RequestTimedOut step retry drop [OF _ last_request_flow(2)] show ?thesis
        by (auto simp: responded_def split: if_splits)
    qed
  qed
qed

section \<open>The choice of peers\<close>

lemma ensure_all_inv: "reg_inv (reg, gs) \<Longrightarrow> reg_inv (ensure_all reg name es, gs)"
  unfolding ensure_all_def by (induction es arbitrary: reg) (simp_all add: reg_inv_ensure)

lemma filter_endpoints_inv: "filter_endpoints name now es reg = (av, sk, reg') \<Longrightarrow> reg_inv (reg, gs) \<Longrightarrow> reg_inv (reg', gs)"
  by (induction es arbitrary: reg av sk reg') (auto simp: Let_def reg_inv_ensure split: prod.splits if_splits)

lemma filter_candidates_inv: "filter_candidates name now order es reg = (av, sk, reg') \<Longrightarrow> reg_inv (reg, gs) \<Longrightarrow> reg_inv (reg', gs)"
  by (induction es arbitrary: reg av sk reg') (auto simp: Let_def reg_inv_ensure split: prod.splits if_splits)

lemma collect_batches_inv:
  "collect_batches resolve name now ps reg = (bs, sk, reg') \<Longrightarrow> reg_inv (reg, gs) \<Longrightarrow> reg_inv (reg', gs)"
proof (induction ps arbitrary: reg bs sk reg')
  case (Cons q ps)
  then show ?case
    by (auto simp: Let_def split: prod.splits) (metis ensure_all_inv filter_endpoints_inv)
qed simp

lemma collect_candidates_inv:
  "collect_candidates resolve name now backup ps reg = (cs, sk, reg') \<Longrightarrow> reg_inv (reg, gs) \<Longrightarrow> reg_inv (reg', gs)"
proof (induction ps arbitrary: reg cs sk reg')
  case (Cons q ps)
  then show ?case
    by (cases q) (auto split: prod.splits if_splits, (metis filter_candidates_inv)+)
qed simp

text \<open>What any choice gives: no more peers than asked for, and a registry that counts the same guards.\<close>

definition chosen_ok :: "nat \<Rightarrow> peer_health_registry \<Rightarrow> selected_peers \<Rightarrow> peer_health_registry \<Rightarrow> bool" where
  "chosen_ok limit reg sel reg' \<longleftrightarrow> length (sp_peers sel) \<le> limit \<and> (\<forall>gs. reg_inv (reg, gs) \<longrightarrow> reg_inv (reg', gs))"

lemma chosen_in_pool:
  "select_peers_in_pool resolve reg u now ip limit backup = (sel, reg', u') \<Longrightarrow> chosen_ok limit reg sel reg'"
  by (auto simp: select_peers_in_pool_def select_available_peers_def chosen_ok_def no_peers_def interleave_bound
      split: prod.splits if_splits dest: collect_batches_inv)

lemma chosen_by_least_conn:
  "select_peers_by_least_conn_in_pool resolve reg u now limit backup = (sel, reg') \<Longrightarrow> chosen_ok limit reg sel reg'"
  by (auto simp: select_peers_by_least_conn_in_pool_def chosen_ok_def split: prod.splits dest: collect_candidates_inv)

lemma chosen_twice:
  assumes "chosen_ok limit reg s1 r1" and "chosen_ok n r1 s2 r2" and "sp_peers s1 = [] \<and> n \<le> limit \<or> n \<le> limit - length (sp_peers s1)"
  shows "chosen_ok limit reg (merge_selected_peers s1 s2) r2"
  using assms by (auto simp: chosen_ok_def merge_selected_peers_def)

lemma chosen_none: "chosen_ok limit reg s1 r1 \<Longrightarrow> chosen_ok limit reg no_peers r1"
  by (simp add: chosen_ok_def no_peers_def)

lemma select_by_least_conn_chosen:
  assumes "select_peers_by_least_conn resolve reg u now limit = (sel, reg')"
  shows "chosen_ok limit reg sel reg'"
proof -
  have "chosen_ok limit reg no_peers reg" by (simp add: chosen_ok_def no_peers_def)
  with assms show ?thesis
    by (auto simp: select_peers_by_least_conn_def split: if_splits prod.splits dest!: chosen_by_least_conn intro: chosen_twice)
qed

lemma select_peers_chosen:
  "select_peers resolve reg u now ip limit = (sel, reg', u') \<Longrightarrow> chosen_ok limit reg sel reg'"
  by (auto simp: select_peers_def split: if_splits prod.splits
      dest!: chosen_in_pool dest: select_by_least_conn_chosen intro: chosen_twice chosen_none)

section \<open>Preparation\<close>

lemma finish_preparation_facts:
  assumes "finish_preparation env target client build h p w = (r, w')"
  shows "same_flow w w' \<and> (\<forall>pf. r = Inr pf \<longrightarrow>
     (\<exists>peers. pf = build peers \<and> length peers \<le> (if can_failover p then 2 else 1)))"
proof -
  obtain sel w1 where s: "select_forward_peers env client p w = (sel, w1)" by fastforce
  then obtain health u where "select_peers (fe_resolve env) (fw_health w) (fw_upstream w) (fe_instant env) (ca_client_ip client)
      (if can_failover p then max_failover_attempts else 1) = (sel, health, u)" and w1: "w1 = w\<lparr> fw_health := health, fw_upstream := u \<rparr>"
    by (auto simp: select_forward_peers_def split: prod.splits)
  from select_peers_chosen [OF this(1)] have c: "chosen_ok (if can_failover p then 2 else 1) (fw_health w) sel health"
    by (simp add: max_failover_attempts_def split: if_splits)
  then have "same_flow w w1" by (simp add: same_flow_def w1 chosen_ok_def)
  then have "same_flow w (on_shared (record_upstream_bad_gateway_response (fe_now_secs env) (pt_upstream_name target))
      (on_shared (record_upstream_no_healthy_peers (pt_upstream_name target)) w1))" by (intro flow_steps)
  with \<open>same_flow w w1\<close> c assms s show ?thesis
    by (auto simp: finish_preparation_def chosen_ok_def split: if_splits)
qed

lemma prepare_facts:
  assumes "prepare_forward_request env target client downstream req w = (r, w')"
  shows "same_flow w w'"
    and "r = Inr pf \<Longrightarrow> length (pf_peers pf) \<le> (if can_failover (pf_prepared_request pf) then 2 else 1)
       \<and> pq_method (pf_prepared_request pf) = dr_method req \<and> detect_grpc_web_mode (dr_headers req) = Inr (pf_grpc_web_mode pf)
       \<and> pf_downstream_upgrade pf = is_upgrade_request (dr_version req) (dr_headers req)"
proof -
  let ?w = "on_shared (record_upstream_request (fe_now_secs env) (pt_upstream_name target)) w"
  have start: "same_flow w ?w" by (intro flow_steps same_flow_refl)
  have finish: "same_flow w w2 \<and> (\<forall>pf. x = Inr pf \<longrightarrow> (\<exists>peers. pf = build peers \<and> length peers \<le> (if can_failover p then 2 else 1)))"
    if "finish_preparation env target client build h p ?w = (x, w2)" for build h p x w2
    using finish_preparation_facts [OF that] start same_flow_trans by blast
  show "same_flow w w'"
    using assms finish start
    by (auto simp: prepare_forward_request_def Let_def flow_steps
        split: sum.splits if_splits prepare_request_error.splits)
  show "length (pf_peers pf) \<le> (if can_failover (pf_prepared_request pf) then 2 else 1)
       \<and> pq_method (pf_prepared_request pf) = dr_method req \<and> detect_grpc_web_mode (dr_headers req) = Inr (pf_grpc_web_mode pf)
       \<and> pf_downstream_upgrade pf = is_upgrade_request (dr_version req) (dr_headers req)" if "r = Inr pf"
    using assms that
    by (auto simp: prepare_forward_request_def Let_def from_request_def bind_res_Inr
        split: sum.splits if_splits prepare_request_error.splits dest!: finish)
qed

section \<open>Properties\<close>

lemma resolve_cache_flow: "resolve_forward_cache env downstream request w = (r, w') \<Longrightarrow> same_flow w w'"
  by (auto simp: resolve_forward_cache_def flow_steps split: prod.splits forward_cache_lookup.splits)

lemma run_after_flow: "same_flow w w1 \<Longrightarrow> run_ok turns i p peers w1 w' \<Longrightarrow> run_ok turns i p peers w w'"
  by (auto simp: run_ok_def same_flow_def attempts_inv_def)

lemma forward_request_run:
  assumes "forward_request env turns target client downstream req w = (r, w')"
  shows "\<exists>p peers. run_ok turns 0 p peers w w' \<and> length peers \<le> (if can_failover p then 2 else 1)"
proof -
  obtain c w1 where c: "resolve_forward_cache env downstream (cache_request_of req) w = (c, w1)" by fastforce
  note flow1 = resolve_cache_flow [OF c]
  show ?thesis
  proof (cases c)
    case (Inl response)
    with assms c flow1 show ?thesis
      by (intro exI [of _ undefined] exI [of _ "[]"]) (auto simp: forward_request_def intro: run_ok_flow)
  next
    case (Inr cache)
    obtain x w2 where x: "prepare_forward_request env target client downstream (prepared_for_upstream cache req) w1 = (x, w2)" by fastforce
    have flow2: "same_flow w w2" using same_flow_trans [OF flow1 prepare_facts(1) [OF x]] .
    show ?thesis
    proof (cases x)
      case (Inl response)
      with assms c Inr x flow2 show ?thesis
        by (intro exI [of _ undefined] exI [of _ "[]"]) (auto simp: forward_request_def intro: run_ok_flow)
    next
      case (Inr pf)
      have "run_ok turns 0 (pf_prepared_request pf) (pf_peers pf) w2 w'"
        using assms c \<open>c = Inr cache\<close> x Inr by (intro attempt_peers_run_ok) (simp add: forward_request_def)
      with run_after_flow [OF flow2] prepare_facts(2) [OF x Inr] show ?thesis by blast
    qed
  qed
qed

text \<open>A request to two peers of which the first does not answer, without a cache.\<close>

definition sample_backend :: "unit cache_backend" where
  "sample_backend = \<lparr> cb_lookup = (\<lambda>_ _ _ w. (LookupBypass CsBypass, w)), cb_record_bypass = (\<lambda>_ w. w),
     cb_store_response = (\<lambda>_ r w. (r, w)), cb_complete_not_modified = (\<lambda>_ r w. (Inr r, w)), cb_serve_stale = (\<lambda>_ _ w. (None, w)) \<rparr>"

definition sample_forward_env :: "(string, string, unit) forward_env" where
  "sample_forward_env = \<lparr> fe_base64 = rfc_base64, fe_header_name = (\<lambda>s. Some s), fe_uri_build = (\<lambda>scheme authority pq. Inr pq),
     fe_now_secs = 3, fe_now_ms = 3, fe_instant = 5, fe_resolve = (\<lambda>p. [sample_endpoint p]), fe_client_available = True,
     fe_timed = (\<lambda>_ _ _ evs. evs), fe_backend = sample_backend \<rparr>"

definition sample_downstream :: downstream_context where
  "sample_downstream = \<lparr> dc_listener_id = ''http'', dc_downstream_proto = ''http'', dc_request_id = ''r1'',
     dc_options = \<lparr> do_request_body_read_timeout = None, do_max_request_body_bytes = Some 5, do_request_buffering = BufAuto,
       do_response_buffering = BufAuto, do_streaming_response_idle_timeout = None, do_cache = None \<rparr> \<rparr>"

definition sample_downstream_request :: "http_method \<Rightarrow> downstream_request" where
  "sample_downstream_request m = \<lparr> dr_method = m, dr_version = Http11, dr_uri = \<lparr> uri_path_and_query = Some ''/f'', uri_authority = None \<rparr>,
     dr_headers = [(''host'', ''a.example'')], dr_size_hint = (4, Some 4), dr_body = [ReqFrame (FData ''abcd'')] \<rparr>"

definition sample_forward_state :: "(unit, unit) forward_state" where
  "sample_forward_state = \<lparr> fw_shared = sample_state, fw_health = registry_from_config sample_state_config, fw_upstream = sample_upstream, fw_cache = (),
     fw_sent = [], fw_guards = [], fw_tunnels = [], fw_refreshes = [] \<rparr>"

definition sample_turns :: "nat \<Rightarrow> upstream_turn" where
  "sample_turns i = \<lparr> ut_started = 5, ut_instant = 6, ut_answer = (if i = 0 then RequestTimedOut else Responded 200 [] [EvFrame (FData ''ok'')]),
     ut_relay_gone = False \<rparr>"

text \<open>
  C13.  A request reaches a second peer only when that is safe.  Forwarding sends
  a request at most twice, always with the same method and the same body; it
  is sent a second time only when its method is idempotent and the first peer
  gave no answer.
\<close>

theorem failover_is_safe:
  assumes "forward_request env turns target client downstream req w = (r, w')" and "fw_sent w = []"
  shows "length (fw_sent w') \<le> 2
     \<and> (\<forall>x \<in> set (fw_sent w'). \<forall>y \<in> set (fw_sent w'). snd x = snd y)
     \<and> (1 < length (fw_sent w') \<longrightarrow> (\<forall>x \<in> set (fw_sent w'). is_idempotent_method (fst (snd x))) \<and> \<not> responded (turns 0))"
proof -
  obtain p peers n where run: "fw_sent w' = map (\<lambda>q. (q, attempt_request p)) (take n peers)"
    and len: "n \<le> length peers" "length peers \<le> (if can_failover p then 2 else 1)"
    and again: "1 < n \<longrightarrow> can_failover p" "\<forall>j. Suc j < n \<longrightarrow> \<not> responded (turns j)"
    using forward_request_run [OF assms(1)] assms(2) by (auto simp: run_ok_def sends_in_turn_def)
  have "is_idempotent_method (fst (attempt_request p))" if "1 < n"
    using that again(1) by (simp add: attempt_request_def can_failover_def)
  moreover have "\<not> responded (turns 0)" if "1 < n" using again(2) that by simp
  moreover have "n \<le> 2" using len by (simp split: if_splits)
  ultimately show ?thesis using run len(1) by auto
qed

theorem failover_is_safe_witness:
  "\<exists>r w'. forward_request sample_forward_env sample_turns sample_proxy_target sample_client_address sample_downstream
      (sample_downstream_request ''PUT'') sample_forward_state = (r, w') \<and> length (fw_sent w') \<le> 2"
proof -
  obtain r w' where f: "forward_request sample_forward_env sample_turns sample_proxy_target sample_client_address sample_downstream
      (sample_downstream_request ''PUT'') sample_forward_state = (r, w')" by fastforce
  have "fw_sent sample_forward_state = []" by (simp add: sample_forward_state_def)
  from failover_is_safe [OF f this] f show ?thesis by blast
qed

text \<open>
  C14.  Running requests are counted while they run and no longer.  When the
  registry counts exactly the guards in existence, it does so again after a
  request was forwarded, whatever the peers answered: every attempt that
  failed has given its guard back, and at most one guard is left, which the
  response body or the tunnel holds.
\<close>

theorem forwarding_keeps_active_counts:
  assumes "forward_request env turns target client downstream req w = (r, w')"
    and "reg_inv (fw_health w, fw_guards w)" and "length (fw_guards w) + 1 < 2 ^ 64"
  shows "(\<forall>a. ph_active_requests (reg_heap (fw_health w') a) = guards_at (fw_guards w') a)
     \<and> (fw_guards w' = fw_guards w \<or> (\<exists>g. fw_guards w' = g # fw_guards w))"
  using forward_request_run [OF assms(1)] assms(2,3) by (auto simp: run_ok_def attempts_inv_def reg_inv_def)

theorem forwarding_keeps_active_counts_witness:
  "\<exists>r w'. forward_request sample_forward_env sample_turns sample_proxy_target sample_client_address sample_downstream
      (sample_downstream_request ''PUT'') sample_forward_state = (r, w') \<and> length (fw_guards w') \<le> 1"
proof -
  obtain r w' where f: "forward_request sample_forward_env sample_turns sample_proxy_target sample_client_address sample_downstream
      (sample_downstream_request ''PUT'') sample_forward_state = (r, w')" by fastforce
  have start: "reg_inv (fw_health sample_forward_state, fw_guards sample_forward_state)" "length (fw_guards sample_forward_state) + 1 < 2 ^ 64"
    using reg_inv_start [of sample_state_config False] by (simp_all add: sample_forward_state_def registry_from_config_def)
  have "fw_guards sample_forward_state = []" by (simp add: sample_forward_state_def)
  with forwarding_keeps_active_counts [OF f start] f show ?thesis by auto
qed

section \<open>Every request is answered\<close>

lemma build_with_guard: "build_proxied_response env status headers body name url idle_t deadline mode (Some g) \<noteq> None"
  by (simp add: build_proxied_response_def Let_def split: option.split prod.split)

lemma build_upgrade: "is_upgrade_response status headers \<Longrightarrow> build_proxied_response env status headers body name url idle_t deadline None g \<noteq> None"
  by (simp add: build_proxied_response_def Let_def)

definition answered :: "'r option \<times> 's \<Rightarrow> bool" where
  "answered x \<longleftrightarrow> fst x \<noteq> None"

lemma answered_Some [simp]: "answered (Some r, w)"
  by (simp add: answered_def)

lemma stored_if_built_answers: "built \<noteq> None \<Longrightarrow> answered (stored_if_built env store status built w)"
  by (auto simp: stored_if_built_def split: prod.split)

lemma pass_on_answers:
  assumes "ss_active_of (fw_shared w) (dc_listener_id downstream) \<noteq> None" and "pf_downstream_upgrade pf \<longrightarrow> pf_grpc_web_mode pf = None"
  shows "answered (pass_on_response env downstream target pf peer deadline cache g status headers body w)"
proof (cases "pf_downstream_upgrade pf \<and> is_upgrade_response status headers")
  case True
  with assms show ?thesis
    by (auto simp: pass_on_response_def retain_connection_slot_def Let_def intro!: stored_if_built_answers [OF build_upgrade, of status headers])
next
  case False
  then show ?thesis unfolding pass_on_response_def Let_def by (simp only: if_False stored_if_built_answers [OF build_with_guard])
qed

lemma finalize_success_answers:
  assumes "ss_active_of (fw_shared w) (dc_listener_id downstream) \<noteq> None" and "pf_downstream_upgrade pf \<longrightarrow> pf_grpc_web_mode pf = None"
  shows "answered (finalize_upstream_success env downstream target pf peer deadline cache g status headers body w)"
  using assms
  by (auto simp: finalize_upstream_success_def serve_stale_for_status_def intro!: pass_on_answers split: option.split prod.split)

lemma attempt_answered_answers:
  assumes "ss_active_of (fw_shared w) (dc_listener_id downstream) \<noteq> None" and "pf_downstream_upgrade pf \<longrightarrow> pf_grpc_web_mode pf = None"
  shows "answered (attempt_answered env t downstream target pf peer deadline completion cache g status headers body w)"
proof -
  obtain x w1 where f: "finalize_streaming_request_body env t completion (pf_request_headers pf) target w = (x, w1)" by fastforce
  let ?w2 = "fw_record_success target peer (on_shared (record_upstream_completed_response (fe_now_secs env) (pt_upstream_name target))
      (on_shared (record_upstream_peer_success (pt_upstream_name target) (rp_logical_peer_url peer)) w1))"
  have "same_flow w ?w2" by (intro flow_steps finalize_streaming_flow [OF f])
  then have "ss_active_of (fw_shared ?w2) (dc_listener_id downstream) \<noteq> None" using assms(1) by (simp add: same_flow_def)
  from finalize_success_answers [OF this assms(2)] show ?thesis by (cases x) (simp_all add: attempt_answered_def f)
qed

lemma attempt_peers_answers:
  assumes "ss_active_of (fw_shared w) (dc_listener_id downstream) \<noteq> None" and "pf_downstream_upgrade pf \<longrightarrow> pf_grpc_web_mode pf = None"
  shows "answered (attempt_peers env turns downstream target client pf cache i p peers w)"
  using assms(1)
proof (induction peers arbitrary: i p w)
  case Nil
  then show ?case by (simp split: prod.split)
next
  case (Cons peer rest)
  have flow: "same_flow w1 (retry_after_failure env t target peer e w1)" "same_flow w1 (retry_after_timeout env t target peer w1)" for w1 t e
    by (intro flow_steps same_flow_refl)+
  have served: "ss_active_of (fw_shared w1) (dc_listener_id downstream) \<noteq> None" if "start_attempt env target peer sent w = (g, w1)" for sent g w1
    using start_attempt_facts(3) [OF that] Cons.prems by simp
  have retry: "answered (attempt_peers env turns downstream target client pf cache j q rest (fw_drop_guard g w2))"
    if "start_attempt env target peer sent w = (g, w1)" "same_flow w1 w2" for sent g w1 w2 j q
    using that(2) served [OF that(1)] by (intro Cons.IH) (simp add: fw_drop_guard_def same_flow_def)
  show ?case
    using retry [OF _ flow(1)] retry [OF _ flow(2)] attempt_answered_answers [OF served assms(2)]
    by (auto simp: Let_def dropping_def split: sum.split prod.split upstream_answer.split)
qed

lemma kept_headers:
  assumes "n \<notin> {''range'', ''if-none-match'', ''if-modified-since''}"
  shows "hm_get_all (dr_headers (prepared_for_upstream cache req)) n = hm_get_all (dr_headers req) n"
  using assms
  by (simp add: prepared_for_upstream_def apply_forward_conditional_headers_def apply_upstream_request_headers_def
      apply_upstream_request_method_def apply_conditional_request_headers_def apply_upstream_range_headers_def hm_simps Let_def
      split: option.split)

lemma kept_request_kind:
  "dr_version (prepared_for_upstream cache req) = dr_version req"
  "detect_grpc_web_mode (dr_headers (prepared_for_upstream cache req)) = detect_grpc_web_mode (dr_headers req)"
  "is_upgrade_request v (dr_headers (prepared_for_upstream cache req)) = is_upgrade_request v (dr_headers req)"
proof -
  show "dr_version (prepared_for_upstream cache req) = dr_version req"
    by (simp add: prepared_for_upstream_def apply_forward_conditional_headers_def apply_upstream_request_headers_def
        apply_upstream_request_method_def split: option.split)
  show "detect_grpc_web_mode (dr_headers (prepared_for_upstream cache req)) = detect_grpc_web_mode (dr_headers req)"
    by (simp add: detect_grpc_web_mode_def hm_get_conv kept_headers)
  show "is_upgrade_request v (dr_headers (prepared_for_upstream cache req)) = is_upgrade_request v (dr_headers req)"
    by (simp add: is_upgrade_request_def extract_upgrade_protocol_def connection_header_contains_token_def hm_get_conv kept_headers)
qed

text \<open>
  On a listener that is served, a request that is not at once an upgrade and a
  gRPC-Web call is answered, whatever the cache holds and the peers do.
\<close>

lemma forward_request_answers:
  assumes "ss_active_of (fw_shared w) (dc_listener_id downstream) \<noteq> None"
    and "is_upgrade_request (dr_version req) (dr_headers req) \<longrightarrow> detect_grpc_web_mode (dr_headers req) = Inr None"
  shows "answered (forward_request env turns target client downstream req w)"
proof -
  obtain c w1 where c: "resolve_forward_cache env downstream (cache_request_of req) w = (c, w1)" by fastforce
  have "answered (forward_request env turns target client downstream req w)" if "c = Inr cache" for cache
  proof -
    obtain x w2 where x: "prepare_forward_request env target client downstream (prepared_for_upstream cache req) w1 = (x, w2)" by fastforce
    have "same_flow w w2" using same_flow_trans [OF resolve_cache_flow [OF c] prepare_facts(1) [OF x]] .
    then have "ss_active_of (fw_shared w2) (dc_listener_id downstream) \<noteq> None" using assms(1) by (simp add: same_flow_def)
    moreover have "pf_downstream_upgrade pf \<longrightarrow> pf_grpc_web_mode pf = None" if "x = Inr pf" for pf
      using prepare_facts(2) [OF x that] assms(2) by (simp add: kept_request_kind)
    ultimately show ?thesis
      using c that x attempt_peers_answers by (cases x) (simp_all add: forward_request_def)
  qed
  moreover have "answered (forward_request env turns target client downstream req w)" if "c = Inl response" for response
    using c that by (simp add: forward_request_def)
  ultimately show ?thesis by (cases c) blast+
qed

text \<open>
  The excluded case: the upstream switches protocols for a gRPC-Web call that
  also asks for an upgrade, and the response is built without a guard.
\<close>

lemma grpc_web_upgrade_panics:
  assumes "pf_downstream_upgrade pf" and "pf_grpc_web_mode pf = Some m" and "is_upgrade_response status headers"
  shows "fst (pass_on_response env downstream target pf peer deadline cache g status headers body w) = None"
  using assms
  by (simp add: pass_on_response_def build_proxied_response_def stored_if_built_def Let_def split: option.split prod.split)

end
