(* ===== verification/Dispatch.thy ===== *)
theory Dispatch
  imports Forward_Proofs Router Request_Target Rate_Limit_Shared
begin

text \<open>
  The handler of a request (\<open>handler/dispatch\<close> and \<open>handler/access_log.rs\<close>): the
  request gets an identity, its client and its path are settled, a challenge
  of the certificate authority is answered, and otherwise the virtual host and
  the route are chosen, the checks of the route are made, and the route's
  action is run; every response is finished with the headers of the server and
  counted.  Regular expressions, networks, compressors, the formatter of dates,
  the reasons of status codes and new identities are arguments.
\<close>

section \<open>Responses of the dispatcher\<close>

record ('uri, 'e, 'w) dispatch_env =
  de_forward :: "('uri, 'e, 'w) forward_env"
  de_turns :: "nat \<Rightarrow> upstream_turn"
  de_regex :: "route_regex_matcher \<Rightarrow> string \<Rightarrow> bool"
  de_cidr_contains :: "ip_net \<Rightarrow> ip_addr \<Rightarrow> bool"
  de_compress :: "content_coding \<Rightarrow> string \<Rightarrow> io_error + string"
  de_exact_size :: "response_body \<Rightarrow> nat option"
  de_fmt_http_date :: "nat \<Rightarrow> string"
  de_canonical_reason :: "status_code \<Rightarrow> string option"
  de_new_request_id :: string
  de_hash :: "string \<Rightarrow> ip_addr \<Rightarrow> 64 word"
  de_encode :: doc_encoder
  de_decode :: doc_decoder
  de_lock :: "io_error + unit"
  de_unix_nanos :: nat
  de_elapsed_ms :: nat

text \<open>The date of the last second is kept.\<close>

record cached_http_date =
  hd_unix_epoch_seconds :: nat
  hd_text :: string

definition cached_http_date_new :: "(nat \<Rightarrow> string) \<Rightarrow> nat \<Rightarrow> cached_http_date" where
  "cached_http_date_new fmt secs = \<lparr> hd_unix_epoch_seconds = secs, hd_text = fmt secs \<rparr>"

definition current_http_date :: "(nat \<Rightarrow> string) \<Rightarrow> nat \<Rightarrow> cached_http_date option \<Rightarrow> string \<times> cached_http_date option" where
  "current_http_date fmt secs cache =
     (let c = (case cache of Some d \<Rightarrow> d | None \<Rightarrow> cached_http_date_new fmt secs);
          d = (if hd_unix_epoch_seconds c \<noteq> secs then cached_http_date_new fmt secs else c)
      in (hd_text d, Some d))"

record ('acc, 'w) dispatch_state =
  ds_forward :: "('acc, 'w) forward_state"
  ds_limiters :: rate_limiters
  ds_shm :: shm_space
  ds_date :: "cached_http_date option"

definition with_forward :: "(('acc, 'w) forward_state \<Rightarrow> ('acc, 'w) forward_state) \<Rightarrow> ('acc, 'w) dispatch_state \<Rightarrow> ('acc, 'w) dispatch_state" where
  "with_forward f s = s\<lparr> ds_forward := f (ds_forward s) \<rparr>"

definition ds_record :: "('acc shared_state \<Rightarrow> 'acc shared_state) \<Rightarrow> ('acc, 'w) dispatch_state \<Rightarrow> ('acc, 'w) dispatch_state" where
  "ds_record f = with_forward (on_shared f)"

definition grpc_or :: "base64 \<Rightarrow> header_map \<Rightarrow> grpc_status_code \<Rightarrow> string \<Rightarrow> http_response \<Rightarrow> http_response" where
  "grpc_or b64 request_headers code message other =
     (case grpc_error_response b64 request_headers code message of Some r \<Rightarrow> r | None \<Rightarrow> other)"

definition early_data_rejection_response :: "base64 \<Rightarrow> header_map \<Rightarrow> http_response" where
  "early_data_rejection_response b64 h = grpc_or b64 h GrpcUnavailable ''early data rejected for non-replay-safe route'' too_early_response"

definition route_not_found_response :: "base64 \<Rightarrow> header_map \<Rightarrow> http_response" where
  "route_not_found_response b64 h =
     grpc_or b64 h GrpcUnimplemented ''route not found'' (text_response 404 text_plain (''route not found'' @ newline))"

definition authorize_route ::
    "base64 \<Rightarrow> (ip_net \<Rightarrow> ip_addr \<Rightarrow> bool) \<Rightarrow> header_map \<Rightarrow> route \<Rightarrow> client_address \<Rightarrow> http_response option" where
  "authorize_route b64 cidr_contains request_headers r client =
     (if access_allows cidr_contains (route_access r) (ca_client_ip client) then None
      else Some (grpc_or b64 request_headers GrpcPermissionDenied ''forbidden'' forbidden_response))"

definition enforce_rate_limit ::
    "('uri, 'e, 'w) dispatch_env \<Rightarrow> header_map \<Rightarrow> route \<Rightarrow> string \<Rightarrow> client_address \<Rightarrow> ('acc, 'w) dispatch_state \<Rightarrow>
     http_response option \<times> ('acc, 'w) dispatch_state" where
  "enforce_rate_limit env request_headers r label client s =
     (case rate_limiters_check (de_hash env) (de_encode env) (de_decode env) (de_lock env) (ds_limiters s) (ds_shm s)
             (fe_instant (de_forward env)) (de_unix_nanos env) label (ca_client_ip client) (route_rate r) of
        (allowed, limiters, space) \<Rightarrow>
          (if allowed then None
           else Some (grpc_or (fe_base64 (de_forward env)) request_headers GrpcResourceExhausted ''too many requests'' too_many_requests_response),
           s\<lparr> ds_limiters := limiters, ds_shm := space \<rparr>))"

section \<open>The action of a route\<close>

record listener_request_context =
  lx_listener_id :: string
  lx_tls_enabled :: bool
  lx_request_body_read_timeout :: "duration option"
  lx_max_request_body_bytes :: "nat option"

definition is_redirection :: "status_code \<Rightarrow> bool" where
  "is_redirection status \<longleftrightarrow> 300 \<le> status \<and> status < 400"

definition return_body :: "(status_code \<Rightarrow> string option) \<Rightarrow> return_action \<Rightarrow> string" where
  "return_body canonical_reason a =
     (case ra_body a of
        Some b \<Rightarrow> b
      | None \<Rightarrow>
          (case canonical_reason (ra_status a) of
             Some reason \<Rightarrow> reason @ newline
           | None \<Rightarrow> if is_redirection (ra_status a) then ''Redirect'' @ newline else show_nat (ra_status a) @ newline))"

definition return_response :: "(status_code \<Rightarrow> string option) \<Rightarrow> return_action \<Rightarrow> http_response" where
  "return_response canonical_reason a =
     (let r = text_response (ra_status a) text_plain (return_body canonical_reason a)
      in if is_redirection (ra_status a) \<and> ra_location a \<noteq> []
         then (case header_value_of (ra_location a) of
                 Some location \<Rightarrow> r\<lparr> hr_headers := hm_append (hr_headers r) ''location'' location \<rparr>
               | None \<Rightarrow> r)
         else r)"

definition route_downstream :: "route \<Rightarrow> listener_request_context \<Rightarrow> string \<Rightarrow> downstream_context" where
  "route_downstream r listener request_id =
     \<lparr> dc_listener_id = lx_listener_id listener,
       dc_downstream_proto = (if lx_tls_enabled listener then ''https'' else ''http''), dc_request_id = request_id,
       dc_options = \<lparr> do_request_body_read_timeout = lx_request_body_read_timeout listener,
         do_max_request_body_bytes = lx_max_request_body_bytes listener, do_request_buffering = route_request_buffering r,
         do_response_buffering = route_response_buffering r,
         do_streaming_response_idle_timeout = route_streaming_response_idle_timeout r, do_cache = route_cache r \<rparr> \<rparr>"

definition build_route_response ::
    "('uri, 'e, 'w) dispatch_env \<Rightarrow> downstream_request \<Rightarrow> route \<Rightarrow> listener_request_context \<Rightarrow> client_address \<Rightarrow> string \<Rightarrow>
     ('acc, 'w) dispatch_state \<Rightarrow> http_response option \<times> ('acc, 'w) dispatch_state" where
  "build_route_response env req r listener client request_id s =
     (case route_action_of r of
        Proxy target \<Rightarrow>
          (case forward_request (de_forward env) (de_turns env) target client (route_downstream r listener request_id) req (ds_forward s) of
             (response, w) \<Rightarrow> (response, s\<lparr> ds_forward := w \<rparr>))
      | Return a \<Rightarrow> (Some (return_response (de_canonical_reason env) a), s))"

section \<open>Finishing a response\<close>

definition strip_response_body :: "http_response \<Rightarrow> http_response" where
  "strip_response_body response = response\<lparr> hr_body := full_body [] \<rparr>"

definition response_body_bytes_sent :: "http_method \<Rightarrow> http_response \<Rightarrow> nat option" where
  "response_body_bytes_sent method response =
     (if method = ''HEAD'' then Some 0
      else Option.bind (Option.bind (hm_get (hr_headers response) ''content-length'') to_str) (parse_uint u64_max))"

fun http_version_label :: "http_version \<Rightarrow> string" where
  "http_version_label Http10 = ''HTTP/1.0''"
| "http_version_label Http11 = ''HTTP/1.1''"
| "http_version_label Http2 = ''HTTP/2.0''"
| "http_version_label Http3 = ''HTTP/3.0''"

definition alt_svc_header_value :: "listener \<Rightarrow> http_version \<Rightarrow> string option" where
  "alt_svc_header_value l version =
     (if version = Http3 \<or> \<not> listener_tls_enabled l then None
      else case lst_http3 l of
        None \<Rightarrow> None
      | Some h3 \<Rightarrow>
          if \<not> h3_advertise_alt_svc h3 then None
          else header_value_of (''h3='' @ [CHR 0x22] @ '':'' @ show_nat (snd (h3_listen_addr h3)) @ [CHR 0x22] @ ''; ma=''
                 @ show_nat (h3_alt_svc_max_age h3 div 1000000000)))"

record finalized_downstream_response =
  fd_response :: http_response
  fd_status :: status_code
  fd_body_bytes_sent :: "nat option"
  fd_grpc :: "grpc_observability option"

definition finalize_downstream_response ::
    "('uri, 'e, 'w) dispatch_env \<Rightarrow> http_method \<Rightarrow> header_map \<Rightarrow> response_compression_options \<Rightarrow> string \<Rightarrow> http_response \<Rightarrow>
     grpc_request_metadata option \<Rightarrow> string option \<Rightarrow> string \<Rightarrow> cached_http_date option \<Rightarrow>
     finalized_downstream_response \<times> cached_http_date option" where
  "finalize_downstream_response env method request_headers opts request_id_header response0 grpc_request alt_svc server_header date0 =
     (let grpc = grpc_observability_of grpc_request (hr_headers response0);
          r1 = (if grpc = None \<and> method \<noteq> ''HEAD''
                then maybe_encode_response (de_compress env) (de_exact_size env) method request_headers opts response0 else response0);
          r2 = (if method = ''HEAD'' then strip_response_body r1 else r1);
          h0 = hr_headers r2;
          h1 = (case alt_svc of Some v \<Rightarrow> hm_insert h0 ''alt-svc'' v | None \<Rightarrow> h0)
      in case (if hm_contains h1 ''date'' then (h1, date0)
               else case current_http_date (de_fmt_http_date env) (fe_now_secs (de_forward env)) date0 of
                      (d, date1) \<Rightarrow> (hm_insert h1 ''date'' d, date1)) of
           (h2, date) \<Rightarrow>
             let response = r2\<lparr> hr_headers := hm_insert (hm_insert h2 ''server'' server_header) ''x-request-id'' request_id_header \<rparr>
             in (\<lparr> fd_response = response, fd_status = hr_status response,
                   fd_body_bytes_sent = response_body_bytes_sent method response, fd_grpc = grpc \<rparr>, date))"

section \<open>The access log\<close>

record upstream_access_log =
  ual_upstream_name :: string
  ual_upstream_addr :: string
  ual_upstream_status :: nat
  ual_upstream_response_time_ms :: nat

record access_log_context =
  lg_request_id :: string
  lg_method :: string
  lg_host :: string
  lg_path :: string
  lg_request_version :: http_version
  lg_user_agent :: "string option"
  lg_referer :: "string option"
  lg_client_address :: client_address
  lg_vhost :: string
  lg_route :: string
  lg_status :: nat
  lg_elapsed_ms :: nat
  lg_downstream_scheme :: string
  lg_tls_version :: "string option"
  lg_tls_alpn :: "string option"
  lg_body_bytes_sent :: "nat option"
  lg_tls_client_identity :: "tls_client_identity option"
  lg_cache_status :: "string option"

definition joined_names :: "(tls_client_identity \<Rightarrow> string list) \<Rightarrow> tls_client_identity option \<Rightarrow> string option" where
  "joined_names f identity =
     (let names = (case identity of Some i \<Rightarrow> filter (\<lambda>n. n \<noteq> []) (f i) | None \<Rightarrow> [])
      in if names \<noteq> [] then Some (str_join '','' names) else None)"

definition access_log_values_of ::
    "access_log_context \<Rightarrow> grpc_observability option \<Rightarrow> upstream_access_log option \<Rightarrow> access_log_values" where
  "access_log_values_of c grpc up =
     \<lparr> alv_request_id = lg_request_id c, alv_remote_addr = show_ip (ca_client_ip (lg_client_address c)),
       alv_peer_addr = show_socket_addr (ca_peer_addr (lg_client_address c)), alv_method = lg_method c, alv_host = lg_host c,
       alv_path = lg_path c,
       alv_request = lg_method c @ '' '' @ lg_path c @ '' '' @ http_version_label (lg_request_version c),
       alv_status = lg_status c, alv_body_bytes_sent = lg_body_bytes_sent c, alv_elapsed_ms = lg_elapsed_ms c,
       alv_client_ip_source = client_ip_source_as_str (ca_source (lg_client_address c)), alv_vhost = lg_vhost c,
       alv_route = lg_route c, alv_scheme = lg_downstream_scheme c, alv_http_version = http_version_label (lg_request_version c),
       alv_tls_version = lg_tls_version c, alv_tls_alpn = lg_tls_alpn c, alv_user_agent = lg_user_agent c, alv_referer = lg_referer c,
       alv_tls_client_authenticated = (lg_tls_client_identity c \<noteq> None),
       alv_tls_client_subject = Option.bind (lg_tls_client_identity c) tci_subject,
       alv_tls_client_issuer = Option.bind (lg_tls_client_identity c) tci_issuer,
       alv_tls_client_serial = Option.bind (lg_tls_client_identity c) tci_serial_number,
       alv_tls_client_san_dns_names = joined_names tci_san_dns_names (lg_tls_client_identity c),
       alv_tls_client_chain_length = map_option tci_chain_length (lg_tls_client_identity c),
       alv_tls_client_chain_subjects = joined_names tci_chain_subjects (lg_tls_client_identity c),
       alv_grpc_protocol = map_option go_protocol grpc, alv_grpc_service = map_option go_service grpc,
       alv_grpc_method = map_option go_method grpc, alv_grpc_status = Option.bind grpc go_status,
       alv_grpc_message = Option.bind grpc go_message, alv_cache_status = lg_cache_status c,
       alv_upstream_name = map_option ual_upstream_name up, alv_upstream_addr = map_option ual_upstream_addr up,
       alv_upstream_status = map_option ual_upstream_status up,
       alv_upstream_response_time_ms = map_option ual_upstream_response_time_ms up \<rparr>"

definition render_access_log_line ::
    "access_log_format \<Rightarrow> access_log_context \<Rightarrow> grpc_observability option \<Rightarrow> upstream_access_log option \<Rightarrow> string" where
  "render_access_log_line format c grpc up = access_log_render format (access_log_values_of c grpc up)"

section \<open>The handler\<close>

definition acme_prefix :: string where
  "acme_prefix = ''/.well-known/acme-challenge/''"

definition http01_response :: "'acc shared_state \<Rightarrow> string \<Rightarrow> string option" where
  "http01_response s request_path =
     (case strip_prefix request_path acme_prefix of
        None \<Rightarrow> None
      | Some token \<Rightarrow> if token = [] \<or> CHR ''/'' \<in> set token then None else acme_http01_response token s)"

definition route_match_context_of :: "string \<Rightarrow> grpc_request_metadata option \<Rightarrow> route_match_context" where
  "route_match_context_of request_path grpc =
     \<lparr> ctx_path = request_path, ctx_grpc = map_option (\<lambda>m. \<lparr> gr_service = gq_service m, gr_method = gq_method m \<rparr>) grpc \<rparr>"

definition request_id_of :: "string \<Rightarrow> header_map \<Rightarrow> string" where
  "request_id_of fresh_id headers =
     (case Option.bind (hm_get headers ''x-request-id'') to_str of
        Some v \<Rightarrow> if str_trim v \<noteq> [] then str_trim v else fresh_id
      | None \<Rightarrow> fresh_id)"

text \<open>What the checks of a route let through: the early data, the client, the rate.\<close>

definition respond_for_route ::
    "('uri, 'e, 'w) dispatch_env \<Rightarrow> downstream_request \<Rightarrow> bool \<Rightarrow> header_map \<Rightarrow> route \<Rightarrow> listener_request_context \<Rightarrow> client_address \<Rightarrow> string \<Rightarrow>
     ('acc, 'w) dispatch_state \<Rightarrow> http_response option \<times> ('acc, 'w) dispatch_state" where
  "respond_for_route env req early_data request_headers r listener client request_id s =
     (let b64 = fe_base64 (de_forward env); id = lx_listener_id listener
      in if early_data \<and> \<not> route_allow_early_data r
         then (Some (early_data_rejection_response b64 request_headers), ds_record (record_http3_early_data_rejected_request id) s)
         else case authorize_route b64 (de_cidr_contains env) request_headers r client of
           Some response \<Rightarrow> (Some response, ds_record (record_route_access_denied (route_id r)) s)
         | None \<Rightarrow>
             (case enforce_rate_limit env request_headers r (route_id r) client s of
                (Some response, s1) \<Rightarrow> (Some response, ds_record (record_route_rate_limited (route_id r)) s1)
              | (None, s1) \<Rightarrow>
                  build_route_response env req r listener client request_id
                    (if early_data then ds_record (record_http3_early_data_accepted_request id) s1 else s1)))"

definition respond ::
    "('uri, 'e, 'w) dispatch_env \<Rightarrow> downstream_request \<Rightarrow> bool \<Rightarrow> header_map \<Rightarrow> route option \<Rightarrow> listener_request_context \<Rightarrow> client_address \<Rightarrow>
     string \<Rightarrow> ('acc, 'w) dispatch_state \<Rightarrow> http_response option \<times> ('acc, 'w) dispatch_state" where
  "respond env req early_data request_headers selected listener client request_id s =
     (case selected of
        Some r \<Rightarrow> respond_for_route env req early_data request_headers r listener client request_id s
      | None \<Rightarrow> (Some (route_not_found_response (fe_base64 (de_forward env)) request_headers), s))"

record handled =
  hq_response :: http_response
  hq_grpc :: "grpc_observability option"
  hq_log :: "access_log_context option"

text \<open>The counters of a request that is not a challenge.\<close>

definition count_dispatched ::
    "nat \<Rightarrow> listener \<Rightarrow> string \<Rightarrow> string \<Rightarrow> string option \<Rightarrow> bool \<Rightarrow> grpc_request_metadata option \<Rightarrow>
     ('acc, 'w) dispatch_state \<Rightarrow> ('acc, 'w) dispatch_state" where
  "count_dispatched now l listener_id vhost_id route_key authenticated grpc s =
     (let s1 = ds_record (record_downstream_request now listener_id vhost_id route_key) s;
          s2 = (if Option.bind (srv_tls (lst_server l)) st_client_auth \<noteq> None
                then ds_record (record_mtls_request listener_id authenticated) s1 else s1)
      in case grpc of
           Some g \<Rightarrow> ds_record (record_grpc_request now listener_id vhost_id route_key (gq_protocol g)) s2
         | None \<Rightarrow> s2)"

text \<open>The end of the handler: the response is finished, counted and logged.\<close>

definition finish_request ::
    "('uri, 'e, 'w) dispatch_env \<Rightarrow> downstream_request \<Rightarrow> connection_peer_addrs \<Rightarrow> listener \<Rightarrow> string \<Rightarrow> client_address \<Rightarrow> string \<Rightarrow>
     grpc_request_metadata option \<Rightarrow> string \<Rightarrow> route option \<Rightarrow> http_response \<Rightarrow> ('acc, 'w) dispatch_state \<Rightarrow> handled \<times> ('acc, 'w) dispatch_state" where
  "finish_request env req conn l listener_id client request_id grpc_request vhost_id selected response s =
     (case finalize_downstream_response env (dr_method req) (dr_headers req)
             (case selected of Some r \<Rightarrow> compression_for_route r | None \<Rightarrow> default_compression_options) request_id response grpc_request
             (alt_svc_header_value l (dr_version req)) (srv_server_header (lst_server l)) (ds_date s) of
        (fin, date) \<Rightarrow>
          let s1 = ds_record (record_downstream_response (fe_now_secs (de_forward env)) listener_id vhost_id
                     (map_option route_id selected) (fd_status fin)) (s\<lparr> ds_date := date \<rparr>);
              log = \<lparr> lg_request_id = request_id, lg_method = dr_method req,
                lg_host = request_host (dr_headers req) (uri_authority (dr_uri req)),
                lg_path = raw_request_target (uri_path_of (dr_uri req)) (uri_path_and_query (dr_uri req)),
                lg_request_version = dr_version req, lg_user_agent = trimmed_header (dr_headers req) ''user-agent'',
                lg_referer = trimmed_header (dr_headers req) ''referer'', lg_client_address = client, lg_vhost = vhost_id,
                lg_route = (case selected of Some r \<Rightarrow> route_id r | None \<Rightarrow> ''__unmatched__''), lg_status = fd_status fin,
                lg_elapsed_ms = de_elapsed_ms env, lg_downstream_scheme = (if listener_tls_enabled l then ''https'' else ''http''),
                lg_tls_version = cpa_tls_version conn, lg_tls_alpn = cpa_tls_alpn conn, lg_body_bytes_sent = fd_body_bytes_sent fin,
                lg_tls_client_identity = cpa_tls_client_identity conn,
                lg_cache_status = Option.bind (hm_get (hr_headers (fd_response fin)) ''x-cache'') to_str \<rparr>
          in (\<lparr> hq_response = fd_response fin, hq_grpc = fd_grpc fin, hq_log = Some log \<rparr>, s1))"

definition handle ::
    "('uri, 'e, 'w) dispatch_env \<Rightarrow> downstream_request \<Rightarrow> connection_peer_addrs \<Rightarrow> string \<Rightarrow> ('acc, 'w) dispatch_state \<Rightarrow>
     handled option \<times> ('acc, 'w) dispatch_state" where
  "handle env req conn listener_id s =
     (let shared = fw_shared (ds_forward s); config = ss_config shared; now = fe_now_secs (de_forward env); headers = dr_headers req
      in case (case snapshot_listener config listener_id of Some l \<Rightarrow> Some l | None \<Rightarrow> current_listener shared listener_id) of
           None \<Rightarrow> (None, s)
         | Some l \<Rightarrow>
             let request_id = request_id_of (de_new_request_id env) headers
             in case header_value_of request_id of
                  None \<Rightarrow> (None, s)
                | Some request_id_header \<Rightarrow>
                    let req1 = req\<lparr> dr_headers := hm_insert headers ''x-request-id'' request_id_header \<rparr>;
                        request_path = nrt_path (normalize_request_target (uri_path_of (dr_uri req)) (uri_query_of (dr_uri req)));
                        grpc_request = grpc_request_metadata_of headers request_path;
                        client = resolve_client_address (de_cidr_contains env) (dr_headers req1) (lst_server l) conn
                    in (case http01_response shared request_path of
                          Some challenge \<Rightarrow>
                            (case finalize_downstream_response env (dr_method req) headers default_compression_options request_id_header
                                    (text_response 200 text_plain challenge) grpc_request (alt_svc_header_value l (dr_version req))
                                    (srv_server_header (lst_server l)) (ds_date s) of
                               (fin, date) \<Rightarrow>
                                 (Some \<lparr> hq_response = fd_response fin, hq_grpc = None, hq_log = None \<rparr>, s\<lparr> ds_date := date \<rparr>))
                        | None \<Rightarrow>
                            let vhost = select_vhost_for_request (cs_vhosts config) (cs_default_vhost config) (dr_headers req1) (uri_authority (dr_uri req));
                                selected = select_route_in_vhost_with_context (de_regex env) vhost (route_match_context_of request_path grpc_request);
                                listener_context = \<lparr> lx_listener_id = listener_id, lx_tls_enabled = listener_tls_enabled l,
                                  lx_request_body_read_timeout = srv_request_body_read_timeout (lst_server l),
                                  lx_max_request_body_bytes = srv_max_request_body_bytes (lst_server l) \<rparr>;
                                s1 = count_dispatched now l listener_id (vh_id vhost) (map_option route_id selected)
                                       (cpa_tls_client_identity conn \<noteq> None) grpc_request s
                            in (case respond env req1 (cpa_early_data conn) headers selected listener_context client request_id s1 of
                                  (None, s2) \<Rightarrow> (None, s2)
                                | (Some response, s2) \<Rightarrow>
                                    (case finish_request env req conn l listener_id client request_id grpc_request (vh_id vhost) selected response s2 of
                                       (h, s3) \<Rightarrow> (Some h, s3)))))"

end
