(* ===== verification/Dispatch_Proofs.thy ===== *)
theory Dispatch_Proofs
  imports Dispatch
begin

text \<open>
  What the dispatcher guarantees from the listener to the peer: which requests
  reach an upstream, what every response carries, how requests are counted,
  and that every request is handled.
\<close>

section \<open>What a request is\<close>

text \<open>The listener, the path, the client and the route of a request, as the properties name them.\<close>

definition request_listener :: "'acc shared_state \<Rightarrow> string \<Rightarrow> listener option" where
  "request_listener s listener_id =
     (case snapshot_listener (ss_config s) listener_id of Some l \<Rightarrow> Some l | None \<Rightarrow> current_listener s listener_id)"

definition routed_path :: "downstream_request \<Rightarrow> string" where
  "routed_path req = nrt_path (normalize_request_target (uri_path_of (dr_uri req)) (uri_query_of (dr_uri req)))"

definition request_grpc :: "downstream_request \<Rightarrow> grpc_request_metadata option" where
  "request_grpc req = grpc_request_metadata_of (dr_headers req) (routed_path req)"

definition request_vhost :: "config_snapshot \<Rightarrow> downstream_request \<Rightarrow> virtual_host" where
  "request_vhost config req =
     select_vhost_for_request (cs_vhosts config) (cs_default_vhost config) (dr_headers req) (uri_authority (dr_uri req))"

definition request_route :: "('uri, 'e, 'w) dispatch_env \<Rightarrow> config_snapshot \<Rightarrow> downstream_request \<Rightarrow> route option" where
  "request_route env config req =
     select_route_in_vhost_with_context (de_regex env) (request_vhost config req) (route_match_context_of (routed_path req) (request_grpc req))"

definition request_client :: "('uri, 'e, 'w) dispatch_env \<Rightarrow> downstream_request \<Rightarrow> connection_peer_addrs \<Rightarrow> listener \<Rightarrow> client_address" where
  "request_client env req conn l = resolve_client_address (de_cidr_contains env) (dr_headers req) (lst_server l) conn"

definition request_rate_ok :: "('uri, 'e, 'w) dispatch_env \<Rightarrow> route \<Rightarrow> ip_addr \<Rightarrow> ('acc, 'w) dispatch_state \<Rightarrow> bool" where
  "request_rate_ok env r ip s \<longleftrightarrow> fst (rate_limiters_check (de_hash env) (de_encode env) (de_decode env) (de_lock env)
     (ds_limiters s) (ds_shm s) (fe_instant (de_forward env)) (de_unix_nanos env) (route_id r) ip (route_rate r))"

text \<open>The identity that is added does not change what the request is; no client address is read from it.\<close>

definition identified :: "string \<Rightarrow> downstream_request \<Rightarrow> downstream_request" where
  "identified v req = req\<lparr> dr_headers := hm_insert (dr_headers req) ''x-request-id'' v \<rparr>"

lemma identified_sel [simp]:
  "dr_method (identified v req) = dr_method req" "dr_version (identified v req) = dr_version req" "dr_uri (identified v req) = dr_uri req"
  "dr_headers (identified v req) = hm_insert (dr_headers req) ''x-request-id'' v"
  by (simp_all add: identified_def)

lemma identified_headers: "n \<noteq> ''x-request-id'' \<Longrightarrow> hm_get_all (dr_headers (identified v req)) n = hm_get_all (dr_headers req) n"
  by (simp add: hm_simps)

lemma identified_host: "request_host (hm_insert h ''x-request-id'' v) a = request_host h a"
  by (simp add: request_host_def hm_simps)

section \<open>The state of a dispatch\<close>

lemma ds_record_sel [simp]:
  "ds_forward (ds_record f s) = on_shared f (ds_forward s)" "ds_limiters (ds_record f s) = ds_limiters s"
  "ds_shm (ds_record f s) = ds_shm s" "ds_date (ds_record f s) = ds_date s"
  by (simp_all add: ds_record_def with_forward_def)

lemma count_dispatched_keeps [simp]:
  "ds_limiters (count_dispatched now l lid vid k a g s) = ds_limiters s" "ds_shm (count_dispatched now l lid vid k a g s) = ds_shm s"
  by (simp_all add: count_dispatched_def Let_def split: option.split)

lemma enforce_rate_limit_facts:
  assumes "enforce_rate_limit env h r (route_id r) client s = (x, s1)"
  shows "x = None \<longleftrightarrow> request_rate_ok env r (ca_client_ip client) s" and "ds_forward s1 = ds_forward s"
  using assms by (auto simp: enforce_rate_limit_def request_rate_ok_def split: prod.splits if_splits)

text \<open>Nothing but counters changes.\<close>

definition untouched :: "('acc, 'w) forward_state \<Rightarrow> ('acc, 'w) forward_state \<Rightarrow> bool" where
  "untouched w w' \<longleftrightarrow> fw_sent w' = fw_sent w \<and> fw_cache w' = fw_cache w \<and> fw_health w' = fw_health w \<and> fw_guards w' = fw_guards w
     \<and> fw_upstream w' = fw_upstream w \<and> fw_refreshes w' = fw_refreshes w"

lemma untouched_simps [simp]:
  "untouched w w" "untouched w (on_shared f w') = untouched w w'" "untouched (on_shared f w) w' = untouched w w'"
  by (simp_all add: untouched_def on_shared_def)

lemma count_dispatched_untouched [simp]:
  "untouched w (ds_forward (count_dispatched now l lid vid k a g s)) = untouched w (ds_forward s)"
  "untouched (ds_forward (count_dispatched now l lid vid k a g s)) w = untouched (ds_forward s) w"
  by (simp_all add: count_dispatched_def Let_def split: option.split)

text \<open>What a route asks of a request before its action is run.\<close>

definition admitted :: "('uri, 'e, 'w) dispatch_env \<Rightarrow> route \<Rightarrow> bool \<Rightarrow> ip_addr \<Rightarrow> ('acc, 'w) dispatch_state \<Rightarrow> bool" where
  "admitted env r early ip s \<longleftrightarrow> (early \<longrightarrow> route_allow_early_data r)
     \<and> access_allows (de_cidr_contains env) (route_access r) ip \<and> request_rate_ok env r ip s"

lemma admitted_counted [simp]: "admitted env r early ip (count_dispatched now l lid vid k a g s) = admitted env r early ip s"
  by (simp add: admitted_def request_rate_ok_def)

lemma respond_untouched:
  assumes "respond env req early h selected listener client request_id s = (x, s')"
    and "\<And>r. selected = Some r \<Longrightarrow> \<not> admitted env r early (ca_client_ip client) s"
  shows "untouched (ds_forward s) (ds_forward s')"
proof (cases selected)
  case None
  with assms(1) show ?thesis by (auto simp: respond_def)
next
  case (Some r)
  obtain y s1 where e: "enforce_rate_limit env h r (route_id r) client s = (y, s1)" by fastforce
  note rate = enforce_rate_limit_facts [OF e]
  show ?thesis
    using assms(1) assms(2) [OF Some] rate
    by (auto simp: Some respond_def respond_for_route_def authorize_route_def admitted_def e Let_def split: if_splits option.splits)
qed

lemma finish_request_untouched:
  "finish_request env req conn l lid client request_id grpc vid selected response s = (h, s') \<Longrightarrow>
     untouched w (ds_forward s') = untouched w (ds_forward s)"
  by (auto simp: finish_request_def Let_def split: prod.splits)

lemma identified_request [simp]:
  "routed_path (identified v req) = routed_path req" "request_grpc (identified v req) = request_grpc req"
  "request_vhost c (identified v req) = request_vhost c req" "request_route env c (identified v req) = request_route env c req"
proof -
  show path: "routed_path (identified v req) = routed_path req" by (simp add: routed_path_def)
  show grpc: "request_grpc (identified v req) = request_grpc req"
    by (simp add: request_grpc_def path grpc_request_metadata_of_def grpc_protocol_def trimmed_header_def hm_simps)
  show vhost: "request_vhost c (identified v req) = request_vhost c req"
    by (simp add: request_vhost_def select_vhost_for_request_def identified_host)
  show "request_route env c (identified v req) = request_route env c req"
    by (simp add: request_route_def path grpc vhost)
qed

text \<open>The three ways through the handler: a panic before anything is done, a challenge, a request that is routed.\<close>

lemma handle_cases:
  assumes "handle env req conn listener_id s = (h, s')"
  obtains (dropped) "h = None" "s' = s" "request_listener (fw_shared (ds_forward s)) listener_id = None
        \<or> header_value_of (request_id_of (de_new_request_id env) (dr_headers req)) = None"
    | (challenge) l fin date token where
        "request_listener (fw_shared (ds_forward s)) listener_id = Some l"
        "finalize_downstream_response env (dr_method req) (dr_headers req) default_compression_options
           (request_id_of (de_new_request_id env) (dr_headers req)) (text_response 200 text_plain token) (request_grpc req)
           (alt_svc_header_value l (dr_version req)) (srv_server_header (lst_server l)) (ds_date s) = (fin, date)"
        "h = Some \<lparr> hq_response = fd_response fin, hq_grpc = None, hq_log = None \<rparr>" "ds_forward s' = ds_forward s"
    | (routed) l v s1 x s2 listener where
        "request_listener (fw_shared (ds_forward s)) listener_id = Some l"
        "v = request_id_of (de_new_request_id env) (dr_headers req)" "lx_listener_id listener = listener_id"
        "s1 = count_dispatched (fe_now_secs (de_forward env)) l listener_id (vh_id (request_vhost (ss_config (fw_shared (ds_forward s))) req))
           (map_option route_id (request_route env (ss_config (fw_shared (ds_forward s))) req))
           (cpa_tls_client_identity conn \<noteq> None) (request_grpc req) s"
        "respond env (identified v req) (cpa_early_data conn) (dr_headers req)
           (request_route env (ss_config (fw_shared (ds_forward s))) req) listener (request_client env (identified v req) conn l) v s1 = (x, s2)"
        "x = None \<Longrightarrow> h = None \<and> s' = s2"
        "\<And>response. x = Some response \<Longrightarrow> \<exists>hh. h = Some hh \<and>
           finish_request env req conn l listener_id (request_client env (identified v req) conn l) v
             (request_grpc req) (vh_id (request_vhost (ss_config (fw_shared (ds_forward s))) req))
             (request_route env (ss_config (fw_shared (ds_forward s))) req) response s2 = (hh, s')"
proof -
  let ?shared = "fw_shared (ds_forward s)" and ?v = "request_id_of (de_new_request_id env) (dr_headers req)"
  show thesis
  proof (cases "request_listener ?shared listener_id")
    case None
    with assms show thesis by (auto simp: handle_def Let_def request_listener_def intro: dropped split: option.splits)
  next
    case (Some l)
    note handle' = assms [unfolded handle_def Let_def, folded request_listener_def, unfolded Some option.case]
    show thesis
    proof (cases "header_value_of ?v")
      case None
      with handle' show thesis by (auto intro: dropped)
    next
      case (Some v)
      then have v: "v = ?v" by (simp add: header_value_of_def split: if_splits)
      note h1 = handle' [unfolded Some option.case, folded identified_def, unfolded v,
          folded routed_path_def, folded request_grpc_def request_client_def]
      show thesis
      proof (cases "http01_response ?shared (routed_path req)")
        case (Some token)
        with h1 \<open>request_listener ?shared listener_id = Some l\<close> show thesis
          by (auto intro: challenge split: prod.splits)
      next
        case None
        note vh = request_vhost_def [of "ss_config ?shared" "identified ?v req", unfolded identified_sel(3), symmetric]
        note rt = request_route_def [of env "ss_config ?shared" req, symmetric]
        obtain x s2 where r: "respond env (identified ?v req) (cpa_early_data conn) (dr_headers req)
           (request_route env (ss_config ?shared) req)
           \<lparr> lx_listener_id = listener_id, lx_tls_enabled = listener_tls_enabled l,
             lx_request_body_read_timeout = srv_request_body_read_timeout (lst_server l),
             lx_max_request_body_bytes = srv_max_request_body_bytes (lst_server l) \<rparr>
           (request_client env (identified ?v req) conn l) ?v
           (count_dispatched (fe_now_secs (de_forward env)) l listener_id (vh_id (request_vhost (ss_config ?shared) req))
             (map_option route_id (request_route env (ss_config ?shared) req)) (cpa_tls_client_identity conn \<noteq> None) (request_grpc req) s)
           = (x, s2)" by fastforce
        note h2 = h1 [unfolded None option.case vh identified_request rt r prod.case]
        show thesis
          by (rule routed [OF \<open>request_listener ?shared listener_id = Some l\<close> refl _ refl r]) (use h2 in \<open>auto split: prod.splits\<close>)
      qed
    qed
  qed
qed

section \<open>No request is lost\<close>

lemma announce_traffic_keeps [simp]:
  "ss_counters (announce_traffic a b l v r s) = ss_counters s" "ss_active_of (announce_traffic a b l v r s) = ss_active_of s"
  by (simp_all add: announce_traffic_def mark_snapshot_changed_components_def mark_snapshot_changed_components_with_cache_def
      notify_snapshot_waiters_def mark_traffic_targets_changed_def Let_def split: prod.split)

lemma on_traffic_keeps [simp]:
  "ss_counters (on_listener l f s) = ss_counters s" "ss_active_of (on_listener l f s) = ss_active_of s"
  "ss_counters (on_vhost v g s) = ss_counters s" "ss_active_of (on_vhost v g s) = ss_active_of s"
  "ss_counters (on_route r h s) = ss_counters s" "ss_active_of (on_route r h s) = ss_active_of s"
  "ss_counters (on_counters k s) = k (ss_counters s)" "ss_active_of (on_counters k s) = ss_active_of s"
  by (simp_all add: on_listener_def on_vhost_def on_route_def on_counters_def split: option.split)

lemmas traffic_record_defs = record_downstream_request_def record_mtls_request_def record_downstream_response_def
  record_route_access_denied_def record_route_rate_limited_def record_grpc_request_def record_http3_early_data_accepted_request_def
  record_http3_early_data_rejected_request_def

lemma count_dispatched_counts:
  "hc_requests (ss_counters (fw_shared (ds_forward (count_dispatched now l lid vid k a g s)))) = inc (hc_requests (ss_counters (fw_shared (ds_forward s))))"
  "hc_responses (ss_counters (fw_shared (ds_forward (count_dispatched now l lid vid k a g s)))) = hc_responses (ss_counters (fw_shared (ds_forward s)))"
  "ss_active_of (fw_shared (ds_forward (count_dispatched now l lid vid k a g s))) = ss_active_of (fw_shared (ds_forward s))"
  by (simp_all add: count_dispatched_def traffic_record_defs Let_def split: option.split)

lemma header_visible_byte: "header_visible c \<Longrightarrow> header_value_byte c"
  by (auto simp: header_visible_def header_value_byte_def)

lemma set_str_trim: "set (str_trim v) \<subseteq> set v"
  by (auto simp: str_trim_def dest!: set_dropWhileD)

lemma request_id_is_header:
  assumes "header_value_of fresh_id \<noteq> None"
  shows "header_value_of (request_id_of fresh_id h) \<noteq> None"
proof -
  have "list_all header_value_byte (str_trim v)" if "to_str v \<noteq> None" for v
    using that set_str_trim [of v] header_visible_byte by (auto simp: to_str_def list_all_iff split: if_splits)
  then show ?thesis using assms
    by (auto simp: request_id_of_def header_value_of_def bind_eq_Some_conv split: option.splits if_splits)
qed

lemma identified_kind [simp]:
  "detect_grpc_web_mode (hm_insert h ''x-request-id'' v) = detect_grpc_web_mode h"
  "is_upgrade_request ver (hm_insert h ''x-request-id'' v) = is_upgrade_request ver h"
  by (simp_all add: detect_grpc_web_mode_def is_upgrade_request_def extract_upgrade_protocol_def connection_header_contains_token_def hm_simps)

lemma respond_answers:
  assumes "respond env (identified v req) early h selected listener client request_id s = (x, s')"
    and "ss_active_of (fw_shared (ds_forward s)) (lx_listener_id listener) \<noteq> None"
    and "is_upgrade_request (dr_version req) (dr_headers req) \<longrightarrow> detect_grpc_web_mode (dr_headers req) = Inr None"
  shows "x \<noteq> None"
proof (cases selected)
  case None
  with assms show ?thesis by (auto simp: respond_def)
next
  case (Some r)
  have build: "y \<noteq> None"
    if "build_route_response env (identified v req) r listener client request_id s1 = (y, s2)"
      "ss_active_of (fw_shared (ds_forward s1)) = ss_active_of (fw_shared (ds_forward s))" for y s1 s2
  proof (cases "route_action_of r")
    case (Proxy target)
    have "answered (forward_request (de_forward env) (de_turns env) target client (route_downstream r listener request_id) (identified v req) (ds_forward s1))"
      using that(2) assms(2,3) by (intro forward_request_answers) (simp_all add: route_downstream_def)
    then show ?thesis using that(1) Proxy by (auto simp: build_route_response_def answered_def split: prod.splits)
  next
    case (Return a)
    then show ?thesis using that(1) by (auto simp: build_route_response_def)
  qed
  obtain y s1 where e: "enforce_rate_limit env h r (route_id r) client s = (y, s1)" by fastforce
  show ?thesis
    using assms(1) enforce_rate_limit_facts(2) [OF e] build
    by (fastforce simp: Some respond_def respond_for_route_def e Let_def traffic_record_defs split: if_splits option.splits)
qed

lemma handle_answers:
  assumes "request_listener (fw_shared (ds_forward s)) listener_id \<noteq> None"
    and "ss_active_of (fw_shared (ds_forward s)) listener_id \<noteq> None"
    and "header_value_of (de_new_request_id env) \<noteq> None"
    and "is_upgrade_request (dr_version req) (dr_headers req) \<longrightarrow> detect_grpc_web_mode (dr_headers req) = Inr None"
  shows "\<exists>hh s'. handle env req conn listener_id s = (Some hh, s')"
proof -
  obtain h s' where h: "handle env req conn listener_id s = (h, s')" by fastforce
  then have "h \<noteq> None"
  proof (cases rule: handle_cases)
    case dropped
    then show ?thesis using assms(1) request_id_is_header [OF assms(3)] by blast
  next
    case challenge
    then show ?thesis by simp
  next
    case (routed l v s1 x s2 listener)
    have "x \<noteq> None"
      using assms(2) routed(3,4) by (intro respond_answers [OF routed(5) _ assms(4)]) (simp add: count_dispatched_counts)
    then show ?thesis using routed(7) by auto
  qed
  with h show ?thesis by auto
qed

section \<open>A listener whose only route denies every client\<close>

definition denied_route :: route where
  "denied_route = (sample_route ''r'' (MPrefix ''/''))\<lparr> route_action_of := Proxy sample_proxy_target,
     route_access := \<lparr> ac_allow_cidrs = [], ac_deny_cidrs = [\<lparr> net_addr = V4 0, net_prefix_len = 0 \<rparr>] \<rparr> \<rparr>"

definition denied_config :: config_snapshot where
  "denied_config = sample_state_config\<lparr> cs_default_vhost := \<lparr> vh_id = ''server'', vh_server_names = [], vh_routes = [denied_route], vh_tls = None \<rparr> \<rparr>"

definition sample_dispatch_env :: "(string, string, unit) dispatch_env" where
  "sample_dispatch_env = \<lparr> de_forward = sample_forward_env, de_turns = sample_turns, de_regex = (\<lambda>_ _. False), de_cidr_contains = (\<lambda>_ _. True),
     de_compress = (\<lambda>_ b. Inr b), de_exact_size = (\<lambda>_. None), de_fmt_http_date = (\<lambda>_. ''Thu, 01 Jan 1970 00:00:00 GMT''),
     de_canonical_reason = (\<lambda>_. None), de_new_request_id = ''id'', de_hash = (\<lambda>_ _. 0), de_encode = (\<lambda>_. None), de_decode = (\<lambda>_. None),
     de_lock = Inr (), de_unix_nanos = 7, de_elapsed_ms = 1 \<rparr>"

definition sample_connection :: connection_peer_addrs where
  "sample_connection = \<lparr> cpa_socket_peer_addr = (V4 9, 1000), cpa_proxy_protocol_source_addr = None, cpa_tls_client_identity = None,
     cpa_tls_version = None, cpa_tls_alpn = None, cpa_early_data = False \<rparr>"

definition sample_dispatch_state :: "(unit, unit) dispatch_state" where
  "sample_dispatch_state = \<lparr> ds_forward = sample_forward_state\<lparr> fw_shared := shared_state_new denied_config (\<lambda>_. None) \<rparr>,
     ds_limiters = \<lparr> rls_local = limiters_with_config 1 1000 0, rls_shared = None \<rparr>, ds_shm = (\<lambda>_. None), ds_date = None \<rparr>"

lemma sample_dispatch_config [simp]: "ss_config (fw_shared (ds_forward sample_dispatch_state)) = denied_config"
  unfolding sample_dispatch_state_def shared_state_new_def sync_listener_active_connections_def
  by (simp add: denied_config_def sample_state_config_def split: prod.split)

lemma sample_dispatch_served:
  "request_listener (fw_shared (ds_forward sample_dispatch_state)) ''http'' = Some sample_listener"
  "ss_active_of (fw_shared (ds_forward sample_dispatch_state)) ''http'' \<noteq> None"
proof -
  show "request_listener (fw_shared (ds_forward sample_dispatch_state)) ''http'' = Some sample_listener"
    by (simp add: request_listener_def snapshot_listener_def denied_config_def sample_state_config_def sample_listener_def)
  show "ss_active_of (fw_shared (ds_forward sample_dispatch_state)) ''http'' \<noteq> None"
    by (simp add: sample_dispatch_state_def shared_state_new_def sync_listener_active_connections_def denied_config_def
        sample_state_config_def sample_listener_def split: prod.split)
qed

lemma denied_route_selected: "request_route env denied_config req = Some r \<Longrightarrow> r = denied_route"
  by (auto simp: request_route_def request_vhost_def select_vhost_for_request_def select_vhost_def denied_config_def sample_state_config_def
      select_route_in_vhost_with_context_def select_route_with_context_def scan_step_def select_more_specific_def candidate_new_def
      denied_route_def sample_route_def split: if_splits)

lemma sample_handled:
  "\<exists>hh s'. handle sample_dispatch_env (sample_downstream_request ''GET'') sample_connection ''http'' sample_dispatch_state = (Some hh, s')"
proof (rule handle_answers)
  show "is_upgrade_request (dr_version (sample_downstream_request ''GET'')) (dr_headers (sample_downstream_request ''GET'')) \<longrightarrow>
      detect_grpc_web_mode (dr_headers (sample_downstream_request ''GET'')) = Inr None"
    by (simp add: sample_downstream_request_def is_upgrade_request_def extract_upgrade_protocol_def connection_header_contains_token_def
        hm_get_all_def)
  show "header_value_of (de_new_request_id sample_dispatch_env) \<noteq> None" by code_simp
qed (simp_all add: sample_dispatch_served)

section \<open>Only admitted requests go on\<close>

text \<open>
  C9.  A request that its route does not admit goes no further.  Unless a route
  matches the normalised path on the virtual host of the request, and that
  route accepts early data if the request came so, allows the client's
  address, and its rate limit admits the client, the request reaches neither the
  cache nor a peer: nothing is sent, and the cache, the health of the peers
  and the running requests stay as they were.
\<close>

theorem rejected_requests_go_no_further:
  assumes "handle env req conn listener_id s = (h, s')"
    and "\<And>l r. request_listener (fw_shared (ds_forward s)) listener_id = Some l \<Longrightarrow>
       request_route env (ss_config (fw_shared (ds_forward s))) req = Some r \<Longrightarrow>
       \<not> admitted env r (cpa_early_data conn)
           (ca_client_ip (request_client env (identified (request_id_of (de_new_request_id env) (dr_headers req)) req) conn l)) s"
  shows "untouched (ds_forward s) (ds_forward s')"
  using assms(1)
proof (cases rule: handle_cases)
  case dropped
  then show ?thesis by simp
next
  case challenge
  then show ?thesis by simp
next
  case (routed l v s1 x s2 listener)
  have "untouched (ds_forward s1) (ds_forward s2)"
    using routed(1,2,4) assms(2) by (intro respond_untouched [OF routed(5)]) auto
  then have "untouched (ds_forward s) (ds_forward s2)" using routed(4) by simp
  then show ?thesis using routed(6,7) by (cases x) (auto dest: finish_request_untouched)
qed

theorem rejected_requests_go_no_further_witness:
  "\<exists>h s'. handle sample_dispatch_env (sample_downstream_request ''GET'') sample_connection ''http'' sample_dispatch_state = (h, s')
     \<and> untouched (ds_forward sample_dispatch_state) (ds_forward s')"
proof -
  obtain h s' where h: "handle sample_dispatch_env (sample_downstream_request ''GET'') sample_connection ''http'' sample_dispatch_state = (h, s')"
    by fastforce
  have "untouched (ds_forward sample_dispatch_state) (ds_forward s')"
  proof (rule rejected_requests_go_no_further [OF h])
    fix l r
    assume "request_route sample_dispatch_env (ss_config (fw_shared (ds_forward sample_dispatch_state))) (sample_downstream_request ''GET'') = Some r"
    then have "r = denied_route" using denied_route_selected by simp
    then show "\<not> admitted sample_dispatch_env r (cpa_early_data sample_connection) (ca_client_ip (request_client sample_dispatch_env
        (identified (request_id_of (de_new_request_id sample_dispatch_env) (dr_headers (sample_downstream_request ''GET'')))
           (sample_downstream_request ''GET'')) sample_connection l)) sample_dispatch_state"
      by (simp add: admitted_def access_allows_def denied_route_def sample_dispatch_env_def)
  qed
  with h show ?thesis by blast
qed

section \<open>What every response carries\<close>

lemma finalize_marks:
  assumes "finalize_downstream_response env method h opts id_header response grpc alt_svc server date = (fin, date')"
  shows "hm_get (hr_headers (fd_response fin)) ''server'' = Some server"
    and "hm_get (hr_headers (fd_response fin)) ''x-request-id'' = Some id_header"
    and "hm_contains (hr_headers (fd_response fin)) ''date''"
    and "method = ''HEAD'' \<Longrightarrow> hr_body (fd_response fin) = full_body [] \<and> fd_body_bytes_sent fin = Some 0"
    and "fd_status fin = hr_status (fd_response fin)"
  using assms
  by (auto simp: finalize_downstream_response_def Let_def hm_simps strip_response_body_def response_body_bytes_sent_def
      split: if_splits prod.splits option.splits)

lemma finish_request_facts:
  assumes "finish_request env req conn l lid client request_id grpc vid selected response s = (hh, s')"
  shows "\<exists>fin date. finalize_downstream_response env (dr_method req) (dr_headers req)
       (case selected of Some r \<Rightarrow> compression_for_route r | None \<Rightarrow> default_compression_options) request_id response grpc
       (alt_svc_header_value l (dr_version req)) (srv_server_header (lst_server l)) (ds_date s) = (fin, date)
     \<and> hq_response hh = fd_response fin \<and> (\<exists>log. hq_log hh = Some log \<and> lg_status log = hr_status (hq_response hh)
          \<and> lg_request_id log = request_id \<and> lg_client_address log = client)
     \<and> fw_shared (ds_forward s') = record_downstream_response (fe_now_secs (de_forward env)) lid vid (map_option route_id selected)
          (hr_status (hq_response hh)) (fw_shared (ds_forward s))"
  using assms by (auto simp: finish_request_def Let_def finalize_marks(5) split: prod.splits)

text \<open>
  C12.  Every response is marked.  Whatever produced it, a response names the
  server as its listener is configured, carries the identity of the request,
  which is the one the client sent if it sent one, and a date; the response to
  a HEAD request has no body; and the log of the request has the status and the
  identity that the client sees.
\<close>

theorem every_response_is_marked:
  assumes "handle env req conn listener_id s = (Some hh, s')" and "request_listener (fw_shared (ds_forward s)) listener_id = Some l"
  shows "hm_get (hr_headers (hq_response hh)) ''server'' = Some (srv_server_header (lst_server l))
     \<and> hm_get (hr_headers (hq_response hh)) ''x-request-id'' = Some (request_id_of (de_new_request_id env) (dr_headers req))
     \<and> hm_contains (hr_headers (hq_response hh)) ''date''
     \<and> (dr_method req = ''HEAD'' \<longrightarrow> hr_body (hq_response hh) = full_body [])
     \<and> (\<forall>log. hq_log hh = Some log \<longrightarrow> lg_status log = hr_status (hq_response hh)
          \<and> lg_request_id log = request_id_of (de_new_request_id env) (dr_headers req))"
  using assms(1)
proof (cases rule: handle_cases)
  case dropped
  then show ?thesis by simp
next
  case (challenge l' fin date token)
  then show ?thesis using assms(2) finalize_marks [OF challenge(2)] by auto
next
  case (routed l' v s1 x s2 listener)
  then obtain response where "x = Some response" using routed(6) by (cases x) auto
  with routed(7) have "finish_request env req conn l' listener_id (request_client env (identified v req) conn l') v
             (request_grpc req) (vh_id (request_vhost (ss_config (fw_shared (ds_forward s))) req))
             (request_route env (ss_config (fw_shared (ds_forward s))) req) response s2 = (hh, s')" by auto
  from finish_request_facts [OF this] obtain fin date log
    where fin: "finalize_downstream_response env (dr_method req) (dr_headers req)
       (case request_route env (ss_config (fw_shared (ds_forward s))) req of Some r \<Rightarrow> compression_for_route r | None \<Rightarrow> default_compression_options)
       v response (request_grpc req) (alt_svc_header_value l' (dr_version req)) (srv_server_header (lst_server l')) (ds_date s2) = (fin, date)"
      and hh: "hq_response hh = fd_response fin" "hq_log hh = Some log" "lg_status log = hr_status (hq_response hh)" "lg_request_id log = v"
    by blast
  have "l' = l" using routed(1) assms(2) by simp
  with finalize_marks [OF fin] hh routed(2) show ?thesis by auto
qed

theorem every_response_is_marked_witness:
  "\<exists>hh s'. handle sample_dispatch_env (sample_downstream_request ''GET'') sample_connection ''http'' sample_dispatch_state = (Some hh, s')
     \<and> hm_get (hr_headers (hq_response hh)) ''server'' = Some default_server_header
     \<and> hm_get (hr_headers (hq_response hh)) ''x-request-id'' = Some ''id''"
proof -
  obtain hh s' where h: "handle sample_dispatch_env (sample_downstream_request ''GET'') sample_connection ''http'' sample_dispatch_state = (Some hh, s')"
    using sample_handled by blast
  have "request_id_of (de_new_request_id sample_dispatch_env) (dr_headers (sample_downstream_request ''GET'')) = ''id''"
    by (simp add: request_id_of_def sample_downstream_request_def sample_dispatch_env_def hm_get_def hm_get_all_def)
  with every_response_is_marked [OF h sample_dispatch_served(1)] h show ?thesis
    by (auto simp: sample_listener_def)
qed

section \<open>How requests are counted\<close>

lemma forward_keeps_counters:
  "forward_request env turns target client downstream req w = (r, w') \<Longrightarrow> ss_counters (fw_shared w') = ss_counters (fw_shared w)"
  using forward_request_run by (force simp: run_ok_def)

lemma build_route_response_counts:
  "build_route_response env req r listener client request_id s = (x, s') \<Longrightarrow> ss_counters (fw_shared (ds_forward s')) = ss_counters (fw_shared (ds_forward s))"
  by (auto simp: build_route_response_def forward_keeps_counters split: route_action.splits prod.splits)

lemma respond_counts:
  assumes "respond env req early h selected listener client request_id s = (x, s')"
  shows "hc_requests (ss_counters (fw_shared (ds_forward s'))) = hc_requests (ss_counters (fw_shared (ds_forward s)))
     \<and> hc_responses (ss_counters (fw_shared (ds_forward s'))) = hc_responses (ss_counters (fw_shared (ds_forward s)))"
proof (cases selected)
  case None
  with assms show ?thesis by (auto simp: respond_def)
next
  case (Some r)
  obtain y s1 where e: "enforce_rate_limit env h r (route_id r) client s = (y, s1)" by fastforce
  show ?thesis
    using assms enforce_rate_limit_facts(2) [OF e]
    by (auto simp: Some respond_def respond_for_route_def e Let_def traffic_record_defs
        split: if_splits option.splits dest!: build_route_response_counts)
qed

text \<open>
  C11.  Requests and responses are counted once, with the status the client
  sees.  Of a request that is handled, the total of requests grows by one and
  the total of responses by one of the final status, whatever the route did and
  however many peers were tried; the answer to a challenge of the
  certificate authority is not counted.
\<close>

theorem requests_are_counted_once:
  assumes "handle env req conn listener_id s = (Some hh, s')"
  shows "if hq_log hh = None then ss_counters (fw_shared (ds_forward s')) = ss_counters (fw_shared (ds_forward s))
     else hc_requests (ss_counters (fw_shared (ds_forward s'))) = inc (hc_requests (ss_counters (fw_shared (ds_forward s))))
       \<and> hc_responses (ss_counters (fw_shared (ds_forward s')))
           = response_record (hr_status (hq_response hh)) (hc_responses (ss_counters (fw_shared (ds_forward s))))"
  using assms
proof (cases rule: handle_cases)
  case dropped
  then show ?thesis by simp
next
  case (challenge l fin date token)
  then show ?thesis by simp
next
  case (routed l v s1 x s2 listener)
  then obtain response where "x = Some response" using routed(6) by (cases x) auto
  with routed(7) have "finish_request env req conn l listener_id (request_client env (identified v req) conn l) v
             (request_grpc req) (vh_id (request_vhost (ss_config (fw_shared (ds_forward s))) req))
             (request_route env (ss_config (fw_shared (ds_forward s))) req) response s2 = (hh, s')" by auto
  from finish_request_facts [OF this] respond_counts [OF routed(5)] routed(4) show ?thesis
    by (auto simp: count_dispatched_counts record_downstream_response_def)
qed

theorem requests_are_counted_once_witness:
  "\<exists>hh s'. handle sample_dispatch_env (sample_downstream_request ''GET'') sample_connection ''http'' sample_dispatch_state = (Some hh, s')
     \<and> (if hq_log hh = None then ss_counters (fw_shared (ds_forward s')) = ss_counters (fw_shared (ds_forward sample_dispatch_state))
        else hc_requests (ss_counters (fw_shared (ds_forward s'))) = inc (hc_requests (ss_counters (fw_shared (ds_forward sample_dispatch_state)))))"
proof -
  obtain hh s' where h: "handle sample_dispatch_env (sample_downstream_request ''GET'') sample_connection ''http'' sample_dispatch_state = (Some hh, s')"
    using sample_handled by blast
  with requests_are_counted_once [OF h] show ?thesis by (auto split: if_splits)
qed

section \<open>Every request is handled\<close>



end
