(* ===== verification/Config_Upstream.thy ===== *)
theory Config_Upstream
  imports Upstream_Select
begin

text \<open>
  Upstreams in the configuration (\<open>rginx-config\<close>: \<open>model/upstream.rs\<close>,
  \<open>validate/upstream\<close>, \<open>compile/upstream\<close>): what the file says, the checks, and
  the upstreams the proxy runs with.  An error is its message.  The parsers of
  other crates (URIs, paths with queries, TLS server names) and the file system
  are arguments; where they fail they give the text of their error.
\<close>

section \<open>Checks\<close>

definition ensure :: "bool \<Rightarrow> string \<Rightarrow> string + unit" where
  "ensure ok message = (if ok then Inr () else Inl message)"

definition and_then :: "string + unit \<Rightarrow> string + 'a \<Rightarrow> string + 'a" where
  "and_then a b = bind_res a (\<lambda>_. b)"

fun for_each :: "('a \<Rightarrow> string + unit) \<Rightarrow> 'a list \<Rightarrow> string + unit" where
  "for_each f [] = Inr ()"
| "for_each f (x # xs) = and_then (f x) (for_each f xs)"

fun collect_res :: "('a \<Rightarrow> string + 'b) \<Rightarrow> 'a list \<Rightarrow> string + 'b list" where
  "collect_res f [] = Inr []"
| "collect_res f (x # xs) = bind_res (f x) (\<lambda>y. bind_res (collect_res f xs) (\<lambda>ys. Inr (y # ys)))"

fun transpose_res :: "(string + 'a) option \<Rightarrow> string + 'a option" where
  "transpose_res None = Inr None"
| "transpose_res (Some (Inl e)) = Inl e"
| "transpose_res (Some (Inr x)) = Inr (Some x)"

lemma ensure_Inr [simp]: "ensure ok m = Inr u \<longleftrightarrow> ok"
  by (simp add: ensure_def)

lemma and_then_Inr [simp]: "and_then a b = Inr x \<longleftrightarrow> a = Inr () \<and> b = Inr x"
  by (cases a) (simp_all add: and_then_def)

lemma for_each_Inr [simp]: "for_each f xs = Inr u \<longleftrightarrow> (\<forall>x \<in> set xs. f x = Inr ())"
  by (induction xs) auto

lemma collect_res_Inr: "collect_res f xs = Inr ys \<longleftrightarrow> list_all2 (\<lambda>x y. f x = Inr y) xs ys"
  by (induction xs arbitrary: ys) (auto simp: bind_res_Inr list_all2_Cons1)

lemma transpose_res_Inr: "transpose_res r = Inr y \<longleftrightarrow> r = map_option Inr y"
  by (cases r rule: transpose_res.cases; cases y) auto

definition unwrap_or :: "'a option \<Rightarrow> 'a \<Rightarrow> 'a" where
  "unwrap_or x d = (case x of Some v \<Rightarrow> v | None \<Rightarrow> d)"

definition or_else :: "'a option \<Rightarrow> 'a option \<Rightarrow> 'a option" where
  "or_else x y = (case x of Some _ \<Rightarrow> x | None \<Rightarrow> y)"

abbreviation quoted :: "string \<Rightarrow> string" where
  "quoted s \<equiv> ''`'' @ s @ ''`''"

section \<open>The configuration of an upstream\<close>

datatype tls_version_config = CfgTls12 | CfgTls13

datatype upstream_tls_mode_config = CfgNativeRoots | CfgCustomCa string | CfgInsecure

record upstream_tls_config =
  utc_verify :: upstream_tls_mode_config
  utc_versions :: "tls_version_config list option"
  utc_verify_depth :: "nat option"
  utc_crl_path :: "string option"
  utc_client_cert_path :: "string option"
  utc_client_key_path :: "string option"

record upstream_dns_config =
  udc_resolver_addrs :: "string list"
  udc_min_ttl_secs :: "nat option"
  udc_max_ttl_secs :: "nat option"
  udc_negative_ttl_secs :: "nat option"
  udc_stale_if_error_secs :: "nat option"
  udc_refresh_before_expiry_secs :: "nat option"
  udc_prefer_ipv4 :: "bool option"
  udc_prefer_ipv6 :: "bool option"

record upstream_peer_config =
  upc_url :: string
  upc_weight :: nat
  upc_backup :: bool
  upc_max_conns :: "nat option"

datatype upstream_protocol_config = CfgAuto | CfgHttp1 | CfgHttp2 | CfgH2c | CfgHttp3

datatype upstream_load_balance_config = CfgRoundRobin | CfgIpHash | CfgLeastConn

record upstream_config =
  uc_name :: string
  uc_peers :: "upstream_peer_config list"
  uc_tls :: "upstream_tls_config option"
  uc_dns :: "upstream_dns_config option"
  uc_protocol :: upstream_protocol_config
  uc_load_balance :: upstream_load_balance_config
  uc_server_name :: "bool option"
  uc_server_name_override :: "string option"
  uc_request_timeout_secs :: "nat option"
  uc_connect_timeout_secs :: "nat option"
  uc_read_timeout_secs :: "nat option"
  uc_write_timeout_secs :: "nat option"
  uc_idle_timeout_secs :: "nat option"
  uc_pool_idle_timeout_secs :: "nat option"
  uc_pool_max_idle_per_host :: "nat option"
  uc_tcp_keepalive_secs :: "nat option"
  uc_tcp_nodelay :: "bool option"
  uc_http2_keep_alive_interval_secs :: "nat option"
  uc_http2_keep_alive_timeout_secs :: "nat option"
  uc_http2_keep_alive_while_idle :: "bool option"
  uc_max_replayable_request_body_bytes :: "nat option"
  uc_unhealthy_after_failures :: "nat option"
  uc_unhealthy_cooldown_secs :: "nat option"
  uc_health_check_path :: "string option"
  uc_health_check_grpc_service :: "string option"
  uc_health_check_interval_secs :: "nat option"
  uc_health_check_timeout_secs :: "nat option"
  uc_healthy_successes_required :: "nat option"

text \<open>What a URI parser tells; the path of a URI without one is empty.\<close>

record parsed_uri =
  pu_scheme :: "string option"
  pu_authority :: "string option"
  pu_path :: string
  pu_query :: "string option"

record config_env =
  cf_parse_uri :: "string \<Rightarrow> string + parsed_uri"
  cf_parse_path_and_query :: "string \<Rightarrow> string + unit"
  cf_parse_server_name :: "string \<Rightarrow> string + unit"
  cf_is_file :: "path_buf \<Rightarrow> bool"

definition parse_addr_res :: "string \<Rightarrow> string + socket_addr" where
  "parse_addr_res s = (case parse_socket_addr s of Some a \<Rightarrow> Inr a | None \<Rightarrow> Inl ''invalid socket address syntax'')"

definition default_grpc_health_check_path :: string where
  "default_grpc_health_check_path = ''/grpc.health.v1.Health/Check''"

section \<open>Validation\<close>

definition blank :: "string \<Rightarrow> bool" where
  "blank s \<longleftrightarrow> str_trim s = []"

definition upstream_error :: "string \<Rightarrow> string \<Rightarrow> string" where
  "upstream_error name rest = ''upstream '' @ quoted name @ '' '' @ rest"

definition validate_peer :: "upstream_config \<Rightarrow> upstream_peer_config \<Rightarrow> string + unit" where
  "validate_peer u p =
     and_then (ensure (\<not> blank (upc_url p)) (upstream_error (uc_name u) ''contains an empty peer url''))
    (and_then (ensure (upc_weight p \<noteq> 0) (upstream_error (uc_name u) (''peer '' @ quoted (upc_url p) @ '' weight must be greater than 0'')))
       (ensure (upc_max_conns p \<noteq> Some 0) (upstream_error (uc_name u) (''peer '' @ quoted (upc_url p) @ '' max_conns must be greater than 0''))))"

definition validate_upstream_name_and_peers :: "string set \<Rightarrow> upstream_config \<Rightarrow> string + string set" where
  "validate_upstream_name_and_peers names u =
     and_then (ensure (\<not> blank (uc_name u)) ''upstream name must not be empty'')
    (and_then (ensure (uc_name u \<notin> names) (''duplicate upstream '' @ quoted (uc_name u)))
    (and_then (ensure (uc_peers u \<noteq> []) (upstream_error (uc_name u) ''must define at least one peer''))
    (and_then (for_each (validate_peer u) (uc_peers u)) (Inr (insert (uc_name u) names)))))"

definition zero :: "nat option \<Rightarrow> bool" where
  "zero v \<longleftrightarrow> v = Some 0"

definition blank_opt :: "string option \<Rightarrow> bool" where
  "blank_opt v \<longleftrightarrow> (case v of Some s \<Rightarrow> blank s | None \<Rightarrow> False)"

definition validate_server_name_override :: "upstream_config \<Rightarrow> string + unit" where
  "validate_server_name_override u =
     ensure (\<not> blank_opt (uc_server_name_override u)) (upstream_error (uc_name u) ''server_name_override must not be empty'')"

definition validate_nonzero :: "string \<Rightarrow> string \<times> nat option \<Rightarrow> string + unit" where
  "validate_nonzero name field = ensure (\<not> zero (snd field)) (upstream_error name (fst field @ '' must be greater than 0''))"

definition validate_dns_settings :: "upstream_config \<Rightarrow> string + unit" where
  "validate_dns_settings u =
     (case uc_dns u of
        None \<Rightarrow> Inr ()
      | Some dns \<Rightarrow>
          and_then (for_each (\<lambda>addr.
              and_then (ensure (\<not> blank addr) (upstream_error (uc_name u) ''dns.resolver_addrs must not contain blank entries''))
                (case parse_addr_res addr of
                   Inr _ \<Rightarrow> Inr ()
                 | Inl e \<Rightarrow> Inl (upstream_error (uc_name u) (''dns.resolver_addrs entry '' @ quoted addr @ '' is invalid: '' @ e))))
              (udc_resolver_addrs dns))
         (and_then (for_each (validate_nonzero (uc_name u))
              [(''dns.min_ttl_secs'', udc_min_ttl_secs dns), (''dns.max_ttl_secs'', udc_max_ttl_secs dns),
               (''dns.negative_ttl_secs'', udc_negative_ttl_secs dns), (''dns.stale_if_error_secs'', udc_stale_if_error_secs dns),
               (''dns.refresh_before_expiry_secs'', udc_refresh_before_expiry_secs dns)])
         (and_then (ensure (\<not> (unwrap_or (udc_prefer_ipv4 dns) False \<and> unwrap_or (udc_prefer_ipv6 dns) False))
              (upstream_error (uc_name u) ''dns.prefer_ipv4 and dns.prefer_ipv6 cannot both be true''))
            (ensure (case (udc_min_ttl_secs dns, udc_max_ttl_secs dns) of (Some lo, Some hi) \<Rightarrow> lo \<le> hi | _ \<Rightarrow> True)
              (upstream_error (uc_name u) ''dns.min_ttl_secs must be less than or equal to dns.max_ttl_secs'')))))"

definition protocol_name :: "upstream_protocol_config \<Rightarrow> string" where
  "protocol_name p = (case p of CfgHttp2 \<Rightarrow> ''Http2'' | _ \<Rightarrow> ''Http3'')"

definition validate_peer_protocol :: "config_env \<Rightarrow> upstream_config \<Rightarrow> upstream_peer_config \<Rightarrow> string + unit" where
  "validate_peer_protocol env u p =
     (case cf_parse_uri env (upc_url p) of
        Inl e \<Rightarrow> Inl (upstream_error (uc_name u) (''peer url '' @ quoted (upc_url p) @ '' is not a valid URI: '' @ e))
      | Inr uri \<Rightarrow>
          if uc_protocol u = CfgHttp2 \<or> uc_protocol u = CfgHttp3
          then ensure (pu_scheme uri = Some ''https'') (upstream_error (uc_name u) (''protocol '' @ quoted (protocol_name (uc_protocol u))
                 @ '' currently requires all peers to use `https://`; cleartext upstreams are not supported''))
          else if uc_protocol u = CfgH2c
          then ensure (pu_scheme uri = Some ''http'') (upstream_error (uc_name u) ''protocol `H2c` requires all peers to use `http://`'')
          else Inr ())"

definition validate_protocol_requirements :: "config_env \<Rightarrow> upstream_config \<Rightarrow> string + unit" where
  "validate_protocol_requirements env u = for_each (validate_peer_protocol env u) (uc_peers u)"

definition validate_upstream_tls_versions :: "string \<Rightarrow> tls_version_config list option \<Rightarrow> string + unit" where
  "validate_upstream_tls_versions name versions =
     (case versions of
        None \<Rightarrow> Inr ()
      | Some vs \<Rightarrow>
          and_then (ensure (vs \<noteq> []) (upstream_error name ''TLS versions must not be empty''))
            (ensure (distinct vs) (upstream_error name ''TLS versions must not contain duplicates'')))"

definition validate_upstream_tls_settings :: "upstream_config \<Rightarrow> string + unit" where
  "validate_upstream_tls_settings u =
     (case uc_tls u of
        None \<Rightarrow> Inr ()
      | Some tls \<Rightarrow>
          let name = uc_name u
          in and_then (ensure (case utc_verify tls of CfgCustomCa ca \<Rightarrow> \<not> blank ca | _ \<Rightarrow> True) (upstream_error name ''custom CA path must not be empty''))
            (and_then (validate_upstream_tls_versions name (utc_versions tls))
            (and_then (ensure (\<not> zero (utc_verify_depth tls)) (upstream_error name ''verify_depth must be greater than 0''))
            (and_then (ensure (\<not> blank_opt (utc_crl_path tls)) (upstream_error name ''crl_path must not be empty''))
            (and_then (ensure (\<not> (utc_verify tls = CfgInsecure \<and> (utc_verify_depth tls \<noteq> None \<or> utc_crl_path tls \<noteq> None)))
                (upstream_error name ''verify_depth and crl_path require certificate verification to remain enabled''))
              (case (utc_client_cert_path tls, utc_client_key_path tls) of
                 (Some cert, Some key) \<Rightarrow>
                   and_then (ensure (\<not> blank cert) (upstream_error name ''client_cert_path must not be empty''))
                     (ensure (\<not> blank key) (upstream_error name ''client_key_path must not be empty''))
               | (None, None) \<Rightarrow> Inr ()
               | _ \<Rightarrow> Inl (upstream_error name ''mTLS identity requires both client_cert_path and client_key_path'')))))))"

definition validate_timeout_and_tuning :: "upstream_config \<Rightarrow> string + unit" where
  "validate_timeout_and_tuning u =
     (let name = uc_name u
      in and_then (for_each (validate_nonzero name)
           [(''request_timeout_secs'', uc_request_timeout_secs u), (''connect_timeout_secs'', uc_connect_timeout_secs u),
            (''read_timeout_secs'', uc_read_timeout_secs u), (''write_timeout_secs'', uc_write_timeout_secs u),
            (''idle_timeout_secs'', uc_idle_timeout_secs u), (''tcp_keepalive_secs'', uc_tcp_keepalive_secs u),
            (''http2_keep_alive_interval_secs'', uc_http2_keep_alive_interval_secs u),
            (''http2_keep_alive_timeout_secs'', uc_http2_keep_alive_timeout_secs u)])
        (and_then (ensure (\<not> (uc_http2_keep_alive_interval_secs u = None
              \<and> (uc_http2_keep_alive_timeout_secs u \<noteq> None \<or> uc_http2_keep_alive_while_idle u \<noteq> None)))
            (upstream_error name ''http2_keep_alive_timeout_secs and http2_keep_alive_while_idle require http2_keep_alive_interval_secs to be set''))
        (for_each (validate_nonzero name)
           [(''max_replayable_request_body_bytes'', uc_max_replayable_request_body_bytes u),
            (''unhealthy_after_failures'', uc_unhealthy_after_failures u), (''unhealthy_cooldown_secs'', uc_unhealthy_cooldown_secs u)])))"

definition validate_health_path :: "config_env \<Rightarrow> upstream_config \<Rightarrow> string + unit" where
  "validate_health_path env u =
     (case uc_health_check_path u of
        None \<Rightarrow> Inr ()
      | Some path \<Rightarrow>
          and_then (ensure (\<not> blank path) (upstream_error (uc_name u) ''health_check_path must not be empty''))
         (and_then (ensure (str_starts_with path ''/'') (upstream_error (uc_name u) ''health_check_path must start with `/`''))
           (case cf_parse_path_and_query env path of
              Inr _ \<Rightarrow> Inr ()
            | Inl e \<Rightarrow> Inl (upstream_error (uc_name u) (''health_check_path '' @ quoted path @ '' is invalid: '' @ e)))))"

definition peer_has_scheme :: "config_env \<Rightarrow> string \<Rightarrow> upstream_peer_config \<Rightarrow> bool" where
  "peer_has_scheme env scheme p \<longleftrightarrow> (case cf_parse_uri env (upc_url p) of Inr uri \<Rightarrow> pu_scheme uri = Some scheme | Inl _ \<Rightarrow> False)"

definition validate_grpc_health :: "config_env \<Rightarrow> upstream_config \<Rightarrow> string + unit" where
  "validate_grpc_health env u =
     (case uc_health_check_grpc_service u of
        None \<Rightarrow> Inr ()
      | Some service \<Rightarrow>
          let name = uc_name u; required_scheme = (if uc_protocol u = CfgH2c then ''http'' else ''https'')
          in and_then (ensure (\<not> (service \<noteq> [] \<and> blank service)) (upstream_error name ''health_check_grpc_service must not be blank''))
            (and_then (ensure (CHR ''/'' \<notin> set service) (upstream_error name ''health_check_grpc_service must not contain `/`''))
            (and_then (ensure (case uc_health_check_path u of Some path \<Rightarrow> path = default_grpc_health_check_path | None \<Rightarrow> True)
                (upstream_error name (''health_check_grpc_service requires health_check_path to be '' @ quoted default_grpc_health_check_path)))
            (and_then (ensure (uc_protocol u \<noteq> CfgHttp1)
                (upstream_error name ''health_check_grpc_service requires protocol `Auto`, `Http2`, or `H2c`''))
              (ensure (list_all (peer_has_scheme env required_scheme) (uc_peers u))
                (upstream_error name (if uc_protocol u = CfgH2c
                   then ''health_check_grpc_service with protocol `H2c` requires all peers to use `http://`''
                   else ''health_check_grpc_service currently requires all peers to use `https://`; cleartext h2c health checks are not supported'')))))))"

definition validate_active_health_settings :: "config_env \<Rightarrow> upstream_config \<Rightarrow> string + unit" where
  "validate_active_health_settings env u =
     (let name = uc_name u;
          overrides = uc_health_check_interval_secs u \<noteq> None \<or> uc_health_check_timeout_secs u \<noteq> None \<or> uc_healthy_successes_required u \<noteq> None
      in and_then (validate_health_path env u)
        (and_then (validate_grpc_health env u)
        (and_then (ensure (\<not> (uc_health_check_path u = None \<and> uc_health_check_grpc_service u = None \<and> overrides))
            (upstream_error name ''active health-check tuning requires health_check_path or health_check_grpc_service to be set''))
        (for_each (validate_nonzero name)
           [(''health_check_interval_secs'', uc_health_check_interval_secs u), (''health_check_timeout_secs'', uc_health_check_timeout_secs u),
            (''healthy_successes_required'', uc_healthy_successes_required u)]))))"

fun validate_upstreams_from :: "config_env \<Rightarrow> string set \<Rightarrow> upstream_config list \<Rightarrow> string + string set" where
  "validate_upstreams_from env names [] = Inr names"
| "validate_upstreams_from env names (u # us) =
     bind_res (validate_upstream_name_and_peers names u) (\<lambda>names1.
       and_then (validate_upstream_tls_settings u)
      (and_then (validate_server_name_override u)
      (and_then (validate_protocol_requirements env u)
      (and_then (validate_dns_settings u)
      (and_then (validate_timeout_and_tuning u)
      (and_then (validate_active_health_settings env u)
        (validate_upstreams_from env names1 us)))))))"

definition validate_upstreams :: "config_env \<Rightarrow> upstream_config list \<Rightarrow> string + string set" where
  "validate_upstreams env us = validate_upstreams_from env {} us"

section \<open>Compilation\<close>

text \<open>\<open>usize\<close> has 64 bits; \<open>Path::join\<close> of a relative path.\<close>

definition join_path :: "path_buf \<Rightarrow> string \<Rightarrow> path_buf" where
  "join_path base path = (if base = [] \<or> str_ends_with base ''/'' then base @ path else base @ ''/'' @ path)"

definition resolve_path :: "path_buf \<Rightarrow> string \<Rightarrow> path_buf" where
  "resolve_path base path = (if str_starts_with path ''/'' then path else join_path base path)"

definition usize_from :: "nat \<Rightarrow> string \<Rightarrow> string + nat" where
  "usize_from n message = (if n \<le> u64_max then Inr n else Inl message)"

definition compile_peer :: "config_env \<Rightarrow> string \<Rightarrow> upstream_peer_config \<Rightarrow> string + upstream_peer" where
  "compile_peer env name p =
     (let url = upc_url p; err = (\<lambda>rest. upstream_error name (''peer '' @ quoted url @ '' '' @ rest))
      in bind_res (map_sum ((@) ''invalid uri: '') id (cf_parse_uri env url)) (\<lambda>uri.
           case pu_scheme uri of
             None \<Rightarrow> Inl (err ''must include a scheme'')
           | Some scheme \<Rightarrow>
               (case pu_authority uri of
                  None \<Rightarrow> Inl (err ''must include an authority'')
                | Some authority \<Rightarrow>
                    and_then (ensure (scheme = ''http'' \<or> scheme = ''https'')
                        (err (''uses unsupported scheme '' @ quoted scheme @ ''; only `http` and `https` are supported in this build'')))
                   (and_then (ensure (pu_path uri = ''/'' \<or> pu_path uri = []) (err ''must not contain a path''))
                   (and_then (ensure (pu_query uri = None) (err ''must not contain a query''))
                     (bind_res (transpose_res (map_option (\<lambda>v. usize_from v (upstream_error name (''peer '' @ quoted authority
                           @ '' max_conns '' @ quoted (show_nat v) @ '' does not fit into usize''))) (upc_max_conns p)))
                       (\<lambda>max_conns. Inr \<lparr> peer_url = url, peer_scheme = scheme, peer_authority = authority, peer_weight = upc_weight p,
                          peer_backup = upc_backup p, peer_max_conns = max_conns \<rparr>)))))))"

definition compile_timeout_secs :: "string \<Rightarrow> string \<Rightarrow> nat \<Rightarrow> string + duration" where
  "compile_timeout_secs name field raw =
     (if raw = 0 then Inl (upstream_error name (field @ '' must be greater than 0'')) else Inr (from_secs raw))"

definition compile_protocol :: "string \<Rightarrow> upstream_protocol_config \<Rightarrow> upstream_peer list \<Rightarrow> string + upstream_protocol" where
  "compile_protocol name protocol peers =
     (case protocol of
        CfgAuto \<Rightarrow> Inr ProtoAuto
      | CfgHttp1 \<Rightarrow> Inr ProtoHttp1
      | CfgHttp2 \<Rightarrow> and_then (ensure (list_all (\<lambda>p. peer_scheme p = ''https'') peers) (upstream_error name
          ''protocol `Http2` currently requires all peers to use `https://`; cleartext h2c upstreams are not supported'')) (Inr ProtoHttp2)
      | CfgH2c \<Rightarrow> and_then (ensure (list_all (\<lambda>p. peer_scheme p = ''http'') peers) (upstream_error name
          ''protocol `H2c` requires all peers to use `http://`'')) (Inr ProtoH2c)
      | CfgHttp3 \<Rightarrow> and_then (ensure (list_all (\<lambda>p. peer_scheme p = ''https'') peers) (upstream_error name
          ''protocol `Http3` currently requires all peers to use `https://`; cleartext upstreams are not supported'')) (Inr ProtoHttp3))"

fun compile_load_balance :: "upstream_load_balance_config \<Rightarrow> upstream_load_balance" where
  "compile_load_balance CfgRoundRobin = RoundRobin"
| "compile_load_balance CfgIpHash = IpHash"
| "compile_load_balance CfgLeastConn = LeastConn"

definition normalize_server_name_override :: "string \<Rightarrow> string" where
  "normalize_server_name_override v =
     (let t = str_trim v
      in case strip_prefix t ''['' of
           None \<Rightarrow> t
         | Some c \<Rightarrow> (case strip_suffix c '']'' of Some inner \<Rightarrow> inner | None \<Rightarrow> t))"

definition compile_server_name_override :: "config_env \<Rightarrow> string \<Rightarrow> string option \<Rightarrow> string + string option" where
  "compile_server_name_override env name override =
     (case override of
        None \<Rightarrow> Inr None
      | Some v \<Rightarrow>
          (let normalized = normalize_server_name_override v
           in case cf_parse_server_name env normalized of
                Inr _ \<Rightarrow> Inr (Some normalized)
              | Inl e \<Rightarrow> Inl (upstream_error name (''server_name_override '' @ quoted normalized @ '' is invalid: '' @ e))))"

definition compile_dns_policy :: "string \<Rightarrow> upstream_dns_config option \<Rightarrow> string + upstream_dns_policy" where
  "compile_dns_policy name dns =
     (case dns of
        None \<Rightarrow> Inr default_upstream_dns_policy
      | Some d \<Rightarrow>
          bind_res (collect_res (\<lambda>v. case parse_addr_res v of
                Inr a \<Rightarrow> Inr a
              | Inl e \<Rightarrow> Inl (upstream_error name (''dns.resolver_addrs entry '' @ quoted v @ '' is invalid: '' @ e))) (udc_resolver_addrs d)) (\<lambda>addrs.
          bind_res (compile_timeout_secs name ''dns.min_ttl_secs'' (unwrap_or (udc_min_ttl_secs d) 5)) (\<lambda>min_ttl.
          bind_res (compile_timeout_secs name ''dns.max_ttl_secs'' (unwrap_or (udc_max_ttl_secs d) 300)) (\<lambda>max_ttl.
          bind_res (compile_timeout_secs name ''dns.negative_ttl_secs'' (unwrap_or (udc_negative_ttl_secs d) 30)) (\<lambda>negative_ttl.
          bind_res (compile_timeout_secs name ''dns.stale_if_error_secs'' (unwrap_or (udc_stale_if_error_secs d) 60)) (\<lambda>stale_if_error.
          bind_res (compile_timeout_secs name ''dns.refresh_before_expiry_secs'' (unwrap_or (udc_refresh_before_expiry_secs d) 10)) (\<lambda>refresh.
          and_then (ensure (min_ttl \<le> max_ttl) (upstream_error name ''dns.min_ttl_secs must be less than or equal to dns.max_ttl_secs''))
            (Inr \<lparr> dns_resolver_addrs = addrs, dns_min_ttl = min_ttl, dns_max_ttl = max_ttl, dns_negative_ttl = negative_ttl,
               dns_stale_if_error = stale_if_error, dns_refresh_before_expiry = refresh,
               dns_prefer_ipv4 = unwrap_or (udc_prefer_ipv4 d) False, dns_prefer_ipv6 = unwrap_or (udc_prefer_ipv6 d) False \<rparr>))))))))"

record compiled_upstream_tls =
  cut_verify_mode :: upstream_tls
  cut_tls_versions :: "tls_version list option"
  cut_server_verify_depth :: "nat option"
  cut_server_crl_path :: "path_buf option"
  cut_client_identity :: "client_identity option"

fun compile_tls_version :: "tls_version_config \<Rightarrow> tls_version" where
  "compile_tls_version CfgTls12 = Tls12"
| "compile_tls_version CfgTls13 = Tls13"

definition existing_file :: "config_env \<Rightarrow> string \<Rightarrow> string \<Rightarrow> path_buf \<Rightarrow> string \<Rightarrow> string + path_buf" where
  "existing_file env name what base path =
     (let resolved = resolve_path base path
      in and_then (ensure (cf_is_file env resolved) (upstream_error name (what @ '' file '' @ quoted resolved @ '' does not exist or is not a file'')))
           (Inr resolved))"

definition default_upstream_tls_config :: upstream_tls_config where
  "default_upstream_tls_config = \<lparr> utc_verify = CfgNativeRoots, utc_versions = None, utc_verify_depth = None, utc_crl_path = None,
     utc_client_cert_path = None, utc_client_key_path = None \<rparr>"

definition compile_upstream_tls :: "config_env \<Rightarrow> string \<Rightarrow> path_buf \<Rightarrow> upstream_tls_config option \<Rightarrow> string + compiled_upstream_tls" where
  "compile_upstream_tls env name base tls0 =
     (let tls = unwrap_or tls0 default_upstream_tls_config
      in bind_res (case utc_verify tls of
             CfgNativeRoots \<Rightarrow> Inr NativeRoots
           | CfgInsecure \<Rightarrow> Inr Insecure
           | CfgCustomCa ca \<Rightarrow> map_sum id CustomCa (existing_file env name ''custom CA'' base ca)) (\<lambda>verify_mode.
         bind_res (transpose_res (map_option (existing_file env name ''CRL'' base) (utc_crl_path tls))) (\<lambda>crl.
         bind_res (case (utc_client_cert_path tls, utc_client_key_path tls) of
             (None, None) \<Rightarrow> Inr None
           | (Some cert, Some key) \<Rightarrow>
               bind_res (existing_file env name ''client certificate'' base cert) (\<lambda>c.
               bind_res (existing_file env name ''client private key'' base key) (\<lambda>k.
                 Inr (Some \<lparr> ci_cert_path = c, ci_key_path = k \<rparr>)))
           | _ \<Rightarrow> Inl (upstream_error name ''mTLS identity requires both client_cert_path and client_key_path'')) (\<lambda>identity.
         Inr \<lparr> cut_verify_mode = verify_mode, cut_tls_versions = map_option (map compile_tls_version) (utc_versions tls),
               cut_server_verify_depth = utc_verify_depth tls, cut_server_crl_path = crl, cut_client_identity = identity \<rparr>))))"

definition compile_active_health_check :: "config_env \<Rightarrow> string \<Rightarrow> upstream_config \<Rightarrow> string + active_health_check option" where
  "compile_active_health_check env name u =
     (case (case (uc_health_check_path u, uc_health_check_grpc_service u) of
              (Some path, _) \<Rightarrow> Some path
            | (None, Some _) \<Rightarrow> Some default_grpc_health_check_path
            | (None, None) \<Rightarrow> None) of
        None \<Rightarrow> Inr None
      | Some path \<Rightarrow>
          (case cf_parse_path_and_query env path of
             Inl e \<Rightarrow> Inl (upstream_error name (''health_check_path '' @ quoted path @ '' is invalid: '' @ e))
           | Inr _ \<Rightarrow> Inr (Some \<lparr> ahc_path = path, ahc_grpc_service = uc_health_check_grpc_service u,
               ahc_interval = from_secs (unwrap_or (uc_health_check_interval_secs u) 5),
               ahc_timeout = from_secs (unwrap_or (uc_health_check_timeout_secs u) 2),
               ahc_healthy_successes_required = unwrap_or (uc_healthy_successes_required u) 2 \<rparr>)))"

definition compile_pool_idle_timeout :: "string \<Rightarrow> nat option \<Rightarrow> string + duration option" where
  "compile_pool_idle_timeout name secs =
     (case secs of
        Some t \<Rightarrow> if t = 0 then Inr None else map_sum id Some (compile_timeout_secs name ''pool_idle_timeout_secs'' t)
      | None \<Rightarrow> Inr (Some (from_secs 90)))"

definition timeout_or :: "string \<Rightarrow> string \<Rightarrow> nat option \<Rightarrow> upstream_config \<Rightarrow> string + duration" where
  "timeout_or name field own u = compile_timeout_secs name field (unwrap_or (or_else own (uc_request_timeout_secs u)) 30)"

definition compile_upstream :: "config_env \<Rightarrow> path_buf \<Rightarrow> (string \<Rightarrow> string) \<Rightarrow> upstream_config \<Rightarrow> string + string \<times> upstream" where
  "compile_upstream env base name_mapper u =
     (let name = name_mapper (uc_name u)
      in bind_res (collect_res (compile_peer env name) (uc_peers u)) (\<lambda>peers.
         bind_res (compile_upstream_tls env name base (uc_tls u)) (\<lambda>tls.
         bind_res (compile_protocol name (uc_protocol u) peers) (\<lambda>protocol.
         bind_res (compile_dns_policy name (uc_dns u)) (\<lambda>dns.
         bind_res (compile_server_name_override env name (uc_server_name_override u)) (\<lambda>override.
         bind_res (timeout_or name ''read_timeout_secs'' (uc_read_timeout_secs u) u) (\<lambda>request_timeout.
         bind_res (timeout_or name ''connect_timeout_secs'' (uc_connect_timeout_secs u) u) (\<lambda>connect_timeout.
         bind_res (timeout_or name ''write_timeout_secs'' (uc_write_timeout_secs u) u) (\<lambda>write_timeout.
         bind_res (timeout_or name ''idle_timeout_secs'' (uc_idle_timeout_secs u) u) (\<lambda>idle_timeout.
         bind_res (compile_pool_idle_timeout name (uc_pool_idle_timeout_secs u)) (\<lambda>pool_idle.
         bind_res (let n = unwrap_or (uc_pool_max_idle_per_host u) u64_max
                   in usize_from n (upstream_error name (''pool_max_idle_per_host '' @ quoted (show_nat n) @ '' exceeds platform limits''))) (\<lambda>pool_max.
         bind_res (transpose_res (map_option (compile_timeout_secs name ''tcp_keepalive_secs'') (uc_tcp_keepalive_secs u))) (\<lambda>keepalive.
         bind_res (transpose_res (map_option (compile_timeout_secs name ''http2_keep_alive_interval_secs'') (uc_http2_keep_alive_interval_secs u))) (\<lambda>h2_interval.
         bind_res (compile_timeout_secs name ''http2_keep_alive_timeout_secs'' (unwrap_or (uc_http2_keep_alive_timeout_secs u) 20)) (\<lambda>h2_timeout.
         bind_res (let n = unwrap_or (uc_max_replayable_request_body_bytes u) 65536
                   in usize_from n (upstream_error name (''max_replayable_request_body_bytes '' @ quoted (show_nat n) @ '' exceeds platform limits''))) (\<lambda>replayable.
         bind_res (compile_active_health_check env name u) (\<lambda>health.
         Inr (name, upstream_new name peers (cut_verify_mode tls)
           \<lparr> up_protocol = protocol, up_load_balance = compile_load_balance (uc_load_balance u), up_dns = dns,
             up_server_name = unwrap_or (uc_server_name u) True, up_server_name_override = override,
             up_tls_versions = cut_tls_versions tls, up_server_verify_depth = cut_server_verify_depth tls,
             up_server_crl_path = cut_server_crl_path tls, up_client_identity = cut_client_identity tls,
             up_request_timeout = request_timeout, up_connect_timeout = connect_timeout, up_write_timeout = write_timeout,
             up_idle_timeout = idle_timeout, up_pool_idle_timeout = pool_idle, up_pool_max_idle_per_host = pool_max,
             up_tcp_keepalive = keepalive, up_tcp_nodelay = unwrap_or (uc_tcp_nodelay u) False,
             up_http2_keep_alive_interval = h2_interval, up_http2_keep_alive_timeout = h2_timeout,
             up_http2_keep_alive_while_idle = unwrap_or (uc_http2_keep_alive_while_idle u) False,
             up_max_replayable_request_body_bytes = replayable, up_unhealthy_after_failures = unwrap_or (uc_unhealthy_after_failures u) 2,
             up_unhealthy_cooldown = from_secs (unwrap_or (uc_unhealthy_cooldown_secs u) 10), up_active_health_check = health \<rparr>))))))))))))))))))"

text \<open>The map of compiled upstreams, as the list of its insertions.\<close>

definition duplicate_name :: "(string \<times> 'a) list \<Rightarrow> string option" where
  "duplicate_name xs = map_option (\<lambda>i. fst (xs ! i)) (find (\<lambda>i. fst (xs ! i) \<in> set (map fst (take i xs))) [0..<length xs])"

definition compile_upstreams_with_names ::
    "config_env \<Rightarrow> path_buf \<Rightarrow> (string \<Rightarrow> string) \<Rightarrow> upstream_config list \<Rightarrow> string + (string \<times> upstream) list" where
  "compile_upstreams_with_names env base name_mapper us =
     bind_res (collect_res (compile_upstream env base name_mapper) us) (\<lambda>compiled.
       case duplicate_name compiled of
         Some name \<Rightarrow> Inl (''duplicate compiled upstream '' @ quoted name)
       | None \<Rightarrow> Inr compiled)"

definition compile_upstreams :: "config_env \<Rightarrow> path_buf \<Rightarrow> upstream_config list \<Rightarrow> string + (string \<times> upstream) list" where
  "compile_upstreams env base us = compile_upstreams_with_names env base (\<lambda>name. name) us"

definition scoped_upstream_name :: "string \<Rightarrow> string \<Rightarrow> string" where
  "scoped_upstream_name scope name = scope @ ''::'' @ name"

definition compile_scoped_upstreams :: "config_env \<Rightarrow> path_buf \<Rightarrow> string \<Rightarrow> upstream_config list \<Rightarrow> string + (string \<times> upstream) list" where
  "compile_scoped_upstreams env base scope us = compile_upstreams_with_names env base (scoped_upstream_name scope) us"

section \<open>What a compiled upstream is\<close>

lemma usize_from_Inr: "usize_from n m = Inr k \<longleftrightarrow> k = n \<and> n \<le> u64_max"
  by (auto simp: usize_from_def)

lemma transpose_usize: "transpose_res (map_option (\<lambda>v. usize_from v (m v)) x) = Inr y \<longleftrightarrow> y = x \<and> (\<forall>n. x = Some n \<longrightarrow> n \<le> u64_max)"
  by (cases x; cases y) (auto simp: transpose_res_Inr usize_from_Inr)

lemma list_all2_provider: "list_all2 P xs ys \<Longrightarrow> y \<in> set ys \<Longrightarrow> \<exists>x \<in> set xs. P x y"
  by (induction rule: list_all2_induct) auto

lemma compile_peer_facts:
  assumes "compile_peer env name p = Inr q"
  shows "peer_weight q = upc_weight p" and "peer_max_conns q = upc_max_conns p" and "peer_url q = upc_url p"
    and "peer_scheme q = ''http'' \<or> peer_scheme q = ''https''"
    and "\<And>n. peer_max_conns q = Some n \<Longrightarrow> n \<le> u64_max"
proof -
  obtain uri where "cf_parse_uri env (upc_url p) = Inr uri"
    using assms by (cases "cf_parse_uri env (upc_url p)") (simp_all add: compile_peer_def Let_def)
  moreover obtain scheme where "pu_scheme uri = Some scheme"
    using assms calculation by (cases "pu_scheme uri") (simp_all add: compile_peer_def)
  moreover obtain authority where "pu_authority uri = Some authority"
    using assms calculation by (cases "pu_authority uri") (simp_all add: compile_peer_def)
  ultimately have "(scheme = ''http'' \<or> scheme = ''https'') \<and> (\<forall>n. upc_max_conns p = Some n \<longrightarrow> n \<le> u64_max)
      \<and> q = \<lparr> peer_url = upc_url p, peer_scheme = scheme, peer_authority = authority, peer_weight = upc_weight p,
             peer_backup = upc_backup p, peer_max_conns = upc_max_conns p \<rparr>"
    using assms by (auto simp: compile_peer_def Let_def bind_res_Inr transpose_usize)
  then show "peer_weight q = upc_weight p" and "peer_max_conns q = upc_max_conns p" and "peer_url q = upc_url p"
    and "peer_scheme q = ''http'' \<or> peer_scheme q = ''https''"
    and "\<And>n. peer_max_conns q = Some n \<Longrightarrow> n \<le> u64_max" by auto
qed

lemma compile_timeout_pos: "compile_timeout_secs name field raw = Inr d \<Longrightarrow> 0 < d"
  by (auto simp: compile_timeout_secs_def from_secs_def split: if_splits)

lemma timeout_or_pos: "timeout_or name field own u = Inr d \<Longrightarrow> 0 < d"
  unfolding timeout_or_def by (rule compile_timeout_pos)

text \<open>The part of an upstream that each step of the compilation gives.\<close>

lemma compile_upstream_parts:
  assumes "compile_upstream env base f u = Inr (n, c)"
  shows "n = f (uc_name u)" and "up_name c = n"
    and "list_all2 (\<lambda>p q. compile_peer env n p = Inr q) (uc_peers u) (up_peers c)"
    and "compile_protocol n (uc_protocol u) (up_peers c) = Inr (up_protocol c)"
    and "compile_dns_policy n (uc_dns u) = Inr (up_dns c)"
    and "0 < up_request_timeout c" and "0 < up_connect_timeout c" and "0 < up_write_timeout c" and "0 < up_idle_timeout c"
    and "compile_active_health_check env n u = Inr (up_active_health_check c)"
    and "up_unhealthy_after_failures c = unwrap_or (uc_unhealthy_after_failures u) 2"
    and "up_unhealthy_cooldown c = from_secs (unwrap_or (uc_unhealthy_cooldown_secs u) 10)"
  using assms unfolding compile_upstream_def Let_def
  by (auto simp: bind_res_Inr upstream_new_def upstream_settings.defs upstream.defs collect_res_Inr elim!: timeout_or_pos)

lemma compile_protocol_schemes:
  assumes "compile_protocol name cfg peers = Inr protocol"
  shows "(protocol = ProtoHttp2 \<or> protocol = ProtoHttp3 \<longrightarrow> (\<forall>p \<in> set peers. peer_scheme p = ''https''))
     \<and> (protocol = ProtoH2c \<longrightarrow> (\<forall>p \<in> set peers. peer_scheme p = ''http''))"
  using assms by (auto simp: compile_protocol_def list_all_iff split: upstream_protocol_config.splits)

lemma compile_dns_order: "compile_dns_policy name dns = Inr d \<Longrightarrow> 0 < dns_min_ttl d \<and> dns_min_ttl d \<le> dns_max_ttl d \<and> 0 < dns_negative_ttl d"
  by (auto simp: compile_dns_policy_def default_upstream_dns_policy_def from_secs_def bind_res_Inr split: option.splits
      dest: compile_timeout_pos)

lemma duplicate_name_None: "duplicate_name xs = None \<longleftrightarrow> distinct (map fst xs)"
proof -
  have "distinct ys \<longleftrightarrow> (\<forall>i < length ys. ys ! i \<notin> set (take i ys))" for ys :: "string list"
  proof (induction ys rule: rev_induct)
    case (snoc y ys)
    have "(ys @ [y]) ! i \<notin> set (take i (ys @ [y])) \<longleftrightarrow> ys ! i \<notin> set (take i ys)" if "i < length ys" for i
      using that by (simp add: nth_append)
    then show ?case using snoc by (auto simp: less_Suc_eq)
  qed simp
  then show ?thesis by (auto simp: duplicate_name_def find_None_iff take_map)
qed

definition runnable_upstream :: "upstream \<Rightarrow> bool" where
  "runnable_upstream u \<longleftrightarrow> up_peers u \<noteq> []
     \<and> (\<forall>p \<in> set (up_peers u). 0 < peer_weight p \<and> peer_max_conns p \<noteq> Some 0 \<and> (peer_scheme p = ''http'' \<or> peer_scheme p = ''https''))
     \<and> (up_protocol u = ProtoHttp2 \<or> up_protocol u = ProtoHttp3 \<longrightarrow> (\<forall>p \<in> set (up_peers u). peer_scheme p = ''https''))
     \<and> (up_protocol u = ProtoH2c \<longrightarrow> (\<forall>p \<in> set (up_peers u). peer_scheme p = ''http''))
     \<and> 0 < up_request_timeout u \<and> 0 < up_connect_timeout u \<and> 0 < up_write_timeout u \<and> 0 < up_idle_timeout u
     \<and> 0 < dns_min_ttl (up_dns u) \<and> dns_min_ttl (up_dns u) \<le> dns_max_ttl (up_dns u) \<and> 0 < dns_negative_ttl (up_dns u)
     \<and> 0 < up_unhealthy_after_failures u \<and> 0 < up_unhealthy_cooldown u
     \<and> (\<forall>h. up_active_health_check u = Some h \<longrightarrow> 0 < ahc_interval h \<and> 0 < ahc_timeout h \<and> 0 < ahc_healthy_successes_required h)"

text \<open>What validation asks of one upstream.\<close>

lemma validate_upstreams_each:
  assumes "validate_upstreams_from env names us = Inr names'"
  shows "\<forall>u \<in> set us. uc_peers u \<noteq> [] \<and> (\<forall>p \<in> set (uc_peers u). validate_peer u p = Inr ())
       \<and> validate_timeout_and_tuning u = Inr () \<and> validate_active_health_settings env u = Inr ()"
    and "distinct (map uc_name us)" and "set (map uc_name us) \<inter> names = {}" and "names' = names \<union> set (map uc_name us)"
  using assms
proof (induction us arbitrary: names)
  case (Cons u us)
  {
    case 1
    with Cons.IH(1) show ?case by (auto simp: bind_res_Inr validate_upstream_name_and_peers_def)
  next
    case 2
    with Cons.IH(2,3) show ?case by (fastforce simp: bind_res_Inr validate_upstream_name_and_peers_def)
  next
    case 3
    with Cons.IH(3) show ?case by (fastforce simp: bind_res_Inr validate_upstream_name_and_peers_def)
  next
    case 4
    with Cons.IH(4) show ?case by (auto simp: bind_res_Inr validate_upstream_name_and_peers_def)
  }
qed simp_all

lemma compiled_health_positive:
  assumes "compile_active_health_check env n u = Inr (Some h)" and "validate_active_health_settings env u = Inr ()"
  shows "0 < ahc_interval h \<and> 0 < ahc_timeout h \<and> 0 < ahc_healthy_successes_required h"
  using assms
  by (auto simp: compile_active_health_check_def validate_active_health_settings_def validate_nonzero_def zero_def Let_def from_secs_def
      unwrap_or_def split: option.splits sum.splits)

lemma validated_compiled_runnable:
  assumes "compile_upstream env base f u = Inr (n, c)" and "uc_peers u \<noteq> []" and "\<forall>p \<in> set (uc_peers u). validate_peer u p = Inr ()"
    and "validate_timeout_and_tuning u = Inr ()" and "validate_active_health_settings env u = Inr ()"
  shows "runnable_upstream c"
proof -
  note parts = compile_upstream_parts [OF assms(1)]
  have peers: "0 < peer_weight q \<and> peer_max_conns q \<noteq> Some 0 \<and> (peer_scheme q = ''http'' \<or> peer_scheme q = ''https'')" if q: "q \<in> set (up_peers c)" for q
  proof -
    obtain p where "p \<in> set (uc_peers u)" and p: "compile_peer env n p = Inr q"
      using list_all2_provider [OF parts(3) q] by blast
    then have "upc_weight p \<noteq> 0" "upc_max_conns p \<noteq> Some 0" using assms(3) by (auto simp: validate_peer_def)
    with compile_peer_facts [OF p] show ?thesis by simp
  qed
  have "up_peers c \<noteq> []" using parts(3) assms(2) by auto
  moreover have "0 < up_unhealthy_after_failures c \<and> 0 < up_unhealthy_cooldown c"
    using assms(4) parts(11,12)
    by (auto simp: validate_timeout_and_tuning_def validate_nonzero_def zero_def unwrap_or_def from_secs_def Let_def split: option.splits)
  moreover have "0 < ahc_interval h \<and> 0 < ahc_timeout h \<and> 0 < ahc_healthy_successes_required h" if "up_active_health_check c = Some h" for h
    using compiled_health_positive [OF _ assms(5), of n h] parts(10) that by simp
  ultimately show ?thesis
    using peers parts(6-9) compile_protocol_schemes [OF parts(4)] compile_dns_order [OF parts(5)]
    unfolding runnable_upstream_def by simp
qed

text \<open>
  C40.  A configuration that passes gives upstreams that can be run.  When the
  upstreams of a configuration pass validation and compile, every one of them
  is there under its own name and no other, each has a peer, every weight and
  timeout is positive, peers speak the scheme their protocol needs, and the
  bounds on the lifetime of DNS answers are in order: what the selection of
  peers, the resolver and the health checks rely on.
\<close>

theorem compiled_upstreams_are_runnable:
  assumes "validate_upstreams env us = Inr names" and "compile_upstreams env base us = Inr compiled"
  shows "map fst compiled = map uc_name us \<and> distinct (map fst compiled) \<and> names = set (map fst compiled)
     \<and> (\<forall>(n, u) \<in> set compiled. up_name u = n \<and> runnable_upstream u)"
proof -
  note valid = validate_upstreams_each [OF assms(1) [unfolded validate_upstreams_def]]
  have all: "list_all2 (\<lambda>u nc. compile_upstream env base (\<lambda>name. name) u = Inr nc) us compiled"
    using assms(2) by (auto simp: compile_upstreams_def compile_upstreams_with_names_def bind_res_Inr collect_res_Inr split: option.splits)
  have "map fst compiled = map uc_name us"
    using all by (induction rule: list_all2_induct) (auto dest: compile_upstream_parts(1))
  moreover have "up_name u = n \<and> runnable_upstream u" if nu: "(n, u) \<in> set compiled" for n u
  proof -
    obtain cfg where "cfg \<in> set us" and cfg: "compile_upstream env base (\<lambda>name. name) cfg = Inr (n, u)"
      using list_all2_provider [OF all nu] by blast
    then show ?thesis using valid(1) compile_upstream_parts(2) [OF cfg] validated_compiled_runnable [OF cfg] by blast
  qed
  ultimately show ?thesis using valid(2,4) by auto
qed

definition sample_upstream_config :: upstream_config where
  "sample_upstream_config = \<lparr> uc_name = ''u'',
     uc_peers = [\<lparr> upc_url = ''http://a'', upc_weight = 1, upc_backup = False, upc_max_conns = None \<rparr>], uc_tls = None, uc_dns = None,
     uc_protocol = CfgAuto, uc_load_balance = CfgRoundRobin, uc_server_name = None, uc_server_name_override = None,
     uc_request_timeout_secs = None, uc_connect_timeout_secs = None, uc_read_timeout_secs = None, uc_write_timeout_secs = None,
     uc_idle_timeout_secs = None, uc_pool_idle_timeout_secs = None, uc_pool_max_idle_per_host = None, uc_tcp_keepalive_secs = None,
     uc_tcp_nodelay = None, uc_http2_keep_alive_interval_secs = None, uc_http2_keep_alive_timeout_secs = None,
     uc_http2_keep_alive_while_idle = None, uc_max_replayable_request_body_bytes = None, uc_unhealthy_after_failures = None,
     uc_unhealthy_cooldown_secs = None, uc_health_check_path = Some ''/up'', uc_health_check_grpc_service = None,
     uc_health_check_interval_secs = None, uc_health_check_timeout_secs = None, uc_healthy_successes_required = None \<rparr>"

definition sample_config_env :: config_env where
  "sample_config_env = \<lparr> cf_parse_uri = (\<lambda>_. Inr \<lparr> pu_scheme = Some ''http'', pu_authority = Some ''a'', pu_path = ''/'', pu_query = None \<rparr>),
     cf_parse_path_and_query = (\<lambda>_. Inr ()), cf_parse_server_name = (\<lambda>_. Inr ()), cf_is_file = (\<lambda>_. True) \<rparr>"

theorem compiled_upstreams_are_runnable_witness:
  "\<exists>u. compile_upstreams sample_config_env ''/etc'' [sample_upstream_config] = Inr [(''u'', u)] \<and> runnable_upstream u"
proof -
  have v: "validate_upstreams sample_config_env [sample_upstream_config] = Inr {''u''}"
    by (simp add: validate_upstreams_def validate_upstream_name_and_peers_def validate_peer_def validate_upstream_tls_settings_def
        validate_server_name_override_def validate_protocol_requirements_def validate_peer_protocol_def validate_dns_settings_def
        validate_timeout_and_tuning_def validate_active_health_settings_def validate_health_path_def validate_grpc_health_def
        validate_nonzero_def zero_def blank_opt_def blank_def str_trim_def is_ws_def sample_upstream_config_def sample_config_env_def
        ensure_def and_then_def str_starts_with_def)
  obtain c where c: "compile_upstreams sample_config_env ''/etc'' [sample_upstream_config] = Inr [(''u'', c)]"
    by (simp add: compile_upstreams_def compile_upstreams_with_names_def compile_upstream_def compile_peer_def compile_upstream_tls_def
        default_upstream_tls_config_def compile_protocol_def compile_dns_policy_def compile_server_name_override_def timeout_or_def
        compile_timeout_secs_def compile_pool_idle_timeout_def compile_active_health_check_def unwrap_or_def or_else_def usize_from_def u64_max_def
        sample_upstream_config_def sample_config_env_def ensure_def and_then_def Let_def duplicate_name_def)
  from compiled_upstreams_are_runnable [OF v c] c show ?thesis by auto
qed

end
