(* ===== verification/Spec2Isabelle.thy ===== *)
theory Spec2Isabelle
  imports
    Router
    Request_Target
    Client_Ip
    Rate_Limit_Shared
    Health_Proofs
    Health_Snapshot
    Cache_Range
    Cache_Lookup
    Request_Body
    Dispatch_Proofs
    Config_Upstream
begin

text \<open>
  A verification development for rginx, a reverse proxy in Rust.

  \<^bold>\<open>The program.\<close>  \<open>crates/rginx-config\<close> loads, validates and compiles a
  configuration file into the snapshot of \<open>crates/rginx-core\<close>;
  \<open>crates/rginx-http\<close> serves requests against that snapshot;
  \<open>crates/rginx-runtime\<close> and \<open>crates/rginx-app\<close> start the process and its
  admin commands.  A connection is accepted, its PROXY protocol header is read
  when the listener asks for one, and for each request the path is normalised,
  the client address resolved, a virtual host and a route selected, the rate
  limit checked, and a peer of the route's upstream chosen among the endpoints
  that DNS and health checks allow.

  \<^bold>\<open>Theories.\<close>
  \<^item> \<open>Prelude\<close>: Rust strings and integers, generic lemmas on lists.
  \<^item> \<open>Net_Addr\<close>: \<open>std::net\<close> addresses with printer and parser.
  \<^item> \<open>Headers\<close>: the header multimap and the locale of its laws.
  \<^item> \<open>Core_Config\<close>: the configuration types of \<open>rginx-core/src/config\<close>.
  \<^item> \<open>Access_Log\<close>: access log templates, parsed and rendered.
  \<^item> \<open>Server_Name\<close>, \<open>Router\<close>: \<open>server_name.rs\<close>, \<open>virtual_host.rs\<close>,
    \<open>router.rs\<close>: the loops return the earliest candidate of highest rank; the
    locale \<open>ranked_choice\<close> states this once for hosts and routes.
  \<^item> \<open>Request_Target\<close>: \<open>request_target.rs\<close>, no dot segment survives.
  \<^item> \<open>Client_Ip\<close>: \<open>proxy_protocol.rs\<close>, \<open>client_ip.rs\<close>: only trusted peers
    influence the client address, and the chain is read from the right.
  \<^item> \<open>Rate_Limit\<close>, \<open>Shared_Memory\<close>, \<open>Rate_Limit_Shared\<close>:
    \<open>rate_limit\<close> and \<open>cache/shared/memory.rs\<close>: both limiters refine one token
    bucket per route and client, so eviction and sharding are invisible.
  \<^item> \<open>Upstream_Select\<close>: \<open>upstream/selection.rs\<close>: weighted fairness and the
    stable client hash.
  \<^item> \<open>Resolver\<close>: \<open>proxy/resolver\<close>: answers are fresh or within the stale window.
  \<^item> \<open>Health_Registry\<close>, \<open>Health_Proofs\<close>, \<open>Health_Snapshot\<close>:
    \<open>proxy/health/registry\<close>: health states on a heap, guards of running
    requests, selection of available peers, and the operators' view.

  \<^bold>\<open>State and steps.\<close>  A struct is a record whose fields carry a short prefix,
  an enum a datatype, an error a value.  Code under a lock is one step;
  operations that release the lock in between (the resolver) are several.
  Interleavings are the runs of inductive step relations.

  \<^bold>\<open>Bounds.\<close>  No definition uses fuel: loops recurse on lists or carry a
  measure, and every model function is total.  Counters that wrap in the source
  wrap in the model.  The tokens of the limiters are rationals where the source
  has \<open>f64\<close>; times are natural numbers of nanoseconds or milliseconds.

  \<^bold>\<open>Arguments of the model.\<close>  The \<open>regex\<close> and \<open>ipnet\<close> crates, the DNS library,
  \<open>serde_json\<close>, the default hasher and the clock are arguments of the
  definitions that use them.

  \<^bold>\<open>Not modelled.\<close>  Sockets, TLS, HTTP framing and process control are library
  or operating system glue.  The response cache, gRPC-Web translation,
  compression negotiation, retries, counters and the validation and
  compilation of configurations are the program's own logic still to come, in
  that order.
\<close>

end
